(* ===== verification/Prelude.thy ===== *)
theory Prelude
  imports Main "HOL-Library.AList" "HOL-Library.List_Lexorder" "HOL-Library.Char_ord"
    "HOL-Library.Multiset"
begin

text \<open>
  The vocabulary the component theories share.

  \<^item> Go errors. A Go \<open>error\<close> value is a message built by \<open>fmt.Errorf\<close>/\<open>errors.New\<close>, a
    package-level sentinel compared by identity, or a value of one of the program's error types.
    \<open>goerr\<close> keeps the source's format string and its arguments instead of the rendered text, so
    two different failures are two different values and \<open>errors.Is\<close>/\<open>errors.As\<close> are functions of it.
    A fallible operation returns \<open>'a res\<close>: \<open>Inl\<close> the error, \<open>Inr\<close> the value.
  \<^item> Go maps. A Go map is its list of (key, value) pairs in the order a \<open>range\<close> loop happens to
    visit them, keys distinct (\<open>gm_wf\<close>). Reads and writes go through \<open>gm_get\<close>, \<open>gm_put\<close>, \<open>gm_del\<close>;
    the visiting order is unspecified in Go, so facts about loops over a map are proved for
    every order.
  \<^item> Generic list facts the components share.
\<close>

named_theorems go_map "reads, writes and sizes of Go maps"
named_theorems wf_intro "well-formedness is kept by an operation"

section \<open>Errors\<close>

datatype goerr =
    Errorf string "earg list"        \<comment> \<open>\<open>fmt.Errorf(format, args)\<close>, \<open>errors.New(text)\<close>\<close>
  | Sentinel string                  \<comment> \<open>a package-level error variable, by name\<close>
  | InvalidError string "earg list"  \<comment> \<open>\<open>*manager.InvalidError\<close>\<close>
  | IncompatibleError string "earg list"  \<comment> \<open>\<open>*manager.IncompatibleError\<close>\<close>
  | RequirementError string "string list" string "earg list"
      \<comment> \<open>\<open>*manager.RequirementError\<close>: field, options, message\<close>
  | StatusError int string string    \<comment> \<open>\<open>*protocol.StatusError\<close>: status, code, message\<close>
  | SkipError string                 \<comment> \<open>\<open>contract.errSkip\<close>\<close>
and earg =
    AStr string
  | AInt int
  | AStrs "string list"
  | AErr goerr                       \<comment> \<open>an error formatted with \<open>%v\<close>\<close>
  | AWrap goerr                      \<comment> \<open>an error formatted with \<open>%w\<close>\<close>

type_synonym 'a res = "goerr + 'a"

text \<open>\<open>errors.Is\<close>: the error itself, or one it wraps with \<open>%w\<close>.\<close>

fun errors_is :: "goerr \<Rightarrow> goerr \<Rightarrow> bool" where
  "errors_is (Errorf f as) t =
     (Errorf f as = t \<or> list_ex (\<lambda>a. case a of AWrap e \<Rightarrow> errors_is e t | _ \<Rightarrow> False) as)"
| "errors_is e t = (e = t)"

text \<open>\<open>errors.As\<close> for a typed error: the first value along the \<open>%w\<close> chain the predicate accepts.\<close>

fun errors_as :: "(goerr \<Rightarrow> bool) \<Rightarrow> goerr \<Rightarrow> goerr option" where
  "errors_as p (Errorf f as) =
     (if p (Errorf f as) then Some (Errorf f as)
      else foldr (\<lambda>a r. case a of AWrap e \<Rightarrow>
             (case errors_as p e of Some x \<Rightarrow> Some x | None \<Rightarrow> r) | _ \<Rightarrow> r) as None)"
| "errors_as p e = (if p e then Some e else None)"

lemma errors_is_refl [simp]: "errors_is e e"
  by (cases e) auto

lemma errors_is_wrap [simp]: "errors_is e t \<Longrightarrow> errors_is (Errorf f [AWrap e]) t"
  by simp

section \<open>Results\<close>

definition res_ok :: "'a res \<Rightarrow> bool" where
  "res_ok r = (case r of Inr _ \<Rightarrow> True | Inl _ \<Rightarrow> False)"

lemma res_ok_simps [simp]: "res_ok (Inr x)" "\<not> res_ok (Inl e)"
  by (simp_all add: res_ok_def)

text \<open>Sequencing of fallible steps, stopping at the first error (\<open>if err != nil { return err }\<close>).\<close>

definition res_bind :: "'a res \<Rightarrow> ('a \<Rightarrow> 'b res) \<Rightarrow> 'b res" where
  "res_bind r f = (case r of Inl e \<Rightarrow> Inl e | Inr x \<Rightarrow> f x)"

lemma res_bind_simps [simp]:
  "res_bind (Inl e) f = Inl e" "res_bind (Inr x) f = f x"
  by (simp_all add: res_bind_def)

lemma res_bind_Inr: "res_bind r f = Inr y \<longleftrightarrow> (\<exists>x. r = Inr x \<and> f x = Inr y)"
  by (cases r) auto

section \<open>Go maps\<close>

type_synonym ('k, 'v) gomap = "('k \<times> 'v) list"

definition gm_wf :: "('k, 'v) gomap \<Rightarrow> bool" where
  "gm_wf m \<longleftrightarrow> distinct (map fst m)"

definition gm_get :: "('k, 'v) gomap \<Rightarrow> 'k \<Rightarrow> 'v option" where
  "gm_get m k = map_of m k"

definition gm_put :: "'k \<Rightarrow> 'v \<Rightarrow> ('k, 'v) gomap \<Rightarrow> ('k, 'v) gomap" where
  "gm_put k v m = AList.update k v m"

definition gm_del :: "'k \<Rightarrow> ('k, 'v) gomap \<Rightarrow> ('k, 'v) gomap" where
  "gm_del k m = AList.delete k m"

definition gm_keys :: "('k, 'v) gomap \<Rightarrow> 'k list" where
  "gm_keys m = map fst m"

definition gm_len :: "('k, 'v) gomap \<Rightarrow> nat" where
  "gm_len m = length m"

lemma gm_wf_empty [simp, wf_intro]: "gm_wf []"
  by (simp add: gm_wf_def)

lemma gm_wf_put [simp, wf_intro]: "gm_wf m \<Longrightarrow> gm_wf (gm_put k v m)"
  by (simp add: gm_wf_def gm_put_def distinct_update)

lemma gm_wf_del [simp, wf_intro]: "gm_wf m \<Longrightarrow> gm_wf (gm_del k m)"
  by (simp add: gm_wf_def gm_del_def distinct_delete)

lemma gm_get_empty [simp, go_map]: "gm_get [] k = None"
  by (simp add: gm_get_def)

lemma gm_get_put [simp, go_map]:
  "gm_get (gm_put k v m) j = (if j = k then Some v else gm_get m j)"
  by (simp add: gm_get_def gm_put_def update_conv')

lemma gm_get_del [simp, go_map]:
  "gm_get (gm_del k m) j = (if j = k then None else gm_get m j)"
  by (simp add: gm_get_def gm_del_def delete_conv')

lemma gm_keys_empty [simp]: "gm_keys [] = []"
  by (simp add: gm_keys_def)

lemma set_gm_keys_put [simp]: "set (gm_keys (gm_put k v m)) = insert k (set (gm_keys m))"
  by (simp add: gm_keys_def gm_put_def dom_update)

lemma set_gm_keys_del [simp]: "set (gm_keys (gm_del k m)) = set (gm_keys m) - {k}"
  by (simp add: gm_keys_def gm_del_def delete_keys del: set_map)

lemma in_gm_keys_iff: "k \<in> set (gm_keys m) \<longleftrightarrow> gm_get m k \<noteq> None"
  by (simp add: gm_keys_def gm_get_def map_of_eq_None_iff)

lemma gm_get_SomeD: "gm_get m k = Some v \<Longrightarrow> (k, v) \<in> set m"
  by (simp add: gm_get_def map_of_SomeD)

lemma gm_get_Some_keys: "gm_get m k = Some v \<Longrightarrow> k \<in> set (gm_keys m)"
  by (simp add: in_gm_keys_iff)

lemma gm_get_iff: "gm_wf m \<Longrightarrow> gm_get m k = Some v \<longleftrightarrow> (k, v) \<in> set m"
  by (auto simp: gm_get_def gm_wf_def)

lemma gm_del_absent [simp]: "gm_get m k = None \<Longrightarrow> gm_del k m = m"
  by (simp add: gm_get_def gm_del_def map_of_eq_None_iff)

lemma gm_put_same [simp]: "gm_get m k = Some v \<Longrightarrow> gm_put k v m = m"
  by (simp add: gm_get_def gm_put_def update_triv)

lemma gm_len_card: "gm_wf m \<Longrightarrow> gm_len m = card (set (gm_keys m))"
  unfolding gm_len_def gm_keys_def gm_wf_def
  by (metis distinct_card length_map)

lemma gm_len_empty [simp]: "gm_len [] = 0"
  by (simp add: gm_len_def)

lemma gm_len_put:
  "gm_wf m \<Longrightarrow> gm_len (gm_put k v m) = (if gm_get m k = None then Suc (gm_len m) else gm_len m)"
  by (simp add: gm_len_card in_gm_keys_iff card_insert_if)

lemma gm_len_del:
  "gm_wf m \<Longrightarrow> gm_len (gm_del k m) = (if gm_get m k = None then gm_len m else gm_len m - 1)"
  by (simp add: gm_len_card in_gm_keys_iff card_Diff_singleton_if)

lemma finite_gm_keys [simp]: "finite (set (gm_keys m))"
  by simp

lemma gm_wf_keys: "gm_wf m \<longleftrightarrow> distinct (gm_keys m)"
  by (simp add: gm_wf_def gm_keys_def)

lemma gm_wf_perm: "mset m = mset m' \<Longrightarrow> gm_wf m = gm_wf m'"
  unfolding gm_wf_def by (metis mset_map mset_eq_imp_distinct_iff)

lemma gm_get_perm:
  assumes "gm_wf m" and "mset m = mset m'"
  shows "gm_get m = gm_get m'"
proof -
  have "map_of m = map_of m'"
    using assms gm_wf_perm [OF assms(2)] mset_eq_setD [OF assms(2)]
    by (simp only: gm_wf_def map_of_inject_set)
  then show ?thesis by (intro ext) (simp only: gm_get_def)
qed

section \<open>Lists\<close>

text \<open>The last \<open>n\<close> elements, as \<open>xs[len(xs)-n:]\<close> when the list is longer than \<open>n\<close>.\<close>

definition last_n :: "nat \<Rightarrow> 'a list \<Rightarrow> 'a list" where
  "last_n n xs = drop (length xs - n) xs"

lemma length_last_n [simp]: "length (last_n n xs) = min n (length xs)"
  by (auto simp: last_n_def)

lemma last_n_id [simp]: "length xs \<le> n \<Longrightarrow> last_n n xs = xs"
  by (simp add: last_n_def)

lemma rev_last_n: "rev (last_n n xs) = take n (rev xs)"
  by (simp add: last_n_def take_rev)

lemma filter_neq_absent [simp]: "x \<notin> set xs \<Longrightarrow> filter (\<lambda>y. y \<noteq> x) xs = xs"
  by (induction xs) auto

lemma length_filter_neq:
  "distinct xs \<Longrightarrow> x \<in> set xs \<Longrightarrow> Suc (length (filter (\<lambda>y. y \<noteq> x) xs)) = length xs"
  by (induction xs) auto

end
