(* ===== verification/Go_Text.thy ===== *)
theory Go_Text
  imports Prelude
begin

text \<open>
  The parts of Go's \<open>strings\<close> and \<open>strconv\<close> packages the program calls. A Go string is a list of
  bytes, here a list of characters. \<open>Atoi\<close> is 64-bit: a numeral outside \<open>int64\<close> is a range error.
\<close>

section \<open>\<open>strings\<close>\<close>

definition has_prefix :: "string \<Rightarrow> string \<Rightarrow> bool" where
  "has_prefix s p \<longleftrightarrow> take (length p) s = p"

definition has_suffix :: "string \<Rightarrow> string \<Rightarrow> bool" where
  "has_suffix s p \<longleftrightarrow> has_prefix (rev s) (rev p)"

definition trim_prefix :: "string \<Rightarrow> string \<Rightarrow> string" where
  "trim_prefix s p = (if has_prefix s p then drop (length p) s else s)"

definition trim_suffix :: "string \<Rightarrow> string \<Rightarrow> string" where
  "trim_suffix s p = (if has_suffix s p then take (length s - length p) s else s)"

text \<open>\<open>strings.Cut\<close>/\<open>strings.Index\<close>: the text before and after the first occurrence.\<close>

fun str_cut :: "string \<Rightarrow> string \<Rightarrow> (string \<times> string) option" where
  "str_cut [] sep = (if sep = [] then Some ([], []) else None)"
| "str_cut (c # s) sep =
     (if has_prefix (c # s) sep then Some ([], drop (length sep) (c # s))
      else map_option (\<lambda>(a, b). (c # a, b)) (str_cut s sep))"

definition str_contains :: "string \<Rightarrow> string \<Rightarrow> bool" where
  "str_contains s sub \<longleftrightarrow> str_cut s sub \<noteq> None"

text \<open>\<open>strings.Split\<close> with a one-byte separator.\<close>

fun split_on :: "char \<Rightarrow> string \<Rightarrow> string list" where
  "split_on c [] = [[]]"
| "split_on c (x # xs) =
     (if x = c then [] # split_on c xs
      else (case split_on c xs of [] \<Rightarrow> [[x]] | w # ws \<Rightarrow> (x # w) # ws))"

fun str_join :: "string \<Rightarrow> string list \<Rightarrow> string" where
  "str_join sep [] = []"
| "str_join sep [w] = w"
| "str_join sep (w # v # ws) = w @ sep @ str_join sep (v # ws)"

definition lower_char :: "char \<Rightarrow> char" where
  "lower_char c = (if CHR ''A'' \<le> c \<and> c \<le> CHR ''Z'' then char_of (of_char c + 32 :: nat) else c)"

text \<open>\<open>strings.ToLower\<close> on the ASCII letters; other bytes are left alone.\<close>

definition to_lower :: "string \<Rightarrow> string" where
  "to_lower = map lower_char"

definition is_space :: "char \<Rightarrow> bool" where
  "is_space c \<longleftrightarrow> c = CHR '' '' \<or> (9 \<le> (of_char c :: nat) \<and> (of_char c :: nat) \<le> 13)"

text \<open>\<open>strings.TrimSpace\<close> for ASCII white space.\<close>

definition trim_space :: "string \<Rightarrow> string" where
  "trim_space s = rev (dropWhile is_space (rev (dropWhile is_space s)))"

definition is_digit :: "char \<Rightarrow> bool" where
  "is_digit c \<longleftrightarrow> CHR ''0'' \<le> c \<and> c \<le> CHR ''9''"

definition is_alpha :: "char \<Rightarrow> bool" where
  "is_alpha c \<longleftrightarrow> (CHR ''a'' \<le> c \<and> c \<le> CHR ''z'') \<or> (CHR ''A'' \<le> c \<and> c \<le> CHR ''Z'')"

section \<open>\<open>strconv\<close>\<close>

definition digit_val :: "char \<Rightarrow> nat" where
  "digit_val c = of_char c - of_char (CHR ''0'')"

definition dec_val :: "string \<Rightarrow> nat" where
  "dec_val s = foldl (\<lambda>n c. n * 10 + digit_val c) 0 s"

definition ErrSyntax :: goerr where "ErrSyntax = Sentinel ''strconv.ErrSyntax''"
definition ErrRange :: goerr where "ErrRange = Sentinel ''strconv.ErrRange''"

definition int64_max :: int where "int64_max = 9223372036854775807"
definition int64_min :: int where "int64_min = - 9223372036854775808"

definition atoi :: "string \<Rightarrow> int res" where
  "atoi s =
     (let neg = (s \<noteq> [] \<and> hd s = CHR ''-'');
          body = (if s \<noteq> [] \<and> (hd s = CHR ''-'' \<or> hd s = CHR ''+'') then tl s else s)
      in if body = [] \<or> \<not> list_all is_digit body then Inl ErrSyntax
         else let n = int (dec_val body); v = (if neg then - n else n)
              in if v < int64_min \<or> int64_max < v then Inl ErrRange else Inr v)"

text \<open>The same by integer arithmetic, to evaluate it on long numbers.\<close>

definition dec_int :: "string \<Rightarrow> int" where
  "dec_int s = foldl (\<lambda>n c. n * 10 + int (digit_val c)) 0 s"

lemma dec_int_val: "dec_int s = int (dec_val s)"
proof -
  have "foldl (\<lambda>n c. n * 10 + int (digit_val c)) (int k) s = int (foldl (\<lambda>n c. n * 10 + digit_val c) k s)" for k
  proof (induction s arbitrary: k)
    case (Cons c s)
    have "int k * 10 + int (digit_val c) = int (k * 10 + digit_val c)" by simp
    with Cons.IH [of "k * 10 + digit_val c"] show ?case by (simp only: foldl.simps)
  qed simp
  from this [of 0] show ?thesis by (simp add: dec_int_def dec_val_def)
qed

declare atoi_def [code del]

lemma atoi_code [code]:
  "atoi s =
     (let neg = (s \<noteq> [] \<and> hd s = CHR ''-'');
          body = (if s \<noteq> [] \<and> (hd s = CHR ''-'' \<or> hd s = CHR ''+'') then tl s else s)
      in if body = [] \<or> \<not> list_all is_digit body then Inl ErrSyntax
         else let n = dec_int body; v = (if neg then - n else n)
              in if v < int64_min \<or> int64_max < v then Inl ErrRange else Inr v)"
  by (simp only: atoi_def dec_int_val)

definition parse_bool :: "string \<Rightarrow> bool res" where
  "parse_bool s =
     (if s \<in> {''1'', ''t'', ''T'', ''true'', ''TRUE'', ''True''} then Inr True
      else if s \<in> {''0'', ''f'', ''F'', ''false'', ''FALSE'', ''False''} then Inr False
      else Inl ErrSyntax)"

text \<open>\<open>n, _ := strconv.Atoi(s)\<close>: a text that is no number gives 0, one out of range the nearest bound.\<close>

definition atoi_value :: "string \<Rightarrow> int" where
  "atoi_value s =
     (case atoi s of
        Inr n \<Rightarrow> n
      | Inl e \<Rightarrow> if e = ErrRange then (if has_prefix s ''-'' then int64_min else int64_max) else 0)"

text \<open>\<open>strconv.Itoa\<close> and \<open>%d\<close>.\<close>

fun nat_digits :: "nat \<Rightarrow> string" where
  "nat_digits n = (if n < 10 then [char_of (48 + n)] else nat_digits (n div 10) @ [char_of (48 + n mod 10)])"

declare nat_digits.simps [simp del]

definition itoa :: "int \<Rightarrow> string" where
  "itoa i = (if i < 0 then CHR ''-'' # nat_digits (nat (- i)) else nat_digits (nat i))"

section \<open>Facts\<close>

lemma has_prefix_iff: "has_prefix s p \<longleftrightarrow> (\<exists>t. s = p @ t)"
  unfolding has_prefix_def by (metis append_eq_conv_conj append_take_drop_id)

lemma has_prefix_append [simp]: "has_prefix (p @ t) p"
  by (simp add: has_prefix_def)

lemma trim_prefix_append [simp]: "trim_prefix (p @ t) p = t"
  by (simp add: trim_prefix_def)

lemma has_suffix_iff: "has_suffix s p \<longleftrightarrow> (\<exists>t. s = t @ p)"
  unfolding has_suffix_def has_prefix_iff by (metis rev_append rev_rev_ident)

lemma str_cut_Some:
  "str_cut s sep = Some (a, b) \<Longrightarrow> s = a @ sep @ b"
proof (induction s sep arbitrary: a b rule: str_cut.induct)
  case (2 c s sep)
  show ?case
  proof (cases "has_prefix (c # s) sep")
    case True
    then obtain t where "c # s = sep @ t" by (auto simp: has_prefix_iff)
    then have "drop (length sep) (c # s) = t" by simp
    with True 2 have "a = []" "b = t" by auto
    with \<open>c # s = sep @ t\<close> show ?thesis by simp
  next
    case False
    with 2 show ?thesis by auto
  qed
qed (auto split: if_splits)

lemma str_contains_iff: "str_contains s sub \<longleftrightarrow> (\<exists>a b. s = a @ sub @ b)"
proof
  assume "\<exists>a b. s = a @ sub @ b"
  then obtain a b where "s = a @ sub @ b" by blast
  then have "str_cut s sub \<noteq> None"
  proof (induction a arbitrary: s)
    case Nil
    then have "has_prefix s sub" by simp
    then have "str_cut s sub \<noteq> None" by (cases s) (auto simp: has_prefix_iff)
    with Nil show ?case by simp
  next
    case (Cons c a)
    then have "str_cut (a @ sub @ b) sub \<noteq> None" by blast
    with Cons.prems show ?case by auto
  qed
  then show "str_contains s sub" by (simp add: str_contains_def)
qed (auto simp: str_contains_def dest: str_cut_Some)

lemma split_on_not_Nil [simp]: "split_on c s \<noteq> []"
  by (induction s) (auto split: list.splits)

lemma join_split_on: "str_join [c] (split_on c s) = s"
proof (induction s)
  case (Cons x s)
  obtain w ws where w: "split_on c s = w # ws" by (meson neq_Nil_conv split_on_not_Nil)
  with Cons show ?case by (cases ws) (auto simp del: split_on_not_Nil)
qed simp

lemma split_on_sep_free: "w \<in> set (split_on c s) \<Longrightarrow> c \<notin> set w"
proof (induction s arbitrary: w)
  case (Cons x s)
  then show ?case
    by (cases "split_on c s") (auto split: if_splits)
qed simp

lemma is_digit_char_of [simp]: "n < 10 \<Longrightarrow> is_digit (char_of (48 + n :: nat))"
  by (simp add: is_digit_def less_eq_char_def)

lemma digit_val_char_of [simp]: "n < 10 \<Longrightarrow> digit_val (char_of (48 + n :: nat)) = n"
  by (simp add: digit_val_def)

lemma dec_val_snoc [simp]: "dec_val (s @ [c]) = dec_val s * 10 + digit_val c"
  by (simp add: dec_val_def)

lemma nat_digits_ok:
  "nat_digits n \<noteq> [] \<and> list_all is_digit (nat_digits n) \<and> dec_val (nat_digits n) = n"
proof (induction n rule: nat_digits.induct)
  case (1 n)
  show ?case
  proof (cases "n < 10")
    case True
    then show ?thesis by (simp add: nat_digits.simps [of n] dec_val_def)
  next
    case False
    with 1 show ?thesis by (simp add: nat_digits.simps [of n])
  qed
qed

lemma is_digit_not_sign: "is_digit c \<Longrightarrow> c \<noteq> CHR ''-'' \<and> c \<noteq> CHR ''+''"
  by (auto simp: is_digit_def less_eq_char_def)

lemma nat_digits_inj: "nat_digits m = nat_digits n \<longleftrightarrow> m = n"
  using nat_digits_ok by metis

text \<open>Printing a 64-bit integer and reading it back.\<close>

lemma atoi_itoa:
  assumes "int64_min \<le> i" and "i \<le> int64_max"
  shows "atoi (itoa i) = Inr i"
proof (cases "i < 0")
  case True
  then show ?thesis
    using assms nat_digits_ok [of "nat (- i)"] by (simp add: atoi_def itoa_def Let_def)
next
  case False
  obtain c ds where ds: "nat_digits (nat i) = c # ds" and "is_digit c"
    using nat_digits_ok [of "nat i"] by (cases "nat_digits (nat i)") auto
  then have "c \<noteq> CHR ''-''" "c \<noteq> CHR ''+''" using is_digit_not_sign by auto
  with False show ?thesis
    using assms nat_digits_ok [of "nat i"] by (simp add: atoi_def itoa_def Let_def ds)
qed

lemma atoi_value_itoa:
  "int64_min \<le> i \<Longrightarrow> i \<le> int64_max \<Longrightarrow> atoi_value (itoa i) = i"
  by (simp add: atoi_value_def atoi_itoa)

lemma itoa_nonempty [simp]: "itoa i \<noteq> []"
  using nat_digits_ok [of "nat i"] by (auto simp: itoa_def)

text \<open>Blank strings: those \<open>TrimSpace\<close> empties.\<close>

lemma all_dropWhile: "(\<forall>x \<in> set (dropWhile P xs). P x) \<longleftrightarrow> (\<forall>x \<in> set xs. P x)"
  by (induction xs) auto

lemma trim_space_blank: "trim_space s = [] \<longleftrightarrow> (\<forall>c \<in> set s. is_space c)"
  unfolding trim_space_def rev_is_Nil_conv dropWhile_eq_Nil_conv set_rev all_dropWhile ..

lemma trim_space_visible:
  assumes "trim_space s \<noteq> []"
  obtains c where "c \<in> set (trim_space s)" and "\<not> is_space c"
proof (rule that)
  let ?r = "dropWhile is_space (rev (dropWhile is_space s))"
  have "?r \<noteq> []" using assms by (simp add: trim_space_def)
  then show "hd ?r \<in> set (trim_space s)" and "\<not> is_space (hd ?r)"
    by (simp add: trim_space_def, rule hd_dropWhile)
qed

lemma set_str_join: "w \<in> set ws \<Longrightarrow> set w \<subseteq> set (str_join sep ws)"
  by (induction sep ws rule: str_join.induct) auto


end
