(* ===== verification/Go_Float.thy ===== *)
theory Go_Float
  imports Go_Text Complex_Main
begin

text \<open>
  Go's \<open>float64\<close>: IEEE 754 binary64 values with NaN, the infinities, signed zeros and the
  exact rational value of every other float; an operation computes the exact result and rounds it
  to nearest, ties to even (\<open>f64_round\<close>). \<open>parse_float\<close> is \<open>strconv.ParseFloat\<close> on decimal
  numerals and the named values (hexadecimal numerals are not modelled and give an error).
\<close>

datatype f64 =
    F_NaN
  | F_Inf bool    \<comment> \<open>negative?\<close>
  | F_Zero bool   \<comment> \<open>negative?\<close>
  | F_Num rat     \<comment> \<open>a nonzero finite value\<close>

section \<open>Rounding\<close>

text \<open>The number of binary digits of a nonnegative integer.\<close>

function bit_len :: "int \<Rightarrow> int" where
  "bit_len n = (if n \<le> 0 then 0 else 1 + bit_len (n div 2))"
  by auto
termination by (relation "measure nat") auto

declare bit_len.simps [simp del]

text \<open>The quotient of two positive integers rounded to nearest, ties to even.\<close>

definition div_even :: "int \<Rightarrow> int \<Rightarrow> int" where
  "div_even a b = (let q = a div b; r = a mod b
                   in if 2 * r < b then q else if b < 2 * r then q + 1
                      else if even q then q else q + 1)"

text \<open>The exponent \<open>e\<close> with \<open>2 ^ e \<le> a / b < 2 ^ (e + 1)\<close>.\<close>

definition quot_exp :: "int \<Rightarrow> int \<Rightarrow> int" where
  "quot_exp a b = (let e = bit_len a - bit_len b
                   in if (if 0 \<le> e then b * 2 ^ nat e \<le> a else b \<le> a * 2 ^ nat (- e)) then e else e - 1)"

text \<open>Rounding of a positive \<open>a / b\<close>: 53 significant bits, least exponent -1074.\<close>

definition round_pos :: "int \<Rightarrow> int \<Rightarrow> rat" where
  "round_pos a b =
     (let u = max (quot_exp a b - 52) (-1074)
      in if 0 \<le> u then of_int (div_even a (b * 2 ^ nat u) * 2 ^ nat u)
         else of_int (div_even (a * 2 ^ nat (- u)) b) / of_int (2 ^ nat (- u)))"

definition f64_max :: rat where "f64_max = of_int ((2 ^ 53 - 1) * 2 ^ 971)"

definition f64_round :: "rat \<Rightarrow> f64" where
  "f64_round q =
     (if q = 0 then F_Zero False
      else let (a, b) = quotient_of q; r = round_pos \<bar>a\<bar> b
           in if r = 0 then F_Zero (q < 0)
              else if f64_max < r then F_Inf (q < 0)
              else F_Num (if q < 0 then - r else r))"

section \<open>Comparison and arithmetic\<close>

text \<open>Position on the extended line; NaN has none.\<close>

fun f64_lt :: "f64 \<Rightarrow> f64 \<Rightarrow> bool" where
  "f64_lt F_NaN y = False"
| "f64_lt x F_NaN = False"
| "f64_lt (F_Inf n) (F_Inf m) = (n \<and> \<not> m)"
| "f64_lt (F_Inf n) y = n"
| "f64_lt x (F_Inf m) = (\<not> m)"
| "f64_lt (F_Zero _) (F_Zero _) = False"
| "f64_lt (F_Zero _) (F_Num q) = (0 < q)"
| "f64_lt (F_Num p) (F_Zero _) = (p < 0)"
| "f64_lt (F_Num p) (F_Num q) = (p < q)"

definition f64_eq :: "f64 \<Rightarrow> f64 \<Rightarrow> bool" where
  "f64_eq x y \<longleftrightarrow> x \<noteq> F_NaN \<and> y \<noteq> F_NaN \<and> \<not> f64_lt x y \<and> \<not> f64_lt y x"

definition f64_le :: "f64 \<Rightarrow> f64 \<Rightarrow> bool" where
  "f64_le x y \<longleftrightarrow> f64_lt x y \<or> f64_eq x y"

fun f64_val :: "f64 \<Rightarrow> rat" where
  "f64_val (F_Num q) = q"
| "f64_val _ = 0"

fun f64_neg :: "f64 \<Rightarrow> f64" where
  "f64_neg F_NaN = F_NaN"
| "f64_neg (F_Inf n) = F_Inf (\<not> n)"
| "f64_neg (F_Zero n) = F_Zero (\<not> n)"
| "f64_neg (F_Num q) = F_Num (- q)"

fun f64_add :: "f64 \<Rightarrow> f64 \<Rightarrow> f64" where
  "f64_add F_NaN y = F_NaN"
| "f64_add x F_NaN = F_NaN"
| "f64_add (F_Inf n) (F_Inf m) = (if n = m then F_Inf n else F_NaN)"
| "f64_add (F_Inf n) y = F_Inf n"
| "f64_add x (F_Inf m) = F_Inf m"
| "f64_add (F_Zero n) (F_Zero m) = F_Zero (n \<and> m)"
| "f64_add (F_Zero _) (F_Num q) = F_Num q"
| "f64_add (F_Num p) (F_Zero _) = F_Num p"
| "f64_add (F_Num p) (F_Num q) = f64_round (p + q)"

definition f64_sub :: "f64 \<Rightarrow> f64 \<Rightarrow> f64" where
  "f64_sub x y = f64_add x (f64_neg y)"

fun f64_negative :: "f64 \<Rightarrow> bool" where
  "f64_negative F_NaN = False"
| "f64_negative (F_Inf n) = n"
| "f64_negative (F_Zero n) = n"
| "f64_negative (F_Num q) = (q < 0)"

definition f64_mul :: "f64 \<Rightarrow> f64 \<Rightarrow> f64" where
  "f64_mul x y =
     (let n = (f64_negative x \<noteq> f64_negative y) in
      case (x, y) of
        (F_NaN, _) \<Rightarrow> F_NaN
      | (_, F_NaN) \<Rightarrow> F_NaN
      | (F_Inf _, F_Zero _) \<Rightarrow> F_NaN
      | (F_Zero _, F_Inf _) \<Rightarrow> F_NaN
      | (F_Inf _, _) \<Rightarrow> F_Inf n
      | (_, F_Inf _) \<Rightarrow> F_Inf n
      | (F_Num p, F_Num q) \<Rightarrow> f64_round (p * q)
      | _ \<Rightarrow> F_Zero n)"

definition f64_div :: "f64 \<Rightarrow> f64 \<Rightarrow> f64" where
  "f64_div x y =
     (let n = (f64_negative x \<noteq> f64_negative y) in
      case (x, y) of
        (F_NaN, _) \<Rightarrow> F_NaN
      | (_, F_NaN) \<Rightarrow> F_NaN
      | (F_Inf _, F_Inf _) \<Rightarrow> F_NaN
      | (F_Inf _, _) \<Rightarrow> F_Inf n
      | (_, F_Inf _) \<Rightarrow> F_Zero n
      | (F_Zero _, F_Zero _) \<Rightarrow> F_NaN
      | (F_Zero _, _) \<Rightarrow> F_Zero n
      | (F_Num _, F_Zero _) \<Rightarrow> F_Inf n
      | (F_Num p, F_Num q) \<Rightarrow> f64_round (p / q))"

text \<open>
  The integer square root, by bisection between a lower and an upper bound, and the square root of
  a positive rational to 120 binary places with the last place odd when it is not exact, so that
  rounding it is rounding the exact root.
\<close>

function isqrt_between :: "int \<Rightarrow> int \<Rightarrow> int \<Rightarrow> int" where
  "isqrt_between n lo hi =
     (if hi - lo \<le> 1 then lo
      else let m = (lo + hi) div 2 in
           if m * m \<le> n then isqrt_between n m hi else isqrt_between n lo m)"
  by auto
termination by (relation "measure (\<lambda>(n, lo, hi). nat (hi - lo))") (auto simp: Let_def)

declare isqrt_between.simps [simp del]

definition isqrt :: "int \<Rightarrow> int" where
  "isqrt n = isqrt_between n 0 (n + 1)"

definition rat_sqrt :: "rat \<Rightarrow> rat" where
  "rat_sqrt q =
     (let (a, b) = quotient_of q; k = 120 + max 0 (bit_len b - bit_len a);
          n = a * 4 ^ nat k div b; r = isqrt n
      in of_int (if r * r * b = a * 4 ^ nat k then 2 * r else 2 * r + 1) / of_int (2 ^ nat (k + 1)))"

fun f64_sqrt :: "f64 \<Rightarrow> f64" where
  "f64_sqrt (F_Zero n) = F_Zero n"
| "f64_sqrt (F_Inf n) = (if n then F_NaN else F_Inf False)"
| "f64_sqrt F_NaN = F_NaN"
| "f64_sqrt (F_Num q) = (if q < 0 then F_NaN else f64_round (rat_sqrt q))"

definition f64_of_int :: "int \<Rightarrow> f64" where
  "f64_of_int i = f64_round (of_int i)"

section \<open>\<open>strconv.ParseFloat\<close>\<close>

definition f64_signed :: "bool \<Rightarrow> f64 \<Rightarrow> f64" where
  "f64_signed neg x = (if neg then f64_neg x else x)"

definition pow10 :: "int \<Rightarrow> rat" where
  "pow10 e = (if 0 \<le> e then 10 ^ nat e else 1 / 10 ^ nat (- e))"

text \<open>\<open>digits[.digits][(e|E)[+-]digits]\<close>, at least one mantissa digit; the value or a syntax error.\<close>

definition dec_float :: "string \<Rightarrow> rat res" where
  "dec_float s =
     (let ip = takeWhile is_digit s; r1 = dropWhile is_digit s;
          (fp, r2) = (case r1 of
              [] \<Rightarrow> ([], [])
            | c # r \<Rightarrow> if c = CHR ''.'' then (takeWhile is_digit r, dropWhile is_digit r)
                       else ([], r1))
      in if ip = [] \<and> fp = [] then Inl ErrSyntax
         else let m = of_nat (dec_val (ip @ fp)) * pow10 (- int (length fp))
              in (case r2 of
                    [] \<Rightarrow> Inr m
                  | c # r \<Rightarrow>
                      if c = CHR ''e'' \<or> c = CHR ''E''
                      then (let neg = (r \<noteq> [] \<and> hd r = CHR ''-'');
                                ds = (if r \<noteq> [] \<and> hd r \<in> {CHR ''-'', CHR ''+''} then tl r else r)
                            in if ds = [] \<or> \<not> list_all is_digit ds then Inl ErrSyntax
                               else Inr (m * pow10 (if neg then - int (dec_val ds) else int (dec_val ds))))
                      else Inl ErrSyntax))"

definition parse_float :: "string \<Rightarrow> f64 res" where
  "parse_float s =
     (let neg = (s \<noteq> [] \<and> hd s = CHR ''-'');
          body = (if s \<noteq> [] \<and> hd s \<in> {CHR ''-'', CHR ''+''} then tl s else s)
      in if to_lower body \<in> {''inf'', ''infinity''} then Inr (F_Inf neg)
         else if to_lower s = ''nan'' then Inr F_NaN
         else case dec_float body of
                Inl e \<Rightarrow> Inl e
              | Inr m \<Rightarrow>
                  (case f64_round m of
                     F_Inf _ \<Rightarrow> Inl ErrRange
                   | x \<Rightarrow> Inr (f64_signed neg x)))"

section \<open>Facts\<close>

lemma f64_lt_irrefl [simp]: "\<not> f64_lt x x"
  by (cases x) auto

lemma f64_lt_trans: "f64_lt x y \<Longrightarrow> f64_lt y z \<Longrightarrow> f64_lt x z"
  by (cases x; cases y; cases z) auto

lemma f64_lt_asym: "f64_lt x y \<Longrightarrow> \<not> f64_lt y x"
  by (cases x; cases y) auto

lemma f64_lt_nan [simp]: "\<not> f64_lt x F_NaN" "\<not> f64_lt F_NaN x"
  by (cases x) auto

lemma f64_cmp_total:
  "x \<noteq> F_NaN \<Longrightarrow> y \<noteq> F_NaN \<Longrightarrow> f64_lt x y \<or> f64_eq x y \<or> f64_lt y x"
  by (auto simp: f64_eq_def)

end
