(* ===== verification/Go_Json.thy ===== *)
theory Go_Json
  imports Go_Float
begin

text \<open>
  JSON documents as \<open>encoding/json\<close> reads and writes them, as syntax trees; the text syntax is not
  modelled. \<open>JTime\<close> is a string holding an RFC 3339 timestamp (nanoseconds since the epoch).
  Decoding into a Go struct visits the object's members in order, matches a member to a field by
  name ignoring case, ignores unknown members, leaves a field alone on \<open>null\<close> and fails on a value
  of another kind.
\<close>

datatype json =
    JNull
  | JBool bool
  | JInt int       \<comment> \<open>a numeral without fraction or exponent\<close>
  | JNum f64
  | JStr string
  | JTime int
  | JArr "json list"
  | JObj "(string \<times> json) list"

definition ErrUnmarshal :: goerr where "ErrUnmarshal = Sentinel ''json.UnmarshalTypeError''"
definition ErrJsonSyntax :: goerr where "ErrJsonSyntax = Sentinel ''json.SyntaxError''"
definition ErrUnsupported :: goerr where "ErrUnsupported = Sentinel ''json.UnsupportedValueError''"

text \<open>\<open>json.Marshal\<close> refuses NaN and the infinities.\<close>

fun f64_finite :: "f64 \<Rightarrow> bool" where
  "f64_finite F_NaN = False"
| "f64_finite (F_Inf _) = False"
| "f64_finite _ = True"

definition json_of_floats :: "f64 list \<Rightarrow> json res" where
  "json_of_floats xs = (if list_all f64_finite xs then Inr (JArr (map JNum xs)) else Inl ErrUnsupported)"

text \<open>Reading a value of a kind into a variable that holds \<open>old\<close>.\<close>

fun json_string :: "json \<Rightarrow> string \<Rightarrow> string res" where
  "json_string (JStr s) old = Inr s"
| "json_string JNull old = Inr old"
| "json_string _ old = Inl ErrUnmarshal"

fun json_float :: "json \<Rightarrow> f64 \<Rightarrow> f64 res" where
  "json_float (JNum x) old = Inr x"
| "json_float (JInt i) old =
     (case f64_of_int i of F_Inf _ \<Rightarrow> Inl ErrUnmarshal | x \<Rightarrow> Inr x)"
| "json_float JNull old = Inr old"
| "json_float _ old = Inl ErrUnmarshal"

fun json_bool :: "json \<Rightarrow> bool \<Rightarrow> bool res" where
  "json_bool (JBool b) old = Inr b"
| "json_bool JNull old = Inr old"
| "json_bool _ old = Inl ErrUnmarshal"

text \<open>
  An integer field takes a numeral in range without fraction or exponent, which is also how Go
  writes an integral \<open>float64\<close> of ordinary size.
\<close>

fun json_int :: "json \<Rightarrow> int \<Rightarrow> int res" where
  "json_int (JInt i) old = (if int64_min \<le> i \<and> i \<le> int64_max then Inr i else Inl ErrUnmarshal)"
| "json_int (JNum (F_Zero _)) old = Inr 0"
| "json_int (JNum (F_Num q)) old =
     (let (a, b) = quotient_of q
      in if b = 1 \<and> int64_min \<le> a \<and> a \<le> int64_max then Inr a else Inl ErrUnmarshal)"
| "json_int JNull old = Inr old"
| "json_int _ old = Inl ErrUnmarshal"

fun json_time :: "json \<Rightarrow> int \<Rightarrow> int res" where
  "json_time (JTime t) old = Inr t"
| "json_time JNull old = Inr old"
| "json_time _ old = Inl ErrUnmarshal"

fun json_floats :: "json \<Rightarrow> f64 list \<Rightarrow> f64 list res" where
  "json_floats (JArr js) old =
     foldr (\<lambda>j r. res_bind (json_float j (F_Zero False)) (\<lambda>x. res_bind r (\<lambda>xs. Inr (x # xs)))) js (Inr [])"
| "json_floats JNull old = Inr []"
| "json_floats _ old = Inl ErrUnmarshal"

text \<open>Decoding an object: one setter per field name, tried on every member in order.\<close>

type_synonym 'a setter = "json \<Rightarrow> 'a \<Rightarrow> 'a res"

definition json_member :: "(string \<times> 'a setter) list \<Rightarrow> string \<Rightarrow> 'a setter option" where
  "json_member fs key =
     (case map_of fs key of
        Some f \<Rightarrow> Some f
      | None \<Rightarrow> map_option snd (List.find (\<lambda>(n, _). to_lower n = to_lower key) fs))"

fun json_struct :: "(string \<times> 'a setter) list \<Rightarrow> json \<Rightarrow> 'a \<Rightarrow> 'a res" where
  "json_struct fs (JObj []) x = Inr x"
| "json_struct fs (JObj ((key, j) # ms)) x =
     (case json_member fs key of
        None \<Rightarrow> json_struct fs (JObj ms) x
      | Some f \<Rightarrow> res_bind (f j x) (json_struct fs (JObj ms)))"
| "json_struct fs JNull x = Inr x"
| "json_struct fs _ x = Inl ErrUnmarshal"

text \<open>Decoding with \<open>DisallowUnknownFields\<close>.\<close>

fun json_strict :: "(string \<times> 'a setter) list \<Rightarrow> json \<Rightarrow> 'a \<Rightarrow> 'a res" where
  "json_strict fs (JObj []) x = Inr x"
| "json_strict fs (JObj ((key, j) # ms)) x =
     (case json_member fs key of
        None \<Rightarrow> Inl (Errorf ''json: unknown field %q'' [AStr key])
      | Some f \<Rightarrow> res_bind (f j x) (json_strict fs (JObj ms)))"
| "json_strict fs JNull x = Inr x"
| "json_strict fs _ x = Inl ErrUnmarshal"

text \<open>What \<open>Unmarshal\<close> leaves in the target when its error is ignored: members of a wrong kind are skipped.\<close>

fun json_lenient :: "(string \<times> 'a setter) list \<Rightarrow> json \<Rightarrow> 'a \<Rightarrow> 'a" where
  "json_lenient fs (JObj []) x = x"
| "json_lenient fs (JObj ((key, j) # ms)) x =
     json_lenient fs (JObj ms)
       (case json_member fs key of
          None \<Rightarrow> x
        | Some f \<Rightarrow> (case f j x of Inr y \<Rightarrow> y | Inl _ \<Rightarrow> x))"
| "json_lenient fs _ x = x"

lemma json_floats_marshal:
  "json_of_floats xs = Inr j \<Longrightarrow> json_floats j old = Inr xs"
proof -
  assume "json_of_floats xs = Inr j"
  then have j: "j = JArr (map JNum xs)" by (auto simp: json_of_floats_def split: if_splits)
  have "foldr (\<lambda>j r. res_bind (json_float j (F_Zero False)) (\<lambda>x. res_bind r (\<lambda>xs. Inr (x # xs))))
      (map JNum xs) (Inr []) = Inr xs"
    by (induction xs) simp_all
  with j show ?thesis by simp
qed

text \<open>Decoding into a slice of structs; \<open>null\<close> is the nil slice.\<close>

fun json_list :: "(json \<Rightarrow> 'a res) \<Rightarrow> json list \<Rightarrow> 'a list res" where
  "json_list f [] = Inr []"
| "json_list f (j # js) = res_bind (f j) (\<lambda>x. res_bind (json_list f js) (\<lambda>xs. Inr (x # xs)))"

fun json_slice :: "(json \<Rightarrow> 'a res) \<Rightarrow> json \<Rightarrow> 'a list option res" where
  "json_slice f (JArr js) = res_bind (json_list f js) (\<lambda>xs. Inr (Some xs))"
| "json_slice f JNull = Inr None"
| "json_slice f _ = Inl ErrUnmarshal"

end
