(* ===== verification/Config.thy ===== *)
theory Config
  imports Go_Float
begin

text \<open>
  Configuration from the environment (\<open>internal/config/config.go\<close>). The environment is a function
  from variable names to values, \<open>''''\<close> where a variable is unset (what \<open>os.Getenv\<close> returns).
\<close>

record config =
  cfg_TopK :: int
  cfg_Addr :: string
  cfg_EmbeddingURL :: string
  cfg_VectorStoreURL :: string
  cfg_RedisAddr :: string
  cfg_Threshold :: f64
  cfg_Capacity :: int
  cfg_Policy :: string
  cfg_LogFile :: string
  cfg_AdminToken :: string
  cfg_RateLimitPerMin :: int
  cfg_TrustProxy :: bool
  cfg_EmbeddingBackend :: string
  cfg_VectorStoreBackend :: string
  cfg_PersistenceBackend :: string
  cfg_QueueBackend :: string
  cfg_LLMMode :: string
  cfg_LLMFallbackMode :: string
  cfg_OpenAIKey :: string
  cfg_OpenAIModel :: string
  cfg_GeminiKey :: string
  cfg_GeminiModel :: string
  cfg_GeminiDailyRequestLimit :: int
  cfg_GeminiDailyTokenBudget :: int
  cfg_EnablePluginInstallation :: bool
  cfg_PluginSecretKey :: string
  cfg_PluginControllerURL :: string
  cfg_PluginControllerToken :: string
  cfg_AllowInsecurePluginEndpoints :: bool
  cfg_PluginRegistryBackend :: string
  cfg_PluginBuildTimeout :: string
  cfg_PluginHealthTimeout :: string
  cfg_PluginCPULimit :: string
  cfg_PluginMemoryLimit :: string
  cfg_PluginRollbackWindow :: string

type_synonym env = "string \<Rightarrow> string"

definition getenv :: "env \<Rightarrow> string \<Rightarrow> string \<Rightarrow> string" where
  "getenv env key def = (if env key \<noteq> [] then env key else def)"

text \<open>A numeral that must be accepted by \<open>Atoi\<close> and satisfy a bound.\<close>

definition env_int :: "env \<Rightarrow> string \<Rightarrow> string \<Rightarrow> (int \<Rightarrow> bool) \<Rightarrow> string \<Rightarrow> int res" where
  "env_int env key def ok msg =
     (case atoi (getenv env key def) of
        Inl _ \<Rightarrow> Inl (Errorf msg [])
      | Inr n \<Rightarrow> if ok n then Inr n else Inl (Errorf msg []))"

definition env_bool :: "env \<Rightarrow> string \<Rightarrow> string \<Rightarrow> string \<Rightarrow> bool res" where
  "env_bool env key def msg =
     (case parse_bool (getenv env key def) of
        Inl _ \<Rightarrow> Inl (Errorf msg [])
      | Inr b \<Rightarrow> Inr b)"

definition Load :: "env \<Rightarrow> config res" where
  "Load env =
     res_bind (env_int env ''CACHE_TOP_K'' ''1'' (\<lambda>n. 1 \<le> n)
                 ''CACHE_TOP_K must be a positive integer'') (\<lambda>topK.
     res_bind (case parse_float (getenv env ''SIMILARITY_THRESHOLD'' ''0.25'') of
                 Inl _ \<Rightarrow> Inl (Errorf ''SIMILARITY_THRESHOLD must be a number'' [])
               | Inr x \<Rightarrow> Inr x) (\<lambda>threshold.
     res_bind (env_int env ''CACHE_CAPACITY'' ''1000'' (\<lambda>_. True)
                 ''CACHE_CAPACITY must be an integer'') (\<lambda>capacity.
     res_bind (env_int env ''RATE_LIMIT_PER_MIN'' ''0'' (\<lambda>n. 0 \<le> n)
                 ''RATE_LIMIT_PER_MIN must be a non-negative integer'') (\<lambda>rateLimit.
     res_bind (env_bool env ''TRUST_PROXY'' ''false''
                 ''TRUST_PROXY must be true or false'') (\<lambda>trustProxy.
     res_bind (env_int env ''GEMINI_DAILY_REQUEST_LIMIT'' ''0'' (\<lambda>n. 0 \<le> n)
                 ''GEMINI_DAILY_REQUEST_LIMIT must be a non-negative integer'') (\<lambda>geminiReqLimit.
     res_bind (env_int env ''GEMINI_DAILY_TOKEN_BUDGET'' ''0'' (\<lambda>n. 0 \<le> n)
                 ''GEMINI_DAILY_TOKEN_BUDGET must be a non-negative integer'') (\<lambda>geminiTokenBudget.
     res_bind (env_bool env ''ENABLE_PLUGIN_INSTALLATION'' ''false''
                 ''ENABLE_PLUGIN_INSTALLATION must be true or false'') (\<lambda>enablePlugins.
     res_bind (env_bool env ''ALLOW_INSECURE_PLUGIN_ENDPOINTS'' ''false''
                 ''ALLOW_INSECURE_PLUGIN_ENDPOINTS must be true or false'') (\<lambda>insecureEndpoints.
     Inr \<lparr>cfg_TopK = topK,
          cfg_Addr = getenv env ''ORCH_ADDR'' '':8080'',
          cfg_EmbeddingURL = getenv env ''EMBEDDING_URL'' ''http://localhost:8001'',
          cfg_VectorStoreURL = getenv env ''VECTORSTORE_URL'' ''http://localhost:8002'',
          cfg_RedisAddr = getenv env ''REDIS_ADDR'' ''localhost:6379'',
          cfg_Threshold = threshold,
          cfg_Capacity = capacity,
          cfg_Policy = getenv env ''CACHE_POLICY'' ''lru'',
          cfg_LogFile = getenv env ''LOG_FILE'' ''logs/orchestrator.log'',
          cfg_AdminToken = getenv env ''ADMIN_TOKEN'' '''',
          cfg_RateLimitPerMin = rateLimit,
          cfg_TrustProxy = trustProxy,
          cfg_EmbeddingBackend = getenv env ''EMBEDDING_BACKEND'' ''http'',
          cfg_VectorStoreBackend = getenv env ''VECTORSTORE_BACKEND'' ''http'',
          cfg_PersistenceBackend = getenv env ''PERSISTENCE_BACKEND'' ''redis'',
          cfg_QueueBackend = getenv env ''QUEUE_BACKEND'' ''redis'',
          cfg_LLMMode = getenv env ''LLM_MODE'' ''stub'',
          cfg_LLMFallbackMode = getenv env ''LLM_FALLBACK_MODE'' '''',
          cfg_OpenAIKey = getenv env ''OPENAI_API_KEY'' '''',
          cfg_OpenAIModel = getenv env ''OPENAI_MODEL'' ''gpt-4o-mini'',
          cfg_GeminiKey = getenv env ''GEMINI_API_KEY'' '''',
          cfg_GeminiModel = getenv env ''GEMINI_MODEL'' ''gemini-flash-latest'',
          cfg_GeminiDailyRequestLimit = geminiReqLimit,
          cfg_GeminiDailyTokenBudget = geminiTokenBudget,
          cfg_EnablePluginInstallation = enablePlugins,
          cfg_PluginSecretKey = getenv env ''PLUGIN_SECRET_KEY'' '''',
          cfg_PluginControllerURL = getenv env ''PLUGIN_CONTROLLER_URL'' '''',
          cfg_PluginControllerToken = getenv env ''PLUGIN_CONTROLLER_TOKEN'' '''',
          cfg_AllowInsecurePluginEndpoints = insecureEndpoints,
          cfg_PluginRegistryBackend = getenv env ''PLUGIN_REGISTRY_BACKEND'' ''redis'',
          cfg_PluginBuildTimeout = getenv env ''PLUGIN_BUILD_TIMEOUT'' '''',
          cfg_PluginHealthTimeout = getenv env ''PLUGIN_HEALTH_TIMEOUT'' '''',
          cfg_PluginCPULimit = getenv env ''PLUGIN_CPU_LIMIT'' '''',
          cfg_PluginMemoryLimit = getenv env ''PLUGIN_MEMORY_LIMIT'' '''',
          cfg_PluginRollbackWindow = getenv env ''PLUGIN_ROLLBACK_WINDOW'' ''''\<rparr>)))))))))"

lemma env_int_Inr: "env_int env k d ok m = Inr n \<longleftrightarrow> atoi (getenv env k d) = Inr n \<and> ok n"
  by (auto simp: env_int_def split: sum.splits if_splits)

lemma env_bool_Inr: "env_bool env k d m = Inr b \<longleftrightarrow> parse_bool (getenv env k d) = Inr b"
  by (auto simp: env_bool_def split: sum.splits)

lemma getenv_unset: "env k = [] \<Longrightarrow> getenv env k d = d"
  by (simp add: getenv_def)

text \<open>What a successful load guarantees to the components that read the configuration.\<close>

definition cfg_ok :: "config \<Rightarrow> bool" where
  "cfg_ok c \<longleftrightarrow> 1 \<le> cfg_TopK c \<and> 0 \<le> cfg_RateLimitPerMin c \<and>
     0 \<le> cfg_GeminiDailyRequestLimit c \<and> 0 \<le> cfg_GeminiDailyTokenBudget c \<and>
     cfg_Policy c \<noteq> [] \<and> cfg_PersistenceBackend c \<noteq> [] \<and> cfg_QueueBackend c \<noteq> [] \<and>
     cfg_LLMMode c \<noteq> []"

lemma getenv_nonempty: "d \<noteq> [] \<Longrightarrow> getenv env k d \<noteq> []"
  by (simp add: getenv_def)

lemma Load_cfg_ok: "Load env = Inr c \<Longrightarrow> cfg_ok c"
  by (auto simp: Load_def res_bind_Inr env_int_Inr cfg_ok_def getenv_nonempty)

lemma Load_settings:
  assumes "Load env = Inr c"
  shows "atoi (getenv env ''CACHE_TOP_K'' ''1'') = Inr (cfg_TopK c)"
    and "parse_float (getenv env ''SIMILARITY_THRESHOLD'' ''0.25'') = Inr (cfg_Threshold c)"
    and "atoi (getenv env ''CACHE_CAPACITY'' ''1000'') = Inr (cfg_Capacity c)"
  using assms by (auto simp: Load_def res_bind_Inr env_int_Inr split: sum.splits)

text \<open>A configuration that loads has the settings its readers rely on: a positive \<open>TopK\<close>, limits that are
  not negative, a backend named for every port, and the numbers the environment (or the default) spells.\<close>

theorem Load_validates:
  assumes "Load env = Inr c"
  shows "cfg_ok c \<and> atoi (getenv env ''CACHE_TOP_K'' ''1'') = Inr (cfg_TopK c) \<and>
    parse_float (getenv env ''SIMILARITY_THRESHOLD'' ''0.25'') = Inr (cfg_Threshold c) \<and>
    atoi (getenv env ''CACHE_CAPACITY'' ''1000'') = Inr (cfg_Capacity c)"
  using Load_cfg_ok [OF assms] Load_settings [OF assms] by blast

lemma Load_validates_witness:
  "\<exists>c. Load (\<lambda>k. if k = ''CACHE_TOP_K'' then ''7'' else '''') = Inr c \<and> cfg_ok c"
proof -
  have "res_ok (Load (\<lambda>k. if k = ''CACHE_TOP_K'' then ''7'' else ''''))" by code_simp
  then obtain c where "Load (\<lambda>k. if k = ''CACHE_TOP_K'' then ''7'' else '''') = Inr c"
    by (auto simp: res_ok_def split: sum.splits)
  with Load_validates [OF this] show ?thesis by blast
qed


end
