(* ===== verification/Plugin_Factory.thy ===== *)
theory Plugin_Factory
  imports Config
begin

text \<open>
  The generic backend registry (\<open>internal/plugin/registry.go\<close>): for one seam, a map from a backend
  name to the factory that builds it. A factory is a function of the configuration; adapters
  register themselves from \<open>init\<close> functions, later registrations replacing earlier ones.
\<close>

type_synonym 'a factory = "config \<Rightarrow> 'a res"

record 'a registry =
  reg_kind :: string
  reg_entries :: "(string, 'a factory) gomap"

definition NewRegistry :: "string \<Rightarrow> 'a registry" where
  "NewRegistry kind = \<lparr>reg_kind = kind, reg_entries = []\<rparr>"

definition Register :: "string \<Rightarrow> 'a factory \<Rightarrow> 'a registry \<Rightarrow> 'a registry" where
  "Register name f r = r\<lparr>reg_entries := gm_put name f (reg_entries r)\<rparr>"

definition Has :: "'a registry \<Rightarrow> string \<Rightarrow> bool" where
  "Has r name \<longleftrightarrow> gm_get (reg_entries r) name \<noteq> None"

definition Names :: "'a registry \<Rightarrow> string list" where
  "Names r = sort (gm_keys (reg_entries r))"

definition Build :: "'a registry \<Rightarrow> string \<Rightarrow> config \<Rightarrow> 'a res" where
  "Build r name cfg =
     (case gm_get (reg_entries r) name of
        None \<Rightarrow> Inl (Errorf ''unknown %s %q (registered: %v)''
                     [AStr (reg_kind r), AStr name, AStrs (Names r)])
      | Some f \<Rightarrow> f cfg)"

text \<open>The registrations of the \<open>init\<close> functions, in the order they run.\<close>

definition register_all :: "(string \<times> 'a factory) list \<Rightarrow> 'a registry \<Rightarrow> 'a registry" where
  "register_all fs r = foldl (\<lambda>r (name, f). Register name f r) r fs"

definition reg_ok :: "'a registry \<Rightarrow> bool" where
  "reg_ok r \<longleftrightarrow> gm_wf (reg_entries r)"

lemma reg_ok_new: "reg_ok (NewRegistry k)"
  by (simp add: reg_ok_def NewRegistry_def)

lemma Has_new [simp]: "\<not> Has (NewRegistry k) n"
  by (simp add: Has_def NewRegistry_def)

lemma reg_ok_register [wf_intro]: "reg_ok r \<Longrightarrow> reg_ok (Register n f r)"
  by (simp add: reg_ok_def Register_def)

lemma reg_ok_register_all [wf_intro]: "reg_ok r \<Longrightarrow> reg_ok (register_all fs r)"
  unfolding register_all_def by (induction fs arbitrary: r) (auto intro: wf_intro)

lemma Build_Register:
  "Build (Register n f r) m cfg =
     (if m = n then f cfg
      else if Has r m then Build r m cfg
      else Inl (Errorf ''unknown %s %q (registered: %v)''
             [AStr (reg_kind r), AStr m, AStrs (Names (Register n f r))]))"
  by (auto simp: Build_def Register_def Has_def)

lemma Has_Register: "Has (Register n f r) m \<longleftrightarrow> m = n \<or> Has r m"
  by (auto simp: Has_def Register_def)

lemma set_Names: "set (Names r) = {n. Has r n}"
  by (auto simp: Names_def Has_def in_gm_keys_iff)

lemma sorted_Names: "sorted (Names r)"
  by (simp add: Names_def)

lemma distinct_Names: "reg_ok r \<Longrightarrow> distinct (Names r)"
  by (simp add: Names_def reg_ok_def gm_wf_keys)

lemma Build_unknown:
  "\<not> Has r name \<Longrightarrow>
   Build r name cfg = Inl (Errorf ''unknown %s %q (registered: %v)''
     [AStr (reg_kind r), AStr name, AStrs (Names r)])"
  by (simp add: Has_def Build_def)

text \<open>What was registered last under a name is what is built.\<close>

lemma Has_register_all: "Has (register_all fs r) n \<longleftrightarrow> n \<in> fst ` set fs \<or> Has r n"
  unfolding register_all_def
  by (induction fs arbitrary: r) (auto simp: Has_Register)

lemma Build_register_all:
  "Has (register_all fs r) n \<Longrightarrow>
   Build (register_all fs r) n cfg =
     (case map_of (rev fs) n of Some f \<Rightarrow> f cfg | None \<Rightarrow> Build r n cfg)"
proof (induction fs arbitrary: r rule: rev_induct)
  case (snoc x fs)
  obtain m f where x: "x = (m, f)" by (cases x)
  have "register_all (fs @ [x]) r = Register m f (register_all fs r)"
    by (simp add: register_all_def x)
  with snoc show ?case
    by (auto simp: Build_Register Has_Register x)
qed (simp add: register_all_def)

end
