(* ===== verification/Persistence.thy ===== *)
theory Persistence
  imports Go_Json Plugin_Factory
begin

text \<open>
  The persistence seam (\<open>internal/persistence\<close>): cache entries, the \<open>Store\<close> interface with its laws
  as a locale, the in-memory store, and the Redis store over a Redis server that is a parameter.

  A store's operations take and return its state; a read returns it too, so a failing or flaky
  backend is a state that carries its own faults. The laws let a failed write have happened or not,
  as a network error leaves it open.
\<close>

record Entry =
  e_ID :: string
  e_Prompt :: string
  e_Reply :: string
  e_Vector :: "f64 list"
  e_CreatedAt :: int

definition ErrNotFound :: goerr where "ErrNotFound = Sentinel ''persistence.ErrNotFound''"
definition ErrInvalidData :: goerr where "ErrInvalidData = Sentinel ''persistence.ErrInvalidData''"
definition ErrBackend :: goerr where "ErrBackend = Sentinel ''persistence.ErrBackend''"

section \<open>The interface\<close>

record 's store_ops =
  st_Save :: "Entry \<Rightarrow> 's \<Rightarrow> goerr option \<times> 's"
  st_Load :: "string \<Rightarrow> 's \<Rightarrow> Entry option \<times> 's"
  st_List :: "'s \<Rightarrow> Entry list res \<times> 's"
  st_Size :: "'s \<Rightarrow> int res \<times> 's"
  st_Delete :: "string \<Rightarrow> 's \<Rightarrow> goerr option \<times> 's"
  st_Flush :: "'s \<Rightarrow> goerr option \<times> 's"
  st_Health :: "'s \<Rightarrow> goerr option \<times> 's"

text \<open>\<open>view\<close>: the entries held, by id.\<close>

locale cache_store =
  fixes S :: "'s store_ops"
    and ok :: "'s \<Rightarrow> bool"
    and view :: "'s \<Rightarrow> string \<Rightarrow> Entry option"
  assumes finite_view: "ok s \<Longrightarrow> finite (dom (view s))"
    and view_id: "ok s \<Longrightarrow> view s k = Some e \<Longrightarrow> e_ID e = k"
    and save_ok: "ok s \<Longrightarrow> st_Save S e s = (None, t) \<Longrightarrow> ok t \<and> view t = (view s)(e_ID e \<mapsto> e)"
    and save_err: "ok s \<Longrightarrow> st_Save S e s = (Some err, t) \<Longrightarrow>
           ok t \<and> view t \<in> {view s, (view s)(e_ID e \<mapsto> e)}"
    and load_state: "ok s \<Longrightarrow> st_Load S k s = (r, t) \<Longrightarrow> ok t \<and> view t = view s"
    and load_found: "ok s \<Longrightarrow> st_Load S k s = (Some e, t) \<Longrightarrow> view s k = Some e"
    and list_state: "ok s \<Longrightarrow> st_List S s = (rl, t) \<Longrightarrow> ok t \<and> view t = view s"
    and list_all_entries: "ok s \<Longrightarrow> st_List S s = (Inr es, t) \<Longrightarrow>
           distinct (map e_ID es) \<and> set es = ran (view s)"
    and size_state: "ok s \<Longrightarrow> st_Size S s = (rs, t) \<Longrightarrow> ok t \<and> view t = view s"
    and size_card: "ok s \<Longrightarrow> st_Size S s = (Inr n, t) \<Longrightarrow> n = int (card (dom (view s)))"
    and delete_ok: "ok s \<Longrightarrow> st_Delete S k s = (None, t) \<Longrightarrow> ok t \<and> view t = (view s)(k := None)"
    and delete_err: "ok s \<Longrightarrow> st_Delete S k s = (Some err, t) \<Longrightarrow>
           ok t \<and> view t \<in> {view s, (view s)(k := None)}"
    and flush_ok: "ok s \<Longrightarrow> st_Flush S s = (None, t) \<Longrightarrow> ok t \<and> view t = Map.empty"
    and flush_err: "ok s \<Longrightarrow> st_Flush S s = (Some err, t) \<Longrightarrow> ok t \<and> view t \<in> {view s, Map.empty}"
begin

lemma list_ids:
  assumes "ok s" and "st_List S s = (Inr es, t)"
  shows "set (map e_ID es) = dom (view s)" and "length es = card (dom (view s))"
proof -
  have es: "distinct (map e_ID es)" "set es = ran (view s)"
    using list_all_entries [OF assms] by auto
  have "e_ID ` ran (view s) = dom (view s)"
    using view_id [OF assms(1)] by (force simp: ran_def dom_def image_iff)
  with es(2) show ids: "set (map e_ID es) = dom (view s)" by simp
  have "card (set (map e_ID es)) = length (map e_ID es)"
    by (rule distinct_card [OF es(1)])
  with ids show "length es = card (dom (view s))" by simp
qed

end

section \<open>\<open>MemoryStore\<close>\<close>

text \<open>
  Vectors are cloned on the way in and out, so no caller shares a slice with the store and an
  entry is a plain value. A \<open>nil\<close> vector and an empty one are identified.
\<close>

record memoryStore =
  ms_entries :: "(string, Entry) gomap"

definition NewMemoryStore :: memoryStore where
  "NewMemoryStore = \<lparr>ms_entries = []\<rparr>"

definition mem_Save :: "Entry \<Rightarrow> memoryStore \<Rightarrow> goerr option \<times> memoryStore" where
  "mem_Save entry m = (None, m\<lparr>ms_entries := gm_put (e_ID entry) entry (ms_entries m)\<rparr>)"

definition mem_Load :: "string \<Rightarrow> memoryStore \<Rightarrow> Entry option \<times> memoryStore" where
  "mem_Load k m = (gm_get (ms_entries m) k, m)"

definition mem_List :: "memoryStore \<Rightarrow> Entry list res \<times> memoryStore" where
  "mem_List m = (Inr (map snd (ms_entries m)), m)"

definition mem_Size :: "memoryStore \<Rightarrow> int res \<times> memoryStore" where
  "mem_Size m = (Inr (int (gm_len (ms_entries m))), m)"

definition mem_Delete :: "string \<Rightarrow> memoryStore \<Rightarrow> goerr option \<times> memoryStore" where
  "mem_Delete k m = (None, m\<lparr>ms_entries := gm_del k (ms_entries m)\<rparr>)"

definition mem_Flush :: "memoryStore \<Rightarrow> goerr option \<times> memoryStore" where
  "mem_Flush m = (None, m\<lparr>ms_entries := []\<rparr>)"

definition mem_Health :: "memoryStore \<Rightarrow> goerr option \<times> memoryStore" where
  "mem_Health m = (None, m)"

definition mem_LoadDetailed :: "string \<Rightarrow> memoryStore \<Rightarrow> Entry res" where
  "mem_LoadDetailed k m = (case fst (mem_Load k m) of None \<Rightarrow> Inl ErrNotFound | Some e \<Rightarrow> Inr e)"

definition memory_store :: "memoryStore store_ops" where
  "memory_store = \<lparr>st_Save = mem_Save, st_Load = mem_Load, st_List = mem_List, st_Size = mem_Size,
     st_Delete = mem_Delete, st_Flush = mem_Flush, st_Health = mem_Health\<rparr>"

definition mem_ok :: "memoryStore \<Rightarrow> bool" where
  "mem_ok m \<longleftrightarrow> gm_wf (ms_entries m) \<and> (\<forall>(k, e) \<in> set (ms_entries m). e_ID e = k)"

definition mem_view :: "memoryStore \<Rightarrow> string \<Rightarrow> Entry option" where
  "mem_view m = gm_get (ms_entries m)"

lemma mem_ok_alt:
  "mem_ok m \<longleftrightarrow> gm_wf (ms_entries m) \<and> (\<forall>k e. gm_get (ms_entries m) k = Some e \<longrightarrow> e_ID e = k)"
  by (auto simp: mem_ok_def gm_get_iff)

lemma mem_ok_new: "mem_ok NewMemoryStore" and mem_view_new: "mem_view NewMemoryStore = Map.empty"
  by (auto simp: mem_ok_def NewMemoryStore_def mem_view_def)

lemma dom_gm_get: "dom (gm_get m) = set (gm_keys m)"
  by (auto simp: in_gm_keys_iff)

lemma ran_gm_get: "gm_wf m \<Longrightarrow> ran (gm_get m) = snd ` set m"
  by (auto simp: ran_def gm_get_iff image_iff) (metis snd_conv)

lemma mem_Save_view: "mem_view (snd (mem_Save e m)) = (mem_view m)(e_ID e \<mapsto> e)"
  by (auto simp: mem_view_def mem_Save_def)

lemma mem_Delete_view: "mem_view (snd (mem_Delete k m)) = (mem_view m)(k := None)"
  by (auto simp: mem_view_def mem_Delete_def)

lemma mem_List_distinct: "mem_ok m \<Longrightarrow> distinct (map (e_ID \<circ> snd) (ms_entries m))"
proof -
  assume ok: "mem_ok m"
  then have "map (e_ID \<circ> snd) (ms_entries m) = gm_keys (ms_entries m)"
    by (auto simp: mem_ok_def gm_keys_def)
  with ok show ?thesis by (simp add: mem_ok_def gm_wf_keys)
qed

lemma mem_Size_card: "mem_ok m \<Longrightarrow> int (gm_len (ms_entries m)) = int (card (dom (mem_view m)))"
  by (simp add: mem_ok_def gm_len_card mem_view_def dom_gm_get)

interpretation memory: cache_store memory_store mem_ok mem_view
proof unfold_locales
  fix m t e k r es n
  show "finite (dom (mem_view m))" if "mem_ok m"
    by (simp add: mem_view_def dom_gm_get)
  show "e_ID e = k" if "mem_ok m" "mem_view m k = Some e"
    using that by (simp add: mem_ok_alt mem_view_def)
  show "mem_ok t \<and> mem_view t = (mem_view m)(e_ID e \<mapsto> e)" if "mem_ok m" "st_Save memory_store e m = (None, t)"
    using that mem_Save_view [of e m]
    by (auto simp: memory_store_def mem_Save_def mem_ok_alt split: if_splits)
  show "distinct (map e_ID es) \<and> set es = ran (mem_view m)"
    if "mem_ok m" "st_List memory_store m = (Inr es, t)"
  proof -
    have es: "es = map snd (ms_entries m)" using that(2) by (auto simp: memory_store_def mem_List_def)
    then show ?thesis
      using mem_List_distinct [OF that(1)] that(1) by (simp add: es mem_view_def ran_gm_get mem_ok_def)
  qed
  show "n = int (card (dom (mem_view m)))" if "mem_ok m" "st_Size memory_store m = (Inr n, t)"
    using that mem_Size_card [of m] by (auto simp: memory_store_def mem_Size_def)
  show "mem_ok t \<and> mem_view t = (mem_view m)(k := None)" if "mem_ok m" "st_Delete memory_store k m = (None, t)"
    using that mem_Delete_view [of k m] by (auto simp: memory_store_def mem_Delete_def mem_ok_alt split: if_splits)
qed (auto simp: memory_store_def mem_Save_def mem_Load_def mem_List_def mem_Size_def mem_Delete_def
    mem_Flush_def mem_view_def mem_ok_def)

end
