(* ===== verification/Policy_Lists.thy ===== *)
theory Policy_Lists
  imports Prelude
begin

text \<open>
  The two eviction policies built on Go's \<open>container/list\<close>: \<open>internal/policy/lru.go\<close> and
  \<open>internal/policy/fifo.go\<close>.

  \<open>container/list\<close> is a doubly linked list of heap cells. The model keeps the cells' identities
  (a number per \<open>*list.Element\<close>), because the \<open>items\<close> map of a policy stores pointers to them;
  a \<open>glist\<close> lists the cells from front to back. \<open>linked_ok\<close> says that the map and the list
  agree. \<open>lru_ids\<close> and \<open>fifo_ids\<close> abstract a policy to the sequence of ids it holds, and one
  lemma per hook says what the hook does to that sequence. Every hook holds the policy's mutex,
  so hooks are atomic state transformers.
\<close>

section \<open>\<open>container/list\<close>\<close>

record glist =
  gl_elems :: "(nat \<times> string) list"  \<comment> \<open>(element, Value), front first\<close>
  gl_fresh :: nat                     \<comment> \<open>the next element allocated\<close>

definition gl_new :: glist where
  "gl_new = \<lparr>gl_elems = [], gl_fresh = 0\<rparr>"

definition gl_init :: "glist \<Rightarrow> glist" where
  "gl_init l = l\<lparr>gl_elems := []\<rparr>"

definition gl_push_front :: "string \<Rightarrow> glist \<Rightarrow> nat \<times> glist" where
  "gl_push_front v l =
     (gl_fresh l, l\<lparr>gl_elems := (gl_fresh l, v) # gl_elems l, gl_fresh := Suc (gl_fresh l)\<rparr>)"

definition gl_push_back :: "string \<Rightarrow> glist \<Rightarrow> nat \<times> glist" where
  "gl_push_back v l =
     (gl_fresh l, l\<lparr>gl_elems := gl_elems l @ [(gl_fresh l, v)], gl_fresh := Suc (gl_fresh l)\<rparr>)"

definition gl_remove :: "nat \<Rightarrow> glist \<Rightarrow> glist" where
  "gl_remove e l = l\<lparr>gl_elems := filter (\<lambda>p. fst p \<noteq> e) (gl_elems l)\<rparr>"

definition gl_move_to_front :: "nat \<Rightarrow> glist \<Rightarrow> glist" where
  "gl_move_to_front e l =
     (case map_of (gl_elems l) e of
        None \<Rightarrow> l
      | Some v \<Rightarrow> l\<lparr>gl_elems := (e, v) # filter (\<lambda>p. fst p \<noteq> e) (gl_elems l)\<rparr>)"

definition gl_front :: "glist \<Rightarrow> string option" where
  "gl_front l = (case gl_elems l of [] \<Rightarrow> None | (_, v) # _ \<Rightarrow> Some v)"

definition gl_back :: "glist \<Rightarrow> string option" where
  "gl_back l = (case rev (gl_elems l) of [] \<Rightarrow> None | (_, v) # _ \<Rightarrow> Some v)"

definition gl_ids :: "glist \<Rightarrow> string list" where
  "gl_ids l = map snd (gl_elems l)"

text \<open>A list together with the map of pointers into it, as LRU and FIFO hold them.\<close>

definition linked_ok :: "glist \<Rightarrow> (string, nat) gomap \<Rightarrow> bool" where
  "linked_ok l m \<longleftrightarrow> gm_wf m \<and> distinct (map fst (gl_elems l)) \<and>
     (\<forall>p \<in> set (gl_elems l). fst p < gl_fresh l) \<and>
     (\<forall>k e. gm_get m k = Some e \<longleftrightarrow> (e, k) \<in> set (gl_elems l))"

lemma linked_ok_new: "linked_ok gl_new []"
  by (simp add: linked_ok_def gl_new_def)

lemma linked_ok_init: "linked_ok l m \<Longrightarrow> linked_ok (gl_init l) []"
  by (simp add: linked_ok_def gl_init_def)

lemma linked_ids:
  assumes "linked_ok l m"
  shows "set (gl_ids l) = {k. gm_get m k \<noteq> None}" and "distinct (gl_ids l)"
proof -
  show "set (gl_ids l) = {k. gm_get m k \<noteq> None}"
    using assms by (auto simp: linked_ok_def gl_ids_def) (metis image_iff snd_conv)
  have "distinct (gl_elems l)"
    using assms by (auto simp: linked_ok_def distinct_map)
  moreover have "inj_on snd (set (gl_elems l))"
    using assms by (auto simp: linked_ok_def inj_on_def) (metis option.inject)
  ultimately show "distinct (gl_ids l)"
    by (simp add: gl_ids_def distinct_map)
qed

lemma linked_inj:
  assumes "linked_ok l m" "(e, k) \<in> set (gl_elems l)" "(f, j) \<in> set (gl_elems l)"
  shows "f = e \<longleftrightarrow> j = k"
proof -
  have get: "gm_get m k = Some e" "gm_get m j = Some f" and d: "distinct (map fst (gl_elems l))"
    using assms by (simp_all add: linked_ok_def)
  show ?thesis
    using get eq_key_imp_eq_value [OF d assms(2), of j] assms(3) by auto
qed

lemma linked_filter:
  assumes "linked_ok l m" and "(e, k) \<in> set (gl_elems l)"
  shows "map snd (filter (\<lambda>p. fst p \<noteq> e) (gl_elems l)) = filter (\<lambda>x. x \<noteq> k) (gl_ids l)"
proof -
  have "\<forall>p \<in> set (gl_elems l). (fst p \<noteq> e) = (snd p \<noteq> k)"
    using linked_inj [OF assms] by auto
  then show ?thesis
    by (simp add: gl_ids_def filter_map o_def cong: filter_cong)
qed

lemma linked_map_of:
  "linked_ok l m \<Longrightarrow> gm_get m k = Some e \<Longrightarrow> map_of (gl_elems l) e = Some k"
  by (simp add: linked_ok_def)

lemma linked_ok_remove:
  assumes "linked_ok l m" and "gm_get m k = Some e"
  shows "linked_ok (gl_remove e l) (gm_del k m)"
    and "gl_ids (gl_remove e l) = filter (\<lambda>x. x \<noteq> k) (gl_ids l)"
proof -
  have mem: "(e, k) \<in> set (gl_elems l)" using assms by (simp add: linked_ok_def)
  note inj = linked_inj [OF assms(1) mem]
  show "linked_ok (gl_remove e l) (gm_del k m)"
    using assms inj by (auto simp: linked_ok_def gl_remove_def distinct_map inj_on_def)
  show "gl_ids (gl_remove e l) = filter (\<lambda>x. x \<noteq> k) (gl_ids l)"
    using linked_filter [OF assms(1) mem] by (simp add: gl_remove_def gl_ids_def)
qed

lemma linked_ok_reorder:
  "linked_ok l m \<Longrightarrow> set xs = set (gl_elems l) \<Longrightarrow> distinct (map fst xs) \<Longrightarrow>
   linked_ok (l\<lparr>gl_elems := xs\<rparr>) m"
  by (simp add: linked_ok_def)

lemma linked_ok_move:
  assumes "linked_ok l m" and "gm_get m k = Some e"
  shows "linked_ok (gl_move_to_front e l) m"
    and "gl_ids (gl_move_to_front e l) = k # filter (\<lambda>x. x \<noteq> k) (gl_ids l)"
proof -
  have mem: "(e, k) \<in> set (gl_elems l)" using assms by (simp add: linked_ok_def)
  note inj = linked_inj [OF assms(1) mem] and mo = linked_map_of [OF assms]
  let ?xs = "(e, k) # filter (\<lambda>p. fst p \<noteq> e) (gl_elems l)"
  have "p = (e, k)" if "p \<in> set (gl_elems l)" and "fst p = e" for p
    using that inj [of e "snd p"] by (metis prod.collapse)
  then have "set ?xs = set (gl_elems l)"
    using mem unfolding list.set(2) set_filter by blast
  moreover have "distinct (map fst ?xs)"
    using assms(1) by (auto simp: linked_ok_def distinct_map inj_on_def)
  ultimately have "linked_ok (l\<lparr>gl_elems := ?xs\<rparr>) m"
    by (rule linked_ok_reorder [OF assms(1)])
  then show "linked_ok (gl_move_to_front e l) m"
    using mo by (simp add: gl_move_to_front_def)
  show "gl_ids (gl_move_to_front e l) = k # filter (\<lambda>x. x \<noteq> k) (gl_ids l)"
    using linked_filter [OF assms(1) mem] mo by (simp add: gl_move_to_front_def gl_ids_def)
qed

lemma linked_ok_push:
  assumes "linked_ok l m" and "gm_get m k = None"
  shows "linked_ok (snd (gl_push_front k l)) (gm_put k (fst (gl_push_front k l)) m)"
    and "linked_ok (snd (gl_push_back k l)) (gm_put k (fst (gl_push_back k l)) m)"
  using assms by (auto simp: linked_ok_def gl_push_front_def gl_push_back_def less_Suc_eq)
    (metis option.distinct(1))+

lemma gl_ids_push [simp]:
  "gl_ids (snd (gl_push_front k l)) = k # gl_ids l"
  "gl_ids (snd (gl_push_back k l)) = gl_ids l @ [k]"
  by (simp_all add: gl_ids_def gl_push_front_def gl_push_back_def)

lemma gl_ids_init [simp]: "gl_ids (gl_init l) = []" "gl_ids gl_new = []"
  by (simp_all add: gl_ids_def gl_init_def gl_new_def)

lemma gl_back_ids: "gl_back l = (if gl_ids l = [] then None else Some (last (gl_ids l)))"
  by (cases "gl_elems l" rule: rev_cases) (auto simp: gl_back_def gl_ids_def)

lemma gl_front_ids: "gl_front l = (if gl_ids l = [] then None else Some (hd (gl_ids l)))"
  by (cases "gl_elems l") (auto simp: gl_front_def gl_ids_def)

section \<open>LRU (\<open>lru.go\<close>)\<close>

record lruPolicy =
  lru_order :: glist
  lru_items :: "(string, nat) gomap"

definition newLRUPolicy :: lruPolicy where
  "newLRUPolicy = \<lparr>lru_order = gl_new, lru_items = []\<rparr>"

definition lru_OnHit :: "string \<Rightarrow> lruPolicy \<Rightarrow> lruPolicy" where
  "lru_OnHit k p =
     (case gm_get (lru_items p) k of
        Some element \<Rightarrow> p\<lparr>lru_order := gl_move_to_front element (lru_order p)\<rparr>
      | None \<Rightarrow> p)"

definition lru_OnInsert :: "string \<Rightarrow> lruPolicy \<Rightarrow> lruPolicy" where
  "lru_OnInsert k p =
     (case gm_get (lru_items p) k of
        Some element \<Rightarrow> p\<lparr>lru_order := gl_move_to_front element (lru_order p)\<rparr>
      | None \<Rightarrow>
          (let (element, l) = gl_push_front k (lru_order p)
           in p\<lparr>lru_order := l, lru_items := gm_put k element (lru_items p)\<rparr>))"

definition lru_OnDelete :: "string \<Rightarrow> lruPolicy \<Rightarrow> lruPolicy" where
  "lru_OnDelete k p =
     (case gm_get (lru_items p) k of
        Some element \<Rightarrow> p\<lparr>lru_order := gl_remove element (lru_order p),
                           lru_items := gm_del k (lru_items p)\<rparr>
      | None \<Rightarrow> p)"

text \<open>\<open>Victim\<close> returns \<open>("", false)\<close> or \<open>(id, true)\<close>: an option here.\<close>

definition lru_Victim :: "lruPolicy \<Rightarrow> string option" where
  "lru_Victim p = gl_back (lru_order p)"

definition lru_Flush :: "lruPolicy \<Rightarrow> lruPolicy" where
  "lru_Flush p = p\<lparr>lru_order := gl_init (lru_order p), lru_items := []\<rparr>"

definition lru_ok :: "lruPolicy \<Rightarrow> bool" where
  "lru_ok p \<longleftrightarrow> linked_ok (lru_order p) (lru_items p)"

definition lru_ids :: "lruPolicy \<Rightarrow> string list" where
  "lru_ids p = gl_ids (lru_order p)"

lemma lru_ids_get: "lru_ok p \<Longrightarrow> gm_get (lru_items p) k \<noteq> None \<longleftrightarrow> k \<in> set (lru_ids p)"
  using linked_ids(1) [of "lru_order p" "lru_items p"] by (simp add: lru_ok_def lru_ids_def)

lemma lru_ids_distinct: "lru_ok p \<Longrightarrow> distinct (lru_ids p)"
  unfolding lru_ok_def lru_ids_def by (rule linked_ids(2))

lemma lru_new_ok: "lru_ok newLRUPolicy" and lru_new_ids: "lru_ids newLRUPolicy = []"
  by (simp_all add: lru_ok_def newLRUPolicy_def linked_ok_new lru_ids_def)

lemma lru_hit:
  assumes "lru_ok p"
  shows "lru_ok (lru_OnHit k p)"
    and "lru_ids (lru_OnHit k p) =
      (if k \<in> set (lru_ids p) then k # filter (\<lambda>x. x \<noteq> k) (lru_ids p) else lru_ids p)"
  using assms lru_ids_get [OF assms, of k] linked_ok_move [of "lru_order p" "lru_items p" k]
  by (auto simp: lru_OnHit_def lru_ok_def lru_ids_def split: option.splits)

lemma lru_insert:
  assumes "lru_ok p"
  shows "lru_ok (lru_OnInsert k p)"
    and "lru_ids (lru_OnInsert k p) = k # filter (\<lambda>x. x \<noteq> k) (lru_ids p)"
  using assms lru_ids_get [OF assms, of k] linked_ok_move [of "lru_order p" "lru_items p" k]
    linked_ok_push(1) [of "lru_order p" "lru_items p" k]
  by (auto simp: lru_OnInsert_def lru_ok_def lru_ids_def Let_def case_prod_unfold split: option.splits)

lemma lru_delete:
  assumes "lru_ok p"
  shows "lru_ok (lru_OnDelete k p)"
    and "lru_ids (lru_OnDelete k p) = filter (\<lambda>x. x \<noteq> k) (lru_ids p)"
  using assms lru_ids_get [OF assms, of k] linked_ok_remove [of "lru_order p" "lru_items p" k]
  by (auto simp: lru_OnDelete_def lru_ok_def lru_ids_def split: option.splits)

lemma lru_flush:
  "lru_ok p \<Longrightarrow> lru_ok (lru_Flush p)" "lru_ids (lru_Flush p) = []"
  by (simp_all add: lru_Flush_def lru_ok_def lru_ids_def linked_ok_init)

lemma lru_victim: "lru_Victim p = (if lru_ids p = [] then None else Some (last (lru_ids p)))"
  by (simp add: lru_Victim_def lru_ids_def gl_back_ids)

section \<open>FIFO (\<open>fifo.go\<close>)\<close>

record fifoPolicy =
  fifo_order :: glist
  fifo_items :: "(string, nat) gomap"

definition newFIFOPolicy :: fifoPolicy where
  "newFIFOPolicy = \<lparr>fifo_order = gl_new, fifo_items = []\<rparr>"

definition fifo_OnHit :: "string \<Rightarrow> fifoPolicy \<Rightarrow> fifoPolicy" where
  "fifo_OnHit k p = p"

definition fifo_OnInsert :: "string \<Rightarrow> fifoPolicy \<Rightarrow> fifoPolicy" where
  "fifo_OnInsert k p =
     (case gm_get (fifo_items p) k of
        Some _ \<Rightarrow> p
      | None \<Rightarrow>
          (let (element, l) = gl_push_back k (fifo_order p)
           in p\<lparr>fifo_order := l, fifo_items := gm_put k element (fifo_items p)\<rparr>))"

definition fifo_OnDelete :: "string \<Rightarrow> fifoPolicy \<Rightarrow> fifoPolicy" where
  "fifo_OnDelete k p =
     (case gm_get (fifo_items p) k of
        Some item \<Rightarrow> p\<lparr>fifo_order := gl_remove item (fifo_order p),
                        fifo_items := gm_del k (fifo_items p)\<rparr>
      | None \<Rightarrow> p)"

definition fifo_Victim :: "fifoPolicy \<Rightarrow> string option" where
  "fifo_Victim p = gl_front (fifo_order p)"

definition fifo_Flush :: "fifoPolicy \<Rightarrow> fifoPolicy" where
  "fifo_Flush p = p\<lparr>fifo_order := gl_init (fifo_order p), fifo_items := []\<rparr>"

definition fifo_ok :: "fifoPolicy \<Rightarrow> bool" where
  "fifo_ok p \<longleftrightarrow> linked_ok (fifo_order p) (fifo_items p)"

definition fifo_ids :: "fifoPolicy \<Rightarrow> string list" where
  "fifo_ids p = gl_ids (fifo_order p)"

lemma fifo_ids_get: "fifo_ok p \<Longrightarrow> gm_get (fifo_items p) k \<noteq> None \<longleftrightarrow> k \<in> set (fifo_ids p)"
  using linked_ids(1) [of "fifo_order p" "fifo_items p"] by (simp add: fifo_ok_def fifo_ids_def)

lemma fifo_ids_distinct: "fifo_ok p \<Longrightarrow> distinct (fifo_ids p)"
  unfolding fifo_ok_def fifo_ids_def by (rule linked_ids(2))

lemma fifo_new_ok: "fifo_ok newFIFOPolicy" and fifo_new_ids: "fifo_ids newFIFOPolicy = []"
  by (simp_all add: fifo_ok_def newFIFOPolicy_def linked_ok_new fifo_ids_def)

lemma fifo_insert:
  assumes "fifo_ok p"
  shows "fifo_ok (fifo_OnInsert k p)"
    and "fifo_ids (fifo_OnInsert k p) =
      (if k \<in> set (fifo_ids p) then fifo_ids p else fifo_ids p @ [k])"
  using assms fifo_ids_get [OF assms, of k]
    linked_ok_push(2) [of "fifo_order p" "fifo_items p" k]
  by (auto simp: fifo_OnInsert_def fifo_ok_def fifo_ids_def Let_def case_prod_unfold split: option.splits)

lemma fifo_delete:
  assumes "fifo_ok p"
  shows "fifo_ok (fifo_OnDelete k p)"
    and "fifo_ids (fifo_OnDelete k p) = filter (\<lambda>x. x \<noteq> k) (fifo_ids p)"
  using assms fifo_ids_get [OF assms, of k] linked_ok_remove [of "fifo_order p" "fifo_items p" k]
  by (auto simp: fifo_OnDelete_def fifo_ok_def fifo_ids_def split: option.splits)

lemma fifo_flush:
  "fifo_ok p \<Longrightarrow> fifo_ok (fifo_Flush p)" "fifo_ids (fifo_Flush p) = []"
  by (simp_all add: fifo_Flush_def fifo_ok_def fifo_ids_def linked_ok_init)

lemma fifo_victim: "fifo_Victim p = (if fifo_ids p = [] then None else Some (hd (fifo_ids p)))"
  by (simp add: fifo_Victim_def fifo_ids_def gl_front_ids)

end
