(* ===== verification/Policy_Lfu.thy ===== *)
theory Policy_Lfu
  imports Prelude
begin

text \<open>
  The least-frequently-used policy (\<open>internal/policy/lfu.go\<close>): a Go map from id to a use count
  and an insertion number, scanned in full by \<open>Victim\<close>. The scan visits the map in an
  unspecified order; \<open>lfu_Victim_perm\<close> shows that the victim does not depend on it. Counters are
  unbounded integers here; Go's wrap only after \<open>2^63\<close> operations.
\<close>

record lfuEntry =
  lfu_count :: int
  lfu_seq :: int  \<comment> \<open>field \<open>order\<close>\<close>

record lfuPolicy =
  lfu_entries :: "(string, lfuEntry) gomap"
  lfu_next :: int

definition newLFUPolicy :: lfuPolicy where
  "newLFUPolicy = \<lparr>lfu_entries = [], lfu_next = 0\<rparr>"

definition lfu_OnHit :: "string \<Rightarrow> lfuPolicy \<Rightarrow> lfuPolicy" where
  "lfu_OnHit k p =
     (case gm_get (lfu_entries p) k of
        None \<Rightarrow> p
      | Some e \<Rightarrow> p\<lparr>lfu_entries := gm_put k (e\<lparr>lfu_count := lfu_count e + 1\<rparr>) (lfu_entries p)\<rparr>)"

definition lfu_OnInsert :: "string \<Rightarrow> lfuPolicy \<Rightarrow> lfuPolicy" where
  "lfu_OnInsert k p =
     (case gm_get (lfu_entries p) k of
        Some _ \<Rightarrow> p
      | None \<Rightarrow>
          p\<lparr>lfu_entries := gm_put k \<lparr>lfu_count = 1, lfu_seq = lfu_next p\<rparr> (lfu_entries p),
            lfu_next := lfu_next p + 1\<rparr>)"

definition lfu_OnDelete :: "string \<Rightarrow> lfuPolicy \<Rightarrow> lfuPolicy" where
  "lfu_OnDelete k p = p\<lparr>lfu_entries := gm_del k (lfu_entries p)\<rparr>"

definition lfu_before :: "lfuEntry \<Rightarrow> lfuEntry \<Rightarrow> bool" where
  "lfu_before e v \<longleftrightarrow>
     lfu_count e < lfu_count v \<or> lfu_count e = lfu_count v \<and> lfu_seq e < lfu_seq v"

text \<open>The loop of \<open>Victim\<close>: \<open>None\<close> while \<open>found\<close> is false, else \<open>(victimID, victim)\<close>.\<close>

fun lfu_scan :: "(string \<times> lfuEntry) list \<Rightarrow> (string \<times> lfuEntry) option \<Rightarrow>
    (string \<times> lfuEntry) option" where
  "lfu_scan [] best = best"
| "lfu_scan ((k, e) # rest) best =
     lfu_scan rest
       (case best of
          None \<Rightarrow> Some (k, e)
        | Some (_, v) \<Rightarrow> (if lfu_before e v then Some (k, e) else best))"

definition lfu_Victim :: "lfuPolicy \<Rightarrow> string option" where
  "lfu_Victim p = map_option fst (lfu_scan (lfu_entries p) None)"

definition lfu_Flush :: "lfuPolicy \<Rightarrow> lfuPolicy" where
  "lfu_Flush p = p\<lparr>lfu_entries := [], lfu_next := 0\<rparr>"

definition lfu_ok :: "lfuPolicy \<Rightarrow> bool" where
  "lfu_ok p \<longleftrightarrow> gm_wf (lfu_entries p) \<and>
     (\<forall>k e. gm_get (lfu_entries p) k = Some e \<longrightarrow> lfu_seq e < lfu_next p) \<and>
     (\<forall>k j e f. gm_get (lfu_entries p) k = Some e \<longrightarrow> gm_get (lfu_entries p) j = Some f \<longrightarrow>
        lfu_seq e = lfu_seq f \<longrightarrow> k = j)"

definition lfu_keys :: "lfuPolicy \<Rightarrow> string set" where
  "lfu_keys p = set (gm_keys (lfu_entries p))"

section \<open>The hooks keep the invariant\<close>

lemma lfu_new: "lfu_ok newLFUPolicy" "lfu_keys newLFUPolicy = {}"
  by (simp_all add: lfu_ok_def newLFUPolicy_def lfu_keys_def)

lemma lfu_hit: 
  assumes "lfu_ok p"
  shows "lfu_ok (lfu_OnHit k p)" and "lfu_keys (lfu_OnHit k p) = lfu_keys p"
  using assms by (auto simp: lfu_ok_def lfu_OnHit_def lfu_keys_def in_gm_keys_iff split: option.splits)

lemma lfu_insert:
  assumes "lfu_ok p"
  shows "lfu_ok (lfu_OnInsert k p)" and "lfu_keys (lfu_OnInsert k p) = insert k (lfu_keys p)"
proof -
  show "lfu_keys (lfu_OnInsert k p) = insert k (lfu_keys p)"
    by (auto simp: lfu_OnInsert_def lfu_keys_def in_gm_keys_iff split: option.splits)
  show "lfu_ok (lfu_OnInsert k p)"
  proof (cases "gm_get (lfu_entries p) k")
    case None
    have "lfu_seq e < lfu_next p + 1 \<and> lfu_seq e \<noteq> lfu_next p"
      if "gm_get (lfu_entries p) j = Some e" for j e
      using assms that unfolding lfu_ok_def by (metis less_irrefl zless_add1_eq)
    with None assms show ?thesis
      by (auto simp: lfu_ok_def lfu_OnInsert_def dest: sym split: if_splits)
  qed (use assms in \<open>simp add: lfu_OnInsert_def\<close>)
qed

lemma lfu_delete:
  assumes "lfu_ok p"
  shows "lfu_ok (lfu_OnDelete k p)" and "lfu_keys (lfu_OnDelete k p) = lfu_keys p - {k}"
  using assms by (auto simp: lfu_ok_def lfu_OnDelete_def lfu_keys_def split: if_splits)

lemma lfu_flush: "lfu_ok (lfu_Flush p)" "lfu_keys (lfu_Flush p) = {}"
  by (simp_all add: lfu_ok_def lfu_Flush_def lfu_keys_def)

section \<open>The victim\<close>

lemma lfu_before_total:
  "lfu_before e f \<or> lfu_before f e \<or> lfu_count e = lfu_count f \<and> lfu_seq e = lfu_seq f"
  by (auto simp: lfu_before_def)

lemma lfu_before_trans: "lfu_before d e \<Longrightarrow> lfu_before e f \<Longrightarrow> lfu_before d f"
  by (auto simp: lfu_before_def)

lemma lfu_before_irrefl: "\<not> lfu_before e e"
  by (simp add: lfu_before_def)

lemma lfu_before_negtrans: "\<not> lfu_before d e \<Longrightarrow> \<not> lfu_before e f \<Longrightarrow> \<not> lfu_before d f"
  by (auto simp: lfu_before_def)

text \<open>The scan returns one of the pairs it has seen, and none of them comes before it.\<close>

lemma lfu_scan_some:
  assumes "lfu_scan xs (Some b) = r"
  shows "\<exists>k e. r = Some (k, e) \<and> (k, e) \<in> insert b (set xs) \<and>
     (\<forall>(j, f) \<in> insert b (set xs). \<not> lfu_before f e)"
  using assms
proof (induction xs arbitrary: b r)
  case Nil
  then show ?case by (cases b) (auto simp: lfu_before_irrefl)
next
  case (Cons x xs)
  obtain k e where x: "x = (k, e)" by (cases x)
  obtain j v where b: "b = (j, v)" by (cases b)
  let ?b = "if lfu_before e v then (k, e) else b"
  have "lfu_scan xs (Some ?b) = r"
    using Cons.prems by (simp add: x b split: if_splits)
  then obtain k' e' where r: "r = Some (k', e')" "(k', e') \<in> insert ?b (set xs)"
      "\<forall>(j, f) \<in> insert ?b (set xs). \<not> lfu_before f e'"
    using Cons.IH by blast
  have "\<not> lfu_before v e' \<and> \<not> lfu_before e e'"
    using r(3) lfu_before_trans lfu_before_negtrans lfu_before_total
    by (cases "lfu_before e v") (auto simp: b lfu_before_def)
  with r show ?case by (auto simp: x b split: if_splits)
qed

lemma lfu_scan_none:
  "lfu_scan xs None = None \<longleftrightarrow> xs = []"
proof (cases xs)
  case (Cons x ys)
  then obtain k e where "x = (k, e)" by (cases x)
  with Cons show ?thesis using lfu_scan_some [of ys "(k, e)"] by auto
qed simp

lemma lfu_scan_min:
  assumes "lfu_scan xs None = Some (k, e)"
  shows "(k, e) \<in> set xs" and "\<forall>(j, f) \<in> set xs. \<not> lfu_before f e"
proof -
  obtain x ys where "xs = x # ys"
    using assms by (cases xs) auto
  moreover obtain j f where "x = (j, f)" by (cases x)
  ultimately show "(k, e) \<in> set xs" and "\<forall>(j, f) \<in> set xs. \<not> lfu_before f e"
    using assms lfu_scan_some [of ys "(j, f)"] by auto
qed

lemma lfu_victim_none: "lfu_Victim p = None \<longleftrightarrow> lfu_keys p = {}"
  by (simp add: lfu_Victim_def lfu_scan_none lfu_keys_def gm_keys_def)

lemma lfu_victim_least:
  assumes "lfu_ok p" and "lfu_Victim p = Some k"
  obtains e where "gm_get (lfu_entries p) k = Some e"
    and "\<And>j f. gm_get (lfu_entries p) j = Some f \<Longrightarrow> j \<noteq> k \<Longrightarrow> lfu_before e f"
proof -
  from assms(2) obtain e where scan: "lfu_scan (lfu_entries p) None = Some (k, e)"
    by (auto simp: lfu_Victim_def)
  have wf: "gm_wf (lfu_entries p)" using assms(1) by (simp add: lfu_ok_def)
  have get: "gm_get (lfu_entries p) k = Some e"
    using lfu_scan_min(1) [OF scan] wf by (simp add: gm_get_iff)
  have "lfu_before e f" if "gm_get (lfu_entries p) j = Some f" "j \<noteq> k" for j f
  proof -
    have "\<not> lfu_before f e"
      using lfu_scan_min(2) [OF scan] that(1) gm_get_SomeD by fastforce
    moreover have "lfu_seq e \<noteq> lfu_seq f"
      using assms(1) get that unfolding lfu_ok_def by metis
    ultimately show ?thesis using lfu_before_total by blast
  qed
  with get show thesis by (rule that)
qed

text \<open>The map's visiting order does not matter.\<close>

lemma lfu_Victim_unique:
  assumes "lfu_ok p" and "gm_get (lfu_entries p) k = Some e"
    and "\<And>j f. gm_get (lfu_entries p) j = Some f \<Longrightarrow> j \<noteq> k \<Longrightarrow> lfu_before e f"
  shows "lfu_Victim p = Some k"
proof -
  have "lfu_keys p \<noteq> {}"
    using assms(2) by (auto simp: lfu_keys_def dest: gm_get_Some_keys)
  then obtain j where v: "lfu_Victim p = Some j"
    using lfu_victim_none [of p] by auto
  obtain f where f: "gm_get (lfu_entries p) j = Some f"
    "\<And>i g. gm_get (lfu_entries p) i = Some g \<Longrightarrow> i \<noteq> j \<Longrightarrow> lfu_before f g"
    using lfu_victim_least [OF assms(1) v] by blast
  have "j = k"
    using f assms(2,3) lfu_before_trans lfu_before_irrefl by metis
  with v show ?thesis by simp
qed

lemma lfu_Victim_perm:
  assumes "lfu_ok p" and "mset m = mset (lfu_entries p)"
  shows "lfu_Victim (p\<lparr>lfu_entries := m\<rparr>) = lfu_Victim p"
proof -
  have wf: "gm_wf (lfu_entries p)" using assms(1) by (simp add: lfu_ok_def)
  have get: "gm_get m = gm_get (lfu_entries p)"
    using gm_get_perm [OF wf assms(2) [symmetric]] by simp
  have ok: "lfu_ok (p\<lparr>lfu_entries := m\<rparr>)"
    using assms gm_wf_perm [OF assms(2)] by (simp add: lfu_ok_def get)
  show ?thesis
  proof (cases "lfu_Victim p")
    case None
    then have "lfu_entries p = []"
      by (simp add: lfu_victim_none lfu_keys_def gm_keys_def)
    with assms(2) have "m = []" by simp
    with \<open>lfu_entries p = []\<close> show ?thesis by (simp add: lfu_Victim_def)
  next
    case (Some k)
    then obtain e where "gm_get (lfu_entries p) k = Some e"
      "\<And>j f. gm_get (lfu_entries p) j = Some f \<Longrightarrow> j \<noteq> k \<Longrightarrow> lfu_before e f"
      using lfu_victim_least [OF assms(1)] by blast
    then have "lfu_Victim (p\<lparr>lfu_entries := m\<rparr>) = Some k"
      by (intro lfu_Victim_unique [OF ok, of k e]) (simp_all add: get)
    with Some show ?thesis by simp
  qed
qed

end
