(* ===== verification/Policy_Spec.thy ===== *)
theory Policy_Spec
  imports Policy_Lists Policy_Lfu
begin

text \<open>
  What the three built-in policies promise, stated over the history of hook calls. A history lists
  the calls latest first, so a time is the number of calls made before. \<open>live\<close> is the set of ids
  inserted and not deleted since; \<open>last_use\<close>, \<open>born\<close> and \<open>uses\<close> are when an id was last touched,
  when its current life began, and how often it was used in it. The victim of LRU is the live id
  used longest ago, of FIFO the one born first, of LFU the one with the fewest uses and, among
  those, born first.
\<close>

datatype hook = Hit string | Insert string | Delete string | FlushAll

fun live :: "hook list \<Rightarrow> string set" where
  "live [] = {}"
| "live (Hit k # h) = live h"
| "live (Insert k # h) = insert k (live h)"
| "live (Delete k # h) = live h - {k}"
| "live (FlushAll # h) = {}"

fun last_use :: "hook list \<Rightarrow> string \<Rightarrow> nat" where
  "last_use [] j = 0"
| "last_use (Hit k # h) j = (if j = k then length h else last_use h j)"
| "last_use (Insert k # h) j = (if j = k then length h else last_use h j)"
| "last_use (_ # h) j = last_use h j"

fun born :: "hook list \<Rightarrow> string \<Rightarrow> nat" where
  "born [] j = 0"
| "born (Insert k # h) j = (if j = k \<and> k \<notin> live h then length h else born h j)"
| "born (_ # h) j = born h j"

fun uses :: "hook list \<Rightarrow> string \<Rightarrow> nat" where
  "uses [] j = 0"
| "uses (Hit k # h) j = (if j = k then Suc (uses h j) else uses h j)"
| "uses (Insert k # h) j = (if j = k \<and> k \<notin> live h then 1 else uses h j)"
| "uses (_ # h) j = uses h j"

lemma last_use_past: "k \<in> live h \<Longrightarrow> last_use h k < length h"
  by (induction h k rule: last_use.induct) auto

lemma born_past: "k \<in> live h \<Longrightarrow> born h k < length h"
  by (induction h k rule: born.induct) auto

section \<open>LRU\<close>

fun lru_hook :: "hook \<Rightarrow> lruPolicy \<Rightarrow> lruPolicy" where
  "lru_hook (Hit k) p = lru_OnHit k p"
| "lru_hook (Insert k) p = lru_OnInsert k p"
| "lru_hook (Delete k) p = lru_OnDelete k p"
| "lru_hook FlushAll p = lru_Flush p"

definition lru_run :: "hook list \<Rightarrow> lruPolicy" where
  "lru_run h = foldr lru_hook h newLRUPolicy"

lemma lru_run_simps [simp]: "lru_run [] = newLRUPolicy" "lru_run (x # h) = lru_hook x (lru_run h)"
  by (simp_all add: lru_run_def)

lemma sorted_wrt_touch:
  assumes "sorted_wrt (\<lambda>a b. f b < f a) xs" and "\<And>x. x \<in> set xs \<Longrightarrow> f x < (n::nat)"
  shows "sorted_wrt (\<lambda>a b. (if b = k then n else f b) < (if a = k then n else f a))
     (k # filter (\<lambda>x. x \<noteq> k) xs)"
  using assms by (induction xs) auto

lemma lru_run_inv:
  "lru_ok (lru_run h) \<and> set (lru_ids (lru_run h)) = live h \<and>
   sorted_wrt (\<lambda>a b. last_use h b < last_use h a) (lru_ids (lru_run h))"
proof (induction h)
  case Nil
  then show ?case by (simp add: lru_new_ok lru_new_ids)
next
  case (Cons x h)
  then have ok: "lru_ok (lru_run h)" and ids: "set (lru_ids (lru_run h)) = live h"
    and srt: "sorted_wrt (\<lambda>a b. last_use h b < last_use h a) (lru_ids (lru_run h))" by auto
  have touch: "sorted_wrt (\<lambda>a b. (if b = k then length h else last_use h b) <
      (if a = k then length h else last_use h a)) (k # filter (\<lambda>x. x \<noteq> k) (lru_ids (lru_run h)))" for k
    by (rule sorted_wrt_touch [OF srt]) (simp add: ids last_use_past)
  show ?case
  proof (cases x)
    case (Hit k)
    have "sorted_wrt (\<lambda>a b. (if b = k then length h else last_use h b) <
      (if a = k then length h else last_use h a)) (lru_ids (lru_run h))" if "k \<notin> live h"
      using srt that ids by (auto intro: sorted_wrt_mono_rel [OF _ srt])
    then show ?thesis using lru_hit [OF ok, of k] touch [of k] ids by (auto simp: Hit)
  next
    case (Insert k)
    then show ?thesis using lru_insert [OF ok, of k] touch [of k] ids by (auto simp: Insert)
  next
    case (Delete k)
    then show ?thesis using lru_delete [OF ok, of k] srt ids by (auto simp: sorted_wrt_filter)
  next
    case FlushAll
    then show ?thesis using lru_flush ok by simp
  qed
qed

text \<open>C35: after any sequence of hooks the LRU policy picks a victim exactly when it is live and every other live
  id was inserted or hit more recently.\<close>

theorem lru_evicts_least_recently_used:
  "lru_Victim (lru_run h) = Some v \<longleftrightarrow>
     v \<in> live h \<and> (\<forall>k \<in> live h. k \<noteq> v \<longrightarrow> last_use h v < last_use h k)"
proof -
  let ?xs = "lru_ids (lru_run h)"
  have ids: "set ?xs = live h" and srt: "sorted_wrt (\<lambda>a b. last_use h b < last_use h a) ?xs"
    using lru_run_inv [of h] by auto
  show ?thesis
  proof (cases ?xs rule: rev_cases)
    case Nil
    then show ?thesis using ids by (auto simp: lru_victim)
  next
    case (snoc ys y)
    then have "\<forall>a \<in> set ys. last_use h y < last_use h a" and "live h = insert y (set ys)"
      using srt ids by (auto simp: sorted_wrt_append)
    then show ?thesis using snoc by (auto simp: lru_victim)
  qed
qed

lemma lru_evicts_least_recently_used_witness:
  "lru_Victim (lru_run [Hit ''a'', Insert ''b'', Insert ''a'']) = Some ''b''"
  by (subst lru_evicts_least_recently_used) auto

section \<open>FIFO\<close>

fun fifo_hook :: "hook \<Rightarrow> fifoPolicy \<Rightarrow> fifoPolicy" where
  "fifo_hook (Hit k) p = fifo_OnHit k p"
| "fifo_hook (Insert k) p = fifo_OnInsert k p"
| "fifo_hook (Delete k) p = fifo_OnDelete k p"
| "fifo_hook FlushAll p = fifo_Flush p"

definition fifo_run :: "hook list \<Rightarrow> fifoPolicy" where
  "fifo_run h = foldr fifo_hook h newFIFOPolicy"

lemma fifo_run_simps [simp]:
  "fifo_run [] = newFIFOPolicy" "fifo_run (x # h) = fifo_hook x (fifo_run h)"
  by (simp_all add: fifo_run_def)

lemma fifo_run_inv:
  "fifo_ok (fifo_run h) \<and> set (fifo_ids (fifo_run h)) = live h \<and>
   sorted_wrt (\<lambda>a b. born h a < born h b) (fifo_ids (fifo_run h))"
proof (induction h)
  case Nil
  then show ?case by (simp add: fifo_new_ok fifo_new_ids)
next
  case (Cons x h)
  then have ok: "fifo_ok (fifo_run h)" and ids: "set (fifo_ids (fifo_run h)) = live h"
    and srt: "sorted_wrt (\<lambda>a b. born h a < born h b) (fifo_ids (fifo_run h))" by auto
  show ?case
  proof (cases x)
    case (Hit k)
    then show ?thesis using ok ids srt by (simp add: fifo_OnHit_def)
  next
    case (Insert k)
    have "sorted_wrt (\<lambda>a b. born (Insert k # h) a < born (Insert k # h) b)
        (fifo_ids (fifo_run h) @ [k])" if "k \<notin> live h"
      using srt that ids born_past [of _ h] by (auto simp: sorted_wrt_append elim!: sorted_wrt_mono_rel [rotated])
    then show ?thesis using fifo_insert [OF ok, of k] srt ids by (auto simp: Insert)
  next
    case (Delete k)
    then show ?thesis using fifo_delete [OF ok, of k] srt ids by (auto simp: sorted_wrt_filter)
  next
    case FlushAll
    then show ?thesis using fifo_flush ok by simp
  qed
qed

text \<open>After any sequence of hooks the FIFO policy picks a victim exactly when it is live and every other live
  id began its current life later; hits and repeated insertions do not matter.\<close>

theorem fifo_evicts_first_inserted:
  "fifo_Victim (fifo_run h) = Some v \<longleftrightarrow>
     v \<in> live h \<and> (\<forall>k \<in> live h. k \<noteq> v \<longrightarrow> born h v < born h k)"
proof -
  let ?xs = "fifo_ids (fifo_run h)"
  have ids: "set ?xs = live h" and srt: "sorted_wrt (\<lambda>a b. born h a < born h b) ?xs"
    using fifo_run_inv [of h] by auto
  show ?thesis
  proof (cases ?xs)
    case Nil
    then show ?thesis using ids by (auto simp: fifo_victim)
  next
    case (Cons y ys)
    then have "\<forall>a \<in> set ys. born h y < born h a" and "live h = insert y (set ys)"
      using srt ids by auto
    then show ?thesis using Cons by (auto simp: fifo_victim)
  qed
qed

lemma fifo_evicts_first_inserted_witness:
  "fifo_Victim (fifo_run [Insert ''a'', Hit ''a'', Insert ''b'', Insert ''a'']) = Some ''a''"
  by (subst fifo_evicts_first_inserted) auto

section \<open>LFU\<close>

fun lfu_hook :: "hook \<Rightarrow> lfuPolicy \<Rightarrow> lfuPolicy" where
  "lfu_hook (Hit k) p = lfu_OnHit k p"
| "lfu_hook (Insert k) p = lfu_OnInsert k p"
| "lfu_hook (Delete k) p = lfu_OnDelete k p"
| "lfu_hook FlushAll p = lfu_Flush p"

definition lfu_run :: "hook list \<Rightarrow> lfuPolicy" where
  "lfu_run h = foldr lfu_hook h newLFUPolicy"

lemma lfu_run_simps [simp]: "lfu_run [] = newLFUPolicy" "lfu_run (x # h) = lfu_hook x (lfu_run h)"
  by (simp_all add: lfu_run_def)

definition lfu_view :: "hook list \<Rightarrow> lfuPolicy \<Rightarrow> bool" where
  "lfu_view h p \<longleftrightarrow> lfu_ok p \<and>
     live h = {k. gm_get (lfu_entries p) k \<noteq> None} \<and>
     (\<forall>k e. gm_get (lfu_entries p) k = Some e \<longrightarrow>
        lfu_count e = int (uses h k) \<and> lfu_seq e < lfu_next p) \<and>
     (\<forall>k j e f. gm_get (lfu_entries p) k = Some e \<longrightarrow> gm_get (lfu_entries p) j = Some f \<longrightarrow>
        (lfu_seq e < lfu_seq f \<longleftrightarrow> born h k < born h j))"

lemma lfu_run_view: "lfu_view h (lfu_run h)"
proof (induction h)
  case Nil
  then show ?case using lfu_new(1) by (simp add: lfu_view_def newLFUPolicy_def)
next
  case (Cons x h)
  let ?p = "lfu_run h"
  have ok: "lfu_ok ?p" using Cons by (simp add: lfu_view_def)
  have dom: "live h = {k. gm_get (lfu_entries ?p) k \<noteq> None}"
    using Cons by (simp add: lfu_view_def)
  have ent: "lfu_count e = int (uses h k) \<and> lfu_seq e < lfu_next ?p"
    if "gm_get (lfu_entries ?p) k = Some e" for k e
    using Cons that by (simp add: lfu_view_def)
  have ord: "gm_get (lfu_entries ?p) k = Some e \<Longrightarrow> gm_get (lfu_entries ?p) j = Some f \<Longrightarrow>
      (lfu_seq e < lfu_seq f \<longleftrightarrow> born h k < born h j)" for k j e f
    using Cons by (simp add: lfu_view_def)
  show ?case
  proof (cases x)
    case (Hit k)
    then show ?thesis
      using lfu_hit(1) [OF ok, of k] dom ent ord
      by (auto simp: lfu_view_def lfu_OnHit_def split: option.splits)
  next
    case (Insert k)
    show ?thesis
    proof (cases "gm_get (lfu_entries ?p) k")
      case None
      let ?q = "lfu_OnInsert k ?p" and ?h = "Insert k # h"
      have k: "k \<notin> live h" using None dom by simp
      have past: "lfu_seq e < lfu_next ?p \<and> born h j < length h \<and> lfu_count e = int (uses h j)"
        if "gm_get (lfu_entries ?p) j = Some e" for j e
        using ent [OF that] that dom by (simp add: born_past)
      have get: "gm_get (lfu_entries ?q) j =
          (if j = k then Some \<lparr>lfu_count = 1, lfu_seq = lfu_next ?p\<rparr> else gm_get (lfu_entries ?p) j)" for j
        using None by (simp add: lfu_OnInsert_def)
      have nxt: "lfu_next ?q = lfu_next ?p + 1" using None by (simp add: lfu_OnInsert_def)
      have "lfu_seq e < lfu_seq f \<longleftrightarrow> born ?h i < born ?h j"
        if "gm_get (lfu_entries ?q) i = Some e" "gm_get (lfu_entries ?q) j = Some f" for i j e f
        using that k past [of i e] past [of j f] ord [of i e j f]
        by (cases "i = k"; cases "j = k") (auto simp: get)
      moreover have "lfu_count e = int (uses ?h j) \<and> lfu_seq e < lfu_next ?q"
        if "gm_get (lfu_entries ?q) j = Some e" for j e
        using that k past [of j e] by (cases "j = k") (auto simp: get nxt)
      moreover have "live ?h = {j. gm_get (lfu_entries ?q) j \<noteq> None}"
        using dom by (auto simp: get)
      ultimately show ?thesis
        using lfu_insert(1) [OF ok, of k] by (simp add: Insert lfu_view_def)
    next
      case (Some e)
      then have "k \<in> live h" using dom by fastforce
      with Some show ?thesis
        using Cons by (auto simp: Insert lfu_view_def lfu_OnInsert_def insert_absorb split: option.splits)
    qed
  next
    case (Delete k)
    then show ?thesis
      using lfu_delete(1) [OF ok, of k] dom ent ord
      by (auto simp: lfu_view_def lfu_OnDelete_def split: option.splits)
  next
    case FlushAll
    then show ?thesis using lfu_flush(1) by (simp add: lfu_view_def lfu_Flush_def)
  qed
qed

text \<open>After any sequence of hooks the LFU policy picks a victim exactly when it is live and every other live
  id was used more often in its current life, or as often and born later.\<close>

theorem lfu_evicts_least_used:
  "lfu_Victim (lfu_run h) = Some v \<longleftrightarrow>
     v \<in> live h \<and> (\<forall>k \<in> live h. k \<noteq> v \<longrightarrow>
       uses h v < uses h k \<or> uses h v = uses h k \<and> born h v < born h k)"
    (is "_ \<longleftrightarrow> ?best")
proof -
  let ?p = "lfu_run h"
  have ok: "lfu_ok ?p" and view: "lfu_view h ?p"
    using lfu_run_view [of h] by (auto simp: lfu_view_def)
  have get: "\<exists>e. gm_get (lfu_entries ?p) k = Some e" if "k \<in> live h" for k
    using view that by (auto simp: lfu_view_def)
  have live: "k \<in> live h" "lfu_count e = int (uses h k)"
    if "gm_get (lfu_entries ?p) k = Some e" for k e
    using view that by (auto simp: lfu_view_def)
  have before: "lfu_before e f \<longleftrightarrow>
      uses h k < uses h j \<or> uses h k = uses h j \<and> born h k < born h j"
    if "gm_get (lfu_entries ?p) k = Some e" "gm_get (lfu_entries ?p) j = Some f" for k j e f
    using view that live [OF that(1)] live [OF that(2)]
    by (auto simp: lfu_before_def lfu_view_def)
  show ?thesis
  proof
    assume "lfu_Victim ?p = Some v"
    then obtain e where e: "gm_get (lfu_entries ?p) v = Some e"
      "\<And>j f. gm_get (lfu_entries ?p) j = Some f \<Longrightarrow> j \<noteq> v \<Longrightarrow> lfu_before e f"
      using lfu_victim_least [OF ok] by blast
    then show ?best using get live before by metis
  next
    assume best: ?best
    then obtain e where e: "gm_get (lfu_entries ?p) v = Some e" using get by blast
    have "lfu_before e f" if "gm_get (lfu_entries ?p) j = Some f" "j \<noteq> v" for j f
      using best that before [OF e that(1)] live [OF that(1)] by blast
    then show "lfu_Victim ?p = Some v" by (rule lfu_Victim_unique [OF ok e])
  qed
qed

lemma lfu_evicts_least_used_witness:
  "lfu_Victim (lfu_run [Hit ''a'', Insert ''c'', Insert ''b'', Insert ''a'']) = Some ''b''"
  by (subst lfu_evicts_least_used) auto

end
