(* ===== verification/Policy.thy ===== *)
theory Policy
  imports Policy_Spec Plugin_Factory
begin

text \<open>
  The eviction-policy seam (\<open>internal/policy/policy.go\<close>): the \<open>EvictionPolicy\<close> interface as a
  record of its methods, the locale of the laws every implementation keeps, the registered
  built-ins and the \<open>Manager\<close> in front of the active one.

  \<open>Victim\<close> takes and returns the state, because an implementation may be a remote plugin whose
  \<open>Victim\<close> delivers pending events first; the built-ins leave their state alone.
\<close>

section \<open>The interface\<close>

record 'p policy_ops =
  po_Name :: string
  po_OnHit :: "string \<Rightarrow> 'p \<Rightarrow> 'p"
  po_OnInsert :: "string \<Rightarrow> 'p \<Rightarrow> 'p"
  po_OnDelete :: "string \<Rightarrow> 'p \<Rightarrow> 'p"
  po_Victim :: "'p \<Rightarrow> string option \<times> 'p"
  po_Flush :: "'p \<Rightarrow> 'p"

text \<open>
  \<open>tracked\<close> is the set of ids the policy holds. The laws say nothing of which live id an
  algorithm chooses.
\<close>

locale eviction_policy =
  fixes P :: "'p policy_ops"
    and ok :: "'p \<Rightarrow> bool"
    and tracked :: "'p \<Rightarrow> string set"
  assumes hit: "ok p \<Longrightarrow> ok (po_OnHit P k p) \<and> tracked (po_OnHit P k p) = tracked p"
    and ins: "ok p \<Longrightarrow> ok (po_OnInsert P k p) \<and> tracked (po_OnInsert P k p) = insert k (tracked p)"
    and del: "ok p \<Longrightarrow> ok (po_OnDelete P k p) \<and> tracked (po_OnDelete P k p) = tracked p - {k}"
    and flush: "ok p \<Longrightarrow> ok (po_Flush P p) \<and> tracked (po_Flush P p) = {}"
    and victim_state: "ok p \<Longrightarrow> po_Victim P p = (v, q) \<Longrightarrow> ok q \<and> tracked q = tracked p"
    and victim_live: "ok p \<Longrightarrow> po_Victim P p = (Some k, q) \<Longrightarrow> k \<in> tracked p"
    and victim_none: "ok p \<Longrightarrow> po_Victim P p = (None, q) \<Longrightarrow> tracked p = {}"
begin

lemma victim_empty:
  assumes "ok p" and "tracked p = {}"
  shows "\<exists>q. po_Victim P p = (None, q) \<and> ok q \<and> tracked q = {}"
  using assms victim_live [OF assms(1)] victim_state [OF assms(1)]
  by (cases "po_Victim P p"; cases "fst (po_Victim P p)") auto

lemma victim_some:
  assumes "ok p" and "tracked p \<noteq> {}"
  shows "\<exists>k q. po_Victim P p = (Some k, q) \<and> k \<in> tracked p \<and> ok q \<and> tracked q = tracked p"
  using assms victim_live [OF assms(1)] victim_none [OF assms(1)] victim_state [OF assms(1)]
  by (cases "po_Victim P p"; cases "fst (po_Victim P p)") auto

lemma victim_single:
  "ok p \<Longrightarrow> tracked p = {k} \<Longrightarrow>
   \<exists>q. po_Victim P p = (Some k, q) \<and> ok q \<and> tracked q = {k}"
  using victim_some [of p] by auto

end

section \<open>The built-in policies\<close>

datatype evictionPolicy =
    LRU lruPolicy
  | LFU lfuPolicy
  | FIFO fifoPolicy

fun pol_Name :: "evictionPolicy \<Rightarrow> string" where
  "pol_Name (LRU _) = ''lru''"
| "pol_Name (LFU _) = ''lfu''"
| "pol_Name (FIFO _) = ''fifo''"

fun pol_OnHit :: "string \<Rightarrow> evictionPolicy \<Rightarrow> evictionPolicy" where
  "pol_OnHit k (LRU p) = LRU (lru_OnHit k p)"
| "pol_OnHit k (LFU p) = LFU (lfu_OnHit k p)"
| "pol_OnHit k (FIFO p) = FIFO (fifo_OnHit k p)"

fun pol_OnInsert :: "string \<Rightarrow> evictionPolicy \<Rightarrow> evictionPolicy" where
  "pol_OnInsert k (LRU p) = LRU (lru_OnInsert k p)"
| "pol_OnInsert k (LFU p) = LFU (lfu_OnInsert k p)"
| "pol_OnInsert k (FIFO p) = FIFO (fifo_OnInsert k p)"

fun pol_OnDelete :: "string \<Rightarrow> evictionPolicy \<Rightarrow> evictionPolicy" where
  "pol_OnDelete k (LRU p) = LRU (lru_OnDelete k p)"
| "pol_OnDelete k (LFU p) = LFU (lfu_OnDelete k p)"
| "pol_OnDelete k (FIFO p) = FIFO (fifo_OnDelete k p)"

fun pol_Victim :: "evictionPolicy \<Rightarrow> string option" where
  "pol_Victim (LRU p) = lru_Victim p"
| "pol_Victim (LFU p) = lfu_Victim p"
| "pol_Victim (FIFO p) = fifo_Victim p"

fun pol_Flush :: "evictionPolicy \<Rightarrow> evictionPolicy" where
  "pol_Flush (LRU p) = LRU (lru_Flush p)"
| "pol_Flush (LFU p) = LFU (lfu_Flush p)"
| "pol_Flush (FIFO p) = FIFO (fifo_Flush p)"

fun pol_ok :: "evictionPolicy \<Rightarrow> bool" where
  "pol_ok (LRU p) = lru_ok p"
| "pol_ok (LFU p) = lfu_ok p"
| "pol_ok (FIFO p) = fifo_ok p"

fun pol_tracked :: "evictionPolicy \<Rightarrow> string set" where
  "pol_tracked (LRU p) = set (lru_ids p)"
| "pol_tracked (LFU p) = lfu_keys p"
| "pol_tracked (FIFO p) = set (fifo_ids p)"

definition pol_ops :: "string \<Rightarrow> evictionPolicy policy_ops" where
  "pol_ops name = \<lparr>po_Name = name, po_OnHit = pol_OnHit, po_OnInsert = pol_OnInsert,
     po_OnDelete = pol_OnDelete, po_Victim = (\<lambda>p. (pol_Victim p, p)), po_Flush = pol_Flush\<rparr>"

lemma pol_ops_simps [simp]:
  "po_Name (pol_ops n) = n" "po_OnHit (pol_ops n) = pol_OnHit"
  "po_OnInsert (pol_ops n) = pol_OnInsert" "po_OnDelete (pol_ops n) = pol_OnDelete"
  "po_Victim (pol_ops n) p = (pol_Victim p, p)" "po_Flush (pol_ops n) = pol_Flush"
  by (simp_all add: pol_ops_def)

lemma pol_hit:
  assumes "pol_ok p"
  shows "pol_ok (pol_OnHit k p)" and "pol_tracked (pol_OnHit k p) = pol_tracked p"
  using assms by (cases p; auto simp: lru_hit lfu_hit fifo_OnHit_def)+

lemma pol_insert:
  assumes "pol_ok p"
  shows "pol_ok (pol_OnInsert k p)" and "pol_tracked (pol_OnInsert k p) = insert k (pol_tracked p)"
  using assms by (cases p; auto simp: lru_insert lfu_insert fifo_insert)+

lemma pol_delete:
  assumes "pol_ok p"
  shows "pol_ok (pol_OnDelete k p)" and "pol_tracked (pol_OnDelete k p) = pol_tracked p - {k}"
  using assms by (cases p; auto simp: lru_delete lfu_delete fifo_delete)+

lemma pol_flush:
  assumes "pol_ok p"
  shows "pol_ok (pol_Flush p)" and "pol_tracked (pol_Flush p) = {}"
  using assms by (cases p; auto simp: lru_flush lfu_flush fifo_flush)+

lemma lfu_Victim_in: "lfu_ok p \<Longrightarrow> lfu_Victim p = Some k \<Longrightarrow> k \<in> lfu_keys p"
  by (auto elim!: lfu_victim_least simp: lfu_keys_def dest: gm_get_Some_keys)

lemma pol_victim_live: "pol_ok p \<Longrightarrow> pol_Victim p = Some k \<Longrightarrow> k \<in> pol_tracked p"
  by (cases p) (auto simp: lru_victim fifo_victim lfu_Victim_in split: if_splits)

lemma pol_victim_none: "pol_Victim p = None \<Longrightarrow> pol_tracked p = {}"
  by (cases p) (auto simp: lru_victim fifo_victim lfu_victim_none split: if_splits)

interpretation builtin: eviction_policy "pol_ops name" pol_ok pol_tracked
  by unfold_locales (auto simp: pol_hit pol_insert pol_delete pol_flush pol_victim_live pol_victim_none)

section \<open>Registration and the Manager\<close>

text \<open>The \<open>init\<close> functions of \<open>fifo.go\<close> and \<open>policy.go\<close>, in file order.\<close>

definition policy_registry :: "evictionPolicy registry" where
  "policy_registry = register_all
     [(''fifo'', \<lambda>_. Inr (FIFO newFIFOPolicy)),
      (''lru'', \<lambda>_. Inr (LRU newLRUPolicy)),
      (''lfu'', \<lambda>_. Inr (LFU newLFUPolicy))]
     (NewRegistry ''eviction policy'')"

text \<open>\<open>Manager.policy\<close> is an atomic pointer to the active policy.\<close>

record manager =
  mgr_policy :: evictionPolicy

definition NewManagerWith :: "evictionPolicy \<Rightarrow> manager" where
  "NewManagerWith p = \<lparr>mgr_policy = p\<rparr>"

definition Replace :: "evictionPolicy \<Rightarrow> manager \<Rightarrow> evictionPolicy \<times> manager" where
  "Replace next m = (mgr_policy m, m\<lparr>mgr_policy := next\<rparr>)"

definition Active :: "manager \<Rightarrow> evictionPolicy" where
  "Active m = mgr_policy m"

definition policy_New :: "config \<Rightarrow> manager res" where
  "policy_New cfg =
     (let name = (if cfg_Policy cfg = [] then ''lru'' else cfg_Policy cfg)
      in res_bind (Build policy_registry name cfg) (\<lambda>p. Inr (NewManagerWith p)))"

definition Current :: "manager \<Rightarrow> string" where
  "Current m = pol_Name (mgr_policy m)"

definition Set_policy :: "string \<Rightarrow> manager \<Rightarrow> goerr option" where
  "Set_policy name m =
     (if \<not> Has policy_registry name
      then Some (Errorf ''invalid policy %q (registered: %v)''
                   [AStr name, AStrs (Names policy_registry)])
      else if name = Current m then None
      else Some (Errorf ''runtime policy switching is not supported; set CACHE_POLICY=%s and restart''
                   [AStr name]))"

definition mgr_OnHit :: "string \<Rightarrow> manager \<Rightarrow> manager" where
  "mgr_OnHit k m = m\<lparr>mgr_policy := pol_OnHit k (mgr_policy m)\<rparr>"

definition mgr_OnInsert :: "string \<Rightarrow> manager \<Rightarrow> manager" where
  "mgr_OnInsert k m = m\<lparr>mgr_policy := pol_OnInsert k (mgr_policy m)\<rparr>"

definition mgr_OnDelete :: "string \<Rightarrow> manager \<Rightarrow> manager" where
  "mgr_OnDelete k m = m\<lparr>mgr_policy := pol_OnDelete k (mgr_policy m)\<rparr>"

definition mgr_Victim :: "manager \<Rightarrow> string option" where
  "mgr_Victim m = pol_Victim (mgr_policy m)"

definition mgr_Flush :: "manager \<Rightarrow> manager" where
  "mgr_Flush m = m\<lparr>mgr_policy := pol_Flush (mgr_policy m)\<rparr>"

definition mgr_ok :: "manager \<Rightarrow> bool" where
  "mgr_ok m \<longleftrightarrow> pol_ok (mgr_policy m)"

definition mgr_tracked :: "manager \<Rightarrow> string set" where
  "mgr_tracked m = pol_tracked (mgr_policy m)"

definition mgr_ops :: "string \<Rightarrow> manager policy_ops" where
  "mgr_ops name = \<lparr>po_Name = name, po_OnHit = mgr_OnHit, po_OnInsert = mgr_OnInsert,
     po_OnDelete = mgr_OnDelete, po_Victim = (\<lambda>m. (mgr_Victim m, m)), po_Flush = mgr_Flush\<rparr>"

lemma mgr_hooks:
  assumes "mgr_ok m"
  shows "mgr_ok (mgr_OnHit k m)" "mgr_tracked (mgr_OnHit k m) = mgr_tracked m"
    "mgr_ok (mgr_OnInsert k m)" "mgr_tracked (mgr_OnInsert k m) = insert k (mgr_tracked m)"
    "mgr_ok (mgr_OnDelete k m)" "mgr_tracked (mgr_OnDelete k m) = mgr_tracked m - {k}"
    "mgr_ok (mgr_Flush m)" "mgr_tracked (mgr_Flush m) = {}"
  using assms
  by (simp_all add: mgr_ok_def mgr_tracked_def mgr_OnHit_def mgr_OnInsert_def mgr_OnDelete_def
      mgr_Flush_def pol_hit pol_insert pol_delete pol_flush)

lemma mgr_victim:
  "mgr_ok m \<Longrightarrow> mgr_Victim m = Some k \<Longrightarrow> k \<in> mgr_tracked m"
  "mgr_Victim m = None \<Longrightarrow> mgr_tracked m = {}"
  by (simp_all add: mgr_ok_def mgr_tracked_def mgr_Victim_def pol_victim_live pol_victim_none)

interpretation manager: eviction_policy "mgr_ops name" mgr_ok mgr_tracked
  by unfold_locales (auto simp: mgr_ops_def mgr_hooks mgr_victim)

lemma policy_registry_names:
  "Has policy_registry n \<longleftrightarrow> n \<in> {''lru'', ''lfu'', ''fifo''}"
  "Names policy_registry = [''fifo'', ''lfu'', ''lru'']"
  by (auto simp: policy_registry_def Has_register_all)
    (simp add: Names_def register_all_def Register_def gm_put_def gm_keys_def NewRegistry_def)

lemma Build_policy:
  "Build policy_registry n cfg =
     (if n = ''lru'' then Inr (LRU newLRUPolicy)
      else if n = ''lfu'' then Inr (LFU newLFUPolicy)
      else if n = ''fifo'' then Inr (FIFO newFIFOPolicy)
      else Inl (Errorf ''unknown %s %q (registered: %v)''
             [AStr ''eviction policy'', AStr n, AStrs [''fifo'', ''lfu'', ''lru'']]))"
proof (cases "Has policy_registry n")
  case True
  then show ?thesis
    unfolding policy_registry_def by (auto simp: Build_register_all Has_register_all)
next
  case False
  moreover have "reg_kind policy_registry = ''eviction policy''"
    by (simp add: policy_registry_def register_all_def Register_def NewRegistry_def)
  ultimately show ?thesis
    by (simp add: Build_unknown policy_registry_names)
qed

lemma policy_New_fresh:
  assumes "policy_New cfg = Inr m"
  shows "mgr_ok m" and "mgr_tracked m = {}"
    and "Current m = (if cfg_Policy cfg = [] then ''lru'' else cfg_Policy cfg)"
  using assms
  by (auto simp: policy_New_def Build_policy Let_def NewManagerWith_def mgr_ok_def mgr_tracked_def Current_def
      lru_new_ok lru_new_ids fifo_new_ok fifo_new_ids lfu_new split: if_splits)

end
