(* ===== verification/Ports.thy ===== *)
theory Ports
  imports Persistence Policy
begin

text \<open>
  The ports the orchestrator runs on, as it sees them: vector store, embedder, LLM backend and
  cache-update queue (\<open>vectorstore.VectorStore\<close>, \<open>embedder.Embedder\<close>, \<open>llm.Backend\<close>,
  \<open>cachequeue.Queue\<close>); the store and the policy are in \<open>Persistence\<close> and \<open>Policy\<close>. A port is a record
  of its methods over a state type of its own. \<open>vector_store\<close> collects the laws of the vector
  store; like those of the persistence store they leave open whether a failed write happened.
\<close>

record Match =
  m_ID :: string
  m_Distance :: f64

record RebuildEntry =
  re_ID :: string
  re_Vector :: "f64 list"

record Job =
  j_Prompt :: string
  j_Reply :: string
  j_Vector :: "f64 list"

record 'v vector_ops =
  vs_Search :: "f64 list \<Rightarrow> int \<Rightarrow> f64 \<Rightarrow> 'v \<Rightarrow> Match list res \<times> 'v"
  vs_Upsert :: "f64 list \<Rightarrow> 'v \<Rightarrow> string res \<times> 'v"
  vs_Delete :: "string \<Rightarrow> 'v \<Rightarrow> goerr option \<times> 'v"
  vs_Size :: "'v \<Rightarrow> int res \<times> 'v"
  vs_Flush :: "'v \<Rightarrow> goerr option \<times> 'v"
  vs_Rebuild :: "RebuildEntry list \<Rightarrow> 'v \<Rightarrow> int res \<times> 'v"
  vs_Health :: "'v \<Rightarrow> goerr option \<times> 'v"

record 'e embed_ops =
  em_Embed :: "string \<Rightarrow> 'e \<Rightarrow> f64 list res \<times> 'e"
  em_Health :: "'e \<Rightarrow> goerr option \<times> 'e"

record 'e llm_ops =
  lm_Complete :: "string \<Rightarrow> 'e \<Rightarrow> string res \<times> 'e"

record 'e queue_ops =
  q_Enqueue :: "Job \<Rightarrow> 'e \<Rightarrow> goerr option \<times> 'e"

text \<open>The map a rebuild installs.\<close>

definition rebuild_view :: "RebuildEntry list \<Rightarrow> string \<Rightarrow> f64 list option" where
  "rebuild_view es = map_of (map (\<lambda>e. (re_ID e, re_Vector e)) es)"

text \<open>Rebuilding from the entries of a store gives every entry its vector.\<close>

lemma map_of_entries:
  assumes "distinct (map e_ID es)" and "set es = ran m" and "\<And>k e. m k = Some e \<Longrightarrow> e_ID e = k"
  shows "rebuild_view (map (\<lambda>e. \<lparr>re_ID = e_ID e, re_Vector = e_Vector e\<rparr>) es) = (\<lambda>k. map_option e_Vector (m k))"
proof
  fix k
  have eq: "map (\<lambda>e. (re_ID e, re_Vector e)) (map (\<lambda>e. \<lparr>re_ID = e_ID e, re_Vector = e_Vector e\<rparr>) es) =
      map (\<lambda>e. (e_ID e, e_Vector e)) es" by simp
  show "rebuild_view (map (\<lambda>e. \<lparr>re_ID = e_ID e, re_Vector = e_Vector e\<rparr>) es) k = map_option e_Vector (m k)"
  proof (cases "m k")
    case None
    then have "k \<notin> e_ID ` set es" using assms(2,3) by (force simp: ran_def)
    then show ?thesis unfolding rebuild_view_def eq by (simp add: None map_of_eq_None_iff image_image)
  next
    case (Some e)
    then have "e \<in> set es" "e_ID e = k" using assms(2,3) by (auto simp: ran_def)
    then have "map_of (map (\<lambda>e. (e_ID e, e_Vector e)) es) k = Some (e_Vector e)"
      using assms(1) by (intro map_of_is_SomeI) (auto simp: o_def)
    then show ?thesis unfolding rebuild_view_def eq by (simp add: Some)
  qed
qed

locale vector_store =
  fixes V :: "'v vector_ops"
    and vok :: "'v \<Rightarrow> bool"
    and vview :: "'v \<Rightarrow> string \<Rightarrow> f64 list option"
  assumes finite_vview: "vok v \<Longrightarrow> finite (dom (vview v))"
    and search_state: "vok v \<Longrightarrow> vs_Search V q n th v = (r, t) \<Longrightarrow> vok t \<and> vview t = vview v"
    and search_sound: "vok v \<Longrightarrow> vs_Search V q n th v = (Inr ms, t) \<Longrightarrow>
           int (length ms) \<le> n \<and> m_ID ` set ms \<subseteq> dom (vview v) \<and>
           (\<forall>m \<in> set ms. f64_le (m_Distance m) th) \<and>
           sorted_wrt (\<lambda>a b. f64_le (m_Distance a) (m_Distance b)) ms"
    and upsert_ok: "vok v \<Longrightarrow> vs_Upsert V vec v = (Inr k, t) \<Longrightarrow> vok t \<and> vview t = (vview v)(k \<mapsto> vec)"
    and upsert_err: "vok v \<Longrightarrow> vs_Upsert V vec v = (Inl e, t) \<Longrightarrow>
           vok t \<and> (vview t = vview v \<or> (\<exists>k. vview t = (vview v)(k \<mapsto> vec)))"
    and vdelete_ok: "vok v \<Longrightarrow> vs_Delete V k v = (None, t) \<Longrightarrow> vok t \<and> vview t = (vview v)(k := None)"
    and vdelete_err: "vok v \<Longrightarrow> vs_Delete V k v = (Some e, t) \<Longrightarrow>
           vok t \<and> vview t \<in> {vview v, (vview v)(k := None)}"
    and vflush_ok: "vok v \<Longrightarrow> vs_Flush V v = (None, t) \<Longrightarrow> vok t \<and> vview t = Map.empty"
    and vflush_err: "vok v \<Longrightarrow> vs_Flush V v = (Some e, t) \<Longrightarrow> vok t \<and> vview t \<in> {vview v, Map.empty}"
    and rebuild_ok: "vok v \<Longrightarrow> vs_Rebuild V es v = (Inr i, t) \<Longrightarrow> distinct (map re_ID es) \<Longrightarrow>
           vok t \<and> vview t = rebuild_view es"
    and rebuild_err: "vok v \<Longrightarrow> vs_Rebuild V es v = (Inl e, t) \<Longrightarrow> distinct (map re_ID es) \<Longrightarrow>
           vok t \<and> vview t \<in> {vview v, rebuild_view es}"

text \<open>A store that also counts what it holds.\<close>

locale sized_vector_store = vector_store V vok vview
  for V :: "'v vector_ops" and vok :: "'v \<Rightarrow> bool" and vview :: "'v \<Rightarrow> string \<Rightarrow> f64 list option" +
  assumes vsize_state: "vok v \<Longrightarrow> vs_Size V v = (r, t) \<Longrightarrow> vok t \<and> vview t = vview v"
    and vsize_value: "vok v \<Longrightarrow> vs_Size V v = (Inr n, t) \<Longrightarrow> n = int (card (dom (vview v)))"

end
