(* ===== verification/Cache_Queue.thy ===== *)
theory Cache_Queue
  imports Ports Plugin_Factory
begin

text \<open>
  The cache-update queue on Redis Streams (\<open>internal/cachequeue/redis_stream.go\<close>). The stream server is
  a parameter: \<open>stream_ops\<close> lists the commands used, the locale \<open>stream_server\<close> what Redis documents
  about a consumer group: what was added and not yet delivered (\<open>waiting\<close>), and what was delivered and
  not acknowledged (\<open>pending\<close>). The text of a JSON document is a parameter too (\<open>codec\<close>). \<open>Run\<close> is
  modelled by its rounds, one per \<open>XREADGROUP\<close>.
\<close>

section \<open>The server\<close>

datatype field_value = VStr string | VBytes string | VOther

record message =
  ms_ID :: string
  ms_Values :: "(string, field_value) gomap"

record 'r stream_ops =
  xs_ping :: "'r \<Rightarrow> goerr option \<times> 'r"
  xs_create_group :: "'r \<Rightarrow> goerr option \<times> 'r"
  xs_add :: "(string, field_value) gomap \<Rightarrow> 'r \<Rightarrow> goerr option \<times> 'r"
  xs_read :: "nat \<Rightarrow> 'r \<Rightarrow> message list res \<times> 'r"       \<comment> \<open>\<open>XREADGROUP ... >\<close>, \<open>RedisNil\<close> on a timeout\<close>
  xs_ack :: "string \<Rightarrow> 'r \<Rightarrow> goerr option \<times> 'r"
  xs_groups :: "'r \<Rightarrow> (string \<times> int \<times> int) list res \<times> 'r"  \<comment> \<open>name, lag, pending of each group\<close>

definition RedisNil :: goerr where "RedisNil = Sentinel ''redis.Nil''"

text \<open>\<open>encoding/json\<close> on the vector: a document and its text.\<close>

record codec =
  cd_text :: "json \<Rightarrow> string"
  cd_parse :: "string \<Rightarrow> json res"

section \<open>The queue\<close>

definition groupName :: string where "groupName = ''cache-workers''"

text \<open>The text an error prints; \<open>BUSYGROUP\<close> means that the group exists already.\<close>

fun error_text :: "goerr \<Rightarrow> string" where
  "error_text (Errorf f as) = f"
| "error_text (Sentinel s) = s"
| "error_text _ = ''''"

definition ensureGroup :: "'r stream_ops \<Rightarrow> 'r \<Rightarrow> goerr option \<times> 'r" where
  "ensureGroup X r =
     (case xs_create_group X r of
        (None, t) \<Rightarrow> (None, t)
      | (Some err, t) \<Rightarrow>
          (if str_contains (error_text err) ''BUSYGROUP'' then None
           else Some (Errorf ''create redis stream group: %w'' [AWrap err]), t))"

definition NewRedisStreamQueue :: "'r stream_ops \<Rightarrow> 'r \<Rightarrow> unit res \<times> 'r" where
  "NewRedisStreamQueue X r =
     (case xs_ping X r of
        (Some err, t) \<Rightarrow> (Inl (Errorf ''redis ping failed: %w'' [AWrap err]), t)
      | (None, t) \<Rightarrow> (case ensureGroup X t of (Some err, u) \<Rightarrow> (Inl err, u) | (None, u) \<Rightarrow> (Inr (), u)))"

definition queue_message :: "codec \<Rightarrow> Job \<Rightarrow> (string, field_value) gomap res" where
  "queue_message C job =
     (case json_of_floats (j_Vector job) of
        Inl err \<Rightarrow> Inl (Errorf ''marshal cache-update vector: %w'' [AWrap err])
      | Inr v \<Rightarrow> Inr [(''prompt'', VStr (j_Prompt job)), (''reply'', VStr (j_Reply job)),
                      (''vector'', VStr (cd_text C v))])"

definition rs_Enqueue :: "codec \<Rightarrow> 'r stream_ops \<Rightarrow> Job \<Rightarrow> 'r \<Rightarrow> goerr option \<times> 'r" where
  "rs_Enqueue C X job r =
     (case queue_message C job of
        Inl err \<Rightarrow> (Some err, r)
      | Inr vals \<Rightarrow>
          (case xs_add X vals r of
             (Some err, t) \<Rightarrow> (Some (Errorf ''enqueue cache-update job: %w'' [AWrap err]), t)
           | (None, t) \<Rightarrow> (None, t)))"

fun stringValue :: "field_value option \<Rightarrow> string option" where
  "stringValue (Some (VStr s)) = Some s"
| "stringValue (Some (VBytes s)) = Some s"
| "stringValue _ = None"

definition jobFromMessage :: "codec \<Rightarrow> message \<Rightarrow> Job res" where
  "jobFromMessage C m =
     (case stringValue (gm_get (ms_Values m) ''prompt'') of
        None \<Rightarrow> Inl (Errorf ''cache-update job %s missing prompt'' [AStr (ms_ID m)])
      | Some prompt \<Rightarrow>
     (case stringValue (gm_get (ms_Values m) ''reply'') of
        None \<Rightarrow> Inl (Errorf ''cache-update job %s missing reply'' [AStr (ms_ID m)])
      | Some reply \<Rightarrow>
     (case stringValue (gm_get (ms_Values m) ''vector'') of
        None \<Rightarrow> Inl (Errorf ''cache-update job %s missing vector'' [AStr (ms_ID m)])
      | Some raw \<Rightarrow>
     (case res_bind (cd_parse C raw) (\<lambda>j. json_floats j []) of
        Inl err \<Rightarrow> Inl (Errorf ''decode cache-update vector: %w'' [AWrap err])
      | Inr v \<Rightarrow> Inr \<lparr>j_Prompt = prompt, j_Reply = reply, j_Vector = v\<rparr>))))"

text \<open>The error of an acknowledgement is dropped.\<close>

definition rs_ack :: "'r stream_ops \<Rightarrow> string \<Rightarrow> 'r \<Rightarrow> 'r" where
  "rs_ack X k r = snd (xs_ack X k r)"

text \<open>One message: what came of it, the handler's state and the server afterwards.\<close>

datatype outcome = Malformed | Failed_job | Done_job

definition rs_message ::
    "codec \<Rightarrow> 'r stream_ops \<Rightarrow> (Job \<Rightarrow> 'h \<Rightarrow> goerr option \<times> 'h) \<Rightarrow> message \<Rightarrow> 'h \<times> 'r \<Rightarrow> outcome \<times> 'h \<times> 'r" where
  "rs_message C X handler m s =
     (case jobFromMessage C m of
        Inl _ \<Rightarrow> (Malformed, fst s, rs_ack X (ms_ID m) (snd s))
      | Inr job \<Rightarrow>
          (case handler job (fst s) of
             (Some _, h) \<Rightarrow> (Failed_job, h, snd s)
           | (None, h) \<Rightarrow> (Done_job, h, rs_ack X (ms_ID m) (snd s))))"

fun rs_messages ::
    "codec \<Rightarrow> 'r stream_ops \<Rightarrow> (Job \<Rightarrow> 'h \<Rightarrow> goerr option \<times> 'h) \<Rightarrow> message list \<Rightarrow> 'h \<times> 'r \<Rightarrow>
     (string \<times> outcome) list \<times> 'h \<times> 'r" where
  "rs_messages C X handler [] s = ([], s)"
| "rs_messages C X handler (m # ms) s =
     (case rs_message C X handler m s of
        (oc, s1) \<Rightarrow> (case rs_messages C X handler ms s1 of (ocs, s2) \<Rightarrow> ((ms_ID m, oc) # ocs, s2)))"

text \<open>One round of \<open>Run\<close>; \<open>stop\<close> is whether the context has ended when a read fails.\<close>

definition rs_round ::
    "codec \<Rightarrow> 'r stream_ops \<Rightarrow> (Job \<Rightarrow> 'h \<Rightarrow> goerr option \<times> 'h) \<Rightarrow> bool \<Rightarrow> 'h \<times> 'r \<Rightarrow>
     bool \<times> (string \<times> outcome) list \<times> 'h \<times> 'r" where
  "rs_round C X handler stop s =
     (case xs_read X 10 (snd s) of
        (Inl err, t) \<Rightarrow> (\<not> errors_is err RedisNil \<and> stop, [], fst s, t)
      | (Inr ms, t) \<Rightarrow> (False, rs_messages C X handler ms (fst s, t)))"

text \<open>\<open>Run\<close> for the rounds given; it ends early when a round says so.\<close>

fun rs_Run ::
    "codec \<Rightarrow> 'r stream_ops \<Rightarrow> (Job \<Rightarrow> 'h \<Rightarrow> goerr option \<times> 'h) \<Rightarrow> bool list \<Rightarrow> 'h \<times> 'r \<Rightarrow>
     (string \<times> outcome) list \<times> 'h \<times> 'r" where
  "rs_Run C X handler [] s = ([], s)"
| "rs_Run C X handler (stop # stops) s =
     (case rs_round C X handler stop s of
        (True, ocs, s1) \<Rightarrow> (ocs, s1)
      | (False, ocs, s1) \<Rightarrow> (case rs_Run C X handler stops s1 of (ocs2, s2) \<Rightarrow> (ocs @ ocs2, s2)))"

definition rs_Depth :: "'r stream_ops \<Rightarrow> 'r \<Rightarrow> int res \<times> 'r" where
  "rs_Depth X r =
     (case xs_groups X r of
        (Inl err, t) \<Rightarrow> (Inl err, t)
      | (Inr gs, t) \<Rightarrow>
          (Inr (case List.find (\<lambda>(name, _). name = groupName) gs of
                  Some (_, lag, pend) \<Rightarrow> lag + pend | None \<Rightarrow> 0), t))"

definition queue_registry :: "(config \<Rightarrow> 'q res) \<Rightarrow> 'q registry" where
  "queue_registry newRedis =
     register_all [(''redis'', newRedis)] (NewRegistry ''cache-update queue backend'')"

definition queue_New :: "'q registry \<Rightarrow> config \<Rightarrow> 'q res" where
  "queue_New reg cfg = Build reg (if cfg_QueueBackend cfg = [] then ''redis'' else cfg_QueueBackend cfg) cfg"

section \<open>What Redis promises\<close>

definition ids_of :: "message list \<Rightarrow> string list" where
  "ids_of ms = map ms_ID ms"

locale stream_server =
  fixes X :: "'r stream_ops"
    and sok :: "'r \<Rightarrow> bool"
    and waiting :: "'r \<Rightarrow> message list"
    and pending :: "'r \<Rightarrow> message list"
  assumes unique: "sok r \<Longrightarrow> distinct (ids_of (waiting r @ pending r))"
    and add_ok: "sok r \<Longrightarrow> xs_add X f r = (None, t) \<Longrightarrow>
          sok t \<and> pending t = pending r \<and> (\<exists>k. waiting t = waiting r @ [\<lparr>ms_ID = k, ms_Values = f\<rparr>])"
    and read_ok: "sok r \<Longrightarrow> xs_read X n r = (Inr ms, t) \<Longrightarrow>
          sok t \<and> ms = take n (waiting r) \<and> waiting t = drop n (waiting r) \<and> pending t = pending r @ ms"
    and read_err: "sok r \<Longrightarrow> xs_read X n r = (Inl e, t) \<Longrightarrow>
          sok t \<and> (waiting t = waiting r \<and> pending t = pending r \<or>
            waiting t = drop n (waiting r) \<and> pending t = pending r @ take n (waiting r))"
    and ack: "sok r \<Longrightarrow> xs_ack X k r = (oe, t) \<Longrightarrow>
          sok t \<and> waiting t = waiting r \<and>
          (pending t = filter (\<lambda>m. ms_ID m \<noteq> k) (pending r) \<or> oe \<noteq> None \<and> pending t = pending r)"
    and groups: "sok r \<Longrightarrow> xs_groups X r = (x, t) \<Longrightarrow> sok t \<and> waiting t = waiting r \<and> pending t = pending r"
    and groups_value: "sok r \<Longrightarrow> xs_groups X r = (Inr gs, t) \<Longrightarrow>
          map_of gs groupName = Some (int (length (waiting r)), int (length (pending r)))"
begin

lemma ack_state:
  assumes "sok r"
  shows "sok (rs_ack X k r)" and "waiting (rs_ack X k r) = waiting r"
    and "m \<in> set (pending r) \<Longrightarrow> ms_ID m \<noteq> k \<Longrightarrow> m \<in> set (pending (rs_ack X k r))"
    and "set (pending (rs_ack X k r)) \<subseteq> set (pending r)"
  using ack [OF assms, of k "fst (xs_ack X k r)" "snd (xs_ack X k r)"] by (auto simp: rs_ack_def)

lemma message_state:
  assumes "sok r" and "rs_message C X handler m (h, r) = (oc, h1, t)"
  shows "sok t" and "waiting t = waiting r"
    and "x \<in> set (pending r) \<Longrightarrow> ms_ID x \<noteq> ms_ID m \<or> oc = Failed_job \<Longrightarrow> x \<in> set (pending t)"
    and "set (pending t) \<subseteq> set (pending r)"
  using assms(2) ack_state [OF assms(1), where k = "ms_ID m"] assms(1)
  by (auto simp: rs_message_def split: sum.splits prod.splits option.splits)

lemma messages_state:
  assumes "sok r" and "rs_messages C X handler ms (h, r) = (ocs, h1, t)"
  shows "sok t" and "waiting t = waiting r" and "map fst ocs = ids_of ms"
    and "x \<in> set (pending r) \<Longrightarrow> (\<And>oc. (ms_ID x, oc) \<in> set ocs \<Longrightarrow> oc = Failed_job) \<Longrightarrow> x \<in> set (pending t)"
    and "set (pending t) \<subseteq> set (pending r)"
proof -
  have "sok t \<and> waiting t = waiting r \<and> map fst ocs = ids_of ms \<and> set (pending t) \<subseteq> set (pending r) \<and>
    (\<forall>x. x \<in> set (pending r) \<longrightarrow> (\<forall>oc. (ms_ID x, oc) \<in> set ocs \<longrightarrow> oc = Failed_job) \<longrightarrow> x \<in> set (pending t))"
    using assms
  proof (induction ms arbitrary: h r ocs)
    case Nil
    then show ?case by (auto simp: ids_of_def)
  next
    case (Cons m ms)
    obtain oc h2 u where o: "rs_message C X handler m (h, r) = (oc, h2, u)" by (metis prod_cases3)
    obtain ocs2 where rest: "rs_messages C X handler ms (h2, u) = (ocs2, h1, t)" and ocs: "ocs = (ms_ID m, oc) # ocs2"
      using Cons.prems(2) o by (auto split: prod.splits)
    note M = message_state [OF Cons.prems(1) o]
    from Cons.IH [OF M(1) rest] M(2,4)
    have "sok t" "waiting t = waiting r" "map fst ocs2 = ids_of ms" "set (pending t) \<subseteq> set (pending r)"
      and keep: "\<And>x. x \<in> set (pending u) \<Longrightarrow> (\<And>oc. (ms_ID x, oc) \<in> set ocs2 \<Longrightarrow> oc = Failed_job) \<Longrightarrow> x \<in> set (pending t)"
      by auto
    moreover have "x \<in> set (pending t)" if "x \<in> set (pending r)" "\<And>oc'. (ms_ID x, oc') \<in> set ocs \<Longrightarrow> oc' = Failed_job" for x
    proof (rule keep)
      show "x \<in> set (pending u)" by (rule M(3) [OF that(1)]) (use that(2) ocs in auto)
    qed (use that(2) ocs in auto)
    ultimately show ?case using ocs by (auto simp: ids_of_def)
  qed
  then show "sok t" and "waiting t = waiting r" and "map fst ocs = ids_of ms"
    and "x \<in> set (pending r) \<Longrightarrow> (\<And>oc. (ms_ID x, oc) \<in> set ocs \<Longrightarrow> oc = Failed_job) \<Longrightarrow> x \<in> set (pending t)"
    and "set (pending t) \<subseteq> set (pending r)" by blast+
qed

text \<open>A message that is pending before a round is not touched by it: only new ones are read.\<close>

lemma round_state:
  assumes ok: "sok r" and run: "rs_round C X handler stop (h, r) = (b, ocs, h1, t)"
  shows "sok t" and "x \<in> set (pending r) \<Longrightarrow> x \<in> set (pending t)"
    and "\<exists>n. waiting t = drop n (waiting r)"
    and "(k, Failed_job) \<in> set ocs \<Longrightarrow> \<exists>x \<in> set (pending t). ms_ID x = k"
    and "set ocs \<subseteq> ms_ID ` set (waiting r) \<times> UNIV"
proof -
  have "sok t \<and> (\<forall>x \<in> set (pending r). x \<in> set (pending t)) \<and> (\<exists>n. waiting t = drop n (waiting r)) \<and>
    (\<forall>k. (k, Failed_job) \<in> set ocs \<longrightarrow> (\<exists>x \<in> set (pending t). ms_ID x = k)) \<and>
    set ocs \<subseteq> ms_ID ` set (waiting r) \<times> UNIV"
  proof (cases "xs_read X 10 r")
    case (Pair y u)
    show ?thesis
    proof (cases y)
      case (Inl err)
      then have "ocs = []" "t = u" using run Pair by (auto simp: rs_round_def)
      moreover have "\<exists>n. waiting u = drop n (waiting r)"
        using read_err [OF ok Pair [unfolded Inl]] drop_0 [of "waiting r"] by metis
      ultimately show ?thesis using read_err [OF ok Pair [unfolded Inl]] by auto
    next
      case (Inr ms)
      note R = read_ok [OF ok Pair [unfolded Inr]]
      have "rs_messages C X handler ms (h, u) = (ocs, h1, t)" using run Pair Inr by (auto simp: rs_round_def)
      note M = messages_state [OF conjunct1 [OF R] this]
      have ids: "set (map fst ocs) = ms_ID ` set ms" using M(3) by (simp add: ids_of_def)
      have dist: "distinct (ids_of (waiting u @ pending u))" using unique R by blast
      then have disj: "ms_ID ` set (pending r) \<inter> ms_ID ` set ms = {}" and dms: "distinct (ids_of ms)"
        using R by (auto simp: ids_of_def)
      have old: "x \<in> set (pending t)" if "x \<in> set (pending r)" for x
      proof (rule M(4))
        show "x \<in> set (pending u)" using that R by simp
        show "oc = Failed_job" if *: "(ms_ID x, oc) \<in> set ocs" for oc
        proof -
          have "ms_ID x \<in> set (map fst ocs)" using * by force
          then show ?thesis using ids disj \<open>x \<in> set (pending r)\<close> by auto
        qed
      qed
      moreover have "\<exists>x \<in> set (pending t). ms_ID x = k" if k: "(k, Failed_job) \<in> set ocs" for k
      proof -
        have "k \<in> set (map fst ocs)" using k by force
        then obtain x where x: "x \<in> set ms" "ms_ID x = k" using ids by auto
        have "oc = Failed_job" if "(ms_ID x, oc) \<in> set ocs" for oc
        proof -
          have "distinct (map fst ocs)" using M(3) dms by simp
          with that k x(2) show ?thesis by (auto dest: eq_key_imp_eq_value)
        qed
        moreover have "x \<in> set (pending u)" using x R by simp
        ultimately have "x \<in> set (pending t)" by (intro M(4))
        then show ?thesis using x(2) by blast
      qed
      moreover have "set ocs \<subseteq> ms_ID ` set (waiting r) \<times> UNIV"
      proof
        fix p assume "p \<in> set ocs"
        then have "fst p \<in> ms_ID ` set ms" using ids by force
        then show "p \<in> ms_ID ` set (waiting r) \<times> UNIV" using R by (cases p) (auto dest: in_set_takeD)
      qed
      ultimately show ?thesis using M(1,2) R by auto
    qed
  qed
  then show "sok t" and "x \<in> set (pending r) \<Longrightarrow> x \<in> set (pending t)"
    and "\<exists>n. waiting t = drop n (waiting r)"
    and "(k, Failed_job) \<in> set ocs \<Longrightarrow> \<exists>x \<in> set (pending t). ms_ID x = k"
    and "set ocs \<subseteq> ms_ID ` set (waiting r) \<times> UNIV" by blast+
qed

lemma run_state:
  assumes "sok r" and "rs_Run C X handler stops (h, r) = (ocs, h1, t)"
  shows "sok t" and "x \<in> set (pending r) \<Longrightarrow> x \<in> set (pending t)"
    and "(k, Failed_job) \<in> set ocs \<Longrightarrow> \<exists>x \<in> set (pending t). ms_ID x = k"
proof -
  have "sok t \<and> (\<forall>x \<in> set (pending r). x \<in> set (pending t)) \<and>
    (\<forall>k. (k, Failed_job) \<in> set ocs \<longrightarrow> (\<exists>x \<in> set (pending t). ms_ID x = k))"
    using assms
  proof (induction stops arbitrary: h r ocs)
    case (Cons stop stops)
    obtain b ocs1 h2 u where rd: "rs_round C X handler stop (h, r) = (b, ocs1, h2, u)" by (metis prod_cases4)
    note R = round_state [OF Cons.prems(1) rd]
    show ?case
    proof (cases b)
      case True
      then have "ocs = ocs1" "t = u" using Cons.prems(2) rd by auto
      then show ?thesis using R(1,2,4) by blast
    next
      case False
      obtain ocs2 where rest: "rs_Run C X handler stops (h2, u) = (ocs2, h1, t)" and ocs: "ocs = ocs1 @ ocs2"
        using Cons.prems(2) rd False by (auto split: prod.splits)
      from Cons.IH [OF R(1) rest] have ih: "sok t" "\<And>x. x \<in> set (pending u) \<Longrightarrow> x \<in> set (pending t)"
        "\<And>k. (k, Failed_job) \<in> set ocs2 \<Longrightarrow> \<exists>x \<in> set (pending t). ms_ID x = k" by blast+
      show ?thesis using ih R(2,4) ocs by (auto; blast)
    qed
  qed simp
  then show "sok t" and "x \<in> set (pending r) \<Longrightarrow> x \<in> set (pending t)"
    and "(k, Failed_job) \<in> set ocs \<Longrightarrow> \<exists>x \<in> set (pending t). ms_ID x = k" by blast+
qed

lemma depth_value:
  assumes "sok r" and "rs_Depth X r = (Inr n, t)"
  shows "n = int (length (waiting r)) + int (length (pending r))"
proof -
  obtain gs where g: "xs_groups X r = (Inr gs, t)"
    and n: "n = (case List.find (\<lambda>(name, _). name = groupName) gs of Some (_, lag, pend) \<Rightarrow> lag + pend | None \<Rightarrow> 0)"
    using assms(2) by (auto simp: rs_Depth_def split: prod.splits sum.splits)
  have "List.find (\<lambda>(name, _). name = k) gs = map_option (Pair k) (map_of gs k)" for k
    by (induction gs) auto
  with n groups_value [OF assms(1) g] show ?thesis by simp
qed

end

section \<open>Properties\<close>

text \<open>The payload of the queue round-trips. What \<open>Enqueue\<close> hands to the stream is decoded by
  \<open>jobFromMessage\<close> to the same job, whatever id the stream gave it, provided the JSON text of
  its vector parses back to it; and \<open>Enqueue\<close> refuses exactly the jobs whose vector has an infinity or a NaN.
\<close>
theorem queue_message_roundtrip:
  assumes "\<And>v. json_of_floats (j_Vector job) = Inr v \<Longrightarrow> cd_parse C (cd_text C v) = Inr v"
  shows "case queue_message C job of
           Inl _ \<Rightarrow> \<not> list_all f64_finite (j_Vector job)
         | Inr vals \<Rightarrow> list_all f64_finite (j_Vector job) \<and> gm_wf vals \<and>
             jobFromMessage C \<lparr>ms_ID = k, ms_Values = vals\<rparr> = Inr job"
proof (cases "json_of_floats (j_Vector job)")
  case (Inl e)
  then show ?thesis by (auto simp: queue_message_def json_of_floats_def split: if_splits)
next
  case (Inr v)
  have "list_all f64_finite (j_Vector job)"
    using Inr by (auto simp: json_of_floats_def split: if_splits)
  with Inr show ?thesis
    by (simp add: queue_message_def jobFromMessage_def gm_get_def gm_wf_def assms [OF Inr] json_floats_marshal [OF Inr])
qed

text \<open>A stream server in memory: undelivered, delivered, and the number of messages added so far.\<close>

record mem_stream =
  mx_waiting :: "message list"
  mx_pending :: "message list"
  mx_next :: nat

definition mem_stream_ops :: "mem_stream stream_ops" where
  "mem_stream_ops =
     \<lparr>xs_ping = (\<lambda>r. (None, r)),
      xs_create_group = (\<lambda>r. (Some (Errorf ''BUSYGROUP Consumer Group name already exists'' []), r)),
      xs_add = (\<lambda>f r. (None, r\<lparr>mx_waiting := mx_waiting r @ [\<lparr>ms_ID = nat_digits (mx_next r), ms_Values = f\<rparr>],
                                 mx_next := Suc (mx_next r)\<rparr>)),
      xs_read = (\<lambda>n r. if mx_waiting r = [] then (Inl RedisNil, r)
                   else (Inr (take n (mx_waiting r)),
                         r\<lparr>mx_waiting := drop n (mx_waiting r), mx_pending := mx_pending r @ take n (mx_waiting r)\<rparr>)),
      xs_ack = (\<lambda>k r. (None, r\<lparr>mx_pending := filter (\<lambda>m. ms_ID m \<noteq> k) (mx_pending r)\<rparr>)),
      xs_groups = (\<lambda>r. (Inr [(groupName, int (length (mx_waiting r)), int (length (mx_pending r)))], r))\<rparr>"

definition mem_stream_ok :: "mem_stream \<Rightarrow> bool" where
  "mem_stream_ok r \<longleftrightarrow> distinct (ids_of (mx_waiting r @ mx_pending r)) \<and>
     (\<forall>k \<in> set (ids_of (mx_waiting r @ mx_pending r)). \<exists>n < mx_next r. k = nat_digits n)"

lemma mem_stream_ok_sub:
  assumes "mem_stream_ok r" and "mx_next r \<le> mx_next t"
    and "distinct (ids_of (mx_waiting t @ mx_pending t))"
    and "set (mx_waiting t @ mx_pending t) \<subseteq> set (mx_waiting r @ mx_pending r)"
  shows "mem_stream_ok t"
proof -
  have "\<exists>n < mx_next t. k = nat_digits n" if k: "k \<in> set (ids_of (mx_waiting t @ mx_pending t))" for k
  proof -
    have "k \<in> set (ids_of (mx_waiting r @ mx_pending r))" using k assms(4) unfolding ids_of_def set_map by blast
    then obtain n where "n < mx_next r" "k = nat_digits n" using assms(1) unfolding mem_stream_ok_def by blast
    then show ?thesis using assms(2) order.strict_trans2 by blast
  qed
  with assms(3) show ?thesis unfolding mem_stream_ok_def by blast
qed

lemma mem_add:
  assumes ok: "mem_stream_ok r" and add: "xs_add mem_stream_ops f r = (None, t)"
  shows "mem_stream_ok t \<and> mx_pending t = mx_pending r \<and>
      (\<exists>k. mx_waiting t = mx_waiting r @ [\<lparr>ms_ID = k, ms_Values = f\<rparr>])"
proof -
  let ?m = "\<lparr>ms_ID = nat_digits (mx_next r), ms_Values = f\<rparr>"
  have t: "t = r\<lparr>mx_waiting := mx_waiting r @ [?m], mx_next := Suc (mx_next r)\<rparr>"
    using add by (simp add: mem_stream_ops_def)
  have "nat_digits (mx_next r) \<notin> set (ids_of (mx_waiting r @ mx_pending r))"
    using ok by (auto simp: mem_stream_ok_def nat_digits_inj)
  then have "mem_stream_ok t" using ok t by (auto simp: mem_stream_ok_def ids_of_def less_Suc_eq)
  with t show ?thesis by simp
qed

lemma mem_read:
  assumes ok: "mem_stream_ok r" and run: "xs_read mem_stream_ops n r = (Inr ms, t)"
  shows "mem_stream_ok t \<and> ms = take n (mx_waiting r) \<and> mx_waiting t = drop n (mx_waiting r) \<and>
      mx_pending t = mx_pending r @ ms"
proof -
  have t: "ms = take n (mx_waiting r)"
    "t = r\<lparr>mx_waiting := drop n (mx_waiting r), mx_pending := mx_pending r @ take n (mx_waiting r)\<rparr>"
    using run by (auto simp: mem_stream_ops_def split: if_splits)
  have "mset (take n (mx_waiting r)) + mset (drop n (mx_waiting r)) = mset (mx_waiting r)"
    by (metis append_take_drop_id mset_append)
  then have perm: "mset (mx_waiting t @ mx_pending t) = mset (mx_waiting r @ mx_pending r)"
    using t(2) by (simp add: add.commute add.left_commute)
  have "distinct (ids_of (mx_waiting t @ mx_pending t))"
    using ok mset_eq_imp_distinct_iff [of "ids_of (mx_waiting t @ mx_pending t)"
      "ids_of (mx_waiting r @ mx_pending r)"] perm
    unfolding mem_stream_ok_def ids_of_def mset_map by argo
  moreover have "set (mx_waiting t @ mx_pending t) \<subseteq> set (mx_waiting r @ mx_pending r)"
    using mset_eq_setD [OF perm] by blast
  ultimately have "mem_stream_ok t" using mem_stream_ok_sub [OF ok] t(2) by simp
  with t show ?thesis by simp
qed

lemma mem_ack:
  assumes ok: "mem_stream_ok r" and run: "xs_ack mem_stream_ops k r = (e, t)"
  shows "mem_stream_ok t \<and> mx_waiting t = mx_waiting r \<and>
      (mx_pending t = filter (\<lambda>m. ms_ID m \<noteq> k) (mx_pending r) \<or> e \<noteq> None \<and> mx_pending t = mx_pending r)"
proof -
  have t: "t = r\<lparr>mx_pending := filter (\<lambda>m. ms_ID m \<noteq> k) (mx_pending r)\<rparr>"
    using run by (simp add: mem_stream_ops_def)
  have "distinct (ids_of (mx_waiting t @ mx_pending t))"
    using ok t by (auto simp: mem_stream_ok_def ids_of_def distinct_map_filter)
  then have "mem_stream_ok t" by (intro mem_stream_ok_sub [OF ok]) (use t in auto)
  with t show ?thesis by simp
qed

interpretation mem_stream: stream_server mem_stream_ops mem_stream_ok mx_waiting mx_pending
proof (unfold_locales, goal_cases)
  case 1 then show ?case by (simp add: mem_stream_ok_def)
next
  case 2 then show ?case by (rule mem_add)
next
  case 3 then show ?case by (rule mem_read)
next
  case 4 then show ?case by (simp add: mem_stream_ops_def split: if_splits)
next
  case 5 then show ?case by (rule mem_ack)
next
  case 6 then show ?case by (simp add: mem_stream_ops_def)
next
  case 7 then show ?case by (auto simp: mem_stream_ops_def)
qed

text \<open>A server with one job waiting, and a handler that refuses every job.\<close>

definition demo_codec :: codec where
  "demo_codec = \<lparr>cd_text = (\<lambda>_. ''[]''), cd_parse = (\<lambda>_. Inr (JArr []))\<rparr>"

definition demo_stream :: mem_stream where
  "demo_stream = snd (rs_Enqueue demo_codec mem_stream_ops \<lparr>j_Prompt = ''p'', j_Reply = ''r'', j_Vector = []\<rparr>
     \<lparr>mx_waiting = [], mx_pending = [], mx_next = 0\<rparr>)"

definition refuse :: "Job \<Rightarrow> unit \<Rightarrow> goerr option \<times> unit" where
  "refuse job h = (Some (Sentinel ''refused''), h)"

text \<open>A job whose handler failed once is never taken up again. Whatever rounds \<open>Run\<close> makes afterwards,
  with whatever handler, \<open>Depth\<close> stays at one or more: \<open>Run\<close> reads new messages only (\<open>>\<close>) and nothing
  else acknowledges the job, so a queue that has seen one failing job never reports itself drained.
\<close>
theorem failed_job_blocks_draining:
  assumes "stream_server X sok waiting pending" and "sok r"
    and "rs_Run C X handler stops (h, r) = (ocs, h1, t)" and "(k, Failed_job) \<in> set ocs"
    and "rs_Run C X handler2 stops2 (h2, t) = (ocs2, h3, u)"
    and "rs_Depth X u = (Inr n, w)"
  shows "1 \<le> n"
proof -
  note R = stream_server.run_state [OF assms(1)]
  have t: "sok t" by (rule R(1) [OF assms(2,3)])
  obtain x where "x \<in> set (pending t)" using R(3) [OF assms(2,3,4)] by blast
  then have "x \<in> set (pending u)" by (rule R(2) [OF t assms(5)])
  then have "1 \<le> int (length (pending u))" by (cases "pending u") auto
  then show ?thesis
    using stream_server.depth_value [OF assms(1) R(1) [OF t assms(5)] assms(6)] by linarith
qed

theorem failed_job_blocks_draining_witness:
  "fst (rs_Depth mem_stream_ops
     (snd (snd (rs_Run demo_codec mem_stream_ops refuse [False, False]
       (snd (rs_Run demo_codec mem_stream_ops refuse [False] ((), demo_stream))))))) = Inr 1 \<and> 1 \<le> (1 :: int)"
proof (intro conjI)
  let ?t = "snd (snd (rs_Run demo_codec mem_stream_ops refuse [False] ((), demo_stream)))"
  let ?u = "snd (snd (rs_Run demo_codec mem_stream_ops refuse [False, False] ((), ?t)))"
  have laws: "stream_server mem_stream_ops mem_stream_ok mx_waiting mx_pending"
    by (rule mem_stream.stream_server_axioms)
  have ok: "mem_stream_ok demo_stream"
    by (simp add: mem_stream_ok_def demo_stream_def rs_Enqueue_def queue_message_def json_of_floats_def
        mem_stream_ops_def ids_of_def)
  have first: "rs_Run demo_codec mem_stream_ops refuse [False] ((), demo_stream) = ([(''0'', Failed_job)], (), ?t)"
    by code_simp
  have second: "rs_Run demo_codec mem_stream_ops refuse [False, False] ((), ?t) = ([], (), ?u)"
    by code_simp
  have depth: "rs_Depth mem_stream_ops ?u = (Inr 1, ?u)"
    by code_simp
  show "1 \<le> (1 :: int)"
    by (rule failed_job_blocks_draining [OF laws ok first _ second depth, of "''0''"]) simp
  show "fst (rs_Depth mem_stream_ops
     (snd (snd (rs_Run demo_codec mem_stream_ops refuse [False, False]
       (snd (rs_Run demo_codec mem_stream_ops refuse [False] ((), demo_stream))))))) = Inr 1"
    by code_simp
qed

text \<open>A codec that knows one vector.\<close>

definition one_vector_codec :: codec where
  "one_vector_codec =
     \<lparr>cd_text = (\<lambda>_. ''[0.5,1]''),
      cd_parse = (\<lambda>s. if s = ''[0.5,1]'' then Inr (JArr [JNum (F_Num (1 / 2)), JNum (F_Num 1)]) else Inl ErrJsonSyntax)\<rparr>"

definition demo_job :: Job where
  "demo_job = \<lparr>j_Prompt = ''p'', j_Reply = ''r'', j_Vector = [F_Num (1 / 2), F_Num 1]\<rparr>"

theorem queue_message_roundtrip_witness:
  "case queue_message one_vector_codec demo_job of
     Inl _ \<Rightarrow> \<not> list_all f64_finite (j_Vector demo_job)
   | Inr vals \<Rightarrow> list_all f64_finite (j_Vector demo_job) \<and> gm_wf vals \<and>
       jobFromMessage one_vector_codec \<lparr>ms_ID = ''1-0'', ms_Values = vals\<rparr> = Inr demo_job"
proof (rule queue_message_roundtrip)
  fix v assume "json_of_floats (j_Vector demo_job) = Inr v"
  then show "cd_parse one_vector_codec (cd_text one_vector_codec v) = Inr v"
    by (simp add: one_vector_codec_def demo_job_def json_of_floats_def)
qed

end
