(* ===== verification/Policy_Contract.thy ===== *)
theory Policy_Contract
  imports Policy
begin

text \<open>
  The contract suite run against an eviction-policy plugin before it is activated
  (\<open>internal/plugins/contract/policy.go\<close> with the runner of \<open>contract.go\<close>): the checks as functions
  of any implementation's methods, and the proof, inside the interface's locale, that every
  implementation keeping the laws passes all of them, the concurrent one under every schedule.
\<close>

section \<open>Reports\<close>

datatype check_status = Pass | Fail goerr | Skipped string

type_synonym report = "(string \<times> check_status) list"

definition Passed :: "report \<Rightarrow> bool" where
  "Passed rep \<longleftrightarrow> \<not> list_ex (\<lambda>(_, s). case s of Fail _ \<Rightarrow> True | _ \<Rightarrow> False) rep \<and> rep \<noteq> []"

definition Failures :: "report \<Rightarrow> report" where
  "Failures rep = filter (\<lambda>(_, s). case s of Fail _ \<Rightarrow> True | _ \<Rightarrow> False) rep"

lemma Passed_iff: "Passed rep \<longleftrightarrow> Failures rep = [] \<and> rep \<noteq> []"
  by (auto simp: Passed_def Failures_def list_ex_iff filter_empty_conv)

definition Summary :: "string \<Rightarrow> report \<Rightarrow> string" where
  "Summary type rep =
     (let pass = length (filter (\<lambda>(_, s). s = Pass) rep);
          fail = length (Failures rep);
          skip = length rep - pass - fail
      in type @ '' contract: '' @ itoa (int pass) @ '' passed, '' @ itoa (int fail) @ '' failed, '' @
         itoa (int skip) @ '' skipped'' @
         (if 0 < fail then '' (failed: '' @ str_join '', '' (map fst (Failures rep)) @ '')'' else ''''))"

text \<open>
  \<open>runner.check\<close>: run one named case on the state and record its outcome. \<open>ctx\<close> is the error of the
  suite's context; a case that returns an \<open>errSkip\<close> counts as skipped. A panic of a case and the
  scrubbing of its message are left out.
\<close>

definition run_check ::
    "('p \<Rightarrow> goerr option) \<Rightarrow> string \<Rightarrow> ('p \<Rightarrow> goerr option \<times> 'p) \<Rightarrow> 'p \<times> report \<Rightarrow> 'p \<times> report" where
  "run_check ctx name fn st =
     (case ctx (fst st) of
        Some err \<Rightarrow> (fst st, snd st @ [(name, Fail (Errorf ''verification canceled: '' [AErr err]))])
      | None \<Rightarrow>
          (let (e, q) = fn (fst st) in
           (q, snd st @ [(name,
              case e of
                None \<Rightarrow> Pass
              | Some err \<Rightarrow>
                  (case errors_as (\<lambda>x. case x of SkipError _ \<Rightarrow> True | _ \<Rightarrow> False) err of
                     Some (SkipError why) \<Rightarrow> Skipped why
                   | _ \<Rightarrow> Fail err))])))"

lemma run_check_pass:
  "ctx (fst st) = None \<Longrightarrow> fn (fst st) = (None, q) \<Longrightarrow> run_check ctx name fn st = (q, snd st @ [(name, Pass)])"
  by (simp add: run_check_def)

section \<open>The checks\<close>

text \<open>The loop of the \<open>lifecycle\<close> check over the map \<open>remaining\<close>.\<close>

function contract_drain :: "'p policy_ops \<Rightarrow> string list \<Rightarrow> 'p \<Rightarrow> goerr option \<times> 'p" where
  "contract_drain P remaining p =
     (if remaining = [] then (None, p)
      else (case po_Victim P p of
          (None, p1) \<Rightarrow>
            (Some (Errorf ''victim %q (ok=%v) is not a live entry %v'' [AStr '''', AStrs remaining]), p1)
        | (Some victim, p1) \<Rightarrow>
            if victim \<notin> set remaining
            then (Some (Errorf ''victim %q (ok=%v) is not a live entry %v'' [AStr victim, AStrs remaining]), p1)
            else (case po_Victim P p1 of
                (None, p2) \<Rightarrow> (Some (Errorf ''Victim consumed a candidate or returned an unknown entry on the second call'' []), p2)
              | (Some again, p2) \<Rightarrow>
                  if again \<notin> set remaining
                  then (Some (Errorf ''Victim consumed a candidate or returned an unknown entry on the second call'' []), p2)
                  else contract_drain P (removeAll victim remaining)
                         (po_OnDelete P victim (po_OnDelete P victim p2)))))"
  by pat_completeness auto
termination
  by (relation "measure (\<lambda>(P, r, p). length r)") (auto simp: length_removeAll_less)

declare contract_drain.simps [simp del]

definition contract_lifecycle :: "'p policy_ops \<Rightarrow> 'p \<Rightarrow> goerr option \<times> 'p" where
  "contract_lifecycle P p =
     (case po_Victim P (po_Flush P p) of
        (Some _, p1) \<Rightarrow> (Some (Errorf ''empty policy returned a victim'' []), p1)
      | (None, p1) \<Rightarrow>
          (case po_Victim P (po_OnDelete P ''absent'' (po_OnHit P ''absent'' p1)) of
             (Some _, p2) \<Rightarrow> (Some (Errorf ''hit/delete of unknown ids created entries'' []), p2)
           | (None, p2) \<Rightarrow>
               (let p3 = po_OnInsert P ''c'' (po_OnInsert P ''b'' (po_OnInsert P ''a'' p2));
                    p4 = po_OnHit P ''b'' (po_OnInsert P ''a'' p3)
                in case contract_drain P [''a'', ''b'', ''c''] p4 of
                     (Some e, p5) \<Rightarrow> (Some e, p5)
                   | (None, p5) \<Rightarrow>
                       (case po_Victim P p5 of
                          (Some _, p6) \<Rightarrow>
                            (Some (Errorf ''duplicate insertion or repeated deletion left stale state'' []), p6)
                        | (None, p6) \<Rightarrow> (None, p6)))))"

definition contract_flush_reusable :: "'p policy_ops \<Rightarrow> 'p \<Rightarrow> goerr option \<times> 'p" where
  "contract_flush_reusable P p =
     (case po_Victim P (po_Flush P (po_Flush P (po_OnInsert P ''reuse'' p))) of
        (Some _, p1) \<Rightarrow> (Some (Errorf ''Flush left entries behind'' []), p1)
      | (None, p1) \<Rightarrow>
          (case po_Victim P (po_OnInsert P ''new'' p1) of
             (v, p2) \<Rightarrow>
               if v \<noteq> Some ''new'' then (Some (Errorf ''policy unusable after Flush: victim=%q ok=%v'' []), p2)
               else (None, po_Flush P p2)))"

fun contract_repeat_victim :: "'p policy_ops \<Rightarrow> nat \<Rightarrow> 'p \<Rightarrow> goerr option \<times> 'p" where
  "contract_repeat_victim P 0 p = (None, p)"
| "contract_repeat_victim P (Suc n) p =
     (case po_Victim P p of
        (v, q) \<Rightarrow>
          if v \<noteq> Some ''only''
          then (Some (Errorf ''call %d: victim=%q ok=%v; Victim must select without removing'' []), q)
          else contract_repeat_victim P n q)"

definition contract_victim_does_not_delete :: "'p policy_ops \<Rightarrow> 'p \<Rightarrow> goerr option \<times> 'p" where
  "contract_victim_does_not_delete P p =
     (case contract_repeat_victim P 3 (po_OnInsert P ''only'' (po_Flush P p)) of
        (Some e, q) \<Rightarrow> (Some e, q)
      | (None, q) \<Rightarrow> (None, po_Flush P q))"

subsection \<open>Concurrent hooks\<close>

text \<open>
  A worker's calls, and a schedule: any sequence that takes the next call of some worker at each
  step. The mutex of an implementation makes a call atomic.
\<close>

datatype hook_call = CallInsert string | CallHit string | CallVictim | CallDelete string

fun run_call :: "'p policy_ops \<Rightarrow> hook_call \<Rightarrow> 'p \<Rightarrow> 'p" where
  "run_call P (CallInsert k) p = po_OnInsert P k p"
| "run_call P (CallHit k) p = po_OnHit P k p"
| "run_call P CallVictim p = snd (po_Victim P p)"
| "run_call P (CallDelete k) p = po_OnDelete P k p"

definition worker_id :: "nat \<Rightarrow> nat \<Rightarrow> string" where
  "worker_id w n = itoa (int w) @ ''-'' @ itoa (int n)"

definition worker_calls :: "nat \<Rightarrow> hook_call list" where
  "worker_calls w = concat (map (\<lambda>n. let victim = worker_id w n
      in [CallInsert victim, CallHit victim, CallVictim, CallDelete victim]) [0..<30])"

inductive schedule :: "'a list list \<Rightarrow> 'a list \<Rightarrow> bool" where
  sched_done: "\<forall>xs \<in> set xss. xs = [] \<Longrightarrow> schedule xss []"
| sched_step: "i < length xss \<Longrightarrow> xss ! i = x # xs \<Longrightarrow> schedule (xss[i := xs]) ys \<Longrightarrow>
    schedule xss (x # ys)"

definition contract_concurrent ::
    "'p policy_ops \<Rightarrow> hook_call list \<Rightarrow> 'p \<Rightarrow> goerr option \<times> 'p" where
  "contract_concurrent P sched p =
     (case po_Victim P (fold (run_call P) sched (po_Flush P p)) of
        (Some victim, q) \<Rightarrow> (Some (Errorf ''concurrent hooks left a deleted entry behind (%q)'' [AStr victim]), q)
      | (None, q) \<Rightarrow> (None, q))"

text \<open>
  \<open>runPolicy\<close> once the plugin has answered with its name: \<open>health\<close> is \<open>Policy.Health\<close>, \<open>sched\<close>
  the order in which the runtime happens to run the concurrent calls.
\<close>

definition runPolicy ::
    "('p \<Rightarrow> goerr option) \<Rightarrow> 'p policy_ops \<Rightarrow> ('p \<Rightarrow> goerr option) \<Rightarrow> hook_call list \<Rightarrow> 'p \<Rightarrow> 'p \<times> report" where
  "runPolicy ctx P health sched p =
     run_check ctx ''no_events_lost'' (\<lambda>p. (health p, p))
    (run_check ctx ''concurrent_hooks'' (contract_concurrent P sched)
    (run_check ctx ''victim_does_not_delete'' (contract_victim_does_not_delete P)
    (run_check ctx ''flush_leaves_policy_reusable'' (contract_flush_reusable P)
    (run_check ctx ''lifecycle'' (contract_lifecycle P)
    (run_check ctx ''health_and_name''
       (\<lambda>p. (case health p of
               Some e \<Rightarrow> Some e
             | None \<Rightarrow> if po_Name P = [] then Some (Errorf ''empty policy name'' []) else None, p))
       (p, []))))))"

section \<open>Lawful policies pass\<close>

text \<open>A list of calls in which every insertion is later deleted.\<close>

definition deletes_later :: "hook_call list \<Rightarrow> bool" where
  "deletes_later xs \<longleftrightarrow> (\<forall>us k vs. xs = us @ CallInsert k # vs \<longrightarrow> CallDelete k \<in> set vs)"

lemma deletes_later_Nil: "deletes_later []"
  by (simp add: deletes_later_def)

lemma deletes_later_Cons:
  assumes "deletes_later (x # xs)"
  shows "deletes_later xs" and "x = CallInsert k \<Longrightarrow> CallDelete k \<in> set xs"
  using assms unfolding deletes_later_def by (metis append_Cons, metis append_Nil)

lemma deletes_later_append:
  assumes "deletes_later xs" and "deletes_later ys"
  shows "deletes_later (xs @ ys)"
  unfolding deletes_later_def
proof (intro allI impI)
  fix us k vs
  assume "xs @ ys = us @ CallInsert k # vs"
  then consider us' where "ys = us' @ CallInsert k # vs"
    | vs' where "xs = us @ CallInsert k # vs'" "vs = vs' @ ys"
    by (auto simp: append_eq_append_conv2 Cons_eq_append_conv append_eq_Cons_conv)
  then show "CallDelete k \<in> set vs"
    using assms unfolding deletes_later_def by cases auto
qed

lemma worker_calls_delete: "deletes_later (worker_calls w)"
proof -
  have one: "deletes_later [CallInsert k, CallHit k, CallVictim, CallDelete k]" for k
    by (auto simp: deletes_later_def Cons_eq_append_conv)
  have "deletes_later (concat (map (\<lambda>n. let id = worker_id w n
      in [CallInsert id, CallHit id, CallVictim, CallDelete id]) ns))" for ns
    by (induction ns) (simp_all add: Let_def deletes_later_Nil one deletes_later_append [OF one, simplified])
  then show ?thesis by (simp add: worker_calls_def)
qed

context eviction_policy
begin

lemma insert_law:
  "ok p \<Longrightarrow> ok (po_OnInsert P k p)" "ok p \<Longrightarrow> tracked (po_OnInsert P k p) = insert k (tracked p)"
  by (simp_all add: ins)

lemma hit_law:
  "ok p \<Longrightarrow> ok (po_OnHit P k p)" "ok p \<Longrightarrow> tracked (po_OnHit P k p) = tracked p"
  by (simp_all add: hit)

lemma flush_law: "ok p \<Longrightarrow> ok (po_Flush P p)" "ok p \<Longrightarrow> tracked (po_Flush P p) = {}"
  by (simp_all add: flush)

lemma drain_ok:
  assumes "ok p" and "tracked p = set rem"
  shows "\<exists>q. contract_drain P rem p = (None, q) \<and> ok q \<and> tracked q = {}"
  using assms
proof (induction "length rem" arbitrary: rem p rule: less_induct)
  case less
  show ?case
  proof (cases "rem = []")
    case True
    with less show ?thesis by (simp add: contract_drain.simps)
  next
    case False
    then obtain k p1 where v1: "po_Victim P p = (Some k, p1)" "k \<in> set rem" "ok p1" "tracked p1 = set rem"
      using victim_some [OF less.prems(1)] less.prems(2) by auto
    then obtain j p2 where v2: "po_Victim P p1 = (Some j, p2)" "j \<in> set rem" "ok p2" "tracked p2 = set rem"
      using victim_some [OF v1(3)] False by auto
    let ?q = "po_OnDelete P k (po_OnDelete P k p2)"
    have "ok ?q" and "tracked ?q = set (removeAll k rem)"
      using del [OF v2(3), of k] del [of "po_OnDelete P k p2" k] v2(4) by auto
    then obtain q where "contract_drain P (removeAll k rem) ?q = (None, q)" "ok q" "tracked q = {}"
      using less.hyps [OF length_removeAll_less [OF v1(2)]] by blast
    then show ?thesis
      using v1(1,2) v2(1,2) False by (simp add: contract_drain.simps [of _ rem])
  qed
qed

lemma lifecycle_ok:
  assumes "ok p"
  shows "\<exists>q. contract_lifecycle P p = (None, q) \<and> ok q \<and> tracked q = {}"
proof -
  obtain p1 where p1: "po_Victim P (po_Flush P p) = (None, p1)" "ok p1" "tracked p1 = {}"
    using victim_empty [of "po_Flush P p"] flush [OF assms] by blast
  let ?a = "po_OnDelete P ''absent'' (po_OnHit P ''absent'' p1)"
  have "ok ?a \<and> tracked ?a = {}"
    using hit [OF p1(2)] del [of "po_OnHit P ''absent'' p1" "''absent''"] p1(3) by simp
  then obtain p2 where p2: "po_Victim P ?a = (None, p2)" "ok p2" "tracked p2 = {}"
    using victim_empty [of ?a] by blast
  let ?b = "po_OnHit P ''b'' (po_OnInsert P ''a''
      (po_OnInsert P ''c'' (po_OnInsert P ''b'' (po_OnInsert P ''a'' p2))))"
  have "ok ?b \<and> tracked ?b = set [''a'', ''b'', ''c'']"
    using p2(2,3) by (auto simp: insert_law hit_law)
  then obtain p5 where p5: "contract_drain P [''a'', ''b'', ''c''] ?b = (None, p5)" "ok p5" "tracked p5 = {}"
    using drain_ok [of ?b] by blast
  obtain p6 where "po_Victim P p5 = (None, p6)" "ok p6" "tracked p6 = {}"
    using victim_empty [OF p5(2,3)] by blast
  with p1 p2 p5 show ?thesis
    by (simp add: contract_lifecycle_def)
qed

lemma flush_reusable_ok:
  assumes "ok p"
  shows "\<exists>q. contract_flush_reusable P p = (None, q) \<and> ok q \<and> tracked q = {}"
proof -
  let ?a = "po_Flush P (po_Flush P (po_OnInsert P ''reuse'' p))"
  have "ok ?a" "tracked ?a = {}" using assms by (simp_all add: flush_law insert_law)
  then obtain p1 where p1: "po_Victim P ?a = (None, p1)" "ok p1" "tracked p1 = {}"
    using victim_empty [of ?a] by blast
  have new: "ok (po_OnInsert P ''new'' p1)" "tracked (po_OnInsert P ''new'' p1) = {''new''}"
    using p1 by (simp_all add: insert_law)
  obtain p2 where "po_Victim P (po_OnInsert P ''new'' p1) = (Some ''new'', p2)" "ok p2"
    using victim_single [OF new] by (elim exE conjE)
  with p1 show ?thesis
    by (simp add: contract_flush_reusable_def flush_law)
qed

lemma repeat_victim_ok:
  assumes "ok p" and "tracked p = {''only''}"
  shows "\<exists>q. contract_repeat_victim P n p = (None, q) \<and> ok q"
  using assms
proof (induction n arbitrary: p)
  case (Suc n)
  obtain q where q: "po_Victim P p = (Some ''only'', q)" "ok q" "tracked q = {''only''}"
    using victim_single [OF Suc.prems] by (elim exE conjE)
  show ?case using Suc.IH [OF q(2,3)] q(1) by simp
qed simp

lemma victim_does_not_delete_ok:
  assumes "ok p"
  shows "\<exists>q. contract_victim_does_not_delete P p = (None, q) \<and> ok q"
proof -
  have o: "ok (po_OnInsert P ''only'' (po_Flush P p))"
    and t: "tracked (po_OnInsert P ''only'' (po_Flush P p)) = {''only''}"
    using assms by (simp_all add: insert_law flush_law)
  obtain q where "contract_repeat_victim P 3 (po_OnInsert P ''only'' (po_Flush P p)) = (None, q)" "ok q"
    using repeat_victim_ok [OF o t, of 3] by (elim exE conjE)
  then show ?thesis by (simp add: contract_victim_does_not_delete_def flush_law)
qed

lemma run_call_ok:
  assumes "ok p"
  shows "ok (run_call P c p)"
    and "tracked (run_call P c p) =
      (case c of CallInsert k \<Rightarrow> insert k (tracked p) | CallDelete k \<Rightarrow> tracked p - {k} | _ \<Rightarrow> tracked p)"
  using hit [OF assms] ins [OF assms] del [OF assms] victim_state [OF assms]
  by (cases c; auto simp: prod_eq_iff)+

text \<open>The invariant of a run: every tracked id is still to be deleted by some worker.\<close>

lemma schedule_inv:
  assumes "schedule xss ys" and "ok p"
    and "\<forall>xs \<in> set xss. deletes_later xs"
    and "\<forall>k \<in> tracked p. \<exists>xs \<in> set xss. CallDelete k \<in> set xs"
  shows "ok (fold (run_call P) ys p) \<and> tracked (fold (run_call P) ys p) = {}"
  using assms
proof (induction arbitrary: p rule: schedule.induct)
  case (sched_done xss)
  then show ?case by fastforce
next
  case (sched_step i xss x xs ys)
  let ?p = "run_call P x p"
  have i: "x # xs \<in> set xss" using sched_step.hyps by (metis nth_mem)
  have sub: "set (xss[i := xs]) \<subseteq> insert xs (set xss)" by (rule set_update_subset_insert)
  have later: "deletes_later (x # xs)" using sched_step.prems(2) i by blast
  have "\<forall>xs' \<in> set (xss[i := xs]). deletes_later xs'"
    using sub sched_step.prems(2) deletes_later_Cons(1) [OF later] by blast
  moreover have "\<exists>zs \<in> set (xss[i := xs]). CallDelete k \<in> set zs" if k: "k \<in> tracked ?p" for k
  proof -
    have mem: "xs \<in> set (xss[i := xs])" using sched_step.hyps(1) by (rule set_update_memI)
    show ?thesis
    proof (cases "x = CallInsert k")
      case True
      then show ?thesis using deletes_later_Cons(2) [OF later] mem by blast
    next
      case False
      then have "k \<in> tracked p" and nd: "x \<noteq> CallDelete k"
        using k run_call_ok(2) [OF sched_step.prems(1), of x] by (auto split: hook_call.splits)
      then obtain zs where zs: "zs \<in> set xss" "CallDelete k \<in> set zs"
        using sched_step.prems(3) by blast
      then obtain j where j: "j < length xss" "xss ! j = zs" by (auto simp: in_set_conv_nth)
      show ?thesis
      proof (cases "j = i")
        case True
        then have "CallDelete k \<in> set xs" using j zs sched_step.hyps(2) nd by auto
        then show ?thesis using mem by blast
      next
        case False
        then have "zs \<in> set (xss[i := xs])"
          using j by (metis length_list_update nth_list_update_neq nth_mem)
        then show ?thesis using zs by blast
      qed
    qed
  qed
  ultimately show ?case
    using sched_step.IH [of ?p] run_call_ok(1) [OF sched_step.prems(1), of x] by simp
qed

lemma concurrent_ok:
  assumes "ok p" and "schedule (map worker_calls [0..<n]) sched"
  shows "\<exists>q. contract_concurrent P sched p = (None, q) \<and> ok q"
proof -
  have "ok (fold (run_call P) sched (po_Flush P p)) \<and> tracked (fold (run_call P) sched (po_Flush P p)) = {}"
    using flush [OF assms(1)] worker_calls_delete
    by (intro schedule_inv [OF assms(2)]) auto
  then obtain q where "po_Victim P (fold (run_call P) sched (po_Flush P p)) = (None, q)" "ok q"
    using victim_empty by blast
  then show ?thesis by (simp add: contract_concurrent_def)
qed

lemma runPolicy_passes:
  assumes "ok p" and "po_Name P \<noteq> []" and "\<And>p. ok p \<Longrightarrow> health p = None" and "\<And>p. ok p \<Longrightarrow> ctx p = None"
    and "schedule (map worker_calls [0..<8]) sched"
  shows "map snd (snd (runPolicy ctx P health sched p)) = replicate 6 Pass"
proof -
  obtain p1 where p1: "contract_lifecycle P p = (None, p1)" "ok p1"
    using lifecycle_ok [OF assms(1)] by blast
  obtain p2 where p2: "contract_flush_reusable P p1 = (None, p2)" "ok p2"
    using flush_reusable_ok [OF p1(2)] by blast
  obtain p3 where p3: "contract_victim_does_not_delete P p2 = (None, p3)" "ok p3"
    using victim_does_not_delete_ok [OF p2(2)] by blast
  obtain p4 where p4: "contract_concurrent P sched p3 = (None, p4)" "ok p4"
    using concurrent_ok [OF p3(2) assms(5)] by blast
  show ?thesis
    using p1 p2 p3 p4 assms by (simp add: runPolicy_def run_check_pass eval_nat_numeral)
qed

end

section \<open>The built-in policies\<close>

lemma schedule_concat: "schedule xss (concat xss)"
proof -
  have "schedule (replicate (length zss) [] @ xss) (concat xss)" for zss :: "'a list list"
  proof (induction xss arbitrary: zss)
    case Nil
    then show ?case by (auto intro: sched_done)
  next
    case (Cons xs xss)
    have "schedule (replicate (length zss) [] @ ys # xss) (ys @ concat xss)" for ys
    proof (induction ys)
      case Nil
      then show ?case using Cons.IH [of "undefined # zss"] by (simp add: replicate_app_Cons_same)
    next
      case (Cons y ys)
      show ?case
        by (rule subst [of "y # (ys @ concat xss)" _ "schedule _"])
          (auto intro!: sched_step [of "length zss"] simp: nth_append list_update_append Cons)
    qed
    then show ?case by simp
  qed
  from this [of "[]"] show ?thesis by simp
qed

lemma mgr_ops_name: "po_Name (mgr_ops n) = n"
  by (simp add: mgr_ops_def)

text \<open>The manager of any configured policy passes every check of the plugin contract, whichever way the
  runtime interleaves the concurrent hooks of the eight workers.\<close>

theorem built_in_policies_keep_the_contract:
  assumes "policy_New cfg = Inr m" and "schedule (map worker_calls [0..<8]) sched"
  shows "map snd (snd (runPolicy (\<lambda>_. None) (mgr_ops (Current m)) (\<lambda>_. None) sched m)) = replicate 6 Pass"
  by (rule manager.runPolicy_passes)
    (use assms policy_New_fresh in \<open>auto simp: mgr_ops_name\<close>)

lemma built_in_policies_keep_the_contract_witness:
  "\<exists>cfg m. policy_New cfg = Inr m \<and>
     map snd (snd (runPolicy (\<lambda>_. None) (mgr_ops (Current m)) (\<lambda>_. None) (concat (map worker_calls [0..<8])) m)) =
     replicate 6 Pass"
proof -
  have "(case Load (\<lambda>_. '''') of Inr c \<Rightarrow> res_ok (policy_New c) | Inl _ \<Rightarrow> False)" by code_simp
  then obtain cfg m where "policy_New cfg = Inr m"
    by (auto simp: res_ok_def split: sum.splits)
  with built_in_policies_keep_the_contract [OF this] schedule_concat [of "map worker_calls [0..<8]"]
  show ?thesis by blast
qed

end
