(* ===== verification/Http_Client.thy ===== *)
theory Http_Client
  imports Go_Json
begin

text \<open>
  HTTP exchanges and the plugin platform's client (\<open>internal/plugins/protocol/client.go\<close>). The
  transport (\<open>http.Client\<close> on a network) is a parameter: a function from a request and the state of
  the world to a response or an error. A request's path and query are kept apart and unescaped.
  The regular expressions of \<open>secrets.Scrub\<close>, applied to the plugin's message, are a parameter of the
  client as well.
\<close>

section \<open>Exchanges\<close>

record http_req =
  hq_method :: string
  hq_path :: string
  hq_query :: "(string \<times> string) list"
  hq_auth :: string            \<comment> \<open>the \<open>Authorization\<close> header, \<open>''''\<close> if there is none\<close>
  hq_body :: "json option"

text \<open>A response body as a JSON decoder finds it.\<close>

datatype http_body =
    Body_None              \<comment> \<open>empty or white space\<close>
  | Body_Doc json          \<comment> \<open>one document\<close>
  | Body_Trailing json     \<comment> \<open>a document and more data after it\<close>
  | Body_Garbage           \<comment> \<open>not JSON\<close>
  | Body_Broken goerr      \<comment> \<open>the read fails\<close>

record http_resp =
  hs_status :: int
  hs_size :: int           \<comment> \<open>bytes in the body\<close>
  hs_body :: http_body

type_synonym 'w transport = "http_req \<Rightarrow> 'w \<Rightarrow> http_resp res \<times> 'w"

section \<open>The client\<close>

definition DefaultTimeout :: int where "DefaultTimeout = 10 * 10 ^ 9"
definition DefaultMaxResponse :: int where "DefaultMaxResponse = 8 * 2 ^ 20"
definition MaxReplyBytes :: int where "MaxReplyBytes = 2 ^ 20"

definition ErrMalformed :: goerr where "ErrMalformed = Sentinel ''protocol.ErrMalformed''"
definition ErrTooLarge :: goerr where "ErrTooLarge = Sentinel ''protocol.ErrTooLarge''"
definition DeadlineExceeded :: goerr where "DeadlineExceeded = Sentinel ''context.DeadlineExceeded''"

record 'w client =
  cl_Token :: string
  cl_MaxResponse :: int
  cl_Timeout :: int
  cl_HTTP :: "'w transport"
  cl_ctx :: "'w \<Rightarrow> goerr option"   \<comment> \<open>\<open>ctx.Err()\<close> of the caller's context\<close>
  cl_scrub :: "string \<Rightarrow> string"

definition id_char :: "char \<Rightarrow> bool" where
  "id_char c \<longleftrightarrow> is_alpha c \<or> is_digit c \<or> c \<in> set ''._~-''"

definition ValidID :: "string \<Rightarrow> bool" where
  "ValidID s \<longleftrightarrow> s \<noteq> [] \<and> length s \<le> 128 \<and> list_all id_char s \<and> s \<noteq> ''.'' \<and> s \<noteq> ''..''"

definition sanitizeCode :: "string \<Rightarrow> string" where
  "sanitizeCode c =
     take 40 (filter (\<lambda>x. (CHR ''a'' \<le> x \<and> x \<le> CHR ''z'') \<or> is_digit x \<or> x = CHR ''_'') (to_lower c))"

definition short :: "(string \<Rightarrow> string) \<Rightarrow> string \<Rightarrow> string" where
  "short scrub s =
     map (\<lambda>c. if (of_char c :: nat) < 32 \<or> (of_char c :: nat) = 127 then CHR '' '' else c)
       (take 160 (scrub s))"

text \<open>The value of the member \<open>key\<close>: the last one whose name matches it ignoring case.\<close>

definition json_get :: "string \<Rightarrow> json \<Rightarrow> json option" where
  "json_get key j =
     (case j of
        JObj ms \<Rightarrow> map_option snd (List.find (\<lambda>(k, _). to_lower k = to_lower key) (rev ms))
      | _ \<Rightarrow> None)"

definition parseStatusError :: "(string \<Rightarrow> string) \<Rightarrow> int \<Rightarrow> http_body \<Rightarrow> goerr" where
  "parseStatusError scrub status body =
     (case body of
        Body_Doc j \<Rightarrow>
          (case json_get ''error'' j of
             None \<Rightarrow> StatusError status '''' ''''
           | Some err \<Rightarrow>
               (case json_struct [(''code'', \<lambda>j (c, m). res_bind (json_string j c) (\<lambda>c. Inr (c, m))),
                                  (''message'', \<lambda>j (c, m). res_bind (json_string j m) (\<lambda>m. Inr (c, m)))]
                       err ('''', '''') of
                  Inr (code, msg) \<Rightarrow>
                    if code \<noteq> [] \<or> msg \<noteq> [] then StatusError status (sanitizeCode code) (short scrub msg)
                    else StatusError status '''' ''''
                | Inl _ \<Rightarrow>
                    (case json_string err '''' of
                       Inr s \<Rightarrow> StatusError status '''' (short scrub s)
                     | Inl _ \<Rightarrow> StatusError status '''' '''')))
      | _ \<Rightarrow> StatusError status '''' '''')"

definition eff_timeout :: "'w client \<Rightarrow> int" where
  "eff_timeout c = (if cl_Timeout c \<le> 0 then DefaultTimeout else cl_Timeout c)"

text \<open>
  \<open>Client.Do\<close>: \<open>body\<close> is the marshalled request (\<open>Inl\<close> if marshalling fails), \<open>dec\<close> the decoder of
  the target \<open>out\<close> (\<open>None\<close> for a nil target) and \<open>out\<close> the value it holds before the call. The result
  is the status, the error and the target after the call. \<open>client_response\<close> is its second half, from
  the response on; \<open>ctx\<close> is \<open>ctx.Err()\<close> then.
\<close>

definition client_response ::
    "'w client \<Rightarrow> goerr option \<Rightarrow> (json \<Rightarrow> 'a res) option \<Rightarrow> 'a \<Rightarrow> http_resp \<Rightarrow>
     int \<times> goerr option \<times> 'a" where
  "client_response c ctx dec out resp =
     (let st = hs_status resp;
          limit = (if cl_MaxResponse c \<le> 0 then DefaultMaxResponse else cl_MaxResponse c)
      in case hs_body resp of
           Body_Broken e \<Rightarrow>
             (st, Some (case ctx of
                 Some ce \<Rightarrow> ce
               | None \<Rightarrow> Errorf ''reading plugin response failed'' []), out)
         | b \<Rightarrow>
             if limit < hs_size resp then (st, Some ErrTooLarge, out)
             else if st < 200 \<or> 299 < st then (st, Some (parseStatusError (cl_scrub c) st b), out)
             else (case dec of
                 None \<Rightarrow> (st, None, out)
               | Some d \<Rightarrow>
                   (case b of
                      Body_None \<Rightarrow> (st, if st = 204 then None else Some ErrMalformed, out)
                    | Body_Doc j \<Rightarrow>
                        (case d j of Inr x \<Rightarrow> (st, None, x) | Inl _ \<Rightarrow> (st, Some ErrMalformed, out))
                    | Body_Trailing j \<Rightarrow>
                        (case d j of Inr x \<Rightarrow> (st, Some ErrMalformed, x) | Inl _ \<Rightarrow> (st, Some ErrMalformed, out))
                    | _ \<Rightarrow> (st, Some ErrMalformed, out))))"

definition client_Do ::
    "'w client \<Rightarrow> string \<Rightarrow> string \<Rightarrow> (string \<times> string) list \<Rightarrow> json res option \<Rightarrow>
     (json \<Rightarrow> 'a res) option \<Rightarrow> 'a \<Rightarrow> 'w \<Rightarrow> (int \<times> goerr option \<times> 'a) \<times> 'w" where
  "client_Do c method path query body dec out w =
     (case cl_ctx c w of
        Some e \<Rightarrow> ((0, Some e, out), w)
      | None \<Rightarrow>
          (case body of
             Some (Inl e) \<Rightarrow> ((0, Some (Errorf ''encode request: %w'' [AWrap e]), out), w)
           | _ \<Rightarrow>
               (let req = \<lparr>hq_method = method, hq_path = path, hq_query = query,
                           hq_auth = (if cl_Token c = [] then [] else ''Bearer '' @ cl_Token c),
                           hq_body = (case body of Some (Inr j) \<Rightarrow> Some j | _ \<Rightarrow> None)\<rparr>
                in case cl_HTTP c req w of
                     (Inl e, w1) \<Rightarrow>
                       ((0, Some (case cl_ctx c w1 of
                            Some ce \<Rightarrow> ce
                          | None \<Rightarrow>
                              if errors_is e DeadlineExceeded
                              then Errorf ''plugin request timed out after %s'' [AInt (eff_timeout c)]
                              else Errorf ''plugin unreachable or refused the connection'' []), out), w1)
                   | (Inr resp, w1) \<Rightarrow> (client_response c (cl_ctx c w1) dec out resp, w1))))"

text \<open>A call with no target.\<close>

definition client_call ::
    "'w client \<Rightarrow> string \<Rightarrow> string \<Rightarrow> json res option \<Rightarrow> 'w \<Rightarrow> goerr option \<times> 'w" where
  "client_call c method path body w =
     (case client_Do c method path [] body None () w of ((_, e, _), w1) \<Rightarrow> (e, w1))"

text \<open>A call whose status is not looked at.\<close>

definition client_get ::
    "'w client \<Rightarrow> string \<Rightarrow> string \<Rightarrow> (string \<times> string) list \<Rightarrow> json res option \<Rightarrow>
     (json \<Rightarrow> 'a res) \<Rightarrow> 'a \<Rightarrow> 'w \<Rightarrow> 'a res \<times> 'w" where
  "client_get c method path query body dec zero w =
     (case client_Do c method path query body (Some dec) zero w of
        ((_, e, x), w1) \<Rightarrow> (case e of Some err \<Rightarrow> Inl err | None \<Rightarrow> Inr x, w1))"

definition client_Health :: "'w client \<Rightarrow> 'w \<Rightarrow> goerr option \<times> 'w" where
  "client_Health c w = client_call c ''GET'' ''/health'' None w"

record HealthInfo =
  hi_Status :: string
  hi_Dim :: int
  hi_Metric :: string

definition zero_HealthInfo :: HealthInfo where
  "zero_HealthInfo = \<lparr>hi_Status = '''', hi_Dim = 0, hi_Metric = ''''\<rparr>"

definition health_fields :: "(string \<times> HealthInfo setter) list" where
  "health_fields =
     [(''status'', \<lambda>j h. res_bind (json_string j (hi_Status h)) (\<lambda>x. Inr (h\<lparr>hi_Status := x\<rparr>))),
      (''dim'', \<lambda>j h. res_bind (json_int j (hi_Dim h)) (\<lambda>x. Inr (h\<lparr>hi_Dim := x\<rparr>))),
      (''metric'', \<lambda>j h. res_bind (json_string j (hi_Metric h)) (\<lambda>x. Inr (h\<lparr>hi_Metric := x\<rparr>)))]"

text \<open>A malformed body is not an error here, and each optional field counts if it decodes.\<close>

definition client_HealthDetail :: "'w client \<Rightarrow> 'w \<Rightarrow> HealthInfo res \<times> 'w" where
  "client_HealthDetail c w =
     (case client_Do c ''GET'' ''/health'' [] None (Some (\<lambda>j. Inr (Some j))) None w of
        ((_, e, body), w1) \<Rightarrow>
          (case e of
             Some err \<Rightarrow>
               if errors_is err ErrMalformed
               then (Inr (case body of Some j \<Rightarrow> json_lenient health_fields j zero_HealthInfo
                                     | None \<Rightarrow> zero_HealthInfo), w1)
               else (Inl err, w1)
           | None \<Rightarrow>
               (Inr (case body of Some j \<Rightarrow> json_lenient health_fields j zero_HealthInfo
                                | None \<Rightarrow> zero_HealthInfo), w1)))"

section \<open>Facts\<close>

lemma client_response_ok:
  assumes "client_response c ctx dec out resp = (st, None, x)"
  shows "st = hs_status resp" and "200 \<le> st" and "st \<le> 299"
    and "dec = Some d \<Longrightarrow> hs_body resp = Body_None \<and> st = 204 \<and> x = out \<or>
      (\<exists>j. hs_body resp = Body_Doc j \<and> d j = Inr x)"
  using assms
  by (auto simp: client_response_def Let_def
      split: http_body.splits if_splits option.splits sum.splits)

lemma ValidID_nonempty: "ValidID s \<Longrightarrow> s \<noteq> [] \<and> CHR ''/'' \<notin> set s \<and> CHR '' '' \<notin> set s"
  by (auto simp: ValidID_def list_all_iff id_char_def is_alpha_def is_digit_def less_eq_char_def)

end
