(* ===== verification/Sdk_Net.thy ===== *)
theory Sdk_Net
  imports Http_Client
begin

text \<open>
  The example plugins of the SDK as HTTP servers, and the network between the platform's client and
  such a server. A server is a function from a request and its state to a response and its state.
  The network follows a script of faults: a request may be refused before it reaches the server, or
  its response may be lost after the server has acted.

  \<open>sdk_serve\<close> adds what the examples share (\<open>withAuth\<close>): everything but \<open>/health\<close> needs the token
  when one is configured.
\<close>

section \<open>Responses\<close>

text \<open>The number of bytes of a document is a parameter of a server.\<close>

definition reply_json :: "(json \<Rightarrow> int) \<Rightarrow> int \<Rightarrow> json \<Rightarrow> http_resp" where
  "reply_json bytes code j = \<lparr>hs_status = code, hs_size = bytes j, hs_body = Body_Doc j\<rparr>"

definition reply_error :: "(json \<Rightarrow> int) \<Rightarrow> int \<Rightarrow> string \<Rightarrow> string \<Rightarrow> http_resp" where
  "reply_error bytes code errCode msg =
     reply_json bytes code (JObj [(''error'', JObj [(''code'', JStr errCode), (''message'', JStr msg)])])"

definition reply_empty :: "int \<Rightarrow> http_resp" where
  "reply_empty code = \<lparr>hs_status = code, hs_size = 0, hs_body = Body_None\<rparr>"

text \<open>What \<open>http.ServeMux\<close> answers when no pattern matches.\<close>

definition reply_unmatched :: "http_resp" where
  "reply_unmatched = \<lparr>hs_status = 404, hs_size = 19, hs_body = Body_Garbage\<rparr>"

text \<open>\<open>http.MaxBytesReader\<close>: a body of more than \<open>mx\<close> bytes cannot be decoded.\<close>

definition limit_body :: "(json \<Rightarrow> int) \<Rightarrow> int \<Rightarrow> json option \<Rightarrow> json option" where
  "limit_body bytes mx body = (case body of Some j \<Rightarrow> if bytes j \<le> mx then Some j else None | None \<Rightarrow> None)"

type_synonym 's server = "http_req \<Rightarrow> 's \<Rightarrow> http_resp \<times> 's"

definition withAuth :: "(json \<Rightarrow> int) \<Rightarrow> string \<Rightarrow> 's server \<Rightarrow> 's server" where
  "withAuth bytes token serve req s =
     (if token = [] \<or> hq_path req = ''/health'' \<or> trim_prefix (hq_auth req) ''Bearer '' = token
      then serve req s
      else (reply_error bytes 401 ''unauthorized'' ''bad credentials'', s))"

text \<open>The pattern \<open>prefix{id}\<close>: one non-empty path segment after the prefix.\<close>

definition path_id :: "string \<Rightarrow> string \<Rightarrow> string option" where
  "path_id prefix path =
     (if has_prefix path prefix \<and> drop (length prefix) path \<noteq> [] \<and>
         CHR ''/'' \<notin> set (drop (length prefix) path)
      then Some (drop (length prefix) path) else None)"

lemma path_id_append [simp]:
  "CHR ''/'' \<notin> set k \<Longrightarrow> k \<noteq> [] \<Longrightarrow> path_id p (p @ k) = Some k"
  by (simp add: path_id_def)

section \<open>The network\<close>

datatype net_fault = Delivered | Refused_conn | Lost_reply

record 's net =
  nt_srv :: 's
  nt_script :: "net_fault list"   \<comment> \<open>one entry per request; none left means delivered\<close>

definition net_fault :: "'s net \<Rightarrow> net_fault" where
  "net_fault w = (case nt_script w of [] \<Rightarrow> Delivered | f # _ \<Rightarrow> f)"

definition net_send :: "'s server \<Rightarrow> 's net transport" where
  "net_send serve req w =
     (let w0 = w\<lparr>nt_script := tl (nt_script w)\<rparr>; (resp, s) = serve req (nt_srv w)
      in case net_fault w of
           Delivered \<Rightarrow> (Inr resp, w0\<lparr>nt_srv := s\<rparr>)
         | Refused_conn \<Rightarrow> (Inl (Errorf ''connection refused'' []), w0)
         | Lost_reply \<Rightarrow> (Inl DeadlineExceeded, w0\<lparr>nt_srv := s\<rparr>))"

text \<open>The request \<open>client_Do\<close> builds.\<close>

definition client_req ::
    "'w client \<Rightarrow> string \<Rightarrow> string \<Rightarrow> (string \<times> string) list \<Rightarrow> json option \<Rightarrow> http_req" where
  "client_req c method path query body =
     \<lparr>hq_method = method, hq_path = path, hq_query = query,
      hq_auth = (if cl_Token c = [] then [] else ''Bearer '' @ cl_Token c), hq_body = body\<rparr>"

text \<open>A client of a server over the network, with a context that never ends.\<close>

definition net_client :: "'s server \<Rightarrow> 's net client \<Rightarrow> bool" where
  "net_client serve c \<longleftrightarrow> cl_HTTP c = net_send serve \<and> (\<forall>w. cl_ctx c w = None)"

text \<open>
  What a call leaves: the server untouched or moved by the request; moved, and the answer read from
  its response, if the call succeeded.
\<close>

lemma client_Do_net:
  assumes net: "net_client serve c"
    and run: "client_Do c m p q body dec out w = ((st, e, x), t)"
    and srv: "serve (client_req c m p q (case body of Some (Inr j) \<Rightarrow> Some j | _ \<Rightarrow> None)) (nt_srv w) = (resp, s)"
  shows "nt_srv t = nt_srv w \<or> nt_srv t = s"
    and "e = None \<Longrightarrow> nt_srv t = s \<and> st = hs_status resp \<and> 200 \<le> st \<and> st \<le> 299 \<and> (\<forall>b. body \<noteq> Some (Inl b))"
    and "e = None \<Longrightarrow> dec = Some d \<Longrightarrow>
      hs_body resp = Body_None \<and> st = 204 \<and> x = out \<or> (\<exists>j. hs_body resp = Body_Doc j \<and> d j = Inr x)"
proof -
  have ctx: "cl_ctx c w' = None" for w' using net by (simp add: net_client_def)
  have http: "cl_HTTP c = net_send serve" using net by (simp add: net_client_def)
  have "(nt_srv t = nt_srv w \<or> nt_srv t = s) \<and>
    (e = None \<longrightarrow> nt_srv t = s \<and> st = hs_status resp \<and> 200 \<le> st \<and> st \<le> 299 \<and> (\<forall>b. body \<noteq> Some (Inl b)) \<and>
      (dec = Some d \<longrightarrow> hs_body resp = Body_None \<and> st = 204 \<and> x = out \<or>
        (\<exists>j. hs_body resp = Body_Doc j \<and> d j = Inr x)))"
  proof (cases "\<exists>b. body = Some (Inl b)")
    case True
    then show ?thesis using run by (auto simp: client_Do_def ctx)
  next
    case False
    let ?r = "client_req c m p q (case body of Some (Inr j) \<Rightarrow> Some j | _ \<Rightarrow> None)"
    obtain r w1 where r: "net_send serve ?r w = (r, w1)" by fastforce
    have w1: "nt_srv w1 = nt_srv w \<or> nt_srv w1 = s" "\<And>rr. r = Inr rr \<Longrightarrow> rr = resp \<and> nt_srv w1 = s"
      using r srv by (auto simp: net_send_def Let_def split: net_fault.splits prod.splits)
    have do_: "client_Do c m p q body dec out w =
        (case r of
           Inl err \<Rightarrow> ((0, Some (if errors_is err DeadlineExceeded
               then Errorf ''plugin request timed out after %s'' [AInt (eff_timeout c)]
               else Errorf ''plugin unreachable or refused the connection'' []), out), w1)
         | Inr rr \<Rightarrow> (client_response c None dec out rr, w1))"
      using False r
      by (auto simp: client_Do_def ctx http client_req_def split: option.splits sum.splits)
    show ?thesis
    proof (cases r)
      case (Inl err)
      then show ?thesis using run do_ w1(1) by auto
    next
      case (Inr rr)
      then have rr: "rr = resp" "nt_srv w1 = s" using w1(2) by blast+
      then have res: "client_response c None dec out resp = (st, e, x)" and t: "t = w1"
        using run do_ Inr by simp_all
      show ?thesis
      proof (cases e)
        case None
        note k = client_response_ok [OF res [unfolded None]]
        show ?thesis using k(1,2,3) k(4) [of d] t rr False None by auto
      qed (use t rr in simp)
    qed
  qed
  then show "nt_srv t = nt_srv w \<or> nt_srv t = s"
    and "e = None \<Longrightarrow> nt_srv t = s \<and> st = hs_status resp \<and> 200 \<le> st \<and> st \<le> 299 \<and> (\<forall>b. body \<noteq> Some (Inl b))"
    and "e = None \<Longrightarrow> dec = Some d \<Longrightarrow>
      hs_body resp = Body_None \<and> st = 204 \<and> x = out \<or> (\<exists>j. hs_body resp = Body_Doc j \<and> d j = Inr x)"
    by blast+
qed

lemma client_get_net:
  assumes "net_client serve c" and "client_get c m p q body d zero w = (r, t)"
    and "serve (client_req c m p q (case body of Some (Inr j) \<Rightarrow> Some j | _ \<Rightarrow> None)) (nt_srv w) = (resp, s)"
  shows "nt_srv t = nt_srv w \<or> nt_srv t = s"
    and "r = Inr x \<Longrightarrow> nt_srv t = s \<and> 200 \<le> hs_status resp \<and> hs_status resp \<le> 299 \<and> (\<forall>b. body \<noteq> Some (Inl b)) \<and>
      (hs_body resp = Body_None \<and> x = zero \<or> (\<exists>j. hs_body resp = Body_Doc j \<and> d j = Inr x))"
proof -
  obtain st e y where do_: "client_Do c m p q body (Some d) zero w = ((st, e, y), t)"
    and r: "r = (case e of Some err \<Rightarrow> Inl err | None \<Rightarrow> Inr y)"
    using assms(2) by (auto simp: client_get_def split: prod.splits)
  note n = client_Do_net [OF assms(1) do_ assms(3)]
  show "nt_srv t = nt_srv w \<or> nt_srv t = s" by (rule n(1))
  show "nt_srv t = s \<and> 200 \<le> hs_status resp \<and> hs_status resp \<le> 299 \<and> (\<forall>b. body \<noteq> Some (Inl b)) \<and>
      (hs_body resp = Body_None \<and> x = zero \<or> (\<exists>j. hs_body resp = Body_Doc j \<and> d j = Inr x))" if "r = Inr x"
    using n(2) n(3) r that by (cases e) auto
qed

text \<open>The same for a call with a body, by whether the body could be marshalled.\<close>

lemma client_post_net:
  assumes net: "net_client serve c" and run: "client_get c m p q (Some b) d zero w = (r, t)"
  obtains e where "b = Inl e" "t = w" "\<exists>e'. r = Inl e'"
  | j resp s where "b = Inr j" "serve (client_req c m p q (Some j)) (nt_srv w) = (resp, s)"
      "nt_srv t = nt_srv w \<or> nt_srv t = s"
      "\<And>x. r = Inr x \<Longrightarrow> nt_srv t = s \<and> 200 \<le> hs_status resp \<and> hs_status resp \<le> 299 \<and>
        (hs_body resp = Body_None \<and> x = zero \<or> (\<exists>j. hs_body resp = Body_Doc j \<and> d j = Inr x))"
proof (cases b)
  case (Inl e)
  then show ?thesis using that(1) [of e] run net by (auto simp: client_get_def client_Do_def net_client_def)
next
  case (Inr j)
  obtain resp s where srv: "serve (client_req c m p q (Some j)) (nt_srv w) = (resp, s)" by fastforce
  show ?thesis
    using that(2) [OF Inr srv] client_get_net [OF net run, of resp s] srv Inr by simp
qed

lemma client_call_net:
  assumes "net_client serve c" and "client_call c m p body w = (e, t)"
    and "serve (client_req c m p [] (case body of Some (Inr j) \<Rightarrow> Some j | _ \<Rightarrow> None)) (nt_srv w) = (resp, s)"
  shows "nt_srv t = nt_srv w \<or> nt_srv t = s"
    and "e = None \<Longrightarrow> nt_srv t = s \<and> 200 \<le> hs_status resp \<and> hs_status resp \<le> 299"
proof -
  obtain st y where do_: "client_Do c m p [] body None () w = ((st, e, y), t)"
    using assms(2) by (auto simp: client_call_def split: prod.splits)
  note n = client_Do_net [OF assms(1) do_ assms(3)]
  show "nt_srv t = nt_srv w \<or> nt_srv t = s" by (rule n(1))
  show "nt_srv t = s \<and> 200 \<le> hs_status resp \<and> hs_status resp \<le> 299" if "e = None"
    using n(2) [OF that] by blast
qed

lemma reply_simps [simp]:
  "hs_status (reply_json b c j) = c" "hs_body (reply_json b c j) = Body_Doc j"
  "hs_status (reply_error b c k m) = c" "hs_status (reply_empty c) = c"
  "hs_body (reply_empty c) = Body_None" "hs_status reply_unmatched = 404"
  by (simp_all add: reply_json_def reply_error_def reply_empty_def reply_unmatched_def)

lemma client_req_simps [simp]:
  "hq_method (client_req c m p q b) = m" "hq_path (client_req c m p q b) = p"
  "hq_query (client_req c m p q b) = q" "hq_body (client_req c m p q b) = b"
  by (simp_all add: client_req_def)

lemma withAuth_cases:
  "withAuth bytes token serve req s = (resp, t) \<Longrightarrow>
   serve req s = (resp, t) \<or> t = s \<and> hs_status resp = 401"
  by (auto simp: withAuth_def split: if_splits)

lemma withAuth_ok:
  "withAuth bytes token serve req s = (resp, t) \<Longrightarrow> hs_status resp \<noteq> 401 \<Longrightarrow> serve req s = (resp, t)"
  using withAuth_cases by fastforce

end
