(* ===== verification/Protocol_Vector.thy ===== *)
theory Protocol_Vector
  imports Http_Client Ports
begin

text \<open>
  The remote vector-store adapter (\<open>internal/plugins/protocol/vectorstore.go\<close>): each method is one
  call of the client, and nothing a plugin answers is believed before it is checked.
\<close>

definition MaxRebuildEntries :: int where "MaxRebuildEntries = 2000000"

text \<open>\<open>NewVectorStore\<close> caps the response size and lengthens the default timeout.\<close>

definition NewVectorStore :: "'w client \<Rightarrow> 'w client" where
  "NewVectorStore c =
     (let c1 = (if cl_MaxResponse c = 0 \<or> 4 * 2 ^ 20 < cl_MaxResponse c
                then c\<lparr>cl_MaxResponse := 4 * 2 ^ 20\<rparr> else c)
      in if cl_Timeout c1 = DefaultTimeout then c1\<lparr>cl_Timeout := 30 * 10 ^ 9\<rparr> else c1)"

section \<open>Messages\<close>

definition match_fields :: "(string \<times> Match setter) list" where
  "match_fields =
     [(''id'', \<lambda>j m. res_bind (json_string j (m_ID m)) (\<lambda>x. Inr (m\<lparr>m_ID := x\<rparr>))),
      (''distance'', \<lambda>j m. res_bind (json_float j (m_Distance m)) (\<lambda>x. Inr (m\<lparr>m_Distance := x\<rparr>)))]"

definition decode_match :: "json \<Rightarrow> Match res" where
  "decode_match j = json_struct match_fields j \<lparr>m_ID = '''', m_Distance = F_Zero False\<rparr>"

definition decode_matches :: "json \<Rightarrow> Match list option res" where
  "decode_matches j = json_struct [(''matches'', \<lambda>j _. json_slice decode_match j)] j None"

definition search_request :: "f64 list \<Rightarrow> int \<Rightarrow> f64 \<Rightarrow> json res" where
  "search_request vec topK threshold =
     res_bind (json_of_floats vec) (\<lambda>v.
       if f64_finite threshold
       then Inr (JObj [(''vector'', v), (''top_k'', JInt topK), (''threshold'', JNum threshold)])
       else Inl ErrUnsupported)"

definition upsert_request :: "f64 list \<Rightarrow> json res" where
  "upsert_request vec = res_bind (json_of_floats vec) (\<lambda>v. Inr (JObj [(''vector'', v)]))"

fun json_of_list :: "('a \<Rightarrow> json res) \<Rightarrow> 'a list \<Rightarrow> json list res" where
  "json_of_list f [] = Inr []"
| "json_of_list f (x # xs) = res_bind (f x) (\<lambda>j. res_bind (json_of_list f xs) (\<lambda>js. Inr (j # js)))"

definition rebuild_entry_json :: "RebuildEntry \<Rightarrow> json res" where
  "rebuild_entry_json e =
     res_bind (json_of_floats (re_Vector e)) (\<lambda>v. Inr (JObj [(''id'', JStr (re_ID e)), (''vector'', v)]))"

definition rebuild_request :: "RebuildEntry list \<Rightarrow> json res" where
  "rebuild_request es =
     res_bind (json_of_list rebuild_entry_json es) (\<lambda>js. Inr (JObj [(''entries'', JArr js)]))"

text \<open>A pointer field: \<open>None\<close> when the member is missing or null.\<close>

fun json_int_ptr :: "json \<Rightarrow> int option res" where
  "json_int_ptr JNull = Inr None"
| "json_int_ptr j = res_bind (json_int j 0) (\<lambda>i. Inr (Some i))"

definition decode_int_ptr :: "string \<Rightarrow> json \<Rightarrow> int option res" where
  "decode_int_ptr key j = json_struct [(key, \<lambda>j _. json_int_ptr j)] j None"

definition decode_id :: "json \<Rightarrow> string res" where
  "decode_id j = json_struct [(''id'', json_string)] j ''''"

section \<open>Methods\<close>

text \<open>The check of the matches, with the previous distance.\<close>

fun check_matches :: "f64 \<Rightarrow> f64 \<Rightarrow> Match list \<Rightarrow> goerr option" where
  "check_matches threshold prev [] = None"
| "check_matches threshold prev (m # ms) =
     (if \<not> ValidID (m_ID m)
      then Some (Errorf ''vector-store plugin returned an unsafe or blank id'' [])
      else if \<not> f64_finite (m_Distance m)
      then Some (Errorf ''vector-store plugin returned a non-finite distance'' [])
      else if f64_lt threshold (m_Distance m)
      then Some (Errorf ''vector-store plugin returned a match above the threshold'' [])
      else if f64_lt (m_Distance m) prev
      then Some (Errorf ''vector-store plugin returned matches out of best-to-worst order'' [])
      else check_matches threshold (m_Distance m) ms)"

definition pvs_Search ::
    "'w client \<Rightarrow> f64 list \<Rightarrow> int \<Rightarrow> f64 \<Rightarrow> 'w \<Rightarrow> Match list res \<times> 'w" where
  "pvs_Search c vec topK threshold w =
     (if topK < 1 then (Inl (Errorf ''topK must be at least 1'' []), w)
      else (case client_get c ''POST'' ''/v1/search'' [] (Some (search_request vec topK threshold))
                   decode_matches None w of
          (Inl e, w1) \<Rightarrow> (Inl (Errorf ''vector-store plugin: %w'' [AWrap e]), w1)
        | (Inr None, w1) \<Rightarrow> (Inl (Errorf ''vector-store plugin: %w (missing matches array)'' [AWrap ErrMalformed]), w1)
        | (Inr (Some ms), w1) \<Rightarrow>
            if topK < int (length ms)
            then (Inl (Errorf ''vector-store plugin returned %d matches for top_k=%d''
                         [AInt (int (length ms)), AInt topK]), w1)
            else (case check_matches threshold (F_Inf True) ms of
                Some e \<Rightarrow> (Inl e, w1)
              | None \<Rightarrow> (Inr ms, w1))))"

definition pvs_Upsert :: "'w client \<Rightarrow> f64 list \<Rightarrow> 'w \<Rightarrow> string res \<times> 'w" where
  "pvs_Upsert c vec w =
     (case client_get c ''POST'' ''/v1/upsert'' [] (Some (upsert_request vec)) decode_id '''' w of
        (Inl e, w1) \<Rightarrow> (Inl (Errorf ''vector-store plugin: %w'' [AWrap e]), w1)
      | (Inr k, w1) \<Rightarrow>
          if ValidID k then (Inr k, w1)
          else (Inl (Errorf ''vector-store plugin returned an unsafe or blank id'' []), w1))"

definition pvs_Delete :: "'w client \<Rightarrow> string \<Rightarrow> 'w \<Rightarrow> goerr option \<times> 'w" where
  "pvs_Delete c k w =
     (if \<not> ValidID k then (Some (Errorf ''invalid entry id'' []), w)
      else (case client_call c ''DELETE'' (''/v1/entries/'' @ k) None w of
          (Some e, w1) \<Rightarrow> (Some (Errorf ''vector-store plugin: %w'' [AWrap e]), w1)
        | (None, w1) \<Rightarrow> (None, w1)))"

definition pvs_Size :: "'w client \<Rightarrow> 'w \<Rightarrow> int res \<times> 'w" where
  "pvs_Size c w =
     (case client_get c ''GET'' ''/v1/size'' [] None (decode_int_ptr ''size'') None w of
        (Inl e, w1) \<Rightarrow> (Inl (Errorf ''vector-store plugin: %w'' [AWrap e]), w1)
      | (Inr None, w1) \<Rightarrow> (Inl (Errorf ''vector-store plugin: %w'' [AWrap ErrMalformed]), w1)
      | (Inr (Some n), w1) \<Rightarrow>
          (if n < 0 then Inl (Errorf ''vector-store plugin: %w'' [AWrap ErrMalformed]) else Inr n, w1))"

definition pvs_Flush :: "'w client \<Rightarrow> 'w \<Rightarrow> goerr option \<times> 'w" where
  "pvs_Flush c w =
     (case client_call c ''POST'' ''/v1/flush'' (Some (Inr (JObj []))) w of
        (Some e, w1) \<Rightarrow> (Some (Errorf ''vector-store plugin: %w'' [AWrap e]), w1)
      | (None, w1) \<Rightarrow> (None, w1))"

definition pvs_Rebuild :: "'w client \<Rightarrow> RebuildEntry list \<Rightarrow> 'w \<Rightarrow> int res \<times> 'w" where
  "pvs_Rebuild c es w =
     (if MaxRebuildEntries < int (length es)
      then (Inl (Errorf ''refusing to rebuild %d entries (limit %d)''
                   [AInt (int (length es)), AInt MaxRebuildEntries]), w)
      else (case List.find (\<lambda>e. \<not> ValidID (re_ID e)) es of
          Some e \<Rightarrow> (Inl (Errorf ''cannot rebuild: entry id %q is not safe as a URL segment''
                            [AStr (re_ID e)]), w)
        | None \<Rightarrow>
            (case client_get c ''POST'' ''/v1/rebuild'' [] (Some (rebuild_request es))
                    (decode_int_ptr ''restored'') None w of
               (Inl e, w1) \<Rightarrow> (Inl (Errorf ''vector-store plugin: %w'' [AWrap e]), w1)
             | (Inr n, w1) \<Rightarrow>
                 if n = Some (int (length es)) then (Inr (int (length es)), w1)
                 else (Inl (Errorf ''vector-store plugin restored %v of %d entries''
                              [AInt (int (length es))]), w1))))"

record vs_info =
  vi_Dim :: int
  vi_Metric :: string

definition decode_info :: "json \<Rightarrow> vs_info res" where
  "decode_info j = json_struct
     [(''dim'', \<lambda>j i. res_bind (json_int j (vi_Dim i)) (\<lambda>x. Inr (i\<lparr>vi_Dim := x\<rparr>))),
      (''metric'', \<lambda>j i. res_bind (json_string j (vi_Metric i)) (\<lambda>x. Inr (i\<lparr>vi_Metric := x\<rparr>)))]
     j \<lparr>vi_Dim = 0, vi_Metric = ''''\<rparr>"

definition pvs_Info :: "'w client \<Rightarrow> 'w \<Rightarrow> vs_info res \<times> 'w" where
  "pvs_Info c w =
     (case client_Do c ''GET'' ''/v1/info'' [] None (Some decode_info) \<lparr>vi_Dim = 0, vi_Metric = ''''\<rparr> w of
        ((status, err, i), w1) \<Rightarrow>
          if err = None \<and> status = 200 \<and> 0 < vi_Dim i then (Inr i, w1)
          else (case client_HealthDetail c w1 of
              (Inl e, w2) \<Rightarrow> (Inl (Errorf ''vector-store plugin: %w'' [AWrap e]), w2)
            | (Inr h, w2) \<Rightarrow> (Inr \<lparr>vi_Dim = hi_Dim h, vi_Metric = hi_Metric h\<rparr>, w2)))"

definition protocol_vector :: "'w client \<Rightarrow> 'w vector_ops" where
  "protocol_vector c = \<lparr>vs_Search = pvs_Search c, vs_Upsert = pvs_Upsert c, vs_Delete = pvs_Delete c,
     vs_Size = pvs_Size c, vs_Flush = pvs_Flush c, vs_Rebuild = pvs_Rebuild c, vs_Health = client_Health c\<rparr>"

lemma protocol_vector_simps [simp]:
  "vs_Search (protocol_vector c) = pvs_Search c" "vs_Upsert (protocol_vector c) = pvs_Upsert c"
  "vs_Delete (protocol_vector c) = pvs_Delete c" "vs_Size (protocol_vector c) = pvs_Size c"
  "vs_Flush (protocol_vector c) = pvs_Flush c" "vs_Rebuild (protocol_vector c) = pvs_Rebuild c"
  by (simp_all add: protocol_vector_def)

section \<open>What an accepted search guarantees\<close>

lemma f64_finite_le:
  assumes "f64_finite d" and "\<not> f64_lt th d" and "th \<noteq> F_NaN"
  shows "f64_le d th"
proof -
  have "d \<noteq> F_NaN" using assms(1) by (cases d) auto
  with assms(2,3) show ?thesis using f64_cmp_total [of d th] by (auto simp: f64_le_def)
qed

lemma f64_le_trans:
  assumes "f64_le x y" and "f64_le y z"
  shows "f64_le x z"
  using assms by (cases x; cases y; cases z) (auto simp: f64_le_def f64_eq_def)

lemma check_matches_ok:
  assumes "check_matches th prev ms = None" and "th \<noteq> F_NaN"
  shows "\<forall>m \<in> set ms. ValidID (m_ID m) \<and> f64_finite (m_Distance m) \<and> f64_le (m_Distance m) th"
    and "prev \<noteq> F_NaN \<Longrightarrow> \<forall>m \<in> set ms. f64_le prev (m_Distance m)"
    and "sorted_wrt (\<lambda>a b. f64_le (m_Distance a) (m_Distance b)) ms"
proof -
  have "(\<forall>m \<in> set ms. ValidID (m_ID m) \<and> f64_finite (m_Distance m) \<and> f64_le (m_Distance m) th) \<and>
    (prev \<noteq> F_NaN \<longrightarrow> (\<forall>m \<in> set ms. f64_le prev (m_Distance m))) \<and>
    sorted_wrt (\<lambda>a b. f64_le (m_Distance a) (m_Distance b)) ms"
    using assms(1)
  proof (induction ms arbitrary: prev)
    case (Cons m ms)
    then have m: "ValidID (m_ID m)" "f64_finite (m_Distance m)" "\<not> f64_lt th (m_Distance m)"
      "\<not> f64_lt (m_Distance m) prev" "check_matches th (m_Distance m) ms = None"
      by (auto split: if_splits)
    have "m_Distance m \<noteq> F_NaN" using m(2) by (cases "m_Distance m") auto
    moreover have "f64_le prev (m_Distance m)" if "prev \<noteq> F_NaN"
      using that \<open>m_Distance m \<noteq> F_NaN\<close> m(4) f64_cmp_total [of prev "m_Distance m"]
      by (auto simp: f64_le_def)
    ultimately show ?case
      using Cons.IH [OF m(5)] m(1,2) f64_finite_le [OF m(2,3) assms(2)] by (auto intro: f64_le_trans)
  qed simp
  then show "\<forall>m \<in> set ms. ValidID (m_ID m) \<and> f64_finite (m_Distance m) \<and> f64_le (m_Distance m) th"
    and "prev \<noteq> F_NaN \<Longrightarrow> \<forall>m \<in> set ms. f64_le prev (m_Distance m)"
    and "sorted_wrt (\<lambda>a b. f64_le (m_Distance a) (m_Distance b)) ms" by blast+
qed

lemma pvs_Search_checked:
  assumes "pvs_Search c vec topK th w = (Inr ms, w1)"
  shows "int (length ms) \<le> topK" and "th \<noteq> F_NaN"
    and "check_matches th (F_Inf True) ms = None"
    and "client_get c ''POST'' ''/v1/search'' [] (Some (search_request vec topK th)) decode_matches None w
      = (Inr (Some ms), w1)"
proof -
  show "int (length ms) \<le> topK" and "check_matches th (F_Inf True) ms = None"
    and get: "client_get c ''POST'' ''/v1/search'' [] (Some (search_request vec topK th)) decode_matches None w
      = (Inr (Some ms), w1)"
    using assms by (auto simp: pvs_Search_def split: if_splits prod.splits sum.splits option.splits)
  have "search_request vec topK th \<noteq> Inl e" for e
    using get by (auto simp: client_get_def client_Do_def split: option.splits prod.splits)
  then obtain j where "search_request vec topK th = Inr j" by (cases "search_request vec topK th") auto
  then show "th \<noteq> F_NaN" by (auto simp: search_request_def res_bind_Inr split: if_splits)
qed

section \<open>What a caller of the adapter sees\<close>

text \<open>Matches accepted from a plugin are at most as many as asked for, with ids that are safe as a URL
  segment and finite distances within the threshold, in order of distance; and they are exactly
  what the plugin's response decodes to, nothing dropped and nothing reordered.\<close>

theorem accepted_matches_are_checked:
  assumes "pvs_Search c vec topK th w = (Inr ms, w1)"
  shows "int (length ms) \<le> topK \<and>
    list_all (\<lambda>m. ValidID (m_ID m) \<and> f64_finite (m_Distance m) \<and> f64_le (m_Distance m) th) ms \<and>
    sorted_wrt (\<lambda>a b. f64_le (m_Distance a) (m_Distance b)) ms \<and>
    client_get c ''POST'' ''/v1/search'' [] (Some (search_request vec topK th)) decode_matches None w
      = (Inr (Some ms), w1)"
  using pvs_Search_checked [OF assms] check_matches_ok [OF pvs_Search_checked(3) [OF assms] pvs_Search_checked(2) [OF assms]]
  by (auto simp: list_all_iff)

definition canned_client :: "json \<Rightarrow> unit client" where
  "canned_client j = NewVectorStore
     \<lparr>cl_Token = '''', cl_MaxResponse = 0, cl_Timeout = 0,
      cl_HTTP = (\<lambda>_ w. (Inr \<lparr>hs_status = 200, hs_size = 10, hs_body = Body_Doc j\<rparr>, w)),
      cl_ctx = (\<lambda>_. None), cl_scrub = (\<lambda>s. s)\<rparr>"

lemma accepted_matches_are_checked_witness:
  "\<exists>ms. fst (pvs_Search (canned_client (JObj [(''matches'',
      JArr [JObj [(''id'', JStr ''a''), (''distance'', JNum (F_Num (1 / 4)))]])])) [F_Num 1] 2 (F_Num 1) ()) = Inr ms \<and>
     list_all (\<lambda>m. ValidID (m_ID m)) ms \<and> length ms = 1"
proof -
  let ?c = "canned_client (JObj [(''matches'',
      JArr [JObj [(''id'', JStr ''a''), (''distance'', JNum (F_Num (1 / 4)))]])])"
  have "fst (pvs_Search ?c [F_Num 1] 2 (F_Num 1) ()) = Inr [\<lparr>m_ID = ''a'', m_Distance = F_Num (1 / 4)\<rparr>]"
    by code_simp
  then have s: "pvs_Search ?c [F_Num 1] 2 (F_Num 1) () = (Inr [\<lparr>m_ID = ''a'', m_Distance = F_Num (1 / 4)\<rparr>], ())"
    by (cases "pvs_Search ?c [F_Num 1] 2 (F_Num 1) ()") simp
  from accepted_matches_are_checked [OF s] s show ?thesis by (auto simp: list_all_iff)
qed


end
