(* ===== verification/Contract_Runner.thy ===== *)
theory Contract_Runner
  imports Policy_Contract Sdk_Net Protocol_Vector
begin

text \<open>
  What the contract suites of the plugin platform share (\<open>internal/plugins/contract/contract.go\<close>): concurrent calls
  and requests that must be refused. \<open>run_check\<close> and the reports are in \<open>Policy_Contract\<close>.

  A check is a sequence of calls that ends at the first error. It is written with \<open>calling\<close>, which hands the
  outcome of a call to the rest of the check; \<open>keeps I f\<close> says that a call keeps a property of the world.
\<close>

section \<open>Sequences of calls\<close>

type_synonym 'w check = "'w \<Rightarrow> goerr option \<times> 'w"

definition calling :: "('w \<Rightarrow> 'a \<times> 'w) \<Rightarrow> ('a \<Rightarrow> 'w \<Rightarrow> 'b \<times> 'w) \<Rightarrow> 'w \<Rightarrow> 'b \<times> 'w" where
  "calling f k w = (case f w of (r, w1) \<Rightarrow> k r w1)"

definition giving :: "'b \<Rightarrow> 'w \<Rightarrow> 'b \<times> 'w" where
  "giving r w = (r, w)"

text \<open>\<open>if err != nil { return err }\<close> after a call, without and with a result.\<close>

definition proceed :: "'w check \<Rightarrow> 'w check \<Rightarrow> 'w check" where
  "proceed f k = calling f (\<lambda>e. case e of Some err \<Rightarrow> giving (Some err) | None \<Rightarrow> k)"

definition obtaining :: "('w \<Rightarrow> 'a res \<times> 'w) \<Rightarrow> ('a \<Rightarrow> 'w check) \<Rightarrow> 'w check" where
  "obtaining f k = calling f (\<lambda>r. case r of Inl err \<Rightarrow> giving (Some err) | Inr x \<Rightarrow> k x)"

text \<open>\<open>if cond { return fmt.Errorf(...) }\<close>.\<close>

definition refuse_if :: "bool \<Rightarrow> string \<Rightarrow> 'w check \<Rightarrow> 'w check" where
  "refuse_if b msg k = (if b then giving (Some (Errorf msg [])) else k)"

definition keeps :: "('w \<Rightarrow> bool) \<Rightarrow> ('w \<Rightarrow> 'a \<times> 'w) \<Rightarrow> bool" where
  "keeps I f \<longleftrightarrow> (\<forall>w. I w \<longrightarrow> I (snd (f w)))"

named_theorems keeping "which calls keep a property of the world"

lemma keepsI: "(\<And>w. I w \<Longrightarrow> I (snd (f w))) \<Longrightarrow> keeps I f"
  by (simp add: keeps_def)

lemma keeps_fwd: "keeps I f \<Longrightarrow> f w = (r, t) \<Longrightarrow> I w \<Longrightarrow> I t"
  unfolding keeps_def by (metis snd_conv)

lemma keeps_giving [keeping]: "keeps I (giving r)"
  by (simp add: keeps_def giving_def)

lemma keeps_calling [keeping]:
  "keeps I f \<Longrightarrow> (\<And>r. keeps I (k r)) \<Longrightarrow> keeps I (calling f k)"
  by (auto simp: keeps_def calling_def split: prod.splits)

lemma keeps_proceed [keeping]: "keeps I f \<Longrightarrow> keeps I k \<Longrightarrow> keeps I (proceed f k)"
  unfolding proceed_def by (auto intro!: keeping split: option.split)

lemma keeps_obtaining [keeping]: "keeps I f \<Longrightarrow> (\<And>x. keeps I (k x)) \<Longrightarrow> keeps I (obtaining f k)"
  unfolding obtaining_def by (auto intro!: keeping split: sum.split)

lemma keeps_refuse_if [keeping]: "keeps I k \<Longrightarrow> keeps I (refuse_if b m k)"
  by (simp add: refuse_if_def keeps_giving)

text \<open>Every call of the client keeps what its exchange keeps.\<close>

lemma keeps_client_Do_req:
  assumes "\<And>b. keeps I (cl_HTTP c (client_req c m p q b))"
  shows "keeps I (client_Do c m p q body dec out)"
proof (rule keepsI)
  fix w
  assume w: "I w"
  let ?b = "case body of Some (Inr j) \<Rightarrow> Some j | _ \<Rightarrow> None"
  obtain r w1 where r: "cl_HTTP c (client_req c m p q ?b) w = (r, w1)" by fastforce
  have "I w1" using keeps_fwd [OF assms r w] .
  then show "I (snd (client_Do c m p q body dec out w))"
    using w r by (auto simp: client_Do_def client_req_def Let_def split: option.splits sum.splits)
qed

lemma keeps_client_Do [keeping]:
  "(\<And>req. keeps I (cl_HTTP c req)) \<Longrightarrow> keeps I (client_Do c m p q body dec out)"
  by (rule keeps_client_Do_req)

lemma keeps_client_call_req:
  "(\<And>b. keeps I (cl_HTTP c (client_req c m p [] b))) \<Longrightarrow> keeps I (client_call c m p body)"
  using keeps_client_Do_req [of I c m p "[]" body None "()"]
  by (auto simp: keeps_def client_call_def split: prod.splits)

lemma keeps_client_get_req:
  "(\<And>b. keeps I (cl_HTTP c (client_req c m p q b))) \<Longrightarrow> keeps I (client_get c m p q body dec zero)"
  using keeps_client_Do_req [of I c m p q body "Some dec" zero]
  by (auto simp: keeps_def client_get_def split: prod.splits)

lemma keeps_client_call [keeping]: "(\<And>req. keeps I (cl_HTTP c req)) \<Longrightarrow> keeps I (client_call c m p body)"
  by (rule keeps_client_call_req)

lemma keeps_client_get [keeping]:
  "(\<And>req. keeps I (cl_HTTP c req)) \<Longrightarrow> keeps I (client_get c m p q body dec zero)"
  by (rule keeps_client_get_req)

lemma keeps_client_Health [keeping]:
  assumes "\<And>req. hq_method req = ''GET'' \<Longrightarrow> keeps I (cl_HTTP c req)"
  shows "keeps I (client_Health c)"
  using keeps_client_Do_req [of I c "''GET''" "''/health''" "[]" None None "()"] assms
  by (auto simp: keeps_def client_Health_def client_call_def split: prod.splits)

lemma keeps_client_HealthDetail [keeping]:
  assumes "\<And>req. hq_method req = ''GET'' \<Longrightarrow> keeps I (cl_HTTP c req)"
  shows "keeps I (client_HealthDetail c)"
  using keeps_client_Do_req [of I c "''GET''" "''/health''" "[]" None "Some (\<lambda>j. Inr (Some j))" None] assms
  by (auto simp: keeps_def client_HealthDetail_def split: prod.splits option.splits)

text \<open>A request that the network delivers.\<close>

lemma client_Do_delivered:
  assumes "net_client serve c" and "nt_script w = []"
    and "serve (client_req c m p q (map_option (\<lambda>j. j) b)) (nt_srv w) = (resp, s)"
  shows "client_Do c m p q (map_option Inr b) dec out w = (client_response c None dec out resp, w\<lparr>nt_srv := s\<rparr>)"
proof -
  have ctx: "cl_ctx c w' = None" for w' using assms(1) by (simp add: net_client_def)
  have http: "cl_HTTP c = net_send serve" using assms(1) by (simp add: net_client_def)
  have "net_send serve (client_req c m p q b) w = (Inr resp, w\<lparr>nt_srv := s\<rparr>)"
    using assms(2,3) by (cases w) (simp add: net_send_def net_fault_def option.map_ident)
  then show ?thesis
    by (cases b) (simp_all add: client_Do_def ctx http client_req_def)
qed

text \<open>No error of the client makes a check count as skipped.\<close>

definition is_skip :: "goerr \<Rightarrow> bool" where
  "is_skip e = (case e of SkipError _ \<Rightarrow> True | _ \<Rightarrow> False)"

lemma is_skip_simps [simp]: "\<not> is_skip (Errorf f as)" "\<not> is_skip (Sentinel s)" "\<not> is_skip (StatusError n k m)"
  by (simp_all add: is_skip_def)

lemma parse_not_skip: "errors_as is_skip (parseStatusError scrub st b) = None"
  by (auto simp: parseStatusError_def split: http_body.splits option.splits sum.splits)

lemma client_error_not_skip:
  assumes "net_client serve c" and "client_Do c m p q None dec out w = ((st, Some e, x), t)"
  shows "errors_as is_skip e = None"
proof -
  have ctx: "cl_ctx c w' = None" for w' using assms(1) by (simp add: net_client_def)
  have resp: "client_response c None dec out resp = (st', Some e', x') \<Longrightarrow> errors_as is_skip e' = None" for resp st' e' x'
    by (auto simp: client_response_def Let_def ErrTooLarge_def ErrMalformed_def parse_not_skip
        split: http_body.splits if_splits option.splits sum.splits)
  show ?thesis
    using assms(2) by (auto simp: client_Do_def ctx dest: resp split: sum.splits prod.splits if_splits)
qed

section \<open>Concurrent calls\<close>

text \<open>
  \<open>parallel\<close>: \<open>n\<close> goroutines, each a list of calls that ends at its first error. \<open>sched\<close> is the order in which the
  runtime lets them take their next call; a call is atomic, since it is one request. Whoever is not done when
  the order ends finishes by turn. The result is the first error by number.
\<close>

type_synonym 'w goroutine = "'w check list \<times> goerr option"

definition go_step :: "nat \<Rightarrow> 'w goroutine list \<times> 'w \<Rightarrow> 'w goroutine list \<times> 'w" where
  "go_step i st =
     (case st of (gs, w) \<Rightarrow>
        if i < length gs then
          (case gs ! i of
             (a # as, e) \<Rightarrow>
               (case a w of
                  (None, w1) \<Rightarrow> (gs[i := (as, None)], w1)
                | (Some err, w1) \<Rightarrow> (gs[i := ([], Some err)], w1))
           | ([], e) \<Rightarrow> (gs, w))
        else (gs, w))"

definition go_rest :: "'w check list list \<Rightarrow> nat list" where
  "go_rest progs = concat (map (\<lambda>i. replicate (length (progs ! i)) i) [0..<length progs])"

fun first_error :: "'w goroutine list \<Rightarrow> goerr option" where
  "first_error [] = None"
| "first_error ((_, e) # gs) = (case e of Some err \<Rightarrow> Some err | None \<Rightarrow> first_error gs)"

definition parallel :: "'w check list list \<Rightarrow> nat list \<Rightarrow> 'w check" where
  "parallel progs sched w =
     (case fold go_step (sched @ go_rest progs) (map (\<lambda>p. (p, None)) progs, w) of
        (gs, w1) \<Rightarrow> (first_error gs, w1))"

lemma go_step_keeps:
  assumes "\<forall>(as, e) \<in> set gs. \<forall>a \<in> set as. keeps I a" and "I w" and "go_step i (gs, w) = (gs1, w1)"
  shows "(\<forall>(as, e) \<in> set gs1. \<forall>a \<in> set as. keeps I a) \<and> I w1"
proof (cases "i < length gs \<and> fst (gs ! i) \<noteq> []")
  case True
  then obtain a as e where g: "gs ! i = (a # as, e)" by (cases "gs ! i"; cases "fst (gs ! i)") auto
  have all: "\<forall>x \<in> set (a # as). keeps I x" using assms(1) True g nth_mem [of i gs] by fastforce
  obtain r t where a: "a w = (r, t)" by fastforce
  have "I t" using all a assms(2) by (auto dest: keeps_fwd)
  moreover have "gs1 = gs[i := (case r of None \<Rightarrow> (as, None) | Some err \<Rightarrow> ([], Some err))] \<and> w1 = t"
    using assms(3) True g a by (auto simp: go_step_def split: option.splits)
  moreover have "set (gs[i := x]) \<subseteq> insert x (set gs)" for x by (rule set_update_subset_insert)
  ultimately show ?thesis using assms(1) all by (fastforce split: option.splits)
next
  case False
  then have "gs1 = gs \<and> w1 = w"
    using assms(3) by (auto simp: go_step_def split: if_splits prod.splits list.splits)
  then show ?thesis using assms(1,2) by simp
qed

lemma keeps_parallel [keeping]:
  assumes "\<And>p a. p \<in> set progs \<Longrightarrow> a \<in> set p \<Longrightarrow> keeps I a"
  shows "keeps I (parallel progs sched)"
proof (rule keepsI)
  fix w
  assume w: "I w"
  have run: "I v1" if "(\<forall>(as, e) \<in> set gs. \<forall>a \<in> set as. keeps I a) \<and> I v"
    and "fold go_step ns (gs, v) = (gs1, v1)" for ns gs v gs1 v1
    using that
  proof (induction ns arbitrary: gs v)
    case (Cons i ns)
    obtain gs2 v2 where s: "go_step i (gs, v) = (gs2, v2)" by fastforce
    have "(\<forall>(as, e) \<in> set gs2. \<forall>a \<in> set as. keeps I a) \<and> I v2"
      using go_step_keeps [OF _ _ s] Cons.prems(1) by blast
    then show ?case using Cons.IH [of gs2 v2] Cons.prems(2) s by simp
  qed simp
  obtain gs1 v1 where e: "fold go_step (sched @ go_rest progs) (map (\<lambda>p. (p, None)) progs, w) = (gs1, v1)"
    by fastforce
  have "I v1" by (rule run [OF _ e]) (use assms w in auto)
  then show "I (snd (parallel progs sched w))" by (simp add: parallel_def e del: fold_append)
qed

lemma parallel_ok:
  assumes "\<And>p a v. p \<in> set progs \<Longrightarrow> a \<in> set p \<Longrightarrow> I v \<Longrightarrow> fst (a v) = None \<and> I (snd (a v))" and "I w"
  shows "fst (parallel progs sched w) = None \<and> I (snd (parallel progs sched w))"
proof -
  define ok where "ok = (\<lambda>(gs :: 'a goroutine list, v). (\<forall>(as, e) \<in> set gs. e = None \<and> (\<exists>p \<in> set progs. set as \<subseteq> set p)) \<and> I (v::'a))"
  have step: "ok (go_step i st)" if st: "ok st" for i and st :: "'a goroutine list \<times> 'a"
  proof (cases st)
    case (Pair gs v)
    show ?thesis
    proof (cases "i < length gs \<and> fst (gs ! i) \<noteq> []")
      case True
      then obtain a as e where g: "gs ! i = (a # as, e)" by (cases "gs ! i"; cases "fst (gs ! i)") auto
      obtain p where p: "p \<in> set progs" "set (a # as) \<subseteq> set p" and e: "e = None"
        using st Pair True g nth_mem [of i gs] by (fastforce simp: ok_def)
      obtain r u where a: "a v = (r, u)" by fastforce
      then have r: "r = None" "I u" using assms(1) [OF p(1), of a v] p(2) st Pair by (auto simp: ok_def)
      have s: "go_step i (gs, v) = (gs[i := (as, None)], u)" using True g a r by (simp add: go_step_def)
      have "x = (as, None) \<or> x \<in> set gs" if "x \<in> set (gs[i := (as, None)])" for x
        using that set_update_subset_insert [of gs i "(as, None)"] by blast
      moreover have "case (as, None :: goerr option) of (as, e) \<Rightarrow> e = None \<and> (\<exists>p \<in> set progs. set as \<subseteq> set p)"
        using p by auto
      moreover have "\<forall>x \<in> set gs. case x of (as, e) \<Rightarrow> e = None \<and> (\<exists>p \<in> set progs. set as \<subseteq> set p)"
        using st Pair by (simp add: ok_def)
      ultimately have "\<forall>x \<in> set (gs[i := (as, None)]). case x of (as, e) \<Rightarrow> e = None \<and> (\<exists>p \<in> set progs. set as \<subseteq> set p)"
        by blast
      then show ?thesis using Pair s r(2) by (simp add: ok_def)
    next
      case False
      then have "go_step i (gs, v) = (gs, v)" by (auto simp: go_step_def split: if_splits prod.splits list.splits)
      then show ?thesis using st Pair by simp
    qed
  qed
  have fold: "ok (fold go_step ns st)" if "ok st" for ns st
    using that by (induction ns arbitrary: st) (simp_all add: step)
  obtain gs v where f: "fold go_step (sched @ go_rest progs) (map (\<lambda>p. (p, None)) progs, w) = (gs, v)" by fastforce
  have "ok (map (\<lambda>p. (p, None)) progs, w)" using assms(2) by (auto simp: ok_def)
  from fold [OF this, of "sched @ go_rest progs"] have "ok (gs, v)" using f by simp
  moreover have "first_error gs = None" if "\<forall>(as, e) \<in> set gs. e = None" for gs :: "'a goroutine list"
    using that by (induction gs) auto
  ultimately have "first_error gs = None \<and> I v" by (auto simp: ok_def)
  then show ?thesis by (simp add: parallel_def f del: fold_append)
qed

section \<open>Requests that must be refused\<close>

definition expect4xx :: "'w client \<Rightarrow> string \<Rightarrow> string \<Rightarrow> json res \<Rightarrow> 'w check" where
  "expect4xx c method path body =
     calling (client_Do c method path [] (Some body) None ()) (\<lambda>(status, err, _).
       giving (case err of
         None \<Rightarrow> Some (Errorf ''%s %s accepted an invalid request (HTTP %d)'' [AStr method, AStr path, AInt status])
       | Some e \<Rightarrow>
           (case errors_as (\<lambda>x. case x of StatusError _ _ _ \<Rightarrow> True | _ \<Rightarrow> False) e of
              Some (StatusError st _ _) \<Rightarrow>
                if st < 400 \<or> 499 < st
                then Some (Errorf ''%s %s answered an invalid request with HTTP %d, want 4xx'' [AStr method, AStr path, AInt st])
                else None
            | _ \<Rightarrow> Some (Errorf ''%s %s: %w'' [AStr method, AStr path, AWrap e]))))"

definition statusOf :: "goerr \<Rightarrow> int" where
  "statusOf e =
     (case errors_as (\<lambda>x. case x of StatusError _ _ _ \<Rightarrow> True | _ \<Rightarrow> False) e of
        Some (StatusError st _ _) \<Rightarrow> st | _ \<Rightarrow> 0)"

lemma keeps_expect4xx [keeping]: "(\<And>req. keeps I (cl_HTTP c req)) \<Longrightarrow> keeps I (expect4xx c m p b)"
  unfolding expect4xx_def by (auto intro!: keeping)

section \<open>The runner\<close>

text \<open>What a suite runs against; the type of the plugin says which suite.\<close>

record 'w target =
  tg_Client :: "'w client"
  tg_Model :: string
  tg_VectorDim :: int
  tg_AllowUnnormalized :: bool
  tg_RequireEmpty :: bool

lemma run_check_snd:
  "fst (run_check ctx name fn st) = (case ctx (fst st) of Some e \<Rightarrow> fst st | None \<Rightarrow> snd (fn (fst st)))"
  by (auto simp: run_check_def Let_def split: option.splits prod.splits)

lemma run_check_keeps: "keeps I fn \<Longrightarrow> I (fst st) \<Longrightarrow> I (fst (run_check ctx name fn st))"
  by (auto simp: run_check_snd keeps_def split: option.splits)

lemma run_check_report: "\<exists>s. snd (run_check ctx name fn st) = snd st @ [(name, s)]"
  by (auto simp: run_check_def Let_def split: option.splits prod.splits)

text \<open>What is reported stays reported.\<close>

lemma run_check_reported: "x \<in> set (snd st) \<Longrightarrow> x \<in> set (snd (run_check ctx name fn st))"
  using run_check_report [of ctx name fn st] by auto

lemma run_check_fail:
  assumes "ctx (fst st) = None" and "fst (fn (fst st)) = Some e"
    and "errors_as is_skip e = None"
  shows "(name, Fail e) \<in> set (snd (run_check ctx name fn st))"
  using assms by (cases "fn (fst st)") (simp add: run_check_def is_skip_def [abs_def])

section \<open>Answers that arrive\<close>

lemma client_get_answered:
  assumes "net_client serve c" and "nt_script w = []"
    and "serve (client_req c m p q (Some b)) (nt_srv w) = (reply_json bytes 200 j, s)"
    and "bytes j \<le> (if cl_MaxResponse c \<le> 0 then DefaultMaxResponse else cl_MaxResponse c)" and "d j = Inr x"
  shows "client_get c m p q (Some (Inr b)) d z w = (Inr x, w\<lparr>nt_srv := s\<rparr>)"
  using client_Do_delivered [OF assms(1,2), of m p q "Some b" "reply_json bytes 200 j" s "Some d" z] assms(3-5)
  by (simp add: client_get_def client_response_def Let_def) (auto simp: reply_json_def split: if_splits)

lemma client_call_answered:
  assumes "net_client serve c" and "nt_script w = []"
    and "serve (client_req c m p [] None) (nt_srv w) = (reply_json bytes 200 j, s)"
    and "bytes j \<le> (if cl_MaxResponse c \<le> 0 then DefaultMaxResponse else cl_MaxResponse c)"
  shows "client_call c m p None w = (None, w\<lparr>nt_srv := s\<rparr>)"
  using client_Do_delivered [OF assms(1,2), of m p "[]" None "reply_json bytes 200 j" s None "()"] assms(3,4)
  by (simp add: client_call_def client_response_def Let_def) (auto simp: reply_json_def split: if_splits)

lemma parseStatusError_json: "\<exists>k m. parseStatusError scrub st b = StatusError st k m"
  by (auto simp: parseStatusError_def split: http_body.split option.split sum.split)

lemma expect4xx_refused:
  assumes "net_client serve c" and "nt_script w = []"
    and "serve (client_req c m p [] (Some b)) (nt_srv w) = (reply_error bytes 400 k msg, s)"
    and "bytes (JObj [(''error'', JObj [(''code'', JStr k), (''message'', JStr msg)])]) \<le>
      (if cl_MaxResponse c \<le> 0 then DefaultMaxResponse else cl_MaxResponse c)"
  shows "expect4xx c m p (Inr b) w = (None, w\<lparr>nt_srv := s\<rparr>)"
proof -
  let ?j = "JObj [(''error'', JObj [(''code'', JStr k), (''message'', JStr msg)])]"
  obtain k' m' where st: "parseStatusError (cl_scrub c) 400 (Body_Doc ?j) = StatusError 400 k' m'"
    using parseStatusError_json by blast
  have "client_Do c m p [] (Some (Inr b)) None () w = ((400, Some (StatusError 400 k' m'), ()), w\<lparr>nt_srv := s\<rparr>)"
    using client_Do_delivered [OF assms(1,2), of m p "[]" "Some b" "reply_error bytes 400 k msg" s None "()"] assms(3,4) st
    by (simp add: client_response_def Let_def reply_error_def reply_json_def split: if_splits)
  then show ?thesis by (simp add: expect4xx_def calling_def giving_def)
qed

lemma run_check_ok: "ctx (fst st) = None \<Longrightarrow> fst (fn (fst st)) = None \<Longrightarrow>
   run_check ctx name fn st = (snd (fn (fst st)), snd st @ [(name, Pass)])"
  by (cases "fn (fst st)") (simp add: run_check_pass)

end
