(* ===== verification/Http_Adapters.thy ===== *)
theory Http_Adapters
  imports Protocol_Vector Plugin_Factory
begin

text \<open>
  The built-in HTTP adapters: the vector store (\<open>internal/vectorstore/client.go\<close>) and the embedder
  (\<open>internal/embedder/client.go\<close>). Unlike the plugin adapters they believe what the service answers;
  they only look at the status and decode the body.
\<close>

section \<open>One exchange\<close>

definition ErrEOF :: goerr where "ErrEOF = Sentinel ''io.EOF''"

text \<open>\<open>Decoder.Decode\<close>: the first document of the body; what follows it is not read.\<close>

fun decode_first :: "(json \<Rightarrow> 'a res) \<Rightarrow> http_body \<Rightarrow> 'a res" where
  "decode_first d Body_None = Inl ErrEOF"
| "decode_first d (Body_Doc j) = d j"
| "decode_first d (Body_Trailing j) = d j"
| "decode_first d Body_Garbage = Inl ErrJsonSyntax"
| "decode_first d (Body_Broken e) = Inl e"

text \<open>Behind a limit of 64 KiB a longer document is cut off.\<close>

definition decode_limited :: "(json \<Rightarrow> 'a res) \<Rightarrow> http_resp \<Rightarrow> 'a res" where
  "decode_limited d resp =
     (case hs_body resp of
        Body_Doc j \<Rightarrow> if 2 ^ 16 < hs_size resp then Inl ErrJsonSyntax else d j
      | b \<Rightarrow> decode_first d b)"

definition plain_req :: "string \<Rightarrow> string \<Rightarrow> json option \<Rightarrow> http_req" where
  "plain_req method path body =
     \<lparr>hq_method = method, hq_path = path, hq_query = [], hq_auth = '''', hq_body = body\<rparr>"

text \<open>A request that must be answered with 200: the response, or the service's error.\<close>

definition exchange :: "string \<Rightarrow> 'w transport \<Rightarrow> string \<Rightarrow> string \<Rightarrow> json option \<Rightarrow> 'w \<Rightarrow> http_resp res \<times> 'w" where
  "exchange service http method path body w =
     (case http (plain_req method path body) w of
        (Inl err, w1) \<Rightarrow> (Inl (Errorf (service @ '' unreachable: %w'') [AWrap err]), w1)
      | (Inr resp, w1) \<Rightarrow>
          (if hs_status resp \<noteq> 200 then Inl (Errorf (service @ '' returned %d'') [AInt (hs_status resp)])
           else Inr resp, w1))"

text \<open>What \<open>json.Marshal\<close> leaves when its error is dropped: an empty body.\<close>

definition body_or_empty :: "json res \<Rightarrow> json option" where
  "body_or_empty r = (case r of Inl _ \<Rightarrow> None | Inr j \<Rightarrow> Some j)"

section \<open>The vector store\<close>

definition vs_service :: string where "vs_service = ''vector store''"

definition hvs_post :: "'w transport \<Rightarrow> string \<Rightarrow> json option \<Rightarrow> (json \<Rightarrow> 'a res) \<Rightarrow> 'w \<Rightarrow> 'a res \<times> 'w" where
  "hvs_post http path body d w =
     (case exchange vs_service http ''POST'' path body w of
        (r, w1) \<Rightarrow> (res_bind r (\<lambda>resp. decode_first d (hs_body resp)), w1))"

definition hvs_Search :: "'w transport \<Rightarrow> f64 list \<Rightarrow> int \<Rightarrow> f64 \<Rightarrow> 'w \<Rightarrow> Match list res \<times> 'w" where
  "hvs_Search http vec topK threshold w =
     (if topK < 1 then (Inl (Errorf ''topK must be at least 1'' []), w)
      else (case search_request vec topK threshold of
          Inl err \<Rightarrow> (Inl err, w)
        | Inr body \<Rightarrow>
            (case hvs_post http ''/search'' (Some body) decode_matches w of
               (Inl err, w1) \<Rightarrow> (Inl err, w1)
             | (Inr None, w1) \<Rightarrow>
                 (Inl (Errorf ''vector store response missing matches array; upgrade the vector-store service'' []), w1)
             | (Inr (Some ms), w1) \<Rightarrow> (Inr ms, w1))))"

definition hvs_Upsert :: "'w transport \<Rightarrow> f64 list \<Rightarrow> 'w \<Rightarrow> string res \<times> 'w" where
  "hvs_Upsert http vec w = hvs_post http ''/upsert'' (body_or_empty (upsert_request vec)) decode_id w"

definition status_only :: "http_resp res \<times> 'w \<Rightarrow> goerr option \<times> 'w" where
  "status_only x = (case x of (Inl e, w) \<Rightarrow> (Some e, w) | (Inr _, w) \<Rightarrow> (None, w))"

definition hvs_Delete :: "'w transport \<Rightarrow> string \<Rightarrow> 'w \<Rightarrow> goerr option \<times> 'w" where
  "hvs_Delete http k w = status_only (exchange vs_service http ''DELETE'' (''/entries/'' @ k) None w)"

definition hvs_Size :: "'w transport \<Rightarrow> 'w \<Rightarrow> int res \<times> 'w" where
  "hvs_Size http w =
     (case exchange vs_service http ''GET'' ''/size'' None w of
        (r, w1) \<Rightarrow>
          (res_bind r (\<lambda>resp. decode_first (\<lambda>j. json_struct [(''size'', json_int)] j 0) (hs_body resp)), w1))"

definition hvs_Flush :: "'w transport \<Rightarrow> 'w \<Rightarrow> goerr option \<times> 'w" where
  "hvs_Flush http w =
     (case hvs_post http ''/flush'' (Some (JObj [])) (\<lambda>j. json_struct [] j ()) w of
        (Inl e, w1) \<Rightarrow> (Some e, w1) | (Inr _, w1) \<Rightarrow> (None, w1))"

definition hvs_Health :: "'w transport \<Rightarrow> 'w \<Rightarrow> goerr option \<times> 'w" where
  "hvs_Health http w = status_only (exchange vs_service http ''GET'' ''/health'' None w)"

definition hvs_getInfo :: "'w transport \<Rightarrow> string \<Rightarrow> 'w \<Rightarrow> vs_info res \<times> 'w" where
  "hvs_getInfo http path w =
     (case exchange vs_service http ''GET'' path None w of
        (r, w1) \<Rightarrow> (res_bind r (decode_limited decode_info), w1))"

definition hvs_Info :: "'w transport \<Rightarrow> 'w \<Rightarrow> vs_info res \<times> 'w" where
  "hvs_Info http w =
     (case hvs_getInfo http ''/v1/info'' w of
        (Inr i, w1) \<Rightarrow> if 0 < vi_Dim i then (Inr i, w1) else hvs_getInfo http ''/health'' w1
      | (Inl _, w1) \<Rightarrow> hvs_getInfo http ''/health'' w1)"

definition hvs_Rebuild :: "'w transport \<Rightarrow> RebuildEntry list \<Rightarrow> 'w \<Rightarrow> int res \<times> 'w" where
  "hvs_Rebuild http es w =
     hvs_post http ''/rebuild'' (body_or_empty (rebuild_request es))
       (\<lambda>j. json_struct [(''restored'', json_int)] j 0) w"

definition http_vector :: "'w transport \<Rightarrow> 'w vector_ops" where
  "http_vector http = \<lparr>vs_Search = hvs_Search http, vs_Upsert = hvs_Upsert http, vs_Delete = hvs_Delete http,
     vs_Size = hvs_Size http, vs_Flush = hvs_Flush http, vs_Rebuild = hvs_Rebuild http,
     vs_Health = hvs_Health http\<rparr>"

definition vector_registry :: "(string \<Rightarrow> 'v) \<Rightarrow> 'v registry" where
  "vector_registry newHTTP =
     register_all [(''http'', \<lambda>cfg. Inr (newHTTP (cfg_VectorStoreURL cfg)))] (NewRegistry ''vector store backend'')"

definition vector_New :: "'v registry \<Rightarrow> config \<Rightarrow> 'v res" where
  "vector_New reg cfg = Build reg (if cfg_VectorStoreBackend cfg = [] then ''http'' else cfg_VectorStoreBackend cfg) cfg"

section \<open>The embedder\<close>

definition emb_service :: string where "emb_service = ''embedding service''"

record embedResponse =
  er_Vector :: "f64 list"
  er_Dim :: int

definition decode_embed :: "json \<Rightarrow> embedResponse res" where
  "decode_embed j = json_struct
     [(''vector'', \<lambda>j r. res_bind (json_floats j (er_Vector r)) (\<lambda>x. Inr (r\<lparr>er_Vector := x\<rparr>))),
      (''dim'', \<lambda>j r. res_bind (json_int j (er_Dim r)) (\<lambda>x. Inr (r\<lparr>er_Dim := x\<rparr>)))]
     j \<lparr>er_Vector = [], er_Dim = 0\<rparr>"

definition hem_Embed :: "'w transport \<Rightarrow> string \<Rightarrow> 'w \<Rightarrow> f64 list res \<times> 'w" where
  "hem_Embed http text w =
     (case exchange emb_service http ''POST'' ''/embed'' (Some (JObj [(''text'', JStr text)])) w of
        (r, w1) \<Rightarrow>
          (res_bind r (\<lambda>resp. res_bind (decode_first decode_embed (hs_body resp)) (\<lambda>x. Inr (er_Vector x))), w1))"

record ModelInfo =
  mi_Name :: string
  mi_Dim :: int

definition decode_model_info :: "json \<Rightarrow> ModelInfo res" where
  "decode_model_info j = json_struct
     [(''name'', \<lambda>j r. res_bind (json_string j (mi_Name r)) (\<lambda>x. Inr (r\<lparr>mi_Name := x\<rparr>))),
      (''dim'', \<lambda>j r. res_bind (json_int j (mi_Dim r)) (\<lambda>x. Inr (r\<lparr>mi_Dim := x\<rparr>)))]
     j \<lparr>mi_Name = '''', mi_Dim = 0\<rparr>"

definition hem_ModelInfo :: "'w transport \<Rightarrow> 'w \<Rightarrow> ModelInfo res \<times> 'w" where
  "hem_ModelInfo http w =
     (case exchange emb_service http ''GET'' ''/model-info'' None w of
        (r, w1) \<Rightarrow> (res_bind r (decode_limited decode_model_info), w1))"

definition hem_Health :: "'w transport \<Rightarrow> 'w \<Rightarrow> goerr option \<times> 'w" where
  "hem_Health http w = status_only (exchange emb_service http ''GET'' ''/health'' None w)"

definition http_embedder :: "'w transport \<Rightarrow> 'w embed_ops" where
  "http_embedder http = \<lparr>em_Embed = hem_Embed http, em_Health = hem_Health http\<rparr>"

definition embedder_registry :: "(string \<Rightarrow> 'v) \<Rightarrow> 'v registry" where
  "embedder_registry newHTTP =
     register_all [(''http'', \<lambda>cfg. Inr (newHTTP (cfg_EmbeddingURL cfg)))] (NewRegistry ''embedder backend'')"

definition embedder_New :: "'v registry \<Rightarrow> config \<Rightarrow> 'v res" where
  "embedder_New reg cfg = Build reg (if cfg_EmbeddingBackend cfg = [] then ''http'' else cfg_EmbeddingBackend cfg) cfg"

section \<open>What the two vector-store adapters share\<close>

text \<open>
  A service answered for the plugin protocol: the same requests under \<open>/v1\<close>, with the client's credential
  added by the transport.
\<close>

definition plugin_transport :: "'w client \<Rightarrow> 'w transport" where
  "plugin_transport c req = cl_HTTP c
     (req\<lparr>hq_path := ''/v1'' @ hq_path req, hq_auth := (if cl_Token c = [] then [] else ''Bearer '' @ cl_Token c)\<rparr>)"



end
