(* ===== verification/Llm_Usage.thy ===== *)
theory Llm_Usage
  imports Go_Json
begin

text \<open>
  The daily tally of Gemini calls (\<open>internal/llm/usage.go\<close>). The clock enters as the current quota day
  (\<open>day\<close>, the Pacific date) and the nanoseconds until the next one (\<open>resetIn\<close>); the log lines are left
  out except for the text of what is left. A \<open>nil\<close> tracker is \<open>None\<close>.
\<close>

record geminiUsage =
  gu_Prompt :: int
  gu_Candidates :: int
  gu_Thoughts :: int
  gu_Total :: int

definition zero_usage :: geminiUsage where
  "zero_usage = \<lparr>gu_Prompt = 0, gu_Candidates = 0, gu_Thoughts = 0, gu_Total = 0\<rparr>"

record usageTracker =
  ut_day :: string
  ut_requests :: int
  ut_tokens :: int
  ut_exhausted :: bool
  ut_requestLimit :: int
  ut_tokenBudget :: int

definition newUsageTracker :: "int \<Rightarrow> int \<Rightarrow> usageTracker" where
  "newUsageTracker requestLimit tokenBudget =
     \<lparr>ut_day = '''', ut_requests = 0, ut_tokens = 0, ut_exhausted = False,
      ut_requestLimit = requestLimit, ut_tokenBudget = tokenBudget\<rparr>"

definition rollover :: "string \<Rightarrow> usageTracker \<Rightarrow> usageTracker" where
  "rollover day t =
     (if day \<noteq> ut_day t then t\<lparr>ut_day := day, ut_requests := 0, ut_tokens := 0, ut_exhausted := False\<rparr> else t)"

definition usage_total :: "geminiUsage \<Rightarrow> int" where
  "usage_total u =
     (if gu_Total u = 0 then gu_Prompt u + gu_Candidates u + gu_Thoughts u else gu_Total u)"

definition recordSuccess :: "string \<Rightarrow> geminiUsage \<Rightarrow> usageTracker option \<Rightarrow> usageTracker option" where
  "recordSuccess day u tr =
     (case tr of
        None \<Rightarrow> None
      | Some t0 \<Rightarrow>
          (let t = rollover day t0
           in Some (t\<lparr>ut_requests := ut_requests t + 1, ut_tokens := ut_tokens t + usage_total u\<rparr>)))"

text \<open>The first match of \<open>limit: (\d+)\<close>: its digits.\<close>

fun quota_limit :: "string \<Rightarrow> string option" where
  "quota_limit [] = None"
| "quota_limit (c # s) =
     (let rest = drop (length ''limit: '') (c # s); ds = takeWhile is_digit rest
      in if has_prefix (c # s) ''limit: '' \<and> ds \<noteq> [] then Some ds else quota_limit s)"

definition recordQuotaExhausted :: "string \<Rightarrow> string \<Rightarrow> usageTracker option \<Rightarrow> usageTracker option" where
  "recordQuotaExhausted day body tr =
     (case tr of
        None \<Rightarrow> None
      | Some t0 \<Rightarrow>
          (let t = (rollover day t0)\<lparr>ut_exhausted := True\<rparr>
           in Some (case quota_limit body of
                Some ds \<Rightarrow>
                  if ut_requestLimit t = 0
                  then (case atoi ds of Inr n \<Rightarrow> t\<lparr>ut_requestLimit := n\<rparr> | Inl _ \<Rightarrow> t) else t
              | None \<Rightarrow> t)))"

definition leftLocked :: "usageTracker \<Rightarrow> string" where
  "leftLocked t =
     (let limit = ut_requestLimit t; budget = ut_tokenBudget t;
          rleft = max (limit - ut_requests t) 0; tleft = max (budget - ut_tokens t) 0;
          reqs = (if ut_exhausted t
                  then (if 0 < limit then ''requests_left=0/'' @ itoa limit else ''requests_left=0'')
                  else if 0 < limit then ''requests_left='' @ itoa rleft @ ''/'' @ itoa limit
                  else ''requests_left=unknown(set GEMINI_DAILY_REQUEST_LIMIT)'');
          toks = (if 0 < budget then ''tokens_left='' @ itoa tleft @ ''/'' @ itoa budget
                  else ''tokens_left=unlimited'');
          low = (ut_exhausted t \<or> (\<not> ut_exhausted t \<and> 0 < limit \<and> rleft * 5 \<le> limit) \<or>
                 (0 < budget \<and> tleft * 5 \<le> budget));
          s = reqs @ '' '' @ toks
      in if low then trim_space s @ '' LOW'' else s)"

record UsageSnapshot =
  us_Model :: string
  us_Requests :: int
  us_Tokens :: int
  us_RequestLimit :: int
  us_RequestsLeft :: "int option"
  us_TokenBudget :: int
  us_TokensLeft :: "int option"
  us_Exhausted :: bool
  us_ResetsInSeconds :: int

definition usage_snapshot :: "string \<Rightarrow> int \<Rightarrow> string \<Rightarrow> usageTracker \<Rightarrow> UsageSnapshot \<times> usageTracker" where
  "usage_snapshot day resetIn model t0 =
     (let t = rollover day t0
      in (\<lparr>us_Model = model, us_Requests = ut_requests t, us_Tokens = ut_tokens t,
           us_RequestLimit = ut_requestLimit t,
           us_RequestsLeft = (if 0 < ut_requestLimit t
             then Some (if ut_exhausted t then 0 else max (ut_requestLimit t - ut_requests t) 0) else None),
           us_TokenBudget = ut_tokenBudget t,
           us_TokensLeft = (if 0 < ut_tokenBudget t then Some (max (ut_tokenBudget t - ut_tokens t) 0) else None),
           us_Exhausted = ut_exhausted t, us_ResetsInSeconds = resetIn div 10 ^ 9\<rparr>, t))"

section \<open>Histories\<close>

text \<open>What happened to a tracker, oldest first, each event with the day of its clock.\<close>

datatype usage_event = Answered geminiUsage | QuotaError string | Looked

fun usage_step :: "string \<times> usage_event \<Rightarrow> usageTracker \<Rightarrow> usageTracker" where
  "usage_step (day, Answered u) t = the (recordSuccess day u (Some t))"
| "usage_step (day, QuotaError body) t = the (recordQuotaExhausted day body (Some t))"
| "usage_step (day, Looked) t = snd (usage_snapshot day 0 '''' t)"

definition usage_run :: "(string \<times> usage_event) list \<Rightarrow> usageTracker \<Rightarrow> usageTracker" where
  "usage_run es t = fold usage_step es t"

text \<open>The answers of a day.\<close>

definition answers_on :: "string \<Rightarrow> (string \<times> usage_event) list \<Rightarrow> geminiUsage list" where
  "answers_on day es = concat (map (\<lambda>(d, e). case e of Answered u \<Rightarrow> if d = day then [u] else [] | _ \<Rightarrow> []) es)"

lemma answers_on_simps [simp]:
  "answers_on day [] = []"
  "answers_on day ((d, e) # es) = (case e of Answered u \<Rightarrow> if d = day then [u] else [] | _ \<Rightarrow> []) @ answers_on day es"
  "answers_on day (es @ fs) = answers_on day es @ answers_on day fs"
  by (simp_all add: answers_on_def)

lemma usage_step_day [simp]: "ut_day (usage_step (day, e) t) = day"
  by (cases e) (simp_all add: recordSuccess_def recordQuotaExhausted_def usage_snapshot_def rollover_def
      Let_def split: option.split sum.split)

lemma rollover_counts:
  "ut_requests (rollover day t) = (if day = ut_day t then ut_requests t else 0)"
  "ut_tokens (rollover day t) = (if day = ut_day t then ut_tokens t else 0)"
  "ut_exhausted (rollover day t) = (day = ut_day t \<and> ut_exhausted t)"
  "ut_requestLimit (rollover day t) = ut_requestLimit t" "ut_tokenBudget (rollover day t) = ut_tokenBudget t"
  "ut_day (rollover day t) = day"
  by (auto simp: rollover_def)

lemma usage_step_counts:
  "ut_requests (usage_step (day, e) t) =
     ut_requests (rollover day t) + int (length (answers_on day [(day, e)]))"
  "ut_tokens (usage_step (day, e) t) =
     ut_tokens (rollover day t) + sum_list (map usage_total (answers_on day [(day, e)]))"
  by (cases e; simp add: recordSuccess_def recordQuotaExhausted_def usage_snapshot_def Let_def
      split: option.split sum.split)+

text \<open>While time goes forward the counters are those of the current day.\<close>

lemma usage_run_counts:
  assumes "sorted (ut_day t # map fst es)"
    and "\<And>d. ut_day t < d \<Longrightarrow> answers_on d pre = []"
    and "ut_requests t = int (length (answers_on (ut_day t) pre))"
    and "ut_tokens t = sum_list (map usage_total (answers_on (ut_day t) pre))"
  shows "ut_requests (usage_run es t) = int (length (answers_on (ut_day (usage_run es t)) (pre @ es)))"
    and "ut_tokens (usage_run es t) = sum_list (map usage_total (answers_on (ut_day (usage_run es t)) (pre @ es)))"
    and "ut_day (usage_run es t) = last (ut_day t # map fst es)"
proof -
  have "ut_requests (usage_run es t) = int (length (answers_on (ut_day (usage_run es t)) (pre @ es))) \<and>
    ut_tokens (usage_run es t) = sum_list (map usage_total (answers_on (ut_day (usage_run es t)) (pre @ es))) \<and>
    ut_day (usage_run es t) = last (ut_day t # map fst es)"
    using assms
  proof (induction es arbitrary: t pre)
    case Nil
    then show ?case by (simp add: usage_run_def)
  next
    case (Cons x es)
    obtain d e where x: "x = (d, e)" by fastforce
    have le: "ut_day t \<le> d" using Cons.prems(1) x by simp
    have none: "answers_on d pre = []" if "d \<noteq> ut_day t"
      using Cons.prems(2) [of d] le that by simp
    have "ut_requests (usage_step x t) = int (length (answers_on d (pre @ [x])))"
      using Cons.prems(3) none unfolding x usage_step_counts rollover_counts
      by (cases "d = ut_day t") simp_all
    moreover have "ut_tokens (usage_step x t) = sum_list (map usage_total (answers_on d (pre @ [x])))"
      using Cons.prems(4) none unfolding x usage_step_counts rollover_counts
      by (cases "d = ut_day t") simp_all
    moreover have "answers_on d' (pre @ [x]) = []" if "d < d'" for d'
      using Cons.prems(2) [of d'] le that by (auto simp: x split: usage_event.split)
    moreover have "sorted (d # map fst es)" using Cons.prems(1) x by simp
    ultimately have ih: "ut_requests (usage_run es (usage_step x t)) =
        int (length (answers_on (ut_day (usage_run es (usage_step x t))) ((pre @ [x]) @ es))) \<and>
      ut_tokens (usage_run es (usage_step x t)) =
        sum_list (map usage_total (answers_on (ut_day (usage_run es (usage_step x t))) ((pre @ [x]) @ es))) \<and>
      ut_day (usage_run es (usage_step x t)) = last (d # map fst es)"
      using Cons.IH [of "usage_step x t" "pre @ [x]"] by (simp only: x usage_step_day)
    have run: "usage_run (x # es) t = usage_run es (usage_step x t)" by (simp add: usage_run_def)
    have "pre @ x # es = (pre @ [x]) @ es" by simp
    moreover have "last (ut_day t # map fst (x # es)) = last (d # map fst es)" by (simp add: x)
    ultimately show ?case using ih by (simp only: run)
  qed
  then show "ut_requests (usage_run es t) = int (length (answers_on (ut_day (usage_run es t)) (pre @ es)))"
    and "ut_tokens (usage_run es t) = sum_list (map usage_total (answers_on (ut_day (usage_run es t)) (pre @ es)))"
    and "ut_day (usage_run es t) = last (ut_day t # map fst es)" by blast+
qed

text \<open>As long as the clock does not go back, what \<open>/stats\<close> reports for a day is the number of answers of
  that day and the sum of their tokens, whatever happened on earlier days; and what is left never
  goes below zero.\<close>

theorem usage_reports_today:
  assumes "sorted (map fst es @ [day])" and "usage_snapshot day resetIn model (usage_run es (newUsageTracker limit budget)) = (s, t)"
  shows "us_Requests s = int (length (answers_on day es)) \<and>
    us_Tokens s = sum_list (map usage_total (answers_on day es)) \<and>
    (case us_RequestsLeft s of None \<Rightarrow> True | Some n \<Rightarrow> 0 \<le> n) \<and>
    (case us_TokensLeft s of None \<Rightarrow> True | Some n \<Rightarrow> 0 \<le> n)"
proof -
  let ?t0 = "newUsageTracker limit budget"
  have nil: "[] \<le> (xs :: string)" for xs by (cases xs) simp_all
  have srt: "sorted (ut_day ?t0 # map fst (es @ [(day, Looked)]))"
    using assms(1) nil by (simp add: newUsageTracker_def)
  have t: "t = usage_run (es @ [(day, Looked)]) ?t0"
    using assms(2) by (simp add: usage_run_def usage_snapshot_def Let_def)
  have s: "us_Requests s = ut_requests t" "us_Tokens s = ut_tokens t"
    using assms(2) by (auto simp: usage_snapshot_def Let_def)
  have "ut_requests t = int (length (answers_on day es)) \<and>
      ut_tokens t = sum_list (map usage_total (answers_on day es))"
    using usage_run_counts [OF srt, of "[]"] by (simp add: t newUsageTracker_def)
  then show ?thesis using s assms(2) by (auto simp: usage_snapshot_def Let_def)
qed

lemma usage_reports_today_witness:
  "\<exists>s t. usage_snapshot ''2026-01-02'' 5 ''m'' (usage_run
      [(''2026-01-01'', Answered (zero_usage\<lparr>gu_Total := 9\<rparr>)), (''2026-01-02'', QuotaError ''limit: 20''),
       (''2026-01-02'', Answered (zero_usage\<lparr>gu_Prompt := 4\<rparr>))] (newUsageTracker 0 100)) = (s, t) \<and>
     us_Requests s = 1 \<and> us_Tokens s = 4"
proof -
  let ?es = "[(''2026-01-01'', Answered (zero_usage\<lparr>gu_Total := 9\<rparr>)), (''2026-01-02'', QuotaError ''limit: 20''),
       (''2026-01-02'', Answered (zero_usage\<lparr>gu_Prompt := 4\<rparr>))]"
  have "sorted (map fst ?es @ [''2026-01-02''])" by code_simp
  moreover have "answers_on ''2026-01-02'' ?es = [zero_usage\<lparr>gu_Prompt := 4\<rparr>]" by simp
  moreover have "usage_total (zero_usage\<lparr>gu_Prompt := 4\<rparr>) = 4" by code_simp
  moreover obtain s t where "usage_snapshot ''2026-01-02'' 5 ''m'' (usage_run ?es (newUsageTracker 0 100)) = (s, t)"
    by fastforce
  ultimately show ?thesis using usage_reports_today [of ?es "''2026-01-02''" 5 "''m''" 0 100 s t] by simp
qed

end
