(* ===== verification/Protocol_Models.thy ===== *)
theory Protocol_Models
  imports Contract_Runner Http_Adapters Llm_Usage Sdk_Net
begin

text \<open>
  The remote embedder and the remote LLM backend (\<open>internal/plugins/protocol/embedder.go\<close>, \<open>llm.go\<close>) over the
  platform's client, and what they accept.
\<close>

section \<open>The remote embedder\<close>

definition MaxEmbeddingDim :: int where "MaxEmbeddingDim = 8192"

definition NewEmbedder :: "'w client \<Rightarrow> 'w client" where
  "NewEmbedder c =
     (if cl_MaxResponse c = 0 \<or> 4 * 2 ^ 20 < cl_MaxResponse c then c\<lparr>cl_MaxResponse := 4 * 2 ^ 20\<rparr> else c)"

record embed_answer =
  ea_Vector :: "f64 list"
  ea_Dim :: int
  ea_Model :: string

definition no_embedding :: embed_answer where
  "no_embedding = \<lparr>ea_Vector = [], ea_Dim = 0, ea_Model = []\<rparr>"

definition decode_embedding :: "json \<Rightarrow> embed_answer res" where
  "decode_embedding j = json_struct
     [(''vector'', \<lambda>j r. res_bind (json_floats j (ea_Vector r)) (\<lambda>x. Inr (r\<lparr>ea_Vector := x\<rparr>))),
      (''dim'', \<lambda>j r. res_bind (json_int j (ea_Dim r)) (\<lambda>x. Inr (r\<lparr>ea_Dim := x\<rparr>))),
      (''model'', \<lambda>j r. res_bind (json_string j (ea_Model r)) (\<lambda>x. Inr (r\<lparr>ea_Model := x\<rparr>)))] j no_embedding"

definition ValidateVector :: "f64 list \<Rightarrow> int \<Rightarrow> goerr option" where
  "ValidateVector v d =
     (if v = [] then Some (Errorf ''empty vector'' [])
      else if MaxEmbeddingDim < int (length v)
      then Some (Errorf ''vector has %d components, above the limit of %d'' [AInt (int (length v)), AInt MaxEmbeddingDim])
      else if d \<noteq> int (length v)
      then Some (Errorf ''reported dim %d does not match vector length %d'' [AInt d, AInt (int (length v))])
      else if \<not> list_all f64_finite v then Some (Errorf ''vector contains a non-finite value'' [])
      else None)"

definition pem_EmbedDetailed :: "'w client \<Rightarrow> string \<Rightarrow> 'w \<Rightarrow> (f64 list \<times> string) res \<times> 'w" where
  "pem_EmbedDetailed c text w =
     (case client_get c ''POST'' ''/v1/embed'' [] (Some (Inr (JObj [(''text'', JStr text)]))) decode_embedding no_embedding w of
        (Inl e, w1) \<Rightarrow> (Inl (Errorf ''embedder plugin: %w'' [AWrap e]), w1)
      | (Inr out, w1) \<Rightarrow>
          (case ValidateVector (ea_Vector out) (ea_Dim out) of
             Some e \<Rightarrow> Inl (Errorf ''embedder plugin: %w'' [AWrap e])
           | None \<Rightarrow> Inr (ea_Vector out, ea_Model out), w1))"

definition pem_Embed :: "'w client \<Rightarrow> string \<Rightarrow> 'w \<Rightarrow> f64 list res \<times> 'w" where
  "pem_Embed c text w = (case pem_EmbedDetailed c text w of (r, w1) \<Rightarrow> (res_bind r (\<lambda>(v, _). Inr v), w1))"

definition pem_ModelInfo :: "'w client \<Rightarrow> 'w \<Rightarrow> ModelInfo res \<times> 'w" where
  "pem_ModelInfo c w =
     (case client_get c ''GET'' ''/v1/model-info'' [] None decode_model_info \<lparr>mi_Name = '''', mi_Dim = 0\<rparr> w of
        (Inl e, w1) \<Rightarrow> (Inl (Errorf ''embedder plugin: %w'' [AWrap e]), w1)
      | (Inr out, w1) \<Rightarrow>
          (if mi_Name out = [] \<or> mi_Dim out < 1 \<or> MaxEmbeddingDim < mi_Dim out
           then Inl (Errorf ''embedder plugin: %w'' [AWrap ErrMalformed]) else Inr out, w1))"

definition protocol_embedder :: "'w client \<Rightarrow> 'w embed_ops" where
  "protocol_embedder c = \<lparr>em_Embed = pem_Embed c, em_Health = client_Health c\<rparr>"

section \<open>The remote LLM\<close>

record 'w remote_llm =
  rl_c :: "'w client"
  rl_model :: string

definition NewLLM :: "'w client \<Rightarrow> string \<Rightarrow> 'w remote_llm" where
  "NewLLM c model = \<lparr>rl_c = (if cl_MaxResponse c = 0 \<or> MaxReplyBytes + 4096 < cl_MaxResponse c
     then c\<lparr>cl_MaxResponse := MaxReplyBytes + 4096\<rparr> else c), rl_model = model\<rparr>"

definition complete_request :: "string \<Rightarrow> string \<Rightarrow> json" where
  "complete_request model prompt = JObj [(''model'', JStr model), (''prompt'', JStr prompt)]"

definition decode_reply :: "json \<Rightarrow> string res" where
  "decode_reply j = json_struct [(''reply'', json_string)] j ''''"

definition plm_Complete :: "'w remote_llm \<Rightarrow> string \<Rightarrow> 'w \<Rightarrow> string res \<times> 'w" where
  "plm_Complete l prompt w =
     (case cl_ctx (rl_c l) w of
        Some e \<Rightarrow> (Inl e, w)
      | None \<Rightarrow>
          (case client_get (rl_c l) ''POST'' ''/v1/complete'' [] (Some (Inr (complete_request (rl_model l) prompt))) decode_reply '''' w of
             (Inl e, w1) \<Rightarrow>
               (Inl (if errors_is e ErrTooLarge then Errorf ''llm plugin response exceeds 1 MiB'' []
                     else Errorf ''llm plugin: %w'' [AWrap e]), w1)
           | (Inr reply, w1) \<Rightarrow>
               (if trim_space reply = [] then Inl (Errorf ''llm plugin returned an empty reply'' [])
                else if MaxReplyBytes < int (length reply) then Inl (Errorf ''llm plugin response exceeds 1 MiB'' [])
                else Inr reply, w1)))"

definition zero_snapshot :: UsageSnapshot where
  "zero_snapshot = \<lparr>us_Model = [], us_Requests = 0, us_Tokens = 0, us_RequestLimit = 0, us_RequestsLeft = None,
     us_TokenBudget = 0, us_TokensLeft = None, us_Exhausted = False, us_ResetsInSeconds = 0\<rparr>"

definition decode_snapshot :: "json \<Rightarrow> UsageSnapshot res" where
  "decode_snapshot j = json_struct
     [(''model'', \<lambda>j u. res_bind (json_string j (us_Model u)) (\<lambda>x. Inr (u\<lparr>us_Model := x\<rparr>))),
      (''requests'', \<lambda>j u. res_bind (json_int j (us_Requests u)) (\<lambda>x. Inr (u\<lparr>us_Requests := x\<rparr>))),
      (''tokens'', \<lambda>j u. res_bind (json_int j (us_Tokens u)) (\<lambda>x. Inr (u\<lparr>us_Tokens := x\<rparr>))),
      (''request_limit'', \<lambda>j u. res_bind (json_int j (us_RequestLimit u)) (\<lambda>x. Inr (u\<lparr>us_RequestLimit := x\<rparr>))),
      (''requests_left'', \<lambda>j u. res_bind (json_int_ptr j) (\<lambda>x. Inr (u\<lparr>us_RequestsLeft := x\<rparr>))),
      (''token_budget'', \<lambda>j u. res_bind (json_int j (us_TokenBudget u)) (\<lambda>x. Inr (u\<lparr>us_TokenBudget := x\<rparr>))),
      (''tokens_left'', \<lambda>j u. res_bind (json_int_ptr j) (\<lambda>x. Inr (u\<lparr>us_TokensLeft := x\<rparr>))),
      (''exhausted'', \<lambda>j u. res_bind (json_bool j (us_Exhausted u)) (\<lambda>x. Inr (u\<lparr>us_Exhausted := x\<rparr>))),
      (''resets_in_seconds'', \<lambda>j u. res_bind (json_int j (us_ResetsInSeconds u)) (\<lambda>x. Inr (u\<lparr>us_ResetsInSeconds := x\<rparr>)))]
     j zero_snapshot"

text \<open>\<open>Usage\<close> has a context of its own, of two seconds; it is the client's here.\<close>

definition plm_Usage :: "'w remote_llm \<Rightarrow> 'w \<Rightarrow> UsageSnapshot option \<times> 'w" where
  "plm_Usage l w =
     (case client_Do (rl_c l) ''GET'' ''/v1/usage'' [] None (Some decode_snapshot) zero_snapshot w of
        ((status, err, u), w1) \<Rightarrow>
          (if err \<noteq> None \<or> status \<noteq> 200 then None
           else if us_Requests u < 0 \<or> us_Tokens u < 0 \<or> us_ResetsInSeconds u < 0 then None
           else Some u, w1))"

definition protocol_llm :: "'w remote_llm \<Rightarrow> 'w llm_ops" where
  "protocol_llm l = \<lparr>lm_Complete = plm_Complete l\<rparr>"

section \<open>What the adapters accept\<close>

text \<open>
  Whatever an embedder or LLM plugin answers, an embedding that is accepted has between 1 and 8192 components, all
  finite, as many as the plugin reported, and is the vector its answer holds; an accepted reply is not blank and
  at most 1 MiB long; and a model has a name and a dimension within the limit.
\<close>

theorem accepted_answers_are_checked:
  "(case pem_EmbedDetailed c text w of
      (Inr (v, model), w1) \<Rightarrow> v \<noteq> [] \<and> length v \<le> 8192 \<and> list_all f64_finite v \<and>
        client_get c ''POST'' ''/v1/embed'' [] (Some (Inr (JObj [(''text'', JStr text)]))) decode_embedding no_embedding w =
          (Inr \<lparr>ea_Vector = v, ea_Dim = int (length v), ea_Model = model\<rparr>, w1)
    | (Inl e, w1) \<Rightarrow> True) \<and>
   (case plm_Complete l prompt u of
      (Inr reply, u1) \<Rightarrow> (\<exists>x \<in> set reply. \<not> is_space x) \<and> length reply \<le> 2 ^ 20 \<and> cl_ctx (rl_c l) u = None
    | (Inl e, u1) \<Rightarrow> True) \<and>
   (case pem_ModelInfo c w of (Inr i, w1) \<Rightarrow> mi_Name i \<noteq> [] \<and> 1 \<le> mi_Dim i \<and> mi_Dim i \<le> 8192 | (Inl e, w1) \<Rightarrow> True)"
proof (intro conjI)
  show "case pem_EmbedDetailed c text w of
      (Inr (v, model), w1) \<Rightarrow> v \<noteq> [] \<and> length v \<le> 8192 \<and> list_all f64_finite v \<and>
        client_get c ''POST'' ''/v1/embed'' [] (Some (Inr (JObj [(''text'', JStr text)]))) decode_embedding no_embedding w =
          (Inr \<lparr>ea_Vector = v, ea_Dim = int (length v), ea_Model = model\<rparr>, w1)
    | (Inl e, w1) \<Rightarrow> True"
    by (auto simp: pem_EmbedDetailed_def ValidateVector_def MaxEmbeddingDim_def split: prod.splits sum.splits option.splits if_splits)
  show "case plm_Complete l prompt u of
      (Inr reply, u1) \<Rightarrow> (\<exists>x \<in> set reply. \<not> is_space x) \<and> length reply \<le> 2 ^ 20 \<and> cl_ctx (rl_c l) u = None
    | (Inl e, u1) \<Rightarrow> True"
    by (auto simp: plm_Complete_def MaxReplyBytes_def trim_space_blank split: prod.splits sum.splits option.splits if_splits)
  show "case pem_ModelInfo c w of (Inr i, w1) \<Rightarrow> mi_Name i \<noteq> [] \<and> 1 \<le> mi_Dim i \<and> mi_Dim i \<le> 8192 | (Inl e, w1) \<Rightarrow> True"
    by (auto simp: pem_ModelInfo_def MaxEmbeddingDim_def split: prod.splits sum.splits if_splits)
qed

end
