(* ===== verification/Sdk_Vector_Store.thy ===== *)
theory Sdk_Vector_Store
  imports Sdk_Net Protocol_Vector
begin

text \<open>
  The vector-store plugin of the SDK (\<open>sdk/examples/vector-store/main.go\<close>): its HTTP handlers over a
  map of vectors, and the proof that the platform's adapter talking to it, over a network that may
  refuse requests and lose replies, keeps the laws of \<open>vector_store\<close>.

  Parameters of the server are its configuration, the ids \<open>newID\<close> draws (one per insertion) and the
  size of a document in bytes. The order in which the map is visited does not matter: a result list
  is sorted by distance and id.
\<close>

record sdk_vs_cfg =
  vc_dim :: int
  vc_metric :: string
  vc_token :: string
  vc_bytes :: "json \<Rightarrow> int"
  vc_newID :: "nat \<Rightarrow> string"

record sdk_vs =
  sx_vecs :: "(string, f64 list) gomap"
  sx_drawn :: nat     \<comment> \<open>ids drawn so far\<close>

section \<open>Search\<close>

fun sum_sq_diff :: "f64 \<Rightarrow> f64 list \<Rightarrow> f64 list \<Rightarrow> f64" where
  "sum_sq_diff acc (a # as) (b # bs) =
     sum_sq_diff (f64_add acc (f64_mul (f64_sub a b) (f64_sub a b))) as bs"
| "sum_sq_diff acc _ _ = acc"

fun dot_norms :: "f64 \<Rightarrow> f64 \<Rightarrow> f64 \<Rightarrow> f64 list \<Rightarrow> f64 list \<Rightarrow> f64 \<times> f64 \<times> f64" where
  "dot_norms dot na nb (a # as) (b # bs) =
     dot_norms (f64_add dot (f64_mul a b)) (f64_add na (f64_mul a a)) (f64_add nb (f64_mul b b)) as bs"
| "dot_norms dot na nb _ _ = (dot, na, nb)"

definition f64_zero :: f64 where "f64_zero = F_Zero False"
definition f64_one :: f64 where "f64_one = F_Num 1"

definition sdk_distance :: "string \<Rightarrow> f64 list \<Rightarrow> f64 list \<Rightarrow> f64" where
  "sdk_distance metric a b =
     (if metric = ''euclidean'' then f64_sqrt (sum_sq_diff f64_zero a b)
      else let (dot, na, nb) = dot_norms f64_zero f64_zero f64_zero a b in
           if f64_eq na f64_zero \<or> f64_eq nb f64_zero then f64_one
           else let d = f64_sub f64_one (f64_div dot (f64_mul (f64_sqrt na) (f64_sqrt nb)))
                in if f64_lt d f64_zero \<and> f64_lt (f64_round (- 1 / 1000000000)) d then f64_zero else d)"

definition match_less :: "Match \<Rightarrow> Match \<Rightarrow> bool" where
  "match_less a b =
     (if \<not> f64_eq (m_Distance a) (m_Distance b) then f64_lt (m_Distance a) (m_Distance b)
      else m_ID a < m_ID b)"

fun insert_match :: "Match \<Rightarrow> Match list \<Rightarrow> Match list" where
  "insert_match m [] = [m]"
| "insert_match m (x # xs) = (if match_less x m then x # insert_match m xs else m # x # xs)"

definition sort_matches :: "Match list \<Rightarrow> Match list" where
  "sort_matches ms = foldr insert_match ms []"

definition sdk_search :: "sdk_vs_cfg \<Rightarrow> f64 list \<Rightarrow> int \<Rightarrow> f64 \<Rightarrow> sdk_vs \<Rightarrow> Match list" where
  "sdk_search cfg v topK threshold s =
     (let ms = sort_matches (filter (\<lambda>m. f64_le (m_Distance m) threshold)
                 (map (\<lambda>(k, x). \<lparr>m_ID = k, m_Distance = sdk_distance (vc_metric cfg) v x\<rparr>) (sx_vecs s)))
      in if topK < int (length ms) then take (nat topK) ms else ms)"

definition checkVec :: "sdk_vs_cfg \<Rightarrow> f64 list \<Rightarrow> bool" where
  "checkVec cfg v \<longleftrightarrow> int (length v) = vc_dim cfg \<and> list_all f64_finite v"

section \<open>Handlers\<close>

record search_req =
  sq_Vector :: "f64 list"
  sq_TopK :: int
  sq_Threshold :: f64

definition decode_search :: "json \<Rightarrow> search_req res" where
  "decode_search j = json_struct
     [(''vector'', \<lambda>j r. res_bind (json_floats j (sq_Vector r)) (\<lambda>x. Inr (r\<lparr>sq_Vector := x\<rparr>))),
      (''top_k'', \<lambda>j r. res_bind (json_int j (sq_TopK r)) (\<lambda>x. Inr (r\<lparr>sq_TopK := x\<rparr>))),
      (''threshold'', \<lambda>j r. res_bind (json_float j (sq_Threshold r)) (\<lambda>x. Inr (r\<lparr>sq_Threshold := x\<rparr>)))]
     j \<lparr>sq_Vector = [], sq_TopK = 0, sq_Threshold = F_Zero False\<rparr>"

definition decode_vector :: "json \<Rightarrow> f64 list res" where
  "decode_vector j = json_struct [(''vector'', json_floats)] j []"

definition decode_rebuild_entry :: "json \<Rightarrow> RebuildEntry res" where
  "decode_rebuild_entry j = json_struct
     [(''id'', \<lambda>j e. res_bind (json_string j (re_ID e)) (\<lambda>x. Inr (e\<lparr>re_ID := x\<rparr>))),
      (''vector'', \<lambda>j e. res_bind (json_floats j (re_Vector e)) (\<lambda>x. Inr (e\<lparr>re_Vector := x\<rparr>)))]
     j \<lparr>re_ID = '''', re_Vector = []\<rparr>"

definition decode_rebuild :: "json \<Rightarrow> RebuildEntry list option res" where
  "decode_rebuild j = json_struct [(''entries'', \<lambda>j _. json_slice decode_rebuild_entry j)] j None"

definition json_of_match :: "Match \<Rightarrow> json" where
  "json_of_match m = JObj [(''id'', JStr (m_ID m)), (''distance'', JNum (m_Distance m))]"

definition sdk_vs_search :: "sdk_vs_cfg \<Rightarrow> json option \<Rightarrow> sdk_vs \<Rightarrow> http_resp" where
  "sdk_vs_search cfg body s =
     (case map_option decode_search (limit_body (vc_bytes cfg) (64 * 2 ^ 20) body) of
        Some (Inr r) \<Rightarrow>
          if 1 \<le> sq_TopK r \<and> checkVec cfg (sq_Vector r)
          then let ms = sdk_search cfg (sq_Vector r) (sq_TopK r) (sq_Threshold r) s in
               if list_all (\<lambda>m. f64_finite (m_Distance m)) ms
               then reply_json (vc_bytes cfg) 200 (JObj [(''matches'', JArr (map json_of_match ms))])
               else reply_empty 200
          else reply_error (vc_bytes cfg) 400 ''invalid_request''
                 ''vector must have the store dimension and top_k must be >= 1''
      | _ \<Rightarrow> reply_error (vc_bytes cfg) 400 ''invalid_request''
               ''vector must have the store dimension and top_k must be >= 1'')"

definition sdk_vs_upsert :: "sdk_vs_cfg \<Rightarrow> json option \<Rightarrow> sdk_vs \<Rightarrow> http_resp \<times> sdk_vs" where
  "sdk_vs_upsert cfg body s =
     (case map_option decode_vector (limit_body (vc_bytes cfg) (64 * 2 ^ 20) body) of
        Some (Inr v) \<Rightarrow>
          if checkVec cfg v
          then let k = vc_newID cfg (sx_drawn s)
               in (reply_json (vc_bytes cfg) 200 (JObj [(''id'', JStr k)]),
                   s\<lparr>sx_vecs := gm_put k v (sx_vecs s), sx_drawn := Suc (sx_drawn s)\<rparr>)
          else (reply_error (vc_bytes cfg) 400 ''invalid_request'' ''vector must have the store dimension'', s)
      | _ \<Rightarrow> (reply_error (vc_bytes cfg) 400 ''invalid_request'' ''vector must have the store dimension'', s))"

definition sdk_vs_delete :: "sdk_vs_cfg \<Rightarrow> string \<Rightarrow> sdk_vs \<Rightarrow> http_resp \<times> sdk_vs" where
  "sdk_vs_delete cfg k s =
     (case gm_get (sx_vecs s) k of
        None \<Rightarrow> (reply_error (vc_bytes cfg) 404 ''not_found'' ''unknown id'', s)
      | Some _ \<Rightarrow> (reply_json (vc_bytes cfg) 200 (JObj [(''status'', JStr ''deleted'')]),
                    s\<lparr>sx_vecs := gm_del k (sx_vecs s)\<rparr>))"

text \<open>The loop over the entries: the map built so far, or the reason to refuse.\<close>

fun rebuild_loop ::
    "sdk_vs_cfg \<Rightarrow> RebuildEntry list \<Rightarrow> (string, f64 list) gomap \<Rightarrow> string + (string, f64 list) gomap" where
  "rebuild_loop cfg [] next = Inr next"
| "rebuild_loop cfg (e # es) next =
     (if re_ID e = [] \<or> list_ex (\<lambda>c. c \<in> set ''/?# '') (re_ID e) \<or> \<not> checkVec cfg (re_Vector e)
      then Inl ''bad entry''
      else if gm_get next (re_ID e) \<noteq> None then Inl ''duplicate id''
      else rebuild_loop cfg es (gm_put (re_ID e) (re_Vector e) next))"

definition sdk_vs_rebuild :: "sdk_vs_cfg \<Rightarrow> json option \<Rightarrow> sdk_vs \<Rightarrow> http_resp \<times> sdk_vs" where
  "sdk_vs_rebuild cfg body s =
     (case map_option decode_rebuild (limit_body (vc_bytes cfg) (64 * 2 ^ 20) body) of
        Some (Inr es) \<Rightarrow>
          (case rebuild_loop cfg (case es of None \<Rightarrow> [] | Some xs \<Rightarrow> xs) [] of
             Inl msg \<Rightarrow> (reply_error (vc_bytes cfg) 400 ''invalid_request'' msg, s)
           | Inr next \<Rightarrow>
               (reply_json (vc_bytes cfg) 200 (JObj [(''restored'', JInt (int (gm_len next)))]),
                s\<lparr>sx_vecs := next\<rparr>))
      | _ \<Rightarrow> (reply_error (vc_bytes cfg) 400 ''invalid_request'' ''entries required'', s))"

definition sdk_vs_mux :: "sdk_vs_cfg \<Rightarrow> sdk_vs server" where
  "sdk_vs_mux cfg req s =
     (let m = hq_method req; p = hq_path req; b = vc_bytes cfg in
      if m = ''GET'' \<and> p = ''/health'' then
        (reply_json b 200 (JObj [(''status'', JStr ''ok''), (''dim'', JInt (vc_dim cfg)), (''metric'', JStr (vc_metric cfg))]), s)
      else if m = ''GET'' \<and> p = ''/v1/info'' then
        (reply_json b 200 (JObj [(''dim'', JInt (vc_dim cfg)), (''metric'', JStr (vc_metric cfg))]), s)
      else if m = ''POST'' \<and> p = ''/v1/search'' then (sdk_vs_search cfg (hq_body req) s, s)
      else if m = ''POST'' \<and> p = ''/v1/upsert'' then sdk_vs_upsert cfg (hq_body req) s
      else if m = ''GET'' \<and> p = ''/v1/size'' then
        (reply_json b 200 (JObj [(''size'', JInt (int (gm_len (sx_vecs s))))]), s)
      else if m = ''POST'' \<and> p = ''/v1/flush'' then
        (reply_json b 200 (JObj [(''status'', JStr ''flushed'')]), s\<lparr>sx_vecs := []\<rparr>)
      else if m = ''POST'' \<and> p = ''/v1/rebuild'' then sdk_vs_rebuild cfg (hq_body req) s
      else if m = ''DELETE'' then
        (case path_id ''/v1/entries/'' p of
           Some k \<Rightarrow> sdk_vs_delete cfg k s
         | None \<Rightarrow> (reply_unmatched, s))
      else (reply_unmatched, s))"

definition sdk_vs_serve :: "sdk_vs_cfg \<Rightarrow> sdk_vs server" where
  "sdk_vs_serve cfg = withAuth (vc_bytes cfg) (vc_token cfg) (sdk_vs_mux cfg)"

section \<open>Facts about the server\<close>

definition sdk_vs_ok :: "sdk_vs \<Rightarrow> bool" where
  "sdk_vs_ok s \<longleftrightarrow> gm_wf (sx_vecs s)"

definition sdk_vs_view :: "sdk_vs \<Rightarrow> string \<Rightarrow> f64 list option" where
  "sdk_vs_view s = gm_get (sx_vecs s)"

lemma set_insert_match: "set (insert_match m ms) = insert m (set ms)"
  by (induction ms) auto

lemma set_sort_matches: "set (sort_matches ms) = set ms"
  unfolding sort_matches_def by (induction ms) (simp_all add: set_insert_match)

lemma sdk_search_ids:
  shows "m_ID ` set (sdk_search cfg v n th s) \<subseteq> dom (sdk_vs_view s)"
proof -
  have "set (sdk_search cfg v n th s) \<subseteq> (\<lambda>(k, x). \<lparr>m_ID = k, m_Distance = sdk_distance (vc_metric cfg) v x\<rparr>) ` set (sx_vecs s)"
    by (auto simp: sdk_search_def Let_def set_sort_matches dest!: in_set_takeD)
  then have "m_ID ` set (sdk_search cfg v n th s) \<subseteq> set (gm_keys (sx_vecs s))"
    by (force simp: gm_keys_def)
  then show ?thesis by (simp add: sdk_vs_view_def dom_gm_get)
qed

lemma decode_match_json: "decode_match (json_of_match m) = Inr m"
  by (simp add: decode_match_def json_of_match_def match_fields_def json_member_def)

lemma json_list_map: "(\<And>x. f (g x) = Inr x) \<Longrightarrow> json_list f (map g xs) = Inr xs"
  by (induction xs) simp_all

lemma decode_matches_json:
  "decode_matches (JObj [(''matches'', JArr (map json_of_match ms))]) = Inr (Some ms)"
  by (simp add: decode_matches_def json_member_def json_list_map decode_match_json)

lemma decode_vector_request:
  "upsert_request vec = Inr j \<Longrightarrow> decode_vector j = Inr vec"
  by (auto simp: upsert_request_def res_bind_Inr decode_vector_def json_member_def json_floats_marshal)

lemma decode_rebuild_entry_request:
  "rebuild_entry_json e = Inr j \<Longrightarrow> decode_rebuild_entry j = Inr e"
  by (auto simp: rebuild_entry_json_def res_bind_Inr decode_rebuild_entry_def json_member_def json_floats_marshal)

lemma json_of_list_decode:
  "json_of_list rebuild_entry_json es = Inr js \<Longrightarrow> json_list decode_rebuild_entry js = Inr es"
  by (induction es arbitrary: js) (auto simp: res_bind_Inr decode_rebuild_entry_request)

lemma decode_rebuild_request:
  "rebuild_request es = Inr j \<Longrightarrow> decode_rebuild j = Inr (Some es)"
  by (auto simp: rebuild_request_def res_bind_Inr decode_rebuild_def json_member_def json_of_list_decode)

lemma rebuild_loop_ok:
  assumes "rebuild_loop cfg es next = Inr m" and "gm_wf next"
  shows "gm_wf m" and "gm_get m = gm_get next ++ rebuild_view es" and "distinct (map re_ID es)"
    and "set (map re_ID es) \<inter> dom (gm_get next) = {}"
proof -
  have "gm_wf m \<and> gm_get m = gm_get next ++ rebuild_view es \<and> distinct (map re_ID es) \<and>
    set (map re_ID es) \<inter> dom (gm_get next) = {}"
    using assms
  proof (induction es arbitrary: "next")
    case (Cons e es)
    from Cons.prems have no: "gm_get next (re_ID e) = None"
      and rest: "rebuild_loop cfg es (gm_put (re_ID e) (re_Vector e) next) = Inr m"
      by (auto split: if_splits)
    from Cons.IH [OF rest gm_wf_put [OF Cons.prems(2)]]
    have ih: "gm_wf m" "gm_get m = gm_get (gm_put (re_ID e) (re_Vector e) next) ++ rebuild_view es"
      "distinct (map re_ID es)" "set (map re_ID es) \<inter> dom (gm_get (gm_put (re_ID e) (re_Vector e) next)) = {}"
      by blast+
    have out: "re_ID e \<notin> set (map re_ID es)" using ih(4) by (auto simp: dom_def)
    then have "rebuild_view es (re_ID e) = None"
      by (auto simp: rebuild_view_def map_of_eq_None_iff image_image)
    then have "gm_get m = gm_get next ++ rebuild_view (e # es)"
      unfolding ih(2) by (auto simp: fun_eq_iff map_add_def rebuild_view_def split: option.splits)
    moreover have "set (map re_ID es) \<inter> dom (gm_get next) = {}"
      using ih(4) by (auto simp: dom_def split: if_splits)
    ultimately show ?case using ih(1,3) out no by auto
  qed (simp add: rebuild_view_def)
  then show "gm_wf m" and "gm_get m = gm_get next ++ rebuild_view es" and "distinct (map re_ID es)"
    and "set (map re_ID es) \<inter> dom (gm_get next) = {}" by blast+
qed

section \<open>The adapter over the network\<close>

definition vs_net_ok :: "sdk_vs net \<Rightarrow> bool" where
  "vs_net_ok w \<longleftrightarrow> sdk_vs_ok (nt_srv w)"

definition vs_net_view :: "sdk_vs net \<Rightarrow> string \<Rightarrow> f64 list option" where
  "vs_net_view w = sdk_vs_view (nt_srv w)"

text \<open>A client of the server, from \<open>NewVectorStore\<close>; its token, limits and fault script are arbitrary.\<close>

definition sdk_vs_client :: "sdk_vs_cfg \<Rightarrow> string \<Rightarrow> int \<Rightarrow> int \<Rightarrow> sdk_vs net client" where
  "sdk_vs_client cfg token maxResponse timeout = NewVectorStore
     \<lparr>cl_Token = token, cl_MaxResponse = maxResponse, cl_Timeout = timeout,
      cl_HTTP = net_send (sdk_vs_serve cfg), cl_ctx = (\<lambda>_. None), cl_scrub = (\<lambda>s. s)\<rparr>"

lemma sdk_vs_client_net: "net_client (sdk_vs_serve cfg) (sdk_vs_client cfg tk mx tmo)"
  by (simp add: net_client_def sdk_vs_client_def NewVectorStore_def Let_def)

text \<open>The server's reaction to each request, with or without the token.\<close>

lemma serve_search:
  assumes "sdk_vs_serve cfg (client_req c ''POST'' ''/v1/search'' q (Some j)) s = (resp, t)"
  shows "t = s" and "hs_status resp \<le> 299 \<Longrightarrow> hs_body resp = Body_Doc d \<Longrightarrow>
    \<exists>v n th. d = JObj [(''matches'', JArr (map json_of_match (sdk_search cfg v n th s)))]"
  using withAuth_cases [OF assms [unfolded sdk_vs_serve_def]]
  by (auto simp: sdk_vs_mux_def sdk_vs_search_def limit_body_def Let_def reply_error_def split: sum.splits if_splits option.splits) blast+


lemma serve_upsert:
  assumes "sdk_vs_serve cfg (client_req c ''POST'' ''/v1/upsert'' q (Some j)) s = (resp, t)"
    and "decode_vector j = Inr vec"
  shows "t = s \<and> hs_status resp \<in> {400, 401} \<or>
    (\<exists>k. resp = reply_json (vc_bytes cfg) 200 (JObj [(''id'', JStr k)]) \<and>
       t = s\<lparr>sx_vecs := gm_put k vec (sx_vecs s), sx_drawn := Suc (sx_drawn s)\<rparr>)"
  using withAuth_cases [OF assms(1) [unfolded sdk_vs_serve_def]] assms(2)
  by (auto simp: sdk_vs_mux_def sdk_vs_upsert_def limit_body_def Let_def split: if_splits)

lemma serve_delete:
  assumes "sdk_vs_serve cfg (client_req c ''DELETE'' (''/v1/entries/'' @ k) q None) s = (resp, t)"
    and "k \<noteq> []" and "CHR ''/'' \<notin> set k"
  shows "t = s \<and> hs_status resp \<in> {401, 404} \<or>
    hs_status resp = 200 \<and> gm_get (sx_vecs s) k \<noteq> None \<and> t = s\<lparr>sx_vecs := gm_del k (sx_vecs s)\<rparr>"
proof -
  have id: "path_id ''/v1/entries/'' (''/v1/entries/'' @ k) = Some k"
    by (rule path_id_append) (use assms in auto)
  show ?thesis
    using withAuth_cases [OF assms(1) [unfolded sdk_vs_serve_def]]
    by (auto simp: sdk_vs_mux_def sdk_vs_delete_def Let_def id simp del: append_Cons split: option.splits)
qed

lemma serve_flush:
  assumes "sdk_vs_serve cfg (client_req c ''POST'' ''/v1/flush'' q j) s = (resp, t)"
  shows "t = s \<and> hs_status resp = 401 \<or> t = s\<lparr>sx_vecs := []\<rparr>"
  using withAuth_cases [OF assms(1) [unfolded sdk_vs_serve_def]]
  by (auto simp: sdk_vs_mux_def Let_def)

lemma serve_rebuild:
  assumes "sdk_vs_serve cfg (client_req c ''POST'' ''/v1/rebuild'' q (Some j)) s = (resp, t)"
    and "decode_rebuild j = Inr (Some es)"
  shows "t = s \<and> hs_status resp \<in> {400, 401} \<or>
    (\<exists>m. rebuild_loop cfg es [] = Inr m \<and> t = s\<lparr>sx_vecs := m\<rparr>)"
  using withAuth_cases [OF assms(1) [unfolded sdk_vs_serve_def]] assms(2)
  by (auto simp: sdk_vs_mux_def sdk_vs_rebuild_def limit_body_def Let_def split: sum.splits if_splits)

lemma vs_net_search:
  assumes ok: "vs_net_ok w" and run: "pvs_Search (sdk_vs_client cfg tk mx tmo) vec n th w = (r, t)"
  shows "vs_net_ok t \<and> vs_net_view t = vs_net_view w"
    and "r = Inr ms \<Longrightarrow> m_ID ` set ms \<subseteq> dom (vs_net_view w)"
proof -
  have "nt_srv t = nt_srv w \<and> (\<forall>ms. r = Inr ms \<longrightarrow> m_ID ` set ms \<subseteq> dom (vs_net_view w))"
  proof (cases "n < 1")
    case True
    then show ?thesis using run by (auto simp: pvs_Search_def)
  next
    case False
    obtain g where get: "client_get (sdk_vs_client cfg tk mx tmo) ''POST'' ''/v1/search'' []
        (Some (search_request vec n th)) decode_matches None w = (g, t)"
      and r: "\<And>ms. r = Inr ms \<Longrightarrow> g = Inr (Some ms)"
      using run False by (auto simp: pvs_Search_def split: prod.splits sum.splits option.splits if_splits)
    show ?thesis
    proof (cases rule: client_post_net [OF sdk_vs_client_net get])
      case (1 e)
      then show ?thesis using r by auto
    next
      case (2 j resp s)
      note S = serve_search [OF 2(2)]
      have "nt_srv t = nt_srv w" using 2(3) S(1) by auto
      moreover have "m_ID ` set ms \<subseteq> dom (vs_net_view w)" if "r = Inr ms" for ms
      proof -
        from 2(4) [OF r [OF that]] obtain d where d: "hs_body resp = Body_Doc d" "decode_matches d = Inr (Some ms)"
          by auto
        with S(2) 2(4) [OF r [OF that]] have "\<exists>v n th. ms = sdk_search cfg v n th (nt_srv w)"
          by (fastforce simp: decode_matches_json)
        then show ?thesis unfolding vs_net_view_def by (elim exE) (simp only: sdk_search_ids)
      qed
      ultimately show ?thesis by blast
    qed
  qed
  then show "vs_net_ok t \<and> vs_net_view t = vs_net_view w"
    and "r = Inr ms \<Longrightarrow> m_ID ` set ms \<subseteq> dom (vs_net_view w)"
    using ok by (auto simp: vs_net_ok_def vs_net_view_def)
qed


lemma vs_net_upsert:
  assumes ok: "vs_net_ok w" and run: "pvs_Upsert (sdk_vs_client cfg tk mx tmo) vec w = (r, t)"
  shows "vs_net_ok t" and "r = Inr k \<Longrightarrow> vs_net_view t = (vs_net_view w)(k \<mapsto> vec)"
    and "vs_net_view t = vs_net_view w \<or> (\<exists>k. vs_net_view t = (vs_net_view w)(k \<mapsto> vec))"
proof -
  obtain g where get: "client_get (sdk_vs_client cfg tk mx tmo) ''POST'' ''/v1/upsert'' []
      (Some (upsert_request vec)) decode_id '''' w = (g, t)"
    and r: "\<And>k. r = Inr k \<Longrightarrow> g = Inr k \<and> ValidID k"
    using run by (auto simp: pvs_Upsert_def split: prod.splits sum.splits if_splits)
  have upd: "vs_net_view t = (vs_net_view w)(k \<mapsto> vec) \<and> vs_net_ok t"
    if "nt_srv t = nt_srv w\<lparr>sx_vecs := gm_put k vec (sx_vecs (nt_srv w)), sx_drawn := n\<rparr>" for k n
    using that ok by (auto simp: vs_net_view_def sdk_vs_view_def vs_net_ok_def sdk_vs_ok_def gm_wf_put fun_eq_iff)
  have "vs_net_ok t \<and> (\<forall>k. r = Inr k \<longrightarrow> vs_net_view t = (vs_net_view w)(k \<mapsto> vec)) \<and>
    (vs_net_view t = vs_net_view w \<or> (\<exists>k. vs_net_view t = (vs_net_view w)(k \<mapsto> vec)))"
  proof (cases rule: client_post_net [OF sdk_vs_client_net get])
    case (1 e)
    then show ?thesis using r ok by auto
  next
    case (2 j resp s)
    consider (refused) "s = nt_srv w" "hs_status resp \<in> {400, 401}"
      | (put) k where "resp = reply_json (vc_bytes cfg) 200 (JObj [(''id'', JStr k)])"
          "s = nt_srv w\<lparr>sx_vecs := gm_put k vec (sx_vecs (nt_srv w)), sx_drawn := Suc (sx_drawn (nt_srv w))\<rparr>"
      using serve_upsert [OF 2(2) decode_vector_request [OF 2(1)]] by blast
    then show ?thesis
    proof cases
      case refused
      then show ?thesis using 2(3,4) r ok by (auto simp: vs_net_ok_def vs_net_view_def)
    next
      case put
      then show ?thesis using 2(3,4) r ok upd
        by (auto simp: decode_id_def json_member_def vs_net_ok_def vs_net_view_def)
    qed
  qed
  then show "vs_net_ok t" and "r = Inr k \<Longrightarrow> vs_net_view t = (vs_net_view w)(k \<mapsto> vec)"
    and "vs_net_view t = vs_net_view w \<or> (\<exists>k. vs_net_view t = (vs_net_view w)(k \<mapsto> vec))" by blast+
qed

lemma vs_net_delete:
  assumes ok: "vs_net_ok w" and run: "pvs_Delete (sdk_vs_client cfg tk mx tmo) k w = (r, t)"
  shows "vs_net_ok t" and "r = None \<Longrightarrow> vs_net_view t = (vs_net_view w)(k := None)"
    and "vs_net_view t = vs_net_view w \<or> vs_net_view t = (vs_net_view w)(k := None)"
    and "vs_net_view w k = None \<Longrightarrow> r \<noteq> None \<and> nt_srv t = nt_srv w"
proof -
  have "vs_net_ok t \<and> (r = None \<longrightarrow> vs_net_view t = (vs_net_view w)(k := None)) \<and>
    (vs_net_view t = vs_net_view w \<or> vs_net_view t = (vs_net_view w)(k := None)) \<and>
    (vs_net_view w k = None \<longrightarrow> r \<noteq> None \<and> nt_srv t = nt_srv w)"
  proof (cases "ValidID k")
    case False
    then show ?thesis using run ok by (auto simp: pvs_Delete_def)
  next
    case True
    obtain g where get: "client_call (sdk_vs_client cfg tk mx tmo) ''DELETE'' (''/v1/entries/'' @ k) None w = (g, t)"
      and r: "r = None \<longleftrightarrow> g = None"
      using run True by (auto simp: pvs_Delete_def split: prod.splits option.splits)
    obtain resp s where srv: "sdk_vs_serve cfg (client_req (sdk_vs_client cfg tk mx tmo) ''DELETE''
        (''/v1/entries/'' @ k) [] None) (nt_srv w) = (resp, s)" by fastforce
    note N = client_call_net [OF sdk_vs_client_net get, of resp s, unfolded option.case, OF srv]
    have gone: "vs_net_view t = (vs_net_view w)(k := None) \<and> vs_net_ok t"
      if "nt_srv t = nt_srv w\<lparr>sx_vecs := gm_del k (sx_vecs (nt_srv w))\<rparr>"
      using that ok by (auto simp: vs_net_view_def sdk_vs_view_def vs_net_ok_def sdk_vs_ok_def gm_wf_del fun_eq_iff)
    consider (refused) "s = nt_srv w" "hs_status resp \<in> {401, 404}"
      | (gone) "hs_status resp = 200" "gm_get (sx_vecs (nt_srv w)) k \<noteq> None"
          "s = nt_srv w\<lparr>sx_vecs := gm_del k (sx_vecs (nt_srv w))\<rparr>"
      using serve_delete [OF srv] ValidID_nonempty True by (auto simp: ValidID_def)
    then show ?thesis
    proof cases
      case refused
      then show ?thesis using N r ok by (auto simp: vs_net_ok_def vs_net_view_def)
    next
      case k: gone
      then show ?thesis using N r ok gone by (auto simp: vs_net_ok_def vs_net_view_def sdk_vs_view_def)
    qed
  qed
  then show "vs_net_ok t" and "r = None \<Longrightarrow> vs_net_view t = (vs_net_view w)(k := None)"
    and "vs_net_view t = vs_net_view w \<or> vs_net_view t = (vs_net_view w)(k := None)"
    and "vs_net_view w k = None \<Longrightarrow> r \<noteq> None \<and> nt_srv t = nt_srv w" by blast+
qed

lemma vs_net_flush:
  assumes ok: "vs_net_ok w" and run: "pvs_Flush (sdk_vs_client cfg tk mx tmo) w = (r, t)"
  shows "vs_net_ok t" and "r = None \<Longrightarrow> vs_net_view t = Map.empty"
    and "vs_net_view t = vs_net_view w \<or> vs_net_view t = Map.empty"
proof -
  obtain g where get: "client_call (sdk_vs_client cfg tk mx tmo) ''POST'' ''/v1/flush'' (Some (Inr (JObj []))) w = (g, t)"
    and r: "r = None \<longleftrightarrow> g = None"
    using run by (auto simp: pvs_Flush_def split: prod.splits option.splits)
  obtain resp s where srv: "sdk_vs_serve cfg (client_req (sdk_vs_client cfg tk mx tmo) ''POST'' ''/v1/flush'' []
      (Some (JObj []))) (nt_srv w) = (resp, s)" by fastforce
  note N = client_call_net [OF sdk_vs_client_net get, of resp s, unfolded option.case sum.case, OF srv]
  have "vs_net_ok t \<and> vs_net_view t = Map.empty" if "nt_srv t = nt_srv w\<lparr>sx_vecs := []\<rparr>"
    using that by (simp add: vs_net_view_def sdk_vs_view_def vs_net_ok_def sdk_vs_ok_def fun_eq_iff)
  then have "vs_net_ok t \<and> (r = None \<longrightarrow> vs_net_view t = Map.empty) \<and>
    (vs_net_view t = vs_net_view w \<or> vs_net_view t = Map.empty)"
    using N r ok serve_flush [OF srv] by (auto simp: vs_net_ok_def vs_net_view_def)
  then show "vs_net_ok t" and "r = None \<Longrightarrow> vs_net_view t = Map.empty"
    and "vs_net_view t = vs_net_view w \<or> vs_net_view t = Map.empty" by blast+
qed

lemma vs_net_rebuild:
  assumes ok: "vs_net_ok w" and run: "pvs_Rebuild (sdk_vs_client cfg tk mx tmo) es w = (r, t)"
  shows "vs_net_ok t" and "r = Inr i \<Longrightarrow> vs_net_view t = rebuild_view es"
    and "vs_net_view t = vs_net_view w \<or> vs_net_view t = rebuild_view es"
proof -
  have "vs_net_ok t \<and> (\<forall>i. r = Inr i \<longrightarrow> vs_net_view t = rebuild_view es) \<and>
    (vs_net_view t = vs_net_view w \<or> vs_net_view t = rebuild_view es)"
  proof (cases "\<exists>e. r = Inl e \<and> t = w")
    case True
    then show ?thesis using ok by auto
  next
    case False
    then obtain g where get: "client_get (sdk_vs_client cfg tk mx tmo) ''POST'' ''/v1/rebuild'' []
        (Some (rebuild_request es)) (decode_int_ptr ''restored'') None w = (g, t)"
      and r: "\<And>i. r = Inr i \<Longrightarrow> g \<noteq> Inr None \<and> (\<exists>x. g = Inr x)"
      using run by (auto simp: pvs_Rebuild_def split: prod.splits sum.splits if_splits option.splits)
    show ?thesis
    proof (cases rule: client_post_net [OF sdk_vs_client_net get])
      case (1 e)
      then show ?thesis using r ok by auto
    next
      case (2 j resp s)
      consider (refused) "s = nt_srv w" "hs_status resp \<in> {400, 401}"
        | (installed) m where "rebuild_loop cfg es [] = Inr m" "s = nt_srv w\<lparr>sx_vecs := m\<rparr>"
        using serve_rebuild [OF 2(2) decode_rebuild_request [OF 2(1)]] by blast
      then show ?thesis
      proof cases
        case refused
        then have "\<forall>x. g \<noteq> Inr x" using 2(4) by auto
        then show ?thesis using 2(3) r refused ok by (auto simp: vs_net_ok_def vs_net_view_def)
      next
        case (installed m)
        have "gm_wf m" "gm_get m = rebuild_view es"
          using rebuild_loop_ok(1,2) [OF installed(1)] by (simp_all add: fun_eq_iff map_add_def split: option.splits)
        moreover have "nt_srv t = s" if "r = Inr i" for i using r [OF that] 2(4) by auto
        ultimately show ?thesis using 2(3) installed ok
          by (auto simp: vs_net_ok_def vs_net_view_def sdk_vs_ok_def sdk_vs_view_def)
      qed
    qed
  qed
  then show "vs_net_ok t" and "r = Inr i \<Longrightarrow> vs_net_view t = rebuild_view es"
    and "vs_net_view t = vs_net_view w \<or> vs_net_view t = rebuild_view es" by blast+
qed

interpretation sdk_vs: vector_store "protocol_vector (sdk_vs_client cfg tk mx tmo)" vs_net_ok vs_net_view
  for cfg tk mx tmo
proof (unfold_locales, unfold protocol_vector_simps)
  show "finite (dom (vs_net_view v))" for v
    by (simp add: vs_net_view_def sdk_vs_view_def dom_gm_get)
next
  fix q n th and v t :: "sdk_vs net" and ms
  assume ok: "vs_net_ok v" and run: "pvs_Search (sdk_vs_client cfg tk mx tmo) q n th v = (Inr ms, t)"
  note P = pvs_Search_checked [OF run]
  show "int (length ms) \<le> n \<and> m_ID ` set ms \<subseteq> dom (vs_net_view v) \<and>
      (\<forall>m \<in> set ms. f64_le (m_Distance m) th) \<and> sorted_wrt (\<lambda>a b. f64_le (m_Distance a) (m_Distance b)) ms"
    using P(1) vs_net_search(2) [OF ok run refl] check_matches_ok(1,3) [OF P(3,2)] by blast
next
  fix vec and v t :: "sdk_vs net" and k
  assume "vs_net_ok v" and "pvs_Upsert (sdk_vs_client cfg tk mx tmo) vec v = (Inr k, t)"
  from vs_net_upsert(1,2) [OF this] show "vs_net_ok t \<and> vs_net_view t = (vs_net_view v)(k \<mapsto> vec)" by simp
next
  fix vec and v t :: "sdk_vs net" and e
  assume "vs_net_ok v" and "pvs_Upsert (sdk_vs_client cfg tk mx tmo) vec v = (Inl e, t)"
  from vs_net_upsert(1,3) [OF this]
  show "vs_net_ok t \<and> (vs_net_view t = vs_net_view v \<or> (\<exists>k. vs_net_view t = (vs_net_view v)(k \<mapsto> vec)))" by simp
next
  fix k and v t :: "sdk_vs net"
  assume "vs_net_ok v" and "pvs_Delete (sdk_vs_client cfg tk mx tmo) k v = (None, t)"
  from vs_net_delete(1,2) [OF this] show "vs_net_ok t \<and> vs_net_view t = (vs_net_view v)(k := None)" by simp
next
  fix k and v t :: "sdk_vs net" and e
  assume "vs_net_ok v" and "pvs_Delete (sdk_vs_client cfg tk mx tmo) k v = (Some e, t)"
  from vs_net_delete(1,3) [OF this]
  show "vs_net_ok t \<and> vs_net_view t \<in> {vs_net_view v, (vs_net_view v)(k := None)}" by simp
next
  fix v t :: "sdk_vs net"
  assume "vs_net_ok v" and "pvs_Flush (sdk_vs_client cfg tk mx tmo) v = (None, t)"
  from vs_net_flush(1,2) [OF this] show "vs_net_ok t \<and> vs_net_view t = Map.empty" by simp
next
  fix v t :: "sdk_vs net" and e
  assume "vs_net_ok v" and "pvs_Flush (sdk_vs_client cfg tk mx tmo) v = (Some e, t)"
  from vs_net_flush(1,3) [OF this] show "vs_net_ok t \<and> vs_net_view t \<in> {vs_net_view v, Map.empty}" by simp
next
  fix es and v t :: "sdk_vs net" and i
  assume "vs_net_ok v" and "pvs_Rebuild (sdk_vs_client cfg tk mx tmo) es v = (Inr i, t)"
  from vs_net_rebuild(1,2) [OF this] show "vs_net_ok t \<and> vs_net_view t = rebuild_view es" by simp
next
  fix es and v t :: "sdk_vs net" and e
  assume "vs_net_ok v" and "pvs_Rebuild (sdk_vs_client cfg tk mx tmo) es v = (Inl e, t)"
  from vs_net_rebuild(1,3) [OF this]
  show "vs_net_ok t \<and> vs_net_view t \<in> {vs_net_view v, rebuild_view es}" by simp
qed (use vs_net_search(1) in blast)

lemma serve_size:
  assumes "sdk_vs_serve cfg (client_req c ''GET'' ''/v1/size'' q None) s = (resp, t)"
  shows "t = s" and "hs_status resp \<le> 299 \<Longrightarrow> hs_body resp = Body_Doc d \<Longrightarrow>
    d = JObj [(''size'', JInt (int (gm_len (sx_vecs s))))]"
  using withAuth_cases [OF assms [unfolded sdk_vs_serve_def]]
  by (auto simp: sdk_vs_mux_def Let_def reply_error_def split: if_splits)

lemma vs_net_size:
  assumes ok: "vs_net_ok w" and run: "pvs_Size (sdk_vs_client cfg tk mx tmo) w = (r, t)"
  shows "vs_net_ok t \<and> vs_net_view t = vs_net_view w"
    and "r = Inr n \<Longrightarrow> n = int (card (dom (vs_net_view w)))"
proof -
  let ?c = "sdk_vs_client cfg tk mx tmo"
  obtain st e x where do_: "client_Do ?c ''GET'' ''/v1/size'' [] None (Some (decode_int_ptr ''size'')) None w = ((st, e, x), t)"
    and r: "\<And>n. r = Inr n \<Longrightarrow> e = None \<and> x = Some n"
    using run by (auto simp: pvs_Size_def client_get_def split: prod.splits option.splits if_splits)
  obtain resp s where srv: "sdk_vs_serve cfg (client_req ?c ''GET'' ''/v1/size'' [] None) (nt_srv w) = (resp, s)"
    by fastforce
  note N = client_Do_net [OF sdk_vs_client_net do_, of resp s, unfolded option.case, OF srv]
  have srv_t: "nt_srv t = nt_srv w" using N(1) serve_size(1) [OF srv] by auto
  then show "vs_net_ok t \<and> vs_net_view t = vs_net_view w" using ok by (simp add: vs_net_ok_def vs_net_view_def)
  assume rn: "r = Inr n"
  note x = r [OF rn]
  have st: "st = hs_status resp" "st \<le> 299" using N(2) x by auto
  from N(3) [OF conjunct1 [OF x] refl] x
  obtain d where "hs_body resp = Body_Doc d" "decode_int_ptr ''size'' d = Inr (Some n)" by auto
  moreover have "d = JObj [(''size'', JInt (int (gm_len (sx_vecs (nt_srv w)))))]"
    using serve_size(2) [OF srv] st calculation(1) by auto
  ultimately have "n = int (gm_len (sx_vecs (nt_srv w)))"
    by (auto simp: decode_int_ptr_def json_member_def split: if_splits)
  moreover have "gm_wf (sx_vecs (nt_srv w))" using ok by (simp add: vs_net_ok_def sdk_vs_ok_def)
  ultimately show "n = int (card (dom (vs_net_view w)))"
    by (simp add: gm_len_card vs_net_view_def sdk_vs_view_def dom_gm_get)
qed

interpretation sdk_sized: sized_vector_store "protocol_vector (sdk_vs_client cfg tk mx tmo)" vs_net_ok vs_net_view
  for cfg tk mx tmo
  by unfold_locales (unfold protocol_vector_simps, (rule vs_net_size; assumption | simp add: vs_net_size(2))+)

end
