(* ===== verification/Contract_Vector.thy ===== *)
theory Contract_Vector
  imports Contract_Runner Sdk_Vector_Store
begin

text \<open>
  The contract suite for vector-store plugins (\<open>internal/plugins/contract/vectorstore.go\<close>), run over the platform's
  client against a server. \<open>RequireEmpty\<close> is meant to make the suite refuse a store that holds vectors. The check
  that refuses fails, but the suite goes on: a later check flushes whatever the store held. That is proved on the
  SDK's vector-store plugin.

  The variables the checks share are a record beside the world. A dimension that cannot be allocated is left out.
\<close>

section \<open>Vectors\<close>

definition unit_vec :: "int \<Rightarrow> int \<Rightarrow> f64 list" where
  "unit_vec d i = (replicate (nat d) f64_zero)[nat (i mod d) := f64_one]"

definition vec_norm :: "f64 list \<Rightarrow> f64" where
  "vec_norm v = f64_sqrt (fold (\<lambda>x s. f64_add s (f64_mul x x)) v f64_zero)"

definition vec_normalize :: "f64 list \<Rightarrow> f64 list" where
  "vec_normalize v = map (\<lambda>x. f64_div x (vec_norm v)) v"

definition vec_mix :: "int \<Rightarrow> f64 \<Rightarrow> f64 list" where
  "vec_mix d w = vec_normalize ((replicate (nat d) f64_zero)[0 := f64_one, 1 := w])"

definition vec_scale :: "f64 list \<Rightarrow> f64 \<Rightarrow> f64 list" where
  "vec_scale v k = map (\<lambda>x. f64_mul x k) v"

definition containsID :: "Match list \<Rightarrow> string \<Rightarrow> bool" where
  "containsID ms k \<longleftrightarrow> list_ex (\<lambda>m. m_ID m = k) ms"

definition huge :: f64 where "huge = F_Num (10 ^ 9)"

fun math_Abs :: "f64 \<Rightarrow> f64" where
  "math_Abs (F_Zero s) = F_Zero False"
| "math_Abs (F_Num q) = F_Num \<bar>q\<bar>"
| "math_Abs (F_Inf s) = F_Inf False"
| "math_Abs F_NaN = F_NaN"

definition math_Max :: "f64 \<Rightarrow> f64 \<Rightarrow> f64" where
  "math_Max x y =
     (if x = F_Inf False \<or> y = F_Inf False then F_Inf False
      else if x = F_NaN \<or> y = F_NaN then F_NaN
      else if f64_eq x f64_zero \<and> f64_eq y f64_zero then (if f64_negative x then y else x)
      else if f64_lt y x then x else y)"

text \<open>\<open>sort.SliceIsSorted\<close> by distance.\<close>

fun best_to_worst :: "Match list \<Rightarrow> bool" where
  "best_to_worst (a # b # ms) \<longleftrightarrow> \<not> f64_lt (m_Distance b) (m_Distance a) \<and> best_to_worst (b # ms)"
| "best_to_worst ms \<longleftrightarrow> True"

section \<open>The suite\<close>

record vsuite =
  vu_dim :: int
  vu_ids :: "string list"   \<comment> \<open>\<open>idA, idB, idC, idD, idF\<close>\<close>

definition no_ids :: "string list" where
  "no_ids = replicate 5 []"

text \<open>A check that only reads the shared variables.\<close>

definition reading :: "(vsuite \<Rightarrow> 'w check) \<Rightarrow> ('w \<times> vsuite) check" where
  "reading f st = (case st of (w, v) \<Rightarrow> (case f v w of (r, w1) \<Rightarrow> (r, (w1, v))))"

definition vectorStoreDim :: "'w client \<Rightarrow> 'w target \<Rightarrow> 'w \<Rightarrow> int \<times> 'w" where
  "vectorStoreDim vs t = calling (pvs_Info vs) (\<lambda>info. giving
     (case info of
        Inr i \<Rightarrow> if 2 \<le> vi_Dim i then vi_Dim i else if 2 \<le> tg_VectorDim t then tg_VectorDim t else 4
      | Inl _ \<Rightarrow> if 2 \<le> tg_VectorDim t then tg_VectorDim t else 4))"

definition vc_dimension :: "'w client \<Rightarrow> 'w target \<Rightarrow> ('w \<times> vsuite) check" where
  "vc_dimension vs t st =
     (case st of (w, v) \<Rightarrow> (case vectorStoreDim vs t w of (d, w1) \<Rightarrow> (None, (w1, v\<lparr>vu_dim := d\<rparr>))))"

text \<open>What follows the second check, for a run that was canceled before it.\<close>

definition default_dim :: "'w target \<Rightarrow> ('w \<times> vsuite) \<times> report \<Rightarrow> ('w \<times> vsuite) \<times> report" where
  "default_dim t st =
     (case st of ((w, v), rep) \<Rightarrow>
        ((w, if vu_dim v = 0 then v\<lparr>vu_dim := if 2 \<le> tg_VectorDim t then tg_VectorDim t else 4\<rparr> else v), rep))"

definition vc_flush_empties :: "'w client \<Rightarrow> 'w target \<Rightarrow> vsuite \<Rightarrow> 'w check" where
  "vc_flush_empties vs t v =
     (let rest = obtaining (pvs_Upsert vs (unit_vec (vu_dim v) 0)) (\<lambda>_.
          proceed (pvs_Flush vs) (obtaining (pvs_Size vs) (\<lambda>n.
            refuse_if (n \<noteq> 0) ''size after flush = %d, want 0'' (giving None))))
      in if tg_RequireEmpty t
         then obtaining (pvs_Size vs) (\<lambda>n.
           refuse_if (n \<noteq> 0) ''store holds %d vectors; refusing to run destructive checks against a non-empty store'' rest)
         else rest)"

text \<open>The loop over \<open>ups\<close>: \<open>i\<close> counts the vectors, \<open>ids\<close> are the variables assigned, \<open>seen\<close> the ids so far.\<close>

fun vc_upserts :: "'w client \<Rightarrow> f64 list list \<Rightarrow> nat \<Rightarrow> string list \<Rightarrow> string list \<Rightarrow> 'w \<Rightarrow> (goerr option \<times> string list) \<times> 'w" where
  "vc_upserts vs [] i ids seen w = ((None, ids), w)"
| "vc_upserts vs (x # xs) i ids seen w =
     (case pvs_Upsert vs x w of
        (Inl e, w1) \<Rightarrow> ((Some e, ids[i := []]), w1)
      | (Inr k, w1) \<Rightarrow>
          if k \<in> set seen then ((Some (Errorf ''upsert #%d returned a duplicate id'' [AInt (int i)]), ids[i := k]), w1)
          else vc_upserts vs xs (Suc i) (ids[i := k]) (k # seen) w1)"

definition five_vectors :: "int \<Rightarrow> f64 list list" where
  "five_vectors d = [unit_vec d 0, vec_mix d (f64_round (3 / 10)), vec_mix d f64_one, unit_vec d 1,
     vec_scale (unit_vec d 0) (F_Num (- 1))]"

definition vc_unique_ids :: "'w client \<Rightarrow> ('w \<times> vsuite) check" where
  "vc_unique_ids vs st =
     (case st of (w, v) \<Rightarrow>
        (case vc_upserts vs (five_vectors (vu_dim v)) 0 (vu_ids v) [] w of
           ((Some e, ids), w1) \<Rightarrow> (Some e, (w1, v\<lparr>vu_ids := ids\<rparr>))
         | ((None, ids), w1) \<Rightarrow>
             (case obtaining (pvs_Size vs) (\<lambda>n. refuse_if (n \<noteq> 5) ''size = %d after %d upserts'' (giving None)) w1 of
                (e, w2) \<Rightarrow> (e, (w2, v\<lparr>vu_ids := ids\<rparr>)))))"

definition query_vec :: "vsuite \<Rightarrow> f64 list" where "query_vec v = unit_vec (vu_dim v) 0"

definition vc_nearest :: "'w client \<Rightarrow> vsuite \<Rightarrow> 'w check" where
  "vc_nearest vs v =
     obtaining (pvs_Search vs (query_vec v) 1 huge) (\<lambda>ms.
       refuse_if (length ms \<noteq> 1 \<or> m_ID (ms ! 0) \<noteq> vu_ids v ! 0) ''nearest match = %+v, want the identical vector %s''
      (refuse_if (f64_lt (f64_round (1 / 10000)) (m_Distance (ms ! 0)) \<or> f64_lt (m_Distance (ms ! 0)) (f64_round (- 1 / 10000)))
         ''distance of identical vector = %v, want ~0 (lower is more similar)'' (giving None)))"

definition vc_order :: "'w client \<Rightarrow> vsuite \<Rightarrow> 'w check" where
  "vc_order vs v =
     obtaining (pvs_Search vs (query_vec v) 10 huge) (\<lambda>all.
       refuse_if (length all \<noteq> 5) ''top_k=10 over 5 vectors returned %d matches''
      (refuse_if (\<not> best_to_worst all) ''matches are not ordered best-to-worst''
      (refuse_if (map m_ID all \<noteq> vu_ids v) ''rank %d is %s, want %s (distances %v)''
      (obtaining (pvs_Search vs (query_vec v) 3 huge) (\<lambda>three.
         refuse_if (length three \<noteq> 3 \<or> m_ID (three ! 0) \<noteq> vu_ids v ! 0 \<or> m_ID (three ! 2) \<noteq> vu_ids v ! 2)
           ''top_k=3 returned %+v'' (giving None))))))"

definition vc_threshold :: "'w client \<Rightarrow> vsuite \<Rightarrow> 'w check" where
  "vc_threshold vs v =
     calling (pvs_Search vs (query_vec v) 10 huge) (\<lambda>r.
       case r of
         Inl _ \<Rightarrow> giving (Some (Errorf ''setup search failed: %v'' []))
       | Inr all \<Rightarrow>
           refuse_if (length all < 3) ''setup search failed: %v''
          (let d = m_Distance (all ! 1); idB = vu_ids v ! 1;
               below = f64_sub d (math_Max (f64_round (1 / 10 ^ 6)) (f64_mul (math_Abs d) (f64_round (1 / 1000))))
           in obtaining (pvs_Search vs (query_vec v) 10 d) (\<lambda>hits.
                refuse_if (\<not> containsID hits idB) ''a match with distance == threshold (%v) was not returned; a hit requires distance <= threshold''
               (obtaining (pvs_Search vs (query_vec v) 10 below) (\<lambda>bs.
                  refuse_if (containsID bs idB) ''a match with distance above the threshold was returned''
                 (obtaining (pvs_Search vs (query_vec v) 10 (F_Num (- 1))) (\<lambda>none.
                    refuse_if (none \<noteq> []) ''a negative threshold returned matches'' (giving None))))))))"

text \<open>A zero vector of one dimension too many, as JSON.\<close>

definition long_vector :: "vsuite \<Rightarrow> json" where
  "long_vector v = JArr (replicate (nat (vu_dim v + 1)) (JNum f64_zero))"

definition vc_wrong_dimension :: "'w client \<Rightarrow> vsuite \<Rightarrow> 'w check" where
  "vc_wrong_dimension c v =
     proceed (expect4xx c ''POST'' ''/v1/upsert'' (Inr (JObj [(''vector'', long_vector v)])))
       (expect4xx c ''POST'' ''/v1/search''
          (Inr (JObj [(''threshold'', JInt 1), (''top_k'', JInt 1), (''vector'', long_vector v)])))"

definition vc_invalid_top_k :: "'w client \<Rightarrow> vsuite \<Rightarrow> 'w check" where
  "vc_invalid_top_k c v = expect4xx c ''POST'' ''/v1/search''
     (Inr (JObj [(''threshold'', JInt 1), (''top_k'', JInt 0), (''vector'', JArr (map JNum (query_vec v)))]))"

definition vc_delete :: "'w client \<Rightarrow> vsuite \<Rightarrow> 'w check" where
  "vc_delete vs v =
     proceed (pvs_Delete vs (vu_ids v ! 3))
      (calling (pvs_Size vs) (\<lambda>n.
       refuse_if (n \<noteq> Inr 4) ''size after delete = %d, want 4''
      (obtaining (pvs_Search vs (query_vec v) 10 huge) (\<lambda>all.
       refuse_if (containsID all (vu_ids v ! 3)) ''a deleted vector is still returned by search''
      (calling (pvs_Delete vs (vu_ids v ! 3)) (\<lambda>e.
         giving (case e of
           Some err \<Rightarrow> if statusOf err \<noteq> 404
             then Some (Errorf ''repeated delete failed with %v, want success or 404'' [AErr err]) else None
         | None \<Rightarrow> None)))))))"

definition vc_rebuild :: "'w client \<Rightarrow> vsuite \<Rightarrow> 'w check" where
  "vc_rebuild vs v =
     (let d = vu_dim v;
          entry = (\<lambda>k x. \<lparr>re_ID = k, re_Vector = x\<rparr>);
          set1 = [entry ''contract-a'' (unit_vec d 0), entry ''contract-b'' (unit_vec d 1),
                  entry ''contract-c'' (vec_mix d (f64_round (3 / 10)))]
      in calling (pvs_Rebuild vs set1) (\<lambda>r. refuse_if (r \<noteq> Inr 3) ''rebuild(3) = %d, %v''
        (calling (pvs_Size vs) (\<lambda>n. refuse_if (n \<noteq> Inr 3) ''size after rebuild = %d, want 3''
        (calling (pvs_Search vs (query_vec v) 1 huge) (\<lambda>ms.
           refuse_if (case ms of Inl _ \<Rightarrow> True | Inr xs \<Rightarrow> map m_ID xs \<noteq> [''contract-a''])
             ''after rebuild, nearest = %+v (%v), want contract-a with the caller-supplied id''
        (calling (pvs_Rebuild vs [entry ''contract-z'' (unit_vec d 1)]) (\<lambda>r. refuse_if (r \<noteq> Inr 1) ''rebuild(1) = %d, %v''
        (calling (pvs_Search vs (query_vec v) 10 huge) (\<lambda>ms.
           refuse_if (case ms of Inl _ \<Rightarrow> True | Inr xs \<Rightarrow> map m_ID xs \<noteq> [''contract-z''])
             ''rebuild merged instead of replacing: %+v (%v)''
        (calling (pvs_Rebuild vs []) (\<lambda>r. refuse_if (r \<noteq> Inr 0) ''rebuild(empty) = %d, %v''
        (calling (pvs_Size vs) (\<lambda>n. refuse_if (case n of Inr i \<Rightarrow> i \<noteq> 0 | Inl _ \<Rightarrow> False) ''size after empty rebuild = %d, want 0''
           (giving None)))))))))))))))"

definition vc_rebuild_dimension :: "'w client \<Rightarrow> vsuite \<Rightarrow> 'w check" where
  "vc_rebuild_dimension c v = expect4xx c ''POST'' ''/v1/rebuild''
     (Inr (JObj [(''entries'', JArr [JObj [(''id'', JStr ''contract-bad''), (''vector'', long_vector v)]])]))"

definition ignoring :: "('w \<Rightarrow> 'a res \<times> 'w) \<Rightarrow> 'w check" where
  "ignoring f = obtaining f (\<lambda>_. giving None)"

definition vc_worker :: "'w client \<Rightarrow> int \<Rightarrow> nat \<Rightarrow> 'w check list" where
  "vc_worker vs d w = concat (map (\<lambda>i.
     [ignoring (pvs_Upsert vs (unit_vec d (int (w + i)))), ignoring (pvs_Search vs (unit_vec d (int w)) 3 huge)]) [0..<10])"

definition vc_concurrent :: "'w client \<Rightarrow> nat list \<Rightarrow> vsuite \<Rightarrow> 'w check" where
  "vc_concurrent vs sched v =
     proceed (pvs_Flush vs)
      (proceed (parallel (map (vc_worker vs (vu_dim v)) [0..<8]) sched)
      (obtaining (pvs_Size vs) (\<lambda>n. refuse_if (n \<noteq> 80) ''size = %d after %d concurrent upserts'' (giving None))))"

definition vc_usable :: "'w client \<Rightarrow> vsuite \<Rightarrow> 'w check" where
  "vc_usable vs v =
     proceed (pvs_Flush vs)
      (calling (pvs_Upsert vs (unit_vec (vu_dim v) 0)) (\<lambda>r.
         case r of
           Inl e \<Rightarrow> giving (Some (Errorf ''store unusable after flush: %w'' [AWrap e]))
         | Inr _ \<Rightarrow> pvs_Flush vs))"

text \<open>\<open>runVectorStore\<close>, the checks in reverse order of their running; \<open>sched\<close> orders the concurrent calls.\<close>

definition vs_suite :: "'w target \<Rightarrow> nat list \<Rightarrow> ('w \<times> vsuite) \<times> report \<Rightarrow> ('w \<times> vsuite) \<times> report" where
  "vs_suite t sched st =
     (let c = tg_Client t; vs = NewVectorStore c; check = run_check (\<lambda>(w, _). cl_ctx c w)
      in check ''concurrent_upserts_and_searches'' (reading (vc_concurrent vs sched))
        (check ''rebuild_rejects_wrong_dimension'' (reading (vc_rebuild_dimension c))
        (check ''rebuild_replaces_contents'' (reading (vc_rebuild vs))
        (check ''delete_semantics'' (reading (vc_delete vs))
        (check ''invalid_top_k_rejected'' (reading (vc_invalid_top_k c))
        (check ''wrong_dimension_rejected'' (reading (vc_wrong_dimension c))
        (check ''threshold_is_inclusive'' (reading (vc_threshold vs))
        (check ''top_k_and_best_to_worst_order'' (reading (vc_order vs))
        (check ''nearest_is_identical_vector'' (reading (vc_nearest vs))
        (check ''upsert_returns_unique_safe_ids'' (vc_unique_ids vs) st))))))))))"

definition vs_start :: "'w target \<Rightarrow> 'w \<Rightarrow> ('w \<times> vsuite) \<times> report" where
  "vs_start t w =
     (let c = tg_Client t; vs = NewVectorStore c; check = run_check (\<lambda>(w, _). cl_ctx c w)
      in check ''flush_empties_store'' (reading (vc_flush_empties vs t))
        (default_dim t
        (check ''dimension'' (vc_dimension vs t)
        (check ''health'' (reading (\<lambda>_. client_Health vs)) ((w, \<lparr>vu_dim = 0, vu_ids = no_ids\<rparr>), [])))))"

definition runVectorStore :: "'w target \<Rightarrow> nat list \<Rightarrow> 'w \<Rightarrow> ('w \<times> vsuite) \<times> report" where
  "runVectorStore t sched w =
     (let c = tg_Client t; vs = NewVectorStore c
      in run_check (\<lambda>(w, _). cl_ctx c w) ''usable_after_flush'' (reading (vc_usable vs)) (vs_suite t sched (vs_start t w)))"

section \<open>What a run keeps\<close>

lemma keeps_pvs [keeping]:
  assumes "\<And>req. keeps I (cl_HTTP c req)"
  shows "keeps I (pvs_Search c x n th)" and "keeps I (pvs_Upsert c x)" and "keeps I (pvs_Delete c k)"
    and "keeps I (pvs_Size c)" and "keeps I (pvs_Flush c)" and "keeps I (pvs_Rebuild c es)"
proof -
  note K = keeps_client_call [OF assms] keeps_client_get [OF assms]
  show "keeps I (pvs_Search c x n th)" "keeps I (pvs_Upsert c x)" "keeps I (pvs_Delete c k)"
    "keeps I (pvs_Size c)" "keeps I (pvs_Flush c)" "keeps I (pvs_Rebuild c es)"
    unfolding pvs_Search_def pvs_Upsert_def pvs_Delete_def pvs_Size_def pvs_Flush_def pvs_Rebuild_def
    by (auto intro!: keepsI split: prod.splits sum.splits option.splits dest: K [THEN keeps_fwd])
qed

lemma keeps_info [keeping]:
  assumes "\<And>req. hq_method req = ''GET'' \<Longrightarrow> keeps I (cl_HTTP c req)"
  shows "keeps I (pvs_Info c)"
proof (rule keepsI)
  fix w
  assume w: "I w"
  obtain st e i w1 where d: "client_Do c ''GET'' ''/v1/info'' [] None (Some decode_info) \<lparr>vi_Dim = 0, vi_Metric = ''''\<rparr> w
      = ((st, e, i), w1)" by (metis surj_pair)
  have "keeps I (client_Do c ''GET'' ''/v1/info'' [] None (Some decode_info) \<lparr>vi_Dim = 0, vi_Metric = ''''\<rparr>)"
    by (rule keeps_client_Do_req) (simp add: assms)
  then have w1: "I w1" using d w by (rule keeps_fwd)
  obtain r w2 where h: "client_HealthDetail c w1 = (r, w2)" by fastforce
  have "I w2" using keeps_fwd [OF keeps_client_HealthDetail [OF assms] h w1] .
  then show "I (snd (pvs_Info c w))" using w1 d h by (simp add: pvs_Info_def split: sum.split)
qed

lemma NewVectorStore_HTTP [simp]: "cl_HTTP (NewVectorStore c) = cl_HTTP c" "cl_ctx (NewVectorStore c) = cl_ctx c"
  "cl_Token (NewVectorStore c) = cl_Token c"
  by (simp_all add: NewVectorStore_def Let_def)

lemma keeps_vc_upserts:
  assumes "\<And>req. keeps I (cl_HTTP c req)" and "I w"
  shows "I (snd (vc_upserts c xs i ids seen w))"
  using assms(2)
proof (induction xs arbitrary: i ids seen w)
  case (Cons x xs)
  obtain r t where u: "pvs_Upsert c x w = (r, t)" by fastforce
  have "I t" using keeps_fwd [OF keeps_pvs(2) [OF assms(1)] u Cons.prems] .
  then show ?case using Cons.IH u by (simp split: sum.split)
qed simp

lemma keeps_unique_ids:
  assumes "\<And>req. keeps I (cl_HTTP vs req)"
  shows "keeps (\<lambda>st. I (fst st)) (vc_unique_ids vs)"
proof (rule keepsI, clarify)
  fix w :: 'a and v :: vsuite
  assume w: "I (fst (w, v))"
  obtain e ids w1 where u: "vc_upserts vs (five_vectors (vu_dim v)) 0 (vu_ids v) [] w = ((e, ids), w1)"
    by (metis surj_pair)
  have "I w1" using keeps_vc_upserts [OF assms, of w "five_vectors (vu_dim v)" 0 "vu_ids v" "[]"] w u by simp
  moreover have "keeps I (obtaining (pvs_Size vs) (\<lambda>n. refuse_if (n \<noteq> 5) ''size = %d after %d upserts'' (giving None)))"
    by (intro keeping assms)
  ultimately show "I (fst (snd (vc_unique_ids vs (w, v))))"
    using u by (auto simp: vc_unique_ids_def keeps_def split: option.splits prod.splits)
qed

lemma keeps_reading: "(\<And>v. keeps I (f v)) \<Longrightarrow> keeps (\<lambda>st. I (fst st)) (reading f)"
  by (auto simp: keeps_def reading_def split: prod.splits) (metis snd_conv)

lemma keeps_ignoring [keeping]: "keeps I f \<Longrightarrow> keeps I (ignoring f)"
  unfolding ignoring_def by (intro keeping)

lemma keeps_vs_checks:
  assumes "\<And>req. keeps I (cl_HTTP vs req)"
  shows "keeps I (vc_flush_empties vs t v)" and "keeps I (vc_nearest vs v)" and "keeps I (vc_order vs v)"
    and "keeps I (vc_threshold vs v)" and "keeps I (vc_wrong_dimension vs v)" and "keeps I (vc_invalid_top_k vs v)"
    and "keeps I (vc_delete vs v)" and "keeps I (vc_rebuild vs v)" and "keeps I (vc_rebuild_dimension vs v)"
    and "keeps I (vc_concurrent vs sched v)" and "keeps I (vc_usable vs v)"
proof -
  note K = keeping assms keeps_pvs [OF assms]
  show "keeps I (vc_flush_empties vs t v)" "keeps I (vc_nearest vs v)" "keeps I (vc_order vs v)"
    "keeps I (vc_wrong_dimension vs v)" "keeps I (vc_invalid_top_k vs v)"
    "keeps I (vc_delete vs v)" "keeps I (vc_rebuild vs v)" "keeps I (vc_rebuild_dimension vs v)"
    unfolding vc_flush_empties_def vc_nearest_def vc_order_def vc_wrong_dimension_def
      vc_invalid_top_k_def vc_delete_def vc_rebuild_def vc_rebuild_dimension_def Let_def
    by (auto intro!: K)
  show "keeps I (vc_threshold vs v)" "keeps I (vc_usable vs v)"
    unfolding vc_threshold_def vc_usable_def Let_def by (auto intro!: K split: sum.split)
  show "keeps I (vc_concurrent vs sched v)"
    unfolding vc_concurrent_def by (intro K) (auto simp: vc_worker_def intro!: K)
qed

lemma keeps_dimension:
  assumes "\<And>req. hq_method req = ''GET'' \<Longrightarrow> keeps I (cl_HTTP vs req)"
  shows "keeps (\<lambda>st. I (fst st)) (vc_dimension vs t)"
proof (rule keepsI, clarify)
  fix w :: 'a and v :: vsuite
  assume w: "I (fst (w, v))"
  have "keeps I (vectorStoreDim vs t)"
    unfolding vectorStoreDim_def by (intro keeping assms)
  then show "I (fst (snd (vc_dimension vs t (w, v))))"
    using w by (auto simp: vc_dimension_def keeps_def split: prod.splits)
qed

lemma default_dim_world [simp]: "fst (fst (default_dim t st)) = fst (fst st)" "snd (default_dim t st) = snd st"
  by (auto simp: default_dim_def split: prod.splits)

text \<open>The suite keeps what every exchange keeps.\<close>

lemma vs_start_keeps:
  assumes h: "\<And>req. keeps I (cl_HTTP (tg_Client t) req)" and w: "I w"
  shows "I (fst (fst (vs_start t w)))"
proof -
  have hv: "keeps I (cl_HTTP (NewVectorStore (tg_Client t)) req)" for req using h by simp
  note R = run_check_keeps [where I = "\<lambda>st. I (fst st)"]
  show ?thesis
    unfolding vs_start_def Let_def using w
    by (intro R keeps_reading keeps_vs_checks hv keeps_client_Health)
      (simp, intro R keeps_dimension hv keeps_reading keeps_client_Health, simp)
qed

lemma vs_suite_keeps:
  assumes h: "\<And>req. keeps I (cl_HTTP (tg_Client t) req)" and w: "I (fst (fst st))"
  shows "I (fst (fst (vs_suite t sched st)))"
proof -
  have hv: "keeps I (cl_HTTP (NewVectorStore (tg_Client t)) req)" for req using h by simp
  note R = run_check_keeps [where I = "\<lambda>st. I (fst st)"]
  show ?thesis
    unfolding vs_suite_def Let_def
    by (intro R keeps_reading keeps_vs_checks h hv keeps_unique_ids w)
qed

section \<open>The suite against the SDK's plugin\<close>

definition sdk_vs_raw :: "sdk_vs_cfg \<Rightarrow> string \<Rightarrow> int \<Rightarrow> int \<Rightarrow> sdk_vs net client" where
  "sdk_vs_raw cfg token maxResponse timeout =
     \<lparr>cl_Token = token, cl_MaxResponse = maxResponse, cl_Timeout = timeout,
      cl_HTTP = net_send (sdk_vs_serve cfg), cl_ctx = (\<lambda>_. None), cl_scrub = (\<lambda>s. s)\<rparr>"

lemma sdk_vs_client_raw: "NewVectorStore (sdk_vs_raw cfg tk mx tmo) = sdk_vs_client cfg tk mx tmo"
  by (simp add: sdk_vs_client_def sdk_vs_raw_def)

lemma sdk_vs_raw_simps [simp]:
  "cl_HTTP (sdk_vs_raw cfg tk mx tmo) = net_send (sdk_vs_serve cfg)" "cl_ctx (sdk_vs_raw cfg tk mx tmo) w = None"
  "cl_Token (sdk_vs_raw cfg tk mx tmo) = tk"
  by (simp_all add: sdk_vs_raw_def)

lemma sdk_vs_client_simps [simp]:
  "cl_HTTP (sdk_vs_client cfg tk mx tmo) = net_send (sdk_vs_serve cfg)" "cl_ctx (sdk_vs_client cfg tk mx tmo) w = None"
  "cl_Token (sdk_vs_client cfg tk mx tmo) = tk"
  by (simp_all add: sdk_vs_client_raw [symmetric])

text \<open>Every request keeps the plugin's map well formed; a \<open>GET\<close> keeps it as it is.\<close>

lemma sdk_vs_serve_ok: "sdk_vs_ok s \<Longrightarrow> sdk_vs_ok (snd (sdk_vs_serve cfg req s))"
  by (auto simp: sdk_vs_serve_def withAuth_def sdk_vs_mux_def sdk_vs_upsert_def sdk_vs_rebuild_def sdk_vs_delete_def
      sdk_vs_ok_def Let_def gm_wf_put gm_wf_del gm_wf_empty dest: rebuild_loop_ok(1) split: option.splits sum.splits)

lemma sdk_vs_serve_get: "hq_method req = ''GET'' \<Longrightarrow> snd (sdk_vs_serve cfg req s) = s"
  by (simp add: sdk_vs_serve_def withAuth_def sdk_vs_mux_def Let_def)

definition vs_delivering :: "sdk_vs net \<Rightarrow> bool" where
  "vs_delivering w \<longleftrightarrow> vs_net_ok w \<and> nt_script w = []"

lemma keeps_delivering: "keeps vs_delivering (net_send (sdk_vs_serve cfg) req)"
proof (rule keepsI)
  fix w
  assume w: "vs_delivering w"
  obtain resp s where r: "sdk_vs_serve cfg req (nt_srv w) = (resp, s)" by fastforce
  have "sdk_vs_ok s" using sdk_vs_serve_ok [of "nt_srv w" cfg req] w r by (simp add: vs_delivering_def vs_net_ok_def)
  then show "vs_delivering (snd (net_send (sdk_vs_serve cfg) req w))"
    using w r by (auto simp: vs_delivering_def vs_net_ok_def net_send_def Let_def split: net_fault.splits)
qed

lemma keeps_get:
  "hq_method req = ''GET'' \<Longrightarrow> keeps (\<lambda>w. nt_srv w = s \<and> nt_script w = []) (net_send (sdk_vs_serve cfg) req)"
  using sdk_vs_serve_get [of req cfg s]
  by (auto simp: keeps_def net_send_def Let_def split: net_fault.splits prod.splits)

text \<open>A flush that is delivered empties the plugin, whatever becomes of its answer.\<close>

lemma flush_delivered:
  assumes "nt_script w = []" and "vc_token cfg = tk"
  shows "nt_srv (snd (pvs_Flush (sdk_vs_client cfg tk mx tmo) w)) = (nt_srv w)\<lparr>sx_vecs := []\<rparr>"
proof -
  let ?c = "sdk_vs_client cfg tk mx tmo"
  obtain resp where r: "sdk_vs_serve cfg (client_req ?c ''POST'' ''/v1/flush'' [] (Some (JObj []))) (nt_srv w) =
      (resp, (nt_srv w)\<lparr>sx_vecs := []\<rparr>)"
    using assms(2) by (auto simp: sdk_vs_serve_def withAuth_def sdk_vs_mux_def Let_def client_req_def trim_prefix_def has_prefix_def)
  show ?thesis
    using client_Do_delivered [OF sdk_vs_client_net assms(1), where b = "Some (JObj [])" and dec = None and out = "()"] r
    by (auto simp: pvs_Flush_def client_call_def split: prod.splits option.splits)
qed

lemma flush_delivered_view:
  "vs_delivering w \<Longrightarrow> vc_token cfg = tk \<Longrightarrow> pvs_Flush (sdk_vs_client cfg tk mx tmo) w = (r, t) \<Longrightarrow>
   vs_delivering t \<and> vs_net_view t = Map.empty"
  using flush_delivered [of w cfg tk mx tmo] keeps_fwd [OF keeps_pvs(5), of vs_delivering "sdk_vs_client cfg tk mx tmo"]
    keeps_delivering
  by (auto simp: vs_delivering_def vs_net_view_def sdk_vs_view_def gm_get_empty fun_eq_iff)

text \<open>The last check leaves at most the vector it inserts itself.\<close>

lemma usable_erases:
  assumes w: "vs_delivering w" and tk: "vc_token cfg = tk"
    and run: "vc_usable (sdk_vs_client cfg tk mx tmo) v w = (r, t)"
  shows "\<exists>k. vs_net_view t \<in> {Map.empty, [k \<mapsto> unit_vec (vu_dim v) 0]}"
proof -
  let ?c = "sdk_vs_client cfg tk mx tmo" and ?x = "unit_vec (vu_dim v) 0"
  obtain e w1 where f: "pvs_Flush ?c w = (e, w1)" by fastforce
  note F = flush_delivered_view [OF w tk f]
  show ?thesis
  proof (cases e)
    case (Some err)
    then show ?thesis using F f run by (simp add: vc_usable_def proceed_def calling_def giving_def)
  next
    case None
    obtain u w2 where u: "pvs_Upsert ?c ?x w1 = (u, w2)" by fastforce
    have ok1: "vs_net_ok w1" using F by (simp add: vs_delivering_def)
    have w2: "vs_delivering w2"
      using keeps_fwd [OF keeps_pvs(2) u] keeps_delivering F by auto
    show ?thesis
    proof (cases u)
      case (Inl err)
      have "vs_Upsert (protocol_vector ?c) ?x w1 = (Inl err, w2)" using u Inl by simp
      from sdk_vs.upsert_err [OF ok1 this] show ?thesis
        using Inl None f u run F by (auto simp: vc_usable_def proceed_def calling_def giving_def)
    next
      case (Inr k)
      then have "pvs_Flush ?c w2 = (r, t)"
        using None f u run by (simp add: vc_usable_def proceed_def calling_def)
      then show ?thesis using flush_delivered_view [OF w2 tk] by blast
    qed
  qed
qed

text \<open>The check that refuses: a store that holds vectors makes it fail.\<close>

lemma refusal_fails:
  assumes w: "vs_net_ok w" and req: "tg_RequireEmpty t" and some: "vs_net_view w \<noteq> Map.empty"
    and run: "vc_flush_empties (sdk_vs_client cfg tk mx tmo) t v w = (r, u)"
  shows "\<exists>e. r = Some e \<and> errors_as is_skip e = None"
proof -
  let ?c = "sdk_vs_client cfg tk mx tmo"
  obtain n w1 where n: "pvs_Size ?c w = (n, w1)" by fastforce
  show ?thesis
  proof (cases n)
    case (Inl e)
    have "errors_as is_skip e = None"
      using n Inl client_error_not_skip [OF sdk_vs_client_net, of cfg tk mx tmo]
      by (auto simp: pvs_Size_def client_get_def ErrMalformed_def split: prod.splits sum.splits option.splits if_splits)
    then show ?thesis using Inl n run req by (auto simp: vc_flush_empties_def Let_def obtaining_def calling_def giving_def)
  next
    case (Inr i)
    have "vs_Size (protocol_vector ?c) w = (Inr i, w1)" using n Inr by simp
    from sdk_sized.vsize_value [OF w this] sdk_vs.finite_vview [OF w] have "i \<noteq> 0"
      using some by (auto simp: card_eq_0_iff dom_def fun_eq_iff)
    then show ?thesis
      using Inr n run req by (auto simp: vc_flush_empties_def Let_def obtaining_def calling_def giving_def refuse_if_def)
  qed
qed

lemma vs_start_reports:
  assumes w: "vs_delivering w" and req: "tg_RequireEmpty t" and some: "vs_net_view w \<noteq> Map.empty"
    and c: "tg_Client t = sdk_vs_raw cfg tk mx tmo"
  shows "\<exists>e. (''flush_empties_store'', Fail e) \<in> set (snd (vs_start t w))"
proof -
  let ?c = "sdk_vs_client cfg tk mx tmo" and ?I = "\<lambda>u. nt_srv u = nt_srv w \<and> nt_script u = []"
  let ?chk = "run_check (\<lambda>(w, _). cl_ctx (tg_Client t) w)"
  define st where "st = default_dim t (?chk ''dimension'' (vc_dimension ?c t)
        (?chk ''health'' (reading (\<lambda>_. client_Health ?c)) ((w, \<lparr>vu_dim = 0, vu_ids = no_ids\<rparr>), [])))"
  have g: "hq_method req = ''GET'' \<Longrightarrow> keeps ?I (cl_HTTP ?c req)" for req
    using keeps_get [of req "nt_srv w" cfg] by simp
  have dm: "keeps (\<lambda>st. ?I (fst st)) (vc_dimension ?c t)" by (rule keeps_dimension) (rule g)
  have "?I (fst (fst st))"
    unfolding st_def default_dim_world
    by (intro run_check_keeps [where I = "\<lambda>st. ?I (fst st)"] dm keeps_reading keeps_client_Health g)
      (use w in \<open>simp_all add: vs_delivering_def\<close>)
  then have ok: "vs_net_ok (fst (fst st))" and view: "vs_net_view (fst (fst st)) \<noteq> Map.empty"
    using w some by (auto simp: vs_delivering_def vs_net_ok_def vs_net_view_def)
  obtain w1 v rep where st: "st = ((w1, v), rep)" by (metis surj_pair)
  obtain r u where run: "vc_flush_empties ?c t v w1 = (r, u)" by fastforce
  obtain e where e: "r = Some e" "errors_as is_skip e = None"
    using refusal_fails [OF _ req _ run] ok view st by auto
  have "(''flush_empties_store'', Fail e) \<in> set (snd (?chk ''flush_empties_store'' (reading (vc_flush_empties ?c t)) st))"
    by (rule run_check_fail) (use c st run e in \<open>simp_all add: reading_def\<close>)
  then show ?thesis
    unfolding vs_start_def st_def Let_def c sdk_vs_client_raw by blast
qed


definition demo_vs_cfg :: sdk_vs_cfg where
  "demo_vs_cfg = \<lparr>vc_dim = 2, vc_metric = ''cosine'', vc_token = ''t'', vc_bytes = (\<lambda>_. 100), vc_newID = (\<lambda>n. nat_digits n)\<rparr>"

definition demo_vs_target :: "sdk_vs net target" where
  "demo_vs_target = \<lparr>tg_Client = sdk_vs_raw demo_vs_cfg ''t'' 0 0, tg_Model = '''', tg_VectorDim = 0,
     tg_AllowUnnormalized = False, tg_RequireEmpty = True\<rparr>"

definition demo_vs_net :: "sdk_vs net" where
  "demo_vs_net = \<lparr>nt_srv = \<lparr>sx_vecs = [(''live'', [f64_one, f64_zero])], sx_drawn = 0\<rparr>, nt_script = []\<rparr>"


end
