(* ===== verification/Contract_Models.thy ===== *)
theory Contract_Models
  imports Protocol_Models Contract_Vector
begin

text \<open>
  The contract suites for LLM and embedder plugins (\<open>internal/plugins/contract/llm.go\<close>, \<open>embedder.go\<close>), run over the
  platform's client.

  A check runs in the goroutine of the runner, which recovers a panic and reports it as a failure. The calls of
  \<open>parallel\<close> run in goroutines of their own, where a panic ends the process: the embedder suite is a function to
  an option, and \<open>None\<close> is that end.
\<close>

section \<open>LLM plugins\<close>

definition ErrCanceled :: goerr where "ErrCanceled = Sentinel ''context.Canceled''"

text \<open>The backend under a context of the check's own that has ended with \<open>e\<close>.\<close>

definition ended :: "goerr \<Rightarrow> 'w remote_llm \<Rightarrow> 'w remote_llm" where
  "ended e l = l\<lparr>rl_c := (rl_c l)\<lparr>cl_ctx := \<lambda>_. Some e\<rparr>\<rparr>"

definition large_prompt :: string where
  "large_prompt = ''h'' @ map char_of [0xC3, 0xA9 :: nat] @ ''llo w'' @ map char_of [0xC3, 0xB6 :: nat] @ ''rld '' @
     map char_of [0xE4, 0xBD, 0xA0, 0xE5, 0xA5, 0xBD :: nat] @ '' '' @ map char_of [0xF0, 0x9F, 0x99, 0x82 :: nat] @ '' '' @
     replicate (64 * 1024) CHR ''x''"

definition lc_reply :: "'w remote_llm \<Rightarrow> 'w check" where
  "lc_reply b = obtaining (plm_Complete b ''contract test: say hello'') (\<lambda>got.
     refuse_if (trim_space got = []) ''empty reply'' (giving None))"

definition lc_large :: "'w remote_llm \<Rightarrow> 'w check" where
  "lc_large b = calling (plm_Complete b large_prompt) (\<lambda>r. giving
     (case r of Inl e \<Rightarrow> Some (Errorf ''64 KiB unicode prompt failed: %w'' [AWrap e]) | Inr _ \<Rightarrow> None))"

definition lc_ended :: "goerr \<Rightarrow> string \<Rightarrow> 'w remote_llm \<Rightarrow> 'w check" where
  "lc_ended e msg b = calling (plm_Complete (ended e b) ''hi'') (\<lambda>r.
     refuse_if (case r of Inl err \<Rightarrow> \<not> errors_is err e | Inr _ \<Rightarrow> True) msg (giving None))"

definition lc_malformed :: "'w client \<Rightarrow> string \<Rightarrow> 'w check" where
  "lc_malformed c model = expect4xx c ''POST'' ''/v1/complete'' (Inr (complete_request model ''''))"

definition lc_concurrent :: "'w remote_llm \<Rightarrow> nat list \<Rightarrow> 'w check" where
  "lc_concurrent b sched = parallel
     (map (\<lambda>i. [obtaining (plm_Complete b (''concurrent '' @ itoa (int i))) (\<lambda>_. giving None)]) [0..<8]) sched"

fun decode_any_map :: "json \<Rightarrow> unit res" where
  "decode_any_map (JObj ms) = Inr ()"
| "decode_any_map JNull = Inr ()"
| "decode_any_map _ = Inl ErrUnmarshal"

definition lc_usage :: "'w client \<Rightarrow> 'w check" where
  "lc_usage c = calling (client_Do c ''GET'' ''/v1/usage'' [] None (Some decode_any_map) ()) (\<lambda>(status, err, _).
     giving (case err of Some e \<Rightarrow> if status = 404 then None else Some e | None \<Rightarrow> None))"

definition runLLM :: "'w target \<Rightarrow> nat list \<Rightarrow> 'w \<Rightarrow> 'w \<times> report" where
  "runLLM t sched w =
     (let c = tg_Client t; model = (if tg_Model t = [] then ''contract-test'' else tg_Model t); b = NewLLM c model;
          check = run_check (cl_ctx c)
      in check ''usage_optional'' (lc_usage c)
        (check ''concurrent_requests'' (lc_concurrent b sched)
        (check ''malformed_request_rejected'' (lc_malformed c model)
        (check ''expired_deadline'' (lc_ended DeadlineExceeded ''reply=%q err=%v, want context.DeadlineExceeded and no reply'' b)
        (check ''canceled_context'' (lc_ended ErrCanceled ''reply=%q err=%v, want context.Canceled and no reply'' b)
        (check ''unicode_and_large_prompt'' (lc_large b)
        (check ''reply'' (lc_reply b)
        (check ''health'' (client_Health (rl_c b)) (w, [])))))))))"

section \<open>Embedder plugins\<close>

text \<open>\<open>cosineDistance\<close>: \<open>None\<close> is the panic of \<open>b[i]\<close> out of range.\<close>

definition cosineDistance :: "f64 list \<Rightarrow> f64 list \<Rightarrow> f64 option" where
  "cosineDistance a b =
     (if length b < length a then None
      else let dot = fold (\<lambda>(x, y) s. f64_add s (f64_mul x y)) (zip a b) f64_zero; na = vec_norm a; nb = vec_norm b
           in Some (if f64_eq na f64_zero \<or> f64_eq nb f64_zero then f64_one
                    else f64_sub f64_one (f64_div dot (f64_mul na nb))))"

definition suite_texts :: "string list" where
  "suite_texts = [''hello'', ''What is virtual memory?'',
     ''h'' @ map char_of [0xC3, 0xA9 :: nat] @ ''llo w'' @ map char_of [0xC3, 0xB6 :: nat] @ ''rld '' @
       map char_of [0xE4, 0xBD, 0xA0, 0xE5, 0xA5, 0xBD :: nat],
     ''a'', ''the quick brown fox jumps over the lazy dog'']"

definition milli :: f64 where "milli = f64_round (1 / 1000)"

text \<open>The variables the checks share: \<open>dim\<close> and \<open>name\<close>.\<close>

type_synonym 'w esuite = "'w \<times> int \<times> string"

definition es_world :: "(int \<Rightarrow> string \<Rightarrow> 'w check) \<Rightarrow> 'w esuite check" where
  "es_world f st = (case st of (w, d, n) \<Rightarrow> (case f d n w of (r, w1) \<Rightarrow> (r, (w1, d, n))))"

definition ec_model_info :: "'w client \<Rightarrow> 'w esuite check" where
  "ec_model_info e st =
     (case st of (w, d, n) \<Rightarrow>
        (case pem_ModelInfo e w of
           (Inl err, w1) \<Rightarrow> (Some err, (w1, d, n))
         | (Inr info, w1) \<Rightarrow> (None, (w1, mi_Dim info, mi_Name info))))"

fun ec_shape :: "'w client \<Rightarrow> string list \<Rightarrow> int \<Rightarrow> string \<Rightarrow> 'w check" where
  "ec_shape e [] d n = giving None"
| "ec_shape e (tx # txs) d n =
     calling (pem_EmbedDetailed e tx) (\<lambda>r.
       case r of
         Inl err \<Rightarrow> giving (Some (Errorf ''%q: %w'' [AStr tx, AWrap err]))
       | Inr (v, model) \<Rightarrow>
           refuse_if (d \<noteq> 0 \<and> int (length v) \<noteq> d) ''vector length %d differs from model-info dim %d''
          (refuse_if (model \<noteq> [] \<and> n \<noteq> [] \<and> model \<noteq> n) ''embed reported model %q but model-info says %q''
          (ec_shape e txs d n)))"

text \<open>\<open>first\<close> is the length of the first vector, \<open>None\<close> before it.\<close>

fun ec_stable :: "'w client \<Rightarrow> string list \<Rightarrow> nat option \<Rightarrow> 'w check" where
  "ec_stable e [] fst_len = giving None"
| "ec_stable e (tx # txs) fst_len =
     obtaining (pem_Embed e tx) (\<lambda>v.
       case fst_len of
         None \<Rightarrow> ec_stable e txs (Some (length v))
       | Some n \<Rightarrow> refuse_if (length v \<noteq> n) ''dimension changed from %d to %d'' (ec_stable e txs fst_len))"

fun ec_unit :: "'w client \<Rightarrow> string list \<Rightarrow> 'w check" where
  "ec_unit e [] = giving None"
| "ec_unit e (tx # txs) =
     obtaining (pem_Embed e tx) (\<lambda>v.
       refuse_if (f64_lt milli (math_Abs (f64_sub (vec_norm v) f64_one)))
         ''vector for %q has length %.5f, want 1 (cosine similarity assumes unit vectors)'' (ec_unit e txs))"

definition ec_normalized :: "'w client \<Rightarrow> bool \<Rightarrow> 'w check" where
  "ec_normalized e unnormalized =
     (if unnormalized then giving (Some (SkipError ''unit length not required for this plugin'')) else ec_unit e suite_texts)"

definition ec_deterministic :: "'w client \<Rightarrow> 'w check" where
  "ec_deterministic e =
     obtaining (pem_Embed e ''What is virtual memory?'') (\<lambda>a.
     obtaining (pem_Embed e ''What is virtual memory?'') (\<lambda>b.
       case cosineDistance a b of
         None \<Rightarrow> giving (Some (Errorf ''panic: %v'' [AStr ''index out of range'']))
       | Some d \<Rightarrow> refuse_if (f64_lt milli d)
           ''the same text embedded twice differs by distance %.5f; identical prompts would miss the cache'' (giving None)))"

text \<open>One concurrent call, in a goroutine of its own. Beside the world: whether a goroutine has panicked.\<close>

definition ec_call :: "'w client \<Rightarrow> f64 list \<Rightarrow> ('w \<times> bool) check" where
  "ec_call e ref st =
     (case st of (w, dead) \<Rightarrow>
        (case pem_Embed e ''concurrent'' w of
           (Inl err, w1) \<Rightarrow> (Some err, (w1, dead))
         | (Inr v, w1) \<Rightarrow>
             (case cosineDistance ref v of
                None \<Rightarrow> (None, (w1, True))
              | Some d \<Rightarrow>
                  (if f64_lt milli d then Some (Errorf ''concurrent calls returned different vectors for the same text'' []) else None,
                   (w1, dead)))))"

definition ec_concurrent :: "'w client \<Rightarrow> nat list \<Rightarrow> 'w \<Rightarrow> (goerr option \<times> 'w) option" where
  "ec_concurrent e sched w =
     (case pem_Embed e ''concurrent'' w of
        (Inl err, w1) \<Rightarrow> Some (Some err, w1)
      | (Inr ref, w1) \<Rightarrow>
          (case parallel (replicate 8 [ec_call e ref]) sched (w1, False) of
             (r, (w2, dead)) \<Rightarrow> if dead then None else Some (r, w2)))"

definition ec_malformed :: "'w client \<Rightarrow> 'w check" where
  "ec_malformed c = expect4xx c ''POST'' ''/v1/embed'' (Inr (JObj [(''text'', JInt 42)]))"

text \<open>The checks up to the concurrent one.\<close>

definition embed_checks :: "'w target \<Rightarrow> 'w \<Rightarrow> 'w esuite \<times> report" where
  "embed_checks t w =
     (let e = NewEmbedder (tg_Client t); check = run_check (\<lambda>(w, _). cl_ctx (tg_Client t) w)
      in check ''deterministic_for_same_text'' (es_world (\<lambda>_ _. ec_deterministic e))
        (check ''normalized_unit_length'' (es_world (\<lambda>_ _. ec_normalized e (tg_AllowUnnormalized t)))
        (check ''stable_dimension'' (es_world (\<lambda>_ _. ec_stable e suite_texts None))
        (check ''vector_shape_and_finite'' (es_world (ec_shape e suite_texts))
        (check ''model_info'' (ec_model_info e)
        (check ''health'' (es_world (\<lambda>_ _. client_Health e)) ((w, 0, []), [])))))))"

definition runEmbedder :: "'w target \<Rightarrow> nat list \<Rightarrow> 'w \<Rightarrow> ('w \<times> report) option" where
  "runEmbedder t sched w =
     (let c = tg_Client t; e = NewEmbedder c in
      case embed_checks t w of
        ((w1, _), rep) \<Rightarrow>
          (case (if cl_ctx c w1 = None then ec_concurrent e sched w1 else Some (None, w1)) of
             None \<Rightarrow> None
           | Some res \<Rightarrow> Some (run_check (cl_ctx c) ''malformed_request_rejected'' (ec_malformed c)
               (run_check (cl_ctx c) ''concurrent_calls'' (\<lambda>_. res) (w1, rep)))))"

end
