(* ===== verification/Contract_Embedder.thy ===== *)
theory Contract_Embedder
  imports Contract_Models
begin

text \<open>
  What a plugin can do to the process that verifies it: an embedder whose answers are all accepted, but which answers
  the same text with a shorter vector the second time, makes \<open>cosineDistance\<close> index out of range in a goroutine of
  the concurrent check, where nothing recovers the panic.
\<close>

text \<open>The plugin: its state is whether it has been asked for the text of the concurrent check.\<close>

definition shrink_vector :: "bool \<Rightarrow> f64 list" where
  "shrink_vector again = (if again then [f64_one] else [f64_one, f64_zero])"

definition shrink_answer :: "bool \<Rightarrow> json" where
  "shrink_answer again = JObj [(''vector'', JArr (map JNum (shrink_vector again))),
     (''dim'', JInt (int (length (shrink_vector again)))), (''model'', JStr ''m'')]"

definition shrink_serve :: "bool server" where
  "shrink_serve req asked =
     (let bytes = \<lambda>_. 100; now = hq_body req = Some (JObj [(''text'', JStr ''concurrent'')]) in
      if hq_method req = ''GET'' \<and> hq_path req = ''/v1/model-info''
      then (reply_json bytes 200 (JObj [(''name'', JStr ''m''), (''dim'', JInt 2)]), asked)
      else if hq_method req = ''POST'' then (reply_json bytes 200 (shrink_answer (asked \<and> now)), asked \<or> now)
      else (reply_json bytes 200 (JObj []), asked))"

definition shrink_raw :: "bool net client" where
  "shrink_raw = \<lparr>cl_Token = ''t'', cl_MaxResponse = 0, cl_Timeout = 0, cl_HTTP = net_send shrink_serve,
     cl_ctx = (\<lambda>_. None), cl_scrub = (\<lambda>s. s)\<rparr>"

definition shrink_target :: "bool net target" where
  "shrink_target = \<lparr>tg_Client = shrink_raw, tg_Model = '''', tg_VectorDim = 0, tg_AllowUnnormalized = False,
     tg_RequireEmpty = True\<rparr>"

abbreviation (input) shrink_client :: "bool net client" where
  "shrink_client \<equiv> NewEmbedder shrink_raw"

lemma shrink_net: "net_client shrink_serve shrink_client"
  by (simp add: net_client_def shrink_raw_def NewEmbedder_def)

text \<open>Every answer is accepted.\<close>

lemma shrink_embed:
  assumes "nt_script w = []"
  shows "pem_EmbedDetailed shrink_client tx w =
    (Inr (shrink_vector (nt_srv w \<and> tx = ''concurrent''), ''m''), w\<lparr>nt_srv := nt_srv w \<or> tx = ''concurrent''\<rparr>)"
proof -
  let ?b = "JObj [(''text'', JStr tx)]" and ?again = "nt_srv w \<and> tx = ''concurrent''"
  let ?out = "\<lparr>ea_Vector = shrink_vector ?again, ea_Dim = int (length (shrink_vector ?again)), ea_Model = ''m''\<rparr>"
  have srv: "shrink_serve (client_req shrink_client ''POST'' ''/v1/embed'' [] (Some ?b)) (nt_srv w) =
      (reply_json (\<lambda>_. 100) 200 (shrink_answer ?again), nt_srv w \<or> tx = ''concurrent'')"
    by (simp add: shrink_serve_def Let_def)
  have dec: "decode_embedding (shrink_answer a) = Inr \<lparr>ea_Vector = shrink_vector a, ea_Dim = int (length (shrink_vector a)), ea_Model = ''m''\<rparr>" for a
    by (cases a) (simp_all add: decode_embedding_def shrink_answer_def shrink_vector_def json_member_def no_embedding_def
        int64_min_def int64_max_def)
  have get: "client_get shrink_client ''POST'' ''/v1/embed'' [] (Some (Inr ?b)) decode_embedding no_embedding w =
      (Inr ?out, w\<lparr>nt_srv := nt_srv w \<or> tx = ''concurrent''\<rparr>)"
    by (rule client_get_answered [where serve = shrink_serve and bytes = "\<lambda>_. 100" and j = "shrink_answer ?again" and d = decode_embedding
        and s = "nt_srv w \<or> tx = ''concurrent''" and x = ?out, OF shrink_net assms srv _ dec]) (simp add: shrink_raw_def NewEmbedder_def)
  have "ValidateVector (shrink_vector a) (int (length (shrink_vector a))) = None" for a
    by (cases a) (simp_all add: ValidateVector_def shrink_vector_def MaxEmbeddingDim_def f64_one_def f64_zero_def)
  then show ?thesis by (simp add: pem_EmbedDetailed_def get)
qed

lemma shrink_embed_vector:
  "nt_script w = [] \<Longrightarrow> pem_Embed shrink_client tx w =
    (Inr (shrink_vector (nt_srv w \<and> tx = ''concurrent'')), w\<lparr>nt_srv := nt_srv w \<or> tx = ''concurrent''\<rparr>)"
  by (simp add: pem_Embed_def shrink_embed)

text \<open>The checks before the concurrent one never send its text.\<close>

definition unasked :: "bool net \<Rightarrow> bool" where
  "unasked w \<longleftrightarrow> \<not> nt_srv w \<and> nt_script w = []"

lemma unasked_embed:
  "tx \<noteq> ''concurrent'' \<Longrightarrow> keeps unasked (pem_EmbedDetailed shrink_client tx)"
  "tx \<noteq> ''concurrent'' \<Longrightarrow> keeps unasked (pem_Embed shrink_client tx)"
  by (simp_all add: keeps_def unasked_def shrink_embed shrink_embed_vector)

lemma unasked_get: "hq_method req = ''GET'' \<Longrightarrow> keeps unasked (cl_HTTP shrink_client req)"
  by (auto simp: keeps_def unasked_def shrink_raw_def NewEmbedder_def net_send_def shrink_serve_def Let_def
      split: net_fault.splits)

lemma unasked_model_info: "keeps unasked (pem_ModelInfo shrink_client)"
proof -
  have "keeps unasked (client_get shrink_client ''GET'' ''/v1/model-info'' [] None decode_model_info \<lparr>mi_Name = '''', mi_Dim = 0\<rparr>)"
    by (rule keeps_client_get_req) (simp add: unasked_get)
  note K = this [THEN keeps_fwd]
  show ?thesis unfolding pem_ModelInfo_def by (auto intro!: keepsI split: prod.splits sum.splits dest: K)
qed

lemma unasked_shape: "''concurrent'' \<notin> set txs \<Longrightarrow> keeps unasked (ec_shape shrink_client txs d n)"
  by (induction txs) (auto intro!: keeping unasked_embed split: sum.split)

lemma unasked_stable: "''concurrent'' \<notin> set txs \<Longrightarrow> keeps unasked (ec_stable shrink_client txs l)"
  by (induction txs arbitrary: l) (auto intro!: keeping unasked_embed split: option.split)

lemma unasked_unit: "''concurrent'' \<notin> set txs \<Longrightarrow> keeps unasked (ec_unit shrink_client txs)"
  by (induction txs) (auto intro!: keeping unasked_embed)

lemma unasked_es: "(\<And>d n. keeps unasked (f d n)) \<Longrightarrow> keeps (\<lambda>st. unasked (fst st)) (es_world f)"
  by (auto simp: keeps_def es_world_def split: prod.splits) (metis snd_eqD)

lemma unasked_checks: "unasked w \<Longrightarrow> unasked (fst (fst (embed_checks shrink_target w)))"
proof -
  assume w: "unasked w"
  have texts: "''concurrent'' \<notin> set suite_texts" by (simp add: suite_texts_def)
  have mi: "keeps (\<lambda>st. unasked (fst st)) (ec_model_info shrink_client)"
    using unasked_model_info by (auto simp: keeps_def ec_model_info_def split: prod.splits sum.splits)
  have det: "keeps unasked (ec_deterministic shrink_client)"
    unfolding ec_deterministic_def by (auto intro!: keeping unasked_embed split: option.split)
  have norm: "keeps unasked (ec_normalized shrink_client u)" for u
    unfolding ec_normalized_def using unasked_unit [OF texts] by (auto intro!: keeping)
  show ?thesis
    unfolding embed_checks_def Let_def shrink_target_def target.simps
    by (intro run_check_keeps [where I = "\<lambda>st. unasked (fst st)"] unasked_es det norm unasked_stable unasked_shape texts mi
        keeps_client_Health unasked_get) (use w in simp_all)
qed

section \<open>The concurrent check\<close>

definition doomed :: "(bool net \<times> bool) goroutine list \<times> (bool net \<times> bool) \<Rightarrow> bool" where
  "doomed st \<longleftrightarrow> (case st of (gs, w, dead) \<Rightarrow> nt_srv w \<and> nt_script w = [] \<and> length gs = 8 \<and>
     (dead \<or> gs = replicate 8 ([ec_call shrink_client (shrink_vector False)], None)) \<and>
     (\<forall>(as, e) \<in> set gs. set as \<subseteq> {ec_call shrink_client (shrink_vector False)}))"

lemma short_call:
  "nt_srv w \<Longrightarrow> nt_script w = [] \<Longrightarrow> ec_call shrink_client (shrink_vector False) (w, dead) = (None, (w, True))"
  by (cases w) (simp add: ec_call_def shrink_embed_vector cosineDistance_def shrink_vector_def)

lemma doomed_step:
  assumes "doomed st"
  shows "doomed (go_step i st)" and "i < 8 \<Longrightarrow> snd (snd (go_step i st)) \<or> snd (snd st)" and "snd (snd st) \<Longrightarrow> snd (snd (go_step i st))"
proof -
  let ?call = "ec_call shrink_client (shrink_vector False)"
  obtain gs w dead where st: "st = (gs, w, dead)" by (metis surj_pair)
  have inv: "nt_srv w" "nt_script w = []" "length gs = 8" "dead \<or> gs = replicate 8 ([?call], None)"
    "\<forall>(as, e) \<in> set gs. set as \<subseteq> {?call}" using assms st by (simp_all add: doomed_def)
  have "doomed (go_step i st) \<and> (i < 8 \<longrightarrow> snd (snd (go_step i st)) \<or> dead) \<and> (dead \<longrightarrow> snd (snd (go_step i st)))"
  proof (cases "i < 8 \<and> fst (gs ! i) \<noteq> []")
    case True
    then obtain a as e where g: "gs ! i = (a # as, e)" by (cases "gs ! i"; cases "fst (gs ! i)") auto
    have m: "gs ! i \<in> set gs" using True inv(3) by simp
    then have a: "a = ?call" "set as \<subseteq> {?call}" using inv(5) g by fastforce+
    have s: "go_step i st = (gs[i := (as, None)], w, True)"
      using True g a(1) inv(3) st by (simp add: go_step_def short_call [OF inv(1,2)])
    have "\<forall>x \<in> set (gs[i := (as, None)]). case x of (as, e) \<Rightarrow> set as \<subseteq> {?call}"
      using set_update_subset_insert [of gs i "(as, None)"] inv(5) a(2) by blast
    then show ?thesis using s inv by (simp add: doomed_def)
  next
    case False
    then have s: "go_step i st = st" using st inv(3) by (auto simp: go_step_def split: if_splits prod.splits list.splits)
    have "dead" if "i < 8"
    proof (rule ccontr)
      assume "\<not> dead"
      then have "gs = replicate 8 ([?call], None)" using inv(4) by simp
      then show False using False that by simp
    qed
    moreover have "snd (snd (go_step i st)) = dead" by (simp only: s) (simp add: st)
    moreover have "doomed (go_step i st)" by (simp only: s) (rule assms)
    ultimately show ?thesis by blast
  qed
  then show "doomed (go_step i st)" and "i < 8 \<Longrightarrow> snd (snd (go_step i st)) \<or> snd (snd st)"
    and "snd (snd st) \<Longrightarrow> snd (snd (go_step i st))" using st by simp_all
qed

lemma doomed_run:
  "doomed st \<Longrightarrow> (\<exists>i \<in> set ns. i < 8) \<or> snd (snd st) \<Longrightarrow> snd (snd (fold go_step ns st))"
proof (induction ns arbitrary: st)
  case (Cons i ns)
  have "(\<exists>j \<in> set ns. j < 8) \<or> snd (snd (go_step i st))"
    using Cons.prems doomed_step(2,3) [OF Cons.prems(1), of i] by auto
  then show ?case using Cons.IH [OF doomed_step(1) [OF Cons.prems(1)]] by simp
qed simp

text \<open>C22: a plugin under verification can end the orchestrator's process. There is an embedder whose every answer the
  adapter accepts, with one vector for a text when it is first asked and a shorter one after that, such that the
  contract suite does not come back, in whatever order its concurrent calls run: the comparison of the two vectors
  indexes out of range in a goroutine in which nothing recovers the panic.\<close>
theorem embedder_can_end_the_process:
  "runEmbedder shrink_target sched \<lparr>nt_srv = False, nt_script = []\<rparr> = None \<and>
   (\<exists>v m w. pem_EmbedDetailed shrink_client text \<lparr>nt_srv = asked, nt_script = []\<rparr> = (Inr (v, m), w))"
proof -
  let ?w0 = "\<lparr>nt_srv = False, nt_script = []\<rparr>" and ?call = "ec_call shrink_client (shrink_vector False)"
  obtain w1 x rep where c: "embed_checks shrink_target ?w0 = ((w1, x), rep)" by (metis surj_pair)
  have w1: "nt_srv w1 = False" "nt_script w1 = []"
    using unasked_checks [of ?w0] c by (simp_all add: unasked_def)
  let ?w2 = "w1\<lparr>nt_srv := True\<rparr>" and ?gs = "replicate 8 ([?call], None :: goerr option)"
  have ref: "pem_Embed shrink_client ''concurrent'' w1 = (Inr (shrink_vector False), ?w2)"
    using shrink_embed_vector [OF w1(2), of "''concurrent''"] w1(1) by simp
  have "0 \<in> set (sched @ go_rest (replicate 8 [?call]))" by (auto simp: go_rest_def intro!: bexI [of _ 0])
  then have "\<exists>i \<in> set (sched @ go_rest (replicate 8 [?call])). i < 8" by (rule bexI [rotated]) (rule zero_less_numeral)
  moreover have "doomed (?gs, ?w2, False)" using w1(2) by (auto simp: doomed_def)
  ultimately have dead: "snd (snd (fold go_step (sched @ go_rest (replicate 8 [?call])) (?gs, ?w2, False)))"
    by (intro doomed_run disjI1)
  obtain gs w3 dd where f: "fold go_step (sched @ go_rest (replicate 8 [?call])) (?gs, ?w2, False) = (gs, w3, dd)" by (metis surj_pair)
  have "ec_concurrent shrink_client sched w1 = None"
    using ref f dead by (simp add: ec_concurrent_def parallel_def del: fold_append)
  moreover have "cl_ctx shrink_raw w1 = None" by (simp add: shrink_raw_def)
  ultimately have "runEmbedder shrink_target sched ?w0 = None"
    using c by (simp add: runEmbedder_def shrink_target_def Let_def)
  then show ?thesis by (simp add: shrink_embed)
qed

end
