(* ===== verification/Redis_Store.thy ===== *)
theory Redis_Store
  imports Persistence
begin

text \<open>
  The Redis store (\<open>internal/persistence/redis_store.go\<close>). The Redis server is a parameter: the
  commands the store sends, with the documented effect of each as the laws of the locale
  \<open>redis_server\<close> (a \<open>MULTI\<close>/\<open>EXEC\<close> pipeline runs in full or not at all; an error reply over a broken
  connection leaves open which). Inside the locale the store built on any such server is shown to
  keep the laws of \<open>cache_store\<close> (a \<open>sublocale\<close>). A small in-memory server with scripted faults
  shows that the laws can hold.
\<close>

section \<open>The server\<close>

text \<open>A stored string: the JSON document it holds, or \<open>None\<close> for bytes that are not JSON.\<close>

type_synonym rvalue = "json option"

datatype rcmd =
    RSet string rvalue
  | RSAdd string string
  | RDel "string list"
  | RSRem string string

record 'r redis_ops =
  rd_exec :: "rcmd list \<Rightarrow> 'r \<Rightarrow> goerr option \<times> 'r"
  rd_get :: "string \<Rightarrow> 'r \<Rightarrow> rvalue option res \<times> 'r"
  rd_smembers :: "string \<Rightarrow> 'r \<Rightarrow> string list res \<times> 'r"
  rd_scard :: "string \<Rightarrow> 'r \<Rightarrow> int res \<times> 'r"
  rd_ping :: "'r \<Rightarrow> goerr option \<times> 'r"

text \<open>The documented effect of the commands on the strings and the sets of the key space.\<close>

type_synonym rspace = "(string \<Rightarrow> rvalue option) \<times> (string \<Rightarrow> string set)"

fun rcmd_apply :: "rcmd \<Rightarrow> rspace \<Rightarrow> rspace" where
  "rcmd_apply (RSet k v) (f, g) = (f(k \<mapsto> v), g(k := {}))"
| "rcmd_apply (RSAdd k m) (f, g) = (f, g(k := insert m (g k)))"
| "rcmd_apply (RDel ks) (f, g) =
     ((\<lambda>k. if k \<in> set ks then None else f k), (\<lambda>k. if k \<in> set ks then {} else g k))"
| "rcmd_apply (RSRem k m) (f, g) = (f, g(k := g k - {m}))"

text \<open>No set command on a key that holds a string.\<close>

fun rcmd_typed :: "rspace \<Rightarrow> rcmd \<Rightarrow> bool" where
  "rcmd_typed (f, g) (RSAdd k m) = (f k = None)"
| "rcmd_typed (f, g) (RSRem k m) = (f k = None)"
| "rcmd_typed _ _ = True"

fun rcmds_typed :: "rspace \<Rightarrow> rcmd list \<Rightarrow> bool" where
  "rcmds_typed sp [] = True"
| "rcmds_typed sp (c # cs) = (rcmd_typed sp c \<and> rcmds_typed (rcmd_apply c sp) cs)"

locale redis_server =
  fixes R :: "'r redis_ops"
    and up :: "'r \<Rightarrow> bool"
    and space :: "'r \<Rightarrow> rspace"
  assumes finite_sets: "up r \<Longrightarrow> finite (snd (space r) k)"
    and exec_ok: "up r \<Longrightarrow> rcmds_typed (space r) cs \<Longrightarrow> rd_exec R cs r = (None, t) \<Longrightarrow>
           up t \<and> space t = fold rcmd_apply cs (space r)"
    and exec_err: "up r \<Longrightarrow> rcmds_typed (space r) cs \<Longrightarrow> rd_exec R cs r = (Some e, t) \<Longrightarrow>
           up t \<and> space t \<in> {space r, fold rcmd_apply cs (space r)}"
    and get_state: "up r \<Longrightarrow> rd_get R k r = (v, t) \<Longrightarrow> up t \<and> space t = space r"
    and get_value: "up r \<Longrightarrow> rd_get R k r = (Inr x, t) \<Longrightarrow> x = fst (space r) k"
    and smembers_state: "up r \<Longrightarrow> rd_smembers R k r = (ms, t) \<Longrightarrow> up t \<and> space t = space r"
    and smembers_value: "up r \<Longrightarrow> rd_smembers R k r = (Inr xs, t) \<Longrightarrow>
           set xs = snd (space r) k \<and> distinct xs"
    and scard_state: "up r \<Longrightarrow> rd_scard R k r = (n, t) \<Longrightarrow> up t \<and> space t = space r"
    and scard_value: "up r \<Longrightarrow> rd_scard R k r = (Inr i, t) \<Longrightarrow> i = int (card (snd (space r) k))"

section \<open>Entries as JSON\<close>

definition json_of_entry :: "Entry \<Rightarrow> json res" where
  "json_of_entry e =
     res_bind (json_of_floats (e_Vector e)) (\<lambda>v.
       Inr (JObj [(''id'', JStr (e_ID e)), (''prompt'', JStr (e_Prompt e)), (''reply'', JStr (e_Reply e)),
                  (''vector'', v), (''created_at'', JTime (e_CreatedAt e))]))"

definition entry_fields :: "(string \<times> Entry setter) list" where
  "entry_fields =
     [(''id'', \<lambda>j e. res_bind (json_string j (e_ID e)) (\<lambda>x. Inr (e\<lparr>e_ID := x\<rparr>))),
      (''prompt'', \<lambda>j e. res_bind (json_string j (e_Prompt e)) (\<lambda>x. Inr (e\<lparr>e_Prompt := x\<rparr>))),
      (''reply'', \<lambda>j e. res_bind (json_string j (e_Reply e)) (\<lambda>x. Inr (e\<lparr>e_Reply := x\<rparr>))),
      (''vector'', \<lambda>j e. res_bind (json_floats j (e_Vector e)) (\<lambda>x. Inr (e\<lparr>e_Vector := x\<rparr>))),
      (''created_at'', \<lambda>j e. res_bind (json_time j (e_CreatedAt e)) (\<lambda>x. Inr (e\<lparr>e_CreatedAt := x\<rparr>)))]"

definition zero_Entry :: Entry where
  "zero_Entry = \<lparr>e_ID = '''', e_Prompt = '''', e_Reply = '''', e_Vector = [], e_CreatedAt = 0\<rparr>"

fun decodeEntry :: "rvalue \<Rightarrow> Entry res" where
  "decodeEntry None = Inl ErrJsonSyntax"
| "decodeEntry (Some j) = json_struct entry_fields j zero_Entry"

lemma decode_encode:
  assumes "json_of_entry e = Inr j"
  shows "decodeEntry (Some j) = Inr e"
proof -
  obtain v where v: "json_of_floats (e_Vector e) = Inr v"
    and j: "j = JObj [(''id'', JStr (e_ID e)), (''prompt'', JStr (e_Prompt e)),
      (''reply'', JStr (e_Reply e)), (''vector'', v), (''created_at'', JTime (e_CreatedAt e))]"
    using assms by (auto simp: json_of_entry_def res_bind_Inr)
  show ?thesis
    using json_floats_marshal [OF v]
    by (simp add: j json_member_def entry_fields_def zero_Entry_def)
qed

section \<open>The store\<close>

definition entryKey :: "string \<Rightarrow> string \<Rightarrow> string" where
  "entryKey prefix k = prefix @ '':entry:'' @ k"

definition idsKey :: "string \<Rightarrow> string" where
  "idsKey prefix = prefix @ '':entries''"

lemma entryKey_inj [simp]: "entryKey p k = entryKey p j \<longleftrightarrow> k = j"
  by (simp add: entryKey_def)

lemma entryKey_idsKey [simp]: "entryKey p k \<noteq> idsKey p" "idsKey p \<noteq> entryKey p k"
  by (simp_all add: entryKey_def idsKey_def)

definition NewRedisStore :: "'r redis_ops \<Rightarrow> 'r \<Rightarrow> unit res \<times> 'r" where
  "NewRedisStore R r =
     (case rd_ping R r of
        (Some e, t) \<Rightarrow> (Inl (Errorf ''redis ping failed: %w'' [AWrap e]), t)
      | (None, t) \<Rightarrow> (Inr (), t))"

definition redis_Save :: "'r redis_ops \<Rightarrow> string \<Rightarrow> Entry \<Rightarrow> 'r \<Rightarrow> goerr option \<times> 'r" where
  "redis_Save R prefix e r =
     (case json_of_entry e of
        Inl err \<Rightarrow> (Some (Errorf ''marshal cache entry: %w'' [AWrap err]), r)
      | Inr data \<Rightarrow>
          (case rd_exec R [RSet (entryKey prefix (e_ID e)) (Some data), RSAdd (idsKey prefix) (e_ID e)] r of
             (Some err, t) \<Rightarrow> (Some (Errorf ''save cache entry %q: %w'' [AStr (e_ID e), AWrap err]), t)
           | (None, t) \<Rightarrow> (None, t)))"

definition redis_Load :: "'r redis_ops \<Rightarrow> string \<Rightarrow> string \<Rightarrow> 'r \<Rightarrow> Entry option \<times> 'r" where
  "redis_Load R prefix k r =
     (case rd_get R (entryKey prefix k) r of
        (Inr (Some data), t) \<Rightarrow> (case decodeEntry data of Inr e \<Rightarrow> (Some e, t) | Inl _ \<Rightarrow> (None, t))
      | (_, t) \<Rightarrow> (None, t))"

fun redis_list_loop ::
    "'r redis_ops \<Rightarrow> string \<Rightarrow> string list \<Rightarrow> Entry list \<Rightarrow> 'r \<Rightarrow> Entry list res \<times> 'r" where
  "redis_list_loop R prefix [] entries r = (Inr entries, r)"
| "redis_list_loop R prefix (k # ks) entries r =
     (case rd_get R (entryKey prefix k) r of
        (Inl err, t) \<Rightarrow> (Inl (Errorf ''load cache entry %q: %w'' [AStr k, AWrap err]), t)
      | (Inr None, t) \<Rightarrow> redis_list_loop R prefix ks entries t
      | (Inr (Some data), t) \<Rightarrow>
          (case decodeEntry data of
             Inl err \<Rightarrow> (Inl (Errorf ''decode cache entry %q: %w'' [AStr k, AWrap err]), t)
           | Inr e \<Rightarrow> redis_list_loop R prefix ks (entries @ [e]) t))"

definition redis_List :: "'r redis_ops \<Rightarrow> string \<Rightarrow> 'r \<Rightarrow> Entry list res \<times> 'r" where
  "redis_List R prefix r =
     (case rd_smembers R (idsKey prefix) r of
        (Inl err, t) \<Rightarrow> (Inl (Errorf ''list cache entry ids: %w'' [AWrap err]), t)
      | (Inr ks, t) \<Rightarrow> redis_list_loop R prefix ks [] t)"

definition redis_Size :: "'r redis_ops \<Rightarrow> string \<Rightarrow> 'r \<Rightarrow> int res \<times> 'r" where
  "redis_Size R prefix r =
     (case rd_scard R (idsKey prefix) r of
        (Inl err, t) \<Rightarrow> (Inl (Errorf ''cache size: %w'' [AWrap err]), t)
      | (Inr n, t) \<Rightarrow> (Inr n, t))"

definition redis_Delete :: "'r redis_ops \<Rightarrow> string \<Rightarrow> string \<Rightarrow> 'r \<Rightarrow> goerr option \<times> 'r" where
  "redis_Delete R prefix k r =
     (case rd_exec R [RDel [entryKey prefix k], RSRem (idsKey prefix) k] r of
        (Some err, t) \<Rightarrow> (Some (Errorf ''delete cache entry %q: %w'' [AStr k, AWrap err]), t)
      | (None, t) \<Rightarrow> (None, t))"

definition redis_Flush :: "'r redis_ops \<Rightarrow> string \<Rightarrow> 'r \<Rightarrow> goerr option \<times> 'r" where
  "redis_Flush R prefix r =
     (case rd_smembers R (idsKey prefix) r of
        (Inl err, t) \<Rightarrow> (Some (Errorf ''list cache entry ids for flush: %w'' [AWrap err]), t)
      | (Inr ks, t) \<Rightarrow>
          (case rd_exec R [RDel (map (entryKey prefix) ks @ [idsKey prefix])] t of
             (Some err, t') \<Rightarrow> (Some (Errorf ''flush cache entries: %w'' [AWrap err]), t')
           | (None, t') \<Rightarrow> (None, t')))"

definition redis_Health :: "'r redis_ops \<Rightarrow> 'r \<Rightarrow> goerr option \<times> 'r" where
  "redis_Health R r =
     (case rd_ping R r of
        (Some e, t) \<Rightarrow> (Some (Errorf ''redis health check failed: %w'' [AWrap e]), t)
      | (None, t) \<Rightarrow> (None, t))"

definition redis_store :: "'r redis_ops \<Rightarrow> string \<Rightarrow> 'r store_ops" where
  "redis_store R prefix = \<lparr>st_Save = redis_Save R prefix, st_Load = redis_Load R prefix,
     st_List = redis_List R prefix, st_Size = redis_Size R prefix, st_Delete = redis_Delete R prefix,
     st_Flush = redis_Flush R prefix, st_Health = redis_Health R\<rparr>"

lemma redis_store_simps [simp]:
  "st_Save (redis_store R p) = redis_Save R p" "st_Load (redis_store R p) = redis_Load R p"
  "st_List (redis_store R p) = redis_List R p" "st_Size (redis_store R p) = redis_Size R p"
  "st_Delete (redis_store R p) = redis_Delete R p" "st_Flush (redis_store R p) = redis_Flush R p"
  by (simp_all add: redis_store_def)

section \<open>The part of the key space the store owns\<close>

text \<open>
  The id set lists exactly the ids with an entry key, and each of those holds the encoding of an
  entry with that id.
\<close>

definition space_ok :: "string \<Rightarrow> rspace \<Rightarrow> bool" where
  "space_ok prefix sp \<longleftrightarrow> fst sp (idsKey prefix) = None \<and>
     (\<forall>k. k \<in> snd sp (idsKey prefix) \<longleftrightarrow> fst sp (entryKey prefix k) \<noteq> None) \<and>
     (\<forall>k v. fst sp (entryKey prefix k) = Some v \<longrightarrow> (\<exists>e. decodeEntry v = Inr e \<and> e_ID e = k))"

definition space_view :: "string \<Rightarrow> rspace \<Rightarrow> string \<Rightarrow> Entry option" where
  "space_view prefix sp k =
     (case fst sp (entryKey prefix k) of
        None \<Rightarrow> None
      | Some v \<Rightarrow> (case decodeEntry v of Inr e \<Rightarrow> Some e | Inl _ \<Rightarrow> None))"

lemma space_view_dom:
  assumes "space_ok prefix sp"
  shows "dom (space_view prefix sp) = snd sp (idsKey prefix)"
  using assms by (fastforce simp: space_ok_def space_view_def dom_def split: option.splits sum.splits)

lemma space_save:
  assumes "space_ok prefix (f, g)" and "json_of_entry e = Inr j"
  defines "sp \<equiv> fold rcmd_apply [RSet (entryKey prefix (e_ID e)) (Some j), RSAdd (idsKey prefix) (e_ID e)] (f, g)"
  shows "space_ok prefix sp" and "space_view prefix sp = (space_view prefix (f, g))(e_ID e \<mapsto> e)"
  using assms decode_encode [OF assms(2)]
  by (auto simp: space_ok_def space_view_def fun_eq_iff sp_def split: if_splits)

lemma space_delete:
  fixes k :: string
  assumes "space_ok prefix (f, g)"
  defines "sp \<equiv> fold rcmd_apply [RDel [entryKey prefix k], RSRem (idsKey prefix) k] (f, g)"
  shows "space_ok prefix sp" and "space_view prefix sp = (space_view prefix (f, g))(k := None)"
  using assms by (auto simp: space_ok_def space_view_def fun_eq_iff sp_def)

lemma space_flush:
  assumes "space_ok prefix (f, g)" and "set ks = g (idsKey prefix)"
  defines "sp \<equiv> fold rcmd_apply [RDel (map (entryKey prefix) ks @ [idsKey prefix])] (f, g)"
  shows "space_ok prefix sp" and "space_view prefix sp = Map.empty"
proof -
  have "fst sp (entryKey prefix k) = None" for k
    using assms by (auto simp: sp_def space_ok_def)
  then show "space_ok prefix sp" and "space_view prefix sp = Map.empty"
    using assms by (auto simp: sp_def space_ok_def space_view_def fun_eq_iff)
qed

lemma cmds_typed:
  assumes "space_ok prefix (f, g)"
  shows "rcmds_typed (f, g) [RSet (entryKey prefix k) v, RSAdd (idsKey prefix) k]"
    and "rcmds_typed (f, g) [RDel [entryKey prefix k], RSRem (idsKey prefix) k]"
    and "rcmds_typed (f, g) [RDel ks]"
  using assms by (auto simp: space_ok_def)

definition redis_ok :: "('r \<Rightarrow> bool) \<Rightarrow> ('r \<Rightarrow> rspace) \<Rightarrow> string \<Rightarrow> 'r \<Rightarrow> bool" where
  "redis_ok up space prefix r \<longleftrightarrow> up r \<and> space_ok prefix (space r)"

definition redis_view :: "('r \<Rightarrow> rspace) \<Rightarrow> string \<Rightarrow> 'r \<Rightarrow> string \<Rightarrow> Entry option" where
  "redis_view space prefix r = space_view prefix (space r)"

context redis_server
begin

lemma exec_cases:
  assumes "up r" and "rcmds_typed (space r) cs" and "rd_exec R cs r = (x, t)"
  shows "up t" and "x = None \<Longrightarrow> space t = fold rcmd_apply cs (space r)"
    and "space t = space r \<or> space t = fold rcmd_apply cs (space r)"
proof -
  have n: "x = None \<Longrightarrow> up t \<and> space t = fold rcmd_apply cs (space r)"
    using exec_ok [OF assms(1,2), of t] assms(3) by blast
  have e: "x = Some e \<Longrightarrow> up t \<and> space t \<in> {space r, fold rcmd_apply cs (space r)}" for e
    using exec_err [OF assms(1,2), of e t] assms(3) by blast
  show "up t" using n e by (cases x) blast+
  show "x = None \<Longrightarrow> space t = fold rcmd_apply cs (space r)" using n by blast
  show "space t = space r \<or> space t = fold rcmd_apply cs (space r)" using n e by (cases x) blast+
qed

text \<open>A pipeline that takes a good key space to a good one, on every outcome.\<close>

lemma exec_view:
  assumes ok: "redis_ok up space prefix r" and ex: "rd_exec R cs r = (x, t)"
    and ty: "rcmds_typed (space r) cs"
    and good: "space_ok prefix (fold rcmd_apply cs (space r))"
    and view: "space_view prefix (fold rcmd_apply cs (space r)) = v"
  shows "redis_ok up space prefix t \<and> (x = None \<longrightarrow> redis_view space prefix t = v) \<and>
     redis_view space prefix t \<in> {redis_view space prefix r, v}"
proof -
  have up: "up r" and sp: "space_ok prefix (space r)" using ok by (simp_all add: redis_ok_def)
  note c = exec_cases [OF up ty ex]
  have "space_ok prefix (space t) \<and> redis_view space prefix t \<in> {redis_view space prefix r, v}"
    using c(3)
  proof
    assume "space t = space r"
    with sp show ?thesis by (simp only: redis_view_def insertI1 simp_thms)
  next
    assume "space t = fold rcmd_apply cs (space r)"
    with good view show ?thesis by (simp only: redis_view_def insert_iff simp_thms)
  qed
  moreover have "redis_view space prefix t = v" if "x = None"
    unfolding redis_view_def view [symmetric] c(2) [OF that] by (rule refl)
  ultimately show ?thesis using c(1) unfolding redis_ok_def by blast
qed

lemma save_law:
  assumes "redis_ok up space prefix r" and "redis_Save R prefix e r = (x, t)"
  shows "redis_ok up space prefix t \<and>
     (x = None \<longrightarrow> redis_view space prefix t = (redis_view space prefix r)(e_ID e \<mapsto> e)) \<and>
     redis_view space prefix t \<in> {redis_view space prefix r, (redis_view space prefix r)(e_ID e \<mapsto> e)}"
proof (cases "json_of_entry e")
  case (Inl err)
  then show ?thesis using assms by (auto simp: redis_Save_def)
next
  case (Inr j)
  obtain f g where sp: "space r = (f, g)" by (cases "space r")
  then have ok: "space_ok prefix (f, g)" using assms(1) by (simp add: redis_ok_def)
  let ?cs = "[RSet (entryKey prefix (e_ID e)) (Some j), RSAdd (idsKey prefix) (e_ID e)]"
  obtain y where y: "rd_exec R ?cs r = (y, t)" and x: "x = None \<longleftrightarrow> y = None"
    using assms(2) Inr by (auto simp: redis_Save_def split: prod.splits option.splits)
  show ?thesis
    unfolding x redis_view_def sp
    by (rule exec_view [OF assms(1) y, unfolded sp, OF cmds_typed(1) [OF ok] space_save [OF ok Inr],
          unfolded redis_view_def sp])
qed

lemma delete_law:
  assumes "redis_ok up space prefix r" and "redis_Delete R prefix k r = (x, t)"
  shows "redis_ok up space prefix t \<and>
     (x = None \<longrightarrow> redis_view space prefix t = (redis_view space prefix r)(k := None)) \<and>
     redis_view space prefix t \<in> {redis_view space prefix r, (redis_view space prefix r)(k := None)}"
proof -
  obtain f g where sp: "space r = (f, g)" by (cases "space r")
  then have ok: "space_ok prefix (f, g)" using assms(1) by (simp add: redis_ok_def)
  let ?cs = "[RDel [entryKey prefix k], RSRem (idsKey prefix) k]"
  obtain y where y: "rd_exec R ?cs r = (y, t)" and x: "x = None \<longleftrightarrow> y = None"
    using assms(2) by (auto simp: redis_Delete_def split: prod.splits option.splits)
  show ?thesis
    unfolding x redis_view_def sp
    by (rule exec_view [OF assms(1) y, unfolded sp, OF cmds_typed(2) [OF ok] space_delete [OF ok],
          unfolded redis_view_def sp])
qed

lemma smembers_ok:
  assumes "redis_ok up space prefix r" and "rd_smembers R (idsKey prefix) r = (m, t)"
  shows "redis_ok up space prefix t" and "space t = space r"
    and "m = Inr ks \<Longrightarrow> set ks = dom (redis_view space prefix r) \<and> distinct ks"
  using assms smembers_state [OF _ assms(2)] smembers_value [of r "idsKey prefix" ks t]
    space_view_dom [of prefix "space r"]
  by (auto simp: redis_ok_def redis_view_def)

lemma flush_law:
  assumes "redis_ok up space prefix r" and "redis_Flush R prefix r = (x, t)"
  shows "redis_ok up space prefix t \<and>
     (x = None \<longrightarrow> redis_view space prefix t = Map.empty) \<and>
     redis_view space prefix t \<in> {redis_view space prefix r, Map.empty}"
proof -
  obtain m u where m: "rd_smembers R (idsKey prefix) r = (m, u)" by fastforce
  note mem = smembers_ok [OF assms(1) m]
  show ?thesis
  proof (cases m)
    case (Inl err)
    then show ?thesis using assms mem by (auto simp: redis_Flush_def m redis_view_def)
  next
    case (Inr ks)
    obtain f g where sp: "space u = (f, g)" by (cases "space u")
    then have ok: "space_ok prefix (f, g)" using mem(1) by (simp add: redis_ok_def)
    have ks: "set ks = g (idsKey prefix)"
      using mem(3) [OF Inr] space_view_dom [OF ok] by (simp add: redis_view_def mem(2) [symmetric] sp)
    let ?cs = "[RDel (map (entryKey prefix) ks @ [idsKey prefix])]"
    obtain y where y: "rd_exec R ?cs u = (y, t)" and x: "x = None \<longleftrightarrow> y = None"
      using assms(2) Inr m by (auto simp: redis_Flush_def split: prod.splits option.splits)
    show ?thesis
      unfolding x redis_view_def mem(2) [symmetric] sp
      by (rule exec_view [OF mem(1) y, unfolded sp, OF cmds_typed(3) [OF ok] space_flush [OF ok ks],
            unfolded redis_view_def sp])
  qed
qed

lemma get_ok:
  assumes "redis_ok up space prefix r" and "rd_get R (entryKey prefix k) r = (v, t)"
  shows "redis_ok up space prefix t" and "space t = space r"
    and "v = Inr None \<Longrightarrow> redis_view space prefix r k = None"
    and "v = Inr (Some d) \<Longrightarrow> \<exists>e. decodeEntry d = Inr e \<and> e_ID e = k \<and> redis_view space prefix r k = Some e"
proof -
  have up: "up r" and sp: "space_ok prefix (space r)" using assms(1) by (simp_all add: redis_ok_def)
  show "redis_ok up space prefix t" and "space t = space r"
    using get_state [OF up assms(2)] sp by (simp_all add: redis_ok_def)
  have v: "x = fst (space r) (entryKey prefix k)" if "v = Inr x" for x
    using get_value [OF up] assms(2) that by blast
  show "redis_view space prefix r k = None" if "v = Inr None"
    using v [OF that] by (simp add: redis_view_def space_view_def)
  show "\<exists>e. decodeEntry d = Inr e \<and> e_ID e = k \<and> redis_view space prefix r k = Some e" if "v = Inr (Some d)"
    using v [OF that, symmetric] sp by (fastforce simp: space_ok_def redis_view_def space_view_def)
qed

lemma load_law:
  assumes "redis_ok up space prefix r" and "redis_Load R prefix k r = (x, t)"
  shows "redis_ok up space prefix t \<and> space t = space r \<and>
     (case x of None \<Rightarrow> True | Some e \<Rightarrow> redis_view space prefix r k = Some e)"
proof -
  obtain v u where v: "rd_get R (entryKey prefix k) r = (v, u)" by fastforce
  note g = get_ok [OF assms(1) v]
  show ?thesis
  proof (cases v)
    case (Inr w)
    show ?thesis
    proof (cases w)
      case (Some d)
      then obtain e where "decodeEntry d = Inr e" "redis_view space prefix r k = Some e"
        using g(4) [of d] Inr by blast
      then have "x = Some e" "t = u" using assms(2) Some Inr by (simp_all add: redis_Load_def v)
      with g(1,2) \<open>redis_view space prefix r k = Some e\<close> show ?thesis by simp
    qed (use assms(2) g(1,2) Inr in \<open>auto simp: redis_Load_def v\<close>)
  qed (use assms(2) g(1,2) in \<open>auto simp: redis_Load_def v\<close>)
qed

lemma list_loop_law:
  assumes "redis_ok up space prefix r" and "redis_list_loop R prefix ks es r = (x, t)"
    and "set ks \<subseteq> dom (redis_view space prefix r)"
  shows "redis_ok up space prefix t \<and> space t = space r \<and>
     (case x of Inl _ \<Rightarrow> True | Inr fs \<Rightarrow> map Some fs = map Some es @ map (redis_view space prefix r) ks)"
  using assms
proof (induction ks arbitrary: es r)
  case (Cons k ks)
  obtain v u where v: "rd_get R (entryKey prefix k) r = (v, u)" by fastforce
  note g = get_ok [OF Cons.prems(1) v]
  have eq: "redis_view space prefix u = redis_view space prefix r"
    using g(2) by (simp add: redis_view_def fun_eq_iff)
  show ?case
  proof (cases v)
    case (Inl err)
    then show ?thesis using Cons.prems(2) g(1,2) by (auto simp: v)
  next
    case (Inr w)
    then obtain d where d: "v = Inr (Some d)"
      using g(3) Cons.prems(3) by (cases w) auto
    then obtain e where e: "decodeEntry d = Inr e" "redis_view space prefix r k = Some e"
      using g(4) by blast
    have "redis_list_loop R prefix ks (es @ [e]) u = (x, t)"
      using Cons.prems(2) d e by (simp add: v)
    from Cons.IH [OF g(1) this] show ?thesis
      using Cons.prems(3) g(2) e(2) by (auto simp: eq split: sum.splits)
  qed
qed (auto split: sum.splits)

lemma list_law:
  assumes "redis_ok up space prefix r" and "redis_List R prefix r = (x, t)"
  shows "redis_ok up space prefix t \<and> space t = space r"
    and "x = Inr es \<Longrightarrow> distinct (map e_ID es) \<and> set es = ran (redis_view space prefix r)"
proof -
  obtain m u where m: "rd_smembers R (idsKey prefix) r = (m, u)" by fastforce
  note mem = smembers_ok [OF assms(1) m]
  have eq: "redis_view space prefix u = redis_view space prefix r"
    using mem(2) by (simp add: redis_view_def fun_eq_iff)
  have "redis_ok up space prefix t \<and> space t = space r \<and>
    (x = Inr es \<longrightarrow> distinct (map e_ID es) \<and> set es = ran (redis_view space prefix r))"
  proof (cases m)
    case (Inl err)
    then show ?thesis using assms(2) mem by (auto simp: redis_List_def m)
  next
    case (Inr ks)
    have ks: "set ks = dom (redis_view space prefix r)" "distinct ks" using mem(3) [OF Inr] by auto
    have loop: "redis_list_loop R prefix ks [] u = (x, t)"
      using assms(2) Inr by (simp add: redis_List_def m)
    note ll = list_loop_law [OF mem(1) loop, unfolded eq, OF equalityD1 [OF ks(1)]]
    have "distinct (map e_ID es) \<and> set es = ran (redis_view space prefix r)" if x: "x = Inr es"
    proof -
      have some: "map Some es = map (redis_view space prefix r) ks" using ll x by simp
      have keys: "map e_ID es = ks"
      proof (rule nth_equalityI)
        show "length (map e_ID es) = length ks" using arg_cong [OF some, of length] by simp
        fix i assume i: "i < length (map e_ID es)"
        then have "redis_view space prefix r (ks ! i) = Some (es ! i)"
          using arg_cong [OF some, of "\<lambda>l. l ! i"] arg_cong [OF some, of length] by simp
        then show "map e_ID es ! i = ks ! i"
          using i assms(1)
          by (force simp: redis_ok_def redis_view_def space_ok_def space_view_def split: option.splits sum.splits)
      qed
      have "Some ` set es = redis_view space prefix r ` dom (redis_view space prefix r)"
        using arg_cong [OF some, of set] ks(1) by simp
      then have "set es = ran (redis_view space prefix r)"
        by (auto simp: ran_def dom_def image_iff set_eq_iff) (metis option.inject)+
      with keys ks(2) show ?thesis by simp
    qed
    with ll mem(2) show ?thesis by auto
  qed
  then show "redis_ok up space prefix t \<and> space t = space r"
    and "x = Inr es \<Longrightarrow> distinct (map e_ID es) \<and> set es = ran (redis_view space prefix r)" by auto
qed

lemma size_law:
  assumes "redis_ok up space prefix r" and "redis_Size R prefix r = (x, t)"
  shows "redis_ok up space prefix t \<and> space t = space r"
    and "x = Inr n \<Longrightarrow> n = int (card (dom (redis_view space prefix r)))"
proof -
  obtain v where "rd_scard R (idsKey prefix) r = (v, t)"
    and v: "x = (case v of Inl err \<Rightarrow> Inl (Errorf ''cache size: %w'' [AWrap err]) | Inr n \<Rightarrow> Inr n)"
    using assms(2) by (auto simp: redis_Size_def split: prod.splits sum.splits)
  note sc = this(1)
  show "redis_ok up space prefix t \<and> space t = space r"
    using scard_state [OF _ sc] assms(1) by (auto simp: redis_ok_def)
  show "n = int (card (dom (redis_view space prefix r)))" if "x = Inr n"
  proof -
    have "rd_scard R (idsKey prefix) r = (Inr n, t)" using sc v that by (auto split: sum.splits)
    then show ?thesis
      using scard_value [of r] assms(1) space_view_dom [of prefix "space r"]
      by (auto simp: redis_ok_def redis_view_def)
  qed
qed

end

sublocale redis_server \<subseteq> redis: cache_store "redis_store R prefix"
  "redis_ok up space prefix" "redis_view space prefix" for prefix
proof unfold_locales
  fix r t e k err es n x rl rs
  show "finite (dom (redis_view space prefix r))" if "redis_ok up space prefix r"
    using that space_view_dom [of prefix "space r"] finite_sets [of r]
    by (auto simp: redis_ok_def redis_view_def)
  show "e_ID e = k" if "redis_ok up space prefix r" "redis_view space prefix r k = Some e"
    using that by (auto simp: redis_ok_def redis_view_def space_ok_def space_view_def
        split: option.splits sum.splits) (metis sum.inject(2))
  show "redis_ok up space prefix t \<and> redis_view space prefix t = (redis_view space prefix r)(e_ID e \<mapsto> e)"
    if "redis_ok up space prefix r" "st_Save (redis_store R prefix) e r = (None, t)"
    using save_law [of prefix r e None t] that by simp
  show "redis_ok up space prefix t \<and>
      redis_view space prefix t \<in> {redis_view space prefix r, (redis_view space prefix r)(e_ID e \<mapsto> e)}"
    if "redis_ok up space prefix r" "st_Save (redis_store R prefix) e r = (Some err, t)"
    using save_law [of prefix r e "Some err" t] that by simp
  show "redis_ok up space prefix t \<and> redis_view space prefix t = redis_view space prefix r"
    if "redis_ok up space prefix r" "st_Load (redis_store R prefix) k r = (x, t)"
    using load_law [of prefix r k x t] that by (simp add: redis_view_def fun_eq_iff)
  show "redis_view space prefix r k = Some e"
    if "redis_ok up space prefix r" "st_Load (redis_store R prefix) k r = (Some e, t)"
    using load_law [of prefix r k "Some e" t] that by simp
  show "redis_ok up space prefix t \<and> redis_view space prefix t = redis_view space prefix r"
    if "redis_ok up space prefix r" "st_List (redis_store R prefix) r = (rl, t)"
    using list_law(1) [of prefix r rl t] that by (simp add: redis_view_def fun_eq_iff)
  show "distinct (map e_ID es) \<and> set es = ran (redis_view space prefix r)"
    if "redis_ok up space prefix r" "st_List (redis_store R prefix) r = (Inr es, t)"
    using list_law(2) [of prefix r "Inr es" t es] that by simp
  show "redis_ok up space prefix t \<and> redis_view space prefix t = redis_view space prefix r"
    if "redis_ok up space prefix r" "st_Size (redis_store R prefix) r = (rs, t)"
    using size_law(1) [of prefix r rs t] that by (simp add: redis_view_def fun_eq_iff)
  show "n = int (card (dom (redis_view space prefix r)))"
    if "redis_ok up space prefix r" "st_Size (redis_store R prefix) r = (Inr n, t)"
    using size_law(2) [of prefix r "Inr n" t n] that by simp
  show "redis_ok up space prefix t \<and> redis_view space prefix t = (redis_view space prefix r)(k := None)"
    if "redis_ok up space prefix r" "st_Delete (redis_store R prefix) k r = (None, t)"
    using delete_law [of prefix r k None t] that by simp
  show "redis_ok up space prefix t \<and>
      redis_view space prefix t \<in> {redis_view space prefix r, (redis_view space prefix r)(k := None)}"
    if "redis_ok up space prefix r" "st_Delete (redis_store R prefix) k r = (Some err, t)"
    using delete_law [of prefix r k "Some err" t] that by simp
  show "redis_ok up space prefix t \<and> redis_view space prefix t = Map.empty"
    if "redis_ok up space prefix r" "st_Flush (redis_store R prefix) r = (None, t)"
    using flush_law [of prefix r None t] that by simp
  show "redis_ok up space prefix t \<and> redis_view space prefix t \<in> {redis_view space prefix r, Map.empty}"
    if "redis_ok up space prefix r" "st_Flush (redis_store R prefix) r = (Some err, t)"
    using flush_law [of prefix r "Some err" t] that by simp
qed

section \<open>An in-memory server with scripted faults\<close>

text \<open>Each command consumes one entry of the script; an empty script means no faults.\<close>

datatype rfault = Served | Refused | ReplyLost

record rmem =
  rm_strs :: "string \<Rightarrow> rvalue option"
  rm_sets :: "string \<Rightarrow> string list"
  rm_script :: "rfault list"

definition rm_space :: "rmem \<Rightarrow> rspace" where
  "rm_space r = (rm_strs r, \<lambda>k. set (rm_sets r k))"

definition rm_fault :: "rmem \<Rightarrow> rfault" where
  "rm_fault r = (case rm_script r of [] \<Rightarrow> Served | f # _ \<Rightarrow> f)"

definition rm_next :: "rmem \<Rightarrow> rmem" where
  "rm_next r = r\<lparr>rm_script := tl (rm_script r)\<rparr>"

fun rm_apply :: "rcmd \<Rightarrow> rmem \<Rightarrow> rmem" where
  "rm_apply (RSet k v) r = r\<lparr>rm_strs := (rm_strs r)(k \<mapsto> v), rm_sets := (rm_sets r)(k := [])\<rparr>"
| "rm_apply (RSAdd k m) r = r\<lparr>rm_sets := (rm_sets r)(k := List.insert m (rm_sets r k))\<rparr>"
| "rm_apply (RDel ks) r = r\<lparr>rm_strs := (\<lambda>k. if k \<in> set ks then None else rm_strs r k),
     rm_sets := (\<lambda>k. if k \<in> set ks then [] else rm_sets r k)\<rparr>"
| "rm_apply (RSRem k m) r = r\<lparr>rm_sets := (rm_sets r)(k := removeAll m (rm_sets r k))\<rparr>"

definition rm_err :: goerr where "rm_err = Sentinel ''i/o timeout''"

definition rmem_ops :: "rmem redis_ops" where
  "rmem_ops = \<lparr>
     rd_exec = (\<lambda>cs r. case rm_fault r of
         Served \<Rightarrow> (None, fold rm_apply cs (rm_next r))
       | Refused \<Rightarrow> (Some rm_err, rm_next r)
       | ReplyLost \<Rightarrow> (Some rm_err, fold rm_apply cs (rm_next r))),
     rd_get = (\<lambda>k r. (if rm_fault r = Served then Inr (rm_strs r k) else Inl rm_err, rm_next r)),
     rd_smembers = (\<lambda>k r. (if rm_fault r = Served then Inr (rm_sets r k) else Inl rm_err, rm_next r)),
     rd_scard = (\<lambda>k r. (if rm_fault r = Served then Inr (int (length (rm_sets r k))) else Inl rm_err, rm_next r)),
     rd_ping = (\<lambda>r. (if rm_fault r = Served then None else Some rm_err, rm_next r))\<rparr>"

definition rm_up :: "rmem \<Rightarrow> bool" where
  "rm_up r \<longleftrightarrow> (\<forall>k. distinct (rm_sets r k))"

lemma rm_apply_space: "rm_space (rm_apply c r) = rcmd_apply c (rm_space r)"
  by (cases c) (auto simp: rm_space_def fun_eq_iff)

lemma rm_apply_up: "rm_up r \<Longrightarrow> rm_up (rm_apply c r)"
  by (cases c) (auto simp: rm_up_def distinct_removeAll)

lemma rm_fold:
  "rm_up r \<Longrightarrow> rm_up (fold rm_apply cs r) \<and> rm_space (fold rm_apply cs r) = fold rcmd_apply cs (rm_space r)"
  by (induction cs arbitrary: r) (simp_all add: rm_apply_up rm_apply_space)

lemma rm_next [simp]: "rm_space (rm_next r) = rm_space r" "rm_up (rm_next r) = rm_up r"
  "rm_strs (rm_next r) = rm_strs r" "rm_sets (rm_next r) = rm_sets r"
  by (simp_all add: rm_space_def rm_next_def rm_up_def)

interpretation rmem: redis_server rmem_ops rm_up rm_space
proof unfold_locales
  fix r t :: rmem and cs e k v x
  show "rm_up t \<and> rm_space t = fold rcmd_apply cs (rm_space r)"
    if "rm_up r" "rd_exec rmem_ops cs r = (None, t)"
    using that rm_fold [of "rm_next r" cs] by (auto simp: rmem_ops_def split: rfault.splits)
  show "rm_up t \<and> rm_space t \<in> {rm_space r, fold rcmd_apply cs (rm_space r)}"
    if "rm_up r" "rd_exec rmem_ops cs r = (Some e, t)"
    using that rm_fold [of "rm_next r" cs] by (auto simp: rmem_ops_def split: rfault.splits)
qed (auto simp: rmem_ops_def rm_space_def rm_up_def distinct_card split: if_splits)

section \<open>What a caller of the store sees\<close>

text \<open>Over any Redis server an entry that was saved is what \<open>Load\<close> returns for its id, field by field, and
  every other id keeps its entry; a save that fails has happened in full or not at all.\<close>

theorem redis_save_is_atomic:
  assumes "redis_server R up space" and "redis_ok up space pre r" and "redis_Save R pre e r = (x, t)"
    and "redis_Load R pre k t = (Some y, u)"
  shows "(x = None \<longrightarrow> Some y = (if k = e_ID e then Some e else redis_view space pre r k)) \<and>
    (x \<noteq> None \<longrightarrow> Some y \<in> {redis_view space pre r k, if k = e_ID e then Some e else redis_view space pre r k})"
proof -
  have s: "redis_ok up space pre t" "x = None \<longrightarrow> redis_view space pre t = (redis_view space pre r)(e_ID e \<mapsto> e)"
    "redis_view space pre t = redis_view space pre r \<or>
     redis_view space pre t = (redis_view space pre r)(e_ID e \<mapsto> e)"
    using redis_server.save_law [OF assms(1-3)] by blast+
  have "redis_view space pre t k = Some y"
    using redis_server.load_law [OF assms(1) s(1) assms(4)] by simp
  then have y: "Some y = redis_view space pre t k" by simp
  show ?thesis
  proof (cases x)
    case None
    then have "redis_view space pre t k = (if k = e_ID e then Some e else redis_view space pre r k)"
      using s(2) by simp
    then show ?thesis using y None by simp
  next
    case (Some err)
    have "redis_view space pre t k = redis_view space pre r k \<or>
        redis_view space pre t k = (if k = e_ID e then Some e else redis_view space pre r k)"
      using s(3) by (elim disjE) simp_all
    then show ?thesis using y Some by (simp only: option.simps simp_thms insert_iff empty_iff)
  qed
qed

definition rmem_empty :: "rfault list \<Rightarrow> rmem" where
  "rmem_empty script = \<lparr>rm_strs = (\<lambda>_. None), rm_sets = (\<lambda>_. []), rm_script = script\<rparr>"

lemma rmem_empty_ok: "redis_ok rm_up rm_space pre (rmem_empty script)"
  by (simp add: redis_ok_def rm_up_def space_ok_def rm_space_def rmem_empty_def)

lemma redis_save_is_atomic_witness:
  "let e = \<lparr>e_ID = ''1'', e_Prompt = ''p'', e_Reply = ''r'', e_Vector = [F_Num 1], e_CreatedAt = 5\<rparr>
   in \<exists>t u. redis_Save rmem_ops ''c'' e (rmem_empty [Served]) = (None, t) \<and>
        redis_Load rmem_ops ''c'' ''1'' t = (Some e, u)"
proof -
  let ?e = "\<lparr>e_ID = ''1'', e_Prompt = ''p'', e_Reply = ''r'', e_Vector = [F_Num 1], e_CreatedAt = 5\<rparr>"
  have "fst (redis_Save rmem_ops ''c'' ?e (rmem_empty [Served])) = None" by code_simp
  then obtain t where t: "redis_Save rmem_ops ''c'' ?e (rmem_empty [Served]) = (None, t)"
    by (cases "redis_Save rmem_ops ''c'' ?e (rmem_empty [Served])") simp
  have "fst (redis_Load rmem_ops ''c'' ''1'' (snd (redis_Save rmem_ops ''c'' ?e (rmem_empty [Served])))) \<noteq> None"
    by code_simp
  then obtain y u where "redis_Load rmem_ops ''c'' ''1'' t = (Some y, u)"
    using t by (cases "redis_Load rmem_ops ''c'' ''1'' t") auto
  with redis_save_is_atomic [OF rmem.redis_server_axioms rmem_empty_ok t this] t show ?thesis by auto
qed

text \<open>Encoding an entry to its document and decoding the document gives the entry back.\<close>

theorem entry_roundtrip:
  assumes "json_of_entry e = Inr j"
  shows "decodeEntry (Some j) = Inr e"
  by (rule decode_encode [OF assms])

lemma entry_roundtrip_witness:
  "\<exists>j. json_of_entry \<lparr>e_ID = ''1'', e_Prompt = ''p'', e_Reply = ''r'', e_Vector = [F_Num (1 / 2)], e_CreatedAt = 5\<rparr> = Inr j \<and>
     decodeEntry (Some j) = Inr \<lparr>e_ID = ''1'', e_Prompt = ''p'', e_Reply = ''r'', e_Vector = [F_Num (1 / 2)], e_CreatedAt = 5\<rparr>"
proof -
  let ?e = "\<lparr>e_ID = ''1'', e_Prompt = ''p'', e_Reply = ''r'', e_Vector = [F_Num (1 / 2)], e_CreatedAt = 5\<rparr>"
  have "res_ok (json_of_entry ?e)" by code_simp
  then obtain j where "json_of_entry ?e = Inr j" by (auto simp: res_ok_def split: sum.splits)
  with entry_roundtrip [OF this] show ?thesis by blast
qed


end
