(* ===== verification/Protocol_Store.thy ===== *)
theory Protocol_Store
  imports Protocol_Vector Redis_Store
begin

text \<open>
  The remote persistence adapter (\<open>internal/plugins/protocol/persistence.go\<close>): each method is one call of
  the client, \<open>List\<close> one per page, and an entry is checked in both directions. A failure is one of three
  classes: not found, invalid data, backend. What is only logged is left out.
\<close>

definition listPageLimit :: int where "listPageLimit = 500"
definition maxPersistPages :: int where "maxPersistPages = 100000"

definition NewPersistence :: "'w client \<Rightarrow> 'w client" where
  "NewPersistence c =
     (if cl_MaxResponse c = 0 \<or> 32 * 2 ^ 20 < cl_MaxResponse c then c\<lparr>cl_MaxResponse := 32 * 2 ^ 20\<rparr> else c)"

definition validateEntry :: "Entry \<Rightarrow> goerr option" where
  "validateEntry e =
     (if \<not> ValidID (e_ID e) then Some (Errorf ''entry id is blank or not safe as a URL segment'' [])
      else if \<not> list_all f64_finite (e_Vector e) then Some (Errorf ''entry vector contains a non-finite value'' [])
      else None)"

text \<open>\<open>fmt.Errorf("%w: ...: %v", class, cause)\<close>.\<close>

definition classified :: "goerr \<Rightarrow> string \<Rightarrow> goerr \<Rightarrow> goerr" where
  "classified cls f e = Errorf f [AWrap cls, AErr e]"

section \<open>Single entries\<close>

definition pps_Save :: "'w client \<Rightarrow> Entry \<Rightarrow> 'w \<Rightarrow> goerr option \<times> 'w" where
  "pps_Save c e w =
     (case validateEntry e of
        Some x \<Rightarrow> (Some (classified Persistence.ErrInvalidData ''%w: %v'' x), w)
      | None \<Rightarrow>
          (case client_call c ''PUT'' (''/v1/entries/'' @ e_ID e) (Some (json_of_entry e)) w of
             (Some x, w1) \<Rightarrow> (Some (classified ErrBackend ''%w: save: %v'' x), w1)
           | (None, w1) \<Rightarrow> (None, w1)))"

definition is_status :: "goerr \<Rightarrow> bool" where
  "is_status e = (case e of StatusError _ _ _ \<Rightarrow> True | _ \<Rightarrow> False)"

text \<open>The class of an error of the client.\<close>

definition load_class :: "goerr \<Rightarrow> goerr" where
  "load_class e =
     (case errors_as is_status e of
        Some (StatusError st code msg) \<Rightarrow>
          if st = 404 then Persistence.ErrNotFound
          else if st = 422 \<or> code = ''invalid_data'' then Persistence.ErrInvalidData
          else if errors_is e ErrMalformed then Persistence.ErrInvalidData
          else classified ErrBackend ''%w: %v'' e
      | _ \<Rightarrow>
          if errors_is e ErrMalformed then Persistence.ErrInvalidData
          else classified ErrBackend ''%w: %v'' e)"

definition decode_entry :: "json \<Rightarrow> Entry res" where
  "decode_entry j = json_struct entry_fields j zero_Entry"

definition pps_LoadDetailed :: "'w client \<Rightarrow> string \<Rightarrow> 'w \<Rightarrow> Entry res \<times> 'w" where
  "pps_LoadDetailed c k w =
     (if \<not> ValidID k then (Inl Persistence.ErrNotFound, w)
      else case client_get c ''GET'' (''/v1/entries/'' @ k) [] None decode_entry zero_Entry w of
        (Inl e, w1) \<Rightarrow> (Inl (load_class e), w1)
      | (Inr e, w1) \<Rightarrow>
          if e_ID e \<noteq> k \<or> validateEntry e \<noteq> None then (Inl Persistence.ErrInvalidData, w1) else (Inr e, w1))"

definition pps_Load :: "'w client \<Rightarrow> string \<Rightarrow> 'w \<Rightarrow> Entry option \<times> 'w" where
  "pps_Load c k w = (case pps_LoadDetailed c k w of (Inr e, w1) \<Rightarrow> (Some e, w1) | (Inl _, w1) \<Rightarrow> (None, w1))"

definition pps_Delete :: "'w client \<Rightarrow> string \<Rightarrow> 'w \<Rightarrow> goerr option \<times> 'w" where
  "pps_Delete c k w =
     (if \<not> ValidID k then (None, w)
      else case client_call c ''DELETE'' (''/v1/entries/'' @ k) None w of
        (None, w1) \<Rightarrow> (None, w1)
      | (Some e, w1) \<Rightarrow>
          (if (case errors_as is_status e of Some (StatusError st _ _) \<Rightarrow> st = 404 | _ \<Rightarrow> False) then None
           else Some (classified ErrBackend ''%w: delete: %v'' e), w1))"

section \<open>All entries\<close>

record list_page =
  lp_Entries :: "Entry list"
  lp_NextCursor :: string

definition decode_page :: "json \<Rightarrow> list_page res" where
  "decode_page j = json_struct
     [(''entries'', \<lambda>j p. res_bind (json_slice decode_entry j) (\<lambda>x. Inr (p\<lparr>lp_Entries := (case x of None \<Rightarrow> [] | Some es \<Rightarrow> es)\<rparr>))),
      (''next_cursor'', \<lambda>j p. res_bind (json_string j (lp_NextCursor p)) (\<lambda>x. Inr (p\<lparr>lp_NextCursor := x\<rparr>)))]
     j \<lparr>lp_Entries = [], lp_NextCursor = []\<rparr>"

text \<open>The entries of one page after those of the pages before, or why the page is refused. \<open>all\<close> is both the
  list and the set of ids seen.\<close>

fun take_page :: "Entry list \<Rightarrow> Entry list \<Rightarrow> Entry list res" where
  "take_page [] all = Inr all"
| "take_page (e # es) all =
     (case validateEntry e of
        Some x \<Rightarrow> Inl (Errorf ''%w: list returned entry %q: %v'' [AWrap Persistence.ErrInvalidData, AStr (e_ID e), AErr x])
      | None \<Rightarrow>
          if e_ID e \<in> e_ID ` set all
          then Inl (Errorf ''%w: list returned duplicate id %q'' [AWrap Persistence.ErrInvalidData, AStr (e_ID e)])
          else take_page es (all @ [e]))"

definition page_query :: "string \<Rightarrow> (string \<times> string) list" where
  "page_query cursor = (''limit'', itoa listPageLimit) # (if cursor = [] then [] else [(''cursor'', cursor)])"

function list_pages :: "'w client \<Rightarrow> int \<Rightarrow> string \<Rightarrow> Entry list \<Rightarrow> 'w \<Rightarrow> Entry list res \<times> 'w" where
  "list_pages c page cursor all w =
     (if maxPersistPages \<le> page then (Inl (Errorf ''%w: list exceeded %d pages'' [AWrap ErrBackend, AInt maxPersistPages]), w)
      else case client_get c ''GET'' ''/v1/entries'' (page_query cursor) None decode_page \<lparr>lp_Entries = [], lp_NextCursor = []\<rparr> w of
        (Inl e, w1) \<Rightarrow> (Inl (classified ErrBackend ''%w: list: %v'' e), w1)
      | (Inr p, w1) \<Rightarrow>
          (case take_page (lp_Entries p) all of
             Inl e \<Rightarrow> (Inl e, w1)
           | Inr all1 \<Rightarrow>
               if lp_NextCursor p = [] then (Inr all1, w1)
               else if lp_NextCursor p = cursor
               then (Inl (Errorf ''%w: list cursor did not advance'' [AWrap ErrBackend]), w1)
               else list_pages c (page + 1) (lp_NextCursor p) all1 w1))"
  by pat_completeness auto
termination by (relation "measure (\<lambda>(c, page, cursor, all, w). nat (maxPersistPages - page))") auto

declare list_pages.simps [simp del]

definition pps_List :: "'w client \<Rightarrow> 'w \<Rightarrow> Entry list res \<times> 'w" where
  "pps_List c w = list_pages c 0 [] [] w"

definition pps_Size :: "'w client \<Rightarrow> 'w \<Rightarrow> int res \<times> 'w" where
  "pps_Size c w =
     (case client_get c ''GET'' ''/v1/size'' [] None (decode_int_ptr ''size'') None w of
        (Inl e, w1) \<Rightarrow> (Inl (classified ErrBackend ''%w: size: %v'' e), w1)
      | (Inr n, w1) \<Rightarrow>
          (case n of
             Some i \<Rightarrow> if i < 0 then Inl (classified Persistence.ErrInvalidData ''%w: size: %v'' ErrMalformed) else Inr i
           | None \<Rightarrow> Inl (classified Persistence.ErrInvalidData ''%w: size: %v'' ErrMalformed), w1))"

definition pps_Flush :: "'w client \<Rightarrow> 'w \<Rightarrow> goerr option \<times> 'w" where
  "pps_Flush c w =
     (case client_call c ''POST'' ''/v1/flush'' (Some (Inr (JObj []))) w of
        (Some e, w1) \<Rightarrow> (Some (classified ErrBackend ''%w: flush: %v'' e), w1)
      | (None, w1) \<Rightarrow> (None, w1))"

definition protocol_store :: "'w client \<Rightarrow> 'w store_ops" where
  "protocol_store c = \<lparr>st_Save = pps_Save c, st_Load = pps_Load c, st_List = pps_List c, st_Size = pps_Size c,
     st_Delete = pps_Delete c, st_Flush = pps_Flush c, st_Health = client_Health c\<rparr>"

lemmas protocol_store_simps = protocol_store_def store_ops.simps

section \<open>Facts\<close>

text \<open>A page that is taken adds its entries, all of them valid and new.\<close>

lemma take_page_ok:
  "take_page es all = Inr xs \<Longrightarrow> xs = all @ es \<and> (\<forall>e \<in> set es. validateEntry e = None) \<and>
     (distinct (map e_ID all) \<longrightarrow> distinct (map e_ID xs))"
  by (induction es all rule: take_page.induct) (auto split: option.splits if_splits, blast)

lemma take_page_valid:
  "\<forall>e \<in> set es. validateEntry e = None \<Longrightarrow> distinct (map e_ID (all @ es)) \<Longrightarrow> take_page es all = Inr (all @ es)"
proof (induction es all rule: take_page.induct)
  case (2 e es all)
  then have "e_ID e \<notin> e_ID ` set all" by auto
  with 2 show ?case by simp
qed simp

lemma pps_LoadDetailed_valid:
  "pps_LoadDetailed c k w = (Inr e, t) \<Longrightarrow> e_ID e = k \<and> validateEntry e = None"
  by (auto simp: pps_LoadDetailed_def split: if_splits prod.splits sum.splits)

end
