(* ===== verification/Sdk_Store.thy ===== *)
theory Sdk_Store
  imports Sdk_Net Protocol_Store "HOL-Library.Product_Lexorder"
begin

text \<open>
  The persistence plugin of the SDK (\<open>sdk/examples/persistence/main.go\<close>): its HTTP handlers over a map of
  entries, and the proof that the platform's adapter talking to it, over a network that may refuse
  requests and lose replies, keeps the laws of \<open>cache_store\<close>. The token and the size of a document in
  bytes are parameters of the server.
\<close>

record sdk_st_cfg =
  pc_token :: string
  pc_bytes :: "json \<Rightarrow> int"

record sdk_st =
  sd_data :: "(string, Entry) gomap"

definition sdk_order :: "Entry \<Rightarrow> int \<times> string" where
  "sdk_order e = (e_CreatedAt e, e_ID e)"

definition sdk_sorted :: "sdk_st \<Rightarrow> Entry list" where
  "sdk_sorted s = sort_key sdk_order (map snd (sd_data s))"

section \<open>Handlers\<close>

text \<open>\<open>writeJSON\<close>: the header is out before the document is encoded.\<close>

definition write_json :: "(json \<Rightarrow> int) \<Rightarrow> int \<Rightarrow> json res \<Rightarrow> http_resp" where
  "write_json bytes code r = (case r of Inr j \<Rightarrow> reply_json bytes code j | Inl _ \<Rightarrow> reply_empty code)"

definition sdk_st_put :: "sdk_st_cfg \<Rightarrow> string \<Rightarrow> json option \<Rightarrow> sdk_st \<Rightarrow> http_resp \<times> sdk_st" where
  "sdk_st_put cfg k body s =
     (case map_option decode_entry (limit_body (pc_bytes cfg) (8 * 2 ^ 20) body) of
        Some (Inr e) \<Rightarrow>
          if e_ID e \<noteq> k \<or> \<not> ValidID (e_ID e)
          then (reply_error (pc_bytes cfg) 400 ''invalid_request'' ''entry id must match the URL and be URL-safe'', s)
          else if \<not> list_all f64_finite (e_Vector e)
          then (reply_error (pc_bytes cfg) 400 ''invalid_request'' ''non-finite vector value'', s)
          else (reply_empty 204, s\<lparr>sd_data := gm_put (e_ID e) e (sd_data s)\<rparr>)
      | _ \<Rightarrow> (reply_error (pc_bytes cfg) 400 ''invalid_request'' ''entry id must match the URL and be URL-safe'', s))"

definition sdk_st_get :: "sdk_st_cfg \<Rightarrow> string \<Rightarrow> sdk_st \<Rightarrow> http_resp" where
  "sdk_st_get cfg k s =
     (case gm_get (sd_data s) k of
        None \<Rightarrow> reply_error (pc_bytes cfg) 404 ''not_found'' ''no such entry''
      | Some e \<Rightarrow> write_json (pc_bytes cfg) 200 (json_of_entry e))"

definition query_get :: "(string \<times> string) list \<Rightarrow> string \<Rightarrow> string" where
  "query_get qs k = (case map_of qs k of None \<Rightarrow> [] | Some v \<Rightarrow> v)"

text \<open>The page of a listing from \<open>offset\<close> on and the cursor of the next.\<close>

definition sdk_page :: "int \<Rightarrow> int \<Rightarrow> Entry list \<Rightarrow> Entry list \<times> string" where
  "sdk_page limit offset es =
     (let n = int (length es);
          off = (if offset < 0 \<or> n < offset then n else offset);
          stop = off + limit
      in if stop < n then (take (nat limit) (drop (nat off) es), itoa stop) else (drop (nat off) es, []))"

definition sdk_st_list :: "sdk_st_cfg \<Rightarrow> (string \<times> string) list \<Rightarrow> sdk_st \<Rightarrow> http_resp" where
  "sdk_st_list cfg qs s =
     (let l = atoi_value (query_get qs ''limit''); limit = (if l < 1 \<or> 1000 < l then 500 else l)
      in case sdk_page limit (atoi_value (query_get qs ''cursor'')) (sdk_sorted s) of
           (es, next) \<Rightarrow> write_json (pc_bytes cfg) 200
             (res_bind (json_of_list json_of_entry es) (\<lambda>js. Inr (JObj [(''entries'', JArr js), (''next_cursor'', JStr next)]))))"

definition sdk_st_mux :: "sdk_st_cfg \<Rightarrow> sdk_st server" where
  "sdk_st_mux cfg req s =
     (let m = hq_method req; p = hq_path req; b = pc_bytes cfg; pid = path_id ''/v1/entries/'' p in
      if m = ''GET'' \<and> p = ''/health'' then (reply_json b 200 (JObj [(''status'', JStr ''ok'')]), s)
      else if m = ''PUT'' \<and> pid \<noteq> None then sdk_st_put cfg (the pid) (hq_body req) s
      else if m = ''GET'' \<and> pid \<noteq> None then (sdk_st_get cfg (the pid) s, s)
      else if m = ''GET'' \<and> p = ''/v1/entries'' then (sdk_st_list cfg (hq_query req) s, s)
      else if m = ''DELETE'' \<and> pid \<noteq> None then (reply_empty 204, s\<lparr>sd_data := gm_del (the pid) (sd_data s)\<rparr>)
      else if m = ''GET'' \<and> p = ''/v1/size'' then
        (reply_json b 200 (JObj [(''size'', JInt (int (gm_len (sd_data s))))]), s)
      else if m = ''POST'' \<and> p = ''/v1/flush'' then (reply_empty 204, s\<lparr>sd_data := []\<rparr>)
      else (reply_unmatched, s))"

definition sdk_st_serve :: "sdk_st_cfg \<Rightarrow> sdk_st server" where
  "sdk_st_serve cfg = withAuth (pc_bytes cfg) (pc_token cfg) (sdk_st_mux cfg)"

section \<open>Facts about the server\<close>

text \<open>Every entry held is stored under its id and passes the platform's checks.\<close>

definition sdk_st_ok :: "sdk_st \<Rightarrow> bool" where
  "sdk_st_ok s \<longleftrightarrow> gm_wf (sd_data s) \<and> (\<forall>k e. gm_get (sd_data s) k = Some e \<longrightarrow> e_ID e = k \<and> validateEntry e = None)"

definition sdk_st_view :: "sdk_st \<Rightarrow> string \<Rightarrow> Entry option" where
  "sdk_st_view s = gm_get (sd_data s)"

lemma decode_entry_json: "json_of_entry e = Inr j \<Longrightarrow> decode_entry j = Inr e"
  using decode_encode [of e j] by (simp add: decode_entry_def)

lemma json_of_entry_total: "validateEntry e = None \<Longrightarrow> \<exists>j. json_of_entry e = Inr j"
  by (auto simp: validateEntry_def json_of_entry_def json_of_floats_def split: if_splits)

lemma entries_json:
  "json_of_list json_of_entry es = Inr js \<Longrightarrow> json_list decode_entry js = Inr es"
  by (induction es arbitrary: js) (auto simp: res_bind_Inr decode_entry_json)

lemma entries_json_total: "\<forall>e \<in> set es. validateEntry e = None \<Longrightarrow> \<exists>js. json_of_list json_of_entry es = Inr js"
proof (induction es)
  case (Cons e es)
  then obtain j js where "json_of_entry e = Inr j" "json_of_list json_of_entry es = Inr js"
    using json_of_entry_total by fastforce
  then show ?case by simp
qed simp

lemma decode_page_json:
  "json_of_list json_of_entry es = Inr js \<Longrightarrow>
   decode_page (JObj [(''entries'', JArr js), (''next_cursor'', JStr nx)]) = Inr \<lparr>lp_Entries = es, lp_NextCursor = nx\<rparr>"
  by (simp add: decode_page_def json_member_def entries_json)

lemma sdk_sorted_view:
  assumes "sdk_st_ok s"
  shows "distinct (map e_ID (sdk_sorted s))" and "set (sdk_sorted s) = ran (sdk_st_view s)"
    and "\<forall>e \<in> set (sdk_sorted s). validateEntry e = None" and "length (sdk_sorted s) = gm_len (sd_data s)"
proof -
  have wf: "gm_wf (sd_data s)" and id: "\<And>k e. (k, e) \<in> set (sd_data s) \<Longrightarrow> e_ID e = k \<and> validateEntry e = None"
    using assms by (auto simp: sdk_st_ok_def gm_get_iff)
  have "map (e_ID \<circ> snd) (sd_data s) = gm_keys (sd_data s)"
    using id by (auto simp: gm_keys_def)
  then have "distinct (map e_ID (map snd (sd_data s)))" using wf by (simp add: gm_wf_keys)
  moreover have "mset (map e_ID (sdk_sorted s)) = mset (map e_ID (map snd (sd_data s)))"
    unfolding sdk_sorted_def mset_map mset_sort ..
  ultimately show "distinct (map e_ID (sdk_sorted s))" using mset_eq_imp_distinct_iff by blast
  show "set (sdk_sorted s) = ran (sdk_st_view s)"
    using ran_gm_get [OF wf] by (simp add: sdk_sorted_def sdk_st_view_def)
  show "\<forall>e \<in> set (sdk_sorted s). validateEntry e = None" using id by (auto simp: sdk_sorted_def)
  show "length (sdk_sorted s) = gm_len (sd_data s)" by (simp add: sdk_sorted_def gm_len_def)
qed

section \<open>The adapter over the network\<close>

definition st_net_ok :: "sdk_st net \<Rightarrow> bool" where
  "st_net_ok w \<longleftrightarrow> sdk_st_ok (nt_srv w)"

definition st_net_view :: "sdk_st net \<Rightarrow> string \<Rightarrow> Entry option" where
  "st_net_view w = sdk_st_view (nt_srv w)"

text \<open>A client of the server, from \<open>NewPersistence\<close>; its token, limits and fault script are arbitrary.\<close>

definition sdk_st_client :: "sdk_st_cfg \<Rightarrow> string \<Rightarrow> int \<Rightarrow> int \<Rightarrow> sdk_st net client" where
  "sdk_st_client cfg token maxResponse timeout = NewPersistence
     \<lparr>cl_Token = token, cl_MaxResponse = maxResponse, cl_Timeout = timeout,
      cl_HTTP = net_send (sdk_st_serve cfg), cl_ctx = (\<lambda>_. None), cl_scrub = (\<lambda>s. s)\<rparr>"

lemma sdk_st_client_net: "net_client (sdk_st_serve cfg) (sdk_st_client cfg tk mx tmo)"
  by (simp add: net_client_def sdk_st_client_def NewPersistence_def)

lemma entry_path_id: "ValidID k \<Longrightarrow> path_id ''/v1/entries/'' (''/v1/entries/'' @ k) = Some k"
  using ValidID_nonempty [of k] by (intro path_id_append) auto

lemma no_entry_id [simp]:
  "path_id ''/v1/entries/'' ''/v1/entries'' = None" "path_id ''/v1/entries/'' ''/v1/size'' = None"
  "path_id ''/v1/entries/'' ''/v1/flush'' = None"
  by (simp_all add: path_id_def has_prefix_def)

text \<open>The server's reaction to each request, with or without the token.\<close>

lemma serve_put:
  assumes "sdk_st_serve cfg (client_req c ''PUT'' (''/v1/entries/'' @ e_ID e) q (Some j)) s = (resp, t)"
    and "json_of_entry e = Inr j" and "validateEntry e = None"
  shows "t = s \<and> hs_status resp \<in> {400, 401} \<or> t = s\<lparr>sd_data := gm_put (e_ID e) e (sd_data s)\<rparr>"
proof -
  have v: "ValidID (e_ID e)" "list_all f64_finite (e_Vector e)"
    using assms(3) by (auto simp: validateEntry_def split: if_splits)
  show ?thesis
    using withAuth_cases [OF assms(1) [unfolded sdk_st_serve_def]] v decode_entry_json [OF assms(2)]
    by (auto simp: sdk_st_mux_def sdk_st_put_def limit_body_def Let_def entry_path_id
        simp del: append_Cons split: if_splits)
qed

lemma serve_get:
  assumes "sdk_st_serve cfg (client_req c ''GET'' (''/v1/entries/'' @ k) q None) s = (resp, t)" and "ValidID k"
  shows "t = s" and "hs_status resp \<le> 299 \<Longrightarrow> \<exists>e. gm_get (sd_data s) k = Some e \<and> resp = write_json (pc_bytes cfg) 200 (json_of_entry e)"
proof -
  have h: "''/v1/entries/'' @ k \<noteq> ''/health''" by simp
  show "t = s" and "hs_status resp \<le> 299 \<Longrightarrow> \<exists>e. gm_get (sd_data s) k = Some e \<and> resp = write_json (pc_bytes cfg) 200 (json_of_entry e)"
    using withAuth_cases [OF assms(1) [unfolded sdk_st_serve_def]]
    by (auto simp: sdk_st_mux_def sdk_st_get_def Let_def entry_path_id assms(2) h
        simp del: append_Cons split: option.splits)
qed

lemma serve_entry_delete:
  assumes "sdk_st_serve cfg (client_req c ''DELETE'' (''/v1/entries/'' @ k) q None) s = (resp, t)" and "ValidID k"
  shows "t = s \<and> hs_status resp = 401 \<or> hs_status resp = 204 \<and> t = s\<lparr>sd_data := gm_del k (sd_data s)\<rparr>"
  using withAuth_cases [OF assms(1) [unfolded sdk_st_serve_def]]
  by (auto simp: sdk_st_mux_def Let_def entry_path_id assms(2) simp del: append_Cons)

lemma serve_store_flush:
  assumes "sdk_st_serve cfg (client_req c ''POST'' ''/v1/flush'' q j) s = (resp, t)"
  shows "t = s \<and> hs_status resp = 401 \<or> t = s\<lparr>sd_data := []\<rparr>"
  using withAuth_cases [OF assms(1) [unfolded sdk_st_serve_def]] by (auto simp: sdk_st_mux_def Let_def)

lemma serve_store_size:
  assumes "sdk_st_serve cfg (client_req c ''GET'' ''/v1/size'' q None) s = (resp, t)"
  shows "t = s" and "hs_status resp \<le> 299 \<Longrightarrow> hs_body resp = Body_Doc (JObj [(''size'', JInt (int (gm_len (sd_data s))))])"
  using withAuth_cases [OF assms [unfolded sdk_st_serve_def]] by (auto simp: sdk_st_mux_def Let_def)

lemma serve_list:
  assumes "sdk_st_serve cfg (client_req c ''GET'' ''/v1/entries'' q None) s = (resp, t)"
  shows "t = s" and "hs_status resp \<le> 299 \<Longrightarrow> resp = sdk_st_list cfg q s"
  using withAuth_cases [OF assms [unfolded sdk_st_serve_def]] by (auto simp: sdk_st_mux_def Let_def)

section \<open>The pages of a listing\<close>

text \<open>What \<open>maxPersistPages\<close> pages hold.\<close>

definition maxListed :: nat where "maxListed = nat (500 * maxPersistPages)"

lemma int_maxListed: "n \<le> maxListed \<longleftrightarrow> int n \<le> 50000000"
  by (simp add: maxListed_def maxPersistPages_def nat_le_iff le_nat_iff)

definition cursor_at :: "nat \<Rightarrow> string" where
  "cursor_at n = (if n = 0 then [] else itoa (int n))"

lemma cursor_at_nonempty [simp]: "cursor_at (n + 500) \<noteq> []" "[] \<noteq> cursor_at (n + 500)"
  by (simp_all add: cursor_at_def not_sym [OF itoa_nonempty])

lemma sdk_page_at:
  "n \<le> length es \<Longrightarrow> sdk_page 500 (int n) es =
     (take 500 (drop n es), if n + 500 < length es then cursor_at (n + 500) else [])"
  by (auto simp: sdk_page_def Let_def cursor_at_def)

lemma page_query_limit [simp]: "atoi_value (query_get (page_query cu) ''limit'') = 500"
proof -
  have "atoi_value (itoa 500) = 500" by (rule atoi_value_itoa) (simp_all add: int64_min_def int64_max_def)
  then show ?thesis by (simp add: query_get_def page_query_def listPageLimit_def)
qed

lemma page_query_cursor: "n \<le> maxListed \<Longrightarrow> atoi_value (query_get (page_query (cursor_at n)) ''cursor'') = int n"
proof -
  assume "n \<le> maxListed"
  then have "atoi_value (itoa (int n)) = int n" by (intro atoi_value_itoa) (simp_all add: int_maxListed int64_min_def int64_max_def)
  moreover have "atoi_value [] = 0" by code_simp
  ultimately show ?thesis by (simp add: query_get_def page_query_def cursor_at_def)
qed

definition page_at :: "nat \<Rightarrow> Entry list \<Rightarrow> list_page" where
  "page_at n es = \<lparr>lp_Entries = take 500 (drop n es), lp_NextCursor = (if n + 500 < length es then cursor_at (n + 500) else [])\<rparr>"

lemma sdk_st_list_at:
  assumes "sdk_st_ok s" and "n \<le> length (sdk_sorted s)" and "n \<le> maxListed"
  shows "\<exists>j. sdk_st_list cfg (page_query (cursor_at n)) s = reply_json (pc_bytes cfg) 200 j \<and>
    decode_page j = Inr (page_at n (sdk_sorted s))"
proof -
  let ?es = "take 500 (drop n (sdk_sorted s))"
  have "\<forall>e \<in> set ?es. validateEntry e = None"
    using sdk_sorted_view(3) [OF assms(1)] by (auto dest: in_set_takeD in_set_dropD)
  then obtain js where js: "json_of_list json_of_entry ?es = Inr js" using entries_json_total by blast
  let ?nx = "if n + 500 < length (sdk_sorted s) then cursor_at (n + 500) else []"
  have "sdk_st_list cfg (page_query (cursor_at n)) s =
      reply_json (pc_bytes cfg) 200 (JObj [(''entries'', JArr js), (''next_cursor'', JStr ?nx)])"
    using js
    by (simp add: sdk_st_list_def page_query_cursor [OF assms(3)] sdk_page_at [OF assms(2)] write_json_def
        del: take_all take_all_iff)
  then show ?thesis using decode_page_json [OF js, of ?nx] unfolding page_at_def by blast
qed

text \<open>A page that arrives is the page asked for.\<close>

lemma page_net:
  assumes ok: "st_net_ok w" and n: "n \<le> length (sdk_sorted (nt_srv w))" "n \<le> maxListed"
    and get: "client_get (sdk_st_client cfg tk mx tmo) ''GET'' ''/v1/entries'' (page_query (cursor_at n)) None decode_page z w = (r, t)"
  shows "nt_srv t = nt_srv w" and "r = Inr p \<Longrightarrow> p = page_at n (sdk_sorted (nt_srv w))"
proof -
  obtain resp s where srv: "sdk_st_serve cfg (client_req (sdk_st_client cfg tk mx tmo) ''GET'' ''/v1/entries''
      (page_query (cursor_at n)) None) (nt_srv w) = (resp, s)" by fastforce
  note N = client_get_net [OF sdk_st_client_net get, of resp s, unfolded option.case, OF srv]
  show "nt_srv t = nt_srv w" using N(1) serve_list(1) [OF srv] by auto
  assume "r = Inr p"
  note N2 = N(2) [OF this]
  have "resp = sdk_st_list cfg (page_query (cursor_at n)) (nt_srv w)" using serve_list(2) [OF srv] N2 by simp
  with sdk_st_list_at [OF ok [unfolded st_net_ok_def] n] obtain j
    where "hs_body resp = Body_Doc j" "decode_page j = Inr (page_at n (sdk_sorted (nt_srv w)))" by (metis reply_simps(2))
  then show "p = page_at n (sdk_sorted (nt_srv w))" using N2 by auto
qed

lemma list_pages_net:
  assumes "st_net_ok w" and "n \<le> length (sdk_sorted (nt_srv w))" and "int n = 500 * page"
    and "list_pages (sdk_st_client cfg tk mx tmo) page (cursor_at n) (take n (sdk_sorted (nt_srv w))) w = (r, t)"
  shows "nt_srv t = nt_srv w \<and> (\<forall>es. r = Inr es \<longrightarrow> es = sdk_sorted (nt_srv w))"
  using assms
proof (induction "nat (maxPersistPages - page)" arbitrary: page n w rule: less_induct)
  case less
  let ?c = "sdk_st_client cfg tk mx tmo" and ?S = "sdk_sorted (nt_srv w)"
  show ?case
  proof (cases "maxPersistPages \<le> page")
    case True
    then show ?thesis using less.prems(4) by (auto simp: list_pages.simps)
  next
    case False
    then have small: "n \<le> maxListed" using less.prems(3) by (simp add: maxPersistPages_def int_maxListed)
    obtain g w1 where get: "client_get ?c ''GET'' ''/v1/entries'' (page_query (cursor_at n)) None decode_page
        \<lparr>lp_Entries = [], lp_NextCursor = []\<rparr> w = (g, w1)" by fastforce
    note P = page_net [OF less.prems(1,2) small get]
    show ?thesis
    proof (cases g)
      case (Inl e)
      then show ?thesis using less.prems(4) False get P(1) by (auto simp: list_pages.simps [of ?c page])
    next
      case (Inr p)
      note p = P(2) [OF Inr]
      show ?thesis
      proof (cases "take_page (lp_Entries p) (take n ?S)")
        case (Inl e)
        then show ?thesis using less.prems(4) False get P(1) Inr by (auto simp: list_pages.simps [of ?c page])
      next
        case t: (Inr all1)
        have all1: "all1 = take (n + 500) ?S"
          using take_page_ok [OF t] by (simp add: p page_at_def take_add)
        show ?thesis
        proof (cases "n + 500 < length ?S \<and> lp_NextCursor p \<noteq> cursor_at n")
          case True
          have next_p: "lp_NextCursor p = cursor_at (n + 500)" "lp_NextCursor p \<noteq> []"
            using True by (simp_all add: p page_at_def cursor_at_def)
          have rec: "list_pages ?c (page + 1) (cursor_at (n + 500)) (take (n + 500) (sdk_sorted (nt_srv w1))) w1 = (r, t)"
            using less.prems(4) False get Inr t True next_p all1 P(1) by (simp add: list_pages.simps [of ?c page])
          have "st_net_ok w1" using less.prems(1) P(1) by (simp add: st_net_ok_def)
          moreover have "n + 500 \<le> length (sdk_sorted (nt_srv w1))" using True P(1) by simp
          ultimately have "nt_srv t = nt_srv w1 \<and> (\<forall>es. r = Inr es \<longrightarrow> es = sdk_sorted (nt_srv w1))"
            using False less.prems(3) by (intro less.hyps [OF _ _ _ _ rec]) simp_all
          then show ?thesis using P(1) by simp
        next
          case last: False
          then show ?thesis
            using less.prems(4) False get Inr t P(1) all1
            by (auto simp: list_pages.simps [of ?c page] p page_at_def split: if_splits)
        qed
      qed
    qed
  qed
qed


lemma st_net_list:
  assumes "st_net_ok w" and "pps_List (sdk_st_client cfg tk mx tmo) w = (r, t)"
  shows "nt_srv t = nt_srv w" and "r = Inr es \<Longrightarrow> es = sdk_sorted (nt_srv w)"
  using list_pages_net [OF assms(1), of 0 0] assms(2) by (simp_all add: pps_List_def cursor_at_def)

section \<open>Single entries over the network\<close>

lemma st_net_save:
  assumes ok: "st_net_ok w" and run: "pps_Save (sdk_st_client cfg tk mx tmo) e w = (r, t)"
  shows "st_net_ok t" and "r = None \<Longrightarrow> st_net_view t = (st_net_view w)(e_ID e \<mapsto> e)"
    and "st_net_view t = st_net_view w \<or> st_net_view t = (st_net_view w)(e_ID e \<mapsto> e)"
proof -
  let ?c = "sdk_st_client cfg tk mx tmo"
  have "st_net_ok t \<and> (r = None \<longrightarrow> st_net_view t = (st_net_view w)(e_ID e \<mapsto> e)) \<and>
    (st_net_view t = st_net_view w \<or> st_net_view t = (st_net_view w)(e_ID e \<mapsto> e))"
  proof (cases "validateEntry e")
    case (Some x)
    then show ?thesis using run ok by (auto simp: pps_Save_def)
  next
    case None
    obtain j where j: "json_of_entry e = Inr j" using json_of_entry_total [OF None] by blast
    obtain g where get: "client_call ?c ''PUT'' (''/v1/entries/'' @ e_ID e) (Some (Inr j)) w = (g, t)"
      and r: "r = None \<longleftrightarrow> g = None"
      using run None by (auto simp: pps_Save_def j split: prod.splits option.splits)
    obtain resp s where srv: "sdk_st_serve cfg (client_req ?c ''PUT'' (''/v1/entries/'' @ e_ID e) [] (Some j)) (nt_srv w) = (resp, s)"
      by fastforce
    note N = client_call_net [OF sdk_st_client_net get, of resp s, unfolded option.case sum.case, OF srv]
    have put: "st_net_ok t \<and> st_net_view t = (st_net_view w)(e_ID e \<mapsto> e)"
      if "nt_srv t = nt_srv w\<lparr>sd_data := gm_put (e_ID e) e (sd_data (nt_srv w))\<rparr>"
      using that ok None by (auto simp: st_net_ok_def sdk_st_ok_def st_net_view_def sdk_st_view_def gm_wf_put)
    show ?thesis
      using N r ok put serve_put [OF srv j None] by (auto simp: st_net_ok_def st_net_view_def)
  qed
  then show "st_net_ok t" and "r = None \<Longrightarrow> st_net_view t = (st_net_view w)(e_ID e \<mapsto> e)"
    and "st_net_view t = st_net_view w \<or> st_net_view t = (st_net_view w)(e_ID e \<mapsto> e)" by blast+
qed

lemma st_net_load:
  assumes ok: "st_net_ok w" and run: "pps_LoadDetailed (sdk_st_client cfg tk mx tmo) k w = (r, t)"
  shows "nt_srv t = nt_srv w" and "r = Inr e \<Longrightarrow> st_net_view w k = Some e"
proof -
  let ?c = "sdk_st_client cfg tk mx tmo"
  have "nt_srv t = nt_srv w \<and> (\<forall>e. r = Inr e \<longrightarrow> st_net_view w k = Some e)"
  proof (cases "ValidID k")
    case False
    then show ?thesis using run by (auto simp: pps_LoadDetailed_def)
  next
    case True
    obtain g where get: "client_get ?c ''GET'' (''/v1/entries/'' @ k) [] None decode_entry zero_Entry w = (g, t)"
      and r: "\<And>e. r = Inr e \<Longrightarrow> g = Inr e"
      using run True by (auto simp: pps_LoadDetailed_def split: prod.splits sum.splits if_splits)
    obtain resp s where srv: "sdk_st_serve cfg (client_req ?c ''GET'' (''/v1/entries/'' @ k) [] None) (nt_srv w) = (resp, s)"
      by fastforce
    note N = client_get_net [OF sdk_st_client_net get, of resp s, unfolded option.case, OF srv]
    have "st_net_view w k = Some e" if "r = Inr e" for e
    proof -
      note N2 = N(2) [OF r [OF that]]
      then obtain x where x: "gm_get (sd_data (nt_srv w)) k = Some x" and resp: "resp = write_json (pc_bytes cfg) 200 (json_of_entry x)"
        using serve_get(2) [OF srv True] by auto
      have "validateEntry x = None" using ok x by (simp add: st_net_ok_def sdk_st_ok_def)
      then obtain j where "json_of_entry x = Inr j" using json_of_entry_total by blast
      then have "e = x" using N2 resp decode_entry_json by (auto simp: write_json_def)
      then show ?thesis using x by (simp add: st_net_view_def sdk_st_view_def)
    qed
    then show ?thesis using N(1) serve_get(1) [OF srv True] by auto
  qed
  then show "nt_srv t = nt_srv w" and "r = Inr e \<Longrightarrow> st_net_view w k = Some e" by blast+
qed

text \<open>A status error of a call without a body is the status of the server's response.\<close>

lemma parseStatusError_status: "\<exists>c m. parseStatusError f st b = StatusError st c m"
  by (auto simp: parseStatusError_def split: http_body.splits option.splits sum.splits prod.splits)

lemma parseStatusError_as [dest]:
  "errors_as is_status (parseStatusError f st b) = Some (StatusError n code msg) \<Longrightarrow> n = st"
  using parseStatusError_status [of f st b] by (auto simp: is_status_def)

lemma client_call_status:
  assumes net: "net_client serve c" and run: "client_call c m p None w = (Some x, t)"
    and srv: "serve (client_req c m p [] None) (nt_srv w) = (resp, s)"
    and st: "errors_as is_status x = Some (StatusError st code msg)"
  shows "st = hs_status resp"
proof -
  have ctx: "cl_ctx c w' = None" for w' using net by (simp add: net_client_def)
  have http: "cl_HTTP c = net_send serve" using net by (simp add: net_client_def)
  obtain r w1 where r: "net_send serve (client_req c m p [] None) w = (r, w1)" by fastforce
  have rr: "\<And>rr. r = Inr rr \<Longrightarrow> rr = resp"
    using r srv by (auto simp: net_send_def Let_def split: net_fault.splits)
  show ?thesis
  proof (cases r)
    case (Inl e)
    then show ?thesis using run r st
      by (auto simp: client_call_def client_Do_def ctx http client_req_def is_status_def split: if_splits)
  next
    case (Inr y)
    then show ?thesis using run r st rr
      by (auto simp: client_call_def client_Do_def ctx http client_req_def is_status_def client_response_def Let_def
          ErrTooLarge_def split: if_splits http_body.splits)
  qed
qed

lemma st_net_delete:
  assumes ok: "st_net_ok w" and run: "pps_Delete (sdk_st_client cfg tk mx tmo) k w = (r, t)"
  shows "st_net_ok t" and "r = None \<Longrightarrow> st_net_view t = (st_net_view w)(k := None)"
    and "st_net_view t = st_net_view w \<or> st_net_view t = (st_net_view w)(k := None)"
proof -
  let ?c = "sdk_st_client cfg tk mx tmo"
  have "st_net_ok t \<and> (r = None \<longrightarrow> st_net_view t = (st_net_view w)(k := None)) \<and>
    (st_net_view t = st_net_view w \<or> st_net_view t = (st_net_view w)(k := None))"
  proof (cases "ValidID k")
    case False
    have "st_net_view w k = None"
    proof (rule ccontr)
      assume "st_net_view w k \<noteq> None"
      then obtain e where "e_ID e = k" "validateEntry e = None"
        using ok by (auto simp: st_net_view_def sdk_st_view_def st_net_ok_def sdk_st_ok_def)
      then show False using False by (auto simp: validateEntry_def split: if_splits)
    qed
    then show ?thesis using run ok False by (auto simp: pps_Delete_def fun_eq_iff)
  next
    case True
    obtain g where get: "client_call ?c ''DELETE'' (''/v1/entries/'' @ k) None w = (g, t)"
      and r: "r = None \<Longrightarrow> g = None \<or> (\<exists>x code msg. g = Some x \<and> errors_as is_status x = Some (StatusError 404 code msg))"
      using run True by (auto simp: pps_Delete_def split: prod.splits option.splits if_splits goerr.splits)
    obtain resp s where srv: "sdk_st_serve cfg (client_req ?c ''DELETE'' (''/v1/entries/'' @ k) [] None) (nt_srv w) = (resp, s)"
      by fastforce
    note N = client_call_net [OF sdk_st_client_net get, of resp s, unfolded option.case, OF srv]
    have gone: "st_net_ok t \<and> st_net_view t = (st_net_view w)(k := None)"
      if "nt_srv t = nt_srv w\<lparr>sd_data := gm_del k (sd_data (nt_srv w))\<rparr>"
      using that ok by (auto simp: st_net_ok_def sdk_st_ok_def st_net_view_def sdk_st_view_def gm_wf_del)
    note r0 = r
    have "hs_status resp \<noteq> 404" using serve_entry_delete [OF srv True] by auto
    then have r: "r = None \<Longrightarrow> g = None"
      using r0 client_call_status [OF sdk_st_client_net _ srv] get by fastforce
    show ?thesis
      using N r ok gone serve_entry_delete [OF srv True] by (auto simp: st_net_ok_def st_net_view_def)
  qed
  then show "st_net_ok t" and "r = None \<Longrightarrow> st_net_view t = (st_net_view w)(k := None)"
    and "st_net_view t = st_net_view w \<or> st_net_view t = (st_net_view w)(k := None)" by blast+
qed


lemma st_net_flush:
  assumes ok: "st_net_ok w" and run: "pps_Flush (sdk_st_client cfg tk mx tmo) w = (r, t)"
  shows "st_net_ok t" and "r = None \<Longrightarrow> st_net_view t = Map.empty"
    and "st_net_view t = st_net_view w \<or> st_net_view t = Map.empty"
proof -
  let ?c = "sdk_st_client cfg tk mx tmo"
  obtain g where get: "client_call ?c ''POST'' ''/v1/flush'' (Some (Inr (JObj []))) w = (g, t)"
    and r: "r = None \<longleftrightarrow> g = None"
    using run by (auto simp: pps_Flush_def split: prod.splits option.splits)
  obtain resp s where srv: "sdk_st_serve cfg (client_req ?c ''POST'' ''/v1/flush'' [] (Some (JObj []))) (nt_srv w) = (resp, s)"
    by fastforce
  note N = client_call_net [OF sdk_st_client_net get, of resp s, unfolded option.case sum.case, OF srv]
  have "st_net_ok t \<and> st_net_view t = Map.empty" if "nt_srv t = nt_srv w\<lparr>sd_data := []\<rparr>"
    using that by (simp add: st_net_view_def sdk_st_view_def st_net_ok_def sdk_st_ok_def fun_eq_iff)
  then have "st_net_ok t \<and> (r = None \<longrightarrow> st_net_view t = Map.empty) \<and>
    (st_net_view t = st_net_view w \<or> st_net_view t = Map.empty)"
    using N r ok serve_store_flush [OF srv] by (auto simp: st_net_ok_def st_net_view_def)
  then show "st_net_ok t" and "r = None \<Longrightarrow> st_net_view t = Map.empty"
    and "st_net_view t = st_net_view w \<or> st_net_view t = Map.empty" by blast+
qed

lemma st_net_size:
  assumes ok: "st_net_ok w" and run: "pps_Size (sdk_st_client cfg tk mx tmo) w = (r, t)"
  shows "nt_srv t = nt_srv w" and "r = Inr n \<Longrightarrow> n = int (card (dom (st_net_view w)))"
proof -
  let ?c = "sdk_st_client cfg tk mx tmo"
  obtain g where get: "client_get ?c ''GET'' ''/v1/size'' [] None (decode_int_ptr ''size'') None w = (g, t)"
    and r: "\<And>n. r = Inr n \<Longrightarrow> g = Inr (Some n)"
    using run by (auto simp: pps_Size_def split: prod.splits sum.splits option.splits if_splits)
  obtain resp s where srv: "sdk_st_serve cfg (client_req ?c ''GET'' ''/v1/size'' [] None) (nt_srv w) = (resp, s)"
    by fastforce
  note N = client_get_net [OF sdk_st_client_net get, of resp s, unfolded option.case, OF srv]
  show "nt_srv t = nt_srv w" using N(1) serve_store_size(1) [OF srv] by auto
  assume "r = Inr n"
  note N2 = N(2) [OF r [OF this]]
  have "hs_body resp = Body_Doc (JObj [(''size'', JInt (int (gm_len (sd_data (nt_srv w)))))])"
    using serve_store_size(2) [OF srv] N2 by simp
  then have "n = int (gm_len (sd_data (nt_srv w)))"
    using N2 by (auto simp: decode_int_ptr_def json_member_def split: if_splits)
  moreover have "gm_wf (sd_data (nt_srv w))" using ok by (simp add: st_net_ok_def sdk_st_ok_def)
  ultimately show "n = int (card (dom (st_net_view w)))"
    by (simp add: gm_len_card st_net_view_def sdk_st_view_def dom_gm_get)
qed

lemma same_server: "nt_srv t = nt_srv w \<Longrightarrow> st_net_ok w \<Longrightarrow> st_net_ok t \<and> st_net_view t = st_net_view w"
  by (simp add: st_net_ok_def st_net_view_def)

interpretation sdk_st: cache_store "protocol_store (sdk_st_client cfg tk mx tmo)" st_net_ok st_net_view
  for cfg tk mx tmo
proof (unfold_locales, unfold protocol_store_simps)
  show "finite (dom (st_net_view s))" for s
    by (simp add: st_net_view_def sdk_st_view_def dom_gm_get)
next
  show "e_ID e = k" if "st_net_ok s" "st_net_view s k = Some e" for s k e
    using that by (auto simp: st_net_ok_def st_net_view_def sdk_st_ok_def sdk_st_view_def)
next
  fix e and s t :: "sdk_st net"
  assume "st_net_ok s" and "pps_Save (sdk_st_client cfg tk mx tmo) e s = (None, t)"
  from st_net_save(1,2) [OF this] show "st_net_ok t \<and> st_net_view t = (st_net_view s)(e_ID e \<mapsto> e)" by simp
next
  fix e err and s t :: "sdk_st net"
  assume "st_net_ok s" and "pps_Save (sdk_st_client cfg tk mx tmo) e s = (Some err, t)"
  from st_net_save(1,3) [OF this]
  show "st_net_ok t \<and> st_net_view t \<in> {st_net_view s, (st_net_view s)(e_ID e \<mapsto> e)}" by simp
next
  fix k r and s t :: "sdk_st net"
  assume ok: "st_net_ok s" and "pps_Load (sdk_st_client cfg tk mx tmo) k s = (r, t)"
  then obtain x where "pps_LoadDetailed (sdk_st_client cfg tk mx tmo) k s = (x, t)"
    by (auto simp: pps_Load_def split: prod.splits sum.splits)
  from same_server [OF st_net_load(1) [OF ok this] ok] show "st_net_ok t \<and> st_net_view t = st_net_view s" .
next
  fix k e and s t :: "sdk_st net"
  assume ok: "st_net_ok s" and "pps_Load (sdk_st_client cfg tk mx tmo) k s = (Some e, t)"
  then have "pps_LoadDetailed (sdk_st_client cfg tk mx tmo) k s = (Inr e, t)"
    by (auto simp: pps_Load_def split: prod.splits sum.splits)
  from st_net_load(2) [OF ok this refl] show "st_net_view s k = Some e" .
next
  fix rl and s t :: "sdk_st net"
  assume ok: "st_net_ok s" and "pps_List (sdk_st_client cfg tk mx tmo) s = (rl, t)"
  from same_server [OF st_net_list(1) [OF this] ok] show "st_net_ok t \<and> st_net_view t = st_net_view s" .
next
  fix es and s t :: "sdk_st net"
  assume ok: "st_net_ok s" and "pps_List (sdk_st_client cfg tk mx tmo) s = (Inr es, t)"
  from st_net_list(2) [OF this refl] sdk_sorted_view(1,2) [OF ok [unfolded st_net_ok_def]]
  show "distinct (map e_ID es) \<and> set es = ran (st_net_view s)" by (simp add: st_net_view_def)
next
  fix r and s t :: "sdk_st net"
  assume ok: "st_net_ok s" and "pps_Size (sdk_st_client cfg tk mx tmo) s = (r, t)"
  from same_server [OF st_net_size(1) [OF this] ok] show "st_net_ok t \<and> st_net_view t = st_net_view s" .
next
  fix n and s t :: "sdk_st net"
  assume "st_net_ok s" and "pps_Size (sdk_st_client cfg tk mx tmo) s = (Inr n, t)"
  from st_net_size(2) [OF this refl] show "n = int (card (dom (st_net_view s)))" .
next
  fix k and s t :: "sdk_st net"
  assume "st_net_ok s" and "pps_Delete (sdk_st_client cfg tk mx tmo) k s = (None, t)"
  from st_net_delete(1,2) [OF this] show "st_net_ok t \<and> st_net_view t = (st_net_view s)(k := None)" by simp
next
  fix k err and s t :: "sdk_st net"
  assume "st_net_ok s" and "pps_Delete (sdk_st_client cfg tk mx tmo) k s = (Some err, t)"
  from st_net_delete(1,3) [OF this] show "st_net_ok t \<and> st_net_view t \<in> {st_net_view s, (st_net_view s)(k := None)}" by simp
next
  fix s t :: "sdk_st net"
  assume "st_net_ok s" and "pps_Flush (sdk_st_client cfg tk mx tmo) s = (None, t)"
  from st_net_flush(1,2) [OF this] show "st_net_ok t \<and> st_net_view t = Map.empty" by simp
next
  fix err and s t :: "sdk_st net"
  assume "st_net_ok s" and "pps_Flush (sdk_st_client cfg tk mx tmo) s = (Some err, t)"
  from st_net_flush(1,3) [OF this] show "st_net_ok t \<and> st_net_view t \<in> {st_net_view s, Map.empty}" by simp
qed


section \<open>When a listing succeeds\<close>

lemma client_get_delivered:
  assumes "net_client serve c" and "nt_script w = []" and "serve (client_req c m p q None) (nt_srv w) = (resp, nt_srv w)"
    and "hs_status resp = 200" and "hs_body resp = Body_Doc j" and "d j = Inr x"
  shows "client_get c m p q None d z w =
    (if (if cl_MaxResponse c \<le> 0 then DefaultMaxResponse else cl_MaxResponse c) < hs_size resp then Inl ErrTooLarge else Inr x, w)"
proof -
  have ctx: "cl_ctx c w' = None" for w' using assms(1) by (simp add: net_client_def)
  have http: "cl_HTTP c = net_send serve" using assms(1) by (simp add: net_client_def)
  have "net_send serve (client_req c m p q None) w = (Inr resp, w)"
    using assms(2,3) by (simp add: net_send_def net_fault_def)
  then show ?thesis
    using assms(4-6)
    by (auto simp: client_get_def client_Do_def ctx http client_req_def client_response_def Let_def)
qed

lemma cursor_at_inj: "n \<le> maxListed \<Longrightarrow> m \<le> maxListed \<Longrightarrow> cursor_at n = cursor_at m \<Longrightarrow> n = m"
  using page_query_cursor [of n] page_query_cursor [of m] by (metis of_nat_eq_iff)

definition page_fits :: "sdk_st_cfg \<Rightarrow> sdk_st \<Rightarrow> nat \<Rightarrow> bool" where
  "page_fits cfg s n \<longleftrightarrow> hs_size (sdk_st_list cfg (page_query (cursor_at n)) s) \<le> 32 * 2 ^ 20"

lemma page_delivered:
  assumes "sdk_st_ok (nt_srv w)" and "nt_script w = []" and "pc_token cfg = tk"
    and "n \<le> length (sdk_sorted (nt_srv w))" and "n \<le> maxListed"
  shows "client_get (sdk_st_client cfg tk 0 tmo) ''GET'' ''/v1/entries'' (page_query (cursor_at n)) None decode_page z w =
    (if page_fits cfg (nt_srv w) n then Inr (page_at n (sdk_sorted (nt_srv w))) else Inl ErrTooLarge, w)"
proof -
  let ?c = "sdk_st_client cfg tk 0 tmo" and ?r = "sdk_st_list cfg (page_query (cursor_at n)) (nt_srv w)"
  obtain j where j: "?r = reply_json (pc_bytes cfg) 200 j" "decode_page j = Inr (page_at n (sdk_sorted (nt_srv w)))"
    using sdk_st_list_at [OF assms(1,4,5)] by blast
  have tk: "cl_Token ?c = tk" and mx: "cl_MaxResponse ?c = 32 * 2 ^ 20"
    by (simp_all add: sdk_st_client_def NewPersistence_def)
  have "sdk_st_serve cfg (client_req ?c ''GET'' ''/v1/entries'' (page_query (cursor_at n)) None) (nt_srv w) = (?r, nt_srv w)"
    using assms(3) tk
    by (auto simp: sdk_st_serve_def withAuth_def sdk_st_mux_def Let_def client_req_def trim_prefix_def has_prefix_def)
  from client_get_delivered [OF sdk_st_client_net assms(2) this, of j decode_page] j mx
  show ?thesis by (auto simp: page_fits_def)
qed

lemma listing_from:
  assumes "sdk_st_ok (nt_srv w)" and "nt_script w = []" and "pc_token cfg = tk"
    and "n \<le> length (sdk_sorted (nt_srv w))" and "length (sdk_sorted (nt_srv w)) \<le> maxListed" and "int n = 500 * page" and "page < maxPersistPages"
    and "\<forall>m. page_fits cfg (nt_srv w) m"
  shows "list_pages (sdk_st_client cfg tk 0 tmo) page (cursor_at n) (take n (sdk_sorted (nt_srv w))) w = (Inr (sdk_sorted (nt_srv w)), w)"
  using assms(4,6,7)
proof (induction "nat (maxPersistPages - page)" arbitrary: page n rule: less_induct)
  case less
  let ?S = "sdk_sorted (nt_srv w)"
  have n: "n \<le> maxListed" using less.prems(1) assms(5) by simp
  have v: "\<forall>e \<in> set (take 500 (drop n ?S)). validateEntry e = None"
    using sdk_sorted_view(3) [OF assms(1)] by (auto dest: in_set_takeD in_set_dropD)
  have app: "take n ?S @ take 500 (drop n ?S) = take (n + 500) ?S" by (simp add: take_add)
  have "distinct (map e_ID (take (n + 500) ?S))"
    using sdk_sorted_view(1) [OF assms(1)] by (simp add: take_map [symmetric])
  then have page: "take_page (take 500 (drop n ?S)) (take n ?S) = Inr (take (n + 500) ?S)"
    using take_page_valid [OF v, of "take n ?S"] by (simp only: app)
  note P = page_delivered [OF assms(1-3) less.prems(1) n, of tmo]
  show ?case
  proof (cases "n + 500 < length ?S")
    case True
    then have "cursor_at (n + 500) \<noteq> cursor_at n" using cursor_at_inj [of "n + 500" n] assms(5) n by fastforce
    moreover have "page + 1 < maxPersistPages" using True less.prems(2) assms(5) by (simp add: maxPersistPages_def int_maxListed)
    moreover from this have "list_pages (sdk_st_client cfg tk 0 tmo) (page + 1) (cursor_at (n + 500)) (take (n + 500) ?S) w = (Inr ?S, w)"
      using True less.prems(2,3) by (intro less.hyps) simp_all
    ultimately show ?thesis
      using less.prems(3) True P assms(8) page by (simp add: list_pages.simps [of _ page] page_at_def)
  next
    case False
    then show ?thesis using less.prems P assms(8) page by (simp add: list_pages.simps [of _ page] page_at_def)
  qed
qed

text \<open>Over a network that delivers, with the right token, listing a remote store of at most 50 million
  entries returns all of them in the order of their creation, as long as each page of 500 fits the 32 MiB
  a response may have. When the first page does not, no listing of that store ever succeeds.\<close>

theorem listing_returns_every_entry:
  assumes "sdk_st_ok (nt_srv w)" and "nt_script w = []" and "pc_token cfg = tk"
    and "length (sdk_sorted (nt_srv w)) \<le> maxListed"
  shows "((\<forall>m. page_fits cfg (nt_srv w) m) \<longrightarrow>
      pps_List (sdk_st_client cfg tk 0 tmo) w = (Inr (sdk_sorted (nt_srv w)), w) \<and>
      set (sdk_sorted (nt_srv w)) = ran (st_net_view w) \<and> sorted (map sdk_order (sdk_sorted (nt_srv w)))) \<and>
    (\<not> page_fits cfg (nt_srv w) 0 \<longrightarrow>
      pps_List (sdk_st_client cfg tk 0 tmo) w = (Inl (classified ErrBackend ''%w: list: %v'' ErrTooLarge), w))"
proof (intro conjI impI)
  assume fits: "\<forall>m. page_fits cfg (nt_srv w) m"
  show "pps_List (sdk_st_client cfg tk 0 tmo) w = (Inr (sdk_sorted (nt_srv w)), w)"
    using listing_from [OF assms(1-3) _ assms(4) _ _ fits, of 0 0 tmo]
    by (simp add: pps_List_def cursor_at_def maxPersistPages_def)
  show "set (sdk_sorted (nt_srv w)) = ran (st_net_view w)"
    using sdk_sorted_view(2) [OF assms(1)] by (simp add: st_net_view_def)
  show "sorted (map sdk_order (sdk_sorted (nt_srv w)))" by (simp add: sdk_sorted_def)
next
  assume "\<not> page_fits cfg (nt_srv w) 0"
  then show "pps_List (sdk_st_client cfg tk 0 tmo) w = (Inl (classified ErrBackend ''%w: list: %v'' ErrTooLarge), w)"
    using page_delivered [OF assms(1-3), of 0 tmo]
    by (simp add: pps_List_def list_pages.simps [of _ 0] cursor_at_def maxPersistPages_def)
qed

definition demo_entries :: "nat \<Rightarrow> sdk_st" where
  "demo_entries n = \<lparr>sd_data = map (\<lambda>i. (nat_digits i, \<lparr>e_ID = nat_digits i, e_Prompt = ''p'', e_Reply = ''r'', e_Vector = [],
     e_CreatedAt = - int i\<rparr>)) [0..<n]\<rparr>"

lemma listing_returns_every_entry_witness:
  "pps_List (sdk_st_client \<lparr>pc_token = ''t'', pc_bytes = (\<lambda>_. 100)\<rparr> ''t'' 0 0) \<lparr>nt_srv = demo_entries 3, nt_script = []\<rparr> =
     (Inr (map (\<lambda>i. the (gm_get (sd_data (demo_entries 3)) (nat_digits i))) [2, 1, 0]), \<lparr>nt_srv = demo_entries 3, nt_script = []\<rparr>)"
proof -
  let ?cfg = "\<lparr>pc_token = ''t'', pc_bytes = (\<lambda>_. 100)\<rparr>"
  have d: "gm_wf (sd_data (demo_entries 3))" "list_all (\<lambda>(k, e). e_ID e = k \<and> validateEntry e = None) (sd_data (demo_entries 3))"
    "length (sdk_sorted (demo_entries 3)) = 3"
    "sdk_sorted (demo_entries 3) = map (\<lambda>i. the (gm_get (sd_data (demo_entries 3)) (nat_digits i))) [2, 1, 0]"
    by code_simp+
  have ok: "sdk_st_ok (demo_entries 3)"
    using d(1,2) by (auto simp: sdk_st_ok_def list_all_iff dest: gm_get_SomeD)
  have "page_fits ?cfg (demo_entries 3) m" for m
    by (auto simp: page_fits_def sdk_st_list_def write_json_def reply_json_def reply_empty_def Let_def split: prod.splits sum.splits)
  then show ?thesis
    using listing_returns_every_entry [of "\<lparr>nt_srv = demo_entries 3, nt_script = []\<rparr>" ?cfg "''t''" 0] ok d(3,4)
    by (simp add: int_maxListed)
qed


end
