(* ===== verification/Contract_Store.thy ===== *)
theory Contract_Store
  imports Contract_Runner Sdk_Store
begin

text \<open>
  The contract suite for persistence plugins (\<open>internal/plugins/contract/persistence.go\<close>), run over the platform's
  client against a server. It writes entries under ids of its own and flushes the store only if it believes that
  nobody else's entries are in it. On the SDK's persistence plugin: over a network that delivers, the entries of
  others survive; one size request that fails at the wrong moment erases them.

  The variables the checks share are a record beside the world. \<open>pre\<close> is the prefix of the suite's ids and \<open>now\<close> the
  time it starts; the case's context is the client's.
\<close>

section \<open>The suite\<close>

record ssuite =
  su_created :: "string list"
  su_startedEmpty :: bool

type_synonym 'w sstate = "'w \<times> ssuite"

text \<open>A call on the world beside the shared variables.\<close>

definition pw :: "('w \<Rightarrow> 'a \<times> 'w) \<Rightarrow> 'w sstate \<Rightarrow> 'a \<times> 'w sstate" where
  "pw f st = (case st of (w, v) \<Rightarrow> (case f w of (r, w1) \<Rightarrow> (r, (w1, v))))"

definition creating :: "string list \<Rightarrow> 'w sstate check \<Rightarrow> 'w sstate check" where
  "creating ks k st = (case st of (w, v) \<Rightarrow> k (w, v\<lparr>su_created := su_created v @ ks\<rparr>))"

definition suite_entry :: "string \<Rightarrow> int \<Rightarrow> string \<Rightarrow> int \<Rightarrow> Entry" where
  "suite_entry pre now s n = \<lparr>e_ID = pre @ s, e_Prompt = ''prompt '' @ s, e_Reply = ''reply '' @ s,
     e_Vector = [f64_of_int n, F_Num (1 / 2), F_Num (- 1 / 4)], e_CreatedAt = now + n * 10 ^ 9\<rparr>"

fun delete_all :: "'w client \<Rightarrow> string list \<Rightarrow> 'w \<Rightarrow> 'w" where
  "delete_all p [] w = w"
| "delete_all p (k # ks) w = delete_all p ks (snd (pps_Delete p k w))"

definition cleanup :: "'w client \<Rightarrow> 'w sstate \<Rightarrow> 'w sstate" where
  "cleanup p st = (case st of (w, v) \<Rightarrow> (delete_all p (su_created v) w, v))"

definition sc_size_at_start :: "'w client \<Rightarrow> bool \<Rightarrow> 'w sstate check" where
  "sc_size_at_start p requireEmpty =
     obtaining (pw (pps_Size p)) (\<lambda>n (w, v).
       refuse_if (requireEmpty \<and> n \<noteq> 0) ''store holds %d entries; a candidate persistence store must start empty''
         (giving None) (w, v\<lparr>su_startedEmpty := n = 0\<rparr>))"

definition sc_roundtrip :: "'w client \<Rightarrow> Entry \<Rightarrow> 'w sstate check" where
  "sc_roundtrip p e =
     creating [e_ID e] (proceed (pw (pps_Save p e)) (obtaining (pw (pps_LoadDetailed p (e_ID e))) (\<lambda>got.
       refuse_if (e_ID got \<noteq> e_ID e \<or> e_Prompt got \<noteq> e_Prompt e \<or> e_Reply got \<noteq> e_Reply e \<or>
           e_Vector got \<noteq> e_Vector e \<or> e_CreatedAt got \<noteq> e_CreatedAt e)
         ''entry did not round-trip: saved %+v loaded %+v (every field is needed to rebuild the vector store and policy)''
         (giving None))))"

definition sc_overwrite :: "'w client \<Rightarrow> Entry \<Rightarrow> 'w sstate check" where
  "sc_overwrite p e0 =
     (let e = e0\<lparr>e_Reply := ''changed''\<rparr>
      in proceed (pw (pps_Save p e)) (calling (pw (pps_LoadDetailed p (e_ID e))) (\<lambda>got.
        refuse_if (case got of Inl _ \<Rightarrow> True | Inr x \<Rightarrow> e_Reply x \<noteq> ''changed'') ''overwrite not visible: %+v %v'' (giving None))))"

definition not_found :: "Entry res \<Rightarrow> bool" where
  "not_found r = (case r of Inl e \<Rightarrow> errors_is e Persistence.ErrNotFound | Inr _ \<Rightarrow> False)"

definition sc_not_found :: "'w client \<Rightarrow> string \<Rightarrow> 'w sstate check" where
  "sc_not_found p k =
     calling (pw (pps_LoadDetailed p k)) (\<lambda>r.
       refuse_if (\<not> not_found r) ''missing entry gave %v, want ErrNotFound (a 404 not_found)'' (giving None))"

text \<open>The prompt of the large entry, in UTF-8.\<close>

definition unicode_prompt :: string where
  "unicode_prompt = ''h'' @ map char_of [0xC3, 0xA9 :: nat] @ ''llo '' @
     map char_of [0xE4, 0xBD, 0xA0, 0xE5, 0xA5, 0xBD :: nat] @ '' '' @ map char_of [0xF0, 0x9F, 0x99, 0x82 :: nat]"

definition large_entry :: "Entry \<Rightarrow> Entry" where
  "large_entry e = e\<lparr>e_Prompt := unicode_prompt, e_Reply := replicate (256 * 1024) CHR ''r'',
     e_Vector := map (\<lambda>i. f64_div (f64_of_int (int i)) (f64_of_int 1000)) [0..<384]\<rparr>"

definition sc_large :: "'w client \<Rightarrow> Entry \<Rightarrow> 'w sstate check" where
  "sc_large p e =
     creating [e_ID e] (proceed (pw (pps_Save p e)) (calling (pw (pps_LoadDetailed p (e_ID e))) (\<lambda>got.
       refuse_if (case got of Inl _ \<Rightarrow> True
             | Inr x \<Rightarrow> e_Prompt x \<noteq> e_Prompt e \<or> e_Reply x \<noteq> e_Reply e \<or> length (e_Vector x) \<noteq> 384)
         ''large/unicode entry did not round-trip: %v'' (giving None))))"

definition sc_url_safe :: "'w client \<Rightarrow> Entry \<Rightarrow> 'w sstate check" where
  "sc_url_safe p e =
     creating [e_ID e] (proceed (pw (pps_Save p e)) (obtaining (pw (pps_LoadDetailed p (e_ID e))) (\<lambda>_. giving None)))"

fun sc_saves :: "'w client \<Rightarrow> Entry list \<Rightarrow> 'w sstate check \<Rightarrow> 'w sstate check" where
  "sc_saves p [] k = k"
| "sc_saves p (e # es) k = creating [e_ID e] (proceed (pw (pps_Save p e)) (sc_saves p es k))"

definition sc_list_and_size :: "'w client \<Rightarrow> Entry list \<Rightarrow> 'w sstate check" where
  "sc_list_and_size p es =
     obtaining (pw (pps_Size p)) (\<lambda>before.
       sc_saves p es
        (obtaining (pw (pps_Size p)) (\<lambda>after.
          refuse_if (after \<noteq> before + 5) ''size went from %d to %d after 5 new entries''
         (obtaining (pw (pps_List p)) (\<lambda>all.
            refuse_if (int (length all) \<noteq> after) ''List returned %d entries but Size says %d'' (giving None))))))"

text \<open>The pages of the raw listing: the ids of a page, \<open>None\<close> if one came before; \<open>seen\<close> are all ids so far, one per
  entry.\<close>

fun take_ids :: "Entry list \<Rightarrow> string list \<Rightarrow> string list option" where
  "take_ids [] seen = Some seen"
| "take_ids (e # es) seen = (if e_ID e \<in> set seen then None else take_ids es (e_ID e # seen))"

function sc_pages :: "'w client \<Rightarrow> string \<Rightarrow> string list \<Rightarrow> int \<Rightarrow> 'w \<Rightarrow> int res \<times> 'w" where
  "sc_pages c cursor seen pages w =
     (case client_get c ''GET'' ''/v1/entries'' ((''limit'', ''2'') # (if cursor = [] then [] else [(''cursor'', cursor)]))
             None decode_page \<lparr>lp_Entries = [], lp_NextCursor = []\<rparr> w of
        (Inl e, w1) \<Rightarrow> (Inl e, w1)
      | (Inr out, w1) \<Rightarrow>
          if 2 < length (lp_Entries out) then (Inl (Errorf ''limit=2 returned %d entries'' []), w1)
          else (case take_ids (lp_Entries out) seen of
              None \<Rightarrow> (Inl (Errorf ''entry %s returned on two pages'' []), w1)
            | Some seen1 \<Rightarrow>
                if lp_NextCursor out = [] then (Inr (int (length seen1)), w1)
                else if lp_NextCursor out = cursor \<or> 100000 < pages + 1
                then (Inl (Errorf ''pagination cursor does not advance'' []), w1)
                else sc_pages c (lp_NextCursor out) seen1 (pages + 1) w1))"
  by pat_completeness auto
termination by (relation "measure (\<lambda>(c, cursor, seen, pages, w). nat (100000 - pages))") auto

declare sc_pages.simps [simp del]

definition size_or_0 :: "int res \<Rightarrow> int" where
  "size_or_0 r = (case r of Inr n \<Rightarrow> n | Inl _ \<Rightarrow> 0)"

definition sc_pagination :: "'w client \<Rightarrow> 'w client \<Rightarrow> 'w sstate check" where
  "sc_pagination c p =
     obtaining (pw (sc_pages c [] [] 0)) (\<lambda>got.
       calling (pw (pps_Size p)) (\<lambda>n.
         refuse_if (got \<noteq> size_or_0 n) ''pagination visited %d entries, size is %d'' (giving None)))"

definition sc_delete :: "'w client \<Rightarrow> Entry \<Rightarrow> 'w sstate check" where
  "sc_delete p e =
     proceed (pw (pps_Save p e))
      (proceed (pw (pps_Delete p (e_ID e)))
      (calling (pw (pps_Delete p (e_ID e))) (\<lambda>r.
         case r of
           Some err \<Rightarrow> giving (Some (Errorf ''deleting an unknown id must not fail: %w'' [AWrap err]))
         | None \<Rightarrow> calling (pw (pps_LoadDetailed p (e_ID e))) (\<lambda>got.
             refuse_if (\<not> not_found got) ''deleted entry still loads: %v'' (giving None)))))"

definition sc_mismatched :: "'w client \<Rightarrow> string \<Rightarrow> Entry \<Rightarrow> 'w sstate check" where
  "sc_mismatched c other e = pw (expect4xx c ''PUT'' (''/v1/entries/'' @ other) (json_of_entry e))"

definition sc_worker :: "'w client \<Rightarrow> Entry \<Rightarrow> 'w check list" where
  "sc_worker p e = [pps_Save p e, obtaining (pps_LoadDetailed p (e_ID e)) (\<lambda>_. giving None)]"

definition sc_concurrent :: "'w client \<Rightarrow> Entry list \<Rightarrow> nat list \<Rightarrow> 'w sstate check" where
  "sc_concurrent p es sched =
     calling (pw (pps_Size p)) (\<lambda>before.
       creating (map e_ID es)
        (proceed (pw (parallel (map (sc_worker p) es) sched))
        (calling (pw (pps_Size p)) (\<lambda>after.
           refuse_if (size_or_0 after \<noteq> size_or_0 before + int (length es)) ''size %d -> %d after %d concurrent saves''
             (giving None)))))"

definition sc_flush :: "'w client \<Rightarrow> Entry \<Rightarrow> Entry \<Rightarrow> 'w sstate check" where
  "sc_flush p f after st0 =
     (case cleanup p st0 of (w0, v0) \<Rightarrow>
        calling (pw (pps_Size p)) (\<lambda>n.
          if size_or_0 n \<noteq> 0 \<and> \<not> su_startedEmpty v0
          then giving (Some (SkipError ''store held other entries at the start; not flushing them''))
          else proceed (pw (pps_Save p f))
              (proceed (pw (pps_Flush p))
              (calling (pw (pps_Size p)) (\<lambda>n.
                 refuse_if (n \<noteq> Inr 0) ''size after flush = %d (%v), want 0''
                (calling (pw (pps_Save p after)) (\<lambda>r.
                   case r of
                     Some err \<Rightarrow> giving (Some (Errorf ''store unusable after flush: %w'' [AWrap err]))
                   | None \<Rightarrow> pw (pps_Flush p)))))))
          (w0, v0\<lparr>su_created := []\<rparr>))"

text \<open>\<open>runPersistence\<close>, the checks in reverse order of their running.\<close>

definition store_checks ::
    "'w target \<Rightarrow> string \<Rightarrow> int \<Rightarrow> nat list \<Rightarrow> 'w sstate \<times> report \<Rightarrow> 'w sstate \<times> report" where
  "store_checks t pre now sched st =
     (let c = tg_Client t; p = NewPersistence c; entry = suite_entry pre now;
          check = run_check (\<lambda>(w, _). cl_ctx c w)
      in check ''concurrent_saves'' (sc_concurrent p (map (\<lambda>i. entry (''c'' @ itoa (int i)) (40 + int i)) [0..<16]) sched)
        (check ''mismatched_id_rejected'' (sc_mismatched c (pre @ ''other'') (entry ''m'' 30))
        (check ''delete_is_idempotent'' (sc_delete p (entry ''del'' 20))
        (check ''list_pagination'' (sc_pagination c p)
        (check ''list_and_size'' (sc_list_and_size p (map (\<lambda>i. entry (''l'' @ itoa (int i)) (10 + int i)) [0..<5]))
        (check ''url_safe_id_characters'' (sc_url_safe p ((entry ''x'' 3)\<lparr>e_ID := pre @ ''a.b_c~d-e''\<rparr>))
        (check ''unicode_and_large_entries'' (sc_large p (large_entry (entry ''big'' 2)))
        (check ''not_found_is_distinct_from_failure'' (sc_not_found p (pre @ ''missing''))
        (check ''overwrite_updates_entry'' (sc_overwrite p (entry ''a'' 1))
        (check ''save_load_roundtrip_all_fields'' (sc_roundtrip p (entry ''a'' 1))
        (check ''size_at_start'' (sc_size_at_start p (tg_RequireEmpty t))
        (check ''health'' (pw (client_Health p)) st))))))))))))"

definition runPersistence :: "'w target \<Rightarrow> string \<Rightarrow> int \<Rightarrow> nat list \<Rightarrow> 'w \<Rightarrow> 'w sstate \<times> report" where
  "runPersistence t pre now sched w =
     (let c = tg_Client t; p = NewPersistence c; entry = suite_entry pre now in
      case run_check (\<lambda>(w, _). cl_ctx c w) ''flush_clears_store'' (sc_flush p (entry ''f'' 50) (entry ''after'' 51))
             (store_checks t pre now sched ((w, \<lparr>su_created = [], su_startedEmpty = False\<rparr>), [])) of
        (st, rep) \<Rightarrow> (cleanup p st, rep))"

section \<open>What the checks keep\<close>

definition sdk_st_raw :: "sdk_st_cfg \<Rightarrow> string \<Rightarrow> int \<Rightarrow> int \<Rightarrow> sdk_st net client" where
  "sdk_st_raw cfg token maxResponse timeout =
     \<lparr>cl_Token = token, cl_MaxResponse = maxResponse, cl_Timeout = timeout,
      cl_HTTP = net_send (sdk_st_serve cfg), cl_ctx = (\<lambda>_. None), cl_scrub = (\<lambda>s. s)\<rparr>"

lemma sdk_st_client_raw: "NewPersistence (sdk_st_raw cfg tk mx tmo) = sdk_st_client cfg tk mx tmo"
  by (simp add: sdk_st_client_def sdk_st_raw_def)

lemma sdk_st_clients [simp]:
  "cl_ctx (sdk_st_raw cfg tk mx tmo) w = None" "cl_HTTP (sdk_st_raw cfg tk mx tmo) = net_send (sdk_st_serve cfg)"
  "cl_HTTP (sdk_st_client cfg tk mx tmo) = net_send (sdk_st_serve cfg)"
  by (simp_all add: sdk_st_raw_def sdk_st_client_def NewPersistence_def)

text \<open>The ids the suite writes, less their prefix.\<close>

definition suite_names :: "string list" where
  "suite_names = [''a'', ''big'', ''a.b_c~d-e'', ''del'', ''other'', ''f'', ''after''] @
     map (\<lambda>i. ''l'' @ itoa (int i)) [0..<5] @ map (\<lambda>i. ''c'' @ itoa (int i)) [0..<16]"

definition suite_ids :: "string \<Rightarrow> string set" where
  "suite_ids pre = (\<lambda>s. pre @ s) ` set suite_names"

text \<open>A request that can change only what is under the ids \<open>ks\<close>.\<close>

definition confined_to :: "string set \<Rightarrow> http_req \<Rightarrow> bool" where
  "confined_to ks req \<longleftrightarrow> hq_method req = ''GET'' \<or>
     hq_path req \<noteq> ''/v1/flush'' \<and> (\<forall>k. path_id ''/v1/entries/'' (hq_path req) = Some k \<longrightarrow> k \<in> ks)"

lemma path_id_other: "path_id p (p @ j) = Some k \<Longrightarrow> j = k"
  by (auto simp: path_id_def split: if_splits)

lemma confined_entry: "j \<in> ks \<Longrightarrow> confined_to ks (client_req c m (''/v1/entries/'' @ j) q b)"
  using path_id_other [of "''/v1/entries/''" j] by (auto simp: confined_to_def simp del: append_Cons)

lemma confined_get: "confined_to ks (client_req c ''GET'' p q b)"
  by (simp add: confined_to_def)

text \<open>
  A property \<open>I\<close> of the world that survives every request confined to the suite's own ids \<open>ks\<close>. \<open>Z\<close> is what is known
  if the store was ever empty.
\<close>

locale probed_store =
  fixes cfg :: sdk_st_cfg and tk :: string and mx tmo :: int
    and ks :: "string set" and I :: "sdk_st net \<Rightarrow> bool" and Z :: bool
  assumes request: "confined_to ks req \<Longrightarrow> keeps I (net_send (sdk_st_serve cfg) req)"
    and found_empty: "I w \<Longrightarrow> pps_Size (sdk_st_client cfg tk mx tmo) w = (Inr 0, t) \<Longrightarrow> Z"
begin

lemma keeps_get_req:
  "keeps I (client_get (sdk_st_client cfg tk mx tmo) ''GET'' p q body d z)"
  "keeps I (client_get (sdk_st_raw cfg tk mx tmo) ''GET'' p q body d z)"
  "keeps I (client_call (sdk_st_client cfg tk mx tmo) ''GET'' p body)"
  by (rule keeps_client_get_req keeps_client_call_req; simp add: request confined_get)+

lemma keeps_list_pages: "keeps I (list_pages (sdk_st_client cfg tk mx tmo) page cursor all)"
proof (rule keepsI)
  fix w
  show "I w \<Longrightarrow> I (snd (list_pages (sdk_st_client cfg tk mx tmo) page cursor all w))"
  proof (induction "sdk_st_client cfg tk mx tmo" page cursor all w rule: list_pages.induct)
    case (1 page cursor all w)
    let ?c = "sdk_st_client cfg tk mx tmo"
    obtain r t where get: "client_get ?c ''GET'' ''/v1/entries'' (page_query cursor) None decode_page
        \<lparr>lp_Entries = [], lp_NextCursor = []\<rparr> w = (r, t)" by fastforce
    have t: "I t" using keeps_fwd [OF keeps_get_req(1) get 1(2)] .
    consider "maxPersistPages \<le> page" | e where "\<not> maxPersistPages \<le> page" "r = Inl e"
      | p e where "\<not> maxPersistPages \<le> page" "r = Inr p" "take_page (lp_Entries p) all = Inl e"
      | p all1 where "\<not> maxPersistPages \<le> page" "r = Inr p" "take_page (lp_Entries p) all = Inr all1"
          "lp_NextCursor p = [] \<or> lp_NextCursor p = cursor"
      | p all1 where "\<not> maxPersistPages \<le> page" "r = Inr p" "take_page (lp_Entries p) all = Inr all1"
          "lp_NextCursor p \<noteq> []" "lp_NextCursor p \<noteq> cursor"
      by (metis sum.exhaust)
    then show ?case
    proof cases
      case (5 p all1)
      have "I (snd (list_pages ?c (page + 1) (lp_NextCursor p) all1 t))"
        using 1(1) [OF 5(1) get [symmetric] 5(2,3,4,5) t] .
      then show ?thesis using get 5 by (simp add: list_pages.simps [of _ page])
    qed (use get t 1(2) in \<open>auto simp: list_pages.simps [of _ page]\<close>)
  qed
qed

lemma keeps_sc_pages: "keeps I (sc_pages (sdk_st_raw cfg tk mx tmo) cursor seen pages)"
proof (rule keepsI)
  fix w
  show "I w \<Longrightarrow> I (snd (sc_pages (sdk_st_raw cfg tk mx tmo) cursor seen pages w))"
  proof (induction "sdk_st_raw cfg tk mx tmo" cursor seen pages w rule: sc_pages.induct)
    case (1 cursor seen pages w)
    let ?c = "sdk_st_raw cfg tk mx tmo"
    let ?q = "(''limit'', ''2'') # (if cursor = [] then [] else [(''cursor'', cursor)])"
    obtain r t where get: "client_get ?c ''GET'' ''/v1/entries'' ?q None decode_page
        \<lparr>lp_Entries = [], lp_NextCursor = []\<rparr> w = (r, t)" by fastforce
    have t: "I t" using keeps_fwd [OF keeps_get_req(2) get 1(2)] .
    consider e where "r = Inl e" | p where "r = Inr p" "2 < length (lp_Entries p) \<or> take_ids (lp_Entries p) seen = None"
      | p s1 where "r = Inr p" "\<not> 2 < length (lp_Entries p)" "take_ids (lp_Entries p) seen = Some s1"
          "lp_NextCursor p = [] \<or> lp_NextCursor p = cursor \<or> 100000 < pages + 1"
      | p s1 where "r = Inr p" "\<not> 2 < length (lp_Entries p)" "take_ids (lp_Entries p) seen = Some s1"
          "lp_NextCursor p \<noteq> []" "\<not> (lp_NextCursor p = cursor \<or> 100000 < pages + 1)"
      by (metis sum.exhaust option.exhaust)
    then show ?case
    proof cases
      case (4 p s1)
      have "I (snd (sc_pages ?c (lp_NextCursor p) s1 (pages + 1) t))"
        using 1(1) [OF get [symmetric] 4(1,2,3,4,5) t] .
      moreover have "sc_pages ?c cursor seen pages w = sc_pages ?c (lp_NextCursor p) s1 (pages + 1) t"
        using get 4 by (simp add: sc_pages.simps [of _ cursor])
      ultimately show ?thesis by simp
    qed (use get t in \<open>auto simp: sc_pages.simps [of _ cursor] split: option.split\<close>)
  qed
qed

text \<open>The adapter's calls.\<close>

lemma keeps_reads:
  "keeps I (pps_Size (sdk_st_client cfg tk mx tmo))" "keeps I (pps_LoadDetailed (sdk_st_client cfg tk mx tmo) j)"
  "keeps I (pps_List (sdk_st_client cfg tk mx tmo))" "keeps I (client_Health (sdk_st_client cfg tk mx tmo))"
  unfolding pps_Size_def pps_LoadDetailed_def pps_List_def client_Health_def
  using keeps_list_pages keeps_get_req(3)
  by (auto simp: pps_List_def intro!: keepsI split: prod.splits sum.splits option.splits
      dest: keeps_get_req(1) [THEN keeps_fwd] simp: keeps_def)

lemma keeps_save: "e_ID e \<in> ks \<Longrightarrow> keeps I (pps_Save (sdk_st_client cfg tk mx tmo) e)"
proof -
  assume "e_ID e \<in> ks"
  then have "keeps I (client_call (sdk_st_client cfg tk mx tmo) ''PUT'' (''/v1/entries/'' @ e_ID e) b)" for b
    by (intro keeps_client_call_req) (simp add: request confined_entry del: append_Cons)
  note K = this [THEN keeps_fwd]
  show ?thesis unfolding pps_Save_def
    by (auto intro!: keepsI split: prod.splits option.splits dest: K simp del: append_Cons)
qed

lemma keeps_delete: "j \<in> ks \<Longrightarrow> keeps I (pps_Delete (sdk_st_client cfg tk mx tmo) j)"
proof -
  assume "j \<in> ks"
  then have "keeps I (client_call (sdk_st_client cfg tk mx tmo) ''DELETE'' (''/v1/entries/'' @ j) b)" for b
    by (intro keeps_client_call_req) (simp add: request confined_entry del: append_Cons)
  note K = this [THEN keeps_fwd]
  show ?thesis unfolding pps_Delete_def
    by (auto intro!: keepsI split: prod.splits option.splits dest: K simp del: append_Cons)
qed

lemma keeps_other_put: "j \<in> ks \<Longrightarrow> keeps I (expect4xx (sdk_st_raw cfg tk mx tmo) ''PUT'' (''/v1/entries/'' @ j) body)"
proof -
  assume "j \<in> ks"
  then have "keeps I (client_Do (sdk_st_raw cfg tk mx tmo) ''PUT'' (''/v1/entries/'' @ j) [] (Some body) None ())"
    by (intro keeps_client_Do_req) (simp add: request confined_entry del: append_Cons)
  then show ?thesis unfolding expect4xx_def by (auto intro!: keeping split: prod.split)
qed

text \<open>Beside the world: the ids the suite remembers are its own.\<close>

definition probed :: "sdk_st net sstate \<Rightarrow> bool" where
  "probed st \<longleftrightarrow> I (fst st) \<and> set (su_created (snd st)) \<subseteq> ks \<and> (su_startedEmpty (snd st) \<longrightarrow> Z)"

lemma keeps_pw: "keeps I f \<Longrightarrow> keeps probed (pw f)"
  by (auto simp: keeps_def probed_def pw_def split: prod.splits)

lemma keeps_creating:
  assumes "set js \<subseteq> ks" and "keeps probed f"
  shows "keeps probed (creating js f)"
proof (rule keepsI, clarify)
  fix w v
  assume "probed (w, v)"
  then have "probed (w, v\<lparr>su_created := su_created v @ js\<rparr>)" using assms(1) by (simp add: probed_def)
  then show "probed (snd (creating js f (w, v)))" using assms(2) by (simp add: creating_def keeps_def)
qed

lemma keeps_size_at_start: "keeps probed (sc_size_at_start (sdk_st_client cfg tk mx tmo) re)"
proof (rule keepsI, clarify)
  fix w v
  assume w: "probed (w, v)"
  let ?c = "sdk_st_client cfg tk mx tmo"
  obtain n t where n: "pps_Size ?c w = (n, t)" by fastforce
  have t: "I t" using keeps_fwd [OF keeps_reads(1) n] w by (simp add: probed_def)
  have "n = Inr 0 \<Longrightarrow> Z" using found_empty n w by (auto simp: probed_def)
  then show "probed (snd (sc_size_at_start ?c re (w, v)))"
    using w t n
    by (cases n) (auto simp: sc_size_at_start_def obtaining_def calling_def pw_def giving_def refuse_if_def probed_def)
qed

lemma keeps_saves:
  "e_ID ` set es \<subseteq> ks \<Longrightarrow> keeps probed f \<Longrightarrow> keeps probed (sc_saves (sdk_st_client cfg tk mx tmo) es f)"
  by (induction es) (auto intro!: keeping keeps_creating keeps_pw keeps_save)

lemma cleanup_keeps: "probed st \<Longrightarrow> probed (cleanup (sdk_st_client cfg tk mx tmo) st)"
proof -
  have "set js \<subseteq> ks \<Longrightarrow> I w \<Longrightarrow> I (delete_all (sdk_st_client cfg tk mx tmo) js w)" for js w
    using keeps_delete by (induction js arbitrary: w) (auto simp: keeps_def)
  then show "probed st \<Longrightarrow> probed (cleanup (sdk_st_client cfg tk mx tmo) st)"
    by (auto simp: probed_def cleanup_def split: prod.splits)
qed

lemma keeps_checks:
  assumes "e_ID e \<in> ks"
  shows "keeps probed (sc_roundtrip (sdk_st_client cfg tk mx tmo) e)"
    and "keeps probed (sc_overwrite (sdk_st_client cfg tk mx tmo) e)"
    and "keeps probed (sc_large (sdk_st_client cfg tk mx tmo) e)"
    and "keeps probed (sc_url_safe (sdk_st_client cfg tk mx tmo) e)"
    and "keeps probed (sc_delete (sdk_st_client cfg tk mx tmo) e)"
  using assms
  unfolding sc_roundtrip_def sc_overwrite_def sc_large_def sc_url_safe_def sc_delete_def Let_def
  by (auto intro!: keeping keeps_creating keeps_pw keeps_reads keeps_save keeps_delete split: option.split)

lemma keeps_other_checks:
  "keeps probed (sc_not_found (sdk_st_client cfg tk mx tmo) j)"
  "keeps probed (sc_pagination (sdk_st_raw cfg tk mx tmo) (sdk_st_client cfg tk mx tmo))"
  unfolding sc_not_found_def sc_pagination_def
  by (auto intro!: keeping keeps_pw keeps_reads keeps_sc_pages)

lemma keeps_mismatched: "j \<in> ks \<Longrightarrow> keeps probed (sc_mismatched (sdk_st_raw cfg tk mx tmo) j e)"
  unfolding sc_mismatched_def by (rule keeps_pw) (rule keeps_other_put)

lemma keeps_many:
  assumes "e_ID ` set es \<subseteq> ks"
  shows "keeps probed (sc_list_and_size (sdk_st_client cfg tk mx tmo) es)"
    and "keeps probed (sc_concurrent (sdk_st_client cfg tk mx tmo) es sched)"
proof -
  show "keeps probed (sc_list_and_size (sdk_st_client cfg tk mx tmo) es)"
    unfolding sc_list_and_size_def by (intro keeping keeps_pw keeps_reads keeps_saves assms)
  have "keeps I (parallel (map (sc_worker (sdk_st_client cfg tk mx tmo)) es) sched)"
    by (intro keeps_parallel) (use assms in \<open>auto simp: sc_worker_def intro!: keeping keeps_reads keeps_save\<close>)
  then show "keeps probed (sc_concurrent (sdk_st_client cfg tk mx tmo) es sched)"
    unfolding sc_concurrent_def using assms by (auto intro!: keeping keeps_creating keeps_pw keeps_reads)
qed

text \<open>Every check before the last one.\<close>

lemma store_checks_keep:
  assumes own: "suite_ids pre \<subseteq> ks" and c: "tg_Client t = sdk_st_raw cfg tk mx tmo" and st: "probed (fst st)"
  shows "probed (fst (store_checks t pre now sched st))"
proof -
  have n: "pre @ s \<in> ks" if "s \<in> set suite_names" for s using that own by (auto simp: suite_ids_def)
  have e: "e_ID (suite_entry pre now s n) \<in> ks" "e_ID (large_entry (suite_entry pre now s n)) \<in> ks"
    "e_ID (e\<lparr>e_ID := pre @ s\<rparr>) \<in> ks" if "s \<in> set suite_names" for s n e
    using n [OF that] by (simp_all add: suite_entry_def large_entry_def)
  have many: "e_ID ` set (map (\<lambda>i. suite_entry pre now (f i) (g i)) ns) \<subseteq> ks"
    if "set (map f ns) \<subseteq> set suite_names" for f :: "nat \<Rightarrow> string" and g ns
    using that e(1) by auto
  show ?thesis
    unfolding store_checks_def Let_def c sdk_st_client_raw
    by (intro run_check_keeps [where I = probed] keeps_many keeps_checks keeps_other_checks keeps_mismatched
        keeps_size_at_start keeps_pw keeps_reads(4) st many e n)
      (auto simp: suite_names_def simp del: append_Cons)
qed

text \<open>The last check, up to the point where it flushes.\<close>

lemma size_at_flush_keeps:
  assumes "probed st" and "cleanup (sdk_st_client cfg tk mx tmo) st = (w0, v0)"
    and "pps_Size (sdk_st_client cfg tk mx tmo) w0 = (n, u)"
  shows "I w0" and "I u" and "su_startedEmpty v0 \<longrightarrow> Z"
  using cleanup_keeps [OF assms(1)] keeps_fwd [OF keeps_reads(1) assms(3)] assms(2) by (simp_all add: probed_def)

end

section \<open>What a confined request leaves\<close>

lemma serve_confined:
  assumes "sdk_st_serve cfg req s = (resp, t)" and "confined_to ks req" and "sdk_st_ok s"
  shows "sdk_st_ok t \<and> (\<forall>k. k \<notin> ks \<longrightarrow> sdk_st_view t k = sdk_st_view s k)"
proof (cases "hq_method req = ''GET''")
  case True
  then have "t = s"
    using withAuth_cases [OF assms(1) [unfolded sdk_st_serve_def]] by (auto simp: sdk_st_mux_def Let_def split: if_splits)
  then show ?thesis using assms(3) by simp
next
  case False
  then have nf: "hq_path req \<noteq> ''/v1/flush''"
    and path: "path_id ''/v1/entries/'' (hq_path req) = Some j \<Longrightarrow> j \<in> ks" for j
    using assms(2) by (auto simp: confined_to_def)
  show ?thesis
  proof (cases "path_id ''/v1/entries/'' (hq_path req)")
    case None
    then have "t = s"
      using withAuth_cases [OF assms(1) [unfolded sdk_st_serve_def]] False nf by (auto simp: sdk_st_mux_def Let_def split: if_splits)
    then show ?thesis using assms(3) by simp
  next
    case (Some j)
    then have "t = s \<or> sdk_st_put cfg j (hq_body req) s = (resp, t) \<or> t = s\<lparr>sd_data := gm_del j (sd_data s)\<rparr>"
      using withAuth_cases [OF assms(1) [unfolded sdk_st_serve_def]] False nf by (auto simp: sdk_st_mux_def Let_def split: if_splits)
    moreover have "sdk_st_put cfg j (hq_body req) s = (resp, t) \<Longrightarrow>
        t = s \<or> (\<exists>e. e_ID e = j \<and> validateEntry e = None \<and> t = s\<lparr>sd_data := gm_put j e (sd_data s)\<rparr>)"
      by (auto simp: sdk_st_put_def validateEntry_def split: option.splits sum.splits if_splits)
    ultimately consider "t = s" | e where "e_ID e = j" "validateEntry e = None" "t = s\<lparr>sd_data := gm_put j e (sd_data s)\<rparr>"
      | "t = s\<lparr>sd_data := gm_del j (sd_data s)\<rparr>" by blast
    then show ?thesis
      using assms(3) path [OF Some]
      by cases (auto simp: sdk_st_ok_def sdk_st_view_def gm_wf_put gm_wf_del gm_get_put gm_get_del)
  qed
qed

lemma send_confined:
  assumes "confined_to ks req" and "st_net_ok w" and "net_send (sdk_st_serve cfg) req w = (r, t)"
  shows "st_net_ok t \<and> (\<forall>k. k \<notin> ks \<longrightarrow> st_net_view t k = st_net_view w k)" and "nt_script w = [] \<Longrightarrow> nt_script t = []"
proof -
  obtain resp s where srv: "sdk_st_serve cfg req (nt_srv w) = (resp, s)" by fastforce
  show "st_net_ok t \<and> (\<forall>k. k \<notin> ks \<longrightarrow> st_net_view t k = st_net_view w k)"
    using serve_confined [OF srv assms(1)] assms(2,3) srv
    by (auto simp: net_send_def Let_def st_net_ok_def st_net_view_def split: net_fault.splits)
  show "nt_script w = [] \<Longrightarrow> nt_script t = []"
    using assms(3) srv by (auto simp: net_send_def Let_def split: net_fault.splits)
qed

lemma size_0_empty:
  assumes "st_net_ok w" and "pps_Size (sdk_st_client cfg tk mx tmo) w = (Inr 0, t)"
  shows "st_net_view w = Map.empty"
proof -
  have "card (dom (st_net_view w)) = 0" using st_net_size(2) [OF assms refl] by simp
  moreover have "finite (dom (st_net_view w))" by (simp add: st_net_view_def sdk_st_view_def dom_gm_get)
  ultimately show ?thesis by simp
qed

text \<open>The store holds \<open>X\<close> under \<open>k\<close>, an id the suite does not use.\<close>

definition holds_at :: "string \<Rightarrow> Entry option \<Rightarrow> sdk_st net \<Rightarrow> bool" where
  "holds_at k X w \<longleftrightarrow> st_net_ok w \<and> st_net_view w k = X"

interpretation other_entry: probed_store cfg tk mx tmo "- {k}" "holds_at k X" "X = None"
proof
  fix req
  assume c: "confined_to (- {k}) req"
  show "keeps (holds_at k X) (net_send (sdk_st_serve cfg) req)"
    using send_confined(1) [OF c] by (intro keepsI) (auto simp: holds_at_def, (metis ComplD prod.collapse singletonI)+)
next
  fix w t
  show "holds_at k X w \<Longrightarrow> pps_Size (sdk_st_client cfg tk mx tmo) w = (Inr 0, t) \<Longrightarrow> X = None"
    using size_0_empty [of w cfg tk mx tmo t] by (simp add: holds_at_def)
qed

lemma probed_view: "other_entry.probed k X st \<Longrightarrow> st_net_view (fst st) k = X"
  by (simp add: other_entry.probed_def holds_at_def)

text \<open>The network delivers, and the store holds entries under the ids \<open>ns\<close> and the suite's own only.\<close>

definition bounded_by :: "string set \<Rightarrow> string \<Rightarrow> sdk_st net \<Rightarrow> bool" where
  "bounded_by ns pre w \<longleftrightarrow> st_net_ok w \<and> nt_script w = [] \<and> dom (st_net_view w) \<subseteq> ns \<union> suite_ids pre"

interpretation bounded_store: probed_store cfg tk mx tmo "suite_ids pre" "bounded_by ns pre" True
proof
  fix req
  assume c: "confined_to (suite_ids pre) req"
  show "keeps (bounded_by ns pre) (net_send (sdk_st_serve cfg) req)"
  proof (rule keepsI)
    fix w
    assume w: "bounded_by ns pre w"
    obtain r t where s: "net_send (sdk_st_serve cfg) req w = (r, t)" by fastforce
    have "st_net_ok t" "\<And>k. k \<notin> suite_ids pre \<Longrightarrow> st_net_view t k = st_net_view w k" "nt_script t = []"
      using send_confined [OF c _ s] w by (auto simp: bounded_by_def)
    then show "bounded_by ns pre (snd (net_send (sdk_st_serve cfg) req w))"
      using w s by (auto simp: bounded_by_def dom_def subset_iff) metis
  qed
qed simp

section \<open>The last check\<close>

text \<open>The answer to the size request the last check decides by.\<close>

definition size_at_flush :: "'w target \<Rightarrow> string \<Rightarrow> int \<Rightarrow> nat list \<Rightarrow> 'w \<Rightarrow> int res" where
  "size_at_flush t pre now sched w =
     (let p = NewPersistence (tg_Client t)
      in fst (pps_Size p (fst (cleanup p (fst (store_checks t pre now sched ((w, \<lparr>su_created = [], su_startedEmpty = False\<rparr>), [])))))))"

text \<open>What the last check does once it has decided to flush.\<close>

definition flushing :: "'w client \<Rightarrow> Entry \<Rightarrow> Entry \<Rightarrow> 'w sstate check" where
  "flushing p f after = proceed (pw (pps_Save p f))
     (proceed (pw (pps_Flush p))
     (calling (pw (pps_Size p)) (\<lambda>n.
        refuse_if (n \<noteq> Inr 0) ''size after flush = %d (%v), want 0''
       (calling (pw (pps_Save p after)) (\<lambda>r.
          case r of
            Some err \<Rightarrow> giving (Some (Errorf ''store unusable after flush: %w'' [AWrap err]))
          | None \<Rightarrow> pw (pps_Flush p))))))"

lemma sc_flush_cases:
  assumes "cleanup p st = (w0, v0)" and "pps_Size p w0 = (n, u)"
  shows "sc_flush p f g st =
    (if size_or_0 n \<noteq> 0 \<and> \<not> su_startedEmpty v0
     then (Some (SkipError ''store held other entries at the start; not flushing them''), (u, v0\<lparr>su_created := []\<rparr>))
     else flushing p f g (u, v0\<lparr>su_created := []\<rparr>))"
  using assms
  by (simp add: sc_flush_def flushing_def calling_def [of "pw (pps_Size p)" _ "(w0, _)"] pw_def [of "pps_Size p" "(w0, _)"] giving_def)

lemma flush_keeps_none: "keeps (holds_at k None) (pps_Flush (sdk_st_client cfg tk mx tmo))"
proof (rule keepsI)
  fix w
  assume w: "holds_at k None w"
  obtain r t where f: "pps_Flush (sdk_st_client cfg tk mx tmo) w = (r, t)" by fastforce
  show "holds_at k None (snd (pps_Flush (sdk_st_client cfg tk mx tmo) w))"
    using st_net_flush(1,3) [OF _ f] w f by (auto simp: holds_at_def)
qed

lemma flushing_keeps_none:
  assumes "e_ID f \<noteq> k" and "e_ID g \<noteq> k"
  shows "keeps (other_entry.probed k None) (flushing (sdk_st_client cfg tk mx tmo) f g)"
proof -
  define P where "P = other_entry.probed k None"
  note pw = other_entry.keeps_pw [where k = k and X = None, folded P_def]
  have "keeps (holds_at k None) (pps_Save (sdk_st_client cfg tk mx tmo) e)" if "e_ID e \<noteq> k" for e
    using that by (intro other_entry.keeps_save) simp
  then show ?thesis
    unfolding flushing_def P_def [symmetric] using assms
    by (auto intro!: keeping pw flush_keeps_none other_entry.keeps_reads split: option.split)
qed

lemma flush_spares:
  assumes st: "other_entry.probed k X st" and f: "e_ID f \<noteq> k" "e_ID g \<noteq> k"
    and size: "fst (pps_Size (sdk_st_client cfg tk mx tmo) (fst (cleanup (sdk_st_client cfg tk mx tmo) st))) = Inr n"
  shows "other_entry.probed k X (snd (sc_flush (sdk_st_client cfg tk mx tmo) f g st))"
proof -
  let ?c = "sdk_st_client cfg tk mx tmo"
  obtain w0 v0 where cl: "cleanup ?c st = (w0, v0)" by fastforce
  obtain u where n: "pps_Size ?c w0 = (Inr n, u)" using size cl by (cases "pps_Size ?c w0") simp
  note K = other_entry.size_at_flush_keeps [OF st cl n]
  have u: "other_entry.probed k X (u, v0\<lparr>su_created := []\<rparr>)"
    using K(2,3) by (simp add: other_entry.probed_def)
  show ?thesis
  proof (cases "n \<noteq> 0 \<and> \<not> su_startedEmpty v0")
    case True
    then show ?thesis using u by (simp add: sc_flush_cases [OF cl n] size_or_0_def)
  next
    case False
    then have "X = None"
      using K(1,3) n size_0_empty [of w0 cfg tk mx tmo u] by (cases "n = 0") (auto simp: holds_at_def)
    then show ?thesis
      using flushing_keeps_none [OF f, of cfg tk mx tmo] u False
      by (simp add: sc_flush_cases [OF cl n] size_or_0_def keeps_def)
  qed
qed

text \<open>Whatever the network loses, and in whatever order the concurrent saves run, the suite spares an entry that is not its
  own if that one request is answered.\<close>

lemma suite_spares_if_answered:
  assumes w: "st_net_ok w" and k: "k \<notin> suite_ids pre" and c: "tg_Client t = sdk_st_raw cfg tk mx tmo"
    and n: "size_at_flush t pre now sched w = Inr n"
  shows "st_net_view (fst (fst (runPersistence t pre now sched w))) k = st_net_view w k"
proof -
  let ?c = "sdk_st_client cfg tk mx tmo" and ?X = "st_net_view w k"
  let ?st0 = "((w, \<lparr>su_created = [], su_startedEmpty = False\<rparr>), [])"
  have own: "suite_ids pre \<subseteq> - {k}" using k by auto
  have e: "e_ID (suite_entry pre now ''f'' 50) \<noteq> k" "e_ID (suite_entry pre now ''after'' 51) \<noteq> k"
    using k by (auto simp: suite_entry_def suite_ids_def suite_names_def)
  have "other_entry.probed k ?X (fst ?st0)" using w by (simp add: other_entry.probed_def holds_at_def)
  note s1 = other_entry.store_checks_keep [OF own c this, where now = now and sched = sched]
  have size: "fst (pps_Size ?c (fst (cleanup ?c (fst (store_checks t pre now sched ?st0))))) = Inr n"
    using n by (simp add: size_at_flush_def c sdk_st_client_raw Let_def)
  from flush_spares [OF s1 e size]
  have f: "other_entry.probed k ?X (fst (run_check (\<lambda>(w, _). cl_ctx (tg_Client t) w) ''flush_clears_store''
      (sc_flush ?c (suite_entry pre now ''f'' 50) (suite_entry pre now ''after'' 51)) (store_checks t pre now sched ?st0)))"
    (is "other_entry.probed _ _ (fst ?r)")
    by (simp add: run_check_snd c split: prod.split)
  obtain st rep where r: "?r = (st, rep)" by fastforce
  have "runPersistence t pre now sched w = (cleanup ?c st, rep)"
    using r unfolding runPersistence_def Let_def c sdk_st_client_raw by simp
  then have "other_entry.probed k ?X (fst (runPersistence t pre now sched w))"
    using other_entry.cleanup_keeps [of k ?X st cfg tk mx tmo] f r by simp
  then show ?thesis by (simp add: other_entry.probed_def holds_at_def)
qed

text \<open>Over a network that delivers, it is answered.\<close>

definition size_json :: "int \<Rightarrow> json" where
  "size_json n = JObj [(''size'', JInt n)]"

lemma size_answered:
  assumes w: "st_net_ok w" "nt_script w = []" and tk: "pc_token cfg = tk"
    and fits: "\<forall>n. pc_bytes cfg (size_json n) \<le> 2 ^ 20" and n: "int (gm_len (sd_data (nt_srv w))) \<le> int64_max"
  shows "pps_Size (sdk_st_client cfg tk 0 tmo) w = (Inr (int (gm_len (sd_data (nt_srv w)))), w)"
proof -
  let ?c = "sdk_st_client cfg tk 0 tmo" and ?n = "int (gm_len (sd_data (nt_srv w)))"
  have mx: "cl_Token ?c = tk" "cl_MaxResponse ?c = 32 * 2 ^ 20" by (simp_all add: sdk_st_client_def NewPersistence_def)
  have srv: "sdk_st_serve cfg (client_req ?c ''GET'' ''/v1/size'' [] None) (nt_srv w) =
      (reply_json (pc_bytes cfg) 200 (size_json ?n), nt_srv w)"
    using tk mx(1)
    by (auto simp: sdk_st_serve_def withAuth_def sdk_st_mux_def Let_def client_req_def trim_prefix_def has_prefix_def size_json_def)
  have dec: "decode_int_ptr ''size'' (size_json ?n) = Inr (Some ?n)"
    using n by (simp add: decode_int_ptr_def size_json_def json_member_def int64_min_def)
  have "client_get ?c ''GET'' ''/v1/size'' [] None (decode_int_ptr ''size'') None w = (Inr (Some ?n), w)"
    using client_get_delivered [OF sdk_st_client_net w(2) srv, of "size_json ?n" "decode_int_ptr ''size''" "Some ?n"] dec mx(2) fits
    by (simp add: reply_json_def) (smt (verit))
  then show ?thesis by (simp add: pps_Size_def)
qed

lemma card_suite_ids: "card (suite_ids pre) \<le> 28"
proof -
  have "card (suite_ids pre) \<le> length suite_names" unfolding suite_ids_def
    by (rule le_trans [OF card_image_le card_length]) simp
  then show ?thesis by (simp add: suite_names_def)
qed

lemma flush_size_answered:
  assumes w: "st_net_ok w" "nt_script w = []" and tk: "pc_token cfg = tk" and c: "tg_Client t = sdk_st_raw cfg tk 0 tmo"
    and fits: "\<forall>n. pc_bytes cfg (size_json n) \<le> 2 ^ 20" and n: "length (sd_data (nt_srv w)) \<le> 2 ^ 62"
  shows "\<exists>n. size_at_flush t pre now sched w = Inr n"
proof -
  let ?c = "sdk_st_client cfg tk 0 tmo" and ?ns = "dom (st_net_view w)"
  let ?st0 = "((w, \<lparr>su_created = [], su_startedEmpty = False\<rparr>), [])"
  have "bounded_store.probed pre ?ns (fst ?st0)" using w by (simp add: bounded_store.probed_def bounded_by_def)
  from bounded_store.cleanup_keeps [OF bounded_store.store_checks_keep [OF subset_refl c this, where now = now and sched = sched],
      of cfg tk 0 tmo]
  have b: "bounded_by ?ns pre (fst (cleanup ?c (fst (store_checks t pre now sched ?st0))))" (is "bounded_by _ _ ?u")
    by (simp add: bounded_store.probed_def)
  have wf: "gm_wf (sd_data (nt_srv ?u))" "gm_wf (sd_data (nt_srv w))"
    using b w(1) by (simp_all add: bounded_by_def st_net_ok_def sdk_st_ok_def)
  have fin: "finite (suite_ids pre)" by (simp add: suite_ids_def)
  have len: "gm_len m = card (dom (gm_get m))" if "gm_wf m" for m :: "(string, Entry) gomap"
    using that distinct_card [of "map fst m"] by (simp add: gm_len_def dom_gm_get gm_wf_keys gm_keys_def)
  have "card (dom (st_net_view ?u)) \<le> card (?ns \<union> suite_ids pre)"
    using b fin by (intro card_mono) (auto simp: bounded_by_def st_net_view_def sdk_st_view_def dom_gm_get)
  also have "\<dots> \<le> card ?ns + 28" using card_Un_le [of ?ns "suite_ids pre"] card_suite_ids [of pre] by linarith
  also have "card ?ns = length (sd_data (nt_srv w))"
    using len [OF wf(2)] by (simp add: st_net_view_def sdk_st_view_def gm_len_def)
  finally have "gm_len (sd_data (nt_srv ?u)) \<le> 2 ^ 62 + 28"
    using len [OF wf(1)] n by (simp add: st_net_view_def sdk_st_view_def)
  then have "int (gm_len (sd_data (nt_srv ?u))) \<le> int64_max" by (simp add: int64_max_def)
  with b show ?thesis
    using size_answered [of ?u cfg tk tmo] tk fits by (simp add: size_at_flush_def c sdk_st_client_raw Let_def bounded_by_def)
qed

section \<open>What the suite does to the entries of others\<close>


definition demo_st_cfg :: sdk_st_cfg where
  "demo_st_cfg = \<lparr>pc_token = ''t'', pc_bytes = (\<lambda>_. 100)\<rparr>"

definition demo_st_target :: "sdk_st net target" where
  "demo_st_target = \<lparr>tg_Client = sdk_st_raw demo_st_cfg ''t'' 0 0, tg_Model = '''', tg_VectorDim = 0,
     tg_AllowUnnormalized = False, tg_RequireEmpty = False\<rparr>"

definition live_entry :: Entry where
  "live_entry = \<lparr>e_ID = ''live'', e_Prompt = ''p'', e_Reply = ''r'', e_Vector = [F_Num 1], e_CreatedAt = 0\<rparr>"

definition demo_st_net :: "net_fault list \<Rightarrow> sdk_st net" where
  "demo_st_net fs = \<lparr>nt_srv = \<lparr>sd_data = [(''live'', live_entry)]\<rparr>, nt_script = fs\<rparr>"

lemma demo_st_net_ok: "st_net_ok (demo_st_net fs)" "st_net_view (demo_st_net fs) ''live'' = Some live_entry"
  "nt_script (demo_st_net fs) = fs" "length (sd_data (nt_srv (demo_st_net fs))) = 1"
proof -
  have "validateEntry live_entry = None \<and> e_ID live_entry = ''live''" by code_simp
  then show "st_net_ok (demo_st_net fs)" "st_net_view (demo_st_net fs) ''live'' = Some live_entry"
    "nt_script (demo_st_net fs) = fs" "length (sd_data (nt_srv (demo_st_net fs))) = 1"
    by (simp_all add: demo_st_net_def st_net_ok_def st_net_view_def sdk_st_ok_def sdk_st_view_def gm_wf_def gm_get_def)
qed

lemma live_not_own: "''live'' \<notin> suite_ids ''contract-1-''"
  by (auto simp: suite_ids_def)


text \<open>The calls of the last check when the network delivers them.\<close>

lemma client_call_delivered:
  assumes "net_client serve c" and "nt_script w = []" and "serve (client_req c m p [] (Some b)) (nt_srv w) = (reply_empty 204, s)"
  shows "client_call c m p (Some (Inr b)) w = (None, w\<lparr>nt_srv := s\<rparr>)"
  using client_Do_delivered [OF assms(1,2), of m p "[]" "Some b" "reply_empty 204" s None "()"] assms(3)
  by (simp add: client_call_def client_response_def reply_empty_def Let_def DefaultMaxResponse_def)

lemma save_delivered:
  assumes "nt_script w = []" and "pc_token cfg = tk" and v: "validateEntry e = None" and "json_of_entry e = Inr j"
    and "pc_bytes cfg j \<le> 8 * 2 ^ 20"
  shows "pps_Save (sdk_st_client cfg tk 0 tmo) e w = (None, w\<lparr>nt_srv := (nt_srv w)\<lparr>sd_data := gm_put (e_ID e) e (sd_data (nt_srv w))\<rparr>\<rparr>)"
proof -
  let ?c = "sdk_st_client cfg tk 0 tmo"
  have id: "ValidID (e_ID e)" "list_all f64_finite (e_Vector e)" using v by (auto simp: validateEntry_def split: if_splits)
  have auth: "trim_prefix (hq_auth (client_req ?c ''PUT'' (''/v1/entries/'' @ e_ID e) [] (Some j))) ''Bearer '' = tk \<or> tk = []"
    by (auto simp: client_req_def sdk_st_client_def NewPersistence_def trim_prefix_def has_prefix_def)
  have "sdk_st_serve cfg (client_req ?c ''PUT'' (''/v1/entries/'' @ e_ID e) [] (Some j)) (nt_srv w) =
      (reply_empty 204, (nt_srv w)\<lparr>sd_data := gm_put (e_ID e) e (sd_data (nt_srv w))\<rparr>)"
    using auth assms(2,5) id decode_entry_json [OF assms(4)]
    by (auto simp: sdk_st_serve_def withAuth_def sdk_st_mux_def sdk_st_put_def limit_body_def Let_def entry_path_id simp del: append_Cons)
  from client_call_delivered [OF sdk_st_client_net assms(1) this] show ?thesis
    using v assms(4) by (simp add: pps_Save_def del: append_Cons)
qed

lemma store_flush_delivered:
  assumes "nt_script w = []" and "pc_token cfg = tk"
  shows "pps_Flush (sdk_st_client cfg tk 0 tmo) w = (None, w\<lparr>nt_srv := (nt_srv w)\<lparr>sd_data := []\<rparr>\<rparr>)"
proof -
  let ?c = "sdk_st_client cfg tk 0 tmo"
  have "cl_Token ?c = tk" by (simp add: sdk_st_client_def NewPersistence_def)
  then have "sdk_st_serve cfg (client_req ?c ''POST'' ''/v1/flush'' [] (Some (JObj []))) (nt_srv w) =
      (reply_empty 204, (nt_srv w)\<lparr>sd_data := []\<rparr>)"
    using assms(2)
    by (auto simp: sdk_st_serve_def withAuth_def sdk_st_mux_def Let_def client_req_def trim_prefix_def has_prefix_def)
  from client_call_delivered [OF sdk_st_client_net assms(1) this] show ?thesis by (simp add: pps_Flush_def)
qed

lemma size_refused:
  assumes "nt_script w = [Refused_conn]"
  shows "\<exists>e. pps_Size (sdk_st_client cfg tk mx tmo) w = (Inl e, w\<lparr>nt_script := []\<rparr>)"
  using assms
  by (simp add: pps_Size_def client_get_def client_Do_def net_send_def net_fault_def Let_def
      sdk_st_client_def NewPersistence_def split: prod.split)

lemma suite_entry_valid: "ValidID (pre @ s) \<Longrightarrow> f64_finite (f64_of_int n) \<Longrightarrow> validateEntry (suite_entry pre now s n) = None"
  by (simp add: validateEntry_def suite_entry_def)

text \<open>One request decides whether the persistence suite erases a store. In a store that held entries from the start, if
  the network refuses the single size request of the last check, the check takes the store for empty: it saves
  an entry, flushes the store, and every entry of others is gone.\<close>
theorem one_refused_size_erases_the_store:
  assumes "st_net_ok w" and "nt_script w = [Refused_conn]" and "pc_token cfg = tk"
    and "ValidID (pre @ ''f'')" and "json_of_entry (suite_entry pre now ''f'' 50) = Inr j" and "pc_bytes cfg j \<le> 8 * 2 ^ 20"
    and "k \<notin> suite_ids pre"
  shows "st_net_view (fst (snd (sc_flush (sdk_st_client cfg tk 0 tmo) (suite_entry pre now ''f'' 50) (suite_entry pre now ''after'' 51)
    (w, \<lparr>su_created = [], su_startedEmpty = False\<rparr>)))) k = None"
proof -
  let ?c = "sdk_st_client cfg tk 0 tmo" and ?f = "suite_entry pre now ''f'' 50" and ?g = "suite_entry pre now ''after'' 51"
  let ?v = "\<lparr>su_created = [], su_startedEmpty = False\<rparr>"
  let ?w1 = "w\<lparr>nt_script := []\<rparr>"
  define w2 where "w2 = ?w1\<lparr>nt_srv := (nt_srv w)\<lparr>sd_data := gm_put (e_ID ?f) ?f (sd_data (nt_srv w))\<rparr>\<rparr>"
  define w3 where "w3 = w2\<lparr>nt_srv := (nt_srv w2)\<lparr>sd_data := []\<rparr>\<rparr>"
  obtain e where size: "pps_Size ?c w = (Inl e, ?w1)" using size_refused [OF assms(2)] by blast
  have cl: "cleanup ?c (w, ?v) = (w, ?v)" by (simp add: cleanup_def)
  have "f64_finite (f64_of_int 50)" by code_simp
  then have save: "pps_Save ?c ?f ?w1 = (None, w2)"
    using save_delivered [of ?w1 cfg tk ?f j tmo] assms(3,5,6) suite_entry_valid [OF assms(4)] by (simp add: w2_def)
  have flush: "pps_Flush ?c w2 = (None, w3)"
    using store_flush_delivered [of w2 cfg tk tmo] assms(3) by (simp add: w2_def w3_def)
  have g: "e_ID ?g \<noteq> k" using assms(7) by (auto simp: suite_entry_def suite_ids_def suite_names_def)
  have w3: "holds_at k None w3"
    by (simp add: holds_at_def w3_def st_net_ok_def st_net_view_def sdk_st_ok_def sdk_st_view_def gm_wf_empty gm_get_empty)
  define rest where "rest = calling (pw (pps_Size ?c)) (\<lambda>n.
        refuse_if (n \<noteq> Inr 0) ''size after flush = %d (%v), want 0''
       (calling (pw (pps_Save ?c ?g)) (\<lambda>r.
          case r of
            Some err \<Rightarrow> giving (Some (Errorf ''store unusable after flush: %w'' [AWrap err]))
          | None \<Rightarrow> pw (pps_Flush ?c))))"
  define P where "P = other_entry.probed k None"
  note pw = other_entry.keeps_pw [where k = k and X = None, folded P_def]
  have sv: "keeps (holds_at k None) (pps_Save ?c ?g)" using g by (intro other_entry.keeps_save) simp
  have "keeps P rest"
    unfolding rest_def by (auto intro!: keeping pw sv flush_keeps_none other_entry.keeps_reads split: option.split)
  moreover have "P (w3, ?v)" unfolding P_def other_entry.probed_def using w3 by simp
  moreover have "sc_flush ?c ?f ?g (w, ?v) = rest (w3, ?v)"
    unfolding sc_flush_cases [OF cl size] flushing_def rest_def [symmetric]
    by (simp add: size_or_0_def proceed_def calling_def [of "pw (pps_Save ?c ?f)"] calling_def [of "pw (pps_Flush ?c)"]
        pw_def [of "pps_Save ?c ?f"] pw_def [of "pps_Flush ?c"] save flush)
  ultimately have "P (snd (sc_flush ?c ?f ?g (w, ?v)))" by (simp add: keeps_def)
  then show ?thesis unfolding P_def by (rule probed_view)
qed

lemma one_refused_size_erases_the_store_witness:
  "st_net_view (demo_st_net [Refused_conn]) ''live'' = Some live_entry \<and>
   st_net_view (fst (snd (sc_flush (sdk_st_client demo_st_cfg ''t'' 0 0) (suite_entry ''contract-1-'' 0 ''f'' 50)
     (suite_entry ''contract-1-'' 0 ''after'' 51) (demo_st_net [Refused_conn], \<lparr>su_created = [], su_startedEmpty = False\<rparr>)))) ''live'' = None"
proof -
  have id: "ValidID (''contract-1-'' @ ''f'')" and fin: "f64_finite (f64_of_int 50)" by code_simp+
  obtain j where j: "json_of_entry (suite_entry ''contract-1-'' 0 ''f'' 50) = Inr j"
    using json_of_entry_total [OF suite_entry_valid [OF id fin]] by blast
  have "st_net_view (fst (snd (sc_flush (sdk_st_client demo_st_cfg ''t'' 0 0) (suite_entry ''contract-1-'' 0 ''f'' 50)
     (suite_entry ''contract-1-'' 0 ''after'' 51) (demo_st_net [Refused_conn], \<lparr>su_created = [], su_startedEmpty = False\<rparr>)))) ''live'' = None"
    by (rule one_refused_size_erases_the_store [OF _ _ _ id j])
      (simp_all add: demo_st_net_ok live_not_own, simp_all add: demo_st_cfg_def)
  then show ?thesis by (simp add: demo_st_net_ok)
qed

end
