(* ===== verification/Orchestrator.thy ===== *)
theory Orchestrator
  imports Ports
begin

text \<open>
  The query-flow coordinator (\<open>internal/orchestrator/service.go\<close>). A \<open>service\<close> holds the state of
  each port and the counters; \<open>deps\<close> holds the ports' methods, the configuration and the clock.
  Every handler is a function from the service to its reply and the service after it. Log lines
  are left out; a \<open>context\<close> deadline shows as an error of the port that was waiting.

  \<open>enforceCapacity\<close> is the only loop with no bound in its code: it is a
  \<open>partial_function (option)\<close>, and \<open>Orchestrator_Laws\<close> shows that it returns.
\<close>

section \<open>State\<close>

record ('v, 's, 'p, 'e) deps =
  d_cfg :: config
  d_V :: "'v vector_ops"
  d_S :: "'s store_ops"
  d_P :: "'p policy_ops"
  d_E :: "'e embed_ops"
  d_L :: "'e llm_ops"
  d_Q :: "'e queue_ops"
  d_now :: "'e \<Rightarrow> int \<times> 'e"

record ('v, 's, 'p, 'e) service =
  sv_V :: 'v
  sv_S :: 's
  sv_P :: 'p
  sv_E :: 'e  \<comment> \<open>embedder, LLM, queue and clock\<close>
  sv_threshold :: "f64 option"  \<comment> \<open>\<open>threshold\<close> once \<open>thresholdSet\<close>\<close>
  sv_hits :: int
  sv_misses :: int
  sv_hitLatencySum :: int
  sv_missLatencySum :: int
  sv_hitDistanceSum :: f64
  sv_evictions :: int

section \<open>Replies\<close>

datatype 'a http_reply =
    HttpError int string "goerr option"  \<comment> \<open>status, message, the error appended to it\<close>
  | HttpOk 'a

record queryResult =
  qr_ID :: string
  qr_Reply :: string
  qr_Distance :: f64

record queryResponse =
  qp_Results :: "queryResult list"
  qp_Reply :: string
  qp_CacheHit :: bool
  qp_Distance :: f64
  qp_LatencyMS :: int
  qp_Source :: string

text \<open>A request body as the decoder sees it, and the \<open>prompt\<close> it yields.\<close>

datatype query_body = BodyTooLarge | BodyInvalid | BodyJson json

fun query_prompt :: "query_body \<Rightarrow> string http_reply" where
  "query_prompt BodyTooLarge = HttpError 413 ''prompt too large'' None"
| "query_prompt BodyInvalid = HttpError 400 ''missing or invalid prompt'' None"
| "query_prompt (BodyJson j) =
     (case json_struct [(''prompt'', json_string)] j '''' of
        Inl _ \<Rightarrow> HttpError 400 ''missing or invalid prompt'' None
      | Inr prompt \<Rightarrow> if prompt = '''' then HttpError 400 ''missing or invalid prompt'' None
                      else HttpOk prompt)"

section \<open>Small helpers\<close>

definition distanceEpsilon :: f64 where
  "distanceEpsilon = f64_round (1 / 1000000)"

definition normalizeDistance :: "f64 \<Rightarrow> f64" where
  "normalizeDistance d =
     (if f64_lt d (F_Zero False) \<and> f64_lt (f64_neg distanceEpsilon) d then F_Zero False else d)"

text \<open>\<open>Duration.Milliseconds\<close>: division truncated towards zero.\<close>

definition milliseconds :: "int \<Rightarrow> int" where
  "milliseconds d = (if 0 \<le> d then d div 1000000 else - (- d div 1000000))"

definition Threshold :: "('v, 's, 'p, 'e) deps \<Rightarrow> ('v, 's, 'p, 'e) service \<Rightarrow> f64" where
  "Threshold D s = (case sv_threshold s of None \<Rightarrow> cfg_Threshold (d_cfg D) | Some v \<Rightarrow> v)"

definition SetThreshold :: "f64 \<Rightarrow> ('v, 's, 'p, 'e) service \<Rightarrow> ('v, 's, 'p, 'e) service" where
  "SetThreshold v s = s\<lparr>sv_threshold := Some v\<rparr>"

definition recordHit :: "int \<Rightarrow> f64 \<Rightarrow> ('v, 's, 'p, 'e) service \<Rightarrow> ('v, 's, 'p, 'e) service" where
  "recordHit latency distance s =
     s\<lparr>sv_hits := sv_hits s + 1, sv_hitLatencySum := sv_hitLatencySum s + latency,
       sv_hitDistanceSum := f64_add (sv_hitDistanceSum s) distance\<rparr>"

definition recordMiss :: "int \<Rightarrow> ('v, 's, 'p, 'e) service \<Rightarrow> ('v, 's, 'p, 'e) service" where
  "recordMiss latency s =
     s\<lparr>sv_misses := sv_misses s + 1, sv_missLatencySum := sv_missLatencySum s + latency\<rparr>"

definition recordEviction :: "('v, 's, 'p, 'e) service \<Rightarrow> ('v, 's, 'p, 'e) service" where
  "recordEviction s = s\<lparr>sv_evictions := sv_evictions s + 1\<rparr>"

definition now :: "('v, 's, 'p, 'e) deps \<Rightarrow> ('v, 's, 'p, 'e) service \<Rightarrow> int \<times> ('v, 's, 'p, 'e) service" where
  "now D s = (let (t, e) = d_now D (sv_E s) in (t, s\<lparr>sv_E := e\<rparr>))"

section \<open>\<open>POST /query\<close>\<close>

text \<open>The loop over the matches: skip ids the store does not have, tell the policy of the others.\<close>

fun collect_results ::
    "('v, 's, 'p, 'e) deps \<Rightarrow> Match list \<Rightarrow> queryResult list \<Rightarrow> ('v, 's, 'p, 'e) service \<Rightarrow>
     queryResult list \<times> ('v, 's, 'p, 'e) service" where
  "collect_results D [] results s = (results, s)"
| "collect_results D (match # ms) results s =
     (case st_Load (d_S D) (m_ID match) (sv_S s) of
        (None, t) \<Rightarrow> collect_results D ms results (s\<lparr>sv_S := t\<rparr>)
      | (Some entry, t) \<Rightarrow>
          collect_results D ms
            (results @ [\<lparr>qr_ID = m_ID match, qr_Reply = e_Reply entry,
                         qr_Distance = normalizeDistance (m_Distance match)\<rparr>])
            (s\<lparr>sv_S := t, sv_P := po_OnHit (d_P D) (m_ID match) (sv_P s)\<rparr>))"

text \<open>The end of the handler on a miss: the LLM, then the queue; an enqueue error is only logged.\<close>

definition query_miss ::
    "('v, 's, 'p, 'e) deps \<Rightarrow> int \<Rightarrow> string \<Rightarrow> f64 list \<Rightarrow> ('v, 's, 'p, 'e) service \<Rightarrow>
     queryResponse http_reply \<times> ('v, 's, 'p, 'e) service" where
  "query_miss D start prompt vec s =
     (case lm_Complete (d_L D) prompt (sv_E s) of
        (Inl err, e) \<Rightarrow> (HttpError 502 ''llm failed: '' (Some err), s\<lparr>sv_E := e\<rparr>)
      | (Inr reply, e) \<Rightarrow>
          (let (t, s1) = now D (s\<lparr>sv_E := e\<rparr>);
               elapsed = t - start;
               s2 = recordMiss elapsed s1;
               (_, e') = q_Enqueue (d_Q D) \<lparr>j_Prompt = prompt, j_Reply = reply, j_Vector = vec\<rparr> (sv_E s2)
           in (HttpOk \<lparr>qp_Results = [], qp_Reply = reply, qp_CacheHit = False, qp_Distance = F_Num (- 1),
                       qp_LatencyMS = milliseconds elapsed, qp_Source = ''llm''\<rparr>,
               s2\<lparr>sv_E := e'\<rparr>)))"

definition query_hit ::
    "('v, 's, 'p, 'e) deps \<Rightarrow> int \<Rightarrow> queryResult list \<Rightarrow> ('v, 's, 'p, 'e) service \<Rightarrow>
     queryResponse http_reply \<times> ('v, 's, 'p, 'e) service" where
  "query_hit D start results s =
     (let (t, s1) = now D s; elapsed = t - start; best = hd results
      in (HttpOk \<lparr>qp_Results = results, qp_Reply = qr_Reply best, qp_CacheHit = True,
                  qp_Distance = qr_Distance best, qp_LatencyMS = milliseconds elapsed,
                  qp_Source = ''cache''\<rparr>,
          recordHit elapsed (qr_Distance best) s1))"

definition handleQuery ::
    "('v, 's, 'p, 'e) deps \<Rightarrow> query_body \<Rightarrow> ('v, 's, 'p, 'e) service \<Rightarrow>
     queryResponse http_reply \<times> ('v, 's, 'p, 'e) service" where
  "handleQuery D body s =
     (let (start, s0) = now D s in
      case query_prompt body of
        HttpError code msg err \<Rightarrow> (HttpError code msg err, s0)
      | HttpOk prompt \<Rightarrow>
          (case em_Embed (d_E D) prompt (sv_E s0) of
             (Inl err, e) \<Rightarrow> (HttpError 502 ''embedding failed: '' (Some err), s0\<lparr>sv_E := e\<rparr>)
           | (Inr vec, e) \<Rightarrow>
               (let s1 = s0\<lparr>sv_E := e\<rparr> in
                case vs_Search (d_V D) vec (cfg_TopK (d_cfg D)) (Threshold D s1) (sv_V s1) of
                  (Inl err, v) \<Rightarrow> (HttpError 502 ''vector search failed: '' (Some err), s1\<lparr>sv_V := v\<rparr>)
                | (Inr matches, v) \<Rightarrow>
                    (let (results, s2) = collect_results D matches [] (s1\<lparr>sv_V := v\<rparr>)
                     in if results \<noteq> [] then query_hit D start results s2
                        else query_miss D start prompt vec s2))))"

section \<open>Capacity\<close>

text \<open>One turn of the loop: \<open>Inl\<close> returns, \<open>Inr\<close> goes round again.\<close>

definition enforce_step ::
    "('v, 's, 'p, 'e) deps \<Rightarrow> ('v, 's, 'p, 'e) service \<Rightarrow>
     (goerr option \<times> ('v, 's, 'p, 'e) service) + ('v, 's, 'p, 'e) service" where
  "enforce_step D s =
     (case st_Size (d_S D) (sv_S s) of
        (Inl err, t) \<Rightarrow> Inl (Some err, s\<lparr>sv_S := t\<rparr>)
      | (Inr n, t) \<Rightarrow>
          if n \<le> cfg_Capacity (d_cfg D) then Inl (None, s\<lparr>sv_S := t\<rparr>)
          else (case po_Victim (d_P D) (sv_P s) of
              (None, p) \<Rightarrow>
                Inl (Some (Errorf ''cache size %d exceeds capacity %d, but policy %q has no victim''
                       [AInt n, AInt (cfg_Capacity (d_cfg D)), AStr (po_Name (d_P D))]),
                     s\<lparr>sv_S := t, sv_P := p\<rparr>)
            | (Some victim, p) \<Rightarrow>
                (case st_Delete (d_S D) victim t of
                   (Some err, t') \<Rightarrow> Inl (Some err, s\<lparr>sv_S := t', sv_P := p\<rparr>)
                 | (None, t') \<Rightarrow>
                     (case vs_Delete (d_V D) victim (sv_V s) of
                        (Some err, v) \<Rightarrow> Inl (Some err, s\<lparr>sv_S := t', sv_P := p, sv_V := v\<rparr>)
                      | (None, v) \<Rightarrow>
                          Inr (recordEviction
                            (s\<lparr>sv_S := t', sv_V := v, sv_P := po_OnDelete (d_P D) victim p\<rparr>))))))"

partial_function (option) enforce_loop ::
    "('v, 's, 'p, 'e) deps \<Rightarrow> ('v, 's, 'p, 'e) service \<Rightarrow>
     (goerr option \<times> ('v, 's, 'p, 'e) service) option" where
  "enforce_loop D s = (case enforce_step D s of Inl r \<Rightarrow> Some r | Inr s' \<Rightarrow> enforce_loop D s')"

declare enforce_loop.simps [code]

definition enforceCapacity ::
    "('v, 's, 'p, 'e) deps \<Rightarrow> ('v, 's, 'p, 'e) service \<Rightarrow>
     (goerr option \<times> ('v, 's, 'p, 'e) service) option" where
  "enforceCapacity D s =
     (if cfg_Capacity (d_cfg D) \<le> 0 then Some (None, s) else enforce_loop D s)"

section \<open>The cache worker\<close>

definition updateCache ::
    "('v, 's, 'p, 'e) deps \<Rightarrow> string \<Rightarrow> f64 list \<Rightarrow> string \<Rightarrow> ('v, 's, 'p, 'e) service \<Rightarrow>
     (goerr option \<times> ('v, 's, 'p, 'e) service) option" where
  "updateCache D prompt vec reply s =
     (case vs_Upsert (d_V D) vec (sv_V s) of
        (Inl err, v) \<Rightarrow> Some (Some err, s\<lparr>sv_V := v\<rparr>)
      | (Inr k, v) \<Rightarrow>
          (let (created, s1) = now D (s\<lparr>sv_V := v\<rparr>) in
           case st_Save (d_S D) \<lparr>e_ID = k, e_Prompt = prompt, e_Reply = reply, e_Vector = vec,
                                 e_CreatedAt = created\<rparr> (sv_S s1) of
             (Some err, t) \<Rightarrow>
               (let (_, v') = vs_Delete (d_V D) k (sv_V s1)
                in Some (Some err, s1\<lparr>sv_S := t, sv_V := v'\<rparr>))
           | (None, t) \<Rightarrow> enforceCapacity D (s1\<lparr>sv_S := t, sv_P := po_OnInsert (d_P D) k (sv_P s1)\<rparr>)))"

definition handleCacheUpdateJob ::
    "('v, 's, 'p, 'e) deps \<Rightarrow> Job \<Rightarrow> ('v, 's, 'p, 'e) service \<Rightarrow>
     (goerr option \<times> ('v, 's, 'p, 'e) service) option" where
  "handleCacheUpdateJob D job s = updateCache D (j_Prompt job) (j_Vector job) (j_Reply job) s"

section \<open>Restart\<close>

text \<open>
  \<open>rebuildVectorStoreWithRetry\<close>: one attempt, then one more per tick of the ticker until the
  context ends; \<open>ticks\<close> counts the ticks that arrive before that.
\<close>

fun rebuild_with_retry ::
    "('v, 's, 'p, 'e) deps \<Rightarrow> nat \<Rightarrow> RebuildEntry list \<Rightarrow> ('v, 's, 'p, 'e) service \<Rightarrow>
     goerr option \<times> ('v, 's, 'p, 'e) service" where
  "rebuild_with_retry D 0 es s =
     (case vs_Rebuild (d_V D) es (sv_V s) of
        (Inr _, v) \<Rightarrow> (None, s\<lparr>sv_V := v\<rparr>)
      | (Inl err, v) \<Rightarrow> (Some err, s\<lparr>sv_V := v\<rparr>))"
| "rebuild_with_retry D (Suc ticks) es s =
     (case vs_Rebuild (d_V D) es (sv_V s) of
        (Inr _, v) \<Rightarrow> (None, s\<lparr>sv_V := v\<rparr>)
      | (Inl err, v) \<Rightarrow> rebuild_with_retry D ticks es (s\<lparr>sv_V := v\<rparr>))"

definition rebuildFromStore ::
    "('v, 's, 'p, 'e) deps \<Rightarrow> nat \<Rightarrow> ('v, 's, 'p, 'e) service \<Rightarrow> goerr option \<times> ('v, 's, 'p, 'e) service" where
  "rebuildFromStore D ticks s =
     (case st_List (d_S D) (sv_S s) of
        (Inl err, t) \<Rightarrow> (Some (Errorf ''list cache entries for rebuild: %w'' [AWrap err]), s\<lparr>sv_S := t\<rparr>)
      | (Inr entries, t) \<Rightarrow>
          (let es = sort_key e_CreatedAt entries;
               s1 = s\<lparr>sv_S := t, sv_P := fold (\<lambda>e p. po_OnInsert (d_P D) (e_ID e) p) es (sv_P s)\<rparr>
           in case rebuild_with_retry D ticks
                     (map (\<lambda>e. \<lparr>re_ID = e_ID e, re_Vector = e_Vector e\<rparr>) es) s1 of
                (Some err, s2) \<Rightarrow> (Some (Errorf ''rebuild vector store from cache: %w'' [AWrap err]), s2)
              | (None, s2) \<Rightarrow> (None, s2)))"

definition NewWithDependencies ::
    "('v, 's, 'p, 'e) deps \<Rightarrow> nat \<Rightarrow> 'v \<Rightarrow> 's \<Rightarrow> 'p \<Rightarrow> 'e \<Rightarrow> ('v, 's, 'p, 'e) service res" where
  "NewWithDependencies D ticks v st p e =
     (if cfg_TopK (d_cfg D) < 1 then Inl (Errorf ''TopK must be at least 1'' [])
      else let s = \<lparr>sv_V = v, sv_S = st, sv_P = p, sv_E = e, sv_threshold = None, sv_hits = 0,
                    sv_misses = 0, sv_hitLatencySum = 0, sv_missLatencySum = 0,
                    sv_hitDistanceSum = F_Zero False, sv_evictions = 0\<rparr>
           in case rebuildFromStore D ticks s of
                (Some err, _) \<Rightarrow> Inl err
              | (None, s1) \<Rightarrow> Inr s1)"

section \<open>Flush, statistics, health and policy requests\<close>

definition FlushCache ::
    "('v, 's, 'p, 'e) deps \<Rightarrow> ('v, 's, 'p, 'e) service \<Rightarrow> goerr option \<times> ('v, 's, 'p, 'e) service" where
  "FlushCache D s =
     (case vs_Flush (d_V D) (sv_V s) of
        (Some err, v) \<Rightarrow> (Some err, s\<lparr>sv_V := v\<rparr>)
      | (None, v) \<Rightarrow>
          (let (_, t) = st_Flush (d_S D) (sv_S s)
           in (None, s\<lparr>sv_V := v, sv_S := t, sv_P := po_Flush (d_P D) (sv_P s),
                       sv_hits := 0, sv_misses := 0, sv_hitLatencySum := 0, sv_missLatencySum := 0,
                       sv_hitDistanceSum := F_Zero False, sv_evictions := 0\<rparr>)))"

definition handleFlush ::
    "('v, 's, 'p, 'e) deps \<Rightarrow> ('v, 's, 'p, 'e) service \<Rightarrow> unit http_reply \<times> ('v, 's, 'p, 'e) service" where
  "handleFlush D s =
     (case FlushCache D s of
        (Some err, s1) \<Rightarrow> (HttpError 502 ''flush failed: '' (Some err), s1)
      | (None, s1) \<Rightarrow> (HttpOk (), s1))"

record statsResponse =
  sr_Requests :: int
  sr_Hits :: int
  sr_Misses :: int
  sr_HitRate :: f64
  sr_AvgHitLatencyMS :: f64
  sr_AvgMissLatencyMS :: f64
  sr_AvgHitDistance :: f64
  sr_Evictions :: int
  sr_Size :: int
  sr_Policy :: string

definition handleStats ::
    "('v, 's, 'p, 'e) deps \<Rightarrow> ('v, 's, 'p, 'e) service \<Rightarrow> statsResponse \<times> ('v, 's, 'p, 'e) service" where
  "handleStats D s =
     (let hits = sv_hits s; misses = sv_misses s; requests = hits + misses;
          ms = f64_of_int 1000000;
          rate = (if 0 < requests then f64_div (f64_of_int hits) (f64_of_int requests) else F_Zero False);
          avgHit = (if 0 < hits
            then f64_div (f64_div (f64_of_int (sv_hitLatencySum s)) (f64_of_int hits)) ms else F_Zero False);
          avgDist = (if 0 < hits then f64_div (sv_hitDistanceSum s) (f64_of_int hits) else F_Zero False);
          avgMiss = (if 0 < misses
            then f64_div (f64_div (f64_of_int (sv_missLatencySum s)) (f64_of_int misses)) ms else F_Zero False);
          (sz, t) = st_Size (d_S D) (sv_S s)
      in (\<lparr>sr_Requests = requests, sr_Hits = hits, sr_Misses = misses, sr_HitRate = rate,
           sr_AvgHitLatencyMS = avgHit, sr_AvgMissLatencyMS = avgMiss, sr_AvgHitDistance = avgDist,
           sr_Evictions = sv_evictions s, sr_Size = (case sz of Inr n \<Rightarrow> n | Inl _ \<Rightarrow> 0),
           sr_Policy = po_Name (d_P D)\<rparr>, s\<lparr>sv_S := t\<rparr>))"

definition handleHealth ::
    "('v, 's, 'p, 'e) deps \<Rightarrow> ('v, 's, 'p, 'e) service \<Rightarrow>
     (int \<times> string \<times> (string \<times> goerr option) list) \<times> ('v, 's, 'p, 'e) service" where
  "handleHealth D s =
     (let (e1, e) = em_Health (d_E D) (sv_E s);
          (e2, v) = vs_Health (d_V D) (sv_V s);
          (e3, t) = st_Health (d_S D) (sv_S s);
          ok = (e1 = None \<and> e2 = None \<and> e3 = None)
      in ((if ok then 200 else 503, if ok then ''ok'' else ''degraded'',
           [(''embedding'', e1), (''vectorstore'', e2), (''redis'', e3)]),
          s\<lparr>sv_E := e, sv_V := v, sv_S := t\<rparr>))"

definition CacheSize ::
    "('v, 's, 'p, 'e) deps \<Rightarrow> ('v, 's, 'p, 'e) service \<Rightarrow> int res \<times> ('v, 's, 'p, 'e) service" where
  "CacheSize D s = (let (r, t) = st_Size (d_S D) (sv_S s) in (r, s\<lparr>sv_S := t\<rparr>))"

text \<open>\<open>POST /policy\<close>; \<open>None\<close> is a body the decoder refuses. The manager does not change.\<close>

definition handlePolicy :: "json option \<Rightarrow> manager \<Rightarrow> string http_reply" where
  "handlePolicy body m =
     (case body of
        None \<Rightarrow> HttpError 400 ''invalid body'' None
      | Some j \<Rightarrow>
          (case json_struct [(''policy'', json_string)] j '''' of
             Inl _ \<Rightarrow> HttpError 400 ''invalid body'' None
           | Inr name \<Rightarrow>
               (case Set_policy name m of
                  Some err \<Rightarrow> HttpError 400 '''' (Some err)
                | None \<Rightarrow> HttpOk (Current m))))"

end
