(* ===== verification/Lifecycle.thy ===== *)
theory Lifecycle
  imports Go_Text
begin

text \<open>
  The vocabulary of the plugin platform (\<open>internal/plugins/types.go\<close>): the nine plugin types and
  their slots, and the lifecycle state machine an installation moves along.
\<close>

datatype plugin_type =
    TypeLLM | TypeEmbedder | TypeVectorStore | TypePersistence | TypeQueue | TypePolicy
  | TypeEmbeddingModel | TypeVectorIndex | TypeSimilarityMetric

fun type_name :: "plugin_type \<Rightarrow> string" where
  "type_name TypeLLM = ''llm''"
| "type_name TypeEmbedder = ''embedder''"
| "type_name TypeVectorStore = ''vector-store''"
| "type_name TypePersistence = ''persistence''"
| "type_name TypeQueue = ''queue''"
| "type_name TypePolicy = ''policy''"
| "type_name TypeEmbeddingModel = ''embedding-model''"
| "type_name TypeVectorIndex = ''vector-index''"
| "type_name TypeSimilarityMetric = ''similarity-metric''"

definition AllTypes :: "plugin_type list" where
  "AllTypes = [TypeLLM, TypeEmbedder, TypeVectorStore, TypePersistence, TypeQueue, TypePolicy,
     TypeEmbeddingModel, TypeVectorIndex, TypeSimilarityMetric]"

definition ParseType :: "string \<Rightarrow> plugin_type res" where
  "ParseType s =
     (case List.find (\<lambda>t. type_name t = s) AllTypes of
        Some t \<Rightarrow> Inr t
      | None \<Rightarrow> Inl (Errorf ''unknown plugin type %q (supported: %v)''
                       [AStr s, AStrs (map type_name AllTypes)]))"

definition IsPython :: "plugin_type \<Rightarrow> bool" where
  "IsPython t \<longleftrightarrow> t \<in> {TypeEmbeddingModel, TypeVectorIndex, TypeSimilarityMetric}"

fun Slot :: "plugin_type \<Rightarrow> plugin_type" where
  "Slot TypeEmbeddingModel = TypeEmbedder"
| "Slot TypeVectorIndex = TypeVectorStore"
| "Slot TypeSimilarityMetric = TypeVectorStore"
| "Slot t = t"

datatype plugin_mode = ModeEndpoint | ModeImage | ModeRepository

datatype plugin_state =
    StateDraft | StateValidating | StateTesting | StateBuilding | StateScanning | StateStarting
  | StateMigrating | StateChecking | StateActivating | StateVerified | StateActive | StateInactive
  | StateFailed | StateRollingBack | StateRolledBack

definition InProgress :: "plugin_state \<Rightarrow> bool" where
  "InProgress s \<longleftrightarrow> s \<in> {StateValidating, StateTesting, StateBuilding, StateScanning, StateStarting,
     StateMigrating, StateChecking, StateActivating, StateRollingBack}"

fun transitions :: "plugin_state \<Rightarrow> plugin_state list" where
  "transitions StateDraft = [StateValidating, StateFailed]"
| "transitions StateValidating = [StateBuilding, StateScanning, StateStarting, StateTesting, StateFailed]"
| "transitions StateBuilding = [StateScanning, StateFailed]"
| "transitions StateScanning = [StateStarting, StateFailed]"
| "transitions StateStarting = [StateTesting, StateFailed]"
| "transitions StateTesting = [StateChecking, StateFailed]"
| "transitions StateChecking = [StateVerified, StateActivating, StateMigrating, StateFailed]"
| "transitions StateVerified = [StateMigrating, StateChecking, StateActivating, StateValidating,
     StateInactive, StateFailed]"
| "transitions StateMigrating = [StateChecking, StateActivating, StateVerified, StateFailed]"
| "transitions StateActivating = [StateActive, StateVerified, StateFailed]"
| "transitions StateActive = [StateInactive, StateRollingBack, StateActive]"
| "transitions StateInactive = [StateValidating, StateChecking, StateMigrating, StateActivating,
     StateFailed, StateVerified]"
| "transitions StateFailed = [StateValidating, StateChecking, StateMigrating, StateActivating,
     StateInactive, StateVerified, StateFailed]"
| "transitions StateRollingBack = [StateRolledBack, StateActive, StateFailed]"
| "transitions StateRolledBack = [StateValidating, StateChecking, StateMigrating, StateActivating,
     StateInactive, StateVerified]"

definition ValidTransition :: "plugin_state \<Rightarrow> plugin_state \<Rightarrow> bool" where
  "ValidTransition a b \<longleftrightarrow> a = b \<and> InProgress a \<or> list_ex (\<lambda>t. t = b) (transitions a)"

section \<open>Histories\<close>

text \<open>A history lists the states an installation went through, oldest first.\<close>

inductive moves :: "plugin_state \<Rightarrow> plugin_state list \<Rightarrow> plugin_state \<Rightarrow> bool" where
  moves_none: "moves s [] s"
| moves_step: "ValidTransition s t \<Longrightarrow> moves t ts u \<Longrightarrow> moves s (t # ts) u"

inductive_cases moves_Cons: "moves s (t # ts) u"
inductive_cases moves_Nil: "moves s [] u"

lemma ParseType_name: "ParseType (type_name t) = Inr t"
  by (cases t) (simp_all add: ParseType_def AllTypes_def)

lemma ParseType_Inr: "ParseType s = Inr t \<longleftrightarrow> s = type_name t"
proof
  assume "ParseType s = Inr t"
  then have "List.find (\<lambda>t. type_name t = s) AllTypes = Some t"
    by (simp add: ParseType_def split: option.splits)
  then show "s = type_name t" by (auto simp: find_Some_iff)
qed (simp add: ParseType_name)

text \<open>Only activation and an undone rollback lead to \<open>active\<close> from elsewhere.\<close>

lemma into_active:
  "ValidTransition s StateActive \<longleftrightarrow> s \<in> {StateActivating, StateActive, StateRollingBack}"
  by (cases s) (simp_all add: ValidTransition_def InProgress_def)

lemma into_rolling_back:
  "ValidTransition s StateRollingBack \<longleftrightarrow> s \<in> {StateActive, StateRollingBack}"
  by (cases s) (simp_all add: ValidTransition_def InProgress_def)

lemma active_passed_activation:
  assumes "moves s ts u" and "s \<notin> {StateActive, StateRollingBack, StateActivating}"
    and "u \<in> {StateActive, StateRollingBack}"
  shows "StateActivating \<in> set ts"
  using assms
proof (induction rule: moves.induct)
  case (moves_step s t ts u)
  show ?case
  proof (cases "t \<in> {StateActive, StateRollingBack}")
    case True
    then show ?thesis using moves_step.hyps(1) moves_step.prems(1)
      by (auto simp: into_active into_rolling_back)
  next
    case False
    with moves_step show ?thesis by (cases "t = StateActivating") auto
  qed
qed simp

text \<open>Activation is entered only from a state that follows checks, or again after a failure.\<close>

lemma before_activation:
  "ValidTransition s StateActivating \<longleftrightarrow>
     s \<in> {StateChecking, StateVerified, StateMigrating, StateInactive, StateFailed, StateRolledBack, StateActivating}"
  by (cases s) (simp_all add: ValidTransition_def InProgress_def)

text \<open>A new installation becomes active only by way of activation: every lifecycle history from a draft to
  \<open>active\<close>, however long, contains the state \<open>activating\<close>.\<close>

theorem active_only_through_activation:
  assumes "moves StateDraft ts StateActive"
  shows "StateActivating \<in> set ts"
  by (rule active_passed_activation [OF assms]) simp_all

lemma active_only_through_activation_witness:
  "StateActivating \<in> set [StateValidating, StateTesting, StateChecking, StateVerified, StateActivating, StateActive]"
  by (rule active_only_through_activation)
    (intro moves.intros; simp add: ValidTransition_def InProgress_def)

text \<open>Plugin types are read back from their names, and nothing else is a plugin type; the slot of a type is
  never one of the three Python types.\<close>

theorem plugin_type_names:
  "(ParseType s = Inr t \<longleftrightarrow> s = type_name t) \<and> \<not> IsPython (Slot t) \<and> Slot (Slot t) = Slot t"
  by (cases t) (simp_all add: ParseType_Inr IsPython_def)

end
