(* ===== verification/Slots.thy ===== *)
theory Slots
  imports Orchestrator Http_Adapters Lifecycle
begin

text \<open>
  The swappable adapters (\<open>internal/plugins/dynamic/dynamic.go\<close>, \<open>internal/plugins/manager/slots.go\<close>).
  A Go implementation is an \<open>adapter\<close>: its identity, one field per interface it may implement, and its
  optional methods. A slot holds an adapter together with the methods of the slot's interface, as the
  interface value in the source does; \<open>deps_of\<close> is what the orchestrator then runs on, so a swap changes
  every later call and none that has loaded its implementation before.
\<close>

record ('v, 's, 'p, 'e) adapter =
  ad_ref :: nat
  ad_llm :: "'e llm_ops option"
  ad_embed :: "'e embed_ops option"
  ad_model :: "('e \<Rightarrow> ModelInfo res \<times> 'e) option"
  ad_vector :: "'v vector_ops option"
  ad_info :: "('v \<Rightarrow> vs_info res \<times> 'v) option"
  ad_store :: "'s store_ops option"
  ad_detailed :: "(string \<Rightarrow> 's \<Rightarrow> Entry res \<times> 's) option"
  ad_queue :: "'e queue_ops option"
  ad_policy :: "'p policy_ops option"
  ad_health :: "(('v, 's, 'p, 'e) service \<Rightarrow> goerr option \<times> ('v, 's, 'p, 'e) service) option"
  ad_close :: "(('v, 's, 'p, 'e) service \<Rightarrow> ('v, 's, 'p, 'e) service) option"

definition ErrUnsupportedOp :: goerr where "ErrUnsupportedOp = Sentinel ''dynamic.ErrUnsupported''"

definition Close :: "('v, 's, 'p, 'e) adapter \<Rightarrow> ('v, 's, 'p, 'e) service \<Rightarrow> ('v, 's, 'p, 'e) service" where
  "Close a s = (case ad_close a of Some f \<Rightarrow> f s | None \<Rightarrow> s)"

record ('v, 's, 'p, 'e) slots =
  sl_LLM :: "('v, 's, 'p, 'e) adapter \<times> 'e llm_ops"
  sl_Embedder :: "('v, 's, 'p, 'e) adapter \<times> 'e embed_ops"
  sl_VectorStore :: "('v, 's, 'p, 'e) adapter \<times> 'v vector_ops"
  sl_Store :: "('v, 's, 'p, 'e) adapter \<times> 's store_ops"
  sl_Queue :: "('v, 's, 'p, 'e) adapter \<times> 'e queue_ops"
  sl_Policy :: "('v, 's, 'p, 'e) adapter \<times> 'p policy_ops"
  sl_baseline :: "plugin_type \<Rightarrow> ('v, 's, 'p, 'e) adapter option"

definition slotTypes :: "plugin_type list" where
  "slotTypes = [TypeLLM, TypeEmbedder, TypeVectorStore, TypePersistence, TypeQueue, TypePolicy]"

definition NewSlots ::
    "('v, 's, 'p, 'e) adapter \<times> 'e llm_ops \<Rightarrow> ('v, 's, 'p, 'e) adapter \<times> 'e embed_ops \<Rightarrow>
     ('v, 's, 'p, 'e) adapter \<times> 'v vector_ops \<Rightarrow> ('v, 's, 'p, 'e) adapter \<times> 's store_ops \<Rightarrow>
     ('v, 's, 'p, 'e) adapter \<times> 'e queue_ops \<Rightarrow> ('v, 's, 'p, 'e) adapter \<times> 'p policy_ops \<Rightarrow>
     ('v, 's, 'p, 'e) slots" where
  "NewSlots l e v s q p =
     \<lparr>sl_LLM = l, sl_Embedder = e, sl_VectorStore = v, sl_Store = s, sl_Queue = q, sl_Policy = p,
      sl_baseline = map_of [(TypeLLM, fst l), (TypeEmbedder, fst e), (TypeVectorStore, fst v),
        (TypePersistence, fst s), (TypeQueue, fst q), (TypePolicy, fst p)]\<rparr>"

definition slot_builtin :: "('v, 's, 'p, 'e) slots \<Rightarrow> plugin_type \<Rightarrow> ('v, 's, 'p, 'e) adapter option" where
  "slot_builtin sl t = sl_baseline sl t"

fun slot_current :: "('v, 's, 'p, 'e) slots \<Rightarrow> plugin_type \<Rightarrow> ('v, 's, 'p, 'e) adapter option" where
  "slot_current sl TypeLLM = Some (fst (sl_LLM sl))"
| "slot_current sl TypeEmbedder = Some (fst (sl_Embedder sl))"
| "slot_current sl TypeVectorStore = Some (fst (sl_VectorStore sl))"
| "slot_current sl TypePersistence = Some (fst (sl_Store sl))"
| "slot_current sl TypeQueue = Some (fst (sl_Queue sl))"
| "slot_current sl TypePolicy = Some (fst (sl_Policy sl))"
| "slot_current sl _ = None"

definition swap_error :: "plugin_type \<Rightarrow> goerr" where
  "swap_error t = Errorf ''adapter %T does not implement the %s contract'' [AStr (type_name t)]"

text \<open>\<open>swap\<close> returns what the slot held.\<close>

fun slot_swap ::
    "plugin_type \<Rightarrow> ('v, 's, 'p, 'e) adapter \<Rightarrow> ('v, 's, 'p, 'e) slots \<Rightarrow>
     ('v, 's, 'p, 'e) adapter res \<times> ('v, 's, 'p, 'e) slots" where
  "slot_swap TypeLLM a sl =
     (case ad_llm a of Some f \<Rightarrow> (Inr (fst (sl_LLM sl)), sl\<lparr>sl_LLM := (a, f)\<rparr>)
      | None \<Rightarrow> (Inl (swap_error TypeLLM), sl))"
| "slot_swap TypeEmbedder a sl =
     (case ad_embed a of Some f \<Rightarrow> (Inr (fst (sl_Embedder sl)), sl\<lparr>sl_Embedder := (a, f)\<rparr>)
      | None \<Rightarrow> (Inl (swap_error TypeEmbedder), sl))"
| "slot_swap TypeVectorStore a sl =
     (case ad_vector a of Some f \<Rightarrow> (Inr (fst (sl_VectorStore sl)), sl\<lparr>sl_VectorStore := (a, f)\<rparr>)
      | None \<Rightarrow> (Inl (swap_error TypeVectorStore), sl))"
| "slot_swap TypePersistence a sl =
     (case ad_store a of Some f \<Rightarrow> (Inr (fst (sl_Store sl)), sl\<lparr>sl_Store := (a, f)\<rparr>)
      | None \<Rightarrow> (Inl (swap_error TypePersistence), sl))"
| "slot_swap TypeQueue a sl =
     (case ad_queue a of Some f \<Rightarrow> (Inr (fst (sl_Queue sl)), sl\<lparr>sl_Queue := (a, f)\<rparr>)
      | None \<Rightarrow> (Inl (swap_error TypeQueue), sl))"
| "slot_swap TypePolicy a sl =
     (case ad_policy a of Some f \<Rightarrow> (Inr (fst (sl_Policy sl)), sl\<lparr>sl_Policy := (a, f)\<rparr>)
      | None \<Rightarrow> (Inl (swap_error TypePolicy), sl))"
| "slot_swap _ a sl = (Inl (Errorf ''unknown slot'' []), sl)"

definition stateBearing :: "plugin_type \<Rightarrow> bool" where
  "stateBearing t \<longleftrightarrow> t \<in> {TypeEmbedder, TypeVectorStore, TypePersistence}"

section \<open>The orchestrator's view\<close>

text \<open>The wrappers: every method loads the current implementation and calls it.\<close>

definition dyn_LLM :: "('v, 's, 'p, 'e) adapter \<times> 'e llm_ops \<Rightarrow> 'e llm_ops" where
  "dyn_LLM h = \<lparr>lm_Complete = (\<lambda>prompt. lm_Complete (snd h) prompt)\<rparr>"

definition dyn_Embedder :: "('v, 's, 'p, 'e) adapter \<times> 'e embed_ops \<Rightarrow> 'e embed_ops" where
  "dyn_Embedder h = \<lparr>em_Embed = (\<lambda>text. em_Embed (snd h) text), em_Health = em_Health (snd h)\<rparr>"

definition dyn_VectorStore :: "('v, 's, 'p, 'e) adapter \<times> 'v vector_ops \<Rightarrow> 'v vector_ops" where
  "dyn_VectorStore h =
     \<lparr>vs_Search = (\<lambda>v k th. vs_Search (snd h) v k th), vs_Upsert = (\<lambda>v. vs_Upsert (snd h) v),
      vs_Delete = (\<lambda>k. vs_Delete (snd h) k), vs_Size = vs_Size (snd h), vs_Flush = vs_Flush (snd h),
      vs_Rebuild = (\<lambda>es. vs_Rebuild (snd h) es), vs_Health = vs_Health (snd h)\<rparr>"

definition dyn_Store :: "('v, 's, 'p, 'e) adapter \<times> 's store_ops \<Rightarrow> 's store_ops" where
  "dyn_Store h =
     \<lparr>st_Save = (\<lambda>e. st_Save (snd h) e), st_Load = (\<lambda>k. st_Load (snd h) k), st_List = st_List (snd h),
      st_Size = st_Size (snd h), st_Delete = (\<lambda>k. st_Delete (snd h) k), st_Flush = st_Flush (snd h),
      st_Health = st_Health (snd h)\<rparr>"

lemma dyn_transparent [simp]:
  "dyn_LLM h1 = snd h1" "dyn_Embedder h2 = snd h2" "dyn_VectorStore h3 = snd h3" "dyn_Store h4 = snd h4"
  by (simp_all add: dyn_LLM_def dyn_Embedder_def dyn_VectorStore_def dyn_Store_def)

definition deps_of ::
    "config \<Rightarrow> ('e \<Rightarrow> int \<times> 'e) \<Rightarrow> ('v, 's, 'p, 'e) slots \<Rightarrow> ('v, 's, 'p, 'e) deps" where
  "deps_of cfg clock sl =
     \<lparr>d_cfg = cfg, d_V = dyn_VectorStore (sl_VectorStore sl), d_S = dyn_Store (sl_Store sl), d_P = snd (sl_Policy sl),
      d_E = dyn_Embedder (sl_Embedder sl), d_L = dyn_LLM (sl_LLM sl), d_Q = snd (sl_Queue sl), d_now = clock\<rparr>"

text \<open>Running an operation of one port on the service.\<close>

definition on_V :: "('v \<Rightarrow> 'a \<times> 'v) \<Rightarrow> ('v, 's, 'p, 'e) service \<Rightarrow> 'a \<times> ('v, 's, 'p, 'e) service" where
  "on_V f s = (case f (sv_V s) of (x, v) \<Rightarrow> (x, s\<lparr>sv_V := v\<rparr>))"

definition on_S :: "('s \<Rightarrow> 'a \<times> 's) \<Rightarrow> ('v, 's, 'p, 'e) service \<Rightarrow> 'a \<times> ('v, 's, 'p, 'e) service" where
  "on_S f s = (case f (sv_S s) of (x, t) \<Rightarrow> (x, s\<lparr>sv_S := t\<rparr>))"

definition on_P :: "('p \<Rightarrow> 'a \<times> 'p) \<Rightarrow> ('v, 's, 'p, 'e) service \<Rightarrow> 'a \<times> ('v, 's, 'p, 'e) service" where
  "on_P f s = (case f (sv_P s) of (x, p) \<Rightarrow> (x, s\<lparr>sv_P := p\<rparr>))"

definition on_E :: "('e \<Rightarrow> 'a \<times> 'e) \<Rightarrow> ('v, 's, 'p, 'e) service \<Rightarrow> 'a \<times> ('v, 's, 'p, 'e) service" where
  "on_E f s = (case f (sv_E s) of (x, e) \<Rightarrow> (x, s\<lparr>sv_E := e\<rparr>))"

section \<open>Optional operations of the active implementation\<close>

definition dyn_ModelInfo :: "('v, 's, 'p, 'e) slots \<Rightarrow> 'e \<Rightarrow> ModelInfo res \<times> 'e" where
  "dyn_ModelInfo sl e = (case ad_model (fst (sl_Embedder sl)) of Some f \<Rightarrow> f e | None \<Rightarrow> (Inl ErrUnsupportedOp, e))"

definition dyn_Info :: "('v, 's, 'p, 'e) slots \<Rightarrow> 'v \<Rightarrow> vs_info res \<times> 'v" where
  "dyn_Info sl v = (case ad_info (fst (sl_VectorStore sl)) of Some f \<Rightarrow> f v | None \<Rightarrow> (Inl ErrUnsupportedOp, v))"

text \<open>\<open>LoadDetailed\<close> of an implementation that only has \<open>Load\<close> cannot tell a missing entry from an error.\<close>

definition dyn_LoadDetailed :: "('v, 's, 'p, 'e) adapter \<times> 's store_ops \<Rightarrow> string \<Rightarrow> 's \<Rightarrow> Entry res \<times> 's" where
  "dyn_LoadDetailed a k t =
     (case ad_detailed (fst a) of
        Some f \<Rightarrow> f k t
      | None \<Rightarrow> (case st_Load (snd a) k t of (Some e, u) \<Rightarrow> (Inr e, u) | (None, u) \<Rightarrow> (Inl Persistence.ErrNotFound, u)))"

definition dyn_LLM_Health ::
    "('v, 's, 'p, 'e) slots \<Rightarrow> ('v, 's, 'p, 'e) service \<Rightarrow> goerr option \<times> ('v, 's, 'p, 'e) service" where
  "dyn_LLM_Health sl s = (case ad_health (fst (sl_LLM sl)) of Some f \<Rightarrow> f s | None \<Rightarrow> (None, s))"

text \<open>\<open>probeHealth\<close>: an implementation without a probe counts as healthy.\<close>

definition probeHealth ::
    "('v, 's, 'p, 'e) adapter \<Rightarrow> ('v, 's, 'p, 'e) service \<Rightarrow> goerr option \<times> ('v, 's, 'p, 'e) service" where
  "probeHealth a s = (case ad_health a of Some f \<Rightarrow> f s | None \<Rightarrow> (None, s))"

section \<open>Facts\<close>

definition slot_implements :: "plugin_type \<Rightarrow> ('v, 's, 'p, 'e) adapter \<Rightarrow> bool" where
  "slot_implements t a =
     (case t of TypeLLM \<Rightarrow> ad_llm a \<noteq> None | TypeEmbedder \<Rightarrow> ad_embed a \<noteq> None
      | TypeVectorStore \<Rightarrow> ad_vector a \<noteq> None | TypePersistence \<Rightarrow> ad_store a \<noteq> None
      | TypeQueue \<Rightarrow> ad_queue a \<noteq> None | TypePolicy \<Rightarrow> ad_policy a \<noteq> None | _ \<Rightarrow> False)"

text \<open>In a well-formed set of slots the methods of a slot are those of its adapter.\<close>

definition slots_ok :: "('v, 's, 'p, 'e) slots \<Rightarrow> bool" where
  "slots_ok sl \<longleftrightarrow>
     ad_llm (fst (sl_LLM sl)) = Some (snd (sl_LLM sl)) \<and> ad_embed (fst (sl_Embedder sl)) = Some (snd (sl_Embedder sl)) \<and>
     ad_vector (fst (sl_VectorStore sl)) = Some (snd (sl_VectorStore sl)) \<and>
     ad_store (fst (sl_Store sl)) = Some (snd (sl_Store sl)) \<and> ad_queue (fst (sl_Queue sl)) = Some (snd (sl_Queue sl)) \<and>
     ad_policy (fst (sl_Policy sl)) = Some (snd (sl_Policy sl))"

lemma swap_iff: "(\<exists>old t. slot_swap ty a sl = (Inr old, t)) \<longleftrightarrow> slot_implements ty a"
  by (cases ty) (auto simp: slot_implements_def split: option.splits)

lemma swap_err: "slot_swap ty a sl = (Inl e, t) \<Longrightarrow> t = sl"
  by (cases ty) (auto split: option.splits)

lemma swap_ok:
  assumes "slot_swap ty a sl = (Inr old, t)"
  shows "slot_current sl ty = Some old" and "slot_current t ty = Some a"
    and "ty' \<noteq> ty \<Longrightarrow> slot_current t ty' = slot_current sl ty'"
    and "sl_baseline t = sl_baseline sl" and "slots_ok sl \<Longrightarrow> slots_ok t"
    and "slots_ok sl \<Longrightarrow> slot_implements ty old"
  using assms by (cases ty; cases ty'; auto simp: slots_ok_def slot_implements_def split: option.splits)+

text \<open>Swapping back restores every slot: the switch can be undone.\<close>

lemma swap_back:
  assumes "slots_ok sl" and "slot_swap ty a sl = (Inr old, t)"
  shows "slot_swap ty old t = (Inr a, sl)"
  using assms by (cases ty) (auto simp: slots_ok_def split: option.splits)

end
