(* ===== verification/Go_Regexp.thy ===== *)
theory Go_Regexp
  imports Go_Text
begin

text \<open>
  Regular expressions as the program uses them (package \<open>regexp\<close>): character classes, sequence,
  choice, repetition with and without bounds, on byte strings. Matching goes by derivatives and is
  executable; \<open>rx_lang\<close> is the set of strings an expression describes and \<open>rx_match_iff\<close> says that
  matching decides it. \<open>rx_match\<close> is a pattern between \<open>^\<close> and \<open>$\<close>, \<open>rx_find\<close> one without them.
\<close>

datatype rx =
    RNone
  | REps
  | RSet "char \<Rightarrow> bool"
  | RSeq rx rx
  | RAlt rx rx
  | RStar rx

inductive rx_lang :: "rx \<Rightarrow> string \<Rightarrow> bool" where
  lang_eps: "rx_lang REps []"
| lang_set: "p c \<Longrightarrow> rx_lang (RSet p) [c]"
| lang_seq: "rx_lang r s \<Longrightarrow> rx_lang q t \<Longrightarrow> rx_lang (RSeq r q) (s @ t)"
| lang_left: "rx_lang r s \<Longrightarrow> rx_lang (RAlt r q) s"
| lang_right: "rx_lang q s \<Longrightarrow> rx_lang (RAlt r q) s"
| lang_stop: "rx_lang (RStar r) []"
| lang_more: "rx_lang r s \<Longrightarrow> rx_lang (RStar r) t \<Longrightarrow> rx_lang (RStar r) (s @ t)"

inductive_simps lang_RNone [simp]: "rx_lang RNone s"
inductive_simps lang_REps [simp]: "rx_lang REps s"
inductive_simps lang_RSet: "rx_lang (RSet p) s"
inductive_simps lang_RSeq: "rx_lang (RSeq r q) s"
inductive_simps lang_RAlt [simp]: "rx_lang (RAlt r q) s"
inductive_cases lang_RStarE: "rx_lang (RStar r) s"

section \<open>Matching\<close>

fun rx_nullable :: "rx \<Rightarrow> bool" where
  "rx_nullable RNone = False"
| "rx_nullable REps = True"
| "rx_nullable (RSet p) = False"
| "rx_nullable (RSeq r q) = (rx_nullable r \<and> rx_nullable q)"
| "rx_nullable (RAlt r q) = (rx_nullable r \<or> rx_nullable q)"
| "rx_nullable (RStar r) = True"

text \<open>Sequence and choice that drop what cannot match.\<close>

fun rx_seq :: "rx \<Rightarrow> rx \<Rightarrow> rx" where
  "rx_seq RNone q = RNone"
| "rx_seq REps q = q"
| "rx_seq r q = RSeq r q"

fun rx_alt :: "rx \<Rightarrow> rx \<Rightarrow> rx" where
  "rx_alt RNone q = q"
| "rx_alt r RNone = r"
| "rx_alt r q = RAlt r q"

fun rx_deriv :: "char \<Rightarrow> rx \<Rightarrow> rx" where
  "rx_deriv c RNone = RNone"
| "rx_deriv c REps = RNone"
| "rx_deriv c (RSet p) = (if p c then REps else RNone)"
| "rx_deriv c (RSeq r q) =
     (if rx_nullable r then rx_alt (rx_seq (rx_deriv c r) q) (rx_deriv c q) else rx_seq (rx_deriv c r) q)"
| "rx_deriv c (RAlt r q) = rx_alt (rx_deriv c r) (rx_deriv c q)"
| "rx_deriv c (RStar r) = rx_seq (rx_deriv c r) (RStar r)"

fun rx_match :: "rx \<Rightarrow> string \<Rightarrow> bool" where
  "rx_match r [] = rx_nullable r"
| "rx_match r (c # s) = rx_match (rx_deriv c r) s"

text \<open>Some prefix matches; some substring matches.\<close>

fun rx_prefix :: "rx \<Rightarrow> string \<Rightarrow> bool" where
  "rx_prefix r [] = rx_nullable r"
| "rx_prefix r (c # s) = (rx_nullable r \<or> rx_prefix (rx_deriv c r) s)"

fun rx_find :: "rx \<Rightarrow> string \<Rightarrow> bool" where
  "rx_find r [] = rx_nullable r"
| "rx_find r (c # s) = (rx_prefix r (c # s) \<or> rx_find r s)"

section \<open>Pattern pieces\<close>

definition rx_char :: "char \<Rightarrow> rx" where
  "rx_char c = RSet (\<lambda>x. x = c)"

definition rx_lit :: "string \<Rightarrow> rx" where
  "rx_lit s = foldr (\<lambda>c r. RSeq (rx_char c) r) s REps"

definition rx_opt :: "rx \<Rightarrow> rx" where
  "rx_opt r = RAlt r REps"

definition rx_plus :: "rx \<Rightarrow> rx" where
  "rx_plus r = RSeq r (RStar r)"

fun rx_times :: "nat \<Rightarrow> rx \<Rightarrow> rx" where
  "rx_times 0 r = REps"
| "rx_times (Suc n) r = RSeq r (rx_times n r)"

fun rx_upto :: "nat \<Rightarrow> rx \<Rightarrow> rx" where
  "rx_upto 0 r = REps"
| "rx_upto (Suc n) r = RAlt (RSeq r (rx_upto n r)) REps"

text \<open>\<open>r{m,n}\<close> and \<open>r{m,}\<close>.\<close>

definition rx_rep :: "nat \<Rightarrow> nat \<Rightarrow> rx \<Rightarrow> rx" where
  "rx_rep m n r = RSeq (rx_times m r) (rx_upto (n - m) r)"

definition rx_atleast :: "nat \<Rightarrow> rx \<Rightarrow> rx" where
  "rx_atleast m r = RSeq (rx_times m r) (RStar r)"

definition rx_seqs :: "rx list \<Rightarrow> rx" where
  "rx_seqs rs = foldr RSeq rs REps"

definition rx_alts :: "rx list \<Rightarrow> rx" where
  "rx_alts rs = foldr RAlt rs RNone"

text \<open>Classes: a range, and the membership of a character in a list.\<close>

definition in_range :: "char \<Rightarrow> char \<Rightarrow> char \<Rightarrow> bool" where
  "in_range a b c \<longleftrightarrow> a \<le> c \<and> c \<le> b"

definition is_lower :: "char \<Rightarrow> bool" where "is_lower c = in_range (CHR ''a'') (CHR ''z'') c"
definition is_upper :: "char \<Rightarrow> bool" where "is_upper c = in_range (CHR ''A'') (CHR ''Z'') c"
definition is_alnum :: "char \<Rightarrow> bool" where "is_alnum c \<longleftrightarrow> is_alpha c \<or> is_digit c"
definition is_lower_digit :: "char \<Rightarrow> bool" where "is_lower_digit c \<longleftrightarrow> is_lower c \<or> is_digit c"

text \<open>\<open>\s\<close>.\<close>

definition rx_space_char :: "char \<Rightarrow> bool" where
  "rx_space_char c \<longleftrightarrow> c = CHR '' '' \<or> (of_char c :: nat) \<in> {9, 10, 12, 13}"

text \<open>
  A letter under \<open>(?i)\<close>: both cases, and for \<open>k\<close> and \<open>s\<close> the Unicode letters that fold to them
  (the Kelvin sign and the long s), in UTF-8.
\<close>

definition rx_fold_char :: "char \<Rightarrow> rx" where
  "rx_fold_char c =
     (let r = RSet (\<lambda>x. lower_char x = lower_char c) in
      if lower_char c = CHR ''k'' then RAlt r (rx_lit [CHR 0xE2, CHR 0x84, CHR 0xAA])
      else if lower_char c = CHR ''s'' then RAlt r (rx_lit [CHR 0xC5, CHR 0xBF])
      else r)"

definition rx_fold :: "string \<Rightarrow> rx" where
  "rx_fold s = foldr (\<lambda>c r. RSeq (rx_fold_char c) r) s REps"

section \<open>Matching decides the language\<close>

lemma lang_RSeqI: "rx_lang r s \<Longrightarrow> rx_lang q t \<Longrightarrow> u = s @ t \<Longrightarrow> rx_lang (RSeq r q) u"
  using lang_seq by blast

lemma nullable_iff: "rx_nullable r \<longleftrightarrow> rx_lang r []"
  by (induction r) (auto simp: lang_RSeq lang_RSet intro: lang_stop)

lemma lang_rx_seq [simp]: "rx_lang (rx_seq r q) s \<longleftrightarrow> rx_lang (RSeq r q) s"
  by (cases "(r, q)" rule: rx_seq.cases) (auto simp: lang_RSeq)

lemma lang_rx_alt [simp]: "rx_lang (rx_alt r q) s \<longleftrightarrow> rx_lang (RAlt r q) s"
  by (cases "(r, q)" rule: rx_alt.cases) auto

lemma lang_star_Cons:
  "rx_lang (RStar r) (c # s) \<longleftrightarrow> (\<exists>u v. s = u @ v \<and> rx_lang r (c # u) \<and> rx_lang (RStar r) v)"
proof
  show "\<exists>u v. s = u @ v \<and> rx_lang r (c # u) \<and> rx_lang (RStar r) v" if "rx_lang (RStar r) (c # s)"
    using that
  proof (induction "RStar r" "c # s" rule: rx_lang.induct)
    case (lang_more a b)
    then show ?case by (cases a) auto
  qed
qed (use lang_more in fastforce)

lemma lang_seq_Cons:
  "rx_lang (RSeq r q) (c # s) \<longleftrightarrow>
     (\<exists>u v. s = u @ v \<and> rx_lang r (c # u) \<and> rx_lang q v) \<or> rx_lang r [] \<and> rx_lang q (c # s)"
  (is "?l \<longleftrightarrow> ?r")
proof
  assume ?l
  then obtain a b where ab: "c # s = a @ b" "rx_lang r a" "rx_lang q b" by (auto simp: lang_RSeq)
  then show ?r by (cases a) auto
next
  assume ?r
  then show ?l using lang_RSeqI [of r "[]" q "c # s"] by (auto intro: lang_RSeqI)
qed

lemma deriv_iff: "rx_lang (rx_deriv c r) s \<longleftrightarrow> rx_lang r (c # s)"
proof (induction r arbitrary: s)
  case (RSeq r q)
  have "rx_lang (RSeq (rx_deriv c r) q) s \<longleftrightarrow> (\<exists>u v. s = u @ v \<and> rx_lang r (c # u) \<and> rx_lang q v)"
    using RSeq.IH(1) by (auto simp: lang_RSeq)
  then show ?case using RSeq.IH(2) by (auto simp: lang_seq_Cons nullable_iff)
next
  case (RStar r)
  then show ?case by (auto simp: lang_star_Cons lang_RSeq)
qed (auto simp: lang_RSet)

theorem rx_match_iff: "rx_match r s \<longleftrightarrow> rx_lang r s"
  by (induction s arbitrary: r) (simp_all add: nullable_iff deriv_iff)

lemma rx_prefix_iff: "rx_prefix r s \<longleftrightarrow> (\<exists>u v. s = u @ v \<and> rx_lang r u)"
proof (induction s arbitrary: r)
  case (Cons c s)
  have "(\<exists>u v. c # s = u @ v \<and> rx_lang r u) \<longleftrightarrow> rx_lang r [] \<or> (\<exists>u v. s = u @ v \<and> rx_lang r (c # u))"
    by (metis append_Cons append_Nil append_eq_Cons_conv)
  with Cons show ?case by (simp add: nullable_iff deriv_iff)
qed (simp add: nullable_iff)

theorem rx_find_iff: "rx_find r s \<longleftrightarrow> (\<exists>a u b. s = a @ u @ b \<and> rx_lang r u)"
proof (induction s)
  case (Cons c s)
  have "(\<exists>a u b. c # s = a @ u @ b \<and> rx_lang r u) \<longleftrightarrow>
      (\<exists>u b. c # s = u @ b \<and> rx_lang r u) \<or> (\<exists>a u b. s = a @ u @ b \<and> rx_lang r u)"
    by (metis append_Cons append_Nil append_eq_Cons_conv)
  with Cons show ?case by (simp add: rx_prefix_iff del: rx_prefix.simps)
qed (simp add: nullable_iff)

section \<open>What the pieces describe\<close>

lemma lang_char [simp]: "rx_lang (rx_char c) s \<longleftrightarrow> s = [c]"
  by (auto simp: rx_char_def lang_RSet)

lemma lang_lit [simp]: "rx_lang (rx_lit w) s \<longleftrightarrow> s = w"
proof (induction w arbitrary: s)
  case (Cons c w)
  then show ?case by (auto simp: rx_lit_def lang_RSeq)
qed (simp add: rx_lit_def)

lemma lang_star_set: "rx_lang (RStar (RSet p)) s \<longleftrightarrow> list_all p s"
proof (induction s)
  case (Cons c s)
  then show ?case by (auto simp: lang_star_Cons lang_RSet)
qed (simp add: lang_stop)

lemma lang_set_seq: "rx_lang (RSeq (RSet p) q) s \<longleftrightarrow> (\<exists>c t. s = c # t \<and> p c \<and> rx_lang q t)"
  by (cases s) (auto simp: lang_seq_Cons lang_RSet, auto simp: lang_RSeq lang_RSet)

lemma lang_upto_set: "rx_lang (rx_upto n (RSet p)) s \<longleftrightarrow> length s \<le> n \<and> list_all p s"
proof (induction n arbitrary: s)
  case (Suc n)
  then show ?case by (cases s) (auto simp: lang_set_seq)
qed auto

lemma lang_times_set: "rx_lang (rx_times n (RSet p)) s \<longleftrightarrow> length s = n \<and> list_all p s"
proof (induction n arbitrary: s)
  case (Suc n)
  then show ?case by (cases s) (auto simp: lang_set_seq)
qed auto

lemma lang_rep_set:
  assumes "m \<le> n"
  shows "rx_lang (rx_rep m n (RSet p)) s \<longleftrightarrow> m \<le> length s \<and> length s \<le> n \<and> list_all p s"
proof
  assume "m \<le> length s \<and> length s \<le> n \<and> list_all p s"
  then have "rx_lang (rx_times m (RSet p)) (take m s)" and "rx_lang (rx_upto (n - m) (RSet p)) (drop m s)"
    using append_take_drop_id [of m s] list_all_append [of p "take m s" "drop m s"]
    by (auto simp: lang_times_set lang_upto_set)
  then show "rx_lang (rx_rep m n (RSet p)) s" by (auto simp: rx_rep_def intro: lang_RSeqI)
qed (use assms in \<open>auto simp: rx_rep_def lang_RSeq lang_times_set lang_upto_set\<close>)

lemma lang_seqs_Cons [simp]: "rx_lang (rx_seqs (r # rs)) s \<longleftrightarrow> (\<exists>u v. s = u @ v \<and> rx_lang r u \<and> rx_lang (rx_seqs rs) v)"
  by (auto simp: rx_seqs_def lang_RSeq)

lemma lang_seqs_Nil [simp]: "rx_lang (rx_seqs []) s \<longleftrightarrow> s = []"
  by (simp add: rx_seqs_def)

lemma lang_opt [simp]: "rx_lang (rx_opt r) s \<longleftrightarrow> rx_lang r s \<or> s = []"
  by (auto simp: rx_opt_def)

end
