(* ===== verification/Go_Time.thy ===== *)
theory Go_Time
  imports Go_Float "HOL-Library.Word"
begin

text \<open>
  Durations (\<open>time.ParseDuration\<close>): nanoseconds in an \<open>int64\<close>, read from a sequence of decimal numbers
  with units. The computation is on unsigned 64-bit words like the library's, with its checks for
  overflow; the fraction of a unit goes through \<open>float64\<close>.
\<close>

definition ErrDuration :: goerr where "ErrDuration = Sentinel ''time: invalid duration''"

definition Millisecond :: int where "Millisecond = 10 ^ 6"
definition Second :: int where "Second = 10 ^ 9"
definition Minute :: int where "Minute = 60 * 10 ^ 9"

definition two63 :: "64 word" where "two63 = 0x8000000000000000"

text \<open>\<open>leadingInt\<close>: the value of the leading digits, or nothing when it exceeds \<open>2 ^ 63\<close>.\<close>

fun leadingInt :: "64 word \<Rightarrow> string \<Rightarrow> (64 word \<times> string) option" where
  "leadingInt x [] = Some (x, [])"
| "leadingInt x (c # s) =
     (if \<not> is_digit c then Some (x, c # s)
      else if two63 div 10 < x then None
      else let y = x * 10 + of_nat (digit_val c) in if two63 < y then None else leadingInt y s)"

text \<open>\<open>leadingFraction\<close>: value, scale and whether it has overflowed; the rest is then skipped.\<close>

fun leadingFraction :: "64 word \<Rightarrow> f64 \<Rightarrow> bool \<Rightarrow> string \<Rightarrow> 64 word \<times> f64 \<times> string" where
  "leadingFraction x scale ov [] = (x, scale, [])"
| "leadingFraction x scale ov (c # s) =
     (if \<not> is_digit c then (x, scale, c # s)
      else if ov \<or> (two63 - 1) div 10 < x then leadingFraction x scale True s
      else let y = x * 10 + of_nat (digit_val c) in
           if two63 < y then leadingFraction x scale True s
           else leadingFraction y (f64_mul scale (F_Num 10)) False s)"

definition unit_map :: "(string \<times> 64 word) list" where
  "unit_map =
     [(''ns'', 1), (''us'', 1000), ([CHR 0xC2, CHR 0xB5, CHR ''s''], 1000), ([CHR 0xCE, CHR 0xBC, CHR ''s''], 1000),
      (''ms'', 1000000), (''s'', 1000000000), (''m'', 60000000000), (''h'', 3600000000000)]"

text \<open>\<open>uint64(f)\<close> of a nonnegative float below \<open>2 ^ 64\<close>.\<close>

definition word_of_f64 :: "f64 \<Rightarrow> 64 word" where
  "word_of_f64 x = word_of_int \<lfloor>f64_val x\<rfloor>"

definition word_f64 :: "64 word \<Rightarrow> f64" where
  "word_f64 x = (if x = 0 then F_Zero False else f64_of_int (uint x))"

text \<open>One number with its unit: the sum so far and the text left.\<close>

definition duration_step :: "64 word \<Rightarrow> string \<Rightarrow> (64 word \<times> string) option" where
  "duration_step d s =
     (if s = [] \<or> \<not> (hd s = CHR ''.'' \<or> is_digit (hd s)) then None
      else case leadingInt 0 s of None \<Rightarrow> None | Some (v, s1) \<Rightarrow>
        (let pre = (s1 \<noteq> s);
             (f, scale, post, s2) =
               (if s1 \<noteq> [] \<and> hd s1 = CHR ''.''
                then (let (f, sc, r) = leadingFraction 0 (F_Num 1) False (tl s1) in (f, sc, r \<noteq> tl s1, r))
                else (0, F_Num 1, False, s1));
             isu = (\<lambda>c. \<not> (c = CHR ''.'' \<or> is_digit c));
             u = takeWhile isu s2; s3 = dropWhile isu s2
         in if \<not> pre \<and> \<not> post \<or> u = [] then None
            else case map_of unit_map u of None \<Rightarrow> None | Some ut \<Rightarrow>
              (if two63 div ut < v then None
               else let v1 = v * ut;
                        v2 = (if 0 < f then v1 + word_of_f64 (f64_mul (word_f64 f) (f64_div (word_f64 ut) scale)) else v1)
                    in if 0 < f \<and> two63 < v2 then None
                       else let d1 = d + v2 in if two63 < d1 then None else Some (d1, s3))))"

text \<open>All of them; every step shortens the text, so its length bounds their number.\<close>

fun duration_steps :: "nat \<Rightarrow> 64 word \<Rightarrow> string \<Rightarrow> 64 word option" where
  "duration_steps n d [] = Some d"
| "duration_steps 0 d (c # s) = None"
| "duration_steps (Suc n) d (c # s) =
     (case duration_step d (c # s) of None \<Rightarrow> None | Some (d1, s1) \<Rightarrow> duration_steps n d1 s1)"

definition ParseDuration :: "string \<Rightarrow> int res" where
  "ParseDuration s =
     (let neg = (s \<noteq> [] \<and> hd s = CHR ''-'');
          body = (if s \<noteq> [] \<and> hd s \<in> {CHR ''-'', CHR ''+''} then tl s else s)
      in if body = ''0'' then Inr 0
         else if body = [] then Inl ErrDuration
         else case duration_steps (length body) 0 body of
                None \<Rightarrow> Inl ErrDuration
              | Some d \<Rightarrow> (if neg then Inr (- uint d)
                          else if two63 - 1 < d then Inl ErrDuration else Inr (uint d)))"

section \<open>Facts\<close>

lemma leadingInt_rest: "leadingInt x s = Some (v, r) \<Longrightarrow> length r \<le> length s"
  by (induction x s rule: leadingInt.induct) (auto simp: Let_def split: if_splits)

lemma leadingFraction_rest: "leadingFraction x sc ov s = (v, sc1, r) \<Longrightarrow> length r \<le> length s"
proof (induction x sc ov s rule: leadingFraction.induct)
  case (2 x scale ov c s)
  then show ?case by (auto simp: Let_def split: if_splits intro: le_SucI)
qed simp

lemma duration_step_shorter:
  assumes "duration_step d s = Some (d1, r)"
  shows "length r < length s"
proof -
  define isu where "isu = (\<lambda>c. \<not> (c = CHR ''.'' \<or> is_digit c))"
  obtain v s1 where int: "leadingInt 0 s = Some (v, s1)"
    using assms by (auto simp: duration_step_def split: if_splits option.splits)
  define frac where "frac = (if s1 \<noteq> [] \<and> hd s1 = CHR ''.''
    then (let (f, sc, r) = leadingFraction 0 (F_Num 1) False (tl s1) in (f, sc, r \<noteq> tl s1, r))
    else (0, F_Num 1, False, s1))"
  obtain f sc post s2 where fr: "frac = (f, sc, post, s2)" by (metis prod_cases4)
  have s2: "length s2 \<le> length s1"
    using fr unfolding frac_def
    by (auto simp: Let_def split: if_splits prod.splits dest!: leadingFraction_rest)
  have "takeWhile isu s2 \<noteq> []" and r: "r = dropWhile isu s2"
    using assms fr int unfolding duration_step_def isu_def frac_def
    by (auto simp: Let_def split: if_splits option.splits)
  moreover have "length s2 = length (takeWhile isu s2) + length (dropWhile isu s2)"
    by (metis length_append takeWhile_dropWhile_id)
  ultimately have "length r < length s2" by (cases "takeWhile isu s2") auto
  with s2 leadingInt_rest [OF int] show ?thesis by linarith
qed

text \<open>The bound on the number of steps is never what ends the loop.\<close>

lemma duration_steps_enough:
  "length s \<le> n \<Longrightarrow> length s \<le> m \<Longrightarrow> duration_steps n d s = duration_steps m d s"
proof (induction n d s arbitrary: m rule: duration_steps.induct)
  case (3 n d c s)
  obtain k where k: "m = Suc k" using 3(3) by (cases m) auto
  show ?case
  proof (cases "duration_step d (c # s)")
    case (Some p)
    obtain d1 s1 where p: "p = (d1, s1)" by fastforce
    have "length s1 < length (c # s)" using duration_step_shorter Some p by blast
    then have "duration_steps n d1 s1 = duration_steps k d1 s1"
      by (intro "3.IH" [OF Some p [symmetric]]) (use 3(2,3) k in auto)
    then show ?thesis by (simp add: k Some p)
  qed (simp add: k)
qed auto

lemma duration_steps_bound: "duration_steps n d s = Some e \<Longrightarrow> d \<le> two63 \<Longrightarrow> e \<le> two63"
proof (induction n d s rule: duration_steps.induct)
  case (3 n d c s)
  obtain d1 s1 where step: "duration_step d (c # s) = Some (d1, s1)"
    using 3(2) by (auto split: option.splits)
  have "d1 \<le> two63"
    using step unfolding duration_step_def by (auto simp: Let_def not_less split: if_splits option.splits prod.splits)
  then show ?case using "3.IH" [OF step refl] 3(2) step by auto
qed auto

lemma ParseDuration_range:
  assumes "ParseDuration s = Inr d"
  shows "- (2 ^ 63) \<le> d \<and> d < 2 ^ 63"
proof -
  define body where "body = (if s \<noteq> [] \<and> hd s \<in> {CHR ''-'', CHR ''+''} then tl s else s)"
  show ?thesis
  proof (cases "duration_steps (length body) 0 body")
    case None
    then show ?thesis using assms unfolding ParseDuration_def body_def [symmetric] Let_def by (auto split: if_splits)
  next
    case (Some e)
    have "e \<le> two63" using duration_steps_bound [OF Some] by simp
    then have le: "uint e \<le> 2 ^ 63" by (simp add: two63_def word_le_def)
    have small: "uint e < 2 ^ 63" if "\<not> two63 - 1 < e"
      using that by (simp add: two63_def word_less_def not_less)
    have "d = 0 \<or> d = - uint e \<or> d = uint e \<and> \<not> two63 - 1 < e"
      using assms Some unfolding ParseDuration_def body_def [symmetric] Let_def
      by (auto split: if_splits)
    then consider "d = 0" | "d = - uint e" | "d = uint e" "uint e < 2 ^ 63" using small by blast
    then show ?thesis
    proof cases
      case 2
      moreover have "- (2 ^ 63) \<le> - uint e" using le by (rule le_imp_neg_le)
      moreover have "- uint e < 2 ^ 63"
        by (rule order.strict_trans1 [of _ 0]) (use uint_nonnegative [of e] in simp_all)
      ultimately show ?thesis by blast
    next
      case 3
      moreover have "- (2 ^ 63) \<le> uint e" using uint_nonnegative [of e] by (rule order.trans [rotated]) simp
      ultimately show ?thesis by blast
    qed simp
  qed
qed

end
