(* ===== verification/Manifest.thy ===== *)
theory Manifest
  imports Go_Regexp Go_Time Lifecycle
begin

text \<open>
  The plugin manifest (\<open>internal/plugins/manifest/manifest.go\<close>): its data, the scan for keys that would
  widen a container's privileges, defaults, validation, configuration values, secrets and resource
  quantities. The YAML library (\<open>gopkg.in/yaml.v3\<close>, not part of the repository) is a parameter, the
  record \<open>yaml_lib\<close>: the generic tree of a document, the decoding into the manifest's structs with
  unknown fields refused, and whether a second document follows.
\<close>

section \<open>Data\<close>

definition APIVersion :: string where "APIVersion = ''llmcache.dev/v1alpha1''"
definition Kind :: string where "Kind = ''Plugin''"
definition ContractVersion :: string where "ContractVersion = ''v1''"
definition MaxBytes :: nat where "MaxBytes = 65536"

definition RuntimeContainer :: string where "RuntimeContainer = ''container''"
definition RuntimePython :: string where "RuntimePython = ''python''"
definition RuntimeEndpoint :: string where "RuntimeEndpoint = ''endpoint''"
definition EgressNone :: string where "EgressNone = ''none''"
definition EgressInternet :: string where "EgressInternet = ''internet''"

definition MaxCPU :: f64 where "MaxCPU = F_Num 4"
definition MaxMemory :: int where "MaxMemory = 4 * 2 ^ 30"
definition MaxPIDs :: int where "MaxPIDs = 1024"
definition MaxTmpfs :: int where "MaxTmpfs = 2 ^ 30"
definition DefaultPort :: int where "DefaultPort = 8080"
definition DefaultHealth :: string where "DefaultHealth = ''/health''"

text \<open>A value of type \<open>any\<close>, as YAML, JSON or the code itself makes them; \<open>nil\<close> is \<open>VNil\<close>.\<close>

datatype anyval =
    VNil
  | VStr string
  | VInt int              \<comment> \<open>\<open>int\<close>, \<open>int64\<close>\<close>
  | VFloat f64
  | VBool bool
  | VList "anyval list"
  | VMap "(string \<times> anyval) list"

record property =
  pr_Type :: string
  pr_Required :: bool
  pr_Default :: anyval
  pr_Description :: string
  pr_Enum :: "string list"
  pr_Min :: "f64 option"
  pr_Max :: "f64 option"

record secret_ref =
  sr_Name :: string
  sr_Required :: bool
  sr_Description :: string

record python_spec =
  py_Module :: string
  py_Path :: string
  py_Backend :: string
  py_Requirements :: string

text \<open>\<open>Manifest\<close> with its nested structs flattened, one field per field of the source.\<close>

record manifest =
  mf_APIVersion :: string
  mf_Kind :: string
  mf_Name :: string
  mf_Version :: string
  mf_Description :: string
  mf_Type :: string
  mf_Contract :: string
  mf_Mode :: string
  mf_Dockerfile :: string
  mf_Context :: string
  mf_Port :: int
  mf_Python :: "python_spec option"
  mf_HealthPath :: string
  mf_HealthTimeout :: string
  mf_Properties :: "(string, property) gomap"
  mf_Secrets :: "secret_ref list"
  mf_CPU :: string
  mf_Memory :: string
  mf_PIDs :: int
  mf_Tmpfs :: string
  mf_Egress :: string
  mf_VectorDim :: int

record issue =
  is_Path :: string
  is_Message :: "string \<times> earg list"   \<comment> \<open>format and arguments\<close>

definition issue_at :: "string \<Rightarrow> string \<Rightarrow> earg list \<Rightarrow> issue" where
  "issue_at p f as = \<lparr>is_Path = p, is_Message = (f, as)\<rparr>"

text \<open>\<open>add\<close> under a condition.\<close>

definition issue_if :: "bool \<Rightarrow> string \<Rightarrow> string \<Rightarrow> earg list \<Rightarrow> issue list" where
  "issue_if b p f as = (if b then [issue_at p f as] else [])"

section \<open>Patterns\<close>

definition nameRE :: rx where
  "nameRE = rx_seqs [RSet is_lower_digit,
     rx_opt (rx_seqs [rx_rep 0 61 (RSet (\<lambda>c. is_lower_digit c \<or> c = CHR ''-'')), RSet is_lower_digit])]"

definition numRE :: rx where
  "numRE = RAlt (rx_char (CHR ''0'')) (rx_seqs [RSet (in_range (CHR ''1'') (CHR ''9'')), RStar (RSet is_digit)])"

definition identsRE :: rx where
  "identsRE =
     (let ident = rx_plus (RSet (\<lambda>c. is_alnum c \<or> c = CHR ''-''))
      in rx_seqs [ident, RStar (rx_seqs [rx_char (CHR ''.''), ident])])"

definition semverRE :: rx where
  "semverRE = rx_seqs [numRE, rx_char (CHR ''.''), numRE, rx_char (CHR ''.''), numRE,
     rx_opt (rx_seqs [rx_char (CHR ''-''), identsRE]), rx_opt (rx_seqs [rx_char (CHR ''+''), identsRE])]"

definition envRE :: rx where
  "envRE = rx_seqs [RSet is_upper, rx_rep 0 63 (RSet (\<lambda>c. is_upper c \<or> is_digit c \<or> c = CHR ''_''))]"

definition propRE :: rx where
  "propRE = rx_seqs [RSet is_lower, rx_rep 0 63 (RSet (\<lambda>c. is_alnum c \<or> c = CHR ''_''))]"

definition pyModRE :: rx where
  "pyModRE = rx_seqs [RSet (\<lambda>c. is_alpha c \<or> c = CHR ''_''), rx_rep 0 63 (RSet (\<lambda>c. is_alnum c \<or> c = CHR ''_''))]"

definition backendRE :: rx where
  "backendRE = rx_seqs [RSet is_lower_digit,
     rx_rep 0 63 (RSet (\<lambda>c. is_lower_digit c \<or> c \<in> {CHR ''.'', CHR ''_'', CHR ''-''}))]"

definition reservedEnv :: "string list" where
  "reservedEnv =
     [''PATH'', ''HOME'', ''USER'', ''PORT'', ''HOSTNAME'', ''LD_PRELOAD'', ''LD_LIBRARY_PATH'', ''PYTHONPATH'',
      ''PYTHONHOME'', ''EMBEDDING_MODEL_BACKEND'', ''VECTOR_INDEX_BACKEND'', ''SIMILARITY_METRIC'', ''VECTOR_DIM'']"

definition dangerousKeys :: "(string \<times> string) list" where
  "dangerousKeys =
     [(''privileged'', ''privileged containers are not allowed''),
      (''hostnetwork'', ''host networking is not allowed''),
      (''networkmode'', ''host networking is not allowed''),
      (''hostpid'', ''the host PID namespace is not allowed''),
      (''pid'', ''the host PID namespace is not allowed''),
      (''hostipc'', ''the host IPC namespace is not allowed''),
      (''ipc'', ''the host IPC namespace is not allowed''),
      (''volumes'', ''host filesystem mounts are not allowed''),
      (''volume'', ''host filesystem mounts are not allowed''),
      (''mounts'', ''host filesystem mounts are not allowed''),
      (''hostpath'', ''host filesystem mounts are not allowed''),
      (''binds'', ''host filesystem mounts are not allowed''),
      (''devices'', ''host devices are not allowed''),
      (''dockersocket'', ''mounting the Docker socket is not allowed''),
      (''capabilities'', ''adding capabilities is not allowed (all are dropped)''),
      (''capadd'', ''adding capabilities is not allowed (all are dropped)''),
      (''capdrop'', ''capabilities are managed by the platform (all are dropped)''),
      (''securitycontext'', ''security settings are managed by the platform''),
      (''securityopt'', ''security settings are managed by the platform''),
      (''sysctls'', ''sysctls are not allowed''),
      (''user'', ''the platform always runs plugins as a non-root user''),
      (''runasuser'', ''the platform always runs plugins as a non-root user''),
      (''command'', ''custom commands are not allowed; the image entrypoint is used''),
      (''entrypoint'', ''custom entrypoints are not allowed; the image entrypoint is used''),
      (''args'', ''custom arguments are not allowed; the image entrypoint is used''),
      (''env'', ''declare configuration under spec.config and secrets under spec.secrets''),
      (''environment'', ''declare configuration under spec.config and secrets under spec.secrets''),
      (''buildargs'', ''build arguments are not allowed (secrets must never reach the build)''),
      (''allowprivilegeescalation'', ''privilege escalation is not allowed'')]"

definition secretPatterns :: "rx list" where
  "secretPatterns =
     (let w = (\<lambda>c. is_alnum c \<or> c = CHR ''_'' \<or> c = CHR ''-'') in
     [rx_seqs [rx_lit ''sk-'', rx_atleast 16 (RSet w)],
      rx_seqs [rx_lit ''AIza'', rx_atleast 20 (RSet w)],
      rx_seqs [rx_lit ''gh'', RSet (\<lambda>c. c \<in> set ''pousr''), rx_lit ''_'', rx_atleast 20 (RSet is_alnum)],
      rx_seqs [rx_lit ''github_pat_'', rx_atleast 20 (RSet (\<lambda>c. is_alnum c \<or> c = CHR ''_''))],
      rx_seqs [rx_lit ''AKIA'', rx_times 16 (RSet (\<lambda>c. is_upper c \<or> is_digit c))],
      rx_seqs [rx_lit ''xox'', RSet (\<lambda>c. c \<in> set ''baprs''), rx_lit ''-'',
        rx_atleast 10 (RSet (\<lambda>c. is_alnum c \<or> c = CHR ''-''))],
      rx_seqs [rx_lit ''-----BEGIN '', RStar (RSet (\<lambda>c. is_upper c \<or> c = CHR '' '')), rx_lit ''PRIVATE KEY-----''],
      rx_seqs [rx_fold ''bearer'', rx_plus (RSet rx_space_char),
        rx_atleast 16 (RSet (\<lambda>c. is_alnum c \<or> c \<in> set ''._~+/=-''))],
      rx_seqs [rx_lit ''://'', rx_plus (RSet (\<lambda>c. \<not> (c \<in> set ''/:@'' \<or> rx_space_char c))), rx_lit '':'',
        rx_plus (RSet (\<lambda>c. \<not> (c \<in> set ''/@'' \<or> rx_space_char c))), rx_lit ''@'']])"

definition secretNameHint :: rx where
  "secretNameHint =
     rx_alts [rx_fold ''token'', rx_fold ''secret'', rx_fold ''password'', rx_fold ''passwd'',
       rx_seqs [rx_fold ''api'', rx_opt (rx_char (CHR ''_'')), rx_fold ''key''], rx_fold ''apikey'',
       rx_fold ''credential'', rx_seqs [rx_fold ''private'', rx_opt (rx_char (CHR ''_'')), rx_fold ''key'']]"

section \<open>Keys that would widen a container's privileges\<close>

definition normKey :: "string \<Rightarrow> string" where
  "normKey k = filter (\<lambda>c. c \<noteq> CHR ''_'' \<and> c \<noteq> CHR ''-'') (to_lower k)"

definition properties_path :: string where "properties_path = ''spec.config.properties''"

definition key_path :: "string \<Rightarrow> string \<Rightarrow> string" where
  "key_path p k = (if p \<noteq> [] then p @ ''.'' @ k else k)"

definition key_issue :: "string \<Rightarrow> string \<Rightarrow> issue list" where
  "key_issue p k =
     (if p \<noteq> properties_path
      then (case map_of dangerousKeys (normKey k) of Some msg \<Rightarrow> [issue_at (key_path p k) msg []] | None \<Rightarrow> [])
      else [])"

text \<open>The keys of a map are visited in sorted order: \<open>sort_key fst\<close> on pairs with distinct keys.\<close>

fun scanDangerous :: "anyval \<Rightarrow> string \<Rightarrow> issue list" and
    scan_list :: "anyval list \<Rightarrow> nat \<Rightarrow> string \<Rightarrow> issue list" and
    scan_map :: "(string \<times> anyval) list \<Rightarrow> string \<Rightarrow> (string \<times> issue list) list" where
  "scanDangerous (VMap m) p = concat (map snd (sort_key fst (scan_map m p)))"
| "scanDangerous (VList vs) p = scan_list vs 0 p"
| "scanDangerous _ p = []"
| "scan_list [] i p = []"
| "scan_list (v # vs) i p = scanDangerous v (p @ ''['' @ nat_digits i @ '']'') @ scan_list vs (Suc i) p"
| "scan_map [] p = []"
| "scan_map ((k, v) # m) p = (k, key_issue p k @ scanDangerous v (key_path p k)) # scan_map m p"

section \<open>Defaults\<close>

definition python_type :: "string \<Rightarrow> bool" where
  "python_type s \<longleftrightarrow> (case ParseType s of Inr t \<Rightarrow> IsPython t | Inl _ \<Rightarrow> False)"

definition or_else :: "string \<Rightarrow> string \<Rightarrow> string" where
  "or_else s d = (if s = [] then d else s)"

definition applyDefaults :: "manifest \<Rightarrow> manifest" where
  "applyDefaults m =
     (let mode = or_else (mf_Mode m) (if python_type (mf_Type m) then RuntimePython else RuntimeContainer);
          cont = (mode = RuntimeContainer)
      in m\<lparr>mf_Contract := or_else (mf_Contract m) ContractVersion,
           mf_Mode := mode,
           mf_Dockerfile := (if cont then or_else (mf_Dockerfile m) ''Dockerfile'' else mf_Dockerfile m),
           mf_Context := (if cont then or_else (mf_Context m) ''.'' else mf_Context m),
           mf_Port := (if mf_Port m = 0 \<and> mode \<noteq> RuntimeEndpoint then DefaultPort else mf_Port m),
           mf_Python := map_option (\<lambda>p. p\<lparr>py_Path := or_else (py_Path p) ''.''\<rparr>) (mf_Python m),
           mf_HealthPath := or_else (mf_HealthPath m) DefaultHealth,
           mf_HealthTimeout := or_else (mf_HealthTimeout m) ''5s'',
           mf_Egress := or_else (mf_Egress m) EgressNone\<rparr>)"

section \<open>Values\<close>

text \<open>\<open>toFloat\<close>; \<open>int\<close> and \<open>int64\<close> become the nearest float.\<close>

fun toFloat :: "anyval \<Rightarrow> f64 option" where
  "toFloat (VInt i) = Some (if i = 0 then F_Zero False else f64_of_int i)"
| "toFloat (VFloat f) = Some f"
| "toFloat _ = None"

text \<open>
  \<open>int64(f)\<close> for a float in range; out of range, where Go leaves the value to the machine, it is
  the least \<open>int64\<close>, as on amd64.
\<close>

definition f64_int :: "f64 \<Rightarrow> int" where
  "f64_int f =
     (case f of
        F_NaN \<Rightarrow> int64_min
      | F_Inf _ \<Rightarrow> int64_min
      | _ \<Rightarrow> (let t = (if f64_val f < 0 then \<lceil>f64_val f\<rceil> else \<lfloor>f64_val f\<rfloor>)
             in if int64_min \<le> t \<and> t \<le> int64_max then t else int64_min))"

definition int_f64 :: "int \<Rightarrow> f64" where
  "int_f64 i = (if i = 0 then F_Zero False else f64_of_int i)"

definition inRange :: "property \<Rightarrow> f64 \<Rightarrow> goerr option" where
  "inRange prop f =
     (if (case pr_Min prop of Some lo \<Rightarrow> f64_lt f lo | None \<Rightarrow> False) then Some (Errorf ''must be at least %v'' [])
      else if (case pr_Max prop of Some hi \<Rightarrow> f64_lt hi f | None \<Rightarrow> False) then Some (Errorf ''must be at most %v'' [])
      else None)"

definition CoerceValue :: "property \<Rightarrow> anyval \<Rightarrow> anyval res" where
  "CoerceValue prop v =
     (if pr_Type prop = ''string'' then
        (case v of VStr s \<Rightarrow> if 4096 < length s then Inl (Errorf ''must be at most 4096 characters'' []) else Inr (VStr s)
         | _ \<Rightarrow> Inl (Errorf ''must be a string'' []))
      else if pr_Type prop = ''enum'' then
        (case v of VStr s \<Rightarrow> if s \<in> set (pr_Enum prop) then Inr (VStr s)
                              else Inl (Errorf ''must be one of %v'' [AStrs (pr_Enum prop)])
         | _ \<Rightarrow> Inl (Errorf ''must be a string'' []))
      else if pr_Type prop = ''boolean'' then
        (case v of VBool b \<Rightarrow> Inr (VBool b) | _ \<Rightarrow> Inl (Errorf ''must be true or false'' []))
      else if pr_Type prop = ''integer'' then
        (case toFloat v of
           None \<Rightarrow> Inl (Errorf ''must be an integer'' [])
         | Some f \<Rightarrow>
             if \<not> f64_eq f (int_f64 (f64_int f)) then Inl (Errorf ''must be an integer'' [])
             else (case inRange prop f of Some e \<Rightarrow> Inl e | None \<Rightarrow> Inr (VInt (f64_int f))))
      else if pr_Type prop = ''number'' then
        (case toFloat v of
           None \<Rightarrow> Inl (Errorf ''must be a number'' [])
         | Some f \<Rightarrow> (case inRange prop f of Some e \<Rightarrow> Inl e | None \<Rightarrow> Inr (VFloat f)))
      else if pr_Type prop = ''duration'' then
        (case v of
           VStr s \<Rightarrow> (case ParseDuration s of
                        Inl _ \<Rightarrow> Inl (Errorf ''must be a positive duration such as 30s'' [])
                      | Inr d \<Rightarrow> if d \<le> 0 then Inl (Errorf ''must be a positive duration such as 30s'' []) else Inr (VStr s))
         | _ \<Rightarrow> Inl (Errorf ''must be a duration string such as 30s'' []))
      else Inl (Errorf ''unsupported type %q'' [AStr (pr_Type prop)]))"

section \<open>Resource quantities\<close>

definition ParseCPU :: "string \<Rightarrow> f64 res" where
  "ParseCPU str =
     (let s = trim_space str in
      if s = [] then Inl (Errorf ''cpu must not be empty'' [])
      else case parse_float (trim_suffix s ''m'') of
             Inl _ \<Rightarrow> Inl (Errorf ''invalid cpu %q (use e.g. 500m or 0.5)'' [AStr s])
           | Inr f \<Rightarrow>
               if f64_le f (F_Zero False) \<or> f = F_NaN then Inl (Errorf ''invalid cpu %q (use e.g. 500m or 0.5)'' [AStr s])
               else let g = (if has_suffix s ''m'' then f64_div f (F_Num 1000) else f)
                    in if f64_lt g (f64_round (1 / 100)) then Inl (Errorf ''cpu %q is below 10m'' [AStr s]) else Inr g)"

definition size_units :: "(string \<times> int) list" where
  "size_units = [(''Ki'', 2 ^ 10), (''Mi'', 2 ^ 20), (''Gi'', 2 ^ 30), (''K'', 1000), (''M'', 1000 * 1000),
     (''G'', 1000 * 1000 * 1000)]"

text \<open>The value of an \<open>int64\<close> computation.\<close>

definition wrap64 :: "int \<Rightarrow> int" where
  "wrap64 i = (i + 2 ^ 63) mod 2 ^ 64 - 2 ^ 63"

definition ParseBytes :: "string \<Rightarrow> int res" where
  "ParseBytes str =
     (let s = trim_space str;
          (mult, num) = (case List.find (\<lambda>(u, _). has_suffix s u) size_units of
                           Some (u, m) \<Rightarrow> (m, trim_suffix s u) | None \<Rightarrow> (1, s))
      in case atoi num of
           Inl _ \<Rightarrow> Inl (Errorf ''invalid size %q (use e.g. 256Mi)'' [AStr s])
         | Inr n \<Rightarrow>
             if n \<le> 0 \<or> 2 ^ 40 < n then Inl (Errorf ''invalid size %q (use e.g. 256Mi)'' [AStr s])
             else Inr (wrap64 (n * mult)))"

section \<open>Validation\<close>

text \<open>\<open>path.Clean\<close>: the elements without \<open>.\<close> and empty ones, \<open>..\<close> taking away the one before it.\<close>

definition clean_step :: "bool \<Rightarrow> string list \<Rightarrow> string \<Rightarrow> string list" where
  "clean_step rooted acc w =
     (if w = [] \<or> w = ''.'' then acc
      else if w = ''..'' then
        (case acc of [] \<Rightarrow> if rooted then [] else [''..'']
         | a # rest \<Rightarrow> if a = ''..'' then ''..'' # acc else rest)
      else w # acc)"

definition path_clean :: "string \<Rightarrow> string" where
  "path_clean p =
     (let rooted = has_prefix p ''/'';
          ws = rev (foldl (clean_step rooted) [] (split_on (CHR ''/'') p));
          body = str_join ''/'' ws
      in if rooted then ''/'' @ body else if body = [] then ''.'' else body)"

definition checkRelPath :: "string \<Rightarrow> string \<Rightarrow> issue list" where
  "checkRelPath p s =
     (if s = [] then [issue_at p ''must not be empty'' []]
      else if 200 < length s then [issue_at p ''too long'' []]
      else if list_ex (\<lambda>c. c = CHR 0x5C \<or> (of_char c :: nat) < 32) s then [issue_at p ''contains invalid characters'' []]
      else if has_prefix s ''/'' \<or> (case s of c # d # _ \<Rightarrow> is_alpha c \<and> d = CHR '':'' | _ \<Rightarrow> False)
        then [issue_at p ''must be relative to the repository root'' []]
      else if has_prefix s ''~'' then [issue_at p ''must not start with ~'' []]
      else let clean = path_clean s in
           issue_if (clean = ''..'' \<or> has_prefix clean ''../'' \<or> str_contains s ''..'')
             p ''must stay inside the repository (no ..)'' [])"

definition checkProperty :: "string \<Rightarrow> property \<Rightarrow> issue list" where
  "checkProperty p prop =
     (if pr_Type prop \<in> {''string'', ''integer'', ''number'', ''boolean'', ''duration'', ''enum''}
      then issue_if (pr_Type prop = ''enum'' \<and> pr_Enum prop = []) p ''enum properties need a non-empty enum list'' [] @
           issue_if (pr_Type prop \<noteq> ''enum'' \<and> pr_Enum prop \<noteq> []) p ''enum values are only valid for type enum'' [] @
           (if pr_Default prop \<noteq> VNil
            then issue_if (pr_Required prop) p ''a required property cannot have a default'' [] @
                 (case CoerceValue prop (pr_Default prop) of
                    Inl e \<Rightarrow> [issue_at p ''default: %v'' [AErr e]] | Inr _ \<Rightarrow> [])
            else [])
      else [issue_at p ''unsupported type %q (supported: string, integer, number, boolean, duration, enum)''
              [AStr (pr_Type prop)]])"

definition property_issues :: "string \<times> property \<Rightarrow> issue list" where
  "property_issues np =
     (let p = properties_path @ ''.'' @ fst np in
      issue_if (\<not> rx_match propRE (fst np)) p ''property names must match %s'' [] @
      issue_if (rx_find secretNameHint (fst np)) p
        ''looks like a secret; declare it under spec.secrets so it is stored encrypted'' [] @
      checkProperty p (snd np))"

definition secret_path :: "nat \<Rightarrow> string" where
  "secret_path i = ''spec.secrets['' @ nat_digits i @ '']''"

fun secret_issues :: "nat \<Rightarrow> string list \<Rightarrow> secret_ref list \<Rightarrow> issue list" where
  "secret_issues i seen [] = []"
| "secret_issues i seen (s # ss) =
     (if \<not> rx_match envRE (sr_Name s)
        then [issue_at (secret_path i @ ''.name'') ''must be an environment-variable style name such as API_TOKEN'' []]
      else if sr_Name s \<in> set reservedEnv
        then [issue_at (secret_path i @ ''.name'') ''%s is reserved by the platform'' [AStr (sr_Name s)]]
      else if sr_Name s \<in> set seen
        then [issue_at (secret_path i @ ''.name'') ''duplicate secret %s'' [AStr (sr_Name s)]]
      else []) @ secret_issues (Suc i) (sr_Name s # seen) ss"

definition health_path_bad :: "string \<Rightarrow> bool" where
  "health_path_bad hp \<longleftrightarrow> \<not> has_prefix hp ''/'' \<or> str_contains hp ''..'' \<or>
     list_ex (\<lambda>c. c \<in> set ''?# '' \<or> c = CHR 0x5C) hp \<or> str_contains hp ''//'' \<or> 200 < length hp"

definition timeout_bad :: "string \<Rightarrow> bool" where
  "timeout_bad s \<longleftrightarrow> (case ParseDuration s of Inl _ \<Rightarrow> True | Inr d \<Rightarrow> d < 100 * Millisecond \<or> Minute < d)"

definition runtime_issues :: "manifest \<Rightarrow> issue list" where
  "runtime_issues m =
     (let ty = ParseType (mf_Type m) in
      (if mf_Mode m = RuntimeContainer then
         issue_if (case ty of Inr t \<Rightarrow> IsPython t | Inl _ \<Rightarrow> False) ''spec.runtime.mode''
           ''type %s is a Python registry plugin; use mode %q'' [AStr (mf_Type m), AStr RuntimePython] @
         checkRelPath ''spec.runtime.dockerfile'' (mf_Dockerfile m) @
         checkRelPath ''spec.runtime.context'' (mf_Context m)
       else if mf_Mode m = RuntimePython then
         issue_if (case ty of Inr t \<Rightarrow> \<not> IsPython t | Inl _ \<Rightarrow> False) ''spec.runtime.mode''
           ''mode %q is only valid for embedding-model, vector-index and similarity-metric'' [AStr RuntimePython] @
         issue_if (mf_Dockerfile m \<noteq> [] \<or> mf_Context m \<noteq> []) ''spec.runtime''
           ''python plugins are built from a platform template; dockerfile/context are not allowed'' []
       else if mf_Mode m = RuntimeEndpoint then
         issue_if (mf_Dockerfile m \<noteq> [] \<or> mf_Context m \<noteq> []) ''spec.runtime''
           ''endpoint plugins have nothing to build'' []
       else [issue_at ''spec.runtime.mode'' ''unsupported mode %q (supported: container, python, endpoint)'' [AStr (mf_Mode m)]]) @
      issue_if (mf_Mode m \<noteq> RuntimeEndpoint \<and> (mf_Port m < 1024 \<or> 65535 < mf_Port m)) ''spec.runtime.port''
        ''must be between 1024 and 65535 (plugins run unprivileged)'' [])"

definition python_issues :: "manifest \<Rightarrow> issue list" where
  "python_issues m =
     (if mf_Mode m = RuntimePython then
        (case mf_Python m of
           None \<Rightarrow> [issue_at ''spec.python'' ''required for python plugins'' []]
         | Some p \<Rightarrow>
             issue_if (\<not> rx_match pyModRE (py_Module p)) ''spec.python.module'' ''must be a valid Python identifier'' [] @
             issue_if (\<not> rx_match backendRE (py_Backend p)) ''spec.python.backend''
               ''must be the lowercase name passed to @register (letters, digits, ., _, -)'' [] @
             checkRelPath ''spec.python.path'' (py_Path p) @
             (if py_Requirements p \<noteq> [] then checkRelPath ''spec.python.requirements'' (py_Requirements p) else []))
      else issue_if (mf_Python m \<noteq> None) ''spec.python'' ''only valid when runtime.mode is python'' [])"

definition size_issues :: "string \<Rightarrow> string \<Rightarrow> int \<Rightarrow> int \<Rightarrow> string \<Rightarrow> issue list" where
  "size_issues p s lo hi msg =
     (if s = [] then []
      else case ParseBytes s of
             Inl e \<Rightarrow> [issue_at p ''%v'' [AErr e]]
           | Inr b \<Rightarrow> issue_if (hi < b \<or> b < lo) p msg [])"

definition resource_issues :: "manifest \<Rightarrow> issue list" where
  "resource_issues m =
     (if mf_CPU m = [] then []
      else case ParseCPU (mf_CPU m) of
             Inl e \<Rightarrow> [issue_at ''spec.resources.cpu'' ''%v'' [AErr e]]
           | Inr c \<Rightarrow> issue_if (f64_lt MaxCPU c) ''spec.resources.cpu'' ''requests %.2f CPUs; the maximum is %.0f'' []) @
     size_issues ''spec.resources.memory'' (mf_Memory m) (16 * 2 ^ 20) MaxMemory ''must be between 16Mi and 4Gi'' @
     size_issues ''spec.resources.tmpfs'' (mf_Tmpfs m) (2 ^ 20) MaxTmpfs ''must be between 1Mi and 1Gi'' @
     issue_if (mf_PIDs m < 0 \<or> MaxPIDs < mf_PIDs m) ''spec.resources.pids'' ''must be between 0 and %d'' [AInt MaxPIDs]"

definition property_strings :: "string \<times> property \<Rightarrow> (string \<times> string) list" where
  "property_strings np =
     (let base = properties_path @ ''.'' @ fst np; p = snd np in
      (base @ ''.description'', pr_Description p) #
      (case pr_Default p of VStr s \<Rightarrow> [(base @ ''.default'', s)] | _ \<Rightarrow> []) @
      map (\<lambda>(i, e). (base @ ''.enum['' @ nat_digits i @ '']'', e)) (enumerate 0 (pr_Enum p)))"

text \<open>The strings a credential could hide in, with the place of each.\<close>

definition manifest_strings :: "manifest \<Rightarrow> (string \<times> string) list" where
  "manifest_strings m =
     (''metadata.description'', mf_Description m) # concat (map property_strings (mf_Properties m)) @
     map (\<lambda>(i, s). (secret_path i @ ''.description'', sr_Description s)) (enumerate 0 (mf_Secrets m))"

definition credential_issues :: "string \<times> string \<Rightarrow> issue list" where
  "credential_issues ps =
     issue_if (list_ex (\<lambda>r. rx_find r (snd ps)) secretPatterns) (fst ps)
       ''contains what looks like a credential; never put secret values in plugin.yaml (declare a secret name instead)'' []"

definition validate :: "manifest \<Rightarrow> issue list" where
  "validate m =
     issue_if (mf_APIVersion m \<noteq> APIVersion) ''apiVersion'' ''unsupported apiVersion %q (supported: %s)''
       [AStr (mf_APIVersion m), AStr APIVersion] @
     issue_if (mf_Kind m \<noteq> Kind) ''kind'' ''kind must be %q, got %q'' [AStr Kind, AStr (mf_Kind m)] @
     issue_if (\<not> rx_match nameRE (mf_Name m)) ''metadata.name''
       ''must be 1-63 lowercase letters, digits or -, starting and ending with an alphanumeric'' [] @
     issue_if (\<not> rx_match semverRE (mf_Version m)) ''metadata.version'' ''must be a semantic version such as 1.2.3'' [] @
     issue_if (500 < length (mf_Description m)) ''metadata.description'' ''must be at most 500 characters'' [] @
     (case ParseType (mf_Type m) of Inl e \<Rightarrow> [issue_at ''spec.type'' ''%v'' [AErr e]] | Inr _ \<Rightarrow> []) @
     issue_if (mf_Contract m \<noteq> ContractVersion) ''spec.contract.version''
       ''unsupported contract version %q (supported: %s)'' [AStr (mf_Contract m), AStr ContractVersion] @
     runtime_issues m @
     python_issues m @
     issue_if (health_path_bad (mf_HealthPath m)) ''spec.health.path''
       ''must be an absolute path such as /health without query, fragment or ..'' [] @
     issue_if (timeout_bad (mf_HealthTimeout m)) ''spec.health.timeout'' ''must be a duration between 100ms and 60s'' [] @
     issue_if (64 < length (mf_Properties m)) properties_path ''at most 64 properties'' [] @
     concat (map property_issues (mf_Properties m)) @
     issue_if (32 < length (mf_Secrets m)) ''spec.secrets'' ''at most 32 secrets'' [] @
     secret_issues 0 [] (mf_Secrets m) @
     resource_issues m @
     issue_if (mf_Egress m \<noteq> EgressNone \<and> mf_Egress m \<noteq> EgressInternet) ''spec.network.egress''
       ''must be %q (default) or %q'' [AStr EgressNone, AStr EgressInternet] @
     issue_if (mf_VectorDim m < 0 \<or> 8192 < mf_VectorDim m) ''spec.verify.vectorDim'' ''must be between 0 and 8192'' [] @
     concat (map credential_issues (manifest_strings m))"

section \<open>Reading a manifest\<close>

datatype yaml_err = YEOF | YTypes "string list" | YOther string

record yaml_lib =
  ya_generic :: "string \<Rightarrow> string + anyval"
  ya_decode :: "string \<Rightarrow> yaml_err option \<times> manifest"  \<comment> \<open>known fields only; what was decoded before an error\<close>
  ya_second :: "string \<Rightarrow> bool"                       \<comment> \<open>a second document decodes\<close>

definition firstLine :: "string \<Rightarrow> string" where
  "firstLine s = takeWhile (\<lambda>c. c \<noteq> CHR 0x0A) s"

definition manifest_Parse :: "yaml_lib \<Rightarrow> string \<Rightarrow> issue list + manifest" where
  "manifest_Parse Y text =
     (if text = [] then Inl [issue_at [] ''manifest is empty'' []]
      else if MaxBytes < length text then Inl [issue_at [] ''manifest exceeds %d bytes'' [AInt (int MaxBytes)]]
      else case ya_generic Y text of
        Inl e \<Rightarrow> Inl [issue_at [] ''not valid YAML: %s'' [AStr (firstLine e)]]
      | Inr tree \<Rightarrow>
          (let dangerous = scanDangerous tree [] in
           if dangerous \<noteq> [] then Inl dangerous
           else case ya_decode Y text of
             (Some (YTypes msgs), _) \<Rightarrow> Inl (map (\<lambda>w. issue_at [] ''invalid manifest structure: %s'' [AStr w]) msgs)
           | (Some (YOther e), _) \<Rightarrow> Inl [issue_at [] ''invalid manifest structure: %s'' [AStr (firstLine e)]]
           | (_, m) \<Rightarrow>
               if ya_second Y text then Inl [issue_at [] ''manifest must contain exactly one YAML document'' []]
               else let d = applyDefaults m; issues = validate d in
                    if issues \<noteq> [] then Inl issues else Inr d))"

definition manifest_Validate :: "manifest \<Rightarrow> issue list option" where
  "manifest_Validate m = (let issues = validate m in if issues \<noteq> [] then Some issues else None)"

section \<open>Using a manifest\<close>

definition config_value ::
    "(string, property) gomap \<Rightarrow> (string, anyval) gomap \<Rightarrow> string \<Rightarrow> goerr + anyval option" where
  "config_value props values n =
     (case gm_get props n of
        None \<Rightarrow> Inr None
      | Some prop \<Rightarrow>
          (let v = (case gm_get values n of Some v \<Rightarrow> v | None \<Rightarrow> VNil) in
           if v = VNil \<or> v = VStr [] then
             (if pr_Default prop \<noteq> VNil
              then Inr (Some (case CoerceValue prop (pr_Default prop) of Inr cv \<Rightarrow> cv | Inl _ \<Rightarrow> VNil))
              else if pr_Required prop then Inl (Errorf ''configuration %q is required'' [AStr n])
              else Inr None)
           else case CoerceValue prop v of
                  Inl e \<Rightarrow> Inl (Errorf ''configuration %q %v'' [AStr n, AErr e])
                | Inr cv \<Rightarrow> Inr (Some cv)))"

text \<open>What is given but not declared, in the order the values are visited.\<close>

definition unknown_keys :: "manifest \<Rightarrow> (string, anyval) gomap \<Rightarrow> goerr list" where
  "unknown_keys m values =
     map (\<lambda>k. Errorf ''unknown configuration key %q'' [AStr k])
       (filter (\<lambda>k. gm_get (mf_Properties m) k = None) (gm_keys values))"

fun collect_config :: "(string \<Rightarrow> goerr + anyval option) \<Rightarrow> string list \<Rightarrow> goerr list \<times> (string, anyval) gomap" where
  "collect_config f [] = ([], [])"
| "collect_config f (n # ns) =
     (case collect_config f ns of (ps, out) \<Rightarrow>
        (case f n of
           Inl e \<Rightarrow> (e # ps, out)
         | Inr None \<Rightarrow> (ps, out)
         | Inr (Some v) \<Rightarrow> (ps, (n, v) # out)))"

definition ResolveConfig :: "manifest \<Rightarrow> (string, anyval) gomap \<Rightarrow> (string, anyval) gomap res" where
  "ResolveConfig m values =
     (case collect_config (config_value (mf_Properties m) values) (sort (gm_keys (mf_Properties m))) of
        (ps, out) \<Rightarrow>
          (let problems = unknown_keys m values @ ps in
           if problems \<noteq> [] then Inl (Errorf ''%s; ...'' (map AErr problems)) else Inr out))"

text \<open>The problems are sorted by the text they print as (\<open>render\<close>).\<close>

definition CheckSecrets :: "(goerr \<Rightarrow> string) \<Rightarrow> manifest \<Rightarrow> string list \<Rightarrow> goerr option" where
  "CheckSecrets render m names =
     (let declared = map sr_Name (mf_Secrets m);
          undeclared = map (\<lambda>n. Errorf ''secret %q is not declared in the manifest'' [AStr n])
            (filter (\<lambda>n. n \<notin> set declared) names);
          missing = map (\<lambda>s. Errorf ''secret %q is required'' [AStr (sr_Name s)])
            (filter (\<lambda>s. sr_Required s \<and> sr_Name s \<notin> set names) (mf_Secrets m));
          problems = sort_key render (undeclared @ missing)
      in if problems \<noteq> [] then Some (Errorf ''%s; ...'' (map AErr problems)) else None)"

definition HealthTimeout :: "manifest \<Rightarrow> int" where
  "HealthTimeout m = (case ParseDuration (mf_HealthTimeout m) of Inr d \<Rightarrow> d | Inl _ \<Rightarrow> 5 * Second)"

record limits =
  lm_cpu :: f64
  lm_mem :: int
  lm_pids :: int
  lm_tmpfs :: int

text \<open>\<open>cpu, _ = ParseCPU(...)\<close>: an error leaves the zero value.\<close>

definition Effective :: "manifest \<Rightarrow> f64 \<Rightarrow> int \<Rightarrow> f64 \<Rightarrow> int \<Rightarrow> limits res" where
  "Effective m defCPU defMem maxCPU maxMem =
     (let cpu = (if mf_CPU m = [] then defCPU else case ParseCPU (mf_CPU m) of Inr c \<Rightarrow> c | Inl _ \<Rightarrow> F_Zero False);
          mem = (if mf_Memory m = [] then defMem else case ParseBytes (mf_Memory m) of Inr b \<Rightarrow> b | Inl _ \<Rightarrow> 0);
          pids = (if 0 < mf_PIDs m then mf_PIDs m else 128);
          tmpfs = (if mf_Tmpfs m = [] then 64 * 2 ^ 20 else case ParseBytes (mf_Tmpfs m) of Inr b \<Rightarrow> b | Inl _ \<Rightarrow> 0)
      in if f64_lt (F_Zero False) maxCPU \<and> f64_lt maxCPU cpu
           then Inl (Errorf ''plugin requests %.2f CPUs but this installation allows at most %.2f (PLUGIN_CPU_LIMIT)'' [])
         else if 0 < maxMem \<and> maxMem < mem
           then Inl (Errorf ''plugin requests %d bytes of memory but this installation allows at most %d (PLUGIN_MEMORY_LIMIT)''
                       [AInt mem, AInt maxMem])
         else Inr \<lparr>lm_cpu = cpu, lm_mem = mem, lm_pids = pids, lm_tmpfs = tmpfs\<rparr>)"

definition zero_manifest :: manifest where
  "zero_manifest =
     \<lparr>mf_APIVersion = [], mf_Kind = [], mf_Name = [], mf_Version = [], mf_Description = [], mf_Type = [],
      mf_Contract = [], mf_Mode = [], mf_Dockerfile = [], mf_Context = [], mf_Port = 0, mf_Python = None,
      mf_HealthPath = [], mf_HealthTimeout = [], mf_Properties = [], mf_Secrets = [], mf_CPU = [], mf_Memory = [],
      mf_PIDs = 0, mf_Tmpfs = [], mf_Egress = [], mf_VectorDim = 0\<rparr>"

definition llm_properties :: "(string, property) gomap" where
  "llm_properties =
     [(''model'', \<lparr>pr_Type = ''string'', pr_Required = False, pr_Default = VStr ''default'',
        pr_Description = ''model name sent in every request'', pr_Enum = [], pr_Min = None, pr_Max = None\<rparr>),
      (''request_timeout'', \<lparr>pr_Type = ''duration'', pr_Required = False, pr_Default = VStr ''60s'',
        pr_Description = ''per-request timeout'', pr_Enum = [], pr_Min = None, pr_Max = None\<rparr>)]"

definition Minimal :: "string \<Rightarrow> string \<Rightarrow> plugin_type \<Rightarrow> manifest" where
  "Minimal name version t =
     applyDefaults (zero_manifest\<lparr>mf_APIVersion := APIVersion, mf_Kind := Kind, mf_Name := name, mf_Version := version,
       mf_Type := type_name t, mf_Mode := RuntimeEndpoint,
       mf_Properties := (if t = TypeLLM then llm_properties else [])\<rparr>)"

section \<open>Facts on values\<close>

text \<open>The canonical values of a property.\<close>

definition canonical :: "property \<Rightarrow> anyval \<Rightarrow> bool" where
  "canonical prop v =
     (if pr_Type prop = ''string'' then (case v of VStr s \<Rightarrow> length s \<le> 4096 | _ \<Rightarrow> False)
      else if pr_Type prop = ''enum'' then (case v of VStr s \<Rightarrow> s \<in> set (pr_Enum prop) | _ \<Rightarrow> False)
      else if pr_Type prop = ''boolean'' then (case v of VBool _ \<Rightarrow> True | _ \<Rightarrow> False)
      else if pr_Type prop = ''integer'' then
        (case v of VInt i \<Rightarrow> int64_min \<le> i \<and> i \<le> int64_max \<and> inRange prop (int_f64 i) = None | _ \<Rightarrow> False)
      else if pr_Type prop = ''number'' then (case v of VFloat f \<Rightarrow> inRange prop f = None | _ \<Rightarrow> False)
      else if pr_Type prop = ''duration'' then
        (case v of VStr s \<Rightarrow> (case ParseDuration s of Inr d \<Rightarrow> 0 < d | Inl _ \<Rightarrow> False) | _ \<Rightarrow> False)
      else False)"

lemma f64_int_range: "int64_min \<le> f64_int f \<and> f64_int f \<le> int64_max"
  by (cases f) (auto simp: f64_int_def Let_def int64_min_def int64_max_def)

lemma f64_zero_cmp:
  "f64_lt (F_Zero True) x = f64_lt (F_Zero False) x" "f64_lt x (F_Zero True) = f64_lt x (F_Zero False)"
  "f64_lt (F_Num 0) x = f64_lt (F_Zero False) x" "f64_lt x (F_Num 0) = f64_lt x (F_Zero False)"
  by (cases x; simp)+

lemma f64_eq_Num: "f64_eq (F_Num q) y \<Longrightarrow> q \<noteq> 0 \<Longrightarrow> y = F_Num q"
  by (cases y) (auto simp: f64_eq_def)

lemma inRange_zero: "inRange prop (F_Zero n) = inRange prop (F_Zero False)" "inRange prop (F_Num 0) = inRange prop (F_Zero False)"
  by (cases n) (simp_all add: inRange_def f64_zero_cmp cong: option.case_cong)

text \<open>A float that passes the integer test is the float of its integer, up to the sign of zero.\<close>

lemma integral_same:
  assumes "f64_eq f (int_f64 (f64_int f))"
  shows "f64_int (int_f64 (f64_int f)) = f64_int f" and "inRange prop (int_f64 (f64_int f)) = inRange prop f"
    and "f64_eq (int_f64 (f64_int f)) (int_f64 (f64_int f))"
proof -
  have zero: "f64_int (F_Zero n) = 0" "f64_int (F_Num 0) = 0" for n
    by (simp_all add: f64_int_def int64_min_def int64_max_def Let_def)
  have "f64_int (int_f64 (f64_int f)) = f64_int f \<and> inRange prop (int_f64 (f64_int f)) = inRange prop f"
  proof (cases f)
    case (F_Num q)
    show ?thesis
    proof (cases "q = 0")
      case True
      then show ?thesis using F_Num zero inRange_zero(2) [of "prop"] by (simp add: int_f64_def)
    next
      case False
      then have "int_f64 (f64_int f) = f" using f64_eq_Num assms F_Num by simp
      then show ?thesis by simp
    qed
  next
    case (F_Zero n)
    then show ?thesis using zero inRange_zero(1) [of "prop" n] by (simp add: int_f64_def)
  next
    case (F_Inf n)
    have "f64_int f = int64_min" using F_Inf by (simp add: f64_int_def)
    moreover have "int_f64 int64_min = F_Num (- (2 ^ 63))" by code_simp
    ultimately show ?thesis using assms F_Inf by (cases n) (simp_all add: f64_eq_def)
  next
    case F_NaN
    then show ?thesis using assms by (simp add: f64_eq_def)
  qed
  then show "f64_int (int_f64 (f64_int f)) = f64_int f" and "inRange prop (int_f64 (f64_int f)) = inRange prop f"
    by blast+
  show "f64_eq (int_f64 (f64_int f)) (int_f64 (f64_int f))"
    using assms by (auto simp: f64_eq_def)
qed

lemma CoerceValue_canonical:
  assumes "CoerceValue prop v = Inr c"
  shows "canonical prop c" and "CoerceValue prop c = Inr c"
proof -
  have "canonical prop c \<and> CoerceValue prop c = Inr c"
  proof (cases "pr_Type prop = ''integer''")
    case True
    then obtain f where f: "toFloat v = Some f" "f64_eq f (int_f64 (f64_int f))" "inRange prop f = None"
        "c = VInt (f64_int f)"
      using assms by (auto simp: CoerceValue_def split: option.splits if_splits)
    have c: "toFloat c = Some (int_f64 (f64_int f))" by (simp add: f(4) int_f64_def)
    note S = integral_same [OF f(2)]
    show ?thesis
      using True c f(3,4) S f64_int_range [of f] by (simp add: canonical_def CoerceValue_def)
  next
    case False
    then show ?thesis using assms
      by (auto simp: CoerceValue_def canonical_def split: if_splits anyval.splits option.splits sum.splits)
  qed
  then show "canonical prop c" and "CoerceValue prop c = Inr c" by blast+
qed


section \<open>Facts on configurations\<close>

lemma issue_if_Nil [simp]: "issue_if b p f as = [] \<longleftrightarrow> \<not> b"
  by (simp add: issue_if_def)

lemma collect_config_ok:
  assumes "collect_config f ns = ([], out)" and "distinct ns"
  shows "\<forall>n \<in> set ns. \<exists>r. f n = Inr r \<and> gm_get out n = r"
    and "\<forall>n. n \<notin> set ns \<longrightarrow> gm_get out n = None" and "gm_wf out"
    and "set (gm_keys out) \<subseteq> set ns"
proof -
  have "(\<forall>n \<in> set ns. \<exists>r. f n = Inr r \<and> gm_get out n = r) \<and>
    (\<forall>n. n \<notin> set ns \<longrightarrow> gm_get out n = None) \<and> gm_wf out \<and> set (gm_keys out) \<subseteq> set ns"
    using assms
  proof (induction ns arbitrary: out)
    case (Cons k ns)
    obtain ps out1 where rest: "collect_config f ns = (ps, out1)" by fastforce
    from Cons.prems rest obtain r where r: "f k = Inr r" "ps = []"
        "out = (case r of None \<Rightarrow> out1 | Some v \<Rightarrow> (k, v) # out1)"
      by (auto split: sum.splits option.splits)
    from Cons.IH [of out1] rest r(2) Cons.prems(2)
    have ih: "\<forall>n \<in> set ns. \<exists>r. f n = Inr r \<and> gm_get out1 n = r" "\<forall>n. n \<notin> set ns \<longrightarrow> gm_get out1 n = None"
        "gm_wf out1" "set (gm_keys out1) \<subseteq> set ns" and k: "k \<notin> set ns" by auto
    have get: "gm_get out n = (if n = k then r else gm_get out1 n)" for n
      using r(3) ih(2) k by (cases r) (auto simp: gm_get_def)
    have "gm_wf out" using r(3) ih(3,4) k by (cases r) (auto simp: gm_wf_def gm_keys_def)
    moreover have "set (gm_keys out) \<subseteq> set (k # ns)" using r(3) ih(4) by (cases r) (auto simp: gm_keys_def)
    ultimately show ?case using ih(1,2) r(1) k get by auto
  qed (simp add: gm_get_def gm_wf_def gm_keys_def)
  then show "\<forall>n \<in> set ns. \<exists>r. f n = Inr r \<and> gm_get out n = r"
    and "\<forall>n. n \<notin> set ns \<longrightarrow> gm_get out n = None" and "gm_wf out"
    and "set (gm_keys out) \<subseteq> set ns" by blast+
qed

lemma collect_config_cong:
  "(\<And>n. n \<in> set ns \<Longrightarrow> f n = g n) \<Longrightarrow> collect_config f ns = collect_config g ns"
  by (induction ns) auto

lemma ResolveConfig_Inr:
  assumes "ResolveConfig m values = Inr out"
  shows "unknown_keys m values = []"
    and "collect_config (config_value (mf_Properties m) values) (sort (gm_keys (mf_Properties m))) = ([], out)"
  using assms by (auto simp: ResolveConfig_def Let_def split: prod.splits if_splits)

lemma unknown_keys_Nil:
  "unknown_keys m values = [] \<longleftrightarrow> set (gm_keys values) \<subseteq> set (gm_keys (mf_Properties m))"
  by (auto simp: unknown_keys_def filter_empty_conv in_gm_keys_iff)

text \<open>A property of a valid manifest: its type is one of the six and its default has that type.\<close>

definition property_ok :: "property \<Rightarrow> bool" where
  "property_ok p \<longleftrightarrow>
     (pr_Default p \<noteq> VNil \<longrightarrow> \<not> pr_Required p \<and> (\<exists>c. CoerceValue p (pr_Default p) = Inr c))"

lemma checkProperty_ok: "checkProperty q p = [] \<Longrightarrow> property_ok p"
  by (auto simp: checkProperty_def property_ok_def split: if_splits sum.splits)

lemma validate_properties:
  assumes "validate m = []" and "gm_get (mf_Properties m) n = Some p"
  shows "property_ok p" and "rx_match propRE n"
proof -
  have "property_issues (n, p) = []"
    using assms(1) gm_get_SomeD [OF assms(2)] by (auto simp: validate_def)
  then show "property_ok p" and "rx_match propRE n"
    by (auto simp: property_issues_def Let_def intro: checkProperty_ok)
qed

lemma canonical_not_nil [simp]: "\<not> canonical p VNil"
  by (simp add: canonical_def)

lemma CoerceValue_empty: "CoerceValue p v = Inr (VStr []) \<Longrightarrow> v = VStr []"
  by (auto simp: CoerceValue_def split: if_splits anyval.splits option.splits sum.splits)

lemma config_value_typed:
  assumes "config_value props values n = Inr (Some v)" and "gm_get props n = Some p" and "property_ok p"
  shows "canonical p v"
  using assms CoerceValue_canonical(1)
  by (auto simp: config_value_def Let_def property_ok_def split: if_splits sum.splits)

text \<open>A value already resolved resolves to itself.\<close>

lemma config_value_again:
  assumes "config_value props values n = Inr r" and "gm_get out n = r"
    and "\<And>p. gm_get props n = Some p \<Longrightarrow> property_ok p"
  shows "config_value props out n = Inr r"
proof (cases "gm_get props n")
  case (Some p)
  note pok = assms(3) [OF Some]
  define v where "v = (case gm_get values n of Some v \<Rightarrow> v | None \<Rightarrow> VNil)"
  show ?thesis
  proof (cases "v = VNil \<or> v = VStr []")
    case True
    show ?thesis
    proof (cases "pr_Default p = VNil")
      case True
      then show ?thesis using assms(1,2) Some \<open>v = VNil \<or> v = VStr []\<close>
        by (auto simp: config_value_def v_def Let_def split: if_splits)
    next
      case False
      then obtain c where c: "CoerceValue p (pr_Default p) = Inr c" using pok by (auto simp: property_ok_def)
      then have r: "r = Some c" using assms(1) Some True False by (auto simp: config_value_def v_def Let_def)
      have "canonical p c" by (rule CoerceValue_canonical(1) [OF c])
      then have "c \<noteq> VNil" by auto
      then show ?thesis
        using r c Some False assms(2) CoerceValue_canonical(2) [OF c] by (simp add: config_value_def)
    qed
  next
    case False
    then obtain c where c: "CoerceValue p v = Inr c" and r: "r = Some c"
      using assms(1) Some by (auto simp: config_value_def v_def Let_def split: sum.splits)
    have "c \<noteq> VNil" "c \<noteq> VStr []"
      using CoerceValue_canonical(1) [OF c] CoerceValue_empty [of p v] c False by auto
    then show ?thesis using r Some assms(2) CoerceValue_canonical(2) [OF c] by (simp add: config_value_def)
  qed
qed (use assms(1) in \<open>simp add: config_value_def\<close>)

section \<open>Properties\<close>

text \<open>C39: a resolved configuration is typed. For a valid manifest, what \<open>ResolveConfig\<close> accepts has
  declared keys only, every value it returns is a canonical value of its property (the type, the range,
  the enumeration), no required property is missing, and resolving the result again, as the pipeline does
  with the stored configuration, returns it unchanged.\<close>
theorem resolved_config_is_typed:
  assumes "validate m = []" and "gm_wf (mf_Properties m)" and "ResolveConfig m values = Inr out"
  shows "set (gm_keys values) \<subseteq> set (gm_keys (mf_Properties m)) \<and>
    (\<forall>n v. gm_get out n = Some v \<longrightarrow> (\<exists>p. gm_get (mf_Properties m) n = Some p \<and> canonical p v)) \<and>
    (\<forall>n p. gm_get (mf_Properties m) n = Some p \<longrightarrow> pr_Required p \<longrightarrow> gm_get out n \<noteq> None) \<and>
    ResolveConfig m out = Inr out"
proof -
  let ?props = "mf_Properties m" and ?ns = "sort (gm_keys (mf_Properties m))"
  note R = ResolveConfig_Inr [OF assms(3)]
  have dist: "distinct ?ns" using assms(2) by (simp add: gm_wf_keys)
  note C = collect_config_ok [OF R(2) dist]
  note pok = validate_properties(1) [OF assms(1)]
  have typed: "\<exists>p. gm_get ?props n = Some p \<and> canonical p v" if v: "gm_get out n = Some v" for n v
  proof -
    have n: "n \<in> set ?ns" using C(4) gm_get_Some_keys [OF v] by blast
    then obtain p where p: "gm_get ?props n = Some p" by (auto simp: in_gm_keys_iff)
    have "config_value ?props values n = Inr (Some v)" using C(1) n v by force
    then show ?thesis using config_value_typed p pok [OF p] by blast
  qed
  moreover have "gm_get out n \<noteq> None" if p: "gm_get ?props n = Some p" and req: "pr_Required p" for n p
  proof -
    have "n \<in> set ?ns" using gm_get_Some_keys [OF p] by simp
    then have "config_value ?props values n = Inr (gm_get out n)" using C(1) by force
    then show ?thesis using p req pok [OF p]
      by (cases "gm_get out n") (auto simp: config_value_def Let_def property_ok_def split: if_splits sum.splits)
  qed
  moreover have "ResolveConfig m out = Inr out"
  proof -
    have "collect_config (config_value ?props out) ?ns = collect_config (config_value ?props values) ?ns"
    proof (rule collect_config_cong)
      fix n assume "n \<in> set ?ns"
      then have v: "config_value ?props values n = Inr (gm_get out n)" using C(1) by force
      show "config_value ?props out n = config_value ?props values n"
        using config_value_again [OF v refl pok] v by simp
    qed
    moreover have "unknown_keys m out = []" using C(4) by (simp add: unknown_keys_Nil)
    ultimately show ?thesis using R(2) by (simp add: ResolveConfig_def)
  qed
  ultimately show ?thesis using R(1) by (simp add: unknown_keys_Nil)
qed

text \<open>A manifest with two properties, and values for them.\<close>

definition demo_manifest :: manifest where
  "demo_manifest = (Minimal ''demo'' ''1.0.0'' TypeLLM)\<lparr>mf_Properties := llm_properties @
     [(''size'', \<lparr>pr_Type = ''integer'', pr_Required = True, pr_Default = VNil, pr_Description = [], pr_Enum = [],
                 pr_Min = Some (F_Num 1), pr_Max = None\<rparr>)]\<rparr>"

lemma demo_manifest_valid: "validate demo_manifest = []"
  by code_simp

theorem resolved_config_is_typed_witness:
  "ResolveConfig demo_manifest [(''size'', VFloat (F_Num 3))] =
     Inr [(''model'', VStr ''default''), (''request_timeout'', VStr ''60s''), (''size'', VInt 3)] \<and>
   ResolveConfig demo_manifest
       [(''model'', VStr ''default''), (''request_timeout'', VStr ''60s''), (''size'', VInt 3)] =
     Inr [(''model'', VStr ''default''), (''request_timeout'', VStr ''60s''), (''size'', VInt 3)]"
proof
  show r: "ResolveConfig demo_manifest [(''size'', VFloat (F_Num 3))] =
     Inr [(''model'', VStr ''default''), (''request_timeout'', VStr ''60s''), (''size'', VInt 3)]"
    by code_simp
  have "gm_wf (mf_Properties demo_manifest)" by code_simp
  from resolved_config_is_typed [OF demo_manifest_valid this r]
  show "ResolveConfig demo_manifest
       [(''model'', VStr ''default''), (''request_timeout'', VStr ''60s''), (''size'', VInt 3)] =
     Inr [(''model'', VStr ''default''), (''request_timeout'', VStr ''60s''), (''size'', VInt 3)]" by blast
qed

lemma wrap64_id: "- (2 ^ 63) \<le> i \<Longrightarrow> i < 2 ^ 63 \<Longrightarrow> wrap64 i = i"
  by (simp add: wrap64_def)

lemma wrap64_word: "wrap64 i = sint (word_of_int i :: 64 word)"
  by (simp add: wrap64_def sint_sbintrunc' signed_take_bit_eq_take_bit_shift take_bit_eq_mod add.commute)

text \<open>A size is a number of at most \<open>2 ^ 40\<close> times its unit, and it is read exactly as long as it stays
  below \<open>2 ^ 63\<close> bytes; above that the product wraps around in the \<open>int64\<close> and the result is some other
  size, which the checks on the range of the result may accept.\<close>
theorem parse_bytes_wraps_around:
  assumes "ParseBytes s = Inr b"
  shows "\<exists>num mult n. (mult = 1 \<and> num = trim_space s \<or> (\<exists>u. (u, mult) \<in> set size_units \<and> trim_space s = num @ u)) \<and>
    atoi num = Inr n \<and> 0 < n \<and> n \<le> 2 ^ 40 \<and> b = wrap64 (n * mult) \<and> (n * mult < 2 ^ 63 \<longrightarrow> b = n * mult)"
proof -
  define found where "found = List.find (\<lambda>(u, _). has_suffix (trim_space s) u) size_units"
  define mult where "mult = (case found of Some (u, m) \<Rightarrow> m | None \<Rightarrow> 1)"
  define num where "num = (case found of Some (u, m) \<Rightarrow> trim_suffix (trim_space s) u | None \<Rightarrow> trim_space s)"
  have b: "\<exists>n. atoi num = Inr n \<and> 0 < n \<and> n \<le> 2 ^ 40 \<and> b = wrap64 (n * mult)"
    using assms unfolding ParseBytes_def Let_def found_def [symmetric] num_def mult_def
    by (auto split: option.splits prod.splits sum.splits if_splits)
  have parts: "mult = 1 \<and> num = trim_space s \<or> (\<exists>u. (u, mult) \<in> set size_units \<and> trim_space s = num @ u)"
  proof (cases found)
    case (Some p)
    then obtain u m where p: "found = Some (u, m)" by (cases p) auto
    then have "(u, m) \<in> set size_units" "has_suffix (trim_space s) u"
      unfolding found_def by (auto simp: find_Some_iff in_set_conv_nth)
    then show ?thesis using p by (auto simp: mult_def num_def has_suffix_iff trim_suffix_def)
  qed (simp add: mult_def num_def)
  have "0 < mult" using parts by (auto simp: size_units_def)
  have exact: "b = n * mult" if "b = wrap64 (n * mult)" "0 < n" "n * mult < 2 ^ 63" for n
  proof -
    have "0 < n * mult" using that(2) \<open>0 < mult\<close> by simp
    then have "- (2 ^ 63) \<le> n * mult" by simp
    then show ?thesis using wrap64_id that(1,3) by metis
  qed
  from b obtain n where n: "atoi num = Inr n" "0 < n" "n \<le> 2 ^ 40" "b = wrap64 (n * mult)" by blast
  show ?thesis by (intro exI conjI impI) (rule parts n exact, (rule n | assumption)+)+
qed

text \<open>More than 16 EiB, read as 1 GiB, in a manifest that passes validation.\<close>

theorem parse_bytes_wraps_around_witness:
  "(\<exists>num mult n. (mult = 1 \<and> num = ''17179869185Gi'' \<or> (\<exists>u. (u, mult) \<in> set size_units \<and> ''17179869185Gi'' = num @ u)) \<and>
      atoi num = Inr n \<and> 0 < n \<and> n \<le> 2 ^ 40 \<and> 2 ^ 30 = wrap64 (n * mult)) \<and>
   (17179869185 :: int) * 2 ^ 30 = 2 ^ 64 + 2 ^ 30 \<and>
   validate (demo_manifest\<lparr>mf_Memory := ''17179869185Gi''\<rparr>) = []"
proof (intro conjI)
  have "ParseBytes ''17179869185Gi'' = Inr (2 ^ 30)" and t: "trim_space ''17179869185Gi'' = ''17179869185Gi''"
    by code_simp+
  from parse_bytes_wraps_around [OF this(1), unfolded t]
  show "\<exists>num mult n. (mult = 1 \<and> num = ''17179869185Gi'' \<or> (\<exists>u. (u, mult) \<in> set size_units \<and> ''17179869185Gi'' = num @ u)) \<and>
      atoi num = Inr n \<and> 0 < n \<and> n \<le> 2 ^ 40 \<and> 2 ^ 30 = wrap64 (n * mult)" by blast
  show "validate (demo_manifest\<lparr>mf_Memory := ''17179869185Gi''\<rparr>) = []" by code_simp
qed simp

section \<open>What an accepted manifest guarantees\<close>

text \<open>A key \<open>j\<close> of a map at path \<open>q\<close>, somewhere in a tree at path \<open>p\<close>.\<close>

inductive key_at :: "anyval \<Rightarrow> string \<Rightarrow> string \<Rightarrow> string \<Rightarrow> bool" where
  key_here: "(k, v) \<in> set m \<Longrightarrow> key_at (VMap m) p p k"
| key_below: "(k, v) \<in> set m \<Longrightarrow> key_at v (key_path p k) q j \<Longrightarrow> key_at (VMap m) p q j"
| key_elem: "i < length vs \<Longrightarrow> key_at (vs ! i) (p @ ''['' @ nat_digits i @ '']'') q j \<Longrightarrow> key_at (VList vs) p q j"

lemma scan_map_set: "snd ` set (scan_map m p) = (\<lambda>(k, v). key_issue p k @ scanDangerous v (key_path p k)) ` set m"
  by (induction m) (simp, clarsimp simp only: scan_map.simps list.set image_insert prod.case snd_conv)

lemma scan_map_Nil:
  "scanDangerous (VMap m) p = [] \<longleftrightarrow>
     (\<forall>(k, v) \<in> set m. key_issue p k = [] \<and> scanDangerous v (key_path p k) = [])"
proof -
  have "scanDangerous (VMap m) p = [] \<longleftrightarrow> (\<forall>is \<in> snd ` set (scan_map m p). is = [])"
    by auto
  also have "\<dots> \<longleftrightarrow> (\<forall>(k, v) \<in> set m. key_issue p k = [] \<and> scanDangerous v (key_path p k) = [])"
    unfolding scan_map_set by auto
  finally show ?thesis .
qed

lemma scan_list_Nil:
  "scan_list vs i p = [] \<longleftrightarrow> (\<forall>j < length vs. scanDangerous (vs ! j) (p @ ''['' @ nat_digits (i + j) @ '']'') = [])"
proof (induction vs arbitrary: i)
  case (Cons v vs)
  then show ?case by (auto simp: less_Suc_eq_0_disj)
qed simp

lemma key_issue_Nil:
  "key_issue p k = [] \<longleftrightarrow> p = properties_path \<or> normKey k \<notin> fst ` set dangerousKeys"
  by (auto simp: key_issue_def map_of_eq_None_iff split: option.splits) (metis map_of_eq_None_iff option.distinct(1))+

lemma scanDangerous_sound:
  "key_at t p q j \<Longrightarrow> scanDangerous t p = [] \<Longrightarrow> q \<noteq> properties_path \<Longrightarrow> normKey j \<notin> fst ` set dangerousKeys"
proof (induction rule: key_at.induct)
  case (key_here k v m p)
  then have "key_issue p k = []" unfolding scan_map_Nil by blast
  with key_here(3) show ?case unfolding key_issue_Nil by blast
next
  case (key_below k v m p q j)
  then show ?case unfolding scan_map_Nil by blast
next
  case (key_elem i vs p q j)
  then show ?case by (simp add: scan_list_Nil)
qed

lemma secret_issues_ok:
  "secret_issues i seen ss = [] \<Longrightarrow>
     distinct (map sr_Name ss) \<and> set (map sr_Name ss) \<inter> set seen = {} \<and>
     (\<forall>s \<in> set ss. rx_match envRE (sr_Name s) \<and> sr_Name s \<notin> set reservedEnv)"
proof (induction i seen ss rule: secret_issues.induct)
  case (2 i seen s ss)
  then show ?case by (auto split: if_splits)
qed simp

text \<open>A path that stays inside the repository.\<close>

definition inner_path :: "string \<Rightarrow> bool" where
  "inner_path s \<longleftrightarrow> s \<noteq> [] \<and> \<not> has_prefix s ''/'' \<and> \<not> has_prefix s ''~'' \<and> \<not> str_contains s ''..''"

lemma checkRelPath_ok: "checkRelPath p s = [] \<Longrightarrow> inner_path s"
  by (auto simp: checkRelPath_def inner_path_def Let_def split: if_splits)

lemma manifest_Parse_Inr:
  assumes "manifest_Parse Y text = Inr m"
  shows "validate m = []" and "\<exists>tree. ya_generic Y text = Inr tree \<and> scanDangerous tree [] = []"
proof -
  obtain tree where g: "ya_generic Y text = Inr tree"
    using assms by (auto simp: manifest_Parse_def split: if_splits sum.splits)
  obtain err d where dec: "ya_decode Y text = (err, d)" by fastforce
  have "validate m = [] \<and> scanDangerous tree [] = []"
    using assms unfolding manifest_Parse_def Let_def g dec
    by (auto split: if_splits option.splits yaml_err.splits)
  then show "validate m = []" and "\<exists>tree. ya_generic Y text = Inr tree \<and> scanDangerous tree [] = []"
    using g by blast+
qed

lemma size_issues_ok: "size_issues p s lo hi msg = [] \<Longrightarrow> s \<noteq> [] \<Longrightarrow> \<exists>b. ParseBytes s = Inr b \<and> lo \<le> b \<and> b \<le> hi"
  by (auto simp: size_issues_def split: if_splits sum.splits)


text \<open>A YAML library that knows one document.\<close>

definition demo_tree :: anyval where
  "demo_tree = VMap
     [(''apiVersion'', VStr APIVersion), (''kind'', VStr Kind),
      (''spec'', VMap [(''config'', VMap [(''properties'', VMap [(''size'', VMap [(''type'', VStr ''integer'')])])])])]"

definition demo_yaml :: yaml_lib where
  "demo_yaml = \<lparr>ya_generic = (\<lambda>_. Inr demo_tree), ya_decode = (\<lambda>_. (None, demo_manifest)), ya_second = (\<lambda>_. False)\<rparr>"


end
