(* ===== verification/Registry.thy ===== *)
theory Registry
  imports Manifest "HOL-Library.Product_Lexorder"
begin

text \<open>
  The plugin registry: its records (\<open>internal/plugins/registry/record.go\<close>) and the in-memory store
  (\<open>memory.go\<close>). \<open>registry_ops\<close> is the interface the manager works against and \<open>plugin_registry\<close> what
  the manager relies on; a write that reports an error may or may not have happened, as over a network.
  Texts shown to an administrator are kept as format and arguments; log lines are strings, because the
  store cuts them. The time of day is an argument.
\<close>

section \<open>Records\<close>

definition ErrNotFound :: goerr where "ErrNotFound = Sentinel ''registry.ErrNotFound''"
definition ErrExists :: goerr where "ErrExists = Sentinel ''registry.ErrExists''"
definition ErrConflict :: goerr where "ErrConflict = Sentinel ''registry.ErrConflict''"

type_synonym detail = "string \<times> earg list"

definition no_detail :: detail where "no_detail = ([], [])"

record sealed =
  sl_Version :: int
  sl_KeyID :: string
  sl_Nonce :: string
  sl_Ciphertext :: string

record source =
  so_EndpointURL :: string
  so_ImageRef :: string
  so_RepoURL :: string
  so_Revision :: string

record health =
  hl_Status :: string
  hl_Message :: detail
  hl_CheckedAt :: int

record verif_check =
  ck_Name :: string
  ck_Status :: string
  ck_Detail :: detail

record verification =
  vf_At :: int
  vf_Passed :: bool
  vf_Checks :: "verif_check list"
  vf_Summary :: detail

record scan_report =
  sc_Scanner :: string
  sc_Status :: string
  sc_Counts :: "(string, int) gomap"
  sc_Message :: string
  sc_ScannedAt :: int

record provenance =
  pv_Builder :: string
  pv_RepoURL :: string
  pv_Commit :: string
  pv_SourceHash :: string
  pv_ManifestSHA :: string
  pv_BuiltAt :: int
  pv_ImageSize :: int

record confirmations =
  cf_EmbedderCompat :: string
  cf_Threshold :: "f64 option"
  cf_PersistenceCompat :: string
  cf_VectorCompat :: string

definition no_confirmations :: confirmations where
  "no_confirmations = \<lparr>cf_EmbedderCompat = [], cf_Threshold = None, cf_PersistenceCompat = [], cf_VectorCompat = []\<rparr>"

record plugin_record =
  rc_ID :: string
  rc_Name :: string
  rc_Version :: string
  rc_Type :: plugin_type
  rc_ContractVersion :: string
  rc_Mode :: plugin_mode
  rc_Source :: source
  rc_Commit :: string
  rc_ImageDigest :: string
  rc_Manifest :: "manifest option"
  rc_Config :: "(string, anyval) gomap"
  rc_Secrets :: "(string, sealed) gomap"
  rc_State :: plugin_state
  rc_StateDetail :: detail
  rc_Health :: health
  rc_Active :: bool
  rc_PreviousActiveID :: string
  rc_PreviousThreshold :: "f64 option"
  rc_Confirmations :: confirmations
  rc_Verification :: "verification option"
  rc_Scan :: "scan_report option"
  rc_Provenance :: "provenance option"
  rc_InstanceID :: string
  rc_UpgradedFromID :: string
  rc_Rev :: int
  rc_CreatedAt :: int
  rc_UpdatedAt :: int

definition SecretNames :: "plugin_record \<Rightarrow> string list" where
  "SecretNames r = gm_keys (rc_Secrets r)"

record event =
  ev_Time :: int
  ev_Actor :: string
  ev_Action :: string
  ev_PluginID :: string
  ev_Type :: "plugin_type option"
  ev_Outcome :: string
  ev_Detail :: detail

definition maxAuditEvents :: nat where "maxAuditEvents = 1000"
definition maxLogLines :: nat where "maxLogLines = 500"
definition maxLogLineLen :: nat where "maxLogLineLen = 2000"

section \<open>Through JSON and back\<close>

text \<open>
  What \<open>json.Unmarshal\<close> of \<open>json.Marshal\<close> makes of a value: numbers come back as \<open>float64\<close>; an infinite
  or undefined number cannot be written.
\<close>

fun any_copy :: "anyval \<Rightarrow> anyval" where
  "any_copy (VInt i) = VFloat (int_f64 i)"
| "any_copy (VList vs) = VList (map any_copy vs)"
| "any_copy (VMap m) = VMap (map (\<lambda>(k, v). (k, any_copy v)) m)"
| "any_copy v = v"

fun any_finite :: "anyval \<Rightarrow> bool" where
  "any_finite (VFloat f) = (f \<noteq> F_NaN \<and> f \<noteq> F_Inf True \<and> f \<noteq> F_Inf False)"
| "any_finite (VList vs) = list_all any_finite vs"
| "any_finite (VMap m) = list_all (\<lambda>(k, v). any_finite v) m"
| "any_finite v = True"

definition opt_finite :: "f64 option \<Rightarrow> bool" where
  "opt_finite f = (case f of None \<Rightarrow> True | Some x \<Rightarrow> any_finite (VFloat x))"

definition property_copy :: "property \<Rightarrow> property" where
  "property_copy p = p\<lparr>pr_Default := any_copy (pr_Default p)\<rparr>"

definition property_finite :: "property \<Rightarrow> bool" where
  "property_finite p \<longleftrightarrow> any_finite (pr_Default p) \<and> opt_finite (pr_Min p) \<and> opt_finite (pr_Max p)"

definition manifest_copy :: "manifest \<Rightarrow> manifest" where
  "manifest_copy m = m\<lparr>mf_Properties := map (\<lambda>(n, p). (n, property_copy p)) (mf_Properties m)\<rparr>"

definition record_copy :: "plugin_record \<Rightarrow> plugin_record res" where
  "record_copy r =
     (if list_all (\<lambda>(k, v). any_finite v) (rc_Config r) \<and> opt_finite (rc_PreviousThreshold r) \<and>
         opt_finite (cf_Threshold (rc_Confirmations r)) \<and>
         (case rc_Manifest r of None \<Rightarrow> True | Some m \<Rightarrow> list_all (\<lambda>(n, p). property_finite p) (mf_Properties m))
      then Inr (r\<lparr>rc_Config := map (\<lambda>(k, v). (k, any_copy v)) (rc_Config r),
                  rc_Manifest := map_option manifest_copy (rc_Manifest r)\<rparr>)
      else Inl (Sentinel ''json.UnsupportedValueError''))"

section \<open>The interface\<close>

record 'r registry_ops =
  rg_Get :: "string \<Rightarrow> 'r \<Rightarrow> plugin_record res \<times> 'r"
  rg_List :: "'r \<Rightarrow> plugin_record list res \<times> 'r"
  rg_Create :: "plugin_record \<Rightarrow> 'r \<Rightarrow> goerr option \<times> 'r"
  rg_Update :: "string \<Rightarrow> (plugin_record \<Rightarrow> plugin_record res) \<Rightarrow> 'r \<Rightarrow> plugin_record res \<times> 'r"
  rg_Delete :: "string \<Rightarrow> 'r \<Rightarrow> goerr option \<times> 'r"
  rg_Active :: "'r \<Rightarrow> (plugin_type, string) gomap res \<times> 'r"
  rg_SetActive :: "plugin_type \<Rightarrow> string \<Rightarrow> 'r \<Rightarrow> goerr option \<times> 'r"
  rg_ClearActive :: "plugin_type \<Rightarrow> 'r \<Rightarrow> goerr option \<times> 'r"
  rg_AppendAudit :: "event \<Rightarrow> 'r \<Rightarrow> goerr option \<times> 'r"
  rg_Audit :: "string \<Rightarrow> int \<Rightarrow> 'r \<Rightarrow> event list res \<times> 'r"
  rg_AppendLog :: "string \<Rightarrow> string \<Rightarrow> 'r \<Rightarrow> goerr option \<times> 'r"
  rg_Logs :: "string \<Rightarrow> int \<Rightarrow> 'r \<Rightarrow> string list res \<times> 'r"

text \<open>One update of a view of the records, as \<open>Update\<close> makes it.\<close>

definition updates ::
    "(string \<Rightarrow> plugin_record option) \<Rightarrow> string \<Rightarrow> (plugin_record \<Rightarrow> plugin_record res) \<Rightarrow> plugin_record \<Rightarrow> bool" where
  "updates view k fn new \<longleftrightarrow>
     (\<exists>old r now. view k = Some old \<and> fn old = Inr r \<and> record_copy (r\<lparr>rc_Rev := rc_Rev r + 1, rc_UpdatedAt := now\<rparr>) = Inr new)"

locale plugin_registry =
  fixes G :: "'r registry_ops"
    and rok :: "'r \<Rightarrow> bool"
    and recs :: "'r \<Rightarrow> string \<Rightarrow> plugin_record option"
    and acts :: "'r \<Rightarrow> plugin_type \<Rightarrow> string option"
  assumes get_state: "rok r \<Longrightarrow> rg_Get G k r = (x, t) \<Longrightarrow> rok t \<and> recs t = recs r \<and> acts t = acts r"
    and get_ok: "rok r \<Longrightarrow> rg_Get G k r = (Inr p, t) \<Longrightarrow> recs r k = Some p"
    and update_state: "rok r \<Longrightarrow> rg_Update G k fn r = (x, t) \<Longrightarrow> rok t \<and> acts t = acts r \<and>
          (recs t = recs r \<or> (\<exists>new. updates (recs r) k fn new \<and> recs t = (recs r)(k \<mapsto> new)))"
    and update_ok: "rok r \<Longrightarrow> rg_Update G k fn r = (Inr new, t) \<Longrightarrow>
          updates (recs r) k fn new \<and> recs t = (recs r)(k \<mapsto> new)"
    and set_active: "rok r \<Longrightarrow> rg_SetActive G s k r = (e, t) \<Longrightarrow> rok t \<and> recs t = recs r \<and>
          (acts t = (acts r)(s \<mapsto> k) \<or> e \<noteq> None \<and> acts t = acts r)"
    and clear_active: "rok r \<Longrightarrow> rg_ClearActive G s r = (e, t) \<Longrightarrow> rok t \<and> recs t = recs r \<and>
          (acts t = (acts r)(s := None) \<or> e \<noteq> None \<and> acts t = acts r)"
    and audit_state: "rok r \<Longrightarrow> rg_AppendAudit G ev r = (e, t) \<Longrightarrow> rok t \<and> recs t = recs r \<and> acts t = acts r"
    and log_state: "rok r \<Longrightarrow> rg_AppendLog G k line r = (e, t) \<Longrightarrow> rok t \<and> recs t = recs r \<and> acts t = acts r"
    and list_state: "rok r \<Longrightarrow> rg_List G r = (l, t) \<Longrightarrow> rok t \<and> recs t = recs r \<and> acts t = acts r"
    and list_ok: "rok r \<Longrightarrow> rg_List G r = (Inr ps, t) \<Longrightarrow> set ps \<subseteq> ran (recs r)"
    and active_state: "rok r \<Longrightarrow> rg_Active G r = (a, t) \<Longrightarrow> rok t \<and> recs t = recs r \<and> acts t = acts r"
    and active_ok: "rok r \<Longrightarrow> rg_Active G r = (Inr m, t) \<Longrightarrow> gm_get m = acts r"
    and create_state: "rok r \<Longrightarrow> rg_Create G p r = (e, t) \<Longrightarrow> rok t \<and> acts t = acts r \<and>
          (e \<noteq> None \<and> recs t = recs r \<or>
           recs r (rc_ID p) = None \<and> (\<exists>c. record_copy (p\<lparr>rc_Rev := 1\<rparr>) = Inr c \<and> recs t = (recs r)(rc_ID p \<mapsto> c)))"
    and delete_state: "rok r \<Longrightarrow> rg_Delete G k r = (e, t) \<Longrightarrow> rok t \<and> acts t = acts r \<and>
          (recs t = (recs r)(k := None) \<or> e \<noteq> None \<and> recs t = recs r)"

text \<open>A registry whose list misses nothing.\<close>

locale complete_registry = plugin_registry +
  assumes list_complete: "rok r \<Longrightarrow> rg_List G r = (Inr ps, t) \<Longrightarrow> ran (recs r) \<subseteq> set ps"

section \<open>The store in memory\<close>

text \<open>A stored record is what reading its bytes gives; \<open>me_clock\<close> is the sequence of readings of \<open>time.Now()\<close>.\<close>

record memory =
  me_recs :: "(string, plugin_record) gomap"
  me_active :: "(plugin_type, string) gomap"
  me_audit :: "event list"
  me_logs :: "(string, string list) gomap"
  me_clock :: "nat \<Rightarrow> int"
  me_ticks :: nat

definition NewMemory :: "(nat \<Rightarrow> int) \<Rightarrow> memory" where
  "NewMemory clock = \<lparr>me_recs = [], me_active = [], me_audit = [], me_logs = [], me_clock = clock, me_ticks = 0\<rparr>"

definition mem_Get :: "string \<Rightarrow> memory \<Rightarrow> plugin_record res" where
  "mem_Get k s = (case gm_get (me_recs s) k of None \<Rightarrow> Inl ErrNotFound | Some r \<Rightarrow> Inr r)"

definition sortRecords :: "plugin_record list \<Rightarrow> plugin_record list" where
  "sortRecords rs = sort_key (\<lambda>r. (rc_CreatedAt r, rc_ID r)) rs"

definition mem_List :: "memory \<Rightarrow> plugin_record list" where
  "mem_List s = sortRecords (map snd (me_recs s))"

text \<open>The caller's record gets its revision too; here it is part of the result.\<close>

definition mem_Create :: "plugin_record \<Rightarrow> memory \<Rightarrow> goerr option \<times> memory" where
  "mem_Create r s =
     (if gm_get (me_recs s) (rc_ID r) \<noteq> None then (Some ErrExists, s)
      else case record_copy (r\<lparr>rc_Rev := 1\<rparr>) of
             Inl e \<Rightarrow> (Some e, s)
           | Inr c \<Rightarrow> (None, s\<lparr>me_recs := gm_put (rc_ID r) c (me_recs s)\<rparr>))"

definition mem_Update :: "string \<Rightarrow> (plugin_record \<Rightarrow> plugin_record res) \<Rightarrow> memory \<Rightarrow> plugin_record res \<times> memory" where
  "mem_Update k fn s =
     (case gm_get (me_recs s) k of
        None \<Rightarrow> (Inl ErrNotFound, s)
      | Some old \<Rightarrow>
          (case fn old of
             Inl e \<Rightarrow> (Inl e, s)
           | Inr r \<Rightarrow>
               (let t = s\<lparr>me_ticks := Suc (me_ticks s)\<rparr> in
                case record_copy (r\<lparr>rc_Rev := rc_Rev r + 1, rc_UpdatedAt := me_clock s (me_ticks s)\<rparr>) of
                  Inl e \<Rightarrow> (Inl e, t)
                | Inr new \<Rightarrow> (Inr new, t\<lparr>me_recs := gm_put k new (me_recs s)\<rparr>))))"

definition mem_Delete :: "string \<Rightarrow> memory \<Rightarrow> goerr option \<times> memory" where
  "mem_Delete k s =
     (if gm_get (me_recs s) k = None then (Some ErrNotFound, s)
      else (None, s\<lparr>me_recs := gm_del k (me_recs s), me_logs := gm_del k (me_logs s)\<rparr>))"

definition mem_SetActive :: "plugin_type \<Rightarrow> string \<Rightarrow> memory \<Rightarrow> memory" where
  "mem_SetActive t k s = s\<lparr>me_active := gm_put t k (me_active s)\<rparr>"

definition mem_ClearActive :: "plugin_type \<Rightarrow> memory \<Rightarrow> memory" where
  "mem_ClearActive t s = s\<lparr>me_active := gm_del t (me_active s)\<rparr>"

definition mem_AppendAudit :: "event \<Rightarrow> memory \<Rightarrow> memory" where
  "mem_AppendAudit e s = s\<lparr>me_audit := last_n maxAuditEvents (me_audit s @ [e])\<rparr>"

text \<open>Newest first; a limit of zero or less is none.\<close>

definition mem_Audit :: "string \<Rightarrow> int \<Rightarrow> memory \<Rightarrow> event list" where
  "mem_Audit k limit s =
     (let es = filter (\<lambda>e. k = [] \<or> ev_PluginID e = k) (rev (me_audit s))
      in if 0 < limit then take (nat limit) es else es)"

definition log_lines :: "memory \<Rightarrow> string \<Rightarrow> string list" where
  "log_lines s k = (case gm_get (me_logs s) k of None \<Rightarrow> [] | Some l \<Rightarrow> l)"

definition mem_AppendLog :: "string \<Rightarrow> string \<Rightarrow> memory \<Rightarrow> memory" where
  "mem_AppendLog k line s =
     s\<lparr>me_logs := gm_put k (last_n maxLogLines (log_lines s k @ [take maxLogLineLen line])) (me_logs s)\<rparr>"

definition mem_Logs :: "string \<Rightarrow> int \<Rightarrow> memory \<Rightarrow> string list" where
  "mem_Logs k limit s =
     (if 0 < limit then last_n (nat limit) (log_lines s k) else log_lines s k)"

definition memory_registry :: "memory registry_ops" where
  "memory_registry =
     \<lparr>rg_Get = (\<lambda>k s. (mem_Get k s, s)), rg_List = (\<lambda>s. (Inr (mem_List s), s)), rg_Create = mem_Create,
      rg_Update = mem_Update, rg_Delete = mem_Delete, rg_Active = (\<lambda>s. (Inr (me_active s), s)),
      rg_SetActive = (\<lambda>t k s. (None, mem_SetActive t k s)), rg_ClearActive = (\<lambda>t s. (None, mem_ClearActive t s)),
      rg_AppendAudit = (\<lambda>e s. (None, mem_AppendAudit e s)), rg_Audit = (\<lambda>k n s. (Inr (mem_Audit k n s), s)),
      rg_AppendLog = (\<lambda>k l s. (None, mem_AppendLog k l s)), rg_Logs = (\<lambda>k n s. (Inr (mem_Logs k n s), s))\<rparr>"

definition mem_recs :: "memory \<Rightarrow> string \<Rightarrow> plugin_record option" where
  "mem_recs s = gm_get (me_recs s)"

definition mem_acts :: "memory \<Rightarrow> plugin_type \<Rightarrow> string option" where
  "mem_acts s = gm_get (me_active s)"

text \<open>Every plugin keeps at most \<open>maxLogLines\<close> lines of at most \<open>maxLogLineLen\<close> bytes.\<close>

definition logs_ok :: "(string, string list) gomap \<Rightarrow> bool" where
  "logs_ok m \<longleftrightarrow> (\<forall>k l. gm_get m k = Some l \<longrightarrow> length l \<le> maxLogLines \<and> (\<forall>w \<in> set l. length w \<le> maxLogLineLen))"

definition mem_reg_ok :: "memory \<Rightarrow> bool" where
  "mem_reg_ok s \<longleftrightarrow> gm_wf (me_recs s) \<and> gm_wf (me_active s) \<and> length (me_audit s) \<le> maxAuditEvents \<and> logs_ok (me_logs s)"

lemma gm_get_put_fun: "gm_get (gm_put k v m) = (gm_get m)(k \<mapsto> v)"
  by (rule ext) simp

lemma gm_get_del_fun: "gm_get (gm_del k m) = (gm_get m)(k := None)"
  by (rule ext) simp

lemma mem_reg_ok_new: "mem_reg_ok (NewMemory clock)"
  by (simp add: mem_reg_ok_def NewMemory_def logs_ok_def)

lemma mem_Update_cases:
  assumes "mem_Update k fn s = (x, t)"
  shows "(\<exists>e n. x = Inl e \<and> t = s\<lparr>me_ticks := n\<rparr>) \<or>
    (\<exists>new n. x = Inr new \<and> updates (mem_recs s) k fn new \<and> t = s\<lparr>me_ticks := n, me_recs := gm_put k new (me_recs s)\<rparr>)"
proof -
  have same: "s = s\<lparr>me_ticks := me_ticks s\<rparr>" by simp
  show ?thesis
  proof (cases "gm_get (me_recs s) k")
    case None
    then have "x = Inl ErrNotFound" "t = s" using assms by (auto simp: mem_Update_def)
    then show ?thesis using same by metis
  next
    case (Some old)
    show ?thesis
    proof (cases "fn old")
      case (Inl e)
      then have "x = Inl e" "t = s" using assms Some by (auto simp: mem_Update_def)
      then show ?thesis using same by metis
    next
      case (Inr r)
      let ?c = "record_copy (r\<lparr>rc_Rev := rc_Rev r + 1, rc_UpdatedAt := me_clock s (me_ticks s)\<rparr>)"
      show ?thesis
      proof (cases ?c)
        case (Inl e)
        then have "x = Inl e" "t = s\<lparr>me_ticks := Suc (me_ticks s)\<rparr>"
          using assms Some \<open>fn old = Inr r\<close> by (auto simp: mem_Update_def Let_def)
        then show ?thesis by blast
      next
        case (Inr new)
        then have "updates (mem_recs s) k fn new"
          using Some \<open>fn old = Inr r\<close> unfolding updates_def mem_recs_def by blast
        moreover have "x = Inr new" "t = s\<lparr>me_ticks := Suc (me_ticks s), me_recs := gm_put k new (me_recs s)\<rparr>"
          using assms Some \<open>fn old = Inr r\<close> Inr by (auto simp: mem_Update_def Let_def)
        ultimately show ?thesis by blast
      qed
    qed
  qed
qed

lemma mem_ok_update: "mem_reg_ok s \<Longrightarrow> mem_Update k fn s = (x, t) \<Longrightarrow> mem_reg_ok t"
  using mem_Update_cases [of k fn s x t] by (auto simp: mem_reg_ok_def)

lemma last_n_subset: "set (last_n n xs) \<subseteq> set xs"
  by (simp add: last_n_def set_drop_subset)

lemma mem_ok_log:
  assumes "mem_reg_ok s"
  shows "mem_reg_ok (mem_AppendLog k line s)"
proof -
  let ?l = "last_n maxLogLines (log_lines s k @ [take maxLogLineLen line])"
  have "\<forall>w \<in> set (log_lines s k). length w \<le> maxLogLineLen"
    using assms by (cases "gm_get (me_logs s) k") (auto simp: mem_reg_ok_def logs_ok_def log_lines_def)
  then have all: "\<forall>w \<in> set (log_lines s k @ [take maxLogLineLen line]). length w \<le> maxLogLineLen"
    by simp
  have short: "length w \<le> maxLogLineLen" if "w \<in> set ?l" for w
    using all subsetD [OF last_n_subset that] by blast
  have "logs_ok (gm_put k ?l (me_logs s))"
    unfolding logs_ok_def
  proof (intro allI impI)
    fix j l assume j: "gm_get (gm_put k ?l (me_logs s)) j = Some l"
    show "length l \<le> maxLogLines \<and> (\<forall>w \<in> set l. length w \<le> maxLogLineLen)"
    proof (cases "j = k")
      case True
      then have l: "l = ?l" using j unfolding gm_get_put by (metis option.inject)
      show ?thesis unfolding l by (intro conjI ballI short) (simp only: length_last_n min.cobounded1)
    next
      case False
      then show ?thesis using j assms by (simp add: mem_reg_ok_def logs_ok_def)
    qed
  qed
  then show ?thesis using assms by (simp add: mem_reg_ok_def mem_AppendLog_def)
qed

lemma mem_ok_audit: "mem_reg_ok s \<Longrightarrow> mem_reg_ok (mem_AppendAudit e s)"
  by (simp add: mem_reg_ok_def mem_AppendAudit_def)

lemma mem_ok_delete: "mem_reg_ok s \<Longrightarrow> mem_reg_ok (snd (mem_Delete k s))"
  by (auto simp: mem_reg_ok_def mem_Delete_def logs_ok_def)

lemma mem_ok_create: "mem_reg_ok s \<Longrightarrow> mem_reg_ok (snd (mem_Create r s))"
  by (cases "record_copy (r\<lparr>rc_Rev := 1\<rparr>)") (simp_all add: mem_reg_ok_def mem_Create_def)

lemma ran_gm_wf: "gm_wf m \<Longrightarrow> ran (gm_get m) = snd ` set m"
  by (force simp: ran_def gm_get_iff image_iff)

interpretation memory_reg: complete_registry memory_registry mem_reg_ok mem_recs mem_acts
proof (unfold_locales, goal_cases)
  case (1 r k x t)
  then show ?case by (simp add: memory_registry_def)
next
  case (2 r k p t)
  then show ?case by (auto simp: memory_registry_def mem_Get_def mem_recs_def split: option.splits)
next
  case (3 r k fn x t)
  then have run: "mem_Update k fn r = (x, t)" by (simp add: memory_registry_def)
  then show ?case using mem_ok_update [OF 3(1) run] mem_Update_cases [OF run]
    by (auto simp: mem_recs_def mem_acts_def gm_get_put_fun)
next
  case (4 r k fn new t)
  then have "mem_Update k fn r = (Inr new, t)" by (simp add: memory_registry_def)
  from mem_Update_cases [OF this] show ?case by (auto simp: mem_recs_def gm_get_put_fun)
next
  case (5 r s k e t)
  then show ?case
    by (auto simp: memory_registry_def mem_SetActive_def mem_recs_def mem_acts_def gm_get_put_fun mem_reg_ok_def)
next
  case (6 r s e t)
  then show ?case
    by (auto simp: memory_registry_def mem_ClearActive_def mem_recs_def mem_acts_def gm_get_del_fun mem_reg_ok_def)
next
  case (7 r ev e t)
  then show ?case
    using mem_ok_audit [OF 7(1), of ev] by (auto simp: memory_registry_def mem_recs_def mem_acts_def mem_AppendAudit_def)
next
  case (8 r k line e t)
  then show ?case
    using mem_ok_log [OF 8(1), of k line] by (auto simp: memory_registry_def mem_recs_def mem_acts_def mem_AppendLog_def)
next
  case (9 r l t)
  then show ?case by (simp add: memory_registry_def)
next
  case (10 r ps t)
  then have "ps = sortRecords (map snd (me_recs r))" by (auto simp: memory_registry_def mem_List_def)
  moreover have "gm_wf (me_recs r)" using 10 by (simp add: mem_reg_ok_def)
  ultimately show ?case by (simp add: sortRecords_def mem_recs_def ran_gm_wf)
next
  case (11 r a t)
  then show ?case by (simp add: memory_registry_def)
next
  case (12 r m t)
  then show ?case by (auto simp: memory_registry_def mem_acts_def)
next
  case (13 r p e t)
  then show ?case using mem_ok_create [OF 13(1), of p]
    by (auto simp: memory_registry_def mem_Create_def mem_recs_def mem_acts_def gm_get_put_fun split: sum.splits if_splits)
next
  case (14 r k e t)
  then show ?case using mem_ok_delete [OF 14(1), of k]
    by (auto simp: memory_registry_def mem_Delete_def mem_recs_def mem_acts_def gm_get_del_fun fun_eq_iff split: if_splits)
next
  case (15 r ps t)
  then have "ps = sortRecords (map snd (me_recs r))" by (auto simp: memory_registry_def mem_List_def)
  moreover have "gm_wf (me_recs r)" using 15 by (simp add: mem_reg_ok_def)
  ultimately show ?case by (simp add: sortRecords_def mem_recs_def ran_gm_wf)
qed

end
