(* ===== verification/Plans.thy ===== *)
theory Plans
  imports Slots Registry
begin

text \<open>
  What a switch of implementations must do to keep the cache consistent: the plans of
  \<open>internal/plugins/manager/activate.go\<close> (\<open>planFor\<close> and the six functions behind it) and their execution
  (\<open>execute\<close>). A plan's closures are functions of the slots and the service at the time they run;
  \<open>migrate\<close> also returns the ids it copied, which is what \<open>cleanup\<close> of a failed migration deletes. The
  four concurrent embeddings of \<open>reembed\<close> are taken in the order in which they are started.
\<close>

section \<open>Plans\<close>

type_synonym ('v, 's, 'p, 'e) act = "('v, 's, 'p, 'e) slots \<Rightarrow> ('v, 's, 'p, 'e) service \<Rightarrow> goerr option \<times> ('v, 's, 'p, 'e) service"

record ('v, 's, 'p, 'e) plan =
  pl_needGate :: bool
  pl_forceMiss :: bool
  pl_migrate :: "(('v, 's, 'p, 'e) slots \<Rightarrow> ('v, 's, 'p, 'e) service \<Rightarrow> goerr option \<times> string list \<times> ('v, 's, 'p, 'e) service) option"
  pl_after :: "('v, 's, 'p, 'e) act option"
  pl_cleanup :: "(string list \<Rightarrow> ('v, 's, 'p, 'e) service \<Rightarrow> ('v, 's, 'p, 'e) service) option"
  pl_warnings :: "detail list"
  pl_threshold :: "f64 option"

definition empty_plan :: "('v, 's, 'p, 'e) plan" where
  "empty_plan = \<lparr>pl_needGate = False, pl_forceMiss = False, pl_migrate = None, pl_after = None, pl_cleanup = None,
     pl_warnings = [], pl_threshold = None\<rparr>"

definition warn :: "string \<Rightarrow> earg list \<Rightarrow> ('v, 's, 'p, 'e) plan \<Rightarrow> ('v, 's, 'p, 'e) plan" where
  "warn f as pl = pl\<lparr>pl_warnings := pl_warnings pl @ [(f, as)]\<rparr>"

text \<open>The orchestrator as the manager's host: its configuration, clock and write gate.\<close>

record ('v, 's, 'p, 'e) host =
  ho_cfg :: config
  ho_clock :: "'e \<Rightarrow> int \<times> 'e"
  ho_PauseWrites :: "('v, 's, 'p, 'e) service \<Rightarrow> goerr option \<times> ('v, 's, 'p, 'e) service"

definition host_deps :: "('v, 's, 'p, 'e) host \<Rightarrow> ('v, 's, 'p, 'e) slots \<Rightarrow> ('v, 's, 'p, 'e) deps" where
  "host_deps H sl = deps_of (ho_cfg H) (ho_clock H) sl"

definition migration :: "('v, 's, 'p, 'e) act \<Rightarrow> ('v, 's, 'p, 'e) slots \<Rightarrow> ('v, 's, 'p, 'e) service \<Rightarrow>
    goerr option \<times> string list \<times> ('v, 's, 'p, 'e) service" where
  "migration f sl s = (case f sl s of (e, t) \<Rightarrow> (e, [], t))"

section \<open>Entries in the order they were created\<close>

definition entry_key :: "Entry \<Rightarrow> int \<times> string" where
  "entry_key e = (e_CreatedAt e, e_ID e)"

definition sortedEntries :: "'s store_ops \<Rightarrow> 's \<Rightarrow> Entry list res \<times> 's" where
  "sortedEntries S t =
     (case st_List S t of (Inl e, u) \<Rightarrow> (Inl e, u) | (Inr es, u) \<Rightarrow> (Inr (sort_key entry_key es), u))"

definition to_rebuild :: "Entry list \<Rightarrow> RebuildEntry list" where
  "to_rebuild es = map (\<lambda>e. \<lparr>re_ID = e_ID e, re_Vector = e_Vector e\<rparr>) es"

section \<open>LLM and queue\<close>

definition planLLM :: "bool \<Rightarrow> ('v, 's, 'p, 'e) plan" where
  "planLLM to_plugin =
     (if to_plugin then warn ''while an LLM plugin is active the built-in provider and LLM_FALLBACK_MODE are bypassed; cached replies stay valid'' [] empty_plan
      else empty_plan)"

section \<open>Eviction policy\<close>

text \<open>The replay of the persisted entries into the candidate, and what is checked of its victim.\<close>

definition replay :: "'p policy_ops \<Rightarrow> Entry list \<Rightarrow> 'p \<Rightarrow> goerr option \<times> 'p" where
  "replay P es p =
     (let p1 = fold (\<lambda>e q. po_OnInsert P (e_ID e) q) es (po_Flush P p)
      in case po_Victim P p1 of (v, p2) \<Rightarrow>
        (case v of
           Some k \<Rightarrow>
             if es = [] then Some (Errorf ''policy replay failed: it reports victim %q for an empty cache'' [AStr k])
             else if k \<in> e_ID ` set es then None
             else Some (Errorf ''policy replay failed: victim %q is not a persisted entry'' [AStr k])
         | None \<Rightarrow>
             if es = [] then None
             else Some (Errorf ''policy replay failed: it has no victim after replaying %d entries'' [AInt (int (length es))]), p2))"

definition policy_migrate :: "'p policy_ops \<Rightarrow> ('v, 's, 'p, 'e) act" where
  "policy_migrate P sl s =
     (case on_S (sortedEntries (snd (sl_Store sl))) s of
        (Inl e, s1) \<Rightarrow> (Some (Errorf ''list persisted entries for replay: %w'' [AWrap e]), s1)
      | (Inr es, s1) \<Rightarrow> on_P (replay P es) s1)"

definition planPolicy :: "('v, 's, 'p, 'e) adapter \<Rightarrow> ('v, 's, 'p, 'e) plan res" where
  "planPolicy a =
     (case ad_policy a of
        None \<Rightarrow> Inl (Errorf ''candidate is not an eviction policy'' [])
      | Some P \<Rightarrow>
          Inr (warn ''recency and frequency history is not persisted; the new policy starts from the persisted insertion order'' []
            (empty_plan\<lparr>pl_needGate := True, pl_migrate := Some (migration (policy_migrate P)),
               pl_cleanup := Some (\<lambda>_ s. s\<lparr>sv_P := po_Flush P (sv_P s)\<rparr>)\<rparr>)))"

section \<open>Embedder\<close>

text \<open>
  Embedding every prompt: an error that ends the loop at once (a prompt is blank), or the first error
  and the entries made.
\<close>

fun embed_entries ::
    "'e embed_ops \<Rightarrow> int \<Rightarrow> Entry list \<Rightarrow> goerr option \<Rightarrow> Entry list \<Rightarrow> 'e \<Rightarrow> (goerr + goerr option \<times> Entry list) \<times> 'e" where
  "embed_entries E dm [] firstErr next_es w = (Inr (firstErr, next_es), w)"
| "embed_entries E dm (e # es) firstErr next_es w =
     (if trim_space (e_Prompt e) = []
      then (Inl (Errorf ''entry %s has no stored prompt, so it cannot be re-embedded; choose flush'' [AStr (e_ID e)]), w)
      else case em_Embed E (e_Prompt e) w of (r, w1) \<Rightarrow>
        (let err = (case r of Inl x \<Rightarrow> Some x
                    | Inr v \<Rightarrow> if int (length v) \<noteq> dm
                        then Some (Errorf ''vector has %d components, want %d'' [AInt (int (length v)), AInt dm]) else None)
         in case (err, r) of
              (Some x, _) \<Rightarrow>
                embed_entries E dm es
                  (case firstErr of None \<Rightarrow> Some (Errorf ''re-embedding entry %s: %w'' [AStr (e_ID e), AWrap x]) | _ \<Rightarrow> firstErr)
                  next_es w1
            | (None, Inr v) \<Rightarrow> embed_entries E dm es firstErr (next_es @ [e\<lparr>e_Vector := v\<rparr>]) w1
            | (None, Inl x) \<Rightarrow> (Inl x, w1)))"

text \<open>Saving until the first failure; what failed and where.\<close>

fun save_entries :: "'s store_ops \<Rightarrow> Entry list \<Rightarrow> 's \<Rightarrow> (Entry \<times> goerr) option \<times> 's" where
  "save_entries S [] t = (None, t)"
| "save_entries S (e # es) t =
     (case st_Save S e t of (Some err, u) \<Rightarrow> (Some (e, err), u) | (None, u) \<Rightarrow> save_entries S es u)"

definition reembed_restore ::
    "Entry list \<Rightarrow> goerr \<Rightarrow> ('v, 's, 'p, 'e) act" where
  "reembed_restore old cause sl s =
     (case on_S (save_entries (snd (sl_Store sl)) old) s of (r1, s1) \<Rightarrow>
        (case on_V (vs_Rebuild (snd (sl_VectorStore sl)) (to_rebuild old)) s1 of (r2, s2) \<Rightarrow>
           (let problems = (case r1 of Some (_, e) \<Rightarrow> [AErr e] | None \<Rightarrow> []) @
                           (case r2 of Inl e \<Rightarrow> [AErr (Errorf ''vector store restore: %s'' [AErr e])] | Inr _ \<Rightarrow> [])
            in (Some (if problems \<noteq> []
                      then Errorf ''%w; RESTORING THE PREVIOUS VECTORS ALSO FAILED (%s): flush the cache to recover'' (AWrap cause # problems)
                      else cause), s2))))"

definition reembed :: "int \<Rightarrow> 'e embed_ops \<Rightarrow> ModelInfo \<Rightarrow> int \<Rightarrow> ('v, 's, 'p, 'e) act" where
  "reembed limit E ci sz sl s =
     (if limit < sz
      then (Some (Errorf ''re-embedding %d entries exceeds the limit of %d; choose flush'' [AInt sz, AInt limit]), s)
      else case on_S (sortedEntries (snd (sl_Store sl))) s of
        (Inl e, s1) \<Rightarrow> (Some e, s1)
      | (Inr old, s1) \<Rightarrow>
          (case on_E (embed_entries E (mi_Dim ci) old None []) s1 of
             (Inl e, s2) \<Rightarrow> (Some e, s2)
           | (Inr (Some e, _), s2) \<Rightarrow> (Some e, s2)
           | (Inr (None, next_es), s2) \<Rightarrow>
               (case on_S (save_entries (snd (sl_Store sl)) next_es) s2 of
                  (Some (e, err), s3) \<Rightarrow>
                    reembed_restore old (Errorf ''saving re-embedded entry %s: %w'' [AStr (e_ID e), AWrap err]) sl s3
                | (None, s3) \<Rightarrow>
                    (case on_V (vs_Rebuild (snd (sl_VectorStore sl)) (to_rebuild next_es)) s3 of
                       (r, s4) \<Rightarrow>
                         if r = Inr (int (length next_es)) then (None, s4)
                         else reembed_restore old
                                (Errorf ''rebuilding the vector store with new vectors: %v (restored %d of %d)'' []) sl s4))))"

definition planEmbedder ::
    "('v, 's, 'p, 'e) host \<Rightarrow> int \<Rightarrow> ('v, 's, 'p, 'e) adapter \<Rightarrow> confirmations \<Rightarrow> ('v, 's, 'p, 'e) slots \<Rightarrow>
     ('v, 's, 'p, 'e) service \<Rightarrow> ('v, 's, 'p, 'e) plan res \<times> ('v, 's, 'p, 'e) service" where
  "planEmbedder H limit a conf sl s =
     (case ad_embed a of
        None \<Rightarrow> (Inl (Errorf ''candidate is not an embedder'' []), s)
      | Some E \<Rightarrow>
     (case ad_model a of
        None \<Rightarrow> (Inl (IncompatibleError ''the candidate embedder cannot report its model identity, so vector compatibility cannot be checked'' []), s)
      | Some model \<Rightarrow>
     (case on_E model s of
        (Inl e, s1) \<Rightarrow> (Inl (IncompatibleError ''the candidate embedder did not report its model: %s'' [AErr e]), s1)
      | (Inr ci, s1) \<Rightarrow>
     (case on_V (dyn_Info sl) s1 of (vr, s2) \<Rightarrow>
      if (case vr of Inr vi \<Rightarrow> 0 < vi_Dim vi \<and> vi_Dim vi \<noteq> mi_Dim ci | Inl _ \<Rightarrow> False)
      then (Inl (IncompatibleError ''the candidate embeds %d-dimensional vectors but the active vector store holds vectors of another dimension; activate a vector store with dimension %d first'' [AInt (mi_Dim ci)]), s2)
      else
     (case on_E (dyn_ModelInfo sl) s2 of (cur, s3) \<Rightarrow>
     (case CacheSize (host_deps H sl) s3 of
        (Inl e, s4) \<Rightarrow> (Inl (Errorf ''read cache size: %w'' [AWrap e]), s4)
      | (Inr sz, s4) \<Rightarrow>
          (if cur = Inr ci then (Inr empty_plan, s4)
           else if sz = 0 then
             (Inr (warn ''embedding model changes to %q (dim %d); the cache is empty so nothing needs converting''
                     [AStr (mi_Name ci), AInt (mi_Dim ci)] empty_plan), s4)
           else if cf_EmbedderCompat conf = ''flush'' then
             (Inr (warn ''the cache (%d entries) was flushed because the embedding model changed'' [AInt sz]
                    (empty_plan\<lparr>pl_needGate := True,
                       pl_migrate := Some (migration (\<lambda>sl s. FlushCache (host_deps H sl) s))\<rparr>)), s4)
           else if cf_EmbedderCompat conf = ''reembed'' then
             (Inr (warn ''re-embedded %d cached prompts with the new model'' [AInt sz]
                    (empty_plan\<lparr>pl_needGate := True, pl_forceMiss := True,
                       pl_migrate := Some (migration (reembed limit E ci sz))\<rparr>)), s4)
           else (Inl (RequirementError ''embedder_compat'' [''flush'', ''reembed'']
                  ''the candidate embeds with model %q (dim %d) but the %d cached vectors came from another model; mixing vector spaces would corrupt cache hits. Choose flush (delete the cache) or reembed (recompute every vector from the stored prompts)''
                  [AStr (mi_Name ci), AInt (mi_Dim ci), AInt sz]), s4))))))))"

section \<open>Vector store\<close>

definition info_or_zero :: "vs_info res \<Rightarrow> vs_info" where
  "info_or_zero r = (case r of Inr i \<Rightarrow> i | Inl _ \<Rightarrow> \<lparr>vi_Dim = 0, vi_Metric = []\<rparr>)"

definition adapter_info :: "('v, 's, 'p, 'e) adapter \<Rightarrow> 'v \<Rightarrow> vs_info \<times> 'v" where
  "adapter_info a v =
     (case ad_info a of Some f \<Rightarrow> (case f v of (r, w) \<Rightarrow> (info_or_zero r, w)) | None \<Rightarrow> (\<lparr>vi_Dim = 0, vi_Metric = []\<rparr>, v))"

definition samplePositions :: "nat \<Rightarrow> nat list" where
  "samplePositions n =
     (if n = 0 then [] else if n = 1 then [0] else if n = 2 then [0, 1] else [0, n div 2, n - 1])"

text \<open>A stored vector must find itself.\<close>

fun verify_samples :: "'v vector_ops \<Rightarrow> RebuildEntry list \<Rightarrow> nat list \<Rightarrow> 'v \<Rightarrow> goerr option \<times> 'v" where
  "verify_samples V re [] v = (None, v)"
| "verify_samples V re (i # is) v =
     (case vs_Search V (re_Vector (re ! i)) (min 3 (int (length re))) (F_Num 1000000000) v of
        (Inl e, u) \<Rightarrow> (Some (Errorf ''verify search on candidate: %w'' [AWrap e]), u)
      | (Inr ms, u) \<Rightarrow>
          if re_ID (re ! i) \<in> m_ID ` set ms then verify_samples V re is u
          else (Some (Errorf ''verify search: candidate did not return stored entry %s for its own vector'' [AStr (re_ID (re ! i))]), u))"

definition vector_fill :: "'v vector_ops \<Rightarrow> RebuildEntry list \<Rightarrow> 'v \<Rightarrow> goerr option \<times> 'v" where
  "vector_fill V re v =
     (case vs_Rebuild V re v of
        (Inl e, v1) \<Rightarrow> (Some (Errorf ''rebuild candidate from persistence: %w'' [AWrap e]), v1)
      | (Inr n, v1) \<Rightarrow>
          if n \<noteq> int (length re)
          then (Some (Errorf ''candidate restored %d of %d entries'' [AInt n, AInt (int (length re))]), v1)
          else (case vs_Size V v1 of (sz, v2) \<Rightarrow>
            if sz \<noteq> Inr (int (length re))
            then (Some (Errorf ''candidate reports size %d after rebuild (%v), want %d'' []), v2)
            else verify_samples V re (samplePositions (length re)) v2))"

definition vector_migrate :: "'v vector_ops \<Rightarrow> vs_info \<Rightarrow> ('v, 's, 'p, 'e) act" where
  "vector_migrate V ci sl s =
     (case on_S (sortedEntries (snd (sl_Store sl))) s of
        (Inl e, s1) \<Rightarrow> (Some (Errorf ''list persisted entries: %w'' [AWrap e]), s1)
      | (Inr es, s1) \<Rightarrow>
          (case List.find (\<lambda>e. 0 < vi_Dim ci \<and> int (length (e_Vector e)) \<noteq> vi_Dim ci) es of
             Some e \<Rightarrow>
               (Some (RequirementError ''vector_compat'' [''flush'']
                  ''%d persisted vectors have dimension %d but the candidate expects %d; the cache must be flushed''
                  [AInt (int (length es)), AInt (int (length (e_Vector e))), AInt (vi_Dim ci)]), s1)
           | None \<Rightarrow> on_V (vector_fill V (to_rebuild es)) s1))"

definition planVectorStore ::
    "('v, 's, 'p, 'e) host \<Rightarrow> plugin_record option \<Rightarrow> ('v, 's, 'p, 'e) adapter \<Rightarrow> confirmations \<Rightarrow> ('v, 's, 'p, 'e) slots \<Rightarrow>
     ('v, 's, 'p, 'e) service \<Rightarrow> ('v, 's, 'p, 'e) plan res \<times> ('v, 's, 'p, 'e) service" where
  "planVectorStore H target a conf sl s =
     (case ad_vector a of
        None \<Rightarrow> (Inl (Errorf ''candidate is not a vector store'' []), s)
      | Some V \<Rightarrow>
     (case on_V (adapter_info a) s of (ci, s1) \<Rightarrow>
     (case on_E (dyn_ModelInfo sl) s1 of (er, s2) \<Rightarrow>
      if (case er of Inr ei \<Rightarrow> 0 < vi_Dim ci \<and> mi_Dim ei \<noteq> vi_Dim ci | Inl _ \<Rightarrow> False)
      then (Inl (IncompatibleError ''the candidate vector store holds %d-dimensional vectors but the active embedder produces vectors of another dimension'' [AInt (vi_Dim ci)]), s2)
      else
     (case on_V (adapter_info (fst (sl_VectorStore sl))) s2 of (curInfo, s3) \<Rightarrow>
      let isMetric = (case target of Some r \<Rightarrow> rc_Type r = TypeSimilarityMetric | None \<Rightarrow> False);
          metricChanged = (isMetric \<or> (vi_Metric ci \<noteq> [] \<and> vi_Metric curInfo \<noteq> [] \<and> vi_Metric ci \<noteq> vi_Metric curInfo));
          finish = (\<lambda>pl.
            if cf_VectorCompat conf = ''flush''
            then warn ''the cache was flushed at the administrator request'' []
                   (pl\<lparr>pl_migrate := Some (migration (\<lambda>sl s. FlushCache (host_deps H sl) s))\<rparr>)
            else pl\<lparr>pl_migrate := Some (migration (vector_migrate V ci)),
                    pl_cleanup := Some (\<lambda>_ s. snd (on_V (vs_Flush V) s))\<rparr>)
      in if metricChanged then
           (case cf_Threshold conf of
              None \<Rightarrow> (Inl (RequirementError ''threshold'' []
                  ''the similarity metric changes (%q -> %q); confirm the similarity threshold to use with it'' [AStr (vi_Metric curInfo), AStr (vi_Metric ci)]), s3)
            | Some t \<Rightarrow>
                if t = F_NaN \<or> t = F_Inf True \<or> t = F_Inf False \<or> f64_lt t (F_Zero False)
                then (Inl (InvalidError ''threshold must be a finite number >= 0'' []), s3)
                else (Inr (finish (warn ''similarity threshold set to %.4g for the new metric'' []
                        (empty_plan\<lparr>pl_needGate := True, pl_threshold := Some t\<rparr>))), s3))
         else (Inr (finish ((if target \<noteq> None then warn ''the candidate does not report its metric; the threshold stays %.4g -- verify hit quality'' [] else id)
                 (empty_plan\<lparr>pl_needGate := True\<rparr>))), s3)))))"

section \<open>Persistence\<close>

text \<open>The vector store and the policy made to describe the entries of a store.\<close>

definition rebuildFrom :: "'s store_ops \<Rightarrow> ('v, 's, 'p, 'e) act" where
  "rebuildFrom S sl s =
     (case on_S (sortedEntries S) s of
        (Inl e, s1) \<Rightarrow> (Some (Errorf ''list entries of the new store: %w'' [AWrap e]), s1)
      | (Inr es, s1) \<Rightarrow>
          (case on_V (vs_Rebuild (snd (sl_VectorStore sl)) (to_rebuild es)) s1 of
             (Inl e, s2) \<Rightarrow> (Some (Errorf ''rebuild the vector store from the new store: %w'' [AWrap e]), s2)
           | (Inr n, s2) \<Rightarrow>
               if n \<noteq> int (length es)
               then (Some (Errorf ''vector store restored %d of %d entries'' [AInt n, AInt (int (length es))]), s2)
               else (let P = snd (sl_Policy sl)
                     in (None, s2\<lparr>sv_P := fold (\<lambda>e p. po_OnInsert P (e_ID e) p) es (po_Flush P (sv_P s2))\<rparr>))))"

text \<open>Copying: the error, the ids saved, the store.\<close>

fun copy_entries :: "'s store_ops \<Rightarrow> Entry list \<Rightarrow> string list \<Rightarrow> 's \<Rightarrow> goerr option \<times> string list \<times> 's" where
  "copy_entries C [] saved t = (None, saved, t)"
| "copy_entries C (e # es) saved t =
     (case st_Save C e t of
        (Some err, u) \<Rightarrow> (Some (Errorf ''copy entry %s to the candidate: %w'' [AStr (e_ID e), AWrap err]), saved, u)
      | (None, u) \<Rightarrow> copy_entries C es (saved @ [e_ID e]) u)"

definition same_entry :: "Entry \<Rightarrow> Entry \<Rightarrow> bool" where
  "same_entry got e \<longleftrightarrow> e_Reply got = e_Reply e \<and> e_Prompt got = e_Prompt e \<and>
     length (e_Vector got) = length (e_Vector e) \<and> e_CreatedAt got = e_CreatedAt e"

fun verify_entries ::
    "('v, 's, 'p, 'e) adapter \<times> 's store_ops \<Rightarrow> Entry list \<Rightarrow> 's \<Rightarrow> goerr option \<times> 's" where
  "verify_entries a [] t = (None, t)"
| "verify_entries a (e # es) t =
     (case dyn_LoadDetailed a (e_ID e) t of
        (Inl err, u) \<Rightarrow> (Some (Errorf ''verify entry %s in the candidate: %w'' [AStr (e_ID e), AWrap err]), u)
      | (Inr got, u) \<Rightarrow>
          if same_entry got e then verify_entries a es u
          else (Some (Errorf ''verify entry %s in the candidate: stored data differs from the source'' [AStr (e_ID e)]), u))"

definition copy_store ::
    "('v, 's, 'p, 'e) adapter \<times> 's store_ops \<Rightarrow> 's store_ops \<Rightarrow> 's \<Rightarrow> goerr option \<times> string list \<times> 's" where
  "copy_store a S t =
     (case sortedEntries S t of
        (Inl e, t1) \<Rightarrow> (Some e, [], t1)
      | (Inr es, t1) \<Rightarrow>
          (case copy_entries (snd a) es [] t1 of
             (Some e, saved, t2) \<Rightarrow> (Some e, saved, t2)
           | (None, saved, t2) \<Rightarrow>
               (case st_Size (snd a) t2 of (n, t3) \<Rightarrow>
                  if n \<noteq> Inr (int (length es))
                  then (Some (Errorf ''migration count mismatch: candidate holds %d entries (err=%v), expected %d'' [AInt (int (length es))]), saved, t3)
                  else (case verify_entries a es t3 of (r, t4) \<Rightarrow> (r, saved, t4)))))"

fun delete_all :: "'s store_ops \<Rightarrow> string list \<Rightarrow> 's \<Rightarrow> 's" where
  "delete_all C [] t = t"
| "delete_all C (k # ks) t = delete_all C ks (snd (st_Delete C k t))"

definition store_migrate ::
    "('v, 's, 'p, 'e) adapter \<times> 's store_ops \<Rightarrow> ('v, 's, 'p, 'e) slots \<Rightarrow> ('v, 's, 'p, 'e) service \<Rightarrow>
     goerr option \<times> string list \<times> ('v, 's, 'p, 'e) service" where
  "store_migrate a sl s =
     (case copy_store a (snd (sl_Store sl)) (sv_S s) of (e, saved, t) \<Rightarrow> (e, saved, s\<lparr>sv_S := t\<rparr>))"

text \<open>The index and the policy emptied, for a store that starts empty.\<close>

definition empty_after :: "('v, 's, 'p, 'e) act" where
  "empty_after sl s =
     (case on_V (vs_Flush (snd (sl_VectorStore sl))) s of
        (Some e, s1) \<Rightarrow> (Some (Errorf ''flush vector store: %w'' [AWrap e]), s1)
      | (None, s1) \<Rightarrow> (None, s1\<lparr>sv_P := po_Flush (snd (sl_Policy sl)) (sv_P s1)\<rparr>))"

definition planPersistence ::
    "('v, 's, 'p, 'e) adapter \<Rightarrow> confirmations \<Rightarrow> ('v, 's, 'p, 'e) slots \<Rightarrow> ('v, 's, 'p, 'e) service \<Rightarrow>
     ('v, 's, 'p, 'e) plan res \<times> ('v, 's, 'p, 'e) service" where
  "planPersistence a conf sl s =
     (case ad_store a of
        None \<Rightarrow> (Inl (Errorf ''candidate is not a persistence store'' []), s)
      | Some C \<Rightarrow>
      if ad_ref a = ad_ref (fst (sl_Store sl)) then (Inl (InvalidError ''candidate is already the active store'' []), s)
      else
     (case on_S (sortedEntries (snd (sl_Store sl))) s of
        (Inl e, s1) \<Rightarrow> (Inl (Errorf ''read the current cache entries: %w'' [AWrap e]), s1)
      | (Inr es, s1) \<Rightarrow>
     (case on_S (st_Size C) s1 of
        (Inl e, s2) \<Rightarrow> (Inl (Errorf ''read the candidate store: %w'' [AWrap e]), s2)
      | (Inr candSize, s2) \<Rightarrow>
          (let pl = empty_plan\<lparr>pl_needGate := True\<rparr>;
               adopt = (\<lambda>f as. warn f as (pl\<lparr>pl_after := Some (rebuildFrom C)\<rparr>));
               n = int (length es)
           in (if es = [] then
                 Inr (if 0 < candSize then adopt ''the new store already holds %d entries; the vector index and eviction policy were rebuilt from it'' [AInt candSize] else pl)
               else if cf_PersistenceCompat conf = ''migrate'' then
                 (if candSize \<noteq> 0 then Inl (IncompatibleError ''the candidate store must be empty to migrate into it (it holds %d entries); choose adopt to use its contents instead'' [AInt candSize])
                  else Inr (warn ''migrated %d cache entries to the new store; the old store data is left untouched for rollback'' [AInt n]
                         (pl\<lparr>pl_migrate := Some (store_migrate (a, C)),
                             pl_cleanup := Some (\<lambda>saved s. s\<lparr>sv_S := delete_all C saved (sv_S s)\<rparr>)\<rparr>)))
               else if cf_PersistenceCompat conf = ''empty'' then
                 (if candSize \<noteq> 0 then Inl (IncompatibleError ''the candidate store holds %d entries, so it does not start empty; choose adopt to use them'' [AInt candSize])
                  else Inr (warn ''started with an empty cache; %d entries remain in the previous store (not deleted) and are not served'' [AInt n]
                         (pl\<lparr>pl_after := Some empty_after\<rparr>)))
               else if cf_PersistenceCompat conf = ''adopt'' then
                 Inr (adopt ''switched to the existing %d entries; the %d entries of the previous store (left intact) are no longer served'' [AInt candSize, AInt n])
               else Inl (RequirementError ''persistence_compat'' (if candSize = 0 then [''migrate'', ''empty''] else [''adopt''])
                      ''the current cache holds %d entries'' [AInt n]), s2)))))"

section \<open>All components\<close>

definition planFor ::
    "('v, 's, 'p, 'e) host \<Rightarrow> int \<Rightarrow> plugin_type \<Rightarrow> plugin_record option \<Rightarrow> ('v, 's, 'p, 'e) adapter \<Rightarrow> confirmations \<Rightarrow>
     ('v, 's, 'p, 'e) slots \<Rightarrow> ('v, 's, 'p, 'e) service \<Rightarrow> ('v, 's, 'p, 'e) plan res \<times> ('v, 's, 'p, 'e) service" where
  "planFor H limit slot target a conf sl s =
     (case slot of
        TypeLLM \<Rightarrow> (Inr (planLLM (target \<noteq> None)), s)
      | TypeEmbedder \<Rightarrow> planEmbedder H limit a conf sl s
      | TypeVectorStore \<Rightarrow> planVectorStore H target a conf sl s
      | TypePersistence \<Rightarrow> planPersistence a conf sl s
      | TypeQueue \<Rightarrow> (Inr empty_plan, s)
      | TypePolicy \<Rightarrow> (planPolicy a, s)
      | _ \<Rightarrow> (Inl (Errorf ''unknown slot %s'' [AStr (type_name slot)]), s))"

section \<open>Execution\<close>

definition run_cleanup :: "('v, 's, 'p, 'e) plan \<Rightarrow> string list \<Rightarrow> ('v, 's, 'p, 'e) service \<Rightarrow> ('v, 's, 'p, 'e) service" where
  "run_cleanup pl saved s = (case pl_cleanup pl of Some f \<Rightarrow> f saved s | None \<Rightarrow> s)"

text \<open>Migrate, swap, and what runs after the swap; a failure there swaps back.\<close>

definition execute_steps ::
    "plugin_type \<Rightarrow> ('v, 's, 'p, 'e) adapter \<Rightarrow> ('v, 's, 'p, 'e) plan \<Rightarrow> ('v, 's, 'p, 'e) slots \<Rightarrow>
     ('v, 's, 'p, 'e) service \<Rightarrow>
     ('v, 's, 'p, 'e) adapter res \<times> ('v, 's, 'p, 'e) slots \<times> ('v, 's, 'p, 'e) service" where
  "execute_steps slot a pl sl s =
     (case (case pl_migrate pl of None \<Rightarrow> (None, [], s) | Some f \<Rightarrow> f sl s) of
        (Some e, saved, s1) \<Rightarrow> (Inl e, sl, run_cleanup pl saved s1)
      | (None, saved, s1) \<Rightarrow>
          (case slot_swap slot a sl of
             (Inl e, sl1) \<Rightarrow> (Inl e, sl1, run_cleanup pl saved s1)
           | (Inr prev, sl1) \<Rightarrow>
               (case pl_after pl of
                  None \<Rightarrow> (Inr prev, sl1, s1)
                | Some g \<Rightarrow>
                    (case g sl1 s1 of
                       (None, s2) \<Rightarrow> (Inr prev, sl1, s2)
                     | (Some e, s2) \<Rightarrow>
                         (case slot_swap slot prev sl1 of
                            (Inl se, sl2) \<Rightarrow>
                              (Inl (Errorf ''%w (and the swap could not be undone: %v)'' [AWrap e, AErr se]), sl2, s2)
                          | (Inr _, sl2) \<Rightarrow> (Inl e, sl2, run_cleanup pl saved s2))))))"

text \<open>
  \<open>execute\<close>: the write gate, and the threshold that lets no query match while vectors and embedder
  disagree, put back at the end whatever happens.
\<close>

definition execute ::
    "('v, 's, 'p, 'e) host \<Rightarrow> plugin_type \<Rightarrow> ('v, 's, 'p, 'e) adapter \<Rightarrow> ('v, 's, 'p, 'e) plan \<Rightarrow>
     ('v, 's, 'p, 'e) slots \<Rightarrow> ('v, 's, 'p, 'e) service \<Rightarrow>
     ('v, 's, 'p, 'e) adapter res \<times> ('v, 's, 'p, 'e) slots \<times> ('v, 's, 'p, 'e) service" where
  "execute H slot a pl sl s =
     (case (if pl_needGate pl then ho_PauseWrites H s else (None, s)) of
        (Some e, s1) \<Rightarrow> (Inl e, sl, s1)
      | (None, s1) \<Rightarrow>
          (let saved = Threshold (host_deps H sl) s1 in
           if pl_forceMiss pl
           then (case execute_steps slot a pl sl (SetThreshold (F_Num (- 1)) s1) of
                   (r, sl1, s2) \<Rightarrow> (r, sl1, SetThreshold saved s2))
           else execute_steps slot a pl sl s1))"

end
