(* ===== verification/Secrets.thy ===== *)
theory Secrets
  imports Registry
begin

text \<open>
  Plugin secrets (\<open>internal/plugins/secrets/box.go\<close>): sealing and opening under one master key, and the
  displayed form of a URL. Base64 and hexadecimal are modelled; the cipher (AES-256-GCM) and SHA-256 are
  parameters, and a nonce is what the random source gives. A text is its bytes. \<open>Scrub\<close> rewrites texts
  that are shown or logged; the model keeps such texts as the error they were made from.
\<close>

section \<open>Base64 and hexadecimal\<close>

definition b64_alphabet :: string where
  "b64_alphabet = ''ABCDEFGHIJKLMNOPQRSTUVWXYZabcdefghijklmnopqrstuvwxyz0123456789+/''"

definition b64_char :: "nat \<Rightarrow> char" where
  "b64_char n = b64_alphabet ! n"

definition b64_val :: "char \<Rightarrow> nat option" where
  "b64_val c = map_of (zip b64_alphabet [0..<64]) c"

fun b64_encode :: "string \<Rightarrow> string" where
  "b64_encode [] = []"
| "b64_encode [a] = (let x = of_char a :: nat in [b64_char (x div 4), b64_char ((x mod 4) * 16), CHR ''='', CHR ''=''])"
| "b64_encode [a, b] =
     (let x = of_char a :: nat; y = of_char b in
      [b64_char (x div 4), b64_char ((x mod 4) * 16 + y div 16), b64_char ((y mod 16) * 4), CHR ''=''])"
| "b64_encode (a # b # c # r) =
     (let x = of_char a :: nat; y = of_char b; z = of_char c in
      [b64_char (x div 4), b64_char ((x mod 4) * 16 + y div 16), b64_char ((y mod 16) * 4 + z div 64), b64_char (z mod 64)]
      @ b64_encode r)"

text \<open>Four characters at a time; padding ends the text, and the unused bits of the last character are ignored.\<close>

fun b64_quads :: "string \<Rightarrow> string option" where
  "b64_quads [] = Some []"
| "b64_quads (w # x # y # z # r) =
     (case (b64_val w, b64_val x) of
        (Some i, Some j) \<Rightarrow>
          (if z = CHR ''='' then
             (if r \<noteq> [] then None
              else if y = CHR ''='' then Some [char_of (i * 4 + j div 16)]
              else (case b64_val y of
                      Some k \<Rightarrow> Some [char_of (i * 4 + j div 16), char_of ((j mod 16) * 16 + k div 4)]
                    | None \<Rightarrow> None))
           else (case (b64_val y, b64_val z) of
                   (Some k, Some l) \<Rightarrow>
                     map_option (\<lambda>t. char_of (i * 4 + j div 16) # char_of ((j mod 16) * 16 + k div 4) #
                       char_of ((k mod 4) * 64 + l) # t) (b64_quads r)
                 | _ \<Rightarrow> None))
      | _ \<Rightarrow> None)"
| "b64_quads _ = None"

definition b64_decode :: "string \<Rightarrow> string option" where
  "b64_decode s = b64_quads (filter (\<lambda>c. c \<noteq> CHR 0x0A \<and> c \<noteq> CHR 0x0D) s)"

definition hex_encode :: "string \<Rightarrow> string" where
  "hex_encode s = concat (map (\<lambda>c. [''0123456789abcdef'' ! (of_char c div 16), ''0123456789abcdef'' ! (of_char c mod 16)]) s)"

section \<open>The box\<close>

record aead =
  ae_NonceSize :: nat
  ae_Seal :: "string \<Rightarrow> string \<Rightarrow> string \<Rightarrow> string"    \<comment> \<open>nonce, plaintext, additional data\<close>
  ae_Open :: "string \<Rightarrow> string \<Rightarrow> string \<Rightarrow> string option"    \<comment> \<open>nonce, ciphertext, additional data\<close>

record crypto =
  cr_gcm :: "string \<Rightarrow> aead"
  cr_sha256 :: "string \<Rightarrow> string"

definition ErrKeyMismatch :: goerr where "ErrKeyMismatch = Sentinel ''secrets.ErrKeyMismatch''"
definition ErrCorrupt :: goerr where "ErrCorrupt = Sentinel ''secrets.ErrCorrupt''"

record box =
  bx_aead :: aead
  bx_keyID :: string

definition NewBox :: "crypto \<Rightarrow> string \<Rightarrow> box res" where
  "NewBox cr b64 =
     (let b = trim_space b64 in
      if b = [] then Inl (Errorf ''PLUGIN_SECRET_KEY is not set; generate one with: openssl rand -base64 32'' [])
      else case b64_decode b of
             None \<Rightarrow> Inl (Errorf ''PLUGIN_SECRET_KEY must be base64 (generate one with: openssl rand -base64 32)'' [])
           | Some key \<Rightarrow>
               if length key \<noteq> 32
               then Inl (Errorf ''PLUGIN_SECRET_KEY must decode to exactly 32 bytes, got %d'' [AInt (int (length key))])
               else Inr \<lparr>bx_aead = cr_gcm cr key,
                         bx_keyID = hex_encode (take 6 (cr_sha256 cr (''llmcache-plugin-key-id:'' @ key)))\<rparr>)"

definition aad :: "string \<Rightarrow> string \<Rightarrow> string" where
  "aad pluginID name = pluginID @ [CHR 0x00] @ name"

definition Seal :: "box \<Rightarrow> string res \<Rightarrow> string \<Rightarrow> string \<Rightarrow> string \<Rightarrow> sealed res" where
  "Seal b random pluginID name v =
     (case random of
        Inl e \<Rightarrow> Inl (Errorf ''generate nonce: %w'' [AWrap e])
      | Inr nonce \<Rightarrow>
          Inr \<lparr>sl_Version = 1, sl_KeyID = bx_keyID b, sl_Nonce = b64_encode nonce,
               sl_Ciphertext = b64_encode (ae_Seal (bx_aead b) nonce v (aad pluginID name))\<rparr>)"

definition Open :: "box \<Rightarrow> string \<Rightarrow> string \<Rightarrow> sealed \<Rightarrow> string res" where
  "Open b pluginID name s =
     (if sl_KeyID s \<noteq> bx_keyID b then Inl ErrKeyMismatch
      else case b64_decode (sl_Nonce s) of
             None \<Rightarrow> Inl ErrCorrupt
           | Some nonce \<Rightarrow>
               if length nonce \<noteq> ae_NonceSize (bx_aead b) then Inl ErrCorrupt
               else case b64_decode (sl_Ciphertext s) of
                      None \<Rightarrow> Inl ErrCorrupt
                    | Some ct \<Rightarrow>
                        (case ae_Open (bx_aead b) nonce ct (aad pluginID name) of
                           None \<Rightarrow> Inl ErrCorrupt
                         | Some pt \<Rightarrow> Inr pt))"

section \<open>Displayed URLs\<close>

definition last_index :: "char \<Rightarrow> string \<Rightarrow> nat option" where
  "last_index c s = (if c \<in> set s then Some (length s - 1 - length (takeWhile (\<lambda>x. x \<noteq> c) (rev s))) else None)"

definition SafeURL :: "string \<Rightarrow> string" where
  "SafeURL raw =
     (let s = takeWhile (\<lambda>c. c \<noteq> CHR ''?'' \<and> c \<noteq> CHR ''#'') raw in
      case str_cut s ''://'' of
        None \<Rightarrow> s
      | Some (scheme, rest) \<Rightarrow>
          (let host = takeWhile (\<lambda>c. c \<noteq> CHR ''/'') rest in
           case last_index (CHR ''@'') host of
             None \<Rightarrow> s
           | Some k \<Rightarrow> scheme @ ''://'' @ drop (Suc k) rest))"

section \<open>Facts\<close>

lemma b64_val_char [simp]: "n < 64 \<Longrightarrow> b64_val (b64_char n) = Some n"
proof -
  have "list_all (\<lambda>n. b64_val (b64_char n) = Some n) [0..<64]" by code_simp
  then show "n < 64 \<Longrightarrow> b64_val (b64_char n) = Some n" by (simp add: list_all_iff)
qed

lemma b64_char_plain: "n < 64 \<Longrightarrow> b64_char n \<noteq> CHR ''='' \<and> b64_char n \<noteq> CHR 0x0A \<and> b64_char n \<noteq> CHR 0x0D"
proof -
  have "list_all (\<lambda>n. b64_char n \<noteq> CHR ''='' \<and> b64_char n \<noteq> CHR 0x0A \<and> b64_char n \<noteq> CHR 0x0D) [0..<64]" by code_simp
  then show "n < 64 \<Longrightarrow> b64_char n \<noteq> CHR ''='' \<and> b64_char n \<noteq> CHR 0x0A \<and> b64_char n \<noteq> CHR 0x0D" by (simp add: list_all_iff)
qed

lemma byte_split:
  fixes x y z :: nat
  assumes "x < 256" and "y < 256" and "z < 256"
  shows "x div 4 < 64" and "x mod 4 * 16 < 64" and "x mod 4 * 16 + y div 16 < 64" and "y mod 16 * 4 < 64"
    and "y mod 16 * 4 + z div 64 < 64"
    and "x div 4 * 4 + (x mod 4 * 16 + y div 16) div 16 = x"
    and "(x mod 4 * 16 + y div 16) mod 16 * 16 + (y mod 16 * 4 + z div 64) div 4 = y"
    and "(x mod 4 * 16 + y div 16) mod 16 * 16 + (y mod 16 * 4) div 4 = y"
    and "(y mod 16 * 4 + z div 64) mod 4 * 64 + z mod 64 = z"
proof -
  have q: "y div 16 < 16" "z div 64 < 4" "x mod 4 < 4" "y mod 16 < 16" "x div 4 < 64"
    using assms by (auto simp: less_mult_imp_div_less)
  then show "x div 4 < 64" "x mod 4 * 16 < 64" "x mod 4 * 16 + y div 16 < 64" "y mod 16 * 4 < 64"
    "y mod 16 * 4 + z div 64 < 64" by linarith+
  show "x div 4 * 4 + (x mod 4 * 16 + y div 16) div 16 = x" using q(1) by simp
  show "(x mod 4 * 16 + y div 16) mod 16 * 16 + (y mod 16 * 4 + z div 64) div 4 = y"
    "(x mod 4 * 16 + y div 16) mod 16 * 16 + (y mod 16 * 4) div 4 = y"
    "(y mod 16 * 4 + z div 64) mod 4 * 64 + z mod 64 = z" using q(1,2) by simp_all
qed

lemmas char_split = byte_split [OF nat_of_char_less_256 nat_of_char_less_256 nat_of_char_less_256]

lemma b64_encode_plain: "c \<in> set (b64_encode s) \<Longrightarrow> c \<noteq> CHR 0x0A \<and> c \<noteq> CHR 0x0D"
  by (induction s rule: b64_encode.induct) (auto simp: Let_def b64_char_plain char_split)

lemma b64_quads_encode: "b64_quads (b64_encode s) = Some s"
proof (induction s rule: b64_encode.induct)
  case (2 a)
  then show ?case using byte_split [OF nat_of_char_less_256 [of a] nat_of_char_less_256 [of a] nat_of_char_less_256 [of a]] by (simp add: Let_def)
next
  case (3 a b)
  then show ?case using byte_split [OF nat_of_char_less_256 [of a] nat_of_char_less_256 [of b] nat_of_char_less_256 [of a]] by (simp add: Let_def b64_char_plain)
next
  case (4 a b c r)
  then show ?case using byte_split [OF nat_of_char_less_256 [of a] nat_of_char_less_256 [of b] nat_of_char_less_256 [of c]] by (simp add: Let_def b64_char_plain)
qed simp

lemma b64_decode_encode [simp]: "b64_decode (b64_encode s) = Some s"
proof -
  have "filter (\<lambda>c. c \<noteq> CHR 0x0A \<and> c \<noteq> CHR 0x0D) (b64_encode s) = b64_encode s"
    using b64_encode_plain by (intro filter_True) blast
  then show ?thesis by (simp add: b64_decode_def b64_quads_encode)
qed

lemma aad_inj:
  assumes "aad i n = aad j m" and "CHR 0x00 \<notin> set i" and "CHR 0x00 \<notin> set j"
  shows "i = j \<and> n = m"
proof -
  have "takeWhile (\<lambda>c. c \<noteq> CHR 0x00) (aad i n) = i" "takeWhile (\<lambda>c. c \<noteq> CHR 0x00) (aad j m) = j"
    using assms(2,3) by (auto simp: aad_def takeWhile_append)
  with assms(1) show ?thesis by (auto simp: aad_def)
qed

text \<open>What an authenticated cipher promises: it opens what it sealed, and only with the data it was sealed with.\<close>

definition authentic :: "aead \<Rightarrow> bool" where
  "authentic A \<longleftrightarrow> (\<forall>n p a. ae_Open A n (ae_Seal A n p a) a = Some p) \<and>
     (\<forall>n p a b q. ae_Open A n (ae_Seal A n p a) b = Some q \<longrightarrow> b = a)"


text \<open>A cipher for the witness: the additional data, with its length in front, and the text itself.\<close>

definition plain_tag :: "string \<Rightarrow> string" where
  "plain_tag a = replicate (length a) (CHR ''x'') @ CHR ''.'' # a"

definition plain_aead :: aead where
  "plain_aead = \<lparr>ae_NonceSize = 12, ae_Seal = (\<lambda>n p a. plain_tag a @ p),
     ae_Open = (\<lambda>n c a. if has_prefix c (plain_tag a) then Some (drop (length (plain_tag a)) c) else None)\<rparr>"

lemma replicate_sep: "x \<noteq> y \<Longrightarrow> replicate n x @ y # u = replicate m x @ y # v \<Longrightarrow> n = m \<and> u = v"
proof (induction n arbitrary: m)
  case 0
  then show ?case by (cases m) auto
next
  case (Suc n)
  then show ?case by (cases m) auto
qed

lemma plain_authentic: "authentic plain_aead"
proof -
  have "a = b" if "plain_tag a @ p = plain_tag b @ q" for a b p q
    using replicate_sep [of "CHR ''x''" "CHR ''.''" "length a" "a @ p" "length b" "b @ q"] that
    by (auto simp: plain_tag_def)
  then show ?thesis
    by (auto simp: authentic_def plain_aead_def has_prefix_iff split: if_splits)
qed

definition demo_box :: box where
  "demo_box = \<lparr>bx_aead = plain_aead, bx_keyID = ''k1''\<rparr>"

definition demo_nonce :: string where "demo_nonce = ''123456789012''"


end
