(* ===== verification/Control.thy ===== *)
theory Control
  imports Plans Secrets
begin

text \<open>
  The plugin manager's state and the operations its larger parts share (\<open>internal/plugins/manager/types.go\<close>,
  \<open>manager.go\<close>, \<open>internal/plugins/ctlapi\<close>). \<open>mgr_env\<close> is what does not change while the manager runs: its
  configuration, the registry, the secret box, the orchestrator as host, the controller, and \<open>mg_build\<close>,
  which makes the adapter of a record. \<open>control\<close> is the state: registry, controller, slots and service, the
  active record of each slot, the adapters owned, and which instances are waiting to be stopped. An error's
  text in a record or an audit event is kept as the error; \<open>mg_line\<close> is the text of a log line.
\<close>

section \<open>Configuration and requests\<close>

record mgr_config =
  mc_Enabled :: bool
  mc_AllowInsecureEndpoints :: bool
  mc_ControllerURL :: string
  mc_ControllerToken :: string
  mc_BuildTimeout :: int
  mc_HealthTimeout :: int
  mc_CPULimit :: f64
  mc_MemoryLimit :: int
  mc_RollbackWindow :: int
  mc_ActivationTimeout :: int
  mc_QueueDrainWindow :: int
  mc_MaxReembedEntries :: int
  mc_RestoreWait :: int

definition config_Defaults :: "mgr_config \<Rightarrow> mgr_config" where
  "config_Defaults c = c\<lparr>
     mc_BuildTimeout := if mc_BuildTimeout c \<le> 0 then 10 * Minute else mc_BuildTimeout c,
     mc_HealthTimeout := if mc_HealthTimeout c \<le> 0 then 60 * Second else mc_HealthTimeout c,
     mc_CPULimit := if f64_le (mc_CPULimit c) (F_Zero False) then F_Num 1 else mc_CPULimit c,
     mc_MemoryLimit := if mc_MemoryLimit c \<le> 0 then 512 * 2 ^ 20 else mc_MemoryLimit c,
     mc_RollbackWindow := if mc_RollbackWindow c \<le> 0 then 10 * Minute else mc_RollbackWindow c,
     mc_ActivationTimeout := if mc_ActivationTimeout c \<le> 0 then 10 * Minute else mc_ActivationTimeout c,
     mc_QueueDrainWindow := if mc_QueueDrainWindow c \<le> 0 then 30 * Second else mc_QueueDrainWindow c,
     mc_MaxReembedEntries := if mc_MaxReembedEntries c \<le> 0 then 50000 else mc_MaxReembedEntries c,
     mc_RestoreWait := if mc_RestoreWait c \<le> 0 then 2 * Minute else mc_RestoreWait c\<rparr>"

record install_request =
  ir_Type :: string
  ir_Mode :: string
  ir_Name :: string
  ir_Version :: string
  ir_Manifest :: string
  ir_Endpoint :: string
  ir_Image :: string
  ir_Repo :: string
  ir_Revision :: string
  ir_Config :: "(string, anyval) gomap option"
  ir_Secrets :: "(string, string) gomap"
  ir_Activate :: bool
  ir_Confirmations :: "confirmations option"

definition EndpointTokenSecret :: string where "EndpointTokenSecret = ''ENDPOINT_TOKEN''"

definition ErrDisabled :: goerr where "ErrDisabled = Sentinel ''manager.ErrDisabled''"
definition ErrBusy :: goerr where "ErrBusy = Sentinel ''manager.ErrBusy''"
definition ErrNoHost :: goerr where "ErrNoHost = Sentinel ''manager.ErrNoHost''"

section \<open>The controller\<close>

record prepare_request =
  pq_Mode :: plugin_mode
  pq_Type :: plugin_type
  pq_Image :: string
  pq_Repo :: string
  pq_Revision :: string
  pq_Manifest :: string
  pq_DryRun :: bool
  pq_PluginID :: string

record prepare_result =
  ps_Digest :: string
  ps_ImageSize :: int
  ps_Manifest :: string
  ps_Commit :: string
  ps_Scan :: "scan_report option"
  ps_Provenance :: "provenance option"
  ps_Log :: "string list"

record start_request =
  sq_InstanceID :: string
  sq_Type :: plugin_type
  sq_Digest :: string
  sq_Manifest :: string
  sq_Env :: "(string, string) gomap"
  sq_HealthWait :: int

record inst =
  in_ID :: string
  in_BaseURL :: string

record 'c controller_ops =
  co_Prepare :: "prepare_request \<Rightarrow> 'c \<Rightarrow> prepare_result res \<times> 'c"
  co_Start :: "start_request \<Rightarrow> 'c \<Rightarrow> inst res \<times> 'c"
  co_Stop :: "string \<Rightarrow> 'c \<Rightarrow> goerr option \<times> 'c"

section \<open>The manager\<close>

record ('r, 'c, 'v, 's, 'p, 'e) mgr_env =
  mg_cfg :: mgr_config
  mg_G :: "'r registry_ops"
  mg_box :: "box option"
  mg_host :: "('v, 's, 'p, 'e) host option"
  mg_ctl :: "'c controller_ops option"
  mg_build :: "plugin_record \<Rightarrow> (string, string) gomap \<Rightarrow> ('v, 's, 'p, 'e) slots \<Rightarrow> 'c \<Rightarrow> ('v, 's, 'p, 'e) service \<Rightarrow>
     ('v, 's, 'p, 'e) adapter res \<times> 'c \<times> ('v, 's, 'p, 'e) service"
  mg_now :: int
  mg_line :: "detail \<Rightarrow> string"
  mg_builtinNames :: "(plugin_type, string) gomap"

record ('r, 'c, 'v, 's, 'p, 'e) control =
  pm_reg :: 'r
  pm_ctl :: 'c
  pm_slots :: "('v, 's, 'p, 'e) slots"
  pm_svc :: "('v, 's, 'p, 'e) service"
  pm_active :: "(plugin_type, string) gomap"
  pm_owned :: "(string, ('v, 's, 'p, 'e) adapter) gomap"
  pm_timers :: "(string, unit) gomap"
  pm_draining :: "(string \<times> ('v, 's, 'p, 'e) adapter \<times> bool) list"
  pm_restoredThreshold :: "f64 option"
  pm_locked :: "plugin_type list"

definition mgr_New :: "'r \<Rightarrow> 'c \<Rightarrow> ('v, 's, 'p, 'e) slots \<Rightarrow> ('v, 's, 'p, 'e) service \<Rightarrow> ('r, 'c, 'v, 's, 'p, 'e) control" where
  "mgr_New r c sl s =
     \<lparr>pm_reg = r, pm_ctl = c, pm_slots = sl, pm_svc = s, pm_active = [], pm_owned = [], pm_timers = [],
      pm_draining = [], pm_restoredThreshold = None, pm_locked = []\<rparr>"

definition requireEnabled :: "('r, 'c, 'v, 's, 'p, 'e) mgr_env \<Rightarrow> goerr option" where
  "requireEnabled E = (if \<not> mc_Enabled (mg_cfg E) \<or> mg_box E = None then Some ErrDisabled else None)"

text \<open>Running an operation of the registry.\<close>

definition on_reg :: "('r \<Rightarrow> 'a \<times> 'r) \<Rightarrow> ('r, 'c, 'v, 's, 'p, 'e) control \<Rightarrow> 'a \<times> ('r, 'c, 'v, 's, 'p, 'e) control" where
  "on_reg f st = (case f (pm_reg st) of (x, r) \<Rightarrow> (x, st\<lparr>pm_reg := r\<rparr>))"

definition reg_get :: "('r, 'c, 'v, 's, 'p, 'e) mgr_env \<Rightarrow> string \<Rightarrow> ('r, 'c, 'v, 's, 'p, 'e) control \<Rightarrow>
    plugin_record res \<times> ('r, 'c, 'v, 's, 'p, 'e) control" where
  "reg_get E k = on_reg (rg_Get (mg_G E) k)"

definition reg_update :: "('r, 'c, 'v, 's, 'p, 'e) mgr_env \<Rightarrow> string \<Rightarrow> (plugin_record \<Rightarrow> plugin_record res) \<Rightarrow>
    ('r, 'c, 'v, 's, 'p, 'e) control \<Rightarrow> plugin_record res \<times> ('r, 'c, 'v, 's, 'p, 'e) control" where
  "reg_update E k fn = on_reg (rg_Update (mg_G E) k fn)"

text \<open>\<open>_, _ = m.reg.Update(...)\<close>: an update whose error is ignored.\<close>

definition reg_set :: "('r, 'c, 'v, 's, 'p, 'e) mgr_env \<Rightarrow> string \<Rightarrow> (plugin_record \<Rightarrow> plugin_record) \<Rightarrow>
    ('r, 'c, 'v, 's, 'p, 'e) control \<Rightarrow> ('r, 'c, 'v, 's, 'p, 'e) control" where
  "reg_set E k fn st = snd (reg_update E k (\<lambda>r. Inr (fn r)) st)"

definition audit :: "('r, 'c, 'v, 's, 'p, 'e) mgr_env \<Rightarrow> string \<Rightarrow> plugin_record option \<Rightarrow> string \<Rightarrow> detail \<Rightarrow>
    ('r, 'c, 'v, 's, 'p, 'e) control \<Rightarrow> ('r, 'c, 'v, 's, 'p, 'e) control" where
  "audit E action rec outcome d st =
     snd (on_reg (rg_AppendAudit (mg_G E)
       \<lparr>ev_Time = mg_now E, ev_Actor = ''admin'', ev_Action = action,
        ev_PluginID = (case rec of Some r \<Rightarrow> rc_ID r | None \<Rightarrow> []),
        ev_Type = map_option rc_Type rec, ev_Outcome = outcome, ev_Detail = d\<rparr>) st)"

definition logf :: "('r, 'c, 'v, 's, 'p, 'e) mgr_env \<Rightarrow> string \<Rightarrow> string \<Rightarrow> earg list \<Rightarrow>
    ('r, 'c, 'v, 's, 'p, 'e) control \<Rightarrow> ('r, 'c, 'v, 's, 'p, 'e) control" where
  "logf E k f as st = snd (on_reg (rg_AppendLog (mg_G E) k (mg_line E (f, as))) st)"

definition setState :: "('r, 'c, 'v, 's, 'p, 'e) mgr_env \<Rightarrow> string \<Rightarrow> plugin_state \<Rightarrow> detail \<Rightarrow>
    ('r, 'c, 'v, 's, 'p, 'e) control \<Rightarrow> plugin_record res \<times> ('r, 'c, 'v, 's, 'p, 'e) control" where
  "setState E k to d =
     reg_update E k (\<lambda>r. if \<not> ValidTransition (rc_State r) to
       then Inl (Errorf ''illegal lifecycle transition %s -> %s'' [])
       else Inr (r\<lparr>rc_State := to, rc_StateDetail := d\<rparr>))"

definition ActiveIDs :: "('r, 'c, 'v, 's, 'p, 'e) control \<Rightarrow> (plugin_type, string) gomap" where
  "ActiveIDs st = pm_active st"

text \<open>Reading a Go map of strings: a missing key gives the empty string.\<close>

definition id_at :: "(plugin_type, string) gomap \<Rightarrow> plugin_type \<Rightarrow> string" where
  "id_at m s = (case gm_get m s of Some k \<Rightarrow> k | None \<Rightarrow> [])"

definition openSecrets :: "('r, 'c, 'v, 's, 'p, 'e) mgr_env \<Rightarrow> plugin_record \<Rightarrow> (string, string) gomap res" where
  "openSecrets E rec =
     (case mg_box E of
        None \<Rightarrow> Inl (Sentinel ''nil pointer dereference'')
      | Some b \<Rightarrow>
          foldl (\<lambda>acc (name, s). res_bind acc (\<lambda>out. case Open b (rc_ID rec) name s of
              Inl e \<Rightarrow> Inl (Errorf ''secret %s: %w'' [AStr name, AWrap e])
            | Inr v \<Rightarrow> Inr (gm_put name v out))) (Inr []) (rc_Secrets rec))"

definition secretValues :: "(string, string) gomap \<Rightarrow> string list" where
  "secretValues s = map snd s"

definition mgr_Logs :: "('r, 'c, 'v, 's, 'p, 'e) mgr_env \<Rightarrow> string \<Rightarrow> int \<Rightarrow> ('r, 'c, 'v, 's, 'p, 'e) control \<Rightarrow>
    string list res \<times> ('r, 'c, 'v, 's, 'p, 'e) control" where
  "mgr_Logs E k limit st =
     (case requireEnabled E of
        Some e \<Rightarrow> (Inl e, st)
      | None \<Rightarrow> (case reg_get E k st of (Inl e, t) \<Rightarrow> (Inl e, t) | (Inr _, t) \<Rightarrow> on_reg (rg_Logs (mg_G E) k limit) t))"

record component =
  cp_Type :: plugin_type
  cp_Slot :: plugin_type
  cp_Python :: bool
  cp_Builtin :: string
  cp_ActiveID :: string
  cp_ActiveName :: string
  cp_ActiveVer :: string

definition component_of :: "('r, 'c, 'v, 's, 'p, 'e) mgr_env \<Rightarrow> plugin_type \<Rightarrow> ('r, 'c, 'v, 's, 'p, 'e) control \<Rightarrow>
    component \<times> ('r, 'c, 'v, 's, 'p, 'e) control" where
  "component_of E t st =
     (let c = \<lparr>cp_Type = t, cp_Slot = Slot t, cp_Python = IsPython t,
               cp_Builtin = id_at (mg_builtinNames E) (if IsPython t then t else Slot t),
               cp_ActiveID = [], cp_ActiveName = [], cp_ActiveVer = []\<rparr>;
          k = id_at (ActiveIDs st) (Slot t)
      in if k = [] then (c, st)
         else case reg_get E k st of
                (Inl _, u) \<Rightarrow> (c, u)
              | (Inr rec, u) \<Rightarrow>
                  (if rc_Type rec = t
                   then c\<lparr>cp_ActiveID := rc_ID rec, cp_ActiveName := rc_Name rec, cp_ActiveVer := rc_Version rec\<rparr>
                   else c, u))"

fun components_of :: "('r, 'c, 'v, 's, 'p, 'e) mgr_env \<Rightarrow> plugin_type list \<Rightarrow> ('r, 'c, 'v, 's, 'p, 'e) control \<Rightarrow>
    component list \<times> ('r, 'c, 'v, 's, 'p, 'e) control" where
  "components_of E [] st = ([], st)"
| "components_of E (t # ts) st =
     (case component_of E t st of (c, u) \<Rightarrow> (case components_of E ts u of (cs, v) \<Rightarrow> (c # cs, v)))"

definition Components :: "('r, 'c, 'v, 's, 'p, 'e) mgr_env \<Rightarrow> ('r, 'c, 'v, 's, 'p, 'e) control \<Rightarrow>
    component list \<times> ('r, 'c, 'v, 's, 'p, 'e) control" where
  "Components E = components_of E AllTypes"

section \<open>Views\<close>

record secret_status =
  ss_Name :: string
  ss_Configured :: bool
  ss_Required :: bool

text \<open>The insertion sort of \<open>sortSecretStatus\<close>: an element moves left while its neighbour's name is greater.\<close>

fun sift :: "secret_status \<Rightarrow> secret_status list \<Rightarrow> secret_status list" where
  "sift x [] = [x]"
| "sift x (y # ys) = (if ss_Name x < ss_Name y then y # sift x ys else x # y # ys)"

definition sortSecretStatus :: "secret_status list \<Rightarrow> secret_status list" where
  "sortSecretStatus s = rev (foldl (\<lambda>acc x. sift x acc) [] s)"

text \<open>
  A view is the record without its secrets, and the status of each secret: the declared ones in the order a
  map of them is visited (\<open>visit\<close>), then the others the record holds.
\<close>

definition declared_secrets :: "plugin_record \<Rightarrow> (string, secret_ref) gomap" where
  "declared_secrets r =
     (case rc_Manifest r of None \<Rightarrow> [] | Some m \<Rightarrow> foldl (\<lambda>d s. gm_put (sr_Name s) s d) [] (mf_Secrets m))"

definition secret_statuses :: "plugin_record \<Rightarrow> secret_status list" where
  "secret_statuses r =
     (let declared = declared_secrets r
      in sortSecretStatus
           (map (\<lambda>(_, s). \<lparr>ss_Name = sr_Name s, ss_Configured = gm_get (rc_Secrets r) (sr_Name s) \<noteq> None, ss_Required = sr_Required s\<rparr>) declared
            @ map (\<lambda>n. \<lparr>ss_Name = n, ss_Configured = True, ss_Required = False\<rparr>)
                (filter (\<lambda>n. n \<notin> (sr_Name \<circ> snd) ` set declared) (gm_keys (rc_Secrets r)))))"

record view =
  vw_Record :: plugin_record
  vw_Slot :: plugin_type
  vw_Description :: string
  vw_ConfigSchema :: "(string, property) gomap"
  vw_Secrets :: "secret_status list"

definition ViewOf :: "plugin_record \<Rightarrow> view" where
  "ViewOf r =
     \<lparr>vw_Record = r\<lparr>rc_Secrets := [], rc_Manifest := None, rc_PreviousThreshold := None, rc_InstanceID := [], rc_Rev := 0\<rparr>,
      vw_Slot = Slot (rc_Type r),
      vw_Description = (case rc_Manifest r of Some m \<Rightarrow> mf_Description m | None \<Rightarrow> []),
      vw_ConfigSchema = (case rc_Manifest r of Some m \<Rightarrow> mf_Properties m | None \<Rightarrow> []),
      vw_Secrets = secret_statuses r\<rparr>"

end
