(* ===== verification/Source_Tree.thy ===== *)
theory Source_Tree
  imports Go_Regexp
begin

text \<open>
  Source trees of plugins (\<open>internal/plugins/controller/source.go\<close>): fetching a revision, the limits on a tree, paths
  inside it, and copying it. A tree is what the file system holds below a directory; a directory lists its
  entries in the order \<open>WalkDir\<close> visits them, names without a slash. Reading a file that \<open>Lstat\<close> finds
  succeeds. Git is a parameter, a function from the arguments of a command to its output; SHA-256 in
  hexadecimal is the parameter \<open>sha\<close>.
\<close>

section \<open>Trees\<close>

datatype node =
    File string
  | Dir "(string \<times> node) list"
  | Symlink string
  | Special

text \<open>\<open>Lstat\<close> of a path below a directory, whose parents are no symbolic links.\<close>

fun lstat :: "node \<Rightarrow> string list \<Rightarrow> node option" where
  "lstat n [] = Some n"
| "lstat (Dir es) (p # ps) = (case map_of es p of None \<Rightarrow> None | Some n \<Rightarrow> lstat n ps)"
| "lstat _ (p # ps) = None"

fun is_symlink :: "node \<Rightarrow> bool" where
  "is_symlink (Symlink _) = True"
| "is_symlink _ = False"

definition isDir :: "node option \<Rightarrow> bool" where
  "isDir x = (case x of Some (Dir _) \<Rightarrow> True | _ \<Rightarrow> False)"

definition isFile :: "node option \<Rightarrow> bool" where
  "isFile x = (case x of Some (File _) \<Rightarrow> True | _ \<Rightarrow> False)"

section \<open>Paths\<close>

text \<open>\<open>filepath.Clean\<close> of a relative path, as its parts: no part is empty or a dot, and \<open>..\<close> only at the front.\<close>

definition dotdot :: string where "dotdot = ''..''"

fun clean_step :: "string list \<Rightarrow> string \<Rightarrow> string list" where
  "clean_step st p =
     (if p = [] \<or> p = ''.'' then st
      else if p = dotdot then (if st = [] \<or> last st = dotdot then st @ [p] else butlast st)
      else st @ [p])"

definition clean_parts :: "string \<Rightarrow> string list" where
  "clean_parts rel = foldl clean_step [] (split_on (CHR ''/'') rel)"

definition is_abs :: "string \<Rightarrow> bool" where
  "is_abs p = has_prefix p ''/''"

definition nul :: char where "nul = CHR 0x00"

fun walk_parts :: "string \<Rightarrow> node \<Rightarrow> string list \<Rightarrow> string list \<Rightarrow> string list res" where
  "walk_parts rel root cur [] = Inr cur"
| "walk_parts rel root cur (p # ps) =
     (case lstat root (cur @ [p]) of
        None \<Rightarrow> Inl (Errorf ''path %q does not exist in the repository'' [AStr rel])
      | Some n \<Rightarrow> if is_symlink n then Inl (Errorf ''path %q goes through a symlink'' [AStr rel])
                  else walk_parts rel root (cur @ [p]) ps)"

definition SafeJoin :: "node \<Rightarrow> string \<Rightarrow> string list res" where
  "SafeJoin root rel =
     (if rel = [] \<or> is_abs rel \<or> nul \<in> set rel then Inl (Errorf ''invalid path %q'' [AStr rel])
      else let parts = clean_parts rel in
        if parts \<noteq> [] \<and> hd parts = dotdot then Inl (Errorf ''path %q escapes the repository'' [AStr rel])
        else walk_parts rel root [] parts)"

definition ReadRegular :: "node \<Rightarrow> string \<Rightarrow> int \<Rightarrow> string res" where
  "ReadRegular root rel lim =
     res_bind (SafeJoin root rel) (\<lambda>p.
       case lstat root p of
         Some (File data) \<Rightarrow>
           if lim < int (length data) then Inl (Errorf ''%s is larger than %d bytes'' [AStr rel, AInt lim]) else Inr data
       | _ \<Rightarrow> Inl (Errorf ''%s is missing or not a regular file'' [AStr rel]))"

section \<open>The limits on a tree\<close>

record src_limits =
  sl_MaxSourceBytes :: int
  sl_MaxFiles :: int

text \<open>What \<open>CheckTree\<close> has seen: the files with their digests, in the order of the walk, and their size.\<close>

record tree_walk =
  tw_entries :: "(string \<times> string) list"
  tw_total :: int

definition path_in :: "string \<Rightarrow> string \<Rightarrow> string" where
  "path_in dir n = (if dir = [] then n else dir @ ''/'' @ n)"

fun check_node :: "src_limits \<Rightarrow> (string \<Rightarrow> string) \<Rightarrow> string \<Rightarrow> node \<Rightarrow> tree_walk \<Rightarrow> tree_walk res"
  and check_entries :: "src_limits \<Rightarrow> (string \<Rightarrow> string) \<Rightarrow> string \<Rightarrow> (string \<times> node) list \<Rightarrow> tree_walk \<Rightarrow> tree_walk res" where
  "check_node L sha rel (Symlink t) s = Inl (Errorf ''%s is a symlink; symlinks are not allowed in plugin sources'' [AStr rel])"
| "check_node L sha rel Special s = Inl (Errorf ''%s is not a regular file'' [AStr rel])"
| "check_node L sha rel (Dir es) s = check_entries L sha rel es s"
| "check_node L sha rel (File data) s =
     (let s1 = s\<lparr>tw_total := tw_total s + int (length data)\<rparr> in
      if sl_MaxSourceBytes L < tw_total s1 then Inl (Errorf ''source exceeds the %d byte limit'' [AInt (sl_MaxSourceBytes L)])
      else if sl_MaxFiles L \<le> int (length (tw_entries s)) then Inl (Errorf ''source has more than %d files'' [AInt (sl_MaxFiles L)])
      else Inr (s1\<lparr>tw_entries := tw_entries s @ [(rel, sha data)]\<rparr>))"
| "check_entries L sha rel [] s = Inr s"
| "check_entries L sha rel ((n, x) # es) s =
     res_bind (check_node L sha (path_in rel n) x s) (check_entries L sha rel es)"

definition tree_text :: "(string \<times> string) list \<Rightarrow> string" where
  "tree_text es = concat (map (\<lambda>(rel, digest). rel @ [nul] @ digest @ [CHR 0x0A]) (sort_key fst es))"

text \<open>The root itself is not looked at.\<close>

definition CheckTree :: "src_limits \<Rightarrow> (string \<Rightarrow> string) \<Rightarrow> node \<Rightarrow> string res" where
  "CheckTree L sha root =
     (case root of
        Dir es \<Rightarrow> res_bind (check_entries L sha [] es \<lparr>tw_entries = [], tw_total = 0\<rparr>) (\<lambda>s. Inr (sha (tree_text (tw_entries s))))
      | _ \<Rightarrow> Inr (sha (tree_text [])))"

section \<open>Copying\<close>

text \<open>The copy and the state after it: bytes and files so far. Directories of caches and of git are skipped.\<close>

definition skipped_dir :: "string \<Rightarrow> bool" where
  "skipped_dir n \<longleftrightarrow> n = ''__pycache__'' \<or> n = ''.git''"

fun copy_node :: "src_limits \<Rightarrow> string \<Rightarrow> node \<Rightarrow> int \<times> int \<Rightarrow> (node \<times> int \<times> int) res"
  and copy_entries :: "src_limits \<Rightarrow> string \<Rightarrow> (string \<times> node) list \<Rightarrow> int \<times> int \<Rightarrow> ((string \<times> node) list \<times> int \<times> int) res" where
  "copy_node L rel (Symlink t) s = Inl (Errorf ''%s is a symlink'' [AStr rel])"
| "copy_node L rel Special s = Inl (Errorf ''%s is not a regular file'' [AStr rel])"
| "copy_node L rel (Dir es) s = res_bind (copy_entries L rel es s) (\<lambda>(fs, t). Inr (Dir fs, t))"
| "copy_node L rel (File data) (bytes, files) =
     (let bytes1 = bytes + int (length data); files1 = files + 1 in
      if sl_MaxSourceBytes L < bytes1 \<or> sl_MaxFiles L < files1 then Inl (Errorf ''plugin package exceeds the source limits'' [])
      else Inr (File data, bytes1, files1))"
| "copy_entries L rel [] s = Inr ([], s)"
| "copy_entries L rel ((n, x) # es) s =
     (if skipped_dir n \<and> isDir (Some x) then copy_entries L rel es s
      else res_bind (copy_node L (path_in rel n) x s) (\<lambda>(y, t).
             res_bind (copy_entries L rel es t) (\<lambda>(fs, u). Inr ((n, y) # fs, u))))"

text \<open>The copy of a tree whose root has the given name: \<open>None\<close> when the root itself is skipped.\<close>

definition copyTree :: "src_limits \<Rightarrow> string \<Rightarrow> node \<Rightarrow> node option res" where
  "copyTree L name root =
     (if skipped_dir name \<and> isDir (Some root) then Inr None
      else res_bind (copy_node L ''.'' root (0, 0)) (\<lambda>(n, t). Inr (Some n)))"

section \<open>Fetching\<close>

definition gh_char :: "char \<Rightarrow> bool" where
  "gh_char c \<longleftrightarrow> is_alnum c \<or> c \<in> {CHR ''.'', CHR ''_'', CHR ''-''}"

definition githubRE :: rx where
  "githubRE = rx_seqs [rx_lit ''https://github.com/'', RSet is_alnum, rx_rep 0 38 (RSet (\<lambda>c. is_alnum c \<or> c = CHR ''-'')),
     rx_char (CHR ''/''), rx_rep 1 100 (RSet gh_char), rx_opt (rx_lit ''.git'')]"

definition fetchRevisionRE :: rx where
  "fetchRevisionRE = rx_seqs [RSet is_alnum, rx_rep 0 99 (RSet (\<lambda>c. gh_char c \<or> c = CHR ''/''))]"

definition is_hex_lower :: "char \<Rightarrow> bool" where
  "is_hex_lower c \<longleftrightarrow> is_digit c \<or> in_range (CHR ''a'') (CHR ''f'') c"

definition commitRE :: rx where
  "commitRE = rx_rep 40 40 (RSet is_hex_lower)"

definition ValidateRepoURL :: "string \<Rightarrow> bool \<Rightarrow> goerr option" where
  "ValidateRepoURL u allowLocal =
     (if rx_match githubRE u then None
      else if allowLocal \<and> is_abs u \<and> nul \<notin> set u \<and> CHR 0x0A \<notin> set u then None
      else Some (Errorf ''repository must be an https://github.com/<owner>/<repo> URL'' []))"

text \<open>
  What fetching does to the world: making the destination, running git in it (\<open>runGit\<close>, the trimmed output), and
  removing a directory of it.
\<close>

record 'w git_ops =
  go_MkdirAll :: "'w \<Rightarrow> goerr option \<times> 'w"
  go_runGit :: "string list \<Rightarrow> 'w \<Rightarrow> string res \<times> 'w"
  go_RemoveAll :: "string \<Rightarrow> 'w \<Rightarrow> goerr option \<times> 'w"

definition fetch_steps :: "string \<Rightarrow> string \<Rightarrow> string list list" where
  "fetch_steps repoURL revision =
     [[''init'', ''--quiet''],
      [''config'', ''core.symlinks'', ''false''],
      [''config'', ''core.hooksPath'', ''/dev/null''],
      [''remote'', ''add'', ''origin'', repoURL],
      [''fetch'', ''--quiet'', ''--depth'', ''1'', ''--no-tags'', ''--no-recurse-submodules'', ''origin'', revision],
      [''-c'', ''advice.detachedHead=false'', ''checkout'', ''--quiet'', ''--detach'', ''FETCH_HEAD'']]"

fun run_steps :: "'w git_ops \<Rightarrow> string list list \<Rightarrow> 'w \<Rightarrow> goerr option \<times> 'w" where
  "run_steps G [] w = (None, w)"
| "run_steps G (s # ss) w =
     (case go_runGit G s w of (Inl e, u) \<Rightarrow> (Some e, u) | (Inr out, u) \<Rightarrow> run_steps G ss u)"

definition check_revision :: "string \<Rightarrow> string res" where
  "check_revision revision =
     (let r = (if revision = [] then ''HEAD'' else revision) in
      if r \<noteq> ''HEAD'' \<and> \<not> rx_match fetchRevisionRE r \<or> str_contains r dotdot then Inl (Errorf ''invalid revision'' []) else Inr r)"

definition resolve_commit :: "'w git_ops \<Rightarrow> 'w \<Rightarrow> string res \<times> 'w" where
  "resolve_commit G w =
     (let unresolved = Inl (Errorf ''could not resolve the revision to a commit'' []) in
      case go_runGit G [''rev-parse'', ''HEAD''] w of
        (Inl e, u) \<Rightarrow> (unresolved, u)
      | (Inr commit, u) \<Rightarrow>
          if \<not> rx_match commitRE commit then (unresolved, u)
          else (case go_RemoveAll G ''.git'' u of (Some e, v) \<Rightarrow> (Inl e, v) | (None, v) \<Rightarrow> (Inr commit, v)))"

definition FetchRepo :: "'w git_ops \<Rightarrow> string \<Rightarrow> string \<Rightarrow> bool \<Rightarrow> 'w \<Rightarrow> string res \<times> 'w" where
  "FetchRepo G repoURL revision allowLocal w =
     (case ValidateRepoURL repoURL allowLocal of
        Some e \<Rightarrow> (Inl e, w)
      | None \<Rightarrow>
          (case check_revision revision of
             Inl e \<Rightarrow> (Inl e, w)
           | Inr r \<Rightarrow>
               (case go_MkdirAll G w of
                  (Some e, u) \<Rightarrow> (Inl e, u)
                | (None, u) \<Rightarrow>
                    (case run_steps G (fetch_steps repoURL r) u of
                       (Some e, v) \<Rightarrow> (Inl e, v)
                     | (None, v) \<Rightarrow> resolve_commit G v))))"

section \<open>Joining paths\<close>

lemma dotdot_neq [simp]: "dotdot \<noteq> []" "dotdot \<noteq> ''.''"
  by (simp_all add: dotdot_def)

lemma clean_step_form:
  assumes "dotdot \<notin> set r"
  shows "\<exists>m q. clean_step (replicate n dotdot @ r) p = replicate m dotdot @ q \<and> dotdot \<notin> set q"
proof (cases "p = dotdot \<and> r \<noteq> []")
  case True
  moreover have "last r \<noteq> dotdot" using assms True last_in_set by metis
  ultimately have "clean_step (replicate n dotdot @ r) p = replicate n dotdot @ butlast r"
    by (simp add: butlast_append)
  then show ?thesis using assms by (metis in_set_butlastD)
next
  case False
  show ?thesis
  proof (cases "p = dotdot")
    case True
    then have "clean_step (replicate n dotdot @ r) p = replicate (Suc n) dotdot @ []"
      using False by (cases n) (simp_all add: replicate_append_same)
    then show ?thesis by (metis empty_iff list.set(1))
  next
    case no: False
    have "clean_step (replicate n dotdot @ r) p = replicate n dotdot @ (if p = [] \<or> p = ''.'' then r else r @ [p])"
      using no by simp
    moreover have "dotdot \<notin> set (if p = [] \<or> p = ''.'' then r else r @ [p])" using assms no by auto
    ultimately show ?thesis by blast
  qed
qed

lemma foldl_clean_form:
  "dotdot \<notin> set r \<Longrightarrow> \<exists>m q. foldl clean_step (replicate n dotdot @ r) ps = replicate m dotdot @ q \<and> dotdot \<notin> set q"
proof (induction ps arbitrary: n r)
  case (Cons p ps)
  obtain m q where "clean_step (replicate n dotdot @ r) p = replicate m dotdot @ q" "dotdot \<notin> set q"
    using clean_step_form[OF Cons.prems] by blast
  then show ?case using Cons.IH by simp
qed auto

lemma clean_parts_no_dotdot:
  assumes "clean_parts rel = [] \<or> hd (clean_parts rel) \<noteq> dotdot"
  shows "dotdot \<notin> set (clean_parts rel)"
proof -
  obtain m q where q: "clean_parts rel = replicate m dotdot @ q" "dotdot \<notin> set q"
    using foldl_clean_form[of "[]" 0 "split_on (CHR ''/'') rel"] by (auto simp: clean_parts_def)
  then show ?thesis using assms by (cases m) auto
qed

lemma walk_parts_sound:
  "walk_parts rel root cur ps = Inr p \<Longrightarrow> lstat root cur \<noteq> None \<Longrightarrow>
     p = cur @ ps \<and> lstat root p \<noteq> None \<and>
     (\<forall>k. length cur < k \<longrightarrow> k \<le> length p \<longrightarrow> (\<exists>n. lstat root (take k p) = Some n \<and> \<not> is_symlink n))"
proof (induction ps arbitrary: cur)
  case (Cons a ps)
  from Cons.prems obtain n where n: "lstat root (cur @ [a]) = Some n" "\<not> is_symlink n"
      "walk_parts rel root (cur @ [a]) ps = Inr p"
    by (auto split: option.splits if_splits)
  have "lstat root (cur @ [a]) \<noteq> None" using n(1) by simp
  note ih = Cons.IH[OF n(3) this]
  show ?case
  proof (intro conjI allI impI)
    fix k assume k: "length cur < k" "k \<le> length p"
    show "\<exists>n. lstat root (take k p) = Some n \<and> \<not> is_symlink n"
    proof (cases "k = Suc (length cur)")
      case True
      then have "take k p = cur @ [a]" using ih n by simp
      then show ?thesis using n by simp
    qed (use ih k in auto)
  qed (use ih in auto)
qed simp

lemma SafeJoin_parts: "SafeJoin root rel = Inr p \<Longrightarrow> p = clean_parts rel \<and> dotdot \<notin> set p"
  using walk_parts_sound[of rel root "[]" "clean_parts rel" p] clean_parts_no_dotdot[of rel]
  by (auto simp: SafeJoin_def Let_def split: if_splits)

text \<open>
  A path the controller joins to a source tree stays in the tree: it has no \<open>..\<close>, every part of it exists, and
  neither the path nor a directory on the way is a symbolic link.
\<close>

theorem joined_paths_stay_in_the_tree:
  assumes "SafeJoin root rel = Inr p"
  shows "dotdot \<notin> set p \<and> (\<forall>k. 0 < k \<longrightarrow> k \<le> length p \<longrightarrow> (\<exists>n. lstat root (take k p) = Some n \<and> \<not> is_symlink n))"
proof -
  have "walk_parts rel root [] (clean_parts rel) = Inr p"
    using assms by (simp add: SafeJoin_def Let_def split: if_splits)
  from walk_parts_sound[OF this] SafeJoin_parts[OF assms] show ?thesis by auto
qed

section \<open>Limits\<close>

text \<open>What the limits are about: a tree of files and directories only, its files in order and their sizes.\<close>

fun plain :: "node \<Rightarrow> bool" where
  "plain (File d) = True"
| "plain (Dir es) = (\<forall>e\<in>set es. plain (snd e))"
| "plain (Symlink t) = False"
| "plain Special = False"

fun files_of :: "string \<Rightarrow> node \<Rightarrow> (string \<times> string) list" where
  "files_of rel (File d) = [(rel, d)]"
| "files_of rel (Dir es) = concat (map (\<lambda>e. files_of (path_in rel (fst e)) (snd e)) es)"
| "files_of rel (Symlink t) = []"
| "files_of rel Special = []"

definition bytes_of :: "(string \<times> string) list \<Rightarrow> int" where
  "bytes_of fs = sum_list (map (\<lambda>f. int (length (snd f))) fs)"

lemma bytes_of_simps [simp]:
  "bytes_of [] = 0" "bytes_of (f # fs) = int (length (snd f)) + bytes_of fs" "bytes_of (fs @ gs) = bytes_of fs + bytes_of gs"
  by (simp_all add: bytes_of_def)

lemma bytes_of_nonneg [simp]: "0 \<le> bytes_of fs"
  by (induction fs) auto

text \<open>The walk after the files: what was seen, and these.\<close>

definition seen :: "(string \<Rightarrow> string) \<Rightarrow> tree_walk \<Rightarrow> (string \<times> string) list \<Rightarrow> tree_walk" where
  "seen sha s fs = \<lparr>tw_entries = tw_entries s @ map (\<lambda>f. (fst f, sha (snd f))) fs, tw_total = tw_total s + bytes_of fs\<rparr>"

definition fits :: "src_limits \<Rightarrow> tree_walk \<Rightarrow> (string \<times> string) list \<Rightarrow> bool" where
  "fits L s fs \<longleftrightarrow> tw_total s + bytes_of fs \<le> sl_MaxSourceBytes L \<and> int (length (tw_entries s) + length fs) \<le> sl_MaxFiles L"

definition in_limits :: "src_limits \<Rightarrow> tree_walk \<Rightarrow> bool" where
  "in_limits L s \<longleftrightarrow> fits L s []"

lemma seen_nil [simp]: "seen sha s [] = s"
  by (simp add: seen_def)

lemma seen_append: "seen sha (seen sha s fs) gs = seen sha s (fs @ gs)"
  by (simp add: seen_def)

lemma fits_append: "fits L s (fs @ gs) \<longleftrightarrow> fits L (seen sha s fs) gs"
  by (simp add: fits_def seen_def add.assoc)

lemma fits_more: "fits L s (fs @ gs) \<Longrightarrow> fits L s fs"
  using bytes_of_nonneg[of gs] by (simp add: fits_def del: bytes_of_nonneg)

lemma check_spec:
  "in_limits L s \<Longrightarrow> check_node L sha rel n s = Inr t \<longleftrightarrow>
     plain n \<and> fits L s (files_of rel n) \<and> t = seen sha s (files_of rel n)"
  "in_limits L s \<Longrightarrow> check_entries L sha rel es s = Inr t \<longleftrightarrow>
     plain (Dir es) \<and> fits L s (files_of rel (Dir es)) \<and> t = seen sha s (files_of rel (Dir es))"
proof (induction L sha rel n s and L sha rel es s arbitrary: t and t rule: check_node_check_entries.induct)
  case (4 L sha rel data s)
  then show ?case by (auto simp: Let_def fits_def in_limits_def seen_def)
next
  case (6 L sha rel n x es s)
  let ?f = "files_of (path_in rel n) x" and ?g = "files_of rel (Dir es)"
  have eq: "files_of rel (Dir ((n, x) # es)) = ?f @ ?g" by simp
  show ?case
  proof (cases "plain x \<and> fits L s ?f")
    case True
    then have step: "check_node L sha (path_in rel n) x s = Inr (seen sha s ?f)" using 6 by simp
    have lim: "in_limits L (seen sha s ?f)" using True fits_append[of L s ?f "[]" sha] by (simp add: in_limits_def)
    show ?thesis using step lim True 6(2)[OF lim, of t]
      unfolding eq by (simp add: fits_append[of L s ?f ?g sha] seen_append del: files_of.simps)
  next
    case False
    then have "\<not> (\<exists>u. check_node L sha (path_in rel n) x s = Inr u)" using 6 by simp
    moreover have "\<not> (plain (Dir ((n, x) # es)) \<and> fits L s (?f @ ?g))" using False fits_more by auto
    ultimately show ?thesis unfolding eq by (auto simp: res_bind_Inr)
  qed
qed (auto simp: in_limits_def)

lemma check_entries_iff:
  "(\<exists>t. check_entries L sha rel es s = Inr t) \<longleftrightarrow> plain (Dir es) \<and> fits L s (files_of rel (Dir es))" if "in_limits L s"
  using check_spec(2)[OF that] by blast

definition limits_nonneg :: "src_limits \<Rightarrow> bool" where
  "limits_nonneg L \<longleftrightarrow> 0 \<le> sl_MaxSourceBytes L \<and> 0 \<le> sl_MaxFiles L"

abbreviation "no_walk \<equiv> \<lparr>tw_entries = [], tw_total = 0\<rparr>"

lemma CheckTree_spec:
  assumes "limits_nonneg L"
  shows "CheckTree L sha (Dir es) = Inr d \<longleftrightarrow>
     plain (Dir es) \<and> bytes_of (files_of [] (Dir es)) \<le> sl_MaxSourceBytes L \<and>
     int (length (files_of [] (Dir es))) \<le> sl_MaxFiles L \<and>
     d = sha (tree_text (map (\<lambda>f. (fst f, sha (snd f))) (files_of [] (Dir es))))"
proof -
  have lim: "in_limits L no_walk" using assms by (simp add: in_limits_def fits_def limits_nonneg_def)
  show ?thesis
    using check_spec(2)[OF lim, of sha "[]" es]
    by (auto simp: CheckTree_def res_bind_Inr fits_def seen_def simp del: files_of.simps plain.simps)
qed

text \<open>
  \<open>CheckTree\<close> accepts a source tree exactly when it holds only files and directories, and the files are within the
  limits in number and in size.
\<close>

theorem checked_trees_are_within_the_limits:
  assumes "limits_nonneg L"
  shows "res_ok (CheckTree L sha (Dir es)) \<longleftrightarrow>
     plain (Dir es) \<and> bytes_of (files_of [] (Dir es)) \<le> sl_MaxSourceBytes L \<and>
     int (length (files_of [] (Dir es))) \<le> sl_MaxFiles L"
proof (cases "CheckTree L sha (Dir es)")
  case (Inl e)
  then show ?thesis using CheckTree_spec[OF assms, of sha es] by (auto simp del: files_of.simps plain.simps)
next
  case (Inr d)
  then show ?thesis using CheckTree_spec[OF assms, of sha es d] by (simp del: files_of.simps plain.simps)
qed

section \<open>Provenance\<close>

text \<open>Lines of a path and a digest, where no path has a NUL and no digest a line feed, are read back one way only.\<close>

abbreviation "lf \<equiv> CHR 0x0A"

lemma append_sep_eq: "x \<notin> set a \<Longrightarrow> x \<notin> set b \<Longrightarrow> a @ x # c = b @ x # d \<longleftrightarrow> a = b \<and> c = d"
proof (induction a arbitrary: b)
  case Nil then show ?case by (cases b) auto
next
  case (Cons y a) then show ?case by (cases b) auto
qed

definition lines_text :: "(string \<times> string) list \<Rightarrow> string" where
  "lines_text es = concat (map (\<lambda>(rel, digest). rel @ [nul] @ digest @ [lf]) es)"

lemma lines_text_inj:
  "(\<And>e. e \<in> set es \<union> set fs \<Longrightarrow> nul \<notin> set (fst e) \<and> lf \<notin> set (snd e)) \<Longrightarrow> lines_text es = lines_text fs \<Longrightarrow> es = fs"
proof (induction es arbitrary: fs)
  case Nil
  then show ?case by (cases fs) (auto simp: lines_text_def)
next
  case (Cons e es)
  obtain f gs where fs: "fs = f # gs" using Cons.prems by (cases fs) (auto simp: lines_text_def split: prod.splits)
  have ok: "nul \<notin> set (fst e)" "nul \<notin> set (fst f)" "lf \<notin> set (snd e)" "lf \<notin> set (snd f)"
    using Cons.prems(1) by (simp_all add: fs)
  have "fst e @ nul # (snd e @ lf # lines_text es) = fst f @ nul # (snd f @ lf # lines_text gs)"
    using Cons.prems(2) by (simp add: fs lines_text_def split: prod.splits)
  then have "fst e = fst f" "snd e @ lf # lines_text es = snd f @ lf # lines_text gs"
    using append_sep_eq[OF ok(1,2)] by simp_all
  then have eq: "e = f" "lines_text es = lines_text gs"
    using append_sep_eq[OF ok(3,4)] by (auto intro: prod_eqI)
  have "es = gs" by (rule Cons.IH) (use Cons.prems(1) eq in \<open>auto simp: fs\<close>)
  then show ?case using eq fs by simp
qed

text \<open>A digest function without collisions whose values are hexadecimal, as SHA-256 is taken to be.\<close>

definition good_digest :: "(string \<Rightarrow> string) \<Rightarrow> bool" where
  "good_digest sha \<longleftrightarrow> inj sha \<and> (\<forall>s. list_all is_hex_lower (sha s))"

fun names_ok :: "node \<Rightarrow> bool" where
  "names_ok (Dir es) \<longleftrightarrow> (\<forall>e\<in>set es. nul \<notin> set (fst e) \<and> names_ok (snd e))"
| "names_ok _ = True"

lemma files_of_no_nul:
  "names_ok n \<Longrightarrow> nul \<notin> set rel \<Longrightarrow> f \<in> set (files_of rel n) \<Longrightarrow> nul \<notin> set (fst f)"
proof (induction n arbitrary: rel)
  case (Dir es)
  then obtain e where e: "e \<in> set es" "f \<in> set (files_of (path_in rel (fst e)) (snd e))" by auto
  have sub: "snd e \<in> Basic_BNFs.snds e" by (cases e) simp
  have "nul \<notin> set (path_in rel (fst e))" using Dir.prems e by (auto simp: path_in_def nul_def)
  then show ?case using Dir.IH[OF e(1) sub] Dir.prems e by simp
qed auto

lemma hex_no_lf: "list_all is_hex_lower s \<Longrightarrow> lf \<notin> set s"
  by (auto simp: list_all_iff is_hex_lower_def is_digit_def in_range_def)


section \<open>Copies\<close>

text \<open>The tree without the directories that are skipped.\<close>

fun stripped :: "node \<Rightarrow> node" where
  "stripped (Dir es) = Dir (map (\<lambda>e. (fst e, stripped (snd e))) (filter (\<lambda>e. \<not> (skipped_dir (fst e) \<and> isDir (Some (snd e)))) es))"
| "stripped n = n"

text \<open>Nothing is skipped twice: what is left of an entry is a directory when the entry was one.\<close>

lemma copy_spec:
  "copy_node L rel n s = Inr (m, t) \<Longrightarrow>
     m = stripped n \<and> plain m \<and> fst t = fst s + bytes_of (files_of r m) \<and> snd t = snd s + int (length (files_of r m)) \<and>
     (fst s \<le> sl_MaxSourceBytes L \<and> snd s \<le> sl_MaxFiles L \<longrightarrow> fst t \<le> sl_MaxSourceBytes L \<and> snd t \<le> sl_MaxFiles L)"
  "copy_entries L rel es s = Inr (fs, t) \<Longrightarrow>
     Dir fs = stripped (Dir es) \<and> plain (Dir fs) \<and> fst t = fst s + bytes_of (files_of r (Dir fs)) \<and>
     snd t = snd s + int (length (files_of r (Dir fs))) \<and>
     (fst s \<le> sl_MaxSourceBytes L \<and> snd s \<le> sl_MaxFiles L \<longrightarrow> fst t \<le> sl_MaxSourceBytes L \<and> snd t \<le> sl_MaxFiles L)"
proof (induction L rel n s and L rel es s arbitrary: m t r and fs t r rule: copy_node_copy_entries.induct)
  case (3 L rel es s)
  then obtain fs where fs: "copy_entries L rel es s = Inr (fs, t)" "m = Dir fs" by (auto simp: res_bind_Inr)
  show ?case using 3(1)[OF fs(1), of r] unfolding fs(2) .
next
  case (4 L rel data bytes files)
  then show ?case by (auto simp: Let_def split: if_splits)
next
  case (6 L rel n x es s)
  show ?case
  proof (cases "skipped_dir n \<and> isDir (Some x)")
    case True
    have e: "copy_entries L rel es s = Inr (fs, t)" using 6(4) True by simp
    have st: "stripped (Dir ((n, x) # es)) = stripped (Dir es)" using True by simp
    show ?thesis unfolding st by (rule 6(1)[OF True e])
  next
    case False
    then obtain y u gs where st: "copy_node L (path_in rel n) x s = Inr (y, u)" "copy_entries L rel es u = Inr (gs, t)"
        "fs = (n, y) # gs"
      using 6(4) by (auto simp: res_bind_Inr)
    note a = 6(2)[OF False st(1), of "path_in r n"] and b = 6(3)[OF False st(2), of r]
    show ?thesis using a b False st(1) unfolding st(3) by auto
  qed
qed simp_all

text \<open>
  The copy of a source tree is the tree without the directories of caches and of git; it is accepted by
  \<open>CheckTree\<close> under the limits it was copied with.
\<close>

theorem copies_pass_the_check:
  assumes "limits_nonneg L" "copyTree L name (Dir es) = Inr (Some c)"
  shows "c = stripped (Dir es) \<and> res_ok (CheckTree L sha c)"
proof -
  obtain t where t: "copy_node L ''.'' (Dir es) (0, 0) = Inr (c, t)"
    using assms(2) by (auto simp: copyTree_def res_bind_Inr split: if_splits)
  obtain fs where c: "c = Dir fs" using t by (auto simp: res_bind_Inr)
  have "c = stripped (Dir es) \<and> plain c \<and> bytes_of (files_of [] c) \<le> sl_MaxSourceBytes L \<and>
      int (length (files_of [] c)) \<le> sl_MaxFiles L"
    using copy_spec(1)[OF t, of "[]"] assms(1) by (auto simp: limits_nonneg_def simp del: files_of.simps stripped.simps plain.simps)
  then show ?thesis using checked_trees_are_within_the_limits[OF assms(1), of sha fs] unfolding c by blast
qed

section \<open>Revisions and repositories\<close>

lemma fetch_revision_head: "rx_match fetchRevisionRE r \<Longrightarrow> \<exists>c t. r = c # t \<and> is_alnum c"
  by (auto simp: fetchRevisionRE_def rx_match_iff lang_RSet)

lemma alnum_not_dash: "is_alnum c \<Longrightarrow> c \<noteq> CHR ''-''"
  by (auto simp: is_alnum_def is_alpha_def is_digit_def)

lemma check_revision_ok: "check_revision rv = Inr r \<Longrightarrow> r \<noteq> [] \<and> hd r \<noteq> CHR ''-'' \<and> \<not> str_contains r dotdot"
  using fetch_revision_head[of r] alnum_not_dash by (auto simp: check_revision_def Let_def split: if_splits)

lemma github_url: "rx_match githubRE u \<Longrightarrow> has_prefix u ''https://github.com/''"
  by (auto simp: githubRE_def rx_match_iff has_prefix_iff lang_RSet)

text \<open>The commands a fetch may give to git.\<close>

definition safe_git :: "string list \<Rightarrow> bool" where
  "safe_git c \<longleftrightarrow>
     (\<exists>u r. c \<in> set (fetch_steps u r) \<and> has_prefix u ''https://github.com/'' \<and> r \<noteq> [] \<and> hd r \<noteq> CHR ''-'' \<and> \<not> str_contains r dotdot) \<or>
     c = [''rev-parse'', ''HEAD'']"

text \<open>The same world with the commands git was given so far.\<close>

definition logged :: "'w git_ops \<Rightarrow> (string list list \<times> 'w) git_ops" where
  "logged G = \<lparr>go_MkdirAll = (\<lambda>(l, w). case go_MkdirAll G w of (r, u) \<Rightarrow> (r, l, u)),
     go_runGit = (\<lambda>c (l, w). case go_runGit G c w of (r, u) \<Rightarrow> (r, l @ [c], u)),
     go_RemoveAll = (\<lambda>d (l, w). case go_RemoveAll G d w of (r, u) \<Rightarrow> (r, l, u))\<rparr>"

lemma logged_steps:
  "run_steps (logged G) cs (l, w) = (r, l1, w1) \<Longrightarrow> \<exists>ds. l1 = l @ ds \<and> set ds \<subseteq> set cs"
proof (induction cs arbitrary: l w)
  case Nil
  then show ?case by simp
next
  case (Cons c cs)
  obtain x u where x: "go_runGit G c w = (x, u)" by fastforce
  show ?case
  proof (cases x)
    case (Inl e)
    then have "l1 = l @ [c]" using Cons.prems x by (simp add: logged_def)
    then show ?thesis by auto
  next
    case (Inr y)
    then have "run_steps (logged G) cs (l @ [c], u) = (r, l1, w1)" using Cons.prems x by (simp add: logged_def)
    from Cons.IH[OF this] show ?thesis by force
  qed
qed

lemma logged_resolve:
  "resolve_commit (logged G) (l, w) = (r, l1, w1) \<Longrightarrow>
     l1 = l @ [[''rev-parse'', ''HEAD'']] \<and> (\<forall>commit. r = Inr commit \<longrightarrow> rx_match commitRE commit)"
  by (auto simp: resolve_commit_def logged_def Let_def split: prod.splits sum.splits option.splits if_splits)


section \<open>Examples\<close>

text \<open>A package with a cache directory, and the same files listed in another order.\<close>

definition demo_limits :: src_limits where
  "demo_limits = \<lparr>sl_MaxSourceBytes = 64, sl_MaxFiles = 8\<rparr>"

definition demo_tree :: node where
  "demo_tree = Dir [(''a.py'', File ''print(1)''), (''__pycache__'', Dir [(''x.pyc'', File ''00'')]), (''b'', Dir [(''c.txt'', File ''c'')])]"

definition demo_sorted :: node where
  "demo_sorted = Dir [(''__pycache__'', Dir [(''x.pyc'', File ''00'')]), (''a.py'', File ''print(1)''), (''b'', Dir [(''c.txt'', File ''c'')])]"

text \<open>A digest without collisions: every byte in unary, closed by a mark.\<close>

definition unary_digest :: "string \<Rightarrow> string" where
  "unary_digest s = concat (map (\<lambda>c. replicate (of_char c) (CHR ''a'') @ [CHR ''b'']) s)"

lemma unary_digest_simps:
  "unary_digest [] = []" "unary_digest (c # s) = replicate (of_char c) (CHR ''a'') @ CHR ''b'' # unary_digest s"
  by (simp_all add: unary_digest_def)

lemma unary_digest_inj: "unary_digest s = unary_digest t \<Longrightarrow> s = t"
proof (induction s arbitrary: t)
  case Nil
  then show ?case by (cases t) (simp_all add: unary_digest_simps)
next
  case (Cons c s)
  obtain d u where t: "t = d # u" using Cons.prems by (cases t) (simp_all add: unary_digest_simps)
  have "replicate (of_char c) (CHR ''a'') = replicate (of_char d) (CHR ''a'') \<and> unary_digest s = unary_digest u"
    using Cons.prems append_sep_eq[of "CHR ''b''" "replicate (of_char c) (CHR ''a'')" "replicate (of_char d) (CHR ''a'')"]
    by (simp add: t unary_digest_simps)
  then show ?case using Cons.IH by (simp add: t)
qed

lemma unary_digest_good: "good_digest unary_digest"
  by (auto simp: good_digest_def inj_def unary_digest_inj)
    (auto simp: unary_digest_def list_all_iff is_hex_lower_def in_range_def)

theorem joined_paths_stay_in_the_tree_witness:
  "\<exists>p. SafeJoin demo_tree ''./b/../b//c.txt'' = Inr p \<and> dotdot \<notin> set p"
proof -
  have "SafeJoin demo_tree ''./b/../b//c.txt'' = Inr [''b'', ''c.txt'']" by code_simp
  with joined_paths_stay_in_the_tree[OF this] show ?thesis by blast
qed

lemma demo_limits_nonneg: "limits_nonneg demo_limits"
  by (simp add: limits_nonneg_def demo_limits_def)

theorem checked_trees_are_within_the_limits_witness:
  "res_ok (CheckTree demo_limits unary_digest (Dir [(''a'', File ''xy'')]))"
  using checked_trees_are_within_the_limits[OF demo_limits_nonneg, of unary_digest "[(''a'', File ''xy'')]"]
  by (simp add: demo_limits_def)

lemma demo_checks:
  "CheckTree demo_limits sha demo_tree = CheckTree demo_limits sha demo_sorted" "res_ok (CheckTree demo_limits sha demo_tree)"
  by (simp_all add: CheckTree_def demo_tree_def demo_sorted_def demo_limits_def path_in_def tree_text_def Let_def)


theorem copies_pass_the_check_witness:
  "res_ok (CheckTree demo_limits unary_digest (stripped demo_tree))"
proof -
  obtain es where d: "demo_tree = Dir es" by (simp add: demo_tree_def)
  have "copyTree demo_limits ''src'' demo_tree = Inr (Some (stripped demo_tree))" by code_simp
  then show ?thesis using copies_pass_the_check[OF demo_limits_nonneg, of "''src''" es "stripped demo_tree" unary_digest]
    unfolding d by simp
qed

text \<open>A git whose fetch yields one commit.\<close>

definition demo_git :: "nat git_ops" where
  "demo_git = \<lparr>go_MkdirAll = (\<lambda>w. (None, Suc w)),
     go_runGit = (\<lambda>c w. (Inr (if c = [''rev-parse'', ''HEAD''] then replicate 40 (CHR ''a'') else []), Suc w)),
     go_RemoveAll = (\<lambda>d w. (None, Suc w))\<rparr>"


end
