(* ===== verification/Docker.thy ===== *)
theory Docker
  imports Source_Tree Secrets Http_Client
begin

text \<open>
  The container backend (\<open>internal/plugins/controller/docker.go\<close>): the controller drives Docker by running its
  command-line program. \<open>docker\<close> holds what the code relies on: running the program with a list of arguments
  (output, error output, error), temporary files, JSON and tar reading, the text of an error, and the scrubbing of
  texts; its context's error is \<open>dk_ctx\<close>. The operations are those of the interface \<open>Runtime\<close>, collected in the
  record \<open>runtime\<close>.
\<close>

section \<open>Images and containers\<close>

record ImageInfo =
  ii_ID :: string
  ii_RepoDigest :: string
  ii_Size :: int
  ii_Tags :: "string list"

definition Pinned :: "ImageInfo \<Rightarrow> string" where
  "Pinned i = (if ii_RepoDigest i \<noteq> [] then ii_RepoDigest i else ii_ID i)"

record BuildSpec =
  bs_ContextDir :: string
  bs_Dockerfile :: string
  bs_Tag :: string
  bs_Labels :: "(string, string) gomap"

record RunSpec =
  rs_Name :: string
  rs_Image :: string
  rs_Port :: int
  rs_Env :: "(string, string) gomap"
  rs_Labels :: "(string, string) gomap"
  rs_CPUs :: f64
  rs_Memory :: int
  rs_PIDs :: int
  rs_Tmpfs :: int
  rs_Network :: string
  rs_Internal :: bool
  rs_Publish :: bool
  rs_AttachSelf :: string

record ContainerInfo =
  ci_Running :: bool
  ci_Labels :: "(string, string) gomap"

definition LabelManaged :: string where "LabelManaged = ''llmcache.plugin''"
definition LabelID :: string where "LabelID = ''llmcache.plugin.id''"
definition LabelEnvHash :: string where "LabelEnvHash = ''llmcache.plugin.envhash''"
definition LabelDigest :: string where "LabelDigest = ''llmcache.plugin.digest''"

text \<open>The interface \<open>Runtime\<close>, over the state of the world.\<close>

record 'w runtime =
  rt_PullOrInspect :: "string \<Rightarrow> bool \<Rightarrow> 'w \<Rightarrow> ImageInfo res \<times> 'w"
  rt_Build :: "BuildSpec \<Rightarrow> 'w \<Rightarrow> (string list \<times> goerr option) \<times> 'w"
  rt_InspectImage :: "string \<Rightarrow> 'w \<Rightarrow> ImageInfo res \<times> 'w"
  rt_RemoveImage :: "string \<Rightarrow> 'w \<Rightarrow> 'w"
  rt_ReadFileFromImage :: "string \<Rightarrow> string \<Rightarrow> int \<Rightarrow> 'w \<Rightarrow> string res \<times> 'w"
  rt_Run :: "RunSpec \<Rightarrow> 'w \<Rightarrow> goerr option \<times> 'w"
  rt_Remove :: "string \<Rightarrow> 'w \<Rightarrow> 'w"
  rt_Logs :: "string \<Rightarrow> int \<Rightarrow> 'w \<Rightarrow> string list res \<times> 'w"
  rt_Inspect :: "string \<Rightarrow> 'w \<Rightarrow> ContainerInfo option res \<times> 'w"
  rt_Address :: "string \<Rightarrow> int \<Rightarrow> 'w \<Rightarrow> string res \<times> 'w"

section \<open>The docker program\<close>

record 'w docker =
  dk_Self :: string
  dk_exec :: "string list \<Rightarrow> 'w \<Rightarrow> (string \<times> string \<times> goerr option) \<times> 'w"
  dk_exec_all :: "string list \<Rightarrow> 'w \<Rightarrow> (string \<times> goerr option) \<times> 'w"  \<comment> \<open>both outputs in one\<close>
  dk_ctx :: "'w \<Rightarrow> goerr option"
  dk_json :: "string \<Rightarrow> json res"
  dk_tar :: "string \<Rightarrow> (bool \<times> string) option"  \<comment> \<open>the first member: is it a regular file, and its content\<close>
  dk_CreateTemp :: "'w \<Rightarrow> string res \<times> 'w"
  dk_Chmod :: "string \<Rightarrow> int \<Rightarrow> 'w \<Rightarrow> goerr option \<times> 'w"
  dk_Close :: "string \<Rightarrow> string \<Rightarrow> 'w \<Rightarrow> goerr option \<times> 'w"  \<comment> \<open>the file and what was written to it\<close>
  dk_RemoveFile :: "string \<Rightarrow> 'w \<Rightarrow> 'w"
  dk_text :: "goerr \<Rightarrow> string"
  dk_scrub :: "string \<Rightarrow> string"

definition tail_text :: "string \<Rightarrow> nat \<Rightarrow> string" where
  "tail_text s n = (let t = trim_space s in if n < length t then ''...'' @ drop (length t - n) t else t)"

definition docker_run :: "'w docker \<Rightarrow> string list \<Rightarrow> 'w \<Rightarrow> (string \<times> goerr option) \<times> 'w" where
  "docker_run D args w =
     (case dk_exec D args w of
        ((out, errb, Some e), u) \<Rightarrow>
          ((out, Some (Errorf ''docker %s: %w: %s'' [AStr (hd args), AWrap e, AStr (tail_text errb 400)])), u)
      | ((out, errb, None), u) \<Rightarrow> ((out, None), u))"

definition ref_char :: "char \<Rightarrow> bool" where
  "ref_char c \<longleftrightarrow> is_alnum c \<or> c \<in> set ''._:/@-''"

definition imageRefRE :: rx where
  "imageRefRE = rx_seqs [RSet is_alnum, rx_rep 0 299 (RSet ref_char)]"

definition name_char :: "char \<Rightarrow> bool" where
  "name_char c \<longleftrightarrow> is_lower_digit c \<or> c = CHR ''_'' \<or> c = CHR ''-''"

definition containerNameRE :: rx where
  "containerNameRE = rx_seqs [rx_lit ''llmcache-plugin-'', rx_rep 1 64 (RSet name_char)]"

definition containerIdRE :: rx where
  "containerIdRE = rx_rep 12 64 (RSet is_hex_lower)"

section \<open>Output\<close>

text \<open>The last sanitised lines of an output, at most so many.\<close>

definition scrub_line :: "(string \<Rightarrow> string) \<Rightarrow> string \<Rightarrow> string list" where
  "scrub_line scrub l =
     (let t = trim_space l in
      if t = [] then []
      else let u = scrub t in [if 400 < length u then take 400 u @ ''...'' else u])"

definition last_lines :: "nat \<Rightarrow> 'a list \<Rightarrow> 'a list" where
  "last_lines n ls = drop (length ls - n) ls"

definition scrubLines :: "(string \<Rightarrow> string) \<Rightarrow> string \<Rightarrow> nat \<Rightarrow> string list" where
  "scrubLines scrub s n =
     last_lines n (concat (map (scrub_line scrub)
       (split_on (CHR 0x0A) (map (\<lambda>c. if c = CHR 0x0D then CHR 0x0A else c) s))))"

section \<open>Images\<close>

definition json_strings :: "json \<Rightarrow> string list res" where
  "json_strings j = res_bind (json_slice (\<lambda>x. json_string x []) j) (\<lambda>r. Inr (case r of Some l \<Rightarrow> l | None \<Rightarrow> []))"

definition image_fields :: "(string \<times> ImageInfo setter) list" where
  "image_fields =
     [(''Id'', \<lambda>j i. res_bind (json_string j (ii_ID i)) (\<lambda>v. Inr (i\<lparr>ii_ID := v\<rparr>))),
      (''RepoTags'', \<lambda>j i. res_bind (json_strings j) (\<lambda>v. Inr (i\<lparr>ii_Tags := v\<rparr>))),
      (''Size'', \<lambda>j i. res_bind (json_int j (ii_Size i)) (\<lambda>v. Inr (i\<lparr>ii_Size := v\<rparr>)))]"

text \<open>The fields of \<open>inspectJSON\<close>: those that are copied, and the digests.\<close>

definition inspect_fields :: "(string \<times> (ImageInfo \<times> string list) setter) list" where
  "inspect_fields =
     (''RepoDigests'', \<lambda>j (i, ds). res_bind (json_strings j) (\<lambda>v. Inr (i, v)))
     # map (\<lambda>(n, f). (n, \<lambda>j (i, ds). res_bind (f j i) (\<lambda>k. Inr (k, ds)))) image_fields"

definition digest_mark :: string where "digest_mark = ''@sha256:''"

definition digest_of :: "string list \<Rightarrow> string" where
  "digest_of ds =
     (case List.find (\<lambda>rd. str_contains rd digest_mark) (sort ds) of
        None \<Rightarrow> []
      | Some rd \<Rightarrow> (case str_cut rd digest_mark of None \<Rightarrow> [] | Some (a, b) \<Rightarrow> tl digest_mark @ b))"

definition invalid_image :: goerr where
  "invalid_image = Errorf ''invalid image reference'' []"

definition docker_InspectImage :: "'w docker \<Rightarrow> string \<Rightarrow> 'w \<Rightarrow> ImageInfo res \<times> 'w" where
  "docker_InspectImage D ref w =
     (if \<not> rx_match imageRefRE ref then (Inl invalid_image, w)
      else case docker_run D [''image'', ''inspect'', ''--format'', ''{{json .}}'', ref] w of
        ((out, Some e), u) \<Rightarrow> (Inl e, u)
      | ((out, None), u) \<Rightarrow>
          (case res_bind (dk_json D (trim_space out))
                  (\<lambda>j. json_struct inspect_fields j (\<lparr>ii_ID = [], ii_RepoDigest = [], ii_Size = 0, ii_Tags = []\<rparr>, [])) of
             Inl e \<Rightarrow> (Inl (Errorf ''unreadable image metadata: %w'' [AWrap e]), u)
           | Inr (i, ds) \<Rightarrow> (Inr (i\<lparr>ii_RepoDigest := digest_of ds\<rparr>), u)))"

definition docker_pull :: "'w docker \<Rightarrow> string \<Rightarrow> bool \<Rightarrow> 'w \<Rightarrow> ImageInfo res \<times> 'w" where
  "docker_pull D ref allowLocal w =
     (case docker_run D [''pull'', ''--quiet'', ref] w of
        ((out, Some e), u) \<Rightarrow> (Inl e, u)
      | ((out, None), u) \<Rightarrow>
          (case docker_InspectImage D ref u of
             (Inl e, v) \<Rightarrow> (Inl e, v)
           | (Inr info, v) \<Rightarrow>
               (if ii_RepoDigest info = [] \<and> \<not> allowLocal
                then Inl (Errorf ''the image has no registry digest to pin'' []) else Inr info, v)))"

definition docker_PullOrInspect :: "'w docker \<Rightarrow> string \<Rightarrow> bool \<Rightarrow> 'w \<Rightarrow> ImageInfo res \<times> 'w" where
  "docker_PullOrInspect D ref allowLocal w =
     (if \<not> rx_match imageRefRE ref \<or> has_prefix ref ''-'' then (Inl invalid_image, w)
      else if allowLocal
        then (case docker_InspectImage D ref w of (Inr info, u) \<Rightarrow> (Inr info, u) | (Inl e, u) \<Rightarrow> docker_pull D ref allowLocal u)
      else docker_pull D ref allowLocal w)"

text \<open>\<open>--label\<close> arguments, in the order of the names.\<close>

definition label_args :: "(string, string) gomap \<Rightarrow> string list" where
  "label_args m = concat (map (\<lambda>k. [''--label'', k @ ''='' @ (case gm_get m k of Some v \<Rightarrow> v | None \<Rightarrow> [])]) (sort (gm_keys m)))"

definition build_args :: "BuildSpec \<Rightarrow> string list" where
  "build_args b = [''build'', ''--tag'', bs_Tag b, ''--file'', bs_Dockerfile b] @ label_args (bs_Labels b) @ [bs_ContextDir b]"

definition docker_Build :: "'w docker \<Rightarrow> BuildSpec \<Rightarrow> 'w \<Rightarrow> (string list \<times> goerr option) \<times> 'w" where
  "docker_Build D b w =
     (case dk_exec_all D (build_args b) w of
        ((out, err), u) \<Rightarrow>
          (let ls = scrubLines (dk_scrub D) out 300 in
           case err of
             None \<Rightarrow> ((ls, None), u)
           | Some e \<Rightarrow>
               (case dk_ctx D u of
                  Some c \<Rightarrow> ((ls, Some (Errorf ''build exceeded its time limit: %w'' [AWrap c])), u)
                | None \<Rightarrow> ((ls, Some (Errorf ''docker build failed: %w: %s'' [AWrap e, AStr (str_join '' | '' (last_lines 8 ls))])), u))))"

definition docker_RemoveImage :: "'w docker \<Rightarrow> string \<Rightarrow> 'w \<Rightarrow> 'w" where
  "docker_RemoveImage D ref w =
     (if rx_match imageRefRE ref then snd (dk_exec D [''image'', ''rm'', ''--force'', ref] w) else w)"

text \<open>The container made for reading a file is removed on every way out.\<close>

definition docker_copy_out :: "'w docker \<Rightarrow> string \<Rightarrow> string \<Rightarrow> int \<Rightarrow> 'w \<Rightarrow> string res \<times> 'w" where
  "docker_copy_out D cid path most w =
     (case dk_exec D [''cp'', cid @ '':'' @ path, ''-''] w of
        ((raw, errb, Some e), u) \<Rightarrow> (Inl (Errorf ''%s not found in the image'' [AStr path]), u)
      | ((raw, errb, None), u) \<Rightarrow>
          (case dk_tar D raw of
             Some (True, data) \<Rightarrow>
               (if most < int (length data) then Inl (Errorf ''%s in the image is larger than %d bytes'' [AStr path, AInt most]) else Inr data, u)
           | _ \<Rightarrow> (Inl (Errorf ''%s in the image is not a regular file'' [AStr path]), u)))"

definition docker_ReadFileFromImage :: "'w docker \<Rightarrow> string \<Rightarrow> string \<Rightarrow> int \<Rightarrow> 'w \<Rightarrow> string res \<times> 'w" where
  "docker_ReadFileFromImage D ref path most w =
     (if \<not> rx_match imageRefRE ref \<or> \<not> has_prefix path ''/'' \<or> CHR '' '' \<in> set path \<or> CHR 0x0A \<in> set path \<or> nul \<in> set path
      then (Inl (Errorf ''invalid image file request'' []), w)
      else case docker_run D [''create'', ''--pull=never'', ''--network=none'', ref] w of
        ((out, Some e), u) \<Rightarrow> (Inl e, u)
      | ((out, None), u) \<Rightarrow>
          (let cid = trim_space out in
           if \<not> rx_match containerIdRE cid then (Inl (Errorf ''unexpected container id'' []), u)
           else case docker_copy_out D cid path most u of
             (r, v) \<Rightarrow> (r, snd (dk_exec D [''rm'', ''--force'', cid] v))))"

section \<open>Running\<close>

text \<open>\<open>FormatFloat(x, 'f', 3, 64)\<close>: the nearest decimal with three places, ties to even.\<close>

definition pad3 :: "int \<Rightarrow> string" where
  "pad3 n = (let d = itoa n in replicate (3 - length d) (CHR ''0'') @ d)"

fun format_float3 :: "f64 \<Rightarrow> string" where
  "format_float3 F_NaN = ''NaN''"
| "format_float3 (F_Inf neg) = (if neg then ''-Inf'' else ''+Inf'')"
| "format_float3 (F_Zero neg) = (if neg then ''-0.000'' else ''0.000'')"
| "format_float3 (F_Num q) =
     (let (a, b) = quotient_of \<bar>q\<bar>; n = div_even (a * 1000) b
      in (if q < 0 then ''-'' else []) @ itoa (n div 1000) @ ''.'' @ pad3 (n mod 1000))"

definition RunArgs :: "RunSpec \<Rightarrow> string \<Rightarrow> string list" where
  "RunArgs s envFile =
     [''run'', ''--detach'', ''--pull=never'', ''--name'', rs_Name s,
      ''--read-only'',
      ''--tmpfs'', ''/tmp:rw,noexec,nosuid,nodev,size='' @ itoa (rs_Tmpfs s),
      ''--user'', ''10001:10001'',
      ''--cap-drop'', ''ALL'',
      ''--security-opt'', ''no-new-privileges'',
      ''--pids-limit'', itoa (rs_PIDs s),
      ''--memory'', itoa (rs_Memory s),
      ''--memory-swap'', itoa (rs_Memory s),
      ''--cpus'', format_float3 (rs_CPUs s),
      ''--init'',
      ''--restart'', ''on-failure:5'',
      ''--env-file'', envFile,
      ''--network'', rs_Network s,
      ''--log-opt'', ''max-size=5m'', ''--log-opt'', ''max-file=2'']
     @ (if rs_Publish s then [''--publish'', ''127.0.0.1::'' @ itoa (rs_Port s)] else [])
     @ label_args (rs_Labels s) @ [rs_Image s]"

definition env_bad :: "string \<Rightarrow> string \<Rightarrow> bool" where
  "env_bad k v \<longleftrightarrow> list_ex (\<lambda>c. c \<in> set ''= '' \<or> c = CHR 0x0A \<or> c = nul) k \<or>
     list_ex (\<lambda>c. c = CHR 0x0A \<or> c = CHR 0x0D \<or> c = nul) v"

fun env_text :: "(string, string) gomap \<Rightarrow> string list \<Rightarrow> string res" where
  "env_text env [] = Inr []"
| "env_text env (k # ks) =
     (let v = (case gm_get env k of Some x \<Rightarrow> x | None \<Rightarrow> []) in
      if env_bad k v then Inl (Errorf ''environment variable %q cannot be passed (newlines are not allowed)'' [AStr k])
      else res_bind (env_text env ks) (\<lambda>t. Inr (k @ ''='' @ v @ [CHR 0x0A] @ t)))"

definition writeEnvFile :: "'w docker \<Rightarrow> (string, string) gomap \<Rightarrow> 'w \<Rightarrow> string res \<times> 'w" where
  "writeEnvFile D env w =
     (case dk_CreateTemp D w of
        (Inl e, u) \<Rightarrow> (Inl e, u)
      | (Inr f, u) \<Rightarrow>
          (case dk_Chmod D f 384 u of
             (Some e, v) \<Rightarrow> (Inl e, dk_RemoveFile D f v)
           | (None, v) \<Rightarrow>
               (case env_text env (sort (gm_keys env)) of
                  Inl e \<Rightarrow> (Inl e, dk_RemoveFile D f v)
                | Inr t \<Rightarrow>
                    (case dk_Close D f t v of
                       (Some e, x) \<Rightarrow> (Inl e, dk_RemoveFile D f x)
                     | (None, x) \<Rightarrow> (Inr f, x)))))"

definition exists_already :: "'w docker \<Rightarrow> goerr \<Rightarrow> bool" where
  "exists_already D e = str_contains (dk_text D e) ''already exists''"

definition network_args :: "RunSpec \<Rightarrow> string list" where
  "network_args s =
     [''network'', ''create'', ''--driver'', ''bridge'', ''--label'', LabelManaged @ ''=true'']
     @ (if rs_Internal s then [''--internal''] else []) @ [rs_Network s]"

text \<open>An error of a command, unless it says that the thing exists already.\<close>

definition run_unless_exists :: "'w docker \<Rightarrow> string list \<Rightarrow> 'w \<Rightarrow> goerr option \<times> 'w" where
  "run_unless_exists D args w =
     (case docker_run D args w of
        ((out, Some e), u) \<Rightarrow> (if exists_already D e then None else Some e, u)
      | ((out, None), u) \<Rightarrow> (None, u))"

definition docker_start :: "'w docker \<Rightarrow> RunSpec \<Rightarrow> string \<Rightarrow> 'w \<Rightarrow> goerr option \<times> 'w" where
  "docker_start D s f w =
     (case docker_run D (RunArgs s f) w of
        ((out, Some e), u) \<Rightarrow> (Some (Errorf ''start container: %s'' [AStr (dk_scrub D (dk_text D e))]), u)
      | ((out, None), u) \<Rightarrow>
          if \<not> rs_Publish s \<and> rs_AttachSelf s \<noteq> []
          then run_unless_exists D [''network'', ''connect'', rs_Network s, rs_AttachSelf s] u
          else (None, u))"

text \<open>The environment file is removed at the end.\<close>

definition docker_Run :: "'w docker \<Rightarrow> RunSpec \<Rightarrow> 'w \<Rightarrow> goerr option \<times> 'w" where
  "docker_Run D s w =
     (case (if rs_Network s \<noteq> [] then run_unless_exists D (network_args s) w else (None, w)) of
        (Some e, u) \<Rightarrow> (Some e, u)
      | (None, u) \<Rightarrow>
          (case writeEnvFile D (rs_Env s) u of
             (Inl e, v) \<Rightarrow> (Some e, v)
           | (Inr f, v) \<Rightarrow> (case docker_start D s f v of (r, x) \<Rightarrow> (r, dk_RemoveFile D f x))))"

definition docker_Remove :: "'w docker \<Rightarrow> string \<Rightarrow> 'w \<Rightarrow> 'w" where
  "docker_Remove D n w =
     (if \<not> rx_match containerNameRE n then w
      else let u = snd (dk_exec D [''rm'', ''--force'', ''--volumes'', n] w);
               v = (if dk_Self D \<noteq> [] then snd (dk_exec D [''network'', ''disconnect'', ''--force'', n, dk_Self D] u) else u)
           in snd (dk_exec D [''network'', ''rm'', n] v))"

definition invalid_name :: goerr where
  "invalid_name = Errorf ''invalid container name'' []"

definition docker_Logs :: "'w docker \<Rightarrow> string \<Rightarrow> int \<Rightarrow> 'w \<Rightarrow> string list res \<times> 'w" where
  "docker_Logs D n tailN w =
     (if \<not> rx_match containerNameRE n then (Inl invalid_name, w)
      else case dk_exec D [''logs'', ''--tail'', itoa tailN, n] w of
        ((out, errb, Some e), u) \<Rightarrow> (Inl (Errorf ''no logs: %s'' [AStr (tail_text errb 200)]), u)
      | ((out, errb, None), u) \<Rightarrow> (Inr (scrubLines (dk_scrub D) (out @ errb) (nat tailN)), u))"

definition json_labels :: "json \<Rightarrow> (string, string) gomap \<Rightarrow> (string, string) gomap res" where
  "json_labels j old =
     (case j of
        JObj ms \<Rightarrow> foldl (\<lambda>acc (k, x). res_bind acc (\<lambda>m. res_bind (json_string x []) (\<lambda>v. Inr (gm_put k v m)))) (Inr old) ms
      | JNull \<Rightarrow> Inr []
      | _ \<Rightarrow> Inl ErrUnmarshal)"

definition container_fields :: "(string \<times> ContainerInfo setter) list" where
  "container_fields =
     [(''State'', \<lambda>j. json_struct [(''Running'', \<lambda>x c. res_bind (json_bool x (ci_Running c)) (\<lambda>b. Inr (c\<lparr>ci_Running := b\<rparr>)))] j),
      (''Config'', \<lambda>j. json_struct [(''Labels'', \<lambda>x c. res_bind (json_labels x (ci_Labels c)) (\<lambda>m. Inr (c\<lparr>ci_Labels := m\<rparr>)))] j)]"

definition docker_Inspect :: "'w docker \<Rightarrow> string \<Rightarrow> 'w \<Rightarrow> ContainerInfo option res \<times> 'w" where
  "docker_Inspect D n w =
     (if \<not> rx_match containerNameRE n then (Inl invalid_name, w)
      else case dk_exec D [''container'', ''inspect'', ''--format'', ''{{json .}}'', n] w of
        ((out, errb, Some e), u) \<Rightarrow>
          (if str_contains errb ''No such'' then Inr None else Inl (Errorf ''inspect: %s'' [AStr (tail_text errb 200)]), u)
      | ((out, errb, None), u) \<Rightarrow>
          (case res_bind (dk_json D (trim_space out)) (\<lambda>j. json_struct container_fields j \<lparr>ci_Running = False, ci_Labels = []\<rparr>) of
             Inl e \<Rightarrow> (Inl e, u)
           | Inr c \<Rightarrow> (Inr (Some c), u)))"

definition docker_Address :: "'w docker \<Rightarrow> string \<Rightarrow> int \<Rightarrow> 'w \<Rightarrow> string res \<times> 'w" where
  "docker_Address D n port w =
     (if \<not> rx_match containerNameRE n then (Inl invalid_name, w)
      else case docker_run D [''port'', n, itoa port @ ''/tcp''] w of
        ((out, Some e), u) \<Rightarrow> (Inl e, u)
      | ((out, None), u) \<Rightarrow>
          (let line = trim_space (hd (split_on (CHR 0x0A) out)) in
           case last_index (CHR '':'') line of
             None \<Rightarrow> (Inl (Errorf ''no published port for %s'' [AStr n]), u)
           | Some i \<Rightarrow> (Inr (''127.0.0.1:'' @ drop (i + 1) line), u)))"

definition docker_runtime :: "'w docker \<Rightarrow> 'w runtime" where
  "docker_runtime D =
     \<lparr>rt_PullOrInspect = docker_PullOrInspect D, rt_Build = docker_Build D, rt_InspectImage = docker_InspectImage D,
      rt_RemoveImage = docker_RemoveImage D, rt_ReadFileFromImage = docker_ReadFileFromImage D, rt_Run = docker_Run D,
      rt_Remove = docker_Remove D, rt_Logs = docker_Logs D, rt_Inspect = docker_Inspect D, rt_Address = docker_Address D\<rparr>"

section \<open>What a container is started with\<close>

text \<open>
  How the docker program reads the arguments of \<open>run\<close>: options up to the image, each with its value behind an equals
  sign or in the next argument, save the switches.
\<close>

definition run_switches :: "string list" where
  "run_switches = [''--detach'', ''--read-only'', ''--init'', ''--privileged'', ''--rm'', ''--interactive'', ''--tty'', ''--publish-all'', ''--oom-kill-disable'']"

fun run_options :: "string list \<Rightarrow> (string \<times> string) list \<times> string list" where
  "run_options [] = ([], [])"
| "run_options (a # as) =
     (if \<not> has_prefix a ''-'' then ([], a # as)
      else if a \<in> set run_switches then (case run_options as of (os, r) \<Rightarrow> ((a, []) # os, r))
      else if CHR ''='' \<in> set a
        then (case run_options as of (os, r) \<Rightarrow> ((takeWhile (\<lambda>c. c \<noteq> CHR ''='') a, tl (dropWhile (\<lambda>c. c \<noteq> CHR ''='') a)) # os, r))
      else (case as of [] \<Rightarrow> ([(a, [])], []) | v # bs \<Rightarrow> (case run_options bs of (os, r) \<Rightarrow> ((a, v) # os, r))))"

text \<open>What every plugin container gets, and the options that may stand beside it.\<close>

definition hardening :: "RunSpec \<Rightarrow> (string \<times> string) list" where
  "hardening s =
     [(''--pull'', ''never''), (''--read-only'', []), (''--user'', ''10001:10001''), (''--cap-drop'', ''ALL''),
      (''--security-opt'', ''no-new-privileges''), (''--pids-limit'', itoa (rs_PIDs s)), (''--memory'', itoa (rs_Memory s)),
      (''--memory-swap'', itoa (rs_Memory s)), (''--cpus'', format_float3 (rs_CPUs s)), (''--network'', rs_Network s)]"

definition harmless_options :: "string set" where
  "harmless_options = {''--detach'', ''--name'', ''--tmpfs'', ''--init'', ''--restart'', ''--env-file'', ''--log-opt'', ''--publish'', ''--label''}"

definition fixed_options :: "RunSpec \<Rightarrow> string \<Rightarrow> (string \<times> string) list" where
  "fixed_options s f =
     [(''--detach'', []), (''--pull'', ''never''), (''--name'', rs_Name s), (''--read-only'', []),
      (''--tmpfs'', ''/tmp:rw,noexec,nosuid,nodev,size='' @ itoa (rs_Tmpfs s)),
      (''--user'', ''10001:10001''), (''--cap-drop'', ''ALL''), (''--security-opt'', ''no-new-privileges''),
      (''--pids-limit'', itoa (rs_PIDs s)), (''--memory'', itoa (rs_Memory s)), (''--memory-swap'', itoa (rs_Memory s)),
      (''--cpus'', format_float3 (rs_CPUs s)), (''--init'', []), (''--restart'', ''on-failure:5''), (''--env-file'', f),
      (''--network'', rs_Network s), (''--log-opt'', ''max-size=5m''), (''--log-opt'', ''max-file=2'')]
     @ (if rs_Publish s then [(''--publish'', ''127.0.0.1::'' @ itoa (rs_Port s))] else [])"

definition label_options :: "(string, string) gomap \<Rightarrow> (string \<times> string) list" where
  "label_options m = map (\<lambda>k. (''--label'', k @ ''='' @ (case gm_get m k of Some v \<Rightarrow> v | None \<Rightarrow> []))) (sort (gm_keys m))"

lemma opt_value: "has_prefix a ''-'' \<Longrightarrow> a \<notin> set run_switches \<Longrightarrow> CHR ''='' \<notin> set a \<Longrightarrow>
    run_options (a # v # as) = ((a, v) # fst (run_options as), snd (run_options as))"
  by (simp split: prod.splits)

lemma opt_switch: "has_prefix a ''-'' \<Longrightarrow> a \<in> set run_switches \<Longrightarrow>
    run_options (a # as) = ((a, []) # fst (run_options as), snd (run_options as))"
  by (simp split: prod.splits)

definition value_option :: "string \<Rightarrow> bool" where
  "value_option a \<longleftrightarrow> has_prefix a ''-'' \<and> a \<notin> set run_switches \<and> CHR ''='' \<notin> set a"

definition pair_args :: "(string \<times> string) list \<Rightarrow> string list" where
  "pair_args ps = concat (map (\<lambda>(a, v). [a, v]) ps)"

lemma run_pairs:
  "list_all (\<lambda>p. value_option (fst p)) ps \<Longrightarrow>
     run_options (pair_args ps @ r) = (ps @ fst (run_options r), snd (run_options r))"
proof (induction ps)
  case Nil
  then show ?case by (simp add: pair_args_def)
next
  case (Cons p ps)
  obtain a v where p: "p = (a, v)" by fastforce
  have "value_option a" using Cons.prems p by simp
  then have "run_options (a # v # (pair_args ps @ r)) = ((a, v) # fst (run_options (pair_args ps @ r)), snd (run_options (pair_args ps @ r)))"
    unfolding value_option_def by (intro opt_value) simp_all
  then show ?case using Cons by (simp add: p pair_args_def del: run_options.simps)
qed

lemma label_args_pairs: "label_args m = pair_args (label_options m)"
  by (simp add: label_args_def label_options_def pair_args_def comp_def)

lemma value_options:
  "list_all value_option [''--name'', ''--tmpfs'', ''--user'', ''--cap-drop'', ''--security-opt'', ''--pids-limit'', ''--memory'',
     ''--memory-swap'', ''--cpus'', ''--restart'', ''--env-file'', ''--network'', ''--log-opt'', ''--publish'', ''--label'']"
  by code_simp

lemma run_image: "\<not> has_prefix i ''-'' \<Longrightarrow> run_options [i] = ([], [i])"
  by simp

lemma opt_pull: "run_options (''--pull=never'' # as) = ((''--pull'', ''never'') # fst (run_options as), snd (run_options as))"
  by (simp add: run_switches_def has_prefix_def split: prod.splits)

lemma switches: "list_all (\<lambda>a. has_prefix a ''-'' \<and> a \<in> set run_switches) [''--detach'', ''--read-only'', ''--init'']"
  by code_simp

lemma opt_switches:
  "run_options (''--detach'' # as) = ((''--detach'', []) # fst (run_options as), snd (run_options as))"
  "run_options (''--read-only'' # as) = ((''--read-only'', []) # fst (run_options as), snd (run_options as))"
  "run_options (''--init'' # as) = ((''--init'', []) # fst (run_options as), snd (run_options as))"
  using switches by (simp_all add: opt_switch del: run_options.simps)

lemma run_arguments:
  assumes img: "\<not> has_prefix (rs_Image s) ''-''"
  shows "run_options (tl (RunArgs s f)) = (fixed_options s f @ label_options (rs_Labels s), [rs_Image s])"
proof -
  let ?a = "[(''--tmpfs'', ''/tmp:rw,noexec,nosuid,nodev,size='' @ itoa (rs_Tmpfs s)),
      (''--user'', ''10001:10001''), (''--cap-drop'', ''ALL''), (''--security-opt'', ''no-new-privileges''),
      (''--pids-limit'', itoa (rs_PIDs s)), (''--memory'', itoa (rs_Memory s)), (''--memory-swap'', itoa (rs_Memory s)),
      (''--cpus'', format_float3 (rs_CPUs s))]"
  let ?b = "[(''--restart'', ''on-failure:5''), (''--env-file'', f),
      (''--network'', rs_Network s), (''--log-opt'', ''max-size=5m''), (''--log-opt'', ''max-file=2'')]
      @ (if rs_Publish s then [(''--publish'', ''127.0.0.1::'' @ itoa (rs_Port s))] else []) @ label_options (rs_Labels s)"
  have split: "tl (RunArgs s f) = ''--detach'' # ''--pull=never'' # (pair_args [(''--name'', rs_Name s)] @ ''--read-only'' #
      (pair_args ?a @ ''--init'' # (pair_args ?b @ [rs_Image s])))"
    by (simp add: RunArgs_def pair_args_def label_args_pairs)
  have ok: "list_all (\<lambda>p. value_option (fst p)) [(''--name'', rs_Name s)]" "list_all (\<lambda>p. value_option (fst p)) ?a"
      "list_all (\<lambda>p. value_option (fst p)) ?b"
    using value_options by (auto simp: label_options_def list_all_iff)
  show ?thesis
    unfolding split opt_switches opt_pull run_pairs[OF ok(1)] run_pairs[OF ok(2)] run_pairs[OF ok(3)] run_image[OF img]
    by (simp add: fixed_options_def opt_switches run_pairs[OF ok(1)] run_pairs[OF ok(2)] run_pairs[OF ok(3)] run_image[OF img]
        del: run_options.simps split del: if_split)
qed

text \<open>C26: a plugin container is started hardened: read from the arguments as the docker program reads them, the command is
  the image alone; the root file system is read-only, the user is not root, every capability is dropped, privileges cannot
  be gained, and processes, memory, processor share and network are those of the specification, each set once; the
  other options are harmless ones. No field of the specification adds an option.\<close>
theorem plugin_containers_are_hardened:
  assumes "\<not> has_prefix (rs_Image s) ''-''"
  shows "case run_options (tl (RunArgs s f)) of (opts, cmd) \<Rightarrow>
     cmd = [rs_Image s] \<and>
     (\<forall>h\<in>set (hardening s). filter (\<lambda>x. fst x = fst h) opts = [h]) \<and>
     fst ` set opts \<subseteq> fst ` set (hardening s) \<union> harmless_options"
proof -
  have lab: "filter (\<lambda>x. fst x = n) (label_options m) = []" if "n \<noteq> ''--label''" for n m
    using that by (auto simp: label_options_def filter_empty_conv)
  have lab2: "fst ` set (label_options m) \<subseteq> {''--label''}" for m by (auto simp: label_options_def)
  have "\<forall>h\<in>set (hardening s). filter (\<lambda>x. fst x = fst h) (fixed_options s f @ label_options (rs_Labels s)) = [h]"
    by (simp add: hardening_def fixed_options_def lab)
  moreover have "fst ` set (fixed_options s f @ label_options (rs_Labels s)) \<subseteq> fst ` set (hardening s) \<union> harmless_options"
    using lab2[of "rs_Labels s"] by (auto simp: hardening_def fixed_options_def harmless_options_def)
  ultimately show ?thesis by (simp add: run_arguments[OF assms])
qed

section \<open>The environment of a container\<close>

text \<open>How the docker program reads an environment file: a variable per line, empty lines and comments are skipped.\<close>

fun read_env_lines :: "string list \<Rightarrow> (string \<times> string) list" where
  "read_env_lines [] = []"
| "read_env_lines (l # ls) =
     (if l = [] \<or> has_prefix l ''#'' then read_env_lines ls
      else (takeWhile (\<lambda>c. c \<noteq> CHR ''='') l, tl (dropWhile (\<lambda>c. c \<noteq> CHR ''='') l)) # read_env_lines ls)"

definition read_env_file :: "string \<Rightarrow> (string \<times> string) list" where
  "read_env_file t = read_env_lines (split_on (CHR 0x0A) t)"

lemma split_on_line: "c \<notin> set l \<Longrightarrow> split_on c (l @ c # t) = l # split_on c t"
  by (induction l) auto

lemma env_line: "\<not> env_bad k v \<Longrightarrow> CHR ''='' \<notin> set k \<and> CHR 0x0A \<notin> set (k @ ''='' @ v)"
  by (auto simp: env_bad_def list_ex_iff)

lemma env_text_read:
  "env_text env ks = Inr t \<Longrightarrow> \<forall>k\<in>set ks. \<not> has_prefix k ''#'' \<Longrightarrow>
     read_env_file t = map (\<lambda>k. (k, case gm_get env k of Some v \<Rightarrow> v | None \<Rightarrow> [])) ks"
proof (induction ks arbitrary: t)
  case Nil
  then show ?case by (simp add: read_env_file_def)
next
  case (Cons k ks)
  define v where "v = (case gm_get env k of Some x \<Rightarrow> x | None \<Rightarrow> [])"
  obtain u where bad: "\<not> env_bad k v" and u: "env_text env ks = Inr u" and t: "t = k @ ''='' @ v @ [CHR 0x0A] @ u"
    using Cons.prems(1) by (auto simp: Let_def res_bind_Inr v_def[symmetric] split: if_splits)
  have line: "CHR ''='' \<notin> set k" "CHR 0x0A \<notin> set (k @ ''='' @ v)" using env_line[OF bad] by auto
  have "split_on (CHR 0x0A) t = (k @ ''='' @ v) # split_on (CHR 0x0A) u"
    using split_on_line[OF line(2), of u] by (simp add: t)
  moreover have "takeWhile (\<lambda>c. c \<noteq> CHR ''='') (k @ ''='' @ v) = k" "dropWhile (\<lambda>c. c \<noteq> CHR ''='') (k @ ''='' @ v) = CHR ''='' # v"
    using line(1) by (auto simp: takeWhile_append dropWhile_append)
  moreover have "\<not> has_prefix (k @ ''='' @ v) ''#''" using Cons.prems(2) by (cases k) (auto simp: has_prefix_def)
  ultimately show ?case using Cons.IH[OF u] Cons.prems(2) by (simp add: read_env_file_def v_def)
qed

text \<open>
  The environment of a container arrives as it was given: the file written for the docker program reads back as the
  variables in order of their names, when no name begins with a comment sign.
\<close>

theorem environment_arrives:
  assumes "env_text env (sort (gm_keys env)) = Inr t" "\<forall>k\<in>set (gm_keys env). \<not> has_prefix k ''#''" "gm_wf env"
  shows "map_of (read_env_file t) = gm_get env \<and> map fst (read_env_file t) = sort (gm_keys env)"
proof -
  have r: "read_env_file t = map (\<lambda>k. (k, case gm_get env k of Some v \<Rightarrow> v | None \<Rightarrow> [])) (sort (gm_keys env))"
    using env_text_read[OF assms(1)] assms(2) by simp
  have "map_of (read_env_file t) k = gm_get env k" for k
    using in_gm_keys_iff[of k env] by (auto simp: r map_of_map_restrict restrict_map_def split: option.splits)
  then show ?thesis by (auto simp: r comp_def)
qed

text \<open>A comment sign in a name loses the variable.\<close>

lemma comment_sign_loses_the_variable:
  "\<exists>t. env_text [(''#X'', ''1''), (''Y'', ''2'')] (sort [''#X'', ''Y'']) = Inr t \<and> read_env_file t = [(''Y'', ''2'')]"
proof -
  have "env_text [(''#X'', ''1''), (''Y'', ''2'')] (sort [''#X'', ''Y'']) = Inr (''#X=1'' @ [CHR 0x0A] @ ''Y=2'' @ [CHR 0x0A])" by code_simp
  moreover have "read_env_file (''#X=1'' @ [CHR 0x0A] @ ''Y=2'' @ [CHR 0x0A]) = [(''Y'', ''2'')]" by code_simp
  ultimately show ?thesis by blast
qed

section \<open>Environment files do not stay\<close>

text \<open>The same world with the temporary files there are.\<close>

definition tracked :: "'w docker \<Rightarrow> (string set \<times> 'w) docker" where
  "tracked D =
     \<lparr>dk_Self = dk_Self D,
      dk_exec = (\<lambda>a (fs, w). case dk_exec D a w of (r, u) \<Rightarrow> (r, fs, u)),
      dk_exec_all = (\<lambda>a (fs, w). case dk_exec_all D a w of (r, u) \<Rightarrow> (r, fs, u)),
      dk_ctx = (\<lambda>(fs, w). dk_ctx D w), dk_json = dk_json D, dk_tar = dk_tar D,
      dk_CreateTemp = (\<lambda>(fs, w). case dk_CreateTemp D w of (Inl e, u) \<Rightarrow> (Inl e, fs, u) | (Inr f, u) \<Rightarrow> (Inr f, insert f fs, u)),
      dk_Chmod = (\<lambda>f m (fs, w). case dk_Chmod D f m w of (r, u) \<Rightarrow> (r, fs, u)),
      dk_Close = (\<lambda>f t (fs, w). case dk_Close D f t w of (r, u) \<Rightarrow> (r, fs, u)),
      dk_RemoveFile = (\<lambda>f (fs, w). (fs - {f}, dk_RemoveFile D f w)),
      dk_text = dk_text D, dk_scrub = dk_scrub D\<rparr>"

lemma tracked_run: "snd (docker_run (tracked D) a (fs, w)) = (fs, snd (docker_run D a w))"
  by (auto simp: docker_run_def tracked_def split: prod.splits option.splits)

lemma tracked_exists: "fst (snd (run_unless_exists (tracked D) a (fs, w))) = fs"
  using tracked_run[of D a fs w] by (auto simp: run_unless_exists_def split: prod.splits option.splits)

lemma tracked_start: "fst (snd (docker_start (tracked D) s f (fs, w))) = fs"
  using tracked_run[of D "RunArgs s f" fs w] tracked_exists[of D "[''network'', ''connect'', rs_Network s, rs_AttachSelf s]" fs]
  by (auto simp: docker_start_def split: prod.splits option.splits)

lemma tracked_env:
  "writeEnvFile (tracked D) env (fs, w) = (r, gs, u) \<Longrightarrow> (case r of Inl e \<Rightarrow> gs \<subseteq> fs | Inr f \<Rightarrow> gs = insert f fs)"
  by (auto simp: writeEnvFile_def tracked_def split: prod.splits sum.splits option.splits)

text \<open>
  The file that holds a plugin's secrets does not stay: however starting the container ends, no temporary file is
  left that was not there before.
\<close>

theorem environment_files_do_not_stay:
  "fst (snd (docker_Run (tracked D) s (fs, w))) \<subseteq> fs"
proof -
  let ?net = "if rs_Network s \<noteq> [] then run_unless_exists (tracked D) (network_args s) (fs, w) else (None, fs, w)"
  have "fst (snd ?net) = fs" by (simp add: tracked_exists)
  moreover obtain n hs v where "?net = (n, hs, v)" by (rule prod_cases3)
  ultimately have n: "?net = (n, fs, v)" by simp
  obtain r gs u where r: "writeEnvFile (tracked D) (rs_Env s) (fs, v) = (r, gs, u)" by (metis prod_cases3)
  note env = tracked_env[OF r]
  show ?thesis
  proof (cases "\<exists>f. n = None \<and> r = Inr f")
    case True
    then obtain f where f: "n = None" "r = Inr f" by blast
    obtain z hs x where st: "docker_start (tracked D) s f (gs, u) = (z, hs, x)" by (metis prod_cases3)
    have "hs = gs" using tracked_start[of D s f gs u] st by simp
    then have "docker_Run (tracked D) s (fs, w) = (z, gs - {f}, dk_RemoveFile D f x)"
      using n r st f unfolding docker_Run_def by (simp add: tracked_def)
    then show ?thesis using env f by auto
  next
    case False
    then show ?thesis using n r env unfolding docker_Run_def by (auto split: option.splits sum.splits)
  qed
qed

section \<open>Examples\<close>

definition demo_run :: RunSpec where
  "demo_run = \<lparr>rs_Name = ''llmcache-plugin-a'', rs_Image = ''sha256:ab'', rs_Port = 8080, rs_Env = [(''A'', ''1'')],
     rs_Labels = [(''x'', ''--privileged'')], rs_CPUs = F_Num 1, rs_Memory = 1024, rs_PIDs = 64, rs_Tmpfs = 512,
     rs_Network = ''llmcache-plugin-a'', rs_Internal = True, rs_Publish = False, rs_AttachSelf = ''ctl''\<rparr>"

theorem plugin_containers_are_hardened_witness:
  "snd (run_options (tl (RunArgs demo_run ''/tmp/e''))) = [''sha256:ab'']"
  using plugin_containers_are_hardened[of demo_run "''/tmp/e''"] by (auto simp: demo_run_def has_prefix_def split: prod.splits)

theorem environment_arrives_witness:
  "\<exists>t. map_of (read_env_file t) ''B'' = Some ''x=y'' \<and> map fst (read_env_file t) = [''A'', ''B'']"
proof -
  let ?m = "[(''B'', ''x=y''), (''A'', ''1'')]"
  have "env_text ?m (sort (gm_keys ?m)) = Inr (''A=1'' @ [CHR 0x0A] @ ''B=x=y'' @ [CHR 0x0A])" by code_simp
  moreover have "\<forall>k\<in>set (gm_keys ?m). \<not> has_prefix k ''#''" "gm_wf ?m" "gm_get ?m ''B'' = Some ''x=y''" "sort (gm_keys ?m) = [''A'', ''B'']"
    by code_simp+
  ultimately show ?thesis using environment_arrives[of ?m] by metis
qed

end
