(* ===== verification/Py_Build.thy ===== *)
theory Py_Build
  imports Source_Tree Manifest
begin

text \<open>
  Images of Python plugins (\<open>internal/plugins/controller/pybuild.go\<close>): the build context is put together from the
  platform's own service and the developer's package, with a generated Dockerfile. The directory of the runner and the
  source are trees; the context is the tree that is written. Writing into a fresh directory succeeds.
\<close>

definition EmbeddingRunnerPort :: int where "EmbeddingRunnerPort = 8001"
definition VectorRunnerPort :: int where "VectorRunnerPort = 8002"
definition pythonBase :: string where "pythonBase = ''python:3.11-slim''"

definition pyIdentRE :: rx where
  "pyIdentRE = rx_seqs [RSet (\<lambda>c. is_alpha c \<or> c = CHR ''_''), rx_rep 0 63 (RSet (\<lambda>c. is_alnum c \<or> c = CHR ''_''))]"

definition backendNameRE :: rx where
  "backendNameRE = rx_seqs [RSet is_lower_digit,
     rx_rep 0 63 (RSet (\<lambda>c. is_lower_digit c \<or> c \<in> {CHR ''.'', CHR ''_'', CHR ''-''}))]"

text \<open>\<open>typ, _ := plugins.ParseType(...)\<close>: an unknown type is none.\<close>

definition type_of :: "manifest \<Rightarrow> plugin_type option" where
  "type_of m = (case ParseType (mf_Type m) of Inr t \<Rightarrow> Some t | Inl _ \<Rightarrow> None)"

definition RunnerPort :: "plugin_type option \<Rightarrow> int" where
  "RunnerPort t = (if t = Some TypeEmbeddingModel then EmbeddingRunnerPort else VectorRunnerPort)"

definition RunnerEnv :: "manifest \<Rightarrow> string \<Rightarrow> (string, string) gomap" where
  "RunnerEnv m cfgMetric =
     (case mf_Python m of
        None \<Rightarrow> []
      | Some py \<Rightarrow>
          (case type_of m of
             Some TypeEmbeddingModel \<Rightarrow> gm_put ''EMBEDDING_MODEL_BACKEND'' (py_Backend py) []
           | Some TypeVectorIndex \<Rightarrow>
               (let env = gm_put ''SIMILARITY_METRIC'' ''cosine'' (gm_put ''VECTOR_INDEX_BACKEND'' (py_Backend py) [])
                in if cfgMetric \<noteq> [] then gm_put ''SIMILARITY_METRIC'' cfgMetric env else env)
           | Some TypeSimilarityMetric \<Rightarrow>
               gm_put ''SIMILARITY_METRIC'' (py_Backend py) (gm_put ''VECTOR_INDEX_BACKEND'' ''faiss'' [])
           | _ \<Rightarrow> []))"

section \<open>The Dockerfile\<close>

definition dockerfile_lines :: "string \<Rightarrow> int \<Rightarrow> string list" where \<open>
  dockerfile_lines copyLine port =
    [''FROM '' @ pythonBase,
     ''ENV PYTHONDONTWRITEBYTECODE=1 PYTHONUNBUFFERED=1 PIP_NO_CACHE_DIR=1 PIP_DISABLE_PIP_VERSION_CHECK=1'',
     ''WORKDIR /srv'',
     ''COPY service/requirements.txt /srv/base-requirements.txt'',
     ''RUN pip install -r /srv/base-requirements.txt'',
     ''COPY plugin_requirements.txt /srv/plugin-requirements.txt'',
     ''RUN pip install -r /srv/plugin-requirements.txt'',
     ''COPY service/app /srv/app'',
     copyLine,
     ''EXPOSE '' @ itoa port,
     ''USER 10001:10001'',
     ''CMD ["uvicorn", "app.main:app", "--host", "0.0.0.0", "--port", "'' @ itoa port @ ''"]'',
     '''']\<close>

definition dockerfile :: "string \<Rightarrow> int \<Rightarrow> string" where
  "dockerfile copyLine port = str_join [CHR 0x0A] (dockerfile_lines copyLine port)"

definition copy_line :: "string \<Rightarrow> string" where
  "copy_line name = ''COPY plugin/'' @ name @ '' /srv/app/plugins/'' @ name"

section \<open>The build context\<close>

definition ErrNotExist :: goerr where "ErrNotExist = Sentinel ''fs.ErrNotExist''"

text \<open>\<open>copyTree\<close> of what is at a path; a missing tree is an error of the walk.\<close>

definition copy_from :: "src_limits \<Rightarrow> node \<Rightarrow> string list \<Rightarrow> node option res" where
  "copy_from L tree p = (case lstat tree p of None \<Rightarrow> Inl ErrNotExist | Some n \<Rightarrow> copyTree L (if p = [] then ''.'' else last p) n)"

definition runner_limits :: src_limits where
  "runner_limits = \<lparr>sl_MaxSourceBytes = 50 * 2 ^ 20, sl_MaxFiles = 1000\<rparr>"

definition entry_if :: "string \<Rightarrow> node option \<Rightarrow> (string \<times> node) list" where
  "entry_if name n = (case n of None \<Rightarrow> [] | Some x \<Rightarrow> [(name, x)])"

text \<open>\<open>fmt.Errorf("...: %w", err)\<close> around the error of a step.\<close>

definition wrap_err :: "string \<Rightarrow> 'a res \<Rightarrow> 'a res" where
  "wrap_err f r = (case r of Inl e \<Rightarrow> Inl (Errorf f [AWrap e]) | Inr x \<Rightarrow> Inr x)"

lemma wrap_err_Inr [simp]: "wrap_err f r = Inr x \<longleftrightarrow> r = Inr x"
  by (cases r) (simp_all add: wrap_err_def)

text \<open>1. The platform's service.\<close>

definition service_part :: "node \<Rightarrow> plugin_type option \<Rightarrow> node res" where
  "service_part runner t =
     (let (serviceDir, reqFile) = (if t = Some TypeEmbeddingModel then (''embedding_service'', ''requirements-core.txt'')
                                   else (''vector_store_service'', ''requirements.txt'')) in
      res_bind (wrap_err ''runner service: %w'' (copy_from runner_limits runner [serviceDir, ''app''])) (\<lambda>app.
          case lstat runner [serviceDir, reqFile] of
             Some (File req) \<Rightarrow> Inr (Dir (entry_if ''app'' app @ [(''requirements.txt'', File req)]))
           | _ \<Rightarrow> Inl (Errorf ''runner requirements: %w'' [AWrap ErrNotExist])))"

text \<open>\<open>filepath.Join\<close> of a relative path and a name.\<close>

definition path_join :: "string \<Rightarrow> string \<Rightarrow> string" where
  "path_join p name = str_join ''/'' (clean_parts (p @ ''/'' @ name))"

text \<open>2. The developer's package, a directory or a file, and the line of the Dockerfile that copies it.\<close>

definition package_part :: "src_limits \<Rightarrow> node \<Rightarrow> python_spec \<Rightarrow> ((string \<times> node) list \<times> string) res" where
  "package_part L src py =
     res_bind (SafeJoin src (py_Path py)) (\<lambda>pkg.
       let dirc = pkg @ [py_Module py]; fname = py_Module py @ ''.py''; filec = pkg @ [fname] in
       if isDir (lstat src dirc)
       then res_bind (SafeJoin src (path_join (py_Path py) (py_Module py))) (\<lambda>_.
            res_bind (wrap_err ''plugin package: %w'' (copy_from L src dirc)) (\<lambda>n.
              Inr (entry_if (py_Module py) n, copy_line (py_Module py))))
       else if isFile (lstat src filec)
       then res_bind (ReadRegular src (path_join (py_Path py) fname) (sl_MaxSourceBytes L)) (\<lambda>data.
              Inr ([(fname, File data)], copy_line fname))
       else Inl (Errorf ''python module %q was not found under %q in the repository'' [AStr (py_Module py), AStr (py_Path py)]))"

text \<open>3. The plugin's own requirements, empty when they cannot be read.\<close>

definition requirements_part :: "node \<Rightarrow> python_spec \<Rightarrow> string" where
  "requirements_part src py =
     (if py_Requirements py = [] then []
      else case ReadRegular src (py_Requirements py) (256 * 2 ^ 10) of Inr data \<Rightarrow> data | Inl _ \<Rightarrow> [])"

text \<open>The context and the path of the Dockerfile in it. The directory \<open>plugin\<close> is made with what is put in it.\<close>

definition BuildPythonContext :: "node \<Rightarrow> manifest \<Rightarrow> node \<Rightarrow> src_limits \<Rightarrow> (node \<times> string) res" where
  "BuildPythonContext runner m src L =
     (case mf_Python m of
        None \<Rightarrow> Inl (Errorf ''python plugin without spec.python'' [])
      | Some py \<Rightarrow>
          if \<not> rx_match pyIdentRE (py_Module py) \<or> \<not> rx_match backendNameRE (py_Backend py)
          then Inl (Errorf ''invalid python module or backend name'' [])
          else
            res_bind (service_part runner (type_of m)) (\<lambda>service.
            res_bind (package_part L src py) (\<lambda>(package, copyLine).
              Inr (Dir ([(''service'', service)]
                        @ (if package = [] then [] else [(''plugin'', Dir package)])
                        @ [(''plugin_requirements.txt'', File (requirements_part src py)),
                           (''Dockerfile'', File (dockerfile copyLine (RunnerPort (type_of m))))]), ''Dockerfile''))))"

section \<open>The Dockerfile is the template\<close>

lemma split_join: "ws \<noteq> [] \<Longrightarrow> \<forall>w\<in>set ws. c \<notin> set w \<Longrightarrow> split_on c (str_join [c] ws) = ws"
proof (induction ws rule: induct_list012)
  case (2 w)
  have "split_on c w = [w]" if "c \<notin> set w" for w using that by (induction w) auto
  then show ?case using 2 by simp
next
  case (3 w v ws)
  have line: "split_on c (l @ c # t) = l # split_on c t" if "c \<notin> set l" for l t using that by (induction l) auto
  show ?case using 3 line[of w "str_join [c] (v # ws)"] by simp
qed simp

lemma ident_chars: "rx_match pyIdentRE s \<Longrightarrow> list_all (\<lambda>c. is_alnum c \<or> c = CHR ''_'') s"
  by (auto simp: pyIdentRE_def rx_match_iff lang_RSet lang_rep_set is_alnum_def)

definition package_name :: "string \<Rightarrow> bool" where
  "package_name s \<longleftrightarrow> list_all (\<lambda>c. is_alnum c \<or> c \<in> {CHR ''_'', CHR ''.''}) s"

lemma digits_no_lf: "lf \<notin> set (itoa (RunnerPort t))"
proof -
  have "\<not> is_digit lf" by (simp add: is_digit_def)
  then show ?thesis using nat_digits_ok by (auto simp: RunnerPort_def EmbeddingRunnerPort_def VectorRunnerPort_def itoa_def list_all_iff)
qed

lemma alnum_not_lf: "is_alnum c \<Longrightarrow> c \<noteq> lf"
  by (auto simp: is_alnum_def is_alpha_def is_digit_def)

lemma package_copy_line:
  assumes "package_part L src py = Inr (es, cl)" "rx_match pyIdentRE (py_Module py)"
  shows "\<exists>name. package_name name \<and> cl = copy_line name"
proof -
  have m: "package_name (py_Module py)" "package_name (py_Module py @ ''.py'')"
    using ident_chars[OF assms(2)] by (auto simp: package_name_def list_all_iff is_alnum_def is_alpha_def)
  then show ?thesis
    using assms(1) by (auto simp: package_part_def Let_def res_bind_Inr split: if_splits sum.splits)
qed

definition dockerfile_of :: "node \<Rightarrow> string option" where
  "dockerfile_of ctx = (case lstat ctx [''Dockerfile''] of Some (File t) \<Rightarrow> Some t | _ \<Rightarrow> None)"

text \<open>
  The Dockerfile of a Python plugin is the fixed template: read line by line it has the fixed instructions, and one
  that copies a package named by letters, digits, underscores and dots. Nothing in the manifest or the source adds an
  instruction.
\<close>

theorem dockerfile_is_the_template:
  assumes "BuildPythonContext runner m src L = Inr (ctx, path)"
  shows "\<exists>t name. dockerfile_of ctx = Some t \<and> path = ''Dockerfile'' \<and> package_name name \<and>
     split_on lf t = dockerfile_lines (copy_line name) (RunnerPort (type_of m))"
proof -
  from assms obtain py service package cl where py: "mf_Python m = Some py" "rx_match pyIdentRE (py_Module py)"
    and pkg: "package_part L src py = Inr (package, cl)"
    and ctx: "ctx = Dir ([(''service'', service)] @ (if package = [] then [] else [(''plugin'', Dir package)])
                @ [(''plugin_requirements.txt'', File (requirements_part src py)),
                   (''Dockerfile'', File (dockerfile cl (RunnerPort (type_of m))))])" "path = ''Dockerfile''"
    by (auto simp: BuildPythonContext_def res_bind_Inr split: option.splits if_splits)
  obtain name where name: "package_name name" "cl = copy_line name" using package_copy_line[OF pkg py(2)] by blast
  have "lf \<notin> set name" using name(1) alnum_not_lf by (auto simp: package_name_def list_all_iff)
  then have "\<forall>w\<in>set (dockerfile_lines cl (RunnerPort (type_of m))). lf \<notin> set w"
    using digits_no_lf[of "type_of m"] by (simp add: dockerfile_lines_def copy_line_def name(2) pythonBase_def)
  then have "split_on lf (dockerfile cl (RunnerPort (type_of m))) = dockerfile_lines cl (RunnerPort (type_of m))"
    unfolding dockerfile_def by (intro split_join) (simp_all add: dockerfile_lines_def)
  moreover have "dockerfile_of ctx = Some (dockerfile cl (RunnerPort (type_of m)))"
    by (simp add: ctx(1) dockerfile_of_def)
  ultimately show ?thesis using name ctx(2) by auto
qed

section \<open>The context holds no link\<close>

lemma copy_from_plain: "copy_from L tree p = Inr (Some n) \<Longrightarrow> plain n"
  using copy_spec(1) by (fastforce simp: copy_from_def copyTree_def res_bind_Inr split: option.splits if_splits)

lemma entry_if_plain: "(\<And>x. n = Some x \<Longrightarrow> plain x) \<Longrightarrow> \<forall>e\<in>set (entry_if k n). plain (snd e)"
  by (cases n) (simp_all add: entry_if_def)

lemma service_plain: "service_part runner t = Inr service \<Longrightarrow> plain service"
proof -
  assume s: "service_part runner t = Inr service"
  obtain d q where dq: "(if t = Some TypeEmbeddingModel then (''embedding_service'', ''requirements-core.txt'')
      else (''vector_store_service'', ''requirements.txt'')) = (d, q)" by fastforce
  obtain app where a: "copy_from runner_limits runner [d, ''app''] = Inr app"
    and r: "(case lstat runner [d, q] of Some (File req) \<Rightarrow> Inr (Dir (entry_if ''app'' app @ [(''requirements.txt'', File req)]))
            | _ \<Rightarrow> Inl (Errorf ''runner requirements: %w'' [AWrap ErrNotExist])) = Inr service"
    using s unfolding service_part_def dq Let_def by (auto simp: res_bind_Inr)
  obtain req where req: "service = Dir (entry_if ''app'' app @ [(''requirements.txt'', File req)])"
  proof (cases "lstat runner [d, q]")
    case (Some y)
    then show ?thesis using r that by (cases y) auto
  qed (use r in simp)
  have "\<And>x. app = Some x \<Longrightarrow> plain x" using a copy_from_plain by blast
  from entry_if_plain[OF this] show ?thesis by (simp add: req ball_Un)
qed

lemma package_plain:
  assumes "package_part L src py = Inr (es, cl)"
  shows "\<forall>e\<in>set es. plain (snd e)"
proof -
  consider n p where "copy_from L src p = Inr n" "es = entry_if (py_Module py) n" | fn data where "es = [(fn, File data)]"
    using assms by (auto simp: package_part_def Let_def res_bind_Inr split: sum.splits if_splits)
  then show ?thesis
  proof cases
    case 1
    have "\<And>x. n = Some x \<Longrightarrow> plain x" using 1(1) copy_from_plain by blast
    from entry_if_plain[OF this] show ?thesis by (simp add: 1(2))
  qed simp
qed

text \<open>
  A build context of a Python plugin holds only files and directories, whatever the runner's directory and the
  source hold.
\<close>

theorem build_context_is_plain:
  assumes "BuildPythonContext runner m src L = Inr (ctx, path)"
  shows "plain ctx"
proof -
  from assms obtain py service package cl where
    svc: "service_part runner (type_of m) = Inr service" and pkg: "package_part L src py = Inr (package, cl)"
    and ctx: "ctx = Dir ([(''service'', service)] @ (if package = [] then [] else [(''plugin'', Dir package)])
                @ [(''plugin_requirements.txt'', File (requirements_part src py)),
                   (''Dockerfile'', File (dockerfile cl (RunnerPort (type_of m))))])"
    by (auto simp: BuildPythonContext_def res_bind_Inr split: option.splits if_splits)
  have "plain service" by (rule service_plain[OF svc])
  moreover have "\<forall>e\<in>set package. plain (snd e)" by (rule package_plain[OF pkg])
  ultimately show ?thesis by (simp add: ctx)
qed

section \<open>Examples\<close>

definition demo_runner :: node where
  "demo_runner = Dir [(''vector_store_service'', Dir [(''app'', Dir [(''main.py'', File ''m'')]), (''requirements.txt'', File ''faiss'')])]"

definition demo_python :: manifest where
  "demo_python = demo_manifest\<lparr>mf_Type := ''vector-index'', mf_Mode := RuntimePython,
     mf_Python := Some \<lparr>py_Module = ''my_index'', py_Path = ''src'', py_Backend = ''mine'', py_Requirements = ''none.txt''\<rparr>\<rparr>"

definition demo_source :: node where
  "demo_source = Dir [(''src'', Dir [(''my_index'', Dir [(''__init__.py'', File ''x''), (''__pycache__'', Dir [])])])]"

lemma demo_build:
  "\<exists>ctx. BuildPythonContext demo_runner demo_python demo_source demo_limits = Inr (ctx, ''Dockerfile'')"
proof -
  obtain py where py: "mf_Python demo_python = Some py" "py_Module py = ''my_index''" "py_Backend py = ''mine''"
      "py = \<lparr>py_Module = ''my_index'', py_Path = ''src'', py_Backend = ''mine'', py_Requirements = ''none.txt''\<rparr>"
    by (simp add: demo_python_def)
  have t: "type_of demo_python = Some TypeVectorIndex" by (simp add: type_of_def demo_python_def ParseType_def AllTypes_def)
  have "rx_match pyIdentRE ''my_index''" "rx_match backendNameRE ''mine''" by code_simp+
  moreover have "res_ok (service_part demo_runner (Some TypeVectorIndex))" by code_simp
  moreover have "res_ok (package_part demo_limits demo_source py)" unfolding py(4) by code_simp
  ultimately show ?thesis
    using py t by (cases "service_part demo_runner (Some TypeVectorIndex)"; cases "package_part demo_limits demo_source py")
      (auto simp: BuildPythonContext_def)
qed

theorem dockerfile_is_the_template_witness:
  "\<exists>ctx t name. BuildPythonContext demo_runner demo_python demo_source demo_limits = Inr (ctx, ''Dockerfile'') \<and>
     dockerfile_of ctx = Some t \<and> split_on lf t = dockerfile_lines (copy_line name) (RunnerPort (type_of demo_python))"
  using demo_build dockerfile_is_the_template by blast

theorem build_context_is_plain_witness:
  "\<exists>ctx. BuildPythonContext demo_runner demo_python demo_source demo_limits = Inr (ctx, ''Dockerfile'') \<and> plain ctx"
  using demo_build build_context_is_plain by blast

end
