(* ===== verification/Safe_Http.thy ===== *)
theory Safe_Http
  imports Go_Text "HOL-Library.Word"
begin

unbundle bit_operations_syntax

text \<open>
  What the plugin platform lets itself be pointed at (\<open>internal/plugins/safehttp/safehttp.go\<close>): the check of
  an endpoint URL and of every address that is dialled. Addresses are words of 32 and 128 bits, an IPv6
  address with its zone, as in \<open>net/netip\<close>. Parsing URLs and addresses is the parameter \<open>url_lib\<close>; the
  dialer's hook is \<open>dial_check\<close>.
\<close>

section \<open>Addresses\<close>

datatype ip_addr = V4 "32 word" | V6 "128 word" string

definition v4_byte :: "nat \<Rightarrow> 32 word \<Rightarrow> 32 word" where
  "v4_byte i w = drop_bit ((3 - i) * 8) w AND 0xff"

definition v6_u16 :: "nat \<Rightarrow> 128 word \<Rightarrow> 128 word" where
  "v6_u16 i w = drop_bit ((7 - i) * 16) w AND 0xffff"

fun Unmap :: "ip_addr \<Rightarrow> ip_addr" where
  "Unmap (V6 w z) = (if drop_bit 32 w = 0xffff then V4 (ucast w) else V6 w z)"
| "Unmap (V4 w) = V4 w"

definition IsUnspecified :: "ip_addr \<Rightarrow> bool" where
  "IsUnspecified ip \<longleftrightarrow> ip = V4 0 \<or> ip = V6 0 []"

fun IsMulticast :: "ip_addr \<Rightarrow> bool" where
  "IsMulticast (V4 w) = (v4_byte 0 w AND 0xf0 = 0xe0)"
| "IsMulticast (V6 w z) = (drop_bit 120 w = 0xff)"

fun IsLinkLocalUnicast :: "ip_addr \<Rightarrow> bool" where
  "IsLinkLocalUnicast (V4 w) = (v4_byte 0 w = 169 \<and> v4_byte 1 w = 254)"
| "IsLinkLocalUnicast (V6 w z) = (v6_u16 0 w AND 0xffc0 = 0xfe80)"

fun IsLinkLocalMulticast :: "ip_addr \<Rightarrow> bool" where
  "IsLinkLocalMulticast (V4 w) = (v4_byte 0 w = 224 \<and> v4_byte 1 w = 0 \<and> v4_byte 2 w = 0)"
| "IsLinkLocalMulticast (V6 w z) = (v6_u16 0 w AND 0xff0f = 0xff02)"

fun IsInterfaceLocalMulticast :: "ip_addr \<Rightarrow> bool" where
  "IsInterfaceLocalMulticast (V4 w) = False"
| "IsInterfaceLocalMulticast (V6 w z) = (v6_u16 0 w AND 0xff0f = 0xff01)"

fun IsLoopback :: "ip_addr \<Rightarrow> bool" where
  "IsLoopback (V4 w) = (v4_byte 0 w = 127)"
| "IsLoopback (V6 w z) = (w = 1)"

fun IsPrivate :: "ip_addr \<Rightarrow> bool" where
  "IsPrivate (V4 w) = (v4_byte 0 w = 10 \<or> v4_byte 0 w = 172 \<and> v4_byte 1 w AND 0xf0 = 16 \<or> v4_byte 0 w = 192 \<and> v4_byte 1 w = 168)"
| "IsPrivate (V6 w z) = (drop_bit 120 w AND 0xfe = 0xfc)"

text \<open>\<open>100.64.0.0/10\<close>.\<close>

fun in_cgnat :: "ip_addr \<Rightarrow> bool" where
  "in_cgnat (V4 w) = (drop_bit 22 w = drop_bit 22 0x64400000)"
| "in_cgnat (V6 w z) = False"

definition metadataAddrs :: "ip_addr list" where
  "metadataAddrs = [V4 0xA9FEA9FE, V4 0xA9FEAA02, V4 0x646464C8, V6 0xFD000EC2000000000000000000000254 []]"

definition checkAddr :: "ip_addr \<Rightarrow> bool \<Rightarrow> goerr option" where
  "checkAddr addr AllowInsecure =
     (let ip = Unmap addr in
      if ip \<in> set metadataAddrs then Some (Errorf ''cloud metadata addresses are not allowed'' [])
      else if IsUnspecified ip \<or> IsMulticast ip \<or> IsLinkLocalUnicast ip \<or> IsLinkLocalMulticast ip \<or> IsInterfaceLocalMulticast ip
        then Some (Errorf ''address %s is not allowed'' [])
      else if AllowInsecure then None
      else if IsLoopback ip \<or> IsPrivate ip \<or> in_cgnat ip
        then Some (Errorf ''address %s is private or loopback; set ALLOW_INSECURE_PLUGIN_ENDPOINTS=true for local development'' [])
      else None)"

section \<open>URLs\<close>

record url =
  ur_Scheme :: string
  ur_Host :: string
  ur_Hostname :: string
  ur_User :: bool
  ur_RawQuery :: string
  ur_ForceQuery :: bool
  ur_Fragment :: string
  ur_Path :: string

record url_lib =
  ul_Parse :: "string \<Rightarrow> url option"
  ul_Addr :: "string \<Rightarrow> ip_addr option"
  ul_String :: "url \<Rightarrow> string"

definition metadataHosts :: "string list" where
  "metadataHosts = [''metadata.google.internal'', ''metadata'', ''instance-data'', ''metadata.goog'', ''kubernetes.default.svc'']"

definition trim_chars :: "string \<Rightarrow> string \<Rightarrow> string" where
  "trim_chars cs s = rev (dropWhile (\<lambda>c. c \<in> set cs) (rev (dropWhile (\<lambda>c. c \<in> set cs) s)))"

definition trim_right :: "string \<Rightarrow> string \<Rightarrow> string" where
  "trim_right cs s = rev (dropWhile (\<lambda>c. c \<in> set cs) (rev s))"

definition internal_name :: "string \<Rightarrow> bool" where
  "internal_name host \<longleftrightarrow> host = ''localhost'' \<or> has_suffix host ''.localhost'' \<or> has_suffix host ''.local'' \<or>
     has_suffix host ''.internal'' \<or> \<not> str_contains host ''.''"

definition ValidateURL :: "url_lib \<Rightarrow> string \<Rightarrow> bool \<Rightarrow> url res" where
  "ValidateURL U raw AllowInsecure =
     (if 2048 < length raw then Inl (Errorf ''endpoint URL is too long'' [])
      else case ul_Parse U raw of
        None \<Rightarrow> Inl (Errorf ''endpoint must be an absolute URL such as https://plugin.example.com'' [])
      | Some u \<Rightarrow>
          if ur_Scheme u = [] \<or> ur_Host u = []
            then Inl (Errorf ''endpoint must be an absolute URL such as https://plugin.example.com'' [])
          else if ur_Scheme u = ''http'' \<and> \<not> AllowInsecure
            then Inl (Errorf ''endpoint must use https (plain http is only allowed when ALLOW_INSECURE_PLUGIN_ENDPOINTS=true)'' [])
          else if ur_Scheme u \<noteq> ''https'' \<and> ur_Scheme u \<noteq> ''http''
            then Inl (Errorf ''endpoint scheme %q is not allowed'' [AStr (ur_Scheme u)])
          else if ur_User u then Inl (Errorf ''endpoint must not contain credentials; supply them as a secret'' [])
          else if ur_RawQuery u \<noteq> [] \<or> ur_ForceQuery u
            then Inl (Errorf ''endpoint must not contain a query string; supply credentials as a secret'' [])
          else if ur_Fragment u \<noteq> [] then Inl (Errorf ''endpoint must not contain a fragment'' [])
          else (let host = to_lower (ur_Hostname u); v = u\<lparr>ur_Path := trim_right ''/'' (ur_Path u)\<rparr> in
            if host = [] then Inl (Errorf ''endpoint has no host'' [])
            else if host \<in> set metadataHosts then Inl (Errorf ''cloud metadata endpoints are not allowed'' [])
            else case ul_Addr U (trim_chars ''[]'' host) of
              Some ip \<Rightarrow> (case checkAddr ip AllowInsecure of Some e \<Rightarrow> Inl e | None \<Rightarrow> Inr v)
            | None \<Rightarrow>
                if \<not> AllowInsecure \<and> internal_name host
                then Inl (Errorf ''internal hostnames are not allowed (set ALLOW_INSECURE_PLUGIN_ENDPOINTS=true for local development)'' [])
                else Inr v))"

text \<open>The hook of the dialer: \<open>split\<close> is the host of the dialled address, and nothing is dialled on an error.\<close>

definition dial_check :: "url_lib \<Rightarrow> (string \<Rightarrow> string res) \<Rightarrow> bool \<Rightarrow> string \<Rightarrow> goerr option" where
  "dial_check U split AllowInsecure address =
     (case split address of
        Inl e \<Rightarrow> Some e
      | Inr host \<Rightarrow>
          (case ul_Addr U host of
             None \<Rightarrow> Some (Errorf ''unparseable dial address %q'' [AStr address])
           | Some ip \<Rightarrow> checkAddr ip AllowInsecure))"

definition ErrTooLarge :: goerr where "ErrTooLarge = Sentinel ''safehttp.ErrTooLarge''"

text \<open>\<open>ReadLimited\<close> of a reader that gives the bytes \<open>b\<close>, then ends or fails.\<close>

definition ReadLimited :: "string \<times> goerr option \<Rightarrow> int \<Rightarrow> string res" where
  "ReadLimited r mx =
     (let limited = take (nat (mx + 1)) (fst r) in
      if length limited = length (fst r) \<and> int (length (fst r)) < mx + 1 \<and> snd r \<noteq> None then Inl (the (snd r))
      else if mx < int (length limited) then Inl ErrTooLarge else Inr limited)"

section \<open>Facts\<close>

definition v4 :: "nat \<Rightarrow> nat \<Rightarrow> nat \<Rightarrow> nat \<Rightarrow> nat" where
  "v4 a b c d = ((a * 256 + b) * 256 + c) * 256 + d"

text \<open>The blocks of addresses, as intervals.\<close>

definition v4_blocked :: "(nat \<times> nat) list" where
  "v4_blocked = [(v4 0 0 0 0, v4 0 0 0 0), (v4 10 0 0 0, v4 10 255 255 255), (v4 100 64 0 0, v4 100 127 255 255),
     (v4 127 0 0 0, v4 127 255 255 255), (v4 169 254 0 0, v4 169 254 255 255), (v4 172 16 0 0, v4 172 31 255 255),
     (v4 192 168 0 0, v4 192 168 255 255), (v4 224 0 0 0, v4 239 255 255 255)]"

lemma unat_byte: "unat (v4_byte i w) = unat w div 2 ^ ((3 - i) * 8) mod 256"
proof -
  have "v4_byte i w = take_bit 8 (drop_bit ((3 - i) * 8) w)"
    by (simp add: v4_byte_def take_bit_eq_mask mask_numeral)
  then show ?thesis
    by (simp only: unsigned_take_bit_eq unat_drop_bit_eq) (simp add: drop_bit_eq_div take_bit_eq_mod)
qed

lemma byte_eq_iff: "n < 2 ^ 32 \<Longrightarrow> v4_byte i w = of_nat n \<longleftrightarrow> unat w div 2 ^ ((3 - i) * 8) mod 256 = n"
  by (simp add: unat_byte word_unat_eq_iff unat_of_nat take_bit_nat_eq_self_iff take_bit_eq_mod)

text \<open>The high half of a byte.\<close>

lemma high_nibble:
  "v4_byte i w AND 0xf0 = 0xe0 \<longleftrightarrow> unat w div 2 ^ ((3 - i) * 8) mod 256 div 16 = 14"
  "v4_byte i w AND 0xf0 = 0x10 \<longleftrightarrow> unat w div 2 ^ ((3 - i) * 8) mod 256 div 16 = 1"
proof -
  have all: "list_all (\<lambda>k. ((of_nat k :: 32 word) AND 0xf0 = 0xe0 \<longleftrightarrow> k div 16 = 14) \<and>
      ((of_nat k :: 32 word) AND 0xf0 = 0x10 \<longleftrightarrow> k div 16 = 1)) [0..<256]"
    by code_simp
  have b: "v4_byte i w = of_nat (unat w div 2 ^ ((3 - i) * 8) mod 256)"
    by (simp add: unat_byte [symmetric])
  have "unat w div 2 ^ ((3 - i) * 8) mod 256 \<in> set [0..<256]" by simp
  note k = bspec [OF all [unfolded list_all_iff] this, folded b]
  show "v4_byte i w AND 0xf0 = 0xe0 \<longleftrightarrow> unat w div 2 ^ ((3 - i) * 8) mod 256 div 16 = 14" by (rule conjunct1 [OF k])
  show "v4_byte i w AND 0xf0 = 0x10 \<longleftrightarrow> unat w div 2 ^ ((3 - i) * 8) mod 256 div 16 = 1" by (rule conjunct2 [OF k])
qed


lemma byte0: "unat w div 16777216 mod 256 = unat w div 16777216" for w :: "32 word"
proof -
  have "unat w < 4294967296" using unsigned_less [of w, where 'a = nat] by simp
  then show ?thesis by simp
qed

text \<open>Quotients as intervals, and two digits of a number at a time.\<close>

lemma div_iff: "0 < k \<Longrightarrow> n div k = a \<longleftrightarrow> a * k \<le> n \<and> n < Suc a * k" for n k a :: nat
proof -
  assume k: "0 < k"
  have "n div k = a \<longleftrightarrow> a \<le> n div k \<and> n div k < Suc a" by auto
  then show "n div k = a \<longleftrightarrow> a * k \<le> n \<and> n < Suc a * k"
    by (simp only: less_eq_div_iff_mult_less_eq [OF k] div_less_iff_less_mult [OF k])
qed

lemma two_digits: "m div k = a \<and> m mod k = b \<longleftrightarrow> b < k \<and> m = a * k + b" if "0 < k" for m k a b :: nat
  using that by (auto simp: mult.commute)

lemma byte_range:
  fixes n :: nat
  shows "n div 16777216 = a \<longleftrightarrow> a * 16777216 \<le> n \<and> n < Suc a * 16777216"
    and "n div 16777216 = a \<and> n div 65536 mod 256 = b \<longleftrightarrow>
      b < 256 \<and> (a * 256 + b) * 65536 \<le> n \<and> n < Suc (a * 256 + b) * 65536"
    and "n div 16777216 = a \<and> n div 65536 mod 256 div 16 = c \<longleftrightarrow>
      c < 16 \<and> (a * 16 + c) * 1048576 \<le> n \<and> n < Suc (a * 16 + c) * 1048576"
    and "n div 16777216 div 16 = d \<longleftrightarrow> d * 268435456 \<le> n \<and> n < Suc d * 268435456"
    and "n div 4194304 = e \<longleftrightarrow> e * 4194304 \<le> n \<and> n < Suc e * 4194304"
proof -
  show "n div 16777216 = a \<longleftrightarrow> a * 16777216 \<le> n \<and> n < Suc a * 16777216" by (rule div_iff) simp
  show "n div 4194304 = e \<longleftrightarrow> e * 4194304 \<le> n \<and> n < Suc e * 4194304" by (rule div_iff) simp
  have "n div 16777216 div 16 = n div 268435456" by (simp add: div_mult2_eq [symmetric])
  then show "n div 16777216 div 16 = d \<longleftrightarrow> d * 268435456 \<le> n \<and> n < Suc d * 268435456"
    using div_iff [of 268435456 n d] by (simp only: zero_less_numeral simp_thms)
  have "n div 16777216 = n div 65536 div 256" by (simp add: div_mult2_eq [symmetric])
  then have "n div 16777216 = a \<and> n div 65536 mod 256 = b \<longleftrightarrow> b < 256 \<and> n div 65536 = a * 256 + b"
    by (simp only: two_digits)
  then show "n div 16777216 = a \<and> n div 65536 mod 256 = b \<longleftrightarrow>
      b < 256 \<and> (a * 256 + b) * 65536 \<le> n \<and> n < Suc (a * 256 + b) * 65536"
    by (simp only: div_iff)
  have "n div 65536 mod 256 div 16 = n div 65536 div 16 mod 16"
    using mod_mult2_eq [of "n div 65536" 16 16] by simp
  then have m: "n div 65536 mod 256 div 16 = n div 1048576 mod 16" "n div 16777216 = n div 1048576 div 16"
    by (simp_all add: div_mult2_eq [symmetric])
  have "n div 16777216 = a \<and> n div 65536 mod 256 div 16 = c \<longleftrightarrow> c < 16 \<and> n div 1048576 = a * 16 + c"
    unfolding m by (rule two_digits) simp
  then show "n div 16777216 = a \<and> n div 65536 mod 256 div 16 = c \<longleftrightarrow>
      c < 16 \<and> (a * 16 + c) * 1048576 \<le> n \<and> n < Suc (a * 16 + c) * 1048576"
    by (simp only: div_iff)
qed

lemma metadata_v4: "V4 w \<in> set metadataAddrs \<Longrightarrow> IsLinkLocalUnicast (V4 w) \<or> in_cgnat (V4 w)"
  by (auto simp: metadataAddrs_def v4_byte_def)

text \<open>Which IPv4 addresses a plugin endpoint may have. Outside development mode an address, given as such or
  mapped into IPv6, is accepted exactly when it lies outside the unspecified, private, shared (CGNAT),
  loopback, link-local and multicast blocks; the cloud metadata addresses lie in these blocks.\<close>
theorem accepted_v4_addresses:
  assumes "Unmap addr = V4 w"
  shows "checkAddr addr False = None \<longleftrightarrow> (\<forall>(lo, hi) \<in> set v4_blocked. unat w < lo \<or> hi < unat w)"
proof -
  have un: "V4 w = V4 0 \<or> V4 w = V6 0 [] \<longleftrightarrow> unat w = 0" by (simp add: unat_eq_0)
  have cg: "in_cgnat (V4 w) \<longleftrightarrow> unat w div 4194304 = 401"
    by (simp add: word_unat_eq_iff unat_div_distrib unat_drop_bit_eq drop_bit_eq_div)
  have mc: "IsMulticast (V4 w) \<longleftrightarrow> unat w div 16777216 div 16 = 14"
    using high_nibble(1) [of 0 w] by (simp add: byte0)
  have ll: "IsLinkLocalUnicast (V4 w) \<longleftrightarrow> unat w div 16777216 = 169 \<and> unat w div 65536 mod 256 = 254"
    using byte_eq_iff [of 169 0 w] byte_eq_iff [of 254 1 w] by (simp add: byte0)
  have lm: "IsLinkLocalMulticast (V4 w) \<longrightarrow> IsMulticast (V4 w)"
    using byte_eq_iff [of 224 0 w] unfolding mc by (simp add: byte0)
  have lo: "IsLoopback (V4 w) \<longleftrightarrow> unat w div 16777216 = 127"
    using byte_eq_iff [of 127 0 w] by (simp add: byte0)
  have pr: "IsPrivate (V4 w) \<longleftrightarrow> unat w div 16777216 = 10 \<or>
      unat w div 16777216 = 172 \<and> unat w div 65536 mod 256 div 16 = 1 \<or>
      unat w div 16777216 = 192 \<and> unat w div 65536 mod 256 = 168"
    using byte_eq_iff [of 10 0 w] byte_eq_iff [of 172 0 w] byte_eq_iff [of 192 0 w] byte_eq_iff [of 168 1 w]
      high_nibble(2) [of 1 w] by (simp add: byte0)
  have "checkAddr addr False = None \<longleftrightarrow> V4 w \<notin> set metadataAddrs \<and>
      \<not> (IsUnspecified (V4 w) \<or> IsMulticast (V4 w) \<or> IsLinkLocalUnicast (V4 w) \<or> IsLinkLocalMulticast (V4 w)) \<and>
      \<not> (IsLoopback (V4 w) \<or> IsPrivate (V4 w) \<or> in_cgnat (V4 w))"
    unfolding checkAddr_def Let_def assms by (simp only: IsInterfaceLocalMulticast.simps option.distinct if_split simp_thms split: if_split) blast
  also have "\<dots> \<longleftrightarrow> \<not> (unat w = 0 \<or> IsMulticast (V4 w) \<or> IsLinkLocalUnicast (V4 w) \<or> IsLoopback (V4 w) \<or> IsPrivate (V4 w) \<or> in_cgnat (V4 w))"
    using metadata_v4 [of w] lm un unfolding IsUnspecified_def by blast
  finally have tests: "checkAddr addr False = None \<longleftrightarrow>
      \<not> (unat w = 0 \<or> unat w div 16777216 div 16 = 14 \<or>
        unat w div 16777216 = 169 \<and> unat w div 65536 mod 256 = 254 \<or> unat w div 16777216 = 127 \<or>
        (unat w div 16777216 = 10 \<or> unat w div 16777216 = 172 \<and> unat w div 65536 mod 256 div 16 = 1 \<or>
         unat w div 16777216 = 192 \<and> unat w div 65536 mod 256 = 168) \<or> unat w div 4194304 = 401)"
    unfolding mc ll lo pr cg .
  note r = byte_range [of "unat w"]
  have b0: "unat w = 0 \<longleftrightarrow> v4 0 0 0 0 \<le> unat w \<and> unat w \<le> v4 0 0 0 0"
    unfolding  v4_def by auto
  have b1: "unat w div 16777216 = 10 \<longleftrightarrow> v4 10 0 0 0 \<le> unat w \<and> unat w \<le> v4 10 255 255 255"
    unfolding r(1) v4_def by auto
  have b2: "unat w div 4194304 = 401 \<longleftrightarrow> v4 100 64 0 0 \<le> unat w \<and> unat w \<le> v4 100 127 255 255"
    unfolding r(5) v4_def by auto
  have b3: "unat w div 16777216 = 127 \<longleftrightarrow> v4 127 0 0 0 \<le> unat w \<and> unat w \<le> v4 127 255 255 255"
    unfolding r(1) v4_def by auto
  have b4: "unat w div 16777216 = 169 \<and> unat w div 65536 mod 256 = 254 \<longleftrightarrow> v4 169 254 0 0 \<le> unat w \<and> unat w \<le> v4 169 254 255 255"
    unfolding r(2) v4_def by auto
  have b5: "unat w div 16777216 = 172 \<and> unat w div 65536 mod 256 div 16 = 1 \<longleftrightarrow> v4 172 16 0 0 \<le> unat w \<and> unat w \<le> v4 172 31 255 255"
    unfolding r(3) v4_def by auto
  have b6: "unat w div 16777216 = 192 \<and> unat w div 65536 mod 256 = 168 \<longleftrightarrow> v4 192 168 0 0 \<le> unat w \<and> unat w \<le> v4 192 168 255 255"
    unfolding r(2) v4_def by auto
  have b7: "unat w div 16777216 div 16 = 14 \<longleftrightarrow> v4 224 0 0 0 \<le> unat w \<and> unat w \<le> v4 239 255 255 255"
    unfolding r(4) v4_def by auto
  show ?thesis
    unfolding tests b4 b5 b6 b7 b0 b1 b2 b3 v4_blocked_def
    by (simp only: list.set ball_simps prod.case de_Morgan_disj de_Morgan_conj not_le) blast
qed

theorem accepted_v4_addresses_witness:
  "checkAddr (V6 0xffff08080808 []) False = None \<and> checkAddr (V4 0xAC100001) False \<noteq> None"
  using accepted_v4_addresses [where addr = "V6 0xffff08080808 []" and w = "0x08080808"] accepted_v4_addresses [where addr = "V4 0xAC100001" and w = "0xAC100001"]
  by (simp add: v4_blocked_def v4_def)

text \<open>In development mode, where the cloud metadata addresses are to stay blocked, an IPv6 zone hides one: the
  address is refused as it stands and accepted with any zone, because the comparison includes the zone.\<close>
theorem zone_hides_metadata_address:
  "checkAddr (V6 0xFD000EC2000000000000000000000254 []) True \<noteq> None \<and>
   (z \<noteq> [] \<longrightarrow> checkAddr (V6 0xFD000EC2000000000000000000000254 z) True = None)"
  by (simp add: checkAddr_def metadataAddrs_def IsUnspecified_def v6_u16_def)

theorem zone_hides_metadata_address_witness:
  "checkAddr (V6 0xFD000EC2000000000000000000000254 ''eth0'') True = None"
  using zone_hides_metadata_address [of "''eth0''"] by simp

end
