(* ===== verification/Requests.thy ===== *)
theory Requests
  imports Control Safe_Http
begin

text \<open>
  What the manager accepts as an installation (\<open>parseRequest\<close> and \<open>checkConfigAndSecrets\<close> of
  \<open>internal/plugins/manager/manager.go\<close>) and how versions compare (\<open>semverCompare\<close> of \<open>install.go\<close>). The
  YAML and URL libraries and the text of an error are parameters (\<open>req_lib\<close>).
\<close>

section \<open>Patterns\<close>

definition image_char :: "char \<Rightarrow> bool" where
  "image_char c \<longleftrightarrow> is_lower_digit c \<or> c \<in> {CHR ''.'', CHR ''_'', CHR ''-''}"

definition image_part :: rx where
  "image_part = rx_seqs [RSet is_lower_digit, RStar (RSet image_char)]"

definition imageRE :: rx where
  "imageRE = rx_seqs [image_part, rx_opt (rx_seqs [rx_char (CHR '':''), rx_plus (RSet is_digit)]),
     RStar (rx_seqs [rx_char (CHR ''/''), image_part]),
     rx_opt (rx_seqs [rx_char (CHR '':''), RSet (\<lambda>c. is_alnum c \<or> c = CHR ''_''),
       rx_rep 0 127 (RSet (\<lambda>c. is_alnum c \<or> c \<in> {CHR ''.'', CHR ''_'', CHR ''-''}))]),
     rx_opt (rx_seqs [rx_lit ''@sha256:'', rx_rep 64 64 (RSet (\<lambda>c. in_range (CHR ''a'') (CHR ''f'') c \<or> is_digit c))])]"

definition path_char :: "char \<Rightarrow> bool" where
  "path_char c \<longleftrightarrow> is_alnum c \<or> c \<in> {CHR ''.'', CHR ''_'', CHR ''/'', CHR ''-''}"

definition revisionRE :: rx where
  "revisionRE = rx_seqs [RSet is_alnum, rx_rep 0 99 (RSet path_char)]"

definition localPathRE :: rx where
  "localPathRE = rx_seqs [rx_char (CHR ''/''), rx_rep 1 200 (RSet path_char)]"

definition repo_name_char :: "char \<Rightarrow> bool" where
  "repo_name_char c \<longleftrightarrow> is_alnum c \<or> c \<in> {CHR ''.'', CHR ''_'', CHR ''-''}"

definition repoRE :: rx where
  "repoRE = rx_seqs [rx_lit ''https://github.com/'', RSet is_alnum,
     rx_rep 0 38 (RSet (\<lambda>c. is_alnum c \<or> c = CHR ''-'')), rx_char (CHR ''/''), rx_rep 1 100 (RSet repo_name_char),
     rx_opt (rx_lit ''.git'')]"

definition secretNameRE :: rx where
  "secretNameRE = rx_seqs [RSet is_upper, rx_rep 0 63 (RSet (\<lambda>c. is_upper c \<or> is_digit c \<or> c = CHR ''_''))]"

definition maxSecretLen :: nat where "maxSecretLen = 8192"

section \<open>Requests\<close>

record req_lib =
  ql_yaml :: yaml_lib
  ql_url :: url_lib
  ql_render :: "goerr \<Rightarrow> string"

record parsed_request =
  pr_typ :: plugin_type
  pr_mode :: plugin_mode
  pr_manifest :: "manifest option"
  pr_source :: source
  pr_config :: "(string, anyval) gomap"
  pr_secrets :: "(string, string) gomap"

definition no_source :: source where
  "no_source = \<lparr>so_EndpointURL = [], so_ImageRef = [], so_RepoURL = [], so_Revision = []\<rparr>"

text \<open>\<open>ValidationError\<close> lists its issues.\<close>

definition ValidationError :: "issue list \<Rightarrow> goerr" where
  "ValidationError is =
     Errorf ''invalid plugin manifest: %s; ...'' (map (\<lambda>i. AErr (Errorf (fst (is_Message i)) (AStr (is_Path i) # snd (is_Message i)))) is)"

definition invalid_as :: "goerr \<Rightarrow> goerr" where
  "invalid_as e = InvalidError ''%v'' [AErr e]"

fun check_secret_values :: "(string, string) gomap \<Rightarrow> goerr option" where
  "check_secret_values [] = None"
| "check_secret_values ((name, v) # r) =
     (if \<not> rx_match secretNameRE name then Some (InvalidError ''secret name %q is not valid'' [AStr name])
      else if v = [] then Some (InvalidError ''secret %s is empty'' [AStr name])
      else if maxSecretLen < length v then Some (InvalidError ''secret %s is too long'' [AStr name])
      else check_secret_values r)"

definition checkConfigAndSecrets ::
    "req_lib \<Rightarrow> manifest \<Rightarrow> plugin_mode \<Rightarrow> (string, anyval) gomap \<Rightarrow> (string, string) gomap \<Rightarrow> goerr option" where
  "checkConfigAndSecrets L mf mode cfg sec =
     (case ResolveConfig mf cfg of
        Inl e \<Rightarrow> Some (invalid_as e)
      | Inr _ \<Rightarrow> if mode = ModeEndpoint then None
                else map_option invalid_as (CheckSecrets (ql_render L) mf (gm_keys sec)))"

definition request_manifest :: "req_lib \<Rightarrow> plugin_type \<Rightarrow> string \<Rightarrow> manifest option res" where
  "request_manifest L typ text =
     (if text = [] then Inr None
      else case manifest_Parse (ql_yaml L) text of
             Inl is \<Rightarrow> Inl (invalid_as (ValidationError is))
           | Inr mf \<Rightarrow>
               if mf_Type mf \<noteq> type_name typ
               then Inl (InvalidError ''manifest is for type %s but the request selects %s'' [AStr (mf_Type mf), AStr (type_name typ)])
               else Inr (Some mf))"

text \<open>The three modes: each gives the mode, the manifest and the source.\<close>

definition endpoint_request ::
    "req_lib \<Rightarrow> bool \<Rightarrow> install_request \<Rightarrow> plugin_type \<Rightarrow> manifest option \<Rightarrow> (plugin_mode \<times> manifest option \<times> source) res" where
  "endpoint_request L insecure req typ mf =
     res_bind (case ValidateURL (ql_url L) (ir_Endpoint req) insecure of
         Inl e \<Rightarrow> Inl (InvalidError ''endpoint: %v'' [AErr e]) | Inr u \<Rightarrow> Inr u) (\<lambda>u.
     res_bind (case mf of
         Some m \<Rightarrow> Inr m
       | None \<Rightarrow>
           (let m = Minimal (ir_Name req) (if ir_Version req = [] then ''1.0.0'' else ir_Version req) typ in
            case manifest_Validate m of Some is \<Rightarrow> Inl (invalid_as (ValidationError is)) | None \<Rightarrow> Inr m)) (\<lambda>m.
     (case List.find (\<lambda>n. n \<noteq> EndpointTokenSecret) (gm_keys (ir_Secrets req)) of
        Some n \<Rightarrow> Inl (InvalidError ''a hosted endpoint only accepts the %s secret (sent as a Bearer token); %q would never be used''
                         [AStr EndpointTokenSecret, AStr n])
      | None \<Rightarrow> Inr (ModeEndpoint, Some m, no_source\<lparr>so_EndpointURL := ul_String (ql_url L) u\<rparr>))))"

definition image_request ::
    "bool \<Rightarrow> install_request \<Rightarrow> manifest option \<Rightarrow> (plugin_mode \<times> manifest option \<times> source) res" where
  "image_request ctl req mf =
     (if \<not> ctl then Inl (InvalidError ''image installation needs the plugin controller (PLUGIN_CONTROLLER_URL is not set)'' [])
      else if \<not> rx_match imageRE (ir_Image req) \<or> str_contains (ir_Image req) ''..''
        then Inl (InvalidError ''image reference %q is not valid'' [AStr (ir_Image req)])
      else Inr (ModeImage, mf, no_source\<lparr>so_ImageRef := ir_Image req\<rparr>))"

definition repository_request ::
    "bool \<Rightarrow> bool \<Rightarrow> install_request \<Rightarrow> manifest option \<Rightarrow> (plugin_mode \<times> manifest option \<times> source) res" where
  "repository_request ctl insecure req mf =
     (if \<not> ctl then Inl (InvalidError ''repository installation needs the plugin controller (PLUGIN_CONTROLLER_URL is not set)'' [])
      else let localOK = insecure \<and> has_prefix (ir_Repo req) ''/'' \<and> rx_match localPathRE (ir_Repo req);
               rev = (if ir_Revision req = [] then ''HEAD'' else ir_Revision req) in
        if \<not> rx_match repoRE (ir_Repo req) \<and> \<not> localOK
        then Inl (InvalidError ''repository must be an https://github.com/<owner>/<repo> URL'' [])
        else if \<not> rx_match revisionRE rev \<or> str_contains rev ''..''
        then Inl (InvalidError ''revision %q is not valid'' [AStr rev])
        else Inr (ModeRepository, mf, no_source\<lparr>so_RepoURL := ir_Repo req, so_Revision := rev\<rparr>))"

definition mode_name :: "plugin_mode \<Rightarrow> string" where
  "mode_name m = (case m of ModeEndpoint \<Rightarrow> ''endpoint'' | ModeImage \<Rightarrow> ''image'' | ModeRepository \<Rightarrow> ''repository'')"

definition parseRequest ::
    "req_lib \<Rightarrow> ('r, 'c, 'v, 's, 'p, 'e) mgr_env \<Rightarrow> install_request \<Rightarrow> parsed_request res" where
  "parseRequest L E req =
     (let insecure = mc_AllowInsecureEndpoints (mg_cfg E); ctl = mg_ctl E \<noteq> None;
          cfg = (case ir_Config req of Some c \<Rightarrow> c | None \<Rightarrow> []) in
      res_bind (case ParseType (ir_Type req) of Inl e \<Rightarrow> Inl (invalid_as e) | Inr t \<Rightarrow> Inr t) (\<lambda>typ.
      res_bind (case check_secret_values (ir_Secrets req) of Some e \<Rightarrow> Inl e | None \<Rightarrow> Inr ()) (\<lambda>_.
      res_bind (request_manifest L typ (ir_Manifest req)) (\<lambda>mf0.
      res_bind (if ir_Mode req = mode_name ModeEndpoint then endpoint_request L insecure req typ mf0
                else if ir_Mode req = mode_name ModeImage then image_request ctl req mf0
                else if ir_Mode req = mode_name ModeRepository then repository_request ctl insecure req mf0
                else Inl (InvalidError ''mode must be endpoint, image or repository'' [])) (\<lambda>(mode, mf, src).
      (case mf of
         None \<Rightarrow> Inr \<lparr>pr_typ = typ, pr_mode = mode, pr_manifest = None, pr_source = src, pr_config = cfg, pr_secrets = ir_Secrets req\<rparr>
       | Some m \<Rightarrow>
           if mode \<noteq> ModeEndpoint \<and> mf_Mode m = RuntimeEndpoint
           then Inl (InvalidError ''manifest runtime.mode is endpoint but the install mode is %s'' [AStr (mode_name mode)])
           else case checkConfigAndSecrets L m mode cfg (ir_Secrets req) of
                  Some e \<Rightarrow> Inl e
                | None \<Rightarrow> Inr \<lparr>pr_typ = typ, pr_mode = mode, pr_manifest = Some m, pr_source = src, pr_config = cfg,
                               pr_secrets = ir_Secrets req\<rparr>))))))"

section \<open>Versions\<close>

text \<open>\<open>strings.SplitN(s, c, 3)\<close> and the text before and after the first \<open>c\<close>.\<close>

definition semver_parse :: "string \<Rightarrow> int list \<times> string" where
  "semver_parse v =
     (let s = takeWhile (\<lambda>c. c \<noteq> CHR ''+'') v;
          core = takeWhile (\<lambda>c. c \<noteq> CHR ''-'') s; pre = drop (Suc (length core)) s;
          parts = split_on (CHR ''.'') core;
          three = (if length parts \<le> 3 then parts else take 2 parts @ [str_join ''.'' (drop 2 parts)])
      in (map atoi_value three @ replicate (3 - length three) 0, pre))"

fun compare_nums :: "int list \<Rightarrow> int list \<Rightarrow> int" where
  "compare_nums (a # as) (b # bs) = (if a < b then -1 else if b < a then 1 else compare_nums as bs)"
| "compare_nums _ _ = 0"

definition semverCompare :: "string \<Rightarrow> string \<Rightarrow> int" where
  "semverCompare a b =
     (case (semver_parse a, semver_parse b) of
        ((an, ap), (bn, bp)) \<Rightarrow>
          (let c = compare_nums an bn in
           if c \<noteq> 0 then c
           else if ap = bp then 0 else if ap = [] then 1 else if bp = [] then -1 else if ap < bp then -1 else 1))"

end
