(* ===== verification/Controller.thy ===== *)
theory Controller
  imports Docker Py_Build Requests Sdk_Net
begin

text \<open>
  The plugin controller (\<open>internal/plugins/controller/server.go\<close>, \<open>scan.go\<close>): it makes plugins runnable and starts,
  watches and stops their containers. \<open>ctl_env\<close> holds what does not change: the configuration, the container
  backend (an interface, \<open>runtime\<close>), the scanner (an interface), the YAML library, digests, and what the code
  does to the world outside: files, git, HTTP to the plugin, the clock. \<open>ctl\<close> is the state: the instances it knows,
  the locks made so far, and the world. A context that ends is \<open>ce_ctx\<close>. Waiting for health may not end, so its
  result is an option. A text for the administrator is kept as the format and its arguments; \<open>ce_line\<close> renders it.
\<close>

section \<open>Configuration and state\<close>

record ctl_config =
  kc_Token :: string
  kc_RunnerDir :: string
  kc_BuildTimeout :: int
  kc_MaxImageBytes :: int
  kc_MaxSourceBytes :: int
  kc_MaxSourceFiles :: int
  kc_CPULimit :: f64
  kc_MemoryLimit :: int
  kc_AllowLocalImages :: bool
  kc_AllowLocalGit :: bool
  kc_AllowEgress :: bool
  kc_RequireScan :: bool
  kc_Publish :: bool
  kc_SelfContainer :: string
  kc_ProxyTimeout :: int
  kc_MaxProxyBody :: int
  kc_MaxProxyResult :: int
  kc_HealthWait :: int

definition or_default :: "int \<Rightarrow> int \<Rightarrow> int" where
  "or_default x d = (if x \<le> 0 then d else x)"

definition ctl_defaults :: "ctl_config \<Rightarrow> ctl_config" where
  "ctl_defaults c = c\<lparr>
     kc_BuildTimeout := or_default (kc_BuildTimeout c) (10 * Minute),
     kc_MaxImageBytes := or_default (kc_MaxImageBytes c) (2 * 2 ^ 30),
     kc_MaxSourceBytes := or_default (kc_MaxSourceBytes c) (100 * 2 ^ 20),
     kc_MaxSourceFiles := or_default (kc_MaxSourceFiles c) 20000,
     kc_CPULimit := if f64_le (kc_CPULimit c) (F_Zero False) then F_Num 1 else kc_CPULimit c,
     kc_MemoryLimit := or_default (kc_MemoryLimit c) (512 * 2 ^ 20),
     kc_ProxyTimeout := or_default (kc_ProxyTimeout c) (120 * Second),
     kc_MaxProxyBody := or_default (kc_MaxProxyBody c) (64 * 2 ^ 20),
     kc_MaxProxyResult := or_default (kc_MaxProxyResult c) (32 * 2 ^ 20),
     kc_HealthWait := or_default (kc_HealthWait c) (60 * Second)\<rparr>"

record instance_rec =
  ip_name :: string
  ip_addr :: string
  ip_authToken :: string
  ip_healthPath :: string
  ip_port :: int

text \<open>A request the controller sends to a plugin, and the answer: status, content type, announced length, body.\<close>

record proxy_request =
  px_url :: string
  px_method :: string
  px_body :: string
  px_cut :: bool  \<comment> \<open>the body exceeds the limit: reading it fails after these bytes\<close>
  px_contentType :: string
  px_auth :: string

record proxy_response =
  pp_status :: int
  pp_contentType :: string
  pp_length :: int
  pp_body :: "string \<times> goerr option"  \<comment> \<open>the bytes, and the error that ends them early\<close>

record 'w ctl_env =
  ce_cfg :: ctl_config
  ce_rt :: "'w runtime"
  ce_Scan :: "string \<Rightarrow> 'w \<Rightarrow> scan_report res \<times> 'w"
  ce_yaml :: yaml_lib
  ce_marshal :: "manifest \<Rightarrow> string"
  ce_sha :: "string \<Rightarrow> string"
  ce_hmac :: "string \<Rightarrow> string \<Rightarrow> string"
  ce_line :: "detail \<Rightarrow> string"
  ce_MkdirTemp :: "string \<Rightarrow> 'w \<Rightarrow> string res \<times> 'w"
  ce_MkdirAll :: "string \<Rightarrow> 'w \<Rightarrow> goerr option \<times> 'w"
  ce_RemoveAll :: "string \<Rightarrow> 'w \<Rightarrow> 'w"
  ce_git :: "string \<Rightarrow> 'w git_ops"   \<comment> \<open>git in a directory\<close>
  ce_tree :: "string \<Rightarrow> 'w \<Rightarrow> node"  \<comment> \<open>what is below a directory\<close>
  ce_write :: "string \<Rightarrow> node \<Rightarrow> 'w \<Rightarrow> 'w"
  ce_get :: "string \<Rightarrow> 'w \<Rightarrow> int res \<times> 'w"
  ce_send :: "proxy_request \<Rightarrow> 'w \<Rightarrow> (proxy_response res \<times> string) \<times> 'w"  \<comment> \<open>and what is left of the body\<close>
  ce_sleep :: "int \<Rightarrow> 'w \<Rightarrow> goerr option \<times> 'w"
  ce_clock :: "'w \<Rightarrow> int"
  ce_ctx :: "'w \<Rightarrow> goerr option"

record 'w ctl =
  cs_instances :: "(string, instance_rec) gomap"
  cs_starting :: "string list"
  cs_w :: 'w

definition instanceIDRE :: rx where
  "instanceIDRE = rx_rep 1 64 (RSet name_char)"

text \<open>A controller is made with its defaults; the token must have 16 bytes.\<close>

definition ctl_New :: "'w ctl_env \<Rightarrow> 'w \<Rightarrow> ('w ctl_env \<times> 'w ctl) res" where
  "ctl_New E w =
     (let cfg = ctl_defaults (ce_cfg E) in
      if length (kc_Token cfg) < 16 then Inl (Errorf ''PLUGIN_CONTROLLER_TOKEN must be set to at least 16 characters'' [])
      else case ce_MkdirTemp E ''plugin-controller-*'' w of
        (Inl e, u) \<Rightarrow> Inl e
      | (Inr tmp, u) \<Rightarrow> Inr (E\<lparr>ce_cfg := cfg\<rparr>, \<lparr>cs_instances = [], cs_starting = [], cs_w = u\<rparr>))"

section \<open>Scanning\<close>

definition NoScanner :: "('w \<Rightarrow> int) \<Rightarrow> string \<Rightarrow> 'w \<Rightarrow> scan_report res \<times> 'w" where
  "NoScanner clock ref w =
     (Inr \<lparr>sc_Scanner = ''none'', sc_Status = ''skipped'', sc_Counts = [],
           sc_Message = ''no vulnerability scanner is configured (set PLUGIN_SCANNER=trivy)'', sc_ScannedAt = clock w\<rparr>, w)"

record 'w trivy =
  tv_FailOn :: "string list"
  tv_run :: "string list \<Rightarrow> 'w \<Rightarrow> (string \<times> string \<times> goerr option) \<times> 'w"
  tv_json :: "string \<Rightarrow> json res"
  tv_clock :: "'w \<Rightarrow> int"

definition severity_of :: "json \<Rightarrow> string res" where
  "severity_of j = json_struct [(''Severity'', \<lambda>x s. json_string x s)] j []"

definition list_setter :: "(json \<Rightarrow> 'a res) \<Rightarrow> 'a list setter" where
  "list_setter f j old = res_bind (json_slice f j) (\<lambda>r. Inr (case r of Some l \<Rightarrow> l | None \<Rightarrow> []))"

definition vulnerabilities_of :: "json \<Rightarrow> string list res" where
  "vulnerabilities_of j = json_struct [(''Vulnerabilities'', list_setter severity_of)] j []"

definition results_of :: "json \<Rightarrow> string list list res" where
  "results_of j = json_struct [(''Results'', list_setter vulnerabilities_of)] j []"

definition to_upper :: "string \<Rightarrow> string" where
  "to_upper = map (\<lambda>c. if CHR ''a'' \<le> c \<and> c \<le> CHR ''z'' then char_of (of_char c - 32 :: nat) else c)"

definition count_in :: "(string, int) gomap \<Rightarrow> string \<Rightarrow> int" where
  "count_in m s = (case gm_get m s of Some n \<Rightarrow> n | None \<Rightarrow> 0)"

definition severity_counts :: "string list list \<Rightarrow> (string, int) gomap" where
  "severity_counts rs = foldl (\<lambda>m s. gm_put (to_upper s) (count_in m (to_upper s) + 1) m) [] (concat rs)"

definition scan_outcome :: "string list \<Rightarrow> (string, int) gomap \<Rightarrow> int \<Rightarrow> scan_report" where
  "scan_outcome failOn counts tm =
     (case List.find (\<lambda>sev. 0 < count_in counts (to_upper sev)) failOn of
        None \<Rightarrow> \<lparr>sc_Scanner = ''trivy'', sc_Status = ''passed'', sc_Counts = counts, sc_Message = [], sc_ScannedAt = tm\<rparr>
      | Some sev \<Rightarrow>
          \<lparr>sc_Scanner = ''trivy'', sc_Status = ''failed'', sc_Counts = counts,
           sc_Message = itoa (count_in counts (to_upper sev)) @ '' '' @ to_upper sev @ '' vulnerabilities found'', sc_ScannedAt = tm\<rparr>)"

definition trivy_Scan :: "'w trivy \<Rightarrow> string \<Rightarrow> 'w \<Rightarrow> scan_report res \<times> 'w" where
  "trivy_Scan T ref w =
     (if \<not> rx_match imageRefRE ref then (Inl invalid_image, w)
      else case tv_run T [''image'', ''--quiet'', ''--format'', ''json'', ''--severity'', ''UNKNOWN,LOW,MEDIUM,HIGH,CRITICAL'', ref] w of
        ((out, errb, Some e), u) \<Rightarrow> (Inl (Errorf ''scanner failed: %w: %s'' [AWrap e, AStr (tail_text errb 300)]), u)
      | ((out, errb, None), u) \<Rightarrow>
          (case res_bind (tv_json T out) results_of of
             Inl e \<Rightarrow> (Inl (Errorf ''scanner output was not understood'' []), u)
           | Inr rs \<Rightarrow> (Inr (scan_outcome (tv_FailOn T) (severity_counts rs) (tv_clock T u)), u)))"

section \<open>Preparing\<close>

text \<open>The body of a request to prepare, where mode and type are any texts.\<close>

record prepare_body =
  pb_Mode :: string
  pb_Type :: string
  pb_Image :: string
  pb_Repo :: string
  pb_Revision :: string
  pb_Manifest :: string
  pb_DryRun :: bool
  pb_PluginID :: string

text \<open>\<open>bad\<close> is a \<open>PrepareError\<close>; its status is 422, as is that of any other error of these operations.\<close>

definition bad :: "string \<Rightarrow> earg list \<Rightarrow> 'a res" where
  "bad f as = Inl (Errorf f as)"

definition add_log :: "'w ctl_env \<Rightarrow> string list \<Rightarrow> string \<Rightarrow> earg list \<Rightarrow> string list" where
  "add_log E lg f as = last_lines 400 (lg @ [ce_line E (f, as)])"

definition ctl_parseManifest :: "'w ctl_env \<Rightarrow> string \<Rightarrow> plugin_type \<Rightarrow> manifest res" where
  "ctl_parseManifest E text t =
     (case manifest_Parse (ce_yaml E) text of
        Inl is \<Rightarrow> bad ''%v'' [AErr (ValidationError is)]
      | Inr m \<Rightarrow>
          if mf_Type m \<noteq> type_name t then bad ''manifest is for type %s but %s was requested'' [AStr (mf_Type m), AStr (type_name t)]
          else if mf_Mode m = RuntimeEndpoint then bad ''manifest runtime.mode is endpoint; use the hosted-endpoint install mode'' []
          else Inr m)"

definition ctl_limits :: "'w ctl_env \<Rightarrow> manifest \<Rightarrow> limits res" where
  "ctl_limits E m =
     (let c = ce_cfg E in
      case Effective m (kc_CPULimit c) (kc_MemoryLimit c) (kc_CPULimit c) (kc_MemoryLimit c) of
        Inl e \<Rightarrow> bad ''%v'' [AErr e]
      | Inr l \<Rightarrow> Inr l)"

definition finishImage :: "'w ctl_env \<Rightarrow> ImageInfo \<Rightarrow> manifest \<Rightarrow> string list \<Rightarrow> provenance \<Rightarrow> 'w \<Rightarrow>
    (prepare_result res \<times> string list) \<times> 'w" where
  "finishImage E info mf log0 prov w =
     (if kc_MaxImageBytes (ce_cfg E) < ii_Size info
      then ((bad ''image is %d bytes; the limit is %d'' [AInt (ii_Size info), AInt (kc_MaxImageBytes (ce_cfg E))], log0),
            rt_RemoveImage (ce_rt E) (ii_ID info) w)
      else
        let log1 = add_log E log0 ''image %s (%d bytes)'' [AStr (Pinned info), AInt (ii_Size info)] in
        case ce_Scan E (ii_ID info) w of
          (Inl e, u) \<Rightarrow> ((bad ''image scan could not run: %v'' [AErr e], log1), u)
        | (Inr rep, u) \<Rightarrow>
            if sc_Status rep = ''skipped'' \<and> kc_RequireScan (ce_cfg E)
            then ((bad ''no vulnerability scanner is configured but PLUGIN_REQUIRE_SCAN is set'' [], log1), u)
            else
              let log2 = add_log E log1 ''scan (%s): %s %s'' [AStr (sc_Scanner rep), AStr (sc_Status rep), AStr (sc_Message rep)] in
              if sc_Status rep = ''failed'' then ((bad ''image scan failed: %s'' [AStr (sc_Message rep)], log2), u)
              else
                let text = ce_marshal E mf in
                ((Inr \<lparr>ps_Digest = Pinned info, ps_ImageSize = ii_Size info, ps_Manifest = text, ps_Commit = [], ps_Scan = Some rep,
                       ps_Provenance = Some (prov\<lparr>pv_ManifestSHA := ce_sha E text, pv_ImageSize := ii_Size info\<rparr>), ps_Log = []\<rparr>, log2), u))"

text \<open>The manifest of an image: the administrator's, or the one in the image.\<close>

definition image_manifest :: "'w ctl_env \<Rightarrow> prepare_body \<Rightarrow> ImageInfo \<Rightarrow> string list \<Rightarrow> 'w \<Rightarrow> (string res \<times> string list) \<times> 'w" where
  "image_manifest E req info lg w =
     (if pb_Manifest req \<noteq> [] then ((Inr (pb_Manifest req), lg), w)
      else case rt_ReadFileFromImage (ce_rt E) (ii_ID info) ''/plugin.yaml'' (int MaxBytes) w of
        (Inl e, u) \<Rightarrow> ((bad ''no manifest supplied and the image has no /plugin.yaml: %v'' [AErr e], lg), u)
      | (Inr data, u) \<Rightarrow>
          ((Inr data, add_log E lg ''manifest read from /plugin.yaml in the image (the image was not started)'' []), u))"

definition dry_result :: "string \<Rightarrow> int \<Rightarrow> string \<Rightarrow> string \<Rightarrow> prepare_result" where
  "dry_result digest sz text commit =
     \<lparr>ps_Digest = digest, ps_ImageSize = sz, ps_Manifest = text, ps_Commit = commit, ps_Scan = None, ps_Provenance = None, ps_Log = []\<rparr>"

definition no_provenance :: "string \<Rightarrow> int \<Rightarrow> provenance" where
  "no_provenance builder tm =
     \<lparr>pv_Builder = builder, pv_RepoURL = [], pv_Commit = [], pv_SourceHash = [], pv_ManifestSHA = [], pv_BuiltAt = tm, pv_ImageSize = 0\<rparr>"

definition prepareImage :: "'w ctl_env \<Rightarrow> prepare_body \<Rightarrow> plugin_type \<Rightarrow> string list \<Rightarrow> 'w \<Rightarrow> (prepare_result res \<times> string list) \<times> 'w" where
  "prepareImage E req t log0 w =
     (if \<not> rx_match imageRefRE (pb_Image req) \<or> has_prefix (pb_Image req) ''-'' then ((bad ''invalid image reference'' [], log0), w)
      else
        let log1 = add_log E log0 ''resolving image %s'' [AStr (pb_Image req)] in
        case rt_PullOrInspect (ce_rt E) (pb_Image req) (kc_AllowLocalImages (ce_cfg E)) w of
          (Inl e, u) \<Rightarrow> ((bad ''could not pull the image: %v'' [AErr e], log1), u)
        | (Inr info, u) \<Rightarrow>
            (case image_manifest E req info log1 u of
               ((Inl e, log2), v) \<Rightarrow> ((Inl e, log2), v)
             | ((Inr text, log2), v) \<Rightarrow>
                 (case res_bind (ctl_parseManifest E text t) (\<lambda>mf. res_bind (ctl_limits E mf) (\<lambda>_. Inr mf)) of
                    Inl e \<Rightarrow> ((Inl e, log2), v)
                  | Inr mf \<Rightarrow>
                      if pb_DryRun req then ((Inr (dry_result (Pinned info) (ii_Size info) (ce_marshal E mf) []), log2), v)
                      else finishImage E info mf log2 (no_provenance ''registry-pull'' (ce_clock E v)) v)))"

section \<open>Building\<close>

definition orDefault :: "string \<Rightarrow> string \<Rightarrow> string" where
  "orDefault s d = (if s = [] then d else s)"

definition sub_path :: "string \<Rightarrow> string list \<Rightarrow> string" where
  "sub_path base parts = (if parts = [] then base else base @ ''/'' @ str_join ''/'' parts)"

text \<open>\<open>filepath.Rel\<close> of a path below the same directory, when it needs no \<open>..\<close>.\<close>

fun rel_parts :: "string list \<Rightarrow> string list \<Rightarrow> string list option" where
  "rel_parts [] ps = Some ps"
| "rel_parts (b # bs) (p # ps) = (if b = p then rel_parts bs ps else None)"
| "rel_parts (b # bs) [] = None"

text \<open>
  The context and the Dockerfile of a container plugin, as paths in the source. A Dockerfile outside the context, or
  in it under a name that begins with two dots, is refused.
\<close>

definition container_build :: "node \<Rightarrow> manifest \<Rightarrow> (string list \<times> string list) res" where
  "container_build src mf =
     (case SafeJoin src (mf_Context mf) of
        Inl e \<Rightarrow> bad ''runtime.context: %v'' [AErr e]
      | Inr context \<Rightarrow>
          if \<not> isDir (lstat src context) then bad ''runtime.context %q is not a directory in the repository'' [AStr (mf_Context mf)]
          else
            (case SafeJoin src (mf_Dockerfile mf) of
               Inl e \<Rightarrow> bad ''runtime.dockerfile: %v'' [AErr e]
             | Inr df \<Rightarrow>
                 if \<not> isFile (lstat src df) then bad ''runtime.dockerfile %q is not a file in the repository'' [AStr (mf_Dockerfile mf)]
                 else
                   (case rel_parts context df of
                      None \<Rightarrow> bad ''runtime.dockerfile must be inside runtime.context'' []
                    | Some ps \<Rightarrow>
                        if has_prefix (str_join ''/'' ps) ''..'' then bad ''runtime.dockerfile must be inside runtime.context'' []
                        else Inr (context, df))))"

definition ctl_src_limits :: "'w ctl_env \<Rightarrow> src_limits" where
  "ctl_src_limits E = \<lparr>sl_MaxSourceBytes = kc_MaxSourceBytes (ce_cfg E), sl_MaxFiles = kc_MaxSourceFiles (ce_cfg E)\<rparr>"

text \<open>The directory of the build context and the path of the Dockerfile; a Python plugin's context is written first.\<close>

definition choose_context :: "'w ctl_env \<Rightarrow> manifest \<Rightarrow> string \<Rightarrow> string \<Rightarrow> string list \<Rightarrow> 'w \<Rightarrow>
    ((string \<times> string) res \<times> string list) \<times> 'w" where
  "choose_context E mf work src lg w =
     (if mf_Mode mf = RuntimePython then
        (if kc_RunnerDir (ce_cfg E) = []
         then ((bad ''this controller has no runner sources (PLUGIN_RUNNER_DIR) and cannot build Python plugins'' [], lg), w)
         else let dir = work @ ''/pyctx'' in
           case ce_MkdirAll E dir w of
             (Some e, u) \<Rightarrow> ((Inl e, lg), u)
           | (None, u) \<Rightarrow>
               (case BuildPythonContext (ce_tree E (kc_RunnerDir (ce_cfg E)) u) mf (ce_tree E src u) (ctl_src_limits E) of
                  Inl e \<Rightarrow> ((bad ''%v'' [AErr e], lg), u)
                | Inr (ctx, df) \<Rightarrow>
                    ((Inr (dir, dir @ ''/'' @ df),
                      add_log E lg ''generated a runner build for python plugin %s (backend %s)''
                        (case mf_Python mf of Some py \<Rightarrow> [AStr (py_Module py), AStr (py_Backend py)] | None \<Rightarrow> [])),
                     ce_write E dir ctx u)))
      else
        (case container_build (ce_tree E src w) mf of
           Inl e \<Rightarrow> ((Inl e, lg), w)
         | Inr (context, df) \<Rightarrow> ((Inr (sub_path src context, sub_path src df), lg), w)))"

definition build_tag :: "string \<Rightarrow> string \<Rightarrow> string" where
  "build_tag pluginID commit = to_lower (''llmcache-plugin-build/'' @ orDefault pluginID ''x'' @ '':'' @ take 12 commit)"

text \<open>What follows a build that ran: the image is looked at, scanned, and removed when it is not accepted.\<close>

definition after_build :: "'w ctl_env \<Rightarrow> manifest \<Rightarrow> string \<Rightarrow> string \<Rightarrow> string \<Rightarrow> string \<Rightarrow> string list \<Rightarrow> 'w \<Rightarrow>
    (prepare_result res \<times> string list) \<times> 'w" where
  "after_build E mf tag commit origin srcHash lg w =
     (case rt_InspectImage (ce_rt E) tag w of
        (Inl e, u) \<Rightarrow> ((bad ''could not inspect the built image: %v'' [AErr e], lg), u)
      | (Inr info, u) \<Rightarrow>
          (case finishImage E info mf lg
                  ((no_provenance ''docker build'' (ce_clock E u))\<lparr>pv_RepoURL := origin, pv_Commit := commit, pv_SourceHash := srcHash\<rparr>) u of
             ((Inl e, l), v) \<Rightarrow> ((Inl e, l), rt_RemoveImage (ce_rt E) (ii_ID info) v)
           | ((Inr res, l), v) \<Rightarrow> ((Inr (res\<lparr>ps_Commit := commit\<rparr>), l), v)))"

definition build_tree :: "'w ctl_env \<Rightarrow> prepare_body \<Rightarrow> manifest \<Rightarrow> string \<times> string \<Rightarrow> string \<Rightarrow> string \<Rightarrow> string \<Rightarrow> string list \<Rightarrow> 'w \<Rightarrow>
    (prepare_result res \<times> string list) \<times> 'w" where
  "build_tree E req mf dirs commit origin srcHash log0 w =
     (let tag = build_tag (pb_PluginID req) commit;
          log1 = add_log E log0 ''building %s (no build arguments, no secrets)'' [AStr tag] in
      case rt_Build (ce_rt E) \<lparr>bs_ContextDir = fst dirs, bs_Dockerfile = snd dirs, bs_Tag = tag,
             bs_Labels = [(''llmcache.source'', origin), (''llmcache.commit'', commit)]\<rparr> w of
        ((blog, err), u) \<Rightarrow>
          (let log2 = foldl (\<lambda>l b. add_log E l ''build: %s'' [AStr b]) log1 blog in
           case err of
             Some e \<Rightarrow> ((bad ''%v'' [AErr e], log2), u)
           | None \<Rightarrow> after_build E mf tag commit origin srcHash log2 u))"

text \<open>The source is checked and its manifest read before anything is built.\<close>

definition tree_manifest :: "'w ctl_env \<Rightarrow> plugin_type \<Rightarrow> node \<Rightarrow> (string \<times> manifest) res" where
  "tree_manifest E t tree =
     (case CheckTree (ctl_src_limits E) (ce_sha E) tree of
        Inl e \<Rightarrow> bad ''%v'' [AErr e]
      | Inr srcHash \<Rightarrow>
          (case ReadRegular tree ''plugin.yaml'' (int MaxBytes) of
             Inl e \<Rightarrow> bad ''the repository has no valid plugin.yaml at its root: %v'' [AErr e]
           | Inr data \<Rightarrow>
               res_bind (ctl_parseManifest E data t) (\<lambda>mf. res_bind (ctl_limits E mf) (\<lambda>_. Inr (srcHash, mf)))))"

definition prepareTree :: "'w ctl_env \<Rightarrow> prepare_body \<Rightarrow> plugin_type \<Rightarrow> string \<Rightarrow> string \<Rightarrow> string \<Rightarrow> string \<Rightarrow> string list \<Rightarrow> 'w \<Rightarrow>
    (prepare_result res \<times> string list) \<times> 'w" where
  "prepareTree E req t work src commit origin lg w =
     (case tree_manifest E t (ce_tree E src w) of
        Inl e \<Rightarrow> ((Inl e, lg), w)
      | Inr (srcHash, mf) \<Rightarrow>
          if pb_DryRun req then ((Inr (dry_result [] 0 (ce_marshal E mf) commit), lg), w)
          else
            (case choose_context E mf work src lg w of
               ((Inl e, l), u) \<Rightarrow> ((Inl e, l), u)
             | ((Inr dirs, l), u) \<Rightarrow> build_tree E req mf dirs commit origin srcHash l u))"

text \<open>The working directory is removed on every way out.\<close>

definition prepareRepo :: "'w ctl_env \<Rightarrow> prepare_body \<Rightarrow> plugin_type \<Rightarrow> string list \<Rightarrow> 'w \<Rightarrow> (prepare_result res \<times> string list) \<times> 'w" where
  "prepareRepo E req t log0 w =
     (case ce_MkdirTemp E ''build-*'' w of
        (Inl e, u) \<Rightarrow> ((Inl e, log0), u)
      | (Inr work, u) \<Rightarrow>
          (let src = work @ ''/src'';
               log1 = add_log E log0 ''fetching %s at %s'' [AStr (SafeURL (pb_Repo req)), AStr (orDefault (pb_Revision req) ''HEAD'')] in
           case FetchRepo (ce_git E src) (pb_Repo req) (pb_Revision req) (kc_AllowLocalGit (ce_cfg E)) u of
             (Inl e, v) \<Rightarrow> ((bad ''could not fetch the repository: %v'' [AErr e], log1), ce_RemoveAll E work v)
           | (Inr commit, v) \<Rightarrow>
               (case prepareTree E req t work src commit (SafeURL (pb_Repo req)) (add_log E log1 ''resolved to commit %s'' [AStr commit]) v of
                  (r, x) \<Rightarrow> (r, ce_RemoveAll E work x))))"

definition ctl_Prepare :: "'w ctl_env \<Rightarrow> prepare_body \<Rightarrow> 'w \<Rightarrow> prepare_result res \<times> 'w" where
  "ctl_Prepare E req w =
     (case ParseType (pb_Type req) of
        Inl e \<Rightarrow> (bad ''%v'' [AErr e], w)
      | Inr t \<Rightarrow>
          (let done_log = (\<lambda>((r, lg), u). (map_sum (\<lambda>e. e) (\<lambda>p. p\<lparr>ps_Log := lg\<rparr>) r, u)) in
           if pb_Mode req = mode_name ModeImage then done_log (prepareImage E req t [] w)
           else if pb_Mode req = mode_name ModeRepository then done_log (prepareRepo E req t [] w)
           else (bad ''mode must be image or repository'' [], w)))"

section \<open>Starting\<close>

record start_body =
  sb_InstanceID :: string
  sb_Type :: string
  sb_Digest :: string
  sb_Manifest :: string
  sb_Env :: "(string, string) gomap"
  sb_HealthWait :: int

definition containerName :: "string \<Rightarrow> string" where
  "containerName k = ''llmcache-plugin-'' @ k"

definition pluginToken :: "'w ctl_env \<Rightarrow> string \<Rightarrow> string" where
  "pluginToken E k = take 48 (ce_hmac E (kc_Token (ce_cfg E)) (''plugin-auth:'' @ k))"

definition env_hash_text :: "string \<Rightarrow> string \<Rightarrow> (string, string) gomap \<Rightarrow> string" where
  "env_hash_text digest text env =
     digest @ [lf] @ text @ [lf] @
     concat (map (\<lambda>k. k @ ''='' @ (case gm_get env k of Some v \<Rightarrow> v | None \<Rightarrow> []) @ [lf]) (sort (gm_keys env)))"

definition envHash :: "'w ctl_env \<Rightarrow> string \<Rightarrow> string \<Rightarrow> (string, string) gomap \<Rightarrow> string" where
  "envHash E digest text env = ce_sha E (env_hash_text digest text env)"

definition digestRE :: rx where
  "digestRE = rx_seqs [rx_lit ''sha256:'', rx_rep 64 64 (RSet is_hex_lower)]"

definition put_absent :: "string \<Rightarrow> string \<Rightarrow> (string, string) gomap \<Rightarrow> (string, string) gomap" where
  "put_absent k v env = (case gm_get env k of Some _ \<Rightarrow> env | None \<Rightarrow> gm_put k v env)"

definition thread_names :: "string list" where
  "thread_names = [''OMP_NUM_THREADS'', ''OPENBLAS_NUM_THREADS'', ''MKL_NUM_THREADS'']"

definition start_port :: "manifest \<Rightarrow> plugin_type \<Rightarrow> int" where
  "start_port mf t = (if mf_Mode mf = RuntimePython then RunnerPort (Some t) else mf_Port mf)"

text \<open>The environment: the runner's own variables, the request's, then the port, the token and the sizes of thread pools.\<close>

definition start_env :: "'w ctl_env \<Rightarrow> start_body \<Rightarrow> manifest \<Rightarrow> plugin_type \<Rightarrow> limits \<Rightarrow> (string, string) gomap" where
  "start_env E req mf t l =
     (let metric = (case gm_get (sb_Env req) ''CONFIG_METRIC'' of Some v \<Rightarrow> v | None \<Rightarrow> []);
          env0 = (if mf_Mode mf = RuntimePython then RunnerEnv mf metric else []);
          env1 = foldl (\<lambda>m (k, v). put_absent k v m) env0 (sb_Env req);
          env2 = gm_put ''PLUGIN_AUTH_TOKEN'' (pluginToken E (sb_InstanceID req)) (gm_put ''PORT'' (itoa (start_port mf t)) env1);
          threads = itoa (max 1 (f64_int (lm_cpu l)))
      in foldl (\<lambda>m k. put_absent k threads m) env2 thread_names)"

text \<open>The checks of a request, and what follows from it.\<close>

definition start_checks :: "'w ctl_env \<Rightarrow> start_body \<Rightarrow> (manifest \<times> plugin_type \<times> limits) res" where
  "start_checks E req =
     (if \<not> rx_match instanceIDRE (sb_InstanceID req) then bad ''invalid instance id'' []
      else if \<not> rx_match digestRE (sb_Digest req) then bad ''digest must be an immutable sha256 reference'' []
      else case ParseType (sb_Type req) of
        Inl e \<Rightarrow> bad ''%v'' [AErr e]
      | Inr t \<Rightarrow>
          res_bind (ctl_parseManifest E (sb_Manifest req) t) (\<lambda>mf.
          res_bind (ctl_limits E mf) (\<lambda>l.
            if mf_Egress mf = EgressInternet \<and> \<not> kc_AllowEgress (ce_cfg E)
            then bad ''the plugin asks for internet egress but this installation does not allow it (PLUGIN_ALLOW_EGRESS)'' []
            else Inr (mf, t, l))))"

definition start_spec :: "'w ctl_env \<Rightarrow> start_body \<Rightarrow> manifest \<Rightarrow> plugin_type \<Rightarrow> limits \<Rightarrow> RunSpec" where
  "start_spec E req mf t l =
     (let n = containerName (sb_InstanceID req); env = start_env E req mf t l; c = ce_cfg E in
      \<lparr>rs_Name = n, rs_Image = sb_Digest req, rs_Port = start_port mf t, rs_Env = env,
       rs_Labels = [(LabelManaged, ''true''), (LabelID, sb_InstanceID req),
         (LabelEnvHash, envHash E (sb_Digest req) (sb_Manifest req) env), (LabelDigest, sb_Digest req)],
       rs_CPUs = lm_cpu l, rs_Memory = lm_mem l, rs_PIDs = lm_pids l, rs_Tmpfs = lm_tmpfs l, rs_Network = n,
       rs_Internal = mf_Egress mf \<noteq> EgressInternet \<and> \<not> kc_Publish c, rs_Publish = kc_Publish c, rs_AttachSelf = kc_SelfContainer c\<rparr>)"

definition address :: "'w ctl_env \<Rightarrow> string \<Rightarrow> int \<Rightarrow> 'w \<Rightarrow> string res \<times> 'w" where
  "address E n port w = (if kc_Publish (ce_cfg E) then rt_Address (ce_rt E) n port w else (Inr (n @ '':'' @ itoa port), w))"

definition remember :: "'w ctl_env \<Rightarrow> string \<Rightarrow> string \<Rightarrow> string \<Rightarrow> int \<Rightarrow> string \<Rightarrow> 'w ctl \<Rightarrow> 'w ctl" where
  "remember E k n addr port health st =
     st\<lparr>cs_instances := gm_put k \<lparr>ip_name = n, ip_addr = addr, ip_authToken = pluginToken E k, ip_healthPath = health, ip_port = port\<rparr>
          (cs_instances st)\<rparr>"

text \<open>\<open>None\<close> when it does not return; otherwise \<open>None\<close> inside when the plugin is healthy.\<close>

partial_function (option) wait_loop :: "'w ctl_env \<Rightarrow> string \<Rightarrow> int \<Rightarrow> 'w \<Rightarrow> (goerr option \<times> 'w) option" where
  "wait_loop E url deadline w =
     (case ce_get E url w of (r, u) \<Rightarrow>
        if r = Inr 200 then Some (None, u)
        else let last = (case r of Inr n \<Rightarrow> Errorf ''health returned HTTP %d'' [AInt n] | Inl _ \<Rightarrow> Errorf ''health endpoint unreachable'' []) in
          if deadline < ce_clock E u \<or> ce_ctx E u \<noteq> None then Some (Some last, u)
          else (case ce_sleep E (300 * 10 ^ 6) u of
                  (Some e, v) \<Rightarrow> Some (Some e, v)
                | (None, v) \<Rightarrow> wait_loop E url deadline v))"

definition waitHealthy :: "'w ctl_env \<Rightarrow> string \<Rightarrow> string \<Rightarrow> int \<Rightarrow> 'w \<Rightarrow> (goerr option \<times> 'w) option" where
  "waitHealthy E addr path wait w = wait_loop E (''http://'' @ addr @ path) (ce_clock E w + wait) w"

definition health_wait :: "'w ctl_env \<Rightarrow> start_body \<Rightarrow> int" where
  "health_wait E req =
     (if sb_HealthWait req \<le> 0 \<or> 5 * Minute < sb_HealthWait req then kc_HealthWait (ce_cfg E) else sb_HealthWait req)"

text \<open>The address of a container that runs with the same hash and is healthy; otherwise none.\<close>

definition try_reuse :: "'w ctl_env \<Rightarrow> manifest \<Rightarrow> RunSpec \<Rightarrow> ContainerInfo option \<Rightarrow> 'w \<Rightarrow> (string option \<times> 'w) option" where
  "try_reuse E mf spec c w =
     (case c of
        None \<Rightarrow> Some (None, w)
      | Some ci \<Rightarrow>
          if ci_Running ci \<and> (case gm_get (ci_Labels ci) LabelEnvHash of Some h \<Rightarrow> h | None \<Rightarrow> []) = (case gm_get (rs_Labels spec) LabelEnvHash of Some h \<Rightarrow> h | None \<Rightarrow> [])
          then (case address E (rs_Name spec) (rs_Port spec) w of
                  (Inl e, u) \<Rightarrow> Some (None, u)
                | (Inr addr, u) \<Rightarrow>
                    map_option (\<lambda>(h, v). (if h = None then Some addr else None, v)) (waitHealthy E addr (mf_HealthPath mf) (10 * Second) u))
          else Some (None, w))"

text \<open>Running a new container and waiting for it; it is removed when a step fails.\<close>

definition launch :: "'w ctl_env \<Rightarrow> start_body \<Rightarrow> manifest \<Rightarrow> RunSpec \<Rightarrow> 'w \<Rightarrow> (string res \<times> 'w) option" where
  "launch E req mf spec w =
     (let R = ce_rt E; n = rs_Name spec in
      if \<not> kc_Publish (ce_cfg E) \<and> kc_SelfContainer (ce_cfg E) = []
      then Some (bad ''the controller cannot reach plugin networks: set PLUGIN_CONTROLLER_PUBLISH=true (controller on the host) or PLUGIN_CONTROLLER_CONTAINER (controller in a container)'' [], w)
      else case rt_Run R spec w of
        (Some e, u) \<Rightarrow> Some (bad ''%v'' [AErr e], rt_Remove R n u)
      | (None, u) \<Rightarrow>
          (case address E n (rs_Port spec) u of
             (Inl e, v) \<Rightarrow> Some (bad ''%v'' [AErr e], rt_Remove R n v)
           | (Inr addr, v) \<Rightarrow>
               (case waitHealthy E addr (mf_HealthPath mf) (health_wait E req) v of
                  None \<Rightarrow> None
                | Some (None, x) \<Rightarrow> Some (Inr addr, x)
                | Some (Some e, x) \<Rightarrow>
                    (case rt_Logs R n 30 x of
                       (logs, y) \<Rightarrow>
                         Some (bad ''the plugin did not become healthy: %v; last log lines: %s''
                                 [AErr e, AStr (str_join '' | '' (case logs of Inr l \<Rightarrow> l | Inl _ \<Rightarrow> []))], rt_Remove R n y)))))"

definition make_lock :: "string \<Rightarrow> 'w ctl \<Rightarrow> 'w ctl" where
  "make_lock k st = (if k \<in> set (cs_starting st) then st else st\<lparr>cs_starting := cs_starting st @ [k]\<rparr>)"

definition settle :: "'w ctl_env \<Rightarrow> start_body \<Rightarrow> manifest \<Rightarrow> RunSpec \<Rightarrow> 'w ctl \<Rightarrow> string res \<times> 'w \<Rightarrow> string res \<times> 'w ctl" where
  "settle E req mf spec st r =
     (case r of
        (Inl e, w) \<Rightarrow> (Inl e, st\<lparr>cs_w := w\<rparr>)
      | (Inr addr, w) \<Rightarrow>
          (Inr (sb_InstanceID req), remember E (sb_InstanceID req) (rs_Name spec) addr (rs_Port spec) (mf_HealthPath mf) (st\<lparr>cs_w := w\<rparr>)))"

definition ctl_Start :: "'w ctl_env \<Rightarrow> start_body \<Rightarrow> 'w ctl \<Rightarrow> (string res \<times> 'w ctl) option" where
  "ctl_Start E req st0 =
     (case start_checks E req of
        Inl e \<Rightarrow> Some (Inl e, st0)
      | Inr (mf, t, l) \<Rightarrow>
          (let st = make_lock (sb_InstanceID req) st0; spec = start_spec E req mf t l in
           case rt_Inspect (ce_rt E) (rs_Name spec) (cs_w st) of
             (Inl e, u) \<Rightarrow> Some (Inl e, st\<lparr>cs_w := u\<rparr>)
           | (Inr c, u) \<Rightarrow>
               (case try_reuse E mf spec c u of
                  None \<Rightarrow> None
                | Some (Some addr, v) \<Rightarrow> Some (settle E req mf spec st (Inr addr, v))
                | Some (None, v) \<Rightarrow>
                    map_option (settle E req mf spec st)
                      (launch E req mf spec (if c \<noteq> None then rt_Remove (ce_rt E) (rs_Name spec) v else v)))))"

section \<open>Stopping, logs, finding an instance\<close>

definition ctl_Stop :: "'w ctl_env \<Rightarrow> string \<Rightarrow> 'w ctl \<Rightarrow> 'w ctl" where
  "ctl_Stop E k st =
     st\<lparr>cs_instances := gm_del k (cs_instances st), cs_w := rt_Remove (ce_rt E) (containerName k) (cs_w st)\<rparr>"

text \<open>A known instance, or its address again from the container backend.\<close>

definition lookup :: "'w ctl_env \<Rightarrow> string \<Rightarrow> bool \<Rightarrow> 'w ctl \<Rightarrow> instance_rec res \<times> 'w ctl" where
  "lookup E k refresh st =
     (let i = gm_get (cs_instances st) k; n = containerName k in
      if i \<noteq> None \<and> \<not> refresh then (case i of Some x \<Rightarrow> (Inr x, st) | None \<Rightarrow> (Inl (Sentinel []), st))
      else case rt_Inspect (ce_rt E) n (cs_w st) of
        (r, u) \<Rightarrow>
          (let st1 = st\<lparr>cs_w := u\<rparr>; gone = (Inl (Errorf ''no such running instance'' []), st1) in
           case r of
             Inl e \<Rightarrow> gone
           | Inr None \<Rightarrow> gone
           | Inr (Some ci) \<Rightarrow>
               if \<not> ci_Running ci then gone
               else (case i of
                  None \<Rightarrow> (Inl (Errorf ''instance is unknown to this controller; start it again'' []), st1)
                | Some x \<Rightarrow>
                    if ip_port x = 0 then (Inl (Errorf ''instance is unknown to this controller; start it again'' []), st1)
                    else (case address E n (ip_port x) u of
                            (Inl e, v) \<Rightarrow> (Inl e, st\<lparr>cs_w := v\<rparr>)
                          | (Inr addr, v) \<Rightarrow>
                              (let st2 = remember E k n addr (ip_port x) (ip_healthPath x) (st\<lparr>cs_w := v\<rparr>)
                               in (case gm_get (cs_instances st2) k of Some y \<Rightarrow> Inr y | None \<Rightarrow> Inl (Sentinel []), st2))))))"

section \<open>The proxy\<close>

text \<open>A request as the server sees it: the decoded segments of its path, what was sent, and the raw query.\<close>

record ctl_req =
  cq_method :: string
  cq_path :: "string list"
  cq_query :: string
  cq_tail :: string            \<comment> \<open>the value of \<open>tail\<close> in the query\<close>
  cq_auth :: string
  cq_contentType :: string
  cq_body :: string
  cq_json :: "json option"     \<comment> \<open>the body as the decoder reads it within its limit\<close>

datatype ctl_resp =
    Reply http_resp
  | Proxied int string string  \<comment> \<open>status, content type and the bytes that were sent\<close>
  | Aborted                    \<comment> \<open>the connection is broken off\<close>

definition ctl_error :: "'w ctl_env \<Rightarrow> (json \<Rightarrow> int) \<Rightarrow> int \<Rightarrow> string \<Rightarrow> earg list \<Rightarrow> ctl_resp" where
  "ctl_error E bytes code f as = Reply (reply_json bytes code (JObj [(''error'', JStr (ce_line E (f, as)))]))"

definition protocol_path :: "string \<Rightarrow> bool" where
  "protocol_path p \<longleftrightarrow> (p = ''health'' \<or> has_prefix p ''v1/'') \<and> \<not> str_contains p ''..'' \<and> \<not> str_contains p ''//''"

definition proxy_url :: "instance_rec \<Rightarrow> string \<Rightarrow> string \<Rightarrow> string" where
  "proxy_url i path query = ''http://'' @ ip_addr i @ ''/'' @ path @ (if query \<noteq> [] then ''?'' @ query else [])"

definition proxy_send :: "'w ctl_env \<Rightarrow> ctl_req \<Rightarrow> string \<Rightarrow> string \<Rightarrow> instance_rec \<Rightarrow> 'w ctl \<Rightarrow>
    (proxy_response res \<times> string) \<times> 'w ctl" where
  "proxy_send E r path body i st =
     (case ce_send E \<lparr>px_url = proxy_url i path (cq_query r), px_method = cq_method r,
             px_body = take (nat (kc_MaxProxyBody (ce_cfg E))) body, px_cut = (kc_MaxProxyBody (ce_cfg E) < int (length body)),
             px_contentType = cq_contentType r, px_auth = ''Bearer '' @ ip_authToken i\<rparr> (cs_w st) of
        (x, u) \<Rightarrow> (x, st\<lparr>cs_w := u\<rparr>))"

text \<open>The answer of a plugin, limited in size.\<close>

definition proxy_answer :: "'w ctl_env \<Rightarrow> (json \<Rightarrow> int) \<Rightarrow> proxy_response \<Rightarrow> ctl_resp" where
  "proxy_answer E bytes p =
     (let most = kc_MaxProxyResult (ce_cfg E); (data, err) = pp_body p; sent = take (nat (most + 1)) data in
      if most < pp_length p then ctl_error E bytes 502 ''plugin response exceeds the size limit'' []
      else if most < int (length sent) then Aborted
      else Proxied (pp_status p) (pp_contentType p) sent)"

text \<open>A body of more than the limit fails when it is sent; a failed \<open>GET\<close> is tried again at the instance's new address.\<close>

definition handleProxy :: "'w ctl_env \<Rightarrow> (json \<Rightarrow> int) \<Rightarrow> ctl_req \<Rightarrow> string \<Rightarrow> string \<Rightarrow> 'w ctl \<Rightarrow> ctl_resp \<times> 'w ctl" where
  "handleProxy E bytes r k path st =
     (if \<not> rx_match instanceIDRE k then (ctl_error E bytes 400 ''invalid instance id'' [], st)
      else if \<not> protocol_path path then (ctl_error E bytes 404 ''not a plugin protocol path'' [], st)
      else case lookup E k False st of
        (Inl e, s1) \<Rightarrow> (ctl_error E bytes 404 ''%v'' [AErr e], s1)
      | (Inr i, s1) \<Rightarrow>
          (case proxy_send E r path (cq_body r) i s1 of
             ((Inr p, rest), s2) \<Rightarrow> (proxy_answer E bytes p, s2)
           | ((Inl e, rest), s2) \<Rightarrow>
               (let unreachable = ctl_error E bytes 502 ''plugin unreachable'' [] in
                if cq_method r \<noteq> ''GET'' then (unreachable, s2)
                else case lookup E k True s2 of
                  (Inl e2, s3) \<Rightarrow> (unreachable, s3)
                | (Inr j, s3) \<Rightarrow>
                    (case proxy_send E r path rest j s3 of
                       ((Inr p, rest2), s4) \<Rightarrow> (proxy_answer E bytes p, s4)
                     | ((Inl e3, rest2), s4) \<Rightarrow> (unreachable, s4)))))"

end
