(* ===== verification/Controller_Api.thy ===== *)
theory Controller_Api
  imports Controller
begin

text \<open>
  The controller's HTTP API (\<open>internal/plugins/controller/server.go\<close>, \<open>Handler\<close> and the handlers) and the client the
  orchestrator uses (\<open>internal/plugins/ctlapi\<close>). A request whose path is not clean is redirected by the multiplexer
  before; its segments are those of a clean path, decoded.
\<close>

section \<open>JSON\<close>

definition set_string :: "('a \<Rightarrow> string) \<Rightarrow> (string \<Rightarrow> 'a \<Rightarrow> 'a) \<Rightarrow> 'a setter" where
  "set_string get put j x = res_bind (json_string j (get x)) (\<lambda>v. Inr (put v x))"

definition prepare_fields :: "(string \<times> prepare_body setter) list" where
  "prepare_fields =
     [(''mode'', set_string pb_Mode (\<lambda>v x. x\<lparr>pb_Mode := v\<rparr>)),
      (''type'', set_string pb_Type (\<lambda>v x. x\<lparr>pb_Type := v\<rparr>)),
      (''image'', set_string pb_Image (\<lambda>v x. x\<lparr>pb_Image := v\<rparr>)),
      (''repo'', set_string pb_Repo (\<lambda>v x. x\<lparr>pb_Repo := v\<rparr>)),
      (''revision'', set_string pb_Revision (\<lambda>v x. x\<lparr>pb_Revision := v\<rparr>)),
      (''manifest'', set_string pb_Manifest (\<lambda>v x. x\<lparr>pb_Manifest := v\<rparr>)),
      (''dry_run'', \<lambda>j x. res_bind (json_bool j (pb_DryRun x)) (\<lambda>v. Inr (x\<lparr>pb_DryRun := v\<rparr>))),
      (''plugin_id'', set_string pb_PluginID (\<lambda>v x. x\<lparr>pb_PluginID := v\<rparr>))]"

definition no_prepare :: prepare_body where
  "no_prepare = \<lparr>pb_Mode = [], pb_Type = [], pb_Image = [], pb_Repo = [], pb_Revision = [], pb_Manifest = [], pb_DryRun = False, pb_PluginID = []\<rparr>"

definition start_fields :: "(string \<times> start_body setter) list" where
  "start_fields =
     [(''instance_id'', set_string sb_InstanceID (\<lambda>v x. x\<lparr>sb_InstanceID := v\<rparr>)),
      (''type'', set_string sb_Type (\<lambda>v x. x\<lparr>sb_Type := v\<rparr>)),
      (''digest'', set_string sb_Digest (\<lambda>v x. x\<lparr>sb_Digest := v\<rparr>)),
      (''manifest'', set_string sb_Manifest (\<lambda>v x. x\<lparr>sb_Manifest := v\<rparr>)),
      (''env'', \<lambda>j x. res_bind (json_labels j (sb_Env x)) (\<lambda>v. Inr (x\<lparr>sb_Env := v\<rparr>))),
      (''health_wait_ns'', \<lambda>j x. res_bind (json_int j (sb_HealthWait x)) (\<lambda>v. Inr (x\<lparr>sb_HealthWait := v\<rparr>)))]"

definition no_start :: start_body where
  "no_start = \<lparr>sb_InstanceID = [], sb_Type = [], sb_Digest = [], sb_Manifest = [], sb_Env = [], sb_HealthWait = 0\<rparr>"

text \<open>\<open>omitempty\<close>.\<close>

definition str_member :: "string \<Rightarrow> string \<Rightarrow> (string \<times> json) list" where
  "str_member k v = (if v = [] then [] else [(k, JStr v)])"

definition int_member :: "string \<Rightarrow> int \<Rightarrow> (string \<times> json) list" where
  "int_member k v = (if v = 0 then [] else [(k, JInt v)])"

definition scan_json :: "scan_report \<Rightarrow> json" where
  "scan_json s = JObj ([(''scanner'', JStr (sc_Scanner s)), (''status'', JStr (sc_Status s))]
     @ (if sc_Counts s = [] then [] else [(''counts'', JObj (map (\<lambda>k. (k, JInt (count_in (sc_Counts s) k))) (sort (gm_keys (sc_Counts s)))))])
     @ str_member ''message'' (sc_Message s) @ [(''scanned_at'', JTime (sc_ScannedAt s))])"

definition provenance_json :: "provenance \<Rightarrow> json" where
  "provenance_json p = JObj (str_member ''builder'' (pv_Builder p)
     @ str_member ''repo_url'' (pv_RepoURL p) @ str_member ''commit'' (pv_Commit p)
     @ str_member ''source_sha256'' (pv_SourceHash p) @ str_member ''manifest_sha256'' (pv_ManifestSHA p)
     @ [(''built_at'', JTime (pv_BuiltAt p))] @ int_member ''image_size_bytes'' (pv_ImageSize p))"

definition prepared_json :: "prepare_result \<Rightarrow> json" where
  "prepared_json p = JObj (str_member ''digest'' (ps_Digest p) @ int_member ''image_size_bytes'' (ps_ImageSize p)
     @ [(''manifest'', JStr (ps_Manifest p))] @ str_member ''commit'' (ps_Commit p)
     @ (case ps_Scan p of None \<Rightarrow> [] | Some s \<Rightarrow> [(''scan'', scan_json s)])
     @ (case ps_Provenance p of None \<Rightarrow> [] | Some v \<Rightarrow> [(''provenance'', provenance_json v)])
     @ (if ps_Log p = [] then [] else [(''log'', JArr (map JStr (ps_Log p)))]))"

section \<open>The server\<close>

definition ctl_ok :: "(json \<Rightarrow> int) \<Rightarrow> json \<Rightarrow> ctl_resp" where
  "ctl_ok bytes j = Reply (reply_json bytes 200 j)"

definition bad_body :: "'w ctl_env \<Rightarrow> (json \<Rightarrow> int) \<Rightarrow> ctl_resp" where
  "bad_body E bytes = ctl_error E bytes 400 ''invalid request body'' []"

definition decode_body :: "(json \<Rightarrow> int) \<Rightarrow> (string \<times> 'a setter) list \<Rightarrow> 'a \<Rightarrow> json option \<Rightarrow> 'a option" where
  "decode_body bytes fs x body =
     (case limit_body bytes (4 * 2 ^ 20) body of
        None \<Rightarrow> None
      | Some j \<Rightarrow> (case json_strict fs j x of Inr y \<Rightarrow> Some y | Inl _ \<Rightarrow> None))"

definition handlePrepare :: "'w ctl_env \<Rightarrow> (json \<Rightarrow> int) \<Rightarrow> ctl_req \<Rightarrow> 'w ctl \<Rightarrow> ctl_resp \<times> 'w ctl" where
  "handlePrepare E bytes r st =
     (case decode_body bytes prepare_fields no_prepare (cq_json r) of
        None \<Rightarrow> (bad_body E bytes, st)
      | Some req \<Rightarrow>
          (case ctl_Prepare E req (cs_w st) of
             (Inl e, u) \<Rightarrow> (ctl_error E bytes 422 ''%v'' [AErr e], st\<lparr>cs_w := u\<rparr>)
           | (Inr p, u) \<Rightarrow> (ctl_ok bytes (prepared_json p), st\<lparr>cs_w := u\<rparr>)))"

definition handleStart :: "'w ctl_env \<Rightarrow> (json \<Rightarrow> int) \<Rightarrow> ctl_req \<Rightarrow> 'w ctl \<Rightarrow> (ctl_resp \<times> 'w ctl) option" where
  "handleStart E bytes r st =
     (case decode_body bytes start_fields no_start (cq_json r) of
        None \<Rightarrow> Some (bad_body E bytes, st)
      | Some req \<Rightarrow>
          map_option (\<lambda>(x, s). (case x of
              Inl e \<Rightarrow> ctl_error E bytes 422 ''%v'' [AErr e]
            | Inr k \<Rightarrow> ctl_ok bytes (JObj [(''id'', JStr k), (''base_url'', JStr [])]), s)) (ctl_Start E req st))"

definition handleStop :: "'w ctl_env \<Rightarrow> (json \<Rightarrow> int) \<Rightarrow> string \<Rightarrow> 'w ctl \<Rightarrow> ctl_resp \<times> 'w ctl" where
  "handleStop E bytes k st =
     (if \<not> rx_match instanceIDRE k then (ctl_error E bytes 400 ''invalid instance id'' [], st)
      else (ctl_ok bytes (JObj [(''status'', JStr ''stopped'')]), ctl_Stop E k st))"

definition log_tail :: "string \<Rightarrow> int" where
  "log_tail s = (let n = atoi_value s in if n < 1 \<or> 500 < n then 100 else n)"

definition handleLogs :: "'w ctl_env \<Rightarrow> (json \<Rightarrow> int) \<Rightarrow> ctl_req \<Rightarrow> string \<Rightarrow> 'w ctl \<Rightarrow> ctl_resp \<times> 'w ctl" where
  "handleLogs E bytes r k st =
     (if \<not> rx_match instanceIDRE k then (ctl_error E bytes 400 ''invalid instance id'' [], st)
      else case rt_Logs (ce_rt E) (containerName k) (log_tail (cq_tail r)) (cs_w st) of
        (Inl e, u) \<Rightarrow> (ctl_error E bytes 404 ''%v'' [AErr e], st\<lparr>cs_w := u\<rparr>)
      | (Inr ls, u) \<Rightarrow> (ctl_ok bytes (JObj [(''lines'', JArr (map JStr ls))]), st\<lparr>cs_w := u\<rparr>))"

definition authorized :: "'w ctl_env \<Rightarrow> ctl_req \<Rightarrow> bool" where
  "authorized E r \<longleftrightarrow> has_prefix (cq_auth r) ''Bearer '' \<and> drop 7 (cq_auth r) = kc_Token (ce_cfg E)"

datatype route = Route_Health | Route_Prepare | Route_Start | Route_Stop string | Route_Logs string | Route_Proxy string string | Route_None

definition is_get :: "string \<Rightarrow> bool" where
  "is_get m \<longleftrightarrow> m = ''GET'' \<or> m = ''HEAD''"

definition route_of :: "ctl_req \<Rightarrow> route" where
  "route_of r =
     (let m = cq_method r in
      case cq_path r of
        [a] \<Rightarrow> if a = ''health'' \<and> is_get m then Route_Health else Route_None
      | [a, b] \<Rightarrow>
          if a = ''v1'' \<and> b = ''prepare'' \<and> m = ''POST'' then Route_Prepare
          else if a = ''v1'' \<and> b = ''instances'' \<and> m = ''POST'' then Route_Start
          else Route_None
      | [a, b, c] \<Rightarrow> if a = ''v1'' \<and> b = ''instances'' \<and> m = ''DELETE'' then Route_Stop c else Route_None
      | a # b # c # ds \<Rightarrow>
          if a = ''v1'' \<and> b = ''instances'' \<and> ds = [''logs''] \<and> is_get m then Route_Logs c
          else if a = ''v1'' \<and> b = ''proxy'' then Route_Proxy c (str_join ''/'' ds)
          else Route_None
      | _ \<Rightarrow> Route_None)"

text \<open>The routes behind the token.\<close>

definition ctl_guarded :: "'w ctl_env \<Rightarrow> (json \<Rightarrow> int) \<Rightarrow> ctl_req \<Rightarrow> 'w ctl \<Rightarrow> (ctl_resp \<times> 'w ctl) option" where
  "ctl_guarded E bytes r st =
     (case route_of r of
        Route_Prepare \<Rightarrow> Some (handlePrepare E bytes r st)
      | Route_Start \<Rightarrow> handleStart E bytes r st
      | Route_Stop k \<Rightarrow> Some (handleStop E bytes k st)
      | Route_Logs k \<Rightarrow> Some (handleLogs E bytes r k st)
      | Route_Proxy k p \<Rightarrow> Some (handleProxy E bytes r k p st)
      | _ \<Rightarrow> Some (Reply reply_unmatched, st))"

definition ctl_serve :: "'w ctl_env \<Rightarrow> (json \<Rightarrow> int) \<Rightarrow> ctl_req \<Rightarrow> 'w ctl \<Rightarrow> (ctl_resp \<times> 'w ctl) option" where
  "ctl_serve E bytes r st =
     (if route_of r = Route_Health then Some (ctl_ok bytes (JObj [(''status'', JStr ''ok'')]), st)
      else if route_of r = Route_None then Some (Reply reply_unmatched, st)
      else if \<not> authorized E r then Some (ctl_error E bytes 401 ''controller token required'' [], st)
      else ctl_guarded E bytes r st)"

section \<open>The client\<close>

definition scan_fields :: "(string \<times> scan_report setter) list" where
  "scan_fields =
     [(''scanner'', set_string sc_Scanner (\<lambda>v x. x\<lparr>sc_Scanner := v\<rparr>)),
      (''status'', set_string sc_Status (\<lambda>v x. x\<lparr>sc_Status := v\<rparr>)),
      (''counts'', \<lambda>j x. res_bind (case j of
           JObj ms \<Rightarrow> foldl (\<lambda>acc (k, y). res_bind acc (\<lambda>m. res_bind (json_int y 0) (\<lambda>v. Inr (gm_put k v m)))) (Inr (sc_Counts x)) ms
         | JNull \<Rightarrow> Inr []
         | _ \<Rightarrow> Inl ErrUnmarshal) (\<lambda>m. Inr (x\<lparr>sc_Counts := m\<rparr>))),
      (''message'', set_string sc_Message (\<lambda>v x. x\<lparr>sc_Message := v\<rparr>)),
      (''scanned_at'', \<lambda>j x. res_bind (json_time j (sc_ScannedAt x)) (\<lambda>v. Inr (x\<lparr>sc_ScannedAt := v\<rparr>)))]"

definition provenance_fields :: "(string \<times> provenance setter) list" where
  "provenance_fields =
     [(''builder'', set_string pv_Builder (\<lambda>v x. x\<lparr>pv_Builder := v\<rparr>)),
      (''repo_url'', set_string pv_RepoURL (\<lambda>v x. x\<lparr>pv_RepoURL := v\<rparr>)),
      (''commit'', set_string pv_Commit (\<lambda>v x. x\<lparr>pv_Commit := v\<rparr>)),
      (''source_sha256'', set_string pv_SourceHash (\<lambda>v x. x\<lparr>pv_SourceHash := v\<rparr>)),
      (''manifest_sha256'', set_string pv_ManifestSHA (\<lambda>v x. x\<lparr>pv_ManifestSHA := v\<rparr>)),
      (''built_at'', \<lambda>j x. res_bind (json_time j (pv_BuiltAt x)) (\<lambda>v. Inr (x\<lparr>pv_BuiltAt := v\<rparr>))),
      (''image_size_bytes'', \<lambda>j x. res_bind (json_int j (pv_ImageSize x)) (\<lambda>v. Inr (x\<lparr>pv_ImageSize := v\<rparr>)))]"

text \<open>A pointer to a struct: \<open>null\<close> is nil.\<close>

definition json_pointer :: "(string \<times> 'a setter) list \<Rightarrow> 'a \<Rightarrow> json \<Rightarrow> 'a option \<Rightarrow> 'a option res" where
  "json_pointer fs zero j old =
     (if j = JNull then Inr None
      else res_bind (json_struct fs j (case old of Some x \<Rightarrow> x | None \<Rightarrow> zero)) (\<lambda>x. Inr (Some x)))"

definition no_scan :: scan_report where
  "no_scan = \<lparr>sc_Scanner = [], sc_Status = [], sc_Counts = [], sc_Message = [], sc_ScannedAt = 0\<rparr>"

definition prepared_fields :: "(string \<times> prepare_result setter) list" where
  "prepared_fields =
     [(''digest'', set_string ps_Digest (\<lambda>v x. x\<lparr>ps_Digest := v\<rparr>)),
      (''image_size_bytes'', \<lambda>j x. res_bind (json_int j (ps_ImageSize x)) (\<lambda>v. Inr (x\<lparr>ps_ImageSize := v\<rparr>))),
      (''manifest'', set_string ps_Manifest (\<lambda>v x. x\<lparr>ps_Manifest := v\<rparr>)),
      (''commit'', set_string ps_Commit (\<lambda>v x. x\<lparr>ps_Commit := v\<rparr>)),
      (''scan'', \<lambda>j x. res_bind (json_pointer scan_fields no_scan j (ps_Scan x)) (\<lambda>v. Inr (x\<lparr>ps_Scan := v\<rparr>))),
      (''provenance'', \<lambda>j x. res_bind (json_pointer provenance_fields (no_provenance [] 0) j (ps_Provenance x)) (\<lambda>v. Inr (x\<lparr>ps_Provenance := v\<rparr>))),
      (''log'', \<lambda>j x. res_bind (json_strings j) (\<lambda>v. Inr (x\<lparr>ps_Log := v\<rparr>)))]"

definition no_result :: prepare_result where
  "no_result = dry_result [] 0 [] []"

definition prepare_json :: "prepare_request \<Rightarrow> json" where
  "prepare_json q = JObj ([(''mode'', JStr (mode_name (pq_Mode q))), (''type'', JStr (type_name (pq_Type q)))]
     @ str_member ''image'' (pq_Image q) @ str_member ''repo'' (pq_Repo q) @ str_member ''revision'' (pq_Revision q)
     @ str_member ''manifest'' (pq_Manifest q) @ (if pq_DryRun q then [(''dry_run'', JBool True)] else [])
     @ str_member ''plugin_id'' (pq_PluginID q))"

definition env_json :: "(string, string) gomap \<Rightarrow> json" where
  "env_json m = JObj (map (\<lambda>k. (k, JStr (case gm_get m k of Some v \<Rightarrow> v | None \<Rightarrow> []))) (sort (gm_keys m)))"

definition start_json :: "start_request \<Rightarrow> json" where
  "start_json q = JObj ([(''instance_id'', JStr (sq_InstanceID q)), (''type'', JStr (type_name (sq_Type q))),
       (''digest'', JStr (sq_Digest q)), (''manifest'', JStr (sq_Manifest q))]
     @ (if sq_Env q = [] then [] else [(''env'', env_json (sq_Env q))]) @ int_member ''health_wait_ns'' (sq_HealthWait q))"

record 'n ctl_client =
  cc_Base :: string
  cc_Token :: string
  cc_HTTP :: "ctl_req \<Rightarrow> 'n \<Rightarrow> http_resp res \<times> 'n"
  cc_ctx :: "'n \<Rightarrow> goerr option"
  cc_scrub :: "string \<Rightarrow> string"

definition trim_right :: "char \<Rightarrow> string \<Rightarrow> string" where
  "trim_right c s = rev (dropWhile (\<lambda>x. x = c) (rev s))"

definition ctlapi_NewClient :: "string \<Rightarrow> string \<Rightarrow> (ctl_req \<Rightarrow> 'n \<Rightarrow> http_resp res \<times> 'n) \<Rightarrow> ('n \<Rightarrow> goerr option) \<Rightarrow> (string \<Rightarrow> string) \<Rightarrow> 'n ctl_client" where
  "ctlapi_NewClient base token http ctx scrub =
     \<lparr>cc_Base = trim_right (CHR ''/'') base, cc_Token = token, cc_HTTP = http, cc_ctx = ctx, cc_scrub = scrub\<rparr>"

text \<open>\<open>ctlapi.Error\<close>: the status and the message, which the manager prints.\<close>

definition ctlapi_error :: "('n ctl_client) \<Rightarrow> http_resp \<Rightarrow> goerr" where
  "ctlapi_error C p =
     (let msg = (case hs_body p of
            Body_Doc j \<Rightarrow> json_lenient [(''error'', json_string)] j []
          | _ \<Rightarrow> []) in
      Errorf ''ctlapi.Error %d: %s'' [AInt (hs_status p),
        AStr (cc_scrub C (if msg = [] then ''controller returned HTTP '' @ itoa (hs_status p) else msg))])"

definition ctlapi_do :: "'n ctl_client \<Rightarrow> string \<Rightarrow> string list \<Rightarrow> string \<Rightarrow> json option \<Rightarrow> (json \<Rightarrow> 'a res) \<Rightarrow> 'a option \<Rightarrow> 'n \<Rightarrow> 'a res \<times> 'n" where
  "ctlapi_do C method segs tailN body dec noOut w =
     (case cc_HTTP C \<lparr>cq_method = method, cq_path = segs, cq_query = (if tailN = [] then [] else ''tail='' @ tailN), cq_tail = tailN,
             cq_auth = ''Bearer '' @ cc_Token C, cq_contentType = (if body = None then [] else ''application/json''),
             cq_body = [], cq_json = body\<rparr> w of
        (Inl e, u) \<Rightarrow> (Inl (case cc_ctx C u of Some c \<Rightarrow> c | None \<Rightarrow> Errorf ''plugin controller unreachable'' []), u)
      | (Inr p, u) \<Rightarrow>
          (if (case hs_body p of Body_Broken _ \<Rightarrow> True | _ \<Rightarrow> False) then Inl (Errorf ''reading controller response failed'' [])
           else if hs_status p div 100 \<noteq> 2 then Inl (ctlapi_error C p)
           else case noOut of
             Some x \<Rightarrow> Inr x
           | None \<Rightarrow>
               (case hs_body p of
                  Body_Doc j \<Rightarrow>
                    (case (if 16 * 2 ^ 20 < hs_size p then Inl ErrJsonSyntax else dec j) of
                       Inr x \<Rightarrow> Inr x
                     | Inl _ \<Rightarrow> Inl (Errorf ''controller returned an invalid response'' []))
                | _ \<Rightarrow> Inl (Errorf ''controller returned an invalid response'' [])), u))"

definition ctlapi_Prepare :: "'n ctl_client \<Rightarrow> prepare_request \<Rightarrow> 'n \<Rightarrow> prepare_result res \<times> 'n" where
  "ctlapi_Prepare C q = ctlapi_do C ''POST'' [''v1'', ''prepare''] [] (Some (prepare_json q)) (\<lambda>j. json_struct prepared_fields j no_result) None"

text \<open>\<open>url.PathEscape\<close>.\<close>

definition hex_upper :: "nat \<Rightarrow> char" where
  "hex_upper n = (if n < 10 then char_of (48 + n) else char_of (55 + n))"

definition path_escape :: "string \<Rightarrow> string" where
  "path_escape s = concat (map (\<lambda>c. if is_alnum c \<or> c \<in> set ''-_.~$&+:=@'' then [c]
     else [CHR ''%'', hex_upper (of_char c div 16), hex_upper (of_char c mod 16)]) s)"

definition instance_fields :: "(string \<times> inst setter) list" where
  "instance_fields =
     [(''id'', set_string in_ID (\<lambda>v x. x\<lparr>in_ID := v\<rparr>)), (''base_url'', set_string in_BaseURL (\<lambda>v x. x\<lparr>in_BaseURL := v\<rparr>))]"

definition ctlapi_Start :: "'n ctl_client \<Rightarrow> start_request \<Rightarrow> 'n \<Rightarrow> inst res \<times> 'n" where
  "ctlapi_Start C q w =
     (case ctlapi_do C ''POST'' [''v1'', ''instances''] [] (Some (start_json q)) (\<lambda>j. json_struct instance_fields j \<lparr>in_ID = [], in_BaseURL = []\<rparr>) None w of
        (Inl e, u) \<Rightarrow> (Inl e, u)
      | (Inr i, u) \<Rightarrow> (Inr (i\<lparr>in_BaseURL := cc_Base C @ ''/v1/proxy/'' @ path_escape (in_ID i)\<rparr>), u))"

definition ctlapi_Stop :: "'n ctl_client \<Rightarrow> string \<Rightarrow> 'n \<Rightarrow> goerr option \<times> 'n" where
  "ctlapi_Stop C k w =
     (case ctlapi_do C ''DELETE'' [''v1'', ''instances'', k] [] None (\<lambda>_. Inr ()) (Some ()) w of
        (Inl e, u) \<Rightarrow> (Some e, u) | (Inr x, u) \<Rightarrow> (None, u))"

definition ctlapi_Logs :: "'n ctl_client \<Rightarrow> string \<Rightarrow> int \<Rightarrow> 'n \<Rightarrow> string list res \<times> 'n" where
  "ctlapi_Logs C k tailN =
     ctlapi_do C ''GET'' [''v1'', ''instances'', k, ''logs''] (itoa tailN) None
       (\<lambda>j. json_struct [(''lines'', \<lambda>x old. json_strings x)] j []) None"

definition ctlapi_Health :: "'n ctl_client \<Rightarrow> 'n \<Rightarrow> goerr option \<times> 'n" where
  "ctlapi_Health C w =
     (case ctlapi_do C ''GET'' [''health''] [] None (\<lambda>_. Inr ()) (Some ()) w of (Inl e, u) \<Rightarrow> (Some e, u) | (Inr x, u) \<Rightarrow> (None, u))"

text \<open>The client as the manager uses it.\<close>

definition ctlapi_ops :: "'n ctl_client \<Rightarrow> 'n controller_ops" where
  "ctlapi_ops C = \<lparr>co_Prepare = ctlapi_Prepare C, co_Start = ctlapi_Start C, co_Stop = ctlapi_Stop C\<rparr>"

end
