(* ===== verification/Controller_Laws.thy ===== *)
theory Controller_Laws
  imports Controller_Api
begin

text \<open>
  What the controller does to the world around it. The locale \<open>guarded\<close> is the contract of the backend, the scanner and
  the operating system: a property of the world that every one of their operations keeps, running a container only
  when its specification is confined. Every operation of the controller then keeps it, and so does every request.
\<close>

section \<open>Confined containers\<close>

definition confined :: "'w ctl_env \<Rightarrow> RunSpec \<Rightarrow> bool" where
  "confined E s \<longleftrightarrow>
     rx_match containerNameRE (rs_Name s) \<and> rs_Network s = rs_Name s \<and> rx_match digestRE (rs_Image s) \<and>
     rs_Memory s \<le> kc_MemoryLimit (ce_cfg E) \<and> \<not> f64_lt (kc_CPULimit (ce_cfg E)) (rs_CPUs s) \<and> 0 < rs_PIDs s \<and>
     rs_Publish s = kc_Publish (ce_cfg E) \<and> (\<not> kc_AllowEgress (ce_cfg E) \<longrightarrow> \<not> kc_Publish (ce_cfg E) \<longrightarrow> rs_Internal s) \<and>
     gm_get (rs_Env s) ''PORT'' = Some (itoa (rs_Port s)) \<and>
     (\<exists>k. rs_Name s = containerName k \<and> gm_get (rs_Env s) ''PLUGIN_AUTH_TOKEN'' = Some (pluginToken E k))"

definition sane_limits :: "'w ctl_env \<Rightarrow> bool" where
  "sane_limits E \<longleftrightarrow> 0 < kc_MemoryLimit (ce_cfg E) \<and> (f64_lt (F_Zero False) (kc_CPULimit (ce_cfg E)) \<or> kc_CPULimit (ce_cfg E) = F_NaN)"

lemma name_of_id: "rx_match instanceIDRE k \<Longrightarrow> rx_match containerNameRE (containerName k)"
  unfolding rx_match_iff instanceIDRE_def containerNameRE_def containerName_def
  by (simp del: append.simps)

lemma put_absent_get: "gm_get (put_absent k v m) j = (case gm_get m j of Some x \<Rightarrow> Some x | None \<Rightarrow> if j = k then Some v else None)"
  by (auto simp: put_absent_def split: option.splits)

lemma put_absent_all: "gm_get m j = Some x \<Longrightarrow> gm_get (foldl (\<lambda>m k. put_absent k v m) m ks) j = Some x"
  by (induction ks arbitrary: m) (simp_all add: put_absent_get)

lemma start_env_fixed:
  "gm_get (start_env E req mf t l) ''PORT'' = Some (itoa (start_port mf t))"
  "gm_get (start_env E req mf t l) ''PLUGIN_AUTH_TOKEN'' = Some (pluginToken E (sb_InstanceID req))"
  unfolding start_env_def Let_def by (rule put_absent_all; simp)+

lemma limits_ok:
  assumes "Effective m c b c b = Inr l" "f64_lt (F_Zero False) c \<or> c = F_NaN" "0 < b"
  shows "lm_mem l \<le> b \<and> \<not> f64_lt c (lm_cpu l) \<and> 0 < lm_pids l"
  using assms by (auto simp: Effective_def Let_def split: if_splits)

lemma defaults_are_sane: "sane_limits (E\<lparr>ce_cfg := ctl_defaults c\<rparr>)"
proof -
  have "f64_lt (F_Zero False) x \<or> x = F_NaN" if "\<not> f64_le x (F_Zero False)" for x
    using that by (cases x) (auto simp: f64_le_def f64_eq_def)
  then show ?thesis by (auto simp: sane_limits_def ctl_defaults_def or_default_def f64_lt.simps)
qed

theorem accepted_starts_are_confined:
  assumes "start_checks E req = Inr (mf, t, l)" "sane_limits E"
  shows "confined E (start_spec E req mf t l)"
proof -
  have ok: "rx_match instanceIDRE (sb_InstanceID req)" "rx_match digestRE (sb_Digest req)"
      "ctl_limits E mf = Inr l" "mf_Egress mf = EgressInternet \<Longrightarrow> kc_AllowEgress (ce_cfg E)"
    using assms(1) by (auto simp: start_checks_def bad_def res_bind_Inr split: if_splits sum.splits)
  have "Effective mf (kc_CPULimit (ce_cfg E)) (kc_MemoryLimit (ce_cfg E)) (kc_CPULimit (ce_cfg E)) (kc_MemoryLimit (ce_cfg E)) = Inr l"
    using ok(3) by (auto simp: ctl_limits_def Let_def bad_def split: sum.splits)
  from limits_ok[OF this] have lim: "lm_mem l \<le> kc_MemoryLimit (ce_cfg E)" "\<not> f64_lt (kc_CPULimit (ce_cfg E)) (lm_cpu l)" "0 < lm_pids l"
    using assms(2) by (auto simp: sane_limits_def)
  show ?thesis
    using ok lim name_of_id start_env_fixed[of E req mf t l] by (auto simp: confined_def start_spec_def Let_def)
qed

section \<open>The contract of the world\<close>

locale guarded =
  fixes E :: "'w ctl_env" and P :: "'w \<Rightarrow> bool"
  assumes keep_pull: "P w \<Longrightarrow> P (snd (rt_PullOrInspect (ce_rt E) i al w))"
    and keep_build: "P w \<Longrightarrow> P (snd (rt_Build (ce_rt E) b w))"
    and keep_inspect_image: "P w \<Longrightarrow> P (snd (rt_InspectImage (ce_rt E) i w))"
    and keep_remove_image: "P w \<Longrightarrow> P (rt_RemoveImage (ce_rt E) i w)"
    and keep_read: "P w \<Longrightarrow> P (snd (rt_ReadFileFromImage (ce_rt E) i p n w))"
    and keep_run: "confined E s \<Longrightarrow> P w \<Longrightarrow> P (snd (rt_Run (ce_rt E) s w))"
    and keep_remove: "P w \<Longrightarrow> P (rt_Remove (ce_rt E) c w)"
    and keep_logs: "P w \<Longrightarrow> P (snd (rt_Logs (ce_rt E) c z w))"
    and keep_inspect: "P w \<Longrightarrow> P (snd (rt_Inspect (ce_rt E) c w))"
    and keep_address: "P w \<Longrightarrow> P (snd (rt_Address (ce_rt E) c z w))"
    and keep_scan: "P w \<Longrightarrow> P (snd (ce_Scan E i w))"
    and keep_temp: "P w \<Longrightarrow> P (snd (ce_MkdirTemp E d w))"
    and keep_mkdir: "P w \<Longrightarrow> P (snd (ce_MkdirAll E d w))"
    and keep_rmdir: "P w \<Longrightarrow> P (ce_RemoveAll E d w)"
    and keep_git_mkdir: "P w \<Longrightarrow> P (snd (go_MkdirAll (ce_git E d) w))"
    and keep_git_run: "P w \<Longrightarrow> P (snd (go_runGit (ce_git E d) as w))"
    and keep_git_rm: "P w \<Longrightarrow> P (snd (go_RemoveAll (ce_git E d) x w))"
    and keep_write: "P w \<Longrightarrow> P (ce_write E d tr w)"
    and keep_get: "P w \<Longrightarrow> P (snd (ce_get E u w))"
    and keep_send: "P w \<Longrightarrow> P (snd (ce_send E q w))"
    and keep_sleep: "P w \<Longrightarrow> P (snd (ce_sleep E n2 w))"
    and sane: "sane_limits E"
begin

lemma keepD:
  "rt_PullOrInspect (ce_rt E) i al w = (x1, u) \<Longrightarrow> P w \<Longrightarrow> P u"
  "rt_Build (ce_rt E) b w = (x2, u) \<Longrightarrow> P w \<Longrightarrow> P u"
  "rt_InspectImage (ce_rt E) i w = (x3, u) \<Longrightarrow> P w \<Longrightarrow> P u"
  "rt_ReadFileFromImage (ce_rt E) i p n w = (x4, u) \<Longrightarrow> P w \<Longrightarrow> P u"
  "rt_Logs (ce_rt E) c z w = (x5, u) \<Longrightarrow> P w \<Longrightarrow> P u"
  "rt_Inspect (ce_rt E) c w = (x6, u) \<Longrightarrow> P w \<Longrightarrow> P u"
  "rt_Address (ce_rt E) c z w = (x7, u) \<Longrightarrow> P w \<Longrightarrow> P u"
  "ce_Scan E i w = (x8, u) \<Longrightarrow> P w \<Longrightarrow> P u"
  "ce_MkdirTemp E d w = (x9, u) \<Longrightarrow> P w \<Longrightarrow> P u"
  "ce_MkdirAll E d w = (x10, u) \<Longrightarrow> P w \<Longrightarrow> P u"
  "go_MkdirAll (ce_git E d) w = (x10, u) \<Longrightarrow> P w \<Longrightarrow> P u"
  "go_runGit (ce_git E d) as w = (x11, u) \<Longrightarrow> P w \<Longrightarrow> P u"
  "go_RemoveAll (ce_git E d) x w = (x10, u) \<Longrightarrow> P w \<Longrightarrow> P u"
  "ce_get E url w = (x12, u) \<Longrightarrow> P w \<Longrightarrow> P u"
  "ce_send E q w = (x13, u) \<Longrightarrow> P w \<Longrightarrow> P u"
  "ce_sleep E n2 w = (x10, u) \<Longrightarrow> P w \<Longrightarrow> P u"
  "confined E s \<Longrightarrow> rt_Run (ce_rt E) s w = (x10, u) \<Longrightarrow> P w \<Longrightarrow> P u"
  using keep_pull keep_build keep_inspect_image keep_read keep_logs keep_inspect keep_address keep_scan keep_temp keep_mkdir
    keep_git_mkdir keep_git_run keep_git_rm keep_get keep_send keep_sleep keep_run by (metis snd_conv)+

lemmas keep = keep_remove_image keep_remove keep_rmdir keep_write

lemma keep_finish: "P w \<Longrightarrow> P (snd (finishImage E info mf l0 pv w))"
  by (auto simp: finishImage_def Let_def keep split: prod.splits sum.splits dest: keepD)

lemma keep_image_manifest: "image_manifest E req info l w = (x, u) \<Longrightarrow> P w \<Longrightarrow> P u"
  by (auto simp: image_manifest_def split: if_splits prod.splits sum.splits dest: keepD)

lemma keep_prepareImage: "P w \<Longrightarrow> P (snd (prepareImage E req t l w))"
  by (auto simp: prepareImage_def Let_def keep_finish split: prod.splits sum.splits dest: keepD keep_image_manifest)

lemma keep_context: "choose_context E mf work src l w = (x, u) \<Longrightarrow> P w \<Longrightarrow> P u"
  by (auto simp: choose_context_def Let_def keep split: if_splits prod.splits sum.splits option.splits dest: keepD)

lemma keep_after_build: "P w \<Longrightarrow> P (snd (after_build E mf tag commit origin sh l w))"
proof -
  assume w: "P w"
  obtain x u where i: "rt_InspectImage (ce_rt E) tag w = (x, u)" by fastforce
  have u: "P u" using keepD(3)[OF i w] .
  show ?thesis
    using i u by (auto simp: after_build_def keep split: sum.splits prod.splits) (metis keep_finish snd_conv keep)+
qed

lemma keep_build_tree: "P w \<Longrightarrow> P (snd (build_tree E req mf dirs commit origin sh l w))"
  by (auto simp: build_tree_def Let_def keep_after_build split: prod.splits option.splits dest: keepD)

lemma keep_prepareTree: "P w \<Longrightarrow> P (snd (prepareTree E req t work src commit origin l w))"
  by (auto simp: prepareTree_def keep_build_tree split: prod.splits sum.splits dest: keep_context)

lemma keep_steps: "P w \<Longrightarrow> run_steps (ce_git E d) cs w = (r, u) \<Longrightarrow> P u"
proof (induction cs arbitrary: w)
  case (Cons c cs)
  obtain x v where x: "go_runGit (ce_git E d) c w = (x, v)" by fastforce
  have "P v" using keepD(12)[OF x Cons.prems(1)] .
  then show ?case using Cons.IH Cons.prems(2) x by (auto split: sum.splits)
qed simp

lemma keep_resolve: "P w \<Longrightarrow> P (snd (resolve_commit (ce_git E d) w))"
  by (auto simp: resolve_commit_def Let_def split: prod.splits sum.splits option.splits dest: keepD)

lemma keep_fetch: "FetchRepo (ce_git E d) url rv al w = (x, u) \<Longrightarrow> P w \<Longrightarrow> P u"
  using keep_resolve by (auto simp: FetchRepo_def split: prod.splits sum.splits option.splits dest: keepD keep_steps) (metis keepD(11) keep_steps snd_conv)+

lemma keep_prepareRepo: "P w \<Longrightarrow> P (snd (prepareRepo E req t l w))"
  by (auto simp: prepareRepo_def Let_def keep split: prod.splits sum.splits dest: keepD keep_fetch)
    (metis keep_prepareTree keep_rmdir keepD(9) keep_fetch snd_conv)

lemma keep_Prepare: "P w \<Longrightarrow> P (snd (ctl_Prepare E req w))"
proof -
  assume w: "P w"
  have "P (snd (prepareImage E req x [] w))" "P (snd (prepareRepo E req x [] w))" for x
    using w keep_prepareImage keep_prepareRepo by blast+
  note kept = this
  show ?thesis
  proof (cases "ParseType (pb_Type req)")
    case (Inr x)
    obtain r u where a: "prepareImage E req x [] w = (r, u)" by fastforce
    obtain q v where b: "prepareRepo E req x [] w = (q, v)" by fastforce
    have "P u" "P v" using kept[of x] a b by simp_all
    then show ?thesis using w Inr a b by (simp add: ctl_Prepare_def Let_def split: prod.splits)
  qed (use w in \<open>simp add: ctl_Prepare_def\<close>)
qed

lemma keep_addr: "address E n port w = (x, u) \<Longrightarrow> P w \<Longrightarrow> P u"
  by (auto simp: address_def split: if_splits dest: keepD)

lemma keep_wait_any: "wait_loop F url deadline w = Some y \<Longrightarrow> F = E \<longrightarrow> P w \<longrightarrow> P (snd y)"
proof (induction rule: wait_loop.raw_induct[rotated 1, consumes 1])
  case (1 loop F url deadline w y)
  obtain r u where r: "ce_get F url w = (r, u)" by fastforce
  obtain s v where s: "ce_sleep F 300000000 u = (s, v)" by fastforce
  have "P u \<and> P v" if "F = E" "P w" using that r s keepD(14)[of url w r u] keepD(16)[of 300000000 u s v] by blast
  moreover obtain a b where y: "y = (a, b)" by fastforce
  ultimately show ?case using 1(2) 1(1)[of F url deadline v y] r s
    by (auto simp: Let_def split: if_splits option.splits)
qed

lemma keep_wait: "waitHealthy E addr path n w = Some (r, u) \<Longrightarrow> P w \<Longrightarrow> P u"
  using keep_wait_any by (fastforce simp: waitHealthy_def)

lemma keep_reuse: "try_reuse E mf spec c w = Some (r, u) \<Longrightarrow> P w \<Longrightarrow> P u"
  by (auto simp: try_reuse_def split: option.splits if_splits prod.splits sum.splits dest: keep_addr keep_wait)

lemma keep_launch: "launch E req mf spec w = Some (r, u) \<Longrightarrow> confined E spec \<Longrightarrow> P w \<Longrightarrow> P u"
  by (auto simp: launch_def Let_def split: if_splits prod.splits option.splits sum.splits intro!: keep_remove
      dest!: keepD keep_addr keep_wait)

lemma keep_settle: "P (snd r) \<Longrightarrow> P (cs_w (snd (settle E req mf spec st r)))"
  by (auto simp: settle_def remember_def split: prod.splits sum.splits)

lemma lock_world [simp]: "cs_w (make_lock k st) = cs_w st"
  by (simp add: make_lock_def)

theorem keep_Start: "ctl_Start E req st = Some (r, s) \<Longrightarrow> P (cs_w st) \<Longrightarrow> P (cs_w s)"
proof (cases "start_checks E req")
  case (Inl e)
  assume "ctl_Start E req st = Some (r, s)" "P (cs_w st)"
  then show ?thesis using Inl by (simp add: ctl_Start_def)
next
  case (Inr x)
  assume run: "ctl_Start E req st = Some (r, s)" and w: "P (cs_w st)"
  obtain mf t l where x: "x = (mf, t, l)" by (rule prod_cases3)
  let ?spec = "start_spec E req mf t l" and ?st = "make_lock (sb_InstanceID req) st"
  have conf: "confined E ?spec" using accepted_starts_are_confined[OF _ sane] Inr x by blast
  obtain c u where c: "rt_Inspect (ce_rt E) (rs_Name ?spec) (cs_w st) = (c, u)" by fastforce
  have u: "P u" using keepD(6)[OF c w] .
  show ?thesis
  proof (cases c)
    case (Inl e)
    then show ?thesis using run c u \<open>start_checks E req = Inr x\<close> x by (auto simp: ctl_Start_def Let_def)
  next
    case c2: (Inr ci)
    obtain a v where a: "try_reuse E mf ?spec ci u = Some (a, v)"
      using run c c2 \<open>start_checks E req = Inr x\<close> x by (cases "try_reuse E mf ?spec ci u") (auto simp: ctl_Start_def Let_def)
    have v: "P v" using keep_reuse[OF a u] .
    let ?v = "if ci \<noteq> None then rt_Remove (ce_rt E) (rs_Name ?spec) v else v"
    show ?thesis
    proof (cases a)
      case (Some addr)
      then have "(r, s) = settle E req mf ?spec ?st (Inr addr, v)"
        using run c c2 a \<open>start_checks E req = Inr x\<close> x by (simp add: ctl_Start_def Let_def)
      then show ?thesis using keep_settle[of "(Inr addr, v)" req mf ?spec ?st] v by (metis snd_conv)
    next
      case None
      then have "map_option (settle E req mf ?spec ?st) (launch E req mf ?spec ?v) = Some (r, s)"
        using run c c2 a \<open>start_checks E req = Inr x\<close> x by (simp add: ctl_Start_def Let_def)
      then obtain y where y: "launch E req mf ?spec ?v = Some y" "settle E req mf ?spec ?st y = (r, s)" by auto
      have "P ?v" using v keep_remove by simp
      then have "P (snd y)" using keep_launch[of req mf ?spec ?v "fst y" "snd y"] y(1) conf by simp
      then show ?thesis using keep_settle[of y req mf ?spec ?st] y(2) by simp
    qed
  qed
qed

lemma keep_lookup: "lookup E k fresh st = (r, s) \<Longrightarrow> P (cs_w st) \<Longrightarrow> P (cs_w s)"
proof -
  assume run: "lookup E k fresh st = (r, s)" and w: "P (cs_w st)"
  obtain c u where c: "rt_Inspect (ce_rt E) (containerName k) (cs_w st) = (c, u)" by fastforce
  have u: "P u" using keepD(6)[OF c w] .
  show ?thesis
    using run w u keep_addr[OF _ u] unfolding lookup_def Let_def c
    by (auto simp: remember_def split: if_splits option.splits sum.splits prod.splits)
qed

lemma keep_psend: "proxy_send E rq path body i st = (r, s) \<Longrightarrow> P (cs_w st) \<Longrightarrow> P (cs_w s)"
  by (auto simp: proxy_send_def split: prod.splits dest: keepD)

lemma keep_proxy: "handleProxy E bytes rq k path st = (r, s) \<Longrightarrow> P (cs_w st) \<Longrightarrow> P (cs_w s)"
  by (auto simp: handleProxy_def Let_def split: if_splits prod.splits sum.splits dest: keep_lookup keep_psend)

lemma keep_simple_handlers:
  "handlePrepare E bytes rq st = (r, s) \<Longrightarrow> P (cs_w st) \<Longrightarrow> P (cs_w s)"
  "handleStop E bytes k st = (r, s) \<Longrightarrow> P (cs_w st) \<Longrightarrow> P (cs_w s)"
  "handleLogs E bytes rq k st = (r, s) \<Longrightarrow> P (cs_w st) \<Longrightarrow> P (cs_w s)"
proof -
  show "handlePrepare E bytes rq st = (r, s) \<Longrightarrow> P (cs_w st) \<Longrightarrow> P (cs_w s)"
    using keep_Prepare by (auto simp: handlePrepare_def split: option.splits prod.splits sum.splits) (metis snd_conv)+
qed (auto simp: handleStop_def handleLogs_def ctl_Stop_def keep split: if_splits prod.splits sum.splits dest: keepD)

text \<open>Every request keeps what the world promises.\<close>

theorem keep_serve: "ctl_serve E bytes rq st = Some (r, s) \<Longrightarrow> P (cs_w st) \<Longrightarrow> P (cs_w s)"
  by (auto simp: ctl_serve_def ctl_guarded_def handleStart_def split: if_splits route.splits option.splits prod.splits
      dest: keep_proxy keep_simple_handlers keep_Start)

end

end
