(* ===== verification/Controller_Docker.thy ===== *)
theory Controller_Docker
  imports Controller_Laws
begin

text \<open>
  The controller over the docker program: what it makes docker do, whatever requests it gets and whatever docker, git,
  the scanner and the plugins answer. The world is extended by the commands docker was given.
\<close>

section \<open>Recording the commands\<close>

type_synonym 'w rec_world = "string list list \<times> 'w"

definition lift2 :: "('w \<Rightarrow> 'a \<times> 'w) \<Rightarrow> 'w rec_world \<Rightarrow> 'a \<times> 'w rec_world" where
  "lift2 f x = (case f (snd x) of (r, u) \<Rightarrow> (r, fst x, u))"

definition lift1 :: "('w \<Rightarrow> 'w) \<Rightarrow> 'w rec_world \<Rightarrow> 'w rec_world" where
  "lift1 f x = (fst x, f (snd x))"

definition recorded :: "'w docker \<Rightarrow> 'w rec_world docker" where
  "recorded D =
     \<lparr>dk_Self = dk_Self D,
      dk_exec = (\<lambda>a x. lift2 (dk_exec D a) (fst x @ [a], snd x)),
      dk_exec_all = (\<lambda>a x. lift2 (dk_exec_all D a) (fst x @ [a], snd x)),
      dk_ctx = (\<lambda>x. dk_ctx D (snd x)), dk_json = dk_json D, dk_tar = dk_tar D,
      dk_CreateTemp = lift2 (dk_CreateTemp D), dk_Chmod = (\<lambda>f m. lift2 (dk_Chmod D f m)),
      dk_Close = (\<lambda>f t. lift2 (dk_Close D f t)), dk_RemoveFile = (\<lambda>f. lift1 (dk_RemoveFile D f)),
      dk_text = dk_text D, dk_scrub = dk_scrub D\<rparr>"

definition lift_git :: "'w git_ops \<Rightarrow> 'w rec_world git_ops" where
  "lift_git G = \<lparr>go_MkdirAll = lift2 (go_MkdirAll G), go_runGit = (\<lambda>c. lift2 (go_runGit G c)), go_RemoveAll = (\<lambda>d. lift2 (go_RemoveAll G d))\<rparr>"

text \<open>A controller with its defaults, over docker; the rest of its environment is \<open>E\<close>.\<close>

definition docker_env :: "'w docker \<Rightarrow> 'w ctl_env \<Rightarrow> 'w rec_world ctl_env" where
  "docker_env D E =
     \<lparr>ce_cfg = ctl_defaults (ce_cfg E), ce_rt = docker_runtime (recorded D), ce_Scan = (\<lambda>i. lift2 (ce_Scan E i)),
      ce_yaml = ce_yaml E, ce_marshal = ce_marshal E, ce_sha = ce_sha E, ce_hmac = ce_hmac E, ce_line = ce_line E,
      ce_MkdirTemp = (\<lambda>d. lift2 (ce_MkdirTemp E d)), ce_MkdirAll = (\<lambda>d. lift2 (ce_MkdirAll E d)),
      ce_RemoveAll = (\<lambda>d. lift1 (ce_RemoveAll E d)), ce_git = (\<lambda>d. lift_git (ce_git E d)),
      ce_tree = (\<lambda>d x. ce_tree E d (snd x)), ce_write = (\<lambda>d t. lift1 (ce_write E d t)),
      ce_get = (\<lambda>u. lift2 (ce_get E u)), ce_send = (\<lambda>q. lift2 (ce_send E q)), ce_sleep = (\<lambda>n. lift2 (ce_sleep E n)),
      ce_clock = (\<lambda>x. ce_clock E (snd x)), ce_ctx = (\<lambda>x. ce_ctx E (snd x))\<rparr>"

section \<open>What docker may be asked\<close>

inductive allowed :: "'w ctl_env \<Rightarrow> string list \<Rightarrow> bool" for E where
  al_run: "confined E s \<Longrightarrow> allowed E (RunArgs s f)"
| al_network: "confined E s \<Longrightarrow> allowed E (network_args s)"
| al_connect: "confined E s \<Longrightarrow> allowed E [''network'', ''connect'', rs_Network s, rs_AttachSelf s]"
| al_build: "allowed E (build_args b)"
| al_look: "rx_match imageRefRE i \<Longrightarrow> allowed E [''image'', ''inspect'', ''--format'', ''{{json .}}'', i]"
| al_pull: "rx_match imageRefRE i \<Longrightarrow> allowed E [''pull'', ''--quiet'', i]"
| al_drop: "rx_match imageRefRE i \<Longrightarrow> allowed E [''image'', ''rm'', ''--force'', i]"
| al_create: "rx_match imageRefRE i \<Longrightarrow> allowed E [''create'', ''--pull=never'', ''--network=none'', i]"
| al_copy: "rx_match containerIdRE k \<Longrightarrow> allowed E [''cp'', k @ '':'' @ p, ''-'']"
| al_discard: "rx_match containerIdRE k \<Longrightarrow> allowed E [''rm'', ''--force'', k]"
| al_remove: "rx_match containerNameRE n \<Longrightarrow> allowed E [''rm'', ''--force'', ''--volumes'', n]"
| al_leave: "rx_match containerNameRE n \<Longrightarrow> allowed E [''network'', ''disconnect'', ''--force'', n, self]"
| al_unnet: "rx_match containerNameRE n \<Longrightarrow> allowed E [''network'', ''rm'', n]"
| al_logs: "rx_match containerNameRE n \<Longrightarrow> allowed E [''logs'', ''--tail'', z, n]"
| al_inspect: "rx_match containerNameRE n \<Longrightarrow> allowed E [''container'', ''inspect'', ''--format'', ''{{json .}}'', n]"
| al_port: "rx_match containerNameRE n \<Longrightarrow> allowed E [''port'', n, p]"

lemmas allowed_commands [simp] = al_look al_pull al_drop al_create al_copy al_discard al_remove al_leave al_unnet al_logs al_inspect al_port

definition safe_world :: "'w ctl_env \<Rightarrow> 'v rec_world \<Rightarrow> bool" where
  "safe_world E x \<longleftrightarrow> (\<forall>c\<in>set (fst x). allowed E c)"

lemma safe_lift2: "safe_world E (snd (lift2 f x)) \<longleftrightarrow> safe_world E x"
  by (simp add: safe_world_def lift2_def split: prod.splits)

lemma lift2D: "lift2 f x = (r, y) \<Longrightarrow> safe_world E y \<longleftrightarrow> safe_world E x"
  by (auto simp: safe_world_def lift2_def split: prod.splits)

lemma safe_lift1: "safe_world E (lift1 f x) \<longleftrightarrow> safe_world E x"
  by (simp add: safe_world_def lift1_def)

lemma safe_add: "safe_world E (l @ [a], w) \<longleftrightarrow> safe_world E (l, w) \<and> allowed E a"
  by (auto simp: safe_world_def)

lemma safe_exec:
  "safe_world E x \<Longrightarrow> allowed E a \<Longrightarrow> safe_world E (snd (dk_exec (recorded D) a x))"
  "safe_world E x \<Longrightarrow> allowed E a \<Longrightarrow> safe_world E (snd (dk_exec_all (recorded D) a x))"
  by (cases x; simp add: recorded_def safe_lift2 safe_add)+

lemma safe_run: "safe_world E x \<Longrightarrow> allowed E a \<Longrightarrow> safe_world E (snd (docker_run (recorded D) a x))"
  using safe_exec(1)[of E x a D] by (auto simp: docker_run_def split: prod.splits option.splits)

lemma execD:
  "dk_exec (recorded D) a x = (r1, y) \<Longrightarrow> allowed E a \<Longrightarrow> safe_world E x \<Longrightarrow> safe_world E y"
  "dk_exec_all (recorded D) a x = (r2, y) \<Longrightarrow> allowed E a \<Longrightarrow> safe_world E x \<Longrightarrow> safe_world E y"
  "docker_run (recorded D) a x = (r3, y) \<Longrightarrow> allowed E a \<Longrightarrow> safe_world E x \<Longrightarrow> safe_world E y"
  using safe_exec safe_run by (metis snd_conv)+

lemma fileD:
  "dk_CreateTemp (recorded D) x = (r4, y) \<Longrightarrow> safe_world E y \<longleftrightarrow> safe_world E x"
  "dk_Chmod (recorded D) f m x = (r5, y) \<Longrightarrow> safe_world E y \<longleftrightarrow> safe_world E x"
  "dk_Close (recorded D) f t x = (r5, y) \<Longrightarrow> safe_world E y \<longleftrightarrow> safe_world E x"
  "safe_world E (dk_RemoveFile (recorded D) f x) \<longleftrightarrow> safe_world E x"
  by (simp_all add: recorded_def safe_lift1 lift2D)

text \<open>The world an operation of one command leaves.\<close>

lemma world_after:
  "snd (docker_InspectImage D i x) =
     (if rx_match imageRefRE i then snd (docker_run D [''image'', ''inspect'', ''--format'', ''{{json .}}'', i] x) else x)"
  "snd (docker_Logs D n z x) = (if rx_match containerNameRE n then snd (dk_exec D [''logs'', ''--tail'', itoa z, n] x) else x)"
  "snd (docker_Inspect D n x) =
     (if rx_match containerNameRE n then snd (dk_exec D [''container'', ''inspect'', ''--format'', ''{{json .}}'', n] x) else x)"
  "snd (docker_Address D n z x) = (if rx_match containerNameRE n then snd (docker_run D [''port'', n, itoa z @ ''/tcp''] x) else x)"
  "snd (docker_Build D b x) = snd (dk_exec_all D (build_args b) x)"
  "snd (docker_copy_out D k p m x) = snd (dk_exec D [''cp'', k @ '':'' @ p, ''-''] x)"
  "snd (run_unless_exists D a x) = snd (docker_run D a x)"
  by (auto simp: docker_InspectImage_def docker_Logs_def docker_Inspect_def docker_Address_def docker_Build_def docker_copy_out_def
      run_unless_exists_def Let_def split: prod.splits option.splits sum.splits bool.splits)

lemma safe_simple:
  "safe_world E x \<Longrightarrow> safe_world E (snd (docker_InspectImage (recorded D) i x))"
  "safe_world E x \<Longrightarrow> safe_world E (snd (docker_Logs (recorded D) n z x))"
  "safe_world E x \<Longrightarrow> safe_world E (snd (docker_Inspect (recorded D) n x))"
  "safe_world E x \<Longrightarrow> safe_world E (snd (docker_Address (recorded D) n z x))"
  "safe_world E x \<Longrightarrow> safe_world E (snd (docker_Build (recorded D) b x))"
  "safe_world E x \<Longrightarrow> rx_match containerIdRE k \<Longrightarrow> safe_world E (snd (docker_copy_out (recorded D) k p m x))"
  "safe_world E x \<Longrightarrow> allowed E a \<Longrightarrow> safe_world E (snd (run_unless_exists (recorded D) a x))"
  using al_copy[of k E p] by (simp_all add: world_after safe_exec safe_run al_build del: append.simps)

lemma safe_RemoveImage: "safe_world E x \<Longrightarrow> safe_world E (docker_RemoveImage (recorded D) i x)"
  by (simp add: docker_RemoveImage_def safe_exec)

lemma safe_pull: "rx_match imageRefRE i \<Longrightarrow> safe_world E x \<Longrightarrow> safe_world E (snd (docker_pull (recorded D) i al x))"
proof -
  assume i: "rx_match imageRefRE i" and x: "safe_world E x"
  obtain out e u where c: "docker_run (recorded D) [''pull'', ''--quiet'', i] x = ((out, e), u)" by (metis surj_pair)
  have u: "safe_world E u" using execD(3)[OF c] i x by simp
  obtain r v where r: "docker_InspectImage (recorded D) i u = (r, v)" by (metis surj_pair)
  have "safe_world E v" using safe_simple(1)[OF u, of D i] r by simp
  then show ?thesis using c r u by (simp add: docker_pull_def split: option.splits sum.splits)
qed

lemma safe_PullOrInspect: "safe_world E x \<Longrightarrow> safe_world E (snd (docker_PullOrInspect (recorded D) i al x))"
proof -
  assume x: "safe_world E x"
  obtain r v where r: "docker_InspectImage (recorded D) i x = (r, v)" by (metis surj_pair)
  have v: "safe_world E v" using safe_simple(1)[OF x, of D i] r by simp
  show ?thesis using r v x safe_pull[of i E x D al] safe_pull[of i E v D al]
    by (cases al) (simp_all add: docker_PullOrInspect_def split: sum.splits)
qed

lemma safe_ReadFile: "safe_world E x \<Longrightarrow> safe_world E (snd (docker_ReadFileFromImage (recorded D) i p n x))"
proof -
  assume x: "safe_world E x"
  show ?thesis
  proof (cases "\<not> rx_match imageRefRE i \<or> \<not> has_prefix p ''/'' \<or> CHR '' '' \<in> set p \<or> lf \<in> set p \<or> nul \<in> set p")
    case True
    then show ?thesis using x by (simp add: docker_ReadFileFromImage_def)
  next
    case False
    obtain out e u where c: "docker_run (recorded D) [''create'', ''--pull=never'', ''--network=none'', i] x = ((out, e), u)"
      by (metis surj_pair)
    have u: "safe_world E u" using execD(3)[OF c] False x by simp
    define k where "k = trim_space out"
    obtain q v where q: "docker_copy_out (recorded D) k p n u = (q, v)" by (metis surj_pair)
    show ?thesis
    proof (cases "e = None \<and> rx_match containerIdRE k")
      case True
      have v: "safe_world E v" using safe_simple(6)[OF u, of k D p n] True q by simp
      have "snd (docker_ReadFileFromImage (recorded D) i p n x) = snd (dk_exec (recorded D) [''rm'', ''--force'', k] v)"
        using False c True q by (simp add: docker_ReadFileFromImage_def Let_def flip: k_def)
      then show ?thesis using safe_exec(1)[OF v] True by simp
    next
      case no: False
      then have "snd (docker_ReadFileFromImage (recorded D) i p n x) = u"
        using False c by (cases e) (simp_all add: docker_ReadFileFromImage_def Let_def flip: k_def)
      then show ?thesis using u by simp
    qed
  qed
qed

lemma safe_writeEnv: "writeEnvFile (recorded D) env x = (r, y) \<Longrightarrow> safe_world E y \<longleftrightarrow> safe_world E x"
  by (auto simp: writeEnvFile_def split: prod.splits sum.splits option.splits dest!: fileD(1-3) simp: fileD(4))

lemma safe_start: "confined E s \<Longrightarrow> safe_world E x \<Longrightarrow> safe_world E (snd (docker_start (recorded D) s f x))"
proof -
  assume s: "confined E s" and x: "safe_world E x"
  obtain out e u where c: "docker_run (recorded D) (RunArgs s f) x = ((out, e), u)" by (metis surj_pair)
  have u: "safe_world E u" using execD(3)[OF c al_run[OF s] x] .
  show ?thesis using c u safe_simple(7)[OF u al_connect[OF s]] by (simp add: docker_start_def split: option.splits)
qed

lemma safe_Run: "confined E s \<Longrightarrow> safe_world E x \<Longrightarrow> safe_world E (snd (docker_Run (recorded D) s x))"
proof -
  assume s: "confined E s" and x: "safe_world E x"
  obtain n u where n: "(if rs_Network s \<noteq> [] then run_unless_exists (recorded D) (network_args s) x else (None, x)) = (n, u)" by (metis surj_pair)
  have u: "safe_world E u" using n safe_simple(7)[OF x al_network[OF s], of D] x by (auto split: if_splits)
  obtain r v where r: "writeEnvFile (recorded D) (rs_Env s) u = (r, v)" by (metis surj_pair)
  have v: "safe_world E v" using safe_writeEnv[OF r, of E] u by blast
  show ?thesis
  proof (cases "n = None \<and> (\<exists>f. r = Inr f)")
    case True
    then obtain f where f: "n = None" "r = Inr f" by blast
    obtain z y where y: "docker_start (recorded D) s f v = (z, y)" by (metis surj_pair)
    have "safe_world E y" using safe_start[OF s v, of D f] y by simp
    then show ?thesis unfolding docker_Run_def n using f r y by (simp add: fileD(4))
  next
    case False
    then show ?thesis unfolding docker_Run_def n using r u v by (auto split: option.splits sum.splits)
  qed
qed

lemma safe_Remove: "safe_world E x \<Longrightarrow> safe_world E (docker_Remove (recorded D) n x)"
  by (simp add: docker_Remove_def Let_def safe_exec)

interpretation over_docker: guarded "docker_env D E" "safe_world (docker_env D E)" for D :: "'w docker" and E :: "'w ctl_env"
proof unfold_locales
  show "sane_limits (docker_env D E)"
    using defaults_are_sane[of "ce_cfg E" E] by (simp add: sane_limits_def docker_env_def)
qed (simp_all add: docker_env_def docker_runtime_def safe_lift1 safe_lift2 lift_git_def safe_Remove safe_RemoveImage
      safe_PullOrInspect safe_ReadFile safe_Run safe_simple)

end
