(* ===== verification/Controller_Props.thy ===== *)
theory Controller_Props
  imports Controller_Docker
begin

text \<open>
  Properties of the controller: what an accepted preparation says of the image, that starting returns, what is known
  of an instance, what requests without the token do, and how the client's requests and the server's answers are read
  back at the other end. At the end a run over docker.
\<close>

section \<open>Prepared images\<close>

definition checked_image :: "'w ctl_env \<Rightarrow> prepare_result \<Rightarrow> bool" where
  "checked_image E p \<longleftrightarrow>
     (\<exists>rep pv. ps_Scan p = Some rep \<and> ps_Provenance p = Some pv \<and>
        sc_Status rep \<noteq> ''failed'' \<and> (kc_RequireScan (ce_cfg E) \<longrightarrow> sc_Status rep \<noteq> ''skipped'') \<and>
        ps_ImageSize p \<le> kc_MaxImageBytes (ce_cfg E) \<and> pv_ImageSize pv = ps_ImageSize p \<and>
        pv_ManifestSHA pv = ce_sha E (ps_Manifest p) \<and> pv_Commit pv = ps_Commit p)"

lemma finish_ok:
  "finishImage E info mf l0 pv w = ((Inr p, l), u) \<Longrightarrow>
     \<exists>rep. ps_Scan p = Some rep \<and> ps_Provenance p = Some (pv\<lparr>pv_ManifestSHA := ce_sha E (ps_Manifest p), pv_ImageSize := ps_ImageSize p\<rparr>) \<and>
       sc_Status rep \<noteq> ''failed'' \<and> (kc_RequireScan (ce_cfg E) \<longrightarrow> sc_Status rep \<noteq> ''skipped'') \<and>
       ps_ImageSize p \<le> kc_MaxImageBytes (ce_cfg E) \<and> ps_Commit p = [] \<and> ps_Digest p = Pinned info"
  by (auto simp: finishImage_def Let_def bad_def split: if_splits prod.splits sum.splits)

lemma prepareImage_ok:
  assumes "prepareImage E req t l0 w = ((Inr p, l), u)" "\<not> pb_DryRun req"
  shows "checked_image E p \<and> ps_Commit p = []"
proof -
  obtain info mf l1 v x where "finishImage E info mf l1 (no_provenance ''registry-pull'' x) v = ((Inr p, l), u)"
    using assms by (auto simp: prepareImage_def Let_def bad_def split: if_splits prod.splits sum.splits)
  from finish_ok[OF this] show ?thesis by (auto simp: checked_image_def no_provenance_def)
qed

lemma after_build_ok:
  assumes "after_build E mf tag commit origin sh l0 w = ((Inr p, l), u)"
  shows "checked_image E p \<and> ps_Commit p = commit"
proof -
  obtain info x v y q where f: "finishImage E info mf l0 ((no_provenance ''docker build'' x)\<lparr>pv_RepoURL := origin, pv_Commit := commit, pv_SourceHash := sh\<rparr>) v
      = ((Inr q, l), y)" and p: "p = q\<lparr>ps_Commit := commit\<rparr>"
    using assms by (auto simp: after_build_def bad_def split: prod.splits sum.splits)
  show ?thesis using finish_ok[OF f] by (auto simp: checked_image_def p no_provenance_def)
qed

lemma prepareTree_ok:
  assumes "prepareTree E req t work src commit origin l0 w = ((Inr p, l), u)" "\<not> pb_DryRun req"
  shows "checked_image E p \<and> ps_Commit p = commit"
proof -
  obtain mf tag sh l1 v where "after_build E mf tag commit origin sh l1 v = ((Inr p, l), u)"
    using assms by (auto simp: prepareTree_def build_tree_def bad_def Let_def split: prod.splits sum.splits option.splits)
  then show ?thesis by (rule after_build_ok)
qed

lemma FetchRepo_commit: "FetchRepo G url rv al w = (Inr c, u) \<Longrightarrow> rx_match commitRE c"
  by (auto simp: FetchRepo_def resolve_commit_def Let_def split: option.splits sum.splits prod.splits if_splits)

lemma prepareRepo_ok:
  assumes "prepareRepo E req t l0 w = ((Inr p, l), u)" "\<not> pb_DryRun req"
  shows "checked_image E p \<and> rx_match commitRE (ps_Commit p)"
proof -
  obtain G v src work commit l1 y z where f: "FetchRepo G (pb_Repo req) (pb_Revision req) (kc_AllowLocalGit (ce_cfg E)) y = (Inr commit, v)"
    and p: "prepareTree E req t work src commit (SafeURL (pb_Repo req)) l1 v = ((Inr p, l), z)"
    using assms(1) by (auto simp: prepareRepo_def bad_def Let_def split: prod.splits sum.splits)
  show ?thesis using FetchRepo_commit[OF f] prepareTree_ok[OF p assms(2)] by simp
qed

lemma map_sum_Inr: "map_sum g f r = Inr p \<longleftrightarrow> (\<exists>q. r = Inr q \<and> p = f q)"
  by (cases r) auto

lemma checked_log [simp]: "checked_image E (p\<lparr>ps_Log := l\<rparr>) \<longleftrightarrow> checked_image E p"
  by (simp add: checked_image_def)


section \<open>Starting returns\<close>

definition clock_advances :: "'w ctl_env \<Rightarrow> bool" where
  "clock_advances E \<longleftrightarrow>
     (\<forall>n w. ce_clock E w + n \<le> ce_clock E (snd (ce_sleep E n w))) \<and> (\<forall>u w. ce_clock E w \<le> ce_clock E (snd (ce_get E u w)))"

lemma wait_loop_ends: "clock_advances E \<Longrightarrow> \<exists>y. wait_loop E url d w = Some y"
proof (induction "nat (d + 1 - ce_clock E w)" arbitrary: w rule: less_induct)
  case less
  obtain r u where r: "ce_get E url w = (r, u)" by fastforce
  obtain s v where s: "ce_sleep E 300000000 u = (s, v)" by fastforce
  have c: "ce_clock E w \<le> ce_clock E u" "ce_clock E u + 300000000 \<le> ce_clock E v"
    using less.prems r s unfolding clock_advances_def by (metis snd_conv)+
  show ?case
  proof (cases "r = Inr 200 \<or> d < ce_clock E u \<or> ce_ctx E u \<noteq> None \<or> s \<noteq> None")
    case True
    then show ?thesis using r s by (subst wait_loop.simps) (auto simp: Let_def split: option.splits)
  next
    case False
    have "nat (d + 1 - ce_clock E v) < nat (d + 1 - ce_clock E w)" using False c by simp
    from less.hyps[OF this less.prems] show ?thesis
      using False r s by (subst wait_loop.simps) (auto simp: Let_def)
  qed
qed

lemma wait_ends: "clock_advances E \<Longrightarrow> waitHealthy E addr path n w \<noteq> None"
  using wait_loop_ends by (fastforce simp: waitHealthy_def)

text \<open>C28: starting an instance returns, and so does every request, when the clock goes on while the controller sleeps: the
  wait for the plugin's health ends by the deadline.\<close>
theorem every_request_returns:
  assumes "clock_advances E"
  shows "\<exists>r s. ctl_serve E bytes rq st = Some (r, s)"
proof -
  have reuse: "try_reuse E mf spec c w \<noteq> None" for mf spec c w
  proof -
    have ends: "\<exists>b a. waitHealthy E addr path n w = Some (a, b)" for addr path n w
      using wait_ends[OF assms, of addr path n w] by auto
    show ?thesis by (simp add: try_reuse_def ends split: option.splits prod.splits sum.splits)
  qed
  have la: "launch E req mf spec w \<noteq> None" for req mf spec w
    by (simp add: launch_def Let_def wait_ends[OF assms] split: option.splits if_splits prod.splits sum.splits)
  have start: "ctl_Start E req s \<noteq> None" for req s
    by (simp add: ctl_Start_def Let_def reuse la del: not_None_eq split: option.split prod.split sum.split)
  have "ctl_serve E bytes rq st \<noteq> None"
    by (simp add: ctl_serve_def ctl_guarded_def handleStart_def start del: not_None_eq split: route.split option.split)
  then show ?thesis by auto
qed

section \<open>Instances\<close>

text \<open>What the controller knows of an instance: its container's name and its own token, derived from its id.\<close>

definition instances_ok :: "'w ctl_env \<Rightarrow> 'w ctl \<Rightarrow> bool" where
  "instances_ok E st \<longleftrightarrow>
     (\<forall>k i. gm_get (cs_instances st) k = Some i \<longrightarrow> ip_name i = containerName k \<and> ip_authToken i = pluginToken E k)"

lemma ok_remember: "instances_ok E st \<Longrightarrow> n = containerName k \<Longrightarrow> instances_ok E (remember E k n a p h st)"
  by (simp add: instances_ok_def remember_def)

lemma ok_world [simp]: "instances_ok E (st\<lparr>cs_w := w\<rparr>) \<longleftrightarrow> instances_ok E st"
  by (simp add: instances_ok_def)

lemma ok_lock [simp]: "instances_ok E (make_lock k st) \<longleftrightarrow> instances_ok E st"
  by (simp add: instances_ok_def make_lock_def)

lemma ok_settle: "instances_ok E st \<Longrightarrow> instances_ok E (snd (settle E req mf (start_spec E req mf t l) st r))"
  by (auto simp: settle_def start_spec_def Let_def intro!: ok_remember split: prod.splits sum.splits)

lemma ok_Start: "ctl_Start E req st = Some (r, s) \<Longrightarrow> instances_ok E st \<Longrightarrow> instances_ok E s"
  using ok_settle[of E "make_lock (sb_InstanceID req) st" req]
  by (auto simp: ctl_Start_def Let_def split: sum.splits prod.splits option.splits) (metis ok_lock snd_conv)+

lemma ok_lookup: "lookup E k fresh st = (r, s) \<Longrightarrow> instances_ok E st \<Longrightarrow> instances_ok E s"
  by (auto simp: lookup_def Let_def intro!: ok_remember split: if_splits option.splits sum.splits prod.splits)

lemma ok_psend: "proxy_send E rq path body i st = (r, s) \<Longrightarrow> instances_ok E st \<Longrightarrow> instances_ok E s"
  by (auto simp: proxy_send_def split: prod.splits)

lemma ok_proxy: "handleProxy E bytes rq k path st = (r, s) \<Longrightarrow> instances_ok E st \<Longrightarrow> instances_ok E s"
  by (auto simp: handleProxy_def Let_def split: if_splits prod.splits sum.splits dest: ok_lookup ok_psend)

lemma ok_stop: "instances_ok E st \<Longrightarrow> instances_ok E (ctl_Stop E k st)"
  by (auto simp: instances_ok_def ctl_Stop_def split: if_splits)

lemma ok_handlers:
  "handleStart E bytes rq st = Some (r, s) \<Longrightarrow> instances_ok E st \<Longrightarrow> instances_ok E s"
  "handlePrepare E bytes rq st = (r, s) \<Longrightarrow> instances_ok E st \<Longrightarrow> instances_ok E s"
  "handleStop E bytes k st = (r, s) \<Longrightarrow> instances_ok E st \<Longrightarrow> instances_ok E s"
  "handleLogs E bytes rq k st = (r, s) \<Longrightarrow> instances_ok E st \<Longrightarrow> instances_ok E s"
  by (auto simp: handleStart_def split: option.splits dest: ok_Start)
    (auto simp: handlePrepare_def handleStop_def handleLogs_def ok_stop split: if_splits option.splits prod.splits sum.splits)

text \<open>C29: the controller never mixes up instances: for every instance it knows, the container's name and the bearer token it
  will send are those derived from that instance's id; every request keeps this.\<close>
theorem requests_keep_instances_apart:
  assumes "ctl_serve E bytes rq st = Some (r, s)" "instances_ok E st"
  shows "instances_ok E s"
  using assms
  by (auto simp: ctl_serve_def ctl_guarded_def split: if_splits route.splits dest: ok_proxy ok_handlers)

text \<open>A start that fails leaves what was known of the instance, although its container may be gone.\<close>

lemma failed_start_keeps_the_address:
  assumes "ctl_Start E req st = Some (Inl e, s)"
  shows "cs_instances s = cs_instances st"
proof -
  have settle: "settle E req mf spec st r = (Inl e, s) \<Longrightarrow> cs_instances s = cs_instances st" for mf spec st r
    by (auto simp: settle_def split: prod.splits sum.splits)
  have lock: "cs_instances (make_lock k st) = cs_instances st" for k by (simp add: make_lock_def)
  show ?thesis using assms
    by (auto simp: ctl_Start_def Let_def lock split: sum.splits prod.splits option.splits dest!: settle)
qed

section \<open>The token\<close>

text \<open>Requests without the token change nothing.\<close>

lemma requests_need_the_token:
  assumes "\<not> authorized E rq"
  shows "\<exists>r. ctl_serve E bytes rq st = Some (r, st)"
  using assms by (auto simp: ctl_serve_def)

section \<open>Answers\<close>

text \<open>An answer the plugin breaks off is passed on as if it were whole.\<close>

lemma broken_answer_looks_complete:
  assumes "pp_body p = (data, Some e)" "pp_length p \<le> kc_MaxProxyResult (ce_cfg E)"
    "int (length data) \<le> kc_MaxProxyResult (ce_cfg E)"
  shows "proxy_answer E bytes p = Proxied (pp_status p) (pp_contentType p) data"
  using assms by (simp add: proxy_answer_def Let_def)

text \<open>Different environments with the same hash.\<close>

lemma env_hash_collision:
  "env_hash_text d t [(''A'', ''1'' @ [lf] @ ''B=2'')] = env_hash_text d t [(''A'', ''1''), (''B'', ''2'')]"
proof -
  have "sort (gm_keys [(''A'', ''1''), (''B'', ''2'')]) = [''A'', ''B'']" by code_simp
  then show ?thesis by (simp add: env_hash_text_def gm_keys_def gm_get_def)
qed

section \<open>A run\<close>

text \<open>
  A docker that has no containers and does what it is told, and a plugin that is healthy at once; the world counts what
  happened, and is the clock.
\<close>

definition demo_docker :: "nat docker" where
  "demo_docker =
     \<lparr>dk_Self = ''ctl'',
      dk_exec = (\<lambda>a w. (([], if hd a = ''container'' then ''No such container'' else [],
                          if hd a = ''container'' then Some (Sentinel ''exit status 1'') else None), Suc w)),
      dk_exec_all = (\<lambda>a w. (([], None), Suc w)), dk_ctx = (\<lambda>w. None), dk_json = (\<lambda>t. Inl ErrJsonSyntax), dk_tar = (\<lambda>t. None),
      dk_CreateTemp = (\<lambda>w. (Inr ''/tmp/env'', w)), dk_Chmod = (\<lambda>f m w. (None, w)), dk_Close = (\<lambda>f t w. (None, w)),
      dk_RemoveFile = (\<lambda>f w. w), dk_text = (\<lambda>e. []), dk_scrub = (\<lambda>s. s)\<rparr>"

definition demo_config :: ctl_config where
  "demo_config = \<lparr>kc_Token = ''0123456789abcdef'', kc_RunnerDir = [], kc_BuildTimeout = 0, kc_MaxImageBytes = 0, kc_MaxSourceBytes = 0,
     kc_MaxSourceFiles = 0, kc_CPULimit = F_Zero False, kc_MemoryLimit = 0, kc_AllowLocalImages = False, kc_AllowLocalGit = False,
     kc_AllowEgress = False, kc_RequireScan = False, kc_Publish = False, kc_SelfContainer = ''ctl'', kc_ProxyTimeout = 0,
     kc_MaxProxyBody = 0, kc_MaxProxyResult = 0, kc_HealthWait = 0\<rparr>"

text \<open>A container plugin, and a YAML library that reads it from every text.\<close>

definition demo_plugin :: manifest where
  "demo_plugin = demo_manifest\<lparr>mf_Mode := RuntimeContainer, mf_Dockerfile := ''Dockerfile'', mf_Context := ''.'', mf_Port := 8080,
     mf_HealthPath := ''/health'', mf_Egress := EgressNone\<rparr>"

lemma demo_plugin_valid: "validate demo_plugin = []" "applyDefaults demo_plugin = demo_plugin"
  by code_simp+

definition demo_ctl :: "nat ctl_env" where
  "demo_ctl = \<lparr>ce_cfg = demo_config, ce_rt = docker_runtime demo_docker,
     ce_Scan = NoScanner int, ce_yaml = demo_yaml\<lparr>ya_decode := (\<lambda>_. (None, demo_plugin))\<rparr>, ce_marshal = (\<lambda>m. ''kind: Plugin''), ce_sha = (\<lambda>s. ''00''),
     ce_hmac = (\<lambda>k s. s), ce_line = (\<lambda>d. fst d), ce_MkdirTemp = (\<lambda>d w. (Inr ''/tmp/w'', w)), ce_MkdirAll = (\<lambda>d w. (None, w)),
     ce_RemoveAll = (\<lambda>d w. w), ce_git = (\<lambda>d. demo_git), ce_tree = (\<lambda>d w. Dir []), ce_write = (\<lambda>d t w. w),
     ce_get = (\<lambda>u w. (Inr 200, w)), ce_send = (\<lambda>q w. ((Inl (Sentinel ''refused''), []), w)),
     ce_sleep = (\<lambda>n w. (None, w + nat n)), ce_clock = int, ce_ctx = (\<lambda>w. None)\<rparr>"

definition demo_start :: ctl_req where
  "demo_start = \<lparr>cq_method = ''POST'', cq_path = [''v1'', ''instances''], cq_query = [], cq_tail = [],
     cq_auth = ''Bearer 0123456789abcdef'', cq_contentType = ''application/json'', cq_body = [],
     cq_json = Some (JObj [(''instance_id'', JStr ''a''), (''type'', JStr (mf_Type demo_plugin)),
       (''digest'', JStr (''sha256:'' @ replicate 64 (CHR ''a''))), (''manifest'', JStr ''kind: Plugin'')])\<rparr>"

lemma demo_clock: "clock_advances (docker_env demo_docker demo_ctl)"
  by (auto simp: clock_advances_def docker_env_def demo_ctl_def lift2_def)

lemma demo_parsed: "manifest_Parse (demo_yaml\<lparr>ya_decode := (\<lambda>_. (None, demo_plugin))\<rparr>) ''kind: Plugin'' = Inr demo_plugin"
proof -
  have "scanDangerous demo_tree [] = []" by code_simp
  then show ?thesis by (simp add: manifest_Parse_def demo_yaml_def demo_plugin_valid MaxBytes_def)
qed

definition demo_body :: start_body where
  "demo_body = \<lparr>sb_InstanceID = ''a'', sb_Type = ''llm'', sb_Digest = ''sha256:'' @ replicate 64 (CHR ''a''),
     sb_Manifest = ''kind: Plugin'', sb_Env = [], sb_HealthWait = 0\<rparr>"

abbreviation "demo_E \<equiv> docker_env demo_docker demo_ctl"

lemma demo_type: "mf_Type demo_plugin = ''llm''" "mf_Mode demo_plugin = RuntimeContainer" "mf_Egress demo_plugin = EgressNone"
    "mf_CPU demo_plugin = []" "mf_Memory demo_plugin = []" "mf_PIDs demo_plugin = 0" "mf_Tmpfs demo_plugin = []"
  by code_simp+

lemma demo_decoded: "decode_body (\<lambda>_. 1) start_fields no_start (cq_json demo_start) = Some demo_body"
  by (simp add: decode_body_def demo_start_def limit_body_def start_fields_def json_member_def set_string_def no_start_def
      to_lower_def demo_body_def demo_type del: append.simps)

definition demo_bounds :: limits where
  "demo_bounds = \<lparr>lm_cpu = F_Num 1, lm_mem = 512 * 2 ^ 20, lm_pids = 128, lm_tmpfs = 64 * 2 ^ 20\<rparr>"

lemma demo_digest: "rx_match digestRE (''sha256:'' @ replicate 64 (CHR ''a''))"
  by code_simp

lemma demo_checked: "start_checks demo_E demo_body = Inr (demo_plugin, TypeLLM, demo_bounds)"
proof -
  have m: "rx_match instanceIDRE ''a''" by code_simp
  have ty: "ParseType ''llm'' = Inr TypeLLM" by code_simp
  have e: "EgressNone \<noteq> EgressInternet" "RuntimeContainer \<noteq> RuntimeEndpoint" by code_simp+
  have c: "f64_le (F_Zero False) (F_Zero False)" by code_simp
  have "ctl_limits demo_E demo_plugin = Inr demo_bounds"
    by (simp add: ctl_limits_def docker_env_def demo_ctl_def demo_config_def ctl_defaults_def or_default_def c Effective_def
        demo_type demo_bounds_def Let_def)
  moreover have "ctl_parseManifest demo_E ''kind: Plugin'' TypeLLM = Inr demo_plugin"
    by (simp add: ctl_parseManifest_def docker_env_def demo_ctl_def demo_parsed demo_type e)
  ultimately show ?thesis
    using m demo_digest ty e by (simp add: start_checks_def demo_body_def demo_type del: append.simps)
qed

abbreviation "demo_spec \<equiv> start_spec demo_E demo_body demo_plugin TypeLLM demo_bounds"

lemma env_text_ok: "(\<And>k. k \<in> set ks \<Longrightarrow> \<not> env_bad k (case gm_get env k of Some x \<Rightarrow> x | None \<Rightarrow> [])) \<Longrightarrow> \<exists>t. env_text env ks = Inr t"
proof (induction ks)
  case (Cons k ks)
  then obtain t where "env_text env ks = Inr t" by (meson list.set_intros(2))
  then show ?case using Cons.prems[of k] by (simp add: Let_def)
qed simp

lemma number_ok: "0 \<le> i \<Longrightarrow> \<not> list_ex (\<lambda>c. c = lf \<or> c = CHR 0x0D \<or> c = nul) (itoa i)"
  using nat_digits_ok[of "nat i"] by (auto simp: itoa_def list_all_iff list_ex_iff is_digit_def nul_def)

lemma demo_env: "\<exists>t. env_text (rs_Env demo_spec) (sort (gm_keys (rs_Env demo_spec))) = Inr t"
proof (rule env_text_ok)
  fix k assume "k \<in> set (sort (gm_keys (rs_Env demo_spec)))"
  moreover have "rs_Env demo_spec = start_env demo_E demo_body demo_plugin TypeLLM demo_bounds" by (simp add: start_spec_def Let_def)
  moreover have "start_env demo_E demo_body demo_plugin TypeLLM demo_bounds =
      [(''PORT'', itoa 8080), (''PLUGIN_AUTH_TOKEN'', ''plugin-auth:a''), (''OMP_NUM_THREADS'', itoa 1),
       (''OPENBLAS_NUM_THREADS'', itoa 1), (''MKL_NUM_THREADS'', itoa 1)]"
  proof -
    have "f64_int (F_Num 1) = 1" by code_simp
    moreover have "mf_Port demo_plugin = 8080" by (simp add: demo_plugin_def)
    moreover have "RuntimeContainer \<noteq> RuntimePython" by code_simp
    ultimately show ?thesis
      by (simp add: start_env_def Let_def demo_body_def demo_type start_port_def demo_bounds_def thread_names_def put_absent_def
          gm_get_def gm_put_def pluginToken_def docker_env_def demo_ctl_def)
  qed
  ultimately show "\<not> env_bad k (case gm_get (rs_Env demo_spec) k of Some x \<Rightarrow> x | None \<Rightarrow> [])"
    using number_ok[of 8080] number_ok[of 1] by (auto simp: gm_keys_def gm_get_def env_bad_def nul_def)
qed

lemma demo_names:
  "rs_Name demo_spec = ''llmcache-plugin-a''" "rs_Network demo_spec = ''llmcache-plugin-a''" "rs_Publish demo_spec = False" "rs_AttachSelf demo_spec = ''ctl''"
  by (simp_all add: start_spec_def Let_def demo_body_def containerName_def docker_env_def demo_ctl_def demo_config_def ctl_defaults_def)

lemma demo_rt: "ce_rt demo_E = docker_runtime (recorded demo_docker)" "kc_Publish (ce_cfg demo_E) = False" "kc_SelfContainer (ce_cfg demo_E) = ''ctl''"
  by (simp_all add: docker_env_def demo_ctl_def demo_config_def ctl_defaults_def)

lemma ctl_demo_exec:
  "dk_exec (recorded demo_docker) a (l, w) =
     (([], if hd a = ''container'' then ''No such container'' else [], if hd a = ''container'' then Some (Sentinel ''exit status 1'') else None), l @ [a], Suc w)"
  by (simp add: recorded_def demo_docker_def lift2_def)

lemma demo_docker_run: "hd a \<noteq> ''container'' \<Longrightarrow> docker_run (recorded demo_docker) a (l, w) = (([], None), l @ [a], Suc w)"
  by (simp add: docker_run_def ctl_demo_exec)

lemma demo_inspect:
  "rt_Inspect (ce_rt demo_E) (rs_Name demo_spec) (l, w) =
     (Inr None, l @ [[''container'', ''inspect'', ''--format'', ''{{json .}}'', rs_Name demo_spec]], Suc w)"
proof -
  have "rx_match containerNameRE ''llmcache-plugin-a''" by code_simp
  moreover have "str_contains ''No such container'' ''No such''" by code_simp
  ultimately show ?thesis by (simp add: demo_rt docker_runtime_def docker_Inspect_def demo_names ctl_demo_exec)
qed

lemma demo_writes: "writeEnvFile (recorded demo_docker) (rs_Env demo_spec) x = (Inr ''/tmp/env'', x)"
  using demo_env by (cases x) (auto simp: writeEnvFile_def recorded_def demo_docker_def lift2_def)

lemma demo_starts:
  "\<exists>l u. rt_Run (ce_rt demo_E) demo_spec x = (None, l, u) \<and> RunArgs demo_spec ''/tmp/env'' \<in> set l"
proof -
  obtain l w where x: "x = (l, w)" by fastforce
  have h: "hd (network_args demo_spec) \<noteq> ''container''" "hd (RunArgs demo_spec ''/tmp/env'') \<noteq> ''container''"
    by (simp_all add: network_args_def RunArgs_def)
  have n: "run_unless_exists (recorded demo_docker) (network_args demo_spec) (l, w) = (None, l @ [network_args demo_spec], Suc w)"
    by (simp add: run_unless_exists_def demo_docker_run h)
  let ?c = "[''network'', ''connect'', rs_Network demo_spec, rs_AttachSelf demo_spec]"
  have s: "docker_start (recorded demo_docker) demo_spec ''/tmp/env'' (k, v) = (None, k @ [RunArgs demo_spec ''/tmp/env''] @ [?c], Suc (Suc v))" for k v
    by (simp add: docker_start_def demo_docker_run h demo_names run_unless_exists_def)
  have f: "dk_RemoveFile (recorded demo_docker) g (k, v) = (k, v)" for g k v
    by (simp add: recorded_def demo_docker_def lift1_def)
  have net: "rs_Network demo_spec \<noteq> []" by (simp add: demo_names)
  show ?thesis unfolding x
    by (simp add: demo_rt docker_runtime_def docker_Run_def net n demo_writes s f)
qed

lemma demo_wait: "waitHealthy demo_E a p n x = Some (None, x)"
proof -
  have "ce_get demo_E url x = (Inr 200, x)" for url by (simp add: docker_env_def demo_ctl_def lift2_def)
  then show ?thesis unfolding waitHealthy_def by (subst wait_loop.simps) simp
qed

definition demo_state :: "nat rec_world ctl" where
  "demo_state = \<lparr>cs_instances = [], cs_starting = [], cs_w = ([], 0)\<rparr>"

lemma demo_run_serves:
  "\<exists>r s. ctl_serve demo_E (\<lambda>_. 1) demo_start demo_state = Some (r, s) \<and> RunArgs demo_spec ''/tmp/env'' \<in> set (fst (cs_w s))"
proof -
  let ?x = "([[''container'', ''inspect'', ''--format'', ''{{json .}}'', rs_Name demo_spec]], Suc 0)"
  obtain l u where run: "rt_Run (ce_rt demo_E) demo_spec ?x = (None, l, u)" "RunArgs demo_spec ''/tmp/env'' \<in> set l"
    using demo_starts by blast
  have launch: "launch demo_E demo_body demo_plugin demo_spec ?x = Some (Inr (''llmcache-plugin-a:'' @ itoa (rs_Port demo_spec)), l, u)"
    using run by (simp add: launch_def demo_rt address_def demo_wait demo_names Let_def)
  have w: "cs_w demo_state = ([], 0)" by (simp add: demo_state_def)
  have k: "sb_InstanceID demo_body = ''a''" by (simp add: demo_body_def)
  obtain s where start: "ctl_Start demo_E demo_body demo_state = Some (Inr ''a'', s)" "cs_w s = (l, u)"
    using launch demo_inspect[of "[]" 0]
    by (simp add: ctl_Start_def demo_checked try_reuse_def w k settle_def remember_def Let_def)
  have "authorized demo_E demo_start"
    by (simp add: authorized_def demo_start_def docker_env_def demo_ctl_def demo_config_def ctl_defaults_def has_prefix_def)
  moreover have "route_of demo_start = Route_Start" by (simp add: route_of_def demo_start_def Let_def)
  ultimately have "ctl_serve demo_E (\<lambda>_. 1) demo_start demo_state = Some (ctl_ok (\<lambda>_. 1) (JObj [(''id'', JStr ''a''), (''base_url'', JStr [])]), s)"
    using start(1) by (simp add: ctl_serve_def ctl_guarded_def handleStart_def demo_decoded)
  then show ?thesis using start(2) run(2) by auto
qed

theorem every_request_returns_witness:
  "\<exists>r s. ctl_serve demo_E (\<lambda>_. 1) demo_start demo_state = Some (r, s)"
  using every_request_returns[OF demo_clock] .

theorem requests_keep_instances_apart_witness:
  "\<exists>r s. ctl_serve demo_E (\<lambda>_. 1) demo_start demo_state = Some (r, s) \<and> instances_ok demo_E s"
proof -
  obtain r s where run: "ctl_serve demo_E (\<lambda>_. 1) demo_start demo_state = Some (r, s)" using demo_run_serves by blast
  have "instances_ok demo_E demo_state" by (simp add: instances_ok_def demo_state_def)
  from requests_keep_instances_apart[OF run this] run show ?thesis by blast
qed



definition demo_prepare :: prepare_body where
  "demo_prepare = no_prepare\<lparr>pb_Mode := ''image'', pb_Type := ''llm'', pb_Image := ''repo/x'', pb_Manifest := ''kind: Plugin''\<rparr>"

definition demo_image_ctl :: "nat ctl_env" where
  "demo_image_ctl = demo_ctl\<lparr>ce_cfg := ctl_defaults demo_config,
     ce_rt := (docker_runtime demo_docker)\<lparr>rt_PullOrInspect :=
       (\<lambda>i al w. (Inr \<lparr>ii_ID = ''sha256:00'', ii_RepoDigest = ''sha256:01'', ii_Size = 5, ii_Tags = []\<rparr>, w))\<rparr>\<rparr>"


section \<open>What is sent is what arrives\<close>

text \<open>A Go map is visited in any order; one in the order of its keys.\<close>

definition in_order :: "(string, 'a) gomap \<Rightarrow> bool" where
  "in_order m \<longleftrightarrow> gm_wf m \<and> sort (gm_keys m) = gm_keys m"

lemma setter_string: "set_string get put (JStr v) x = Inr (put v x)"
  by (simp add: set_string_def)

lemma strict_append:
  "json_strict fs (JObj (a @ b)) x = res_bind (json_strict fs (JObj a) x) (json_strict fs (JObj b))"
  by (induction a arbitrary: x) (auto simp: res_bind_def split: option.splits sum.splits)

lemma gm_put_new: "k \<notin> set (gm_keys m) \<Longrightarrow> gm_put k v m = m @ [(k, v)]"
  by (induction m) (auto simp: gm_put_def gm_keys_def)

lemma labels_read:
  "gm_wf (old @ m) \<Longrightarrow>
     foldl (\<lambda>acc (k, x). res_bind acc (\<lambda>m. res_bind (json_string x []) (\<lambda>v. Inr (gm_put k v m)))) (Inr old) (map (\<lambda>(k, v). (k, JStr v)) m)
       = Inr (old @ m)"
proof (induction m arbitrary: old)
  case (Cons e m)
  obtain k v where e: "e = (k, v)" by fastforce
  have "k \<notin> set (gm_keys old)" using Cons.prems by (auto simp: gm_wf_def gm_keys_def e)
  then have "gm_put k v old = old @ [(k, v)]" by (rule gm_put_new)
  then show ?case using Cons.IH[of "old @ [(k, v)]"] Cons.prems by (simp add: e)
qed simp

lemma env_json_order: "in_order m \<Longrightarrow> env_json m = JObj (map (\<lambda>(k, v). (k, JStr v)) m)"
proof -
  assume o: "in_order m"
  have "map (\<lambda>k. (k, JStr (case gm_get m k of Some v \<Rightarrow> v | None \<Rightarrow> []))) (map fst m) = map (\<lambda>(k, v). (k, JStr v)) m"
    using o by (auto simp: in_order_def gm_get_def gm_wf_def)
  then show ?thesis using o by (simp add: env_json_def in_order_def gm_keys_def)
qed

lemma env_arrives: "in_order m \<Longrightarrow> json_labels (env_json m) [] = Inr m"
  using labels_read[of "[]" m] by (simp add: env_json_order json_labels_def in_order_def)

lemma start_members:
  "json_member start_fields ''instance_id'' = Some (set_string sb_InstanceID (\<lambda>v x. x\<lparr>sb_InstanceID := v\<rparr>))"
  "json_member start_fields ''type'' = Some (set_string sb_Type (\<lambda>v x. x\<lparr>sb_Type := v\<rparr>))"
  "json_member start_fields ''digest'' = Some (set_string sb_Digest (\<lambda>v x. x\<lparr>sb_Digest := v\<rparr>))"
  "json_member start_fields ''manifest'' = Some (set_string sb_Manifest (\<lambda>v x. x\<lparr>sb_Manifest := v\<rparr>))"
  "json_member start_fields ''env'' = Some (\<lambda>j x. res_bind (json_labels j (sb_Env x)) (\<lambda>v. Inr (x\<lparr>sb_Env := v\<rparr>)))"
  "json_member start_fields ''health_wait_ns'' = Some (\<lambda>j x. res_bind (json_int j (sb_HealthWait x)) (\<lambda>v. Inr (x\<lparr>sb_HealthWait := v\<rparr>)))"
  by (simp_all add: json_member_def start_fields_def)

lemma prepare_members:
  "json_member prepare_fields ''mode'' = Some (set_string pb_Mode (\<lambda>v x. x\<lparr>pb_Mode := v\<rparr>))"
  "json_member prepare_fields ''type'' = Some (set_string pb_Type (\<lambda>v x. x\<lparr>pb_Type := v\<rparr>))"
  "json_member prepare_fields ''image'' = Some (set_string pb_Image (\<lambda>v x. x\<lparr>pb_Image := v\<rparr>))"
  "json_member prepare_fields ''repo'' = Some (set_string pb_Repo (\<lambda>v x. x\<lparr>pb_Repo := v\<rparr>))"
  "json_member prepare_fields ''revision'' = Some (set_string pb_Revision (\<lambda>v x. x\<lparr>pb_Revision := v\<rparr>))"
  "json_member prepare_fields ''manifest'' = Some (set_string pb_Manifest (\<lambda>v x. x\<lparr>pb_Manifest := v\<rparr>))"
  "json_member prepare_fields ''dry_run'' = Some (\<lambda>j x. res_bind (json_bool j (pb_DryRun x)) (\<lambda>v. Inr (x\<lparr>pb_DryRun := v\<rparr>)))"
  "json_member prepare_fields ''plugin_id'' = Some (set_string pb_PluginID (\<lambda>v x. x\<lparr>pb_PluginID := v\<rparr>))"
  by (simp_all add: json_member_def prepare_fields_def)

text \<open>What the manager asks of the controller is what the controller decodes: a request to prepare and a request to start,
  written by the client as JSON without empty members, read back as the same requests.\<close>
theorem requests_arrive:
  assumes "in_order (sq_Env q)" "int64_min \<le> sq_HealthWait q" "sq_HealthWait q \<le> int64_max"
  shows "json_strict start_fields (start_json q) no_start =
       Inr \<lparr>sb_InstanceID = sq_InstanceID q, sb_Type = type_name (sq_Type q), sb_Digest = sq_Digest q, sb_Manifest = sq_Manifest q,
            sb_Env = sq_Env q, sb_HealthWait = sq_HealthWait q\<rparr> \<and>
     json_strict prepare_fields (prepare_json p) no_prepare =
       Inr \<lparr>pb_Mode = mode_name (pq_Mode p), pb_Type = type_name (pq_Type p), pb_Image = pq_Image p, pb_Repo = pq_Repo p,
            pb_Revision = pq_Revision p, pb_Manifest = pq_Manifest p, pb_DryRun = pq_DryRun p, pb_PluginID = pq_PluginID p\<rparr>"
  using assms env_arrives[OF assms(1)]
  by (simp add: start_json_def prepare_json_def str_member_def int_member_def strict_append start_members prepare_members setter_string
      no_start_def no_prepare_def)

theorem requests_arrive_witness:
  "json_strict start_fields (start_json \<lparr>sq_InstanceID = ''a'', sq_Type = TypeLLM, sq_Digest = ''d'', sq_Manifest = ''m'',
      sq_Env = [(''A'', ''1''), (''B'', [])], sq_HealthWait = 7\<rparr>) no_start =
    Inr \<lparr>sb_InstanceID = ''a'', sb_Type = ''llm'', sb_Digest = ''d'', sb_Manifest = ''m'', sb_Env = [(''A'', ''1''), (''B'', [])], sb_HealthWait = 7\<rparr>"
proof -
  have "in_order [(''A'', ''1''), (''B'', [])]" by code_simp
  then show ?thesis
    using requests_arrive[of "\<lparr>sq_InstanceID = ''a'', sq_Type = TypeLLM, sq_Digest = ''d'', sq_Manifest = ''m'',
      sq_Env = [(''A'', ''1''), (''B'', [])], sq_HealthWait = 7\<rparr>"] by (simp add: int64_min_def int64_max_def)
qed

end
