(* ===== verification/Startup.thy ===== *)
theory Startup
  imports Go_Text
begin

text \<open>
  Waiting for dependencies at startup (\<open>internal/orchestrator/startup.go\<close>). An attempt returns the text
  of its error, if any, and moves the world; the clock and \<open>time.Sleep\<close> are operations of the world.
  The retry loop has no bound in its code; it is shown to end when sleeping makes time pass.
\<close>

record 'w world_ops =
  wo_now :: "'w \<Rightarrow> int"
  wo_sleep :: "int \<Rightarrow> 'w \<Rightarrow> 'w"

definition transient_marks :: "string list" where
  "transient_marks = [''connection refused'', ''no such host'', ''i/o timeout'', ''ping failed'',
     ''unreachable'', ''connection reset'', ''eof'']"

definition isTransient :: "string \<Rightarrow> bool" where
  "isTransient msg \<longleftrightarrow> list_ex (\<lambda>s. str_contains (to_lower msg) s) transient_marks"

partial_function (option) retry_loop ::
    "'w world_ops \<Rightarrow> int \<Rightarrow> int \<Rightarrow> ('w \<Rightarrow> string option \<times> 'w) \<Rightarrow> 'w \<Rightarrow> (string option \<times> 'w) option" where
  "retry_loop W deadline interval fn w =
     (let (err, w1) = fn w in
      case err of
        None \<Rightarrow> Some (None, w1)
      | Some e \<Rightarrow>
          if \<not> isTransient e \<or> deadline < wo_now W w1 then Some (err, w1)
          else retry_loop W deadline interval fn (wo_sleep W interval w1))"

declare retry_loop.simps [code]

definition RetryTransient ::
    "'w world_ops \<Rightarrow> int \<Rightarrow> int \<Rightarrow> ('w \<Rightarrow> string option \<times> 'w) \<Rightarrow> 'w \<Rightarrow> (string option \<times> 'w) option" where
  "RetryTransient W wait interval fn w = retry_loop W (wo_now W w + wait) interval fn w"

text \<open>Time passes: sleeping takes at least as long as asked, and an attempt does not turn the clock back.\<close>

definition time_passes :: "'w world_ops \<Rightarrow> ('w \<Rightarrow> string option \<times> 'w) \<Rightarrow> bool" where
  "time_passes W fn \<longleftrightarrow> (\<forall>d w. wo_now W w + d \<le> wo_now W (wo_sleep W d w)) \<and>
     (\<forall>w. wo_now W w \<le> wo_now W (snd (fn w)))"

lemma retry_loop_ends:
  assumes tp: "time_passes W fn" and pos: "0 < interval"
  shows "\<exists>err t. retry_loop W deadline interval fn w = Some (err, t) \<and>
    (case err of None \<Rightarrow> True | Some e \<Rightarrow> \<not> isTransient e \<or> deadline < wo_now W t)"
proof (induction "nat (deadline + 1 - wo_now W w)" arbitrary: w rule: less_induct)
  case less
  obtain err w1 where f: "fn w = (err, w1)" by fastforce
  show ?case
  proof (cases "\<exists>e. err = Some e \<and> isTransient e \<and> \<not> deadline < wo_now W w1")
    case False
    then show ?thesis using f by (cases err) (auto simp: retry_loop.simps [of W deadline interval fn w])
  next
    case True
    then have go: "retry_loop W deadline interval fn w = retry_loop W deadline interval fn (wo_sleep W interval w1)"
      using f by (auto simp: retry_loop.simps [of W deadline interval fn w])
    have "wo_now W w \<le> wo_now W w1" using tp f unfolding time_passes_def by (metis snd_conv)
    moreover have "wo_now W w1 + interval \<le> wo_now W (wo_sleep W interval w1)"
      using tp by (simp add: time_passes_def)
    ultimately have "nat (deadline + 1 - wo_now W (wo_sleep W interval w1)) < nat (deadline + 1 - wo_now W w)"
      using True pos by auto
    from less.hyps [OF this] show ?thesis unfolding go .
  qed
qed

text \<open>Startup waiting ends, and it gives up only on an error that is no outage or after the deadline: a
  success ends it at once, and a configuration error is reported without another attempt.\<close>

theorem retry_transient_ends:
  assumes "time_passes W fn" and "0 < interval"
  shows "\<exists>err t. RetryTransient W wait interval fn w = Some (err, t) \<and>
    (case err of None \<Rightarrow> True | Some e \<Rightarrow> \<not> isTransient e \<or> wo_now W w + wait < wo_now W t)"
  unfolding RetryTransient_def by (rule retry_loop_ends [OF assms])

lemma retry_transient_ends_witness:
  "\<exists>err t. RetryTransient \<lparr>wo_now = (\<lambda>w. w), wo_sleep = (\<lambda>d w. w + d)\<rparr> 60 2
     (\<lambda>w. (if w < 5 then Some ''dial: Connection Refused'' else None, w)) 0 = Some (err, t) \<and> err = None \<and> t = 6"
proof -
  let ?W = "\<lparr>wo_now = (\<lambda>w. w), wo_sleep = (\<lambda>d w. w + d)\<rparr> :: int world_ops"
  let ?fn = "\<lambda>w::int. (if w < 5 then Some ''dial: Connection Refused'' else None, w)"
  have "time_passes ?W ?fn" by (simp add: time_passes_def)
  then obtain err t where "RetryTransient ?W 60 2 ?fn 0 = Some (err, t)"
    using retry_transient_ends [of ?W ?fn 2 60 0] by auto
  moreover have "RetryTransient ?W 60 2 ?fn 0 = Some (None, 6)" by code_simp
  ultimately show ?thesis by simp
qed

end
