(* ===== verification/Dynamic_Queue.thy ===== *)
theory Dynamic_Queue
  imports Ports Startup
begin

text \<open>
  The swappable queue (\<open>internal/plugins/dynamic/queue.go\<close>). Queues are told apart by their identity, a
  number. A worker is \<open>Running\<close>, told to stop (\<open>Stopping\<close>, its context is canceled but \<open>Run\<close> has not
  returned) or \<open>Finished\<close> (its \<open>done\<close> channel is closed). The operations under the mutex are functions;
  what happens between them (an \<open>Enqueue\<close> that has loaded its queue, a worker that leases a job or
  returns) is a step of \<open>dq_step\<close>, so that every interleaving is a sequence of steps.
\<close>

section \<open>State and operations\<close>

datatype worker = Running | Stopping | Finished

record dyn_queue =
  dq_cur :: nat
  dq_started :: bool    \<comment> \<open>\<open>Run\<close> has set the handler\<close>
  dq_workers :: "(nat, worker) gomap"

definition NewQueue :: "nat \<Rightarrow> dyn_queue" where
  "NewQueue q = \<lparr>dq_cur = q, dq_started = False, dq_workers = []\<rparr>"

definition Current :: "dyn_queue \<Rightarrow> nat" where
  "Current d = dq_cur d"

definition startLocked :: "nat \<Rightarrow> dyn_queue \<Rightarrow> dyn_queue" where
  "startLocked q d =
     (if \<not> dq_started d then d
      else case gm_get (dq_workers d) q of
             Some Running \<Rightarrow> d
           | Some Stopping \<Rightarrow> d
           | _ \<Rightarrow> d\<lparr>dq_workers := gm_put q Running (dq_workers d)\<rparr>)"

definition dq_Run :: "dyn_queue \<Rightarrow> dyn_queue" where
  "dq_Run d = startLocked (dq_cur d) (d\<lparr>dq_started := True\<rparr>)"

definition dq_Swap :: "nat \<Rightarrow> dyn_queue \<Rightarrow> nat \<times> dyn_queue" where
  "dq_Swap next_q d = (dq_cur d, startLocked next_q (d\<lparr>dq_cur := next_q\<rparr>))"

text \<open>The part of \<open>StopWorker\<close> before it waits.\<close>

definition cancelWorker :: "nat \<Rightarrow> dyn_queue \<Rightarrow> dyn_queue" where
  "cancelWorker q d =
     (case gm_get (dq_workers d) q of
        Some Running \<Rightarrow> d\<lparr>dq_workers := gm_put q Stopping (dq_workers d)\<rparr>
      | _ \<Rightarrow> d)"

definition worker_exit :: "nat \<Rightarrow> dyn_queue \<Rightarrow> dyn_queue" where
  "worker_exit q d = d\<lparr>dq_workers := gm_put q Finished (dq_workers d)\<rparr>"

text \<open>
  \<open>StopWorker\<close>: \<open>in_time\<close> is whether the worker returns before the wait is over. The result is what it
  reports.
\<close>

definition StopWorker :: "nat \<Rightarrow> bool \<Rightarrow> dyn_queue \<Rightarrow> bool \<times> dyn_queue" where
  "StopWorker q in_time d =
     (case gm_get (dq_workers d) q of
        None \<Rightarrow> (True, d)
      | Some Finished \<Rightarrow> (True, d)
      | Some _ \<Rightarrow> (in_time, if in_time then worker_exit q (cancelWorker q d) else cancelWorker q d))"

section \<open>Draining\<close>

text \<open>
  The loop of \<open>Drain\<close>: \<open>depth\<close> is the queue's \<open>Depth\<close> when it can count, \<open>ended\<close> whether the context
  has ended. Sleeping is 200 ms. The result is \<open>remaining\<close>.
\<close>

partial_function (option) drain_loop ::
    "'w world_ops \<Rightarrow> ('w \<Rightarrow> int res \<times> 'w) option \<Rightarrow> ('w \<Rightarrow> bool) \<Rightarrow> int \<Rightarrow> int \<Rightarrow> 'w \<Rightarrow> (int \<times> 'w) option" where
  "drain_loop W depth ended deadline remaining w =
     (let (rem1, drained, w1) =
        (case depth of
           None \<Rightarrow> (remaining, False, w)
         | Some f \<Rightarrow> (case f w of (Inr n, w1) \<Rightarrow> (n, n = 0, w1) | (Inl _, w1) \<Rightarrow> (remaining, False, w1)))
      in if drained then Some (rem1, w1)
         else if deadline < wo_now W w1 \<or> ended w1 then Some (rem1, w1)
         else drain_loop W depth ended deadline rem1 (wo_sleep W 200000000 w1))"

declare drain_loop.simps [code]

definition dq_Drain ::
    "'w world_ops \<Rightarrow> ('w \<Rightarrow> int res \<times> 'w) option \<Rightarrow> ('w \<Rightarrow> bool) \<Rightarrow> int \<Rightarrow> 'w \<Rightarrow> (int \<times> 'w) option" where
  "dq_Drain W depth ended window w = drain_loop W depth ended (wo_now W w + window) (- 1) w"

definition depth_keeps_time :: "'w world_ops \<Rightarrow> ('w \<Rightarrow> int res \<times> 'w) option \<Rightarrow> bool" where
  "depth_keeps_time W depth \<longleftrightarrow> (\<forall>d w. wo_now W w + d \<le> wo_now W (wo_sleep W d w)) \<and>
     (\<forall>f w. depth = Some f \<longrightarrow> wo_now W w \<le> wo_now W (snd (f w)))"

lemma depth_step:
  assumes tp: "depth_keeps_time W depth" and rem: "remaining = - 1 \<or> remaining \<noteq> 0"
    and step: "(case depth of
           None \<Rightarrow> (remaining, False, w)
         | Some f \<Rightarrow> (case f w of (Inr n, w1) \<Rightarrow> (n, n = 0, w1) | (Inl _, w1) \<Rightarrow> (remaining, False, w1))) = (rem1, drained, w1)"
  shows "wo_now W w \<le> wo_now W w1 \<and> (drained \<longleftrightarrow> rem1 = 0)"
proof (cases depth)
  case (Some f)
  obtain x w2 where f: "f w = (x, w2)" by fastforce
  have "wo_now W w \<le> wo_now W (snd (f w))" using tp Some unfolding depth_keeps_time_def by blast
  then show ?thesis using step Some f rem by (cases x) auto
qed (use step rem in auto)

lemma drain_loop_ends:
  assumes tp: "depth_keeps_time W depth" and rem: "remaining = - 1 \<or> remaining \<noteq> 0"
  shows "\<exists>n t. drain_loop W depth ended deadline remaining w = Some (n, t) \<and>
    (n = 0 \<or> deadline < wo_now W t \<or> ended t)"
  using rem
proof (induction "nat (deadline + 1 - wo_now W w)" arbitrary: w remaining rule: less_induct)
  case less
  obtain rem1 drained w1 where step: "(case depth of
           None \<Rightarrow> (remaining, False, w)
         | Some f \<Rightarrow> (case f w of (Inr n, w1) \<Rightarrow> (n, n = 0, w1) | (Inl _, w1) \<Rightarrow> (remaining, False, w1))) = (rem1, drained, w1)"
    by (rule prod_cases3)
  have now: "wo_now W w \<le> wo_now W w1" and e: "drained \<longleftrightarrow> rem1 = 0"
    using depth_step [OF tp less.prems step] by blast+
  note unfold = drain_loop.simps [of W depth ended deadline remaining w, unfolded step Let_def]
  show ?case
  proof (cases "drained \<or> deadline < wo_now W w1 \<or> ended w1")
    case True
    then show ?thesis using unfold e by auto
  next
    case False
    have "wo_now W w1 + 200000000 \<le> wo_now W (wo_sleep W 200000000 w1)"
      using tp unfolding depth_keeps_time_def by blast
    then have "nat (deadline + 1 - wo_now W (wo_sleep W 200000000 w1)) < nat (deadline + 1 - wo_now W w)"
      using False now by auto
    from less.hyps [OF this, of rem1] show ?thesis using False e unfold by simp
  qed
qed

section \<open>Interleavings\<close>

record dq_world =
  dw_q :: dyn_queue
  dw_jobs :: "nat \<Rightarrow> Job list"          \<comment> \<open>the jobs stored in each queue\<close>
  dw_enq :: "(nat \<times> Job) list"          \<comment> \<open>calls of \<open>Enqueue\<close> that have loaded their queue\<close>
  dw_handled :: "Job list"

inductive dq_step :: "dq_world \<Rightarrow> dq_world \<Rightarrow> bool" where
  step_load: "dq_step w (w\<lparr>dw_enq := dw_enq w @ [(Current (dw_q w), job)]\<rparr>)"
| step_land: "dw_enq w = xs @ (q, job) # ys \<Longrightarrow>
    dq_step w (w\<lparr>dw_enq := xs @ ys, dw_jobs := (dw_jobs w)(q := dw_jobs w q @ [job])\<rparr>)"
| step_cancel: "dq_step w (w\<lparr>dw_q := cancelWorker q (dw_q w)\<rparr>)"
| step_exit: "gm_get (dq_workers (dw_q w)) q = Some Stopping \<Longrightarrow> dq_step w (w\<lparr>dw_q := worker_exit q (dw_q w)\<rparr>)"
| step_work: "gm_get (dq_workers (dw_q w)) q = Some Running \<Longrightarrow> dw_jobs w q = job # js \<Longrightarrow>
    dq_step w (w\<lparr>dw_jobs := (dw_jobs w)(q := js), dw_handled := dw_handled w @ [job]\<rparr>)"

inductive dq_steps :: "dq_world \<Rightarrow> dq_world \<Rightarrow> bool" where
  steps_none: "dq_steps w w"
| steps_more: "dq_step u v \<Longrightarrow> dq_steps v w \<Longrightarrow> dq_steps u w"

definition world_swap :: "nat \<Rightarrow> dq_world \<Rightarrow> dq_world" where
  "world_swap q w = w\<lparr>dw_q := snd (dq_Swap q (dw_q w))\<rparr>"

text \<open>\<open>Swap\<close> aside, no step gives a queue a worker it does not have.\<close>

lemma step_unserved:
  assumes "dq_step u v" and "gm_get (dq_workers (dw_q u)) q \<noteq> Some Running"
  shows "gm_get (dq_workers (dw_q v)) q \<noteq> Some Running" and "\<exists>more. dw_jobs v q = dw_jobs u q @ more"
    and "Current (dw_q v) = Current (dw_q u)"
  using assms
  by (cases rule: dq_step.cases;
      force simp: cancelWorker_def worker_exit_def Current_def split: option.splits worker.splits if_splits)+

lemma steps_unserved:
  "dq_steps u v \<Longrightarrow> gm_get (dq_workers (dw_q u)) q \<noteq> Some Running \<Longrightarrow>
   gm_get (dq_workers (dw_q v)) q \<noteq> Some Running \<and> (\<exists>more. dw_jobs v q = dw_jobs u q @ more) \<and>
   Current (dw_q v) = Current (dw_q u)"
proof (induction rule: dq_steps.induct)
  case (steps_more u v w)
  from step_unserved [OF steps_more(1,4)] steps_more.IH show ?case by (metis append.assoc)
qed auto

lemma Current_simps [simp]: "Current (snd (dq_Swap q d)) = q" "Current (worker_exit q d) = Current d"
  by (simp_all add: dq_Swap_def startLocked_def Current_def worker_exit_def split: option.splits worker.splits)

lemma swap_current: "Current (dw_q (world_swap q w)) = q"
  by (simp add: world_swap_def)

text \<open>A swap serves its queue, except when the worker it had before is still being stopped.\<close>

lemma swap_serves:
  assumes "dq_started (dw_q w)" and "gm_get (dq_workers (dw_q w)) q \<noteq> Some Stopping"
  shows "gm_get (dq_workers (dw_q (world_swap q w))) q = Some Running"
  using assms by (auto simp: world_swap_def dq_Swap_def startLocked_def split: option.splits worker.splits)

text \<open>Swapping back to a queue whose worker is being stopped leaves the current queue without a worker.
  \<open>startLocked\<close> takes the canceled worker for a running one and starts none; when that worker then returns,
  no step other than another swap makes the queue consumed again: every job in it stays, and every job
  enqueued from then on is added behind it.\<close>
theorem swap_back_leaves_queue_unserved:
  assumes "gm_get (dq_workers (dw_q w)) q = Some Stopping"
    and "dq_steps (world_swap q w) u"
  shows "Current (dw_q u) = q \<and> gm_get (dq_workers (dw_q u)) q \<noteq> Some Running \<and>
    (\<exists>more. dw_jobs u q = dw_jobs w q @ more)"
proof -
  let ?v = "world_swap q w"
  have "dq_workers (dw_q ?v) = dq_workers (dw_q w)" and jobs: "dw_jobs ?v = dw_jobs w"
    using assms(1) by (simp_all add: world_swap_def dq_Swap_def startLocked_def)
  then have "gm_get (dq_workers (dw_q ?v)) q \<noteq> Some Running" using assms(1) by simp
  from steps_unserved [OF assms(2) this] show ?thesis using swap_current [of q w] jobs by simp
qed

text \<open>Queue 1 is active, its worker told to stop by a drain, 2 is current; then the switch is rolled back.\<close>

definition demo_world :: dq_world where
  "demo_world =
     \<lparr>dw_q = cancelWorker 1 (snd (dq_Swap 2 (dq_Run (NewQueue 1)))), dw_jobs = (\<lambda>_. []), dw_enq = [], dw_handled = []\<rparr>"

theorem swap_back_leaves_queue_unserved_witness:
  "\<exists>u job. dq_steps (world_swap 1 demo_world) u \<and> Current (dw_q u) = 1 \<and> dw_jobs u 1 = [job] \<and>
     gm_get (dq_workers (dw_q u)) 1 = Some Finished \<and> gm_get (dq_workers (dw_q u)) 1 \<noteq> Some Running"
proof -
  let ?job = "\<lparr>j_Prompt = ''p'', j_Reply = ''r'', j_Vector = []\<rparr>"
  let ?v = "world_swap 1 demo_world"
  let ?v1 = "?v\<lparr>dw_q := worker_exit 1 (dw_q ?v)\<rparr>"
  let ?v2 = "?v1\<lparr>dw_enq := dw_enq ?v1 @ [(Current (dw_q ?v1), ?job)]\<rparr>"
  let ?v3 = "?v2\<lparr>dw_enq := [] @ [], dw_jobs := (dw_jobs ?v2)(1 := dw_jobs ?v2 1 @ [?job])\<rparr>"
  have stopping: "gm_get (dq_workers (dw_q demo_world)) 1 = Some Stopping" by code_simp
  have cur: "Current (dw_q ?v1) = 1" by code_simp
  have "dq_step ?v ?v1" by (rule step_exit) code_simp
  moreover have "dq_step ?v1 ?v2" by (rule step_load)
  moreover have "dq_step ?v2 ?v3"
    by (rule step_land [of _ "[]" 1 ?job "[]"]) (simp add: cur demo_world_def world_swap_def del: One_nat_def)
  ultimately have steps: "dq_steps ?v ?v3" by (meson dq_steps.intros)
  have "gm_get (dq_workers (dw_q ?v3)) 1 = Some Finished" by (simp add: worker_exit_def)
  moreover have "dw_jobs ?v3 1 = [?job]" by (simp add: demo_world_def world_swap_def)
  ultimately show ?thesis
    using swap_back_leaves_queue_unserved [OF stopping steps] steps by blast
qed

end
