(* ===== verification/Guard.thy ===== *)
theory Guard
  imports Go_Text
begin

text \<open>
  The guard in front of a public orchestrator (\<open>internal/orchestrator/guard.go\<close>): the administrator's
  token on \<open>/flush\<close> and \<open>/policy\<close>, and the fixed-window rate limiter on \<open>/query\<close>. Times are nanoseconds.
  The limiter is compared with a per-key reference that never prunes.
\<close>

section \<open>The rate limiter\<close>

record bucket =
  bk_start :: int
  bk_count :: int

record rateLimiter =
  rl_limit :: int
  rl_window :: int
  rl_buckets :: "(string, bucket) gomap"

definition newRateLimiter :: "int \<Rightarrow> int \<Rightarrow> rateLimiter" where
  "newRateLimiter limit window = \<lparr>rl_limit = limit, rl_window = window, rl_buckets = []\<rparr>"

definition rl_prune :: "int \<Rightarrow> rateLimiter \<Rightarrow> rateLimiter" where
  "rl_prune now l =
     (if 10000 < gm_len (rl_buckets l)
      then l\<lparr>rl_buckets := filter (\<lambda>(_, b). \<not> rl_window l \<le> now - bk_start b) (rl_buckets l)\<rparr> else l)"

definition allow :: "int \<Rightarrow> string \<Rightarrow> rateLimiter \<Rightarrow> bool \<times> rateLimiter" where
  "allow now key l0 =
     (let l = rl_prune now l0 in
      case gm_get (rl_buckets l) key of
        None \<Rightarrow> (True, l\<lparr>rl_buckets := gm_put key \<lparr>bk_start = now, bk_count = 1\<rparr> (rl_buckets l)\<rparr>)
      | Some b \<Rightarrow>
          if rl_window l \<le> now - bk_start b
          then (True, l\<lparr>rl_buckets := gm_put key \<lparr>bk_start = now, bk_count = 1\<rparr> (rl_buckets l)\<rparr>)
          else if rl_limit l \<le> bk_count b then (False, l)
          else (True, l\<lparr>rl_buckets := gm_put key (b\<lparr>bk_count := bk_count b + 1\<rparr>) (rl_buckets l)\<rparr>))"

section \<open>The handler\<close>

record guard =
  gd_adminToken :: string
  gd_limiter :: "rateLimiter option"
  gd_trustProxy :: bool

record guard_req =
  gr_method :: string
  gr_path :: string
  gr_authorization :: string
  gr_forwardedFor :: string
  gr_remoteAddr :: string

datatype guard_reply = Passed_on | Refused_with int string

definition minute :: int where "minute = 60 * 10 ^ 9"

text \<open>\<open>None\<close>: the handler is used without a guard.\<close>

definition newGuard :: "string \<Rightarrow> int \<Rightarrow> bool \<Rightarrow> guard option" where
  "newGuard adminToken ratePerMin trustProxy =
     (if adminToken = [] \<and> ratePerMin \<le> 0 then None
      else Some \<lparr>gd_adminToken = adminToken,
                 gd_limiter = (if 0 < ratePerMin then Some (newRateLimiter ratePerMin minute) else None),
                 gd_trustProxy = trustProxy\<rparr>)"

text \<open>\<open>net.SplitHostPort\<close>, the host part.\<close>

definition split_host :: "string \<Rightarrow> string option" where
  "split_host hp =
     (if CHR '':'' \<notin> set hp then None
      else let port = rev (takeWhile (\<lambda>c. c \<noteq> CHR '':'') (rev hp));
               before = take (length hp - length port - 1) hp
           in if hd hp = CHR ''['' then
                (let host = takeWhile (\<lambda>c. c \<noteq> CHR '']'') (tl hp)
                 in if before = ''['' @ host @ '']'' \<and> CHR ''['' \<notin> set (host @ port) \<and> CHR '']'' \<notin> set port
                    then Some host else None)
              else if CHR '':'' \<in> set before \<or> CHR ''['' \<in> set hp \<or> CHR '']'' \<in> set hp then None
              else Some before)"

definition validToken :: "guard \<Rightarrow> string \<Rightarrow> bool" where
  "validToken g header = (has_prefix header ''Bearer '' \<and> drop (length ''Bearer '') header = gd_adminToken g)"

definition clientIP :: "guard \<Rightarrow> guard_req \<Rightarrow> string" where
  "clientIP g r =
     (let direct = (case split_host (gr_remoteAddr r) of None \<Rightarrow> gr_remoteAddr r | Some host \<Rightarrow> host);
          first = (case str_cut (gr_forwardedFor r) '','' of None \<Rightarrow> gr_forwardedFor r | Some (a, _) \<Rightarrow> a)
      in if gd_trustProxy g \<and> gr_forwardedFor r \<noteq> [] \<and> trim_space first \<noteq> [] then trim_space first
         else direct)"

definition ServeHTTP :: "int \<Rightarrow> guard_req \<Rightarrow> guard \<Rightarrow> guard_reply \<times> guard" where
  "ServeHTTP now r g =
     (if gd_adminToken g \<noteq> [] \<and> gr_method r = ''POST'' \<and> gr_path r \<in> {''/flush'', ''/policy''} \<and>
         \<not> validToken g (gr_authorization r)
      then (Refused_with 401 ''admin token required'', g)
      else if gr_method r = ''POST'' \<and> gr_path r = ''/query'' then
        (case gd_limiter g of
           None \<Rightarrow> (Passed_on, g)
         | Some l \<Rightarrow>
             (case allow now (clientIP g r) l of
                (True, l') \<Rightarrow> (Passed_on, g\<lparr>gd_limiter := Some l'\<rparr>)
              | (False, l') \<Rightarrow> (Refused_with 429 ''rate limit exceeded, try again shortly'', g\<lparr>gd_limiter := Some l'\<rparr>)))
      else (Passed_on, g))"

section \<open>Reference: one counter per key\<close>

fun ref_allow :: "int \<Rightarrow> int \<Rightarrow> int \<Rightarrow> (int \<times> int) option \<Rightarrow> bool \<times> (int \<times> int) option" where
  "ref_allow limit window now None = (True, Some (now, 1))"
| "ref_allow limit window now (Some (start, n)) =
     (if window \<le> now - start then (True, Some (now, 1))
      else if limit \<le> n then (False, Some (start, n))
      else (True, Some (start, n + 1)))"

fun ref_run :: "int \<Rightarrow> int \<Rightarrow> int list \<Rightarrow> (int \<times> int) option \<Rightarrow> (int \<times> bool) list" where
  "ref_run limit window [] b = []"
| "ref_run limit window (t # ts) b =
     (let (ok, b') = ref_allow limit window t b in (t, ok) # ref_run limit window ts b')"

text \<open>The limiter on a run of requests, each a time and a key.\<close>

fun limiter_run :: "(int \<times> string) list \<Rightarrow> rateLimiter \<Rightarrow> (int \<times> string \<times> bool) list" where
  "limiter_run [] l = []"
| "limiter_run ((t, k) # rs) l = (let (ok, l') = allow t k l in (t, k, ok) # limiter_run rs l')"

definition answers_to :: "string \<Rightarrow> (int \<times> string \<times> bool) list \<Rightarrow> (int \<times> bool) list" where
  "answers_to k xs = map (\<lambda>(t, _, ok). (t, ok)) (filter (\<lambda>(_, j, _). j = k) xs)"

text \<open>A key's bucket agrees with the reference, or was pruned after it expired.\<close>

definition bucket_agrees :: "int \<Rightarrow> string \<Rightarrow> rateLimiter \<Rightarrow> (int \<times> int) option \<Rightarrow> bool" where
  "bucket_agrees now k l b \<longleftrightarrow> gm_wf (rl_buckets l) \<and>
     (case gm_get (rl_buckets l) k of
        Some x \<Rightarrow> b = Some (bk_start x, bk_count x)
      | None \<Rightarrow> (case b of None \<Rightarrow> True | Some (s, _) \<Rightarrow> rl_window l \<le> now - s))"

lemma gm_get_filter_val:
  assumes "gm_wf m"
  shows "gm_get (filter (\<lambda>(_, b). P b) m) k = (case gm_get m k of None \<Rightarrow> None | Some b \<Rightarrow> if P b then Some b else None)"
  using assms
proof (induction m)
  case (Cons x m)
  obtain j b where x: "x = (j, b)" by fastforce
  have "gm_get m j = None" using Cons.prems x by (auto simp: gm_wf_def gm_get_def map_of_eq_None_iff)
  then show ?case using Cons x by (auto simp: gm_wf_def gm_get_def)
qed (simp add: gm_get_def)

lemma gm_wf_filter: "gm_wf m \<Longrightarrow> gm_wf (filter P m)"
  by (simp add: gm_wf_def distinct_map_filter)

lemma agrees_prune:
  "bucket_agrees t k l b \<Longrightarrow> bucket_agrees t k (rl_prune t l) b"
  by (auto simp: bucket_agrees_def rl_prune_def gm_get_filter_val gm_wf_filter
      split: option.splits if_splits)

lemma agrees_later:
  "bucket_agrees t k l b \<Longrightarrow> t \<le> u \<Longrightarrow> bucket_agrees u k l b"
  by (auto simp: bucket_agrees_def split: option.splits)

lemma prune_same [simp]: "rl_window (rl_prune t l) = rl_window l" "rl_limit (rl_prune t l) = rl_limit l"
  by (simp_all add: rl_prune_def)

lemma allow_same:
  "allow t k l = (ok, l') \<Longrightarrow> rl_window l' = rl_window l \<and> rl_limit l' = rl_limit l"
  by (auto simp: allow_def Let_def split: option.splits if_splits)

lemma allow_agrees:
  assumes "bucket_agrees t k l b" and "allow t k l = (ok, l')"
  shows "fst (ref_allow (rl_limit l) (rl_window l) t b) = ok"
    and "bucket_agrees t k l' (snd (ref_allow (rl_limit l) (rl_window l) t b))"
  using agrees_prune [OF assms(1)] assms(2)
  by (auto simp: allow_def Let_def bucket_agrees_def split: option.splits if_splits)

lemma allow_other:
  assumes "bucket_agrees t k l b" and "allow t j l = (ok, l')" and "j \<noteq> k"
  shows "bucket_agrees t k l' b"
  using agrees_prune [OF assms(1)] assms(2,3)
  by (auto simp: allow_def Let_def bucket_agrees_def split: option.splits if_splits)

lemma limiter_run_reference:
  assumes "bucket_agrees t0 k l b" and "sorted (t0 # map fst rs)"
  shows "answers_to k (limiter_run rs l) =
    ref_run (rl_limit l) (rl_window l) (map fst (filter (\<lambda>(_, j). j = k) rs)) b"
  using assms
proof (induction rs arbitrary: t0 l b)
  case (Cons r rs)
  obtain t j where r: "r = (t, j)" by fastforce
  obtain ok l' where al: "allow t j l = (ok, l')" by fastforce
  have ag: "bucket_agrees t k l b" using Cons.prems r by (auto intro: agrees_later)
  have srt: "sorted (t # map fst rs)" using Cons.prems r by simp
  note same = allow_same [OF al]
  show ?case
  proof (cases "j = k")
    case True
    obtain ok' b' where rf: "ref_allow (rl_limit l) (rl_window l) t b = (ok', b')" by fastforce
    with allow_agrees [OF ag al [unfolded True]] have "ok' = ok" "bucket_agrees t k l' b'" by auto
    with Cons.IH [OF _ srt] rf same show ?thesis by (simp add: r al [unfolded True] True answers_to_def)
  next
    case False
    with Cons.IH [OF allow_other [OF ag al False] srt] same show ?thesis
      by (simp add: r al answers_to_def)
  qed
qed (simp add: answers_to_def)

section \<open>How many requests get through\<close>

definition allowed_in :: "int \<Rightarrow> int \<Rightarrow> (int \<times> bool) list \<Rightarrow> nat" where
  "allowed_in a b xs = length (filter (\<lambda>(t, ok). ok \<and> a \<le> t \<and> t < b) xs)"

lemma allowed_in_Cons:
  "allowed_in a b ((t, ok) # xs) = (if ok \<and> a \<le> t \<and> t < b then 1 else 0) + allowed_in a b xs"
  by (simp add: allowed_in_def)

lemma fresh_window_bound:
  assumes "a \<le> s" and "n \<le> limit" and "sorted ts"
  shows "int (allowed_in a (a + window) (ref_run limit window ts (Some (s, n)))) \<le> limit - n"
  using assms
proof (induction ts arbitrary: s n)
  case (Cons t ts)
  then show ?case
  proof (cases "a + window \<le> t")
    case True
    have "allowed_in a (a + window) (ref_run lim window ts b) = 0" for lim b
      using Cons.prems(3) True
    proof (induction ts arbitrary: b t)
      case (Cons u us)
      then have "a + window \<le> u" by simp
      with Cons.IH [of u] Cons.prems show ?case
        by (cases "ref_allow lim window u b") (simp add: allowed_in_Cons)
    qed (simp add: allowed_in_def)
    with True Cons.prems(2) show ?thesis by (simp add: allowed_in_Cons split: prod.split)
  next
    case False
    then have "\<not> window \<le> t - s" using Cons.prems(1) by simp
    with Cons.IH [of s n] Cons.IH [of s "n + 1"] Cons.prems show ?thesis
      by (auto simp: allowed_in_Cons)
  qed
qed (simp add: allowed_in_def)

lemma any_window_bound:
  assumes "sorted ts" and "1 \<le> limit" and "0 \<le> n" and "n \<le> limit" and "\<forall>t \<in> set ts. a \<le> t"
  shows "int (allowed_in a (a + window) (ref_run limit window ts (Some (s, n)))) \<le> 2 * limit - n"
  using assms
proof (induction ts arbitrary: s n)
  case (Cons t ts)
  show ?case
  proof (cases "window \<le> t - s")
    case True
    have "int (allowed_in a (a + window) (ref_run limit window ts (Some (t, 1)))) \<le> limit - 1"
      by (rule fresh_window_bound) (use Cons.prems in auto)
    with True Cons.prems show ?thesis by (auto simp: allowed_in_Cons)
  next
    case False
    with Cons.IH [of n s] Cons.IH [of "n + 1" s] Cons.prems show ?thesis
      by (auto simp: allowed_in_Cons)
  qed
qed (simp add: allowed_in_def)

lemma ref_run_bound:
  assumes "sorted ts" and "1 \<le> limit"
    and "case b of None \<Rightarrow> True | Some (s, n) \<Rightarrow> 0 \<le> n \<and> n \<le> limit"
  shows "int (allowed_in a (a + window) (ref_run limit window ts b)) \<le> 2 * limit"
  using assms
proof (induction ts arbitrary: b)
  case (Cons t ts)
  obtain ok b' where rf: "ref_allow limit window t b = (ok, b')" by fastforce
  have b': "case b' of None \<Rightarrow> True | Some (s, n) \<Rightarrow> 0 \<le> n \<and> n \<le> limit"
    using rf Cons.prems(2,3) by (cases b) (auto split: if_splits)
  show ?case
  proof (cases "a \<le> t")
    case False
    with Cons.IH [OF _ Cons.prems(2) b'] Cons.prems(1) rf show ?thesis by (simp add: allowed_in_Cons)
  next
    case True
    have all: "\<forall>u \<in> set (t # ts). a \<le> u" using True Cons.prems(1) by auto
    show ?thesis
    proof (cases b)
      case None
      have "int (allowed_in a (a + window) (ref_run limit window ts (Some (t, 1)))) \<le> limit - 1"
        by (rule fresh_window_bound) (use True Cons.prems in auto)
      then show ?thesis using None Cons.prems(2) by (simp add: allowed_in_Cons)
    next
      case (Some x)
      obtain s n where x: "x = (s, n)" by fastforce
      have n: "0 \<le> n" "n \<le> limit" using Cons.prems(3) Some x by auto
      from any_window_bound [OF Cons.prems(1,2) n all, of window s] n(1)
      show ?thesis unfolding Some x by linarith
    qed
  qed
qed (simp add: allowed_in_def)

lemma cut_prefix_iff: "has_prefix s p \<and> drop (length p) s = t \<longleftrightarrow> s = p @ t"
  unfolding has_prefix_def by (metis append_eq_conv_conj)

section \<open>Properties\<close>

text \<open>The limiter answers every key as if it had a counter of its own that is never pruned: the requests of
  other clients and the clean-up above ten thousand buckets change no answer.\<close>

theorem limiter_is_per_key:
  assumes "sorted (map fst rs)"
  shows "answers_to k (limiter_run rs (newRateLimiter limit window)) =
    ref_run limit window (map fst (filter (\<lambda>(_, j). j = k) rs)) None"
proof (cases rs)
  case (Cons r rs')
  have "bucket_agrees (fst r) k (newRateLimiter limit window) None"
    by (simp add: bucket_agrees_def newRateLimiter_def gm_get_def)
  from limiter_run_reference [OF this, of rs] assms Cons show ?thesis by (simp add: newRateLimiter_def)
qed (simp add: answers_to_def)

lemma limiter_is_per_key_witness:
  "answers_to ''a'' (limiter_run [(0, ''a''), (1, ''b''), (2, ''a''), (11, ''a'')] (newRateLimiter 1 10)) =
     [(0, True), (2, False), (11, True)]"
  by (subst limiter_is_per_key) (simp_all add: newRateLimiter_def)

text \<open>C36: no client gets more than twice the limit through within any interval as long as the window, however
  its requests fall and whoever else sends requests.\<close>

theorem limiter_bounds_every_interval:
  assumes "sorted (map fst rs)" and "1 \<le> limit"
  shows "int (allowed_in a (a + window) (answers_to k (limiter_run rs (newRateLimiter limit window)))) \<le> 2 * limit"
proof (cases rs)
  case (Cons r rs')
  have "bucket_agrees (fst r) k (newRateLimiter limit window) None"
    by (simp add: bucket_agrees_def newRateLimiter_def gm_get_def)
  moreover have "sorted (map fst (filter (\<lambda>(_, j). j = k) rs))"
    using assms(1) by (induction rs) auto
  ultimately show ?thesis
    using limiter_run_reference [of "fst r" k "newRateLimiter limit window" None rs]
      ref_run_bound [of "map fst (filter (\<lambda>(_, j). j = k) rs)" limit None a window] assms Cons
    by (simp add: newRateLimiter_def)
qed (use assms(2) in \<open>simp add: answers_to_def allowed_in_def\<close>)

lemma limiter_bounds_every_interval_witness:
  "allowed_in 5 15 (answers_to ''a'' (limiter_run [(9, ''a''), (10, ''a''), (19, ''a'')] (newRateLimiter 1 10))) \<le> 2"
  using limiter_bounds_every_interval [of "[(9, ''a''), (10, ''a''), (19, ''a'')]" 1 5 10 "''a''"] by simp

text \<open>With an administrator's token configured, a \<open>POST\<close> to \<open>/flush\<close> or \<open>/policy\<close> reaches the service only
  with exactly that token as bearer credential, and a refusal leaves the guard as it was.\<close>

theorem admin_paths_need_the_token:
  assumes "gd_adminToken g \<noteq> []" and "gr_method r = ''POST''" and "gr_path r \<in> {''/flush'', ''/policy''}"
  shows "ServeHTTP now r g = (if gr_authorization r = ''Bearer '' @ gd_adminToken g
     then (Passed_on, g) else (Refused_with 401 ''admin token required'', g))"
proof -
  have "validToken g (gr_authorization r) \<longleftrightarrow> gr_authorization r = ''Bearer '' @ gd_adminToken g"
    unfolding validToken_def by (rule cut_prefix_iff)
  then show ?thesis using assms by (auto simp: ServeHTTP_def)
qed

lemma admin_paths_need_the_token_witness:
  "fst (ServeHTTP 0 \<lparr>gr_method = ''POST'', gr_path = ''/flush'', gr_authorization = ''Bearer x'',
       gr_forwardedFor = '''', gr_remoteAddr = ''1.2.3.4:5''\<rparr>
     \<lparr>gd_adminToken = ''t'', gd_limiter = None, gd_trustProxy = False\<rparr>) = Refused_with 401 ''admin token required''"
  by (subst admin_paths_need_the_token) simp_all


end
