(* ===== verification/Switch.thy ===== *)
theory Switch
  imports Control
begin

text \<open>
  Switching the implementation of a component (\<open>internal/plugins/manager/activate.go\<close>): \<open>switchSlot\<close>, the
  single path by which it happens, with \<open>commit\<close> and \<open>afterSwitch\<close>, and the operations that use it. A switch
  holds the mutex of its slot from start to end, so it is one step; \<open>pm_locked\<close> are the slots another
  operation holds. The background drain of a replaced queue and the timer that stops a replaced instance
  are entries of the state, and what they do when they end is \<open>drain_done\<close> and \<open>stop_fired\<close>.
\<close>

datatype switch_mode = ModeActivate | ModeDeactivate | ModeRollback

fun modeName :: "switch_mode \<Rightarrow> string" where
  "modeName ModeDeactivate = ''deactivate''"
| "modeName ModeRollback = ''rollback''"
| "modeName ModeActivate = ''activate''"

type_synonym switch_result = "plugin_record option \<times> detail list"

definition is_requirement :: "goerr \<Rightarrow> bool" where
  "is_requirement e = (case e of RequirementError _ _ _ _ \<Rightarrow> True | _ \<Rightarrow> False)"

definition is_incompatible :: "goerr \<Rightarrow> bool" where
  "is_incompatible e = (case e of IncompatibleError _ _ \<Rightarrow> True | _ \<Rightarrow> False)"

text \<open>The detail of a failure: the reason of an \<open>IncompatibleError\<close> along the chain, or the error's own text.\<close>

definition failure_detail :: "goerr \<Rightarrow> detail" where
  "failure_detail e =
     (case errors_as is_incompatible e of Some (IncompatibleError f as) \<Rightarrow> (f, as) | _ \<Rightarrow> (''%v'', [AErr e]))"

section \<open>Failure\<close>

definition switch_failed ::
    "('r, 'c, 'v, 's, 'p, 'e) mgr_env \<Rightarrow> switch_mode \<Rightarrow> plugin_record \<Rightarrow> goerr \<Rightarrow> ('r, 'c, 'v, 's, 'p, 'e) control \<Rightarrow>
     switch_result res \<times> ('r, 'c, 'v, 's, 'p, 'e) control" where
  "switch_failed E mode actor cause st =
     (let st1 = (if errors_as is_requirement cause \<noteq> None
                 then reg_set E (rc_ID actor) (\<lambda>r. r\<lparr>rc_State := rc_State actor\<rparr>) st
                 else if mode = ModeRollback
                 then reg_set E (rc_ID actor) (\<lambda>r. r\<lparr>rc_State := StateActive, rc_StateDetail := (''rollback failed: %v'', [AErr cause])\<rparr>) st
                 else reg_set E (rc_ID actor) (\<lambda>r. r\<lparr>rc_State := StateFailed, rc_StateDetail := failure_detail cause\<rparr>) st);
          st2 = logf E (rc_ID actor) ''%s not completed: %v (previous implementation left in place)'' [AStr (modeName mode), AErr cause] st1
      in (Inl cause, audit E (modeName mode) (Some actor) ''failed'' (''%v'', [AErr cause]) st2))"

section \<open>Commit\<close>

definition commit_active :: "switch_mode \<Rightarrow> string \<Rightarrow> confirmations \<Rightarrow> f64 option \<Rightarrow> f64 \<Rightarrow> plugin_record \<Rightarrow> plugin_record" where
  "commit_active mode oldID conf threshold prevThreshold r =
     (let r1 = r\<lparr>rc_State := StateActive, rc_StateDetail := no_detail, rc_Active := True,
                 rc_Confirmations := (case threshold of Some t \<Rightarrow> conf\<lparr>cf_Threshold := Some t\<rparr> | None \<Rightarrow> conf)\<rparr>
      in if mode = ModeActivate
         then r1\<lparr>rc_PreviousActiveID := oldID,
                 rc_PreviousThreshold := (case threshold of Some _ \<Rightarrow> Some prevThreshold | None \<Rightarrow> None)\<rparr>
         else r1\<lparr>rc_PreviousActiveID := [], rc_PreviousThreshold := None\<rparr>)"

definition commit_final :: "switch_mode \<Rightarrow> plugin_record \<Rightarrow> plugin_record" where
  "commit_final mode r =
     r\<lparr>rc_Active := False, rc_State := (if mode = ModeRollback then StateRolledBack else StateInactive),
       rc_StateDetail := no_detail\<rparr>"

definition commit ::
    "('r, 'c, 'v, 's, 'p, 'e) mgr_env \<Rightarrow> plugin_type \<Rightarrow> string \<Rightarrow> plugin_record option \<Rightarrow> confirmations \<Rightarrow>
     ('v, 's, 'p, 'e) plan \<Rightarrow> switch_mode \<Rightarrow> f64 \<Rightarrow> ('r, 'c, 'v, 's, 'p, 'e) control \<Rightarrow>
     goerr option \<times> ('r, 'c, 'v, 's, 'p, 'e) control" where
  "commit E slot oldID target conf pl mode prevThreshold st =
     (let newID = (case target of Some t \<Rightarrow> rc_ID t | None \<Rightarrow> []) in
      case on_reg (if newID = [] then rg_ClearActive (mg_G E) slot else rg_SetActive (mg_G E) slot newID) st of
        (Some e, st1) \<Rightarrow> (Some e, st1)
      | (None, st1) \<Rightarrow>
          (case (if newID = [] then (None, st1)
                 else case reg_update E newID (\<lambda>r. Inr (commit_active mode oldID conf (pl_threshold pl) prevThreshold r)) st1 of
                        (Inl e, st2) \<Rightarrow> (Some e, st2)
                      | (Inr _, st2) \<Rightarrow> (None, st2)) of
             (Some e, st2) \<Rightarrow> (Some e, st2)
           | (None, st2) \<Rightarrow>
               (let st3 = (if oldID \<noteq> [] \<and> oldID \<noteq> newID then reg_set E oldID (commit_final mode) st2 else st2)
                in (None, st3\<lparr>pm_active := gm_put slot newID (pm_active st3)\<rparr>))))"

section \<open>After a switch\<close>

definition scheduleStop :: "('r, 'c, 'v, 's, 'p, 'e) mgr_env \<Rightarrow> string \<Rightarrow> ('r, 'c, 'v, 's, 'p, 'e) control \<Rightarrow>
    ('r, 'c, 'v, 's, 'p, 'e) control" where
  "scheduleStop E k st =
     (if k = [] \<or> mg_ctl E = None then st
      else case reg_get E k st of
             (Inl _, st1) \<Rightarrow> st1
           | (Inr rec, st1) \<Rightarrow>
               if rc_Mode rec = ModeEndpoint then st1 else st1\<lparr>pm_timers := gm_put k () (pm_timers st1)\<rparr>)"

text \<open>The timer of \<open>scheduleStop\<close> fires.\<close>

definition stop_fired :: "('r, 'c, 'v, 's, 'p, 'e) mgr_env \<Rightarrow> string \<Rightarrow> ('r, 'c, 'v, 's, 'p, 'e) control \<Rightarrow>
    ('r, 'c, 'v, 's, 'p, 'e) control" where
  "stop_fired E k st =
     (case reg_get E k st of
        (Inl _, st1) \<Rightarrow> st1
      | (Inr r, st1) \<Rightarrow>
          if rc_Active r then st1
          else case mg_ctl E of
                 None \<Rightarrow> st1
               | Some C \<Rightarrow>
                   (case co_Stop C k (pm_ctl st1) of
                      (Some e, c) \<Rightarrow> logf E k ''could not stop instance after the rollback window: %v'' [AErr e] (st1\<lparr>pm_ctl := c\<rparr>)
                    | (None, c) \<Rightarrow> logf E k ''instance stopped after the rollback window; it is restarted on demand'' [] (st1\<lparr>pm_ctl := c\<rparr>)))"

definition afterSwitch ::
    "('r, 'c, 'v, 's, 'p, 'e) mgr_env \<Rightarrow> plugin_type \<Rightarrow> string \<Rightarrow> ('v, 's, 'p, 'e) adapter \<Rightarrow>
     ('r, 'c, 'v, 's, 'p, 'e) control \<Rightarrow> ('r, 'c, 'v, 's, 'p, 'e) control" where
  "afterSwitch E slot oldID prevImpl st =
     (let owned = gm_get (pm_owned st) oldID \<noteq> None;
          st1 = st\<lparr>pm_owned := gm_del oldID (pm_owned st), pm_timers := gm_del (id_at (pm_active st) slot) (pm_timers st)\<rparr>
      in if slot = TypeQueue \<and> ad_queue prevImpl \<noteq> None
         then scheduleStop E oldID (st1\<lparr>pm_draining := pm_draining st1 @ [(oldID, prevImpl, owned)]\<rparr>)
         else scheduleStop E oldID (if owned then st1\<lparr>pm_svc := Close prevImpl (pm_svc st1)\<rparr> else st1))"

text \<open>The background drain ends with \<open>left\<close> jobs remaining.\<close>

definition drain_done :: "('r, 'c, 'v, 's, 'p, 'e) mgr_env \<Rightarrow> string \<times> ('v, 's, 'p, 'e) adapter \<times> bool \<Rightarrow> int \<Rightarrow>
    ('r, 'c, 'v, 's, 'p, 'e) control \<Rightarrow> ('r, 'c, 'v, 's, 'p, 'e) control" where
  "drain_done E job left st =
     (case job of (oldID, impl, owned) \<Rightarrow>
        (let st1 = logf E oldID
               (if left = 0 then ''old queue drained''
                else if 0 < left then ''old queue stopped with %d unprocessed job(s) still stored in it; they are processed again if it is reactivated''
                else ''old queue worker stopped after the drain window (backlog unknown)'') (if 0 < left then [AInt left] else []) st
         in if owned then st1\<lparr>pm_svc := Close impl (pm_svc st1)\<rparr> else st1))"

section \<open>The switch\<close>

definition discard :: "bool \<Rightarrow> ('v, 's, 'p, 'e) adapter \<Rightarrow> ('r, 'c, 'v, 's, 'p, 'e) control \<Rightarrow> ('r, 'c, 'v, 's, 'p, 'e) control" where
  "discard owned impl st = (if owned then st\<lparr>pm_svc := Close impl (pm_svc st)\<rparr> else st)"

text \<open>The record to switch to, or none for the built-in implementation.\<close>

definition switch_target ::
    "('r, 'c, 'v, 's, 'p, 'e) mgr_env \<Rightarrow> switch_mode \<Rightarrow> plugin_record \<Rightarrow> ('r, 'c, 'v, 's, 'p, 'e) control \<Rightarrow>
     plugin_record option res \<times> ('r, 'c, 'v, 's, 'p, 'e) control" where
  "switch_target E mode rec st =
     (case mode of
        ModeActivate \<Rightarrow> (Inr (Some rec), st)
      | ModeDeactivate \<Rightarrow> (Inr None, st)
      | ModeRollback \<Rightarrow>
          if rc_PreviousActiveID rec = [] then (Inr None, st)
          else case reg_get E (rc_PreviousActiveID rec) st of
                 (Inl _, st1) \<Rightarrow> (Inl (InvalidError ''the previous plugin no longer exists; deactivate instead'' []), st1)
               | (Inr t, st1) \<Rightarrow> (Inr (Some t), st1))"

text \<open>Leaving a plugin that changed the similarity threshold puts it back.\<close>

definition restore_threshold :: "switch_mode \<Rightarrow> plugin_record \<Rightarrow> confirmations \<Rightarrow> confirmations" where
  "restore_threshold mode rec conf =
     (if mode \<noteq> ModeActivate \<and> cf_Threshold conf = None \<and> rc_PreviousThreshold rec \<noteq> None
      then conf\<lparr>cf_Threshold := rc_PreviousThreshold rec\<rparr> else conf)"

text \<open>The candidate and whether the manager built it; a candidate that is not healthy is closed again.\<close>

definition candidate ::
    "('r, 'c, 'v, 's, 'p, 'e) mgr_env \<Rightarrow> plugin_type \<Rightarrow> plugin_record option \<Rightarrow> ('r, 'c, 'v, 's, 'p, 'e) control \<Rightarrow>
     (('v, 's, 'p, 'e) adapter \<times> bool) res \<times> ('r, 'c, 'v, 's, 'p, 'e) control" where
  "candidate E slot target st =
     (case target of
        None \<Rightarrow> (case slot_builtin (pm_slots st) slot of
                   Some a \<Rightarrow> (Inr (a, False), st)
                 | None \<Rightarrow> (Inl (swap_error slot), st))
      | Some t \<Rightarrow>
          (case openSecrets E t of
             Inl e \<Rightarrow> (Inl e, st)
           | Inr sec \<Rightarrow>
               (case mg_build E t sec (pm_slots st) (pm_ctl st) (pm_svc st) of
                  (Inl e, c, s) \<Rightarrow> (Inl e, st\<lparr>pm_ctl := c, pm_svc := s\<rparr>)
                | (Inr a, c, s) \<Rightarrow>
                    (case probeHealth a s of
                       (Some e, s1) \<Rightarrow> (Inl (Errorf ''candidate is not healthy: %w'' [AWrap e]), st\<lparr>pm_ctl := c, pm_svc := Close a s1\<rparr>)
                     | (None, s1) \<Rightarrow> (Inr (a, True), st\<lparr>pm_ctl := c, pm_svc := s1\<rparr>)))))"

definition switch_complete ::
    "('r, 'c, 'v, 's, 'p, 'e) mgr_env \<Rightarrow> switch_mode \<Rightarrow> plugin_record \<Rightarrow> plugin_record option \<Rightarrow> ('v, 's, 'p, 'e) plan \<Rightarrow>
     ('r, 'c, 'v, 's, 'p, 'e) control \<Rightarrow> switch_result res \<times> ('r, 'c, 'v, 's, 'p, 'e) control" where
  "switch_complete E mode actor target pl st =
     (let cur = (case target of Some t \<Rightarrow> rc_ID t | None \<Rightarrow> rc_ID actor) in
      case reg_get E cur st of (g, st1) \<Rightarrow>
        (let rec = (case g of Inr r \<Rightarrow> Some r | Inl _ \<Rightarrow> None);
             st2 = fold (\<lambda>(f, as) u. logf E cur ''warning: %s'' [AErr (Errorf f as)] u) (pl_warnings pl) st1;
             st3 = logf E cur ''%s complete'' [AStr (modeName mode)] st2
         in (Inr (rec, pl_warnings pl), audit E (modeName mode) rec ''ok'' (''%s; ...'', map (\<lambda>(f, as). AErr (Errorf f as)) (pl_warnings pl)) st3)))"

text \<open>From the execution of the plan to the end: commit the registry, and undo the swap when that fails.\<close>

definition switch_execute ::
    "('r, 'c, 'v, 's, 'p, 'e) mgr_env \<Rightarrow> ('v, 's, 'p, 'e) host \<Rightarrow> plugin_type \<Rightarrow> plugin_record \<Rightarrow> confirmations \<Rightarrow> switch_mode \<Rightarrow>
     plugin_record option \<Rightarrow> string \<Rightarrow> ('v, 's, 'p, 'e) adapter \<Rightarrow> bool \<Rightarrow> ('v, 's, 'p, 'e) plan \<Rightarrow> f64 \<Rightarrow>
     ('r, 'c, 'v, 's, 'p, 'e) control \<Rightarrow> switch_result res \<times> ('r, 'c, 'v, 's, 'p, 'e) control" where
  "switch_execute E H slot actor conf mode target oldID impl owned pl prevThreshold st =
     (case execute H slot impl pl (pm_slots st) (pm_svc st) of
        (Inl e, sl, s4) \<Rightarrow> switch_failed E mode actor e (discard owned impl (st\<lparr>pm_slots := sl, pm_svc := s4\<rparr>))
      | (Inr prevImpl, sl, s4) \<Rightarrow>
     (let st4 = st\<lparr>pm_slots := sl, pm_svc := s4\<rparr>;
          st5 = (if mode \<noteq> ModeDeactivate
                 then reg_set E (rc_ID actor) (\<lambda>r. if ValidTransition (rc_State r) StateActivating
                        then r\<lparr>rc_State := StateActivating, rc_StateDetail := (''activating'', [])\<rparr> else r) st4
                 else st4)
      in case commit E slot oldID target conf pl mode prevThreshold st5 of
           (Some e, st6) \<Rightarrow>
             (case slot_swap slot prevImpl (pm_slots st6) of (x, sl2) \<Rightarrow>
                (let st7 = st6\<lparr>pm_slots := sl2\<rparr>;
                     st8 = (case x of Inl se \<Rightarrow> logf E (rc_ID actor) ''CRITICAL: could not undo swap after registry failure: %v'' [AErr se] st7
                            | Inr _ \<Rightarrow> st7)
                 in switch_failed E mode actor (Errorf ''could not record the switch: %w'' [AWrap e]) (discard owned impl st8)))
         | (None, st6) \<Rightarrow>
             (let st7 = (case pl_threshold pl of Some t \<Rightarrow> st6\<lparr>pm_svc := SetThreshold t (pm_svc st6)\<rparr> | None \<Rightarrow> st6)
              in switch_complete E mode actor target pl (afterSwitch E slot oldID prevImpl st7))))"

definition switch_run ::
    "('r, 'c, 'v, 's, 'p, 'e) mgr_env \<Rightarrow> ('v, 's, 'p, 'e) host \<Rightarrow> plugin_type \<Rightarrow> plugin_record \<Rightarrow> confirmations \<Rightarrow> switch_mode \<Rightarrow>
     plugin_record option \<Rightarrow> string \<Rightarrow> ('r, 'c, 'v, 's, 'p, 'e) control \<Rightarrow>
     switch_result res \<times> ('r, 'c, 'v, 's, 'p, 'e) control" where
  "switch_run E H slot actor conf mode target oldID st =
     (case candidate E slot target st of
        (Inl e, st1) \<Rightarrow> switch_failed E mode actor e st1
      | (Inr (impl, owned), st1) \<Rightarrow>
     (case planFor H (mc_MaxReembedEntries (mg_cfg E)) slot target impl conf (pm_slots st1) (pm_svc st1) of
        (Inl e, s2) \<Rightarrow> switch_failed E mode actor e (discard owned impl (st1\<lparr>pm_svc := s2\<rparr>))
      | (Inr pl, s2) \<Rightarrow>
     (let st2 = st1\<lparr>pm_svc := s2\<rparr>; prevThreshold = Threshold (host_deps H (pm_slots st2)) s2 in
      case (if pl_migrate pl \<noteq> None \<or> pl_needGate pl
            then setState E (rc_ID actor) StateMigrating (''migrating cache state'', []) st2
            else (Inr actor, st2)) of (mg, st3) \<Rightarrow>
      if \<not> res_ok mg \<and> mode = ModeActivate
      then switch_failed E mode actor (case mg of Inl e \<Rightarrow> e | Inr _ \<Rightarrow> ErrBusy) (discard owned impl st3)
      else
     switch_execute E H slot actor conf mode target oldID impl owned pl prevThreshold st3)))"

definition switchSlot ::
    "('r, 'c, 'v, 's, 'p, 'e) mgr_env \<Rightarrow> plugin_type \<Rightarrow> plugin_record \<Rightarrow> confirmations \<Rightarrow> switch_mode \<Rightarrow>
     ('r, 'c, 'v, 's, 'p, 'e) control \<Rightarrow> switch_result res \<times> ('r, 'c, 'v, 's, 'p, 'e) control" where
  "switchSlot E slot rec conf mode st =
     (if slot \<in> set (pm_locked st) then (Inl ErrBusy, st)
      else case mg_host E of
             None \<Rightarrow> (Inl ErrNoHost, st)
           | Some H \<Rightarrow>
               (case switch_target E mode rec st of
                  (Inl e, st1) \<Rightarrow> (Inl e, st1)
                | (Inr target, st1) \<Rightarrow>
                    (let oldID = id_at (ActiveIDs st1) slot;
                         conf1 = restore_threshold mode rec conf
                     in if mode = ModeActivate \<and> oldID = rc_ID rec then (Inl (InvalidError ''plugin is already active'' []), st1)
                        else if mode = ModeDeactivate then switch_run E H slot rec conf1 mode target oldID st1
                        else case setState E (rc_ID rec) (if mode = ModeRollback then StateRollingBack else StateChecking)
                                    (''preparing candidate'', []) st1 of
                               (Inl e, st2) \<Rightarrow> (Inl e, st2)
                             | (Inr _, st2) \<Rightarrow> switch_run E H slot rec conf1 mode target oldID st2)))"

section \<open>Activation, deactivation, rollback\<close>

definition may_activate :: "plugin_record \<Rightarrow> goerr option" where
  "may_activate rec =
     (case rc_State rec of
        StateVerified \<Rightarrow> None
      | StateInactive \<Rightarrow> None
      | StateRolledBack \<Rightarrow> None
      | StateFailed \<Rightarrow>
          (case rc_Verification rec of
             Some v \<Rightarrow> if vf_Passed v then None
               else Some (InvalidError ''plugin failed verification and cannot be activated; see its log'' [])
           | None \<Rightarrow> Some (InvalidError ''plugin failed verification and cannot be activated; see its log'' []))
      | StateActive \<Rightarrow> Some (InvalidError ''plugin is already active'' [])
      | _ \<Rightarrow> Some (InvalidError ''plugin is %s; wait for verification to finish'' []))"

definition activate ::
    "('r, 'c, 'v, 's, 'p, 'e) mgr_env \<Rightarrow> string \<Rightarrow> confirmations \<Rightarrow> ('r, 'c, 'v, 's, 'p, 'e) control \<Rightarrow>
     switch_result res \<times> ('r, 'c, 'v, 's, 'p, 'e) control" where
  "activate E k conf st =
     (case reg_get E k st of
        (Inl e, st1) \<Rightarrow> (Inl e, st1)
      | (Inr rec, st1) \<Rightarrow>
          (case may_activate rec of
             Some e \<Rightarrow> (Inl e, st1)
           | None \<Rightarrow> switchSlot E (Slot (rc_Type rec)) rec conf ModeActivate st1))"

definition mgr_Activate ::
    "('r, 'c, 'v, 's, 'p, 'e) mgr_env \<Rightarrow> string \<Rightarrow> confirmations \<Rightarrow> ('r, 'c, 'v, 's, 'p, 'e) control \<Rightarrow>
     switch_result res \<times> ('r, 'c, 'v, 's, 'p, 'e) control" where
  "mgr_Activate E k conf st = (case requireEnabled E of Some e \<Rightarrow> (Inl e, st) | None \<Rightarrow> activate E k conf st)"

definition leave_active ::
    "switch_mode \<Rightarrow> string \<Rightarrow> ('r, 'c, 'v, 's, 'p, 'e) mgr_env \<Rightarrow> string \<Rightarrow> confirmations \<Rightarrow> ('r, 'c, 'v, 's, 'p, 'e) control \<Rightarrow>
     switch_result res \<times> ('r, 'c, 'v, 's, 'p, 'e) control" where
  "leave_active mode msg E k conf st =
     (case requireEnabled E of
        Some e \<Rightarrow> (Inl e, st)
      | None \<Rightarrow>
          (case reg_get E k st of
             (Inl e, st1) \<Rightarrow> (Inl e, st1)
           | (Inr rec, st1) \<Rightarrow>
               if \<not> rc_Active rec then (Inl (InvalidError msg []), st1)
               else switchSlot E (Slot (rc_Type rec)) rec conf mode st1))"

definition mgr_Deactivate ::
    "('r, 'c, 'v, 's, 'p, 'e) mgr_env \<Rightarrow> string \<Rightarrow> confirmations \<Rightarrow> ('r, 'c, 'v, 's, 'p, 'e) control \<Rightarrow>
     switch_result res \<times> ('r, 'c, 'v, 's, 'p, 'e) control" where
  "mgr_Deactivate E k conf st = leave_active ModeDeactivate ''plugin is not active'' E k conf st"

definition mgr_Rollback ::
    "('r, 'c, 'v, 's, 'p, 'e) mgr_env \<Rightarrow> string \<Rightarrow> confirmations \<Rightarrow> ('r, 'c, 'v, 's, 'p, 'e) control \<Rightarrow>
     switch_result res \<times> ('r, 'c, 'v, 's, 'p, 'e) control" where
  "mgr_Rollback E k conf st = leave_active ModeRollback ''only the active plugin can be rolled back'' E k conf st"

end
