(* ===== verification/Install.thy ===== *)
theory Install
  imports Requests Switch Policy_Contract
begin

text \<open>
  Adapters, verification and installation (\<open>internal/plugins/manager/install.go\<close> and the second half of
  \<open>manager.go\<close>). The manager makes a \<open>plugin_client\<close> for a record; \<open>inst_lib\<close> is what is done with it: the
  adapters of the protocol package over a network, the contract suites, and the YAML text of a manifest.
  The id and the nonces of an installation are what the random source gives. The pipeline that an
  installation starts in the background is a value of the result, and \<open>run_pipeline\<close> what it does. Deadlines
  are part of the calls that fail.
\<close>

section \<open>Adapters\<close>

record plugin_client =
  pc_Base :: string
  pc_Token :: string
  pc_Safe :: "bool option"   \<comment> \<open>the policy of a safe client; none for the controller's client\<close>
  pc_Timeout :: int

record contract_target =
  ct_Type :: plugin_type
  ct_Client :: plugin_client
  ct_Model :: string
  ct_VectorDim :: int
  ct_ExpectedBackend :: string
  ct_RequireEmpty :: bool

record ('v, 's, 'p, 'e) inst_lib =
  il_req :: req_lib
  il_marshal :: "manifest \<Rightarrow> string res"
  il_show :: "anyval \<Rightarrow> string"
  il_adapter :: "plugin_type \<Rightarrow> plugin_client \<Rightarrow> string \<Rightarrow> ('v, 's, 'p, 'e) service \<Rightarrow>
     ('v, 's, 'p, 'e) adapter res \<times> ('v, 's, 'p, 'e) service"
  il_contract :: "contract_target \<Rightarrow> ('v, 's, 'p, 'e) service \<Rightarrow> report \<times> ('v, 's, 'p, 'e) service"

definition upper_char :: "char \<Rightarrow> char" where
  "upper_char c = (if is_lower c then char_of (of_char c - 32 :: nat) else c)"

text \<open>\<open>fmt.Sprint\<close> of a configuration value; other values than these are printed by \<open>show\<close>.\<close>

definition Sprint :: "(anyval \<Rightarrow> string) \<Rightarrow> anyval \<Rightarrow> string" where
  "Sprint show v =
     (case v of VStr s \<Rightarrow> s | VInt i \<Rightarrow> itoa i | VBool b \<Rightarrow> (if b then ''true'' else ''false'') | _ \<Rightarrow> show v)"

definition put_all :: "('k \<times> 'a) list \<Rightarrow> ('k, 'a) gomap \<Rightarrow> ('k, 'a) gomap" where
  "put_all xs m = foldl (\<lambda>m (k, v). gm_put k v m) m xs"

definition configEnv :: "(anyval \<Rightarrow> string) \<Rightarrow> (string, anyval) gomap \<Rightarrow> (string, string) gomap" where
  "configEnv show cfg = put_all (map (\<lambda>(k, v). (''CONFIG_'' @ map upper_char k, Sprint show v)) cfg) []"

definition nil_pointer :: goerr where "nil_pointer = Sentinel ''nil pointer dereference''"

text \<open>The dimension a vector runner is sized for.\<close>

definition runner_dim :: "('v, 's, 'p, 'e) slots \<Rightarrow> 'e \<Rightarrow> int \<times> 'e" where
  "runner_dim sl e =
     (case dyn_ModelInfo sl e of
        (Inr mi, e1) \<Rightarrow> (if 0 < mi_Dim mi then mi_Dim mi else 384, e1)
      | (Inl _, e1) \<Rightarrow> (384, e1))"

definition ensureInstance ::
    "('v, 's, 'p, 'e) inst_lib \<Rightarrow> ('r, 'c, 'v, 's, 'p, 'e) mgr_env \<Rightarrow> plugin_record \<Rightarrow> (string, string) gomap \<Rightarrow>
     ('v, 's, 'p, 'e) slots \<Rightarrow> 'c \<Rightarrow> ('v, 's, 'p, 'e) service \<Rightarrow> inst res \<times> 'c \<times> ('v, 's, 'p, 'e) service" where
  "ensureInstance L E rec sec sl c s =
     (case mg_ctl E of
        None \<Rightarrow> (Inl (Errorf ''plugin controller is not configured'' []), c, s)
      | Some C \<Rightarrow>
          (case (if rc_ImageDigest rec = [] then None else rc_Manifest rec) of
             None \<Rightarrow> (Inl (Errorf ''plugin has no prepared image'' []), c, s)
           | Some mf \<Rightarrow>
               (case il_marshal L mf of
                  Inl e \<Rightarrow> (Inl e, c, s)
                | Inr mtext \<Rightarrow>
                    (let env = put_all sec (configEnv (il_show L) (rc_Config rec));
                         vector = rc_Type rec = TypeVectorIndex \<or> rc_Type rec = TypeSimilarityMetric
                     in case (if vector then runner_dim sl (sv_E s) else (0, sv_E s)) of
                       (d, e1) \<Rightarrow>
                         (case co_Start C \<lparr>sq_InstanceID = rc_ID rec, sq_Type = rc_Type rec, sq_Digest = rc_ImageDigest rec,
                              sq_Manifest = mtext, sq_Env = (if vector then gm_put ''VECTOR_DIM'' (itoa d) env else env),
                              sq_HealthWait = mc_HealthTimeout (mg_cfg E)\<rparr> c of
                            (Inl e, c1) \<Rightarrow> (Inl (Errorf ''start plugin: %s'' [AErr e]), c1, s\<lparr>sv_E := e1\<rparr>)
                          | (Inr i, c1) \<Rightarrow> (Inr i, c1, s\<lparr>sv_E := e1\<rparr>))))))"

definition NewClient :: "('v, 's, 'p, 'e) inst_lib \<Rightarrow> string \<Rightarrow> bool option \<Rightarrow> string \<Rightarrow> plugin_client res" where
  "NewClient L base safe token =
     (case ul_Parse (ql_url (il_req L)) base of
        None \<Rightarrow> Inl (Errorf ''invalid plugin base URL'' [])
      | Some u \<Rightarrow>
          if ur_Host u = [] then Inl (Errorf ''invalid plugin base URL'' [])
          else Inr \<lparr>pc_Base = trim_right ''/'' base, pc_Token = token, pc_Safe = safe, pc_Timeout = DefaultTimeout\<rparr>)"

definition clientFor ::
    "('v, 's, 'p, 'e) inst_lib \<Rightarrow> ('r, 'c, 'v, 's, 'p, 'e) mgr_env \<Rightarrow> plugin_record \<Rightarrow> (string, string) gomap \<Rightarrow>
     ('v, 's, 'p, 'e) slots \<Rightarrow> 'c \<Rightarrow> ('v, 's, 'p, 'e) service \<Rightarrow> plugin_client res \<times> 'c \<times> ('v, 's, 'p, 'e) service" where
  "clientFor L E rec sec sl c s =
     (if rc_Mode rec = ModeEndpoint
      then (case ValidateURL (ql_url (il_req L)) (so_EndpointURL (rc_Source rec)) (mc_AllowInsecureEndpoints (mg_cfg E)) of
              Inl e \<Rightarrow> (Inl e, c, s)
            | Inr u \<Rightarrow>
                (NewClient L (ul_String (ql_url (il_req L)) u) (Some (mc_AllowInsecureEndpoints (mg_cfg E)))
                   (case gm_get sec EndpointTokenSecret of Some t \<Rightarrow> t | None \<Rightarrow> []), c, s))
      else (case ensureInstance L E rec sec sl c s of
              (Inl e, c1, s1) \<Rightarrow> (Inl e, c1, s1)
            | (Inr i, c1, s1) \<Rightarrow> (NewClient L (in_BaseURL i) None (mc_ControllerToken (mg_cfg E)), c1, s1)))"

definition modelOf :: "plugin_record \<Rightarrow> string" where
  "modelOf rec =
     (case gm_get (rc_Config rec) ''model'' of Some (VStr s) \<Rightarrow> if s \<noteq> [] then s else ''default'' | _ \<Rightarrow> ''default'')"

definition request_timeout :: "plugin_record \<Rightarrow> plugin_client \<Rightarrow> plugin_client" where
  "request_timeout rec c =
     (let c1 = (case gm_get (rc_Config rec) ''request_timeout'' of
          Some (VStr s) \<Rightarrow> (case ParseDuration s of Inr d \<Rightarrow> if 0 < d then c\<lparr>pc_Timeout := d\<rparr> else c | Inl _ \<Rightarrow> c)
        | _ \<Rightarrow> c)
      in if rc_Type rec = TypeLLM \<and> pc_Timeout c1 = DefaultTimeout then c1\<lparr>pc_Timeout := 60 * Second\<rparr> else c1)"

definition buildAdapter ::
    "('v, 's, 'p, 'e) inst_lib \<Rightarrow> ('r, 'c, 'v, 's, 'p, 'e) mgr_env \<Rightarrow> plugin_record \<Rightarrow> (string, string) gomap \<Rightarrow>
     ('v, 's, 'p, 'e) slots \<Rightarrow> 'c \<Rightarrow> ('v, 's, 'p, 'e) service \<Rightarrow> ('v, 's, 'p, 'e) adapter res \<times> 'c \<times> ('v, 's, 'p, 'e) service" where
  "buildAdapter L E rec sec sl c s =
     (case clientFor L E rec sec sl c s of
        (Inl e, c1, s1) \<Rightarrow> (Inl e, c1, s1)
      | (Inr cl, c1, s1) \<Rightarrow>
          (case il_adapter L (rc_Type rec) (request_timeout rec cl) (modelOf rec) s1 of (a, s2) \<Rightarrow> (a, c1, s2)))"

text \<open>The manager whose adapters are built this way.\<close>

definition building :: "('v, 's, 'p, 'e) inst_lib \<Rightarrow> ('r, 'c, 'v, 's, 'p, 'e) mgr_env \<Rightarrow> ('r, 'c, 'v, 's, 'p, 'e) mgr_env" where
  "building L E = E\<lparr>mg_build := buildAdapter L E\<rparr>"

definition check_of :: "string \<times> check_status \<Rightarrow> verif_check" where
  "check_of r =
     (case snd r of
        Pass \<Rightarrow> \<lparr>ck_Name = fst r, ck_Status = ''pass'', ck_Detail = no_detail\<rparr>
      | Fail e \<Rightarrow> \<lparr>ck_Name = fst r, ck_Status = ''fail'', ck_Detail = (''%v'', [AErr e])\<rparr>
      | Skipped why \<Rightarrow> \<lparr>ck_Name = fst r, ck_Status = ''skip'', ck_Detail = (''%s'', [AStr why])\<rparr>)"

definition contract_of :: "plugin_record \<Rightarrow> plugin_client \<Rightarrow> contract_target" where
  "contract_of rec c =
     \<lparr>ct_Type = rc_Type rec, ct_Client = c, ct_Model = modelOf rec,
      ct_VectorDim = (case rc_Manifest rec of Some mf \<Rightarrow> mf_VectorDim mf | None \<Rightarrow> 0),
      ct_ExpectedBackend = (case rc_Manifest rec of
          Some mf \<Rightarrow> (case mf_Python mf of Some py \<Rightarrow> py_Backend py | None \<Rightarrow> []) | None \<Rightarrow> []),
      ct_RequireEmpty = True\<rparr>"

definition runContract ::
    "('v, 's, 'p, 'e) inst_lib \<Rightarrow> ('r, 'c, 'v, 's, 'p, 'e) mgr_env \<Rightarrow> plugin_record \<Rightarrow> (string, string) gomap \<Rightarrow>
     ('v, 's, 'p, 'e) slots \<Rightarrow> 'c \<Rightarrow> ('v, 's, 'p, 'e) service \<Rightarrow> verification res \<times> 'c \<times> ('v, 's, 'p, 'e) service" where
  "runContract L E rec sec sl c s =
     (case clientFor L E rec sec sl c s of
        (Inl e, c1, s1) \<Rightarrow> (Inl e, c1, s1)
      | (Inr cl, c1, s1) \<Rightarrow>
          (case il_contract L (contract_of rec cl) s1 of
             (rep, s2) \<Rightarrow>
               (Inr \<lparr>vf_At = mg_now E, vf_Passed = Passed rep, vf_Checks = map check_of rep,
                     vf_Summary = (''%s'', [AStr (Summary (type_name (rc_Type rec)) rep)])\<rparr>, c1, s2)))"

text \<open>Running a step on the controller, the slots and the service.\<close>

definition on_world :: "(('v, 's, 'p, 'e) slots \<Rightarrow> 'c \<Rightarrow> ('v, 's, 'p, 'e) service \<Rightarrow> 'a \<times> 'c \<times> ('v, 's, 'p, 'e) service) \<Rightarrow>
    ('r, 'c, 'v, 's, 'p, 'e) control \<Rightarrow> 'a \<times> ('r, 'c, 'v, 's, 'p, 'e) control" where
  "on_world f st = (case f (pm_slots st) (pm_ctl st) (pm_svc st) of (x, c, s) \<Rightarrow> (x, st\<lparr>pm_ctl := c, pm_svc := s\<rparr>))"

section \<open>Verification without installing\<close>

record verify_result =
  vr_Valid :: bool
  vr_Name :: string
  vr_Version :: string
  vr_Type :: "plugin_type option"
  vr_Description :: string
  vr_ConfigSchema :: "(string, property) gomap"
  vr_Secrets :: "secret_ref list"
  vr_Commit :: string
  vr_Issues :: "issue list"
  vr_Verification :: "verification option"
  vr_Notes :: "string list"

definition no_result :: verify_result where
  "no_result = \<lparr>vr_Valid = False, vr_Name = [], vr_Version = [], vr_Type = None, vr_Description = [], vr_ConfigSchema = [],
     vr_Secrets = [], vr_Commit = [], vr_Issues = [], vr_Verification = None, vr_Notes = []\<rparr>"

definition zero_health :: health where
  "zero_health = \<lparr>hl_Status = [], hl_Message = no_detail, hl_CheckedAt = 0\<rparr>"

text \<open>A record with the given fields and the zero value everywhere else.\<close>

definition fresh_record :: "string \<Rightarrow> parsed_request \<Rightarrow> plugin_record" where
  "fresh_record k p =
     \<lparr>rc_ID = k, rc_Name = [], rc_Version = [], rc_Type = pr_typ p, rc_ContractVersion = [], rc_Mode = pr_mode p,
      rc_Source = pr_source p, rc_Commit = [], rc_ImageDigest = [], rc_Manifest = pr_manifest p, rc_Config = pr_config p,
      rc_Secrets = [], rc_State = StateDraft, rc_StateDetail = no_detail, rc_Health = zero_health, rc_Active = False,
      rc_PreviousActiveID = [], rc_PreviousThreshold = None, rc_Confirmations = no_confirmations, rc_Verification = None,
      rc_Scan = None, rc_Provenance = None, rc_InstanceID = [], rc_UpgradedFromID = [], rc_Rev = 0, rc_CreatedAt = 0,
      rc_UpdatedAt = 0\<rparr>"

definition invalid_message :: "goerr \<Rightarrow> (string \<times> earg list) option" where
  "invalid_message e =
     (case errors_as (\<lambda>x. case x of InvalidError _ _ \<Rightarrow> True | _ \<Rightarrow> False) e of
        Some (InvalidError f as) \<Rightarrow> Some (f, as) | _ \<Rightarrow> None)"

definition plain_issue :: "goerr \<Rightarrow> issue" where
  "plain_issue e = issue_at [] ''%v'' [AErr e]"

text \<open>The manifest a dry run gets from the controller; an error is the result to give up with.\<close>

definition prepared_manifest ::
    "('v, 's, 'p, 'e) inst_lib \<Rightarrow> ('r, 'c, 'v, 's, 'p, 'e) mgr_env \<Rightarrow> install_request \<Rightarrow> parsed_request \<Rightarrow>
     ('r, 'c, 'v, 's, 'p, 'e) control \<Rightarrow> (verify_result + manifest \<times> verify_result) \<times> ('r, 'c, 'v, 's, 'p, 'e) control" where
  "prepared_manifest L E req p st =
     (case mg_ctl E of
        None \<Rightarrow> (Inl (no_result\<lparr>vr_Issues := [plain_issue nil_pointer]\<rparr>), st)
      | Some C \<Rightarrow>
          (case co_Prepare C \<lparr>pq_Mode = pr_mode p, pq_Type = pr_typ p, pq_Image = so_ImageRef (pr_source p),
               pq_Repo = so_RepoURL (pr_source p), pq_Revision = so_Revision (pr_source p), pq_Manifest = [], pq_DryRun = True,
               pq_PluginID = []\<rparr> (pm_ctl st) of
             (r, c) \<Rightarrow>
               (case r of
                  Inl e \<Rightarrow> Inl (no_result\<lparr>vr_Issues := [plain_issue e]\<rparr>)
                | Inr pr \<Rightarrow>
                    (case manifest_Parse (ql_yaml (il_req L)) (ps_Manifest pr) of
                       Inl is \<Rightarrow> Inl (no_result\<lparr>vr_Issues := [plain_issue (ValidationError is)]\<rparr>)
                     | Inr mf \<Rightarrow>
                         if mf_Type mf \<noteq> type_name (pr_typ p)
                         then Inl (no_result\<lparr>vr_Issues := [issue_at ''spec.type'' ''manifest is for type %s, not %s''
                                [AStr (mf_Type mf), AStr (type_name (pr_typ p))]]\<rparr>)
                         else Inr (mf, no_result\<lparr>vr_Commit := ps_Commit pr,
                                vr_Issues := (case checkConfigAndSecrets (il_req L) mf (pr_mode p) (pr_config p) (ir_Secrets req) of
                                    Some e \<Rightarrow> [plain_issue e] | None \<Rightarrow> [])\<rparr>)),
                st\<lparr>pm_ctl := c\<rparr>)))"

definition mgr_Verify ::
    "('v, 's, 'p, 'e) inst_lib \<Rightarrow> ('r, 'c, 'v, 's, 'p, 'e) mgr_env \<Rightarrow> install_request \<Rightarrow> ('r, 'c, 'v, 's, 'p, 'e) control \<Rightarrow>
     verify_result res \<times> ('r, 'c, 'v, 's, 'p, 'e) control" where
  "mgr_Verify L E req st =
     (case requireEnabled E of
        Some e \<Rightarrow> (Inl e, st)
      | None \<Rightarrow>
     (case parseRequest (il_req L) E req of
        Inl e \<Rightarrow>
          (case invalid_message e of
             Some (f, as) \<Rightarrow> (Inr (no_result\<lparr>vr_Issues := [issue_at [] f as]\<rparr>), audit E ''verify'' None ''failed'' (f, as) st)
           | None \<Rightarrow> (Inl e, st))
      | Inr p \<Rightarrow>
     (case (case pr_manifest p of Some mf \<Rightarrow> (Inr (mf, no_result), st) | None \<Rightarrow> prepared_manifest L E req p st) of
        (Inl res, st1) \<Rightarrow> (Inr res, st1)
      | (Inr (mf, res0), st1) \<Rightarrow>
          (let res = res0\<lparr>vr_Name := mf_Name mf, vr_Version := mf_Version mf, vr_Type := Some (pr_typ p),
                 vr_Description := mf_Description mf, vr_ConfigSchema := mf_Properties mf, vr_Secrets := mf_Secrets mf,
                 vr_Valid := (vr_Issues res0 = [])\<rparr>
           in case (if pr_mode p = ModeEndpoint \<and> vr_Valid res
                    then (case on_world (runContract L E ((fresh_record ''verify'' p)\<lparr>rc_State := StateDraft, rc_Manifest := Some mf\<rparr>)
                                (pr_secrets p)) st1 of
                            (Inl e, st2) \<Rightarrow> (res\<lparr>vr_Valid := False, vr_Issues := vr_Issues res @ [plain_issue e]\<rparr>, st2)
                          | (Inr v, st2) \<Rightarrow> (res\<lparr>vr_Verification := Some v, vr_Valid := vf_Passed v\<rparr>, st2))
                    else if pr_mode p \<noteq> ModeEndpoint
                    then (res\<lparr>vr_Notes := vr_Notes res @ [''the image or repository is built, scanned and contract-tested when you install it'']\<rparr>, st1)
                    else (res, st1)) of
                (res1, st2) \<Rightarrow>
                  (Inr res1, audit E ''verify'' None (if vr_Valid res1 then ''ok'' else ''failed'')
                     (''%s %s'', [AStr (mode_name (pr_mode p)), AStr (type_name (pr_typ p))]) st2)))))"

section \<open>Installing\<close>

text \<open>One character for every rune: the continuation bytes of UTF-8 are skipped. Only ASCII letters change case.\<close>

definition placeholderName :: "string \<Rightarrow> source \<Rightarrow> string" where
  "placeholderName hint src =
     (let last_part = (\<lambda>s. rev (takeWhile (\<lambda>c. c \<noteq> CHR ''/'') (rev s)));
          n = (if hint \<noteq> [] then to_lower hint
               else if so_RepoURL src \<noteq> [] then last_part (so_RepoURL src)
               else if so_ImageRef src \<noteq> []
               then takeWhile (\<lambda>c. c \<noteq> CHR ''@'') (takeWhile (\<lambda>c. c \<noteq> CHR '':'') (last_part (so_ImageRef src)))
               else []);
          b = map (\<lambda>c. if is_lower c \<or> is_digit c \<or> c = CHR ''-'' then c else CHR ''-'')
            (filter (\<lambda>c. (of_char c :: nat) div 64 \<noteq> 2) (trim_suffix ''.git'' n));
          out = trim_chars ''-'' b
      in take 60 (if out = [] then ''plugin'' else out))"

definition newID :: "string \<Rightarrow> string" where
  "newID random = ''plg_'' @ hex_encode random"

definition newRecord :: "('r, 'c, 'v, 's, 'p, 'e) mgr_env \<Rightarrow> string \<Rightarrow> parsed_request \<Rightarrow> string \<Rightarrow> plugin_record" where
  "newRecord E random p hint =
     (let r = (fresh_record (newID random) p)\<lparr>rc_ContractVersion := ContractVersion,
            rc_Health := zero_health\<lparr>hl_Status := ''unknown''\<rparr>, rc_CreatedAt := mg_now E, rc_UpdatedAt := mg_now E\<rparr>
      in case pr_manifest p of
           Some mf \<Rightarrow> r\<lparr>rc_Name := mf_Name mf, rc_Version := mf_Version mf,
                       rc_Config := (case ResolveConfig mf (pr_config p) of Inr cfg \<Rightarrow> cfg | Inl _ \<Rightarrow> pr_config p)\<rparr>
         | None \<Rightarrow> r\<lparr>rc_Name := placeholderName hint (pr_source p), rc_Version := ''0.0.0''\<rparr>)"

text \<open>The nonce drawn for each secret is an argument.\<close>

definition sealInto ::
    "('r, 'c, 'v, 's, 'p, 'e) mgr_env \<Rightarrow> (string \<Rightarrow> string res) \<Rightarrow> plugin_record \<Rightarrow> (string, string) gomap \<Rightarrow> plugin_record res" where
  "sealInto E nonce rec sec =
     (if sec = [] then Inr rec
      else case mg_box E of
        None \<Rightarrow> Inl nil_pointer
      | Some b \<Rightarrow>
          res_bind (foldl (\<lambda>acc (name, v). res_bind acc (\<lambda>out. case Seal b (nonce name) (rc_ID rec) name v of
              Inl e \<Rightarrow> Inl (Errorf ''encrypt secret %s: %w'' [AStr name, AWrap e])
            | Inr s \<Rightarrow> Inr (gm_put name s out))) (Inr []) sec) (\<lambda>out. Inr (rec\<lparr>rc_Secrets := out\<rparr>)))"

text \<open>The record and the pipeline to run in the background: the id and whether to activate.\<close>

type_synonym started = "plugin_record \<times> (string \<times> bool)"

text \<open>\<open>Create\<close> sets the revision of the caller's record.\<close>

definition create_record ::
    "('r, 'c, 'v, 's, 'p, 'e) mgr_env \<Rightarrow> plugin_record \<Rightarrow> ('r, 'c, 'v, 's, 'p, 'e) control \<Rightarrow>
     plugin_record res \<times> ('r, 'c, 'v, 's, 'p, 'e) control" where
  "create_record E rec st =
     (case on_reg (rg_Create (mg_G E) rec) st of
        (Some e, st1) \<Rightarrow> (Inl e, st1)
      | (None, st1) \<Rightarrow> (Inr (rec\<lparr>rc_Rev := 1\<rparr>), st1))"

definition with_confirmations :: "confirmations option \<Rightarrow> plugin_record \<Rightarrow> plugin_record" where
  "with_confirmations c rec = (case c of Some x \<Rightarrow> rec\<lparr>rc_Confirmations := x\<rparr> | None \<Rightarrow> rec)"

definition mgr_Install ::
    "('v, 's, 'p, 'e) inst_lib \<Rightarrow> ('r, 'c, 'v, 's, 'p, 'e) mgr_env \<Rightarrow> string \<Rightarrow> (string \<Rightarrow> string res) \<Rightarrow> install_request \<Rightarrow>
     ('r, 'c, 'v, 's, 'p, 'e) control \<Rightarrow> started res \<times> ('r, 'c, 'v, 's, 'p, 'e) control" where
  "mgr_Install L E random nonce req st =
     (case requireEnabled E of
        Some e \<Rightarrow> (Inl e, st)
      | None \<Rightarrow>
          (case parseRequest (il_req L) E req of
             Inl e \<Rightarrow> (Inl e, audit E ''install'' None ''denied'' (''%v'', [AErr e]) st)
           | Inr p \<Rightarrow>
               (case sealInto E nonce (newRecord E random p (ir_Name req)) (pr_secrets p) of
                  Inl e \<Rightarrow> (Inl e, st)
                | Inr rec \<Rightarrow>
                    (case create_record E (with_confirmations (ir_Confirmations req) rec) st of
                       (Inl e, st1) \<Rightarrow> (Inl e, st1)
                     | (Inr r, st1) \<Rightarrow>
                         (Inr (r, (rc_ID r, ir_Activate req)),
                          logf E (rc_ID r) ''installation requested (%s, %s)'' [AStr (mode_name (pr_mode p)), AStr (type_name (pr_typ p))]
                            (audit E ''install'' (Some r) ''ok'' (''%s %s@%s'', [AStr (mode_name (pr_mode p)), AStr (rc_Name r), AStr (rc_Version r)]) st1))))))"

section \<open>The pipeline\<close>

text \<open>\<open>fail\<close>: a failed candidate is recorded and its instance released.\<close>

definition pipeline_fail :: "('r, 'c, 'v, 's, 'p, 'e) mgr_env \<Rightarrow> string \<Rightarrow> goerr \<Rightarrow> ('r, 'c, 'v, 's, 'p, 'e) control \<Rightarrow>
    goerr option \<times> ('r, 'c, 'v, 's, 'p, 'e) control" where
  "pipeline_fail E k cause st =
     (let st1 = logf E k ''FAILED: %s'' [AErr cause] st;
          st2 = (case reg_get E k st1 of
              (Inl _, u) \<Rightarrow> u
            | (Inr rec, u) \<Rightarrow>
                (let v = audit E ''install'' (Some rec) ''failed'' (''%v'', [AErr cause]) u
                 in case mg_ctl E of
                      Some C \<Rightarrow> if rc_Mode rec \<noteq> ModeEndpoint then v\<lparr>pm_ctl := snd (co_Stop C k (pm_ctl v))\<rparr> else v
                    | None \<Rightarrow> v))
      in (Some cause, reg_set E k (\<lambda>r. r\<lparr>rc_State := StateFailed, rc_StateDetail := (''%v'', [AErr cause]),
            rc_Health := zero_health\<lparr>hl_Status := ''unknown''\<rparr>\<rparr>) st2))"

text \<open>\<open>if _, err := m.setState(...); err != nil { return err }\<close>.\<close>

definition to_state ::
    "('r, 'c, 'v, 's, 'p, 'e) mgr_env \<Rightarrow> string \<Rightarrow> plugin_state \<Rightarrow> detail \<Rightarrow> ('r, 'c, 'v, 's, 'p, 'e) control \<Rightarrow>
     (('r, 'c, 'v, 's, 'p, 'e) control \<Rightarrow> goerr option \<times> ('r, 'c, 'v, 's, 'p, 'e) control) \<Rightarrow>
     goerr option \<times> ('r, 'c, 'v, 's, 'p, 'e) control" where
  "to_state E k s d st cont =
     (case setState E k s d st of (Inl e, st1) \<Rightarrow> (Some e, st1) | (Inr _, st1) \<Rightarrow> cont st1)"

definition manifestText :: "('v, 's, 'p, 'e) inst_lib \<Rightarrow> plugin_record \<Rightarrow> string" where
  "manifestText L rec =
     (case rc_Manifest rec of
        Some mf \<Rightarrow> if rc_Mode rec = ModeRepository then [] else (case il_marshal L mf of Inr t \<Rightarrow> t | Inl _ \<Rightarrow> [])
      | None \<Rightarrow> [])"

text \<open>What the prepared image must satisfy; the result is its manifest and the resolved configuration.\<close>

definition accept_prepared ::
    "('v, 's, 'p, 'e) inst_lib \<Rightarrow> plugin_record \<Rightarrow> (string, string) gomap \<Rightarrow> prepare_result \<Rightarrow>
     (manifest \<times> (string, anyval) gomap) res" where
  "accept_prepared L rec sec pr =
     res_bind (case manifest_Parse (ql_yaml (il_req L)) (ps_Manifest pr) of Inl is \<Rightarrow> Inl (ValidationError is) | Inr mf \<Rightarrow> Inr mf) (\<lambda>mf.
     if mf_Type mf \<noteq> type_name (rc_Type rec)
     then Inl (Errorf ''manifest is for type %s but the plugin was installed as %s'' [AStr (mf_Type mf), AStr (type_name (rc_Type rec))])
     else res_bind (ResolveConfig mf (rc_Config rec)) (\<lambda>cfg.
     case CheckSecrets (ql_render (il_req L)) mf (gm_keys sec) of
       Some e \<Rightarrow> Inl e
     | None \<Rightarrow>
         (case ps_Scan pr of
            Some sc \<Rightarrow> if sc_Status sc = ''failed'' then Inl (Errorf ''image scan failed: %s'' [AStr (sc_Message sc)]) else Inr (mf, cfg)
          | None \<Rightarrow> Inr (mf, cfg))))"

definition pin_image :: "prepare_result \<Rightarrow> manifest \<Rightarrow> (string, anyval) gomap \<Rightarrow> plugin_record \<Rightarrow> plugin_record" where
  "pin_image pr mf cfg r =
     r\<lparr>rc_Manifest := Some mf, rc_Name := mf_Name mf, rc_Version := mf_Version mf, rc_Config := cfg,
       rc_ImageDigest := ps_Digest pr, rc_Commit := ps_Commit pr, rc_Scan := ps_Scan pr, rc_Provenance := ps_Provenance pr\<rparr>"

text \<open>The preparation of an image or repository; a nil record makes the next step panic.\<close>

definition prepare_step ::
    "('v, 's, 'p, 'e) inst_lib \<Rightarrow> ('r, 'c, 'v, 's, 'p, 'e) mgr_env \<Rightarrow> string \<Rightarrow> plugin_record \<Rightarrow> (string, string) gomap \<Rightarrow>
     ('r, 'c, 'v, 's, 'p, 'e) control \<Rightarrow>
     (plugin_record \<Rightarrow> ('r, 'c, 'v, 's, 'p, 'e) control \<Rightarrow> goerr option \<times> ('r, 'c, 'v, 's, 'p, 'e) control) \<Rightarrow>
     goerr option \<times> ('r, 'c, 'v, 's, 'p, 'e) control" where
  "prepare_step L E k rec sec st cont =
     to_state E k (if rc_Mode rec = ModeRepository then StateBuilding else StateScanning) (''preparing image'', []) st (\<lambda>st1.
     case mg_ctl E of
       None \<Rightarrow> (Some nil_pointer, st1)
     | Some C \<Rightarrow>
         (case co_Prepare C \<lparr>pq_Mode = rc_Mode rec, pq_Type = rc_Type rec, pq_Image = so_ImageRef (rc_Source rec),
              pq_Repo = so_RepoURL (rc_Source rec), pq_Revision = so_Revision (rc_Source rec), pq_Manifest = manifestText L rec,
              pq_DryRun = False, pq_PluginID = rc_ID rec\<rparr> (pm_ctl st1) of
            (Inl e, c) \<Rightarrow> pipeline_fail E k (Errorf ''prepare: %w'' [AWrap e]) (st1\<lparr>pm_ctl := c\<rparr>)
          | (Inr pr, c) \<Rightarrow>
              (let st2 = fold (\<lambda>l u. logf E k ''controller: %s'' [AStr l] u) (ps_Log pr) (st1\<lparr>pm_ctl := c\<rparr>)
               in case accept_prepared L rec sec pr of
                    Inl e \<Rightarrow> pipeline_fail E k e st2
                  | Inr (mf, cfg) \<Rightarrow>
                      (case reg_update E k (\<lambda>r. Inr (pin_image pr mf cfg r)) st2 of
                         (Inl e, st3) \<Rightarrow> (Some e, st3)
                       | (Inr _, st3) \<Rightarrow>
                           (case setState E k StateScanning (''scanned'', []) st3 of
                              (x, st4) \<Rightarrow>
                                if \<not> res_ok x \<and> rc_Mode rec = ModeRepository
                                then (case x of Inl e \<Rightarrow> (Some e, st4) | Inr _ \<Rightarrow> (None, st4))
                                else (case reg_get E k (logf E k ''image pinned to %s'' [AStr (ps_Digest pr)] st4) of
                                        (Inl _, st5) \<Rightarrow> (Some nil_pointer, st5)
                                      | (Inr rec1, st5) \<Rightarrow> cont rec1 st5))))))"

definition start_step ::
    "('v, 's, 'p, 'e) inst_lib \<Rightarrow> ('r, 'c, 'v, 's, 'p, 'e) mgr_env \<Rightarrow> string \<Rightarrow> plugin_record \<Rightarrow> (string, string) gomap \<Rightarrow>
     ('r, 'c, 'v, 's, 'p, 'e) control \<Rightarrow>
     (('r, 'c, 'v, 's, 'p, 'e) control \<Rightarrow> goerr option \<times> ('r, 'c, 'v, 's, 'p, 'e) control) \<Rightarrow>
     goerr option \<times> ('r, 'c, 'v, 's, 'p, 'e) control" where
  "start_step L E k rec sec st cont =
     to_state E k StateStarting (''starting isolated candidate'', []) st (\<lambda>st1.
     case on_world (ensureInstance L E rec sec) (logf E k ''starting candidate container'' [] st1) of
       (Inl e, st2) \<Rightarrow> pipeline_fail E k e st2
     | (Inr _, st2) \<Rightarrow> cont st2)"

definition test_step ::
    "('v, 's, 'p, 'e) inst_lib \<Rightarrow> ('r, 'c, 'v, 's, 'p, 'e) mgr_env \<Rightarrow> string \<Rightarrow> plugin_record \<Rightarrow> (string, string) gomap \<Rightarrow>
     ('r, 'c, 'v, 's, 'p, 'e) control \<Rightarrow>
     (('r, 'c, 'v, 's, 'p, 'e) control \<Rightarrow> goerr option \<times> ('r, 'c, 'v, 's, 'p, 'e) control) \<Rightarrow>
     goerr option \<times> ('r, 'c, 'v, 's, 'p, 'e) control" where
  "test_step L E k rec sec st cont =
     to_state E k StateTesting (''running contract tests'', []) st (\<lambda>st1.
     case on_world (runContract L E rec sec) st1 of
       (Inl e, st2) \<Rightarrow> pipeline_fail E k (Errorf ''contract tests could not run: %w'' [AWrap e]) st2
     | (Inr v, st2) \<Rightarrow>
         (let st3 = logf E k ''%s'' (snd (vf_Summary v)) (reg_set E k (\<lambda>r. r\<lparr>rc_Verification := Some v\<rparr>) st2)
          in if \<not> vf_Passed v then pipeline_fail E k (Errorf ''%s'' (snd (vf_Summary v))) st3 else cont st3))"

definition health_step ::
    "('v, 's, 'p, 'e) inst_lib \<Rightarrow> ('r, 'c, 'v, 's, 'p, 'e) mgr_env \<Rightarrow> string \<Rightarrow> plugin_record \<Rightarrow> (string, string) gomap \<Rightarrow>
     ('r, 'c, 'v, 's, 'p, 'e) control \<Rightarrow>
     (('r, 'c, 'v, 's, 'p, 'e) control \<Rightarrow> goerr option \<times> ('r, 'c, 'v, 's, 'p, 'e) control) \<Rightarrow>
     goerr option \<times> ('r, 'c, 'v, 's, 'p, 'e) control" where
  "health_step L E k rec sec st cont =
     to_state E k StateChecking (''checking health'', []) st (\<lambda>st1.
     case on_world (buildAdapter L E rec sec) st1 of
       (Inl e, st2) \<Rightarrow> pipeline_fail E k e st2
     | (Inr a, st2) \<Rightarrow>
         (case probeHealth a (pm_svc st2) of
            (Some e, s) \<Rightarrow> pipeline_fail E k (Errorf ''health check failed: %w'' [AWrap e]) (st2\<lparr>pm_svc := Close a s\<rparr>)
          | (None, s) \<Rightarrow> cont (st2\<lparr>pm_svc := Close a s\<rparr>)))"

definition verified_step ::
    "('r, 'c, 'v, 's, 'p, 'e) mgr_env \<Rightarrow> string \<Rightarrow> plugin_record \<Rightarrow> ('r, 'c, 'v, 's, 'p, 'e) control \<Rightarrow>
     goerr option \<times> ('r, 'c, 'v, 's, 'p, 'e) control" where
  "verified_step E k rec st =
     (case reg_update E k (\<lambda>r. Inr (r\<lparr>rc_Health := zero_health\<lparr>hl_Status := ''healthy'', hl_CheckedAt := mg_now E\<rparr>,
             rc_InstanceID := (if rc_Mode rec \<noteq> ModeEndpoint then rc_ID r else [])\<rparr>)) st of
        (Inl e, st1) \<Rightarrow> (Some e, st1)
      | (Inr _, st1) \<Rightarrow>
          to_state E k StateVerified (''verified: contract tests and health check passed'', []) st1 (\<lambda>st2.
          (None, logf E k ''verified; ready to activate'' [] st2)))"

definition pipeline ::
    "('v, 's, 'p, 'e) inst_lib \<Rightarrow> ('r, 'c, 'v, 's, 'p, 'e) mgr_env \<Rightarrow> string \<Rightarrow> ('r, 'c, 'v, 's, 'p, 'e) control \<Rightarrow>
     goerr option \<times> ('r, 'c, 'v, 's, 'p, 'e) control" where
  "pipeline L E k st =
     (case reg_get E k st of
        (Inl e, st1) \<Rightarrow> (Some e, st1)
      | (Inr rec, st1) \<Rightarrow>
     (case openSecrets E rec of
        Inl e \<Rightarrow> pipeline_fail E k e st1
      | Inr sec \<Rightarrow>
          to_state E k StateValidating (''validating manifest'', []) st1 (\<lambda>st2.
          let st3 = logf E k ''validating manifest and configuration'' [] st2;
              rest = (\<lambda>rec st. test_step L E k rec sec st (\<lambda>st. health_step L E k rec sec st (\<lambda>st. verified_step E k rec st)))
          in if rc_Mode rec = ModeEndpoint then rest rec st3
             else prepare_step L E k rec sec st3 (\<lambda>rec1 st4.
               if rc_Mode rec1 \<noteq> ModeEndpoint then start_step L E k rec1 sec st4 (rest rec1) else rest rec1 st4))))"

text \<open>The goroutine of \<open>startPipeline\<close>.\<close>

definition run_pipeline ::
    "('v, 's, 'p, 'e) inst_lib \<Rightarrow> ('r, 'c, 'v, 's, 'p, 'e) mgr_env \<Rightarrow> string \<times> bool \<Rightarrow> ('r, 'c, 'v, 's, 'p, 'e) control \<Rightarrow>
     ('r, 'c, 'v, 's, 'p, 'e) control" where
  "run_pipeline L E job st =
     (case job of (k, act) \<Rightarrow>
       (case pipeline L E k st of
          (Some _, st1) \<Rightarrow> st1
        | (None, st1) \<Rightarrow>
            if \<not> act then st1
            else case reg_get E k st1 of
                   (Inl _, st2) \<Rightarrow> st2
                 | (Inr rec, st2) \<Rightarrow>
                     (case activate (building L E) (rc_ID rec) (rc_Confirmations rec) st2 of
                        (Inr _, st3) \<Rightarrow> st3
                      | (Inl e, st3) \<Rightarrow> logf E k ''automatic activation did not complete: %v'' [AErr e] st3)))"

end
