(* ===== verification/Orchestrator_Laws.thy ===== *)
theory Orchestrator_Laws
  imports Orchestrator
begin

text \<open>
  What the orchestrator guarantees on lawful ports. The locale joins the laws of the three stateful
  ports; inside it, each handler is described on every branch over the abstract contents (the
  entries stored, the vectors indexed, the ids the policy tracks). \<open>synced\<close> is the consistency the
  handlers work to keep: the three hold the same ids.
\<close>

locale orchestrator =
  store: cache_store "d_S D" sok sview +
  pol: eviction_policy "d_P D" pok tracked +
  vec: vector_store "d_V D" vok vview
  for D :: "('v, 's, 'p, 'e) deps" and sok sview pok tracked vok vview +
  assumes finite_tracked: "pok p \<Longrightarrow> finite (tracked p)"
begin

definition svc_ok :: "('v, 's, 'p, 'e) service \<Rightarrow> bool" where
  "svc_ok s \<longleftrightarrow> sok (sv_S s) \<and> pok (sv_P s) \<and> vok (sv_V s)"

definition entries :: "('v, 's, 'p, 'e) service \<Rightarrow> string \<Rightarrow> Entry option" where
  "entries s = sview (sv_S s)"

definition vectors :: "('v, 's, 'p, 'e) service \<Rightarrow> string \<Rightarrow> f64 list option" where
  "vectors s = vview (sv_V s)"

definition ids :: "('v, 's, 'p, 'e) service \<Rightarrow> string set" where
  "ids s = tracked (sv_P s)"

definition synced :: "('v, 's, 'p, 'e) service \<Rightarrow> bool" where
  "synced s \<longleftrightarrow> svc_ok s \<and> dom (entries s) = ids s \<and> dom (vectors s) = ids s"

abbreviation capacity :: int where
  "capacity \<equiv> cfg_Capacity (d_cfg D)"

lemmas view_defs = svc_ok_def entries_def vectors_def ids_def

lemma finite_entries: "svc_ok s \<Longrightarrow> finite (dom (entries s))"
  by (simp add: view_defs store.finite_view)

lemma finite_ids: "svc_ok s \<Longrightarrow> finite (ids s)"
  by (simp add: view_defs finite_tracked)

section \<open>Capacity\<close>

text \<open>A turn that goes round again has evicted one tracked id everywhere.\<close>

lemma step_again:
  assumes ok: "svc_ok s" and step: "enforce_step D s = Inr t"
  obtains k where "k \<in> ids s" and "svc_ok t" and "ids t = ids s - {k}"
    and "entries t = (entries s)(k := None)" and "vectors t = (vectors s)(k := None)"
    and "int (card (dom (entries s))) > capacity" and "sv_evictions t = sv_evictions s + 1"
    and "sv_hits t = sv_hits s" and "sv_misses t = sv_misses s"
proof -
  obtain n a where sz: "st_Size (d_S D) (sv_S s) = (Inr n, a)" and gt: "\<not> n \<le> capacity"
    using step by (auto simp: enforce_step_def split: prod.splits sum.splits if_splits)
  obtain k p where v: "po_Victim (d_P D) (sv_P s) = (Some k, p)"
    using step sz gt by (auto simp: enforce_step_def split: prod.splits option.splits)
  obtain b where d: "st_Delete (d_S D) k a = (None, b)"
    using step sz gt v by (auto simp: enforce_step_def split: prod.splits option.splits)
  obtain w where e: "vs_Delete (d_V D) k (sv_V s) = (None, w)"
    using step sz gt v d by (auto simp: enforce_step_def split: prod.splits option.splits)
  have t: "t = recordEviction (s\<lparr>sv_S := b, sv_V := w, sv_P := po_OnDelete (d_P D) k p\<rparr>)"
    using step sz gt v d e by (simp add: enforce_step_def)
  have so: "sok (sv_S s)" and po: "pok (sv_P s)" and vo: "vok (sv_V s)"
    using ok by (simp_all add: svc_ok_def)
  note S1 = store.size_state [OF so sz] and S2 = store.size_card [OF so sz]
  note S3 = store.delete_ok [OF conjunct1 [OF S1] d]
  note P1 = pol.victim_state [OF po v] and P2 = pol.victim_live [OF po v]
  note P3 = pol.del [OF conjunct1 [OF P1], of k]
  note V1 = vec.vdelete_ok [OF vo e]
  show thesis
    by (rule that [of k]) (use S1 S2 S3 P1 P2 P3 V1 gt in \<open>simp_all add: t view_defs recordEviction_def\<close>)
qed

text \<open>A turn that returns has at most half-evicted one id, and only if it reports an error.\<close>

lemma step_return:
  assumes ok: "svc_ok s" and step: "enforce_step D s = Inl (r, t)"
  shows "svc_ok t" and "ids t = ids s"
    and "r = None \<Longrightarrow> entries t = entries s \<and> vectors t = vectors s \<and>
      int (card (dom (entries s))) \<le> capacity"
    and "\<exists>k. entries t \<in> {entries s, (entries s)(k := None)} \<and>
      vectors t \<in> {vectors s, (vectors s)(k := None)}"
    and "sv_evictions t = sv_evictions s" and "sv_hits t = sv_hits s" and "sv_misses t = sv_misses s"
proof -
  have so: "sok (sv_S s)" and po: "pok (sv_P s)" and vo: "vok (sv_V s)"
    using ok by (simp_all add: svc_ok_def)
  obtain n a where sz: "st_Size (d_S D) (sv_S s) = (n, a)" by fastforce
  note S1 = store.size_state [OF so sz]
  obtain v p where v: "po_Victim (d_P D) (sv_P s) = (v, p)" by fastforce
  note P1 = pol.victim_state [OF po v]
  have "svc_ok t \<and> ids t = ids s \<and>
    (r = None \<longrightarrow> entries t = entries s \<and> vectors t = vectors s \<and> int (card (dom (entries s))) \<le> capacity) \<and>
    (\<exists>k. entries t \<in> {entries s, (entries s)(k := None)} \<and> vectors t \<in> {vectors s, (vectors s)(k := None)}) \<and>
    sv_evictions t = sv_evictions s \<and> sv_hits t = sv_hits s \<and> sv_misses t = sv_misses s"
  proof (cases "\<exists>i k. n = Inr i \<and> \<not> i \<le> capacity \<and> v = Some k")
    case False
    then consider err where "n = Inl err" | i where "n = Inr i" "i \<le> capacity"
      | i where "n = Inr i" "\<not> i \<le> capacity" "v = None"
      by (cases n; cases v) auto
    then show ?thesis
    proof cases
      case 1
      then have "t = s\<lparr>sv_S := a\<rparr>" and "r \<noteq> None" using step by (auto simp: enforce_step_def sz)
      then show ?thesis using S1 po vo by (simp add: view_defs del: not_None_eq)
    next
      case 2
      then have "t = s\<lparr>sv_S := a\<rparr>" and "r = None" using step by (auto simp: enforce_step_def sz)
      moreover have "i = int (card (dom (sview (sv_S s))))" using store.size_card [OF so] sz 2 by blast
      ultimately show ?thesis using S1 po vo 2(2) by (simp add: view_defs)
    next
      case 3
      then have "t = s\<lparr>sv_S := a, sv_P := p\<rparr>" and "r \<noteq> None"
        using step by (auto simp: enforce_step_def sz v)
      then show ?thesis using S1 P1 vo by (simp add: view_defs del: not_None_eq)
    qed
  next
    case True
    then obtain i k where ik: "n = Inr i" "\<not> i \<le> capacity" "v = Some k" by blast
    obtain x b where d: "st_Delete (d_S D) k a = (x, b)" by fastforce
    obtain y w where e: "vs_Delete (d_V D) k (sv_V s) = (y, w)" by fastforce
    have a: "sok a" "sview a = sview (sv_S s)" using S1 by auto
    show ?thesis
    proof (cases x)
      case (Some err)
      then have "t = s\<lparr>sv_S := b, sv_P := p\<rparr>" and "r \<noteq> None"
        using step ik d by (auto simp: enforce_step_def sz v)
      moreover have "sok b \<and> sview b \<in> {sview a, (sview a)(k := None)}"
        using store.delete_err [OF a(1)] d Some by blast
      ultimately show ?thesis using P1 vo a by (intro conjI exI [of _ k]) (simp_all add: view_defs del: not_None_eq)
    next
      case None
      then obtain err where y: "y = Some err"
        using step ik d e by (cases y) (auto simp: enforce_step_def sz v)
      have "t = s\<lparr>sv_S := b, sv_P := p, sv_V := w\<rparr>" and "r \<noteq> None"
        using step ik d e None y by (auto simp: enforce_step_def sz v)
      moreover have "sok b \<and> sview b = (sview a)(k := None)"
        using store.delete_ok [OF a(1)] d None by blast
      moreover have "vok w \<and> vview w \<in> {vview (sv_V s), (vview (sv_V s))(k := None)}"
        using vec.vdelete_err [OF vo] e y by blast
      ultimately show ?thesis using P1 a by (intro conjI exI [of _ k]) (simp_all add: view_defs del: not_None_eq)
    qed
  qed
  then show "svc_ok t" and "ids t = ids s"
    and "r = None \<Longrightarrow> entries t = entries s \<and> vectors t = vectors s \<and>
      int (card (dom (entries s))) \<le> capacity"
    and "\<exists>k. entries t \<in> {entries s, (entries s)(k := None)} \<and>
      vectors t \<in> {vectors s, (vectors s)(k := None)}"
    and "sv_evictions t = sv_evictions s" and "sv_hits t = sv_hits s" and "sv_misses t = sv_misses s"
    by auto
qed

text \<open>The loop returns: each turn takes an id away from the policy, which tracks finitely many.\<close>

lemma loop_returns: "svc_ok s \<Longrightarrow> \<exists>r t. enforce_loop D s = Some (r, t)"
proof (induction "card (ids s)" arbitrary: s rule: less_induct)
  case less
  show ?case
  proof (cases "enforce_step D s")
    case (Inl x)
    then show ?thesis by (cases x) (simp add: enforce_loop.simps [of D s])
  next
    case (Inr t)
    then obtain k where k: "k \<in> ids s" "svc_ok t" "ids t = ids s - {k}"
      by (rule step_again [OF less.prems])
    then have "card (ids t) < card (ids s)"
      using finite_ids [OF less.prems] by (intro psubset_card_mono) auto
    from less.hyps [OF this k(2)] show ?thesis
      by (simp add: enforce_loop.simps [of D s] Inr)
  qed
qed

text \<open>Induction over a run of the loop.\<close>

lemma loop_induct [consumes 2, case_names return again]:
  assumes ok: "svc_ok s" and run: "enforce_loop D s = Some (r, t)"
    and return: "\<And>s. svc_ok s \<Longrightarrow> enforce_step D s = Inl (r, t) \<Longrightarrow> P s"
    and again: "\<And>s u. svc_ok s \<Longrightarrow> enforce_step D s = Inr u \<Longrightarrow> svc_ok u \<Longrightarrow>
           enforce_loop D u = Some (r, t) \<Longrightarrow> P u \<Longrightarrow> P s"
  shows "P s"
  using ok run
proof (induction "card (ids s)" arbitrary: s rule: less_induct)
  case less
  show ?case
  proof (cases "enforce_step D s")
    case (Inl x)
    with less.prems(2) have "x = (r, t)" by (simp add: enforce_loop.simps [of D s])
    with Inl return [OF less.prems(1)] show ?thesis by blast
  next
    case (Inr u)
    then obtain k where k: "k \<in> ids s" "svc_ok u" "ids u = ids s - {k}"
      by (rule step_again [OF less.prems(1)])
    have lt: "card (ids u) < card (ids s)"
      using k finite_ids [OF less.prems(1)] by (intro psubset_card_mono) auto
    have run': "enforce_loop D u = Some (r, t)"
      using less.prems(2) Inr by (simp add: enforce_loop.simps [of D s])
    show ?thesis
      by (rule again [OF less.prems(1) Inr k(2) run' less.hyps [OF lt k(2) run']])
  qed
qed

lemma loop_success:
  assumes "svc_ok s" and "enforce_loop D s = Some (None, t)"
  shows "svc_ok t \<and> int (card (dom (entries t))) \<le> capacity \<and>
    (\<exists>K \<subseteq> ids s. entries t = entries s |` (- K) \<and> vectors t = vectors s |` (- K) \<and>
       ids t = ids s - K \<and> sv_evictions t = sv_evictions s + int (card K))"
  using assms
proof (induction rule: loop_induct)
  case (return s)
  note r = step_return [OF return]
  show ?case
    using r(1,2,5) r(3) [OF refl] by (intro conjI exI [of _ "{}"]) (simp_all add: restrict_map_def)
next
  case (again s u)
  from \<open>svc_ok s\<close> \<open>enforce_step D s = Inr u\<close> obtain k where k: "k \<in> ids s" "ids u = ids s - {k}"
    "entries u = (entries s)(k := None)" "vectors u = (vectors s)(k := None)"
    "sv_evictions u = sv_evictions s + 1"
    by (rule step_again)
  obtain K where K: "K \<subseteq> ids u" "entries t = entries u |` (- K)" "vectors t = vectors u |` (- K)"
    "ids t = ids u - K" "sv_evictions t = sv_evictions u + int (card K)" and rest: "svc_ok t"
    "int (card (dom (entries t))) \<le> capacity"
    using again by blast
  have fin: "finite K" using K(1) k(2) finite_ids [OF \<open>svc_ok s\<close>] by (simp add: finite_subset)
  have "k \<notin> K" using K(1) k(2) by blast
  have "insert k K \<subseteq> ids s" using K(1) k by blast
  moreover have "entries t = entries s |` (- insert k K)"
    by (auto simp: K(2) k(3) restrict_map_def)
  moreover have "vectors t = vectors s |` (- insert k K)"
    by (auto simp: K(3) k(4) restrict_map_def)
  moreover have "ids t = ids s - insert k K" using K(4) k(2) by blast
  moreover have "sv_evictions t = sv_evictions s + int (card (insert k K))"
    using K(5) k(5) fin \<open>k \<notin> K\<close> by simp
  ultimately show ?case using rest by blast
qed

lemma enforce_returns: "svc_ok s \<Longrightarrow> \<exists>r t. enforceCapacity D s = Some (r, t)"
  by (simp add: enforceCapacity_def loop_returns)

lemma dom_restrict_eq:
  assumes "dom f = A"
  shows "dom (f |` (- K)) = A - K"
  using assms by (auto simp: restrict_map_def split: if_splits)

text \<open>A successful enforcement keeps the three in step and evicts exactly the excess.\<close>

lemma enforce_success:
  assumes sy: "synced s" and run: "enforceCapacity D s = Some (None, t)"
  shows "synced t" and "0 < capacity \<Longrightarrow> int (card (dom (entries t))) \<le> capacity"
    and "\<exists>K \<subseteq> ids s. entries t = entries s |` (- K) \<and> vectors t = vectors s |` (- K) \<and>
       sv_evictions t = sv_evictions s + int (card K)"
proof -
  have "synced t \<and> (0 < capacity \<longrightarrow> int (card (dom (entries t))) \<le> capacity) \<and>
    (\<exists>K \<subseteq> ids s. entries t = entries s |` (- K) \<and> vectors t = vectors s |` (- K) \<and>
       sv_evictions t = sv_evictions s + int (card K))"
  proof (cases "capacity \<le> 0")
    case True
    then have "t = s" using run by (simp add: enforceCapacity_def)
    with sy True show ?thesis by (intro conjI exI [of _ "{}"]) (simp_all add: restrict_map_def)
  next
    case False
    have ok: "svc_ok s" using sy by (simp add: synced_def)
    have "enforce_loop D s = Some (None, t)" using run False by (simp add: enforceCapacity_def)
    from loop_success [OF ok this] obtain K where "svc_ok t" "int (card (dom (entries t))) \<le> capacity"
      and K: "K \<subseteq> ids s" "entries t = entries s |` (- K)" "vectors t = vectors s |` (- K)"
        "ids t = ids s - K" "sv_evictions t = sv_evictions s + int (card K)" by blast
    moreover have "dom (entries t) = ids t" "dom (vectors t) = ids t"
      using sy dom_restrict_eq [of "entries s" "ids s" K] dom_restrict_eq [of "vectors s" "ids s" K]
      by (simp_all add: K synced_def)
    ultimately show ?thesis by (auto simp: synced_def)
  qed
  then show "synced t" and "0 < capacity \<Longrightarrow> int (card (dom (entries t))) \<le> capacity"
    and "\<exists>K \<subseteq> ids s. entries t = entries s |` (- K) \<and> vectors t = vectors s |` (- K) \<and>
       sv_evictions t = sv_evictions s + int (card K)" by blast+
qed

end

end
