(* ===== verification/Orchestrator_Flow.thy ===== *)
theory Orchestrator_Flow
  imports Orchestrator_Laws "HOL-Library.Sublist"
begin

text \<open>
  The handlers of the orchestrator over the abstract contents, on every branch: the query path,
  the cache worker, restart, flush. All in the locale \<open>orchestrator\<close>, for any lawful ports.
\<close>

lemma subseq_set_subset: "subseq xs ys \<Longrightarrow> set xs \<subseteq> set ys"
  by (induction rule: list_emb.induct) auto

lemma subseq_sorted_wrt: "subseq xs ys \<Longrightarrow> sorted_wrt R ys \<Longrightarrow> sorted_wrt R xs"
  by (induction rule: list_emb.induct) (auto dest!: subseq_set_subset)

context orchestrator
begin

section \<open>Queries\<close>

text \<open>Two services that hold the same contents.\<close>

definition same_contents :: "('v, 's, 'p, 'e) service \<Rightarrow> ('v, 's, 'p, 'e) service \<Rightarrow> bool" where
  "same_contents s t \<longleftrightarrow> svc_ok t \<and> entries t = entries s \<and> vectors t = vectors s \<and> ids t = ids s"

lemma same_contents_trans: "same_contents s t \<Longrightarrow> same_contents t u \<Longrightarrow> same_contents s u"
  by (simp add: same_contents_def)

lemma same_contents_synced: "synced s \<Longrightarrow> same_contents s t \<Longrightarrow> synced t"
  by (simp add: same_contents_def synced_def)

text \<open>A served result: stored under a matched id, with the stored reply.\<close>

definition serves :: "('v, 's, 'p, 'e) service \<Rightarrow> queryResult \<Rightarrow> Match \<Rightarrow> bool" where
  "serves s q m \<longleftrightarrow> qr_ID q = m_ID m \<and> qr_Distance q = normalizeDistance (m_Distance m) \<and>
     (\<exists>e. entries s (m_ID m) = Some e \<and> qr_Reply q = e_Reply e)"

lemma collect_results_ok:
  assumes "svc_ok s" and "collect_results D ms rs s = (qs, t)"
  shows "same_contents s t"
    and "\<exists>ms' qs'. subseq ms' ms \<and> qs = rs @ qs' \<and> list_all2 (serves s) qs' ms'"
    and "sv_E t = sv_E s"
proof -
  have "same_contents s t \<and> sv_E t = sv_E s \<and>
    (\<exists>ms' qs'. subseq ms' ms \<and> qs = rs @ qs' \<and> list_all2 (serves s) qs' ms')"
    using assms
  proof (induction ms arbitrary: rs s)
    case Nil
    then show ?case by (auto simp: same_contents_def)
  next
    case (Cons m ms)
    have so: "sok (sv_S s)" and po: "pok (sv_P s)" and vo: "vok (sv_V s)"
      using Cons.prems(1) by (simp_all add: svc_ok_def)
    obtain r a where ld: "st_Load (d_S D) (m_ID m) (sv_S s) = (r, a)" by fastforce
    note S1 = store.load_state [OF so ld]
    show ?case
    proof (cases r)
      case None
      let ?s = "s\<lparr>sv_S := a\<rparr>"
      have sc: "same_contents s ?s" using S1 po vo by (simp add: same_contents_def view_defs)
      have "collect_results D ms rs ?s = (qs, t)" using Cons.prems(2) by (simp add: ld None)
      from Cons.IH [OF _ this] sc obtain ms' qs' where "same_contents ?s t" "sv_E t = sv_E s"
        "subseq ms' ms" "qs = rs @ qs'" "list_all2 (serves ?s) qs' ms'"
        by (auto simp: same_contents_def)
      moreover have "serves ?s = serves s" using sc by (simp add: fun_eq_iff serves_def same_contents_def)
      ultimately show ?thesis using same_contents_trans [OF sc]
        by (intro conjI exI [of _ ms'] exI [of _ qs']) auto
    next
      case (Some e)
      let ?q = "\<lparr>qr_ID = m_ID m, qr_Reply = e_Reply e, qr_Distance = normalizeDistance (m_Distance m)\<rparr>"
      let ?s = "s\<lparr>sv_S := a, sv_P := po_OnHit (d_P D) (m_ID m) (sv_P s)\<rparr>"
      have sc: "same_contents s ?s"
        using S1 vo pol.hit [OF po] by (simp add: same_contents_def view_defs)
      have found: "entries s (m_ID m) = Some e"
        using store.load_found [OF so] ld Some by (simp add: entries_def)
      have "collect_results D ms (rs @ [?q]) ?s = (qs, t)" using Cons.prems(2) by (simp add: ld Some)
      from Cons.IH [OF _ this] sc obtain ms' qs' where r: "same_contents ?s t" "sv_E t = sv_E s"
        "subseq ms' ms" "qs = rs @ ?q # qs'" "list_all2 (serves ?s) qs' ms'"
        by (auto simp: same_contents_def)
      moreover have "serves ?s = serves s" using sc by (simp add: fun_eq_iff serves_def same_contents_def)
      moreover have "serves s ?q m" using found by (simp add: serves_def)
      ultimately show ?thesis using same_contents_trans [OF sc]
        by (intro conjI exI [of _ "m # ms'"] exI [of _ "?q # qs'"]) simp_all
    qed
  qed
  then show "same_contents s t"
    and "\<exists>ms' qs'. subseq ms' ms \<and> qs = rs @ qs' \<and> list_all2 (serves s) qs' ms'"
    and "sv_E t = sv_E s" by blast+
qed

lemma now_same: "svc_ok s \<Longrightarrow> same_contents s (snd (now D s))"
  by (simp add: now_def same_contents_def view_defs split: prod.splits)

lemma env_same: "svc_ok s \<Longrightarrow> same_contents s (s\<lparr>sv_E := e\<rparr>)"
  by (simp add: same_contents_def view_defs)

lemma query_hit_same:
  assumes "svc_ok s" and "query_hit D start rs s = (r, t)"
  shows "same_contents s t"
  using assms by (auto simp: query_hit_def now_def same_contents_def view_defs recordHit_def Let_def
      split: prod.splits)

lemma query_miss_same:
  assumes "svc_ok s" and "query_miss D start prompt vec s = (r, t)"
  shows "same_contents s t"
  using assms by (auto simp: query_miss_def now_def same_contents_def view_defs recordMiss_def Let_def
      split: prod.splits sum.splits)

text \<open>A query changes no contents, whatever its outcome.\<close>

lemma query_same:
  assumes ok: "svc_ok s" and q: "handleQuery D body s = (r, t)"
  shows "same_contents s t"
proof -
  obtain start s0 where n: "now D s = (start, s0)" by fastforce
  have s0: "same_contents s s0" using now_same [OF ok] n by simp
  show ?thesis
  proof (cases "query_prompt body")
    case (HttpError c m e)
    then show ?thesis using q n s0 by (simp add: handleQuery_def)
  next
    case (HttpOk prompt)
    obtain em e where em: "em_Embed (d_E D) prompt (sv_E s0) = (em, e)" by fastforce
    let ?s1 = "s0\<lparr>sv_E := e\<rparr>"
    have s1: "same_contents s ?s1" using s0 env_same [of s0] by (metis same_contents_def same_contents_trans)
    show ?thesis
    proof (cases em)
      case (Inl err)
      then show ?thesis using q n HttpOk em s1 by (simp add: handleQuery_def)
    next
      case (Inr vec)
      obtain ms v where se: "vs_Search (d_V D) vec (cfg_TopK (d_cfg D)) (Threshold D ?s1) (sv_V ?s1) = (ms, v)"
        by fastforce
      have vo: "vok (sv_V ?s1)" using s1 by (simp add: same_contents_def svc_ok_def)
      let ?s2 = "?s1\<lparr>sv_V := v\<rparr>"
      have s2: "same_contents s ?s2"
        using s1 vec.search_state [OF vo se] by (simp add: same_contents_def view_defs)
      show ?thesis
      proof (cases ms)
        case (Inl err)
        then show ?thesis using q n HttpOk em Inr se s2 by (simp add: handleQuery_def)
      next
        case (Inr matches)
        obtain rs s3 where c: "collect_results D matches [] ?s2 = (rs, s3)" by fastforce
        have "svc_ok ?s2" using s2 by (simp add: same_contents_def)
        note s3 = collect_results_ok(1) [OF this c]
        then have "svc_ok s3" by (simp add: same_contents_def)
        have "(if rs \<noteq> [] then query_hit D start rs s3 else query_miss D start prompt vec s3) = (r, t)"
          using q n HttpOk em \<open>em = Inr vec\<close> se Inr c by (simp add: handleQuery_def)
        then have "same_contents s3 t"
          using query_hit_same [OF \<open>svc_ok s3\<close>] query_miss_same [OF \<open>svc_ok s3\<close>] by (auto split: if_splits)
        with s2 s3 show ?thesis by (blast intro: same_contents_trans)
      qed
    qed
  qed
qed

text \<open>
  What an answer from the cache is: results in the order of a subsequence of the matches the vector
  store accepted, at most \<open>TopK\<close> of them, each the stored reply under a matched id within the
  threshold; the reply is the first one's.
\<close>

lemma query_cache_answer:
  assumes ok: "svc_ok s" and q: "handleQuery D body s = (HttpOk resp, t)" and hit: "qp_CacheHit resp"
  obtains ms where "list_all2 (serves s) (qp_Results resp) ms" and "ms \<noteq> []"
    and "int (length ms) \<le> cfg_TopK (d_cfg D)" and "\<And>m. m \<in> set ms \<Longrightarrow> f64_le (m_Distance m) (Threshold D s)"
    and "sorted_wrt (\<lambda>a b. f64_le (m_Distance a) (m_Distance b)) ms"
    and "qp_Reply resp = qr_Reply (hd (qp_Results resp))" and "qp_Source resp = ''cache''"
proof -
  obtain start s0 where n: "now D s = (start, s0)" by fastforce
  have s0: "same_contents s s0" "sv_threshold s0 = sv_threshold s"
    using now_same [OF ok] n by (auto simp: now_def split: prod.splits)
  obtain prompt where p: "query_prompt body = HttpOk prompt"
    using q n by (cases "query_prompt body") (auto simp: handleQuery_def)
  obtain vec e where em: "em_Embed (d_E D) prompt (sv_E s0) = (Inr vec, e)"
    using q n p by (auto simp: handleQuery_def split: prod.splits sum.splits)
  let ?s1 = "s0\<lparr>sv_E := e\<rparr>"
  obtain matches v where se: "vs_Search (d_V D) vec (cfg_TopK (d_cfg D)) (Threshold D ?s1) (sv_V ?s1) = (Inr matches, v)"
    using q n p em by (auto simp: handleQuery_def Let_def split: prod.splits sum.splits)
  have th: "Threshold D ?s1 = Threshold D s" using s0(2) by (simp add: Threshold_def)
  have vo: "vok (sv_V ?s1)" using s0 by (simp add: same_contents_def svc_ok_def)
  note V = vec.search_sound [OF vo se] and V1 = vec.search_state [OF vo se]
  let ?s2 = "?s1\<lparr>sv_V := v\<rparr>"
  have s2: "same_contents s ?s2" using s0 V1 by (simp add: same_contents_def view_defs)
  obtain rs s3 where c: "collect_results D matches [] ?s2 = (rs, s3)" by fastforce
  have "svc_ok ?s2" using s2 by (simp add: same_contents_def)
  from collect_results_ok(2) [OF this c] obtain ms where ms: "subseq ms matches" "list_all2 (serves ?s2) rs ms"
    by auto
  have fin: "(if rs \<noteq> [] then query_hit D start rs s3 else query_miss D start prompt vec s3) = (HttpOk resp, t)"
    using q n p em se c by (simp add: handleQuery_def)
  have "rs \<noteq> []"
  proof
    assume "rs = []"
    with fin hit show False by (auto simp: query_miss_def Let_def split: prod.splits sum.splits)
  qed
  with fin have resp: "qp_Results resp = rs" "qp_Reply resp = qr_Reply (hd rs)" "qp_Source resp = ''cache''"
    by (auto simp: query_hit_def Let_def split: prod.splits)
  have "serves ?s2 = serves s" using s2 by (simp add: fun_eq_iff serves_def same_contents_def)
  show thesis
  proof (rule that [of ms])
    show "list_all2 (serves s) (qp_Results resp) ms" using ms(2) resp \<open>serves ?s2 = serves s\<close> by simp
    show "ms \<noteq> []" using ms(2) \<open>rs \<noteq> []\<close> by auto
    show "int (length ms) \<le> cfg_TopK (d_cfg D)" using V list_emb_length [OF ms(1)] by linarith
    show "f64_le (m_Distance m) (Threshold D s)" if "m \<in> set ms" for m
      using V th that subseq_set_subset [OF ms(1)] by auto
    show "sorted_wrt (\<lambda>a b. f64_le (m_Distance a) (m_Distance b)) ms"
      using V subseq_sorted_wrt [OF ms(1)] by blast
  qed (use resp in simp_all)
qed

end

end
