(* ===== verification/Orchestrator_Writes.thy ===== *)
theory Orchestrator_Writes
  imports Orchestrator_Flow
begin

text \<open>
  The writing side of the orchestrator in the locale \<open>orchestrator\<close>: the cache worker's update on
  success and on each failure, eviction without faults, restart and flush.
\<close>

text \<open>A hit consults neither the LLM nor the queue: replacing both changes nothing.\<close>

lemma collect_results_ports:
  "collect_results (D\<lparr>d_L := L, d_Q := Q\<rparr>) ms rs s = collect_results D ms rs s"
  by (induction ms arbitrary: rs s) (simp_all split: prod.splits option.splits)

lemma query_hit_ports:
  assumes q: "handleQuery D body s = (HttpOk resp, t)" and hit: "qp_CacheHit resp"
  shows "handleQuery (D\<lparr>d_L := L, d_Q := Q\<rparr>) body s = (HttpOk resp, t)"
proof -
  let ?E = "D\<lparr>d_L := L, d_Q := Q\<rparr>"
  have same: "now ?E s = now D s" "Threshold ?E = Threshold D" "query_hit ?E = query_hit D"
    by (auto simp: now_def Threshold_def query_hit_def fun_eq_iff split: option.split)
  obtain start s0 where n: "now D s = (start, s0)" by fastforce
  obtain prompt where p: "query_prompt body = HttpOk prompt"
    using q n by (cases "query_prompt body") (auto simp: handleQuery_def)
  obtain vec e where em: "em_Embed (d_E D) prompt (sv_E s0) = (Inr vec, e)"
    using q n p by (auto simp: handleQuery_def split: prod.splits sum.splits)
  let ?s1 = "s0\<lparr>sv_E := e\<rparr>"
  obtain matches v where se: "vs_Search (d_V D) vec (cfg_TopK (d_cfg D)) (Threshold D ?s1) (sv_V ?s1) = (Inr matches, v)"
    using q n p em by (auto simp: handleQuery_def Let_def split: prod.splits sum.splits)
  obtain rs s3 where c: "collect_results D matches [] (?s1\<lparr>sv_V := v\<rparr>) = (rs, s3)" by fastforce
  have fin: "(if rs \<noteq> [] then query_hit D start rs s3 else query_miss D start prompt vec s3) = (HttpOk resp, t)"
    using q n p em se c by (simp add: handleQuery_def)
  have "rs \<noteq> []"
    using fin hit by (auto simp: query_miss_def Let_def split: prod.splits sum.splits if_splits)
  with fin show ?thesis
    using n p em se c by (simp add: handleQuery_def same collect_results_ports)
qed

context orchestrator
begin

section \<open>The cache worker\<close>

lemma update_returns:
  assumes "svc_ok s"
  shows "\<exists>r t. updateCache D prompt vec reply s = Some (r, t)"
proof -
  have so: "sok (sv_S s)" and po: "pok (sv_P s)" and vo: "vok (sv_V s)"
    using assms by (simp_all add: svc_ok_def)
  obtain u v where up: "vs_Upsert (d_V D) vec (sv_V s) = (u, v)" by fastforce
  show ?thesis
  proof (cases u)
    case (Inl err)
    then show ?thesis by (simp add: updateCache_def up)
  next
    case (Inr k)
    obtain c s1 where n: "now D (s\<lparr>sv_V := v\<rparr>) = (c, s1)" by fastforce
    have s1: "sv_S s1 = sv_S s" "sv_V s1 = v" "sv_P s1 = sv_P s"
      using n by (auto simp: now_def split: prod.splits)
    let ?e = "\<lparr>e_ID = k, e_Prompt = prompt, e_Reply = reply, e_Vector = vec, e_CreatedAt = c\<rparr>"
    obtain x b where sa: "st_Save (d_S D) ?e (sv_S s1) = (x, b)" by fastforce
    show ?thesis
    proof (cases x)
      case (Some err)
      then show ?thesis by (auto simp: updateCache_def up Inr n sa split: prod.splits)
    next
      case None
      have vv: "vok v" using vec.upsert_ok [OF vo] up Inr by blast
      have ss: "sok b" using store.save_ok [OF so] sa None s1 by auto
      have "svc_ok (s1\<lparr>sv_S := b, sv_P := po_OnInsert (d_P D) k (sv_P s1)\<rparr>)"
        using vv ss pol.ins [OF po] s1 by (simp add: svc_ok_def)
      from enforce_returns [OF this] show ?thesis
        by (simp add: updateCache_def up Inr n sa None)
    qed
  qed
qed

text \<open>The state in which a successful save leaves the service, before capacity is enforced.\<close>

lemma update_cases:
  assumes ok: "svc_ok s" and run: "updateCache D prompt vec reply s = Some (r, t)"
  obtains
    (upsert) e where "r = Some e" and "svc_ok t" and "entries t = entries s" and "ids t = ids s"
  | (save) e k x where "r = Some e" and "svc_ok t" and "ids t = ids s" and "e_ID x = k"
      and "entries t \<in> {entries s, (entries s)(k \<mapsto> x)}"
      and "vectors t \<in> {(vectors s)(k \<mapsto> vec), (vectors s)(k := None)}"
  | (saved) k x u where "e_ID x = k" and "e_Prompt x = prompt" and "e_Reply x = reply"
      and "e_Vector x = vec" and "svc_ok u" and "entries u = (entries s)(k \<mapsto> x)"
      and "vectors u = (vectors s)(k \<mapsto> vec)" and "ids u = insert k (ids s)"
      and "sv_evictions u = sv_evictions s" and "enforceCapacity D u = Some (r, t)"
proof -
  have so: "sok (sv_S s)" and po: "pok (sv_P s)" and vo: "vok (sv_V s)"
    using ok by (simp_all add: svc_ok_def)
  obtain u v where up: "vs_Upsert (d_V D) vec (sv_V s) = (u, v)" by fastforce
  show thesis
  proof (cases u)
    case (Inl err)
    then have "r = Some err" "t = s\<lparr>sv_V := v\<rparr>" using run by (auto simp: updateCache_def up)
    moreover have "vok v" using vec.upsert_err [OF vo] up Inl by blast
    ultimately show thesis by (intro upsert [of err]) (simp_all add: view_defs so po)
  next
    case (Inr k)
    obtain c s1 where n: "now D (s\<lparr>sv_V := v\<rparr>) = (c, s1)" by fastforce
    have s1: "sv_S s1 = sv_S s" "sv_V s1 = v" "sv_P s1 = sv_P s" "sv_evictions s1 = sv_evictions s"
      using n by (auto simp: now_def split: prod.splits)
    have V: "vok v" "vview v = (vview (sv_V s))(k \<mapsto> vec)" using vec.upsert_ok [OF vo] up Inr by auto
    let ?e = "\<lparr>e_ID = k, e_Prompt = prompt, e_Reply = reply, e_Vector = vec, e_CreatedAt = c\<rparr>"
    obtain x b where sa: "st_Save (d_S D) ?e (sv_S s) = (x, b)" by fastforce
    show thesis
    proof (cases x)
      case None
      let ?u = "s1\<lparr>sv_S := b, sv_P := po_OnInsert (d_P D) k (sv_P s1)\<rparr>"
      have S: "sok b" "sview b = (sview (sv_S s))(k \<mapsto> ?e)" using store.save_ok [OF so] sa None by auto
      have P: "pok (po_OnInsert (d_P D) k (sv_P s))" "tracked (po_OnInsert (d_P D) k (sv_P s)) = insert k (tracked (sv_P s))"
        using pol.ins [OF po] by auto
      have "enforceCapacity D ?u = Some (r, t)"
        using run by (simp add: updateCache_def up Inr n sa s1 None)
      then show thesis
        by (intro saved [of ?e k ?u]) (simp_all add: view_defs s1 V S P)
    next
      case (Some err)
      obtain y w where d: "vs_Delete (d_V D) k v = (y, w)" by fastforce
      have r: "r = Some err" and t: "t = s1\<lparr>sv_S := b, sv_V := w\<rparr>"
        using run by (auto simp: updateCache_def up Inr n sa s1 Some d)
      have S: "sok b" "sview b \<in> {sview (sv_S s), (sview (sv_S s))(k \<mapsto> ?e)}"
        using store.save_err [OF so, of ?e err b] sa Some by auto
      have W: "vok w \<and> vview w \<in> {vview v, (vview v)(k := None)}"
        using vec.vdelete_ok [OF V(1)] vec.vdelete_err [OF V(1)] d by (cases y) blast+
      then have "vview w \<in> {(vview (sv_V s))(k \<mapsto> vec), (vview (sv_V s))(k := None)}" by (simp add: V(2))
      then show thesis
        using S W po by (intro save [of err ?e k]) (simp_all add: r t view_defs s1)
    qed
  qed
qed

text \<open>Whatever fails, the service stays well formed.\<close>

lemma enforce_ok:
  assumes ok: "svc_ok s" and run: "enforceCapacity D s = Some (r, t)"
  shows "svc_ok t"
proof (cases "capacity \<le> 0")
  case True
  then show ?thesis using run ok by (simp add: enforceCapacity_def)
next
  case False
  then have "enforce_loop D s = Some (r, t)" using run by (simp add: enforceCapacity_def)
  with ok show ?thesis by (induction rule: loop_induct) (simp_all add: step_return(1))
qed

lemma update_ok:
  assumes "svc_ok s" and "updateCache D prompt vec reply s = Some (r, t)"
  shows "svc_ok t"
  using assms by (cases rule: update_cases) (simp_all add: enforce_ok)

lemma update_success:
  assumes sy: "synced s" and run: "updateCache D prompt vec reply s = Some (None, t)"
  shows "synced t" and "0 < capacity \<Longrightarrow> int (card (dom (entries t))) \<le> capacity"
    and "\<exists>x K. e_Prompt x = prompt \<and> e_Reply x = reply \<and> e_Vector x = vec \<and>
      entries t = ((entries s)(e_ID x \<mapsto> x)) |` (- K) \<and>
      vectors t = ((vectors s)(e_ID x \<mapsto> vec)) |` (- K) \<and>
      sv_evictions t = sv_evictions s + int (card K)"
proof -
  have ok: "svc_ok s" using sy by (simp add: synced_def)
  from ok run show "synced t"
  proof (cases rule: update_cases)
    case (saved k x u)
    then have "synced u" using sy by (simp add: synced_def)
    then show ?thesis by (rule enforce_success(1)) (rule saved)
  qed auto
  from ok run show "int (card (dom (entries t))) \<le> capacity" if "0 < capacity"
  proof (cases rule: update_cases)
    case (saved k x u)
    then have "synced u" using sy by (simp add: synced_def)
    then show ?thesis by (rule enforce_success(2)) (rule saved, rule that)
  qed auto
  from ok run show "\<exists>x K. e_Prompt x = prompt \<and> e_Reply x = reply \<and> e_Vector x = vec \<and>
      entries t = ((entries s)(e_ID x \<mapsto> x)) |` (- K) \<and>
      vectors t = ((vectors s)(e_ID x \<mapsto> vec)) |` (- K) \<and>
      sv_evictions t = sv_evictions s + int (card K)"
  proof (cases rule: update_cases)
    case (saved k x u)
    then have "synced u" using sy by (simp add: synced_def)
    from enforce_success(3) [OF this saved(10)] obtain K where
      "entries t = entries u |` (- K)" "vectors t = vectors u |` (- K)"
      "sv_evictions t = sv_evictions u + int (card K)" by blast
    then show ?thesis using saved by (intro exI [of _ x] exI [of _ K]) simp
  qed auto
qed

section \<open>Eviction without faults\<close>

definition faultless :: bool where
  "faultless \<longleftrightarrow> (\<forall>a. sok a \<longrightarrow> (\<exists>n b. st_Size (d_S D) a = (Inr n, b))) \<and>
     (\<forall>a k. sok a \<longrightarrow> fst (st_Delete (d_S D) k a) = None) \<and>
     (\<forall>v k. vok v \<longrightarrow> k \<in> dom (vview v) \<longrightarrow> fst (vs_Delete (d_V D) k v) = None)"

lemma step_faultless:
  assumes fl: "faultless" and sy: "synced s" and cap: "0 \<le> capacity"
  shows "\<exists>t. enforce_step D s = Inl (None, t) \<or> enforce_step D s = Inr t \<and> synced t"
proof -
  have ok: "svc_ok s" using sy by (simp add: synced_def)
  then have so: "sok (sv_S s)" and po: "pok (sv_P s)" and vo: "vok (sv_V s)"
    by (simp_all add: svc_ok_def)
  obtain n a where sz: "st_Size (d_S D) (sv_S s) = (Inr n, a)"
    using fl so by (auto simp: faultless_def)
  show ?thesis
  proof (cases "n \<le> capacity")
    case True
    then show ?thesis by (simp add: enforce_step_def sz)
  next
    case False
    have "n = int (card (dom (entries s)))" using store.size_card [OF so sz] by (simp add: entries_def)
    then have "dom (entries s) \<noteq> {}" using False cap by (metis card.empty of_nat_0)
    moreover have "dom (entries s) = tracked (sv_P s)" using sy by (simp add: synced_def ids_def)
    ultimately have "tracked (sv_P s) \<noteq> {}" by simp
    then obtain k p where v: "po_Victim (d_P D) (sv_P s) = (Some k, p)" and k: "k \<in> tracked (sv_P s)"
      using pol.victim_some [OF po] by blast
    obtain b where d: "st_Delete (d_S D) k a = (None, b)"
      using fl store.size_state [OF so sz] unfolding faultless_def by (metis prod.collapse)
    have "k \<in> dom (vview (sv_V s))" using k sy by (simp add: synced_def ids_def vectors_def)
    then obtain w where e: "vs_Delete (d_V D) k (sv_V s) = (None, w)"
      using fl vo unfolding faultless_def by (metis prod.collapse)
    obtain t where t: "enforce_step D s = Inr t" by (simp add: enforce_step_def sz False v d e)
    moreover from ok t have "synced t"
    proof (rule step_again)
      fix j assume "svc_ok t" "ids t = ids s - {j}" "entries t = (entries s)(j := None)"
        "vectors t = (vectors s)(j := None)"
      then show "synced t" using sy by (simp add: synced_def)
    qed
    ultimately show ?thesis by blast
  qed
qed

lemma enforce_faultless:
  assumes fl: "faultless" and sy: "synced s"
  shows "\<exists>t. enforceCapacity D s = Some (None, t)"
proof (cases "capacity \<le> 0")
  case True
  then show ?thesis by (simp add: enforceCapacity_def)
next
  case False
  have "\<exists>t. enforce_loop D s = Some (None, t)" using sy
  proof (induction "card (ids s)" arbitrary: s rule: less_induct)
    case less
    have cap: "0 \<le> capacity" using False by simp
    have ok: "svc_ok s" using less.prems by (simp add: synced_def)
    from step_faultless [OF fl less.prems cap] obtain t where
      "enforce_step D s = Inl (None, t) \<or> enforce_step D s = Inr t \<and> synced t" by blast
    then show ?case
    proof
      assume "enforce_step D s = Inl (None, t)"
      then show ?thesis by (simp add: enforce_loop.simps [of D s])
    next
      assume t: "enforce_step D s = Inr t \<and> synced t"
      from ok conjunct1 [OF t] obtain k where "k \<in> ids s" "ids t = ids s - {k}" by (rule step_again)
      then have "card (ids t) < card (ids s)"
        using finite_ids [OF ok] by (intro psubset_card_mono) auto
      with less.hyps t have "\<exists>t'. enforce_loop D t = Some (None, t')" by blast
      with t show ?thesis by (simp add: enforce_loop.simps [of D s])
    qed
  qed
  with False show ?thesis by (simp add: enforceCapacity_def)
qed

section \<open>Restart\<close>

lemma rebuild_retry_ok:
  assumes "svc_ok s" and "distinct (map re_ID es)" and "rebuild_with_retry D n es s = (r, t)"
  shows "svc_ok t" and "entries t = entries s" and "ids t = ids s"
    and "r = None \<Longrightarrow> vectors t = rebuild_view es"
    and "vectors t \<in> {vectors s, rebuild_view es}"
proof -
  have "svc_ok t \<and> entries t = entries s \<and> ids t = ids s \<and> (r = None \<longrightarrow> vectors t = rebuild_view es) \<and>
    vectors t \<in> {vectors s, rebuild_view es}"
    using assms(1,3)
  proof (induction n arbitrary: s)
    case 0
    obtain x v where rb: "vs_Rebuild (d_V D) es (sv_V s) = (x, v)" by fastforce
    have vo: "vok (sv_V s)" using 0 by (simp add: svc_ok_def)
    show ?case using 0 rb vec.rebuild_ok [OF vo, of es] vec.rebuild_err [OF vo, of es] assms(2)
      by (cases x) (auto simp: view_defs)
  next
    case (Suc n)
    obtain x v where rb: "vs_Rebuild (d_V D) es (sv_V s) = (x, v)" by fastforce
    have vo: "vok (sv_V s)" using Suc.prems by (simp add: svc_ok_def)
    show ?case
    proof (cases x)
      case (Inl err)
      let ?s = "s\<lparr>sv_V := v\<rparr>"
      have v: "vok v \<and> vview v \<in> {vview (sv_V s), rebuild_view es}"
        using vec.rebuild_err [OF vo] rb Inl assms(2) by blast
      have "svc_ok ?s" using Suc.prems(1) v by (simp add: svc_ok_def)
      moreover have "rebuild_with_retry D n es ?s = (r, t)" using Suc.prems(2) rb Inl by simp
      ultimately show ?thesis using Suc.IH [of ?s] v by (auto simp: view_defs)
    next
      case (Inr i)
      then show ?thesis using Suc.prems rb vec.rebuild_ok [OF vo, of es] assms(2) by (auto simp: view_defs)
    qed
  qed
  then show "svc_ok t" and "entries t = entries s" and "ids t = ids s"
    and "r = None \<Longrightarrow> vectors t = rebuild_view es"
    and "vectors t \<in> {vectors s, rebuild_view es}" by blast+
qed

lemma replay_inserts:
  "pok p \<Longrightarrow> pok (fold (\<lambda>e p. po_OnInsert (d_P D) (e_ID e) p) es p) \<and>
     tracked (fold (\<lambda>e p. po_OnInsert (d_P D) (e_ID e) p) es p) = tracked p \<union> set (map e_ID es)"
proof (induction es arbitrary: p)
  case (Cons e es)
  from Cons.IH [of "po_OnInsert (d_P D) (e_ID e) p"] pol.ins [OF Cons.prems, of "e_ID e"]
  show ?case by simp
qed simp

lemma rebuild_success:
  assumes ok: "svc_ok s" and fresh: "ids s = {}" and run: "rebuildFromStore D n s = (None, t)"
  shows "synced t" and "entries t = entries s" and "vectors t = (\<lambda>k. map_option e_Vector (entries s k))"
proof -
  have so: "sok (sv_S s)" and po: "pok (sv_P s)" and vo: "vok (sv_V s)"
    using ok by (simp_all add: svc_ok_def)
  obtain es a where li: "st_List (d_S D) (sv_S s) = (Inr es, a)"
    using run by (auto simp: rebuildFromStore_def split: prod.splits sum.splits)
  let ?es = "sort_key e_CreatedAt es"
  let ?rs = "map (\<lambda>e. \<lparr>re_ID = e_ID e, re_Vector = e_Vector e\<rparr>) ?es"
  let ?s1 = "s\<lparr>sv_S := a, sv_P := fold (\<lambda>e p. po_OnInsert (d_P D) (e_ID e) p) ?es (sv_P s)\<rparr>"
  have re: "rebuild_with_retry D n ?rs ?s1 = (None, t)"
    using run by (auto simp: rebuildFromStore_def li Let_def split: prod.splits option.splits)
  note S = store.list_state [OF so li] and L = store.list_all_entries [OF so li]
  note I = store.list_ids(1) [OF so li]
  have dist: "distinct (map e_ID ?es)"
    using L by (auto simp: distinct_map)
  have dr: "distinct (map re_ID ?rs)" using dist by (simp add: o_def)
  have s1: "svc_ok ?s1" "entries ?s1 = entries s" "ids ?s1 = dom (entries s)"
    using S vo replay_inserts [OF po, of ?es] fresh I by (simp_all add: view_defs)
  note R = rebuild_retry_ok [OF s1(1) dr re]
  show "entries t = entries s" using R(2) s1(2) by simp
  have "rebuild_view ?rs = (\<lambda>k. map_option e_Vector (entries s k))"
  proof (rule map_of_entries [OF dist])
    show "set ?es = ran (entries s)" using L by (simp add: entries_def)
  qed (use store.view_id [OF so] in \<open>simp add: entries_def\<close>)
  then show v: "vectors t = (\<lambda>k. map_option e_Vector (entries s k))" using R(4) by simp
  have "dom (vectors t) = dom (entries s)" unfolding v by (auto simp: dom_def)
  then show "synced t" using R(1,2,3) s1(2,3) by (simp add: synced_def)
qed

section \<open>Flush\<close>

lemma flush_result:
  assumes ok: "svc_ok s" and run: "FlushCache D s = (r, t)"
  shows "svc_ok t" and "r \<noteq> None \<Longrightarrow> entries t = entries s \<and> ids t = ids s"
    and "r = None \<Longrightarrow> vectors t = Map.empty \<and> ids t = {} \<and> sv_hits t = 0 \<and> sv_misses t = 0 \<and> sv_evictions t = 0"
    and "r = None \<Longrightarrow> entries t \<in> {entries s, Map.empty}"
    and "r = None \<Longrightarrow> fst (st_Flush (d_S D) (sv_S s)) = None \<Longrightarrow> synced t \<and> entries t = Map.empty"
proof -
  have so: "sok (sv_S s)" and po: "pok (sv_P s)" and vo: "vok (sv_V s)"
    using ok by (simp_all add: svc_ok_def)
  obtain x v where vf: "vs_Flush (d_V D) (sv_V s) = (x, v)" by fastforce
  obtain y a where sf: "st_Flush (d_S D) (sv_S s) = (y, a)" by fastforce
  have S: "sok a" "sview a \<in> {sview (sv_S s), Map.empty}" "y = None \<Longrightarrow> sview a = Map.empty"
    using store.flush_ok [OF so] store.flush_err [OF so] sf by (cases y; blast)+
  have V: "vok v" "x = None \<Longrightarrow> vview v = Map.empty"
    using vec.vflush_ok [OF vo] vec.vflush_err [OF vo] vf by (cases x; blast)+
  have P: "pok (po_Flush (d_P D) (sv_P s))" "tracked (po_Flush (d_P D) (sv_P s)) = {}"
    using pol.flush [OF po] by auto
  have r: "r = x" using run by (auto simp: FlushCache_def vf Let_def split: option.splits prod.splits)
  show "svc_ok t" using run S V P so po by (auto simp: FlushCache_def vf sf svc_ok_def split: option.splits)
  show "entries t = entries s \<and> ids t = ids s" if "r \<noteq> None"
    using run that r by (auto simp: FlushCache_def vf view_defs)
  show "vectors t = Map.empty \<and> ids t = {} \<and> sv_hits t = 0 \<and> sv_misses t = 0 \<and> sv_evictions t = 0"
    if "r = None" using run that r V P by (auto simp: FlushCache_def vf sf view_defs)
  show "entries t \<in> {entries s, Map.empty}" if "r = None"
    using run that r S by (auto simp: FlushCache_def vf sf view_defs)
  show "synced t \<and> entries t = Map.empty" if "r = None" "fst (st_Flush (d_S D) (sv_S s)) = None"
    using run that r S V P by (auto simp: FlushCache_def vf sf view_defs synced_def)
qed

end

end
