(* ===== verification/Plan_Laws.thy ===== *)
theory Plan_Laws
  imports Plans Orchestrator_Writes Sdk_Vector_Store
begin

text \<open>
  What the plans guarantee. The implementations involved are related to their contents by the laws of
  \<open>Ports\<close> and \<open>Persistence\<close>; \<open>two_stores\<close> adds that an operation of one store leaves the other alone.
\<close>

section \<open>Failed switches\<close>

text \<open>C5: a switch that fails leaves every slot as it was. Whatever the plan and wherever it fails (the write
  gate, the migration, the swap, what runs after the swap), every component still has the implementation it
  had, and one that succeeds changes the slot asked for only.\<close>
theorem failed_switch_keeps_slots:
  assumes "slots_ok sl" and "execute H slot a pl sl s = (r, sl1, s1)"
  shows "case r of
      Inl e \<Rightarrow> sl1 = sl
    | Inr prev \<Rightarrow> slot_current sl slot = Some prev \<and> slot_current sl1 slot = Some a \<and> slots_ok sl1 \<and>
        (\<forall>ty. ty \<noteq> slot \<longrightarrow> slot_current sl1 ty = slot_current sl ty)"
proof -
  have steps: "case r of
      Inl e \<Rightarrow> sl1 = sl
    | Inr prev \<Rightarrow> slot_current sl slot = Some prev \<and> slot_current sl1 slot = Some a \<and> slots_ok sl1 \<and>
        (\<forall>ty. ty \<noteq> slot \<longrightarrow> slot_current sl1 ty = slot_current sl ty)"
    if run: "execute_steps slot a pl sl u = (r, sl1, v)" for u v
  proof (cases "slot_swap slot a sl")
    case (Pair x sl2)
    show ?thesis
    proof (cases x)
      case (Inl e)
      then show ?thesis
        using run Pair swap_err [of slot a sl e sl2]
        by (auto simp: execute_steps_def split: prod.splits option.splits)
    next
      case (Inr prev)
      note S = swap_ok [OF Pair [unfolded Inr]] swap_back [OF assms(1) Pair [unfolded Inr]]
      show ?thesis
        using run Pair Inr S assms(1)
        by (auto simp: execute_steps_def split: prod.splits option.splits)
    qed
  qed
  show ?thesis
    using assms(2) steps by (auto simp: execute_def Let_def split: prod.splits option.splits if_splits)
qed

text \<open>Putting the replaced implementation back restores all slots.\<close>

lemma execute_swap:
  assumes "slots_ok sl" and "execute H slot a pl sl s = (Inr prev, sl1, s1)"
  shows "slot_swap slot prev sl1 = (Inr a, sl)"
proof -
  have "slot_swap slot prev sl1 = (Inr a, sl)" if run: "execute_steps slot a pl sl u = (Inr prev, sl1, v)" for u v
  proof (cases "slot_swap slot a sl")
    case (Pair x sl2)
    then have "x = Inr prev \<and> sl1 = sl2"
      using run by (auto simp: execute_steps_def split: prod.splits option.splits sum.splits)
    with Pair swap_back [OF assms(1), of slot a prev sl2] show ?thesis by simp
  qed
  then show ?thesis
    using assms(2) by (auto simp: execute_def Let_def split: prod.splits option.splits if_splits)
qed

section \<open>Sorted entries\<close>

text \<open>The vectors a store's contents ask of the index.\<close>

definition index_of :: "(string \<Rightarrow> Entry option) \<Rightarrow> string \<Rightarrow> f64 list option" where
  "index_of m = (\<lambda>k. map_option e_Vector (m k))"

context cache_store
begin

lemma sorted_entries:
  assumes "ok t" and "sortedEntries S t = (Inr es, u)"
  shows "ok u" and "view u = view t" and "distinct (map e_ID es)" and "set es = ran (view t)"
    and "rebuild_view (to_rebuild es) = index_of (view t)" and "length es = card (dom (view t))"
proof -
  obtain xs where li: "st_List S t = (Inr xs, u)" and es: "es = sort_key entry_key xs"
    using assms(2) by (auto simp: sortedEntries_def split: prod.splits sum.splits)
  show "ok u" and "view u = view t" using list_state [OF assms(1) li] by blast+
  have xs: "distinct (map e_ID xs)" "set xs = ran (view t)" using list_all_entries [OF assms(1) li] by blast+
  have inj: "distinct xs \<and> inj_on e_ID (set xs)" using xs(1) by (simp add: distinct_map)
  show d: "distinct (map e_ID es)" using inj by (simp add: es distinct_map)
  show s: "set es = ran (view t)" using xs(2) es by simp
  show "rebuild_view (to_rebuild es) = index_of (view t)"
    unfolding to_rebuild_def index_of_def by (rule map_of_entries [OF d s]) (rule view_id [OF assms(1)])
  show "length es = card (dom (view t))" using list_ids(2) [OF assms(1) li] es by simp
qed

lemma sorted_state: "ok t \<Longrightarrow> sortedEntries S t = (r, u) \<Longrightarrow> ok u \<and> view u = view t"
  using list_state by (auto simp: sortedEntries_def split: prod.splits sum.splits)

end

section \<open>A new vector store\<close>

context sized_vector_store
begin

lemma verify_samples_state: "vok v \<Longrightarrow> verify_samples V re is v = (r, t) \<Longrightarrow> vok t \<and> vview t = vview v"
proof (induction "is" arbitrary: v)
  case (Cons i "is")
  obtain x u where s: "vs_Search V (re_Vector (re ! i)) (min 3 (int (length re))) (F_Num 1000000000) v = (x, u)"
    by fastforce
  note S = search_state [OF Cons.prems(1) s]
  show ?case
  proof (cases x)
    case (Inl e)
    then show ?thesis using Cons.prems(2) s S by simp
  next
    case (Inr ms)
    then show ?thesis using Cons.prems(2) s S Cons.IH [of u] by (auto split: if_splits)
  qed
qed simp

lemma vector_fill_ok:
  assumes "vok v" and "distinct (map re_ID re)" and "vector_fill V re v = (None, t)"
  shows "vok t" and "vview t = rebuild_view re"
proof -
  obtain n v1 where rb: "vs_Rebuild V re v = (Inr n, v1)"
    using assms(3) by (auto simp: vector_fill_def split: prod.splits sum.splits)
  note R = rebuild_ok [OF assms(1) rb assms(2)]
  obtain sz v2 where sz: "vs_Size V v1 = (sz, v2)" by fastforce
  note Z = vsize_state [OF conjunct1 [OF R] sz]
  have "verify_samples V re (samplePositions (length re)) v2 = (None, t)"
    using assms(3) rb sz by (auto simp: vector_fill_def split: if_splits)
  from verify_samples_state [OF conjunct1 [OF Z] this] R Z show "vok t" and "vview t = rebuild_view re" by auto
qed

end

lemma on_simps [simp]:
  "on_V f s = (x, t) \<longleftrightarrow> (\<exists>v. f (sv_V s) = (x, v) \<and> t = s\<lparr>sv_V := v\<rparr>)"
  "on_S g s = (y, t) \<longleftrightarrow> (\<exists>u. g (sv_S s) = (y, u) \<and> t = s\<lparr>sv_S := u\<rparr>)"
  "on_P h s = (z, t) \<longleftrightarrow> (\<exists>p. h (sv_P s) = (z, p) \<and> t = s\<lparr>sv_P := p\<rparr>)"
  "on_E i s = (w, t) \<longleftrightarrow> (\<exists>e. i (sv_E s) = (w, e) \<and> t = s\<lparr>sv_E := e\<rparr>)"
  by (auto simp: on_V_def on_S_def on_P_def on_E_def split: prod.splits)

text \<open>The migration of a vector store that reports success has filled the candidate from the store.\<close>

lemma vector_migrate_ok:
  assumes store: "cache_store (snd (sl_Store sl)) ok view" and vec: "sized_vector_store V vok vview"
    and s: "ok (sv_S s)" "vok (sv_V s)" and run: "vector_migrate V ci sl s = (None, t)"
  shows "ok (sv_S t)" and "vok (sv_V t)" and "view (sv_S t) = view (sv_S s)"
    and "vview (sv_V t) = index_of (view (sv_S t))"
proof -
  obtain es u where so: "sortedEntries (snd (sl_Store sl)) (sv_S s) = (Inr es, u)"
    using run by (auto simp: vector_migrate_def on_S_def split: prod.splits sum.splits)
  note E = cache_store.sorted_entries [OF store s(1) so]
  have fill: "on_V (vector_fill V (to_rebuild es)) (s\<lparr>sv_S := u\<rparr>) = (None, t)"
    using run so by (auto simp: vector_migrate_def on_S_def split: option.splits)
  then obtain v where v: "vector_fill V (to_rebuild es) (sv_V s) = (None, v)" and t: "t = s\<lparr>sv_S := u, sv_V := v\<rparr>"
    by auto
  have "distinct (map re_ID (to_rebuild es))" using E(3) by (simp add: to_rebuild_def o_def)
  note F = sized_vector_store.vector_fill_ok [OF vec s(2) this v]
  show "ok (sv_S t)" "vok (sv_V t)" "view (sv_S t) = view (sv_S s)" "vview (sv_V t) = index_of (view (sv_S t))"
    using E(1,2,5) F t by simp_all
qed

text \<open>Waiting for the write gate leaves well-formed stores well-formed; the writes in flight finish first.\<close>

definition gate_keeps ::
    "('v, 's, 'p, 'e) host \<Rightarrow> ('s \<Rightarrow> bool) \<Rightarrow> ('v \<Rightarrow> bool) \<Rightarrow> bool" where
  "gate_keeps H ok vok \<longleftrightarrow>
     (\<forall>s e t. ok (sv_S s) \<longrightarrow> vok (sv_V s) \<longrightarrow> ho_PauseWrites H s = (e, t) \<longrightarrow> ok (sv_S t) \<and> vok (sv_V t))"


end
