(* ===== verification/Switch_Laws.thy ===== *)
theory Switch_Laws
  imports Switch Plan_Laws
begin

text \<open>
  What a switch guarantees, over any registry that keeps the laws of \<open>plugin_registry\<close>: a failure leaves
  every slot and the active selection alone, a success records the switch in the registry and in memory.
\<close>

section \<open>What the helpers leave alone\<close>

text \<open>Nothing but the registry changes.\<close>

definition reg_only :: "('r, 'c, 'v, 's, 'p, 'e) control \<Rightarrow> ('r, 'c, 'v, 's, 'p, 'e) control \<Rightarrow> bool" where
  "reg_only st t \<longleftrightarrow> (\<exists>r. t = st\<lparr>pm_reg := r\<rparr>)"

lemma reg_only_refl [simp]: "reg_only st st"
  unfolding reg_only_def by (rule exI [of _ "pm_reg st"]) simp

lemma reg_only_trans: "reg_only st t \<Longrightarrow> reg_only t u \<Longrightarrow> reg_only st u"
  by (auto simp: reg_only_def)

lemma reg_only_same:
  assumes "reg_only st t"
  shows "pm_slots t = pm_slots st" and "pm_active t = pm_active st" and "pm_svc t = pm_svc st"
    and "pm_ctl t = pm_ctl st" and "pm_owned t = pm_owned st" and "pm_timers t = pm_timers st"
    and "pm_locked t = pm_locked st" and "pm_draining t = pm_draining st"
  using assms by (auto simp: reg_only_def)

lemma on_reg_only: "on_reg f st = (x, t) \<Longrightarrow> reg_only st t"
  by (auto simp: on_reg_def reg_only_def split: prod.splits)

lemma on_reg_iff: "on_reg f st = (x, t) \<longleftrightarrow> f (pm_reg st) = (x, pm_reg t) \<and> reg_only st t"
  by (auto simp: on_reg_def reg_only_def split: prod.splits)

lemma reg_only_snd [simp]: "reg_only st (snd (on_reg f st))"
  by (auto simp: on_reg_def reg_only_def split: prod.splits)

lemma helpers_reg_only [simp]:
  "reg_only st (reg_set E k fn st)" "reg_only st (audit E a rec oc d st)" "reg_only st (logf E k f as st)"
  by (simp_all add: reg_set_def reg_update_def audit_def logf_def)

text \<open>
  The registry is well-formed and selects the same plugins; slots, memory and ownership are unchanged, while
  the service and the controller may have worked.
\<close>

context plugin_registry
begin

definition settled :: "('r, 'c, 'v, 's, 'p, 'e) control \<Rightarrow> ('r, 'c, 'v, 's, 'p, 'e) control \<Rightarrow> bool" where
  "settled st t \<longleftrightarrow> rok (pm_reg t) \<and> acts (pm_reg t) = acts (pm_reg st) \<and> pm_slots t = pm_slots st \<and>
     pm_active t = pm_active st \<and> pm_owned t = pm_owned st \<and> pm_locked t = pm_locked st \<and> pm_timers t = pm_timers st"

lemma settled_refl: "rok (pm_reg st) \<Longrightarrow> settled st st"
  by (simp add: settled_def)

lemma settled_trans: "settled st t \<Longrightarrow> settled t u \<Longrightarrow> settled st u"
  by (simp add: settled_def)

lemma settled_ok: "settled st t \<Longrightarrow> rok (pm_reg t)"
  by (simp add: settled_def)

lemma settled_on_reg:
  assumes "rok (pm_reg st)" and "on_reg f st = (x, t)" and "\<And>r y u. rok r \<Longrightarrow> f r = (y, u) \<Longrightarrow> rok u \<and> acts u = acts r"
  shows "settled st t"
  using assms(3) [OF assms(1)] assms(2) reg_only_same [of st t] by (auto simp: on_reg_iff settled_def)

lemma settled_snd:
  assumes "rok (pm_reg st)" and "\<And>r y u. rok r \<Longrightarrow> f r = (y, u) \<Longrightarrow> rok u \<and> acts u = acts r"
  shows "settled st (snd (on_reg f st))"
  by (rule settled_on_reg [OF assms(1) prod.collapse [symmetric] assms(2)])

lemma settled_get:
  assumes "mg_G E = G" and "rok (pm_reg st)" and "reg_get E k st = (x, t)"
  shows "settled st t"
  by (rule settled_on_reg [OF assms(2) assms(3) [unfolded reg_get_def assms(1)]]) (use get_state in blast)

lemma settled_update:
  assumes "mg_G E = G" and "rok (pm_reg st)" and "reg_update E k fn st = (x, t)"
  shows "settled st t"
  by (rule settled_on_reg [OF assms(2) assms(3) [unfolded reg_update_def assms(1)]]) (use update_state in blast)

lemma settled_setState: "mg_G E = G \<Longrightarrow> rok (pm_reg st) \<Longrightarrow> setState E k to d st = (x, t) \<Longrightarrow> settled st t"
  unfolding setState_def by (rule settled_update)

lemma settled_set:
  assumes "mg_G E = G" and "rok (pm_reg st)"
  shows "settled st (reg_set E k fn st)"
  unfolding reg_set_def by (rule settled_update [OF assms prod.collapse [symmetric]])

lemma settled_audit:
  assumes "mg_G E = G" and "rok (pm_reg st)"
  shows "settled st (audit E a rec oc d st)"
  unfolding audit_def assms(1) by (rule settled_snd [OF assms(2)]) (use audit_state in blast)

lemma settled_logf:
  assumes "mg_G E = G" and "rok (pm_reg st)"
  shows "settled st (logf E k f as st)"
  unfolding logf_def assms(1) by (rule settled_snd [OF assms(2)]) (use log_state in blast)

lemma settled_warnings:
  assumes "mg_G E = G"
  shows "rok (pm_reg st) \<Longrightarrow> settled st (fold (\<lambda>(f, as) u. logf E k m [AErr (Errorf f as)] u) ws st)"
proof (induction ws arbitrary: st)
  case (Cons w ws)
  obtain f as where w: "w = (f, as)" by fastforce
  have "settled st (logf E k m [AErr (Errorf f as)] st)" by (rule settled_logf [OF assms Cons.prems])
  with Cons.IH [OF settled_ok [OF this]] show ?case using settled_trans w by simp
qed (simp add: settled_refl)

lemma settled_failed:
  assumes "mg_G E = G" and "rok (pm_reg st)" and "switch_failed E mode actor cause st = (x, t)"
  shows "settled st t \<and> x = Inl cause"
proof -
  define st1 where "st1 = (if errors_as is_requirement cause \<noteq> None
                 then reg_set E (rc_ID actor) (\<lambda>r. r\<lparr>rc_State := rc_State actor\<rparr>) st
                 else if mode = ModeRollback
                 then reg_set E (rc_ID actor) (\<lambda>r. r\<lparr>rc_State := StateActive, rc_StateDetail := (''rollback failed: %v'', [AErr cause])\<rparr>) st
                 else reg_set E (rc_ID actor) (\<lambda>r. r\<lparr>rc_State := StateFailed, rc_StateDetail := failure_detail cause\<rparr>) st)"
  have 1: "settled st st1" unfolding st1_def using settled_set [OF assms(1,2)] by simp
  have t: "x = Inl cause"
    "t = audit E (modeName mode) (Some actor) ''failed'' (''%v'', [AErr cause])
       (logf E (rc_ID actor) ''%s not completed: %v (previous implementation left in place)'' [AStr (modeName mode), AErr cause] st1)"
    using assms(3) by (auto simp: switch_failed_def Let_def st1_def)
  note 2 = settled_logf [OF assms(1) settled_ok [OF 1]]
  show ?thesis
    unfolding t using settled_trans [OF 1 settled_trans [OF 2 settled_audit [OF assms(1) settled_ok [OF 2]]]] by simp
qed

lemma settled_discard: "rok (pm_reg st) \<Longrightarrow> settled st (discard owned a st)"
  by (simp add: discard_def settled_def)

lemma settled_svc: "rok (pm_reg st) \<Longrightarrow> settled st (st\<lparr>pm_ctl := c, pm_svc := s\<rparr>)"
  by (simp add: settled_def)

lemma settled_candidate:
  assumes "rok (pm_reg st)" and "candidate E slot target st = (x, t)"
  shows "settled st t"
  using assms
  by (auto simp: candidate_def settled_def split: option.splits sum.splits prod.splits)

lemma settled_complete:
  assumes "mg_G E = G" and "rok (pm_reg st)" and "switch_complete E mode actor target pl st = (x, t)"
  shows "settled st t \<and> (\<exists>rec. x = Inr (rec, pl_warnings pl))"
proof -
  let ?k = "case target of Some u \<Rightarrow> rc_ID u | None \<Rightarrow> rc_ID actor"
  obtain g st1 where g: "reg_get E ?k st = (g, st1)" by fastforce
  note 1 = settled_get [OF assms(1,2) g]
  note 2 = settled_warnings [OF assms(1) settled_ok [OF 1]]
  note 3 = settled_logf [OF assms(1) settled_ok [OF 2]]
  note 4 = settled_audit [OF assms(1) settled_ok [OF 3]]
  show ?thesis
    using assms(3) g settled_trans [OF 1 settled_trans [OF 2 settled_trans [OF 3 4]]]
    by (auto simp: switch_complete_def Let_def)
qed

text \<open>Afterwards: the slots, the selection and the registry stay; an adapter that is owned may be given up.\<close>

lemma after_switch:
  fixes E :: "('r, 'c, 'v, 's, 'p, 'e) mgr_env"
  assumes "mg_G E = G" and "rok (pm_reg st)"
  shows "rok (pm_reg (afterSwitch E slot k a st)) \<and> acts (pm_reg (afterSwitch E slot k a st)) = acts (pm_reg st) \<and>
    pm_slots (afterSwitch E slot k a st) = pm_slots st \<and> pm_active (afterSwitch E slot k a st) = pm_active st \<and>
    pm_owned (afterSwitch E slot k a st) = gm_del k (pm_owned st)"
proof -
  have sched: "rok (pm_reg (scheduleStop E k u)) \<and> acts (pm_reg (scheduleStop E k u)) = acts (pm_reg u) \<and>
      pm_slots (scheduleStop E k u) = pm_slots u \<and> pm_active (scheduleStop E k u) = pm_active u \<and>
      pm_owned (scheduleStop E k u) = pm_owned u" if "rok (pm_reg u)" for u :: "('r, 'c, 'v, 's, 'p, 'e) control"
  proof -
    obtain x v where g: "reg_get E k u = (x, v)" by fastforce
    have "settled u v" by (rule settled_get [OF assms(1) that g])
    then show ?thesis using g that by (auto simp: scheduleStop_def settled_def split: sum.splits)
  qed
  show ?thesis
    using assms(2) by (auto simp: afterSwitch_def Let_def sched)
qed

text \<open>Recording a switch: on success in the registry and in memory, on failure at most in the registry.\<close>

lemma commit_cases:
  assumes "mg_G E = G" and "rok (pm_reg st)" and "commit E slot oldID target conf pl mode th st = (x, t)"
    and "newID = (case target of Some u \<Rightarrow> rc_ID u | None \<Rightarrow> [])"
  shows "rok (pm_reg t)" and "pm_slots t = pm_slots st" and "pm_owned t = pm_owned st"
    and "x = None \<Longrightarrow> acts (pm_reg t) = (acts (pm_reg st))(slot := (if newID = [] then None else Some newID)) \<and>
           pm_active t = gm_put slot newID (pm_active st)"
    and "x \<noteq> None \<Longrightarrow> pm_active t = pm_active st"
proof -
  let ?f = "if newID = [] then rg_ClearActive (mg_G E) slot else rg_SetActive (mg_G E) slot newID"
  obtain y st1 where f: "on_reg ?f st = (y, st1)" by fastforce
  have o1: "reg_only st st1" "?f (pm_reg st) = (y, pm_reg st1)" using f by (auto simp: on_reg_iff)
  have A: "rok (pm_reg st1) \<and> (acts (pm_reg st1) = (acts (pm_reg st))(slot := (if newID = [] then None else Some newID)) \<or>
      y \<noteq> None \<and> acts (pm_reg st1) = acts (pm_reg st))"
  proof (cases "newID = []")
    case True
    then have "rg_ClearActive G slot (pm_reg st) = (y, pm_reg st1)" using o1(2) assms(1) by simp
    from clear_active [OF assms(2) this] True show ?thesis by auto
  next
    case False
    then have "rg_SetActive G slot newID (pm_reg st) = (y, pm_reg st1)" using o1(2) assms(1) by simp
    from set_active [OF assms(2) this] False show ?thesis by auto
  qed
  define cu where "cu = (if newID = [] then (None, st1)
                 else case reg_update E newID (\<lambda>r. Inr (commit_active mode oldID conf (pl_threshold pl) th r)) st1 of
                        (Inl e, st2) \<Rightarrow> (Some e, st2)
                      | (Inr _, st2) \<Rightarrow> (None, st2))"
  obtain z st2 where cu: "cu = (z, st2)" by fastforce
  have B: "settled st1 st2"
  proof (cases "newID = []")
    case True
    then show ?thesis using cu A by (simp add: cu_def settled_refl)
  next
    case False
    obtain w u where u: "reg_update E newID (\<lambda>r. Inr (commit_active mode oldID conf (pl_threshold pl) th r)) st1 = (w, u)"
      by fastforce
    from settled_update [OF assms(1) conjunct1 [OF A] u] show ?thesis
      using cu False u by (auto simp: cu_def split: sum.splits)
  qed
  define st3 where "st3 = (if oldID \<noteq> [] \<and> oldID \<noteq> newID then reg_set E oldID (commit_final mode) st2 else st2)"
  have C: "settled st2 st3" unfolding st3_def using settled_set [OF assms(1) settled_ok [OF B]] settled_refl [OF settled_ok [OF B]] by simp
  have run: "(x, t) = (case y of Some e \<Rightarrow> (Some e, st1) | None \<Rightarrow>
      (case z of Some e \<Rightarrow> (Some e, st2) | None \<Rightarrow> (None, st3\<lparr>pm_active := gm_put slot newID (pm_active st3)\<rparr>)))"
    using assms(3) f cu unfolding commit_def Let_def assms(4) [symmetric] cu_def st3_def
    by (auto split: option.splits)
  note same = reg_only_same [OF o1(1)]
  show "rok (pm_reg t)" "pm_slots t = pm_slots st" "pm_owned t = pm_owned st"
    "x = None \<Longrightarrow> acts (pm_reg t) = (acts (pm_reg st))(slot := (if newID = [] then None else Some newID)) \<and>
           pm_active t = gm_put slot newID (pm_active st)"
    "x \<noteq> None \<Longrightarrow> pm_active t = pm_active st"
    using run A B C same by (auto simp: settled_def split: option.splits)
qed

end

section \<open>The outcome of a switch\<close>

definition target_id :: "plugin_record option \<Rightarrow> string" where
  "target_id target = (case target of Some u \<Rightarrow> rc_ID u | None \<Rightarrow> [])"

text \<open>What a switch may report and leave behind.\<close>

definition switch_outcome ::
    "('r \<Rightarrow> plugin_type \<Rightarrow> string option) \<Rightarrow> plugin_type \<Rightarrow> string \<Rightarrow> ('r, 'c, 'v, 's, 'p, 'e) control \<Rightarrow>
     switch_result res \<Rightarrow> ('r, 'c, 'v, 's, 'p, 'e) control \<Rightarrow> bool" where
  "switch_outcome acts slot newID st x t \<longleftrightarrow>
     (case x of
        Inl e \<Rightarrow> pm_slots t = pm_slots st \<and> pm_active t = pm_active st \<and> pm_owned t = pm_owned st \<and>
          (acts (pm_reg t) = acts (pm_reg st) \<or> (\<exists>c. e = Errorf ''could not record the switch: %w'' [AWrap c]))
      | Inr _ \<Rightarrow> pm_active t = gm_put slot newID (pm_active st) \<and>
          acts (pm_reg t) = (acts (pm_reg st))(slot := (if newID = [] then None else Some newID)) \<and>
          (\<forall>s. s \<noteq> slot \<longrightarrow> slot_current (pm_slots t) s = slot_current (pm_slots st) s) \<and>
          (\<forall>k. gm_get (pm_owned t) k \<noteq> None \<longrightarrow> gm_get (pm_owned st) k \<noteq> None))"

context plugin_registry
begin

lemma settled_outcome:
  "settled st u \<Longrightarrow> switch_outcome acts slot k u x t \<Longrightarrow> switch_outcome acts slot k st x t"
  by (auto simp: switch_outcome_def settled_def split: sum.splits)

lemma failed_outcome:
  assumes "mg_G E = G" and "rok (pm_reg st)" and "switch_failed E mode actor cause st = (x, t)"
  shows "switch_outcome acts slot k st x t"
  using settled_failed [OF assms] by (auto simp: switch_outcome_def settled_def)

lemma settled_begin:
  assumes "mg_G E = G" and "rok (pm_reg st)"
    and "(if c then setState E k to d st else (Inr actor, st)) = (mg, u)"
  shows "settled st u"
  using assms settled_setState [OF assms(1,2)] settled_refl by (auto split: if_splits)

text \<open>From the execution of the plan on.\<close>

lemma switch_tail:
  fixes E :: "('r, 'c, 'v, 's, 'p, 'e) mgr_env"
  assumes G: "mg_G E = G" and ok: "rok (pm_reg st)" and sl: "slots_ok (pm_slots st)"
    and run: "switch_execute E H slot actor conf mode target oldID impl owned pl prevThreshold st = (x, t)"
  shows "switch_outcome acts slot (target_id target) st x t"
proof -
  obtain y sl' s4 where ex: "execute H slot impl pl (pm_slots st) (pm_svc st) = (y, sl', s4)" by (rule prod_cases3)
  note X = failed_switch_keeps_slots [OF sl ex]
  let ?st4 = "st\<lparr>pm_slots := sl', pm_svc := s4\<rparr>"
  show ?thesis
  proof (cases y)
    case (Inl e)
    then have "settled st ?st4" using X ok by (simp add: settled_def)
    note D = settled_trans [OF this settled_discard [OF settled_ok [OF this]]]
    have "switch_failed E mode actor e (discard owned impl ?st4) = (x, t)" using run ex Inl by (simp add: switch_execute_def)
    from settled_outcome [OF D failed_outcome [OF G settled_ok [OF D] this]] show ?thesis .
  next
    case (Inr prev)
    define st5 where "st5 = (if mode \<noteq> ModeDeactivate
                 then reg_set E (rc_ID actor) (\<lambda>r. if ValidTransition (rc_State r) StateActivating
                        then r\<lparr>rc_State := StateActivating, rc_StateDetail := (''activating'', [])\<rparr> else r) ?st4
                 else ?st4)"
    have ok4: "rok (pm_reg ?st4)" using ok by simp
    have 5: "settled ?st4 st5" unfolding st5_def using settled_set [OF G ok4] settled_refl [OF ok4] by simp
    obtain z st6 where co: "commit E slot oldID target conf pl mode prevThreshold st5 = (z, st6)" by fastforce
    note C = commit_cases [OF G settled_ok [OF 5] co target_id_def [of target]]
    from X Inr have S: "slot_current (pm_slots st) slot = Some prev" "slot_current sl' slot = Some impl" "slots_ok sl'"
        "\<And>s. s \<noteq> slot \<Longrightarrow> slot_current sl' s = slot_current (pm_slots st) s" by auto
    have swapped: "slot_swap slot prev sl' = (Inr impl, pm_slots st)"
      using ex sl Inr execute_swap by blast
    show ?thesis
    proof (cases z)
      case None
      define st7 where "st7 = (case pl_threshold pl of Some t \<Rightarrow> st6\<lparr>pm_svc := SetThreshold t (pm_svc st6)\<rparr> | None \<Rightarrow> st6)"
      have st7: "pm_reg st7 = pm_reg st6" "pm_slots st7 = pm_slots st6" "pm_active st7 = pm_active st6" "pm_owned st7 = pm_owned st6"
        by (simp_all add: st7_def split: option.splits)
      note A = after_switch [OF G, of st7 slot oldID prev, unfolded st7, OF C(1)]
      have fin: "switch_complete E mode actor target pl (afterSwitch E slot oldID prev st7) = (x, t)"
        using run ex Inr co None by (simp add: switch_execute_def st5_def st7_def Let_def)
      have "settled (afterSwitch E slot oldID prev st7) t \<and> (\<exists>rec. x = Inr (rec, pl_warnings pl))"
        by (rule settled_complete [OF G _ fin]) (use A in blast)
      then show ?thesis using A C(2,3) C(4) [OF None] 5 S
        by (auto simp: switch_outcome_def settled_def split: if_splits)
    next
      case (Some e)
      have sl6: "slot_swap slot prev (pm_slots st6) = (Inr impl, pm_slots st)"
        using swapped C(2) 5 by (simp add: settled_def)
      let ?st7 = "st6\<lparr>pm_slots := pm_slots st\<rparr>"
      have fin: "switch_failed E mode actor (Errorf ''could not record the switch: %w'' [AWrap e]) (discard owned impl ?st7) = (x, t)"
        using run ex Inr co Some sl6 by (simp add: switch_execute_def st5_def Let_def)
      have ok7: "rok (pm_reg ?st7)" using C(1) by simp
      note D = settled_discard [OF ok7, of owned impl]
      have "z \<noteq> None" using Some by simp
      from settled_failed [OF G settled_ok [OF D] fin] D C(3) C(5) [OF this] 5
      show ?thesis by (auto simp: switch_outcome_def settled_def)
    qed
  qed
qed

end

context plugin_registry
begin

lemma run_outcome:
  fixes E :: "('r, 'c, 'v, 's, 'p, 'e) mgr_env"
  assumes G: "mg_G E = G" and ok: "rok (pm_reg st)" and sl: "slots_ok (pm_slots st)"
    and run: "switch_run E H slot actor conf mode target oldID st = (x, t)"
  shows "switch_outcome acts slot (target_id target) st x t"
proof -
  obtain y st1 where ca: "candidate E slot target st = (y, st1)" by fastforce
  note 1 = settled_candidate [OF ok ca]
  show ?thesis
  proof (cases y)
    case (Inl e)
    then have "switch_failed E mode actor e st1 = (x, t)" using run ca by (simp add: switch_run_def)
    from settled_outcome [OF 1 failed_outcome [OF G settled_ok [OF 1] this]] show ?thesis .
  next
    case (Inr io)
    obtain impl owned where io: "io = (impl, owned)" by fastforce
    obtain p s2 where pl: "planFor H (mc_MaxReembedEntries (mg_cfg E)) slot target impl conf (pm_slots st1) (pm_svc st1) = (p, s2)"
      by fastforce
    let ?st2 = "st1\<lparr>pm_svc := s2\<rparr>"
    have "settled st1 ?st2" using settled_ok [OF 1] by (simp add: settled_def)
    note 2 = settled_trans [OF 1 this]
    show ?thesis
    proof (cases p)
      case (Inl e)
      note D = settled_trans [OF 2 settled_discard [OF settled_ok [OF 2]]]
      have "switch_failed E mode actor e (discard owned impl ?st2) = (x, t)"
        using run ca Inr io pl Inl by (simp add: switch_run_def)
      from settled_outcome [OF D failed_outcome [OF G settled_ok [OF D] this]] show ?thesis .
    next
      case (Inr q)
      obtain mg st3 where mg: "(if pl_migrate q \<noteq> None \<or> pl_needGate q
            then setState E (rc_ID actor) StateMigrating (''migrating cache state'', []) ?st2
            else (Inr actor, ?st2)) = (mg, st3)" by fastforce
      note 3 = settled_trans [OF 2 settled_begin [OF G settled_ok [OF 2] mg]]
      note rest = run [unfolded switch_run_def ca \<open>y = Inr io\<close> io prod.case sum.case pl Inr Let_def mg]
      show ?thesis
      proof (cases "\<not> res_ok mg \<and> mode = ModeActivate")
        case True
        note D = settled_trans [OF 3 settled_discard [OF settled_ok [OF 3]]]
        have "switch_failed E mode actor (case mg of Inl e \<Rightarrow> e | Inr _ \<Rightarrow> ErrBusy) (discard owned impl st3) = (x, t)"
          using rest True by simp
        from settled_outcome [OF D failed_outcome [OF G settled_ok [OF D] this]] show ?thesis .
      next
        case False
        have sl3: "slots_ok (pm_slots st3)" using sl 3 by (simp add: settled_def)
        show ?thesis
          by (rule settled_outcome [OF 3 switch_tail [OF G settled_ok [OF 3] sl3]])
            (use rest False in simp)
      qed
    qed
  qed
qed

lemma switch_slot_outcome:
  fixes E :: "('r, 'c, 'v, 's, 'p, 'e) mgr_env"
  assumes G: "mg_G E = G" and ok: "rok (pm_reg st)" and sl: "slots_ok (pm_slots st)"
    and run: "switchSlot E slot rec conf mode st = (x, t)"
  shows "\<exists>newID. switch_outcome acts slot newID st x t \<and>
    (mode = ModeActivate \<longrightarrow> newID = rc_ID rec) \<and> (mode = ModeDeactivate \<longrightarrow> newID = [])"
proof -
  have stay: "settled st t \<Longrightarrow> x = Inl e \<Longrightarrow> switch_outcome acts slot k st x t" for e k
    by (simp add: switch_outcome_def settled_def)
  have trivial: "?thesis" if "settled st t" "\<exists>e. x = Inl e"
    using stay [OF that(1)] that(2) by (cases mode) auto
  show ?thesis
  proof (cases "slot \<in> set (pm_locked st) \<or> mg_host E = None")
    case True
    then have "t = st \<and> (\<exists>e. x = Inl e)" using run by (auto simp: switchSlot_def split: if_splits)
    then show ?thesis using settled_refl [OF ok] by (intro trivial) simp_all
  next
    case False
    then obtain H where H: "mg_host E = Some H" by auto
    obtain y st1 where ta: "switch_target E mode rec st = (y, st1)" by fastforce
    have 1: "settled st st1"
    proof (cases "mode = ModeRollback \<and> rc_PreviousActiveID rec \<noteq> []")
      case True
      obtain g u where "reg_get E (rc_PreviousActiveID rec) st = (g, u)" by fastforce
      with settled_get [OF G ok this] True ta show ?thesis by (auto simp: switch_target_def split: sum.splits)
    next
      case False
      then show ?thesis using ta settled_refl [OF ok] by (auto simp: switch_target_def split: switch_mode.splits)
    qed
    have tid: "y = Inr target \<Longrightarrow> (mode = ModeActivate \<longrightarrow> target_id target = rc_ID rec) \<and> (mode = ModeDeactivate \<longrightarrow> target_id target = [])" for target
      using ta by (auto simp: switch_target_def target_id_def)
    have last: ?thesis if r: "switch_run E H slot rec c mode target k u = (x, t)" and u: "settled st u" and y: "y = Inr target"
      for c target k u
    proof -
      have "slots_ok (pm_slots u)" using sl u by (simp add: settled_def)
      from settled_outcome [OF u run_outcome [OF G settled_ok [OF u] this r]] tid [OF y] show ?thesis by blast
    qed
    show ?thesis
    proof (cases y)
      case (Inl e)
      then show ?thesis using run False H ta 1 by (intro trivial) (auto simp: switchSlot_def)
    next
      case (Inr target)
      obtain z u where ss: "setState E (rc_ID rec) (if mode = ModeRollback then StateRollingBack else StateChecking)
          (''preparing candidate'', []) st1 = (z, u)" by fastforce
      note 2 = settled_trans [OF 1 settled_setState [OF G settled_ok [OF 1] ss]]
      consider (same) "mode = ModeActivate" "id_at (ActiveIDs st1) slot = rc_ID rec"
        | (leave) "mode = ModeDeactivate" | (err) e where "mode \<noteq> ModeDeactivate" "z = Inl e"
             "\<not> (mode = ModeActivate \<and> id_at (ActiveIDs st1) slot = rc_ID rec)"
        | (go) r where "mode \<noteq> ModeDeactivate" "z = Inr r" "\<not> (mode = ModeActivate \<and> id_at (ActiveIDs st1) slot = rc_ID rec)"
        by (cases z) blast+
      then show ?thesis
      proof cases
        case same
        then show ?thesis using run False H ta Inr 1 by (intro trivial) (auto simp: switchSlot_def)
      next
        case leave
        then show ?thesis using run False H ta Inr 1 by (intro last [OF _ 1 Inr]) (simp add: switchSlot_def Let_def)
      next
        case err
        then show ?thesis using run False H ta Inr ss 2 by (intro trivial) (auto simp: switchSlot_def Let_def)
      next
        case go
        then have "switch_run E H slot rec (restore_threshold mode rec conf) mode target (id_at (ActiveIDs st1) slot) u = (x, t)"
          using run False H ta Inr ss by (auto simp: switchSlot_def Let_def)
        from last [OF this 2 Inr] show ?thesis .
      qed
    qed
  qed
qed

end


end
