(* ===== verification/Restore.thy ===== *)
theory Restore
  imports Install Switch_Laws
begin

text \<open>
  The rest of a plugin's life (\<open>internal/plugins/manager/lifecycle.go\<close>): upgrade, deletion, the restoration of
  the selection at startup, the health monitor. \<open>restore_env\<close> is the clock of the retry loop and the
  cancellation of its context, by the number of the attempt; the loop itself has no bound in its code.
\<close>

section \<open>Upgrade\<close>

definition upgrade_request :: "plugin_record \<Rightarrow> (string, string) gomap \<Rightarrow> install_request \<Rightarrow> install_request" where
  "upgrade_request old carried req =
     req\<lparr>ir_Name := (if ir_Name req = [] then rc_Name old else ir_Name req),
         ir_Mode := (if ir_Mode req = [] then mode_name (rc_Mode old) else ir_Mode req),
         ir_Config := (case ir_Config req of None \<Rightarrow> Some (rc_Config old) | Some c \<Rightarrow> Some c),
         ir_Secrets := put_all (ir_Secrets req) (put_all carried [])\<rparr>"

definition check_upgrade :: "plugin_record \<Rightarrow> parsed_request \<Rightarrow> goerr option" where
  "check_upgrade old p =
     (case pr_manifest p of
        None \<Rightarrow> None
      | Some mf \<Rightarrow>
          if mf_Name mf \<noteq> rc_Name old
          then Some (InvalidError ''an upgrade must keep the plugin name (%q, not %q)'' [AStr (rc_Name old), AStr (mf_Name mf)])
          else if semverCompare (mf_Version mf) (rc_Version old) \<le> 0
          then Some (InvalidError ''version %s is not newer than the installed %s'' [AStr (mf_Version mf), AStr (rc_Version old)])
          else None)"

definition mgr_Upgrade ::
    "('v, 's, 'p, 'e) inst_lib \<Rightarrow> ('r, 'c, 'v, 's, 'p, 'e) mgr_env \<Rightarrow> string \<Rightarrow> (string \<Rightarrow> string res) \<Rightarrow> string \<Rightarrow>
     install_request \<Rightarrow> ('r, 'c, 'v, 's, 'p, 'e) control \<Rightarrow> started res \<times> ('r, 'c, 'v, 's, 'p, 'e) control" where
  "mgr_Upgrade L E random nonce k req0 st =
     (case requireEnabled E of
        Some e \<Rightarrow> (Inl e, st)
      | None \<Rightarrow>
     (case reg_get E k st of
        (Inl e, st1) \<Rightarrow> (Inl e, st1)
      | (Inr old, st1) \<Rightarrow>
          (let req1 = (if ir_Type req0 = [] then req0\<lparr>ir_Type := type_name (rc_Type old)\<rparr> else req0) in
           if ir_Type req1 \<noteq> type_name (rc_Type old)
           then (Inl (InvalidError ''an upgrade cannot change the plugin type (%s -> %s)'' [AStr (type_name (rc_Type old)), AStr (ir_Type req1)]), st1)
           else case openSecrets E old of
             Inl e \<Rightarrow> (Inl e, st1)
           | Inr carried \<Rightarrow>
               (let req = upgrade_request old carried req1 in
                case parseRequest (il_req L) E req of
                  Inl e \<Rightarrow> (Inl e, audit E ''upgrade'' (Some old) ''denied'' (''%v'', [AErr e]) st1)
                | Inr p \<Rightarrow>
                    (case check_upgrade old p of
                       Some e \<Rightarrow> (Inl e, st1)
                     | None \<Rightarrow>
                         (case sealInto E nonce ((newRecord E random p (rc_Name old))\<lparr>rc_UpgradedFromID := rc_ID old\<rparr>) (pr_secrets p) of
                            Inl e \<Rightarrow> (Inl e, st1)
                          | Inr rec \<Rightarrow>
                              (case create_record E (with_confirmations (ir_Confirmations req) rec) st1 of
                                 (Inl e, st2) \<Rightarrow> (Inl e, st2)
                               | (Inr r, st2) \<Rightarrow>
                                   (Inr (r, (rc_ID r, ir_Activate req)),
                                    logf E (rc_ID r) ''upgrade of %s (%s) requested'' [AStr (rc_Name old), AStr (rc_Version old)]
                                      (audit E ''upgrade'' (Some r) ''ok'' (''%s -> %s'', [AStr (rc_Version old), AStr (rc_Version r)]) st2)))))))))"

section \<open>Deletion\<close>

text \<open>The active plugin that would roll back to \<open>k\<close>.\<close>

definition rollback_user :: "string \<Rightarrow> plugin_record list \<Rightarrow> plugin_record option" where
  "rollback_user k rs = List.find (\<lambda>r. rc_Active r \<and> rc_PreviousActiveID r = k) rs"

definition mgr_Delete :: "('r, 'c, 'v, 's, 'p, 'e) mgr_env \<Rightarrow> string \<Rightarrow> ('r, 'c, 'v, 's, 'p, 'e) control \<Rightarrow>
    goerr option \<times> ('r, 'c, 'v, 's, 'p, 'e) control" where
  "mgr_Delete E k st =
     (case requireEnabled E of
        Some e \<Rightarrow> (Some e, st)
      | None \<Rightarrow>
     (case reg_get E k st of
        (Inl e, st1) \<Rightarrow> (Some e, st1)
      | (Inr rec, st1) \<Rightarrow>
          if rc_Active rec
          then (Some (InvalidError ''plugin is active; deactivate it first'' []),
                audit E ''delete'' (Some rec) ''denied'' (''plugin is active'', []) st1)
          else if InProgress (rc_State rec) then (Some (InvalidError ''plugin is %s; wait for it to finish'' []), st1)
          else case on_reg (rg_List (mg_G E)) st1 of
                 (Inl e, st2) \<Rightarrow> (Some e, st2)
               | (Inr all, st2) \<Rightarrow>
                   (case rollback_user k all of
                      Some r \<Rightarrow>
                        (Some (InvalidError ''plugin is the rollback target of the active plugin %q; deactivate that plugin or activate another version first''
                                [AStr (rc_Name r)]),
                         audit E ''delete'' (Some rec) ''denied'' (''rollback target of %s'', [AStr (rc_ID r)]) st2)
                    | None \<Rightarrow>
                        (let st3 = st2\<lparr>pm_timers := gm_del k (pm_timers st2), pm_owned := gm_del k (pm_owned st2)\<rparr>;
                             st4 = (case mg_ctl E of
                                 Some C \<Rightarrow>
                                   if rc_Mode rec \<noteq> ModeEndpoint
                                   then (case co_Stop C k (pm_ctl st3) of
                                           (Some e, c) \<Rightarrow> logf E k ''could not stop instance while deleting: %v'' [AErr e] (st3\<lparr>pm_ctl := c\<rparr>)
                                         | (None, c) \<Rightarrow> st3\<lparr>pm_ctl := c\<rparr>)
                                   else st3
                               | None \<Rightarrow> st3)
                         in case on_reg (rg_Delete (mg_G E) k) st4 of
                              (Some e, st5) \<Rightarrow> (Some e, st5)
                            | (None, st5) \<Rightarrow>
                                (None, audit E ''delete'' (Some rec) ''ok'' (''%s@%s'', [AStr (rc_Name rec), AStr (rc_Version rec)]) st5)))))"

section \<open>Restoration\<close>

record restore_env =
  rv_now :: "nat \<Rightarrow> int"         \<comment> \<open>the clock after the n-th attempt\<close>
  rv_start :: "nat \<Rightarrow> int"       \<comment> \<open>the clock before it\<close>
  rv_ctxErr :: "nat \<Rightarrow> bool"     \<comment> \<open>the context has ended after the n-th attempt\<close>
  rv_canceled :: "nat \<Rightarrow> bool"   \<comment> \<open>it ends during the wait that follows\<close>

definition restoreOne :: "('r, 'c, 'v, 's, 'p, 'e) mgr_env \<Rightarrow> plugin_type \<Rightarrow> plugin_record \<Rightarrow> ('r, 'c, 'v, 's, 'p, 'e) control \<Rightarrow>
    goerr option \<times> ('r, 'c, 'v, 's, 'p, 'e) control" where
  "restoreOne E slot rec st =
     (let st1 = logf E (rc_ID rec) ''restoring the active %s plugin %q'' [AStr (type_name slot), AStr (rc_Name rec)] st in
      case openSecrets E rec of
        Inl e \<Rightarrow> (Some e, st1)
      | Inr sec \<Rightarrow>
          (case mg_build E rec sec (pm_slots st1) (pm_ctl st1) (pm_svc st1) of
             (Inl e, c, s) \<Rightarrow> (Some e, st1\<lparr>pm_ctl := c, pm_svc := s\<rparr>)
           | (Inr a, c, s) \<Rightarrow>
               (case probeHealth a s of
                  (Some e, s1) \<Rightarrow> (Some (Errorf ''not healthy: %w'' [AWrap e]), st1\<lparr>pm_ctl := c, pm_svc := Close a s1\<rparr>)
                | (None, s1) \<Rightarrow>
                    (case slot_swap slot a (pm_slots st1) of
                       (Inl e, sl) \<Rightarrow> (Some e, st1\<lparr>pm_ctl := c, pm_svc := Close a s1, pm_slots := sl\<rparr>)
                     | (Inr _, sl) \<Rightarrow>
                         (None, st1\<lparr>pm_ctl := c, pm_svc := s1, pm_slots := sl, pm_owned := gm_put (rc_ID rec) a (pm_owned st1)\<rparr>)))))"

partial_function (option) restore_loop ::
    "('r, 'c, 'v, 's, 'p, 'e) mgr_env \<Rightarrow> restore_env \<Rightarrow> int \<Rightarrow> plugin_type \<Rightarrow> plugin_record \<Rightarrow> nat \<Rightarrow>
     ('r, 'c, 'v, 's, 'p, 'e) control \<Rightarrow> (goerr option \<times> nat \<times> ('r, 'c, 'v, 's, 'p, 'e) control) option" where
  "restore_loop E R deadline slot rec n st =
     (case restoreOne E slot rec st of (x, st1) \<Rightarrow>
        (case x of
           None \<Rightarrow> Some (None, Suc n, st1)
         | Some e \<Rightarrow>
             if errors_is e ErrKeyMismatch \<or> errors_is e ErrCorrupt \<or> deadline < rv_now R n \<or> rv_ctxErr R n
             then Some (Some e, Suc n, st1)
             else if rv_canceled R n
             then Some (Some e, Suc n, logf E (rc_ID rec) ''restore attempt failed (%v); retrying'' [AErr e] st1)
             else restore_loop E R deadline slot rec (Suc n) (logf E (rc_ID rec) ''restore attempt failed (%v); retrying'' [AErr e] st1)))"

declare restore_loop.simps [code]

definition restoreWithRetry ::
    "('r, 'c, 'v, 's, 'p, 'e) mgr_env \<Rightarrow> restore_env \<Rightarrow> plugin_type \<Rightarrow> plugin_record \<Rightarrow> nat \<Rightarrow>
     ('r, 'c, 'v, 's, 'p, 'e) control \<Rightarrow> (goerr option \<times> nat \<times> ('r, 'c, 'v, 's, 'p, 'e) control) option" where
  "restoreWithRetry E R slot rec n st =
     restore_loop E R (rv_start R n + mc_RestoreWait (mg_cfg E)) slot rec n st"

text \<open>What follows the attempts for one slot. An error of the result ends the restoration.\<close>

definition restore_failed ::
    "('r, 'c, 'v, 's, 'p, 'e) mgr_env \<Rightarrow> plugin_type \<Rightarrow> plugin_record \<Rightarrow> string \<Rightarrow> goerr \<Rightarrow> ('r, 'c, 'v, 's, 'p, 'e) control \<Rightarrow>
     goerr option \<times> ('r, 'c, 'v, 's, 'p, 'e) control" where
  "restore_failed E slot rec k e st =
     (let st1 = logf E k ''RESTORE FAILED: %s'' [AErr e] st in
      if stateBearing slot
      then (Some (Errorf ''cannot restore the active %s plugin %q (%s): %s -- fix it, or deactivate the plugin in the registry to fall back to the built-in''
                   [AStr (type_name slot), AStr (rc_Name rec), AStr k, AErr e]), st1)
      else let st2 = reg_set E k (\<lambda>r. r\<lparr>rc_Health := \<lparr>hl_Status = ''unhealthy'', hl_Message = (''%v'', [AErr e]), hl_CheckedAt = mg_now E\<rparr>,
                 rc_Active := False, rc_State := StateFailed,
                 rc_StateDetail := (''could not be restored at startup: %v'', [AErr e])\<rparr>) st1;
               st3 = snd (on_reg (rg_ClearActive (mg_G E) slot) st2)
           in (None, audit E ''restore'' (Some rec) ''failed'' (''%v'', [AErr e]) st3))"

definition restore_done ::
    "('r, 'c, 'v, 's, 'p, 'e) mgr_env \<Rightarrow> plugin_type \<Rightarrow> plugin_record \<Rightarrow> string \<Rightarrow> ('r, 'c, 'v, 's, 'p, 'e) control \<Rightarrow>
     ('r, 'c, 'v, 's, 'p, 'e) control" where
  "restore_done E slot rec k st =
     (let st1 = st\<lparr>pm_active := gm_put slot k (pm_active st),
                pm_restoredThreshold := (if slot = TypeVectorStore \<and> cf_Threshold (rc_Confirmations rec) \<noteq> None
                  then cf_Threshold (rc_Confirmations rec) else pm_restoredThreshold st)\<rparr>
      in audit E ''restore'' (Some rec) ''ok'' no_detail
           (logf E k ''restored as the active %s implementation'' [AStr (type_name slot)] st1))"

definition restore_slot ::
    "('r, 'c, 'v, 's, 'p, 'e) mgr_env \<Rightarrow> restore_env \<Rightarrow> string \<Rightarrow> plugin_type \<Rightarrow> nat \<Rightarrow> ('r, 'c, 'v, 's, 'p, 'e) control \<Rightarrow>
     (goerr option \<times> nat \<times> ('r, 'c, 'v, 's, 'p, 'e) control) option" where
  "restore_slot E R k slot n st =
     (if k = [] then Some (None, n, st)
      else case reg_get E k st of
        (Inl _, st1) \<Rightarrow> Some (None, n, snd (on_reg (rg_ClearActive (mg_G E) slot) st1))
      | (Inr rec, st1) \<Rightarrow>
          (case restoreWithRetry E R slot rec n st1 of
             None \<Rightarrow> None
           | Some (Some e, m, st2) \<Rightarrow> (case restore_failed E slot rec k e st2 of (x, st3) \<Rightarrow> Some (x, m, st3))
           | Some (None, m, st2) \<Rightarrow> Some (None, m, restore_done E slot rec k st2)))"

fun restore_slots ::
    "('r, 'c, 'v, 's, 'p, 'e) mgr_env \<Rightarrow> restore_env \<Rightarrow> (plugin_type, string) gomap \<Rightarrow> plugin_type list \<Rightarrow> nat \<Rightarrow>
     ('r, 'c, 'v, 's, 'p, 'e) control \<Rightarrow> (goerr option \<times> nat \<times> ('r, 'c, 'v, 's, 'p, 'e) control) option" where
  "restore_slots E R active [] n st = Some (None, n, st)"
| "restore_slots E R active (slot # slots) n st =
     (case restore_slot E R (id_at active slot) slot n st of
        None \<Rightarrow> None
      | Some (Some e, m, st1) \<Rightarrow> Some (Some e, m, st1)
      | Some (None, m, st1) \<Rightarrow> restore_slots E R active slots m st1)"

definition mgr_Restore ::
    "('r, 'c, 'v, 's, 'p, 'e) mgr_env \<Rightarrow> restore_env \<Rightarrow> ('r, 'c, 'v, 's, 'p, 'e) control \<Rightarrow>
     (goerr option \<times> ('r, 'c, 'v, 's, 'p, 'e) control) option" where
  "mgr_Restore E R st =
     (if requireEnabled E \<noteq> None then Some (None, st)
      else case on_reg (rg_Active (mg_G E)) st of
        (Inl e, st1) \<Rightarrow> Some (Some (Errorf ''read active plugin selection: %w'' [AWrap e]), st1)
      | (Inr active, st1) \<Rightarrow>
          map_option (\<lambda>(x, _, st2). (x, st2)) (restore_slots E R active slotTypes 0 st1))"

section \<open>Health and the end\<close>

definition check_health :: "('r, 'c, 'v, 's, 'p, 'e) mgr_env \<Rightarrow> plugin_type \<Rightarrow> string \<Rightarrow> ('r, 'c, 'v, 's, 'p, 'e) control \<Rightarrow>
    ('r, 'c, 'v, 's, 'p, 'e) control" where
  "check_health E slot k st =
     (if k = [] then st
      else case (case slot_current (pm_slots st) slot of Some a \<Rightarrow> probeHealth a (pm_svc st) | None \<Rightarrow> (None, pm_svc st)) of
        (x, s) \<Rightarrow>
          (let st1 = st\<lparr>pm_svc := s\<rparr>;
               h = (case x of None \<Rightarrow> \<lparr>hl_Status = ''healthy'', hl_Message = no_detail, hl_CheckedAt = mg_now E\<rparr>
                  | Some e \<Rightarrow> \<lparr>hl_Status = ''unhealthy'', hl_Message = (''%v'', [AErr e]), hl_CheckedAt = mg_now E\<rparr>)
           in case reg_get E k st1 of
                (Inl _, st2) \<Rightarrow> st2
              | (Inr prev, st2) \<Rightarrow>
                  (let st3 = (if hl_Status (rc_Health prev) \<noteq> hl_Status h
                       then logf E k ''health changed: %s -> %s %s'' [AStr (hl_Status (rc_Health prev)), AStr (hl_Status h)] st2 else st2)
                   in reg_set E k (\<lambda>r. r\<lparr>rc_Health := h\<rparr>) st3)))"

definition CheckActiveHealth :: "('r, 'c, 'v, 's, 'p, 'e) mgr_env \<Rightarrow> ('r, 'c, 'v, 's, 'p, 'e) control \<Rightarrow>
    ('r, 'c, 'v, 's, 'p, 'e) control" where
  "CheckActiveHealth E st = foldl (\<lambda>u (slot, k). check_health E slot k u) st (ActiveIDs st)"

text \<open>\<open>Close\<close> stops the timers; it then waits for the background work.\<close>

definition mgr_Close :: "('r, 'c, 'v, 's, 'p, 'e) control \<Rightarrow> ('r, 'c, 'v, 's, 'p, 'e) control" where
  "mgr_Close st = st\<lparr>pm_timers := []\<rparr>"

definition IsNotFound :: "goerr \<Rightarrow> bool" where
  "IsNotFound e = errors_is e Registry.ErrNotFound"

end
