(* ===== verification/Side_By_Side.thy ===== *)
theory Side_By_Side
  imports Ports
begin

text \<open>
  Two stores next to each other: the operations of one on a pair of states, and the laws they keep.
  \<open>two_stores\<close> is the contract a migration between persistence stores relies on.
\<close>

section \<open>Operations on one half of a pair\<close>

definition on_fst :: "('a \<Rightarrow> 'x \<times> 'a) \<Rightarrow> 'a \<times> 'b \<Rightarrow> 'x \<times> 'a \<times> 'b" where
  "on_fst f w = (case f (fst w) of (x, a) \<Rightarrow> (x, a, snd w))"

definition on_snd :: "('b \<Rightarrow> 'x \<times> 'b) \<Rightarrow> 'a \<times> 'b \<Rightarrow> 'x \<times> 'a \<times> 'b" where
  "on_snd f w = (case f (snd w) of (x, b) \<Rightarrow> (x, fst w, b))"

lemma on_fst_iff [simp]: "on_fst f w = (x, t) \<longleftrightarrow> f (fst w) = (x, fst t) \<and> snd t = snd w"
  by (cases t) (auto simp: on_fst_def split: prod.splits)

lemma on_snd_iff [simp]: "on_snd f w = (x, t) \<longleftrightarrow> f (snd w) = (x, snd t) \<and> fst t = fst w"
  by (cases t) (auto simp: on_snd_def split: prod.splits)

definition st_fst :: "'s store_ops \<Rightarrow> ('s \<times> 'u) store_ops" where
  "st_fst S = \<lparr>st_Save = (\<lambda>e. on_fst (st_Save S e)), st_Load = (\<lambda>k. on_fst (st_Load S k)), st_List = on_fst (st_List S),
     st_Size = on_fst (st_Size S), st_Delete = (\<lambda>k. on_fst (st_Delete S k)), st_Flush = on_fst (st_Flush S),
     st_Health = on_fst (st_Health S)\<rparr>"

definition st_snd :: "'s store_ops \<Rightarrow> ('u \<times> 's) store_ops" where
  "st_snd S = \<lparr>st_Save = (\<lambda>e. on_snd (st_Save S e)), st_Load = (\<lambda>k. on_snd (st_Load S k)), st_List = on_snd (st_List S),
     st_Size = on_snd (st_Size S), st_Delete = (\<lambda>k. on_snd (st_Delete S k)), st_Flush = on_snd (st_Flush S),
     st_Health = on_snd (st_Health S)\<rparr>"


section \<open>The laws carry over\<close>

text \<open>A law of one half, at the projections of the pair.\<close>

lemma st_snd_laws:
  assumes S: "cache_store S ok view"
  shows "cache_store (st_snd S) (\<lambda>w. ok (snd w)) (\<lambda>w. view (snd w))"
proof (unfold_locales, goal_cases)
  case (1 s) then show ?case by (rule cache_store.finite_view [OF S])
next
  case (2 s k e) then show ?case by (rule cache_store.view_id [OF S])
next
  case (3 s e t) then show ?case by (auto simp: st_snd_def dest: cache_store.save_ok [OF S])
next
  case (4 s e err t)
  then have "st_Save S e (snd s) = (Some err, snd t)" by (simp add: st_snd_def)
  from cache_store.save_err [OF S 4(1) this] show ?case .
next
  case (5 s k r t) then show ?case by (auto simp: st_snd_def dest: cache_store.load_state [OF S])
next
  case (6 s k e t) then show ?case by (auto simp: st_snd_def dest: cache_store.load_found [OF S])
next
  case (7 s rl t) then show ?case by (auto simp: st_snd_def dest: cache_store.list_state [OF S])
next
  case (8 s es t)
  then have "st_List S (snd s) = (Inr es, snd t)" by (simp add: st_snd_def)
  from cache_store.list_all_entries [OF S 8(1) this] show ?case .
next
  case (9 s rs t) then show ?case by (auto simp: st_snd_def dest: cache_store.size_state [OF S])
next
  case (10 s n t) then show ?case by (auto simp: st_snd_def dest: cache_store.size_card [OF S])
next
  case (11 s k t) then show ?case by (auto simp: st_snd_def dest: cache_store.delete_ok [OF S])
next
  case (12 s k err t)
  then have "st_Delete S k (snd s) = (Some err, snd t)" by (simp add: st_snd_def)
  from cache_store.delete_err [OF S 12(1) this] show ?case .
next
  case (13 s t) then show ?case by (auto simp: st_snd_def dest: cache_store.flush_ok [OF S])
next
  case (14 s err t)
  then have "st_Flush S (snd s) = (Some err, snd t)" by (simp add: st_snd_def)
  from cache_store.flush_err [OF S 14(1) this] show ?case .
qed

lemma st_fst_laws:
  assumes S: "cache_store S ok view"
  shows "cache_store (st_fst S) (\<lambda>w. ok (fst w)) (\<lambda>w. view (fst w))"
proof (unfold_locales, goal_cases)
  case (1 s) then show ?case by (rule cache_store.finite_view [OF S])
next
  case (2 s k e) then show ?case by (rule cache_store.view_id [OF S])
next
  case (3 s e t) then show ?case by (auto simp: st_fst_def dest: cache_store.save_ok [OF S])
next
  case (4 s e err t)
  then have "st_Save S e (fst s) = (Some err, fst t)" by (simp add: st_fst_def)
  from cache_store.save_err [OF S 4(1) this] show ?case .
next
  case (5 s k r t) then show ?case by (auto simp: st_fst_def dest: cache_store.load_state [OF S])
next
  case (6 s k e t) then show ?case by (auto simp: st_fst_def dest: cache_store.load_found [OF S])
next
  case (7 s rl t) then show ?case by (auto simp: st_fst_def dest: cache_store.list_state [OF S])
next
  case (8 s es t)
  then have "st_List S (fst s) = (Inr es, fst t)" by (simp add: st_fst_def)
  from cache_store.list_all_entries [OF S 8(1) this] show ?case .
next
  case (9 s rs t) then show ?case by (auto simp: st_fst_def dest: cache_store.size_state [OF S])
next
  case (10 s n t) then show ?case by (auto simp: st_fst_def dest: cache_store.size_card [OF S])
next
  case (11 s k t) then show ?case by (auto simp: st_fst_def dest: cache_store.delete_ok [OF S])
next
  case (12 s k err t)
  then have "st_Delete S k (fst s) = (Some err, fst t)" by (simp add: st_fst_def)
  from cache_store.delete_err [OF S 12(1) this] show ?case .
next
  case (13 s t) then show ?case by (auto simp: st_fst_def dest: cache_store.flush_ok [OF S])
next
  case (14 s err t)
  then have "st_Flush S (fst s) = (Some err, fst t)" by (simp add: st_fst_def)
  from cache_store.flush_err [OF S 14(1) this] show ?case .
qed

section \<open>Copying from one store to another\<close>

text \<open>
  Two stores in one world: the source \<open>S\<close> and the candidate \<open>C\<close>. Reading one, and writing the candidate,
  leave the contents of the other as they are.
\<close>

locale two_stores = source: cache_store S ok view + candidate: cache_store C cok cview
  for S :: "'w store_ops" and ok view and C :: "'w store_ops" and cok cview +
  assumes list_apart: "ok w \<Longrightarrow> cok w \<Longrightarrow> st_List S w = (r, t) \<Longrightarrow> cok t \<and> cview t = cview w"
    and save_apart: "ok w \<Longrightarrow> cok w \<Longrightarrow> st_Save C e w = (x, t) \<Longrightarrow> ok t \<and> view t = view w"
    and size_apart: "ok w \<Longrightarrow> cok w \<Longrightarrow> st_Size C w = (n, t) \<Longrightarrow> ok t \<and> view t = view w"
    and load_apart: "ok w \<Longrightarrow> cok w \<Longrightarrow> st_Load C k w = (l, t) \<Longrightarrow> ok t \<and> view t = view w"
    and delete_apart: "ok w \<Longrightarrow> cok w \<Longrightarrow> st_Delete C k w = (x, t) \<Longrightarrow> ok t \<and> view t = view w"

lemma side_by_side:
  assumes "cache_store S ok view" and "cache_store C cok cview"
  shows "two_stores (st_fst S) (\<lambda>w. ok (fst w)) (\<lambda>w. view (fst w)) (st_snd C) (\<lambda>w. cok (snd w)) (\<lambda>w. cview (snd w))"
  by (intro two_stores.intro two_stores_axioms.intro st_fst_laws st_snd_laws assms) (auto simp: st_fst_def st_snd_def)

text \<open>The built-in store next to another store of the same kind.\<close>

interpretation memory_pair: two_stores "st_fst memory_store" "\<lambda>w. mem_ok (fst w)" "\<lambda>w. mem_view (fst w)"
    "st_snd memory_store" "\<lambda>w. mem_ok (snd w)" "\<lambda>w. mem_view (snd w)"
  by (rule side_by_side) (rule memory.cache_store_axioms)+

end
