(* ===== verification/Store_Switch.thy ===== *)
theory Store_Switch
  imports Plan_Laws Side_By_Side
begin

text \<open>
  Moving the cache to another persistence store: what \<open>planPersistence\<close> with the choice \<open>migrate\<close> and its
  execution guarantee, over any two stores that keep the laws of \<open>two_stores\<close>.
\<close>

section \<open>The copy\<close>

definition put_entries :: "Entry list \<Rightarrow> (string \<Rightarrow> Entry option) \<Rightarrow> string \<Rightarrow> Entry option" where
  "put_entries es m = foldl (\<lambda>m e. m(e_ID e \<mapsto> e)) m es"

lemma put_entries_simps [simp]:
  "put_entries [] m = m" "put_entries (e # es) m = put_entries es (m(e_ID e \<mapsto> e))"
  by (simp_all add: put_entries_def)

lemma put_entries_get:
  "distinct (map e_ID es) \<Longrightarrow> put_entries es m k =
     (case List.find (\<lambda>e. e_ID e = k) es of Some e \<Rightarrow> Some e | None \<Rightarrow> m k)"
proof (induction es arbitrary: m)
  case (Cons e es)
  have "List.find (\<lambda>x. e_ID x = k) es = None" if "e_ID e = k"
    unfolding find_None_iff using Cons.prems that by (auto simp: image_iff)
  with Cons show ?case by (auto split: option.splits)
qed simp

lemma put_entries_all:
  assumes "distinct (map e_ID es)" and "set es = ran m" and "\<And>k e. m k = Some e \<Longrightarrow> e_ID e = k"
  shows "put_entries es Map.empty = m"
proof
  fix k
  show "put_entries es Map.empty k = m k"
  proof (cases "List.find (\<lambda>e. e_ID e = k) es")
    case None
    have "False" if "m k = Some e" for e
    proof -
      have "e \<in> set es" using that assms(2) by (auto simp: ran_def)
      with None assms(3) [OF that] show False by (auto simp: find_None_iff)
    qed
    then have "m k = None" by (cases "m k") blast+
    then show ?thesis using None by (simp add: put_entries_get [OF assms(1)])
  next
    case (Some e)
    then have "e \<in> set es" "e_ID e = k" by (auto simp: find_Some_iff)
    then obtain j where "m j = Some e" using assms(2) by (auto simp: ran_def)
    with assms(3) \<open>e_ID e = k\<close> have "m k = Some e" by metis
    then show ?thesis using Some by (simp add: put_entries_get [OF assms(1)])
  qed
qed

context two_stores
begin

text \<open>A reader of the candidate that changes neither store.\<close>

definition reads_apart :: "(string \<Rightarrow> 'w \<Rightarrow> Entry res \<times> 'w) option \<Rightarrow> bool" where
  "reads_apart f \<longleftrightarrow> (\<forall>g k w x t. f = Some g \<longrightarrow> ok w \<longrightarrow> cok w \<longrightarrow> g k w = (x, t) \<longrightarrow>
     ok t \<and> view t = view w \<and> cok t \<and> cview t = cview w)"

lemma sorted_apart: "ok w \<Longrightarrow> cok w \<Longrightarrow> sortedEntries S w = (r, t) \<Longrightarrow> cok t \<and> cview t = cview w"
  using list_apart by (auto simp: sortedEntries_def split: prod.splits sum.splits)

lemma copy_entries_ok:
  assumes "ok w" and "cok w" and "copy_entries C es saved w = (r, sv, t)"
  shows "ok t \<and> view t = view w \<and> cok t \<and> (r = None \<longrightarrow> cview t = put_entries es (cview w))"
  using assms
proof (induction es arbitrary: saved w)
  case (Cons e es)
  obtain x u where s: "st_Save C e w = (x, u)" by fastforce
  note A = save_apart [OF Cons.prems(1,2) s]
  show ?case
  proof (cases x)
    case None
    then have s': "st_Save C e w = (None, u)" using s by simp
    note B = candidate.save_ok [OF Cons.prems(2) s']
    have "copy_entries C es (saved @ [e_ID e]) u = (r, sv, t)" using Cons.prems(3) s' by simp
    from Cons.IH [OF _ _ this] A B show ?thesis by (simp del: fun_upd_apply)
  next
    case (Some err)
    then have s': "st_Save C e w = (Some err, u)" using s by simp
    show ?thesis using Cons.prems(3) s' A candidate.save_err [OF Cons.prems(2) s'] by auto
  qed
qed simp

lemma load_detailed_apart:
  assumes "reads_apart (ad_detailed b)" and "ok w" and "cok w" and "dyn_LoadDetailed (b, C) k w = (x, t)"
  shows "ok t \<and> view t = view w \<and> cok t \<and> cview t = cview w"
proof (cases "ad_detailed b")
  case (Some g)
  then have "g k w = (x, t)" using assms(4) by (simp add: dyn_LoadDetailed_def)
  with Some assms(1-3) show ?thesis unfolding reads_apart_def by blast
next
  case None
  then obtain l where "st_Load C k w = (l, t)"
    using assms(4) by (auto simp: dyn_LoadDetailed_def split: prod.splits option.splits)
  with load_apart [OF assms(2,3) this] candidate.load_state [OF assms(3) this] show ?thesis by blast
qed

lemma verify_entries_apart:
  assumes "reads_apart (ad_detailed b)" and "ok w" and "cok w" and "verify_entries (b, C) es w = (r, t)"
  shows "ok t \<and> view t = view w \<and> cok t \<and> cview t = cview w"
  using assms(2-)
proof (induction es arbitrary: w)
  case (Cons e es)
  obtain x u where l: "dyn_LoadDetailed (b, C) (e_ID e) w = (x, u)" by fastforce
  note A = load_detailed_apart [OF assms(1) Cons.prems(1,2) l]
  show ?case
  proof (cases x)
    case (Inl err)
    then show ?thesis using Cons.prems(3) l A by simp
  next
    case (Inr got)
    then show ?thesis using Cons.prems(3) l A Cons.IH [of u] by (auto split: if_splits)
  qed
qed simp

lemma copy_store_ok:
  assumes "reads_apart (ad_detailed b)" and "ok w" and "cok w" and "copy_store (b, C) S w = (r, saved, t)"
  shows "ok t \<and> view t = view w \<and> cok t \<and> (r = None \<longrightarrow> cview w = Map.empty \<longrightarrow> cview t = view t)"
proof -
  obtain x w1 where so: "sortedEntries S w = (x, w1)" by fastforce
  note A = source.sorted_state [OF assms(2) so] sorted_apart [OF assms(2,3) so]
  show ?thesis
  proof (cases x)
    case (Inl e)
    then show ?thesis using assms(4) so A by (auto simp: copy_store_def)
  next
    case (Inr es)
    note E = source.sorted_entries [OF assms(2) so [unfolded Inr]]
    obtain y sv w2 where co: "copy_entries C es [] w1 = (y, sv, w2)" by (rule prod_cases3)
    have w1: "ok w1" "cok w1" using A by blast+
    note B = copy_entries_ok [OF w1 co]
    show ?thesis
    proof (cases y)
      case (Some e)
      then show ?thesis using assms(4) so Inr co A B by (auto simp: copy_store_def)
    next
      case None
      obtain n w3 where sz: "st_Size C w2 = (n, w3)" by fastforce
      have w2: "ok w2" "cok w2" using B by blast+
      note D = size_apart [OF w2 sz] candidate.size_state [OF w2(2) sz]
      obtain z w4 where ve: "verify_entries (b, C) es w3 = (z, w4)" by fastforce
      have w3: "ok w3" "cok w3" using D by blast+
      note F = verify_entries_apart [OF assms(1) w3 ve]
      have "put_entries es Map.empty = view w"
        by (rule put_entries_all [OF E(3,4)]) (rule source.view_id [OF assms(2)])
      then show ?thesis using assms(4) so Inr co None sz ve A B D F
        by (auto simp: copy_store_def split: if_splits)
    qed
  qed
qed

lemma delete_all_apart: "ok w \<Longrightarrow> cok w \<Longrightarrow> ok (delete_all C ks w) \<and> view (delete_all C ks w) = view w \<and> cok (delete_all C ks w)"
proof (induction ks arbitrary: w)
  case (Cons k ks)
  obtain x u where d: "st_Delete C k w = (x, u)" by fastforce
  have "cok u"
    using candidate.delete_ok [OF Cons.prems(2)] candidate.delete_err [OF Cons.prems(2)] d by (cases x) blast+
  with delete_apart [OF Cons.prems d] Cons.IH [of u] d show ?case by simp
qed simp

end

section \<open>The switch\<close>

text \<open>Waiting for the write gate: the writes in flight may finish in the source, the candidate is not used.\<close>

definition gate_leaves ::
    "('v, 's, 'p, 'e) host \<Rightarrow> ('s \<Rightarrow> bool) \<Rightarrow> ('s \<Rightarrow> bool) \<Rightarrow> ('s \<Rightarrow> string \<Rightarrow> Entry option) \<Rightarrow> bool" where
  "gate_leaves H ok cok cview \<longleftrightarrow>
     (\<forall>s e t. ok (sv_S s) \<longrightarrow> cok (sv_S s) \<longrightarrow> ho_PauseWrites H s = (e, t) \<longrightarrow>
        ok (sv_S t) \<and> cok (sv_S t) \<and> cview (sv_S t) = cview (sv_S s))"

lemma planPersistence_migrate:
  assumes two: "two_stores (snd (sl_Store sl)) ok view C cok cview" and a: "ad_store a = Some C"
    and s: "ok (sv_S s)" "cok (sv_S s)" "view (sv_S s) \<noteq> Map.empty"
    and pl: "planPersistence a conf sl s = (Inr pl, s1)" and mig: "cf_PersistenceCompat conf = ''migrate''"
  shows "ok (sv_S s1)" and "cok (sv_S s1)" and "cview (sv_S s1) = Map.empty" and "pl_needGate pl" and "\<not> pl_forceMiss pl"
    and "pl_migrate pl = Some (store_migrate (a, C))" and "pl_after pl = None"
    and "pl_cleanup pl = Some (\<lambda>saved s. s\<lparr>sv_S := delete_all C saved (sv_S s)\<rparr>)"
proof -
  obtain es t n u where so: "sortedEntries (snd (sl_Store sl)) (sv_S s) = (Inr es, t)" and sz: "st_Size C t = (Inr n, u)"
    and s1: "s1 = s\<lparr>sv_S := u\<rparr>"
    using pl a
    by (auto simp: planPersistence_def on_S_def Let_def split: prod.splits sum.splits if_splits)
  note src = two_stores.axioms(1) [OF two] and cand = two_stores.axioms(2) [OF two]
  note E = cache_store.sorted_entries [OF src s(1) so] and A = two_stores.sorted_apart [OF two s(1,2) so]
  have t: "ok t" "cok t" using E(1) A by blast+
  note Z = two_stores.size_apart [OF two t sz] cache_store.size_state [OF cand t(2) sz]
  have "ran (view (sv_S s)) \<noteq> {}" using s(3) by (auto simp: ran_def fun_eq_iff)
  then have "es \<noteq> []" using E(4) by auto
  then have n: "n = 0" and rest: "pl_needGate pl" "\<not> pl_forceMiss pl"
     "pl_migrate pl = Some (store_migrate (a, C))" "pl_after pl = None"
     "pl_cleanup pl = Some (\<lambda>saved s. s\<lparr>sv_S := delete_all C saved (sv_S s)\<rparr>)"
    using pl a so sz mig
    by (auto simp: planPersistence_def on_S_def Let_def warn_def empty_plan_def split: if_splits)
  show "ok (sv_S s1)" "cok (sv_S s1)" using Z s1 by simp_all
  have "card (dom (cview t)) = 0" using cache_store.size_card [OF cand t(2) sz] n by simp
  then have "cview t = Map.empty" using cache_store.finite_view [OF cand t(2)] by simp
  then show "cview (sv_S s1) = Map.empty" using Z s1 by simp
  show "pl_needGate pl" "\<not> pl_forceMiss pl" "pl_migrate pl = Some (store_migrate (a, C))" "pl_after pl = None"
     "pl_cleanup pl = Some (\<lambda>saved s. s\<lparr>sv_S := delete_all C saved (sv_S s)\<rparr>)" by (rule rest)+
qed

text \<open>C7: migrating the cache to another persistence store. Whatever happens, the old store keeps its entries,
  which are those it holds when the writes in flight have finished, and the index and the policy are not
  touched; when the switch succeeds the new store is in use and holds exactly those entries.\<close>
theorem migrate_copies_store:
  assumes "two_stores (snd (sl_Store sl)) ok view C cok cview" and "ad_store a = Some C"
    and "\<And>g k w x t. ad_detailed a = Some g \<Longrightarrow> ok w \<Longrightarrow> cok w \<Longrightarrow> g k w = (x, t) \<Longrightarrow>
           ok t \<and> view t = view w \<and> cok t \<and> cview t = cview w"
    and "gate_leaves H ok cok cview" and "ok (sv_S s)" and "cok (sv_S s)" and "view (sv_S s) \<noteq> Map.empty"
    and "planPersistence a conf sl s = (Inr pl, s1)" and "cf_PersistenceCompat conf = ''migrate''"
    and "ho_PauseWrites H s1 = (None, t)" and "execute H TypePersistence a pl sl s1 = (r, sl2, s2)"
  shows "view (sv_S s2) = view (sv_S t) \<and> sv_V s2 = sv_V t \<and> sv_P s2 = sv_P t \<and>
    (case r of Inl e \<Rightarrow> snd (sl_Store sl2) = snd (sl_Store sl)
     | Inr prev \<Rightarrow> snd (sl_Store sl2) = C \<and> cview (sv_S s2) = view (sv_S t))"
proof -
  note P = planPersistence_migrate [OF assms(1,2,5-9)]
  have t: "ok (sv_S t)" "cok (sv_S t)" "cview (sv_S t) = Map.empty"
    using assms(4) [unfolded gate_leaves_def, rule_format, OF P(1,2) assms(10)] P(3) by simp_all
  have reads: "two_stores.reads_apart ok view cok cview (ad_detailed a)"
    unfolding two_stores.reads_apart_def [OF assms(1)] using assms(3) by blast
  obtain x saved w where co: "copy_store (a, C) (snd (sl_Store sl)) (sv_S t) = (x, saved, w)" by (rule prod_cases3)
  note M = two_stores.copy_store_ok [OF assms(1) reads t(1,2) co]
  have w: "ok w" "cok w" using M by blast+
  note D = two_stores.delete_all_apart [OF assms(1) w, of saved]
  have run: "execute_steps TypePersistence a pl sl t = (r, sl2, s2)"
    using assms(10,11) P(4,5) by (simp add: execute_def)
  show ?thesis
  proof (cases x)
    case None
    have "r = Inr (fst (sl_Store sl)) \<and> sl2 = sl\<lparr>sl_Store := (a, C)\<rparr> \<and> s2 = t\<lparr>sv_S := w\<rparr>"
      using run P(6,7) co None assms(2) by (simp add: execute_steps_def store_migrate_def)
    moreover have "view w = view (sv_S t)" "cview w = view w" using M None t(3) by blast+
    ultimately show ?thesis by simp
  next
    case (Some e)
    have "r = Inl e \<and> sl2 = sl \<and> s2 = t\<lparr>sv_S := delete_all C saved w\<rparr>"
      using run P(6,8) co Some by (simp add: execute_steps_def store_migrate_def run_cleanup_def)
    moreover have "view (delete_all C saved w) = view (sv_S t)" using M D by simp
    ultimately show ?thesis by simp
  qed
qed

end
