(* ===== verification/Stack.thy ===== *)
theory Stack
  imports Orchestrator_Flow Orchestrator_Writes Redis_Store Sdk_Vector_Store
begin

text \<open>
  The orchestrator on its ports: the Redis store on any Redis server, the remote vector-store adapter
  talking to the SDK's vector store over a faulty network, and the policy manager. The embedder,
  the LLM, the queue and the clock are arbitrary. The laws of each port were proved with the port; here
  they meet, and what a client of the service sees is written over the model's own definitions.
\<close>

definition redis_prefix :: string where
  "redis_prefix = ''llm_cache''"

definition stack ::
    "config \<Rightarrow> 'r redis_ops \<Rightarrow> sdk_vs net client \<Rightarrow> 'e embed_ops \<Rightarrow> 'e llm_ops \<Rightarrow> 'e queue_ops \<Rightarrow>
     ('e \<Rightarrow> int \<times> 'e) \<Rightarrow> (sdk_vs net, 'r, manager, 'e) deps" where
  "stack cfg R c E L Q clock =
     \<lparr>d_cfg = cfg, d_V = protocol_vector c, d_S = redis_store R redis_prefix,
      d_P = mgr_ops (cfg_Policy cfg), d_E = E, d_L = L, d_Q = Q, d_now = clock\<rparr>"

lemma stack_simps [simp]:
  "d_cfg (stack cfg R c E L Q clock) = cfg" "d_V (stack cfg R c E L Q clock) = protocol_vector c"
  "d_S (stack cfg R c E L Q clock) = redis_store R redis_prefix"
  "d_P (stack cfg R c E L Q clock) = mgr_ops (cfg_Policy cfg)" "d_E (stack cfg R c E L Q clock) = E"
  "d_L (stack cfg R c E L Q clock) = L" "d_Q (stack cfg R c E L Q clock) = Q"
  "d_now (stack cfg R c E L Q clock) = clock"
  by (simp_all add: stack_def)

section \<open>What the stack holds\<close>

type_synonym ('r, 'e) stack_service = "(sdk_vs net, 'r, manager, 'e) service"

definition stored :: "('r \<Rightarrow> rspace) \<Rightarrow> ('r, 'e) stack_service \<Rightarrow> string \<Rightarrow> Entry option" where
  "stored space s = redis_view space redis_prefix (sv_S s)"

definition indexed :: "('r, 'e) stack_service \<Rightarrow> string \<Rightarrow> f64 list option" where
  "indexed s = gm_get (sx_vecs (nt_srv (sv_V s)))"

definition followed :: "('r, 'e) stack_service \<Rightarrow> string set" where
  "followed s = mgr_tracked (sv_P s)"

text \<open>The keyspace holds decodable entries, the policy and the vector map are well formed.\<close>

definition stack_ok :: "('r \<Rightarrow> bool) \<Rightarrow> ('r \<Rightarrow> rspace) \<Rightarrow> ('r, 'e) stack_service \<Rightarrow> bool" where
  "stack_ok up space s \<longleftrightarrow>
     redis_ok up space redis_prefix (sv_S s) \<and> mgr_ok (sv_P s) \<and> vs_net_ok (sv_V s)"

text \<open>The three hold the same ids.\<close>

definition stack_synced :: "('r \<Rightarrow> bool) \<Rightarrow> ('r \<Rightarrow> rspace) \<Rightarrow> ('r, 'e) stack_service \<Rightarrow> bool" where
  "stack_synced up space s \<longleftrightarrow>
     stack_ok up space s \<and> dom (stored space s) = followed s \<and> dom (indexed s) = followed s"

text \<open>The ports of the stack keep the laws the orchestrator's lemmas rest on.\<close>

context redis_server
begin

lemma store_laws:
  "cache_store (redis_store R pre) (redis_ok up space pre) (redis_view space pre)"
  by (rule redis.cache_store_axioms)

end

lemma mgr_tracked_finite: "finite (mgr_tracked m)"
  by (cases "mgr_policy m") (simp_all add: mgr_tracked_def lfu_keys_def gm_keys_def)

lemma stack_laws:
  assumes "redis_server R up space"
  shows "orchestrator (stack cfg R (sdk_vs_client vc tk mx tmo) E L Q clock)
    (redis_ok up space redis_prefix) (redis_view space redis_prefix) mgr_ok mgr_tracked vs_net_ok vs_net_view"
  unfolding orchestrator_def orchestrator_axioms_def stack_simps
  using redis_server.store_laws [OF assms] manager.eviction_policy_axioms sdk_vs.vector_store_axioms
    mgr_tracked_finite by blast

interpretation rmem_stack: orchestrator "stack cfg rmem_ops (sdk_vs_client vc tk mx tmo) E L Q clock"
  "redis_ok rm_up rm_space redis_prefix" "redis_view rm_space redis_prefix" mgr_ok mgr_tracked vs_net_ok vs_net_view
  for cfg vc tk mx tmo E L Q clock
  by (rule stack_laws) (rule rmem.redis_server_axioms)


lemma indexed_view: "indexed s = vs_net_view (sv_V s)"
  by (simp add: indexed_def vs_net_view_def sdk_vs_view_def)

lemma stack_views:
  fixes s :: "('r, 'e) stack_service"
  assumes "redis_server R up space"
  shows "orchestrator.svc_ok (redis_ok up space redis_prefix) mgr_ok vs_net_ok s \<longleftrightarrow> stack_ok up space s"
    and "orchestrator.entries (redis_view space redis_prefix) s = stored space s"
    and "orchestrator.vectors vs_net_view s = indexed s"
    and "orchestrator.ids mgr_tracked s = followed s"
proof -
  note A = stack_laws [OF assms]
  show "orchestrator.svc_ok (redis_ok up space redis_prefix) mgr_ok vs_net_ok s \<longleftrightarrow> stack_ok up space s"
    by (simp add: orchestrator.svc_ok_def [OF A] stack_ok_def)
  show "orchestrator.entries (redis_view space redis_prefix) s = stored space s"
    by (simp add: orchestrator.entries_def [OF A] stored_def)
  show "orchestrator.vectors vs_net_view s = indexed s"
    by (simp add: orchestrator.vectors_def [OF A] indexed_view)
  show "orchestrator.ids mgr_tracked s = followed s"
    by (simp add: orchestrator.ids_def [OF A] followed_def)
qed

lemma stack_synced_iff:
  fixes s :: "('r, 'e) stack_service"
  assumes "redis_server R up space"
  shows "orchestrator.synced (redis_ok up space redis_prefix) (redis_view space redis_prefix) mgr_ok
    mgr_tracked vs_net_ok vs_net_view s \<longleftrightarrow> stack_synced up space s"
  using orchestrator.synced_def [OF stack_laws [OF assms]]
  by (simp add: stack_views [OF assms] stack_synced_def)

section \<open>What its handlers guarantee\<close>

lemma stack_enforce_returns:
  assumes "redis_server R up space" and "stack_ok up space s"
  shows "\<exists>r t. enforceCapacity (stack cfg R (sdk_vs_client vc tk mx tmo) E L Q clock) s = Some (r, t)"
  using orchestrator.enforce_returns [OF stack_laws [OF assms(1)]] assms(2)
  by (simp add: stack_views [OF assms(1)])

lemmas stack_facts = stack_views stack_synced_iff

lemma stack_update:
  assumes R: "redis_server R up space" and sy: "stack_synced up space s"
    and run: "updateCache (stack cfg R (sdk_vs_client vc tk mx tmo) E L Q clock) prompt vec reply s = Some (None, t)"
  shows "stack_synced up space t" and "0 < cfg_Capacity cfg \<Longrightarrow> int (card (dom (stored space t))) \<le> cfg_Capacity cfg"
    and "\<exists>x K. e_Prompt x = prompt \<and> e_Reply x = reply \<and> e_Vector x = vec \<and>
      stored space t = ((stored space s)(e_ID x \<mapsto> x)) |` (- K) \<and>
      indexed t = ((indexed s)(e_ID x \<mapsto> vec)) |` (- K) \<and>
      sv_evictions t = sv_evictions s + int (card K)"
  using orchestrator.update_success [OF stack_laws [OF R], unfolded stack_facts [OF R] stack_simps, OF sy run]
  by blast+

lemma stack_update_ok:
  assumes R: "redis_server R up space" and ok: "stack_ok up space s"
    and run: "updateCache (stack cfg R (sdk_vs_client vc tk mx tmo) E L Q clock) prompt vec reply s = Some (r, t)"
  shows "stack_ok up space t"
  using orchestrator.update_ok [OF stack_laws [OF R], unfolded stack_facts [OF R], OF ok run] .

lemma stack_size:
  assumes R: "redis_server R up space" and ok: "stack_ok up space s"
    and run: "fst (st_Size (redis_store R redis_prefix) (sv_S s)) = Inr n"
  shows "n = int (card (dom (stored space s)))"
  using cache_store.size_card [OF redis_server.store_laws [OF R], of redis_prefix "sv_S s" n] ok run
  by (cases "st_Size (redis_store R redis_prefix) (sv_S s)") (simp add: stack_ok_def stored_def)

text \<open>A result of a query, made of the stored entry a match names.\<close>

definition served_from :: "('r \<Rightarrow> rspace) \<Rightarrow> ('r, 'e) stack_service \<Rightarrow> queryResult \<Rightarrow> Match \<Rightarrow> bool" where
  "served_from space s q m \<longleftrightarrow>
     qr_ID q = m_ID m \<and> qr_Distance q = normalizeDistance (m_Distance m) \<and>
     (case stored space s (m_ID m) of None \<Rightarrow> False | Some e \<Rightarrow> qr_Reply q = e_Reply e)"

text \<open>Two services with the same contents.\<close>

definition same_stack :: "('r \<Rightarrow> bool) \<Rightarrow> ('r \<Rightarrow> rspace) \<Rightarrow> ('r, 'e) stack_service \<Rightarrow> ('r, 'e) stack_service \<Rightarrow> bool" where
  "same_stack up space s t \<longleftrightarrow> stack_ok up space t \<and> stored space t = stored space s \<and>
     indexed t = indexed s \<and> followed t = followed s"

lemma stack_serves:
  fixes s :: "('r, 'e) stack_service"
  assumes "redis_server R up space"
  shows "orchestrator.serves (redis_view space redis_prefix) s = served_from space s"
  by (auto simp: fun_eq_iff orchestrator.serves_def [OF stack_laws [OF assms]] stack_views [OF assms]
      served_from_def split: option.splits)

lemma stack_query:
  assumes R: "redis_server R up space" and ok: "stack_ok up space s"
    and q: "handleQuery (stack cfg R (sdk_vs_client vc tk mx tmo) E L Q clock) body s = (r, t)"
  shows "same_stack up space s t"
    and "r = HttpOk resp \<Longrightarrow> qp_CacheHit resp \<Longrightarrow> \<exists>ms. ms \<noteq> [] \<and> int (length ms) \<le> cfg_TopK cfg \<and>
      list_all2 (served_from space s) (qp_Results resp) ms \<and>
      sorted_wrt (\<lambda>a b. f64_le (m_Distance a) (m_Distance b)) ms \<and>
      list_all (\<lambda>m. f64_le (m_Distance m) (Threshold (stack cfg R (sdk_vs_client vc tk mx tmo) E L Q clock) s)) ms \<and>
      qp_Reply resp = qr_Reply (hd (qp_Results resp))"
proof -
  note A = stack_laws [OF R]
  have ok': "orchestrator.svc_ok (redis_ok up space redis_prefix) mgr_ok vs_net_ok s"
    using ok by (simp add: stack_views [OF R])
  show "same_stack up space s t"
    using orchestrator.query_same [OF A ok' q]
    by (simp add: orchestrator.same_contents_def [OF A] stack_views [OF R] same_stack_def)
  show "\<exists>ms. ms \<noteq> [] \<and> int (length ms) \<le> cfg_TopK cfg \<and>
      list_all2 (served_from space s) (qp_Results resp) ms \<and>
      sorted_wrt (\<lambda>a b. f64_le (m_Distance a) (m_Distance b)) ms \<and>
      list_all (\<lambda>m. f64_le (m_Distance m) (Threshold (stack cfg R (sdk_vs_client vc tk mx tmo) E L Q clock) s)) ms \<and>
      qp_Reply resp = qr_Reply (hd (qp_Results resp))" if hit: "r = HttpOk resp" "qp_CacheHit resp"
  proof -
    obtain ms where "list_all2 (served_from space s) (qp_Results resp) ms" "ms \<noteq> []"
      "int (length ms) \<le> cfg_TopK cfg"
      "\<And>m. m \<in> set ms \<Longrightarrow> f64_le (m_Distance m) (Threshold (stack cfg R (sdk_vs_client vc tk mx tmo) E L Q clock) s)"
      "sorted_wrt (\<lambda>a b. f64_le (m_Distance a) (m_Distance b)) ms" "qp_Reply resp = qr_Reply (hd (qp_Results resp))"
      using orchestrator.query_cache_answer [OF A ok' q [unfolded hit(1)] hit(2)]
      by (auto simp: stack_serves [OF R])
    then show ?thesis by (intro exI [of _ ms]) (simp add: list_all_iff)
  qed
qed

lemma stack_rebuild:
  assumes R: "redis_server R up space" and ok: "stack_ok up space s" and fresh: "followed s = {}"
    and run: "rebuildFromStore (stack cfg R (sdk_vs_client vc tk mx tmo) E L Q clock) n s = (None, t)"
  shows "stack_synced up space t" and "stored space t = stored space s"
    and "indexed t = (\<lambda>k. map_option e_Vector (stored space s k))"
  using orchestrator.rebuild_success [OF stack_laws [OF R], unfolded stack_facts [OF R] stack_simps, OF ok fresh run]
  by blast+

lemma stack_flush:
  assumes R: "redis_server R up space" and ok: "stack_ok up space s"
    and run: "FlushCache (stack cfg R (sdk_vs_client vc tk mx tmo) E L Q clock) s = (r, t)"
  shows "stack_ok up space t" and "r \<noteq> None \<Longrightarrow> stored space t = stored space s \<and> followed t = followed s"
    and "r = None \<Longrightarrow> indexed t = Map.empty \<and> followed t = {} \<and> sv_hits t = 0 \<and> sv_misses t = 0 \<and> sv_evictions t = 0"
    and "r = None \<Longrightarrow> stored space t \<in> {stored space s, Map.empty}"
    and "r = None \<Longrightarrow> fst (redis_Flush R redis_prefix (sv_S s)) = None \<Longrightarrow> stack_synced up space t \<and> stored space t = Map.empty"
  using orchestrator.flush_result [OF stack_laws [OF R], unfolded stack_facts [OF R] stack_simps, OF ok run]
  by (simp_all add: redis_store_def)


text \<open>A restart over what the store kept, with a fresh policy and whatever the vector store still holds.\<close>

lemma stack_restart:
  assumes R: "redis_server R up space" and st: "redis_ok up space redis_prefix st"
    and v: "vs_net_ok v" and p: "policy_New cfg = Inr p"
    and run: "NewWithDependencies (stack cfg R (sdk_vs_client vc tk mx tmo) E L Q clock) n v st p e = Inr s"
  shows "stack_synced up space s" and "stored space s = redis_view space redis_prefix st"
    and "indexed s = (\<lambda>k. map_option e_Vector (redis_view space redis_prefix st k))" and "1 \<le> cfg_TopK cfg"
proof -
  let ?D = "stack cfg R (sdk_vs_client vc tk mx tmo) E L Q clock"
  define s0 :: "('a, 'b) stack_service" where
    "s0 = \<lparr>sv_V = v, sv_S = st, sv_P = p, sv_E = e, sv_threshold = None, sv_hits = 0,
       sv_misses = 0, sv_hitLatencySum = 0, sv_missLatencySum = 0, sv_hitDistanceSum = F_Zero False,
       sv_evictions = 0\<rparr>"
  have rb: "rebuildFromStore ?D n s0 = (None, s)"
    using run by (simp add: NewWithDependencies_def Let_def s0_def [symmetric] split: if_splits prod.splits option.splits)
  have ok: "stack_ok up space s0" and fresh: "followed s0 = {}"
    using policy_New_fresh [OF p] st v by (simp_all add: stack_ok_def followed_def s0_def)
  from stack_rebuild [OF R ok fresh rb]
  show "stack_synced up space s" and "stored space s = redis_view space redis_prefix st"
    and "indexed s = (\<lambda>k. map_option e_Vector (redis_view space redis_prefix st k))"
    by (simp_all add: stored_def s0_def)
  show "1 \<le> cfg_TopK cfg"
    using run by (auto simp: NewWithDependencies_def split: if_splits)
qed

section \<open>An eviction the vector store refuses\<close>

text \<open>
  When the policy's victim is unknown to the vector store (its deletion went through but the reply
  was lost, or the vector store lost its index), enforcement fails before the policy is told, so
  the next enforcement meets the same victim again.
\<close>

lemma stack_stuck:
  assumes R: "redis_server R up space" and ok: "stack_ok up space s" and cap: "0 < cfg_Capacity cfg"
    and full: "cfg_Capacity cfg < int (card (dom (stored space s)))"
    and victim: "mgr_Victim (sv_P s) = Some k" and gone: "indexed s k = None"
  shows "\<exists>err t. enforceCapacity (stack cfg R (sdk_vs_client vc tk mx tmo) E L Q clock) s = Some (Some err, t) \<and>
    sv_P t = sv_P s \<and> indexed t = indexed s \<and> sv_evictions t = sv_evictions s"
proof -
  let ?D = "stack cfg R (sdk_vs_client vc tk mx tmo) E L Q clock"
  have so: "redis_ok up space redis_prefix (sv_S s)" and vo: "vs_net_ok (sv_V s)"
    using ok by (simp_all add: stack_ok_def)
  note S = redis_server.store_laws [OF R, of redis_prefix]
  obtain n a where sz: "st_Size (redis_store R redis_prefix) (sv_S s) = (n, a)" by fastforce
  obtain x b where d: "st_Delete (redis_store R redis_prefix) k a = (x, b)" by fastforce
  obtain y w where e: "pvs_Delete (sdk_vs_client vc tk mx tmo) k (sv_V s) = (y, w)" by fastforce
  have y: "\<exists>err. y = Some err" and w: "nt_srv w = nt_srv (sv_V s)"
    using vs_net_delete(4) [OF vo e] gone by (auto simp: indexed_view)
  have "\<not> n' \<le> cfg_Capacity cfg" if "n = Inr n'" for n'
    using cache_store.size_card [OF S so sz [unfolded that]] full by (simp add: stored_def)
  then have "\<exists>err t. enforce_step ?D s = Inl (Some err, t) \<and>
      sv_P t = sv_P s \<and> indexed t = indexed s \<and> sv_evictions t = sv_evictions s"
    using sz d e y w victim
    by (cases n; cases x) (auto simp: enforce_step_def mgr_ops_def indexed_def)
  then show ?thesis using cap by (auto simp: enforceCapacity_def enforce_loop.simps [of ?D s])
qed


end
