(* ===== verification/Stack_Demo.thy ===== *)
theory Stack_Demo
  imports Stack
begin

text \<open>
  A concrete instance of the stack of \<open>Stack\<close>: capacity one, an embedder that returns the length of
  the prompt, an LLM that repeats it, a queue that keeps the jobs. Its operations compute, so the
  theorems' hypotheses can be checked on it.
\<close>

definition demo_env :: env where
  "demo_env k = (if k = ''CACHE_CAPACITY'' then ''1'' else '''')"

definition demo_cfg :: config where
  "demo_cfg = (case Load demo_env of Inr c \<Rightarrow> c | Inl _ \<Rightarrow> undefined)"

definition demo_vc :: sdk_vs_cfg where
  "demo_vc = \<lparr>vc_dim = 1, vc_metric = ''euclidean'', vc_token = '''', vc_bytes = (\<lambda>_. 100),
     vc_newID = (\<lambda>n. itoa (int n))\<rparr>"

definition demo_vector :: "string \<Rightarrow> f64 list" where
  "demo_vector prompt = [f64_of_int (int (length prompt))]"

definition demo_embed :: "Job list embed_ops" where
  "demo_embed = \<lparr>em_Embed = (\<lambda>p e. (Inr (demo_vector p), e)), em_Health = (\<lambda>e. (None, e))\<rparr>"

definition demo_llm :: "Job list llm_ops" where
  "demo_llm = \<lparr>lm_Complete = (\<lambda>p e. (Inr (''re: '' @ p), e))\<rparr>"

definition demo_queue :: "Job list queue_ops" where
  "demo_queue = \<lparr>q_Enqueue = (\<lambda>j e. (None, e @ [j]))\<rparr>"

definition demo_stack :: "(sdk_vs net, rmem, manager, Job list) deps" where
  "demo_stack = stack demo_cfg rmem_ops (sdk_vs_client demo_vc '''' 0 0) demo_embed demo_llm demo_queue
     (\<lambda>e. (0, e))"

text \<open>An empty service whose network follows a script of faults.\<close>

definition demo_start :: "net_fault list \<Rightarrow> (rmem, Job list) stack_service" where
  "demo_start script =
     \<lparr>sv_V = \<lparr>nt_srv = \<lparr>sx_vecs = [], sx_drawn = 0\<rparr>, nt_script = script\<rparr>,
      sv_S = \<lparr>rm_strs = (\<lambda>_. None), rm_sets = (\<lambda>_. []), rm_script = []\<rparr>,
      sv_P = NewManagerWith (LRU newLRUPolicy), sv_E = [], sv_threshold = None, sv_hits = 0, sv_misses = 0,
      sv_hitLatencySum = 0, sv_missLatencySum = 0, sv_hitDistanceSum = F_Zero False, sv_evictions = 0\<rparr>"

definition demo_update ::
    "string \<Rightarrow> (rmem, Job list) stack_service \<Rightarrow> (goerr option \<times> (rmem, Job list) stack_service) option" where
  "demo_update p s = updateCache demo_stack p (demo_vector p) (''re: '' @ p) s"

text \<open>A run of updates: the error of each, and the service after the last.\<close>

fun demo_updates ::
    "string list \<Rightarrow> (rmem, Job list) stack_service \<Rightarrow> goerr option list \<times> (rmem, Job list) stack_service" where
  "demo_updates [] s = ([], s)"
| "demo_updates (p # ps) s =
     (case demo_update p s of
        None \<Rightarrow> ([], s)
      | Some (r, t) \<Rightarrow> (let (rs, u) = demo_updates ps t in (r # rs, u)))"

definition demo_after :: "string list \<Rightarrow> (rmem, Job list) stack_service" where
  "demo_after ps = snd (demo_updates ps (demo_start []))"

definition demo_size :: "(rmem, Job list) stack_service \<Rightarrow> int res" where
  "demo_size s = fst (st_Size (redis_store rmem_ops redis_prefix) (sv_S s))"

lemma demo_start_synced: "stack_synced rm_up rm_space (demo_start script)"
  by (simp add: stack_synced_def stack_ok_def demo_start_def redis_ok_def rm_up_def space_ok_def rm_space_def
      stored_def indexed_def followed_def redis_view_def space_view_def mgr_ok_def NewManagerWith_def
      mgr_tracked_def vs_net_ok_def sdk_vs_ok_def lru_new_ok lru_new_ids dom_def)

lemma demo_update_synced:
  assumes "stack_synced rm_up rm_space s" and "demo_update p s = Some (None, t)"
  shows "stack_synced rm_up rm_space t"
  using stack_update(1) [OF rmem.redis_server_axioms assms(1)] assms(2)
  by (simp add: demo_update_def demo_stack_def)

lemma demo_updates_synced:
  assumes "stack_synced rm_up rm_space s" and "set (fst (demo_updates ps s)) \<subseteq> {None}"
  shows "stack_synced rm_up rm_space (snd (demo_updates ps s))"
  using assms
proof (induction ps arbitrary: s)
  case (Cons p ps)
  show ?case
  proof (cases "demo_update p s")
    case (Some x)
    obtain r t where x: "x = (r, t)" by fastforce
    then have "r = None" "set (fst (demo_updates ps t)) \<subseteq> {None}"
      using Cons.prems(2) Some by (auto split: prod.splits)
    with Cons.IH [of t] Cons.prems(1) Some x demo_update_synced
    show ?thesis by (auto split: prod.splits)
  qed (use Cons.prems in simp)
qed simp

lemma demo_after_synced:
  assumes "list_all (\<lambda>r. r = None) (fst (demo_updates ps (demo_start [])))"
  shows "stack_synced rm_up rm_space (demo_after ps)"
  unfolding demo_after_def
  by (rule demo_updates_synced [OF demo_start_synced]) (use assms in \<open>auto simp: list_all_iff\<close>)

lemma demo_runs: "fst (demo_updates [''aa'', ''b''] (demo_start [])) = [None, None]"
  by code_simp

definition demo_ask :: "string \<Rightarrow> (rmem, Job list) stack_service \<Rightarrow>
    queryResponse http_reply \<times> (rmem, Job list) stack_service" where
  "demo_ask prompt s = handleQuery demo_stack (BodyJson (JObj [(''prompt'', JStr prompt)])) s"

lemma demo_hit:
  obtains resp t where "demo_ask ''xy'' (demo_after [''aa'']) = (HttpOk resp, t)" and "qp_CacheHit resp"
    and "qp_Reply resp = ''re: aa''"
proof -
  have "(case fst (demo_ask ''xy'' (demo_after [''aa''])) of
      HttpOk resp \<Rightarrow> qp_CacheHit resp \<and> qp_Reply resp = ''re: aa'' | _ \<Rightarrow> False)" by code_simp
  then show thesis
    by (cases "demo_ask ''xy'' (demo_after [''aa''])") (auto split: http_reply.splits intro: that)
qed

lemma demo_aa_synced: "stack_synced rm_up rm_space (demo_after [''aa''])"
  by (rule demo_after_synced) code_simp


text \<open>A service whose first eviction lost its reply.\<close>

definition demo_stuck :: "(rmem, Job list) stack_service" where
  "demo_stuck = snd (demo_updates [''a'', ''bb'', ''ccc''] (demo_start [Delivered, Delivered, Lost_reply]))"

lemma demo_capacity: "cfg_Capacity demo_cfg = 1"
  by code_simp

lemma demo_updates_ok:
  "stack_ok rm_up rm_space s \<Longrightarrow> stack_ok rm_up rm_space (snd (demo_updates ps s))"
proof (induction ps arbitrary: s)
  case (Cons p ps)
  have "stack_ok rm_up rm_space t" if "demo_update p s = Some (r, t)" for r t
    using stack_update_ok [OF rmem.redis_server_axioms Cons.prems] that
    by (simp add: demo_update_def demo_stack_def)
  with Cons show ?case by (fastforce split: option.splits prod.splits dest: Cons.IH)
qed simp

lemma demo_stuck_ok: "stack_ok rm_up rm_space demo_stuck"
  unfolding demo_stuck_def
  by (rule demo_updates_ok) (use demo_start_synced in \<open>simp add: stack_synced_def\<close>)


end
