(* ===== verification/Switch_Demo.thy ===== *)
theory Switch_Demo
  imports Store_Switch Stack_Demo
begin

text \<open>
  A concrete set of slots over which the theorems about switches are applied: the plugin vector store over
  a network, two in-memory stores next to each other, the built-in LRU policy.
\<close>

type_synonym demo_service = "(sdk_vs net, memoryStore \<times> memoryStore, manager, Job list) service"

definition demo_V :: "sdk_vs net vector_ops" where
  "demo_V = protocol_vector (sdk_vs_client demo_vc '''' 0 0)"

definition demo_S :: "(memoryStore \<times> memoryStore) store_ops" where "demo_S = st_fst memory_store"
definition demo_C :: "(memoryStore \<times> memoryStore) store_ops" where "demo_C = st_snd memory_store"

definition no_adapter :: "nat \<Rightarrow> (sdk_vs net, memoryStore \<times> memoryStore, manager, Job list) adapter" where
  "no_adapter n = \<lparr>ad_ref = n, ad_llm = None, ad_embed = None, ad_model = None, ad_vector = None, ad_info = None,
     ad_store = None, ad_detailed = None, ad_queue = None, ad_policy = None, ad_health = None, ad_close = None\<rparr>"

definition demo_slots :: "(sdk_vs net, memoryStore \<times> memoryStore, manager, Job list) slots" where
  "demo_slots = NewSlots
     ((no_adapter 0)\<lparr>ad_llm := Some demo_llm\<rparr>, demo_llm) ((no_adapter 1)\<lparr>ad_embed := Some demo_embed\<rparr>, demo_embed)
     ((no_adapter 2)\<lparr>ad_vector := Some demo_V\<rparr>, demo_V) ((no_adapter 3)\<lparr>ad_store := Some demo_S\<rparr>, demo_S)
     ((no_adapter 4)\<lparr>ad_queue := Some demo_queue\<rparr>, demo_queue)
     ((no_adapter 5)\<lparr>ad_policy := Some (mgr_ops ''LRU'')\<rparr>, mgr_ops ''LRU'')"

definition demo_host :: "(sdk_vs net, memoryStore \<times> memoryStore, manager, Job list) host" where
  "demo_host = \<lparr>ho_cfg = demo_cfg, ho_clock = (\<lambda>e. (0, e)), ho_PauseWrites = (\<lambda>s. (None, s))\<rparr>"

definition demo_entry :: "string \<Rightarrow> string \<Rightarrow> Entry" where
  "demo_entry k p = \<lparr>e_ID = k, e_Prompt = p, e_Reply = ''re: '' @ p, e_Vector = demo_vector p, e_CreatedAt = 0\<rparr>"

text \<open>One entry in the store and an index that has lost it.\<close>

definition demo_world :: demo_service where
  "demo_world =
     \<lparr>sv_V = \<lparr>nt_srv = \<lparr>sx_vecs = [], sx_drawn = 0\<rparr>, nt_script = []\<rparr>,
      sv_S = (\<lparr>ms_entries = [(''a'', demo_entry ''a'' ''aa'')]\<rparr>, NewMemoryStore),
      sv_P = NewManagerWith (LRU newLRUPolicy), sv_E = [], sv_threshold = None, sv_hits = 0, sv_misses = 0,
      sv_hitLatencySum = 0, sv_missLatencySum = 0, sv_hitDistanceSum = F_Zero False, sv_evictions = 0\<rparr>"

definition vector_candidate :: "(sdk_vs net, memoryStore \<times> memoryStore, manager, Job list) adapter" where
  "vector_candidate = (no_adapter 10)\<lparr>ad_vector := Some demo_V\<rparr>"

definition store_candidate :: "(sdk_vs net, memoryStore \<times> memoryStore, manager, Job list) adapter" where
  "store_candidate = (no_adapter 11)\<lparr>ad_store := Some demo_C\<rparr>"

definition the_plan :: "'a res \<times> 'b \<Rightarrow> 'a" where
  "the_plan r = (case fst r of Inr x \<Rightarrow> x | Inl _ \<Rightarrow> undefined)"

definition is_Inr :: "'a + 'b \<Rightarrow> bool" where
  "is_Inr x = (case x of Inr _ \<Rightarrow> True | Inl _ \<Rightarrow> False)"

lemma plan_is: "is_Inr (fst r) \<Longrightarrow> r = (Inr (the_plan r), snd r)"
  by (cases r) (auto simp: is_Inr_def the_plan_def split: sum.splits)

lemma is_Inr_pair: "r = (x, y) \<Longrightarrow> is_Inr (fst r) \<Longrightarrow> \<exists>p. x = Inr p"
  by (auto simp: is_Inr_def split: sum.splits)

lemma snd_snd_eq: "r = (x, y, z) \<Longrightarrow> snd (snd r) = z"
  by simp

definition switch_vector :: "_" where
  "switch_vector = execute demo_host TypeVectorStore vector_candidate
     (the_plan (planVectorStore demo_host None vector_candidate no_confirmations demo_slots demo_world)) demo_slots
     (snd (planVectorStore demo_host None vector_candidate no_confirmations demo_slots demo_world))"

lemma demo_slots_ok: "slots_ok demo_slots"
  by (simp add: slots_ok_def demo_slots_def NewSlots_def)

lemma demo_world_V: "sv_V demo_world = \<lparr>nt_srv = \<lparr>sx_vecs = [], sx_drawn = 0\<rparr>, nt_script = []\<rparr>"
  by (simp add: demo_world_def)

lemma demo_world_store:
  "mem_ok (fst (sv_S demo_world))" "mem_ok (snd (sv_S demo_world))" "mem_view (fst (sv_S demo_world)) \<noteq> Map.empty"
proof -
  show "mem_ok (fst (sv_S demo_world))" "mem_ok (snd (sv_S demo_world))" by code_simp+
  have "mem_view (fst (sv_S demo_world)) ''a'' = Some (demo_entry ''a'' ''aa'')" by code_simp
  then show "mem_view (fst (sv_S demo_world)) \<noteq> Map.empty" by auto
qed

lemma demo_store_laws: "cache_store demo_S (\<lambda>w. mem_ok (fst w)) (\<lambda>w. mem_view (fst w))"
  unfolding demo_S_def by (rule memory_pair.source.cache_store_axioms)

lemma demo_plan: "is_Inr (fst (planVectorStore demo_host None vector_candidate no_confirmations demo_slots demo_world))"
  by code_simp

lemma demo_exec: "is_Inr (fst switch_vector)"
  by code_simp

lemma demo_result: "vs_net_view (sv_V (snd (snd switch_vector))) ''a'' = Some (demo_vector ''aa'')"
  by code_simp


section \<open>The theorems applied\<close>

theorem failed_switch_keeps_slots_witness:
  "slots_ok demo_slots \<and> (\<exists>prev sl1 s1.
     execute demo_host TypeVectorStore vector_candidate
       (the_plan (planVectorStore demo_host None vector_candidate no_confirmations demo_slots demo_world)) demo_slots
       (snd (planVectorStore demo_host None vector_candidate no_confirmations demo_slots demo_world)) = (Inr prev, sl1, s1) \<and>
     slot_current sl1 TypeVectorStore = Some vector_candidate \<and> slots_ok sl1)"
proof -
  obtain x sl1 s1 where run: "switch_vector = (x, sl1, s1)" by (rule prod_cases3)
  then obtain prev where x: "x = Inr prev" using is_Inr_pair [OF _ demo_exec] by blast
  from failed_switch_keeps_slots [OF demo_slots_ok run [unfolded switch_vector_def x]] x run
  show ?thesis using demo_slots_ok unfolding switch_vector_def by auto
qed


definition switch_store :: "_" where
  "switch_store = execute demo_host TypePersistence store_candidate
     (the_plan (planPersistence store_candidate (no_confirmations\<lparr>cf_PersistenceCompat := ''migrate''\<rparr>) demo_slots demo_world)) demo_slots
     (snd (planPersistence store_candidate (no_confirmations\<lparr>cf_PersistenceCompat := ''migrate''\<rparr>) demo_slots demo_world))"

lemma demo_store_plan:
  "is_Inr (fst (planPersistence store_candidate (no_confirmations\<lparr>cf_PersistenceCompat := ''migrate''\<rparr>) demo_slots demo_world))"
  by code_simp

lemma demo_store_exec: "is_Inr (fst switch_store)"
  by code_simp

lemma demo_lists: "sortedEntries demo_S (sv_S demo_world) = (Inr [demo_entry ''a'' ''aa''], sv_S demo_world)"
  and demo_sizes: "st_Size demo_C (sv_S demo_world) = (Inr 0, sv_S demo_world)"
  by (simp_all add: sortedEntries_def demo_S_def demo_C_def st_fst_def st_snd_def memory_store_def
      Persistence.mem_List_def mem_Size_def demo_world_def on_fst_def on_snd_def NewMemoryStore_def gm_len_def)

lemma persistence_plan_reads: "snd (planPersistence store_candidate conf demo_slots demo_world) = demo_world"
  using demo_lists demo_sizes
  by (simp add: planPersistence_def store_candidate_def demo_slots_def NewSlots_def on_S_def no_adapter_def Let_def)

theorem migrate_copies_store_witness:
  "mem_view (snd (sv_S (snd (snd switch_store)))) = mem_view (fst (sv_S demo_world)) \<and>
   mem_view (fst (sv_S demo_world)) ''a'' = Some (demo_entry ''a'' ''aa'')"
proof -
  let ?c = "no_confirmations\<lparr>cf_PersistenceCompat := ''migrate''\<rparr>"
  let ?p = "planPersistence store_candidate ?c demo_slots demo_world"
  obtain x sl1 s1 where run: "switch_store = (x, sl1, s1)" by (rule prod_cases3)
  then obtain prev where x: "x = Inr prev" using is_Inr_pair [OF _ demo_store_exec] by blast
  have two: "two_stores (snd (sl_Store demo_slots)) (\<lambda>w. mem_ok (fst w)) (\<lambda>w. mem_view (fst w))
      demo_C (\<lambda>w. mem_ok (snd w)) (\<lambda>w. mem_view (snd w))"
    using memory_pair.two_stores_axioms by (simp add: demo_slots_def NewSlots_def demo_S_def demo_C_def)
  have cand: "ad_store store_candidate = Some demo_C" by (simp add: store_candidate_def)
  have reads: "ad_detailed store_candidate = Some g \<Longrightarrow> P" for g P by (simp add: store_candidate_def no_adapter_def)
  have gate: "gate_leaves demo_host (\<lambda>w. mem_ok (fst w)) (\<lambda>w. mem_ok (snd w)) (\<lambda>w. mem_view (snd w))"
    by (simp add: gate_leaves_def demo_host_def)
  have same: "snd ?p = demo_world" by (rule persistence_plan_reads)
  have pause: "ho_PauseWrites demo_host (snd ?p) = (None, demo_world)" by (simp add: demo_host_def same)
  from migrate_copies_store [OF two cand reads gate demo_world_store plan_is [OF demo_store_plan] _ pause run [unfolded switch_store_def x]]
  have "mem_view (snd (sv_S s1)) = mem_view (fst (sv_S demo_world))" by (simp add: no_confirmations_def)
  moreover have "mem_view (fst (sv_S demo_world)) ''a'' = Some (demo_entry ''a'' ''aa'')" by code_simp
  ultimately show ?thesis using snd_snd_eq [OF run] by simp
qed

end
