(* ===== verification/Switch_Props.thy ===== *)
theory Switch_Props
  imports Switch_Laws Switch_Demo
begin

text \<open>
  The properties of a switch, each with an application to a concrete manager: the slots and the world of
  \<open>Switch_Demo\<close>, the registry in memory, an adapter per record.
\<close>

section \<open>The selection\<close>

text \<open>The registry and the manager's memory name the same plugins.\<close>

definition in_step :: "('r \<Rightarrow> plugin_type \<Rightarrow> string option) \<Rightarrow> ('r, 'c, 'v, 's, 'p, 'e) control \<Rightarrow> bool" where
  "in_step acts st \<longleftrightarrow>
     (\<forall>s. acts (pm_reg st) s = (if id_at (pm_active st) s = [] then None else Some (id_at (pm_active st) s)))"

lemma id_at_put [simp]: "id_at (gm_put s k m) r = (if r = s then k else id_at m r)"
  by (simp add: id_at_def)

text \<open>C8: a switch keeps the registry's selection and the manager's in step. When it succeeds both name the
  plugin asked for (none after a deactivation) in its slot and are unchanged elsewhere; when it fails the
  slots run what they ran, the manager's selection is unchanged, and so is the registry's, unless what failed
  was recording the switch.\<close>
theorem switch_keeps_selection:
  assumes "plugin_registry (mg_G E) rok recs acts" and "rok (pm_reg st)" and "slots_ok (pm_slots st)"
    and "in_step acts st" and "switchSlot E slot rec conf mode st = (x, t)"
  shows "case x of
      Inr r \<Rightarrow> in_step acts t \<and> (mode = ModeActivate \<longrightarrow> id_at (pm_active t) slot = rc_ID rec) \<and>
        (mode = ModeDeactivate \<longrightarrow> id_at (pm_active t) slot = []) \<and>
        (\<forall>s. s \<noteq> slot \<longrightarrow> id_at (pm_active t) s = id_at (pm_active st) s \<and>
           slot_current (pm_slots t) s = slot_current (pm_slots st) s)
    | Inl e \<Rightarrow> pm_slots t = pm_slots st \<and> pm_active t = pm_active st \<and>
        (in_step acts t \<or> (\<exists>c. e = Errorf ''could not record the switch: %w'' [AWrap c]))"
proof -
  obtain newID where o: "switch_outcome acts slot newID st x t"
    and m: "mode = ModeActivate \<longrightarrow> newID = rc_ID rec" "mode = ModeDeactivate \<longrightarrow> newID = []"
    using plugin_registry.switch_slot_outcome [OF assms(1) refl assms(2,3,5)] by blast
  show ?thesis
  proof (cases x)
    case (Inl e)
    then show ?thesis using o assms(4) by (auto simp: switch_outcome_def in_step_def)
  next
    case (Inr r)
    then show ?thesis using o m assms(4) by (simp add: switch_outcome_def in_step_def)
  qed
qed


section \<open>What may become active\<close>

lemma may_activate_iff:
  "may_activate rec = None \<longleftrightarrow>
     rc_State rec \<in> {StateVerified, StateInactive, StateRolledBack} \<or>
     rc_State rec = StateFailed \<and> (\<exists>v. rc_Verification rec = Some v \<and> vf_Passed v)"
  by (auto simp: may_activate_def split: plugin_state.splits option.splits)

lemma execute_installs:
  assumes "slots_ok sl" and "execute H slot a pl sl s = (Inr prev, sl1, s1)"
  shows "slot_current sl1 slot = Some a"
  using failed_switch_keeps_slots [OF assms] by simp

lemma switch_execute_ok:
  assumes G: "plugin_registry (mg_G E) rok recs acts" and ok: "rok (pm_reg st)" and sl: "slots_ok (pm_slots st)"
    and run: "switch_execute E H slot actor conf mode target oldID impl owned pl th st = (Inr r, t)"
  shows "slot_current (pm_slots t) slot = Some impl"
proof -
  obtain y sl' s4 where ex: "execute H slot impl pl (pm_slots st) (pm_svc st) = (y, sl', s4)" by (rule prod_cases3)
  have nf: "switch_failed E mode actor e u \<noteq> (Inr r, t)" for e u
    by (auto simp: switch_failed_def Let_def)
  then obtain prev where y: "y = Inr prev" using run ex by (cases y) (auto simp: switch_execute_def)
  define st4 where "st4 = st\<lparr>pm_slots := sl', pm_svc := s4\<rparr>"
  define st5 where "st5 = (if mode \<noteq> ModeDeactivate
                 then reg_set E (rc_ID actor) (\<lambda>r. if ValidTransition (rc_State r) StateActivating
                        then r\<lparr>rc_State := StateActivating, rc_StateDetail := (''activating'', [])\<rparr> else r) st4
                 else st4)"
  obtain z st6 where co: "commit E slot oldID target conf pl mode th st5 = (z, st6)" by fastforce
  note rest = run [unfolded switch_execute_def ex y prod.case sum.case Let_def, folded st4_def, folded st5_def, unfolded co prod.case]
  have ok4: "rok (pm_reg st4)" using ok by (simp add: st4_def)
  have 5: "plugin_registry.settled rok acts st4 st5"
    unfolding st5_def using plugin_registry.settled_set [OF G refl ok4] plugin_registry.settled_refl [OF G ok4] by simp
  note C = plugin_registry.commit_cases [OF G refl plugin_registry.settled_ok [OF G 5] co refl]
  have z: "z = None"
  proof (rule ccontr)
    assume "z \<noteq> None"
    then obtain e where "z = Some e" by auto
    obtain w sl2 where "slot_swap slot prev (pm_slots st6) = (w, sl2)" by fastforce
    then show False using rest nf \<open>z = Some e\<close> by simp
  qed
  define st7 where "st7 = (case pl_threshold pl of Some t \<Rightarrow> st6\<lparr>pm_svc := SetThreshold t (pm_svc st6)\<rparr> | None \<Rightarrow> st6)"
  have st7: "pm_reg st7 = pm_reg st6" "pm_slots st7 = pm_slots st6"
    by (simp_all add: st7_def split: option.splits)
  note A = plugin_registry.after_switch [OF G refl, of st7 slot oldID prev, unfolded st7, OF C(1)]
  have fin: "switch_complete E mode actor target pl (afterSwitch E slot oldID prev st7) = (Inr r, t)"
    using rest z by (simp add: st7_def)
  have "plugin_registry.settled rok acts (afterSwitch E slot oldID prev st7) t"
    using plugin_registry.settled_complete [OF G refl _ fin] A by blast
  then have "pm_slots t = pm_slots st4"
    using A C(2) 5 unfolding plugin_registry.settled_def [OF G] by simp
  then show ?thesis using execute_installs [OF sl] ex y by (simp add: st4_def)
qed

lemma switch_run_ok:
  assumes G: "plugin_registry (mg_G E) rok recs acts" and ok: "rok (pm_reg st)" and sl: "slots_ok (pm_slots st)"
    and run: "switch_run E H slot actor conf mode target oldID st = (Inr r, t)"
  shows "\<exists>impl owned u. candidate E slot target st = (Inr (impl, owned), u) \<and> slot_current (pm_slots t) slot = Some impl"
proof -
  have nf: "switch_failed E mode actor e u \<noteq> (Inr r, t)" for e u
    by (auto simp: switch_failed_def Let_def)
  obtain y st1 where ca: "candidate E slot target st = (y, st1)" by fastforce
  then obtain impl owned where y: "y = Inr (impl, owned)"
    using run nf by (cases y) (auto simp: switch_run_def)
  obtain p s2 where pl: "planFor H (mc_MaxReembedEntries (mg_cfg E)) slot target impl conf (pm_slots st1) (pm_svc st1) = (p, s2)"
    by fastforce
  then obtain q where p: "p = Inr q" using run nf ca y by (cases p) (auto simp: switch_run_def)
  let ?st2 = "st1\<lparr>pm_svc := s2\<rparr>"
  note 1 = plugin_registry.settled_candidate [OF G ok ca]
  have "plugin_registry.settled rok acts st1 ?st2"
    using plugin_registry.settled_ok [OF G 1] unfolding plugin_registry.settled_def [OF G] by simp
  note 2 = plugin_registry.settled_trans [OF G 1 this]
  obtain mg st3 where mg: "(if pl_migrate q \<noteq> None \<or> pl_needGate q
            then setState E (rc_ID actor) StateMigrating (''migrating cache state'', []) ?st2
            else (Inr actor, ?st2)) = (mg, st3)" by fastforce
  note 3 = plugin_registry.settled_trans [OF G 2 plugin_registry.settled_begin [OF G refl plugin_registry.settled_ok [OF G 2] mg]]
  note rest = run [unfolded switch_run_def ca y prod.case sum.case pl p Let_def mg]
  have ex: "switch_execute E H slot actor conf mode target oldID impl owned q (Threshold (host_deps H (pm_slots ?st2)) s2) st3 = (Inr r, t)"
    using rest nf by (auto split: if_splits)
  have sl3: "slots_ok (pm_slots st3)" using sl 3 unfolding plugin_registry.settled_def [OF G] by simp
  from switch_execute_ok [OF G plugin_registry.settled_ok [OF G 3] sl3 ex] ca y show ?thesis by blast
qed

text \<open>C11: only a plugin that passed its verification and answers its health check becomes active. When \<open>activate\<close>
  succeeds, the record was verified (or inactive, rolled back, or failed later with a passed verification),
  the adapter built for it from its own secrets answered the probe, and that adapter now runs in its slot.\<close>
theorem only_verified_and_healthy_become_active:
  assumes "plugin_registry (mg_G E) rok recs acts" and "rok (pm_reg st)" and "slots_ok (pm_slots st)"
    and "activate E k conf st = (Inr r, t)"
  shows "\<exists>rec st1. reg_get E k st = (Inr rec, st1) \<and>
    (rc_State rec \<in> {StateVerified, StateInactive, StateRolledBack} \<or>
     rc_State rec = StateFailed \<and> (\<exists>v. rc_Verification rec = Some v \<and> vf_Passed v)) \<and>
    (\<exists>sec a sl c s c1 s1 s2. openSecrets E rec = Inr sec \<and> mg_build E rec sec sl c s = (Inr a, c1, s1) \<and>
       probeHealth a s1 = (None, s2) \<and> slot_current (pm_slots t) (Slot (rc_Type rec)) = Some a)"
proof -
  obtain rec st1 where get: "reg_get E k st = (Inr rec, st1)" and may: "may_activate rec = None"
    and sw: "switchSlot E (Slot (rc_Type rec)) rec conf ModeActivate st1 = (Inr r, t)"
    using assms(4) by (auto simp: activate_def split: prod.splits sum.splits option.splits)
  note 1 = plugin_registry.settled_get [OF assms(1) refl assms(2) get]
  obtain H u z where ss: "setState E (rc_ID rec) StateChecking (''preparing candidate'', []) st1 = (Inr z, u)"
    and run: "switch_run E H (Slot (rc_Type rec)) rec (restore_threshold ModeActivate rec conf) ModeActivate (Some rec)
        (id_at (ActiveIDs st1) (Slot (rc_Type rec))) u = (Inr r, t)"
    using sw by (auto simp: switchSlot_def switch_target_def Let_def split: if_splits option.splits prod.splits sum.splits)
  note 2 = plugin_registry.settled_trans [OF assms(1) 1
      plugin_registry.settled_setState [OF assms(1) refl plugin_registry.settled_ok [OF assms(1) 1] ss]]
  have "slots_ok (pm_slots u)" using assms(3) 2 unfolding plugin_registry.settled_def [OF assms(1)] by simp
  from switch_run_ok [OF assms(1) plugin_registry.settled_ok [OF assms(1) 2] this run]
  obtain impl owned v where ca: "candidate E (Slot (rc_Type rec)) (Some rec) u = (Inr (impl, owned), v)"
    and cur: "slot_current (pm_slots t) (Slot (rc_Type rec)) = Some impl" by blast
  obtain sec c1 s1 s2 where "openSecrets E rec = Inr sec" "mg_build E rec sec (pm_slots u) (pm_ctl u) (pm_svc u) = (Inr impl, c1, s1)"
    "probeHealth impl s1 = (None, s2)"
    using ca by (auto simp: candidate_def split: sum.splits prod.splits option.splits)
  with get may cur show ?thesis unfolding may_activate_iff by blast
qed

section \<open>Ownership\<close>

lemma all_none_Nil: "\<forall>k. gm_get m k = None \<Longrightarrow> m = []"
  by (cases m) (auto simp: gm_get_def split: if_splits)

text \<open>An adapter made for an activation is never recorded as owned, so it is never closed when it is replaced.
  From a state in which nothing is owned every switch leads to such a state, and there \<open>afterSwitch\<close> runs
  no \<open>Close\<close>, whatever was replaced.\<close>
theorem replaced_adapter_is_not_closed:
  assumes "plugin_registry (mg_G E) rok recs acts" and "rok (pm_reg st)" and "slots_ok (pm_slots st)"
    and "pm_owned st = []" and "switchSlot E slot rec conf mode st = (x, t)"
  shows "pm_owned t = [] \<and> pm_svc (afterSwitch E slot' k a t) = pm_svc t"
proof -
  obtain newID where "switch_outcome acts slot newID st x t"
    using plugin_registry.switch_slot_outcome [OF assms(1) refl assms(2,3,5)] by blast
  then have "pm_owned t = []" using assms(4)
    by (cases x) (auto simp: switch_outcome_def intro: all_none_Nil)
  moreover have "pm_svc (scheduleStop E k u) = pm_svc u" for u
  proof -
    obtain y v where g: "reg_get E k u = (y, v)" by fastforce
    then have "reg_only u v" unfolding reg_get_def by (rule on_reg_only)
    then show ?thesis using g reg_only_same(3) by (auto simp: scheduleStop_def split: sum.splits)
  qed
  ultimately show ?thesis by (auto simp: afterSwitch_def Let_def)
qed

section \<open>A concrete manager\<close>

type_synonym demo_adapter = "(sdk_vs net, memoryStore \<times> memoryStore, manager, Job list) adapter"
type_synonym demo_control = "(memory, unit, sdk_vs net, memoryStore \<times> memoryStore, manager, Job list) control"

definition demo_config :: mgr_config where
  "demo_config = \<lparr>mc_Enabled = True, mc_AllowInsecureEndpoints = False, mc_ControllerURL = [], mc_ControllerToken = [],
     mc_BuildTimeout = 1, mc_HealthTimeout = 1, mc_CPULimit = F_Num 1, mc_MemoryLimit = 1, mc_RollbackWindow = 1,
     mc_ActivationTimeout = 1, mc_QueueDrainWindow = 1, mc_MaxReembedEntries = 10, mc_RestoreWait = 1\<rparr>"

definition demo_build :: "plugin_record \<Rightarrow> (string, string) gomap \<Rightarrow>
    (sdk_vs net, memoryStore \<times> memoryStore, manager, Job list) slots \<Rightarrow> unit \<Rightarrow> demo_service \<Rightarrow> demo_adapter res \<times> unit \<times> demo_service" where
  "demo_build rec sec sl c s = (Inr ((no_adapter 20)\<lparr>ad_policy := Some (mgr_ops ''LRU'')\<rparr>), c, s)"

definition demo_mgr :: "(memory, unit, sdk_vs net, memoryStore \<times> memoryStore, manager, Job list) mgr_env" where
  "demo_mgr = \<lparr>mg_cfg = demo_config, mg_G = memory_registry, mg_box = Some demo_box, mg_host = Some demo_host,
     mg_ctl = None, mg_build = demo_build, mg_now = 0, mg_line = fst, mg_builtinNames = []\<rparr>"

definition demo_record :: "string \<Rightarrow> plugin_state \<Rightarrow> plugin_record" where
  "demo_record k s =
     \<lparr>rc_ID = k, rc_Name = ''mru'', rc_Version = ''1.0.0'', rc_Type = TypePolicy, rc_ContractVersion = ''v1'',
      rc_Mode = ModeEndpoint, rc_Source = \<lparr>so_EndpointURL = [], so_ImageRef = [], so_RepoURL = [], so_Revision = []\<rparr>,
      rc_Commit = [], rc_ImageDigest = [], rc_Manifest = None, rc_Config = [], rc_Secrets = [], rc_State = s,
      rc_StateDetail = no_detail, rc_Health = \<lparr>hl_Status = ''healthy'', hl_Message = no_detail, hl_CheckedAt = 0\<rparr>,
      rc_Active = False, rc_PreviousActiveID = [], rc_PreviousThreshold = None, rc_Confirmations = no_confirmations,
      rc_Verification = Some \<lparr>vf_At = 0, vf_Passed = True, vf_Checks = [], vf_Summary = no_detail\<rparr>, rc_Scan = None,
      rc_Provenance = None, rc_InstanceID = [], rc_UpgradedFromID = [], rc_Rev = 1, rc_CreatedAt = 0, rc_UpdatedAt = 0\<rparr>"

definition demo_registry :: memory where
  "demo_registry = (NewMemory (\<lambda>_. 0))\<lparr>me_recs := [(''plg_1'', demo_record ''plg_1'' StateVerified)]\<rparr>"

definition demo_control :: demo_control where
  "demo_control = mgr_New demo_registry () demo_slots demo_world"

definition demo_activation :: "switch_result res \<times> demo_control" where
  "demo_activation = activate demo_mgr ''plg_1'' no_confirmations demo_control"

definition demo_switch :: "switch_result res \<times> demo_control" where
  "demo_switch = switchSlot demo_mgr TypePolicy (demo_record ''plg_1'' StateVerified) no_confirmations ModeActivate demo_control"

lemma demo_activation_ok: "is_Inr (fst demo_activation)"
  by code_simp

lemma demo_switch_ok: "is_Inr (fst demo_switch)"
  by code_simp


lemma demo_registry_laws: "plugin_registry (mg_G demo_mgr) mem_reg_ok mem_recs mem_acts"
  by (simp add: demo_mgr_def memory_reg.plugin_registry_axioms)

lemma demo_control_ok:
  "mem_reg_ok (pm_reg demo_control)" "slots_ok (pm_slots demo_control)" "in_step mem_acts demo_control" "pm_owned demo_control = []"
  by (simp_all add: demo_control_def mgr_New_def demo_slots_ok mem_reg_ok_def demo_registry_def NewMemory_def logs_ok_def
      in_step_def mem_acts_def id_at_def gm_wf_def)

theorem switch_keeps_selection_witness:
  "\<exists>r t. demo_switch = (Inr r, t) \<and> in_step mem_acts t \<and> id_at (pm_active t) TypePolicy = ''plg_1''"
proof -
  obtain x t where run: "demo_switch = (x, t)" by fastforce
  then obtain r where x: "x = Inr r" using is_Inr_pair [OF _ demo_switch_ok] by blast
  from switch_keeps_selection [OF demo_registry_laws demo_control_ok(1-3) run [unfolded demo_switch_def x]]
  have "in_step mem_acts t \<and> id_at (pm_active t) TypePolicy = ''plg_1''" by (simp add: demo_record_def)
  with run [unfolded x] show ?thesis by blast
qed

theorem only_verified_and_healthy_become_active_witness:
  "\<exists>r t a. demo_activation = (Inr r, t) \<and> slot_current (pm_slots t) TypePolicy = Some a"
proof -
  obtain x t where run: "demo_activation = (x, t)" by fastforce
  then obtain r where x: "x = Inr r" using is_Inr_pair [OF _ demo_activation_ok] by blast
  have get: "reg_get demo_mgr ''plg_1'' demo_control = (Inr (demo_record ''plg_1'' StateVerified), demo_control)"
    by (simp add: reg_get_def on_reg_def demo_mgr_def memory_registry_def mem_Get_def demo_control_def mgr_New_def
        demo_registry_def gm_get_def)
  from only_verified_and_healthy_become_active [OF demo_registry_laws demo_control_ok(1,2) run [unfolded demo_activation_def x]]
  obtain rec st1 a where "reg_get demo_mgr ''plg_1'' demo_control = (Inr rec, st1)"
    "slot_current (pm_slots t) (Slot (rc_Type rec)) = Some a" by blast
  moreover from this(1) get have "Slot (rc_Type rec) = TypePolicy" by (auto simp: demo_record_def)
  ultimately have "slot_current (pm_slots t) TypePolicy = Some a" by (simp del: slot_current.simps)
  with run [unfolded x] show ?thesis by blast
qed

theorem replaced_adapter_is_not_closed_witness:
  "pm_owned (snd demo_switch) = [] \<and> pm_svc (afterSwitch demo_mgr TypePolicy ''plg_1'' (no_adapter 20) (snd demo_switch)) = pm_svc (snd demo_switch)"
proof -
  obtain x t where run: "demo_switch = (x, t)" by fastforce
  from replaced_adapter_is_not_closed [OF demo_registry_laws demo_control_ok(1,2,4) run [unfolded demo_switch_def], of TypePolicy "''plg_1''" "no_adapter 20"]
  show ?thesis using run by (metis snd_conv)
qed



section \<open>A failed deactivation\<close>

lemma record_copy_state:
  assumes "record_copy r = Inr c"
  shows "record_copy (r\<lparr>rc_State := s, rc_StateDetail := d, rc_Rev := n, rc_UpdatedAt := u\<rparr>) =
    Inr (c\<lparr>rc_State := s, rc_StateDetail := d, rc_Rev := n, rc_UpdatedAt := u\<rparr>)"
  using assms by (auto simp: record_copy_def split: if_splits)

text \<open>Writing a state into a stored record that can be stored.\<close>

lemma memory_set_state:
  assumes "mg_G E = memory_registry" and "gm_get (me_recs (pm_reg st)) k = Some r" and "record_copy r = Inr c"
  shows "\<exists>c'. gm_get (me_recs (pm_reg (reg_set E k (\<lambda>r. r\<lparr>rc_State := s, rc_StateDetail := d\<rparr>) st))) k = Some c' \<and>
    rc_State c' = s \<and> rc_Active c' = rc_Active c"
proof -
  have "record_copy (r\<lparr>rc_State := s, rc_StateDetail := d, rc_Rev := rc_Rev r + 1, rc_UpdatedAt := u\<rparr>) =
      Inr (c\<lparr>rc_State := s, rc_StateDetail := d, rc_Rev := rc_Rev r + 1, rc_UpdatedAt := u\<rparr>)" for u
    by (rule record_copy_state [OF assms(3)])
  then show ?thesis using assms(1,2)
    by (simp add: reg_set_def reg_update_def on_reg_def memory_registry_def mem_Update_def Let_def)
qed

lemma memory_keeps:
  "mg_G E = memory_registry \<Longrightarrow> me_recs (pm_reg (logf E k f as st)) = me_recs (pm_reg st)"
  "mg_G E = memory_registry \<Longrightarrow> me_recs (pm_reg (audit E a rec oc d st)) = me_recs (pm_reg st)"
  by (simp_all add: logf_def audit_def on_reg_def memory_registry_def mem_AppendLog_def mem_AppendAudit_def)

text \<open>C13: a deactivation that fails leaves the plugin in use but marks it failed. Here the write gate times out: the
  policy plugin still serves its slot, the registry and the manager still name it, its record is still
  active, and its state is \<open>failed\<close>, an edge the lifecycle does not have.\<close>
theorem failed_deactivation_marks_active_plugin:
  assumes "mg_G E = memory_registry" and "requireEnabled E = None" and "mg_host E = Some H"
    and "\<And>s. fst (ho_PauseWrites H s) = Some e" and "errors_as is_requirement e = None"
    and "gm_get (me_recs (pm_reg st)) k = Some rec" and "record_copy rec = Inr c" and "rc_ID rec = k" and "rc_Active rec"
    and "rc_State rec = StateActive" and "rc_Type rec = TypePolicy" and "TypePolicy \<notin> set (pm_locked st)"
    and "slot_builtin (pm_slots st) TypePolicy = Some a" and "ad_policy a \<noteq> None"
  shows "\<exists>t r. mgr_Deactivate E k conf st = (Inl e, t) \<and> mem_recs (pm_reg t) k = Some r \<and> rc_State r = StateFailed \<and>
    rc_Active r \<and> mem_acts (pm_reg t) = mem_acts (pm_reg st) \<and> pm_active t = pm_active st \<and> pm_slots t = pm_slots st \<and>
    \<not> ValidTransition StateActive StateFailed"
proof -
  obtain P where P: "ad_policy a = Some P" using assms(14) by blast
  have get: "reg_get E k st = (Inr rec, st)"
    using assms(1,6) by (simp add: reg_get_def on_reg_def memory_registry_def mem_Get_def)
  obtain pl where pl: "planPolicy a = Inr pl" and need: "pl_needGate pl" "\<not> pl_forceMiss pl"
    using P by (auto simp: planPolicy_def empty_plan_def warn_def)
  have mig: "setState E k StateMigrating (''migrating cache state'', []) st =
      (Inl (Errorf ''illegal lifecycle transition %s -> %s'' []), st)"
    using assms(1,6,10)
    by (simp add: setState_def reg_update_def on_reg_def memory_registry_def mem_Update_def ValidTransition_def InProgress_def)
  obtain s where gate: "ho_PauseWrites H (pm_svc st) = (Some e, s)"
    using assms(4) [of "pm_svc st"] by (cases "ho_PauseWrites H (pm_svc st)") auto
  define st1 where "st1 = st\<lparr>pm_svc := s\<rparr>"
  have ex: "execute H TypePolicy a pl (pm_slots st) (pm_svc st) = (Inl e, pm_slots st, s)"
    using need gate by (simp add: execute_def)
  have conf: "st\<lparr>pm_svc := pm_svc st\<rparr> = st" by simp
  have run: "mgr_Deactivate E k conf st = switch_failed E ModeDeactivate rec e st1"
    using assms(2,3,8-13) get pl need mig ex
    by (simp add: mgr_Deactivate_def leave_active_def switchSlot_def switch_target_def Let_def switch_run_def candidate_def
        planFor_def switch_execute_def discard_def st1_def)
  obtain x t where f: "switch_failed E ModeDeactivate rec e st1 = (x, t)" by fastforce
  note st1 = st1_def [THEN arg_cong, of pm_reg, simplified]
  have t: "x = Inl e" "t = audit E ''deactivate'' (Some rec) ''failed'' (''%v'', [AErr e])
       (logf E k ''%s not completed: %v (previous implementation left in place)'' [AStr ''deactivate'', AErr e]
         (reg_set E k (\<lambda>r. r\<lparr>rc_State := StateFailed, rc_StateDetail := failure_detail e\<rparr>) st1))"
    using f assms(5,8) by (auto simp: switch_failed_def Let_def)
  have "gm_get (me_recs (pm_reg st1)) k = Some rec" using assms(6) st1 by simp
  from memory_set_state [OF assms(1) this assms(7), where s = StateFailed and d = "failure_detail e"]
  obtain c' where c': "gm_get (me_recs (pm_reg t)) k = Some c'" "rc_State c' = StateFailed" "rc_Active c' = rc_Active c"
    unfolding t(2) memory_keeps [OF assms(1)] by blast
  have "rc_Active c" using assms(7,9) by (auto simp: record_copy_def split: if_splits)
  moreover have "mem_acts (pm_reg t) = mem_acts (pm_reg st)" "pm_active t = pm_active st" "pm_slots t = pm_slots st"
    using t(2) assms(1)
    by (simp_all add: st1_def logf_def audit_def reg_set_def reg_update_def on_reg_def memory_registry_def mem_acts_def
        mem_AppendLog_def mem_AppendAudit_def mem_Update_def Let_def split: option.splits sum.splits)
  ultimately show ?thesis using c' run f t(1) by (auto simp: mem_recs_def ValidTransition_def InProgress_def)
qed


definition timeout_error :: goerr where
  "timeout_error = Errorf ''cache writes did not drain: %w'' [AWrap (Sentinel ''context.DeadlineExceeded'')]"

definition slow_host :: "(sdk_vs net, memoryStore \<times> memoryStore, manager, Job list) host" where
  "slow_host = demo_host\<lparr>ho_PauseWrites := (\<lambda>s. (Some timeout_error, s))\<rparr>"

definition active_control :: demo_control where
  "active_control = demo_control\<lparr>pm_reg := demo_registry\<lparr>me_recs := [(''plg_1'', (demo_record ''plg_1'' StateActive)\<lparr>rc_Active := True\<rparr>)],
     me_active := [(TypePolicy, ''plg_1'')]\<rparr>, pm_active := [(TypePolicy, ''plg_1'')]\<rparr>"

theorem failed_deactivation_marks_active_plugin_witness:
  "\<exists>t r. mgr_Deactivate (demo_mgr\<lparr>mg_host := Some slow_host\<rparr>) ''plg_1'' no_confirmations active_control = (Inl timeout_error, t) \<and>
     mem_recs (pm_reg t) ''plg_1'' = Some r \<and> rc_State r = StateFailed \<and> rc_Active r \<and>
     mem_acts (pm_reg t) TypePolicy = Some ''plg_1''"
proof -
  let ?E = "demo_mgr\<lparr>mg_host := Some slow_host\<rparr>"
  let ?r = "(demo_record ''plg_1'' StateActive)\<lparr>rc_Active := True\<rparr>"
  have E: "mg_G ?E = memory_registry" "requireEnabled ?E = None" "mg_host ?E = Some slow_host"
    by (simp_all add: demo_mgr_def requireEnabled_def demo_config_def)
  have H: "fst (ho_PauseWrites slow_host s) = Some timeout_error" for s by (simp add: slow_host_def)
  have e: "errors_as is_requirement timeout_error = None" by code_simp
  have g: "gm_get (me_recs (pm_reg active_control)) ''plg_1'' = Some ?r"
    by (simp add: active_control_def gm_get_def)
  have c: "record_copy ?r = Inr ?r" by (simp add: record_copy_def demo_record_def opt_finite_def no_confirmations_def)
  have r: "rc_ID ?r = ''plg_1''" "rc_Active ?r" "rc_State ?r = StateActive" "rc_Type ?r = TypePolicy"
    by (simp_all add: demo_record_def)
  have l: "TypePolicy \<notin> set (pm_locked active_control)"
    by (simp add: active_control_def demo_control_def mgr_New_def)
  obtain a where a: "slot_builtin (pm_slots active_control) TypePolicy = Some a" "ad_policy a \<noteq> None"
    by (simp add: active_control_def demo_control_def mgr_New_def demo_slots_def NewSlots_def slot_builtin_def)
  have acts: "mem_acts (pm_reg active_control) TypePolicy = Some ''plg_1''"
    by (simp add: active_control_def mem_acts_def gm_get_def)
  from failed_deactivation_marks_active_plugin [OF E H e g c r l a, of no_confirmations] acts show ?thesis by auto
qed

end
