(* ===== verification/Restore_Laws.thy ===== *)
theory Restore_Laws
  imports Restore Switch_Props
begin

text \<open>
  What deletion and restoration guarantee, over any registry that keeps the laws of \<open>plugin_registry\<close>, and
  the applications to a concrete manager.
\<close>

section \<open>Deletion\<close>

context plugin_registry
begin

lemma delete_outcome:
  assumes "mg_G E = G" and "rok (pm_reg st)" and "mgr_Delete E k st = (x, t)"
  shows "rok (pm_reg t) \<and> acts (pm_reg t) = acts (pm_reg st) \<and>
    (recs (pm_reg t) = recs (pm_reg st) \<and> x \<noteq> None \<or>
     recs (pm_reg t) = (recs (pm_reg st))(k := None) \<and>
     (\<exists>rec. recs (pm_reg st) k = Some rec \<and> \<not> rc_Active rec \<and> \<not> InProgress (rc_State rec)) \<and>
     (\<exists>ps u w. rok u \<and> recs u = recs (pm_reg st) \<and> rg_List G u = (Inr ps, w) \<and>
        (\<forall>r \<in> set ps. rc_Active r \<longrightarrow> rc_PreviousActiveID r \<noteq> k)))"
proof -
  have reads: "on_reg f u = (y, v) \<Longrightarrow> rok (pm_reg u) \<Longrightarrow>
      (\<And>r z w. rok r \<Longrightarrow> f r = (z, w) \<Longrightarrow> rok w \<and> recs w = recs r \<and> acts w = acts r) \<Longrightarrow>
      rok (pm_reg v) \<and> recs (pm_reg v) = recs (pm_reg u) \<and> acts (pm_reg v) = acts (pm_reg u)" for f u and y :: 'z and v
    by (auto simp: on_reg_iff)
  have aud: "rok (pm_reg u) \<Longrightarrow> rok (pm_reg (audit E a q oc d u)) \<and> recs (pm_reg (audit E a q oc d u)) = recs (pm_reg u) \<and>
      acts (pm_reg (audit E a q oc d u)) = acts (pm_reg u)" for a q oc d u
    unfolding audit_def assms(1) by (rule reads [OF prod.collapse [symmetric]]) (use audit_state in blast)+
  have log: "rok (pm_reg u) \<Longrightarrow> rok (pm_reg (logf E j f as u)) \<and> recs (pm_reg (logf E j f as u)) = recs (pm_reg u) \<and>
      acts (pm_reg (logf E j f as u)) = acts (pm_reg u)" for j f as u
    unfolding logf_def assms(1) by (rule reads [OF prod.collapse [symmetric]]) (use log_state in blast)+
  show ?thesis
  proof (cases "requireEnabled E")
    case (Some e)
    then show ?thesis using assms(2,3) by (auto simp: mgr_Delete_def)
  next
    case None
    obtain y st1 where get: "reg_get E k st = (y, st1)" by fastforce
    have 1: "rok (pm_reg st1) \<and> recs (pm_reg st1) = recs (pm_reg st) \<and> acts (pm_reg st1) = acts (pm_reg st)"
      by (rule reads [OF get [unfolded reg_get_def assms(1)] assms(2)]) (use get_state in blast)
    show ?thesis
    proof (cases y)
      case (Inl e)
      then show ?thesis using assms(3) None get 1 by (auto simp: mgr_Delete_def)
    next
      case (Inr rec)
      have rec: "recs (pm_reg st) k = Some rec"
        using get_ok [OF assms(2)] get Inr assms(1) by (auto simp: reg_get_def on_reg_iff)
      show ?thesis
      proof (cases "rc_Active rec \<or> InProgress (rc_State rec)")
        case True
        then show ?thesis using assms(3) None get Inr 1 aud [of st1]
          by (cases "rc_Active rec") (auto simp: mgr_Delete_def)
      next
        case False
        obtain z st2 where lst: "on_reg (rg_List G) st1 = (z, st2)" by fastforce
        have 2: "rok (pm_reg st2) \<and> recs (pm_reg st2) = recs (pm_reg st1) \<and> acts (pm_reg st2) = acts (pm_reg st1)"
          by (rule reads [OF lst]) (use 1 list_state in blast)+
        note run = assms(3) [unfolded mgr_Delete_def None get prod.case sum.case option.case Inr assms(1) lst]
        show ?thesis
        proof (cases "\<exists>all. z = Inr all \<and> rollback_user k all = None")
          case False
          then show ?thesis using run \<open>\<not> (rc_Active rec \<or> _)\<close> 1 2 aud [of st2]
            by (cases z) (auto split: option.splits)
        next
          case True
          then obtain all where all: "z = Inr all" "rollback_user k all = None" by blast
          have "rg_List G (pm_reg st1) = (Inr all, pm_reg st2)" using lst all(1) by (simp add: on_reg_iff)
          moreover have "\<forall>r \<in> set all. rc_Active r \<longrightarrow> rc_PreviousActiveID r \<noteq> k"
            using all(2) unfolding rollback_user_def find_None_iff by blast
          ultimately have no: "\<exists>ps u w. rok u \<and> recs u = recs (pm_reg st) \<and> rg_List G u = (Inr ps, w) \<and>
              (\<forall>r \<in> set ps. rc_Active r \<longrightarrow> rc_PreviousActiveID r \<noteq> k)"
            using 1 by blast
          define st3 where "st3 = st2\<lparr>pm_timers := gm_del k (pm_timers st2), pm_owned := gm_del k (pm_owned st2)\<rparr>"
          define st4 where "st4 = (case mg_ctl E of
                                 Some C \<Rightarrow>
                                   if rc_Mode rec \<noteq> ModeEndpoint
                                   then (case co_Stop C k (pm_ctl st3) of
                                           (Some e, c) \<Rightarrow> logf E k ''could not stop instance while deleting: %v'' [AErr e] (st3\<lparr>pm_ctl := c\<rparr>)
                                         | (None, c) \<Rightarrow> st3\<lparr>pm_ctl := c\<rparr>)
                                   else st3
                               | None \<Rightarrow> st3)"
          have 4: "rok (pm_reg st4) \<and> recs (pm_reg st4) = recs (pm_reg st2) \<and> acts (pm_reg st4) = acts (pm_reg st2)"
          proof -
            have s3: "pm_reg st3 = pm_reg st2" by (simp add: st3_def)
            show ?thesis
            proof (cases "mg_ctl E")
              case None
              then show ?thesis using 2 s3 by (simp add: st4_def)
            next
              case (Some C)
              obtain b c where "co_Stop C k (pm_ctl st3) = (b, c)" by fastforce
              then show ?thesis using 2 s3 Some log [of "st3\<lparr>pm_ctl := c\<rparr>"]
                by (auto simp: st4_def split: option.splits)
            qed
          qed
          obtain w st5 where del: "on_reg (rg_Delete G k) st4 = (w, st5)" by fastforce
          have 5: "rok (pm_reg st5)" "acts (pm_reg st5) = acts (pm_reg st4)"
            "recs (pm_reg st5) = (recs (pm_reg st4))(k := None) \<or> w \<noteq> None \<and> recs (pm_reg st5) = recs (pm_reg st4)"
            using delete_state [of "pm_reg st4" k w "pm_reg st5"] 4 del by (auto simp: on_reg_iff)
          have "(x, t) = (case w of Some e \<Rightarrow> (Some e, st5) | None \<Rightarrow>
              (None, audit E ''delete'' (Some rec) ''ok'' (''%s@%s'', [AStr (rc_Name rec), AStr (rc_Version rec)]) st5))"
            using run False all by (simp add: Let_def st3_def [symmetric] st4_def [symmetric] del split: option.splits)
          then show ?thesis using 1 2 4 5 no rec False aud [of st5] by (cases w) auto
        qed
      qed
    qed
  qed
qed

end

context complete_registry
begin

lemma delete_outcome_complete:
  assumes "mg_G E = G" and "rok (pm_reg st)" and "mgr_Delete E k st = (x, t)"
  shows "acts (pm_reg t) = acts (pm_reg st) \<and>
    (recs (pm_reg t) = recs (pm_reg st) \<and> x \<noteq> None \<or>
     recs (pm_reg t) = (recs (pm_reg st))(k := None) \<and>
     (\<exists>rec. recs (pm_reg st) k = Some rec \<and> \<not> rc_Active rec \<and> \<not> InProgress (rc_State rec)) \<and>
     (\<forall>r \<in> ran (recs (pm_reg st)). rc_Active r \<longrightarrow> rc_PreviousActiveID r \<noteq> k))"
proof -
  have "\<forall>r \<in> ran (recs (pm_reg st)). rc_Active r \<longrightarrow> rc_PreviousActiveID r \<noteq> k"
    if "\<exists>ps u w. rok u \<and> recs u = recs (pm_reg st) \<and> rg_List G u = (Inr ps, w) \<and>
        (\<forall>r \<in> set ps. rc_Active r \<longrightarrow> rc_PreviousActiveID r \<noteq> k)"
    using that list_complete by (metis subsetD)
  then show ?thesis using delete_outcome [OF assms] by blast
qed

end


lemma demo_registry_complete: "complete_registry (mg_G demo_mgr) mem_reg_ok mem_recs mem_acts"
  by (simp add: demo_mgr_def memory_reg.complete_registry_axioms)


section \<open>Restoration\<close>

context plugin_registry
begin

text \<open>The registry selects the same plugins and has the same records, up to their contents; slots and memory are unchanged.\<close>

definition kept :: "('r, 'c, 'v, 's, 'p, 'e) control \<Rightarrow> ('r, 'c, 'v, 's, 'p, 'e) control \<Rightarrow> bool" where
  "kept st t \<longleftrightarrow> rok (pm_reg t) \<and> acts (pm_reg t) = acts (pm_reg st) \<and> dom (recs (pm_reg t)) = dom (recs (pm_reg st)) \<and>
     pm_slots t = pm_slots st \<and> pm_active t = pm_active st"

lemma kept_refl: "rok (pm_reg st) \<Longrightarrow> kept st st"
  by (simp add: kept_def)

lemma kept_trans: "kept st t \<Longrightarrow> kept t u \<Longrightarrow> kept st u"
  by (simp add: kept_def)

lemma kept_ok: "kept st t \<Longrightarrow> rok (pm_reg t)"
  by (simp add: kept_def)

lemma kept_on_reg:
  assumes "rok (pm_reg st)" and "on_reg f st = (x, t)"
    and "\<And>r y u. rok r \<Longrightarrow> f r = (y, u) \<Longrightarrow> rok u \<and> acts u = acts r \<and> dom (recs u) = dom (recs r)"
  shows "kept st t"
  using assms(3) [OF assms(1)] assms(2) reg_only_same [of st t] by (auto simp: on_reg_iff kept_def)

lemma kept_get: "mg_G E = G \<Longrightarrow> rok (pm_reg st) \<Longrightarrow> reg_get E k st = (x, t) \<Longrightarrow> kept st t"
  unfolding reg_get_def by (erule kept_on_reg) (use get_state in fastforce)+

lemma kept_set: "mg_G E = G \<Longrightarrow> rok (pm_reg st) \<Longrightarrow> kept st (reg_set E k fn st)"
  unfolding reg_set_def reg_update_def
proof (erule kept_on_reg [OF _ prod.collapse [symmetric]])
  fix r y u
  assume "mg_G E = G" and "rok r" and "rg_Update (mg_G E) k (\<lambda>r. Inr (fn r)) r = (y, u)"
  then have "rok u \<and> acts u = acts r \<and> (recs u = recs r \<or> (\<exists>new. updates (recs r) k (\<lambda>r. Inr (fn r)) new \<and> recs u = (recs r)(k \<mapsto> new)))"
    using update_state by simp
  then show "rok u \<and> acts u = acts r \<and> dom (recs u) = dom (recs r)" by (auto simp: updates_def split: if_splits)
qed

lemma kept_audit: "mg_G E = G \<Longrightarrow> rok (pm_reg st) \<Longrightarrow> kept st (audit E a q oc d st)"
  unfolding audit_def by (erule kept_on_reg [OF _ prod.collapse [symmetric]]) (use audit_state in fastforce)

lemma kept_logf: "mg_G E = G \<Longrightarrow> rok (pm_reg st) \<Longrightarrow> kept st (logf E k f as st)"
  unfolding logf_def by (erule kept_on_reg [OF _ prod.collapse [symmetric]]) (use log_state in fastforce)

text \<open>
  An attempt that fails keeps everything; one that succeeds also puts a healthy adapter built for the record
  into the slot.
\<close>

definition restored :: "('r, 'c, 'v, 's, 'p, 'e) mgr_env \<Rightarrow> plugin_type \<Rightarrow> plugin_record \<Rightarrow> ('r, 'c, 'v, 's, 'p, 'e) control \<Rightarrow>
    ('r, 'c, 'v, 's, 'p, 'e) control \<Rightarrow> bool" where
  "restored E slot rec st t \<longleftrightarrow> rok (pm_reg t) \<and> acts (pm_reg t) = acts (pm_reg st) \<and>
     dom (recs (pm_reg t)) = dom (recs (pm_reg st)) \<and> pm_active t = pm_active st \<and>
     (\<forall>s. s \<noteq> slot \<longrightarrow> slot_current (pm_slots t) s = slot_current (pm_slots st) s) \<and>
     (\<exists>sec a sl c s c1 s1 s2. openSecrets E rec = Inr sec \<and> mg_build E rec sec sl c s = (Inr a, c1, s1) \<and>
        probeHealth a s1 = (None, s2) \<and> slot_current (pm_slots t) slot = Some a)"

lemma attempt_outcome:
  assumes G: "mg_G E = G" and ok: "rok (pm_reg st)" and run: "restoreOne E slot rec st = (x, t)"
  shows "case x of Some e \<Rightarrow> kept st t | None \<Rightarrow> restored E slot rec st t"
proof -
  define st1 where "st1 = logf E (rc_ID rec) ''restoring the active %s plugin %q'' [AStr (type_name slot), AStr (rc_Name rec)] st"
  have 1: "kept st st1" unfolding st1_def by (rule kept_logf [OF G ok])
  note run = run [unfolded restoreOne_def, folded st1_def, unfolded Let_def]
  show ?thesis
  proof (cases "openSecrets E rec")
    case (Inl e)
    then show ?thesis using run 1 by auto
  next
    case (Inr sec)
    obtain b c s where b: "mg_build E rec sec (pm_slots st1) (pm_ctl st1) (pm_svc st1) = (b, c, s)" by (rule prod_cases3)
    show ?thesis
    proof (cases b)
      case (Inl e)
      then show ?thesis using run Inr b 1 by (auto simp: kept_def)
    next
      case a: (Inr a)
      obtain p s1 where p: "probeHealth a s = (p, s1)" by fastforce
      obtain w sl where w: "slot_swap slot a (pm_slots st1) = (w, sl)" by fastforce
      show ?thesis
      proof (cases "p = None \<and> is_Inr w")
        case False
        then show ?thesis using run Inr b a p w 1 swap_err [of slot a "pm_slots st1" _ sl]
          by (cases p; cases w) (auto simp: kept_def is_Inr_def)
      next
        case True
        then obtain old where old: "w = Inr old" "p = None" by (cases w) (auto simp: is_Inr_def)
        note sw = swap_ok [OF w [unfolded old]]
        have "x = None" "t = st1\<lparr>pm_ctl := c, pm_svc := s1, pm_slots := sl, pm_owned := gm_put (rc_ID rec) a (pm_owned st1)\<rparr>"
          using run Inr b a p w old by auto
        moreover have "probeHealth a s = (None, s1)" using p old by simp
        moreover from calculation have "slot_current (pm_slots t) slot = Some a" using sw(2) by simp
        then have "\<exists>sec a' sl c s c1 s1 s2. openSecrets E rec = Inr sec \<and> mg_build E rec sec sl c s = (Inr a', c1, s1) \<and>
            probeHealth a' s1 = (None, s2) \<and> slot_current (pm_slots t) slot = Some a'"
          using calculation(3) Inr b [unfolded a] by blast
        ultimately show ?thesis using 1 sw(3) unfolding restored_def kept_def by simp
      qed
    qed
  qed
qed


end

context plugin_registry
begin

lemma loop_outcome:
  assumes G: "mg_G E = G" and ok: "rok (pm_reg st)" and run: "restore_loop E R d slot rec n st = Some (x, m, t)"
  shows "case x of Some e \<Rightarrow> kept st t | None \<Rightarrow> restored E slot rec st t"
proof -
  have "mg_G E = G \<Longrightarrow> rok (pm_reg st) \<Longrightarrow> case_prod (\<lambda>x (m, t). case x of Some e \<Rightarrow> kept st t | None \<Rightarrow> restored E slot rec st t) y"
    if "restore_loop E R d slot rec n st = Some y" for y
    using that
  proof (induction rule: restore_loop.raw_induct [rotated 1, consumes 1])
    case (1 loop E R d slot rec n st y)
    obtain z st1 where one: "restoreOne E slot rec st = (z, st1)" by fastforce
    note at = attempt_outcome [OF "1.prems" one]
    show ?case
    proof (cases z)
      case None
      then show ?thesis using "1.hyps" one at by auto
    next
      case (Some e)
      define st2 where "st2 = logf E (rc_ID rec) ''restore attempt failed (%v); retrying'' [AErr e] st1"
      have 1: "kept st st1" using at Some by simp
      have 2: "kept st st2" unfolding st2_def
        by (rule kept_trans [OF 1 kept_logf [OF "1.prems"(1) kept_ok [OF 1]]])
      show ?thesis
      proof (cases "errors_is e ErrKeyMismatch \<or> errors_is e ErrCorrupt \<or> d < rv_now R n \<or> rv_ctxErr R n \<or> rv_canceled R n")
        case True
        then show ?thesis using "1.hyps" one Some 1 2 by (auto simp: st2_def split: if_splits)
      next
        case False
        then have go: "loop E R d slot rec (Suc n) st2 = Some y" using "1.hyps" one Some by (simp add: st2_def)
        obtain x m t where y: "y = (x, m, t)" by (rule prod_cases3)
        have "case x of Some e \<Rightarrow> kept st2 t | None \<Rightarrow> restored E slot rec st2 t"
          using "1.IH" [OF go "1.prems"(1) kept_ok [OF 2]] y by simp
        then show ?thesis using 2 y by (cases x) (auto simp: restored_def kept_def)
      qed
    qed
  qed
  from this [OF run G ok] show ?thesis by simp
qed

text \<open>The restoration of one slot whose selection is \<open>k\<close>.\<close>

definition slot_restored :: "('r, 'c, 'v, 's, 'p, 'e) mgr_env \<Rightarrow> plugin_type \<Rightarrow> string \<Rightarrow> ('r, 'c, 'v, 's, 'p, 'e) control \<Rightarrow> bool" where
  "slot_restored E slot k t \<longleftrightarrow> id_at (pm_active t) slot = k \<and> acts (pm_reg t) slot = Some k \<and>
     (\<exists>rec sec a sl c s c1 s1 s2. openSecrets E rec = Inr sec \<and> mg_build E rec sec sl c s = (Inr a, c1, s1) \<and>
        probeHealth a s1 = (None, s2) \<and> slot_current (pm_slots t) slot = Some a)"

definition others_kept :: "plugin_type \<Rightarrow> ('r, 'c, 'v, 's, 'p, 'e) control \<Rightarrow> ('r, 'c, 'v, 's, 'p, 'e) control \<Rightarrow> bool" where
  "others_kept slot st t \<longleftrightarrow> rok (pm_reg t) \<and> dom (recs (pm_reg t)) = dom (recs (pm_reg st)) \<and>
     (\<forall>s. s \<noteq> slot \<longrightarrow> acts (pm_reg t) s = acts (pm_reg st) s \<and> id_at (pm_active t) s = id_at (pm_active st) s \<and>
        slot_current (pm_slots t) s = slot_current (pm_slots st) s)"

lemma slot_outcome:
  assumes G: "mg_G E = G" and ok: "rok (pm_reg st)" and k: "k \<noteq> []" "acts (pm_reg st) slot = Some k"
    and run: "restore_slot E R k slot n st = Some (None, m, t)"
  shows "others_kept slot st t \<and> (slot_restored E slot k t \<or>
    \<not> stateBearing slot \<and> pm_active t = pm_active st \<and> slot_current (pm_slots t) slot = slot_current (pm_slots st) slot \<or>
    (\<exists>e u. rg_Get G k (pm_reg st) = (Inl e, u)))"
proof -
  obtain y st1 where get: "reg_get E k st = (y, st1)" by fastforce
  have 1: "kept st st1" by (rule kept_get [OF G ok get])
  have clear: "others_kept slot st (snd (on_reg (rg_ClearActive (mg_G E) slot) u))" if "kept st u" for u
  proof -
    obtain z r where z: "rg_ClearActive G slot (pm_reg u) = (z, r)" by fastforce
    then show ?thesis using that clear_active [OF kept_ok [OF that] z] G
      by (auto simp: on_reg_def others_kept_def kept_def)
  qed
  show ?thesis
  proof (cases y)
    case (Inl e)
    then have "rg_Get G k (pm_reg st) = (Inl e, pm_reg st1)" using get G by (auto simp: reg_get_def on_reg_iff)
    moreover have "t = snd (on_reg (rg_ClearActive (mg_G E) slot) st1)"
      using run k(1) get Inl by (simp add: restore_slot_def)
    ultimately show ?thesis using clear [OF 1] by blast
  next
    case (Inr rec)
    then obtain z st2 where loop: "restoreWithRetry E R slot rec n st1 = Some (z, m, st2)"
      and t: "(case z of Some e \<Rightarrow> restore_failed E slot rec k e st2 | None \<Rightarrow> (None, restore_done E slot rec k st2)) = (None, t)"
      using run k(1) get by (auto simp: restore_slot_def split: option.splits prod.splits)
    note out = loop_outcome [OF G kept_ok [OF 1] loop [unfolded restoreWithRetry_def]]
    show ?thesis
    proof (cases z)
      case None
      define st3 where "st3 = st2\<lparr>pm_active := gm_put slot k (pm_active st2),
                pm_restoredThreshold := (if slot = TypeVectorStore \<and> cf_Threshold (rc_Confirmations rec) \<noteq> None
                  then cf_Threshold (rc_Confirmations rec) else pm_restoredThreshold st2)\<rparr>"
      have r: "restored E slot rec st1 st2" using out None by simp
      then have ok3: "rok (pm_reg st3)" by (simp add: restored_def st3_def)
      have "t = audit E ''restore'' (Some rec) ''ok'' no_detail
           (logf E k ''restored as the active %s implementation'' [AStr (type_name slot)] st3)"
        using t None by (simp add: restore_done_def st3_def)
      then have "kept st3 t"
        using kept_trans [OF kept_logf [OF G ok3] kept_audit [OF G kept_ok [OF kept_logf [OF G ok3]]]] by blast
      then have "others_kept slot st t" "id_at (pm_active t) slot = k" "acts (pm_reg t) slot = Some k" "pm_slots t = pm_slots st2"
        using r 1 k(2) unfolding others_kept_def kept_def restored_def by (simp_all add: st3_def)
      moreover from r have "\<exists>sec a sl c s c1 s1 s2. openSecrets E rec = Inr sec \<and> mg_build E rec sec sl c s = (Inr a, c1, s1) \<and>
        probeHealth a s1 = (None, s2) \<and> slot_current (pm_slots st2) slot = Some a" unfolding restored_def by blast
      ultimately show ?thesis unfolding slot_restored_def by (metis (no_types))
    next
      case (Some e)
      define st3 where "st3 = logf E k ''RESTORE FAILED: %s'' [AErr e] st2"
      have 2: "kept st1 st2" using out Some by simp
      have 3: "kept st st3" unfolding st3_def
        by (rule kept_trans [OF kept_trans [OF 1 2] kept_logf [OF G kept_ok [OF 2]]])
      define st4 where "st4 = reg_set E k (\<lambda>r. r\<lparr>rc_Health := \<lparr>hl_Status = ''unhealthy'', hl_Message = (''%v'', [AErr e]), hl_CheckedAt = mg_now E\<rparr>,
                 rc_Active := False, rc_State := StateFailed,
                 rc_StateDetail := (''could not be restored at startup: %v'', [AErr e])\<rparr>) st3"
      have 4: "kept st st4" unfolding st4_def by (rule kept_trans [OF 3 kept_set [OF G kept_ok [OF 3]]])
      have sb: "\<not> stateBearing slot" "t = audit E ''restore'' (Some rec) ''failed'' (''%v'', [AErr e]) (snd (on_reg (rg_ClearActive (mg_G E) slot) st4))"
        using t Some by (auto simp: restore_failed_def st3_def st4_def Let_def split: if_splits)
      define st5 where "st5 = snd (on_reg (rg_ClearActive (mg_G E) slot) st4)"
      have 5: "others_kept slot st st5" "pm_active st5 = pm_active st4" "pm_slots st5 = pm_slots st4"
        using clear [OF 4] by (auto simp: st5_def on_reg_def split: prod.splits)
      then have "rok (pm_reg st5)" by (simp add: others_kept_def)
      from kept_audit [OF G this] have "kept st5 t" unfolding sb(2) st5_def [symmetric] .
      then show ?thesis using 5 4 sb(1) by (auto simp: others_kept_def kept_def)
    qed
  qed
qed

text \<open>All the slots, provided the registry can read the records it has.\<close>

lemma slots_outcome:
  assumes G: "mg_G E = G" and reads: "\<And>r k. rok r \<Longrightarrow> recs r k \<noteq> None \<Longrightarrow> res_ok (fst (rg_Get G k r))"
  shows "rok (pm_reg st) \<Longrightarrow> distinct slots \<Longrightarrow> restore_slots E R active slots n st = Some (None, m, t) \<Longrightarrow>
    (\<And>s. s \<in> set slots \<Longrightarrow> id_at active s \<noteq> [] \<Longrightarrow> acts (pm_reg st) s = Some (id_at active s) \<and> recs (pm_reg st) (id_at active s) \<noteq> None) \<Longrightarrow>
    rok (pm_reg t) \<and>
    (\<forall>s. s \<notin> set slots \<longrightarrow> acts (pm_reg t) s = acts (pm_reg st) s \<and> id_at (pm_active t) s = id_at (pm_active st) s \<and>
       slot_current (pm_slots t) s = slot_current (pm_slots st) s) \<and>
    (\<forall>s \<in> set slots. if id_at active s = [] then id_at (pm_active t) s = id_at (pm_active st) s \<and>
         slot_current (pm_slots t) s = slot_current (pm_slots st) s
       else slot_restored E s (id_at active s) t \<or>
         \<not> stateBearing s \<and> id_at (pm_active t) s = id_at (pm_active st) s \<and> slot_current (pm_slots t) s = slot_current (pm_slots st) s)"
proof (induction slots arbitrary: n st)
  case (Cons slot slots)
  obtain m1 st1 where one: "restore_slot E R (id_at active slot) slot n st = Some (None, m1, st1)"
    and rest: "restore_slots E R active slots m1 st1 = Some (None, m, t)"
    using Cons.prems(3) by (auto split: option.splits prod.splits)
  have step: "others_kept slot st st1 \<and> (if id_at active slot = [] then st1 = st else slot_restored E slot (id_at active slot) st1 \<or>
    \<not> stateBearing slot \<and> pm_active st1 = pm_active st \<and> slot_current (pm_slots st1) slot = slot_current (pm_slots st) slot)"
  proof (cases "id_at active slot = []")
    case True
    then show ?thesis using one Cons.prems(1) by (simp add: restore_slot_def others_kept_def)
  next
    case False
    with Cons.prems(4) [of slot] slot_outcome [OF G Cons.prems(1) False _ one] reads [OF Cons.prems(1), of "id_at active slot"]
    show ?thesis by (auto simp del: slot_current.simps)
  qed
  have ok1: "rok (pm_reg st1)" using step by (simp add: others_kept_def)
  have pre: "acts (pm_reg st1) s = Some (id_at active s) \<and> recs (pm_reg st1) (id_at active s) \<noteq> None"
    if "s \<in> set slots" "id_at active s \<noteq> []" for s
  proof -
    have "s \<noteq> slot" using that Cons.prems(2) by auto
    moreover have "dom (recs (pm_reg st1)) = dom (recs (pm_reg st))" using step by (simp add: others_kept_def)
    ultimately show ?thesis using Cons.prems(4) [of s] that step unfolding others_kept_def by (metis domIff list.set_intros(2))
  qed
  have "distinct slots" using Cons.prems(2) by simp
  note IH = Cons.IH [OF ok1 this rest pre]
  have slot: "slot \<notin> set slots" using Cons.prems(2) by simp
  show ?case
  proof (intro conjI ballI allI impI)
    show "rok (pm_reg t)" using IH by blast
  next
    fix s assume "s \<notin> set (slot # slots)"
    then have "s \<noteq> slot" "s \<notin> set slots" by auto
    with IH step show "acts (pm_reg t) s = acts (pm_reg st) s" "id_at (pm_active t) s = id_at (pm_active st) s"
      "slot_current (pm_slots t) s = slot_current (pm_slots st) s"
      unfolding others_kept_def by (simp_all del: slot_current.simps)
  next
    fix s assume s: "s \<in> set (slot # slots)"
    show "if id_at active s = [] then id_at (pm_active t) s = id_at (pm_active st) s \<and>
         slot_current (pm_slots t) s = slot_current (pm_slots st) s
       else slot_restored E s (id_at active s) t \<or>
         \<not> stateBearing s \<and> id_at (pm_active t) s = id_at (pm_active st) s \<and> slot_current (pm_slots t) s = slot_current (pm_slots st) s"
    proof (cases "s = slot")
      case True
      then show ?thesis using IH step slot unfolding slot_restored_def by (auto simp del: slot_current.simps split: if_splits)
    next
      case False
      then have "s \<in> set slots" using s by simp
      with IH False step show ?thesis unfolding others_kept_def by (auto simp del: slot_current.simps split: if_splits)
    qed
  qed
qed simp

end

lemma state_slots: "stateBearing s \<Longrightarrow> s \<in> set slotTypes"
  by (cases s) (auto simp: stateBearing_def slotTypes_def)


definition vector_mgr :: "(memory, unit, sdk_vs net, memoryStore \<times> memoryStore, manager, Job list) mgr_env" where
  "vector_mgr = demo_mgr\<lparr>mg_build := (\<lambda>rec sec sl c s. (Inr vector_candidate, c, s))\<rparr>"

definition selected_control :: demo_control where
  "selected_control = demo_control\<lparr>pm_reg := demo_registry\<lparr>
     me_recs := [(''plg_1'', (demo_record ''plg_1'' StateActive)\<lparr>rc_Type := TypeVectorStore, rc_Active := True\<rparr>)],
     me_active := [(TypeVectorStore, ''plg_1'')]\<rparr>\<rparr>"

definition demo_restore :: restore_env where
  "demo_restore = \<lparr>rv_now = int, rv_start = (\<lambda>n. int n - 1), rv_ctxErr = (\<lambda>_. False), rv_canceled = (\<lambda>_. False)\<rparr>"

lemma selected_control_ok:
  "mem_reg_ok (pm_reg selected_control)" "mem_acts (pm_reg selected_control) s = (if s = TypeVectorStore then Some ''plg_1'' else None)"
  "mem_recs (pm_reg selected_control) ''plg_1'' \<noteq> None"
  by (simp_all add: selected_control_def mem_reg_ok_def demo_registry_def NewMemory_def logs_ok_def mem_acts_def mem_recs_def
      gm_wf_def gm_get_def)


text \<open>One read that fails drops the selection. If the registry cannot read the record of the selected vector store
  (an error of the connection, say), restoration clears the selection and reports success; the slot keeps
  the built-in, although for such a component this is to be an error.\<close>
theorem one_failed_read_drops_selection:
  assumes "plugin_registry (mg_G E) rok recs acts" and "rok (pm_reg st)" and "requireEnabled E = None"
    and "rg_Active (mg_G E) (pm_reg st) = (Inr [(TypeVectorStore, k)], r1)" and "k \<noteq> []"
    and "rg_Get (mg_G E) k r1 = (Inl e, r2)" and "rg_ClearActive (mg_G E) TypeVectorStore r2 = (None, r3)"
  shows "\<exists>t. mgr_Restore E R st = Some (None, t) \<and> acts (pm_reg t) TypeVectorStore = None \<and>
    recs (pm_reg t) = recs (pm_reg st) \<and> pm_slots t = pm_slots st \<and> pm_active t = pm_active st"
proof -
  let ?t = "st\<lparr>pm_reg := r3\<rparr>"
  have "mgr_Restore E R st = Some (None, ?t)"
    using assms(3-7)
    by (simp add: mgr_Restore_def on_reg_def slotTypes_def restore_slot_def id_at_def reg_get_def gm_get_def)
  moreover have "rok r1 \<and> recs r1 = recs (pm_reg st)" using plugin_registry.active_state [OF assms(1,2,4)] by simp
  moreover from this have "rok r2 \<and> recs r2 = recs r1" using plugin_registry.get_state [OF assms(1) _ assms(6)] by simp
  ultimately show ?thesis using plugin_registry.clear_active [OF assms(1) _ assms(7)] by auto
qed

text \<open>A registry that answers no read of a record.\<close>

definition deaf_registry :: "memory registry_ops" where
  "deaf_registry = memory_registry\<lparr>rg_Get := (\<lambda>k s. (Inl (Sentinel ''redis: i/o timeout''), s))\<rparr>"

lemma deaf_registry_laws: "plugin_registry deaf_registry mem_reg_ok mem_recs mem_acts"
proof -
  have G: "rg_Get deaf_registry = (\<lambda>k s. (Inl (Sentinel ''redis: i/o timeout''), s))"
    "rg_List deaf_registry = rg_List memory_registry" "rg_Create deaf_registry = rg_Create memory_registry"
    "rg_Update deaf_registry = rg_Update memory_registry" "rg_Delete deaf_registry = rg_Delete memory_registry"
    "rg_Active deaf_registry = rg_Active memory_registry" "rg_SetActive deaf_registry = rg_SetActive memory_registry"
    "rg_ClearActive deaf_registry = rg_ClearActive memory_registry" "rg_AppendAudit deaf_registry = rg_AppendAudit memory_registry"
    "rg_AppendLog deaf_registry = rg_AppendLog memory_registry"
    by (simp_all add: deaf_registry_def)
  show ?thesis
    by (unfold_locales; unfold G;
        (simp; fail | (rule memory_reg.update_state; assumption) | (rule memory_reg.update_ok; assumption)
        | (rule memory_reg.set_active; assumption) | (rule memory_reg.clear_active; assumption)
        | (rule memory_reg.audit_state; assumption) | (rule memory_reg.log_state; assumption)
        | (rule memory_reg.list_state; assumption) | (rule memory_reg.list_ok; assumption)
        | (rule memory_reg.active_state; assumption) | (rule memory_reg.active_ok; assumption)
        | (rule memory_reg.create_state; assumption) | (rule memory_reg.delete_state; assumption)))
qed

theorem one_failed_read_drops_selection_witness:
  "\<exists>t. mgr_Restore (vector_mgr\<lparr>mg_G := deaf_registry\<rparr>) demo_restore selected_control = Some (None, t) \<and>
     mem_acts (pm_reg t) TypeVectorStore = None \<and> mem_recs (pm_reg t) ''plg_1'' \<noteq> None"
proof -
  let ?E = "vector_mgr\<lparr>mg_G := deaf_registry\<rparr>"
  have E: "plugin_registry (mg_G ?E) mem_reg_ok mem_recs mem_acts" "requireEnabled ?E = None"
    using deaf_registry_laws by (simp_all add: vector_mgr_def demo_mgr_def requireEnabled_def demo_config_def)
  have a: "rg_Active (mg_G ?E) (pm_reg selected_control) = (Inr [(TypeVectorStore, ''plg_1'')], pm_reg selected_control)"
    by (simp add: deaf_registry_def memory_registry_def selected_control_def)
  have g: "rg_Get (mg_G ?E) ''plg_1'' (pm_reg selected_control) = (Inl (Sentinel ''redis: i/o timeout''), pm_reg selected_control)"
    by (simp add: deaf_registry_def)
  have c: "rg_ClearActive (mg_G ?E) TypeVectorStore (pm_reg selected_control) = (None, mem_ClearActive TypeVectorStore (pm_reg selected_control))"
    by (simp add: deaf_registry_def memory_registry_def)
  from one_failed_read_drops_selection [OF E(1) selected_control_ok(1) E(2) a _ g c, of demo_restore] selected_control_ok(3)
  show ?thesis by auto
qed

text \<open>C16: restoration ends: if time passes between attempts, the retries of every slot stop, so \<open>Restore\<close> returns,
  whatever the plugins, the controller and the registry answer.\<close>
theorem restoration_ends:
  assumes "\<And>n. rv_now R n < rv_now R (Suc n)"
  shows "\<exists>x t. mgr_Restore E R st = Some (x, t)"
proof -
  have loop: "\<exists>x m t. restore_loop E R d slot rec n st = Some (x, m, t)" for d slot rec n and st :: "('a, 'b, 'c, 'd, 'e, 'f) control"
  proof (induction "nat (d + 1 - rv_now R n)" arbitrary: n st rule: less_induct)
    case less
    obtain z st1 where one: "restoreOne E slot rec st = (z, st1)" by fastforce
    show ?case
    proof (cases "\<exists>e. z = Some e \<and> \<not> d < rv_now R n")
      case False
      then show ?thesis by (subst restore_loop.simps) (cases z; simp add: one)
    next
      case True
      then have "nat (d + 1 - rv_now R (Suc n)) < nat (d + 1 - rv_now R n)" using assms [of n] by auto
      from less.hyps [OF this] show ?thesis by (subst restore_loop.simps) (cases z; simp add: one)
    qed
  qed
  have "\<exists>x m t. restore_slot E R k slot n st = Some (x, m, t)" for k slot n and st :: "('a, 'b, 'c, 'd, 'e, 'f) control"
  proof -
    obtain y st1 where g: "reg_get E k st = (y, st1)" by fastforce
    show ?thesis
    proof (cases y)
      case (Inr rec)
      obtain x m t where "restoreWithRetry E R slot rec n st1 = Some (x, m, t)"
        using loop unfolding restoreWithRetry_def by blast
      then show ?thesis using g Inr by (cases x) (auto simp: restore_slot_def split: prod.splits)
    qed (simp add: restore_slot_def g)
  qed
  then have "\<exists>x m t. restore_slots E R active slots n st = Some (x, m, t)" for active slots n and st :: "('a, 'b, 'c, 'd, 'e, 'f) control"
  proof (induction slots arbitrary: n st)
    case (Cons slot slots)
    obtain x m t where "restore_slot E R (id_at active slot) slot n st = Some (x, m, t)" using Cons.prems by blast
    then show ?case using Cons.IH [OF Cons.prems] by (cases x) auto
  qed simp
  then show ?thesis by (simp add: mgr_Restore_def split: prod.splits sum.splits) (metis option.map(2) prod.case)
qed

theorem restoration_ends_witness: "\<exists>x t. mgr_Restore (vector_mgr\<lparr>mg_G := deaf_registry\<rparr>) demo_restore demo_control = Some (x, t)"
  by (rule restoration_ends) (simp add: demo_restore_def)

end
