(* ===== verification/Install_Props.thy ===== *)
theory Install_Props
  imports Restore_Laws
begin

text \<open>
  Properties of requests, versions and installations, with their applications to a concrete manager.
\<close>

section \<open>The pipeline and the selection\<close>

lemma fail_is_error: "pipeline_fail E k e st \<noteq> (None, t)"
  by (simp add: pipeline_fail_def Let_def)

lemma to_state_ok:
  assumes "to_state E k s d st cont = (None, t)"
  shows "\<exists>r u. setState E k s d st = (Inr r, u) \<and> cont u = (None, t)"
  using assms by (auto simp: to_state_def split: prod.splits sum.splits)

context plugin_registry
begin

lemma settled_world: "rok (pm_reg st) \<Longrightarrow> settled st (st\<lparr>pm_ctl := c, pm_svc := s\<rparr>)" "rok (pm_reg st) \<Longrightarrow> settled st (st\<lparr>pm_ctl := c\<rparr>)"
  "rok (pm_reg st) \<Longrightarrow> settled st (st\<lparr>pm_svc := s\<rparr>)"
  by (simp_all add: settled_def)

lemma settled_on_world: "rok (pm_reg st) \<Longrightarrow> on_world f st = (x, t) \<Longrightarrow> settled st t"
  by (auto simp: on_world_def settled_def split: prod.splits)

lemma settled_lines:
  assumes "mg_G E = G"
  shows "rok (pm_reg st) \<Longrightarrow> settled st (fold (\<lambda>l u. logf E k f [AStr l] u) ls st)"
proof (induction ls arbitrary: st)
  case (Cons l ls)
  have "settled st (logf E k f [AStr l] st)" by (rule settled_logf [OF assms Cons.prems])
  with Cons.IH [OF settled_ok [OF this]] show ?case using settled_trans by simp
qed (simp add: settled_refl)

lemma settled_pipeline_fail:
  assumes G: "mg_G E = G" and ok: "rok (pm_reg st)" and run: "pipeline_fail E k e st = (x, t)"
  shows "settled st t"
proof -
  define st1 where "st1 = logf E k ''FAILED: %s'' [AErr e] st"
  have 1: "settled st st1" unfolding st1_def by (rule settled_logf [OF G ok])
  obtain y u where get: "reg_get E k st1 = (y, u)" by fastforce
  have 2: "settled st u" by (rule settled_trans [OF 1 settled_get [OF G settled_ok [OF 1] get]])
  define st2 where "st2 = (case y of Inl _ \<Rightarrow> u | Inr rec \<Rightarrow>
                (let v = audit E ''install'' (Some rec) ''failed'' (''%v'', [AErr e]) u
                 in case mg_ctl E of
                      Some C \<Rightarrow> if rc_Mode rec \<noteq> ModeEndpoint then v\<lparr>pm_ctl := snd (co_Stop C k (pm_ctl v))\<rparr> else v
                    | None \<Rightarrow> v))"
  have 3: "settled st st2"
  proof (cases y)
    case (Inr rec)
    have "settled st (audit E ''install'' (Some rec) ''failed'' (''%v'', [AErr e]) u)"
      by (rule settled_trans [OF 2 settled_audit [OF G settled_ok [OF 2]]])
    then show ?thesis using Inr by (auto simp: st2_def Let_def settled_def split: option.splits)
  qed (simp add: st2_def 2)
  have "t = reg_set E k (\<lambda>r. r\<lparr>rc_State := StateFailed, rc_StateDetail := (''%v'', [AErr e]),
            rc_Health := zero_health\<lparr>hl_Status := ''unknown''\<rparr>\<rparr>) st2"
    using run get by (simp add: pipeline_fail_def Let_def st1_def [symmetric] st2_def)
  then show ?thesis using settled_trans [OF 3 settled_set [OF G settled_ok [OF 3]]] by simp
qed

text \<open>A continuation that leaves the selection alone.\<close>

definition keeps :: "(('r, 'c, 'v, 's, 'p, 'e) control \<Rightarrow> goerr option \<times> ('r, 'c, 'v, 's, 'p, 'e) control) \<Rightarrow> bool" where
  "keeps f \<longleftrightarrow> (\<forall>u x t. rok (pm_reg u) \<longrightarrow> f u = (x, t) \<longrightarrow> settled u t)"

lemma keepsD: "keeps f \<Longrightarrow> rok (pm_reg u) \<Longrightarrow> f u = (x, t) \<Longrightarrow> settled u t"
  by (simp add: keeps_def)

lemma keeps_to_state:
  assumes "mg_G E = G" and "keeps cont"
  shows "keeps (\<lambda>st. to_state E k s d st cont)"
  unfolding keeps_def
proof (intro allI impI)
  fix st x t
  assume ok: "rok (pm_reg st)" and run: "to_state E k s d st cont = (x, t)"
  obtain y u where ss: "setState E k s d st = (y, u)" by fastforce
  note 1 = settled_setState [OF assms(1) ok ss]
  show "settled st t"
    using run ss 1 settled_trans [OF 1 keepsD [OF assms(2) settled_ok [OF 1]]] by (cases y) (auto simp: to_state_def)
qed

lemma keeps_verified: "mg_G E = G \<Longrightarrow> keeps (verified_step E k rec)"
  unfolding keeps_def
proof (intro allI impI)
  fix st x t
  assume G: "mg_G E = G" and ok: "rok (pm_reg st)" and run: "verified_step E k rec st = (x, t)"
  have "keeps (\<lambda>u. (None, logf E k ''verified; ready to activate'' [] u))"
    using settled_logf [OF G] by (simp add: keeps_def)
  note next_step = keepsD [OF keeps_to_state [OF G this]]
  obtain y u where up: "reg_update E k (\<lambda>r. Inr (r\<lparr>rc_Health := zero_health\<lparr>hl_Status := ''healthy'', hl_CheckedAt := mg_now E\<rparr>,
             rc_InstanceID := (if rc_Mode rec \<noteq> ModeEndpoint then rc_ID r else [])\<rparr>)) st = (y, u)" by fastforce
  note 1 = settled_update [OF G ok up]
  show "settled st t"
  proof (cases y)
    case (Inr r)
    then have "to_state E k StateVerified (''verified: contract tests and health check passed'', []) u
        (\<lambda>u. (None, logf E k ''verified; ready to activate'' [] u)) = (x, t)"
      using run up by (simp add: verified_step_def)
    from settled_trans [OF 1 next_step [OF settled_ok [OF 1] this]] show ?thesis .
  qed (use run up 1 in \<open>auto simp: verified_step_def\<close>)
qed

lemma keeps_health:
  assumes G: "mg_G E = G" and c: "keeps cont"
  shows "keeps (\<lambda>st. health_step L E k rec sec st cont)"
  unfolding health_step_def
proof (rule keeps_to_state [OF G], unfold keeps_def, intro allI impI)
  fix u x t
  assume ok: "rok (pm_reg u)" and run: "(case on_world (buildAdapter L E rec sec) u of
       (Inl e, st2) \<Rightarrow> pipeline_fail E k e st2
     | (Inr a, st2) \<Rightarrow>
         (case probeHealth a (pm_svc st2) of
            (Some e, s) \<Rightarrow> pipeline_fail E k (Errorf ''health check failed: %w'' [AWrap e]) (st2\<lparr>pm_svc := Close a s\<rparr>)
          | (None, s) \<Rightarrow> cont (st2\<lparr>pm_svc := Close a s\<rparr>))) = (x, t)"
  obtain y v where w: "on_world (buildAdapter L E rec sec) u = (y, v)" by fastforce
  note 1 = settled_on_world [OF ok w]
  show "settled u t"
  proof (cases y)
    case (Inl e)
    then show ?thesis using run w settled_trans [OF 1 settled_pipeline_fail [OF G settled_ok [OF 1]]] by simp
  next
    case (Inr a)
    obtain p s where p: "probeHealth a (pm_svc v) = (p, s)" by fastforce
    have 2: "settled u (v\<lparr>pm_svc := Close a s\<rparr>)" by (rule settled_trans [OF 1 settled_world(3) [OF settled_ok [OF 1]]])
    show ?thesis
      using run w p Inr settled_trans [OF 2 settled_pipeline_fail [OF G settled_ok [OF 2]]] settled_trans [OF 2 keepsD [OF c settled_ok [OF 2]]]
      by (cases p) simp_all
  qed
qed

lemma keeps_test:
  assumes G: "mg_G E = G" and c: "keeps cont"
  shows "keeps (\<lambda>st. test_step L E k rec sec st cont)"
  unfolding test_step_def
proof (rule keeps_to_state [OF G], unfold keeps_def, intro allI impI)
  fix u x t
  assume ok: "rok (pm_reg u)" and run: "(case on_world (runContract L E rec sec) u of
       (Inl e, st2) \<Rightarrow> pipeline_fail E k (Errorf ''contract tests could not run: %w'' [AWrap e]) st2
     | (Inr v, st2) \<Rightarrow>
         (let st3 = logf E k ''%s'' (snd (vf_Summary v)) (reg_set E k (\<lambda>r. r\<lparr>rc_Verification := Some v\<rparr>) st2)
          in if \<not> vf_Passed v then pipeline_fail E k (Errorf ''%s'' (snd (vf_Summary v))) st3 else cont st3)) = (x, t)"
  obtain y v where w: "on_world (runContract L E rec sec) u = (y, v)" by fastforce
  note 1 = settled_on_world [OF ok w]
  show "settled u t"
  proof (cases y)
    case (Inl e)
    then show ?thesis using run w settled_trans [OF 1 settled_pipeline_fail [OF G settled_ok [OF 1]]] by simp
  next
    case (Inr a)
    note 2 = settled_trans [OF 1 settled_set [OF G settled_ok [OF 1], of k "\<lambda>r. r\<lparr>rc_Verification := Some a\<rparr>"]]
    note 3 = settled_trans [OF 2 settled_logf [OF G settled_ok [OF 2], of k "''%s''" "snd (vf_Summary a)"]]
    show ?thesis
      using run w Inr settled_trans [OF 3 settled_pipeline_fail [OF G settled_ok [OF 3]]] settled_trans [OF 3 keepsD [OF c settled_ok [OF 3]]]
      by (simp add: Let_def split: if_splits)
  qed
qed

lemma keeps_start:
  assumes G: "mg_G E = G" and c: "keeps cont"
  shows "keeps (\<lambda>st. start_step L E k rec sec st cont)"
  unfolding start_step_def
proof (rule keeps_to_state [OF G], unfold keeps_def, intro allI impI)
  fix u x t
  assume ok: "rok (pm_reg u)" and run: "(case on_world (ensureInstance L E rec sec) (logf E k ''starting candidate container'' [] u) of
       (Inl e, st2) \<Rightarrow> pipeline_fail E k e st2 | (Inr _, st2) \<Rightarrow> cont st2) = (x, t)"
  obtain y v where w: "on_world (ensureInstance L E rec sec) (logf E k ''starting candidate container'' [] u) = (y, v)" by fastforce
  note 0 = settled_logf [OF G ok, of k "''starting candidate container''" "[]"]
  note 1 = settled_trans [OF 0 settled_on_world [OF settled_ok [OF 0] w]]
  show "settled u t"
    using run w settled_trans [OF 1 settled_pipeline_fail [OF G settled_ok [OF 1]]] settled_trans [OF 1 keepsD [OF c settled_ok [OF 1]]]
    by (cases y) simp_all
qed

end

context plugin_registry
begin

lemma keeps_prepare:
  assumes G: "mg_G E = G" and c: "\<And>r. keeps (cont r)"
  shows "keeps (\<lambda>st. prepare_step L E k rec sec st cont)"
  unfolding prepare_step_def
proof (rule keeps_to_state [OF G], unfold keeps_def, intro allI impI, goal_cases)
  case (1 u x t)
  note ok = 1(1) and run = 1(2)
  note stop = settled_pipeline_fail [OF G]
  show "settled u t"
  proof (cases "mg_ctl E")
    case None
    then show ?thesis using run settled_refl [OF ok] by simp
  next
    case (Some C)
    obtain y c1 where p: "co_Prepare C \<lparr>pq_Mode = rc_Mode rec, pq_Type = rc_Type rec, pq_Image = so_ImageRef (rc_Source rec),
              pq_Repo = so_RepoURL (rc_Source rec), pq_Revision = so_Revision (rc_Source rec), pq_Manifest = manifestText L rec,
              pq_DryRun = False, pq_PluginID = rc_ID rec\<rparr> (pm_ctl u) = (y, c1)" by fastforce
    note 1 = settled_world(2) [OF ok, of c1]
    show ?thesis
    proof (cases y)
      case (Inl e)
      then show ?thesis using run Some p settled_trans [OF 1 stop [OF settled_ok [OF 1]]] by simp
    next
      case (Inr pr)
      define u2 where "u2 = fold (\<lambda>l u. logf E k ''controller: %s'' [AStr l] u) (ps_Log pr) (u\<lparr>pm_ctl := c1\<rparr>)"
      have 2: "settled u u2" unfolding u2_def by (rule settled_trans [OF 1 settled_lines [OF G settled_ok [OF 1]]])
      note run = run [unfolded Some option.case p prod.case Inr sum.case Let_def, folded u2_def]
      show ?thesis
      proof (cases "accept_prepared L rec sec pr")
        case (Inl e)
        then show ?thesis using run settled_trans [OF 2 stop [OF settled_ok [OF 2]]] by simp
      next
        case acc: (Inr mc)
        obtain mf cfg where mc: "mc = (mf, cfg)" by fastforce
        obtain z u3 where up: "reg_update E k (\<lambda>r. Inr (pin_image pr mf cfg r)) u2 = (z, u3)" by fastforce
        note 3 = settled_trans [OF 2 settled_update [OF G settled_ok [OF 2] up]]
        obtain w u4 where ss: "setState E k StateScanning (''scanned'', []) u3 = (w, u4)" by fastforce
        note 4 = settled_trans [OF 3 settled_setState [OF G settled_ok [OF 3] ss]]
        note 5 = settled_trans [OF 4 settled_logf [OF G settled_ok [OF 4], of k "''image pinned to %s''" "[AStr (ps_Digest pr)]"]]
        obtain q u6 where get: "reg_get E k (logf E k ''image pinned to %s'' [AStr (ps_Digest pr)] u4) = (q, u6)" by fastforce
        note 6 = settled_trans [OF 5 settled_get [OF G settled_ok [OF 5] get]]
        note last = settled_trans [OF 6 keepsD [OF c settled_ok [OF 6]]]
        note run = run [unfolded acc mc sum.case prod.case up]
        show ?thesis
        proof (cases "\<exists>r. z = Inr r \<and> (res_ok w \<or> rc_Mode rec \<noteq> ModeRepository)")
          case False
          then show ?thesis using run 3 4 ss by (cases z; cases w) (auto split: if_splits)
        next
          case True
          then show ?thesis using run ss get 6 last by (cases q) auto
        qed
      qed
    qed
  qed
qed

lemma keeps_rest:
  assumes G: "mg_G E = G"
  shows "keeps (\<lambda>st. test_step L E k rec sec st (\<lambda>st. health_step L E k rec sec st (\<lambda>st. verified_step E k rec st)))"
  by (rule keeps_test [OF G keeps_health [OF G keeps_verified [OF G]]])

lemma pipeline_settled:
  assumes G: "mg_G E = G" and ok: "rok (pm_reg st)" and run: "pipeline L E k st = (x, t)"
  shows "settled st t"
proof -
  obtain y st1 where get: "reg_get E k st = (y, st1)" by fastforce
  note 1 = settled_get [OF G ok get]
  show ?thesis
  proof (cases y)
    case (Inl e)
    then show ?thesis using run get 1 by (simp add: pipeline_def)
  next
    case (Inr rec)
    show ?thesis
    proof (cases "openSecrets E rec")
      case (Inl e)
      then show ?thesis using run get Inr settled_trans [OF 1 settled_pipeline_fail [OF G settled_ok [OF 1]]] by (simp add: pipeline_def)
    next
      case sec: (Inr sec)
      let ?rest = "\<lambda>rec st. test_step L E k rec sec st (\<lambda>st. health_step L E k rec sec st (\<lambda>st. verified_step E k rec st))"
      have "keeps (\<lambda>st2. let st3 = logf E k ''validating manifest and configuration'' [] st2; rest = ?rest
          in if rc_Mode rec = ModeEndpoint then rest rec st3
             else prepare_step L E k rec sec st3 (\<lambda>rec1 st4.
               if rc_Mode rec1 \<noteq> ModeEndpoint then start_step L E k rec1 sec st4 (rest rec1) else rest rec1 st4))"
        unfolding keeps_def Let_def
      proof (intro allI impI)
        fix u x t
        assume oku: "rok (pm_reg u)" and run: "(if rc_Mode rec = ModeEndpoint then ?rest rec (logf E k ''validating manifest and configuration'' [] u)
             else prepare_step L E k rec sec (logf E k ''validating manifest and configuration'' [] u) (\<lambda>rec1 st4.
               if rc_Mode rec1 \<noteq> ModeEndpoint then start_step L E k rec1 sec st4 (?rest rec1) else ?rest rec1 st4)) = (x, t)"
        note a = settled_logf [OF G oku, of k "''validating manifest and configuration''" "[]"]
        have "keeps (\<lambda>st4. if rc_Mode rec1 \<noteq> ModeEndpoint then start_step L E k rec1 sec st4 (?rest rec1) else ?rest rec1 st4)" for rec1
          by (cases "rc_Mode rec1 \<noteq> ModeEndpoint") (simp_all add: keeps_start [OF G keeps_rest [OF G]] keeps_rest [OF G])
        note p = keeps_prepare [OF G this]
        show "settled u t"
          using run settled_trans [OF a keepsD [OF keeps_rest [OF G] settled_ok [OF a]]] settled_trans [OF a keepsD [OF p settled_ok [OF a]]]
          by (auto split: if_splits)
      qed
      note final_step = keepsD [OF keeps_to_state [OF G this] settled_ok [OF 1]]
      show ?thesis
        by (rule settled_trans [OF 1 final_step]) (rule run [unfolded pipeline_def get prod.case Inr sum.case sec])
    qed
  qed
qed

text \<open>A pipeline that ends well.\<close>

lemma setState_ok:
  assumes "mg_G E = G" and "rok (pm_reg st)" and "setState E k s d st = (Inr r, t)"
  shows "rok (pm_reg t) \<and> (\<exists>new. recs (pm_reg t) k = Some new \<and> rc_State new = s)"
proof -
  note u = update_ok [OF assms(2)] update_state [OF assms(2)]
  have "rg_Update G k (\<lambda>r. if \<not> ValidTransition (rc_State r) s
       then Inl (Errorf ''illegal lifecycle transition %s -> %s'' [])
       else Inr (r\<lparr>rc_State := s, rc_StateDetail := d\<rparr>)) (pm_reg st) = (Inr r, pm_reg t)"
    using assms(1,3) by (auto simp: setState_def reg_update_def on_reg_iff)
  from u(1) [OF this] u(2) [OF this] show ?thesis
    by (auto simp: updates_def record_copy_def split: if_splits)
qed

lemma rest_ok:
  assumes G: "mg_G E = G" and ok: "rok (pm_reg st)"
    and run: "test_step L E k rec sec st (\<lambda>st. health_step L E k rec sec st (\<lambda>st. verified_step E k rec st)) = (None, t)"
  shows "(\<exists>cl s rep s1. il_contract L (contract_of rec cl) s = (rep, s1) \<and> Passed rep) \<and>
    (\<exists>sl c s a c1 s1. buildAdapter L E rec sec sl c s = (Inr a, c1, s1) \<and> fst (probeHealth a s1) = None) \<and>
    (\<exists>r. recs (pm_reg t) k = Some r \<and> rc_State r = StateVerified)"
proof -
  obtain u where ss: "\<exists>r. setState E k StateTesting (''running contract tests'', []) st = (Inr r, u)"
    and r1: "(case on_world (runContract L E rec sec) u of
       (Inl e, st2) \<Rightarrow> pipeline_fail E k (Errorf ''contract tests could not run: %w'' [AWrap e]) st2
     | (Inr v, st2) \<Rightarrow>
         (let st3 = logf E k ''%s'' (snd (vf_Summary v)) (reg_set E k (\<lambda>r. r\<lparr>rc_Verification := Some v\<rparr>) st2)
          in if \<not> vf_Passed v then pipeline_fail E k (Errorf ''%s'' (snd (vf_Summary v))) st3
             else health_step L E k rec sec st3 (\<lambda>st. verified_step E k rec st))) = (None, t)"
    using to_state_ok [OF run [unfolded test_step_def]] by blast
  have 1: "settled st u" using ss settled_setState [OF G ok] by blast
  obtain y u2 where w: "on_world (runContract L E rec sec) u = (y, u2)" by fastforce
  then obtain v where v: "y = Inr v" "vf_Passed v"
    and r2: "health_step L E k rec sec (logf E k ''%s'' (snd (vf_Summary v)) (reg_set E k (\<lambda>r. r\<lparr>rc_Verification := Some v\<rparr>) u2))
        (\<lambda>st. verified_step E k rec st) = (None, t)"
    using r1 by (cases y) (auto simp: Let_def fail_is_error split: if_splits)
  obtain cl s rep s1 where rep: "il_contract L (contract_of rec cl) s = (rep, s1)" "Passed rep"
    using w v by (auto simp: on_world_def runContract_def split: prod.splits sum.splits)
  note 2 = settled_trans [OF 1 settled_on_world [OF settled_ok [OF 1] w]]
  note 3 = settled_trans [OF 2 settled_set [OF G settled_ok [OF 2], of k "\<lambda>r. r\<lparr>rc_Verification := Some v\<rparr>"]]
  note 4 = settled_trans [OF 3 settled_logf [OF G settled_ok [OF 3], of k "''%s''" "snd (vf_Summary v)"]]
  obtain u5 where ss5: "\<exists>r. setState E k StateChecking (''checking health'', [])
        (logf E k ''%s'' (snd (vf_Summary v)) (reg_set E k (\<lambda>r. r\<lparr>rc_Verification := Some v\<rparr>) u2)) = (Inr r, u5)"
    and r5: "(case on_world (buildAdapter L E rec sec) u5 of
       (Inl e, st2) \<Rightarrow> pipeline_fail E k e st2
     | (Inr a, st2) \<Rightarrow>
         (case probeHealth a (pm_svc st2) of
            (Some e, s) \<Rightarrow> pipeline_fail E k (Errorf ''health check failed: %w'' [AWrap e]) (st2\<lparr>pm_svc := Close a s\<rparr>)
          | (None, s) \<Rightarrow> verified_step E k rec (st2\<lparr>pm_svc := Close a s\<rparr>))) = (None, t)"
    using to_state_ok [OF r2 [unfolded health_step_def]] by blast
  have 5: "settled st u5" using ss5 settled_trans [OF 4 settled_setState [OF G settled_ok [OF 4]]] by blast
  obtain z u6 where w6: "on_world (buildAdapter L E rec sec) u5 = (z, u6)" by fastforce
  then obtain a where a: "z = Inr a" using r5 by (cases z) (auto simp: fail_is_error)
  obtain p s6 where p: "probeHealth a (pm_svc u6) = (p, s6)" by fastforce
  then have pn: "p = None" and r6: "verified_step E k rec (u6\<lparr>pm_svc := Close a s6\<rparr>) = (None, t)"
    using r5 w6 a by (cases p; auto simp: fail_is_error)+
  obtain c6 s7 where b: "buildAdapter L E rec sec (pm_slots u5) (pm_ctl u5) (pm_svc u5) = (Inr a, c6, s7)" "s7 = pm_svc u6"
    using w6 a by (auto simp: on_world_def split: prod.splits)
  note 6 = settled_trans [OF 5 settled_on_world [OF settled_ok [OF 5] w6]]
  note 7 = settled_trans [OF 6 settled_world(3) [OF settled_ok [OF 6], of "Close a s6"]]
  obtain r8 u8 where up: "reg_update E k (\<lambda>r. Inr (r\<lparr>rc_Health := zero_health\<lparr>hl_Status := ''healthy'', hl_CheckedAt := mg_now E\<rparr>,
             rc_InstanceID := (if rc_Mode rec \<noteq> ModeEndpoint then rc_ID r else [])\<rparr>)) (u6\<lparr>pm_svc := Close a s6\<rparr>) = (Inr r8, u8)"
    and r8: "to_state E k StateVerified (''verified: contract tests and health check passed'', []) u8
        (\<lambda>u. (None, logf E k ''verified; ready to activate'' [] u)) = (None, t)"
    using r6 by (auto simp: verified_step_def split: prod.splits sum.splits)
  note 8 = settled_trans [OF 7 settled_update [OF G settled_ok [OF 7] up]]
  obtain r9 u9 where ss9: "setState E k StateVerified (''verified: contract tests and health check passed'', []) u8 = (Inr r9, u9)"
    and t: "t = logf E k ''verified; ready to activate'' [] u9"
    using to_state_ok [OF r8] by auto
  from setState_ok [OF G settled_ok [OF 8] ss9] obtain new where new: "rok (pm_reg u9)" "recs (pm_reg u9) k = Some new" "rc_State new = StateVerified"
    by blast
  have "recs (pm_reg t) = recs (pm_reg u9)"
    using log_state [OF new(1)] G unfolding t logf_def by (auto simp: on_reg_def split: prod.splits)
  then have "recs (pm_reg t) k = Some new" using new by simp
  moreover have "buildAdapter L E rec sec (pm_slots u5) (pm_ctl u5) (pm_svc u5) = (Inr a, c6, s7) \<and> fst (probeHealth a s7) = None"
    using b p pn by simp
  ultimately show ?thesis using rep new(3) by blast
qed

end

context plugin_registry
begin

lemma prepare_ok:
  assumes G: "mg_G E = G" and ok: "rok (pm_reg st)" and run: "prepare_step L E k rec sec st cont = (None, t)"
  shows "\<exists>rec1 v. rok (pm_reg v) \<and> cont rec1 v = (None, t)"
proof -
  obtain r u where ss: "setState E k (if rc_Mode rec = ModeRepository then StateBuilding else StateScanning) (''preparing image'', []) st = (Inr r, u)"
    and run: "(case mg_ctl E of
       None \<Rightarrow> (Some nil_pointer, u)
     | Some C \<Rightarrow>
         (case co_Prepare C \<lparr>pq_Mode = rc_Mode rec, pq_Type = rc_Type rec, pq_Image = so_ImageRef (rc_Source rec),
              pq_Repo = so_RepoURL (rc_Source rec), pq_Revision = so_Revision (rc_Source rec), pq_Manifest = manifestText L rec,
              pq_DryRun = False, pq_PluginID = rc_ID rec\<rparr> (pm_ctl u) of
            (Inl e, c) \<Rightarrow> pipeline_fail E k (Errorf ''prepare: %w'' [AWrap e]) (u\<lparr>pm_ctl := c\<rparr>)
          | (Inr pr, c) \<Rightarrow>
              (let st2 = fold (\<lambda>l u. logf E k ''controller: %s'' [AStr l] u) (ps_Log pr) (u\<lparr>pm_ctl := c\<rparr>)
               in case accept_prepared L rec sec pr of
                    Inl e \<Rightarrow> pipeline_fail E k e st2
                  | Inr (mf, cfg) \<Rightarrow>
                      (case reg_update E k (\<lambda>r. Inr (pin_image pr mf cfg r)) st2 of
                         (Inl e, st3) \<Rightarrow> (Some e, st3)
                       | (Inr _, st3) \<Rightarrow>
                           (case setState E k StateScanning (''scanned'', []) st3 of
                              (x, st4) \<Rightarrow>
                                if \<not> res_ok x \<and> rc_Mode rec = ModeRepository
                                then (case x of Inl e \<Rightarrow> (Some e, st4) | Inr _ \<Rightarrow> (None, st4))
                                else (case reg_get E k (logf E k ''image pinned to %s'' [AStr (ps_Digest pr)] st4) of
                                        (Inl _, st5) \<Rightarrow> (Some nil_pointer, st5)
                                      | (Inr rec1, st5) \<Rightarrow> cont rec1 st5)))))) = (None, t)"
    using to_state_ok [OF run [unfolded prepare_step_def]] by blast
  note 1 = settled_setState [OF G ok ss]
  obtain C where C: "mg_ctl E = Some C" using run by (cases "mg_ctl E") auto
  obtain y c1 where p: "co_Prepare C \<lparr>pq_Mode = rc_Mode rec, pq_Type = rc_Type rec, pq_Image = so_ImageRef (rc_Source rec),
              pq_Repo = so_RepoURL (rc_Source rec), pq_Revision = so_Revision (rc_Source rec), pq_Manifest = manifestText L rec,
              pq_DryRun = False, pq_PluginID = rc_ID rec\<rparr> (pm_ctl u) = (y, c1)" by fastforce
  obtain pr where y: "y = Inr pr" using run C p by (cases y) (auto simp: fail_is_error)
  define u2 where "u2 = fold (\<lambda>l u. logf E k ''controller: %s'' [AStr l] u) (ps_Log pr) (u\<lparr>pm_ctl := c1\<rparr>)"
  note 2 = settled_trans [OF 1 settled_world(2) [OF settled_ok [OF 1], of c1]]
  have 3: "settled st u2" unfolding u2_def by (rule settled_trans [OF 2 settled_lines [OF G settled_ok [OF 2]]])
  note run = run [unfolded C option.case p prod.case y sum.case Let_def, folded u2_def]
  obtain mf cfg where acc: "accept_prepared L rec sec pr = Inr (mf, cfg)"
    using run by (cases "accept_prepared L rec sec pr") (auto simp: fail_is_error)
  obtain z u3 where up: "reg_update E k (\<lambda>r. Inr (pin_image pr mf cfg r)) u2 = (z, u3)" by fastforce
  note 4 = settled_trans [OF 3 settled_update [OF G settled_ok [OF 3] up]]
  obtain w u4 where s4: "setState E k StateScanning (''scanned'', []) u3 = (w, u4)" by fastforce
  note 5 = settled_trans [OF 4 settled_setState [OF G settled_ok [OF 4] s4]]
  note 6 = settled_trans [OF 5 settled_logf [OF G settled_ok [OF 5], of k "''image pinned to %s''" "[AStr (ps_Digest pr)]"]]
  obtain q u6 where get: "reg_get E k (logf E k ''image pinned to %s'' [AStr (ps_Digest pr)] u4) = (q, u6)" by fastforce
  note 7 = settled_trans [OF 6 settled_get [OF G settled_ok [OF 6] get]]
  have "\<exists>rec1. cont rec1 u6 = (None, t)"
    using run acc up s4 get by (cases z; cases w; cases q) (auto split: if_splits)
  then show ?thesis using settled_ok [OF 7] by blast
qed

lemma start_ok:
  assumes G: "mg_G E = G" and ok: "rok (pm_reg st)" and run: "start_step L E k rec sec st cont = (None, t)"
  shows "\<exists>v. rok (pm_reg v) \<and> cont v = (None, t)"
proof -
  obtain r u where ss: "setState E k StateStarting (''starting isolated candidate'', []) st = (Inr r, u)"
    and run: "(case on_world (ensureInstance L E rec sec) (logf E k ''starting candidate container'' [] u) of
       (Inl e, st2) \<Rightarrow> pipeline_fail E k e st2 | (Inr _, st2) \<Rightarrow> cont st2) = (None, t)"
    using to_state_ok [OF run [unfolded start_step_def]] by blast
  note 1 = settled_setState [OF G ok ss]
  note 2 = settled_trans [OF 1 settled_logf [OF G settled_ok [OF 1], of k "''starting candidate container''" "[]"]]
  obtain y v where w: "on_world (ensureInstance L E rec sec) (logf E k ''starting candidate container'' [] u) = (y, v)" by fastforce
  note 3 = settled_trans [OF 2 settled_on_world [OF settled_ok [OF 2] w]]
  have "cont v = (None, t)" using run w by (cases y) (auto simp: fail_is_error)
  then show ?thesis using settled_ok [OF 3] by blast
qed

end



text \<open>The libraries of a concrete manager: every image has the manifest of \<open>demo_yaml\<close>, every suite passes.\<close>

definition demo_url :: url where
  "demo_url = \<lparr>ur_Scheme = ''https'', ur_Host = ''plugin.example.com'', ur_Hostname = ''plugin.example.com'', ur_User = False,
     ur_RawQuery = [], ur_ForceQuery = False, ur_Fragment = [], ur_Path = []\<rparr>"

definition demo_req_lib :: req_lib where
  "demo_req_lib = \<lparr>ql_yaml = demo_yaml,
     ql_url = \<lparr>ul_Parse = (\<lambda>s. if has_prefix s ''https://plugin.example.com'' then Some demo_url else None), ul_Addr = (\<lambda>_. None),
       ul_String = (\<lambda>u. ur_Scheme u @ ''://'' @ ur_Host u @ ur_Path u)\<rparr>,
     ql_render = (\<lambda>_. [])\<rparr>"

definition demo_lib :: "(sdk_vs net, memoryStore \<times> memoryStore, manager, Job list) inst_lib" where
  "demo_lib = \<lparr>il_req = demo_req_lib, il_marshal = (\<lambda>_. Inr ''kind: Plugin''), il_show = (\<lambda>_. []),
     il_adapter = (\<lambda>ty c m s. (Inr ((no_adapter 21)\<lparr>ad_llm := Some demo_llm\<rparr>), s)),
     il_contract = (\<lambda>tg s. ([(''replies'', Pass)], s))\<rparr>"

definition demo_request :: install_request where
  "demo_request = \<lparr>ir_Type = ''llm'', ir_Mode = ''endpoint'', ir_Name = ''demo'', ir_Version = [], ir_Manifest = [],
     ir_Endpoint = ''https://plugin.example.com'', ir_Image = [], ir_Repo = [], ir_Revision = [], ir_Config = None,
     ir_Secrets = [(''ENDPOINT_TOKEN'', ''s3cret'')], ir_Activate = False, ir_Confirmations = None\<rparr>"

definition demo_random :: string where "demo_random = ''12345678''"

definition demo_installed :: "started res \<times> demo_control" where
  "demo_installed = mgr_Install demo_lib demo_mgr demo_random (\<lambda>_. Inr demo_nonce) demo_request demo_control"

definition demo_id :: string where "demo_id = newID demo_random"

section \<open>Secrets of an installation\<close>

text \<open>The loops that build a map from the pairs of another one, stopping at the first error.\<close>

definition fill_map :: "('k \<Rightarrow> 'a \<Rightarrow> 'b res) \<Rightarrow> ('k \<times> 'a) list \<Rightarrow> ('k, 'b) gomap res \<Rightarrow> ('k, 'b) gomap res" where
  "fill_map f xs acc = foldl (\<lambda>acc (k, v). res_bind acc (\<lambda>out. res_bind (f k v) (\<lambda>w. Inr (gm_put k w out)))) acc xs"

lemma fill_map_error: "fill_map f xs (Inl e) = Inl e"
  by (induction xs) (auto simp: fill_map_def)

lemma fill_map_ok:
  "fill_map f xs (Inr acc) = Inr out \<Longrightarrow> distinct (map fst acc @ map fst xs) \<Longrightarrow>
    \<exists>ys. out = acc @ ys \<and> list_all2 (\<lambda>(k, v) (j, w). j = k \<and> f k v = Inr w) xs ys"
proof (induction xs arbitrary: acc)
  case Nil
  then show ?case by (simp add: fill_map_def)
next
  case (Cons x xs)
  obtain k v where x: "x = (k, v)" by fastforce
  have go: "fill_map f (x # xs) (Inr acc) = fill_map f xs (res_bind (f k v) (\<lambda>w. Inr (gm_put k w acc)))"
    by (simp add: fill_map_def x)
  then obtain w where w: "f k v = Inr w"
    using Cons.prems(1) by (cases "f k v") (auto simp: fill_map_error)
  have "k \<notin> set (map fst acc)" using Cons.prems(2) x by auto
  then have put: "gm_put k w acc = acc @ [(k, w)]"
    by (induction acc) (auto simp: gm_put_def)
  have d: "distinct (map fst (acc @ [(k, w)]) @ map fst xs)" using Cons.prems(2) x by auto
  from Cons.IH [OF _ d] Cons.prems(1) go w put
  obtain ys where "out = (acc @ [(k, w)]) @ ys" "list_all2 (\<lambda>(k, v) (j, w). j = k \<and> f k v = Inr w) xs ys" by auto
  then show ?case using w x by (intro exI [of _ "(k, w) # ys"]) simp
qed

lemma fill_map_total:
  "list_all2 (\<lambda>(k, v) (j, w). j = k \<and> f k v = Inr w) xs ys \<Longrightarrow> distinct (map fst acc @ map fst xs) \<Longrightarrow>
    fill_map f xs (Inr acc) = Inr (acc @ ys)"
proof (induction xs arbitrary: acc ys)
  case (Cons x xs)
  then obtain k v w zs where x: "x = (k, v)" "ys = (k, w) # zs" "f k v = Inr w"
    "list_all2 (\<lambda>(k, v) (j, w). j = k \<and> f k v = Inr w) xs zs"
    by (cases x) (auto simp: list_all2_Cons1)
  have "k \<notin> set (map fst acc)" using Cons.prems(2) x by auto
  then have put: "gm_put k w acc = acc @ [(k, w)]"
    by (induction acc) (auto simp: gm_put_def)
  have "distinct (map fst (acc @ [(k, w)]) @ map fst xs)" using Cons.prems(2) x by auto
  from Cons.IH [OF x(4) this] show ?case using x put by (simp add: fill_map_def)
qed (simp add: fill_map_def)

lemma sealInto_fill:
  "mg_box E = Some b \<Longrightarrow> sealInto E nonce rec sec =
     res_bind (fill_map (\<lambda>n v. case Seal b (nonce n) (rc_ID rec) n v of
         Inl e \<Rightarrow> Inl (Errorf ''encrypt secret %s: %w'' [AStr n, AWrap e]) | Inr s \<Rightarrow> Inr s) sec (Inr []))
       (\<lambda>out. Inr (if sec = [] then rec else rec\<lparr>rc_Secrets := out\<rparr>))"
proof -
  have f: "(\<lambda>acc (name, v). res_bind acc (\<lambda>out. case Seal b (nonce name) (rc_ID rec) name v of
              Inl e \<Rightarrow> Inl (Errorf ''encrypt secret %s: %w'' [AStr name, AWrap e])
            | Inr s \<Rightarrow> Inr (gm_put name s out))) =
     (\<lambda>acc (k, v). res_bind acc (\<lambda>out. res_bind (case Seal b (nonce k) (rc_ID rec) k v of
         Inl e \<Rightarrow> Inl (Errorf ''encrypt secret %s: %w'' [AStr k, AWrap e]) | Inr s \<Rightarrow> Inr s) (\<lambda>w. Inr (gm_put k w out))))"
    by (intro ext) (auto simp: res_bind_def split: sum.splits)
  assume "mg_box E = Some b"
  then show ?thesis by (simp add: sealInto_def fill_map_def f)
qed

lemma openSecrets_fill:
  "mg_box E = Some b \<Longrightarrow> openSecrets E rec =
     fill_map (\<lambda>n s. case Open b (rc_ID rec) n s of Inl e \<Rightarrow> Inl (Errorf ''secret %s: %w'' [AStr n, AWrap e]) | Inr v \<Rightarrow> Inr v)
       (rc_Secrets rec) (Inr [])"
proof -
  have f: "(\<lambda>acc (name, s). res_bind acc (\<lambda>out. case Open b (rc_ID rec) name s of
              Inl e \<Rightarrow> Inl (Errorf ''secret %s: %w'' [AStr name, AWrap e])
            | Inr v \<Rightarrow> Inr (gm_put name v out))) =
     (\<lambda>acc (k, v). res_bind acc (\<lambda>out. res_bind (case Open b (rc_ID rec) k v of
         Inl e \<Rightarrow> Inl (Errorf ''secret %s: %w'' [AStr k, AWrap e]) | Inr s \<Rightarrow> Inr s) (\<lambda>w. Inr (gm_put k w out))))"
    by (intro ext) (auto simp: res_bind_def split: sum.splits)
  assume "mg_box E = Some b"
  then show ?thesis by (simp add: openSecrets_def fill_map_def f)
qed

lemma sealed_opens:
  assumes "authentic (bx_aead b)" and "\<And>r. random = Inr r \<Longrightarrow> length r = ae_NonceSize (bx_aead b)"
    and "Seal b random i n v = Inr s"
  shows "Open b i n s = Inr v"
  using assms by (auto simp: Seal_def Open_def authentic_def split: sum.splits)

lemma sealed_record_opens:
  assumes "mg_box E = Some b" and "authentic (bx_aead b)" and "\<And>n r. nonce n = Inr r \<Longrightarrow> length r = ae_NonceSize (bx_aead b)"
    and "distinct (map fst sec)" and "rc_Secrets rec = []" and "sealInto E nonce rec sec = Inr rec1"
    and "rc_ID rec2 = rc_ID rec" and "rc_Secrets rec2 = rc_Secrets rec1"
  shows "openSecrets E rec2 = Inr sec"
proof -
  let ?seal = "\<lambda>n v. case Seal b (nonce n) (rc_ID rec) n v of
         Inl e \<Rightarrow> Inl (Errorf ''encrypt secret %s: %w'' [AStr n, AWrap e]) | Inr s \<Rightarrow> Inr s"
  obtain out where out: "fill_map ?seal sec (Inr []) = Inr out" and rec1: "rec1 = (if sec = [] then rec else rec\<lparr>rc_Secrets := out\<rparr>)"
    using assms(6) unfolding sealInto_fill [OF assms(1)] by (auto simp: res_bind_Inr)
  have "list_all2 (\<lambda>(k, v) (j, w). j = k \<and> ?seal k v = Inr w) sec out"
    using fill_map_ok [OF out] assms(4) by simp
  then have rel: "list_all2 (\<lambda>(k, v) (j, w). j = k \<and> Seal b (nonce k) (rc_ID rec) k v = Inr w) sec out"
    by (rule list_all2_mono) (auto split: sum.splits)
  have secrets: "rc_Secrets rec2 = out"
    using rec1 assms(5,8) rel by (cases sec) auto
  have "list_all2 (\<lambda>(k, s) (j, v). j = k \<and> (case Open b (rc_ID rec2) k s of
      Inl e \<Rightarrow> Inl (Errorf ''secret %s: %w'' [AStr k, AWrap e]) | Inr v \<Rightarrow> Inr v) = Inr v) out sec \<and> map fst out = map fst sec"
    using rel
  proof (induction rule: list_all2_induct)
    case (Cons x xs y ys)
    obtain n v s where x: "x = (n, v)" "y = (n, s)" "Seal b (nonce n) (rc_ID rec) n v = Inr s"
      using Cons.hyps(1) by (cases x; cases y) auto
    show ?case using Cons.IH sealed_opens [of b "nonce n" "rc_ID rec" n v s] assms(2,3) x assms(7) by simp
  qed simp
  then show ?thesis
    unfolding openSecrets_fill [OF assms(1)] secrets using fill_map_total [of _ out sec "[]"] assms(4) by simp
qed

lemma parseRequest_secrets: "parseRequest L E req = Inr p \<Longrightarrow> pr_secrets p = ir_Secrets req"
  by (auto simp: parseRequest_def Let_def res_bind_Inr split: option.splits if_splits prod.splits)

lemma newRecord_simps: "rc_Secrets (newRecord E random p hint) = []" "rc_ID (newRecord E random p hint) = newID random"
  "rc_State (newRecord E random p hint) = StateDraft"
  by (simp_all add: newRecord_def fresh_record_def Let_def split: option.splits)

lemma sealInto_fields:
  "sealInto E nonce rec sec = Inr rec1 \<Longrightarrow> rc_ID rec1 = rc_ID rec \<and> rc_State rec1 = rc_State rec"
  by (auto simp: sealInto_def res_bind_Inr split: if_splits option.splits)

lemma with_confirmations_simps: "rc_ID (with_confirmations c r) = rc_ID r" "rc_Secrets (with_confirmations c r) = rc_Secrets r"
  "rc_State (with_confirmations c r) = rc_State r"
  by (simp_all add: with_confirmations_def split: option.splits)

lemma record_copy_fields:
  "record_copy r = Inr c \<Longrightarrow> rc_ID c = rc_ID r \<and> rc_Secrets c = rc_Secrets r \<and> rc_State c = rc_State r"
  by (auto simp: record_copy_def split: if_splits)

context plugin_registry
begin

lemma create_ok:
  assumes "mg_G E = G" and "rok (pm_reg st)" and "create_record E rec st = (x, t)"
  shows "rok (pm_reg t)"
  using assms create_state [OF assms(2)]
  by (auto simp: create_record_def on_reg_def split: prod.splits option.splits)

lemma install_ok:
  assumes G: "mg_G E = G" and ok: "rok (pm_reg st)" and run: "mgr_Install L E random nonce req st = (x, t)"
  shows "rok (pm_reg t)"
proof -
  note log = settled_ok [OF settled_logf [OF G]] and aud = settled_ok [OF settled_audit [OF G]]
  show ?thesis using run ok
    by (auto simp: mgr_Install_def intro!: log aud dest: create_ok [OF G ok] split: option.splits sum.splits prod.splits)
qed

end

text \<open>C23: secrets survive installation. An installation that is accepted leaves a draft record under the id of its
  pipeline, and the secrets opened from that record, which holds them sealed only, are exactly those of the
  request.\<close>
theorem installed_secrets_are_recovered:
  assumes "plugin_registry (mg_G E) rok recs acts" and "rok (pm_reg st)"
    and "mg_box E = Some b" and "authentic (bx_aead b)" and "\<And>n r. nonce n = Inr r \<Longrightarrow> length r = ae_NonceSize (bx_aead b)"
    and "distinct (map fst (ir_Secrets req))" and "mgr_Install L E random nonce req st = (Inr (r, k, act), t)"
  shows "rok (pm_reg t) \<and> k = newID random \<and> act = ir_Activate req \<and>
    (\<exists>rec. recs (pm_reg t) k = Some rec \<and> rc_State rec = StateDraft \<and> openSecrets E rec = Inr (ir_Secrets req))"
proof -
  obtain p where p: "parseRequest (il_req L) E req = Inr p"
    using assms(7) by (auto simp: mgr_Install_def split: option.splits sum.splits)
  obtain rec1 where rec1: "sealInto E nonce (newRecord E random p (ir_Name req)) (pr_secrets p) = Inr rec1"
    using assms(7) p by (auto simp: mgr_Install_def split: option.splits sum.splits)
  let ?rec = "with_confirmations (ir_Confirmations req) rec1"
  obtain st1 where create: "on_reg (rg_Create (mg_G E) ?rec) st = (None, st1)"
    and t: "r = ?rec\<lparr>rc_Rev := 1\<rparr>" "k = rc_ID r" "act = ir_Activate req"
      "t = logf E k ''installation requested (%s, %s)'' [AStr (mode_name (pr_mode p)), AStr (type_name (pr_typ p))]
         (audit E ''install'' (Some r) ''ok'' (''%s %s@%s'', [AStr (mode_name (pr_mode p)), AStr (rc_Name r), AStr (rc_Version r)]) st1)"
    using assms(7) p rec1 by (auto simp: mgr_Install_def create_record_def split: option.splits sum.splits prod.splits)
  have id: "rc_ID ?rec = newID random" "rc_State ?rec = StateDraft"
    using sealInto_fields [OF rec1] by (simp_all add: with_confirmations_simps newRecord_simps)
  have "rg_Create (mg_G E) ?rec (pm_reg st) = (None, pm_reg st1)" using create by (simp add: on_reg_iff)
  from plugin_registry.create_state [OF assms(1,2) this] obtain c where c: "rok (pm_reg st1)"
    "record_copy (?rec\<lparr>rc_Rev := 1\<rparr>) = Inr c" "recs (pm_reg st1) (newID random) = Some c"
    using id by auto
  obtain f as a oc d where t4: "t = logf E k f as (audit E a (Some r) oc d st1)" using t(4) by blast
  obtain e1 r1 where a1: "on_reg (rg_AppendAudit (mg_G E) \<lparr>ev_Time = mg_now E, ev_Actor = ''admin'', ev_Action = a, ev_PluginID = rc_ID r,
      ev_Type = Some (rc_Type r), ev_Outcome = oc, ev_Detail = d\<rparr>) st1 = (e1, r1)" by fastforce
  obtain e2 where a2: "on_reg (rg_AppendLog (mg_G E) k (mg_line E (f, as))) r1 = (e2, t)"
    using t4 a1 by (simp add: logf_def audit_def prod_eq_iff)
  have 1: "rok (pm_reg r1)" "recs (pm_reg r1) = recs (pm_reg st1)"
    using plugin_registry.audit_state [OF assms(1) c(1)] a1 by (auto simp: on_reg_iff)
  have 2: "rok (pm_reg t)" "recs (pm_reg t) = recs (pm_reg r1)"
    using plugin_registry.log_state [OF assms(1) 1(1)] a2 by (auto simp: on_reg_iff)
  have k: "k = newID random" using t(1,2) id by simp
  note cf = record_copy_fields [OF c(2)]
  have "openSecrets E c = Inr (ir_Secrets req)"
  proof (rule sealed_record_opens [OF assms(3,4,5,6) newRecord_simps(1)])
    show "sealInto E nonce (newRecord E random p (ir_Name req)) (ir_Secrets req) = Inr rec1"
      using rec1 parseRequest_secrets [OF p] by simp
    show "rc_ID c = rc_ID (newRecord E random p (ir_Name req))" "rc_Secrets c = rc_Secrets rec1"
      using cf id by (simp_all add: newRecord_simps with_confirmations_simps)
  qed
  then show ?thesis using 2 1 c k t(3) cf id by auto
qed

lemma demo_sealing:
  "mg_box demo_mgr = Some demo_box" "authentic (bx_aead demo_box)"
  "(\<lambda>_. Inr demo_nonce) n = (Inr r :: string res) \<Longrightarrow> length r = ae_NonceSize (bx_aead demo_box)"
proof -
  show "mg_box demo_mgr = Some demo_box" by (simp add: demo_mgr_def)
  show "authentic (bx_aead demo_box)" by (simp add: demo_box_def plain_authentic)
  show "(\<lambda>_. Inr demo_nonce) n = (Inr r :: string res) \<Longrightarrow> length r = ae_NonceSize (bx_aead demo_box)"
    by (auto simp: demo_box_def plain_aead_def demo_nonce_def)
qed

lemma demo_installed_is: "is_Inr (fst demo_installed)" "map_option snd (case fst demo_installed of Inr x \<Rightarrow> Some x | Inl _ \<Rightarrow> None) = Some (demo_id, False)"
  by code_simp+

lemma demo_installed_run: "\<exists>r. demo_installed = (Inr (r, demo_id, False), snd demo_installed)"
proof -
  obtain x where x: "fst demo_installed = Inr x" using demo_installed_is(1) by (auto simp: is_Inr_def split: sum.splits)
  then have "snd x = (demo_id, False)" using demo_installed_is(2) by simp
  with x show ?thesis by (metis prod.collapse)
qed

theorem installed_secrets_are_recovered_witness:
  "\<exists>rec. mem_recs (pm_reg (snd demo_installed)) demo_id = Some rec \<and> openSecrets demo_mgr rec = Inr [(''ENDPOINT_TOKEN'', ''s3cret'')]"
proof -
  obtain r where run: "demo_installed = (Inr (r, demo_id, False), snd demo_installed)" using demo_installed_run by blast
  have d: "distinct (map fst (ir_Secrets demo_request))" by (simp add: demo_request_def)
  from installed_secrets_are_recovered [OF demo_registry_laws demo_control_ok(1) demo_sealing d run [unfolded demo_installed_def]]
  show ?thesis by (auto simp: demo_installed_def demo_request_def)
qed

definition draft_control :: demo_control where
  "draft_control = demo_control\<lparr>pm_reg := demo_registry\<lparr>me_recs := [(''plg_1'',
     (demo_record ''plg_1'' StateDraft)\<lparr>rc_Source := no_source\<lparr>so_EndpointURL := ''https://plugin.example.com''\<rparr>\<rparr>)]\<rparr>\<rparr>"

lemma draft_control_ok: "mem_reg_ok (pm_reg draft_control)"
  by (simp add: draft_control_def mem_reg_ok_def demo_registry_def NewMemory_def logs_ok_def gm_wf_def)

lemma demo_pipeline_ok: "fst (pipeline demo_lib demo_mgr ''plg_1'' draft_control) = None"
  by code_simp


section \<open>Installations that were interrupted\<close>


definition cut_off_control :: demo_control where
  "cut_off_control = demo_control\<lparr>pm_reg := demo_registry\<lparr>me_recs := [(''plg_1'', demo_record ''plg_1'' StateTesting)]\<rparr>\<rparr>"


end
