(* ===== verification/Llm.thy ===== *)
theory Llm
  imports Llm_Usage Http_Client Plugin_Factory "HOL-Library.Sublist"
begin

text \<open>
  The LLM backends (\<open>internal/llm/client.go\<close>, \<open>fallback.go\<close>, \<open>example_http.go\<close>). The world a call runs in
  offers the HTTP transport, the caller's context, \<open>time.Sleep\<close>, the quota day of the clock, and the
  bytes of a body (\<open>lw_text\<close>, which an error message quotes). Bodies longer than 1 MiB are cut
  off by the reader, so they do not parse. Backends are values; a Gemini backend carries its tally.
\<close>

record 'w llm_world =
  lw_http :: "'w transport"
  lw_ctx :: "'w \<Rightarrow> goerr option"
  lw_sleep :: "int \<Rightarrow> 'w \<Rightarrow> 'w"
  lw_text :: "http_resp \<Rightarrow> string"
  lw_clock :: "'w \<Rightarrow> string \<times> int"

definition MiB :: int where "MiB = 2 ^ 20"
definition millis :: "int \<Rightarrow> int" where "millis n = n * 10 ^ 6"

text \<open>\<open>io.ReadAll\<close> behind a 1 MiB limit, and \<open>json.Unmarshal\<close> of what was read.\<close>

definition limited_body :: "http_resp \<Rightarrow> http_body" where
  "limited_body resp =
     (case hs_body resp of
        Body_Broken e \<Rightarrow> Body_Broken e
      | b \<Rightarrow> if MiB < hs_size resp then Body_Garbage else b)"

fun unmarshal :: "(json \<Rightarrow> 'a res) \<Rightarrow> http_body \<Rightarrow> 'a res" where
  "unmarshal d (Body_Doc j) = d j"
| "unmarshal d _ = Inl ErrJsonSyntax"

definition ok_status :: "int \<Rightarrow> bool" where
  "ok_status st \<longleftrightarrow> \<not> (st < 200 \<or> 300 \<le> st)"

text \<open>The non-blank texts of a list, trimmed.\<close>

definition texts :: "string list \<Rightarrow> string list" where
  "texts xs = filter (\<lambda>t. t \<noteq> []) (map trim_space xs)"

definition slice_items :: "'a list option \<Rightarrow> 'a list" where
  "slice_items x = (case x of None \<Rightarrow> [] | Some xs \<Rightarrow> xs)"

section \<open>The stub\<close>

text \<open>\<open>%q\<close>: the string in double quotes with Go's escapes; bytes above 127 are taken as printable.\<close>

definition hex_digit :: "nat \<Rightarrow> char" where
  "hex_digit n = ''0123456789abcdef'' ! n"

definition quote_char :: "char \<Rightarrow> string" where
  "quote_char c =
     (let n = (of_char c :: nat) in
      if c = CHR 34 then [CHR 92, CHR 34] else if c = CHR 92 then [CHR 92, CHR 92]
      else if n = 7 then [CHR 92, CHR ''a''] else if n = 8 then [CHR 92, CHR ''b'']
      else if n = 12 then [CHR 92, CHR ''f''] else if n = 10 then [CHR 92, CHR ''n'']
      else if n = 13 then [CHR 92, CHR ''r''] else if n = 9 then [CHR 92, CHR ''t'']
      else if n = 11 then [CHR 92, CHR ''v'']
      else if n < 32 \<or> n = 127 then [CHR 92, CHR ''x'', hex_digit (n div 16), hex_digit (n mod 16)]
      else [c])"

definition go_quote :: "string \<Rightarrow> string" where
  "go_quote s = [CHR 34] @ concat (map quote_char s) @ [CHR 34]"

definition stub_Complete :: "string \<Rightarrow> string" where
  "stub_Complete prompt = ''[stub-llm] This is a placeholder reply for: '' @ go_quote prompt"

section \<open>OpenAI\<close>

record openAIBackend =
  oa_apiKey :: string
  oa_model :: string

definition openAIResponsesURL :: string where
  "openAIResponsesURL = ''https://api.openai.com/v1/responses''"

record responsesResponse =
  rr_OutputText :: string
  rr_Output :: "string list list"   \<comment> \<open>the texts of each output's contents\<close>

definition decode_text :: "json \<Rightarrow> string res" where
  "decode_text j = json_struct [(''text'', json_string)] j ''''"

definition decode_content :: "json \<Rightarrow> string list res" where
  "decode_content j = json_struct
     [(''content'', \<lambda>j _. res_bind (json_slice decode_text j) (\<lambda>x. Inr (slice_items x)))] j []"

definition decode_responses :: "json \<Rightarrow> responsesResponse res" where
  "decode_responses j = json_struct
     [(''output_text'', \<lambda>j r. res_bind (json_string j (rr_OutputText r)) (\<lambda>x. Inr (r\<lparr>rr_OutputText := x\<rparr>))),
      (''output'', \<lambda>j r. res_bind (json_slice decode_content j) (\<lambda>x. Inr (r\<lparr>rr_Output := slice_items x\<rparr>)))]
     j \<lparr>rr_OutputText = '''', rr_Output = []\<rparr>"

definition extractResponseText :: "responsesResponse \<Rightarrow> string" where
  "extractResponseText resp =
     (if trim_space (rr_OutputText resp) \<noteq> [] then trim_space (rr_OutputText resp)
      else str_join [CHR 10] (texts (concat (rr_Output resp))))"

definition oa_completeOnce ::
    "'w llm_world \<Rightarrow> openAIBackend \<Rightarrow> string \<Rightarrow> 'w \<Rightarrow> string res \<times> 'w" where
  "oa_completeOnce W o' prompt w =
     (case lw_http W \<lparr>hq_method = ''POST'', hq_path = openAIResponsesURL, hq_query = [],
                      hq_auth = ''Bearer '' @ oa_apiKey o',
                      hq_body = Some (JObj [(''model'', JStr (oa_model o')), (''input'', JStr prompt)])\<rparr> w of
        (Inl err, w1) \<Rightarrow> (Inl (Errorf ''openai unreachable: %w'' [AWrap err]), w1)
      | (Inr resp, w1) \<Rightarrow>
          (case limited_body resp of
             Body_Broken err \<Rightarrow> Inl err
           | b \<Rightarrow>
               if \<not> ok_status (hs_status resp)
               then Inl (Errorf ''openai returned %d: %s'' [AInt (hs_status resp), AStr (trim_space (lw_text W resp))])
               else res_bind (unmarshal decode_responses b) (\<lambda>out.
                      if extractResponseText out = [] then Inl (Errorf ''openai response did not contain text'' [])
                      else Inr (extractResponseText out)), w1))"

text \<open>The loop: \<open>n\<close> attempts left, of which this is number \<open>attempt\<close>.\<close>

fun oa_attempts ::
    "'w llm_world \<Rightarrow> openAIBackend \<Rightarrow> string \<Rightarrow> nat \<Rightarrow> int \<Rightarrow> goerr \<Rightarrow> 'w \<Rightarrow> string res \<times> 'w" where
  "oa_attempts W o' prompt 0 attempt lastErr w = (Inl lastErr, w)"
| "oa_attempts W o' prompt (Suc n) attempt lastErr w =
     (case oa_completeOnce W o' prompt w of
        (Inr reply, w1) \<Rightarrow> (Inr reply, w1)
      | (Inl err, w1) \<Rightarrow>
          (case lw_ctx W w1 of
             Some ce \<Rightarrow> (Inl ce, w1)
           | None \<Rightarrow> oa_attempts W o' prompt n (attempt + 1) err
                       (lw_sleep W ((attempt + 1) * millis 500) w1)))"

definition oa_Complete :: "'w llm_world \<Rightarrow> openAIBackend \<Rightarrow> string \<Rightarrow> 'w \<Rightarrow> string res \<times> 'w" where
  "oa_Complete W o' prompt w =
     (if oa_apiKey o' = [] then (Inl (Errorf ''OPENAI_API_KEY not set'' []), w)
      else oa_attempts W o' prompt 3 0 (Errorf '''' []) w)"

section \<open>Gemini\<close>

record geminiBackend =
  ge_apiKey :: string
  ge_model :: string
  ge_baseURL :: string
  ge_usage :: "usageTracker option"

definition geminiAPIBase :: string where
  "geminiAPIBase = ''https://generativelanguage.googleapis.com/v1beta/models''"

definition gemini_Usage :: "'w llm_world \<Rightarrow> 'w \<Rightarrow> geminiBackend \<Rightarrow> UsageSnapshot option \<times> geminiBackend" where
  "gemini_Usage W w g =
     (case ge_usage g of
        None \<Rightarrow> (None, g)
      | Some t \<Rightarrow>
          (let (day, resetIn) = lw_clock W w; (s, t') = usage_snapshot day resetIn (ge_model g) t
           in (Some s, g\<lparr>ge_usage := Some t'\<rparr>)))"

definition decode_parts :: "json \<Rightarrow> string list res" where
  "decode_parts j = json_struct
     [(''parts'', \<lambda>j _. res_bind (json_slice decode_text j) (\<lambda>x. Inr (slice_items x)))] j []"

definition decode_candidate :: "json \<Rightarrow> string list res" where
  "decode_candidate j = json_struct [(''content'', \<lambda>j _. decode_parts j)] j []"

definition decode_usage :: "json \<Rightarrow> geminiUsage \<Rightarrow> geminiUsage res" where
  "decode_usage = json_struct
     [(''promptTokenCount'', \<lambda>j u. res_bind (json_int j (gu_Prompt u)) (\<lambda>x. Inr (u\<lparr>gu_Prompt := x\<rparr>))),
      (''candidatesTokenCount'', \<lambda>j u. res_bind (json_int j (gu_Candidates u)) (\<lambda>x. Inr (u\<lparr>gu_Candidates := x\<rparr>))),
      (''thoughtsTokenCount'', \<lambda>j u. res_bind (json_int j (gu_Thoughts u)) (\<lambda>x. Inr (u\<lparr>gu_Thoughts := x\<rparr>))),
      (''totalTokenCount'', \<lambda>j u. res_bind (json_int j (gu_Total u)) (\<lambda>x. Inr (u\<lparr>gu_Total := x\<rparr>)))]"

text \<open>Candidates (the texts of each one's parts) and the usage metadata.\<close>

definition decode_gemini :: "json \<Rightarrow> (string list list \<times> geminiUsage) res" where
  "decode_gemini j = json_struct
     [(''candidates'', \<lambda>j (_, u). res_bind (json_slice decode_candidate j) (\<lambda>x. Inr (slice_items x, u))),
      (''usageMetadata'', \<lambda>j (c, u). res_bind (decode_usage j u) (\<lambda>x. Inr (c, x)))]
     j ([], zero_usage)"

definition isDailyQuotaExhausted :: "string \<Rightarrow> bool" where
  "isDailyQuotaExhausted body \<longleftrightarrow> str_contains body ''PerDay''"

text \<open>One request: the reply or the error with whether to retry it.\<close>

definition ge_completeOnce ::
    "'w llm_world \<Rightarrow> geminiBackend \<Rightarrow> string \<Rightarrow> 'w \<Rightarrow> ((bool \<times> goerr) + string) \<times> geminiBackend \<times> 'w" where
  "ge_completeOnce W g prompt w =
     (case lw_http W \<lparr>hq_method = ''POST'', hq_path = ge_baseURL g @ ''/'' @ ge_model g @ '':generateContent'',
                      hq_query = [(''key'', ge_apiKey g)], hq_auth = '''',
                      hq_body = Some (JObj [(''contents'', JArr [JObj [(''parts'', JArr [JObj [(''text'', JStr prompt)]])]])])\<rparr> w of
        (Inl err, w1) \<Rightarrow> (Inl (True, Errorf ''gemini unreachable: %w'' [AWrap err]), g, w1)
      | (Inr resp, w1) \<Rightarrow>
          (let day = fst (lw_clock W w1); text = lw_text W resp; st = hs_status resp in
           case limited_body resp of
             Body_Broken err \<Rightarrow> (Inl (True, err), g, w1)
           | b \<Rightarrow>
               if \<not> ok_status st
               then (Inl ((st = 429 \<or> 500 \<le> st) \<and> \<not> isDailyQuotaExhausted text,
                          Errorf ''gemini returned %d: %s'' [AInt st, AStr (trim_space text)]),
                     (if st = 429 \<and> isDailyQuotaExhausted text
                      then g\<lparr>ge_usage := recordQuotaExhausted day text (ge_usage g)\<rparr> else g), w1)
               else (case unmarshal decode_gemini b of
                   Inl err \<Rightarrow> (Inl (False, err), g, w1)
                 | Inr (candidates, u) \<Rightarrow>
                     (let g1 = g\<lparr>ge_usage := recordSuccess day u (ge_usage g)\<rparr>;
                          reply = (case candidates of [] \<Rightarrow> [] | c # _ \<Rightarrow> str_join [CHR 10] (texts c))
                      in (if reply = [] then Inl (False, Errorf ''gemini response did not contain text'' [])
                          else Inr reply, g1, w1)))))"

definition geminiMaxAttempts :: nat where "geminiMaxAttempts = 5"
definition geminiInitialBackoff :: int where "geminiInitialBackoff = millis 500"

fun ge_attempts ::
    "'w llm_world \<Rightarrow> geminiBackend \<Rightarrow> string \<Rightarrow> nat \<Rightarrow> int \<Rightarrow> goerr \<Rightarrow> 'w \<Rightarrow> string res \<times> geminiBackend \<times> 'w" where
  "ge_attempts W g prompt 0 backoff lastErr w = (Inl lastErr, g, w)"
| "ge_attempts W g prompt (Suc n) backoff lastErr w =
     (case ge_completeOnce W g prompt w of
        (Inr reply, g1, w1) \<Rightarrow> (Inr reply, g1, w1)
      | (Inl (retryable, err), g1, w1) \<Rightarrow>
          (case lw_ctx W w1 of
             Some ce \<Rightarrow> (Inl ce, g1, w1)
           | None \<Rightarrow>
               if \<not> retryable then (Inl err, g1, w1)
               else if n = 0 then ge_attempts W g1 prompt n backoff err w1
               else ge_attempts W g1 prompt n (backoff * 2) err (lw_sleep W backoff w1)))"

definition ge_Complete ::
    "'w llm_world \<Rightarrow> geminiBackend \<Rightarrow> string \<Rightarrow> 'w \<Rightarrow> string res \<times> geminiBackend \<times> 'w" where
  "ge_Complete W g prompt w =
     (if ge_apiKey g = [] then (Inl (Errorf ''GEMINI_API_KEY not set'' []), g, w)
      else ge_attempts W g prompt geminiMaxAttempts geminiInitialBackoff (Errorf '''' []) w)"

section \<open>The example HTTP provider\<close>

record exampleHTTPBackend =
  ex_endpoint :: string
  ex_model :: string
  ex_token :: string
  ex_timeout :: int

text \<open>A parsed URL; \<open>url.Parse\<close> and \<open>time.ParseDuration\<close> are parameters.\<close>

record go_url =
  url_Scheme :: string
  url_Hostname :: string
  url_hasUser :: bool
  url_Fragment :: string

definition newExampleHTTP ::
    "(string \<Rightarrow> go_url option) \<Rightarrow> (string \<Rightarrow> int option) \<Rightarrow> string \<Rightarrow> string \<Rightarrow> string \<Rightarrow> string \<Rightarrow>
     exampleHTTPBackend res" where
  "newExampleHTTP url_parse parse_duration endpoint model token timeoutText =
     (let bad = Inl (Errorf ''EXAMPLE_LLM_URL must be an absolute HTTP(S) URL without user information or fragment'' []) in
      case url_parse endpoint of
        None \<Rightarrow> bad
      | Some u \<Rightarrow>
          if url_Scheme u \<notin> {''http'', ''https''} \<or> url_Hostname u = [] \<or> url_hasUser u \<or> url_Fragment u \<noteq> []
          then bad
          else if trim_space model = [] then Inl (Errorf ''EXAMPLE_LLM_MODEL is required'' [])
          else if timeoutText = []
          then Inr \<lparr>ex_endpoint = endpoint, ex_model = model, ex_token = token, ex_timeout = 30 * 10 ^ 9\<rparr>
          else (case parse_duration timeoutText of
              Some d \<Rightarrow>
                if d \<le> 0 then Inl (Errorf ''EXAMPLE_LLM_TIMEOUT must be a positive duration, e.g. 30s'' [])
                else Inr \<lparr>ex_endpoint = endpoint, ex_model = model, ex_token = token, ex_timeout = d\<rparr>
            | None \<Rightarrow> Inl (Errorf ''EXAMPLE_LLM_TIMEOUT must be a positive duration, e.g. 30s'' [])))"

definition ex_Complete ::
    "'w llm_world \<Rightarrow> exampleHTTPBackend \<Rightarrow> string \<Rightarrow> 'w \<Rightarrow> string res \<times> 'w" where
  "ex_Complete W b prompt w =
     (case lw_ctx W w of
        Some err \<Rightarrow> (Inl err, w)
      | None \<Rightarrow>
          (case lw_http W \<lparr>hq_method = ''POST'', hq_path = ex_endpoint b, hq_query = [],
                           hq_auth = (if ex_token b = [] then [] else ''Bearer '' @ ex_token b),
                           hq_body = Some (JObj [(''model'', JStr (ex_model b)), (''prompt'', JStr prompt)])\<rparr> w of
             (Inl err, w1) \<Rightarrow>
               (Inl (case lw_ctx W w1 of Some ce \<Rightarrow> ce
                     | None \<Rightarrow> Errorf ''example LLM request failed or timed out'' []), w1)
           | (Inr resp, w1) \<Rightarrow>
               (if hs_status resp \<noteq> 200 then Inl (Errorf ''example LLM returned HTTP %d'' [AInt (hs_status resp)])
                else case hs_body resp of
                  Body_Broken err \<Rightarrow>
                    Inl (case lw_ctx W w1 of Some ce \<Rightarrow> ce
                         | None \<Rightarrow> Errorf ''read example LLM response failed'' [])
                | body \<Rightarrow>
                    if MiB < hs_size resp then Inl (Errorf ''example LLM response exceeds 1 MiB'' [])
                    else (case unmarshal (\<lambda>j. json_struct [(''reply'', json_string)] j '''') body of
                        Inl _ \<Rightarrow> Inl (Errorf ''example LLM returned invalid JSON'' [])
                      | Inr reply \<Rightarrow>
                          if trim_space reply = [] then Inl (Errorf ''example LLM returned an empty reply'' [])
                          else Inr reply), w1)))"

section \<open>Backends and their selection\<close>

datatype llmBackend =
    StubBackend
  | OpenAIBackend openAIBackend
  | GeminiBackend geminiBackend
  | ExampleHTTP exampleHTTPBackend
  | FallbackBackend llmBackend llmBackend

fun llm_Complete :: "'w llm_world \<Rightarrow> llmBackend \<Rightarrow> string \<Rightarrow> 'w \<Rightarrow> string res \<times> llmBackend \<times> 'w" where
  "llm_Complete W StubBackend prompt w = (Inr (stub_Complete prompt), StubBackend, w)"
| "llm_Complete W (OpenAIBackend b) prompt w =
     (case oa_Complete W b prompt w of (r, w1) \<Rightarrow> (r, OpenAIBackend b, w1))"
| "llm_Complete W (GeminiBackend g) prompt w =
     (case ge_Complete W g prompt w of (r, g1, w1) \<Rightarrow> (r, GeminiBackend g1, w1))"
| "llm_Complete W (ExampleHTTP b) prompt w =
     (case ex_Complete W b prompt w of (r, w1) \<Rightarrow> (r, ExampleHTTP b, w1))"
| "llm_Complete W (FallbackBackend p f) prompt w =
     (case llm_Complete W p prompt w of
        (Inr reply, p1, w1) \<Rightarrow> (Inr reply, FallbackBackend p1 f, w1)
      | (Inl err, p1, w1) \<Rightarrow>
          (case lw_ctx W w1 of
             Some ce \<Rightarrow> (Inl ce, FallbackBackend p1 f, w1)
           | None \<Rightarrow> (case llm_Complete W f prompt w1 of
                 (r, f1, w2) \<Rightarrow> (r, FallbackBackend p1 f1, w2))))"

fun llm_Usage :: "'w llm_world \<Rightarrow> 'w \<Rightarrow> llmBackend \<Rightarrow> UsageSnapshot option \<times> llmBackend" where
  "llm_Usage W w (GeminiBackend g) = (case gemini_Usage W w g of (s, g1) \<Rightarrow> (s, GeminiBackend g1))"
| "llm_Usage W w (FallbackBackend p f) = (case llm_Usage W w p of (s, p1) \<Rightarrow> (s, FallbackBackend p1 f))"
| "llm_Usage W w b = (None, b)"

definition llm_registry ::
    "env \<Rightarrow> (string \<Rightarrow> go_url option) \<Rightarrow> (string \<Rightarrow> int option) \<Rightarrow> llmBackend registry" where
  "llm_registry env url_parse parse_duration = register_all
     [(''stub'', \<lambda>_. Inr StubBackend),
      (''openai'', \<lambda>cfg. Inr (OpenAIBackend \<lparr>oa_apiKey = cfg_OpenAIKey cfg, oa_model = cfg_OpenAIModel cfg\<rparr>)),
      (''gemini'', \<lambda>cfg. Inr (GeminiBackend \<lparr>ge_apiKey = cfg_GeminiKey cfg, ge_model = cfg_GeminiModel cfg,
          ge_baseURL = geminiAPIBase,
          ge_usage = Some (newUsageTracker (cfg_GeminiDailyRequestLimit cfg) (cfg_GeminiDailyTokenBudget cfg))\<rparr>)),
      (''example-http'', \<lambda>_. res_bind (newExampleHTTP url_parse parse_duration (env ''EXAMPLE_LLM_URL'')
          (env ''EXAMPLE_LLM_MODEL'') (env ''EXAMPLE_LLM_TOKEN'') (env ''EXAMPLE_LLM_TIMEOUT''))
          (\<lambda>b. Inr (ExampleHTTP b)))]
     (NewRegistry ''llm mode'')"

definition llm_New :: "llmBackend registry \<Rightarrow> config \<Rightarrow> llmBackend res" where
  "llm_New reg cfg =
     res_bind (Build reg (if cfg_LLMMode cfg = [] then ''stub'' else cfg_LLMMode cfg) cfg) (\<lambda>primary.
       if cfg_LLMFallbackMode cfg = [] then Inr primary
       else (case Build reg (cfg_LLMFallbackMode cfg) cfg of
           Inl err \<Rightarrow> Inl (Errorf ''build llm fallback: %w'' [AWrap err])
         | Inr fallback \<Rightarrow> Inr (FallbackBackend primary fallback)))"

section \<open>Retries\<close>

text \<open>Meters of a world: requests sent and time slept.\<close>

definition metered :: "'w llm_world \<Rightarrow> ('w \<Rightarrow> int) \<Rightarrow> ('w \<Rightarrow> int) \<Rightarrow> bool" where
  "metered W sent slept \<longleftrightarrow>
     (\<forall>r w. sent (snd (lw_http W r w)) = sent w + 1 \<and> slept (snd (lw_http W r w)) = slept w) \<and>
     (\<forall>d w. slept (lw_sleep W d w) = slept w + d \<and> sent (lw_sleep W d w) = sent w)"

lemma ge_once_metered:
  assumes "metered W sent slept" and "ge_completeOnce W g prompt w = (r, g1, t)"
  shows "sent t = sent w + 1 \<and> slept t = slept w"
proof -
  have "\<exists>req x. lw_http W req w = (x, t)"
    using assms(2) by (auto simp: ge_completeOnce_def Let_def split: prod.splits sum.splits http_body.splits if_splits)
  then obtain req x where h: "lw_http W req w = (x, t)" by blast
  have "sent (snd (lw_http W req w)) = sent w + 1 \<and> slept (snd (lw_http W req w)) = slept w"
    using assms(1) by (simp add: metered_def)
  with h show ?thesis by simp
qed

lemma oa_once_metered:
  assumes "metered W sent slept" and "oa_completeOnce W b prompt w = (r, t)"
  shows "sent t = sent w + 1 \<and> slept t = slept w"
proof -
  have "\<exists>req x. lw_http W req w = (x, t)"
    using assms(2) by (auto simp: oa_completeOnce_def split: prod.splits sum.splits)
  then obtain req x where h: "lw_http W req w = (x, t)" by blast
  have "sent (snd (lw_http W req w)) = sent w + 1 \<and> slept (snd (lw_http W req w)) = slept w"
    using assms(1) by (simp add: metered_def)
  with h show ?thesis by simp
qed

lemma metered_sleep:
  "metered W sent slept \<Longrightarrow> slept (lw_sleep W d w) = slept w + d \<and> sent (lw_sleep W d w) = sent w"
  by (simp add: metered_def)

lemma ge_attempts_bounds:
  assumes "metered W sent slept" and "0 \<le> backoff"
    and "ge_attempts W g prompt n backoff e w = (r, g1, t)"
  shows "sent t \<le> sent w + int n" and "slept t \<le> slept w + backoff * (2 ^ (n - 1) - 1)"
proof -
  have "sent t \<le> sent w + int n \<and> slept t \<le> slept w + backoff * (2 ^ (n - 1) - 1)"
    using assms(2,3)
  proof (induction n arbitrary: g backoff e w)
    case (Suc n)
    obtain x g2 w1 where o: "ge_completeOnce W g prompt w = (x, g2, w1)" by (metis prod_cases3)
    note m = ge_once_metered [OF assms(1) o]
    have nn: "0 \<le> backoff * (2 ^ n - 1)" using Suc.prems(1) by simp
    show ?case
    proof (cases "\<exists>err. x = Inl (True, err) \<and> lw_ctx W w1 = None")
      case False
      then have "t = w1" using Suc.prems(2) o
        by (cases x) (auto split: option.splits prod.splits bool.splits if_splits)
      then show ?thesis using m nn by simp
    next
      case True
      then obtain err where x: "x = Inl (True, err)" and c: "lw_ctx W w1 = None" by blast
      show ?thesis
      proof (cases n)
        case 0
        then have "t = w1" using Suc.prems(2) o x c by simp
        then show ?thesis using m nn by simp
      next
        case (Suc k)
        have run: "ge_attempts W g2 prompt n (backoff * 2) err (lw_sleep W backoff w1) = (r, g1, t)"
          using Suc.prems(2) o x c Suc by simp
        have "sent t \<le> sent (lw_sleep W backoff w1) + int n \<and>
            slept t \<le> slept (lw_sleep W backoff w1) + backoff * 2 * (2 ^ (n - 1) - 1)"
          using Suc.IH [OF _ run] Suc.prems(1) by simp
        moreover have "backoff + backoff * 2 * (2 ^ (n - 1) - 1) = backoff * (2 ^ n - 1)"
          by (simp add: Suc algebra_simps)
        ultimately show ?thesis
          using m metered_sleep [OF assms(1), of backoff w1] by auto
      qed
    qed
  qed simp
  then show "sent t \<le> sent w + int n" and "slept t \<le> slept w + backoff * (2 ^ (n - 1) - 1)" by blast+
qed

lemma oa_attempts_exact:
  assumes "metered W sent slept" and "\<forall>w. lw_ctx W w = None"
    and "oa_attempts W b prompt n k e w = (Inl err, t)"
  shows "sent t = sent w + int n \<and> slept t = slept w + (\<Sum>i<n. (k + int i + 1) * millis 500)"
  using assms(3)
proof (induction n arbitrary: k e w)
  case (Suc n)
  obtain x w1 where o: "oa_completeOnce W b prompt w = (x, w1)" by fastforce
  then obtain err' where x: "x = Inl err'" using Suc.prems assms(2) by (cases x) auto
  have run: "oa_attempts W b prompt n (k + 1) err' (lw_sleep W ((k + 1) * millis 500) w1) = (Inl err, t)"
    using Suc.prems o x assms(2) by simp
  have "(\<Sum>i<Suc n. (k + int i + 1) * millis 500) =
      (k + 1) * millis 500 + (\<Sum>i<n. (k + 1 + int i + 1) * millis 500)"
    by (simp add: sum.lessThan_Suc_shift algebra_simps del: sum.lessThan_Suc)
  with Suc.IH [OF run] oa_once_metered [OF assms(1) o] metered_sleep [OF assms(1), of "(k + 1) * millis 500" w1]
  show ?case by linarith
qed simp

section \<open>Replies are never blank\<close>

lemma join_texts_visible:
  assumes "str_join sep (texts xs) \<noteq> []"
  shows "trim_space (str_join sep (texts xs)) \<noteq> []"
proof -
  obtain w where w: "w \<in> set (texts xs)" using assms by (cases "texts xs") auto
  then obtain x where x: "w = trim_space x" "trim_space x \<noteq> []" by (auto simp: texts_def)
  obtain c where "c \<in> set w" "\<not> is_space c" using trim_space_visible [OF x(2)] x(1) by blast
  with set_str_join [OF w, of sep] show ?thesis by (auto simp: trim_space_blank)
qed

lemma extractResponseText_visible:
  assumes "extractResponseText resp \<noteq> []"
  shows "trim_space (extractResponseText resp) \<noteq> []"
proof (cases "trim_space (rr_OutputText resp) = []")
  case True
  then show ?thesis using assms join_texts_visible by (simp add: extractResponseText_def)
next
  case False
  obtain c where "c \<in> set (trim_space (rr_OutputText resp))" "\<not> is_space c"
    using trim_space_visible [OF False] by blast
  then have "trim_space (trim_space (rr_OutputText resp)) \<noteq> []" by (auto simp: trim_space_blank)
  then show ?thesis using False by (simp add: extractResponseText_def)
qed

lemma oa_once_visible:
  assumes "oa_completeOnce W b prompt w = (Inr r, t)"
  shows "trim_space r \<noteq> []"
proof -
  obtain out where "r = extractResponseText out" "extractResponseText out \<noteq> []"
    using assms by (auto simp: oa_completeOnce_def res_bind_Inr split: prod.splits sum.splits http_body.splits if_splits)
  then show ?thesis using extractResponseText_visible by simp
qed

lemma oa_attempts_visible:
  "oa_attempts W b prompt n k e w = (Inr r, t) \<Longrightarrow> trim_space r \<noteq> []"
proof (induction n arbitrary: k e w)
  case (Suc n)
  then show ?case
    by (auto split: prod.splits sum.splits option.splits dest: oa_once_visible)
qed simp

lemma ge_once_visible:
  assumes "ge_completeOnce W g prompt w = (Inr r, g1, t)"
  shows "trim_space r \<noteq> []"
proof -
  obtain c :: "string list" where "r = str_join [CHR 10] (texts c)" "r \<noteq> []"
    using assms by (auto simp: ge_completeOnce_def Let_def
        split: prod.splits sum.splits http_body.splits if_splits list.splits)
  then show ?thesis using join_texts_visible by simp
qed

lemma ge_attempts_visible:
  "ge_attempts W g prompt n k e w = (Inr r, g1, t) \<Longrightarrow> trim_space r \<noteq> []"
proof (induction n arbitrary: g k e w)
  case (Suc n)
  then show ?case
    by (auto split: prod.splits sum.splits option.splits if_splits dest: ge_once_visible)
qed simp

lemma ex_Complete_visible:
  "ex_Complete W b prompt w = (Inr r, t) \<Longrightarrow> trim_space r \<noteq> []"
  by (auto simp: ex_Complete_def split: prod.splits sum.splits http_body.splits if_splits option.splits)

lemma stub_visible: "trim_space (stub_Complete prompt) \<noteq> []"
  by (simp add: stub_Complete_def trim_space_blank is_space_def)

section \<open>Properties\<close>

text \<open>No backend, alone or as a fallback pair, ever returns a blank reply as a success.\<close>

theorem llm_replies_are_not_blank:
  assumes "llm_Complete W b prompt w = (Inr r, b1, t)"
  shows "trim_space r \<noteq> []"
  using assms
proof (induction b arbitrary: w b1 t)
  case (OpenAIBackend o')
  then show ?case by (auto simp: oa_Complete_def split: prod.splits if_splits dest: oa_attempts_visible)
next
  case (GeminiBackend g)
  then show ?case by (auto simp: ge_Complete_def split: prod.splits if_splits dest: ge_attempts_visible)
next
  case (FallbackBackend p f)
  then show ?case by (auto split: prod.splits sum.splits option.splits)
qed (auto simp: stub_visible split: prod.splits dest: ex_Complete_visible)

text \<open>A world for examples: a script of responses, with the number of requests and the time slept.\<close>

record script_world =
  sw_script :: "http_resp res list"
  sw_sent :: int
  sw_slept :: int

definition script_llm :: "script_world llm_world" where
  "script_llm = \<lparr>lw_http = (\<lambda>_ w. (case sw_script w of [] \<Rightarrow> Inl DeadlineExceeded | r # _ \<Rightarrow> r,
       w\<lparr>sw_script := tl (sw_script w), sw_sent := sw_sent w + 1\<rparr>)),
     lw_ctx = (\<lambda>_. None), lw_sleep = (\<lambda>d w. w\<lparr>sw_slept := sw_slept w + d\<rparr>), lw_text = (\<lambda>_. ''''),
     lw_clock = (\<lambda>_. (''2026-01-01'', 0))\<rparr>"

lemma script_metered: "metered script_llm sw_sent sw_slept"
  by (simp add: metered_def script_llm_def)

definition reply_doc :: "json \<Rightarrow> http_resp" where
  "reply_doc j = \<lparr>hs_status = 200, hs_size = 50, hs_body = Body_Doc j\<rparr>"

definition demo_openai :: openAIBackend where
  "demo_openai = \<lparr>oa_apiKey = ''k'', oa_model = ''m''\<rparr>"

definition demo_gemini :: geminiBackend where
  "demo_gemini = \<lparr>ge_apiKey = ''k'', ge_model = ''m'', ge_baseURL = geminiAPIBase, ge_usage = None\<rparr>"

lemma llm_replies_are_not_blank_witness:
  "\<exists>r b t. llm_Complete script_llm (FallbackBackend (OpenAIBackend demo_openai) StubBackend) ''hi''
      \<lparr>sw_script = [Inl DeadlineExceeded, Inr (reply_doc (JObj [(''output_text'', JStr '' yes '')]))],
       sw_sent = 0, sw_slept = 0\<rparr> = (Inr r, b, t) \<and> r = ''yes'' \<and> trim_space r \<noteq> []"
proof -
  let ?w = "\<lparr>sw_script = [Inl DeadlineExceeded, Inr (reply_doc (JObj [(''output_text'', JStr '' yes '')]))],
       sw_sent = 0, sw_slept = 0\<rparr>"
  let ?b = "FallbackBackend (OpenAIBackend demo_openai) StubBackend"
  have "fst (llm_Complete script_llm ?b ''hi'' ?w) = Inr ''yes''" by code_simp
  then obtain b t where run: "llm_Complete script_llm ?b ''hi'' ?w = (Inr ''yes'', b, t)"
    by (cases "llm_Complete script_llm ?b ''hi'' ?w") auto
  from llm_replies_are_not_blank [OF this] run show ?thesis by blast
qed

text \<open>A Gemini completion sends at most five requests and sleeps at most seven and a half seconds between
  them, whatever the service answers.\<close>

theorem gemini_retries_are_bounded:
  assumes "metered W sent slept" and "ge_Complete W g prompt w = (r, g1, t)"
  shows "sent t \<le> sent w + 5 \<and> slept t \<le> slept w + millis 7500"
proof (cases "ge_apiKey g = []")
  case True
  then show ?thesis using assms(2) by (auto simp: ge_Complete_def millis_def)
next
  case False
  then have run: "ge_attempts W g prompt 5 (millis 500) (Errorf '''' []) w = (r, g1, t)"
    using assms(2) by (simp add: ge_Complete_def geminiMaxAttempts_def geminiInitialBackoff_def)
  show ?thesis using ge_attempts_bounds [OF assms(1) _ run] by (simp add: millis_def)
qed

lemma gemini_retries_are_bounded_witness:
  "case ge_Complete script_llm demo_gemini ''hi'' \<lparr>sw_script = [], sw_sent = 0, sw_slept = 0\<rparr> of
     (r, g, t) \<Rightarrow> sw_sent t \<le> 5 \<and> sw_slept t \<le> millis 7500"
  using gemini_retries_are_bounded [OF script_metered, of demo_gemini "''hi''"
      "\<lparr>sw_script = [], sw_sent = 0, sw_slept = 0\<rparr>"]
  by (simp split: prod.split)

text \<open>An OpenAI completion that fails with a live context has sent three requests and slept three seconds: it
  sleeps half a second, a second, and another one and a half seconds after the last attempt.\<close>

theorem openai_sleeps_after_the_last_attempt:
  assumes "metered W sent slept" and "\<forall>w. lw_ctx W w = None" and "oa_apiKey b \<noteq> []"
    and "oa_Complete W b prompt w = (Inl err, t)"
  shows "sent t = sent w + 3 \<and> slept t = slept w + millis 3000"
proof -
  have run: "oa_attempts W b prompt 3 0 (Errorf '''' []) w = (Inl err, t)"
    using assms(3,4) by (simp add: oa_Complete_def)
  show ?thesis using oa_attempts_exact [OF assms(1,2) run] by (simp add: millis_def eval_nat_numeral)
qed

lemma openai_sleeps_after_the_last_attempt_witness:
  "\<exists>err t. oa_Complete script_llm demo_openai ''hi'' \<lparr>sw_script = [], sw_sent = 0, sw_slept = 0\<rparr> = (Inl err, t) \<and>
     sw_sent t = 3 \<and> sw_slept t = millis 3000"
proof -
  let ?w = "\<lparr>sw_script = [], sw_sent = 0, sw_slept = 0\<rparr> :: script_world"
  have "\<not> res_ok (fst (oa_Complete script_llm demo_openai ''hi'' ?w))" by code_simp
  then obtain err t where run: "oa_Complete script_llm demo_openai ''hi'' ?w = (Inl err, t)"
    by (cases "oa_Complete script_llm demo_openai ''hi'' ?w") (auto simp: res_ok_def split: sum.splits)
  have "\<forall>w. lw_ctx script_llm w = None" "oa_apiKey demo_openai \<noteq> []"
    by (simp_all add: script_llm_def demo_openai_def)
  from openai_sleeps_after_the_last_attempt [OF script_metered this run] run show ?thesis by simp
qed


end
