(* ===== verification/Protocol_Policy.thy ===== *)
theory Protocol_Policy
  imports Http_Client Protocol_Vector
begin

text \<open>
  The remote eviction policy (\<open>internal/plugins/protocol/policy.go\<close>): hooks are put into a bounded channel,
  and a goroutine delivers them in batches. \<open>remote_policy\<close> is the state the goroutines share, with the
  place the sender is at; \<open>rp_step\<close> is one step of one of them. A channel is the list of what is in it, and
  a closed barrier is its number. A caller that waits for room is in \<open>rp_blocked\<close> until there is some, its
  timer fires or the policy stops; a caller that waits for a barrier goes on when it likes, since its own
  timer may fire. The counters are unbounded, and what is only logged is left out.
\<close>

definition eventBuffer :: nat where "eventBuffer = 4096"
definition maxBatch :: nat where "maxBatch = 128"

record policy_event =
  pe_Op :: string
  pe_ID :: string

datatype queued = Event policy_event | Barrier nat

fun is_barrier :: "queued \<Rightarrow> bool" where
  "is_barrier (Barrier _) = True"
| "is_barrier (Event _) = False"

fun events_of :: "queued list \<Rightarrow> policy_event list" where
  "events_of [] = []"
| "events_of (Event e # qs) = e # events_of qs"
| "events_of (Barrier _ # qs) = events_of qs"

fun barriers_of :: "queued list \<Rightarrow> nat list" where
  "barriers_of [] = []"
| "barriers_of (Event _ # qs) = barriers_of qs"
| "barriers_of (Barrier n # qs) = n # barriers_of qs"

section \<open>Starting\<close>

definition policy_client :: "'w client \<Rightarrow> 'w client" where
  "policy_client c =
     (let c1 = (if cl_MaxResponse c = 0 \<or> 2 ^ 20 < cl_MaxResponse c then c\<lparr>cl_MaxResponse := 2 ^ 20\<rparr> else c)
      in if cl_Timeout c1 = 0 \<or> 5 * 10 ^ 9 < cl_Timeout c1 then c1\<lparr>cl_Timeout := 5 * 10 ^ 9\<rparr> else c1)"

text \<open>Where the sender is: waiting for an item, filling a batch, about to deliver it, emptying the channel after
  a stop, or gone.\<close>

datatype sender_at = Waiting | Filling | Delivering | Stopping | Gone

record 'w remote_policy =
  rp_name :: string
  rp_ch :: "queued list"
  rp_blocked :: "policy_event list"
  rp_sender :: sender_at
  rp_taken :: "queued list"          \<comment> \<open>the batch and the barriers of this round, in order\<close>
  rp_closed :: "nat list"
  rp_next :: nat                     \<comment> \<open>the next barrier\<close>
  rp_stop :: bool
  rp_dropped :: int
  rp_failed :: int
  rp_lastErr :: "goerr option"
  rp_world :: 'w

definition NewPolicy :: "'w client \<Rightarrow> 'w \<Rightarrow> 'w remote_policy res \<times> 'w" where
  "NewPolicy c w =
     (case client_get (policy_client c) ''GET'' ''/v1/policy'' [] None (\<lambda>j. json_struct [(''name'', json_string)] j []) [] w of
        (Inl e, w1) \<Rightarrow> (Inl (Errorf ''policy plugin: %w'' [AWrap e]), w1)
      | (Inr name, w1) \<Rightarrow>
          if name = [] \<or> 64 < length name
          then (Inl (Errorf ''policy plugin: %w (missing name)'' [AWrap ErrMalformed]), w1)
          else (Inr \<lparr>rp_name = name, rp_ch = [], rp_blocked = [], rp_sender = Waiting, rp_taken = [], rp_closed = [],
                 rp_next = 0, rp_stop = False, rp_dropped = 0, rp_failed = 0, rp_lastErr = None, rp_world = w1\<rparr>, w1))"

section \<open>The callers\<close>

definition room :: "'w remote_policy \<Rightarrow> bool" where
  "room s \<longleftrightarrow> length (rp_ch s) < eventBuffer"

definition put :: "queued \<Rightarrow> 'w remote_policy \<Rightarrow> 'w remote_policy" where
  "put q s = s\<lparr>rp_ch := rp_ch s @ [q]\<rparr>"

text \<open>\<open>send\<close> up to the point where it waits.\<close>

definition rp_send :: "string \<Rightarrow> string \<Rightarrow> bool \<Rightarrow> 'w remote_policy \<Rightarrow> 'w remote_policy" where
  "rp_send op k block s =
     (if \<not> ValidID k then s
      else let e = \<lparr>pe_Op = op, pe_ID = k\<rparr> in
        if room s then put (Event e) s
        else if \<not> block then s\<lparr>rp_dropped := rp_dropped s + 1\<rparr>
        else s\<lparr>rp_blocked := rp_blocked s @ [e]\<rparr>)"

definition rp_OnHit :: "string \<Rightarrow> 'w remote_policy \<Rightarrow> 'w remote_policy" where
  "rp_OnHit k = rp_send ''hit'' k False"

definition rp_OnInsert :: "string \<Rightarrow> 'w remote_policy \<Rightarrow> 'w remote_policy" where
  "rp_OnInsert k = rp_send ''insert'' k True"

definition rp_OnDelete :: "string \<Rightarrow> 'w remote_policy \<Rightarrow> 'w remote_policy" where
  "rp_OnDelete k = rp_send ''delete'' k True"

text \<open>A waiting caller finds room, or its timer fires, or the policy has stopped.\<close>

definition blocked_sends :: "policy_event \<Rightarrow> 'w remote_policy \<Rightarrow> 'w remote_policy" where
  "blocked_sends e s = put (Event e) (s\<lparr>rp_blocked := remove1 e (rp_blocked s)\<rparr>)"

definition blocked_drops :: "policy_event \<Rightarrow> 'w remote_policy \<Rightarrow> 'w remote_policy" where
  "blocked_drops e s = s\<lparr>rp_blocked := remove1 e (rp_blocked s), rp_dropped := rp_dropped s + 1\<rparr>"

definition blocked_leaves :: "policy_event \<Rightarrow> 'w remote_policy \<Rightarrow> 'w remote_policy" where
  "blocked_leaves e s = s\<lparr>rp_blocked := remove1 e (rp_blocked s)\<rparr>"

text \<open>\<open>syncEvents\<close> up to the point where it waits for its barrier.\<close>

definition put_barrier :: "'w remote_policy \<Rightarrow> 'w remote_policy" where
  "put_barrier s = put (Barrier (rp_next s)) (s\<lparr>rp_next := Suc (rp_next s)\<rparr>)"

text \<open>\<open>Victim\<close> and \<open>Flush\<close> after their barrier. The deadline is the client's.\<close>

definition decode_victim :: "json \<Rightarrow> (string \<times> bool) res" where
  "decode_victim j = json_struct
     [(''id'', \<lambda>j (k, ok). res_bind (json_string j k) (\<lambda>x. Inr (x, ok))),
      (''ok'', \<lambda>j (k, ok). res_bind (json_bool j ok) (\<lambda>x. Inr (k, x)))] j ([], False)"

definition ask_victim :: "'w client \<Rightarrow> 'w \<Rightarrow> string option \<times> 'w" where
  "ask_victim c w =
     (case client_get c ''GET'' ''/v1/victim'' [] None decode_victim ([], False) w of
        (Inl e, w1) \<Rightarrow> (None, w1)
      | (Inr (k, ok), w1) \<Rightarrow> (if ok \<and> ValidID k then Some k else None, w1))"

definition ask_flush :: "'w client \<Rightarrow> 'w \<Rightarrow> goerr option \<times> 'w" where
  "ask_flush c w = client_call c ''POST'' ''/v1/flush'' (Some (Inr (JObj []))) w"

definition rp_Health :: "'w client \<Rightarrow> 'w remote_policy \<Rightarrow> goerr option \<times> 'w" where
  "rp_Health c s =
     (case client_Health c (rp_world s) of
        (Some e, w) \<Rightarrow> (Some e, w)
      | (None, w) \<Rightarrow>
          (if 0 < rp_dropped s then Some (Errorf ''policy plugin dropped %d events (buffer full)'' [AInt (rp_dropped s)])
           else if 0 < rp_failed s
           then Some (Errorf ''policy plugin failed to receive %d events: %s''
                  (AInt (rp_failed s) # (case rp_lastErr s of None \<Rightarrow> [] | Some e \<Rightarrow> [AErr e])))
           else None, w))"

section \<open>The sender\<close>

definition events_json :: "policy_event list \<Rightarrow> json" where
  "events_json es = JObj [(''events'', JArr (map (\<lambda>e. JObj [(''op'', JStr (pe_Op e)), (''id'', JStr (pe_ID e))]) es))]"

text \<open>\<open>flush\<close>: deliver the batch, then close the barriers.\<close>

definition sender_flush :: "'w client \<Rightarrow> 'w remote_policy \<Rightarrow> 'w remote_policy" where
  "sender_flush c s =
     (let batch = events_of (rp_taken s);
          s1 = (if batch = [] then s
                else case client_call c ''POST'' ''/v1/events'' (Some (Inr (events_json batch))) (rp_world s) of
                  (None, w) \<Rightarrow> s\<lparr>rp_world := w\<rparr>
                | (Some e, w) \<Rightarrow> s\<lparr>rp_world := w, rp_failed := rp_failed s + int (length batch), rp_lastErr := Some e\<rparr>)
      in s1\<lparr>rp_closed := rp_closed s @ barriers_of (rp_taken s), rp_taken := []\<rparr>)"

text \<open>One step of the loop; \<open>None\<close> when the sender waits. When an item and the stop are both there it may go
  either way: \<open>stop_first\<close> decides.\<close>

definition sender_step :: "'w client \<Rightarrow> bool \<Rightarrow> 'w remote_policy \<Rightarrow> 'w remote_policy option" where
  "sender_step c stop_first s =
     (case rp_sender s of
        Waiting \<Rightarrow>
          if rp_stop s \<and> (stop_first \<or> rp_ch s = []) then Some (s\<lparr>rp_sender := Stopping\<rparr>)
          else (case rp_ch s of
                  [] \<Rightarrow> None
                | q # r \<Rightarrow> Some (s\<lparr>rp_ch := r, rp_taken := [q], rp_sender := Filling\<rparr>))
      | Filling \<Rightarrow>
          if length (events_of (rp_taken s)) < maxBatch then
            (case rp_ch s of
               [] \<Rightarrow> Some (s\<lparr>rp_sender := Delivering\<rparr>)
             | q # r \<Rightarrow> Some (s\<lparr>rp_ch := r, rp_taken := rp_taken s @ [q],
                                 rp_sender := if is_barrier q then Delivering else Filling\<rparr>))
          else Some (s\<lparr>rp_sender := Delivering\<rparr>)
      | Delivering \<Rightarrow> Some ((sender_flush c s)\<lparr>rp_sender := Waiting\<rparr>)
      | Stopping \<Rightarrow>
          (case rp_ch s of
             q # r \<Rightarrow> Some (s\<lparr>rp_ch := r, rp_taken := rp_taken s @ [q]\<rparr>)
           | [] \<Rightarrow> Some ((sender_flush c s)\<lparr>rp_sender := Gone\<rparr>))
      | Gone \<Rightarrow> None)"

section \<open>Runs\<close>

text \<open>
  What a run did: everything that was put into the channel, everything the sender is done with, and the
  calls made, each with whether it was answered.
\<close>

datatype plugin_call = Events "policy_event list" bool | Flush_call bool

record rp_trace =
  tr_log :: "queued list"
  tr_done :: "queued list"
  tr_calls :: "plugin_call list"

definition rp_start :: rp_trace where
  "rp_start = \<lparr>tr_log = [], tr_done = [], tr_calls = []\<rparr>"

definition puts :: "'w remote_policy \<Rightarrow> 'w remote_policy \<Rightarrow> rp_trace \<Rightarrow> rp_trace" where
  "puts s t tr = tr\<lparr>tr_log := tr_log tr @ drop (length (rp_ch s)) (rp_ch t)\<rparr>"

definition flushed_to :: "'w client \<Rightarrow> 'w remote_policy \<Rightarrow> rp_trace \<Rightarrow> rp_trace" where
  "flushed_to c s tr =
     (let batch = events_of (rp_taken s) in
      tr\<lparr>tr_done := tr_done tr @ rp_taken s,
         tr_calls := tr_calls tr @ (if batch = [] then []
           else [Events batch (fst (client_call c ''POST'' ''/v1/events'' (Some (Inr (events_json batch))) (rp_world s)) = None)])\<rparr>)"

text \<open>\<open>env\<close> is what else may happen to the world between two steps, a change of the network for instance.\<close>

inductive rp_step :: "('w \<Rightarrow> 'w \<Rightarrow> bool) \<Rightarrow> 'w client \<Rightarrow> 'w remote_policy \<times> rp_trace \<Rightarrow> 'w remote_policy \<times> rp_trace \<Rightarrow> bool"
  for env c where
  hit: "t = rp_OnHit k s \<Longrightarrow> rp_step env c (s, tr) (t, puts s t tr)"
| ins: "t = rp_OnInsert k s \<Longrightarrow> rp_step env c (s, tr) (t, puts s t tr)"
| del: "t = rp_OnDelete k s \<Longrightarrow> rp_step env c (s, tr) (t, puts s t tr)"
| sends: "e \<in> set (rp_blocked s) \<Longrightarrow> room s \<Longrightarrow> t = blocked_sends e s \<Longrightarrow> rp_step env c (s, tr) (t, puts s t tr)"
| drops: "e \<in> set (rp_blocked s) \<Longrightarrow> rp_step env c (s, tr) (blocked_drops e s, tr)"
| leaves: "e \<in> set (rp_blocked s) \<Longrightarrow> rp_stop s \<Longrightarrow> rp_step env c (s, tr) (blocked_leaves e s, tr)"
| barrier: "room s \<Longrightarrow> t = put_barrier s \<Longrightarrow> rp_step env c (s, tr) (t, puts s t tr)"
| victim: "ask_victim c (rp_world s) = (v, w) \<Longrightarrow> rp_step env c (s, tr) (s\<lparr>rp_world := w\<rparr>, tr)"
| flush: "ask_flush c (rp_world s) = (e, w) \<Longrightarrow>
    rp_step env c (s, tr) (s\<lparr>rp_world := w\<rparr>, tr\<lparr>tr_calls := tr_calls tr @ [Flush_call (e = None)]\<rparr>)"
| health: "rp_Health c s = (e, w) \<Longrightarrow> rp_step env c (s, tr) (s\<lparr>rp_world := w\<rparr>, tr)"
| close: "rp_step env c (s, tr) (s\<lparr>rp_stop := True\<rparr>, tr)"
| sender: "sender_step c b s = Some t \<Longrightarrow> rp_sender s \<notin> {Delivering, Stopping} \<Longrightarrow> rp_step env c (s, tr) (t, tr)"
| takes: "sender_step c b s = Some t \<Longrightarrow> rp_sender s = Stopping \<Longrightarrow> rp_ch s \<noteq> [] \<Longrightarrow> rp_step env c (s, tr) (t, tr)"
| delivers: "sender_step c b s = Some t \<Longrightarrow> rp_sender s = Delivering \<or> rp_sender s = Stopping \<and> rp_ch s = [] \<Longrightarrow>
    rp_step env c (s, tr) (t, flushed_to c s tr)"
| world: "env (rp_world s) w \<Longrightarrow> rp_step env c (s, tr) (s\<lparr>rp_world := w\<rparr>, tr)"

section \<open>What every run keeps\<close>

lemma events_of_append [simp]: "events_of (xs @ ys) = events_of xs @ events_of ys"
  by (induction xs rule: events_of.induct) auto

lemma barriers_of_append [simp]: "barriers_of (xs @ ys) = barriers_of xs @ barriers_of ys"
  by (induction xs rule: barriers_of.induct) auto

lemma length_events_of [simp]: "length (events_of [q]) = (if is_barrier q then 0 else 1)"
  by (cases q) simp_all

lemma barriers_iff: "n \<in> set (barriers_of qs) \<longleftrightarrow> Barrier n \<in> set qs"
  by (induction qs rule: barriers_of.induct) auto

fun batch_of :: "plugin_call \<Rightarrow> policy_event list" where
  "batch_of (Events es b) = es"
| "batch_of (Flush_call b) = []"

fun lost_by :: "plugin_call \<Rightarrow> int" where
  "lost_by (Events es b) = (if b then 0 else int (length es))"
| "lost_by (Flush_call b) = 0"

definition rp_inv :: "'w remote_policy \<times> rp_trace \<Rightarrow> bool" where
  "rp_inv x = (case x of (s, tr) \<Rightarrow>
     tr_log tr = tr_done tr @ rp_taken s @ rp_ch s \<and>
     concat (map batch_of (tr_calls tr)) = events_of (tr_done tr) \<and>
     rp_failed s = (\<Sum>call \<leftarrow> tr_calls tr. lost_by call) \<and>
     rp_closed s = barriers_of (tr_done tr) \<and>
     length (rp_ch s) \<le> eventBuffer \<and>
     distinct (barriers_of (tr_log tr)) \<and> (\<forall>n \<in> set (barriers_of (tr_log tr)). n < rp_next s) \<and>
     (rp_sender s = Waiting \<or> rp_sender s = Gone \<longrightarrow> rp_taken s = []) \<and>
     (rp_sender s = Filling \<or> rp_sender s = Delivering \<longrightarrow> length (events_of (rp_taken s)) \<le> maxBatch))"

lemma rp_inv_start: "NewPolicy c w = (Inr s, w1) \<Longrightarrow> rp_inv (s, rp_start)"
  by (auto simp: NewPolicy_def rp_inv_def rp_start_def split: sum.splits prod.splits if_splits)

text \<open>A caller's step puts at most one item, and only when there is room.\<close>

inductive caller_step :: "'w remote_policy \<Rightarrow> 'w remote_policy \<Rightarrow> bool" for s where
  same: "caller_step s s"
| drop: "caller_step s (s\<lparr>rp_dropped := d\<rparr>)"
| block: "caller_step s (s\<lparr>rp_blocked := b\<rparr>)"
| unblock: "caller_step s (s\<lparr>rp_blocked := b, rp_dropped := d\<rparr>)"
| send: "room s \<Longrightarrow> caller_step s (s\<lparr>rp_ch := rp_ch s @ [Event e]\<rparr>)"
| late: "room s \<Longrightarrow> caller_step s (s\<lparr>rp_blocked := b, rp_ch := rp_ch s @ [Event e]\<rparr>)"
| sync: "room s \<Longrightarrow> caller_step s (s\<lparr>rp_next := Suc (rp_next s), rp_ch := rp_ch s @ [Barrier (rp_next s)]\<rparr>)"

lemma caller_steps:
  "caller_step s (rp_OnHit k s)" "caller_step s (rp_OnInsert k s)" "caller_step s (rp_OnDelete k s)"
  "room s \<Longrightarrow> caller_step s (blocked_sends e s)" "room s \<Longrightarrow> caller_step s (put_barrier s)"
  by (auto simp: rp_OnHit_def rp_OnInsert_def rp_OnDelete_def rp_send_def put_def
      blocked_sends_def put_barrier_def Let_def intro: caller_step.intros)

lemma rp_inv_caller:
  assumes "caller_step s t" and "rp_inv (s, tr)"
  shows "rp_inv (t, puts s t tr)"
  using assms
proof cases
  case sync
  have "rp_next s \<notin> set (barriers_of (tr_log tr))" using assms(2) by (auto simp: rp_inv_def)
  then show ?thesis using sync assms(2) by (auto simp: rp_inv_def puts_def room_def less_SucI)
qed (use assms(2) in \<open>simp_all add: rp_inv_def puts_def room_def\<close>)

lemma rp_inv_flush:
  assumes "rp_inv (s, tr)" and "rp_sender s = Delivering \<and> a = Waiting \<or> rp_sender s = Stopping \<and> a = Gone"
  shows "rp_inv ((sender_flush c s)\<lparr>rp_sender := a\<rparr>, flushed_to c s tr)"
  using assms
  by (cases "client_call c ''POST'' ''/v1/events'' (Some (Inr (events_json (events_of (rp_taken s))))) (rp_world s)")
    (auto simp: rp_inv_def sender_flush_def flushed_to_def Let_def split: option.splits)

lemma rp_inv_step:
  assumes "rp_step env c x y" and "rp_inv x"
  shows "rp_inv y"
  using assms
proof cases
  case (sender b s t tr)
  then show ?thesis
    using assms(2)
    by (auto simp: sender_step_def rp_inv_def maxBatch_def split: sender_at.splits list.splits if_splits)
next
  case (takes b s t tr)
  then show ?thesis using assms(2) by (auto simp: sender_step_def rp_inv_def split: list.splits)
next
  case (delivers b s t tr)
  then consider "rp_sender s = Delivering" "t = (sender_flush c s)\<lparr>rp_sender := Waiting\<rparr>"
    | "rp_sender s = Stopping" "t = (sender_flush c s)\<lparr>rp_sender := Gone\<rparr>"
    by (auto simp: sender_step_def split: list.splits)
  then show ?thesis using rp_inv_flush [of s tr _ c] delivers(1,2) assms(2) by cases simp_all
next
  case (drops e s tr)
  then show ?thesis using assms(2) by (auto simp: rp_inv_def blocked_drops_def)
next
  case (leaves e s tr)
  then show ?thesis using assms(2) by (auto simp: rp_inv_def blocked_leaves_def)
next
  case hit
  then show ?thesis using assms(2) rp_inv_caller [OF caller_steps(1)] by simp
next
  case ins
  then show ?thesis using assms(2) rp_inv_caller [OF caller_steps(2)] by simp
next
  case del
  then show ?thesis using assms(2) rp_inv_caller [OF caller_steps(3)] by simp
next
  case sends
  then show ?thesis using assms(2) rp_inv_caller [OF caller_steps(4)] by simp
next
  case barrier
  then show ?thesis using assms(2) rp_inv_caller [OF caller_steps(5)] by simp
next
  case flush
  then show ?thesis using assms(2) by (auto simp: rp_inv_def)
qed (use assms(2) in \<open>auto simp: rp_inv_def\<close>)

lemma rp_inv_run: "(rp_step env c)\<^sup>*\<^sup>* x y \<Longrightarrow> rp_inv x \<Longrightarrow> rp_inv y"
  by (induction rule: rtranclp_induct) (auto intro: rp_inv_step)


text \<open>A remote policy's events are delivered in order. In every run the sender is done with a prefix of what was
  put into the channel, every event of it was in exactly one delivery, in the same order, and those in
  deliveries that were not answered are counted; a closed barrier stands behind everything put before it.\<close>

theorem remote_policy_events_in_order:
  assumes "NewPolicy c w = (Inr s, w1)" and "(rp_step env c)\<^sup>*\<^sup>* (s, rp_start) (t, tr)"
  shows "(\<exists>rest. tr_log tr = tr_done tr @ rest \<and> rest = rp_taken t @ rp_ch t) \<and>
    concat (map batch_of (tr_calls tr)) = events_of (tr_done tr) \<and>
    rp_failed t = (\<Sum>call \<leftarrow> tr_calls tr. lost_by call) \<and>
    (\<forall>n before after. n \<in> set (rp_closed t) \<and> tr_log tr = before @ Barrier n # after \<longrightarrow>
       (\<exists>more. tr_done tr = before @ Barrier n # more))"
proof -
  have inv: "rp_inv (t, tr)" by (rule rp_inv_run [OF assms(2) rp_inv_start [OF assms(1)]])
  have "\<exists>more. tr_done tr = before @ Barrier n # more"
    if n: "n \<in> set (rp_closed t)" and log: "tr_log tr = before @ Barrier n # after" for n before after
  proof -
    have "Barrier n \<in> set (tr_done tr)" using inv n by (simp add: rp_inv_def barriers_iff)
    then obtain us vs where d: "tr_done tr = us @ Barrier n # vs" by (meson split_list)
    have log': "tr_log tr = us @ Barrier n # vs @ rp_taken t @ rp_ch t" using inv d by (simp add: rp_inv_def)
    have "distinct (barriers_of (tr_log tr))" using inv unfolding rp_inv_def by blast
    then have "distinct (barriers_of (before @ Barrier n # after))"
      and "distinct (barriers_of (us @ Barrier n # vs @ rp_taken t @ rp_ch t))"
      by (simp_all only: log [symmetric] log' [symmetric])
    then have "Barrier n \<notin> set before" "Barrier n \<notin> set us"
      by (auto simp: barriers_iff [symmetric])
    moreover have "takeWhile (\<lambda>q. q \<noteq> Barrier n) (tr_log tr) = before" if "Barrier n \<notin> set before"
      using that unfolding log by (subst takeWhile_append2) auto
    moreover have "takeWhile (\<lambda>q. q \<noteq> Barrier n) (tr_log tr) = us" if "Barrier n \<notin> set us"
      using that unfolding log' by (subst takeWhile_append2) auto
    ultimately have "us = before" by metis
    then show ?thesis using d by blast
  qed
  moreover have "tr_log tr = tr_done tr @ rp_taken t @ rp_ch t" "concat (map batch_of (tr_calls tr)) = events_of (tr_done tr)"
      "rp_failed t = (\<Sum>call \<leftarrow> tr_calls tr. lost_by call)"
    using inv unfolding rp_inv_def prod.case by blast+
  ultimately show ?thesis by blast
qed


text \<open>\<open>Health\<close> counts since the beginning: its counters are never reset.\<close>

lemma rp_counts_grow:
  assumes "rp_step env c (s, tr) (t, tr')"
  shows "rp_dropped s \<le> rp_dropped t \<and> rp_failed s \<le> rp_failed t"
  using assms
  by cases (auto simp: rp_OnHit_def rp_OnInsert_def rp_OnDelete_def rp_send_def put_def Let_def blocked_sends_def
      blocked_drops_def blocked_leaves_def put_barrier_def sender_step_def sender_flush_def
      split: if_splits sender_at.splits list.splits option.splits prod.splits)

lemma rp_counts_grow_run:
  "(rp_step env c)\<^sup>*\<^sup>* x y \<Longrightarrow> rp_dropped (fst x) \<le> rp_dropped (fst y) \<and> rp_failed (fst x) \<le> rp_failed (fst y)"
proof (induction rule: rtranclp_induct)
  case (step y z)
  then show ?case using rp_counts_grow [of env c "fst y" "snd y" "fst z" "snd z"] by auto
qed simp

text \<open>After one event was dropped or one delivery failed, no later check of the policy's health succeeds,
  however well the plugin works again.\<close>

theorem unhealthy_policy_stays_unhealthy:
  assumes "0 < rp_dropped s \<or> 0 < rp_failed s" and "(rp_step env c)\<^sup>*\<^sup>* (s, tr) (t, tr')"
  shows "fst (rp_Health c t) \<noteq> None"
  using rp_counts_grow_run [OF assms(2)] assms(1)
  by (auto simp: rp_Health_def split: prod.splits option.splits)


end
