(* ===== verification/Protocol_Queue.thy ===== *)
theory Protocol_Queue
  imports Http_Client Ports Protocol_Vector "HOL-Library.Word"
begin

text \<open>
  The remote cache-update queue (\<open>internal/plugins/protocol/queue.go\<close>): jobs are leased, and only an
  acknowledgement removes one. \<open>Run\<close> is modelled by its rounds. A worker's context is the context of
  the client; the calls that settle a job run on a context of their own. A panic of the handler is an
  error it returns. Waiting and logging are left out.
\<close>

record queue_opts =
  qo_VisibilityTimeout :: int
  qo_LeaseWait :: int
  qo_IdleBackoff :: int

definition queue_defaults :: "queue_opts \<Rightarrow> queue_opts" where
  "queue_defaults q =
     \<lparr>qo_VisibilityTimeout = (if qo_VisibilityTimeout q \<le> 0 then 60 * 10 ^ 9 else qo_VisibilityTimeout q),
      qo_LeaseWait = (if qo_LeaseWait q \<le> 0 then 2 * 10 ^ 9 else qo_LeaseWait q),
      qo_IdleBackoff = (if qo_IdleBackoff q \<le> 0 then 5 * 10 ^ 8 else qo_IdleBackoff q)\<rparr>"

text \<open>The client of a queue with the options \<open>queue_defaults q\<close>: a lease waits at the server.\<close>

definition NewQueue :: "'w client \<Rightarrow> queue_opts \<Rightarrow> 'w client \<times> queue_opts" where
  "NewQueue c opts =
     (let q = queue_defaults opts;
          c1 = (if cl_MaxResponse c = 0 \<or> 16 * 2 ^ 20 < cl_MaxResponse c then c\<lparr>cl_MaxResponse := 16 * 2 ^ 20\<rparr> else c);
          least = qo_LeaseWait q + 5 * 10 ^ 9
      in (if cl_Timeout c1 < least then c1\<lparr>cl_Timeout := least\<rparr> else c1, q))"

section \<open>Enqueueing\<close>

definition job_request :: "Job \<Rightarrow> json res" where
  "job_request job = res_bind (json_of_floats (j_Vector job)) (\<lambda>v.
     Inr (JObj [(''prompt'', JStr (j_Prompt job)), (''reply'', JStr (j_Reply job)), (''vector'', v)]))"

definition pq_Enqueue :: "'w client \<Rightarrow> Job \<Rightarrow> 'w \<Rightarrow> goerr option \<times> 'w" where
  "pq_Enqueue c job w =
     (case client_Do c ''POST'' ''/v1/jobs'' [] (Some (job_request job)) (Some decode_id) [] w of
        ((status, e, k), w1) \<Rightarrow>
          (case e of
             Some x \<Rightarrow> Some (Errorf ''queue plugin: enqueue: %w'' [AWrap x])
           | None \<Rightarrow>
               if status \<noteq> 201 \<or> \<not> ValidID k then Some (Errorf ''queue plugin did not confirm a durable enqueue'' [])
               else None, w1))"

section \<open>Leasing\<close>

record leased_job =
  lj_ID :: string
  lj_Job :: Job
  lj_Token :: string
  lj_Attempt :: int

definition zero_lease :: leased_job where
  "zero_lease = \<lparr>lj_ID = [], lj_Job = \<lparr>j_Prompt = [], j_Reply = [], j_Vector = []\<rparr>, lj_Token = [], lj_Attempt = 0\<rparr>"

definition lease_fields :: "(string \<times> leased_job setter) list" where
  "lease_fields =
     [(''id'', \<lambda>j l. res_bind (json_string j (lj_ID l)) (\<lambda>x. Inr (l\<lparr>lj_ID := x\<rparr>))),
      (''prompt'', \<lambda>j l. res_bind (json_string j (j_Prompt (lj_Job l))) (\<lambda>x. Inr (l\<lparr>lj_Job := lj_Job l\<lparr>j_Prompt := x\<rparr>\<rparr>))),
      (''reply'', \<lambda>j l. res_bind (json_string j (j_Reply (lj_Job l))) (\<lambda>x. Inr (l\<lparr>lj_Job := lj_Job l\<lparr>j_Reply := x\<rparr>\<rparr>))),
      (''vector'', \<lambda>j l. res_bind (json_floats j (j_Vector (lj_Job l))) (\<lambda>x. Inr (l\<lparr>lj_Job := lj_Job l\<lparr>j_Vector := x\<rparr>\<rparr>))),
      (''lease_token'', \<lambda>j l. res_bind (json_string j (lj_Token l)) (\<lambda>x. Inr (l\<lparr>lj_Token := x\<rparr>))),
      (''attempt'', \<lambda>j l. res_bind (json_int j (lj_Attempt l)) (\<lambda>x. Inr (l\<lparr>lj_Attempt := x\<rparr>)))]"

definition decode_lease :: "json \<Rightarrow> leased_job list res" where
  "decode_lease j = json_struct
     [(''jobs'', \<lambda>j _. res_bind (json_slice (\<lambda>x. json_struct lease_fields x zero_lease) j)
        (\<lambda>x. Inr (case x of None \<Rightarrow> [] | Some ls \<Rightarrow> ls)))] j []"

text \<open>Go divides towards zero; the options are positive.\<close>

definition lease_request :: "queue_opts \<Rightarrow> json" where
  "lease_request q = JObj [(''max_jobs'', JInt 1),
     (''visibility_timeout_seconds'', JInt (qo_VisibilityTimeout q div 10 ^ 9)),
     (''wait_seconds'', JInt (qo_LeaseWait q div 10 ^ 9))]"

definition pq_lease :: "'w client \<Rightarrow> queue_opts \<Rightarrow> 'w \<Rightarrow> leased_job option res \<times> 'w" where
  "pq_lease c q w =
     (case client_Do c ''POST'' ''/v1/jobs/lease'' [] (Some (Inr (lease_request q))) (Some decode_lease) [] w of
        ((status, e, ls), w1) \<Rightarrow>
          (case e of
             Some x \<Rightarrow> Inl x
           | None \<Rightarrow>
               (case ls of
                  [] \<Rightarrow> Inr None
                | j # rest \<Rightarrow>
                    if status = 204 then Inr None
                    else if rest \<noteq> [] then Inl (Errorf ''queue plugin returned more jobs than requested'' [])
                    else if \<not> ValidID (lj_ID j) \<or> lj_Token j = []
                    then Inl (Errorf ''queue plugin returned a job without a valid id and lease token'' [])
                    else Inr (Some j)), w1))"

section \<open>Settling\<close>

definition status_is :: "int \<Rightarrow> goerr \<Rightarrow> bool" where
  "status_is st e =
     (case errors_as (\<lambda>x. case x of StatusError _ _ _ \<Rightarrow> True | _ \<Rightarrow> False) e of
        Some (StatusError n _ _) \<Rightarrow> n = st | _ \<Rightarrow> False)"

text \<open>At most \<open>n\<close> attempts; a lost lease ends them.\<close>

fun settle_loop :: "'w client \<Rightarrow> string \<Rightarrow> leased_job \<Rightarrow> nat \<Rightarrow> goerr option \<Rightarrow> 'w \<Rightarrow> goerr option \<times> 'w" where
  "settle_loop c action j 0 lastErr w = (lastErr, w)"
| "settle_loop c action j (Suc n) lastErr w =
     (case client_call (c\<lparr>cl_ctx := \<lambda>_. None\<rparr>) ''POST'' (''/v1/jobs/'' @ lj_ID j @ ''/'' @ action)
             (Some (Inr (JObj [(''lease_token'', JStr (lj_Token j))]))) w of
        (None, w1) \<Rightarrow> (None, w1)
      | (Some e, w1) \<Rightarrow> if status_is 409 e then (Some e, w1) else settle_loop c action j n (Some e) w1)"

definition settle :: "'w client \<Rightarrow> string \<Rightarrow> leased_job \<Rightarrow> 'w \<Rightarrow> goerr option \<times> 'w" where
  "settle c action j w = settle_loop c action j 3 None w"

section \<open>The worker\<close>

text \<open>What a round was: no lease, no job, or a job and whether its handler succeeded.\<close>

datatype q_round = Lease_failed | Idle | Job_failed string | Job_done string Job

definition pq_process ::
    "'w client \<Rightarrow> (Job \<Rightarrow> 'h \<Rightarrow> goerr option \<times> 'h) \<Rightarrow> leased_job \<Rightarrow> 'h \<times> 'w \<Rightarrow> q_round \<times> 'h \<times> 'w" where
  "pq_process c handler j s =
     (case handler (lj_Job j) (fst s) of
        (Some herr, h) \<Rightarrow> (Job_failed (lj_ID j), h, snd (settle c ''nack'' j (snd s)))
      | (None, h) \<Rightarrow> (Job_done (lj_ID j) (lj_Job j), h, snd (settle c ''ack'' j (snd s))))"

definition pq_round ::
    "'w client \<Rightarrow> queue_opts \<Rightarrow> (Job \<Rightarrow> 'h \<Rightarrow> goerr option \<times> 'h) \<Rightarrow> 'h \<times> 'w \<Rightarrow> q_round \<times> 'h \<times> 'w" where
  "pq_round c q handler s =
     (case pq_lease c q (snd s) of
        (Inl e, w) \<Rightarrow> (Lease_failed, fst s, w)
      | (Inr None, w) \<Rightarrow> (Idle, fst s, w)
      | (Inr (Some j), w) \<Rightarrow> pq_process c handler j (fst s, w))"

text \<open>The first \<open>n\<close> rounds of \<open>Run\<close>, fewer when the context ends.\<close>

fun pq_Run ::
    "'w client \<Rightarrow> queue_opts \<Rightarrow> (Job \<Rightarrow> 'h \<Rightarrow> goerr option \<times> 'h) \<Rightarrow> nat \<Rightarrow> 'h \<times> 'w \<Rightarrow> q_round list \<times> 'h \<times> 'w" where
  "pq_Run c q handler 0 s = ([], s)"
| "pq_Run c q handler (Suc n) s =
     (if cl_ctx c (snd s) \<noteq> None then ([], s)
      else case pq_round c q handler s of (r, t) \<Rightarrow> (case pq_Run c q handler n t of (rs, u) \<Rightarrow> (r # rs, u)))"

definition decode_stats :: "json \<Rightarrow> (int option \<times> int) res" where
  "decode_stats j = json_struct
     [(''pending'', \<lambda>j (p, l). res_bind (json_int_ptr j) (\<lambda>x. Inr (x, l))),
      (''leased'', \<lambda>j (p, l). res_bind (json_int j l) (\<lambda>x. Inr (p, x)))] j (None, 0)"

definition pq_Depth :: "'w client \<Rightarrow> 'w \<Rightarrow> int res \<times> 'w" where
  "pq_Depth c w =
     (case client_get c ''GET'' ''/v1/jobs/stats'' [] None decode_stats (None, 0) w of
        (Inl e, w1) \<Rightarrow> (Inl e, w1)
      | (Inr (None, l), w1) \<Rightarrow> (Inl ErrMalformed, w1)
      | (Inr (Some p, l), w1) \<Rightarrow> (Inr (sint (word_of_int (p + l) :: 64 word)), w1))"

end
