(* ===== verification/Redis_Registry.thy ===== *)
theory Redis_Registry
  imports Registry
begin

text \<open>
  The durable plugin registry (\<open>internal/plugins/registry/redis.go\<close>). The Redis server is a parameter, the
  commands this store sends; their documented effect on the key space is the locale \<open>registry_db\<close>. A stored
  document stands for what reading its bytes gives, as in the store in memory. \<open>ver\<close> counts the changes of a
  key, which is what \<open>WATCH\<close> looks at.
\<close>

section \<open>The server\<close>

datatype stored = Doc plugin_record | Evt event | Txt string

text \<open>The only hash has the slots as its fields.\<close>

datatype rval =
    RStr stored
  | RSetV "string set"
  | RHash "plugin_type \<Rightarrow> string option"
  | RList "stored list"

text \<open>\<open>LRANGE\<close>: both ends count, and a negative index counts from the end. \<open>LTRIM\<close> keeps that part.\<close>

definition lrange :: "int \<Rightarrow> int \<Rightarrow> 'a list \<Rightarrow> 'a list" where
  "lrange i j xs =
     (let n = int (length xs); a = (if i < 0 then max 0 (n + i) else i); b = (if j < 0 then n + j else j)
      in if b < a then [] else take (nat (b - a + 1)) (drop (nat a) xs))"

datatype rwrite =
    SRem string string
  | DelKey string
  | LPush string stored
  | RPush string stored
  | LTrim string int int

type_synonym keyspace = "string \<Rightarrow> rval option"

definition list_at :: "keyspace \<Rightarrow> string \<Rightarrow> stored list" where
  "list_at sp k = (case sp k of Some (RList xs) \<Rightarrow> xs | _ \<Rightarrow> [])"

definition put_list :: "string \<Rightarrow> stored list \<Rightarrow> keyspace \<Rightarrow> keyspace" where
  "put_list k xs sp = sp(k := if xs = [] then None else Some (RList xs))"

definition is_list :: "keyspace \<Rightarrow> string \<Rightarrow> bool" where
  "is_list sp k \<longleftrightarrow> (case sp k of None \<Rightarrow> True | Some (RList _) \<Rightarrow> True | _ \<Rightarrow> False)"

text \<open>A command on a key of another type is refused and changes nothing.\<close>

fun rw_apply :: "rwrite \<Rightarrow> keyspace \<Rightarrow> keyspace" where
  "rw_apply (SRem k m) sp = (case sp k of Some (RSetV ms) \<Rightarrow> sp(k := if ms - {m} = {} then None else Some (RSetV (ms - {m}))) | _ \<Rightarrow> sp)"
| "rw_apply (DelKey k) sp = sp(k := None)"
| "rw_apply (LPush k x) sp = (if is_list sp k then put_list k (x # list_at sp k) sp else sp)"
| "rw_apply (RPush k x) sp = (if is_list sp k then put_list k (list_at sp k @ [x]) sp else sp)"
| "rw_apply (LTrim k i j) sp = (if is_list sp k then put_list k (lrange i j (list_at sp k)) sp else sp)"

record ('r, 't) db_ops =
  db_ping :: "'r \<Rightarrow> goerr option \<times> 'r"
  db_get :: "string \<Rightarrow> 'r \<Rightarrow> stored option res \<times> 'r"
  db_setnx :: "string \<Rightarrow> stored \<Rightarrow> 'r \<Rightarrow> bool res \<times> 'r"
  db_sadd :: "string \<Rightarrow> string \<Rightarrow> 'r \<Rightarrow> goerr option \<times> 'r"
  db_smembers :: "string \<Rightarrow> 'r \<Rightarrow> string list res \<times> 'r"
  db_watch :: "string \<Rightarrow> 'r \<Rightarrow> 't res \<times> 'r"
  db_tx_get :: "'t \<Rightarrow> string \<Rightarrow> 'r \<Rightarrow> stored option res \<times> 'r"
  db_tx_set :: "'t \<Rightarrow> string \<Rightarrow> stored \<Rightarrow> 'r \<Rightarrow> goerr option \<times> 'r"
  db_del :: "string \<Rightarrow> 'r \<Rightarrow> int res \<times> 'r"
  db_hgetall :: "string \<Rightarrow> 'r \<Rightarrow> (plugin_type, string) gomap res \<times> 'r"
  db_hset :: "string \<Rightarrow> plugin_type \<Rightarrow> string \<Rightarrow> 'r \<Rightarrow> goerr option \<times> 'r"
  db_hdel :: "string \<Rightarrow> plugin_type \<Rightarrow> 'r \<Rightarrow> goerr option \<times> 'r"
  db_exec :: "rwrite list \<Rightarrow> 'r \<Rightarrow> goerr option \<times> 'r"
  db_lrange :: "string \<Rightarrow> int \<Rightarrow> int \<Rightarrow> 'r \<Rightarrow> stored list res \<times> 'r"

definition TxFailedErr :: goerr where "TxFailedErr = Sentinel ''redis.TxFailedErr''"

section \<open>The store\<close>

text \<open>The readings of \<open>time.Now()\<close> are counted beside the server's state.\<close>

record 'r redis_reg =
  rr_db :: 'r
  rr_clock :: "nat \<Rightarrow> int"
  rr_ticks :: nat

definition regNamespace :: string where "regNamespace = ''llm_cache_plugins''"
definition recKey :: "string \<Rightarrow> string" where "recKey k = regNamespace @ '':record:'' @ k"
definition logKey :: "string \<Rightarrow> string" where "logKey k = regNamespace @ '':logs:'' @ k"
definition regIdsKey :: string where "regIdsKey = regNamespace @ '':ids''"
definition activeKey :: string where "activeKey = regNamespace @ '':active''"
definition auditKey :: string where "auditKey = regNamespace @ '':audit''"

definition on_db :: "('r \<Rightarrow> 'a \<times> 'r) \<Rightarrow> 'r redis_reg \<Rightarrow> 'a \<times> 'r redis_reg" where
  "on_db f s = (case f (rr_db s) of (x, w) \<Rightarrow> (x, s\<lparr>rr_db := w\<rparr>))"

definition rr_Ping :: "('r, 't) db_ops \<Rightarrow> 'r redis_reg \<Rightarrow> goerr option \<times> 'r redis_reg" where
  "rr_Ping D s =
     (case on_db (db_ping D) s of
        (Some e, t) \<Rightarrow> (Some (Errorf ''plugin registry redis ping failed: %w'' [AWrap e]), t)
      | (None, t) \<Rightarrow> (None, t))"

definition NewRedis :: "('r, 't) db_ops \<Rightarrow> 'r redis_reg \<Rightarrow> unit res \<times> 'r redis_reg" where
  "NewRedis D s = (case rr_Ping D s of (Some e, t) \<Rightarrow> (Inl e, t) | (None, t) \<Rightarrow> (Inr (), t))"

fun decode_doc :: "stored \<Rightarrow> plugin_record res" where
  "decode_doc (Doc r) = Inr r"
| "decode_doc _ = Inl (Sentinel ''json.SyntaxError'')"

definition doc_at :: "stored option res \<Rightarrow> plugin_record res" where
  "doc_at v = (case v of Inl e \<Rightarrow> Inl e | Inr None \<Rightarrow> Inl ErrNotFound | Inr (Some b) \<Rightarrow> decode_doc b)"

definition rr_Get :: "('r, 't) db_ops \<Rightarrow> string \<Rightarrow> 'r redis_reg \<Rightarrow> plugin_record res \<times> 'r redis_reg" where
  "rr_Get D k s = (case on_db (db_get D (recKey k)) s of (v, t) \<Rightarrow> (doc_at v, t))"

fun rr_list_loop ::
    "('r, 't) db_ops \<Rightarrow> string list \<Rightarrow> plugin_record list \<Rightarrow> 'r redis_reg \<Rightarrow> plugin_record list res \<times> 'r redis_reg" where
  "rr_list_loop D [] out s = (Inr out, s)"
| "rr_list_loop D (k # ks) out s =
     (case rr_Get D k s of
        (Inl e, t) \<Rightarrow> if errors_is e ErrNotFound then rr_list_loop D ks out t else (Inl e, t)
      | (Inr r, t) \<Rightarrow> rr_list_loop D ks (out @ [r]) t)"

definition rr_List :: "('r, 't) db_ops \<Rightarrow> 'r redis_reg \<Rightarrow> plugin_record list res \<times> 'r redis_reg" where
  "rr_List D s =
     (case on_db (db_smembers D regIdsKey) s of
        (Inl e, t) \<Rightarrow> (Inl e, t)
      | (Inr ks, t) \<Rightarrow>
          (case rr_list_loop D ks [] t of
             (Inl e, u) \<Rightarrow> (Inl e, u)
           | (Inr rs, u) \<Rightarrow> (Inr (sortRecords rs), u)))"

definition rr_Create :: "('r, 't) db_ops \<Rightarrow> plugin_record \<Rightarrow> 'r redis_reg \<Rightarrow> goerr option \<times> 'r redis_reg" where
  "rr_Create D r s =
     (case record_copy (r\<lparr>rc_Rev := 1\<rparr>) of
        Inl e \<Rightarrow> (Some e, s)
      | Inr c \<Rightarrow>
          (case on_db (db_setnx D (recKey (rc_ID r)) (Doc c)) s of
             (Inl e, t) \<Rightarrow> (Some e, t)
           | (Inr False, t) \<Rightarrow> (Some ErrExists, t)
           | (Inr True, t) \<Rightarrow> on_db (db_sadd D regIdsKey (rc_ID r)) t))"

text \<open>The function given to \<open>Watch\<close>: read, apply, write. \<open>rr_stamp\<close> is the record with its new revision and time.\<close>

definition rr_stamp :: "int \<Rightarrow> plugin_record \<Rightarrow> plugin_record res" where
  "rr_stamp now r = record_copy (r\<lparr>rc_Rev := rc_Rev r + 1, rc_UpdatedAt := now\<rparr>)"

definition rr_attempt ::
    "('r, 't) db_ops \<Rightarrow> string \<Rightarrow> (plugin_record \<Rightarrow> plugin_record res) \<Rightarrow> 'r redis_reg \<Rightarrow> plugin_record res \<times> 'r redis_reg" where
  "rr_attempt D k fn s =
     (case on_db (db_watch D (recKey k)) s of
        (Inl e, s1) \<Rightarrow> (Inl e, s1)
      | (Inr tok, s1) \<Rightarrow>
          (case on_db (db_tx_get D tok (recKey k)) s1 of (v, s2) \<Rightarrow>
             case res_bind (doc_at v) fn of
               Inl e \<Rightarrow> (Inl e, s2)
             | Inr r \<Rightarrow>
                 (let s3 = s2\<lparr>rr_ticks := Suc (rr_ticks s2)\<rparr> in
                  case rr_stamp (rr_clock s2 (rr_ticks s2)) r of
                    Inl e \<Rightarrow> (Inl e, s3)
                  | Inr new \<Rightarrow>
                      (case on_db (db_tx_set D tok (recKey k) (Doc new)) s3 of
                         (Some e, s4) \<Rightarrow> (Inl e, s4)
                       | (None, s4) \<Rightarrow> (Inr new, s4)))))"

definition maxAttempts :: nat where "maxAttempts = 60"

fun rr_update_loop ::
    "nat \<Rightarrow> ('r, 't) db_ops \<Rightarrow> string \<Rightarrow> (plugin_record \<Rightarrow> plugin_record res) \<Rightarrow> 'r redis_reg \<Rightarrow>
     plugin_record res \<times> 'r redis_reg" where
  "rr_update_loop 0 D k fn s = (Inl ErrConflict, s)"
| "rr_update_loop (Suc n) D k fn s =
     (case rr_attempt D k fn s of
        (Inl e, t) \<Rightarrow> if errors_is e TxFailedErr then rr_update_loop n D k fn t else (Inl e, t)
      | (Inr r, t) \<Rightarrow> (Inr r, t))"

definition rr_Update ::
    "('r, 't) db_ops \<Rightarrow> string \<Rightarrow> (plugin_record \<Rightarrow> plugin_record res) \<Rightarrow> 'r redis_reg \<Rightarrow> plugin_record res \<times> 'r redis_reg" where
  "rr_Update D = rr_update_loop maxAttempts D"

definition rr_Delete :: "('r, 't) db_ops \<Rightarrow> string \<Rightarrow> 'r redis_reg \<Rightarrow> goerr option \<times> 'r redis_reg" where
  "rr_Delete D k s =
     (case on_db (db_del D (recKey k)) s of
        (Inl e, t) \<Rightarrow> (Some e, t)
      | (Inr n, t) \<Rightarrow>
          if n = 0 then (Some ErrNotFound, t) else on_db (db_exec D [SRem regIdsKey k, DelKey (logKey k)]) t)"

definition rr_SetActive :: "('r, 't) db_ops \<Rightarrow> plugin_type \<Rightarrow> string \<Rightarrow> 'r redis_reg \<Rightarrow> goerr option \<times> 'r redis_reg" where
  "rr_SetActive D slot k = on_db (db_hset D activeKey slot k)"

definition rr_ClearActive :: "('r, 't) db_ops \<Rightarrow> plugin_type \<Rightarrow> 'r redis_reg \<Rightarrow> goerr option \<times> 'r redis_reg" where
  "rr_ClearActive D slot = on_db (db_hdel D activeKey slot)"

definition rr_Active :: "('r, 't) db_ops \<Rightarrow> 'r redis_reg \<Rightarrow> (plugin_type, string) gomap res \<times> 'r redis_reg" where
  "rr_Active D = on_db (db_hgetall D activeKey)"

definition rr_AppendAudit :: "('r, 't) db_ops \<Rightarrow> event \<Rightarrow> 'r redis_reg \<Rightarrow> goerr option \<times> 'r redis_reg" where
  "rr_AppendAudit D e = on_db (db_exec D [LPush auditKey (Evt e), LTrim auditKey 0 (int maxAuditEvents - 1)])"

fun events_of_raw :: "string \<Rightarrow> stored list \<Rightarrow> event list" where
  "events_of_raw k [] = []"
| "events_of_raw k (Evt e # xs) = (if k = [] \<or> ev_PluginID e = k then e # events_of_raw k xs else events_of_raw k xs)"
| "events_of_raw k (_ # xs) = events_of_raw k xs"

text \<open>The loop stops at the limit; a limit of zero or less is none.\<close>

definition rr_Audit :: "('r, 't) db_ops \<Rightarrow> string \<Rightarrow> int \<Rightarrow> 'r redis_reg \<Rightarrow> event list res \<times> 'r redis_reg" where
  "rr_Audit D k limit s =
     (case on_db (db_lrange D auditKey 0 (int maxAuditEvents - 1)) s of
        (Inl e, t) \<Rightarrow> (Inl e, t)
      | (Inr raw, t) \<Rightarrow>
          (Inr (if 0 < limit then take (nat limit) (events_of_raw k raw) else events_of_raw k raw), t))"

definition rr_AppendLog :: "('r, 't) db_ops \<Rightarrow> string \<Rightarrow> string \<Rightarrow> 'r redis_reg \<Rightarrow> goerr option \<times> 'r redis_reg" where
  "rr_AppendLog D k line =
     on_db (db_exec D [RPush (logKey k) (Txt (take maxLogLineLen line)), LTrim (logKey k) (- int maxLogLines) (- 1)])"

text \<open>Whatever a list holds is read as text; only \<open>AppendLog\<close> writes these.\<close>

fun raw_text :: "stored \<Rightarrow> string" where
  "raw_text (Txt l) = l"
| "raw_text _ = []"

definition rr_Logs :: "('r, 't) db_ops \<Rightarrow> string \<Rightarrow> int \<Rightarrow> 'r redis_reg \<Rightarrow> string list res \<times> 'r redis_reg" where
  "rr_Logs D k limit s =
     (case on_db (db_lrange D (logKey k) (if 0 < limit then - limit else 0) (- 1)) s of
        (Inl e, t) \<Rightarrow> (Inl e, t)
      | (Inr raw, t) \<Rightarrow> (Inr (map raw_text raw), t))"

definition redis_registry :: "('r, 't) db_ops \<Rightarrow> 'r redis_reg registry_ops" where
  "redis_registry D =
     \<lparr>rg_Get = rr_Get D, rg_List = rr_List D, rg_Create = rr_Create D, rg_Update = rr_Update D, rg_Delete = rr_Delete D,
      rg_Active = rr_Active D, rg_SetActive = rr_SetActive D, rg_ClearActive = rr_ClearActive D,
      rg_AppendAudit = rr_AppendAudit D, rg_Audit = rr_Audit D, rg_AppendLog = rr_AppendLog D, rg_Logs = rr_Logs D\<rparr>"

section \<open>What the commands do\<close>

definition set_at :: "keyspace \<Rightarrow> string \<Rightarrow> string set option" where
  "set_at sp k = (case sp k of None \<Rightarrow> Some {} | Some (RSetV ms) \<Rightarrow> Some ms | _ \<Rightarrow> None)"

definition hash_at :: "keyspace \<Rightarrow> string \<Rightarrow> (plugin_type \<Rightarrow> string option) option" where
  "hash_at sp k = (case sp k of None \<Rightarrow> Some (\<lambda>_. None) | Some (RHash h) \<Rightarrow> Some h | _ \<Rightarrow> None)"

definition no_fields :: "(plugin_type \<Rightarrow> string option) \<Rightarrow> bool" where
  "no_fields h = list_all (\<lambda>s. h s = None)
     [TypeLLM, TypeEmbedder, TypeVectorStore, TypePersistence, TypeQueue, TypePolicy,
      TypeEmbeddingModel, TypeVectorIndex, TypeSimilarityMetric]"

lemma no_fields_iff: "no_fields h \<longleftrightarrow> h = (\<lambda>_. None)"
proof
  assume "no_fields h"
  then have "h s = None" for s by (cases s) (simp_all add: no_fields_def)
  then show "h = (\<lambda>_. None)" by blast
qed (simp add: no_fields_def)

definition put_hash :: "string \<Rightarrow> (plugin_type \<Rightarrow> string option) \<Rightarrow> keyspace \<Rightarrow> keyspace" where
  "put_hash k h sp = sp(k := if no_fields h then None else Some (RHash h))"

text \<open>Time passes: changes are counted. A quiet step changes nothing.\<close>

definition evolves :: "('r \<Rightarrow> bool) \<Rightarrow> ('r \<Rightarrow> keyspace) \<Rightarrow> ('r \<Rightarrow> string \<Rightarrow> nat) \<Rightarrow> 'r \<Rightarrow> 'r \<Rightarrow> bool" where
  "evolves up sp ver r t \<longleftrightarrow> up t \<and> (\<forall>k. ver r k \<le> ver t k \<and> (ver r k = ver t k \<longrightarrow> sp t k = sp r k))"

definition quiet :: "('r \<Rightarrow> bool) \<Rightarrow> ('r \<Rightarrow> keyspace) \<Rightarrow> ('r \<Rightarrow> string \<Rightarrow> nat) \<Rightarrow> 'r \<Rightarrow> 'r \<Rightarrow> bool" where
  "quiet up sp ver r t \<longleftrightarrow> evolves up sp ver r t \<and> sp t = sp r"

lemma evolves_trans: "evolves up sp ver r s \<Longrightarrow> evolves up sp ver s t \<Longrightarrow> evolves up sp ver r t"
  unfolding evolves_def by (metis le_antisym le_trans)

text \<open>\<open>seen\<close> is the count a transaction saw when it began to watch the key; \<open>EXEC\<close> succeeds only if it has not moved.\<close>

locale registry_db =
  fixes D :: "('r, 't) db_ops"
    and up :: "'r \<Rightarrow> bool"
    and sp :: "'r \<Rightarrow> keyspace"
    and ver :: "'r \<Rightarrow> string \<Rightarrow> nat"
    and seen :: "'t \<Rightarrow> string \<Rightarrow> nat"
  assumes db_get_law: "up r \<Longrightarrow> db_get D k r = (v, t) \<Longrightarrow>
          quiet up sp ver r t \<and> (\<forall>y. v = Inr y \<longrightarrow> sp r k = map_option RStr y)"
    and setnx_law: "up r \<Longrightarrow> db_setnx D k x r = (b, t) \<Longrightarrow> evolves up sp ver r t \<and>
          (case b of Inr True \<Rightarrow> sp r k = None \<and> sp t = (sp r)(k \<mapsto> RStr x)
           | Inr False \<Rightarrow> sp r k \<noteq> None \<and> sp t = sp r
           | Inl e \<Rightarrow> sp t = sp r \<or> sp r k = None \<and> sp t = (sp r)(k \<mapsto> RStr x))"
    and sadd_law: "up r \<Longrightarrow> db_sadd D k m r = (e, t) \<Longrightarrow> evolves up sp ver r t \<and>
          (e \<noteq> None \<and> sp t = sp r \<or> (\<exists>ms. set_at (sp r) k = Some ms \<and> sp t = (sp r)(k \<mapsto> RSetV (insert m ms))))"
    and smembers_law: "up r \<Longrightarrow> db_smembers D k r = (ms, t) \<Longrightarrow>
          quiet up sp ver r t \<and> (\<forall>xs. ms = Inr xs \<longrightarrow> set_at (sp r) k = Some (set xs) \<and> distinct xs)"
    and watch_law: "up r \<Longrightarrow> db_watch D k r = (y, t) \<Longrightarrow> quiet up sp ver r t \<and> (\<forall>tok. y = Inr tok \<longrightarrow> seen tok k = ver t k)"
    and tx_get_law: "up r \<Longrightarrow> db_tx_get D tok k r = (v, t) \<Longrightarrow>
          quiet up sp ver r t \<and> (\<forall>y. v = Inr y \<longrightarrow> sp r k = map_option RStr y)"
    and tx_set_law: "up r \<Longrightarrow> db_tx_set D tok k x r = (e, t) \<Longrightarrow> evolves up sp ver r t \<and>
          (e \<noteq> None \<and> sp t = sp r \<or>
           ver r k = seen tok k \<and> sp t = (sp r)(k \<mapsto> RStr x) \<and> (\<forall>err. e = Some err \<longrightarrow> \<not> errors_is err TxFailedErr))"
    and del_law: "up r \<Longrightarrow> db_del D k r = (n, t) \<Longrightarrow> evolves up sp ver r t \<and>
          (case n of Inr c \<Rightarrow> (c = 0 \<longleftrightarrow> sp r k = None) \<and> sp t = (sp r)(k := None)
           | Inl e \<Rightarrow> sp t = sp r \<or> sp t = (sp r)(k := None))"
    and hgetall_law: "up r \<Longrightarrow> db_hgetall D k r = (hs, t) \<Longrightarrow>
          quiet up sp ver r t \<and> (\<forall>y. hs = Inr y \<longrightarrow> hash_at (sp r) k = Some (gm_get y))"
    and hset_law: "up r \<Longrightarrow> db_hset D k s z r = (e, t) \<Longrightarrow> evolves up sp ver r t \<and>
          (e \<noteq> None \<and> sp t = sp r \<or> (\<exists>h. hash_at (sp r) k = Some h \<and> sp t = put_hash k (h(s \<mapsto> z)) (sp r)))"
    and hdel_law: "up r \<Longrightarrow> db_hdel D k s r = (e, t) \<Longrightarrow> evolves up sp ver r t \<and>
          (e \<noteq> None \<and> sp t = sp r \<or> (\<exists>h. hash_at (sp r) k = Some h \<and> sp t = put_hash k (h(s := None)) (sp r)))"
    and exec_law: "up r \<Longrightarrow> db_exec D cs r = (e, t) \<Longrightarrow> evolves up sp ver r t \<and>
          (e \<noteq> None \<and> sp t = sp r \<or> sp t = fold rw_apply cs (sp r))"
    and lrange_law: "up r \<Longrightarrow> db_lrange D k i j r = (l, t) \<Longrightarrow>
          quiet up sp ver r t \<and> (\<forall>ys. l = Inr ys \<longrightarrow> is_list (sp r) k \<and> ys = lrange i j (list_at (sp r) k))"

section \<open>The keys\<close>

lemma recKey_inj [simp]: "recKey k = recKey j \<longleftrightarrow> k = j"
  by (simp add: recKey_def)

lemma logKey_inj [simp]: "logKey k = logKey j \<longleftrightarrow> k = j"
  by (simp add: logKey_def)

lemma keys_differ [simp]:
  "recKey k \<noteq> logKey j" "recKey k \<noteq> regIdsKey" "recKey k \<noteq> activeKey" "recKey k \<noteq> auditKey"
  "logKey k \<noteq> recKey j" "logKey k \<noteq> regIdsKey" "logKey k \<noteq> activeKey" "logKey k \<noteq> auditKey"
  "regIdsKey \<noteq> recKey k" "regIdsKey \<noteq> logKey k" "regIdsKey \<noteq> activeKey" "regIdsKey \<noteq> auditKey"
  "activeKey \<noteq> recKey k" "activeKey \<noteq> logKey k" "activeKey \<noteq> regIdsKey" "activeKey \<noteq> auditKey"
  "auditKey \<noteq> recKey k" "auditKey \<noteq> logKey k" "auditKey \<noteq> regIdsKey" "auditKey \<noteq> activeKey"
  by (simp_all add: recKey_def logKey_def regIdsKey_def activeKey_def auditKey_def)

text \<open>What the registry's keys say: its records, and the active plugins.\<close>

definition space_recs :: "keyspace \<Rightarrow> string \<Rightarrow> plugin_record option" where
  "space_recs f k = (case f (recKey k) of Some (RStr (Doc r)) \<Rightarrow> Some r | _ \<Rightarrow> None)"

definition space_acts :: "keyspace \<Rightarrow> plugin_type \<Rightarrow> string option" where
  "space_acts f = (case hash_at f activeKey of Some h \<Rightarrow> h | None \<Rightarrow> \<lambda>_. None)"

definition reg_space_ok :: "keyspace \<Rightarrow> bool" where
  "reg_space_ok f \<longleftrightarrow> (\<forall>k. f (recKey k) = None \<or> (\<exists>r. f (recKey k) = Some (RStr (Doc r))))"

lemma space_recs_doc:
  "space_recs (f(recKey k \<mapsto> RStr (Doc r))) = (space_recs f)(k \<mapsto> r)"
  "space_recs (f(recKey k := None)) = (space_recs f)(k := None)"
  by (auto simp: space_recs_def fun_eq_iff)

lemma space_recs_other:
  "\<forall>k. j \<noteq> recKey k \<Longrightarrow> space_recs (f(j := v)) = space_recs f"
  by (auto simp: space_recs_def fun_eq_iff)

lemma space_acts_other: "j \<noteq> activeKey \<Longrightarrow> space_acts (f(j := v)) = space_acts f"
  by (simp add: space_acts_def hash_at_def)

lemma space_acts_hash: "space_acts (put_hash activeKey h f) = h"
  by (simp add: space_acts_def hash_at_def put_hash_def no_fields_iff)

lemma reg_space_ok_update:
  "reg_space_ok f \<Longrightarrow> (\<forall>k. j \<noteq> recKey k) \<or> v = None \<or> (\<exists>r. v = Some (RStr (Doc r))) \<Longrightarrow> reg_space_ok (f(j := v))"
  by (auto simp: reg_space_ok_def)

lemma space_ok_None: "reg_space_ok f \<Longrightarrow> f (recKey k) = None \<longleftrightarrow> space_recs f k = None"
  by (fastforce simp: reg_space_ok_def space_recs_def)

lemma rw_other:
  "j \<noteq> k \<Longrightarrow> rw_apply (SRem j m) f k = f k" "j \<noteq> k \<Longrightarrow> rw_apply (DelKey j) f k = f k"
  "j \<noteq> k \<Longrightarrow> rw_apply (LPush j x) f k = f k" "j \<noteq> k \<Longrightarrow> rw_apply (RPush j x) f k = f k"
  "j \<noteq> k \<Longrightarrow> rw_apply (LTrim j a b) f k = f k"
  by (auto simp: put_list_def split: option.splits rval.splits)

lemma space_same:
  assumes "\<And>k. g (recKey k) = f (recKey k)" and "g activeKey = f activeKey"
  shows "space_recs g = space_recs f" "space_acts g = space_acts f" "reg_space_ok g = reg_space_ok f"
  using assms by (auto simp: space_recs_def space_acts_def hash_at_def reg_space_ok_def)

definition db_reg_ok :: "('r \<Rightarrow> bool) \<Rightarrow> ('r \<Rightarrow> keyspace) \<Rightarrow> 'r redis_reg \<Rightarrow> bool" where
  "db_reg_ok up sp s \<longleftrightarrow> up (rr_db s) \<and> reg_space_ok (sp (rr_db s))"

definition reg_recs :: "('r \<Rightarrow> keyspace) \<Rightarrow> 'r redis_reg \<Rightarrow> string \<Rightarrow> plugin_record option" where
  "reg_recs sp s = space_recs (sp (rr_db s))"

definition reg_acts :: "('r \<Rightarrow> keyspace) \<Rightarrow> 'r redis_reg \<Rightarrow> plugin_type \<Rightarrow> string option" where
  "reg_acts sp s = space_acts (sp (rr_db s))"

section \<open>It is a registry\<close>

lemma on_db_iff: "on_db f s = (x, t) \<longleftrightarrow> f (rr_db s) = (x, rr_db t) \<and> t = s\<lparr>rr_db := rr_db t\<rparr>"
  by (auto simp: on_db_def split: prod.splits)

text \<open>A step that leaves the registry's records and its selection alone.\<close>

definition reg_same :: "('r \<Rightarrow> bool) \<Rightarrow> ('r \<Rightarrow> keyspace) \<Rightarrow> 'r redis_reg \<Rightarrow> 'r redis_reg \<Rightarrow> bool" where
  "reg_same up sp s t \<longleftrightarrow> db_reg_ok up sp t \<and> reg_recs sp t = reg_recs sp s \<and> reg_acts sp t = reg_acts sp s"

lemma reg_same_trans: "reg_same up sp r s \<Longrightarrow> reg_same up sp s t \<Longrightarrow> reg_same up sp r t"
  by (simp add: reg_same_def)

lemma reg_same_refl: "db_reg_ok up sp s \<Longrightarrow> reg_same up sp s s"
  by (simp add: reg_same_def)

lemma reg_same_ok: "reg_same up sp s t \<Longrightarrow> db_reg_ok up sp t"
  by (simp add: reg_same_def)

lemma reg_same_ticks: "reg_same up sp s t \<Longrightarrow> reg_same up sp s (t\<lparr>rr_ticks := n\<rparr>)"
  by (simp add: reg_same_def db_reg_ok_def reg_recs_def reg_acts_def)

context registry_db
begin

lemma quiet_same:
  "db_reg_ok up sp s \<Longrightarrow> quiet up sp ver (rr_db s) (rr_db t) \<Longrightarrow> reg_same up sp s t"
  by (simp add: db_reg_ok_def reg_same_def reg_recs_def reg_acts_def quiet_def evolves_def)

lemma get_same:
  assumes "db_reg_ok up sp s" and "rr_Get D k s = (x, t)"
  shows "reg_same up sp s t" and "x = Inr p \<Longrightarrow> reg_recs sp s k = Some p"
proof -
  obtain v where v: "db_get D (recKey k) (rr_db s) = (v, rr_db t)" "x = doc_at v"
    using assms(2) by (auto simp: rr_Get_def on_db_iff split: prod.splits)
  note law = db_get_law [OF _ v(1)]
  show "reg_same up sp s t" using law assms(1) by (simp add: quiet_same db_reg_ok_def)
  assume "x = Inr p"
  then obtain b where "v = Inr (Some b)" "decode_doc b = Inr p" using v(2) by (auto simp: doc_at_def split: sum.splits option.splits)
  moreover from this(2) have "b = Doc p" by (cases b) auto
  ultimately show "reg_recs sp s k = Some p"
    using law assms(1) by (simp add: db_reg_ok_def reg_recs_def space_recs_def)
qed

lemma list_loop_same:
  assumes "rr_list_loop D ks rs s = (x, t)" and "db_reg_ok up sp s"
  shows "reg_same up sp s t \<and> (\<forall>ps. x = Inr ps \<longrightarrow> set ps \<subseteq> set rs \<union> ran (reg_recs sp s))"
  using assms
proof (induction ks arbitrary: rs s)
  case Nil
  then show ?case by (auto simp: reg_same_refl)
next
  case (Cons k ks)
  obtain y u where get: "rr_Get D k s = (y, u)" by fastforce
  note 1 = get_same [OF Cons.prems(2) get]
  note ok = reg_same_ok [OF 1(1)]
  show ?case
  proof (cases y)
    case (Inl e)
    then show ?thesis
      using Cons.IH [of rs u] Cons.prems(1) get ok 1(1)
      by (auto simp: reg_same_def split: if_splits)
  next
    case (Inr p)
    then have "reg_recs sp s k = Some p" by (rule 1(2))
    then have "p \<in> ran (reg_recs sp s)" by (rule ranI)
    moreover have "rr_list_loop D ks (rs @ [p]) u = (x, t)" using Cons.prems(1) get Inr by simp
    moreover have "reg_recs sp u = reg_recs sp s" using 1(1) by (simp add: reg_same_def)
    ultimately show ?thesis
      using Cons.IH [of "rs @ [p]" u] ok reg_same_trans [OF 1(1)] by auto
  qed
qed

lemma list_same:
  assumes "rr_List D s = (x, t)" and "db_reg_ok up sp s"
  shows "reg_same up sp s t \<and> (\<forall>ps. x = Inr ps \<longrightarrow> set ps \<subseteq> ran (reg_recs sp s))"
proof -
  obtain y u where ms: "on_db (db_smembers D regIdsKey) s = (y, u)" by fastforce
  have 1: "reg_same up sp s u"
    using smembers_law [of "rr_db s"] assms(2) ms by (auto simp: on_db_iff db_reg_ok_def intro!: quiet_same)
  show ?thesis
  proof (cases y)
    case (Inl e)
    then show ?thesis using assms(1) ms 1 by (auto simp: rr_List_def)
  next
    case (Inr ks)
    obtain z v where run: "rr_list_loop D ks [] u = (z, v)" by fastforce
    have 2: "reg_same up sp u v" "\<And>ps. z = Inr ps \<Longrightarrow> set ps \<subseteq> ran (reg_recs sp s)"
      using list_loop_same [OF run reg_same_ok [OF 1]] 1 by (auto simp: reg_same_def)
    show ?thesis using assms(1) ms Inr run 2 reg_same_trans [OF 1 2(1)]
      by (cases z) (auto simp: rr_List_def sortRecords_def)
  qed
qed

lemma keyspace_same:
  assumes "evolves up sp ver (rr_db s) (rr_db t)" and "db_reg_ok up sp s"
    and "\<And>k. sp (rr_db t) (recKey k) = sp (rr_db s) (recKey k)" and "sp (rr_db t) activeKey = sp (rr_db s) activeKey"
  shows "reg_same up sp s t"
  using assms space_same [of "sp (rr_db t)" "sp (rr_db s)"]
  by (simp add: reg_same_def db_reg_ok_def reg_recs_def reg_acts_def evolves_def)

lemma exec_same:
  assumes "on_db (db_exec D cs) s = (e, t)" and "db_reg_ok up sp s"
    and "\<And>f k. fold rw_apply cs f (recKey k) = f (recKey k)" "\<And>f. fold rw_apply cs f activeKey = f activeKey"
  shows "reg_same up sp s t"
  using assms(1,2) exec_law [of "rr_db s" cs e "rr_db t"] assms(3,4)
  by (intro keyspace_same) (auto simp: on_db_iff db_reg_ok_def)

lemma attempt_law:
  assumes "rr_attempt D k fn s = (x, t)" and "db_reg_ok up sp s"
  shows "db_reg_ok up sp t \<and> reg_acts sp t = reg_acts sp s \<and>
    (case x of
       Inr new \<Rightarrow> updates (reg_recs sp s) k fn new \<and> reg_recs sp t = (reg_recs sp s)(k \<mapsto> new)
     | Inl e \<Rightarrow> reg_recs sp t = reg_recs sp s \<or>
         \<not> errors_is e TxFailedErr \<and> (\<exists>new. updates (reg_recs sp s) k fn new \<and> reg_recs sp t = (reg_recs sp s)(k \<mapsto> new)))"
proof -
  obtain y s1 where w: "on_db (db_watch D (recKey k)) s = (y, s1)" by fastforce
  have 1: "reg_same up sp s s1"
    using watch_law [of "rr_db s"] assms(2) w by (auto simp: on_db_iff db_reg_ok_def intro!: quiet_same)
  show ?thesis
  proof (cases y)
    case (Inl e)
    then show ?thesis using assms(1) w 1 by (auto simp: rr_attempt_def reg_same_def)
  next
    case (Inr tok)
    obtain v s2 where g: "on_db (db_tx_get D tok (recKey k)) s1 = (v, s2)" by fastforce
    have up1: "up (rr_db s1)" using 1 by (simp add: reg_same_def db_reg_ok_def)
    note gl = tx_get_law [OF up1, of tok "recKey k" v "rr_db s2"]
    have 2: "reg_same up sp s s2"
      using gl g reg_same_trans [OF 1 quiet_same [OF reg_same_ok [OF 1]]] by (simp add: on_db_iff)
    show ?thesis
    proof (cases "res_bind (doc_at v) fn")
      case err: (Inl e)
      then have "x = Inl e \<and> t = s2" using assms(1) w Inr g by (simp add: rr_attempt_def)
      then show ?thesis using 2 by (simp add: reg_same_def)
    next
      case r: (Inr r)
      let ?s3 = "s2\<lparr>rr_ticks := Suc (rr_ticks s2)\<rparr>" and ?now = "rr_clock s2 (rr_ticks s2)"
      have 3: "reg_same up sp s ?s3" using 2 by (rule reg_same_ticks)
      show ?thesis
      proof (cases "rr_stamp ?now r")
        case err: (Inl e)
        then have "x = Inl e \<and> t = ?s3" using assms(1) w Inr g r by (simp add: rr_attempt_def Let_def)
        then show ?thesis using 3 by (simp add: reg_same_def)
      next
        case new: (Inr new)
        obtain e s4 where set: "on_db (db_tx_set D tok (recKey k) (Doc new)) ?s3 = (e, s4)" by fastforce
        have up3: "up (rr_db ?s3)" using 3 by (simp add: reg_same_def db_reg_ok_def)
        note sl = tx_set_law [OF up3, of tok "recKey k" "Doc new" e "rr_db s4"]
        obtain old where old: "v = Inr (Some (Doc old))" "fn old = Inr r"
          using r by (auto simp: doc_at_def res_bind_Inr elim!: decode_doc.elims split: sum.splits option.splits)
        have "reg_recs sp s1 k = Some old"
          using gl g old(1) by (simp add: on_db_iff reg_recs_def space_recs_def)
        then have "reg_recs sp s k = Some old" using 1 by (simp add: reg_same_def)
        then have upd: "updates (reg_recs sp s) k fn new"
          using old(2) new unfolding updates_def rr_stamp_def by blast
        have run: "(x, t) = (case e of Some err \<Rightarrow> (Inl err, s4) | None \<Rightarrow> (Inr new, s4))"
          using assms(1) w Inr g r new set by (simp add: rr_attempt_def Let_def split: option.splits)
        have set': "db_tx_set D tok (recKey k) (Doc new) (rr_db ?s3) = (e, rr_db s4)" using set by (simp add: on_db_iff)
        have ok3: "reg_space_ok (sp (rr_db ?s3))" using 3 by (simp add: reg_same_def db_reg_ok_def)
        have up4: "up (rr_db s4)" using sl [OF set'] by (simp add: evolves_def)
        have eq3: "reg_recs sp ?s3 = reg_recs sp s" "reg_acts sp ?s3 = reg_acts sp s" using 3 by (simp_all add: reg_same_def)
        consider "e \<noteq> None" "sp (rr_db s4) = sp (rr_db ?s3)"
          | "sp (rr_db s4) = (sp (rr_db ?s3))(recKey k \<mapsto> RStr (Doc new))" "\<forall>err. e = Some err \<longrightarrow> \<not> errors_is err TxFailedErr"
          using sl [OF set'] by blast
        then show ?thesis
        proof cases
          case same: 1
          then have "db_reg_ok up sp s4" "reg_recs sp s4 = reg_recs sp s" "reg_acts sp s4 = reg_acts sp s"
            using up4 ok3 eq3 by (simp_all add: db_reg_ok_def reg_recs_def reg_acts_def)
          then show ?thesis using run same(1) by auto
        next
          case put: 2
          then have "db_reg_ok up sp s4" "reg_recs sp s4 = (reg_recs sp s)(k \<mapsto> new)" "reg_acts sp s4 = reg_acts sp s"
            using up4 ok3 eq3
            by (simp_all add: db_reg_ok_def reg_recs_def reg_acts_def reg_space_ok_update space_recs_doc space_acts_other)
          then show ?thesis using run put(2) upd by (cases e) auto
        qed
      qed
    qed
  qed
qed

lemma update_law:
  assumes "rr_update_loop n D k fn s = (x, t)" and "db_reg_ok up sp s"
  shows "db_reg_ok up sp t \<and> reg_acts sp t = reg_acts sp s \<and>
    (case x of
       Inr new \<Rightarrow> updates (reg_recs sp s) k fn new \<and> reg_recs sp t = (reg_recs sp s)(k \<mapsto> new)
     | Inl e \<Rightarrow> reg_recs sp t = reg_recs sp s \<or>
         (\<exists>new. updates (reg_recs sp s) k fn new \<and> reg_recs sp t = (reg_recs sp s)(k \<mapsto> new)))"
  using assms
proof (induction n arbitrary: s)
  case (Suc n)
  obtain y u where one: "rr_attempt D k fn s = (y, u)" by fastforce
  note law = attempt_law [OF one Suc.prems(2)]
  show ?case
  proof (cases "\<exists>e. y = Inl e \<and> errors_is e TxFailedErr")
    case True
    then have "rr_update_loop n D k fn u = (x, t)" using Suc.prems(1) one by auto
    moreover have "reg_recs sp u = reg_recs sp s" using law True by auto
    ultimately show ?thesis using Suc.IH [of u] law by (cases x) simp_all
  next
    case False
    then have "x = y" "t = u" using Suc.prems(1) one by (auto split: sum.splits if_splits)
    then show ?thesis using law by (auto split: sum.splits)
  qed
qed auto

lemma create_law:
  assumes "rr_Create D p s = (e, t)" and "db_reg_ok up sp s"
  shows "db_reg_ok up sp t \<and> reg_acts sp t = reg_acts sp s \<and>
    (e \<noteq> None \<and> reg_recs sp t = reg_recs sp s \<or>
     reg_recs sp s (rc_ID p) = None \<and>
     (\<exists>c. record_copy (p\<lparr>rc_Rev := 1\<rparr>) = Inr c \<and> reg_recs sp t = (reg_recs sp s)(rc_ID p \<mapsto> c)))"
proof (cases "record_copy (p\<lparr>rc_Rev := 1\<rparr>)")
  case (Inl err)
  then show ?thesis using assms by (auto simp: rr_Create_def)
next
  case c: (Inr c)
  obtain y u where nx: "on_db (db_setnx D (recKey (rc_ID p)) (Doc c)) s = (y, u)" by fastforce
  have s: "up (rr_db s)" "reg_space_ok (sp (rr_db s))" using assms(2) by (simp_all add: db_reg_ok_def)
  note law = setnx_law [OF s(1), of "recKey (rc_ID p)" "Doc c" y "rr_db u"]
  have nx': "db_setnx D (recKey (rc_ID p)) (Doc c) (rr_db s) = (y, rr_db u)" using nx by (simp add: on_db_iff)
  have upu: "up (rr_db u)" using law [OF nx'] by (simp add: evolves_def)
  consider (same) "sp (rr_db u) = sp (rr_db s)" "y \<noteq> Inr True"
    | (put) "sp (rr_db s) (recKey (rc_ID p)) = None" "sp (rr_db u) = (sp (rr_db s))(recKey (rc_ID p) \<mapsto> RStr (Doc c))"
    using law [OF nx'] by (auto split: sum.splits bool.splits)
  then show ?thesis
  proof cases
    case same
    then have "reg_same up sp s u" using upu s by (simp add: reg_same_def db_reg_ok_def reg_recs_def reg_acts_def)
    moreover have "e \<noteq> None \<and> t = u" using assms(1) c nx same(2) by (auto simp: rr_Create_def split: sum.splits bool.splits)
    ultimately show ?thesis by (simp add: reg_same_def)
  next
    case put
    have u: "db_reg_ok up sp u" "reg_acts sp u = reg_acts sp s" "reg_recs sp u = (reg_recs sp s)(rc_ID p \<mapsto> c)"
      using upu s put(2) by (simp_all add: db_reg_ok_def reg_recs_def reg_acts_def reg_space_ok_update space_recs_doc space_acts_other)
    have none: "reg_recs sp s (rc_ID p) = None" using put(1) by (simp add: reg_recs_def space_recs_def)
    have "reg_same up sp u t"
    proof (cases "y = Inr True")
      case True
      then have sa: "on_db (db_sadd D regIdsKey (rc_ID p)) u = (e, t)" using assms(1) c nx by (simp add: rr_Create_def)
      then have "db_sadd D regIdsKey (rc_ID p) (rr_db u) = (e, rr_db t)" by (simp add: on_db_iff)
      from sadd_law [OF upu this] show ?thesis by (intro keyspace_same [OF _ u(1)]) auto
    next
      case False
      then have "t = u" using assms(1) c nx by (auto simp: rr_Create_def split: sum.splits bool.splits)
      then show ?thesis using u(1) by (simp add: reg_same_refl)
    qed
    then show ?thesis using u none c by (auto simp: reg_same_def)
  qed
qed

lemma delete_law:
  assumes "rr_Delete D k s = (e, t)" and "db_reg_ok up sp s"
  shows "db_reg_ok up sp t \<and> reg_acts sp t = reg_acts sp s \<and>
    (reg_recs sp t = (reg_recs sp s)(k := None) \<or> e \<noteq> None \<and> reg_recs sp t = reg_recs sp s)"
proof -
  obtain n u where del: "on_db (db_del D (recKey k)) s = (n, u)" by fastforce
  have s: "up (rr_db s)" "reg_space_ok (sp (rr_db s))" using assms(2) by (simp_all add: db_reg_ok_def)
  have del': "db_del D (recKey k) (rr_db s) = (n, rr_db u)" using del by (simp add: on_db_iff)
  note law = del_law [OF s(1) del']
  have u: "db_reg_ok up sp u" "reg_acts sp u = reg_acts sp s"
    "reg_recs sp u = (reg_recs sp s)(k := None) \<or> res_ok n = False \<and> reg_recs sp u = reg_recs sp s"
    using law s by (auto simp: evolves_def db_reg_ok_def reg_acts_def reg_recs_def reg_space_ok_update space_recs_doc space_acts_other
        split: sum.splits)
  show ?thesis
  proof (cases "\<exists>i. n = Inr i \<and> i \<noteq> 0")
    case True
    then have "on_db (db_exec D [SRem regIdsKey k, DelKey (logKey k)]) u = (e, t)"
      using assms(1) del by (auto simp: rr_Delete_def)
    from exec_same [OF this u(1)] have "reg_same up sp u t" by (simp add: rw_other del: rw_apply.simps)
    then show ?thesis using u True by (auto simp: reg_same_def)
  next
    case False
    then have "t = u" "e \<noteq> None" using assms(1) del by (auto simp: rr_Delete_def split: sum.splits)
    then show ?thesis using u by auto
  qed
qed

lemma active_law:
  assumes "rr_Active D s = (a, t)" and "db_reg_ok up sp s"
  shows "reg_same up sp s t \<and> (\<forall>m. a = Inr m \<longrightarrow> gm_get m = reg_acts sp s)"
proof -
  have "db_hgetall D activeKey (rr_db s) = (a, rr_db t)" using assms(1) by (simp add: rr_Active_def on_db_iff)
  from hgetall_law [OF _ this] show ?thesis
    using assms(2) quiet_same [OF assms(2)] by (auto simp: db_reg_ok_def reg_acts_def space_acts_def)
qed

lemma put_hash_same:
  assumes "evolves up sp ver (rr_db s) (rr_db t)" and "db_reg_ok up sp s" and "sp (rr_db t) = put_hash activeKey h (sp (rr_db s))"
  shows "db_reg_ok up sp t \<and> reg_recs sp t = reg_recs sp s \<and> reg_acts sp t = h"
  using assms
  by (auto simp: evolves_def db_reg_ok_def reg_recs_def reg_acts_def space_acts_hash)
    (auto simp: put_hash_def reg_space_ok_update space_recs_other)

lemma hash_acts: "hash_at f activeKey = Some h \<Longrightarrow> space_acts f = h"
  by (simp add: space_acts_def)

lemma set_active_law:
  assumes "rr_SetActive D slot k s = (e, t)" and "db_reg_ok up sp s"
  shows "db_reg_ok up sp t \<and> reg_recs sp t = reg_recs sp s \<and>
    (reg_acts sp t = (reg_acts sp s)(slot \<mapsto> k) \<or> e \<noteq> None \<and> reg_acts sp t = reg_acts sp s)"
proof -
  have run: "db_hset D activeKey slot k (rr_db s) = (e, rr_db t)" using assms(1) by (simp add: rr_SetActive_def on_db_iff)
  have "up (rr_db s)" using assms(2) by (simp add: db_reg_ok_def)
  from hset_law [OF this run] show ?thesis
    using put_hash_same [OF _ assms(2)] keyspace_same [OF _ assms(2)]
    by (auto simp: reg_same_def reg_acts_def dest: hash_acts)
qed

lemma clear_active_law:
  assumes "rr_ClearActive D slot s = (e, t)" and "db_reg_ok up sp s"
  shows "db_reg_ok up sp t \<and> reg_recs sp t = reg_recs sp s \<and>
    (reg_acts sp t = (reg_acts sp s)(slot := None) \<or> e \<noteq> None \<and> reg_acts sp t = reg_acts sp s)"
proof -
  have run: "db_hdel D activeKey slot (rr_db s) = (e, rr_db t)" using assms(1) by (simp add: rr_ClearActive_def on_db_iff)
  have "up (rr_db s)" using assms(2) by (simp add: db_reg_ok_def)
  from hdel_law [OF this run] show ?thesis
    using put_hash_same [OF _ assms(2)] keyspace_same [OF _ assms(2)]
    by (auto simp: reg_same_def reg_acts_def dest: hash_acts)
qed

lemma exec_logs_same:
  "rr_AppendAudit D ev s = (e, t) \<Longrightarrow> db_reg_ok up sp s \<Longrightarrow> reg_same up sp s t"
  "rr_AppendLog D k line s = (e, t) \<Longrightarrow> db_reg_ok up sp s \<Longrightarrow> reg_same up sp s t"
  unfolding rr_AppendAudit_def rr_AppendLog_def
  by (erule exec_same; simp add: rw_other del: rw_apply.simps)+

sublocale redis_reg: plugin_registry "redis_registry D" "db_reg_ok up sp" "reg_recs sp" "reg_acts sp"
proof (unfold_locales, goal_cases)
  case (1 r k x t)
  then show ?case using get_same(1) [of r k x t] by (simp add: redis_registry_def reg_same_def)
next
  case (2 r k p t)
  then show ?case using get_same(2) [of r k "Inr p" t] by (simp add: redis_registry_def)
next
  case (3 r k fn x t)
  then have "rr_update_loop maxAttempts D k fn r = (x, t)" by (simp add: redis_registry_def rr_Update_def)
  from update_law [OF this 3(1)] show ?case by (cases x) auto
next
  case (4 r k fn new t)
  then show ?case using update_law [of _ k fn r "Inr new" t] by (simp add: redis_registry_def rr_Update_def)
next
  case (5 r s k e t)
  then show ?case using set_active_law [of s k r e t] by (simp add: redis_registry_def)
next
  case (6 r s e t)
  then show ?case using clear_active_law [of s r e t] by (simp add: redis_registry_def)
next
  case (7 r ev e t)
  then show ?case using exec_logs_same(1) [of ev r e t] by (simp add: redis_registry_def reg_same_def)
next
  case (8 r k line e t)
  then show ?case using exec_logs_same(2) [of k line r e t] by (simp add: redis_registry_def reg_same_def)
next
  case (9 r l t)
  then show ?case using list_same [of r l t] by (simp add: redis_registry_def reg_same_def)
next
  case (10 r ps t)
  then show ?case using list_same [of r "Inr ps" t] by (simp add: redis_registry_def)
next
  case (11 r a t)
  then show ?case using active_law [of r a t] by (simp add: redis_registry_def reg_same_def)
next
  case (12 r m t)
  then show ?case using active_law [of r "Inr m" t] by (simp add: redis_registry_def)
next
  case (13 r p e t)
  then show ?case using create_law [of p r e t] by (simp add: redis_registry_def)
next
  case (14 r k e t)
  then show ?case using delete_law [of k r e t] by (simp add: redis_registry_def)
qed

end

end
