(* ===== verification/Redis_Updates.thy ===== *)
theory Redis_Updates
  imports Redis_Registry "HOL-Library.Sublist"
begin

text \<open>
  Concurrent updates of one record of the durable registry: any number of callers of \<open>Update\<close>, at most one
  command of one of them at a time, and other commands of the same or of other processes in between.
  The limit of attempts and the waits between them are in \<open>rr_Update\<close>; here a caller may always try again.
\<close>

section \<open>Interleaved updates\<close>

text \<open>Where a caller is in its attempt: between attempts, after \<open>WATCH\<close>, or with the record it is about to write.\<close>

datatype 't updater =
    Idle
  | Watching 't
  | Ready 't "plugin_record \<Rightarrow> plugin_record res" plugin_record

text \<open>\<open>ur_ok\<close> is what \<open>Update\<close> reported as done, in order; \<open>ur_unsure\<close> counts the writes whose reply was an error
  other than a lost race.\<close>

record ('r, 't) upd_run =
  ur_db :: 'r
  ur_at :: "nat \<Rightarrow> 't updater"
  ur_ok :: "((plugin_record \<Rightarrow> plugin_record res) \<times> plugin_record) list"
  ur_unsure :: nat

inductive upd_step ::
    "('r, 't) db_ops \<Rightarrow> ('r \<Rightarrow> 'r \<Rightarrow> bool) \<Rightarrow> string \<Rightarrow> ('r, 't) upd_run \<Rightarrow> ('r, 't) upd_run \<Rightarrow> bool"
  for D env k where
  watch: "ur_at s i = Idle \<Longrightarrow> db_watch D (recKey k) (ur_db s) = (Inr tok, w) \<Longrightarrow>
    upd_step D env k s (s\<lparr>ur_db := w, ur_at := (ur_at s)(i := Watching tok)\<rparr>)"
| watch_err: "ur_at s i = Idle \<Longrightarrow> db_watch D (recKey k) (ur_db s) = (Inl e, w) \<Longrightarrow>
    upd_step D env k s (s\<lparr>ur_db := w\<rparr>)"
| reads: "ur_at s i = Watching tok \<Longrightarrow> db_tx_get D tok (recKey k) (ur_db s) = (v, w) \<Longrightarrow>
    res_bind (doc_at v) fn = Inr r \<Longrightarrow> rr_stamp now r = Inr new \<Longrightarrow>
    upd_step D env k s (s\<lparr>ur_db := w, ur_at := (ur_at s)(i := Ready tok fn new)\<rparr>)"
| read_err: "ur_at s i = Watching tok \<Longrightarrow> db_tx_get D tok (recKey k) (ur_db s) = (v, w) \<Longrightarrow>
    upd_step D env k s (s\<lparr>ur_db := w, ur_at := (ur_at s)(i := Idle)\<rparr>)"
| writes: "ur_at s i = Ready tok fn new \<Longrightarrow> db_tx_set D tok (recKey k) (Doc new) (ur_db s) = (None, w) \<Longrightarrow>
    upd_step D env k s (s\<lparr>ur_db := w, ur_at := (ur_at s)(i := Idle), ur_ok := ur_ok s @ [(fn, new)]\<rparr>)"
| write_err: "ur_at s i = Ready tok fn new \<Longrightarrow> db_tx_set D tok (recKey k) (Doc new) (ur_db s) = (Some e, w) \<Longrightarrow>
    upd_step D env k s (s\<lparr>ur_db := w, ur_at := (ur_at s)(i := Idle),
        ur_unsure := (if errors_is e TxFailedErr then ur_unsure s else Suc (ur_unsure s))\<rparr>)"
| other: "env (ur_db s) w \<Longrightarrow> upd_step D env k s (s\<lparr>ur_db := w\<rparr>)"

text \<open>One update after the other makes \<open>c\<close> of \<open>a\<close>.\<close>

definition one_update :: "(plugin_record \<Rightarrow> plugin_record res) \<Rightarrow> plugin_record \<Rightarrow> plugin_record \<Rightarrow> bool" where
  "one_update fn a b \<longleftrightarrow> (\<exists>r now. fn a = Inr r \<and> rr_stamp now r = Inr b)"

fun linked :: "plugin_record \<Rightarrow> ((plugin_record \<Rightarrow> plugin_record res) \<times> plugin_record) list \<Rightarrow> plugin_record \<Rightarrow> bool" where
  "linked a [] c \<longleftrightarrow> a = c"
| "linked a ((fn, b) # us) c \<longleftrightarrow> one_update fn a b \<and> linked b us c"

lemma linked_snoc: "linked a (us @ [(fn, c)]) d \<longleftrightarrow> (\<exists>b. linked a us b \<and> one_update fn b c \<and> c = d)"
  by (induction a us d rule: linked.induct) auto

lemma subseq_snoc: "subseq xs ys \<Longrightarrow> subseq xs (ys @ [y])" "subseq xs ys \<Longrightarrow> subseq (xs @ [y]) (ys @ [y])"
  by (auto intro: subseq_order.order_trans)

text \<open>A caller that is ready has what its function makes of the record, unless the key has moved since it began.\<close>

definition at_ok :: "('r \<Rightarrow> keyspace) \<Rightarrow> ('r \<Rightarrow> string \<Rightarrow> nat) \<Rightarrow> ('t \<Rightarrow> string \<Rightarrow> nat) \<Rightarrow> string \<Rightarrow> 'r \<Rightarrow> 't updater \<Rightarrow> bool" where
  "at_ok sp ver seen K r u = (case u of
     Idle \<Rightarrow> True
   | Watching tok \<Rightarrow> seen tok K \<le> ver r K
   | Ready tok fn new \<Rightarrow> seen tok K \<le> ver r K \<and>
       (seen tok K = ver r K \<longrightarrow> (\<exists>old. sp r K = Some (RStr (Doc old)) \<and> one_update fn old new)))"

definition upd_inv :: "('r \<Rightarrow> bool) \<Rightarrow> ('r \<Rightarrow> keyspace) \<Rightarrow> ('r \<Rightarrow> string \<Rightarrow> nat) \<Rightarrow> ('t \<Rightarrow> string \<Rightarrow> nat) \<Rightarrow> string \<Rightarrow>
    plugin_record \<Rightarrow> ('r, 't) upd_run \<Rightarrow> bool" where
  "upd_inv up sp ver seen k r0 s \<longleftrightarrow> up (ur_db s) \<and> (\<forall>i. at_ok sp ver seen (recKey k) (ur_db s) (ur_at s i)) \<and>
     (\<exists>cur full. sp (ur_db s) (recKey k) = Some (RStr (Doc cur)) \<and> linked r0 full cur \<and>
        subseq (ur_ok s) full \<and> length full \<le> length (ur_ok s) + ur_unsure s)"

lemma at_ok_later:
  assumes "at_ok sp ver seen K r u" and "evolves up sp ver r t"
  shows "at_ok sp ver seen K t u"
proof -
  have le: "ver r K \<le> ver t K" and same: "ver r K = ver t K \<Longrightarrow> sp t K = sp r K"
    using assms(2) by (auto simp: evolves_def)
  show ?thesis
  proof (cases u)
    case (Ready tok fn new)
    then have s: "seen tok K \<le> ver r K" using assms(1) by (simp add: at_ok_def)
    have "ver r K = ver t K \<and> seen tok K = ver r K" if "seen tok K = ver t K" using that le s by simp
    then show ?thesis using assms(1) Ready s le same by (auto simp: at_ok_def)
  qed (use assms(1) le in \<open>auto simp: at_ok_def\<close>)
qed

context registry_db
begin

lemma upd_inv_keeps:
  assumes "upd_inv up sp ver seen k r0 s" and "evolves up sp ver (ur_db s) w" and "sp w (recKey k) = sp (ur_db s) (recKey k)"
    and "\<And>j. j \<noteq> i \<Longrightarrow> at' j = ur_at s j" and "at_ok sp ver seen (recKey k) w (at' i)"
  shows "upd_inv up sp ver seen k r0 (s\<lparr>ur_db := w, ur_at := at'\<rparr>)"
proof -
  have "at_ok sp ver seen (recKey k) (ur_db s) (ur_at s j)" for j using assms(1) by (simp add: upd_inv_def)
  then have "at_ok sp ver seen (recKey k) w (ur_at s j)" for j by (rule at_ok_later [OF _ assms(2)])
  then have "at_ok sp ver seen (recKey k) w (at' j)" for j using assms(4,5) by (cases "j = i") simp_all
  then show ?thesis using assms(1-3) by (simp add: upd_inv_def evolves_def)
qed

lemma upd_inv_writes:
  assumes "upd_inv up sp ver seen k r0 s" and "ur_at s i = Ready tok fn new" and "evolves up sp ver (ur_db s) w"
    and "ver (ur_db s) (recKey k) = seen tok (recKey k)" and "sp w = (sp (ur_db s))(recKey k \<mapsto> RStr (Doc new))"
    and "ok = ur_ok s @ [(fn, new)] \<and> n = ur_unsure s \<or> ok = ur_ok s \<and> n = Suc (ur_unsure s)"
  shows "upd_inv up sp ver seen k r0 \<lparr>ur_db = w, ur_at = (ur_at s)(i := Idle), ur_ok = ok, ur_unsure = n\<rparr>"
proof -
  obtain cur full where cur: "sp (ur_db s) (recKey k) = Some (RStr (Doc cur))" "linked r0 full cur"
      "subseq (ur_ok s) full" "length full \<le> length (ur_ok s) + ur_unsure s"
    using assms(1) by (auto simp: upd_inv_def)
  have ok: "at_ok sp ver seen (recKey k) (ur_db s) (ur_at s j)" for j using assms(1) by (simp add: upd_inv_def)
  then have "one_update fn cur new" using assms(2,4) cur(1) ok [of i] by (simp add: at_ok_def)
  with cur(2) have l: "linked r0 (full @ [(fn, new)]) new" unfolding linked_snoc by blast
  have "at_ok sp ver seen (recKey k) w (ur_at s j)" for j by (rule at_ok_later [OF ok assms(3)])
  then have at: "at_ok sp ver seen (recKey k) w (((ur_at s)(i := Idle)) j)" for j by (simp add: at_ok_def)
  have "subseq ok (full @ [(fn, new)])" "length (full @ [(fn, new)]) \<le> length ok + n"
    using assms(6) subseq_snoc [OF cur(3)] cur(4) by auto
  then show ?thesis using l at assms(3,5) by (auto simp: upd_inv_def evolves_def)
qed

lemma upd_inv_step:
  assumes "upd_step D env k s t" and "upd_inv up sp ver seen k r0 s"
    and env: "\<And>r w. up r \<Longrightarrow> env r w \<Longrightarrow> evolves up sp ver r w \<and> sp w (recKey k) = sp r (recKey k)"
  shows "upd_inv up sp ver seen k r0 t"
proof -
  have up: "up (ur_db s)" using assms(2) by (simp add: upd_inv_def)
  have same: "s\<lparr>ur_db := w\<rparr> = s\<lparr>ur_db := w, ur_at := ur_at s\<rparr>" for w by simp
  have at: "at_ok sp ver seen (recKey k) (ur_db s) (ur_at s i)" for i using assms(2) by (simp add: upd_inv_def)
  have later: "at_ok sp ver seen (recKey k) w (ur_at s i)" if "evolves up sp ver (ur_db s) w" for i w
    by (rule at_ok_later [OF at that])
  note keeps = upd_inv_keeps [OF assms(2)]
  show ?thesis
    using assms(1)
  proof cases
    case (watch i tok w)
    note law = watch_law [OF up watch(3)]
    show ?thesis unfolding watch(1)
      by (rule keeps [of _ i]) (use law in \<open>auto simp: quiet_def at_ok_def\<close>)
  next
    case (watch_err i e w)
    note law = watch_law [OF up watch_err(3)]
    show ?thesis unfolding watch_err(1)
      by (subst same, rule keeps [of _ 0]) (use law later [of w] in \<open>auto simp: quiet_def\<close>)
  next
    case (reads i tok v w fn r now new)
    note law = tx_get_law [OF up reads(3)]
    obtain old where "v = Inr (Some (Doc old))" "fn old = Inr r"
      using reads(4) by (auto simp: doc_at_def res_bind_Inr elim!: decode_doc.elims split: sum.splits option.splits)
    then have "sp w (recKey k) = Some (RStr (Doc old))" "one_update fn old new"
      using law reads(5) by (auto simp: quiet_def one_update_def)
    moreover have "seen tok (recKey k) \<le> ver w (recKey k)"
      using later [of w i] law reads(2) by (simp add: quiet_def at_ok_def)
    ultimately show ?thesis unfolding reads(1)
      by (intro keeps [of _ i]) (use law in \<open>auto simp: quiet_def at_ok_def\<close>)
  next
    case (read_err i tok v w)
    note law = tx_get_law [OF up read_err(3)]
    show ?thesis unfolding read_err(1)
      by (rule keeps [of _ i]) (use law in \<open>auto simp: quiet_def at_ok_def\<close>)
  next
    case (writes i tok fn new w)
    note law = tx_set_law [OF up writes(3)]
    show ?thesis using upd_inv_writes [OF assms(2) writes(2), of w "ur_ok s @ [(fn, new)]" "ur_unsure s"] law
      unfolding writes(1) by (cases s) auto
  next
    case (write_err i tok fn new e w)
    note law = tx_set_law [OF up write_err(3)]
    show ?thesis
    proof (cases "sp w = sp (ur_db s)")
      case True
      have "upd_inv up sp ver seen k r0 (s\<lparr>ur_db := w, ur_at := (ur_at s)(i := Idle)\<rparr>)"
        by (rule keeps [of _ i]) (use law True in \<open>auto simp: at_ok_def\<close>)
      then show ?thesis unfolding write_err(1) by (fastforce simp: upd_inv_def)
    next
      case False
      then have "ver (ur_db s) (recKey k) = seen tok (recKey k)" "sp w = (sp (ur_db s))(recKey k \<mapsto> RStr (Doc new))"
        "\<not> errors_is e TxFailedErr" using law by auto
      then show ?thesis
        using upd_inv_writes [OF assms(2) write_err(2), of w "ur_ok s" "Suc (ur_unsure s)"] law unfolding write_err(1) by (cases s) auto
    qed
  next
    case (other w)
    then show ?thesis unfolding other(1)
      by (subst same, intro keeps [of _ 0]) (use env [OF up other(2)] later [of w] in auto)
  qed
qed

lemma upd_inv_run:
  assumes "(upd_step D env k)\<^sup>*\<^sup>* s t" and "upd_inv up sp ver seen k r0 s"
    and "\<And>r w. up r \<Longrightarrow> env r w \<Longrightarrow> evolves up sp ver r w \<and> sp w (recKey k) = sp r (recKey k)"
  shows "upd_inv up sp ver seen k r0 t"
  using assms(1,2) by (induction rule: rtranclp_induct) (use upd_inv_step [OF _ _ assms(3)] in blast)+

end

text \<open>C17: concurrent updates of a record are never lost. However the commands of any number of callers of
  \<open>Update\<close> interleave with each other and with commands that do not touch the record, the stored record is
  what the functions of all updates that reported success make of the first one, applied one after the
  other in the order they reported, each to the result of the one before; besides these only updates whose
  last reply was lost may have been applied.\<close>

theorem concurrent_updates_are_not_lost:
  assumes "registry_db D up sp ver seen" and "up w" and "space_recs (sp w) k = Some r0"
    and "(upd_step D env k)\<^sup>*\<^sup>* \<lparr>ur_db = w, ur_at = (\<lambda>_. Idle), ur_ok = [], ur_unsure = 0\<rparr> t"
    and "\<And>r u. up r \<Longrightarrow> env r u \<Longrightarrow> evolves up sp ver r u \<and> sp u (recKey k) = sp r (recKey k)"
  shows "\<exists>cur full. space_recs (sp (ur_db t)) k = Some cur \<and> linked r0 full cur \<and> subseq (ur_ok t) full \<and>
    length full \<le> length (ur_ok t) + ur_unsure t"
proof -
  have "sp w (recKey k) = Some (RStr (Doc r0))"
    using assms(3) by (auto simp: space_recs_def split: option.splits rval.splits stored.splits)
  then have "upd_inv up sp ver seen k r0 \<lparr>ur_db = w, ur_at = (\<lambda>_. Idle), ur_ok = [], ur_unsure = 0\<rparr>"
    using assms(2) by (auto simp: upd_inv_def at_ok_def intro!: exI [of _ "[]"])
  from registry_db.upd_inv_run [OF assms(1,4) this assms(5)] show ?thesis
    by (auto simp: upd_inv_def space_recs_def)
qed

end
