(* ===== verification/Redis_Refines.thy ===== *)
theory Redis_Refines
  imports Redis_Updates
begin

text \<open>
  The durable registry and the registry in memory are the same registry as long as the server answers: every
  sequence of calls gets the same answers from both. A small server in memory with scripted faults shows
  that the laws of the server can hold, with and without faults.
\<close>

section \<open>A server that answers\<close>

locale calm_db = registry_db +
  assumes calm_get: "up r \<Longrightarrow> sp r k = map_option RStr y \<Longrightarrow> res_ok (fst (db_get D k r))"
    and calm_setnx: "up r \<Longrightarrow> res_ok (fst (db_setnx D k x r))"
    and calm_sadd: "up r \<Longrightarrow> set_at (sp r) k \<noteq> None \<Longrightarrow> fst (db_sadd D k m r) = None"
    and calm_smembers: "up r \<Longrightarrow> set_at (sp r) k \<noteq> None \<Longrightarrow> res_ok (fst (db_smembers D k r))"
    and calm_watch: "up r \<Longrightarrow> res_ok (fst (db_watch D k r))"
    and calm_tx_get: "up r \<Longrightarrow> sp r k = map_option RStr y \<Longrightarrow> res_ok (fst (db_tx_get D tok k r))"
    and calm_tx_ver: "up r \<Longrightarrow> ver (snd (db_tx_get D tok k r)) k = ver r k"
    and calm_tx_set: "up r \<Longrightarrow> ver r k = seen tok k \<Longrightarrow> fst (db_tx_set D tok k x r) = None"
    and calm_del: "up r \<Longrightarrow> res_ok (fst (db_del D k r))"
    and calm_hgetall: "up r \<Longrightarrow> hash_at (sp r) k \<noteq> None \<Longrightarrow> res_ok (fst (db_hgetall D k r))"
    and calm_hset: "up r \<Longrightarrow> hash_at (sp r) k \<noteq> None \<Longrightarrow> fst (db_hset D k s z r) = None"
    and calm_hdel: "up r \<Longrightarrow> hash_at (sp r) k \<noteq> None \<Longrightarrow> fst (db_hdel D k s r) = None"
    and calm_exec: "up r \<Longrightarrow> fst (db_exec D cs r) = None"
    and calm_lrange: "up r \<Longrightarrow> is_list (sp r) k \<Longrightarrow> res_ok (fst (db_lrange D k i j r))"

text \<open>A call of the registry and its answer; a list of records up to the order of equal keys.\<close>

datatype reg_call =
    CGet string
  | CList
  | CCreate plugin_record
  | CUpdate string "plugin_record \<Rightarrow> plugin_record res"
  | CDelete string
  | CActive
  | CSetActive plugin_type string
  | CClearActive plugin_type
  | CAppendAudit event
  | CAudit string int
  | CAppendLog string string
  | CLogs string int

datatype reg_reply =
    RRecord "plugin_record res"
  | RRecords "goerr option" "plugin_record multiset"
  | RErr "goerr option"
  | RActs "goerr option" "plugin_type \<Rightarrow> string option"
  | REvents "event list res"
  | RLines "string list res"

definition all_of :: "plugin_record list res \<Rightarrow> reg_reply" where
  "all_of x = (case x of Inl e \<Rightarrow> RRecords (Some e) {#} | Inr rs \<Rightarrow> RRecords None (mset rs))"

definition selection_of :: "(plugin_type, string) gomap res \<Rightarrow> reg_reply" where
  "selection_of x = (case x of Inl e \<Rightarrow> RActs (Some e) (\<lambda>_. None) | Inr m \<Rightarrow> RActs None (gm_get m))"

fun run_call :: "'r registry_ops \<Rightarrow> reg_call \<Rightarrow> 'r \<Rightarrow> reg_reply \<times> 'r" where
  "run_call G (CGet k) r = (case rg_Get G k r of (x, t) \<Rightarrow> (RRecord x, t))"
| "run_call G CList r = (case rg_List G r of (x, t) \<Rightarrow> (all_of x, t))"
| "run_call G (CCreate p) r = (case rg_Create G p r of (e, t) \<Rightarrow> (RErr e, t))"
| "run_call G (CUpdate k fn) r = (case rg_Update G k fn r of (x, t) \<Rightarrow> (RRecord x, t))"
| "run_call G (CDelete k) r = (case rg_Delete G k r of (e, t) \<Rightarrow> (RErr e, t))"
| "run_call G CActive r = (case rg_Active G r of (x, t) \<Rightarrow> (selection_of x, t))"
| "run_call G (CSetActive s k) r = (case rg_SetActive G s k r of (e, t) \<Rightarrow> (RErr e, t))"
| "run_call G (CClearActive s) r = (case rg_ClearActive G s r of (e, t) \<Rightarrow> (RErr e, t))"
| "run_call G (CAppendAudit ev) r = (case rg_AppendAudit G ev r of (e, t) \<Rightarrow> (RErr e, t))"
| "run_call G (CAudit k n) r = (case rg_Audit G k n r of (x, t) \<Rightarrow> (REvents x, t))"
| "run_call G (CAppendLog k l) r = (case rg_AppendLog G k l r of (e, t) \<Rightarrow> (RErr e, t))"
| "run_call G (CLogs k n) r = (case rg_Logs G k n r of (x, t) \<Rightarrow> (RLines x, t))"

fun run_calls :: "'r registry_ops \<Rightarrow> reg_call list \<Rightarrow> 'r \<Rightarrow> reg_reply list" where
  "run_calls G [] r = []"
| "run_calls G (c # cs) r = (case run_call G c r of (a, t) \<Rightarrow> a # run_calls G cs t)"

section \<open>The relation\<close>

lemma lrange_last:
  assumes "0 < n"
  shows "lrange (- int n) (- 1) xs = last_n n xs"
proof (cases "length xs \<le> n")
  case True
  then show ?thesis using assms by (auto simp: lrange_def last_n_def Let_def)
next
  case False
  then have "nat (max 0 (int (length xs) - int n)) = length xs - n" by simp
  then show ?thesis using assms False by (auto simp: lrange_def last_n_def Let_def)
qed

lemma lrange_first: "0 < n \<Longrightarrow> lrange 0 (int n - 1) xs = take n xs"
  by (auto simp: lrange_def Let_def)

lemma lrange_all: "lrange 0 (- 1) xs = xs"
  by (auto simp: lrange_def Let_def)

definition same_registry :: "keyspace \<Rightarrow> memory \<Rightarrow> bool" where
  "same_registry f m \<longleftrightarrow>
     (\<forall>k. f (recKey k) = map_option (\<lambda>r. RStr (Doc r)) (gm_get (me_recs m) k)) \<and>
     set_at f regIdsKey = Some (set (gm_keys (me_recs m))) \<and>
     hash_at f activeKey = Some (gm_get (me_active m)) \<and>
     is_list f auditKey \<and> list_at f auditKey = map Evt (rev (me_audit m)) \<and>
     (\<forall>k. is_list f (logKey k) \<and> list_at f (logKey k) = map Txt (log_lines m k)) \<and> mem_reg_ok m"

definition same_state :: "('r \<Rightarrow> bool) \<Rightarrow> ('r \<Rightarrow> keyspace) \<Rightarrow> 'r redis_reg \<Rightarrow> memory \<Rightarrow> bool" where
  "same_state up sp s m \<longleftrightarrow> up (rr_db s) \<and> same_registry (sp (rr_db s)) m \<and>
     rr_clock s = me_clock m \<and> rr_ticks s = me_ticks m"

lemma same_state_db:
  "same_state up sp s m \<Longrightarrow> up w \<Longrightarrow> sp w = sp (rr_db s) \<Longrightarrow> same_state up sp (s\<lparr>rr_db := w\<rparr>) m"
  by (simp add: same_state_def)

lemma set_at_other: "k \<noteq> j \<Longrightarrow> set_at (f(k := v)) j = set_at f j"
  by (simp add: set_at_def)

lemma hash_at_other: "k \<noteq> j \<Longrightarrow> hash_at (f(k := v)) j = hash_at f j"
  by (simp add: hash_at_def)

lemma list_at_other: "k \<noteq> j \<Longrightarrow> list_at (f(k := v)) j = list_at f j" "k \<noteq> j \<Longrightarrow> is_list (f(k := v)) j = is_list f j"
  by (simp_all add: list_at_def is_list_def)

lemma put_list_at:
  "list_at (put_list k xs f) j = (if j = k then xs else list_at f j)"
  "is_list (put_list k xs f) j = (j = k \<or> is_list f j)"
  by (auto simp: put_list_def list_at_def is_list_def)

lemma put_list_other: "k \<noteq> j \<Longrightarrow> put_list k xs f j = f j"
  by (simp add: put_list_def)

lemmas other_keys = set_at_other hash_at_other list_at_other put_list_at put_list_other

lemma hash_at_put: "hash_at (put_hash k h f) k = Some h"
  by (simp add: hash_at_def put_hash_def no_fields_iff)

lemma put_hash_other: "j \<noteq> k \<Longrightarrow> put_hash k h f j = f j"
  by (simp add: put_hash_def)

lemma put_hash_at:
  "j \<noteq> k \<Longrightarrow> set_at (put_hash k h f) j = set_at f j" "j \<noteq> k \<Longrightarrow> list_at (put_hash k h f) j = list_at f j"
  "j \<noteq> k \<Longrightarrow> is_list (put_hash k h f) j = is_list f j"
  by (simp_all add: put_hash_def set_at_def list_at_def is_list_def)

lemma same_registry_new: "same_registry (\<lambda>_. None) (NewMemory clock)"
  by (simp add: same_registry_def NewMemory_def set_at_def hash_at_def is_list_def list_at_def log_lines_def
      mem_reg_ok_def logs_ok_def gm_wf_def fun_eq_iff)

lemma events_of_raw_filter: "events_of_raw k (map Evt es) = filter (\<lambda>e. k = [] \<or> ev_PluginID e = k) es"
  by (induction es) auto

lemma log_lines_simps [simp]:
  "log_lines (m\<lparr>me_recs := a\<rparr>) = log_lines m" "log_lines (m\<lparr>me_ticks := n\<rparr>) = log_lines m"
  "log_lines (m\<lparr>me_active := b\<rparr>) = log_lines m" "log_lines (m\<lparr>me_audit := c\<rparr>) = log_lines m"
  by (simp_all add: log_lines_def fun_eq_iff)

lemma same_put:
  assumes "same_registry f m" and "gm_get (me_recs m) k \<noteq> None"
  shows "same_registry (f(recKey k \<mapsto> RStr (Doc r))) (m\<lparr>me_ticks := n, me_recs := gm_put k r (me_recs m)\<rparr>)"
  using assms by (auto simp: same_registry_def other_keys mem_reg_ok_def in_gm_keys_iff)

lemma same_create:
  assumes "same_registry f m"
  shows "same_registry (f(recKey k \<mapsto> RStr (Doc r), regIdsKey \<mapsto> RSetV (insert k (set (gm_keys (me_recs m))))))
    (m\<lparr>me_recs := gm_put k r (me_recs m)\<rparr>)"
proof -
  have "set_at (g(regIdsKey \<mapsto> RSetV A)) regIdsKey = Some A" for g A by (simp add: set_at_def)
  then show ?thesis using assms by (auto simp: same_registry_def other_keys mem_reg_ok_def)
qed

lemma log_lines_del: "log_lines (m\<lparr>me_recs := a, me_logs := gm_del k (me_logs m)\<rparr>) j = (if j = k then [] else log_lines m j)"
  by (simp add: log_lines_def)

lemma same_delete:
  assumes "same_registry f m"
  shows "same_registry (fold rw_apply [SRem regIdsKey k, DelKey (logKey k)] (f(recKey k := None)))
    (m\<lparr>me_recs := gm_del k (me_recs m), me_logs := gm_del k (me_logs m)\<rparr>)"
proof -
  let ?g = "rw_apply (SRem regIdsKey k) (f(recKey k := None))"
  have ids: "set_at ?g regIdsKey = Some (set (gm_keys (me_recs m)) - {k})"
    using assms by (auto simp: same_registry_def set_at_def split: option.splits rval.splits)
  have other: "?g j = (f(recKey k := None)) j" if "j \<noteq> regIdsKey" for j
    using that by (simp add: rw_other del: rw_apply.simps)
  have at: "set_at (?g(logKey k := None)) regIdsKey = set_at ?g regIdsKey"
    "hash_at (?g(logKey k := None)) activeKey = hash_at f activeKey"
    "list_at (?g(logKey k := None)) auditKey = list_at f auditKey" "is_list (?g(logKey k := None)) auditKey = is_list f auditKey"
    using other [of activeKey] other [of auditKey]
    by (simp_all add: set_at_def hash_at_def list_at_def is_list_def del: rw_apply.simps)
  have recs: "(?g(logKey k := None)) (recKey j) = map_option (\<lambda>r. RStr (Doc r)) (gm_get (gm_del k (me_recs m)) j)" for j
    using assms other [of "recKey j"] by (simp add: same_registry_def del: rw_apply.simps)
  have logs: "is_list (?g(logKey k := None)) (logKey j) \<and>
      list_at (?g(logKey k := None)) (logKey j) = map Txt (if j = k then [] else log_lines m j)" for j
    using assms other [of "logKey j"] by (simp add: same_registry_def list_at_def is_list_def del: rw_apply.simps)
  have ok: "mem_reg_ok (m\<lparr>me_recs := gm_del k (me_recs m), me_logs := gm_del k (me_logs m)\<rparr>)"
    using assms by (auto simp: same_registry_def mem_reg_ok_def logs_ok_def)
  show ?thesis
    unfolding same_registry_def log_lines_del fold_simps rw_apply.simps(2) at ids
    using assms recs logs ok by (simp add: same_registry_def del: rw_apply.simps)
qed

lemma same_select:
  assumes "same_registry f m"
  shows "same_registry (put_hash activeKey ((gm_get (me_active m))(t \<mapsto> k)) f) (mem_SetActive t k m)"
    and "same_registry (put_hash activeKey ((gm_get (me_active m))(t := None)) f) (mem_ClearActive t m)"
  using assms
  by (auto simp: same_registry_def mem_SetActive_def mem_ClearActive_def put_hash_at hash_at_put put_hash_other mem_reg_ok_def
      gm_get_put_fun gm_get_del_fun)

lemma same_audit:
  assumes "same_registry f m"
  shows "same_registry (fold rw_apply [LPush auditKey (Evt e), LTrim auditKey 0 (int maxAuditEvents - 1)] f) (mem_AppendAudit e m)"
proof -
  have a: "is_list f auditKey" "list_at f auditKey = map Evt (rev (me_audit m))" using assms by (simp_all add: same_registry_def)
  have pos: "0 < maxAuditEvents" by (simp add: maxAuditEvents_def)
  have "fold rw_apply [LPush auditKey (Evt e), LTrim auditKey 0 (int maxAuditEvents - 1)] f =
      put_list auditKey (map Evt (rev (last_n maxAuditEvents (me_audit m @ [e])))) (put_list auditKey (map Evt (e # rev (me_audit m))) f)"
    using a pos by (simp add: put_list_at lrange_first rev_last_n take_map [of _ Evt "e # rev (me_audit m)", simplified])
  then show ?thesis
    using assms mem_ok_audit [of m e]
    by (auto simp: same_registry_def mem_AppendAudit_def put_list_at put_list_other set_at_def hash_at_def)
qed

lemma same_log:
  assumes "same_registry f m"
  shows "same_registry (fold rw_apply [RPush (logKey k) (Txt (take maxLogLineLen l)), LTrim (logKey k) (- int maxLogLines) (- 1)] f)
    (mem_AppendLog k l m)"
proof -
  have a: "is_list f (logKey k)" "list_at f (logKey k) = map Txt (log_lines m k)" using assms by (simp_all add: same_registry_def)
  have pos: "0 < maxLogLines" by (simp add: maxLogLines_def)
  have new: "log_lines (mem_AppendLog k l m) j =
      (if j = k then last_n maxLogLines (log_lines m k @ [take maxLogLineLen l]) else log_lines m j)" for j
    by (simp add: mem_AppendLog_def log_lines_def)
  have "fold rw_apply [RPush (logKey k) (Txt (take maxLogLineLen l)), LTrim (logKey k) (- int maxLogLines) (- 1)] f =
      put_list (logKey k) (map Txt (last_n maxLogLines (log_lines m k @ [take maxLogLineLen l])))
        (put_list (logKey k) (map Txt (log_lines m k @ [take maxLogLineLen l])) f)"
    using a pos by (simp add: put_list_at lrange_last last_n_def drop_map)
  then show ?thesis
    using assms mem_ok_log [of m k l]
    by (auto simp: same_registry_def new put_list_at put_list_other set_at_def hash_at_def) (simp_all add: mem_AppendLog_def)
qed

context calm_db
begin

lemma same_get:
  assumes "same_state up sp s m" and "rr_Get D k s = (x, t)"
  shows "x = mem_Get k m" and "same_state up sp t m"
proof -
  have up: "up (rr_db s)" and f: "sp (rr_db s) (recKey k) = map_option RStr (map_option Doc (gm_get (me_recs m) k))"
    using assms(1) by (simp_all add: same_state_def same_registry_def option.map_comp o_def)
  obtain v where v: "db_get D (recKey k) (rr_db s) = (v, rr_db t)" "x = doc_at v" "t = s\<lparr>rr_db := rr_db t\<rparr>"
    using assms(2) by (auto simp: rr_Get_def on_db_iff split: prod.splits)
  have "res_ok v" using calm_get [OF up f] v(1) by simp
  then obtain y where y: "v = Inr y" by (auto simp: res_ok_def split: sum.splits)
  have law: "quiet up sp ver (rr_db s) (rr_db t)" "sp (rr_db s) (recKey k) = map_option RStr y"
    using db_get_law [OF up v(1)] y by auto
  have "map_option RStr y = map_option RStr (map_option Doc (gm_get (me_recs m) k))" using law(2) f by simp
  then have "y = map_option Doc (gm_get (me_recs m) k)"
    by (cases y; cases "gm_get (me_recs m) k") auto
  then show "x = mem_Get k m" using v(2) y by (auto simp: doc_at_def mem_Get_def split: option.splits)
  show "same_state up sp t m"
    by (subst v(3), rule same_state_db [OF assms(1)]) (use law(1) in \<open>simp_all add: quiet_def evolves_def\<close>)
qed

lemma same_list_loop:
  assumes "same_state up sp s m" and "set ks \<subseteq> set (gm_keys (me_recs m))"
  shows "\<exists>t. rr_list_loop D ks out s = (Inr (out @ map (\<lambda>k. the (gm_get (me_recs m) k)) ks), t) \<and> same_state up sp t m"
  using assms
proof (induction ks arbitrary: out s)
  case (Cons k ks)
  obtain x t where get: "rr_Get D k s = (x, t)" by fastforce
  obtain r where r: "gm_get (me_recs m) k = Some r" using Cons.prems(2) by (auto simp: in_gm_keys_iff)
  have "x = Inr r" using same_get(1) [OF Cons.prems(1) get] r by (simp add: mem_Get_def)
  then show ?case
    using Cons.IH [OF same_get(2) [OF Cons.prems(1) get], of "out @ [r]"] Cons.prems(2) get r by auto
qed auto

lemma same_list:
  assumes "same_state up sp s m" and "rr_List D s = (x, t)"
  shows "all_of x = RRecords None (mset (mem_List m)) \<and> same_state up sp t m"
proof -
  have up: "up (rr_db s)" and ids: "set_at (sp (rr_db s)) regIdsKey = Some (set (gm_keys (me_recs m)))"
    and wf: "gm_wf (me_recs m)"
    using assms(1) by (simp_all add: same_state_def same_registry_def mem_reg_ok_def)
  obtain y w where ms: "db_smembers D regIdsKey (rr_db s) = (y, w)" by fastforce
  have "res_ok y" using calm_smembers [OF up, of regIdsKey] ids ms by simp
  then obtain ks where ks: "y = Inr ks" by (auto simp: res_ok_def split: sum.splits)
  have law: "quiet up sp ver (rr_db s) w" "set ks = set (gm_keys (me_recs m))" "distinct ks"
    using smembers_law [OF up ms] ks ids by auto
  let ?s1 = "s\<lparr>rr_db := w\<rparr>" and ?get = "\<lambda>k. the (gm_get (me_recs m) k)"
  have 1: "same_state up sp ?s1 m"
    by (rule same_state_db [OF assms(1)]) (use law(1) in \<open>simp_all add: quiet_def evolves_def\<close>)
  obtain u where run: "rr_list_loop D ks [] ?s1 = (Inr (map ?get ks), u)" "same_state up sp u m"
    using same_list_loop [OF 1, of ks "[]"] law(2) by auto
  have "mset ks = mset (gm_keys (me_recs m))"
    using law(2,3) wf by (metis gm_wf_keys set_eq_iff_mset_eq_distinct)
  then have "mset (map ?get ks) = image_mset ?get (mset (gm_keys (me_recs m)))" by simp
  also have "\<dots> = mset (map (\<lambda>p. ?get (fst p)) (me_recs m))" by (simp add: gm_keys_def image_mset.compositionality o_def)
  also have "map (\<lambda>p. ?get (fst p)) (me_recs m) = map snd (me_recs m)"
    using wf by (auto simp: gm_get_iff [OF wf] intro!: map_cong) (metis gm_get_iff option.sel)
  finally have "mset (map ?get ks) = mset (mem_List m)" by (simp add: mem_List_def sortRecords_def)
  moreover have "x = Inr (sortRecords (map ?get ks))" "t = u"
    using assms(2) ms ks run(1) by (simp_all add: rr_List_def on_db_def)
  ultimately show ?thesis using run(2) by (simp add: all_of_def sortRecords_def)
qed

lemma calm_None: "same_state up sp s m \<Longrightarrow> f (rr_db s) = (e, w) \<Longrightarrow> fst (f (rr_db s)) = None \<Longrightarrow> on_db f s = (None, s\<lparr>rr_db := w\<rparr>)"
  by (simp add: on_db_def)

lemma same_write:
  assumes "same_state up sp s m" and "up w" and "same_registry (sp w) m'" and "me_clock m' = me_clock m" "me_ticks m' = me_ticks m"
  shows "same_state up sp (s\<lparr>rr_db := w\<rparr>) m'"
  using assms by (simp add: same_state_def)

lemma same_exec:
  assumes "same_state up sp s m" and "on_db (db_exec D cs) s = (e, t)"
    and "same_registry (fold rw_apply cs (sp (rr_db s))) m'" and "me_clock m' = me_clock m" "me_ticks m' = me_ticks m"
  shows "e = None \<and> same_state up sp t m'"
proof -
  have up: "up (rr_db s)" using assms(1) by (simp add: same_state_def)
  have run: "db_exec D cs (rr_db s) = (e, rr_db t)" "t = s\<lparr>rr_db := rr_db t\<rparr>" using assms(2) by (simp_all add: on_db_iff)
  have "e = None" using calm_exec [OF up, of cs] run(1) by simp
  then show ?thesis
    using exec_law [OF up run(1)] assms(3-5) by (subst run(2)) (auto intro: same_write [OF assms(1)] simp: evolves_def)
qed

lemma same_Create:
  assumes "same_state up sp s m" and "rr_Create D p s = (e, t)" and "record_copy (p\<lparr>rc_Rev := 1\<rparr>) = Inr c"
  shows "\<exists>m'. mem_Create p m = (e, m') \<and> same_state up sp t m'"
proof -
  let ?K = "recKey (rc_ID p)" and ?f = "sp (rr_db s)"
  have up: "up (rr_db s)" and reg: "same_registry ?f m" using assms(1) by (simp_all add: same_state_def)
  obtain y w where nx: "db_setnx D ?K (Doc c) (rr_db s) = (y, w)" by fastforce
  have "res_ok y" using calm_setnx [OF up, of ?K "Doc c"] nx by simp
  then obtain b where b: "y = Inr b" by (auto simp: res_ok_def split: sum.splits)
  note law = setnx_law [OF up nx]
  have upw: "up w" using law by (simp add: evolves_def)
  have key: "?f ?K = None \<longleftrightarrow> gm_get (me_recs m) (rc_ID p) = None" using reg by (simp add: same_registry_def)
  show ?thesis
  proof (cases b)
    case False
    then have "?f ?K \<noteq> None" "sp w = ?f" using law b by auto
    moreover have "e = Some ErrExists" "t = s\<lparr>rr_db := w\<rparr>"
      using assms(2,3) nx b False by (simp_all add: rr_Create_def on_db_def)
    ultimately show ?thesis using key same_state_db [OF assms(1) upw] by (auto simp: mem_Create_def)
  next
    case True
    then have new: "?f ?K = None" "sp w = ?f(?K \<mapsto> RStr (Doc c))" using law b by auto
    obtain e' v where sa: "db_sadd D regIdsKey (rc_ID p) w = (e', v)" by fastforce
    have ids: "set_at (sp w) regIdsKey = Some (set (gm_keys (me_recs m)))"
      using reg new(2) by (simp add: same_registry_def other_keys)
    have "e' = None" using calm_sadd [OF upw, of regIdsKey "rc_ID p"] ids sa by simp
    then have v: "up v" "sp v = (sp w)(regIdsKey \<mapsto> RSetV (insert (rc_ID p) (set (gm_keys (me_recs m)))))"
      using sadd_law [OF upw sa] ids by (auto simp: evolves_def)
    have "e = None" "t = s\<lparr>rr_db := v\<rparr>"
      using assms(2,3) nx b True sa \<open>e' = None\<close> by (simp_all add: rr_Create_def on_db_def)
    moreover have "mem_Create p m = (None, m\<lparr>me_recs := gm_put (rc_ID p) c (me_recs m)\<rparr>)"
      using assms(3) key new(1) by (simp add: mem_Create_def)
    moreover have "same_state up sp (s\<lparr>rr_db := v\<rparr>) (m\<lparr>me_recs := gm_put (rc_ID p) c (me_recs m)\<rparr>)"
      using same_create [OF reg, of "rc_ID p" c] v new(2) by (intro same_write [OF assms(1)]) simp_all
    ultimately show ?thesis by blast
  qed
qed

lemma same_attempt:
  assumes "same_state up sp s m" and "rr_attempt D k fn s = (x, t)"
  shows "\<exists>m'. mem_Update k fn m = (x, m') \<and> same_state up sp t m'"
proof -
  let ?K = "recKey k" and ?f = "sp (rr_db s)"
  have up: "up (rr_db s)" and reg: "same_registry ?f m" and tick: "rr_clock s = me_clock m" "rr_ticks s = me_ticks m"
    using assms(1) by (simp_all add: same_state_def)
  obtain y w where wa: "db_watch D ?K (rr_db s) = (y, w)" by fastforce
  have "res_ok y" using calm_watch [OF up, of ?K] wa by simp
  then obtain tok where tok: "y = Inr tok" by (auto simp: res_ok_def split: sum.splits)
  have w: "up w" "sp w = ?f" "seen tok ?K = ver w ?K" using watch_law [OF up wa] tok by (auto simp: quiet_def evolves_def)
  have f: "sp w ?K = map_option RStr (map_option Doc (gm_get (me_recs m) k))"
    using reg w(2) by (simp add: same_registry_def option.map_comp o_def)
  obtain v u where tg: "db_tx_get D tok ?K w = (v, u)" by fastforce
  have "res_ok v" using calm_tx_get [OF w(1) f, of tok] tg by simp
  then obtain z where z: "v = Inr z" by (auto simp: res_ok_def split: sum.splits)
  have u: "up u" "sp u = ?f" "sp w ?K = map_option RStr z" using tx_get_law [OF w(1) tg] z w(2) by (auto simp: quiet_def evolves_def)
  have seen: "ver u ?K = seen tok ?K" using calm_tx_ver [OF w(1), of tok ?K] tg w(3) by simp
  have "z = map_option Doc (gm_get (me_recs m) k)" using u(3) f by (cases z; cases "gm_get (me_recs m) k") auto
  then have doc: "doc_at v = mem_Get k m" using z by (auto simp: doc_at_def mem_Get_def split: option.splits)
  let ?s2 = "s\<lparr>rr_db := u\<rparr>"
  have s2: "same_state up sp ?s2 m" by (rule same_state_db [OF assms(1) u(1,2)])
  note run = assms(2) [unfolded rr_attempt_def on_db_def wa tok prod.case sum.case]
  show ?thesis
  proof (cases "res_bind (mem_Get k m) fn")
    case err: (Inl e)
    then have "x = Inl e \<and> t = ?s2" using assms(2) wa tok tg doc by (simp add: rr_attempt_def on_db_def)
    moreover have "mem_Update k fn m = (Inl e, m)"
      using err by (auto simp: mem_Update_def mem_Get_def split: option.splits)
    ultimately show ?thesis using s2 by blast
  next
    case r: (Inr r)
    then obtain old where old: "gm_get (me_recs m) k = Some old" "fn old = Inr r"
      by (auto simp: mem_Get_def res_bind_Inr split: option.splits)
    let ?n = "Suc (me_ticks m)"
    have s3: "same_state up sp (?s2\<lparr>rr_ticks := Suc (rr_ticks s)\<rparr>) (m\<lparr>me_ticks := ?n\<rparr>)"
      using s2 tick by (simp add: same_state_def same_registry_def mem_reg_ok_def)
    show ?thesis
    proof (cases "rr_stamp (rr_clock s (rr_ticks s)) r")
      case err: (Inl e)
      then have "x = Inl e \<and> t = ?s2\<lparr>rr_ticks := Suc (rr_ticks s)\<rparr>"
        using assms(2) wa tok tg doc r by (simp add: rr_attempt_def on_db_def Let_def)
      moreover have "mem_Update k fn m = (Inl e, m\<lparr>me_ticks := ?n\<rparr>)"
        using err old tick by (simp add: mem_Update_def Let_def rr_stamp_def)
      ultimately show ?thesis using s3 by blast
    next
      case new: (Inr new)
      obtain e v' where ts: "db_tx_set D tok ?K (Doc new) u = (e, v')" by fastforce
      have "e = None" using calm_tx_set [OF u(1) seen, of "Doc new"] ts by simp
      then have v': "up v'" "sp v' = ?f(?K \<mapsto> RStr (Doc new))" using tx_set_law [OF u(1) ts] u(2) by (auto simp: evolves_def)
      have "x = Inr new \<and> t = s\<lparr>rr_ticks := Suc (rr_ticks s), rr_db := v'\<rparr>"
        using assms(2) wa tok tg doc r new ts \<open>e = None\<close> by (simp add: rr_attempt_def on_db_def Let_def)
      moreover have "mem_Update k fn m = (Inr new, m\<lparr>me_ticks := ?n, me_recs := gm_put k new (me_recs m)\<rparr>)"
        using new old tick by (simp add: mem_Update_def Let_def rr_stamp_def)
      moreover have "same_registry (sp v') (m\<lparr>me_ticks := ?n, me_recs := gm_put k new (me_recs m)\<rparr>)"
        unfolding v'(2) by (rule same_put [OF reg]) (simp add: old(1))
      ultimately show ?thesis using v'(1) tick by (simp add: same_state_def)
    qed
  qed
qed

lemma same_Update:
  assumes "same_state up sp s m" and "rr_Update D k fn s = (x, t)" and "\<And>old e. fn old = Inl e \<Longrightarrow> \<not> errors_is e TxFailedErr"
  shows "\<exists>m'. mem_Update k fn m = (x, m') \<and> same_state up sp t m'"
proof -
  obtain y u where one: "rr_attempt D k fn s = (y, u)" by fastforce
  obtain m' where m': "mem_Update k fn m = (y, m')" "same_state up sp u m'" using same_attempt [OF assms(1) one] by blast
  have "\<not> errors_is e TxFailedErr" if "y = Inl e" for e
    using m'(1) that assms(3)
    by (auto simp: mem_Update_def Let_def record_copy_def ErrNotFound_def TxFailedErr_def split: option.splits sum.splits if_splits)
  then have "(x, t) = (y, u)"
    using assms(2) one by (auto simp: rr_Update_def maxAttempts_def numeral_eq_Suc split: sum.splits)
  then show ?thesis using m' by blast
qed

lemma same_Delete:
  assumes "same_state up sp s m" and "rr_Delete D k s = (e, t)"
  shows "\<exists>m'. mem_Delete k m = (e, m') \<and> same_state up sp t m'"
proof -
  let ?K = "recKey k" and ?f = "sp (rr_db s)"
  have up: "up (rr_db s)" and reg: "same_registry ?f m" using assms(1) by (simp_all add: same_state_def)
  obtain y w where de: "db_del D ?K (rr_db s) = (y, w)" by fastforce
  have "res_ok y" using calm_del [OF up, of ?K] de by simp
  then obtain n where n: "y = Inr n" by (auto simp: res_ok_def split: sum.splits)
  have w: "up w" "n = 0 \<longleftrightarrow> ?f ?K = None" "sp w = ?f(?K := None)" using del_law [OF up de] n by (auto simp: evolves_def)
  have key: "?f ?K = None \<longleftrightarrow> gm_get (me_recs m) k = None" using reg by (simp add: same_registry_def)
  show ?thesis
  proof (cases "n = 0")
    case True
    then have "sp w = ?f" using w by auto
    then have "same_state up sp (s\<lparr>rr_db := w\<rparr>) m" by (rule same_state_db [OF assms(1) w(1)])
    moreover have "e = Some ErrNotFound \<and> t = s\<lparr>rr_db := w\<rparr>" using assms(2) de n True by (simp add: rr_Delete_def on_db_def)
    ultimately show ?thesis using w(2) key True by (auto simp: mem_Delete_def)
  next
    case False
    obtain e' v where ex: "db_exec D [SRem regIdsKey k, DelKey (logKey k)] w = (e', v)" by fastforce
    have "e' = None" using calm_exec [OF w(1)] ex by (metis fst_conv)
    then have v: "up v" "sp v = fold rw_apply [SRem regIdsKey k, DelKey (logKey k)] (?f(?K := None))"
      using exec_law [OF w(1) ex] w(3) by (auto simp: evolves_def simp del: rw_apply.simps)
    have "e = None \<and> t = s\<lparr>rr_db := v\<rparr>" using assms(2) de n False ex \<open>e' = None\<close> by (simp add: rr_Delete_def on_db_def)
    moreover have "mem_Delete k m = (None, m\<lparr>me_recs := gm_del k (me_recs m), me_logs := gm_del k (me_logs m)\<rparr>)"
      using w(2) key False by (simp add: mem_Delete_def)
    moreover have "same_state up sp (s\<lparr>rr_db := v\<rparr>) (m\<lparr>me_recs := gm_del k (me_recs m), me_logs := gm_del k (me_logs m)\<rparr>)"
      using same_delete [OF reg, of k] v by (intro same_write [OF assms(1)]) simp_all
    ultimately show ?thesis by blast
  qed
qed

lemma same_Active:
  assumes "same_state up sp s m" and "rr_Active D s = (x, t)"
  shows "selection_of x = RActs None (gm_get (me_active m)) \<and> same_state up sp t m"
proof -
  have up: "up (rr_db s)" and h: "hash_at (sp (rr_db s)) activeKey = Some (gm_get (me_active m))"
    using assms(1) by (simp_all add: same_state_def same_registry_def)
  have run: "db_hgetall D activeKey (rr_db s) = (x, rr_db t)" "t = s\<lparr>rr_db := rr_db t\<rparr>"
    using assms(2) by (simp_all add: rr_Active_def on_db_iff)
  have "res_ok x" using calm_hgetall [OF up, of activeKey] h run(1) by simp
  then obtain a where a: "x = Inr a" by (auto simp: res_ok_def split: sum.splits)
  have law: "quiet up sp ver (rr_db s) (rr_db t)" "gm_get a = gm_get (me_active m)" using hgetall_law [OF up run(1)] a h by auto
  have "same_state up sp t m"
    by (subst run(2), rule same_state_db [OF assms(1)]) (use law(1) in \<open>simp_all add: quiet_def evolves_def\<close>)
  then show ?thesis using a law(2) by (simp add: selection_of_def)
qed

lemma same_Select:
  assumes "same_state up sp s m"
  shows "rr_SetActive D slot k s = (e, t) \<Longrightarrow> e = None \<and> same_state up sp t (mem_SetActive slot k m)"
    and "rr_ClearActive D slot s = (e, t) \<Longrightarrow> e = None \<and> same_state up sp t (mem_ClearActive slot m)"
proof -
  have up: "up (rr_db s)" and reg: "same_registry (sp (rr_db s)) m" using assms(1) by (simp_all add: same_state_def)
  have h: "hash_at (sp (rr_db s)) activeKey = Some (gm_get (me_active m))" using reg by (simp add: same_registry_def)
  note put = same_select [OF reg, of slot]
  show "e = None \<and> same_state up sp t (mem_SetActive slot k m)" if r: "rr_SetActive D slot k s = (e, t)"
  proof -
    have run: "db_hset D activeKey slot k (rr_db s) = (e, rr_db t)" "t = s\<lparr>rr_db := rr_db t\<rparr>"
      using r by (simp_all add: rr_SetActive_def on_db_iff)
    have "e = None" using calm_hset [OF up, of activeKey slot k] h run(1) by simp
    moreover have "same_state up sp (s\<lparr>rr_db := rr_db t\<rparr>) (mem_SetActive slot k m)"
      using hset_law [OF up run(1)] h put(1) [of k] \<open>e = None\<close>
      by (intro same_write [OF assms]) (auto simp: evolves_def mem_SetActive_def)
    ultimately show ?thesis using run(2) by simp
  qed
  show "e = None \<and> same_state up sp t (mem_ClearActive slot m)" if r: "rr_ClearActive D slot s = (e, t)"
  proof -
    have run: "db_hdel D activeKey slot (rr_db s) = (e, rr_db t)" "t = s\<lparr>rr_db := rr_db t\<rparr>"
      using r by (simp_all add: rr_ClearActive_def on_db_iff)
    have "e = None" using calm_hdel [OF up, of activeKey slot] h run(1) by simp
    moreover have "same_state up sp (s\<lparr>rr_db := rr_db t\<rparr>) (mem_ClearActive slot m)"
      using hdel_law [OF up run(1)] h put(2) \<open>e = None\<close>
      by (intro same_write [OF assms]) (auto simp: evolves_def mem_ClearActive_def)
    ultimately show ?thesis using run(2) by simp
  qed
qed

lemma same_range:
  assumes "same_state up sp s m" and "on_db (db_lrange D k i j) s = (x, t)" and "is_list (sp (rr_db s)) k"
  shows "x = Inr (lrange i j (list_at (sp (rr_db s)) k)) \<and> same_state up sp t m"
proof -
  have up: "up (rr_db s)" using assms(1) by (simp add: same_state_def)
  have run: "db_lrange D k i j (rr_db s) = (x, rr_db t)" "t = s\<lparr>rr_db := rr_db t\<rparr>" using assms(2) by (simp_all add: on_db_iff)
  have "res_ok x" using calm_lrange [OF up assms(3), of i j] run(1) by simp
  then obtain ys where ys: "x = Inr ys" by (auto simp: res_ok_def split: sum.splits)
  note law = lrange_law [OF up run(1)]
  have "same_state up sp t m"
    by (subst run(2), rule same_state_db [OF assms(1)]) (use law in \<open>simp_all add: quiet_def evolves_def\<close>)
  then show ?thesis using ys law by simp
qed

lemma same_Audit:
  assumes "same_state up sp s m" and "rr_Audit D k limit s = (x, t)"
  shows "x = Inr (mem_Audit k limit m) \<and> same_state up sp t m"
proof -
  have reg: "same_registry (sp (rr_db s)) m" using assms(1) by (simp add: same_state_def)
  obtain y u where rd: "on_db (db_lrange D auditKey 0 (int maxAuditEvents - 1)) s = (y, u)" by fastforce
  have a: "is_list (sp (rr_db s)) auditKey" "list_at (sp (rr_db s)) auditKey = map Evt (rev (me_audit m))"
    "length (me_audit m) \<le> maxAuditEvents"
    using reg by (simp_all add: same_registry_def mem_reg_ok_def)
  have "lrange 0 (int maxAuditEvents - 1) (map Evt (rev (me_audit m))) = map Evt (rev (me_audit m))"
    using a(3) by (subst lrange_first) (simp_all add: maxAuditEvents_def)
  then have "y = Inr (map Evt (rev (me_audit m)))" "same_state up sp u m"
    using same_range [OF assms(1) rd a(1)] a(2) by simp_all
  then show ?thesis using assms(2) rd by (auto simp: rr_Audit_def mem_Audit_def events_of_raw_filter Let_def)
qed

lemma same_Logs:
  assumes "same_state up sp s m" and "rr_Logs D k limit s = (x, t)"
  shows "x = Inr (mem_Logs k limit m) \<and> same_state up sp t m"
proof -
  have reg: "same_registry (sp (rr_db s)) m" using assms(1) by (simp add: same_state_def)
  let ?i = "if 0 < limit then - limit else 0"
  obtain y u where rd: "on_db (db_lrange D (logKey k) ?i (- 1)) s = (y, u)" by fastforce
  have a: "is_list (sp (rr_db s)) (logKey k)" "list_at (sp (rr_db s)) (logKey k) = map Txt (log_lines m k)"
    using reg by (simp_all add: same_registry_def)
  have "lrange ?i (- 1) (map Txt (log_lines m k)) = map Txt (mem_Logs k limit m)"
  proof (cases "0 < limit")
    case True
    then show ?thesis using lrange_last [of "nat limit" "map Txt (log_lines m k)"] by (simp add: mem_Logs_def last_n_def drop_map)
  qed (simp add: lrange_all mem_Logs_def)
  then have "y = Inr (map Txt (mem_Logs k limit m))" "same_state up sp u m"
    using same_range [OF assms(1) rd a(1)] a(2) by simp_all
  then show ?thesis using assms(2) rd by (simp add: rr_Logs_def o_def)
qed

end

section \<open>Every sequence of calls\<close>

text \<open>Records that can be written, and functions that do not report a lost race of their own.\<close>

definition plain_call :: "reg_call \<Rightarrow> bool" where
  "plain_call c = (case c of
     CCreate p \<Rightarrow> res_ok (record_copy (p\<lparr>rc_Rev := 1\<rparr>))
   | CUpdate k fn \<Rightarrow> (\<forall>old e. fn old = Inl e \<longrightarrow> \<not> errors_is e TxFailedErr)
   | _ \<Rightarrow> True)"

context calm_db
begin

lemma same_call:
  assumes "same_state up sp s m" and "plain_call c" and "run_call (redis_registry D) c s = (a, t)"
  shows "\<exists>m'. run_call memory_registry c m = (a, m') \<and> same_state up sp t m'"
proof (cases c)
  case (CGet k)
  then show ?thesis using same_get [OF assms(1)] assms(3)
    by (auto simp: redis_registry_def memory_registry_def split: prod.splits)
next
  case CList
  then show ?thesis using same_list [OF assms(1)] assms(3)
    by (auto simp: redis_registry_def memory_registry_def all_of_def split: prod.splits)
next
  case (CCreate p)
  then obtain q where "record_copy (p\<lparr>rc_Rev := 1\<rparr>) = Inr q"
    using assms(2) by (auto simp: plain_call_def res_ok_def split: sum.splits)
  from same_Create [OF assms(1) _ this] show ?thesis using CCreate assms(3)
    by (fastforce simp: redis_registry_def memory_registry_def split: prod.splits)
next
  case (CUpdate k fn)
  then have "\<And>old e. fn old = Inl e \<Longrightarrow> \<not> errors_is e TxFailedErr" using assms(2) by (simp add: plain_call_def)
  from same_Update [OF assms(1) _ this] show ?thesis using CUpdate assms(3)
    by (fastforce simp: redis_registry_def memory_registry_def split: prod.splits)
next
  case (CDelete k)
  then show ?thesis using same_Delete [OF assms(1)] assms(3)
    by (fastforce simp: redis_registry_def memory_registry_def split: prod.splits)
next
  case CActive
  then show ?thesis using same_Active [OF assms(1)] assms(3)
    by (auto simp: redis_registry_def memory_registry_def selection_of_def split: prod.splits)
next
  case (CSetActive s k)
  then show ?thesis using same_Select(1) [OF assms(1)] assms(3)
    by (auto simp: redis_registry_def memory_registry_def split: prod.splits)
next
  case (CClearActive s)
  then show ?thesis using same_Select(2) [OF assms(1)] assms(3)
    by (auto simp: redis_registry_def memory_registry_def split: prod.splits)
next
  case (CAppendAudit ev)
  have reg: "same_registry (sp (rr_db s)) m" using assms(1) by (simp add: same_state_def)
  show ?thesis using same_exec [OF assms(1) _ same_audit [OF reg, of ev]] CAppendAudit assms(3)
    by (auto simp: redis_registry_def memory_registry_def rr_AppendAudit_def mem_AppendAudit_def split: prod.splits)
next
  case (CAudit k n)
  then show ?thesis using same_Audit [OF assms(1)] assms(3)
    by (auto simp: redis_registry_def memory_registry_def split: prod.splits)
next
  case (CAppendLog k l)
  have reg: "same_registry (sp (rr_db s)) m" using assms(1) by (simp add: same_state_def)
  show ?thesis using same_exec [OF assms(1) _ same_log [OF reg, of k l]] CAppendLog assms(3)
    by (auto simp: redis_registry_def memory_registry_def rr_AppendLog_def mem_AppendLog_def split: prod.splits)
next
  case (CLogs k n)
  then show ?thesis using same_Logs [OF assms(1)] assms(3)
    by (auto simp: redis_registry_def memory_registry_def split: prod.splits)
qed

lemma same_calls:
  "same_state up sp s m \<Longrightarrow> list_all plain_call cs \<Longrightarrow> run_calls (redis_registry D) cs s = run_calls memory_registry cs m"
proof (induction cs arbitrary: s m)
  case (Cons c cs)
  obtain a t where one: "run_call (redis_registry D) c s = (a, t)" by fastforce
  obtain m' where "run_call memory_registry c m = (a, m')" "same_state up sp t m'"
    using same_call [OF Cons.prems(1) _ one] Cons.prems(2) by auto
  then show ?case using Cons.IH [of t m'] Cons.prems(2) one by simp
qed simp

end

text \<open>C18: over a server that answers, the durable registry is the registry in memory: from an empty database, every
  sequence of calls (records created, updated, listed and deleted, plugins selected, audit events and log
  lines appended and read) gets the same answers from both, lists of records up to their order; only
  a record that cannot be written and an update that itself reports a lost race are excluded.\<close>

theorem redis_registry_refines_memory:
  assumes "calm_db D up sp ver seen" and "up w" and "sp w = (\<lambda>_. None)" and "list_all plain_call calls"
  shows "run_calls (redis_registry D) calls \<lparr>rr_db = w, rr_clock = clock, rr_ticks = 0\<rparr> =
    run_calls memory_registry calls (NewMemory clock)"
proof (rule calm_db.same_calls [OF assms(1) _ assms(4)])
  show "same_state up sp \<lparr>rr_db = w, rr_clock = clock, rr_ticks = 0\<rparr> (NewMemory clock)"
    using assms(2,3) same_registry_new [of clock] by (simp add: same_state_def NewMemory_def)
qed

end
