(* ===== verification/Redis_Demo.thy ===== *)
theory Redis_Demo
  imports Redis_Refines Switch_Props
begin

text \<open>
  A Redis server in memory with scripted faults: each command consumes one \<open>fault\<close>, a refused connection, or
  a reply that is lost after the command took effect. It keeps the laws, and without faults those of
  \<open>calm_db\<close>. Then runs of the durable registry on it.
\<close>

datatype fault = Fine | Down | LostReply

record mdb =
  md_space :: keyspace
  md_ver :: "string \<Rightarrow> nat"
  md_script :: "fault list"

definition mdb_new :: "fault list \<Rightarrow> mdb" where
  "mdb_new faults = \<lparr>md_space = (\<lambda>_. None), md_ver = (\<lambda>_. 0), md_script = faults\<rparr>"

definition mdb_next :: "mdb \<Rightarrow> fault \<times> mdb" where
  "mdb_next r = (case md_script r of [] \<Rightarrow> (Fine, r) | f # fs \<Rightarrow> (f, r\<lparr>md_script := fs\<rparr>))"

text \<open>A change of the keys \<open>ks\<close>.\<close>

definition mdb_put :: "string list \<Rightarrow> keyspace \<Rightarrow> mdb \<Rightarrow> mdb" where
  "mdb_put ks f r = r\<lparr>md_space := (\<lambda>k. if k \<in> set ks then f k else md_space r k),
     md_ver := (\<lambda>k. if k \<in> set ks then Suc (md_ver r k) else md_ver r k)\<rparr>"

definition net_error :: goerr where "net_error = Sentinel ''redis: i/o timeout''"
definition wrong_type :: goerr where "wrong_type = Sentinel ''WRONGTYPE''"

definition mdb_read :: "(keyspace \<Rightarrow> 'a res) \<Rightarrow> mdb \<Rightarrow> 'a res \<times> mdb" where
  "mdb_read g r = (case mdb_next r of (Fine, t) \<Rightarrow> (g (md_space t), t) | (_, t) \<Rightarrow> (Inl net_error, t))"

text \<open>A write: \<open>None\<close> when the command is refused, else its answer and the keys with their new values.\<close>

definition mdb_write :: "(mdb \<Rightarrow> 'a res \<times> (string list \<times> keyspace) option) \<Rightarrow> mdb \<Rightarrow> 'a res \<times> mdb" where
  "mdb_write g r = (case mdb_next r of
     (Fine, t) \<Rightarrow> (case g t of (x, None) \<Rightarrow> (x, t) | (x, Some (ks, f)) \<Rightarrow> (x, mdb_put ks f t))
   | (Down, t) \<Rightarrow> (Inl net_error, t)
   | (LostReply, t) \<Rightarrow> (case g t of (x, None) \<Rightarrow> (Inl net_error, t) | (x, Some (ks, f)) \<Rightarrow> (Inl net_error, mdb_put ks f t)))"

definition just_error :: "unit res \<times> mdb \<Rightarrow> goerr option \<times> mdb" where
  "just_error x = (case x of (Inl e, t) \<Rightarrow> (Some e, t) | (Inr _, t) \<Rightarrow> (None, t))"

fun string_at :: "rval option \<Rightarrow> stored option res" where
  "string_at None = Inr None"
| "string_at (Some (RStr x)) = Inr (Some x)"
| "string_at _ = Inl wrong_type"

fun write_key :: "rwrite \<Rightarrow> string" where
  "write_key (SRem k m) = k"
| "write_key (DelKey k) = k"
| "write_key (LPush k x) = k"
| "write_key (RPush k x) = k"
| "write_key (LTrim k i j) = k"

definition all_slots :: "plugin_type list" where
  "all_slots = [TypeLLM, TypeEmbedder, TypeVectorStore, TypePersistence, TypeQueue, TypePolicy,
     TypeEmbeddingModel, TypeVectorIndex, TypeSimilarityMetric]"

definition hash_list :: "(plugin_type \<Rightarrow> string option) \<Rightarrow> (plugin_type, string) gomap" where
  "hash_list h = concat (map (\<lambda>s. case h s of None \<Rightarrow> [] | Some v \<Rightarrow> [(s, v)]) all_slots)"

text \<open>The writes.\<close>

definition w_setnx :: "string \<Rightarrow> stored \<Rightarrow> mdb \<Rightarrow> bool res \<times> (string list \<times> keyspace) option" where
  "w_setnx k x t = (if md_space t k = None then (Inr True, Some ([k], (md_space t)(k \<mapsto> RStr x))) else (Inr False, None))"

definition w_sadd :: "string \<Rightarrow> string \<Rightarrow> mdb \<Rightarrow> unit res \<times> (string list \<times> keyspace) option" where
  "w_sadd k m t = (case set_at (md_space t) k of None \<Rightarrow> (Inl wrong_type, None)
     | Some ms \<Rightarrow> (Inr (), Some ([k], (md_space t)(k \<mapsto> RSetV (insert m ms)))))"

definition w_tx_set :: "nat \<Rightarrow> string \<Rightarrow> stored \<Rightarrow> mdb \<Rightarrow> unit res \<times> (string list \<times> keyspace) option" where
  "w_tx_set tok k x t = (if md_ver t k = tok then (Inr (), Some ([k], (md_space t)(k \<mapsto> RStr x))) else (Inl TxFailedErr, None))"

definition w_del :: "string \<Rightarrow> mdb \<Rightarrow> int res \<times> (string list \<times> keyspace) option" where
  "w_del k t = (Inr (if md_space t k = None then 0 else 1), Some ([k], (md_space t)(k := None)))"

definition w_hash :: "string \<Rightarrow> ((plugin_type \<Rightarrow> string option) \<Rightarrow> plugin_type \<Rightarrow> string option) \<Rightarrow> mdb \<Rightarrow>
    unit res \<times> (string list \<times> keyspace) option" where
  "w_hash k g t = (case hash_at (md_space t) k of None \<Rightarrow> (Inl wrong_type, None)
     | Some h \<Rightarrow> (Inr (), Some ([k], put_hash k (g h) (md_space t))))"

definition w_exec :: "rwrite list \<Rightarrow> mdb \<Rightarrow> unit res \<times> (string list \<times> keyspace) option" where
  "w_exec cs t = (Inr (), Some (map write_key cs, fold rw_apply cs (md_space t)))"

definition mdb_ops :: "(mdb, nat) db_ops" where
  "mdb_ops = \<lparr>
     db_ping = (\<lambda>r. just_error (mdb_read (\<lambda>_. Inr ()) r)),
     db_get = (\<lambda>k. mdb_read (\<lambda>f. string_at (f k))),
     db_setnx = (\<lambda>k x. mdb_write (w_setnx k x)),
     db_sadd = (\<lambda>k m r. just_error (mdb_write (w_sadd k m) r)),
     db_smembers = (\<lambda>k. mdb_read (\<lambda>f. case set_at f k of None \<Rightarrow> Inl wrong_type | Some ms \<Rightarrow> Inr (sorted_list_of_set ms))),
     db_watch = (\<lambda>k r. case mdb_read (\<lambda>_. Inr ()) r of (Inl e, t) \<Rightarrow> (Inl e, t) | (Inr _, t) \<Rightarrow> (Inr (md_ver t k), t)),
     db_tx_get = (\<lambda>tok k. mdb_read (\<lambda>f. string_at (f k))),
     db_tx_set = (\<lambda>tok k x r. just_error (mdb_write (w_tx_set tok k x) r)),
     db_del = (\<lambda>k. mdb_write (w_del k)),
     db_hgetall = (\<lambda>k. mdb_read (\<lambda>f. case hash_at f k of None \<Rightarrow> Inl wrong_type | Some h \<Rightarrow> Inr (hash_list h))),
     db_hset = (\<lambda>k s v r. just_error (mdb_write (w_hash k (\<lambda>h. h(s \<mapsto> v))) r)),
     db_hdel = (\<lambda>k s r. just_error (mdb_write (w_hash k (\<lambda>h. h(s := None))) r)),
     db_exec = (\<lambda>cs r. just_error (mdb_write (w_exec cs) r)),
     db_lrange = (\<lambda>k i j. mdb_read (\<lambda>f. if is_list f k then Inr (lrange i j (list_at f k)) else Inl wrong_type))\<rparr>"

section \<open>It keeps the laws\<close>

definition mdb_up :: "mdb \<Rightarrow> bool" where
  "mdb_up r \<longleftrightarrow> (\<forall>k ms. md_space r k = Some (RSetV ms) \<longrightarrow> finite ms)"

definition mdb_seen :: "nat \<Rightarrow> string \<Rightarrow> nat" where
  "mdb_seen tok k = tok"

lemma rw_fold_other: "k \<notin> set (map write_key cs) \<Longrightarrow> fold rw_apply cs f k = f k"
proof (induction cs arbitrary: f)
  case (Cons c cs)
  have "write_key c \<noteq> k" using Cons.prems by auto
  then have "rw_apply c f k = f k" by (cases c) (simp_all add: rw_other del: rw_apply.simps)
  then show ?case using Cons by simp
qed simp

lemma rw_finite:
  assumes "\<forall>k ms. f k = Some (RSetV ms) \<longrightarrow> finite ms"
  shows "\<forall>k ms. fold rw_apply cs f k = Some (RSetV ms) \<longrightarrow> finite ms"
  using assms
proof (induction cs arbitrary: f)
  case (Cons c cs)
  have "\<forall>k ms. rw_apply c f k = Some (RSetV ms) \<longrightarrow> finite ms"
    using Cons.prems by (cases c) (auto simp: put_list_def split: option.splits rval.splits if_splits)
  then show ?case using Cons.IH by simp
qed simp

lemma mdb_next_same: "mdb_next r = (f, t) \<Longrightarrow> md_space t = md_space r \<and> md_ver t = md_ver r"
  by (auto simp: mdb_next_def split: list.splits)

lemma mdb_read_cases:
  assumes "mdb_read g r = (x, t)"
  shows "md_space t = md_space r \<and> md_ver t = md_ver r \<and> (x = g (md_space r) \<or> x = Inl net_error)"
  using assms mdb_next_same [of r] by (auto simp: mdb_read_def split: prod.splits fault.splits)

lemma mdb_write_cases:
  assumes "mdb_write g r = (x, t)"
  obtains u where "md_space u = md_space r" "md_ver u = md_ver r" "t = u" "x = Inl net_error \<or> g u = (x, None)"
  | u ks f where "md_space u = md_space r" "md_ver u = md_ver r" "t = mdb_put ks f u" "snd (g u) = Some (ks, f)"
      "x = Inl net_error \<or> g u = (x, Some (ks, f))"
  using assms mdb_next_same [of r] by (auto simp: mdb_write_def split: prod.splits fault.splits option.splits)

lemma mdb_put_space: "(\<And>k. k \<notin> set ks \<Longrightarrow> f k = md_space r k) \<Longrightarrow> md_space (mdb_put ks f r) = f"
  by (auto simp: mdb_put_def)

text \<open>A write of finite sets that changes the keys it names.\<close>

definition sound_write :: "mdb \<Rightarrow> (mdb \<Rightarrow> 'a res \<times> (string list \<times> keyspace) option) \<Rightarrow> bool" where
  "sound_write r g \<longleftrightarrow> (\<forall>u y ks f. md_space u = md_space r \<and> md_ver u = md_ver r \<and> g u = (y, Some (ks, f)) \<longrightarrow>
      (\<forall>k ms. f k = Some (RSetV ms) \<longrightarrow> finite ms) \<and> (\<forall>k. k \<notin> set ks \<longrightarrow> f k = md_space r k))"

lemma mdb_write_law:
  assumes "mdb_write g r = (x, t)" and "mdb_up r" and "sound_write r g"
  shows "evolves mdb_up md_space md_ver r t \<and> (\<exists>u. md_space u = md_space r \<and> md_ver u = md_ver r \<and>
    (md_space t = md_space r \<and> (x = Inl net_error \<or> g u = (x, None)) \<or>
     (\<exists>y ks f. g u = (y, Some (ks, f)) \<and> md_space t = f \<and> (x = Inl net_error \<or> x = y))))"
  using assms(1)
proof (cases rule: mdb_write_cases)
  case (1 u)
  then show ?thesis using assms(2) by (auto simp: evolves_def mdb_up_def)
next
  case (2 u ks f)
  then obtain y where y: "g u = (y, Some (ks, f))" by (metis prod.collapse)
  have wf: "(\<forall>k ms. f k = Some (RSetV ms) \<longrightarrow> finite ms) \<and> (\<forall>k. k \<notin> set ks \<longrightarrow> f k = md_space r k)"
    using assms(3) 2(1,2) y unfolding sound_write_def by blast
  have sp: "md_space t = f" unfolding 2(3) by (rule mdb_put_space) (use wf 2(1) in simp)
  have "evolves mdb_up md_space md_ver r t"
    using wf sp 2(2,3) by (auto simp: evolves_def mdb_up_def mdb_put_def)
  then show ?thesis using 2 y sp by auto
qed

lemma mdb_read_law:
  assumes "mdb_read g r = (x, t)" and "mdb_up r"
  shows "quiet mdb_up md_space md_ver r t \<and> (x = g (md_space r) \<or> x = Inl net_error)"
  using mdb_read_cases [OF assms(1)] assms(2) by (auto simp: quiet_def evolves_def mdb_up_def)

lemma string_at_Inr: "string_at v = Inr y \<Longrightarrow> v = map_option RStr y"
  by (cases v rule: string_at.cases) auto

lemma just_error_iff: "just_error p = (e, t) \<longleftrightarrow> (\<exists>x. p = (x, t) \<and> e = (case x of Inl err \<Rightarrow> Some err | Inr _ \<Rightarrow> None))"
  by (cases p; cases "fst p") (auto simp: just_error_def)

lemma gm_get_hash_list: "gm_get (hash_list h) = h"
proof
  fix s
  show "gm_get (hash_list h) s = h s"
    by (cases s) (auto simp: hash_list_def all_slots_def gm_get_def split: option.splits)
qed

lemma set_at_finite: "mdb_up r \<Longrightarrow> set_at (md_space r) k = Some ms \<Longrightarrow> finite ms"
  by (auto simp: mdb_up_def set_at_def split: option.splits rval.splits)

lemma put_hash_wf:
  "mdb_up r \<Longrightarrow> put_hash k h (md_space r) j = Some (RSetV ms) \<Longrightarrow> finite ms"
  by (auto simp: put_hash_def mdb_up_def split: if_splits)

lemma sound_writes:
  assumes "mdb_up r"
  shows "sound_write r (w_setnx k x)" "sound_write r (w_sadd k m)" "sound_write r (w_tx_set tok k x)"
    "sound_write r (w_del k)" "sound_write r (w_hash k g)" "sound_write r (w_exec cs)"
proof -
  note up = assms [unfolded mdb_up_def]
  show "sound_write r (w_setnx k x)" "sound_write r (w_tx_set tok k x)" "sound_write r (w_del k)"
    using up by (auto simp: sound_write_def w_setnx_def w_tx_set_def w_del_def split: if_splits)
  show "sound_write r (w_sadd k m)"
    using up by (auto simp: sound_write_def w_sadd_def set_at_def split: if_splits option.splits rval.splits)
  show "sound_write r (w_hash k g)"
    using up by (auto simp: sound_write_def w_hash_def put_hash_def split: if_splits option.splits)
  show "sound_write r (w_exec cs)"
    using rw_finite [of "md_space r" cs] up rw_fold_other [of _ cs "md_space r"]
    by (auto simp: sound_write_def w_exec_def)
qed

lemma mdb_ops_simps:
  "db_get mdb_ops k = mdb_read (\<lambda>f. string_at (f k))" "db_setnx mdb_ops k x = mdb_write (w_setnx k x)"
  "db_sadd mdb_ops k m r = just_error (mdb_write (w_sadd k m) r)"
  "db_smembers mdb_ops k = mdb_read (\<lambda>f. case set_at f k of None \<Rightarrow> Inl wrong_type | Some ms \<Rightarrow> Inr (sorted_list_of_set ms))"
  "db_watch mdb_ops k r = (case mdb_read (\<lambda>_. Inr ()) r of (Inl e, t) \<Rightarrow> (Inl e, t) | (Inr _, t) \<Rightarrow> (Inr (md_ver t k), t))"
  "db_tx_get mdb_ops tok k = mdb_read (\<lambda>f. string_at (f k))"
  "db_tx_set mdb_ops tok k x r = just_error (mdb_write (w_tx_set tok k x) r)" "db_del mdb_ops k = mdb_write (w_del k)"
  "db_hgetall mdb_ops k = mdb_read (\<lambda>f. case hash_at f k of None \<Rightarrow> Inl wrong_type | Some h \<Rightarrow> Inr (hash_list h))"
  "db_hset mdb_ops k s z r = just_error (mdb_write (w_hash k (\<lambda>h. h(s \<mapsto> z))) r)"
  "db_hdel mdb_ops k s r = just_error (mdb_write (w_hash k (\<lambda>h. h(s := None))) r)"
  "db_exec mdb_ops cs r = just_error (mdb_write (w_exec cs) r)"
  "db_lrange mdb_ops k i j = mdb_read (\<lambda>f. if is_list f k then Inr (lrange i j (list_at f k)) else Inl wrong_type)"
  by (simp_all add: mdb_ops_def)

interpretation faulty_db: registry_db mdb_ops mdb_up md_space md_ver mdb_seen
proof (unfold_locales, unfold mdb_ops_simps just_error_iff, goal_cases)
  case (1 r k v t)
  then show ?case using mdb_read_law [OF 1(2,1)] by (auto dest: string_at_Inr [OF sym])
next
  case (2 r k x b t)
  from mdb_write_law [OF 2(2,1) sound_writes(1) [OF 2(1)]] show ?case
    by (auto simp: w_setnx_def split: if_splits)
next
  case (3 r k m e t)
  then obtain x where x: "mdb_write (w_sadd k m) r = (x, t)" "e = (case x of Inl err \<Rightarrow> Some err | Inr _ \<Rightarrow> None)" by blast
  from mdb_write_law [OF x(1) 3(1) sound_writes(2) [OF 3(1)]] x(2) show ?case
    by (auto simp: w_sadd_def split: option.splits)
next
  case (4 r k ms t)
  from mdb_read_law [OF 4(2,1)] show ?case using set_at_finite [OF 4(1), of k] by (auto split: option.splits)
next
  case (5 r k y t)
  then obtain x where x: "mdb_read (\<lambda>_. Inr ()) r = (x, t)" "y = (case x of Inl e \<Rightarrow> Inl e | Inr _ \<Rightarrow> Inr (md_ver t k))"
    by (auto split: prod.splits sum.splits)
  from mdb_read_law [OF x(1) 5(1)] x(2) show ?case by (auto simp: mdb_seen_def split: sum.splits)
next
  case (6 r tok k v t)
  then show ?case using mdb_read_law [OF 6(2,1)] by (auto dest: string_at_Inr [OF sym])
next
  case (7 r tok k x e t)
  then obtain y where y: "mdb_write (w_tx_set tok k x) r = (y, t)" "e = (case y of Inl err \<Rightarrow> Some err | Inr _ \<Rightarrow> None)" by blast
  from mdb_write_law [OF y(1) 7(1) sound_writes(3) [OF 7(1)]] y(2) show ?case
    by (auto simp: w_tx_set_def mdb_seen_def net_error_def TxFailedErr_def split: if_splits)
next
  case (8 r k n t)
  from mdb_write_law [OF 8(2,1) sound_writes(4) [OF 8(1)]] show ?case by (auto simp: w_del_def)
next
  case (9 r k hs t)
  from mdb_read_law [OF 9(2,1)] show ?case by (auto simp: gm_get_hash_list split: option.splits)
next
  case (10 r k s z e t)
  then obtain x where x: "mdb_write (w_hash k (\<lambda>h. h(s \<mapsto> z))) r = (x, t)" "e = (case x of Inl err \<Rightarrow> Some err | Inr _ \<Rightarrow> None)" by blast
  from mdb_write_law [OF x(1) 10(1) sound_writes(5) [OF 10(1)]] x(2) show ?case by (auto simp: w_hash_def split: option.splits)
next
  case (11 r k s e t)
  then obtain x where x: "mdb_write (w_hash k (\<lambda>h. h(s := None))) r = (x, t)" "e = (case x of Inl err \<Rightarrow> Some err | Inr _ \<Rightarrow> None)" by blast
  from mdb_write_law [OF x(1) 11(1) sound_writes(5) [OF 11(1)]] x(2) show ?case by (auto simp: w_hash_def split: option.splits)
next
  case (12 r cs e t)
  then obtain x where x: "mdb_write (w_exec cs) r = (x, t)" "e = (case x of Inl err \<Rightarrow> Some err | Inr _ \<Rightarrow> None)" by blast
  from mdb_write_law [OF x(1) 12(1) sound_writes(6) [OF 12(1)]] x(2) show ?case by (auto simp: w_exec_def)
next
  case (13 r k i j l t)
  from mdb_read_law [OF 13(2,1)] show ?case by (auto split: if_splits)
qed

section \<open>Without faults\<close>

definition mdb_calm :: "mdb \<Rightarrow> bool" where
  "mdb_calm r \<longleftrightarrow> mdb_up r \<and> md_script r = []"

lemma calm_read: "mdb_calm r \<Longrightarrow> mdb_read g r = (g (md_space r), r)"
  by (simp add: mdb_calm_def mdb_read_def mdb_next_def)

lemma calm_write:
  "mdb_calm r \<Longrightarrow> mdb_write g r = (case g r of (x, None) \<Rightarrow> (x, r) | (x, Some (ks, f)) \<Rightarrow> (x, mdb_put ks f r))"
  by (simp add: mdb_calm_def mdb_write_def mdb_next_def)

lemma calm_script:
  "mdb_calm r \<Longrightarrow> mdb_read g r = (x, t) \<Longrightarrow> md_script t = []"
  "mdb_calm r \<Longrightarrow> mdb_write h r = (y, t) \<Longrightarrow> md_script t = []"
  by (auto simp: calm_read calm_write mdb_put_def mdb_calm_def split: prod.splits option.splits)

lemma calm_just: "mdb_calm r \<Longrightarrow> just_error (mdb_write h r) = (e, t) \<Longrightarrow> md_script t = []"
  using calm_script(2) [of r h] by (cases "mdb_write h r") (auto simp: just_error_iff)

lemma calm_evolves:
  "md_script t = [] \<Longrightarrow> evolves mdb_calm md_space md_ver r t = evolves mdb_up md_space md_ver r t"
  "md_script t = [] \<Longrightarrow> quiet mdb_calm md_space md_ver r t = quiet mdb_up md_space md_ver r t"
  by (auto simp: evolves_def quiet_def mdb_calm_def)

lemma calm_scripts:
  assumes "mdb_calm r"
  shows "db_get mdb_ops k r = (v, t) \<Longrightarrow> md_script t = []" "db_setnx mdb_ops k x r = (b, t) \<Longrightarrow> md_script t = []"
    "db_sadd mdb_ops k m r = (e, t) \<Longrightarrow> md_script t = []" "db_smembers mdb_ops k r = (ms, t) \<Longrightarrow> md_script t = []"
    "db_watch mdb_ops k r = (y, t) \<Longrightarrow> md_script t = []" "db_tx_get mdb_ops tok k r = (v, t) \<Longrightarrow> md_script t = []"
    "db_tx_set mdb_ops tok k x r = (e, t) \<Longrightarrow> md_script t = []" "db_del mdb_ops k r = (n, t) \<Longrightarrow> md_script t = []"
    "db_hgetall mdb_ops k r = (hs, t) \<Longrightarrow> md_script t = []" "db_hset mdb_ops k s z r = (e, t) \<Longrightarrow> md_script t = []"
    "db_hdel mdb_ops k s r = (e, t) \<Longrightarrow> md_script t = []" "db_exec mdb_ops cs r = (e, t) \<Longrightarrow> md_script t = []"
    "db_lrange mdb_ops k i j r = (l, t) \<Longrightarrow> md_script t = []"
  using calm_script [OF assms] calm_just [OF assms]
  by (auto simp: mdb_ops_simps split: prod.splits sum.splits)

lemma mdb_calm_laws: "registry_db mdb_ops mdb_calm md_space md_ver mdb_seen"
proof (unfold_locales, goal_cases)
  case (1 r k v t)
  then show ?case using faulty_db.db_get_law [of r k v t] calm_scripts(1) [OF 1] by (simp add: calm_evolves mdb_calm_def)
next
  case (2 r k x b t)
  then show ?case using faulty_db.setnx_law [of r k x b t] calm_scripts(2) [OF 2] by (simp add: calm_evolves mdb_calm_def)
next
  case (3 r k m e t)
  then show ?case using faulty_db.sadd_law [of r k m e t] calm_scripts(3) [OF 3] by (simp add: calm_evolves mdb_calm_def)
next
  case (4 r k ms t)
  then show ?case using faulty_db.smembers_law [of r k ms t] calm_scripts(4) [OF 4] by (simp add: calm_evolves mdb_calm_def)
next
  case (5 r k y t)
  then show ?case using faulty_db.watch_law [of r k y t] calm_scripts(5) [OF 5] by (simp add: calm_evolves mdb_calm_def)
next
  case (6 r tok k v t)
  then show ?case using faulty_db.tx_get_law [of r tok k v t] calm_scripts(6) [OF 6] by (simp add: calm_evolves mdb_calm_def)
next
  case (7 r tok k x e t)
  then show ?case using faulty_db.tx_set_law [of r tok k x e t] calm_scripts(7) [OF 7] by (simp add: calm_evolves mdb_calm_def)
next
  case (8 r k n t)
  then show ?case using faulty_db.del_law [of r k n t] calm_scripts(8) [OF 8] by (simp add: calm_evolves mdb_calm_def)
next
  case (9 r k hs t)
  then show ?case using faulty_db.hgetall_law [of r k hs t] calm_scripts(9) [OF 9] by (simp add: calm_evolves mdb_calm_def)
next
  case (10 r k s z e t)
  then show ?case using faulty_db.hset_law [of r k s z e t] calm_scripts(10) [OF 10] by (simp add: calm_evolves mdb_calm_def)
next
  case (11 r k s e t)
  then show ?case using faulty_db.hdel_law [of r k s e t] calm_scripts(11) [OF 11] by (simp add: calm_evolves mdb_calm_def)
next
  case (12 r cs e t)
  then show ?case using faulty_db.exec_law [of r cs e t] calm_scripts(12) [OF 12] by (simp add: calm_evolves mdb_calm_def)
next
  case (13 r k i j l t)
  then show ?case using faulty_db.lrange_law [of r k i j l t] calm_scripts(13) [OF 13] by (simp add: calm_evolves mdb_calm_def)
qed

interpretation calm_mdb: calm_db mdb_ops mdb_calm md_space md_ver mdb_seen
  by (intro calm_db.intro mdb_calm_laws, unfold_locales)
    (auto simp: mdb_ops_simps calm_read calm_write just_error_def w_setnx_def w_sadd_def w_tx_set_def w_del_def w_hash_def w_exec_def
      mdb_seen_def map_option_case split: option.splits prod.splits)

section \<open>Runs\<close>

definition reg_on :: "fault list \<Rightarrow> mdb redis_reg" where
  "reg_on faults = \<lparr>rr_db = mdb_new faults, rr_clock = (\<lambda>n. 100 + int n), rr_ticks = 0\<rparr>"

text \<open>A failed \<open>SADD\<close> leaves a record that \<open>Get\<close> finds and \<open>List\<close> does not: creation is not atomic.\<close>

lemma half_created_record:
  "(case rr_Create mdb_ops (demo_record ''plg_1'' StateDraft) (reg_on [Fine, Down]) of (e, s) \<Rightarrow>
      e = Some net_error \<and> res_ok (fst (rr_Get mdb_ops ''plg_1'' s)) \<and> fst (rr_List mdb_ops s) = Inr [])"
  by code_simp

text \<open>A created record, three updates, two of them racing for the same revision: the second loses and retries.\<close>

definition rename :: "string \<Rightarrow> plugin_record \<Rightarrow> plugin_record res" where
  "rename n r = Inr (r\<lparr>rc_Name := n\<rparr>)"

definition demo_calls :: "reg_call list" where
  "demo_calls =
     [CCreate (demo_record ''plg_1'' StateDraft), CCreate (demo_record ''plg_1'' StateDraft), CGet ''plg_2'',
      CUpdate ''plg_1'' (rename ''b''), CSetActive TypePolicy ''plg_1'', CActive, CAppendLog ''plg_1'' ''one'',
      CAppendLog ''plg_1'' ''two'', CLogs ''plg_1'' 1, CList, CDelete ''plg_1'', CList, CClearActive TypePolicy, CActive]"

lemma redis_registry_refines_memory_witness:
  "run_calls (redis_registry mdb_ops) demo_calls (reg_on []) = run_calls memory_registry demo_calls (NewMemory (\<lambda>n. 100 + int n)) \<and>
   (case run_calls memory_registry demo_calls (NewMemory (\<lambda>n. 100 + int n)) ! 8 of RLines (Inr ls) \<Rightarrow> ls = [''two''] | _ \<Rightarrow> False)"
proof -
  have "list_all plain_call demo_calls"
    by (simp add: demo_calls_def plain_call_def rename_def demo_record_def record_copy_def opt_finite_def no_confirmations_def)
  moreover have "case run_calls memory_registry demo_calls (NewMemory (\<lambda>n. 100 + int n)) ! 8 of
      RLines (Inr ls) \<Rightarrow> ls = [''two''] | _ \<Rightarrow> False"
    by code_simp
  ultimately show ?thesis
    using redis_registry_refines_memory [OF calm_mdb.calm_db_axioms, of "mdb_new []" demo_calls "\<lambda>n. 100 + int n"]
    by (simp add: reg_on_def mdb_new_def mdb_calm_def mdb_up_def)
qed

text \<open>Callers that take their steps when told.\<close>

datatype upd_act = Begin nat | Read nat "plugin_record \<Rightarrow> plugin_record res" int | Write nat

fun upd_do :: "string \<Rightarrow> upd_act \<Rightarrow> (mdb, nat) upd_run \<Rightarrow> (mdb, nat) upd_run" where
  "upd_do k (Begin i) s =
     (case ur_at s i of
        Idle \<Rightarrow> (case db_watch mdb_ops (recKey k) (ur_db s) of
            (Inl e, w) \<Rightarrow> s\<lparr>ur_db := w\<rparr>
          | (Inr tok, w) \<Rightarrow> s\<lparr>ur_db := w, ur_at := (ur_at s)(i := Watching tok)\<rparr>)
      | _ \<Rightarrow> s)"
| "upd_do k (Read i fn tm) s =
     (case ur_at s i of
        Watching tok \<Rightarrow> (case db_tx_get mdb_ops tok (recKey k) (ur_db s) of (v, w) \<Rightarrow>
          (case res_bind (res_bind (doc_at v) fn) (rr_stamp tm) of
             Inl e \<Rightarrow> s\<lparr>ur_db := w, ur_at := (ur_at s)(i := Idle)\<rparr>
           | Inr new \<Rightarrow> s\<lparr>ur_db := w, ur_at := (ur_at s)(i := Ready tok fn new)\<rparr>))
      | _ \<Rightarrow> s)"
| "upd_do k (Write i) s =
     (case ur_at s i of
        Ready tok fn new \<Rightarrow> (case db_tx_set mdb_ops tok (recKey k) (Doc new) (ur_db s) of
            (None, w) \<Rightarrow> s\<lparr>ur_db := w, ur_at := (ur_at s)(i := Idle), ur_ok := ur_ok s @ [(fn, new)]\<rparr>
          | (Some e, w) \<Rightarrow> s\<lparr>ur_db := w, ur_at := (ur_at s)(i := Idle),
              ur_unsure := (if errors_is e TxFailedErr then ur_unsure s else Suc (ur_unsure s))\<rparr>)
      | _ \<Rightarrow> s)"

lemma upd_do_steps: "(upd_step mdb_ops (\<lambda>_ _. False) k)\<^sup>*\<^sup>* s (upd_do k a s)"
proof (cases a)
  case (Begin i)
  then show ?thesis
    by (auto split: updater.splits prod.splits sum.splits intro: upd_step.watch upd_step.watch_err)
next
  case (Read i fn tm)
  show ?thesis
  proof (cases "ur_at s i")
    case (Watching tok)
    obtain v w where g: "db_tx_get mdb_ops tok (recKey k) (ur_db s) = (v, w)" by fastforce
    show ?thesis
      using Read Watching g upd_step.reads [OF Watching g] upd_step.read_err [OF Watching g]
      by (cases "res_bind (res_bind (doc_at v) fn) (rr_stamp tm)") (auto simp: res_bind_Inr intro: r_into_rtranclp)
  qed (use Read in auto)
next
  case (Write i)
  show ?thesis
  proof (cases "ur_at s i")
    case (Ready tok fn new)
    obtain e w where t: "db_tx_set mdb_ops tok (recKey k) (Doc new) (ur_db s) = (e, w)" by fastforce
    show ?thesis
    proof (cases e)
      case None
      then show ?thesis using Write Ready t upd_step.writes [OF Ready, of mdb_ops k w] by auto
    next
      case (Some err)
      then show ?thesis using Write Ready t upd_step.write_err [OF Ready, of mdb_ops k err w] by auto
    qed
  qed (use Write in auto)
qed

lemma upd_does_steps: "(upd_step mdb_ops (\<lambda>_ _. False) k)\<^sup>*\<^sup>* s (fold (upd_do k) as s)"
  by (induction as arbitrary: s) (auto intro: rtranclp_trans upd_do_steps)

text \<open>Two callers read the same revision; the first to write wins, the second loses its race, tries again and
  writes on top.\<close>

definition demo_race :: "(mdb, nat) upd_run" where
  "demo_race = fold (upd_do ''plg_1'')
     [Begin 0, Begin 1, Read 0 (rename ''a'') 5, Read 1 (rename ''b'') 6, Write 0, Write 1,
      Begin 1, Read 1 (rename ''b'') 7, Write 1]
     \<lparr>ur_db = rr_db (snd (rr_Create mdb_ops (demo_record ''plg_1'' StateDraft) (reg_on []))), ur_at = (\<lambda>_. Idle), ur_ok = [], ur_unsure = 0\<rparr>"

lemma demo_race_ends:
  "(case space_recs (md_space (ur_db demo_race)) ''plg_1'' of Some r \<Rightarrow> rc_Name r = ''b'' \<and> rc_Rev r = 3 | None \<Rightarrow> False) \<and>
   length (ur_ok demo_race) = 2 \<and> ur_unsure demo_race = 0"
  by code_simp

lemma concurrent_updates_are_not_lost_witness:
  "\<exists>r0 cur full. linked r0 full cur \<and> length full = 2 \<and> rc_Name cur = ''b'' \<and> rc_Rev cur = 3"
proof -
  let ?w = "rr_db (snd (rr_Create mdb_ops (demo_record ''plg_1'' StateDraft) (reg_on [])))"
  have "space_recs (md_space ?w) ''plg_1'' \<noteq> None" by code_simp
  then obtain r0 where r0: "space_recs (md_space ?w) ''plg_1'' = Some r0" by blast
  have "db_reg_ok mdb_up md_space (reg_on [])"
    by (simp add: db_reg_ok_def reg_on_def mdb_new_def mdb_up_def reg_space_ok_def)
  then have up: "mdb_up ?w"
    using faulty_db.create_law [OF prod.collapse [symmetric]] by (simp add: db_reg_ok_def)
  let ?s0 = "\<lparr>ur_db = ?w, ur_at = (\<lambda>_. Idle), ur_ok = [], ur_unsure = 0\<rparr> :: (mdb, nat) upd_run"
  have run: "(upd_step mdb_ops (\<lambda>_ _. False) ''plg_1'')\<^sup>*\<^sup>* ?s0 demo_race"
    unfolding demo_race_def by (rule upd_does_steps)
  obtain cur full where c: "space_recs (md_space (ur_db demo_race)) ''plg_1'' = Some cur" "linked r0 full cur"
      "subseq (ur_ok demo_race) full" "length full \<le> length (ur_ok demo_race) + ur_unsure demo_race"
    using concurrent_updates_are_not_lost [OF faulty_db.registry_db_axioms up r0 run] by auto
  have "length full = 2" using c(3,4) demo_race_ends list_emb_length [OF c(3)] by simp
  moreover have "rc_Name cur = ''b''" "rc_Rev cur = 3" using c(1) demo_race_ends by simp_all
  ultimately show ?thesis using c(2) by blast
qed

end
