(* ===== verification/Request_Props.thy ===== *)
theory Request_Props
  imports Requests
begin

text \<open>
  Properties of requests and versions: what the arguments of an accepted installation look like, and that
  versions are ordered.
\<close>

section \<open>The characters of a pattern\<close>

primrec rx_over :: "(char \<Rightarrow> bool) \<Rightarrow> rx \<Rightarrow> bool" where
  "rx_over p RNone \<longleftrightarrow> True"
| "rx_over p REps \<longleftrightarrow> True"
| "rx_over p (RSet q) \<longleftrightarrow> (\<forall>c. q c \<longrightarrow> p c)"
| "rx_over p (RSeq r q) \<longleftrightarrow> rx_over p r \<and> rx_over p q"
| "rx_over p (RAlt r q) \<longleftrightarrow> rx_over p r \<and> rx_over p q"
| "rx_over p (RStar r) \<longleftrightarrow> rx_over p r"

lemma lang_over: "rx_lang r s \<Longrightarrow> rx_over p r \<Longrightarrow> list_all p s"
  by (induction rule: rx_lang.induct) auto

lemma over_pieces [simp]:
  "rx_over p (rx_char c) \<longleftrightarrow> p c" "rx_over p (rx_opt r) \<longleftrightarrow> rx_over p r" "rx_over p (rx_plus r) \<longleftrightarrow> rx_over p r"
  "rx_over p (rx_seqs rs) \<longleftrightarrow> list_all (rx_over p) rs" "rx_over p r \<Longrightarrow> rx_over p (rx_rep m n r)"
  "rx_over p (rx_lit w) \<longleftrightarrow> list_all p w"
proof -
  show "rx_over p (rx_char c) \<longleftrightarrow> p c" "rx_over p (rx_opt r) \<longleftrightarrow> rx_over p r" "rx_over p (rx_plus r) \<longleftrightarrow> rx_over p r"
    by (simp_all add: rx_char_def rx_opt_def rx_plus_def)
  show "rx_over p (rx_seqs rs) \<longleftrightarrow> list_all (rx_over p) rs" by (induction rs) (simp_all add: rx_seqs_def)
  show "rx_over p (rx_lit w) \<longleftrightarrow> list_all p w" by (induction w) (simp_all add: rx_lit_def rx_char_def)
  assume r: "rx_over p r"
  have "rx_over p (rx_times k r)" for k using r by (induction k) simp_all
  moreover have "rx_over p (rx_upto k r)" for k using r by (induction k) simp_all
  ultimately show "rx_over p (rx_rep m n r)" by (simp add: rx_rep_def)
qed

text \<open>An argument that no program takes for an option, a path out of a directory or several words.\<close>

definition arg_char :: "char \<Rightarrow> bool" where
  "arg_char c \<longleftrightarrow> is_alnum c \<or> c \<in> set ''._-/:@''"

definition safe_arg :: "string \<Rightarrow> bool" where
  "safe_arg s \<longleftrightarrow> s \<noteq> [] \<and> is_alnum (hd s) \<and> list_all arg_char s \<and> \<not> str_contains s ''..''"

lemma lower_digit_alnum: "is_lower_digit c \<Longrightarrow> is_alnum c"
  by (auto simp: is_lower_digit_def is_alnum_def is_alpha_def is_lower_def in_range_def)

lemma hex_alnum: "in_range (CHR ''a'') (CHR ''f'') c \<or> is_digit c \<Longrightarrow> is_alnum c"
  by (auto simp: is_alnum_def is_alpha_def in_range_def less_eq_char_def)

lemma image_args: "rx_match imageRE s \<Longrightarrow> \<not> str_contains s ''..'' \<Longrightarrow> safe_arg s"
proof -
  assume m: "rx_match imageRE s" and d: "\<not> str_contains s ''..''"
  have "rx_over arg_char imageRE"
    using lower_digit_alnum hex_alnum
    by (auto simp: imageRE_def image_part_def arg_char_def image_char_def is_alnum_def is_alpha_def is_digit_def)
  then have all: "list_all arg_char s" using m lang_over unfolding rx_match_iff by blast
  obtain u v where "s = u @ v" "rx_lang image_part u" using m unfolding rx_match_iff imageRE_def by auto
  moreover from this(2) obtain a b where "u = a @ b" "rx_lang (RSet is_lower_digit) a" unfolding image_part_def by auto
  ultimately have "s \<noteq> [] \<and> is_lower_digit (hd s)" by (auto simp: lang_RSet)
  with all d show ?thesis using lower_digit_alnum by (auto simp: safe_arg_def)
qed

lemma revision_args: "rx_match revisionRE s \<Longrightarrow> \<not> str_contains s ''..'' \<Longrightarrow> safe_arg s"
proof -
  assume m: "rx_match revisionRE s" and d: "\<not> str_contains s ''..''"
  have "rx_over arg_char revisionRE" by (auto simp: revisionRE_def arg_char_def path_char_def)
  then have all: "list_all arg_char s" using m lang_over unfolding rx_match_iff by blast
  have "s \<noteq> [] \<and> is_alnum (hd s)" using m unfolding rx_match_iff revisionRE_def by (auto simp: lang_RSet)
  with all d show ?thesis by (auto simp: safe_arg_def)
qed

text \<open>A repository on GitHub, named by its owner and its name.\<close>

definition github_repo :: "string \<Rightarrow> bool" where
  "github_repo s \<longleftrightarrow> (\<exists>owner name. s = ''https://github.com/'' @ owner @ ''/'' @ name \<and> owner \<noteq> [] \<and> name \<noteq> [] \<and>
     list_all (\<lambda>c. is_alnum c \<or> c = CHR ''-'') owner \<and> list_all repo_name_char name)"

lemma repo_args: "rx_match repoRE s \<Longrightarrow> github_repo s"
proof -
  assume "rx_match repoRE s"
  then obtain a b n g where s: "s = ''https://github.com/'' @ (a @ b) @ ''/'' @ (n @ g)"
    and a: "rx_lang (RSet is_alnum) a" "rx_lang (rx_rep 0 38 (RSet (\<lambda>c. is_alnum c \<or> c = CHR ''-''))) b"
    and n: "rx_lang (rx_rep 1 100 (RSet repo_name_char)) n" and g: "g = ''.git'' \<or> g = []"
    unfolding rx_match_iff repoRE_def by auto
  have "a @ b \<noteq> [] \<and> list_all (\<lambda>c. is_alnum c \<or> c = CHR ''-'') (a @ b)"
    using a by (auto simp: lang_RSet lang_rep_set)
  moreover have "n @ g \<noteq> [] \<and> list_all repo_name_char (n @ g)"
    using n g by (auto simp: lang_rep_set repo_name_char_def is_alnum_def is_alpha_def)
  ultimately show ?thesis using s unfolding github_repo_def by blast
qed

lemma secret_values_ok:
  "check_secret_values sec = None \<Longrightarrow> (n, v) \<in> set sec \<Longrightarrow> rx_match secretNameRE n \<and> v \<noteq> [] \<and> length v \<le> maxSecretLen"
  by (induction sec rule: check_secret_values.induct) (auto split: if_splits)

text \<open>C25: what an accepted request can make the platform touch. An endpoint is an address the checks accept, with the
  bearer token as its only secret; an image and a revision are single plain arguments, which no program reads
  as an option; a repository is one on GitHub, or, in development mode only, a local path; images and
  repositories need the controller; every secret is non-empty, bounded and has the name of a variable.\<close>
theorem accepted_requests_are_confined:
  assumes "parseRequest L E req = Inr p"
  shows "(case pr_mode p of
      ModeEndpoint \<Rightarrow> set (map fst (pr_secrets p)) \<subseteq> {EndpointTokenSecret} \<and>
        (\<exists>u. ValidateURL (ql_url L) (ir_Endpoint req) (mc_AllowInsecureEndpoints (mg_cfg E)) = Inr u \<and>
           so_EndpointURL (pr_source p) = ul_String (ql_url L) u)
    | ModeImage \<Rightarrow> mg_ctl E \<noteq> None \<and> safe_arg (so_ImageRef (pr_source p))
    | ModeRepository \<Rightarrow> mg_ctl E \<noteq> None \<and> safe_arg (so_Revision (pr_source p)) \<and>
        (github_repo (so_RepoURL (pr_source p)) \<or>
         mc_AllowInsecureEndpoints (mg_cfg E) \<and> has_prefix (so_RepoURL (pr_source p)) ''/'' \<and> list_all arg_char (so_RepoURL (pr_source p)))) \<and>
    (\<forall>(n, v) \<in> set (pr_secrets p). rx_lang secretNameRE n \<and> v \<noteq> [] \<and> length v \<le> 8192)"
proof -
  let ?ins = "mc_AllowInsecureEndpoints (mg_cfg E)" and ?ctl = "mg_ctl E \<noteq> None"
  obtain ty mf0 mode mf src where sec: "check_secret_values (ir_Secrets req) = None"
    and modes: "(if ir_Mode req = mode_name ModeEndpoint then endpoint_request L ?ins req ty mf0
                else if ir_Mode req = mode_name ModeImage then image_request ?ctl req mf0
                else if ir_Mode req = mode_name ModeRepository then repository_request ?ctl ?ins req mf0
                else Inl (InvalidError ''mode must be endpoint, image or repository'' [])) = Inr (mode, mf, src)"
    and p: "pr_mode p = mode" "pr_source p = src" "pr_secrets p = ir_Secrets req"
    using assms by (auto simp: parseRequest_def Let_def res_bind_Inr split: option.splits if_split_asm prod.splits)
  have local_path: "rx_match localPathRE s \<Longrightarrow> list_all arg_char s" for s
    using lang_over [of localPathRE s arg_char] unfolding rx_match_iff by (auto simp: localPathRE_def arg_char_def path_char_def)
  have "endpoint_request L ?ins req ty mf0 = Inr (mode, mf, src) \<Longrightarrow> mode = ModeEndpoint \<and> set (map fst (ir_Secrets req)) \<subseteq> {EndpointTokenSecret} \<and>
      (\<exists>u. ValidateURL (ql_url L) (ir_Endpoint req) ?ins = Inr u \<and> so_EndpointURL src = ul_String (ql_url L) u)"
    by (auto simp: endpoint_request_def res_bind_Inr find_None_iff gm_keys_def split: option.splits sum.splits)
  moreover have "image_request ?ctl req mf0 = Inr (mode, mf, src) \<Longrightarrow> mode = ModeImage \<and> ?ctl \<and> safe_arg (so_ImageRef src)"
    using image_args by (auto simp: image_request_def split: if_splits)
  moreover have "repository_request ?ctl ?ins req mf0 = Inr (mode, mf, src) \<Longrightarrow> mode = ModeRepository \<and> ?ctl \<and> safe_arg (so_Revision src) \<and>
      (github_repo (so_RepoURL src) \<or> ?ins \<and> has_prefix (so_RepoURL src) ''/'' \<and> list_all arg_char (so_RepoURL src))"
    using revision_args repo_args local_path by (auto simp: repository_request_def Let_def split: if_splits)
  ultimately have "(case mode of
      ModeEndpoint \<Rightarrow> set (map fst (ir_Secrets req)) \<subseteq> {EndpointTokenSecret} \<and>
        (\<exists>u. ValidateURL (ql_url L) (ir_Endpoint req) ?ins = Inr u \<and> so_EndpointURL src = ul_String (ql_url L) u)
    | ModeImage \<Rightarrow> ?ctl \<and> safe_arg (so_ImageRef src)
    | ModeRepository \<Rightarrow> ?ctl \<and> safe_arg (so_Revision src) \<and>
        (github_repo (so_RepoURL src) \<or> ?ins \<and> has_prefix (so_RepoURL src) ''/'' \<and> list_all arg_char (so_RepoURL src)))"
    using modes by (auto split: if_split_asm)
  moreover have "rx_lang secretNameRE n \<and> v \<noteq> [] \<and> length v \<le> 8192" if "(n, v) \<in> set (ir_Secrets req)" for n v
    using secret_values_ok [OF sec that] by (simp add: rx_match_iff maxSecretLen_def)
  ultimately show ?thesis unfolding p by blast
qed

definition nothing_env :: "(unit, unit, unit, unit, unit, unit) mgr_env" where
  "nothing_env = \<lparr>mg_cfg = \<lparr>mc_Enabled = True, mc_AllowInsecureEndpoints = False, mc_ControllerURL = [], mc_ControllerToken = [],
       mc_BuildTimeout = 1, mc_HealthTimeout = 1, mc_CPULimit = F_Num 1, mc_MemoryLimit = 1, mc_RollbackWindow = 1,
       mc_ActivationTimeout = 1, mc_QueueDrainWindow = 1, mc_MaxReembedEntries = 10, mc_RestoreWait = 1\<rparr>,
     mg_G = \<lparr>rg_Get = (\<lambda>_ r. (Inl ErrNotFound, r)), rg_List = (\<lambda>r. (Inr [], r)), rg_Create = (\<lambda>_ r. (None, r)),
       rg_Update = (\<lambda>_ _ r. (Inl ErrNotFound, r)), rg_Delete = (\<lambda>_ r. (None, r)), rg_Active = (\<lambda>r. (Inr [], r)),
       rg_SetActive = (\<lambda>_ _ r. (None, r)), rg_ClearActive = (\<lambda>_ r. (None, r)), rg_AppendAudit = (\<lambda>_ r. (None, r)),
       rg_Audit = (\<lambda>_ _ r. (Inr [], r)), rg_AppendLog = (\<lambda>_ _ r. (None, r)), rg_Logs = (\<lambda>_ _ r. (Inr [], r))\<rparr>,
     mg_box = None, mg_host = None,
     mg_ctl = Some \<lparr>co_Prepare = (\<lambda>_ c. (Inl (Sentinel []), c)), co_Start = (\<lambda>_ c. (Inl (Sentinel []), c)), co_Stop = (\<lambda>_ c. (None, c))\<rparr>,
     mg_build = (\<lambda>_ _ _ c s. (Inl (Sentinel []), c, s)), mg_now = 0, mg_line = fst, mg_builtinNames = []\<rparr>"

definition image_install :: install_request where
  "image_install = \<lparr>ir_Type = ''llm'', ir_Mode = ''image'', ir_Name = [], ir_Version = [], ir_Manifest = [], ir_Endpoint = [],
     ir_Image = ''ghcr.io/acme/llm:1.0'', ir_Repo = [], ir_Revision = [], ir_Config = None,
     ir_Secrets = [(''API_TOKEN'', ''x'')], ir_Activate = False, ir_Confirmations = None\<rparr>"

definition no_lib :: req_lib where
  "no_lib = \<lparr>ql_yaml = demo_yaml, ql_url = \<lparr>ul_Parse = (\<lambda>_. None), ul_Addr = (\<lambda>_. None), ul_String = ur_Host\<rparr>, ql_render = (\<lambda>_. [])\<rparr>"

theorem accepted_requests_are_confined_witness:
  "\<exists>p. parseRequest no_lib nothing_env image_install = Inr p \<and> safe_arg (so_ImageRef (pr_source p)) \<and>
     (case parseRequest no_lib nothing_env (image_install\<lparr>ir_Image := ''--privileged''\<rparr>) of Inl _ \<Rightarrow> True | Inr _ \<Rightarrow> False)"
proof -
  have "(case parseRequest no_lib nothing_env image_install of Inr p \<Rightarrow> pr_mode p = ModeImage | Inl _ \<Rightarrow> False)" by code_simp
  then obtain p where p: "parseRequest no_lib nothing_env image_install = Inr p" "pr_mode p = ModeImage"
    by (auto split: sum.splits)
  moreover have "(case parseRequest no_lib nothing_env (image_install\<lparr>ir_Image := ''--privileged''\<rparr>) of Inl _ \<Rightarrow> True | Inr _ \<Rightarrow> False)"
    by code_simp
  ultimately show ?thesis using accepted_requests_are_confined [OF p(1)] by auto
qed

section \<open>Versions\<close>

lemma compare_nums_range: "compare_nums as bs \<in> {-1, 0, 1}"
  by (induction as bs rule: compare_nums.induct) auto

lemma compare_nums_swap: "compare_nums bs as = - compare_nums as bs"
  by (induction as bs rule: compare_nums.induct) auto

lemma compare_nums_same: "length as = length bs \<Longrightarrow> compare_nums as bs = 0 \<longleftrightarrow> as = bs"
  by (induction as bs rule: compare_nums.induct) auto

lemma compare_nums_less: "length as = length bs \<Longrightarrow> compare_nums as bs = -1 \<longleftrightarrow> as < bs"
  by (induction as bs rule: compare_nums.induct) (auto split: if_splits)

lemma split_on_length: "length (fst (semver_parse v)) = 3"
proof -
  obtain p ps where "split_on (CHR ''.'') (takeWhile (\<lambda>c. c \<noteq> CHR ''-'') (takeWhile (\<lambda>c. c \<noteq> CHR ''+'') v)) = p # ps"
    using split_on_not_Nil by (cases "split_on (CHR ''.'') (takeWhile (\<lambda>c. c \<noteq> CHR ''-'') (takeWhile (\<lambda>c. c \<noteq> CHR ''+'') v))") auto
  then show ?thesis by (auto simp: semver_parse_def Let_def)
qed

text \<open>The place of a version among the others: its numbers, and a release after its pre-releases.\<close>

definition version_less :: "int list \<times> string \<Rightarrow> int list \<times> string \<Rightarrow> bool" where
  "version_less v w \<longleftrightarrow> fst v < fst w \<or> fst v = fst w \<and> (snd w = [] \<and> snd v \<noteq> [] \<or> snd v \<noteq> [] \<and> snd w \<noteq> [] \<and> snd v < snd w)"

text \<open>Versions are totally preordered, so a chain of upgrades cannot come back to where it was. The result of a
  comparison says which version is the smaller in one linear order of its three numbers and its pre-release,
  a pre-release coming before its release; two versions compare equal exactly when these parts agree.\<close>
theorem semver_is_an_order:
  "(semverCompare a b = -1 \<longleftrightarrow> version_less (semver_parse a) (semver_parse b)) \<and>
   (semverCompare a b = 0 \<longleftrightarrow> semver_parse a = semver_parse b) \<and>
   (semverCompare a b = 1 \<longleftrightarrow> version_less (semver_parse b) (semver_parse a)) \<and>
   (version_less x y \<and> version_less y z \<longrightarrow> version_less x z) \<and> \<not> version_less x x \<and>
   (x \<noteq> y \<longrightarrow> version_less x y \<or> version_less y x)"
proof -
  obtain an ap bn bp where v: "semver_parse a = (an, ap)" "semver_parse b = (bn, bp)" by fastforce
  have l: "length an = length bn" using split_on_length [of a] split_on_length [of b] v by simp
  note c = compare_nums_less [OF l] compare_nums_less [OF l [symmetric]] compare_nums_same [OF l] compare_nums_swap [of bn an]
    compare_nums_range [of an bn]
  have "(semverCompare a b = -1 \<longleftrightarrow> version_less (an, ap) (bn, bp)) \<and> (semverCompare a b = 0 \<longleftrightarrow> (an, ap) = (bn, bp)) \<and>
     (semverCompare a b = 1 \<longleftrightarrow> version_less (bn, bp) (an, ap))"
    using c by (auto simp: semverCompare_def v Let_def version_less_def)
  moreover have "version_less x y \<and> version_less y z \<longrightarrow> version_less x z" by (auto simp: version_less_def)
  moreover have "\<not> version_less x x" "x \<noteq> y \<longrightarrow> version_less x y \<or> version_less y x"
    by (auto simp: version_less_def prod_eq_iff)
  ultimately show ?thesis unfolding v by blast
qed

theorem semver_is_an_order_witness: "version_less (semver_parse ''1.2.3-rc.1'') (semver_parse ''1.2.3'')"
proof -
  have "semverCompare ''1.2.3-rc.1'' ''1.2.3'' = -1" by code_simp
  with semver_is_an_order [of "''1.2.3-rc.1''" "''1.2.3''"] show ?thesis by blast
qed


end
