(* ===== verification/Sdk_Llm.thy ===== *)
theory Sdk_Llm
  imports Contract_Models
begin

text \<open>
  The LLM plugin of the SDK (\<open>sdk/examples/llm/main.go\<close>): its HTTP handlers over a counter of requests, and the proof
  that it passes the platform's contract suite for LLM plugins. Its environment, the token and whether an
  \<open>API_TOKEN\<close> is set, is its configuration; the size of a document in bytes is a parameter.
\<close>

record sdk_llm_cfg =
  gc_token :: string
  gc_secret :: bool
  gc_bytes :: "json \<Rightarrow> int"

definition sdk_complete :: "sdk_llm_cfg \<Rightarrow> string \<Rightarrow> string \<Rightarrow> string" where
  "sdk_complete cfg model prompt =
     ''[sdk-llm '' @ model @ '' '' @ (if gc_secret cfg then ''secret-configured'' else ''ok'') @ ''] echo: '' @ trim_space prompt"

definition complete_fields :: "(string \<times> (string \<times> string) setter) list" where
  "complete_fields =
     [(''model'', \<lambda>j (m, p). res_bind (json_string j m) (\<lambda>x. Inr (x, p))),
      (''prompt'', \<lambda>j (m, p). res_bind (json_string j p) (\<lambda>x. Inr (m, x)))]"

definition reply_doc :: "string \<Rightarrow> json" where
  "reply_doc r = JObj [(''reply'', JStr r)]"

definition usage_doc :: "int \<Rightarrow> json" where
  "usage_doc n = JObj [(''exhausted'', JBool False), (''model'', JStr ''sdk-llm''), (''requests'', JInt n),
     (''resets_in_seconds'', JInt 0), (''tokens'', JInt 0)]"

definition status_ok :: json where
  "status_ok = JObj [(''status'', JStr ''ok'')]"

text \<open>The state is the counter.\<close>

definition sdk_llm_complete :: "sdk_llm_cfg \<Rightarrow> json option \<Rightarrow> int \<Rightarrow> http_resp \<times> int" where
  "sdk_llm_complete cfg body n =
     (case limit_body (gc_bytes cfg) (2 ^ 20) body of
        None \<Rightarrow> (reply_error (gc_bytes cfg) 400 ''invalid_request'' ''prompt is required'', n)
      | Some j \<Rightarrow>
          (case json_strict complete_fields j ([], []) of
             Inl _ \<Rightarrow> (reply_error (gc_bytes cfg) 400 ''invalid_request'' ''prompt is required'', n)
           | Inr (model, prompt) \<Rightarrow>
               if trim_space prompt = [] then (reply_error (gc_bytes cfg) 400 ''invalid_request'' ''prompt is required'', n)
               else (reply_json (gc_bytes cfg) 200 (reply_doc (sdk_complete cfg model prompt)), n + 1)))"

definition sdk_llm_mux :: "sdk_llm_cfg \<Rightarrow> int server" where
  "sdk_llm_mux cfg req n =
     (let m = hq_method req; p = hq_path req; b = gc_bytes cfg in
      if m = ''GET'' \<and> p = ''/health'' then (reply_json b 200 status_ok, n)
      else if m = ''POST'' \<and> p = ''/v1/complete'' then sdk_llm_complete cfg (hq_body req) n
      else if m = ''GET'' \<and> p = ''/v1/usage'' then (reply_json b 200 (usage_doc n), n)
      else (reply_unmatched, n))"

definition sdk_llm_serve :: "sdk_llm_cfg \<Rightarrow> int server" where
  "sdk_llm_serve cfg = withAuth (gc_bytes cfg) (gc_token cfg) (sdk_llm_mux cfg)"

section \<open>The plugin under the platform's client\<close>

definition sdk_llm_raw :: "sdk_llm_cfg \<Rightarrow> string \<Rightarrow> int \<Rightarrow> int net client" where
  "sdk_llm_raw cfg token timeout =
     \<lparr>cl_Token = token, cl_MaxResponse = 0, cl_Timeout = timeout,
      cl_HTTP = net_send (sdk_llm_serve cfg), cl_ctx = (\<lambda>_. None), cl_scrub = (\<lambda>s. s)\<rparr>"

definition sdk_llm :: "sdk_llm_cfg \<Rightarrow> string \<Rightarrow> int \<Rightarrow> string \<Rightarrow> int net remote_llm" where
  "sdk_llm cfg token timeout model = NewLLM (sdk_llm_raw cfg token timeout) model"

text \<open>A byte of a string takes at most six bytes in a JSON document.\<close>

definition json_sizes :: "(json \<Rightarrow> int) \<Rightarrow> bool" where
  "json_sizes bytes \<longleftrightarrow>
     (\<forall>m p. bytes (complete_request m p) \<le> 6 * (int (length m) + int (length p)) + 64) \<and>
     (\<forall>r. bytes (reply_doc r) \<le> 6 * int (length r) + 64) \<and> (\<forall>n. bytes (usage_doc n) \<le> 4096) \<and> bytes status_ok \<le> 4096 \<and>
     (\<forall>k m. bytes (JObj [(''error'', JObj [(''code'', JStr k), (''message'', JStr m)])]) \<le> 6 * (int (length k) + int (length m)) + 64)"

lemma json_sizes_parts:
  assumes "json_sizes bytes"
  shows "bytes (complete_request m p) \<le> 6 * (int (length m) + int (length p)) + 64"
    and "bytes (JObj [(''error'', JObj [(''code'', JStr k), (''message'', JStr m)])]) \<le> 6 * (int (length k) + int (length m)) + 64"
  using assms unfolding json_sizes_def by (blast, simp)

lemma length_trim_space: "length (trim_space s) \<le> length s"
  unfolding trim_space_def using length_dropWhile_le [of is_space] by (metis length_rev le_trans)

lemma length_sdk_complete: "length (sdk_complete cfg m p) \<le> 40 + length m + length p"
  using length_trim_space [of p] by (simp add: sdk_complete_def)

lemma trim_space_visible_first: "\<not> is_space c \<Longrightarrow> trim_space (c # s) \<noteq> []"
  unfolding trim_space_blank by auto

lemma sdk_complete_visible: "trim_space (sdk_complete cfg m p) \<noteq> []"
proof -
  have "\<not> is_space (CHR ''['')" by code_simp
  then show ?thesis unfolding sdk_complete_def by (simp add: trim_space_visible_first)
qed

lemma sdk_llm_net: "net_client (sdk_llm_serve cfg) (sdk_llm_raw cfg tk tmo)"
  "net_client (sdk_llm_serve cfg) (rl_c (sdk_llm cfg tk tmo m))"
  by (simp_all add: net_client_def sdk_llm_raw_def sdk_llm_def NewLLM_def MaxReplyBytes_def)

lemma sdk_llm_simps [simp]:
  "cl_Token (sdk_llm_raw cfg tk tmo) = tk" "cl_Token (rl_c (sdk_llm cfg tk tmo m)) = tk"
  "cl_MaxResponse (sdk_llm_raw cfg tk tmo) = 0" "cl_MaxResponse (rl_c (sdk_llm cfg tk tmo m)) = 2 ^ 20 + 4096"
  "rl_model (sdk_llm cfg tk tmo m) = m" "cl_ctx (sdk_llm_raw cfg tk tmo) w = None"
  "cl_ctx (rl_c (sdk_llm cfg tk tmo m)) w = None"
  by (simp_all add: sdk_llm_raw_def sdk_llm_def NewLLM_def MaxReplyBytes_def)

lemma sdk_llm_authorized:
  "gc_token cfg = cl_Token c \<Longrightarrow> sdk_llm_serve cfg (client_req c m p q b) n = sdk_llm_mux cfg (client_req c m p q b) n"
  by (auto simp: sdk_llm_serve_def withAuth_def client_req_def trim_prefix_def has_prefix_def)

text \<open>A completion that is delivered.\<close>

lemma complete_delivered:
  assumes "nt_script w = []" and tk: "gc_token cfg = tk" and sz: "json_sizes (gc_bytes cfg)" and p: "trim_space p \<noteq> []"
    and len: "length m \<le> 1000" "length p \<le> 100000"
  shows "plm_Complete (sdk_llm cfg tk tmo m) p w = (Inr (sdk_complete cfg m p), w\<lparr>nt_srv := nt_srv w + 1\<rparr>)"
proof -
  let ?l = "sdk_llm cfg tk tmo m" and ?req = "complete_request m p" and ?r = "sdk_complete cfg m p"
  have "gc_bytes cfg ?req \<le> 6 * (int (length m) + int (length p)) + 64" using sz by (simp add: json_sizes_def)
  then have req: "gc_bytes cfg ?req \<le> 2 ^ 20" using len by simp
  have rep: "length ?r \<le> 102000" using length_sdk_complete [of cfg m p] len by simp
  have "gc_bytes cfg (reply_doc ?r) \<le> 6 * int (length ?r) + 64" using sz by (simp add: json_sizes_def)
  then have bytes: "gc_bytes cfg (reply_doc ?r) \<le> 2 ^ 20 + 4096" using rep by simp
  have dec: "json_strict complete_fields ?req ([], []) = Inr (m, p)"
    by (simp add: complete_fields_def complete_request_def json_member_def)
  have srv: "sdk_llm_serve cfg (client_req (rl_c ?l) ''POST'' ''/v1/complete'' [] (Some ?req)) (nt_srv w) =
      (reply_json (gc_bytes cfg) 200 (reply_doc ?r), nt_srv w + 1)"
    using tk p req dec
    by (simp add: sdk_llm_authorized sdk_llm_mux_def sdk_llm_complete_def limit_body_def Let_def)
  have "decode_reply (reply_doc ?r) = Inr ?r" by (simp add: decode_reply_def reply_doc_def json_member_def)
  then have "client_get (rl_c ?l) ''POST'' ''/v1/complete'' [] (Some (Inr ?req)) decode_reply '''' w = (Inr ?r, w\<lparr>nt_srv := nt_srv w + 1\<rparr>)"
    by (intro client_get_answered [OF sdk_llm_net(2) assms(1) srv]) (use bytes in simp)
  then show ?thesis
    using rep sdk_complete_visible by (simp add: plm_Complete_def MaxReplyBytes_def)
qed

section \<open>The checks\<close>

lemma visible_prompts:
  "trim_space ''contract test: say hello'' \<noteq> []" "trim_space large_prompt \<noteq> []" "trim_space (''concurrent '' @ s) \<noteq> []"
proof -
  have "\<not> is_space (CHR ''c'')" "\<not> is_space (CHR ''h'')" by code_simp+
  then show "trim_space ''contract test: say hello'' \<noteq> []" "trim_space large_prompt \<noteq> []" "trim_space (''concurrent '' @ s) \<noteq> []"
    by (simp_all add: large_prompt_def trim_space_visible_first)
qed

lemma length_large_prompt: "length large_prompt \<le> 70000"
  by (simp add: large_prompt_def)

lemma itoa_small: "i < 8 \<Longrightarrow> length (itoa (int i)) \<le> 100"
  by (simp add: itoa_def nat_digits.simps [of i])

definition passing :: "int net check \<Rightarrow> bool" where
  "passing f \<longleftrightarrow> (\<forall>w. nt_script w = [] \<longrightarrow> fst (f w) = None \<and> nt_script (snd (f w)) = [])"

lemma passing_run:
  assumes "passing f" and "nt_script (fst st) = []" and "ctx (fst st) = None"
  shows "\<exists>u. nt_script u = [] \<and> run_check ctx name f st = (u, snd st @ [(name, Pass)])"
proof -
  have f: "fst (f (fst st)) = None" "nt_script (snd (f (fst st))) = []" using assms(1,2) by (simp_all add: passing_def)
  show ?thesis using run_check_ok [of ctx st f name, OF assms(3) f(1)] f(2) by simp
qed

lemma passing_complete:
  assumes tk: "gc_token cfg = tk" and sz: "json_sizes (gc_bytes cfg)" and m: "length m \<le> 1000"
  shows "passing (lc_reply (sdk_llm cfg tk tmo m))" and "passing (lc_large (sdk_llm cfg tk tmo m))"
    and "passing (lc_concurrent (sdk_llm cfg tk tmo m) sched)"
proof -
  note C = complete_delivered [OF _ tk sz _ m, of _ _ tmo]
  show "passing (lc_reply (sdk_llm cfg tk tmo m))"
    unfolding passing_def lc_reply_def
    by (simp add: obtaining_def calling_def C visible_prompts sdk_complete_visible refuse_if_def giving_def)
  show "passing (lc_large (sdk_llm cfg tk tmo m))"
    unfolding passing_def lc_large_def
    using length_large_prompt by (simp add: calling_def C visible_prompts giving_def)
  show "passing (lc_concurrent (sdk_llm cfg tk tmo m) sched)"
    unfolding passing_def lc_concurrent_def
  proof (intro allI impI, rule parallel_ok)
    fix p a and v :: "int net"
    assume "p \<in> set (map (\<lambda>i. [obtaining (plm_Complete (sdk_llm cfg tk tmo m) (''concurrent '' @ itoa (int i))) (\<lambda>_. giving None)]) [0..<8])"
      and "a \<in> set p" and v: "nt_script v = []"
    then obtain i where i: "i < 8" and a: "a = obtaining (plm_Complete (sdk_llm cfg tk tmo m) (''concurrent '' @ itoa (int i))) (\<lambda>_. giving None)"
      by auto
    have "length (''concurrent '' @ itoa (int i)) \<le> 100000" using itoa_small [OF i] by simp
    from C [OF v visible_prompts(3) this] show "fst (a v) = None \<and> nt_script (snd (a v)) = []"
      using v by (simp add: a obtaining_def calling_def giving_def del: append_Cons)
  qed
qed

lemma passing_others:
  assumes tk: "gc_token cfg = tk" and sz: "json_sizes (gc_bytes cfg)" and m: "length m \<le> 1000"
  shows "passing (client_Health (rl_c (sdk_llm cfg tk tmo m)))" and "passing (lc_ended e msg (sdk_llm cfg tk tmo m))"
    and "passing (lc_malformed (sdk_llm_raw cfg tk tmo) m)" and "passing (lc_usage (sdk_llm_raw cfg tk tmo))"
proof -
  have small: "gc_bytes cfg status_ok \<le> 4096" "gc_bytes cfg (usage_doc n) \<le> 4096"
    "gc_bytes cfg (complete_request m '''') \<le> 2 ^ 20"
    "gc_bytes cfg (JObj [(''error'', JObj [(''code'', JStr ''invalid_request''), (''message'', JStr ''prompt is required'')])]) \<le> 4096" for n
  proof -
    have "gc_bytes cfg (complete_request m '''') \<le> 6 * (int (length m) + int (length ('''' :: string))) + 64"
      by (rule json_sizes_parts(1) [OF sz])
    moreover have "gc_bytes cfg (JObj [(''error'', JObj [(''code'', JStr ''invalid_request''), (''message'', JStr ''prompt is required'')])])
        \<le> 6 * (int (length ''invalid_request'') + int (length ''prompt is required'')) + 64"
      by (rule json_sizes_parts(2) [OF sz])
    ultimately show "gc_bytes cfg (complete_request m '''') \<le> 2 ^ 20"
      "gc_bytes cfg (JObj [(''error'', JObj [(''code'', JStr ''invalid_request''), (''message'', JStr ''prompt is required'')])]) \<le> 4096"
      using m by simp_all
    show "gc_bytes cfg status_ok \<le> 4096" "gc_bytes cfg (usage_doc n) \<le> 4096" using sz by (simp_all add: json_sizes_def)
  qed
  show "passing (client_Health (rl_c (sdk_llm cfg tk tmo m)))"
    unfolding passing_def
  proof (intro allI impI)
    fix w :: "int net"
    assume w: "nt_script w = []"
    have "sdk_llm_serve cfg (client_req (rl_c (sdk_llm cfg tk tmo m)) ''GET'' ''/health'' [] None) (nt_srv w) =
        (reply_json (gc_bytes cfg) 200 status_ok, nt_srv w)"
      using tk by (simp add: sdk_llm_authorized sdk_llm_mux_def)
    from client_call_answered [OF sdk_llm_net(2) w this] small(1) w
    show "fst (client_Health (rl_c (sdk_llm cfg tk tmo m)) w) = None \<and>
        nt_script (snd (client_Health (rl_c (sdk_llm cfg tk tmo m)) w)) = []"
      by (simp add: client_Health_def)
  qed
  show "passing (lc_ended e msg (sdk_llm cfg tk tmo m))"
    by (simp add: passing_def lc_ended_def calling_def plm_Complete_def ended_def refuse_if_def giving_def)
  show "passing (lc_malformed (sdk_llm_raw cfg tk tmo) m)"
    unfolding passing_def lc_malformed_def
  proof (intro allI impI)
    fix w :: "int net"
    assume w: "nt_script w = []"
    have "json_strict complete_fields (complete_request m '''') ([], []) = Inr (m, [])"
      by (simp add: complete_fields_def complete_request_def json_member_def)
    then have "sdk_llm_serve cfg (client_req (sdk_llm_raw cfg tk tmo) ''POST'' ''/v1/complete'' [] (Some (complete_request m ''''))) (nt_srv w) =
        (reply_error (gc_bytes cfg) 400 ''invalid_request'' ''prompt is required'', nt_srv w)"
      using tk small(3)
      by (simp add: sdk_llm_authorized sdk_llm_mux_def sdk_llm_complete_def limit_body_def Let_def trim_space_def)
    from expect4xx_refused [OF sdk_llm_net(1) w this] small(4) w
    show "fst (expect4xx (sdk_llm_raw cfg tk tmo) ''POST'' ''/v1/complete'' (Inr (complete_request m '''')) w) = None \<and>
        nt_script (snd (expect4xx (sdk_llm_raw cfg tk tmo) ''POST'' ''/v1/complete'' (Inr (complete_request m '''')) w)) = []"
      by (simp add: DefaultMaxResponse_def)
  qed
  show "passing (lc_usage (sdk_llm_raw cfg tk tmo))"
    unfolding passing_def
  proof (intro allI impI)
    fix w :: "int net"
    assume w: "nt_script w = []"
    have "sdk_llm_serve cfg (client_req (sdk_llm_raw cfg tk tmo) ''GET'' ''/v1/usage'' [] None) (nt_srv w) =
        (reply_json (gc_bytes cfg) 200 (usage_doc (nt_srv w)), nt_srv w)"
      using tk by (simp add: sdk_llm_authorized sdk_llm_mux_def)
    moreover have any: "decode_any_map (usage_doc (nt_srv w)) = Inr ()" by (simp add: usage_doc_def)
    ultimately have "client_Do (sdk_llm_raw cfg tk tmo) ''GET'' ''/v1/usage'' [] None (Some decode_any_map) () w = ((200, None, ()), w)"
      using client_Do_delivered [OF sdk_llm_net(1) w, of cfg tk tmo "''GET''" "''/v1/usage''" "[]" None
          "reply_json (gc_bytes cfg) 200 (usage_doc (nt_srv w))" "nt_srv w" "Some decode_any_map" "()"] small(2) [of "nt_srv w"] any
      by (simp add: client_response_def Let_def reply_json_def DefaultMaxResponse_def)
    then show "fst (lc_usage (sdk_llm_raw cfg tk tmo) w) = None \<and> nt_script (snd (lc_usage (sdk_llm_raw cfg tk tmo) w)) = []"
      using w by (simp add: lc_usage_def calling_def giving_def)
  qed
qed

text \<open>C33: the SDK's LLM plugin passes the contract suite for LLM plugins: run through the platform's client, over a network
  that delivers and with the right token, every one of the eight checks passes, the concurrent one in every order of
  its calls, as long as the model's name is at most 1000 bytes long and no byte of a string takes more than six in a
  JSON document.\<close>
theorem sdk_llm_passes_its_contract:
  assumes "gc_token cfg = tk" and "json_sizes (gc_bytes cfg)" and "tg_Client t = sdk_llm_raw cfg tk tmo"
    and "length (tg_Model t) \<le> 1000" and "nt_script w = []"
  shows "map snd (snd (runLLM t sched w)) = replicate 8 Pass"
proof -
  define m where "m = (if tg_Model t = [] then ''contract-test'' else tg_Model t)"
  have m: "length m \<le> 1000" using assms(4) by (simp add: m_def)
  note P = passing_complete [OF assms(1,2) m, where tmo = tmo] passing_others [OF assms(1,2) m, where tmo = tmo]
  let ?r = "run_check (cl_ctx (tg_Client t))" and ?b = "sdk_llm cfg tk tmo m"
  have ctx: "cl_ctx (tg_Client t) v = None" for v using assms(3) by simp
  note R = passing_run [OF _ _ ctx]
  have raw: "tg_Client t = sdk_llm_raw cfg tk tmo" by (rule assms(3))
  have b: "NewLLM (sdk_llm_raw cfg tk tmo) m = ?b" by (simp add: sdk_llm_def)
  define all where "all st ns \<longleftrightarrow> nt_script (fst st) = [] \<and> map snd (snd st) = replicate ns Pass" for st :: "int net \<times> report" and ns
  have step: "all (?r name f st) (Suc n)" if "passing f" "all st n" for name f st n
    using passing_run [OF that(1), of st "cl_ctx (tg_Client t)" name] that(2) ctx
    by (auto simp: all_def replicate_append_same)
  have "all (w, []) 0" using assms(5) by (simp add: all_def)
  note s1 = step [OF P(4) this, of "''health''"]
  note s3 = step [OF P(2) step [OF P(1) s1, of "''reply''"], of "''unicode_and_large_prompt''"]
  note s5 = step [OF P(5) step [OF P(5) s3], of "''expired_deadline''"]
  note s8 = step [OF P(7) step [OF P(3) step [OF P(6) s5]], of "''usage_optional''"]
  have "all (runLLM t sched w) 8"
    unfolding runLLM_def Let_def m_def [symmetric] raw b
    using s8 [unfolded raw] by (simp add: eval_nat_numeral)
  then show ?thesis by (simp add: all_def)
qed

definition demo_llm_cfg :: sdk_llm_cfg where
  "demo_llm_cfg = \<lparr>gc_token = ''t'', gc_secret = True, gc_bytes = (\<lambda>_. 64)\<rparr>"

definition demo_llm_target :: "int net target" where
  "demo_llm_target = \<lparr>tg_Client = sdk_llm_raw demo_llm_cfg ''t'' 0, tg_Model = ''m'', tg_VectorDim = 0,
     tg_AllowUnnormalized = False, tg_RequireEmpty = True\<rparr>"

lemma sdk_llm_passes_its_contract_witness:
  "map snd (snd (runLLM demo_llm_target [7, 2, 2] \<lparr>nt_srv = 0, nt_script = []\<rparr>)) = replicate 8 Pass"
  by (rule sdk_llm_passes_its_contract [where cfg = demo_llm_cfg and tk = "''t''" and tmo = 0])
    (simp_all add: demo_llm_cfg_def demo_llm_target_def json_sizes_def)

end
