(* ===== verification/Sdk_Policy.thy ===== *)
theory Sdk_Policy
  imports Sdk_Net Protocol_Policy Policy_Spec
begin

text \<open>
  The eviction-policy plugin of the SDK (\<open>sdk/examples/policy/main.go\<close>), and the remote policy that talks to
  it: whatever the schedule of callers and sender, its victim is the one the built-in LRU policy of the
  orchestrator would choose. The plugin's state has the shape of that policy, a list and a map of pointers
  into it. Its token and the size of a document are parameters.
\<close>

record sdk_pol_cfg =
  lc_token :: string
  lc_bytes :: "json \<Rightarrow> int"

definition sdk_apply :: "string \<Rightarrow> string \<Rightarrow> lruPolicy \<Rightarrow> lruPolicy" where
  "sdk_apply op k p =
     (let found = gm_get (lru_items p) k in
      if op = ''hit'' then
        (case found of Some el \<Rightarrow> p\<lparr>lru_order := gl_move_to_front el (lru_order p)\<rparr> | None \<Rightarrow> p)
      else if op = ''insert'' then
        (case found of
           Some el \<Rightarrow> p\<lparr>lru_order := gl_move_to_front el (lru_order p)\<rparr>
         | None \<Rightarrow> (case gl_push_front k (lru_order p) of (el, l) \<Rightarrow> p\<lparr>lru_order := l, lru_items := gm_put k el (lru_items p)\<rparr>))
      else if op = ''delete'' then
        (case found of
           Some el \<Rightarrow> p\<lparr>lru_order := gl_remove el (lru_order p), lru_items := gm_del k (lru_items p)\<rparr> | None \<Rightarrow> p)
      else p)"

definition sdk_victim :: "lruPolicy \<Rightarrow> string option" where
  "sdk_victim p = gl_back (lru_order p)"

definition sdk_flush :: "lruPolicy \<Rightarrow> lruPolicy" where
  "sdk_flush p = p\<lparr>lru_order := gl_init (lru_order p), lru_items := []\<rparr>"

definition decode_events :: "json \<Rightarrow> policy_event list res" where
  "decode_events j = json_struct
     [(''events'', \<lambda>j _. res_bind (json_slice (\<lambda>x. json_struct
         [(''op'', \<lambda>j e. res_bind (json_string j (pe_Op e)) (\<lambda>x. Inr (e\<lparr>pe_Op := x\<rparr>))),
          (''id'', \<lambda>j e. res_bind (json_string j (pe_ID e)) (\<lambda>x. Inr (e\<lparr>pe_ID := x\<rparr>)))] x \<lparr>pe_Op = [], pe_ID = []\<rparr>) j)
       (\<lambda>x. Inr (case x of None \<Rightarrow> [] | Some es \<Rightarrow> es)))] j []"

definition bad_event :: "policy_event \<Rightarrow> bool" where
  "bad_event e \<longleftrightarrow> pe_ID e = [] \<or> pe_Op e \<noteq> ''hit'' \<and> pe_Op e \<noteq> ''insert'' \<and> pe_Op e \<noteq> ''delete''"

definition apply_events :: "policy_event list \<Rightarrow> lruPolicy \<Rightarrow> lruPolicy" where
  "apply_events es p = fold (\<lambda>e. sdk_apply (pe_Op e) (pe_ID e)) es p"

definition sdk_p_events :: "sdk_pol_cfg \<Rightarrow> json option \<Rightarrow> lruPolicy \<Rightarrow> http_resp \<times> lruPolicy" where
  "sdk_p_events cfg body p =
     (case map_option decode_events (limit_body (lc_bytes cfg) (4 * 2 ^ 20) body) of
        Some (Inr es) \<Rightarrow>
          if list_ex bad_event es then (reply_error (lc_bytes cfg) 400 ''invalid_request'' ''bad event'', p)
          else (reply_json (lc_bytes cfg) 200 (JObj [(''applied'', JInt (int (length es)))]), apply_events es p)
      | _ \<Rightarrow> (reply_error (lc_bytes cfg) 400 ''invalid_request'' ''events required'', p))"

definition sdk_p_mux :: "sdk_pol_cfg \<Rightarrow> lruPolicy server" where
  "sdk_p_mux cfg req p =
     (let m = hq_method req; path = hq_path req; b = lc_bytes cfg in
      if m = ''GET'' \<and> path = ''/health'' then (reply_json b 200 (JObj [(''status'', JStr ''ok'')]), p)
      else if m = ''GET'' \<and> path = ''/v1/policy'' then (reply_json b 200 (JObj [(''name'', JStr ''sdk-lru'')]), p)
      else if m = ''POST'' \<and> path = ''/v1/events'' then sdk_p_events cfg (hq_body req) p
      else if m = ''GET'' \<and> path = ''/v1/victim'' then
        (case sdk_victim p of
           Some k \<Rightarrow> (reply_json b 200 (JObj [(''id'', JStr k), (''ok'', JBool True)]), p)
         | None \<Rightarrow> (reply_json b 200 (JObj [(''ok'', JBool False)]), p))
      else if m = ''POST'' \<and> path = ''/v1/flush'' then (reply_json b 200 (JObj [(''status'', JStr ''flushed'')]), sdk_flush p)
      else (reply_unmatched, p))"

definition sdk_p_serve :: "sdk_pol_cfg \<Rightarrow> lruPolicy server" where
  "sdk_p_serve cfg = withAuth (lc_bytes cfg) (lc_token cfg) (sdk_p_mux cfg)"

section \<open>The plugin is the built-in policy\<close>

text \<open>The hooks of the orchestrator's policy that a call stands for, oldest first.\<close>

fun hook_of :: "policy_event \<Rightarrow> hook list" where
  "hook_of e =
     (if pe_Op e = ''hit'' then [Hit (pe_ID e)] else if pe_Op e = ''insert'' then [Insert (pe_ID e)]
      else if pe_Op e = ''delete'' then [Delete (pe_ID e)] else [])"

fun hooks_of :: "plugin_call \<Rightarrow> hook list" where
  "hooks_of (Events es b) = concat (map hook_of es)"
| "hooks_of (Flush_call b) = [FlushAll]"

fun answered :: "plugin_call \<Rightarrow> bool" where
  "answered (Events es b) = b"
| "answered (Flush_call b) = b"

lemma sdk_apply_hook: "sdk_apply (pe_Op e) (pe_ID e) p = fold lru_hook (hook_of e) p"
  by (auto simp: sdk_apply_def Let_def lru_OnHit_def lru_OnInsert_def lru_OnDelete_def split: option.splits prod.splits)

lemma apply_events_hooks: "apply_events es p = fold lru_hook (concat (map hook_of es)) p"
  unfolding apply_events_def
  by (induction es arbitrary: p) (simp_all add: sdk_apply_hook del: hook_of.simps)

lemma sdk_victim_lru: "sdk_victim p = lru_Victim p"
  by (simp add: sdk_victim_def lru_Victim_def)

definition call_state :: "plugin_call list \<Rightarrow> lruPolicy" where
  "call_state calls = fold lru_hook (concat (map hooks_of calls)) newLRUPolicy"

lemma call_state_run: "call_state calls = lru_run (rev (concat (map hooks_of calls)))"
  by (simp add: call_state_def lru_run_def foldr_conv_fold)

section \<open>Over the network\<close>

definition sdk_p_client :: "sdk_pol_cfg \<Rightarrow> string \<Rightarrow> int \<Rightarrow> int \<Rightarrow> lruPolicy net client" where
  "sdk_p_client cfg token maxResponse timeout = policy_client
     \<lparr>cl_Token = token, cl_MaxResponse = maxResponse, cl_Timeout = timeout,
      cl_HTTP = net_send (sdk_p_serve cfg), cl_ctx = (\<lambda>_. None), cl_scrub = (\<lambda>s. s)\<rparr>"

lemma sdk_p_client_net: "net_client (sdk_p_serve cfg) (sdk_p_client cfg tk mx tmo)"
  by (simp add: net_client_def sdk_p_client_def policy_client_def Let_def)

lemma decode_events_json: "decode_events (events_json es) = Inr es"
proof -
  let ?f = "\<lambda>x. json_struct
         [(''op'', \<lambda>j e. res_bind (json_string j (pe_Op e)) (\<lambda>x. Inr (e\<lparr>pe_Op := x\<rparr>))),
          (''id'', \<lambda>j e. res_bind (json_string j (pe_ID e)) (\<lambda>x. Inr (e\<lparr>pe_ID := x\<rparr>)))] x \<lparr>pe_Op = [], pe_ID = []\<rparr>"
  have "json_list ?f (map (\<lambda>e. JObj [(''op'', JStr (pe_Op e)), (''id'', JStr (pe_ID e))]) es) = Inr es"
    by (induction es) (simp_all add: json_member_def)
  then show ?thesis by (simp add: decode_events_def events_json_def json_member_def)
qed

lemma serve_events:
  assumes "sdk_p_serve cfg (client_req c ''POST'' ''/v1/events'' q (Some (events_json es))) p = (resp, t)"
  shows "t = p \<and> hs_status resp \<in> {400, 401} \<or> t = apply_events es p"
  using withAuth_cases [OF assms [unfolded sdk_p_serve_def]]
  by (auto simp: sdk_p_mux_def sdk_p_events_def limit_body_def decode_events_json Let_def split: if_splits)

lemma serve_policy_flush:
  assumes "sdk_p_serve cfg (client_req c ''POST'' ''/v1/flush'' q b) p = (resp, t)"
  shows "t = p \<and> hs_status resp = 401 \<or> t = sdk_flush p"
  using withAuth_cases [OF assms [unfolded sdk_p_serve_def]] by (auto simp: sdk_p_mux_def Let_def)

lemma serve_policy_get:
  assumes "sdk_p_serve cfg (client_req c ''GET'' path q b) p = (resp, t)"
  shows "t = p"
  using withAuth_cases [OF assms [unfolded sdk_p_serve_def]] by (auto simp: sdk_p_mux_def Let_def split: option.splits if_splits)

lemma serve_victim:
  assumes "sdk_p_serve cfg (client_req c ''GET'' ''/v1/victim'' q b) p = (resp, t)" and "hs_status resp \<le> 299"
  shows "hs_body resp = Body_Doc (case sdk_victim p of
      Some k \<Rightarrow> JObj [(''id'', JStr k), (''ok'', JBool True)] | None \<Rightarrow> JObj [(''ok'', JBool False)])"
  using withAuth_cases [OF assms(1) [unfolded sdk_p_serve_def]] assms(2)
  by (auto simp: sdk_p_mux_def Let_def split: option.splits)

lemma ask_victim_net:
  assumes "ask_victim (sdk_p_client cfg tk mx tmo) w = (v, t)"
  shows "nt_srv t = nt_srv w" and "v = Some k \<Longrightarrow> sdk_victim (nt_srv w) = Some k"
proof -
  let ?c = "sdk_p_client cfg tk mx tmo"
  obtain r where get: "client_get ?c ''GET'' ''/v1/victim'' [] None decode_victim ([], False) w = (r, t)"
    and v: "\<And>k. v = Some k \<Longrightarrow> r = Inr (k, True)"
    using assms by (auto simp: ask_victim_def split: prod.splits sum.splits if_splits)
  obtain resp s where srv: "sdk_p_serve cfg (client_req ?c ''GET'' ''/v1/victim'' [] None) (nt_srv w) = (resp, s)" by fastforce
  note N = client_get_net [OF sdk_p_client_net get, of resp s, unfolded option.case, OF srv]
  show "nt_srv t = nt_srv w" using N(1) serve_policy_get [OF srv] by auto
  assume "v = Some k"
  note N2 = N(2) [OF v [OF this]]
  then show "sdk_victim (nt_srv w) = Some k"
    using serve_victim [OF srv] by (auto simp: decode_victim_def json_member_def split: option.splits)
qed

lemma ask_flush_net:
  assumes "ask_flush (sdk_p_client cfg tk mx tmo) w = (e, t)"
  shows "e = None \<Longrightarrow> nt_srv t = sdk_flush (nt_srv w)"
proof -
  let ?c = "sdk_p_client cfg tk mx tmo"
  obtain resp s where srv: "sdk_p_serve cfg (client_req ?c ''POST'' ''/v1/flush'' [] (Some (JObj []))) (nt_srv w) = (resp, s)" by fastforce
  note N = client_call_net [OF sdk_p_client_net assms [unfolded ask_flush_def], of resp s, unfolded option.case sum.case, OF srv]
  show "e = None \<Longrightarrow> nt_srv t = sdk_flush (nt_srv w)" using N(2) serve_policy_flush [OF srv] by auto
qed

lemma client_get_state:
  assumes "client_get (sdk_p_client cfg tk mx tmo) ''GET'' path q None d z w = (r, t)"
  shows "nt_srv t = nt_srv w"
proof -
  obtain resp s where srv: "sdk_p_serve cfg (client_req (sdk_p_client cfg tk mx tmo) ''GET'' path q None) (nt_srv w) = (resp, s)" by fastforce
  from client_get_net(1) [OF sdk_p_client_net assms, of resp s, unfolded option.case, OF srv] serve_policy_get [OF srv]
  show ?thesis by auto
qed

lemma health_state:
  assumes "rp_Health (sdk_p_client cfg tk mx tmo) s = (e, w)"
  shows "nt_srv w = nt_srv (rp_world s)"
proof -
  let ?c = "sdk_p_client cfg tk mx tmo"
  obtain g where get: "client_call ?c ''GET'' ''/health'' None (rp_world s) = (g, w)"
    using assms by (auto simp: rp_Health_def client_Health_def split: prod.splits option.splits)
  obtain resp p where srv: "sdk_p_serve cfg (client_req ?c ''GET'' ''/health'' [] None) (nt_srv (rp_world s)) = (resp, p)" by fastforce
  from client_call_net(1) [OF sdk_p_client_net get, of resp p, unfolded option.case, OF srv] serve_policy_get [OF srv]
  show ?thesis by auto
qed

section \<open>Whatever the schedule\<close>

text \<open>Between two steps of the adapter the network may change.\<close>

definition net_env :: "lruPolicy net \<Rightarrow> lruPolicy net \<Rightarrow> bool" where
  "net_env w w' \<longleftrightarrow> nt_srv w' = nt_srv w"

definition in_sync :: "lruPolicy net remote_policy \<times> rp_trace \<Rightarrow> bool" where
  "in_sync x = (case x of (s, tr) \<Rightarrow>
     (\<forall>call \<in> set (tr_calls tr). answered call) \<longrightarrow> nt_srv (rp_world s) = call_state (tr_calls tr))"

lemma call_state_snoc: "call_state (calls @ [call]) = fold lru_hook (hooks_of call) (call_state calls)"
  by (simp add: call_state_def)

lemma sender_flush_net:
  assumes "in_sync (s, tr)"
  shows "in_sync ((sender_flush (sdk_p_client cfg tk mx tmo) s)\<lparr>rp_sender := a\<rparr>, flushed_to (sdk_p_client cfg tk mx tmo) s tr)"
proof -
  let ?c = "sdk_p_client cfg tk mx tmo" and ?es = "events_of (rp_taken s)"
  obtain e w where call: "client_call ?c ''POST'' ''/v1/events'' (Some (Inr (events_json ?es))) (rp_world s) = (e, w)" by fastforce
  obtain resp p where srv: "sdk_p_serve cfg (client_req ?c ''POST'' ''/v1/events'' [] (Some (events_json ?es))) (nt_srv (rp_world s)) = (resp, p)"
    by fastforce
  note N = client_call_net [OF sdk_p_client_net call, of resp p, unfolded option.case sum.case, OF srv]
  have "nt_srv w = apply_events ?es (nt_srv (rp_world s))" if "e = None"
    using N(2) [OF that] serve_events [OF srv] by auto
  then show ?thesis
    using assms call
    by (cases e) (auto simp: in_sync_def sender_flush_def flushed_to_def Let_def call_state_snoc apply_events_hooks)
qed

lemma caller_world: "caller_step s t \<Longrightarrow> rp_world t = rp_world s"
  by (induction rule: caller_step.induct) simp_all

lemma sender_world:
  "sender_step c b s = Some t \<Longrightarrow> rp_sender s \<noteq> Delivering \<Longrightarrow> rp_sender s = Stopping \<longrightarrow> rp_ch s \<noteq> [] \<Longrightarrow>
   rp_world t = rp_world s"
  by (auto simp: sender_step_def split: sender_at.splits list.splits if_splits)

lemma in_sync_step:
  assumes "rp_step net_env (sdk_p_client cfg tk mx tmo) x y" and "in_sync x"
  shows "in_sync y"
  using assms
proof cases
  case (delivers b s t tr)
  then consider "t = (sender_flush (sdk_p_client cfg tk mx tmo) s)\<lparr>rp_sender := Waiting\<rparr>"
    | "t = (sender_flush (sdk_p_client cfg tk mx tmo) s)\<lparr>rp_sender := Gone\<rparr>"
    by (auto simp: sender_step_def split: list.splits)
  then show ?thesis using sender_flush_net delivers(1,2) assms(2) by cases simp_all
next
  case (sender b s t tr)
  then show ?thesis using sender_world [of _ b s t] assms(2) by (auto simp: in_sync_def)
next
  case (takes b s t tr)
  then show ?thesis using sender_world [of _ b s t] assms(2) by (auto simp: in_sync_def)
next
  case (victim s v w tr)
  then show ?thesis using ask_victim_net(1) [OF victim(3)] assms(2) by (simp add: in_sync_def)
next
  case (flush s e w tr)
  then show ?thesis using ask_flush_net [OF flush(3)] assms(2)
    by (auto simp: in_sync_def call_state_snoc sdk_flush_def lru_Flush_def)
next
  case (health s e w tr)
  then show ?thesis using health_state [OF health(3)] assms(2) by (simp add: in_sync_def)
next
  case (world s w tr)
  then show ?thesis using assms(2) by (simp add: in_sync_def net_env_def)
next
  case (hit t k s tr)
  then show ?thesis using assms(2) by (simp add: in_sync_def puts_def caller_world [OF caller_steps(1)])
next
  case (ins t k s tr)
  then show ?thesis using assms(2) by (simp add: in_sync_def puts_def caller_world [OF caller_steps(2)])
next
  case (del t k s tr)
  then show ?thesis using assms(2) by (simp add: in_sync_def puts_def caller_world [OF caller_steps(3)])
next
  case (sends e s t tr)
  then show ?thesis using assms(2) by (simp add: in_sync_def puts_def caller_world [OF caller_steps(4)])
next
  case (barrier s t tr)
  then show ?thesis using assms(2) by (simp add: in_sync_def puts_def caller_world [OF caller_steps(5)])
qed (use assms(2) in \<open>auto simp: in_sync_def blocked_drops_def blocked_leaves_def\<close>)

text \<open>C32: the SDK's policy plugin is the built-in LRU policy. However callers, sender and network interleave,
  while every call was answered the victim the plugin names is the one the orchestrator's own LRU policy
  chooses after the same hooks, in the order of their delivery.\<close>

theorem remote_lru_is_lru:
  assumes "NewPolicy (sdk_p_client cfg tk mx tmo) w0 = (Inr s, w1)" and "nt_srv w0 = newLRUPolicy"
    and "(rp_step net_env (sdk_p_client cfg tk mx tmo))\<^sup>*\<^sup>* (s, rp_start) (t, tr)"
    and "\<forall>call \<in> set (tr_calls tr). answered call"
    and "ask_victim (sdk_p_client cfg tk mx tmo) (rp_world t) = (Some v, w)"
  shows "lru_Victim (lru_run (rev (concat (map hooks_of (tr_calls tr))))) = Some v"
proof -
  have pc: "policy_client (sdk_p_client cfg tk mx tmo) = sdk_p_client cfg tk mx tmo"
    by (simp add: sdk_p_client_def policy_client_def Let_def)
  obtain name where "client_get (sdk_p_client cfg tk mx tmo) ''GET'' ''/v1/policy'' [] None
      (\<lambda>j. json_struct [(''name'', json_string)] j []) [] w0 = (name, w1)" and s: "rp_world s = w1"
    using assms(1) unfolding NewPolicy_def pc by (auto split: prod.splits sum.splits if_splits)
  from client_get_state [OF this(1)] have "in_sync (s, rp_start)"
    using assms(2) s by (simp add: in_sync_def rp_start_def call_state_def)
  with assms(3) have "in_sync (t, tr)"
  proof (induction rule: rtranclp_induct)
    case (step y z)
    then show ?case using in_sync_step by blast
  qed
  then have "nt_srv (rp_world t) = lru_run (rev (concat (map hooks_of (tr_calls tr))))"
    using assms(4) by (simp add: in_sync_def call_state_run)
  then show ?thesis using ask_victim_net(2) [OF assms(5) refl] by (simp add: sdk_victim_lru)
qed


section \<open>A run\<close>

text \<open>The sender, left alone for \<open>n\<close> steps.\<close>

fun drive :: "'w client \<Rightarrow> nat \<Rightarrow> 'w remote_policy \<times> rp_trace \<Rightarrow> 'w remote_policy \<times> rp_trace" where
  "drive c 0 x = x"
| "drive c (Suc n) (s, tr) =
     (case sender_step c False s of
        None \<Rightarrow> (s, tr)
      | Some t \<Rightarrow> drive c n (t, if rp_sender s = Delivering \<or> rp_sender s = Stopping \<and> rp_ch s = [] then flushed_to c s tr else tr))"

lemma drive_steps: "(rp_step env c)\<^sup>*\<^sup>* x (drive c n x)"
proof (induction c n x rule: drive.induct)
  case (2 c n s tr)
  show ?case
  proof (cases "sender_step c False s")
    case (Some t)
    let ?x = "(t, if rp_sender s = Delivering \<or> rp_sender s = Stopping \<and> rp_ch s = [] then flushed_to c s tr else tr)"
    consider "rp_sender s = Delivering \<or> rp_sender s = Stopping \<and> rp_ch s = []"
      | "rp_sender s = Stopping" "rp_ch s \<noteq> []" | "rp_sender s \<notin> {Delivering, Stopping}" by blast
    then have "rp_step env c (s, tr) ?x"
    proof cases
      case 1
      then show ?thesis using rp_step.delivers [OF Some 1] by auto
    next
      case 2
      then show ?thesis using rp_step.takes [OF Some 2] by simp
    next
      case 3
      then show ?thesis using rp_step.sender [OF Some 3] by auto
    qed
    then show ?thesis using 2 [OF Some] Some by (simp add: converse_rtranclp_into_rtranclp)
  qed simp
qed simp

definition demo_p_client :: "lruPolicy net client" where
  "demo_p_client = sdk_p_client \<lparr>lc_token = ''t'', lc_bytes = (\<lambda>_. 100)\<rparr> ''t'' 0 0"

definition demo_policy :: "lruPolicy net remote_policy" where
  "demo_policy = (case fst (NewPolicy demo_p_client \<lparr>nt_srv = newLRUPolicy, nt_script = []\<rparr>) of Inr s \<Rightarrow> s | Inl _ \<Rightarrow> undefined)"

text \<open>Two insertions and a barrier, then the sender.\<close>

definition demo_policy_run :: "nat \<Rightarrow> lruPolicy net remote_policy \<times> rp_trace" where
  "demo_policy_run n =
     (let s1 = rp_OnInsert ''a'' demo_policy; t1 = puts demo_policy s1 rp_start;
          s2 = rp_OnInsert ''b'' s1; t2 = puts s1 s2 t1;
          s3 = put_barrier s2; t3 = puts s2 s3 t2
      in drive demo_p_client n (s3, t3))"

lemma demo_policy_new: "\<exists>w1. NewPolicy demo_p_client \<lparr>nt_srv = newLRUPolicy, nt_script = []\<rparr> = (Inr demo_policy, w1)"
proof -
  have "res_ok (fst (NewPolicy demo_p_client \<lparr>nt_srv = newLRUPolicy, nt_script = []\<rparr>))" by code_simp
  then show ?thesis
    by (cases "NewPolicy demo_p_client \<lparr>nt_srv = newLRUPolicy, nt_script = []\<rparr>")
      (auto simp: demo_policy_def res_ok_def split: sum.splits)
qed

lemma demo_policy_steps: "(rp_step net_env demo_p_client)\<^sup>*\<^sup>* (demo_policy, rp_start) (demo_policy_run n)"
proof -
  let ?s1 = "rp_OnInsert ''a'' demo_policy" and ?t1 = "puts demo_policy (rp_OnInsert ''a'' demo_policy) rp_start"
  let ?s2 = "rp_OnInsert ''b'' ?s1" and ?t2 = "puts ?s1 (rp_OnInsert ''b'' ?s1) ?t1"
  have room: "room ?s2" by code_simp
  have "rp_step net_env demo_p_client (demo_policy, rp_start) (?s1, ?t1)" by (rule rp_step.ins) simp
  moreover have "rp_step net_env demo_p_client (?s1, ?t1) (?s2, ?t2)" by (rule rp_step.ins) simp
  moreover have "rp_step net_env demo_p_client (?s2, ?t2) (put_barrier ?s2, puts ?s2 (put_barrier ?s2) ?t2)"
    by (rule rp_step.barrier [OF room]) simp
  ultimately show ?thesis
    unfolding demo_policy_run_def Let_def
    by (meson converse_rtranclp_into_rtranclp drive_steps)
qed

lemma remote_policy_events_in_order_witness:
  "rp_closed (fst (demo_policy_run 6)) = [0] \<and>
   (\<exists>more. tr_done (snd (demo_policy_run 6)) = [Event \<lparr>pe_Op = ''insert'', pe_ID = ''a''\<rparr>, Event \<lparr>pe_Op = ''insert'', pe_ID = ''b''\<rparr>]
      @ Barrier 0 # more)"
proof -
  have c: "rp_closed (fst (demo_policy_run 6)) = [0]" by code_simp
  have l: "tr_log (snd (demo_policy_run 6)) = [Event \<lparr>pe_Op = ''insert'', pe_ID = ''a''\<rparr>,
      Event \<lparr>pe_Op = ''insert'', pe_ID = ''b''\<rparr>] @ Barrier 0 # []" by code_simp
  obtain w1 where new: "NewPolicy demo_p_client \<lparr>nt_srv = newLRUPolicy, nt_script = []\<rparr> = (Inr demo_policy, w1)"
    using demo_policy_new by blast
  have run: "(rp_step net_env demo_p_client)\<^sup>*\<^sup>* (demo_policy, rp_start) (fst (demo_policy_run 6), snd (demo_policy_run 6))"
    using demo_policy_steps by simp
  have "\<forall>n before after. n \<in> set (rp_closed (fst (demo_policy_run 6))) \<and>
      tr_log (snd (demo_policy_run 6)) = before @ Barrier n # after \<longrightarrow>
      (\<exists>more. tr_done (snd (demo_policy_run 6)) = before @ Barrier n # more)"
    using remote_policy_events_in_order [OF new run] by blast
  moreover have "0 \<in> set (rp_closed (fst (demo_policy_run 6)))" by (simp add: c)
  ultimately show ?thesis using c l by blast
qed

lemma unhealthy_policy_stays_unhealthy_witness:
  "fst (rp_Health demo_p_client (demo_policy\<lparr>rp_failed := 1\<rparr>)) \<noteq> None"
  by (rule unhealthy_policy_stays_unhealthy [of "demo_policy\<lparr>rp_failed := 1\<rparr>" net_env demo_p_client rp_start
        "demo_policy\<lparr>rp_failed := 1\<rparr>" rp_start]) simp_all

lemma remote_lru_is_lru_witness:
  "lru_Victim (lru_run (rev (concat (map hooks_of (tr_calls (snd (demo_policy_run 6))))))) = Some ''a''"
proof -
  let ?w = "rp_world (fst (demo_policy_run 6))"
  obtain w1 where new: "NewPolicy demo_p_client \<lparr>nt_srv = newLRUPolicy, nt_script = []\<rparr> = (Inr demo_policy, w1)"
    using demo_policy_new by blast
  have "list_all answered (tr_calls (snd (demo_policy_run 6)))" by code_simp
  then have ans: "\<forall>call \<in> set (tr_calls (snd (demo_policy_run 6))). answered call" by (simp add: list_all_iff)
  have "fst (ask_victim demo_p_client ?w) = Some ''a''" by code_simp
  then have vic: "ask_victim demo_p_client ?w = (Some ''a'', snd (ask_victim demo_p_client ?w))" by (metis prod.collapse)
  have run: "(rp_step net_env demo_p_client)\<^sup>*\<^sup>* (demo_policy, rp_start) (fst (demo_policy_run 6), snd (demo_policy_run 6))"
    using demo_policy_steps by simp
  show ?thesis
    by (rule remote_lru_is_lru [OF new [unfolded demo_p_client_def] _ run [unfolded demo_p_client_def] ans
          vic [unfolded demo_p_client_def]]) simp
qed


end
