(* ===== verification/Sdk_Queue.thy ===== *)
theory Sdk_Queue
  imports Sdk_Net Protocol_Queue Secrets
begin

text \<open>
  The queue plugin of the SDK (\<open>sdk/examples/queue/main.go\<close>): a list of jobs with leases that expire, and the
  proof that the platform's adapter loses no job over a network that may refuse requests and lose
  replies. Parameters of the server are its token, the size of a document, and the number of times a
  waiting lease polls before the request's context ends. Its state carries what it draws from the random
  source and from the clock, in order; nothing is assumed of the clock.
\<close>

record sdk_q_cfg =
  qc_token :: string
  qc_bytes :: "json \<Rightarrow> int"
  qc_polls :: nat

record sdk_job =
  jb_ID :: string
  jb_Job :: Job
  jb_Token :: string
  jb_Attempt :: int
  jb_visible :: "int option"     \<comment> \<open>\<open>None\<close>: the zero time\<close>

record sdk_q =
  jq_jobs :: "sdk_job list"
  jq_rand :: "nat \<Rightarrow> string"
  jq_drawn :: nat
  jq_clock :: "nat \<Rightarrow> int"
  jq_ticks :: nat

definition randID :: "sdk_q \<Rightarrow> string \<times> sdk_q" where
  "randID s = (hex_encode (jq_rand s (jq_drawn s)), s\<lparr>jq_drawn := Suc (jq_drawn s)\<rparr>)"

definition time_Now :: "sdk_q \<Rightarrow> int \<times> sdk_q" where
  "time_Now s = (jq_clock s (jq_ticks s), s\<lparr>jq_ticks := Suc (jq_ticks s)\<rparr>)"

definition hidden :: "int \<Rightarrow> sdk_job \<Rightarrow> bool" where
  "hidden now j = (case jb_visible j of None \<Rightarrow> False | Some v \<Rightarrow> now < v)"

section \<open>Operations\<close>

text \<open>Leasing the oldest visible job: the jobs afterwards and the job as leased.\<close>

fun lease_first :: "int \<Rightarrow> int \<Rightarrow> string \<Rightarrow> sdk_job list \<Rightarrow> (sdk_job list \<times> sdk_job) option" where
  "lease_first now vis token [] = None"
| "lease_first now vis token (j # js) =
     (if hidden now j then map_option (\<lambda>(ks, l). (j # ks, l)) (lease_first now vis token js)
      else let l = j\<lparr>jb_Attempt := jb_Attempt j + 1, jb_Token := token, jb_visible := Some (now + vis)\<rparr> in Some (l # js, l))"

definition q_lease :: "int \<Rightarrow> sdk_q \<Rightarrow> sdk_job option \<times> sdk_q" where
  "q_lease vis s =
     (case time_Now s of (now, s1) \<Rightarrow>
        if list_all (hidden now) (jq_jobs s1) then (None, s1)
        else case randID s1 of (token, s2) \<Rightarrow>
          (case lease_first now vis token (jq_jobs s2) of
             None \<Rightarrow> (None, s2)
           | Some (js, l) \<Rightarrow> (Some l, s2\<lparr>jq_jobs := js\<rparr>)))"

fun settle_first :: "string \<Rightarrow> string \<Rightarrow> bool \<Rightarrow> sdk_job list \<Rightarrow> int \<times> sdk_job list" where
  "settle_first k token rm [] = (404, [])"
| "settle_first k token rm (j # js) =
     (if jb_ID j \<noteq> k then (case settle_first k token rm js of (code, ks) \<Rightarrow> (code, j # ks))
      else if jb_Token j = [] \<or> token \<noteq> jb_Token j then (409, j # js)
      else (200, if rm then js else j\<lparr>jb_Token := [], jb_visible := None\<rparr> # js))"

definition q_settle :: "string \<Rightarrow> string \<Rightarrow> bool \<Rightarrow> sdk_q \<Rightarrow> int \<times> sdk_q" where
  "q_settle k token rm s = (case settle_first k token rm (jq_jobs s) of (code, js) \<Rightarrow> (code, s\<lparr>jq_jobs := js\<rparr>))"

section \<open>Handlers\<close>

definition zero_job :: sdk_job where
  "zero_job = \<lparr>jb_ID = [], jb_Job = \<lparr>j_Prompt = [], j_Reply = [], j_Vector = []\<rparr>, jb_Token = [], jb_Attempt = 0, jb_visible = None\<rparr>"

definition job_fields :: "(string \<times> sdk_job setter) list" where
  "job_fields =
     [(''id'', \<lambda>j l. res_bind (json_string j (jb_ID l)) (\<lambda>x. Inr (l\<lparr>jb_ID := x\<rparr>))),
      (''prompt'', \<lambda>j l. res_bind (json_string j (j_Prompt (jb_Job l))) (\<lambda>x. Inr (l\<lparr>jb_Job := jb_Job l\<lparr>j_Prompt := x\<rparr>\<rparr>))),
      (''reply'', \<lambda>j l. res_bind (json_string j (j_Reply (jb_Job l))) (\<lambda>x. Inr (l\<lparr>jb_Job := jb_Job l\<lparr>j_Reply := x\<rparr>\<rparr>))),
      (''vector'', \<lambda>j l. res_bind (json_floats j (j_Vector (jb_Job l))) (\<lambda>x. Inr (l\<lparr>jb_Job := jb_Job l\<lparr>j_Vector := x\<rparr>\<rparr>))),
      (''lease_token'', \<lambda>j l. res_bind (json_string j (jb_Token l)) (\<lambda>x. Inr (l\<lparr>jb_Token := x\<rparr>))),
      (''attempt'', \<lambda>j l. res_bind (json_int j (jb_Attempt l)) (\<lambda>x. Inr (l\<lparr>jb_Attempt := x\<rparr>)))]"

definition sdk_q_enqueue :: "sdk_q_cfg \<Rightarrow> json option \<Rightarrow> sdk_q \<Rightarrow> http_resp \<times> sdk_q" where
  "sdk_q_enqueue cfg body s =
     (let bad = reply_error (qc_bytes cfg) 400 ''invalid_request'' ''prompt and reply are required'' in
      case map_option (\<lambda>j. json_struct job_fields j zero_job) (limit_body (qc_bytes cfg) (8 * 2 ^ 20) body) of
        Some (Inr j) \<Rightarrow>
          if j_Prompt (jb_Job j) = [] \<or> j_Reply (jb_Job j) = [] then (bad, s)
          else (case randID s of (k, s1) \<Rightarrow>
            (reply_json (qc_bytes cfg) 201 (JObj [(''id'', JStr k)]),
             s1\<lparr>jq_jobs := jq_jobs s1 @ [j\<lparr>jb_ID := k, jb_Token := [], jb_Attempt := 0\<rparr>]\<rparr>))
      | _ \<Rightarrow> (bad, s))"

record lease_req =
  lq_MaxJobs :: int
  lq_Vis :: int
  lq_Wait :: int

definition decode_lease_req :: "json option \<Rightarrow> lease_req" where
  "decode_lease_req body =
     (let zero = \<lparr>lq_MaxJobs = 0, lq_Vis = 0, lq_Wait = 0\<rparr> in
      case body of
        None \<Rightarrow> zero
      | Some j \<Rightarrow> json_lenient
          [(''max_jobs'', \<lambda>j r. res_bind (json_int j (lq_MaxJobs r)) (\<lambda>x. Inr (r\<lparr>lq_MaxJobs := x\<rparr>))),
           (''visibility_timeout_seconds'', \<lambda>j r. res_bind (json_int j (lq_Vis r)) (\<lambda>x. Inr (r\<lparr>lq_Vis := x\<rparr>))),
           (''wait_seconds'', \<lambda>j r. res_bind (json_int j (lq_Wait r)) (\<lambda>x. Inr (r\<lparr>lq_Wait := x\<rparr>)))] j zero)"

definition json_of_job :: "sdk_job \<Rightarrow> json res" where
  "json_of_job j = res_bind (json_of_floats (j_Vector (jb_Job j))) (\<lambda>v.
     Inr (JObj ([(''id'', JStr (jb_ID j)), (''prompt'', JStr (j_Prompt (jb_Job j))), (''reply'', JStr (j_Reply (jb_Job j))),
                 (''vector'', v)] @ (if jb_Token j = [] then [] else [(''lease_token'', JStr (jb_Token j))]) @
                [(''attempt'', JInt (jb_Attempt j))])))"

text \<open>The poll loop of a waiting lease; after \<open>n\<close> polls the request's context has ended.\<close>

fun lease_wait :: "nat \<Rightarrow> int \<Rightarrow> int \<Rightarrow> sdk_q \<Rightarrow> sdk_job option \<times> sdk_q" where
  "lease_wait n vis deadline s =
     (case q_lease vis s of
        (Some j, t) \<Rightarrow> (Some j, t)
      | (None, t) \<Rightarrow>
          (case time_Now t of (now, u) \<Rightarrow>
             (case n of 0 \<Rightarrow> (None, u) | Suc m \<Rightarrow> if deadline < now then (None, u) else lease_wait m vis deadline u)))"

declare lease_wait.simps [simp del]

definition sdk_q_lease :: "sdk_q_cfg \<Rightarrow> json option \<Rightarrow> sdk_q \<Rightarrow> http_resp \<times> sdk_q" where
  "sdk_q_lease cfg body s =
     (let r = decode_lease_req body;
          vis = (if lq_Vis r < 1 \<or> 3600 < lq_Vis r then 60 else lq_Vis r) * 10 ^ 9;
          wt = (if lq_Wait r < 0 \<or> 20 < lq_Wait r then 0 else lq_Wait r) * 10 ^ 9
      in case time_Now s of (now, s1) \<Rightarrow>
           (case lease_wait (qc_polls cfg) vis (now + wt) s1 of
              (None, t) \<Rightarrow> (reply_empty 204, t)
            | (Some j, t) \<Rightarrow>
                (case json_of_job j of
                   Inr x \<Rightarrow> (reply_json (qc_bytes cfg) 200 (JObj [(''jobs'', JArr [x])]), t)
                 | Inl _ \<Rightarrow> (reply_empty 200, t))))"

definition sdk_q_settle :: "sdk_q_cfg \<Rightarrow> bool \<Rightarrow> string \<Rightarrow> json option \<Rightarrow> sdk_q \<Rightarrow> http_resp \<times> sdk_q" where
  "sdk_q_settle cfg rm k body s =
     (let bad = reply_error (qc_bytes cfg) 400 ''invalid_request'' ''lease_token required'' in
      case map_option (\<lambda>j. json_struct [(''lease_token'', json_string)] j []) (limit_body (qc_bytes cfg) 4096 body) of
        Some (Inr token) \<Rightarrow>
          if token = [] then (bad, s)
          else (case q_settle k token rm s of (code, t) \<Rightarrow>
            (if code = 200 then reply_json (qc_bytes cfg) 200 (JObj [(''status'', JStr ''ok'')])
             else if code = 409 then reply_error (qc_bytes cfg) 409 ''lease_lost'' ''the lease expired or was reissued''
             else reply_error (qc_bytes cfg) code ''not_found'' ''unknown job'', t))
      | _ \<Rightarrow> (bad, s))"

text \<open>The counts of hidden and visible jobs, each by its own reading of the clock.\<close>

fun count_jobs :: "sdk_job list \<Rightarrow> int \<Rightarrow> int \<Rightarrow> sdk_q \<Rightarrow> int \<times> int \<times> sdk_q" where
  "count_jobs [] pending leased s = (pending, leased, s)"
| "count_jobs (j # js) pending leased s =
     (case time_Now s of (now, s1) \<Rightarrow>
        if hidden now j then count_jobs js pending (leased + 1) s1 else count_jobs js (pending + 1) leased s1)"

definition sdk_q_stats :: "sdk_q_cfg \<Rightarrow> sdk_q \<Rightarrow> http_resp \<times> sdk_q" where
  "sdk_q_stats cfg s =
     (case count_jobs (jq_jobs s) 0 0 s of (p, l, t) \<Rightarrow>
        (reply_json (qc_bytes cfg) 200 (JObj [(''pending'', JInt p), (''leased'', JInt l)]), t))"

text \<open>The pattern \<open>/v1/jobs/{id}/action\<close>.\<close>

definition job_path :: "string \<Rightarrow> string \<Rightarrow> string option" where
  "job_path action p =
     (if has_suffix p (''/'' @ action) then path_id ''/v1/jobs/'' (take (length p - length action - 1) p) else None)"

definition sdk_q_mux :: "sdk_q_cfg \<Rightarrow> sdk_q server" where
  "sdk_q_mux cfg req s =
     (let m = hq_method req; p = hq_path req; b = qc_bytes cfg in
      if m = ''GET'' \<and> p = ''/health'' then (reply_json b 200 (JObj [(''status'', JStr ''ok'')]), s)
      else if m = ''POST'' \<and> p = ''/v1/jobs'' then sdk_q_enqueue cfg (hq_body req) s
      else if m = ''POST'' \<and> p = ''/v1/jobs/lease'' then sdk_q_lease cfg (hq_body req) s
      else if m = ''POST'' \<and> job_path ''ack'' p \<noteq> None then sdk_q_settle cfg True (the (job_path ''ack'' p)) (hq_body req) s
      else if m = ''POST'' \<and> job_path ''nack'' p \<noteq> None then sdk_q_settle cfg False (the (job_path ''nack'' p)) (hq_body req) s
      else if m = ''GET'' \<and> p = ''/v1/jobs/stats'' then sdk_q_stats cfg s
      else (reply_unmatched, s))"

definition sdk_q_serve :: "sdk_q_cfg \<Rightarrow> sdk_q server" where
  "sdk_q_serve cfg = withAuth (qc_bytes cfg) (qc_token cfg) (sdk_q_mux cfg)"

section \<open>What the operations do to the jobs held\<close>

definition held :: "sdk_q \<Rightarrow> (string \<times> Job) list" where
  "held s = map (\<lambda>j. (jb_ID j, jb_Job j)) (jq_jobs s)"

lemma time_Now_same [simp]: "jq_jobs (snd (time_Now s)) = jq_jobs s" "jq_rand (snd (time_Now s)) = jq_rand s"
    "jq_drawn (snd (time_Now s)) = jq_drawn s"
  by (simp_all add: time_Now_def)

lemma lease_first_held:
  "lease_first now vis token js = Some (ks, l) \<Longrightarrow>
   map (\<lambda>j. (jb_ID j, jb_Job j)) ks = map (\<lambda>j. (jb_ID j, jb_Job j)) js \<and>
   (jb_ID l, jb_Job l) \<in> (\<lambda>j. (jb_ID j, jb_Job j)) ` set js"
  by (induction js arbitrary: ks) (auto simp: Let_def split: if_splits)

text \<open>The ids drawn are fresh: nothing but \<open>q_fresh\<close> is assumed of the random source.\<close>

definition q_ok :: "sdk_q \<Rightarrow> bool" where
  "q_ok s \<longleftrightarrow> inj (jq_rand s) \<and> distinct (map fst (held s)) \<and>
     (\<forall>k \<in> set (map fst (held s)). \<exists>n < jq_drawn s. k = hex_encode (jq_rand s n))"

text \<open>Nothing but readings of the clock and fewer ids left: the jobs held are the same.\<close>

definition same_jobs :: "sdk_q \<Rightarrow> sdk_q \<Rightarrow> bool" where
  "same_jobs s t \<longleftrightarrow> held t = held s \<and> jq_rand t = jq_rand s \<and> jq_drawn s \<le> jq_drawn t"

lemma same_jobs_trans: "same_jobs s t \<Longrightarrow> same_jobs t u \<Longrightarrow> same_jobs s u"
  by (auto simp: same_jobs_def)

lemma same_jobs_refl [simp]: "same_jobs s s"
  by (simp add: same_jobs_def)

lemma same_jobs_ok: "same_jobs s t \<Longrightarrow> q_ok s \<Longrightarrow> q_ok t"
  by (auto simp: same_jobs_def q_ok_def) (metis fst_conv less_le_trans)

lemma same_jobs_time: "same_jobs s (snd (time_Now s))"
  by (simp add: same_jobs_def held_def)

lemma q_lease_held:
  assumes "q_lease vis s = (r, t)"
  shows "same_jobs s t" and "r = Some l \<Longrightarrow> (jb_ID l, jb_Job l) \<in> set (held s)"
proof -
  obtain now s1 where n: "time_Now s = (now, s1)" by fastforce
  then have s1: "jq_jobs s1 = jq_jobs s" "jq_rand s1 = jq_rand s" "jq_drawn s1 = jq_drawn s"
    using time_Now_same [of s] by simp_all
  have "same_jobs s t \<and> (\<forall>l. r = Some l \<longrightarrow> (jb_ID l, jb_Job l) \<in> set (held s))"
    using assms n s1
    by (auto simp: q_lease_def randID_def same_jobs_def held_def dest!: lease_first_held
        split: if_splits option.splits)
  then show "same_jobs s t" and "r = Some l \<Longrightarrow> (jb_ID l, jb_Job l) \<in> set (held s)" by blast+
qed

lemma lease_wait_held:
  assumes "lease_wait n vis dl s = (r, t)"
  shows "same_jobs s t \<and> (\<forall>l. r = Some l \<longrightarrow> (jb_ID l, jb_Job l) \<in> set (held s))"
  using assms
proof (induction n vis dl s arbitrary: r t rule: lease_wait.induct)
  case (1 n vis dl s)
  obtain x s1 where l: "q_lease vis s = (x, s1)" by fastforce
  note L = q_lease_held [OF l]
  show ?case
  proof (cases x)
    case (Some j)
    then show ?thesis using "1.prems" l L by (simp add: lease_wait.simps [of n])
  next
    case None
    obtain now s2 where n: "time_Now s1 = (now, s2)" by fastforce
    have same: "same_jobs s s2" using same_jobs_trans [OF L(1)] same_jobs_time [of s1] n by simp
    show ?thesis
    proof (cases "\<exists>m. n = Suc m \<and> \<not> dl < now")
      case True
      then obtain m where m: "n = Suc m" "\<not> dl < now" by blast
      then have "lease_wait m vis dl s2 = (r, t)"
        using "1.prems" l None n by (simp add: lease_wait.simps [of "Suc m"])
      from "1.IH" [OF l [symmetric] None n [symmetric] m this] same same_jobs_trans [OF same]
      show ?thesis by (auto simp: same_jobs_def)
    next
      case False
      then show ?thesis using "1.prems" l None n same
        by (auto simp: lease_wait.simps [of n] split: nat.splits if_splits)
    qed
  qed
qed

lemma settle_first_keep: "settle_first k token False js = (code, ks) \<Longrightarrow>
    map (\<lambda>j. (jb_ID j, jb_Job j)) ks = map (\<lambda>j. (jb_ID j, jb_Job j)) js"
  by (induction js arbitrary: ks) (auto split: if_splits prod.splits)

lemma settle_first_remove:
  assumes "settle_first k token True js = (code, ks)" and "distinct (map jb_ID js)"
  shows "ks = js \<and> code \<noteq> 200 \<or> ks = filter (\<lambda>j. jb_ID j \<noteq> k) js"
  using assms
proof (induction js arbitrary: ks)
  case (Cons j js)
  show ?case
  proof (cases "jb_ID j = k")
    case True
    have "k \<notin> jb_ID ` set js" using Cons.prems(2) True by simp
    then have "filter (\<lambda>j. jb_ID j \<noteq> k) js = js" by (intro filter_True) blast
    then show ?thesis using Cons.prems(1) True by (auto split: if_splits)
  next
    case False
    then show ?thesis using Cons by (auto split: prod.splits)
  qed
qed simp

lemma q_settle_held:
  assumes "q_settle k token rm s = (code, t)" and "q_ok s"
  shows "held t = held s \<or> rm \<and> held t = filter (\<lambda>x. fst x \<noteq> k) (held s)"
    and "jq_rand t = jq_rand s" and "jq_drawn t = jq_drawn s"
proof -
  obtain ks where ks: "settle_first k token rm (jq_jobs s) = (code, ks)" and t: "t = s\<lparr>jq_jobs := ks\<rparr>"
    using assms(1) by (auto simp: q_settle_def split: prod.splits)
  have "distinct (map jb_ID (jq_jobs s))" using assms(2) by (simp add: q_ok_def held_def o_def)
  then show "held t = held s \<or> rm \<and> held t = filter (\<lambda>x. fst x \<noteq> k) (held s)"
    using settle_first_keep [of k token "jq_jobs s"] settle_first_remove [of k token "jq_jobs s"] ks
    by (cases rm) (auto simp: t held_def filter_map o_def)
  show "jq_rand t = jq_rand s" and "jq_drawn t = jq_drawn s" by (simp_all add: t)
qed

lemma q_settle_ok: "q_settle k token rm s = (code, t) \<Longrightarrow> q_ok s \<Longrightarrow> q_ok t"
  using q_settle_held [of k token rm s code t]
  by (auto simp: q_ok_def) (metis distinct_map_filter filter_is_subset subset_iff | fastforce)+

section \<open>The server's reaction to the platform's requests\<close>

lemma hex_digit_inj: "i < 16 \<Longrightarrow> j < 16 \<Longrightarrow> ''0123456789abcdef'' ! i = ''0123456789abcdef'' ! j \<Longrightarrow> i = j"
proof -
  have "distinct ''0123456789abcdef''" by simp
  then show "i < 16 \<Longrightarrow> j < 16 \<Longrightarrow> ''0123456789abcdef'' ! i = ''0123456789abcdef'' ! j \<Longrightarrow> i = j"
    using nth_eq_iff_index_eq [of "''0123456789abcdef''" i j] by simp
qed

lemma hex_encode_inj: "hex_encode s = hex_encode t \<Longrightarrow> s = t"
proof (induction s arbitrary: t)
  case Nil
  then show ?case by (cases t) (simp_all add: hex_encode_def)
next
  case (Cons c s)
  then obtain d u where t: "t = d # u" by (cases t) (auto simp: hex_encode_def)
  let ?h = "''0123456789abcdef''" and ?c = "of_char c :: nat" and ?d = "of_char d :: nat"
  have h: "?h ! (?c div 16) = ?h ! (?d div 16)" "?h ! (?c mod 16) = ?h ! (?d mod 16)" "hex_encode s = hex_encode u"
    using Cons.prems unfolding t hex_encode_def list.map concat.simps append_Cons append_Nil list.inject by blast+
  have b: "?c div 16 < 16" "?d div 16 < 16"
    using nat_of_char_less_256 [of c] nat_of_char_less_256 [of d] by (simp_all add: less_mult_imp_div_less)
  have "?c div 16 = ?d div 16" by (rule hex_digit_inj [OF b h(1)])
  moreover have "?c mod 16 = ?d mod 16" by (rule hex_digit_inj [OF _ _ h(2)]) simp_all
  ultimately have "?c = ?d" by (metis mod_div_mult_eq)
  then have "c = d" by simp
  then show ?case using Cons.IH [OF h(3)] t by simp
qed

lemma job_path_eq [simp]:
  assumes "ValidID k"
  shows "job_path action (''/v1/jobs/'' @ k @ ''/'' @ action) = Some k"
proof -
  have "rev (''/v1/jobs/'' @ k @ ''/'' @ action) = rev action @ ''/'' @ rev (''/v1/jobs/'' @ k)" by simp
  then have s: "has_suffix (''/v1/jobs/'' @ k @ ''/'' @ action) (''/'' @ action)"
    unfolding has_suffix_def has_prefix_def by simp
  have "take (length (x @ k @ ''/'' @ action) - length action - 1) (x @ k @ ''/'' @ action) = x @ k" for x
    by simp
  note t = this [of "''/v1/jobs/''"]
  then show ?thesis
    unfolding job_path_def t using s ValidID_nonempty [OF assms] path_id_append by (simp only: if_True) blast
qed

lemma job_path_not_lease:
  assumes "ValidID k"
  shows "''/v1/jobs/'' @ k @ ''/'' @ action \<notin> {''/v1/jobs'', ''/v1/jobs/lease'', ''/v1/jobs/stats'', ''/health''}"
proof
  assume a: "''/v1/jobs/'' @ k @ ''/'' @ action \<in> {''/v1/jobs'', ''/v1/jobs/lease'', ''/v1/jobs/stats'', ''/health''}"
  have no: "k @ CHR ''/'' # action \<noteq> w" if "CHR ''/'' \<notin> set w" for w using that by auto
  show False using a no [of "''lease''"] no [of "''stats''"] by auto
qed

lemma job_path_ack_nack: "job_path ''ack'' (''/v1/jobs/'' @ k @ ''/'' @ ''nack'') = None"
  by (simp add: job_path_def has_suffix_def has_prefix_def)

lemma serve_settle:
  assumes "sdk_q_serve cfg (client_req c ''POST'' (''/v1/jobs/'' @ k @ ''/'' @ action) q b) s = (resp, t)"
    and "ValidID k" and "action = ''ack'' \<or> action = ''nack''" and "q_ok s"
  shows "q_ok t \<and> jq_rand t = jq_rand s \<and> (held t = held s \<or> action = ''ack'' \<and> held t = filter (\<lambda>x. fst x \<noteq> k) (held s))"
proof -
  consider "t = s" | "sdk_q_settle cfg (action = ''ack'') k b s = (resp, t)"
    using withAuth_cases [OF assms(1) [unfolded sdk_q_serve_def]] job_path_not_lease [OF assms(2), of action] assms(3)
      job_path_eq [OF assms(2)] job_path_ack_nack [of k]
    by (auto simp: sdk_q_mux_def Let_def simp del: append_Cons job_path_eq)
  then show ?thesis
  proof cases
    case 2
    show ?thesis
    proof (cases "t = s")
      case False
      then obtain token code where r: "q_settle k token (action = ''ack'') s = (code, t)"
        using 2 by (auto simp: sdk_q_settle_def Let_def split: option.splits sum.splits if_splits prod.splits)
      show ?thesis using q_settle_held [OF r assms(4)] q_settle_ok [OF r assms(4)] by blast
    qed (use assms(4) in simp)
  qed (use assms(4) in simp)
qed

lemma serve_lease:
  assumes "sdk_q_serve cfg (client_req c ''POST'' ''/v1/jobs/lease'' q b) s = (resp, t)"
  shows "same_jobs s t" and "hs_status resp \<le> 299 \<Longrightarrow> hs_body resp = Body_Doc d \<Longrightarrow>
    \<exists>l x. (jb_ID l, jb_Job l) \<in> set (held s) \<and> json_of_job l = Inr x \<and> d = JObj [(''jobs'', JArr [x])]"
proof -
  consider "t = s" "hs_status resp = 401" | "sdk_q_lease cfg b s = (resp, t)"
    using withAuth_cases [OF assms [unfolded sdk_q_serve_def]] by (auto simp: sdk_q_mux_def Let_def)
  then have "same_jobs s t \<and> (hs_status resp \<le> 299 \<longrightarrow> hs_body resp = Body_Doc d \<longrightarrow>
    (\<exists>l x. (jb_ID l, jb_Job l) \<in> set (held s) \<and> json_of_job l = Inr x \<and> d = JObj [(''jobs'', JArr [x])]))"
  proof cases
    case 2
    obtain now s1 where n: "time_Now s = (now, s1)" by fastforce
    have s1: "same_jobs s s1" using same_jobs_time [of s] n by simp
    obtain vis dl r u where w: "lease_wait (qc_polls cfg) vis dl s1 = (r, u)"
      and res: "(resp, t) = (case r of None \<Rightarrow> (reply_empty 204, u)
        | Some j \<Rightarrow> (case json_of_job j of
            Inr x \<Rightarrow> (reply_json (qc_bytes cfg) 200 (JObj [(''jobs'', JArr [x])]), u)
          | Inl _ \<Rightarrow> (reply_empty 200, u)))"
      using 2 n by (simp add: sdk_q_lease_def Let_def split: prod.splits)
    have t: "t = u" using res by (auto split: option.splits sum.splits)
    note L = lease_wait_held [OF w]
    have "held s1 = held s" using s1 by (simp add: same_jobs_def)
    then show ?thesis
      using L res same_jobs_trans [OF s1] t by (auto split: option.splits sum.splits)
  qed simp
  then show "same_jobs s t" and "hs_status resp \<le> 299 \<Longrightarrow> hs_body resp = Body_Doc d \<Longrightarrow>
    \<exists>l x. (jb_ID l, jb_Job l) \<in> set (held s) \<and> json_of_job l = Inr x \<and> d = JObj [(''jobs'', JArr [x])]" by blast+
qed

lemma decode_leased_job:
  assumes "json_of_job l = Inr x" and "json_struct lease_fields x zero_lease = Inr y"
  shows "lj_ID y = jb_ID l \<and> lj_Job y = jb_Job l"
proof -
  obtain v where v: "json_of_floats (j_Vector (jb_Job l)) = Inr v"
    and x: "x = JObj ([(''id'', JStr (jb_ID l)), (''prompt'', JStr (j_Prompt (jb_Job l))), (''reply'', JStr (j_Reply (jb_Job l))),
        (''vector'', v)] @ (if jb_Token l = [] then [] else [(''lease_token'', JStr (jb_Token l))]) @ [(''attempt'', JInt (jb_Attempt l))])"
    using assms(1) by (auto simp: json_of_job_def res_bind_Inr)
  show ?thesis
    using assms(2) json_floats_marshal [OF v]
    by (auto simp: x lease_fields_def json_member_def zero_lease_def split: if_splits)
qed

lemma decode_job_request:
  assumes "job_request job = Inr j"
  shows "\<exists>z. json_struct job_fields j zero_job = Inr z \<and> jb_Job z = job"
proof -
  obtain v where v: "json_of_floats (j_Vector job) = Inr v"
    and j: "j = JObj [(''prompt'', JStr (j_Prompt job)), (''reply'', JStr (j_Reply job)), (''vector'', v)]"
    using assms by (auto simp: job_request_def res_bind_Inr)
  show ?thesis using json_floats_marshal [OF v] by (simp add: j job_fields_def json_member_def zero_job_def)
qed

lemma serve_enqueue:
  assumes "sdk_q_serve cfg (client_req c ''POST'' ''/v1/jobs'' q (Some j)) s = (resp, t)" and "job_request job = Inr j" and "q_ok s"
  shows "t = s \<and> hs_status resp \<in> {400, 401} \<or>
    q_ok t \<and> jq_rand t = jq_rand s \<and> (\<exists>k. held t = held s @ [(k, job)])"
proof -
  obtain z where z: "json_struct job_fields j zero_job = Inr z" "jb_Job z = job"
    using decode_job_request [OF assms(2)] by blast
  let ?k = "hex_encode (jq_rand s (jq_drawn s))"
  have "?k \<notin> set (map fst (held s))"
  proof
    assume "?k \<in> set (map fst (held s))"
    then obtain n where "n < jq_drawn s" "?k = hex_encode (jq_rand s n)" using assms(3) unfolding q_ok_def by blast
    then show False using assms(3) hex_encode_inj by (auto simp: q_ok_def inj_def)
  qed
  then have ok: "q_ok t" if "held t = held s @ [(?k, job)]" "jq_rand t = jq_rand s" "jq_drawn t = Suc (jq_drawn s)" for t
    using assms(3) that by (auto simp: q_ok_def less_Suc_eq)
  show ?thesis
    using withAuth_cases [OF assms(1) [unfolded sdk_q_serve_def]] z
    by (auto simp: sdk_q_mux_def sdk_q_enqueue_def limit_body_def randID_def Let_def held_def
        intro!: ok split: if_splits)
qed


section \<open>The adapter over the network\<close>

definition sdk_q_client :: "sdk_q_cfg \<Rightarrow> string \<Rightarrow> int \<Rightarrow> int \<Rightarrow> queue_opts \<Rightarrow> sdk_q net client" where
  "sdk_q_client cfg token maxResponse timeout opts = fst (NewQueue
     \<lparr>cl_Token = token, cl_MaxResponse = maxResponse, cl_Timeout = timeout,
      cl_HTTP = net_send (sdk_q_serve cfg), cl_ctx = (\<lambda>_. None), cl_scrub = (\<lambda>s. s)\<rparr> opts)"

lemma sdk_q_client_net: "net_client (sdk_q_serve cfg) (sdk_q_client cfg tk mx tmo opts)"
  by (simp add: net_client_def sdk_q_client_def NewQueue_def Let_def)

lemma pq_Enqueue_net:
  assumes net: "net_client (sdk_q_serve cfg) c" and ok: "q_ok (nt_srv w)" and run: "pq_Enqueue c job w = (r, t)"
  shows "q_ok (nt_srv t) \<and> (held (nt_srv t) = held (nt_srv w) \<and> r \<noteq> None \<or> (\<exists>k. held (nt_srv t) = held (nt_srv w) @ [(k, job)]))"
proof -
  obtain st e k where d: "client_Do c ''POST'' ''/v1/jobs'' [] (Some (job_request job)) (Some decode_id) [] w = ((st, e, k), t)"
    and r: "r = None \<Longrightarrow> e = None"
    using run by (auto simp: pq_Enqueue_def split: prod.splits option.splits)
  show ?thesis
  proof (cases "job_request job")
    case (Inl x)
    then have "t = w" "e \<noteq> None" using d net by (auto simp: client_Do_def net_client_def)
    then show ?thesis using ok r by auto
  next
    case (Inr j)
    obtain resp s where srv: "sdk_q_serve cfg (client_req c ''POST'' ''/v1/jobs'' [] (Some j)) (nt_srv w) = (resp, s)" by fastforce
    note N = client_Do_net [OF net d, of resp s, unfolded option.case Inr sum.case, OF srv]
    have "r \<noteq> None" if "hs_status resp \<in> {400, 401}" using that N(2) r by (cases e) auto
    then show ?thesis using serve_enqueue [OF srv Inr ok] N(1,2) r ok by auto
  qed
qed

lemma pq_lease_net:
  assumes net: "net_client (sdk_q_serve cfg) c" and run: "pq_lease c q w = (r, t)"
  shows "same_jobs (nt_srv w) (nt_srv t)"
    and "r = Inr (Some l) \<Longrightarrow> (lj_ID l, lj_Job l) \<in> set (held (nt_srv w)) \<and> ValidID (lj_ID l)"
proof -
  obtain st e ls where d: "client_Do c ''POST'' ''/v1/jobs/lease'' [] (Some (Inr (lease_request q))) (Some decode_lease) [] w = ((st, e, ls), t)"
    and r: "\<And>l. r = Inr (Some l) \<Longrightarrow> e = None \<and> ls = [l] \<and> ValidID (lj_ID l)"
    using run by (auto simp: pq_lease_def split: prod.splits option.splits list.splits if_splits)
  obtain resp s where srv: "sdk_q_serve cfg (client_req c ''POST'' ''/v1/jobs/lease'' [] (Some (lease_request q))) (nt_srv w) = (resp, s)"
    by fastforce
  note N = client_Do_net [OF net d, of resp s, unfolded option.case sum.case, OF srv]
  show "same_jobs (nt_srv w) (nt_srv t)" using N(1) serve_lease(1) [OF srv] by auto
  assume "r = Inr (Some l)"
  note l = r [OF this]
  obtain doc where doc: "hs_body resp = Body_Doc doc" "decode_lease doc = Inr [l]"
    using N(2) N(3) [of decode_lease] l by auto
  moreover have "hs_status resp \<le> 299" using N(2) l by auto
  ultimately obtain j x where j: "(jb_ID j, jb_Job j) \<in> set (held (nt_srv w))" "json_of_job j = Inr x"
    and "doc = JObj [(''jobs'', JArr [x])]" using serve_lease(2) [OF srv] by blast
  then have "json_struct lease_fields x zero_lease = Inr l"
    using doc(2) by (auto simp: decode_lease_def json_member_def res_bind_Inr)
  from decode_leased_job [OF j(2) this] show "(lj_ID l, lj_Job l) \<in> set (held (nt_srv w)) \<and> ValidID (lj_ID l)"
    using j(1) l by simp
qed

lemma settle_loop_net:
  assumes net: "net_client (sdk_q_serve cfg) c" and ok: "q_ok (nt_srv w)" and v: "ValidID (lj_ID j)"
    and act: "action = ''ack'' \<or> action = ''nack''" and run: "settle_loop c action j n e w = (r, t)"
  shows "q_ok (nt_srv t) \<and> (held (nt_srv t) = held (nt_srv w) \<or>
    action = ''ack'' \<and> held (nt_srv t) = filter (\<lambda>x. fst x \<noteq> lj_ID j) (held (nt_srv w)))"
  using ok run
proof (induction n arbitrary: e w)
  case 0
  then show ?case by simp
next
  case (Suc n)
  have same: "c\<lparr>cl_ctx := \<lambda>_. None\<rparr> = c" using net by (cases c) (auto simp: net_client_def)
  let ?p = "''/v1/jobs/'' @ lj_ID j @ ''/'' @ action" and ?b = "JObj [(''lease_token'', JStr (lj_Token j))]"
  obtain g w1 where call: "client_call c ''POST'' ?p (Some (Inr ?b)) w = (g, w1)" by fastforce
  obtain resp s where srv: "sdk_q_serve cfg (client_req c ''POST'' ?p [] (Some ?b)) (nt_srv w) = (resp, s)" by fastforce
  note N = client_call_net [OF net call, of resp s, unfolded option.case sum.case, OF srv]
  note S = serve_settle [OF srv v act Suc.prems(1)]
  have w1: "q_ok (nt_srv w1) \<and> (held (nt_srv w1) = held (nt_srv w) \<or>
      action = ''ack'' \<and> held (nt_srv w1) = filter (\<lambda>x. fst x \<noteq> lj_ID j) (held (nt_srv w)))"
    using N(1) S Suc.prems(1) by auto
  consider "t = w1" | e' where "settle_loop c action j n (Some e') w1 = (r, t)"
    using Suc.prems(2) call unfolding same settle_loop.simps
    by (auto simp: same simp del: append_Cons split: option.splits if_splits)
  then show ?case
  proof cases
    case 2
    from Suc.IH [OF conjunct1 [OF w1] this] w1 show ?thesis by auto
  qed (use w1 in simp)
qed

section \<open>The whole queue\<close>

text \<open>
  Producers and a worker share a queue. \<open>tried\<close> are the jobs handed to \<open>Enqueue\<close>, \<open>accepted\<close> those it
  reported no error for, \<open>finished\<close> those the handler returned no error for. Between any two calls the
  network may turn good or bad.
\<close>

type_synonym 'h queue_system = "Job list \<times> Job list \<times> Job list \<times> 'h \<times> sdk_q net"

fun done_of :: "q_round \<Rightarrow> Job list" where
  "done_of (Job_done k j) = [j]"
| "done_of _ = []"

inductive q_step :: "sdk_q net client \<Rightarrow> queue_opts \<Rightarrow> (Job \<Rightarrow> 'h \<Rightarrow> goerr option \<times> 'h) \<Rightarrow>
    'h queue_system \<Rightarrow> 'h queue_system \<Rightarrow> bool"
  for c q handler where
  enqueued: "pq_Enqueue c job w = (None, t) \<Longrightarrow>
    q_step c q handler (tried, accepted, finished, h, w) (tried @ [job], accepted @ [job], finished, h, t)"
| rejected: "pq_Enqueue c job w = (Some e, t) \<Longrightarrow>
    q_step c q handler (tried, accepted, finished, h, w) (tried @ [job], accepted, finished, h, t)"
| worked: "pq_round c q handler (h, w) = (r, g, t) \<Longrightarrow>
    q_step c q handler (tried, accepted, finished, h, w) (tried, accepted, finished @ done_of r, g, t)"
| network: "q_step c q handler (tried, accepted, finished, h, w) (tried, accepted, finished, h, w\<lparr>nt_script := fs\<rparr>)"

inductive_cases q_stepE: "q_step c q handler (tried, accepted, finished, h, w) y"

fun q_inv :: "'h queue_system \<Rightarrow> bool" where
  "q_inv (tried, accepted, finished, h, w) \<longleftrightarrow>
     q_ok (nt_srv w) \<and> mset accepted \<subseteq># mset (map snd (held (nt_srv w))) + mset finished \<and>
     (\<forall>x \<in> set (held (nt_srv w)). snd x \<in> set tried) \<and> set finished \<subseteq> set tried"

lemma subset_add_mset: "A \<subseteq># B \<Longrightarrow> A \<subseteq># add_mset x B"
  by (metis add_mset_add_single mset_subset_eq_add_left subset_mset.trans)

lemma filter_held:
  assumes "q_ok s" and "(k, job) \<in> set (held s)"
  shows "mset (map snd (held s)) = mset (map snd (filter (\<lambda>x. fst x \<noteq> k) (held s))) + {#job#}"
proof -
  have d: "distinct (map fst (held s))" using assms(1) by (simp add: q_ok_def)
  have "filter (\<lambda>x. fst x = k) xs = [(k, job)]" if "distinct (map fst xs)" "(k, job) \<in> set xs" for xs :: "(string \<times> Job) list"
    using that
  proof (induction xs)
    case (Cons x xs)
    show ?case
    proof (cases "x = (k, job)")
      case True
      then have "filter (\<lambda>x. fst x = k) xs = []" using Cons.prems(1) by (force simp: filter_empty_conv)
      then show ?thesis using True by simp
    next
      case False
      then have m: "(k, job) \<in> set xs" using Cons.prems(2) by auto
      then have "k \<in> set (map fst xs)" by force
      then have "fst x \<noteq> k" using Cons.prems(1) by auto
      note m = m this
      then show ?thesis using Cons m by simp
    qed
  qed simp
  from this [OF d assms(2)] have k: "filter (\<lambda>x. fst x = k) (held s) = [(k, job)]" .
  have "mset (held s) = mset (filter (\<lambda>x. fst x = k) (held s)) + mset (filter (\<lambda>x. fst x \<noteq> k) (held s))"
    by (induction "held s") (simp_all add: mset_filter)
  from arg_cong [OF this, of "image_mset snd"] show ?thesis by (simp add: k)
qed


lemma pq_round_inv:
  assumes net: "net_client (sdk_q_serve cfg) c" and run: "pq_round c q handler (h, w) = (r, g, t)"
    and inv: "q_inv (tried, accepted, finished, h, w)"
  shows "q_inv (tried, accepted, finished @ done_of r, g, t)"
proof -
  have ok: "q_ok (nt_srv w)" using inv by simp
  obtain x w1 where l: "pq_lease c q w = (x, w1)" by fastforce
  note L = pq_lease_net [OF net l]
  have ok1: "q_ok (nt_srv w1)" and held1: "held (nt_srv w1) = held (nt_srv w)"
    using same_jobs_ok [OF L(1) ok] L(1) by (simp_all add: same_jobs_def)
  show ?thesis
  proof (cases "\<exists>j. x = Inr (Some j)")
    case False
    then have "t = w1" "done_of r = []" using run l by (auto simp: pq_round_def split: sum.splits option.splits)
    then show ?thesis using inv ok1 held1 by simp
  next
    case True
    then obtain j where x: "x = Inr (Some j)" by blast
    note J = L(2) [OF x, unfolded held1 [symmetric]]
    have mem: "lj_Job j \<in> set (map snd (held (nt_srv w)))" using J held1 by force
    obtain herr g1 where hd: "handler (lj_Job j) h = (herr, g1)" by fastforce
    show ?thesis
    proof (cases herr)
      case (Some e)
      then obtain rr where s: "settle c ''nack'' j w1 = (rr, t)" and r: "done_of r = []"
        using run l x hd by (cases "settle c ''nack'' j w1") (auto simp: pq_round_def pq_process_def)
      from settle_loop_net [OF net ok1 conjunct2 [OF J] disjI2 [OF refl] s [unfolded settle_def]]
      show ?thesis using inv held1 r by auto
    next
      case None
      then obtain rr where s: "settle c ''ack'' j w1 = (rr, t)" and r: "done_of r = [lj_Job j]"
        using run l x hd by (cases "settle c ''ack'' j w1") (auto simp: pq_round_def pq_process_def)
      from settle_loop_net [OF net ok1 conjunct2 [OF J] disjI1 [OF refl] s [unfolded settle_def]]
      consider "q_ok (nt_srv t)" "held (nt_srv t) = held (nt_srv w)"
        | "q_ok (nt_srv t)" "held (nt_srv t) = filter (\<lambda>x. fst x \<noteq> lj_ID j) (held (nt_srv w))"
        using held1 by auto
      then show ?thesis
      proof cases
        case 1
        then show ?thesis using inv r mem by (auto intro: subset_add_mset)
      next
        case 2
        have "mset (map snd (held (nt_srv t))) + mset (finished @ [lj_Job j]) = mset (map snd (held (nt_srv w))) + mset finished"
          using filter_held [OF ok conjunct1 [OF J, unfolded held1]] 2(2) by simp
        then have sub: "mset accepted \<subseteq># mset (map snd (held (nt_srv t))) + mset (finished @ [lj_Job j])"
          using inv by (metis q_inv.simps)
        have all: "\<forall>x \<in> set (held (nt_srv t)). snd x \<in> set tried" "set (finished @ [lj_Job j]) \<subseteq> set tried"
          using inv 2(2) mem by auto
        show ?thesis unfolding q_inv.simps r using 2(1) sub all by blast
      qed
    qed
  qed
qed

lemma q_step_inv:
  assumes net: "net_client (sdk_q_serve cfg) c" and step: "q_step c q handler x y" and inv: "q_inv x"
  shows "q_inv y"
  using step inv
proof cases
  case (enqueued job w t tried accepted finished h)
  have ok: "q_ok (nt_srv w)" using inv enqueued by simp
  from pq_Enqueue_net [OF net ok enqueued(3)]
  show ?thesis using inv enqueued(1,2) by (auto simp: add.commute add.left_commute)
next
  case (rejected job w e t tried accepted finished h)
  have ok: "q_ok (nt_srv w)" using inv rejected by simp
  from pq_Enqueue_net [OF net ok rejected(3)]
  show ?thesis using inv rejected(1,2)
    by (auto intro: subset_add_mset)
next
  case (worked h w r g t tried accepted finished)
  then show ?thesis using pq_round_inv [OF net worked(3)] inv unfolding worked(1,2) by blast
next
  case (network tried accepted finished h w fs)
  then show ?thesis using inv by simp
qed

text \<open>C31: a job is never lost. In every run of producers and a worker over a network that may refuse requests
  and lose replies, each job whose \<open>Enqueue\<close> reported success is still held by the queue or its handler has
  returned without an error, as many times as it was accepted; and the handler is only given jobs that
  were handed to \<open>Enqueue\<close>.\<close>

theorem accepted_jobs_are_never_lost:
  assumes "inj (jq_rand (nt_srv w))" and "jq_jobs (nt_srv w) = []"
    and "(q_step (sdk_q_client cfg tk mx tmo opts) (queue_defaults opts) handler)\<^sup>*\<^sup>* ([], [], [], h, w)
           (tried, accepted, finished, g, t)"
  shows "mset accepted \<subseteq># mset (map jb_Job (jq_jobs (nt_srv t))) + mset finished \<and>
    set (map jb_Job (jq_jobs (nt_srv t))) \<union> set finished \<subseteq> set tried"
proof -
  have "q_inv ([], [], [], h, w)" using assms(1,2) by (simp add: q_ok_def held_def)
  with assms(3) have "q_inv (tried, accepted, finished, g, t)"
  proof (induction rule: rtranclp_induct)
    case (step y z)
    then show ?case using q_step_inv [OF sdk_q_client_net] by blast
  qed
  then show ?thesis by (auto simp: held_def o_def)
qed


definition demo_q :: "net_fault list \<Rightarrow> sdk_q net" where
  "demo_q fs = \<lparr>nt_srv = \<lparr>jq_jobs = [], jq_rand = (\<lambda>n. nat_digits n), jq_drawn = 0, jq_clock = (\<lambda>n. int n * 10 ^ 11), jq_ticks = 0\<rparr>,
     nt_script = fs\<rparr>"

definition demo_q_cfg :: sdk_q_cfg where
  "demo_q_cfg = \<lparr>qc_token = ''t'', qc_bytes = (\<lambda>_. 100), qc_polls = 2\<rparr>"

definition demo_opts :: queue_opts where
  "demo_opts = \<lparr>qo_VisibilityTimeout = 0, qo_LeaseWait = 0, qo_IdleBackoff = 0\<rparr>"

definition demo_q_client :: "sdk_q net client" where
  "demo_q_client = sdk_q_client demo_q_cfg ''t'' 0 0 demo_opts"

definition demo_job :: "string \<Rightarrow> Job" where
  "demo_job p = \<lparr>j_Prompt = p, j_Reply = ''r'', j_Vector = [F_Num 1]\<rparr>"

text \<open>A handler that fails on the job \<open>bad\<close> and counts its calls.\<close>

definition demo_handler :: "Job \<Rightarrow> nat \<Rightarrow> goerr option \<times> nat" where
  "demo_handler j n = (if j_Prompt j = ''bad'' then Some (Errorf ''no'' []) else None, Suc n)"

definition demo_run :: "net_fault list \<Rightarrow> nat \<Rightarrow> q_round list \<times> nat \<times> (string \<times> Job) list" where
  "demo_run fs n =
     (let w1 = snd (pq_Enqueue demo_q_client (demo_job ''a'') (demo_q []));
          w2 = snd (pq_Enqueue demo_q_client (demo_job ''bad'') w1)
      in case pq_Run demo_q_client (queue_defaults demo_opts) demo_handler n (0, w2\<lparr>nt_script := fs\<rparr>) of
           (rs, h, t) \<Rightarrow> (rs, h, held (nt_srv t)))"

lemma accepted_jobs_are_never_lost_witness:
  "\<exists>h t. pq_Run demo_q_client (queue_defaults demo_opts) demo_handler 2 (0, snd (pq_Enqueue demo_q_client (demo_job ''bad'') (demo_q [])))
       = ([Job_failed ''30'', Job_failed ''30''], h, t) \<and>
     mset [demo_job ''bad''] \<subseteq># mset (map jb_Job (jq_jobs (nt_srv t)))"
proof -
  let ?w = "demo_q []" and ?q = "queue_defaults demo_opts"
  obtain w1 where e: "pq_Enqueue demo_q_client (demo_job ''bad'') ?w = (None, w1)"
  proof -
    have "fst (pq_Enqueue demo_q_client (demo_job ''bad'') ?w) = None" by code_simp
    then show ?thesis using that by (metis prod.collapse)
  qed
  have "fst (pq_Run demo_q_client ?q demo_handler 2 (0, snd (pq_Enqueue demo_q_client (demo_job ''bad'') ?w))) =
      [Job_failed ''30'', Job_failed ''30'']" by code_simp
  then obtain h t where run: "pq_Run demo_q_client ?q demo_handler 2 (0, w1) = ([Job_failed ''30'', Job_failed ''30''], h, t)"
    using e by (metis prod.collapse snd_conv)
  have ctx: "cl_ctx demo_q_client w = None" for w
    using sdk_q_client_net [of demo_q_cfg "''t''" 0 0 demo_opts] by (simp add: net_client_def demo_q_client_def)
  obtain g w2 where r1: "pq_round demo_q_client ?q demo_handler (0, w1) = (Job_failed ''30'', g, w2)"
    and r2: "pq_round demo_q_client ?q demo_handler (g, w2) = (Job_failed ''30'', h, t)"
    using run ctx by (auto simp: numeral_2_eq_2 split: prod.splits)
  have "(q_step demo_q_client ?q demo_handler)\<^sup>*\<^sup>* ([], [], [], 0, ?w) ([demo_job ''bad''], [demo_job ''bad''], [], h, t)"
    using enqueued [OF e, of ?q demo_handler "[]" "[]" "[]" 0] worked [OF r1, of "[demo_job ''bad'']" "[demo_job ''bad'']" "[]"]
      worked [OF r2, of "[demo_job ''bad'']" "[demo_job ''bad'']" "[]"]
    by (simp add: converse_rtranclp_into_rtranclp)
  from accepted_jobs_are_never_lost [OF _ _ this [unfolded demo_q_client_def]]
  have "mset [demo_job ''bad''] \<subseteq># mset (map jb_Job (jq_jobs (nt_srv t)))"
    by (simp add: demo_q_def inj_def nat_digits_inj)
  then show ?thesis using run e by auto
qed

text \<open>Delivery is at least once: when the acknowledgements of a finished job do not arrive, it is handled
  again.\<close>

lemma unacknowledged_job_runs_again:
  "demo_run [Delivered, Refused_conn, Refused_conn, Refused_conn] 2 =
     ([Job_done ''30'' (demo_job ''a''), Job_done ''30'' (demo_job ''a'')], 2, [(''31'', demo_job ''bad'')])"
  by code_simp


end
