(* ===== verification/Spec2Isabelle.thy ===== *)
theory Spec2Isabelle
  imports Cache_Queue Config Contract_Embedder Contract_Models Contract_Runner Contract_Store Contract_Vector Control Controller Controller_Api Controller_Docker Controller_Laws Controller_Props Docker Dynamic_Queue Go_Float Go_Json Go_Regexp Go_Text Go_Time Guard Http_Adapters Http_Client Install Install_Props Lifecycle Llm Llm_Usage Manifest Orchestrator Orchestrator_Flow Orchestrator_Laws Orchestrator_Writes Persistence Plan_Laws Plans Plugin_Factory Policy Policy_Contract Policy_Lfu Policy_Lists Policy_Spec Ports Prelude Protocol_Models Protocol_Policy Protocol_Queue Protocol_Store Protocol_Vector Py_Build Redis_Demo Redis_Refines Redis_Registry Redis_Store Redis_Updates Registry Request_Props Requests Restore Restore_Laws Safe_Http Sdk_Llm Sdk_Net Sdk_Policy Sdk_Queue Sdk_Store Sdk_Vector_Store Secrets Side_By_Side Slots Source_Tree Stack Stack_Demo Startup Store_Switch Switch Switch_Demo Switch_Laws Switch_Props
begin

text \<open>
  LLM\_CACHE: a semantic cache in front of an LLM, with a plugin platform that replaces each of its parts at
  run time. This theory holds the theorems about the cache as a whole; the others are in the theory of the
  component they are about.

  \<^bold>\<open>The program.\<close> An orchestrator answers a query by embedding the prompt, searching a vector store, and
  either serving a stored reply or asking the LLM and queueing a cache update; a worker takes the update
  from the queue, saves it in the persistence store, indexes its vector, tells the eviction policy, and evicts
  down to the capacity. Each of the six parts sits in a slot that the plugin manager can swap for a plugin
  behind an HTTP contract: it verifies a plugin's manifest and behaviour, stores its record and secrets in a
  registry, plans the switch (fill an index, copy a store, drain a queue, flush), carries it out, and
  restores the selection after a restart.

  \<^bold>\<open>Shared theories.\<close> \<open>Prelude\<close> has errors, results and maps; \<open>Go_Text\<close>, \<open>Go_Float\<close>, \<open>Go_Time\<close>, \<open>Go_Json\<close> and
  \<open>Go_Regexp\<close> the parts of the standard library the program computes with; \<open>Ports\<close>, \<open>Persistence\<close> and \<open>Policy\<close> the
  interfaces, each with its laws as a locale (\<open>vector_store\<close>, \<open>cache_store\<close>, \<open>eviction_policy\<close>, \<open>stream_server\<close>,
  \<open>redis_server\<close>, \<open>plugin_registry\<close>, \<open>registry_db\<close>), interpreted on the implementations of the repository.

  \<^bold>\<open>The cache\<close> (\<open>src/internal\<close>):
  \<^item> \<open>Config\<close>: \<open>config/config.go\<close>; \<open>Plugin_Factory\<close>: \<open>plugin/registry.go\<close>; \<open>Startup\<close> and \<open>Guard\<close>:
    \<open>orchestrator/startup.go\<close> and \<open>guard.go\<close>.
  \<^item> \<open>Policy_Lists\<close>, \<open>Policy_Lfu\<close>, \<open>Policy\<close>, \<open>Policy_Spec\<close>, \<open>Policy_Contract\<close>: \<open>policy/\<close> and the suite of
    \<open>plugins/contract\<close> for policies; the three policies against what they promise over the history of calls.
  \<^item> \<open>Persistence\<close>, \<open>Redis_Store\<close>: \<open>persistence/\<close>; the store on Redis keeps the laws of a store on any
    server that keeps Redis' own.
  \<^item> \<open>Cache_Queue\<close>: \<open>cachequeue/redis_stream.go\<close>; \<open>Llm\<close>, \<open>Llm_Usage\<close>: \<open>llm/\<close>; \<open>Http_Adapters\<close>: \<open>vectorstore/\<close>
    and \<open>embedder/client.go\<close>.
  \<^item> \<open>Orchestrator\<close>: every handler of \<open>orchestrator/service.go\<close> as a function of the service; the theories
    \<open>Orchestrator_Laws\<close>, \<open>_Flow\<close> and \<open>_Writes\<close> describe each on every branch over lawful ports; \<open>Stack\<close> puts Redis, a
    remote vector store over a faulty network and the policies under it, and \<open>Stack_Demo\<close> is an instance that
    computes.

  \<^bold>\<open>The protocol and the SDK\<close> (\<open>src/internal/plugins/protocol\<close>, \<open>src/sdk/examples\<close>): \<open>Http_Client\<close> is the client,
  \<open>Sdk_Net\<close> a network that refuses requests and loses replies by a script; \<open>Protocol_Vector\<close> with \<open>Sdk_Vector_Store\<close>,
  \<open>Protocol_Store\<close> with \<open>Sdk_Store\<close>, \<open>Protocol_Queue\<close> with \<open>Sdk_Queue\<close> and \<open>Protocol_Policy\<close> with \<open>Sdk_Policy\<close> are an
  adapter and the plugin it talks to, proved together: the pair keeps the laws of the interface, loses no
  job, delivers events in order, is the built-in policy.

  \<^bold>\<open>The plugin platform\<close> (\<open>src/internal/plugins\<close>):
  \<^item> \<open>Lifecycle\<close>: \<open>types.go\<close>; \<open>Manifest\<close>: \<open>manifest/\<close>; \<open>Secrets\<close>: \<open>secrets/box.go\<close>; \<open>Safe_Http\<close>: \<open>safehttp/\<close>.
  \<^item> \<open>Registry\<close>: \<open>registry/record.go\<close> and \<open>memory.go\<close>; \<open>Redis_Registry\<close>: \<open>registry/redis.go\<close>; \<open>Redis_Updates\<close> has its
    concurrent updates, \<open>Redis_Refines\<close> shows that it refines the registry in memory, \<open>Redis_Demo\<close> has a
    server that keeps the assumed laws.
  \<^item> \<open>Slots\<close> and \<open>Dynamic_Queue\<close>: \<open>dynamic/\<close> and \<open>manager/slots.go\<close>.
  \<^item> \<open>Control\<close> (\<open>manager/types.go\<close> and the shared parts of \<open>manager.go\<close>), \<open>Requests\<close> and \<open>Install\<close> (\<open>manager.go\<close>,
    \<open>install.go\<close>), \<open>Plans\<close> and \<open>Switch\<close> (\<open>activate.go\<close>), \<open>Restore\<close> (\<open>lifecycle.go\<close>); their properties are in
    \<open>Plan_Laws\<close>, \<open>Store_Switch\<close> (on \<open>Side_By_Side\<close>), \<open>Switch_Laws\<close>, \<open>Switch_Props\<close>, \<open>Install_Props\<close>, \<open>Request_Props\<close> and
    \<open>Restore_Laws\<close>, over any lawful registry, with \<open>Switch_Demo\<close> as the concrete manager.

  \<^bold>\<open>The contract suites\<close> (\<open>src/internal/plugins/contract\<close>): \<open>Contract_Runner\<close> has what they share, sequences of calls, concurrent
  calls under any schedule and \<open>keeps\<close>, which says that a call keeps a property of the world; \<open>Contract_Vector\<close> and
  \<open>Contract_Store\<close> (with the locale \<open>probed_store\<close>) are the suites for vector stores and persistence, run against the
  SDK's plugins: what they do to the contents they find. \<open>Contract_Models\<close> has the suites for LLMs and embedders over
  the adapters of \<open>Protocol_Models\<close>; \<open>Sdk_Llm\<close> is the SDK's LLM plugin, which passes its suite, and \<open>Contract_Embedder\<close>
  an embedder that ends the process that verifies it. The suite for policies is \<open>Policy_Contract\<close>.

  \<^bold>\<open>The plugin controller\<close> (\<open>src/internal/plugins/controller\<close>, \<open>ctlapi\<close>), which alone drives the container engine:
  \<^item> \<open>Source_Tree\<close>: \<open>source.go\<close>, a file tree, the checks on it, copying and fetching it; \<open>Py_Build\<close>: \<open>pybuild.go\<close>;
    \<open>Docker\<close>: \<open>docker.go\<close>, the arguments given to the docker program; \<open>Controller\<close>: \<open>server.go\<close> and \<open>scan.go\<close>;
    \<open>Controller_Api\<close>: the routes, the JSON and the client \<open>ctlapi\<close>.
  \<^item> \<open>Controller_Laws\<close>: the locale \<open>guarded\<close>, what every operation of the outside world keeps every request keeps;
    \<open>Controller_Docker\<close> interprets it on the docker backend, with the commands recorded; \<open>Controller_Props\<close>
    has the properties and a run. Fetching, scanning, docker, the plugin's answers and the clock are
    parameters that may do anything; only the end of the wait for health assumes that the clock goes on.

  \<^bold>\<open>Conventions.\<close> A record of methods over a state type stands for an interface value; a method takes the state
  and returns it. An error is a \<open>goerr\<close>, a fallible call returns a sum. What the code reads from outside
  (clocks, random ids, a network, Redis, the YAML library, the cipher) is a parameter; a law assumed of it is
  an assumption of a locale, and each such locale has an instance that computes.

  \<^bold>\<open>Loops.\<close> Loops over data are recursions on it. \<open>enforceCapacity\<close>, the startup retries, the drain, the
  restoration and the controller's wait for health have no bound in the code; they are partial functions into \<open>option\<close>, and theorems show
  that they return. \<open>ParseDuration\<close> takes the length of its text as fuel, which is enough because every
  step consumes a character; \<open>List\<close> of a remote store stops after 100000 pages as the code does; \<open>Update\<close> of the
  Redis registry has the code's 60 attempts.

  \<^bold>\<open>Integers.\<close> Sizes and counters that cannot get near \<open>2^63\<close> are \<open>int\<close> or \<open>nat\<close>; where the width matters
  (quantities, durations, addresses) they are words or wrap by \<open>wrap64\<close>.

  \<^bold>\<open>Not modelled.\<close> Log lines, the HTTP routing of the admin API and the static web page, the processes of docker,
  git and the image scanner, the wiring of commands (\<open>cmd/\<close>, \<open>setup\<close>), local verification (\<open>controller/local.go\<close>), test
  doubles, the contract suites for queues and Python plugins, the SDK's embedder, the Python worker. The text syntax of JSON and YAML is a parameter or a syntax tree, as are the
  regular expressions that scrub credentials from texts. A mutex makes
  the operation it protects one step; where goroutines interleave (the queue's workers, the remote policy's
  sender, the registry's updates) the model is a step relation.
\<close>

section \<open>The cache as a whole\<close>



text \<open>C2: capacity enforcement returns, whatever fails on the way, on any well-formed service.\<close>

theorem enforce_capacity_returns:
  assumes "redis_server R up space" and "stack_ok up space s"
  shows "\<exists>r t. enforceCapacity (stack cfg R (sdk_vs_client vc tk mx tmo) E L Q clock) s = Some (r, t)"
  by (rule stack_enforce_returns [OF assms])

lemma enforce_capacity_returns_witness:
  "\<exists>r t. enforceCapacity demo_stack (demo_start [Lost_reply]) = Some (r, t)"
  unfolding demo_stack_def
  by (rule enforce_capacity_returns [OF rmem.redis_server_axioms])
    (use demo_start_synced in \<open>simp add: stack_synced_def\<close>)



text \<open>A cache hit does not depend on the LLM or the queue: with any other LLM backend and any other
  queue the same request has the same answer and the same effect.\<close>

theorem hit_needs_no_llm:
  assumes "handleQuery D body s = (HttpOk resp, t)" and "qp_CacheHit resp"
  shows "handleQuery (D\<lparr>d_L := L, d_Q := Q\<rparr>) body s = (HttpOk resp, t)"
  by (rule query_hit_ports [OF assms])

lemma hit_needs_no_llm_witness:
  "\<exists>body resp t. handleQuery (demo_stack\<lparr>d_L := \<lparr>lm_Complete = (\<lambda>_ e. (Inl (Sentinel ''down''), e))\<rparr>,
      d_Q := demo_queue\<rparr>) body (demo_after [''aa'']) = (HttpOk resp, t) \<and> qp_Reply resp = ''re: aa''"
proof (rule demo_hit)
  fix resp t
  assume q: "demo_ask ''xy'' (demo_after [''aa'']) = (HttpOk resp, t)" "qp_CacheHit resp" "qp_Reply resp = ''re: aa''"
  from hit_needs_no_llm [OF q(1) [unfolded demo_ask_def] q(2)] q(3) show ?thesis by blast
qed

text \<open>C4: a restart that succeeds serves exactly what the store kept: whatever the vector store still held,
  afterwards it indexes the stored entries with their stored vectors, and the policy follows their ids.\<close>

theorem restart_restores_the_store:
  assumes "redis_server R up space" and "redis_ok up space redis_prefix st" and "vs_net_ok v"
    and "policy_New cfg = Inr p"
    and "NewWithDependencies (stack cfg R (sdk_vs_client vc tk mx tmo) E L Q clock) n v st p e = Inr s"
  shows "stack_synced up space s \<and> stored space s = redis_view space redis_prefix st \<and>
    indexed s = (\<lambda>k. map_option e_Vector (redis_view space redis_prefix st k)) \<and> 1 \<le> cfg_TopK cfg"
  using stack_restart [OF assms] by blast

lemma restart_restores_the_store_witness:
  "\<exists>s. NewWithDependencies demo_stack 3 (sv_V (demo_start [Refused_conn])) (sv_S (demo_after [''aa'']))
      (NewManagerWith (LRU newLRUPolicy)) [] = Inr s \<and> stack_synced rm_up rm_space s \<and> demo_size s = Inr 1"
proof -
  let ?new = "NewWithDependencies demo_stack 3 (sv_V (demo_start [Refused_conn])) (sv_S (demo_after [''aa'']))
      (NewManagerWith (LRU newLRUPolicy)) []"
  have "(case ?new of Inr s \<Rightarrow> demo_size s = Inr 1 | Inl _ \<Rightarrow> False)" by code_simp
  then obtain s where s: "?new = Inr s" "demo_size s = Inr 1" by (auto split: sum.splits)
  have st: "redis_ok rm_up rm_space redis_prefix (sv_S (demo_after [''aa'']))"
    using demo_aa_synced by (simp add: stack_synced_def stack_ok_def)
  have v: "vs_net_ok (sv_V (demo_start [Refused_conn]))"
    by (simp add: vs_net_ok_def sdk_vs_ok_def demo_start_def)
  have p: "policy_New demo_cfg = Inr (NewManagerWith (LRU newLRUPolicy))" by code_simp
  from restart_restores_the_store [OF rmem.redis_server_axioms st v p s(1) [unfolded demo_stack_def]] s
  show ?thesis by blast
qed

text \<open>Once the policy's victim is unknown to the vector store, a full cache cannot shrink: every
  enforcement fails, evicts nothing and leaves the policy pointing at the same victim.\<close>

theorem eviction_stuck_on_unknown_victim:
  assumes "redis_server R up space" and "stack_ok up space s" and "0 < cfg_Capacity cfg"
    and "cfg_Capacity cfg < int (card (dom (stored space s)))"
    and "mgr_Victim (sv_P s) = Some k" and "indexed s k = None"
  shows "\<exists>err t. enforceCapacity (stack cfg R (sdk_vs_client vc tk mx tmo) E L Q clock) s = Some (Some err, t) \<and>
    sv_P t = sv_P s \<and> indexed t = indexed s \<and> sv_evictions t = sv_evictions s"
  by (rule stack_stuck [OF assms])

lemma eviction_stuck_on_unknown_victim_witness:
  "\<exists>err t. enforceCapacity demo_stack demo_stuck = Some (Some err, t) \<and> sv_P t = sv_P demo_stuck"
proof -
  have cap: "0 < cfg_Capacity demo_cfg" by code_simp
  have "demo_size demo_stuck = Inr 2" by code_simp
  then have full: "cfg_Capacity demo_cfg < int (card (dom (stored rm_space demo_stuck)))"
    using stack_size [OF rmem.redis_server_axioms demo_stuck_ok] by (simp add: demo_size_def demo_capacity)
  have victim: "mgr_Victim (sv_P demo_stuck) = Some ''0''" by code_simp
  have gone: "indexed demo_stuck ''0'' = None" by code_simp
  from eviction_stuck_on_unknown_victim [OF rmem.redis_server_axioms demo_stuck_ok cap full victim gone]
  show ?thesis unfolding demo_stack_def by blast
qed


end
